(* ===== verification/Prelude.thy ===== *)
theory Prelude
  imports Complex_Main
begin

text \<open>
  Shared vocabulary of the development: identifiers, instants, the exceptions the modelled
  modules raise, JSON values as event payloads carry them, the transaction monad in which
  every repository method is written, and the list functions that stand for the SQL
  statements those methods execute. The collections \<open>tx_simps\<close> (evaluation of the
  transaction combinators) and \<open>keeps_intros\<close> (preservation of an invariant) carry most
  component proofs.
\<close>

named_theorems tx_simps
named_theorems keeps_intros

section \<open>Identifiers, instants, numbers\<close>

text \<open>
  An identifier drawn from \<open>uuid.uuid4()\<close> is a number taken from a counter: the model keeps
  the one property of uuids the code relies on, that a new one differs from every earlier
  one. An instant (an aware UTC \<open>datetime\<close>) is the number of microseconds since the epoch,
  the resolution of Python's \<open>datetime\<close>. A Python \<open>float\<close> is a real number: rounding is
  not modelled.
\<close>

type_synonym uid = nat
type_synonym time = int

definition second :: time where "second = 1000000"
definition minute :: time where "minute = 60000000"
definition hour :: time where "hour = 3600000000"
definition day :: time where "day = 86400000000"

lemmas time_units = second_def minute_def hour_def day_def

section \<open>Exceptions\<close>

text \<open>
  Every exception class the modelled code raises. The string arguments are the \<open>.value\<close>s
  the Python exceptions carry.
\<close>

datatype exn =
    NestedTransactionError
  | OperationalError
  | IntegrityError
  | KeyError string
  | ValueError
  | TypeError
  | AttributeError
  | StartupLeaseNotAcquired
  | IncidentNotFoundError uid
  | PenaltyWindowNotFound uid
  | RecoveryPlanNotFoundError uid
  | RecoveryTaskNotFoundError uid
  | InvalidTaskTransitionError uid string string
  | GoalNotFoundError uid
  | GoalChangeProposalNotFoundError uid
  | InvalidGoalTransitionError uid string string
  | InvalidProposalStateError uid string
  | ActiveModeTransitionExistsError
  | NoActiveModeTransitionError
  | MinimumTimeInAdvancedNotMetError
  | ModeTransitionNotConfirmableError
  | ModeTransitionSourceModeMismatchError
  | ModeTransitionInterruptedByPenaltyWindowError
  | InvalidTaskTemplateVersionError
  | TaskTemplateNotFoundError
  | TaskTemplateEligibilityTransitionError
  | TaskTemplateNotFoundForAssignmentError
  | TaskNotEligibleError
  | TaskAssignmentReferentialIntegrityError
  | TaskAssignmentConcurrencyError
  | TaskAssignmentNotFoundError
  | TaskAssignmentTransitionError
  | UnknownIdentityError
  | WorkingMemoryCapacityError
  | IndexError
  | LookupError
  | AssertionError
  | ProviderNamespaceMismatchError
  | ProviderNamespaceCollisionError
  | RequiredProviderFailedError
  | UnsupportedFragmentDataError
  | LLMGenerationError string
  | TokenDecryptionError
  | ChasterTokenExchangeError
  | ChasterIdentityResolutionUnavailable
  | ChasterLockApiError string
  | LockFieldsUnconfirmedError string
  | JSONDecodeError
  | RecursionError
  | RuntimeError
  | InvalidPluginManifestError
  | PluginConventionError
  | PluginCapabilityNotGrantedError

section \<open>JSON values\<close>

text \<open>
  Event payloads are dictionaries serialised with \<open>json.dumps\<close> and read back with
  \<open>json.loads\<close>; the model keeps the value and omits the text. \<open>JId\<close> is a string that
  holds a generated identifier.
\<close>

datatype json = JNull | JBool bool | JInt int | JNum real | JStr string | JId uid | JArr "json list"

type_synonym payload = "(string \<times> json) list"

definition payload_item :: "payload \<Rightarrow> string \<Rightarrow> exn + json" where
  \<comment> \<open>\<open>payload[key]\<close>\<close>
  "payload_item p k = (case map_of p k of None \<Rightarrow> Inl (KeyError k) | Some v \<Rightarrow> Inr v)"

fun json_id :: "json \<Rightarrow> exn + uid" where
  "json_id (JId i) = Inr i"
| "json_id _ = Inl TypeError"

fun json_str :: "json \<Rightarrow> exn + string" where
  "json_str (JStr s) = Inr s"
| "json_str _ = Inl TypeError"

fun json_num :: "json \<Rightarrow> exn + real" where
  "json_num (JNum x) = Inr x"
| "json_num (JInt i) = Inr (real_of_int i)"
| "json_num _ = Inl TypeError"

fun json_bool :: "json \<Rightarrow> exn + bool" where
  "json_bool (JBool b) = Inr b"
| "json_bool _ = Inl TypeError"

section \<open>The transaction monad\<close>

text \<open>
  A computation inside one open transaction: it reads and changes the working copy of the
  database and either raises or returns a value. \<open>tx_bind\<close> is sequencing; an exception
  skips the rest.
\<close>

type_synonym ('s, 'a) tx = "'s \<Rightarrow> exn + ('a \<times> 's)"

definition tx_return :: "'a \<Rightarrow> ('s, 'a) tx" where
  "tx_return a = (\<lambda>s. Inr (a, s))"

definition tx_raise :: "exn \<Rightarrow> ('s, 'a) tx" where
  "tx_raise e = (\<lambda>s. Inl e)"

definition tx_bind :: "('s, 'a) tx \<Rightarrow> ('a \<Rightarrow> ('s, 'b) tx) \<Rightarrow> ('s, 'b) tx" where
  "tx_bind m f = (\<lambda>s. case m s of Inl e \<Rightarrow> Inl e | Inr (a, s') \<Rightarrow> f a s')"

definition tx_get :: "('s \<Rightarrow> 'a) \<Rightarrow> ('s, 'a) tx" where
  "tx_get f = (\<lambda>s. Inr (f s, s))"

definition tx_modify :: "('s \<Rightarrow> 's) \<Rightarrow> ('s, unit) tx" where
  "tx_modify g = (\<lambda>s. Inr ((), g s))"

definition tx_require :: "bool \<Rightarrow> exn \<Rightarrow> ('s, unit) tx" where
  \<comment> \<open>\<open>if not c: raise e\<close>\<close>
  "tx_require c e = (if c then tx_return () else tx_raise e)"

definition tx_lift :: "exn + 'a \<Rightarrow> ('s, 'a) tx" where
  "tx_lift r = (case r of Inl e \<Rightarrow> tx_raise e | Inr a \<Rightarrow> tx_return a)"

definition tx_the :: "exn \<Rightarrow> 'a option \<Rightarrow> ('s, 'a) tx" where
  \<comment> \<open>\<open>if row is None: raise e\<close>\<close>
  "tx_the e r = (case r of None \<Rightarrow> tx_raise e | Some a \<Rightarrow> tx_return a)"

fun tx_for :: "'a list \<Rightarrow> ('a \<Rightarrow> ('s, unit) tx) \<Rightarrow> ('s, unit) tx" where
  "tx_for [] f = tx_return ()"
| "tx_for (x # xs) f = tx_bind (f x) (\<lambda>_. tx_for xs f)"

lemma tx_return_apply [tx_simps]: "tx_return a s = Inr (a, s)"
  by (simp add: tx_return_def)

lemma tx_raise_apply [tx_simps]: "tx_raise e s = Inl e"
  by (simp add: tx_raise_def)

lemma tx_get_apply [tx_simps]: "tx_get f s = Inr (f s, s)"
  by (simp add: tx_get_def)

lemma tx_modify_apply [tx_simps]: "tx_modify g s = Inr ((), g s)"
  by (simp add: tx_modify_def)

lemma tx_require_apply [tx_simps]: "tx_require c e s = (if c then Inr ((), s) else Inl e)"
  by (simp add: tx_require_def tx_simps)

lemma tx_lift_Inl [tx_simps]: "tx_lift (Inl e) = tx_raise e"
  by (simp add: tx_lift_def)

lemma tx_lift_Inr [tx_simps]: "tx_lift (Inr a) = tx_return a"
  by (simp add: tx_lift_def)

lemma tx_the_None [tx_simps]: "tx_the e None = tx_raise e"
  by (simp add: tx_the_def)

lemma tx_the_Some [tx_simps]: "tx_the e (Some a) = tx_return a"
  by (simp add: tx_the_def)

lemma tx_bind_apply: "tx_bind m f s = (case m s of Inl e \<Rightarrow> Inl e | Inr (a, s') \<Rightarrow> f a s')"
  by (simp add: tx_bind_def)

lemma tx_bind_Inl [tx_simps]: "m s = Inl e \<Longrightarrow> tx_bind m f s = Inl e"
  by (simp add: tx_bind_def)

lemma tx_bind_Inr [tx_simps]: "m s = Inr (a, s') \<Longrightarrow> tx_bind m f s = f a s'"
  by (simp add: tx_bind_def)

lemma tx_bind_eq_Inr:
  "tx_bind m f s = Inr r \<longleftrightarrow> (\<exists>a s'. m s = Inr (a, s') \<and> f a s' = Inr r)"
  by (auto simp: tx_bind_def split: sum.splits)

lemma tx_bind_InrE:
  assumes "tx_bind m f s = Inr r"
  obtains a s' where "m s = Inr (a, s')" and "f a s' = Inr r"
  using assms by (auto simp: tx_bind_eq_Inr)

lemma tx_bind_return_left [simp]: "tx_bind (tx_return a) f = f a"
  by (rule ext) (simp add: tx_bind_def tx_return_def)

lemma tx_bind_raise_left [simp]: "tx_bind (tx_raise e) f = tx_raise e"
  by (rule ext) (simp add: tx_bind_def tx_raise_def)

lemma tx_bind_assoc: "tx_bind (tx_bind m f) g = tx_bind m (\<lambda>a. tx_bind (f a) g)"
  by (rule ext) (simp add: tx_bind_def split: sum.splits)

lemma tx_the_eq_Inr: "tx_the e r s = Inr (a, s') \<longleftrightarrow> r = Some a \<and> s' = s"
  by (auto simp: tx_the_def tx_simps split: option.splits)

lemma tx_require_eq_Inr: "tx_require c e s = Inr (u, s') \<longleftrightarrow> c \<and> s' = s"
  by (auto simp: tx_require_def tx_simps)

lemma tx_lift_eq_Inr: "tx_lift r s = Inr (a, s') \<longleftrightarrow> r = Inr a \<and> s' = s"
  by (auto simp: tx_lift_def tx_simps split: sum.splits)

lemmas tx_success = tx_bind_eq_Inr tx_the_eq_Inr tx_require_eq_Inr tx_lift_eq_Inr
  tx_return_apply tx_raise_apply tx_get_apply tx_modify_apply

subsection \<open>Preservation of an invariant\<close>

definition keeps :: "('s \<Rightarrow> bool) \<Rightarrow> ('s, 'a) tx \<Rightarrow> bool" where
  "keeps I m \<longleftrightarrow> (\<forall>s a s'. I s \<longrightarrow> m s = Inr (a, s') \<longrightarrow> I s')"

lemma keepsI: "(\<And>s a s'. I s \<Longrightarrow> m s = Inr (a, s') \<Longrightarrow> I s') \<Longrightarrow> keeps I m"
  by (simp add: keeps_def)

lemma keepsD: "keeps I m \<Longrightarrow> I s \<Longrightarrow> m s = Inr (a, s') \<Longrightarrow> I s'"
  by (simp add: keeps_def)

lemma keeps_return [keeps_intros]: "keeps I (tx_return a)"
  by (simp add: keeps_def tx_return_def)

lemma keeps_raise [keeps_intros]: "keeps I (tx_raise e)"
  by (simp add: keeps_def tx_raise_def)

lemma keeps_get [keeps_intros]: "keeps I (tx_get f)"
  by (simp add: keeps_def tx_get_def)

lemma keeps_require [keeps_intros]: "keeps I (tx_require c e)"
  by (auto simp: keeps_def tx_require_eq_Inr)

lemma keeps_lift [keeps_intros]: "keeps I (tx_lift r)"
  by (auto simp: keeps_def tx_lift_eq_Inr)

lemma keeps_the [keeps_intros]: "keeps I (tx_the e r)"
  by (auto simp: keeps_def tx_the_eq_Inr)

lemma keeps_modify: "(\<And>s. I s \<Longrightarrow> I (g s)) \<Longrightarrow> keeps I (tx_modify g)"
  by (simp add: keeps_def tx_modify_def)

lemma keeps_bind [keeps_intros]:
  "keeps I m \<Longrightarrow> (\<And>a. keeps I (f a)) \<Longrightarrow> keeps I (tx_bind m f)"
  unfolding keeps_def tx_bind_eq_Inr by blast

lemma keeps_if [keeps_intros]: "keeps I m \<Longrightarrow> keeps I m' \<Longrightarrow> keeps I (if b then m else m')"
  by simp

lemma keeps_for [keeps_intros]: "(\<And>x. keeps I (f x)) \<Longrightarrow> keeps I (tx_for xs f)"
proof (induction xs)
  case Nil
  show ?case by (simp add: keeps_return)
next
  case (Cons x xs)
  then show ?case unfolding tx_for.simps by (blast intro: keeps_bind)
qed

section \<open>Tables\<close>

text \<open>
  A table is the list of its rows in insertion (rowid) order. \<open>UPDATE ... WHERE\<close> maps over
  it, \<open>SELECT ... WHERE key = ?\<close> on a unique key is \<open>find\<close>, \<open>COUNT(*)\<close> is the length of
  the filtered list.
\<close>

definition update_where :: "('r \<Rightarrow> bool) \<Rightarrow> ('r \<Rightarrow> 'r) \<Rightarrow> 'r list \<Rightarrow> 'r list" where
  "update_where c f rs = map (\<lambda>r. if c r then f r else r) rs"

definition count_where :: "('r \<Rightarrow> bool) \<Rightarrow> 'r list \<Rightarrow> nat" where
  "count_where c rs = length (filter c rs)"

lemma update_where_Nil [simp]: "update_where c f [] = []"
  by (simp add: update_where_def)

lemma update_where_Cons [simp]:
  "update_where c f (r # rs) = (if c r then f r else r) # update_where c f rs"
  by (simp add: update_where_def)

lemma update_where_append [simp]:
  "update_where c f (xs @ ys) = update_where c f xs @ update_where c f ys"
  by (simp add: update_where_def)

lemma length_update_where [simp]: "length (update_where c f rs) = length rs"
  by (simp add: update_where_def)

lemma set_update_where:
  "set (update_where c f rs) = {r \<in> set rs. \<not> c r} \<union> f ` {r \<in> set rs. c r}"
  by (auto simp: update_where_def)

lemma update_where_mem: "r \<in> set rs \<Longrightarrow> (if c r then f r else r) \<in> set (update_where c f rs)"
  by (simp add: update_where_def)

lemma in_update_whereE:
  assumes "x \<in> set (update_where c f rs)"
  obtains (same) "x \<in> set rs" and "\<not> c x" | (changed) r where "r \<in> set rs" and "c r" and "x = f r"
  using assms by (auto simp: set_update_where)

lemma map_update_where:
  "(\<And>r. c r \<Longrightarrow> k (f r) = k r) \<Longrightarrow> map k (update_where c f rs) = map k rs"
  by (simp add: update_where_def)

lemma update_where_id: "(\<And>r. r \<in> set rs \<Longrightarrow> \<not> c r) \<Longrightarrow> update_where c f rs = rs"
  by (simp add: update_where_def map_idI)

lemma update_where_absent: "k \<notin> key ` set rs \<Longrightarrow> update_where (\<lambda>r. key r = k) f rs = rs"
  by (intro update_where_id) auto

lemma update_where_ident [simp]: "update_where c id rs = rs" "update_where c (\<lambda>r. r) rs = rs"
  by (induction rs) auto

lemma count_where_Nil [simp]: "count_where c [] = 0"
  by (simp add: count_where_def)

lemma count_where_Cons [simp]:
  "count_where c (r # rs) = (if c r then Suc (count_where c rs) else count_where c rs)"
  by (simp add: count_where_def)

lemma count_where_append [simp]:
  "count_where c (xs @ ys) = count_where c xs + count_where c ys"
  by (simp add: count_where_def)

lemma count_where_0: "count_where c rs = 0 \<longleftrightarrow> (\<forall>r \<in> set rs. \<not> c r)"
  by (simp add: count_where_def filter_empty_conv)

lemma count_where_le_length: "count_where c rs \<le> length rs"
  by (simp add: count_where_def)

subsection \<open>Lookup by a unique key\<close>

definition row_by :: "('r \<Rightarrow> 'k) \<Rightarrow> 'k \<Rightarrow> 'r list \<Rightarrow> 'r option" where
  "row_by key k rs = find (\<lambda>r. key r = k) rs"

lemma row_by_Nil [simp]: "row_by key k [] = None"
  by (simp add: row_by_def)

lemma row_by_Cons [simp]:
  "row_by key k (r # rs) = (if key r = k then Some r else row_by key k rs)"
  by (simp add: row_by_def)

lemma row_by_SomeD: "row_by key k rs = Some r \<Longrightarrow> r \<in> set rs \<and> key r = k"
  by (auto simp: row_by_def find_Some_iff)

lemma row_by_None: "row_by key k rs = None \<longleftrightarrow> (\<forall>r \<in> set rs. key r \<noteq> k)"
  by (auto simp: row_by_def find_None_iff)

lemma row_by_append:
  "row_by key k (xs @ ys) = (case row_by key k xs of None \<Rightarrow> row_by key k ys | Some r \<Rightarrow> Some r)"
  by (induction xs) auto

lemma row_by_unique:
  "distinct (map key rs) \<Longrightarrow> r \<in> set rs \<Longrightarrow> row_by key (key r) rs = Some r"
  by (induction rs) (auto simp: image_iff)

lemma row_by_update_where:
  assumes "\<And>r. c r \<Longrightarrow> key (f r) = key r"
  shows "row_by key k (update_where c f rs)
    = map_option (\<lambda>r. if c r then f r else r) (row_by key k rs)"
  using assms by (induction rs) auto

lemma distinct_key_eq:
  "distinct (map key rs) \<Longrightarrow> r \<in> set rs \<Longrightarrow> r' \<in> set rs \<Longrightarrow> key r = key r' \<Longrightarrow> r = r'"
  by (induction rs) (auto simp: image_iff)

subsection \<open>Finite sums over a list\<close>

lemma sum_list_update_where_zero:
  fixes g :: "'r \<Rightarrow> real"
  assumes "\<And>r. r \<in> set rs \<Longrightarrow> c r \<Longrightarrow> g (f r) = g r"
  shows "sum_list (map g (update_where c f rs)) = sum_list (map g rs)"
  using assms by (induction rs) auto

end
