(* ===== verification/Trust_Rules.thy ===== *)
theory Trust_Rules
  imports Prelude
begin

text \<open>
  The pure part of the Trust Manager: the enumerations and dataclasses of
  \<open>trust_manager/models.py\<close>, the severity rubric of \<open>trust_manager/severity.py\<close> and the score
  arithmetic of \<open>trust_manager/recalculation.py\<close>. The lemmas give the bounds and the
  monotonicity that the design calls TI5, TI9 and TI19.
\<close>

section \<open>Enumerations and dataclasses\<close>

datatype impact_level = Impact_Low | Impact_Medium | Impact_High
datatype intent_assessment = Unintentional | Unclear | Deliberate
datatype breach_directness = Indirect | Partial | Direct
datatype evidence_confidence_level = Confidence_Low | Confidence_Medium | Confidence_High
datatype severity_tier = MINOR | MODERATE | MAJOR | CRITICAL
datatype incident_confirmation = UNCONFIRMED | PROVISIONAL | CONFIRMED
datatype confirmation_source = SYSTEM_VERIFIED | USER_ACKNOWLEDGED | KEYHOLDER_REVIEW
datatype evidence_type = INCIDENT_IMPACT | RECOVERY_PROGRESS | SUSTAINED_PERIOD
  | MANUAL_REVIEW | GOAL_PROGRESS | GOAL_SETBACK

fun severity_value :: "severity_tier \<Rightarrow> string" where
  "severity_value MINOR = ''minor''"
| "severity_value MODERATE = ''moderate''"
| "severity_value MAJOR = ''major''"
| "severity_value CRITICAL = ''critical''"

definition severity_of_value :: "string \<Rightarrow> exn + severity_tier" where
  \<comment> \<open>\<open>SeverityTier(value)\<close>\<close>
  "severity_of_value v =
     (if v = ''minor'' then Inr MINOR else if v = ''moderate'' then Inr MODERATE
      else if v = ''major'' then Inr MAJOR else if v = ''critical'' then Inr CRITICAL
      else Inl ValueError)"

fun confirmation_value :: "incident_confirmation \<Rightarrow> string" where
  "confirmation_value UNCONFIRMED = ''unconfirmed''"
| "confirmation_value PROVISIONAL = ''provisional''"
| "confirmation_value CONFIRMED = ''confirmed''"

lemma severity_roundtrip [simp]: "severity_of_value (severity_value t) = Inr t"
  by (cases t) (simp_all add: severity_of_value_def)

lemma confirmation_value_confirmed [simp]:
  "confirmation_value c = ''confirmed'' \<longleftrightarrow> c = CONFIRMED"
  by (cases c) simp_all

record repetition_evidence =
  same_rule_confirmed_count :: int
  evaluation_window_days :: int
  source_incident_ids :: "uid list"

record incident_evidence =
  actual_or_potential_impact :: impact_level
  rule_breach_directness :: breach_directness
  repetition :: repetition_evidence
  evidence_confidence :: evidence_confidence_level
  intentionality :: intent_assessment

record cooperation_assessment =
  self_disclosed :: bool
  active_cooperation_in_resolution :: bool
  cooperation_notes :: "string option"

definition default_cooperation :: cooperation_assessment where
  "default_cooperation = \<lparr>self_disclosed = False, active_cooperation_in_resolution = False,
     cooperation_notes = None\<rparr>"

subsection \<open>The orders of the rubric's scales\<close>

fun impact_points :: "impact_level \<Rightarrow> int" where
  "impact_points Impact_Low = 0" | "impact_points Impact_Medium = 1" | "impact_points Impact_High = 2"

fun intentionality_points :: "intent_assessment \<Rightarrow> int" where
  "intentionality_points Unintentional = 0"
| "intentionality_points Unclear = 0"
| "intentionality_points Deliberate = 1"

fun breach_directness_points :: "breach_directness \<Rightarrow> int" where
  "breach_directness_points Indirect = 0"
| "breach_directness_points Partial = 1"
| "breach_directness_points Direct = 2"

fun tier_index :: "severity_tier \<Rightarrow> nat" where
  "tier_index MINOR = 0" | "tier_index MODERATE = 1" | "tier_index MAJOR = 2" | "tier_index CRITICAL = 3"

instantiation severity_tier :: linorder
begin

definition less_eq_severity_tier :: "severity_tier \<Rightarrow> severity_tier \<Rightarrow> bool" where
  "less_eq_severity_tier a b \<longleftrightarrow> tier_index a \<le> tier_index b"

definition less_severity_tier :: "severity_tier \<Rightarrow> severity_tier \<Rightarrow> bool" where
  "less_severity_tier a b \<longleftrightarrow> tier_index a < tier_index b"

lemma tier_index_inject: "tier_index a = tier_index b \<Longrightarrow> a = b"
  by (cases a; cases b) simp_all

instance
  by standard
    (auto simp: less_eq_severity_tier_def less_severity_tier_def intro: tier_index_inject)

end

section \<open>assess_severity()\<close>

definition severity_tiers :: "severity_tier list" where
  "severity_tiers = [MINOR, MODERATE, MAJOR, CRITICAL]"

definition repetition_contribution :: "repetition_evidence \<Rightarrow> int" where
  "repetition_contribution rep =
     (if same_rule_confirmed_count rep \<le> 1 then 0
      else if same_rule_confirmed_count rep \<le> 3 then 1
      else 2)"

definition severity_score :: "incident_evidence \<Rightarrow> int" where
  "severity_score e = impact_points (actual_or_potential_impact e)
     + intentionality_points (intentionality e)
     + breach_directness_points (rule_breach_directness e)
     + repetition_contribution (repetition e)"

definition assess_severity :: "incident_evidence \<Rightarrow> severity_tier" where
  "assess_severity e =
     severity_tiers ! nat (min (severity_score e div 2) (int (length severity_tiers) - 1))"

lemma severity_score_bounds: "0 \<le> severity_score e \<and> severity_score e \<le> 7"
proof -
  have "0 \<le> impact_points i \<and> impact_points i \<le> 2" for i by (cases i) simp_all
  moreover have "0 \<le> intentionality_points i \<and> intentionality_points i \<le> 1" for i
    by (cases i) simp_all
  moreover have "0 \<le> breach_directness_points i \<and> breach_directness_points i \<le> 2" for i
    by (cases i) simp_all
  moreover have "0 \<le> repetition_contribution r \<and> repetition_contribution r \<le> 2" for r
    by (simp add: repetition_contribution_def)
  ultimately show ?thesis unfolding severity_score_def by (smt (verit))
qed

lemma tier_index_nth: "n < 4 \<Longrightarrow> tier_index (severity_tiers ! n) = n"
  by (auto simp: severity_tiers_def nth_Cons less_Suc_eq numeral_eq_Suc split: nat.splits)

lemma tier_index_assess: "int (tier_index (assess_severity e)) = severity_score e div 2"
proof -
  have "0 \<le> severity_score e div 2" and "severity_score e div 2 \<le> 3"
    using severity_score_bounds [of e] by auto
  then have lt: "nat (min (severity_score e div 2) 3) < 4"
    and eq: "int (nat (min (severity_score e div 2) 3)) = severity_score e div 2" by simp_all
  have len: "int (length severity_tiers) - 1 = 3" by (simp add: severity_tiers_def)
  show ?thesis by (simp only: assess_severity_def len tier_index_nth [OF lt] eq)
qed

lemma assess_severity_mono:
  "severity_score e \<le> severity_score e' \<Longrightarrow> assess_severity e \<le> assess_severity e'"
  using tier_index_assess [of e] tier_index_assess [of e'] zdiv_mono1 [of "severity_score e" "severity_score e'" 2]
  by (simp add: less_eq_severity_tier_def)

lemma assess_severity_critical: "assess_severity e = CRITICAL \<longleftrightarrow> 6 \<le> severity_score e"
proof -
  have "assess_severity e = CRITICAL \<longleftrightarrow> tier_index (assess_severity e) = 3"
    by (cases "assess_severity e") simp_all
  also have "\<dots> \<longleftrightarrow> severity_score e div 2 = 3" using tier_index_assess [of e] by auto
  also have "\<dots> \<longleftrightarrow> 6 \<le> severity_score e" using severity_score_bounds [of e] by auto
  finally show ?thesis .
qed

section \<open>The weight of an incident\<close>

definition cooperation_trust_offset :: "cooperation_assessment \<Rightarrow> real" where
  "cooperation_trust_offset c =
     (if self_disclosed c then 0.02 else 0) + (if active_cooperation_in_resolution c then 0.02 else 0)"

fun severity_base_weight :: "severity_tier \<Rightarrow> real" where
  "severity_base_weight MINOR = -0.05"
| "severity_base_weight MODERATE = -0.10"
| "severity_base_weight MAJOR = -0.20"
| "severity_base_weight CRITICAL = -0.35"

definition raw_weight_for_incident :: "severity_tier \<Rightarrow> cooperation_assessment \<Rightarrow> real" where
  "raw_weight_for_incident t c = min (severity_base_weight t + cooperation_trust_offset c) (-0.01)"

fun confidence_numeric :: "evidence_confidence_level \<Rightarrow> real" where
  \<comment> \<open>the dictionary inside \<open>_insert_trust_evidence_for_incident\<close>\<close>
  "confidence_numeric Confidence_Low = 0.3"
| "confidence_numeric Confidence_Medium = 0.65"
| "confidence_numeric Confidence_High = 0.9"

lemma raw_weight_bounds:
  "-0.35 \<le> raw_weight_for_incident t c \<and> raw_weight_for_incident t c \<le> -0.01"
  by (cases t) (auto simp: raw_weight_for_incident_def cooperation_trust_offset_def min_def)

lemma confidence_numeric_bounds: "0 < confidence_numeric l \<and> confidence_numeric l < 1"
  by (cases l) simp_all

section \<open>Recalculation\<close>

definition max_abs_effective_weight :: real where "max_abs_effective_weight = 0.5"
definition max_absolute_delta :: real where "max_absolute_delta = 0.15"
definition confidence_k :: real where "confidence_k = 0.3"
definition confidence_rolling_window :: time where "confidence_rolling_window = 180 * day"

definition effective_weight :: "real \<Rightarrow> real \<Rightarrow> real" where
  \<comment> \<open>of an evidence row's \<open>raw_weight\<close> and \<open>evidence_confidence\<close>\<close>
  "effective_weight raw conf =
     max (- max_abs_effective_weight) (min max_abs_effective_weight (raw * conf))"

definition apply_recalculation :: "real \<Rightarrow> real \<Rightarrow> real" where
  "apply_recalculation previous_score proposed_delta =
     (let bounded_delta = max (- max_absolute_delta) (min max_absolute_delta proposed_delta)
      in max 0 (min 1 (previous_score + bounded_delta)))"

definition compute_confidence :: "nat \<Rightarrow> real" where
  \<comment> \<open>of the number of applied evidence rows in the window\<close>
  "compute_confidence n = 1 - exp (- confidence_k * real n)"

lemmas recalculation_defs = effective_weight_def apply_recalculation_def Let_def
  max_abs_effective_weight_def max_absolute_delta_def

lemma effective_weight_bound: "\<bar>effective_weight r c\<bar> \<le> max_abs_effective_weight"
  by (simp add: recalculation_defs abs_le_iff)

lemma apply_recalculation_range: "0 \<le> apply_recalculation p d \<and> apply_recalculation p d \<le> 1"
  by (simp add: recalculation_defs)

lemma apply_recalculation_delta:
  "0 \<le> p \<Longrightarrow> p \<le> 1 \<Longrightarrow> \<bar>apply_recalculation p d - p\<bar> \<le> max_absolute_delta"
  by (auto simp: recalculation_defs abs_le_iff min_def max_def)

lemma apply_recalculation_mono: "d \<le> d' \<Longrightarrow> apply_recalculation p d \<le> apply_recalculation p d'"
  by (auto simp: recalculation_defs min_def max_def)

lemma apply_recalculation_0: "0 \<le> p \<Longrightarrow> p \<le> 1 \<Longrightarrow> apply_recalculation p 0 = p"
  by (simp add: recalculation_defs)

lemma apply_recalculation_decreases:
  "d < 0 \<Longrightarrow> 0 < p \<Longrightarrow> p \<le> 1 \<Longrightarrow> apply_recalculation p d < p"
  by (auto simp: recalculation_defs min_def max_def)

lemma compute_confidence_range: "0 \<le> compute_confidence n \<and> compute_confidence n < 1"
  by (simp add: compute_confidence_def confidence_k_def)

lemma compute_confidence_0 [simp]: "compute_confidence 0 = 0"
  by (simp add: compute_confidence_def)

lemma compute_confidence_step:
  "compute_confidence (Suc n) = compute_confidence n + (1 - compute_confidence n) * (1 - exp (- confidence_k))"
  by (simp add: compute_confidence_def algebra_simps exp_add [symmetric] flip: exp_diff)

lemma compute_confidence_strict_mono: "compute_confidence n < compute_confidence (Suc n)"
  by (simp add: compute_confidence_def confidence_k_def)

lemma compute_confidence_diminishing:
  "compute_confidence (Suc (Suc n)) - compute_confidence (Suc n)
     < compute_confidence (Suc n) - compute_confidence n"
proof -
  have "0 < 1 - exp (- confidence_k)" by (simp add: confidence_k_def)
  moreover have "compute_confidence n < compute_confidence (Suc n)"
    by (rule compute_confidence_strict_mono)
  moreover have "compute_confidence (Suc (Suc n)) - compute_confidence (Suc n)
      = (1 - compute_confidence (Suc n)) * (1 - exp (- confidence_k))"
    and "compute_confidence (Suc n) - compute_confidence n
      = (1 - compute_confidence n) * (1 - exp (- confidence_k))"
    using compute_confidence_step by simp_all
  ultimately show ?thesis by simp
qed

end
