(* ===== verification/Penalty_Rules.thy ===== *)
theory Penalty_Rules
  imports Trust_Rules
begin

text \<open>
  The pure part of the Penalty Engine: the dataclasses of \<open>penalty_engine/models.py\<close>, the
  countdown of \<open>penalty_engine/window.py\<close> and the staged extension algorithm of
  \<open>penalty_engine/extension.py\<close>. The \<open>explanation\<close> texts of decisions are omitted. The lemmas
  give the cap I5, the frozen countdown I6, and EXT-3 to EXT-6 of the extension design.
\<close>

section \<open>Enumerations and dataclasses\<close>

datatype penalty_window_status = PW_ACTIVE | PW_FROZEN | PW_COMPLETED
datatype resolution_method = COUNTDOWN_COMPLETE
datatype freeze_reason = TEMPORARY_WEAR_EXEMPTION | EMERGENCY_OVERRIDE
  | PARTNERED_INTIMACY_AUTHORIZATION
datatype freeze_end_reason = RESUMED_NORMALLY | EXPIRED
datatype authorization_freeze_state = AF_NOT_FOUND | AF_OPEN | AF_CLOSED | AF_EXPIRED

fun freeze_reason_value :: "freeze_reason \<Rightarrow> string" where
  "freeze_reason_value TEMPORARY_WEAR_EXEMPTION = ''temporary_wear_exemption''"
| "freeze_reason_value EMERGENCY_OVERRIDE = ''emergency_override''"
| "freeze_reason_value PARTNERED_INTIMACY_AUTHORIZATION = ''partnered_intimacy_authorization''"

fun freeze_end_reason_value :: "freeze_end_reason \<Rightarrow> string" where
  "freeze_end_reason_value RESUMED_NORMALLY = ''resumed_normally''"
| "freeze_end_reason_value EXPIRED = ''expired''"

text \<open>The dataclass and the row of \<open>penalty_windows\<close> have the same fields.\<close>

record penalty_window =
  pw_id :: uid
  pw_created_at :: time
  pw_status :: penalty_window_status
  pw_closed_at :: "time option"
  pw_resolution_method :: "resolution_method option"
  pw_base_duration_hours :: real
  pw_extensions_hours :: real
  pw_accumulated_active_hours :: real
  pw_active_period_started_at :: "time option"
  pw_recovery_credits_earned_hours :: real

record freeze_period =
  fp_id :: uid
  fp_penalty_window_id :: uid
  fp_started_at :: time
  fp_ended_at :: "time option"
  fp_reason :: freeze_reason
  fp_exemption_id :: "string option"
  fp_authorization_decision_id :: "string option"
  fp_expires_at :: "time option"
  fp_end_reason :: "freeze_end_reason option"

record recovery_credit_decision =
  rd_id :: uid
  rd_created_at :: time
  rd_completion_id :: uid
  rd_penalty_window_id :: uid
  rd_proposed_hours :: real
  rd_credited_hours :: real
  rd_capacity_limited :: bool

section \<open>The countdown\<close>

definition max_target_active_hours :: real where "max_target_active_hours = 336"
definition default_base_duration_hours :: real where "default_base_duration_hours = 24"

definition hours_between :: "time \<Rightarrow> time \<Rightarrow> real" where
  \<comment> \<open>\<open>(b - a).total_seconds() / 3600.0\<close>\<close>
  "hours_between a b = real_of_int (b - a) / 3600000000"

definition target_active_hours :: "penalty_window \<Rightarrow> real" where
  "target_active_hours w =
     min (pw_base_duration_hours w + pw_extensions_hours w) max_target_active_hours"

definition active_hours_elapsed :: "penalty_window \<Rightarrow> time \<Rightarrow> real" where
  "active_hours_elapsed w now =
     (case pw_active_period_started_at w of
        None \<Rightarrow> pw_accumulated_active_hours w
      | Some started \<Rightarrow>
          if pw_status w \<noteq> PW_ACTIVE then pw_accumulated_active_hours w
          else pw_accumulated_active_hours w + hours_between started now)"

definition is_complete :: "penalty_window \<Rightarrow> time \<Rightarrow> bool" where
  "is_complete w now \<longleftrightarrow> target_active_hours w \<le> active_hours_elapsed w now"

definition remaining_active_hours :: "penalty_window \<Rightarrow> time \<Rightarrow> real" where
  "remaining_active_hours w now = max 0 (target_active_hours w - active_hours_elapsed w now)"

lemma hours_between_add: "hours_between a b + hours_between b c = hours_between a c"
  by (simp add: hours_between_def field_simps)

lemma hours_between_self [simp]: "hours_between a a = 0"
  by (simp add: hours_between_def)

lemma hours_between_nonneg: "a \<le> b \<Longrightarrow> 0 \<le> hours_between a b"
  by (simp add: hours_between_def)

lemma hours_between_mono: "b \<le> c \<Longrightarrow> hours_between a b \<le> hours_between a c"
  by (simp add: hours_between_def divide_right_mono)

lemma target_le_max: "target_active_hours w \<le> max_target_active_hours"
  by (simp add: target_active_hours_def)

lemma elapsed_not_active: "pw_status w \<noteq> PW_ACTIVE \<Longrightarrow>
  active_hours_elapsed w now = pw_accumulated_active_hours w"
  by (simp add: active_hours_elapsed_def split: option.splits)

lemma elapsed_active: "pw_status w = PW_ACTIVE \<Longrightarrow> pw_active_period_started_at w = Some t \<Longrightarrow>
  active_hours_elapsed w now = pw_accumulated_active_hours w + hours_between t now"
  by (simp add: active_hours_elapsed_def)

lemma elapsed_mono: "now \<le> now' \<Longrightarrow> active_hours_elapsed w now \<le> active_hours_elapsed w now'"
  by (auto simp: active_hours_elapsed_def hours_between_mono split: option.splits)

lemma is_complete_mono: "is_complete w now \<Longrightarrow> now \<le> now' \<Longrightarrow> is_complete w now'"
  using elapsed_mono [of now now' w] by (simp add: is_complete_def)

lemma remaining_zero_iff: "remaining_active_hours w now = 0 \<longleftrightarrow> is_complete w now"
  by (auto simp: remaining_active_hours_def is_complete_def max_def)

lemma remaining_le_target:
  "0 \<le> active_hours_elapsed w now \<Longrightarrow> 0 \<le> target_active_hours w \<Longrightarrow>
   remaining_active_hours w now \<le> target_active_hours w"
  by (simp add: remaining_active_hours_def)

section \<open>Extension\<close>

datatype extension_eligibility_reason = ELIGIBLE_BY_SEVERITY | ELIGIBLE_BY_REPETITION
  | ELIGIBLE_BY_LOW_COOPERATION | INELIGIBLE_ISOLATED_LOW_SEVERITY

fun eligibility_reason_value :: "extension_eligibility_reason \<Rightarrow> string" where
  "eligibility_reason_value ELIGIBLE_BY_SEVERITY = ''eligible_by_severity''"
| "eligibility_reason_value ELIGIBLE_BY_REPETITION = ''eligible_by_repetition''"
| "eligibility_reason_value ELIGIBLE_BY_LOW_COOPERATION = ''eligible_by_low_cooperation''"
| "eligibility_reason_value INELIGIBLE_ISOLATED_LOW_SEVERITY = ''ineligible_isolated_low_severity''"

record extension_context =
  ec_severity :: severity_tier
  ec_cooperation :: cooperation_assessment
  ec_same_rule_count :: nat
  ec_remaining_capacity :: real
  ec_during_recovery_task :: bool

record extension_decision =
  ed_id :: uid
  ed_created_at :: time
  ed_incident_id :: uid
  ed_penalty_window_id :: uid
  ed_eligible :: bool
  ed_reason :: extension_eligibility_reason
  ed_base_hours :: "real option"
  ed_mitigation_hours :: real
  ed_uncapped_hours :: "real option"
  ed_assigned_hours :: real
  ed_capacity_limited :: bool

definition is_high_cooperation :: "cooperation_assessment \<Rightarrow> bool" where
  "is_high_cooperation c \<longleftrightarrow> self_disclosed c \<and> active_cooperation_in_resolution c"

definition determine_extension_eligibility ::
  "extension_context \<Rightarrow> bool \<times> extension_eligibility_reason" where
  "determine_extension_eligibility ctx =
     (if ec_severity ctx = MAJOR \<or> ec_severity ctx = CRITICAL then (True, ELIGIBLE_BY_SEVERITY)
      else if ec_same_rule_count ctx > 1 then (True, ELIGIBLE_BY_REPETITION)
      else if \<not> is_high_cooperation (ec_cooperation ctx) then (True, ELIGIBLE_BY_LOW_COOPERATION)
      else (False, INELIGIBLE_ISOLATED_LOW_SEVERITY))"

fun base_hours_by_severity :: "severity_tier \<Rightarrow> real" where
  "base_hours_by_severity MINOR = 4"
| "base_hours_by_severity MODERATE = 12"
| "base_hours_by_severity MAJOR = 24"
| "base_hours_by_severity CRITICAL = 48"

definition repetition_increment_hours :: real where "repetition_increment_hours = 6"

definition calculate_base_magnitude :: "severity_tier \<Rightarrow> nat \<Rightarrow> real" where
  "calculate_base_magnitude t n =
     (if n > 1 then base_hours_by_severity t + repetition_increment_hours * (real n - 1)
      else base_hours_by_severity t)"

fun minimum_retained_fraction :: "severity_tier \<Rightarrow> real option" where
  "minimum_retained_fraction MAJOR = Some 0.5"
| "minimum_retained_fraction CRITICAL = Some 0.7"
| "minimum_retained_fraction _ = None"

definition mitigation_fraction :: "cooperation_assessment \<Rightarrow> bool \<Rightarrow> real" where
  "mitigation_fraction c during =
     min ((if self_disclosed c then 0.3 else 0)
        + (if active_cooperation_in_resolution c then 0.3 else 0)
        + (if during then 0.2 else 0)) 1"

definition apply_mitigation ::
  "real \<Rightarrow> severity_tier \<Rightarrow> cooperation_assessment \<Rightarrow> bool \<Rightarrow> real" where
  "apply_mitigation base t c during =
     (let mitigated = base * (1 - mitigation_fraction c during)
      in case minimum_retained_fraction t of
           None \<Rightarrow> mitigated
         | Some floor_fraction \<Rightarrow> max mitigated (base * floor_fraction))"

definition apply_capacity_cap :: "real \<Rightarrow> real \<Rightarrow> real \<times> bool" where
  "apply_capacity_cap uncapped capacity =
     (let assigned = min uncapped capacity in (assigned, assigned < uncapped))"

text \<open>The first argument is the uuid that the dataclass draws for the decision.\<close>

definition should_extend ::
  "uid \<Rightarrow> extension_context \<Rightarrow> uid \<Rightarrow> uid \<Rightarrow> time \<Rightarrow> extension_decision" where
  "should_extend decision_id ctx incident_id penalty_window_id now =
     (let (eligible, reason) = determine_extension_eligibility ctx
      in if \<not> eligible
         then \<lparr>ed_id = decision_id, ed_created_at = now, ed_incident_id = incident_id,
               ed_penalty_window_id = penalty_window_id, ed_eligible = False, ed_reason = reason,
               ed_base_hours = None, ed_mitigation_hours = 0, ed_uncapped_hours = None,
               ed_assigned_hours = 0, ed_capacity_limited = False\<rparr>
         else
           (let base = calculate_base_magnitude (ec_severity ctx) (ec_same_rule_count ctx);
                uncapped = apply_mitigation base (ec_severity ctx) (ec_cooperation ctx)
                             (ec_during_recovery_task ctx);
                (assigned, limited) = apply_capacity_cap uncapped (ec_remaining_capacity ctx)
            in \<lparr>ed_id = decision_id, ed_created_at = now, ed_incident_id = incident_id,
                ed_penalty_window_id = penalty_window_id, ed_eligible = True, ed_reason = reason,
                ed_base_hours = Some base, ed_mitigation_hours = base - uncapped,
                ed_uncapped_hours = Some uncapped, ed_assigned_hours = assigned,
                ed_capacity_limited = limited\<rparr>))"

subsection \<open>Bounds and monotonicity of the stages\<close>

lemma base_hours_bounds: "4 \<le> base_hours_by_severity t \<and> base_hours_by_severity t \<le> 48"
  by (cases t) simp_all

lemma base_magnitude_ge: "4 \<le> calculate_base_magnitude t n"
  using base_hours_bounds [of t]
  by (simp add: calculate_base_magnitude_def repetition_increment_hours_def)

lemma base_magnitude_mono: "n \<le> m \<Longrightarrow> calculate_base_magnitude t n \<le> calculate_base_magnitude t m"
  by (auto simp: calculate_base_magnitude_def repetition_increment_hours_def)

lemma mitigation_fraction_bounds: "0 \<le> mitigation_fraction c d \<and> mitigation_fraction c d \<le> 0.8"
  by (simp add: mitigation_fraction_def)

lemma apply_mitigation_bounds:
  assumes "0 \<le> base"
  shows "0.2 * base \<le> apply_mitigation base t c d" and "apply_mitigation base t c d \<le> base"
proof -
  let ?m = "base * (1 - mitigation_fraction c d)"
  have f: "0 \<le> mitigation_fraction c d" "mitigation_fraction c d \<le> 0.8"
    using mitigation_fraction_bounds by simp_all
  have lo: "0.2 * base \<le> ?m" using mult_left_mono [of "0.2" "1 - mitigation_fraction c d" base] f assms
    by (simp add: mult.commute)
  have hi: "?m \<le> base" using mult_left_mono [of "1 - mitigation_fraction c d" 1 base] f assms by simp
  show "0.2 * base \<le> apply_mitigation base t c d" using lo
    by (cases t) (auto simp: apply_mitigation_def Let_def)
  show "apply_mitigation base t c d \<le> base" using hi assms
    by (cases t) (auto simp: apply_mitigation_def Let_def)
qed

lemma apply_mitigation_floor:
  "minimum_retained_fraction t = Some q \<Longrightarrow> q * base \<le> apply_mitigation base t c d"
  by (simp add: apply_mitigation_def Let_def mult.commute)

text \<open>More cooperation never lengthens the extension.\<close>

lemma mitigation_fraction_mono:
  assumes "self_disclosed c \<Longrightarrow> self_disclosed c'"
    and "active_cooperation_in_resolution c \<Longrightarrow> active_cooperation_in_resolution c'"
    and "d \<Longrightarrow> d'"
  shows "mitigation_fraction c d \<le> mitigation_fraction c' d'"
  using assms by (auto simp: mitigation_fraction_def)

lemma apply_mitigation_antimono:
  assumes "0 \<le> base" and "mitigation_fraction c d \<le> mitigation_fraction c' d'"
  shows "apply_mitigation base t c' d' \<le> apply_mitigation base t c d"
proof -
  have "base * (1 - mitigation_fraction c' d') \<le> base * (1 - mitigation_fraction c d)"
    using assms by (intro mult_left_mono) simp_all
  then show ?thesis by (cases t) (auto simp: apply_mitigation_def Let_def)
qed

lemma should_extend_sel [simp]:
  "ed_id (should_extend i ctx inc w now) = i"
  "ed_created_at (should_extend i ctx inc w now) = now"
  "ed_incident_id (should_extend i ctx inc w now) = inc"
  "ed_penalty_window_id (should_extend i ctx inc w now) = w"
  by (simp_all add: should_extend_def Let_def split: prod.splits)

lemma should_extend_assigned_bounds:
  assumes "0 \<le> ec_remaining_capacity ctx"
  shows "0 \<le> ed_assigned_hours (should_extend i ctx inc w now)"
    and "ed_assigned_hours (should_extend i ctx inc w now) \<le> ec_remaining_capacity ctx"
proof -
  let ?b = "calculate_base_magnitude (ec_severity ctx) (ec_same_rule_count ctx)"
  have "4 \<le> ?b" by (rule base_magnitude_ge)
  then have "0 \<le> apply_mitigation ?b (ec_severity ctx) (ec_cooperation ctx) (ec_during_recovery_task ctx)"
    using apply_mitigation_bounds(1) [of ?b "ec_severity ctx" "ec_cooperation ctx" "ec_during_recovery_task ctx"]
    by linarith
  with assms show "0 \<le> ed_assigned_hours (should_extend i ctx inc w now)"
    and "ed_assigned_hours (should_extend i ctx inc w now) \<le> ec_remaining_capacity ctx"
    by (auto simp: should_extend_def Let_def apply_capacity_cap_def split: prod.splits)
qed

lemma should_extend_eligible_iff:
  "ed_eligible (should_extend i ctx inc w now) \<longleftrightarrow>
     MAJOR \<le> ec_severity ctx \<or> 1 < ec_same_rule_count ctx \<or> \<not> is_high_cooperation (ec_cooperation ctx)"
  by (cases "ec_severity ctx")
    (auto simp: should_extend_def determine_extension_eligibility_def Let_def less_eq_severity_tier_def
      split: prod.splits)

end
