(* ===== verification/Store.thy ===== *)
theory Store
  imports Prelude
begin

text \<open>
  \<open>infrastructure/database.py\<close>: the transactional core. \<open>transaction\<close> is the context manager
  with its thread-local nesting guard, the write lock of \<open>BEGIN IMMEDIATE\<close>, its commit and its
  rollback; \<open>execute\<close> is the SQL of a block, whose writes stay on the open connection even when a
  later statement raises; \<open>apply_transition\<close> is the load, validate, write, events, commit helper
  every repository uses. The rest of the development treats a public operation as \<open>atomically\<close>
  applied to the committed data; the lemmas about \<open>carries_out\<close> are the link.
\<close>

section \<open>Operations\<close>

text \<open>What was written before an exception is part of the outcome.\<close>

type_synonym ('s, 'a) op = "'s \<Rightarrow> (exn + 'a) \<times> 's"

definition atomically :: "('s, 'a) tx \<Rightarrow> ('s, 'a) op" where
  "atomically m s = (case m s of Inl e \<Rightarrow> (Inl e, s) | Inr (a, s') \<Rightarrow> (Inr a, s'))"

definition op_return :: "'a \<Rightarrow> ('s, 'a) op" where
  "op_return a s = (Inr a, s)"

definition op_raise :: "exn \<Rightarrow> ('s, 'a) op" where
  "op_raise e s = (Inl e, s)"

definition op_get :: "('s \<Rightarrow> 'a) \<Rightarrow> ('s, 'a) op" where
  \<comment> \<open>a public read, in a transaction of its own\<close>
  "op_get f s = (Inr (f s), s)"

definition op_bind :: "('s, 'a) op \<Rightarrow> ('a \<Rightarrow> ('s, 'b) op) \<Rightarrow> ('s, 'b) op" where
  \<comment> \<open>one call after another; an exception leaves what the first one wrote\<close>
  "op_bind f g s = (case f s of (Inl e, s') \<Rightarrow> (Inl e, s') | (Inr a, s') \<Rightarrow> g a s')"

definition op_require :: "bool \<Rightarrow> exn \<Rightarrow> ('s, unit) op" where
  "op_require c e = (if c then op_return () else op_raise e)"

definition op_catch :: "('s, 'a) op \<Rightarrow> (exn \<Rightarrow> ('s, 'a) op) \<Rightarrow> ('s, 'a) op" where
  \<comment> \<open>\<open>try: f  except ...: h\<close>; the handler raises again what its \<open>except\<close> clauses do not name\<close>
  "op_catch f h s = (case f s of (Inl e, s') \<Rightarrow> h e s' | (Inr a, s') \<Rightarrow> (Inr a, s'))"

fun op_for :: "'a list \<Rightarrow> ('a \<Rightarrow> ('s, unit) op) \<Rightarrow> ('s, unit) op" where
  "op_for [] f = op_return ()"
| "op_for (x # xs) f = op_bind (f x) (\<lambda>_. op_for xs f)"

section \<open>Database.transaction()\<close>

text \<open>
  The committed content, which every other connection reads; the thread whose connection holds
  SQLite's write lock, with the content as that connection sees it, uncommitted writes included; and,
  per thread, whether it has a transaction open (\<open>Database._transaction_state\<close>).
\<close>

record 's database =
  content :: 's
  uncommitted :: "(nat \<times> 's) option"
  txn_open :: "nat \<Rightarrow> bool"

type_synonym ('s, 'a) action = "('s database, 'a) op"

definition set_transaction_open :: "nat \<Rightarrow> bool \<Rightarrow> 's database \<Rightarrow> 's database" where
  "set_transaction_open th b db = db\<lparr>txn_open := (txn_open db)(th := b)\<rparr>"

definition begin_immediate :: "nat \<Rightarrow> ('s, unit) action" where
  \<comment> \<open>a lock that is still held when the busy timeout ends raises\<close>
  "begin_immediate th db = (case uncommitted db of
      Some _ \<Rightarrow> (Inl OperationalError, db)
    | None \<Rightarrow> (Inr (), db\<lparr>uncommitted := Some (th, content db)\<rparr>))"

definition commit_connection :: "nat \<Rightarrow> 's database \<Rightarrow> 's database" where
  "commit_connection th db = (case uncommitted db of
      Some (h, s) \<Rightarrow> if h = th then db\<lparr>content := s, uncommitted := None\<rparr> else db
    | None \<Rightarrow> db)"

definition rollback_connection :: "nat \<Rightarrow> 's database \<Rightarrow> 's database" where
  "rollback_connection th db = (case uncommitted db of
      Some (h, s) \<Rightarrow> if h = th then db\<lparr>uncommitted := None\<rparr> else db
    | None \<Rightarrow> db)"

definition transaction :: "nat \<Rightarrow> ('s, 'a) action \<Rightarrow> ('s, 'a) action" where
  "transaction th body db =
     (if txn_open db th then (Inl NestedTransactionError, db)
      else case op_bind (begin_immediate th) (\<lambda>_. body) (set_transaction_open th True db) of
             (Inl e, db') \<Rightarrow> (Inl e, set_transaction_open th False (rollback_connection th db'))
           | (Inr a, db') \<Rightarrow> (Inr a, set_transaction_open th False (commit_connection th db')))"

text \<open>
  SQL through the \<open>Transaction\<close> object of the block: it reads and writes the content as its
  connection sees it. A statement may raise; the writes of the earlier ones stay until the rollback.
\<close>

definition execute :: "nat \<Rightarrow> ('s, 'a) op \<Rightarrow> ('s, 'a) action" where
  "execute th sql db = (case uncommitted db of
      Some (h, s) \<Rightarrow> if h = th then (case sql s of (r, s') \<Rightarrow> (r, db\<lparr>uncommitted := Some (th, s')\<rparr>))
                     else (Inl OperationalError, db)
    | None \<Rightarrow> (Inl OperationalError, db))"

lemma execute_bind:
  "uncommitted db = Some (th, s) \<Longrightarrow>
   execute th (op_bind f k) db = op_bind (execute th f) (\<lambda>a. execute th (k a)) db"
  by (auto simp: execute_def op_bind_def split: sum.splits prod.splits)

lemma execute_isolated: "content (snd (execute th f db)) = content db"
  by (auto simp: execute_def split: option.split prod.split)

lemma transaction_execute:
  assumes "\<not> txn_open db th" and "uncommitted db = None"
  shows "transaction th (execute th f) db =
    (case f (content db) of (Inl e, s) \<Rightarrow> (Inl e, db) | (Inr a, s) \<Rightarrow> (Inr a, db\<lparr>content := s\<rparr>))"
proof -
  have reset: "(txn_open db)(th := False) = txn_open db" using assms(1) by (simp add: fun_upd_idem)
  have same: "db\<lparr>uncommitted := None, txn_open := (txn_open db)(th := False)\<rparr> = db"
    using assms reset by (cases db) simp
  show ?thesis using assms reset same
    by (cases db) (auto simp: transaction_def op_bind_def begin_immediate_def set_transaction_open_def execute_def
        commit_connection_def rollback_connection_def fun_upd_idem split: sum.split prod.split)
qed

lemma transaction_cong:
  assumes "\<And>s db'. uncommitted db' = Some (th, s) \<Longrightarrow> body db' = body' db'"
  shows "transaction th body db = transaction th body' db"
  using assms by (auto simp: transaction_def op_bind_def begin_immediate_def split: option.split)

lemma transaction_nested:
  "txn_open db th \<Longrightarrow> transaction th body db = (Inl NestedTransactionError, db)"
  by (simp add: transaction_def)

lemma transaction_locked:
  assumes "\<not> txn_open db th" and "uncommitted db = Some (h, s)" and "h \<noteq> th"
  shows "transaction th body db = (Inl OperationalError, db)"
proof -
  have "(txn_open db)(th := False) = txn_open db" using assms(1) by (simp add: fun_upd_idem)
  then show ?thesis using assms
    by (cases db) (simp add: transaction_def op_bind_def begin_immediate_def set_transaction_open_def rollback_connection_def)
qed

text \<open>
  A block of statements carries out \<open>m\<close> when it returns the same, with the same writes, and raises the
  same, whatever it had written by then. One statement that SQLite undoes by itself does, and so does
  the composition, statement by statement; in a transaction nothing else can be observed.
\<close>

definition carries_out :: "('s, 'a) op \<Rightarrow> ('s, 'a) tx \<Rightarrow> bool" where
  "carries_out f m \<longleftrightarrow> (\<forall>s. case m s of Inl e \<Rightarrow> fst (f s) = Inl e | Inr (a, s') \<Rightarrow> f s = (Inr a, s'))"

lemma carries_out_statement: "carries_out (atomically m) m"
  by (auto simp: carries_out_def atomically_def split: sum.split)

lemma carries_out_bind:
  assumes "carries_out f m" and "\<And>a. carries_out (g a) (k a)"
  shows "carries_out (op_bind f g) (tx_bind m k)"
  unfolding carries_out_def
proof
  fix s
  have f: "case m s of Inl e \<Rightarrow> fst (f s) = Inl e | Inr (a, s') \<Rightarrow> f s = (Inr a, s')"
    using assms(1) by (simp add: carries_out_def)
  show "case tx_bind m k s of Inl e \<Rightarrow> fst (op_bind f g s) = Inl e | Inr (a, s') \<Rightarrow> op_bind f g s = (Inr a, s')"
  proof (cases "m s")
    case (Inl e)
    then show ?thesis using f by (cases "f s") (simp add: op_bind_def tx_bind_def)
  next
    case (Inr r)
    then obtain a s' where "m s = Inr (a, s')" "f s = (Inr a, s')" using f by (cases r) simp
    moreover have "case k a s' of Inl e \<Rightarrow> fst (g a s') = Inl e | Inr (b, s'') \<Rightarrow> g a s' = (Inr b, s'')"
      using assms(2) by (simp add: carries_out_def)
    moreover from calculation have "op_bind f g s = g a s'" "tx_bind m k s = k a s'"
      by (simp_all add: op_bind_def tx_bind_def)
    ultimately show ?thesis by (auto split: sum.splits)
  qed
qed

lemma transaction_carries_out:
  assumes "carries_out f m" and "\<not> txn_open db th" and "uncommitted db = None"
  shows "transaction th (execute th f) db
    = (fst (atomically m (content db)), db\<lparr>content := snd (atomically m (content db))\<rparr>)"
proof -
  have "case m (content db) of Inl e \<Rightarrow> fst (f (content db)) = Inl e | Inr (a, s') \<Rightarrow> f (content db) = (Inr a, s')"
    using assms(1) by (simp add: carries_out_def)
  then show ?thesis
    unfolding transaction_execute [OF assms(2,3)]
    by (auto simp: atomically_def split: sum.splits prod.splits)
qed

section \<open>apply_transition()\<close>

definition apply_transition ::
  "('s, 'st) tx \<Rightarrow> ('st \<Rightarrow> exn + unit) \<Rightarrow> ('st \<Rightarrow> ('s, 'a) tx)
     \<Rightarrow> ('st \<Rightarrow> 'a \<Rightarrow> ('s, unit) tx) \<Rightarrow> ('s, 'a) op" where
  "apply_transition load validate write events = atomically
     (tx_bind load (\<lambda>state.
      tx_bind (tx_lift (validate state)) (\<lambda>_.
      tx_bind (write state) (\<lambda>result.
      tx_bind (events state result) (\<lambda>_.
      tx_return result)))))"

text \<open>The calls without \<open>load=\<close> and \<open>validate=\<close>, and those without \<open>events=\<close> either.\<close>

definition transition :: "('s, 'a) tx \<Rightarrow> ('a \<Rightarrow> ('s, unit) tx) \<Rightarrow> ('s, 'a) op" where
  "transition write events =
     apply_transition (tx_return ()) (\<lambda>_. Inr ()) (\<lambda>_. write) (\<lambda>_. events)"

definition no_events :: "'a \<Rightarrow> ('s, unit) tx" where
  "no_events _ = tx_return ()"

lemma transition_eq: "transition write events =
  atomically (tx_bind write (\<lambda>r. tx_bind (events r) (\<lambda>_. tx_return r)))"
  by (simp add: transition_def apply_transition_def tx_simps)

lemma tx_bind_return_right [simp]: "tx_bind m tx_return = m"
  by (rule ext) (auto simp: tx_bind_def tx_return_def split: sum.splits)

lemma transition_no_events: "transition write no_events = atomically write"
  by (simp add: transition_eq no_events_def)

section \<open>The atomicity contract\<close>

text \<open>
  What every repository relies on: a block that returns commits exactly its writes, a block
  that raises leaves the database as it was.
\<close>

locale atomic_store =
  fixes run :: "('s \<Rightarrow> exn + ('a \<times> 's)) \<Rightarrow> 's \<Rightarrow> (exn + 'a) \<times> 's"
  assumes commit: "m s = Inr (a, s') \<Longrightarrow> run m s = (Inr a, s')"
    and rollback: "m s = Inl e \<Longrightarrow> run m s = (Inl e, s)"
begin

lemma all_or_nothing:
  "(\<exists>e. run m s = (Inl e, s)) \<or> (\<exists>a s'. run m s = (Inr a, s') \<and> m s = Inr (a, s'))"
proof (cases "m s")
  case (Inl e)
  then show ?thesis by (blast intro: rollback)
next
  case (Inr r)
  then show ?thesis by (cases r) (blast intro: commit)
qed

lemma keeps_run: "keeps I m \<Longrightarrow> I s \<Longrightarrow> I (snd (run m s))"
  using all_or_nothing [of m s] by (auto dest: keepsD)

lemma raised_unchanged: "run m s = (Inl e, s') \<Longrightarrow> s' = s"
  using all_or_nothing [of m s] by auto

lemma returned: "run m s = (Inr a, s') \<longleftrightarrow> m s = Inr (a, s')"
  using all_or_nothing [of m s] commit [of m s a s'] by auto

end

interpretation store: atomic_store atomically
  by unfold_locales (simp_all add: atomically_def)

lemma atomically_simps [tx_simps]:
  "m s = Inl e \<Longrightarrow> atomically m s = (Inl e, s)"
  "m s = Inr (a, s') \<Longrightarrow> atomically m s = (Inr a, s')"
  by (rule store.rollback, assumption) (rule store.commit, assumption)

section \<open>Invariants of sequences of operations\<close>

definition op_keeps :: "('s \<Rightarrow> bool) \<Rightarrow> ('s, 'a) op \<Rightarrow> bool" where
  "op_keeps I f \<longleftrightarrow> (\<forall>s. I s \<longrightarrow> I (snd (f s)))"

lemma op_keepsD: "op_keeps I f \<Longrightarrow> I s \<Longrightarrow> I (snd (f s))"
  by (simp add: op_keeps_def)

lemma op_keepsI: "(\<And>s. I s \<Longrightarrow> I (snd (f s))) \<Longrightarrow> op_keeps I f"
  by (simp add: op_keeps_def)

lemma op_keeps_atomically [keeps_intros]: "keeps I m \<Longrightarrow> op_keeps I (atomically m)"
  by (simp add: op_keeps_def store.keeps_run)

lemma op_keeps_return [keeps_intros]: "op_keeps I (op_return a)"
  by (simp add: op_keeps_def op_return_def)

lemma op_keeps_get [keeps_intros]: "op_keeps I (op_get f)"
  by (simp add: op_keeps_def op_get_def)

lemma op_keeps_raise [keeps_intros]: "op_keeps I (op_raise e)"
  by (simp add: op_keeps_def op_raise_def)

lemma op_keeps_require [keeps_intros]: "op_keeps I (op_require c e)"
  by (simp add: op_keeps_def op_require_def op_return_def op_raise_def)

lemma op_keeps_bind [keeps_intros]:
  "op_keeps I f \<Longrightarrow> (\<And>a. op_keeps I (g a)) \<Longrightarrow> op_keeps I (op_bind f g)"
  unfolding op_keeps_def op_bind_def by (force split: prod.splits sum.splits)

lemma op_keeps_catch [keeps_intros]:
  "op_keeps I f \<Longrightarrow> (\<And>e. op_keeps I (h e)) \<Longrightarrow> op_keeps I (op_catch f h)"
  unfolding op_keeps_def op_catch_def by (force split: prod.splits sum.splits)

lemma op_keeps_if [keeps_intros]:
  "op_keeps I f \<Longrightarrow> op_keeps I g \<Longrightarrow> op_keeps I (if b then f else g)"
  by simp

lemma op_keeps_for:
  "(\<And>x. x \<in> set xs \<Longrightarrow> op_keeps I (f x)) \<Longrightarrow> op_keeps I (op_for xs f)"
proof (induction xs)
  case Nil
  show ?case by (simp add: op_keeps_return)
next
  case (Cons x xs)
  have "op_keeps I (f x)" using Cons.prems by simp
  moreover have "op_keeps I (op_for xs f)" using Cons.prems by (intro Cons.IH) simp
  ultimately show ?case unfolding op_for.simps by (blast intro: op_keeps_bind)
qed

lemma op_keeps_transition [keeps_intros]:
  "keeps I write \<Longrightarrow> (\<And>r. keeps I (events r)) \<Longrightarrow> op_keeps I (transition write events)"
  unfolding transition_eq
  by (intro op_keeps_atomically keeps_bind keeps_return)

lemma op_keeps_apply_transition [keeps_intros]:
  "keeps I load \<Longrightarrow> (\<And>st. keeps I (write st)) \<Longrightarrow> (\<And>st r. keeps I (events st r))
    \<Longrightarrow> op_keeps I (apply_transition load validate write events)"
  unfolding apply_transition_def
  by (intro op_keeps_atomically keeps_bind keeps_return keeps_lift)

lemma op_keeps_apply_loaded:
  assumes "\<And>s st s'. I s \<Longrightarrow> load s = Inr (st, s') \<Longrightarrow> s' = s \<and> P s st"
    and "\<And>s st r s'. I s \<Longrightarrow> P s st \<Longrightarrow> write st s = Inr (r, s') \<Longrightarrow> I s'"
    and "\<And>st r. keeps I (events st r)"
  shows "op_keeps I (apply_transition load validate write events)"
proof -
  have "I s'" if s: "I s" and run: "tx_bind load (\<lambda>state. tx_bind (tx_lift (validate state)) (\<lambda>_.
      tx_bind (write state) (\<lambda>result. tx_bind (events state result) (\<lambda>_. tx_return result)))) s
      = Inr (a, s')" for s a s'
  proof -
    obtain st s1 r s2 where l: "load s = Inr (st, s1)" and w: "write st s1 = Inr (r, s2)"
      and e: "events st r s2 = Inr ((), s')"
      using run by (auto simp: tx_success)
    have s1: "s1 = s" and P: "P s st" using assms(1) [OF s l] by simp_all
    have "I s2" using assms(2) [OF s P] w s1 by simp
    with assms(3) show ?thesis using e by (rule keepsD)
  qed
  then show ?thesis unfolding apply_transition_def by (intro op_keeps_atomically keepsI)
qed

lemma keeps_no_events [keeps_intros]: "keeps I (no_events r)"
  by (simp add: no_events_def keeps_return)

end
