(* ===== verification/Time_Format.thy ===== *)
theory Time_Format
  imports Prelude
begin

text \<open>
  \<open>infrastructure/time_format.py\<close>: the text in which every repository stores instants, and
  the order SQLite gives those texts. The database compares the stored \<open>TEXT\<close> byte by byte,
  so \<open>expires_at <= ?\<close>, \<open>ORDER BY created_at\<close> and \<open>MAX(closed_at)\<close> follow \<open>iso_le\<close>,
  which this theory relates to the chronological order.
\<close>

section \<open>The order of stored instants\<close>

text \<open>
  \<open>datetime.isoformat()\<close> omits the fraction when the microsecond field is 0, so within one
  second the text \<open>...:00Z\<close> comes after every \<open>...:00.ffffffZ\<close> (a full stop is smaller
  than \<open>Z\<close>). \<open>iso_rank\<close> numbers the instants in the order of their texts.
\<close>

definition iso_rank :: "time \<Rightarrow> int" where
  "iso_rank t = (t div 1000000) * 1000001
     + (if t mod 1000000 = 0 then 1000000 else t mod 1000000)"

definition iso_le :: "time \<Rightarrow> time \<Rightarrow> bool" where
  "iso_le a b \<longleftrightarrow> iso_rank a \<le> iso_rank b"

lemma iso_le_refl [simp]: "iso_le t t"
  by (simp add: iso_le_def)

lemma iso_le_trans: "iso_le a b \<Longrightarrow> iso_le b c \<Longrightarrow> iso_le a c"
  by (simp add: iso_le_def)

lemma iso_le_total: "iso_le a b \<or> iso_le b a"
  by (auto simp: iso_le_def)

lemma iso_rank_bounds:
  "(t div 1000000) * 1000001 < iso_rank t \<and> iso_rank t \<le> (t div 1000000) * 1000001 + 1000000"
proof -
  have "0 \<le> t mod 1000000 \<and> t mod 1000000 < 1000000" by simp
  then show ?thesis by (auto simp: iso_rank_def)
qed

lemma iso_rank_less_second: "a div 1000000 < b div 1000000 \<Longrightarrow> iso_rank a < iso_rank b"
  using iso_rank_bounds [of a] iso_rank_bounds [of b] by linarith

lemma iso_le_imp_second_le: "iso_le a b \<Longrightarrow> a div 1000000 \<le> b div 1000000"
  unfolding iso_le_def using iso_rank_less_second [of b a] by linarith

text \<open>Text order errs by less than one second, in either direction.\<close>

lemma iso_le_imp_less_second:
  assumes "iso_le a b"
  shows "a < b + second"
proof -
  have "a div 1000000 \<le> b div 1000000" by (rule iso_le_imp_second_le) (rule assms)
  then have "a \<le> b div 1000000 * 1000000 + 999999"
    using div_mult_mod_eq [of a 1000000] by (smt (verit) pos_mod_bound)
  also have "b div 1000000 * 1000000 \<le> b"
    using div_mult_mod_eq [of b 1000000] pos_mod_sign [of 1000000 b] by linarith
  finally show ?thesis by (simp add: second_def)
qed

lemma second_earlier_imp_iso_le:
  assumes "a + second \<le> b"
  shows "iso_le a b"
proof -
  have "(a + 1000000) div 1000000 \<le> b div 1000000"
    using assms by (intro zdiv_mono1) (simp_all add: second_def)
  then have "a div 1000000 < b div 1000000" by simp
  then show ?thesis unfolding iso_le_def by (intro less_imp_le iso_rank_less_second)
qed

text \<open>On instants that both carry, or both lack, a fraction the two orders agree.\<close>

lemma iso_le_same_kind:
  assumes "a mod 1000000 = 0 \<longleftrightarrow> b mod 1000000 = 0"
  shows "iso_le a b \<longleftrightarrow> a \<le> b"
proof -
  define qa ra qb rb where q: "qa = a div 1000000" "ra = a mod 1000000"
    "qb = b div 1000000" "rb = b mod 1000000"
  have a: "a = qa * 1000000 + ra" and b: "b = qb * 1000000 + rb" by (simp_all add: q)
  have r: "0 \<le> ra" "ra < 1000000" "0 \<le> rb" "rb < 1000000" by (simp_all add: q)
  have ea: "iso_rank a = qa * 1000001 + (if ra = 0 then 1000000 else ra)"
    and eb: "iso_rank b = qb * 1000001 + (if rb = 0 then 1000000 else rb)"
    by (simp_all add: iso_rank_def q)
  have k: "ra = 0 \<longleftrightarrow> rb = 0" using assms by (simp add: q)
  have "iso_rank a \<le> iso_rank b \<longleftrightarrow> a \<le> b"
  proof (cases qa qb rule: linorder_cases)
    case less
    then have "iso_rank a < iso_rank b" unfolding q by (rule iso_rank_less_second)
    moreover have "a < b" using less r a b by linarith
    ultimately show ?thesis by linarith
  next
    case equal
    then show ?thesis unfolding ea eb using a b k by auto
  next
    case greater
    then have "iso_rank b < iso_rank a" unfolding q by (rule iso_rank_less_second)
    moreover have "b < a" using greater r a b by linarith
    ultimately show ?thesis by linarith
  qed
  then show ?thesis by (simp add: iso_le_def)
qed

section \<open>Queries that order by a stored instant\<close>

text \<open>
  \<open>ORDER BY column DESC\<close> with ties in rowid order, \<open>LIMIT 1\<close> through \<open>fetch_one\<close>, and
  \<open>MAX(column)\<close>, which ignores NULL.
\<close>

definition newest_first :: "('r \<Rightarrow> time) \<Rightarrow> 'r list \<Rightarrow> 'r list" where
  "newest_first key rs = sort_key (\<lambda>r. - iso_rank (key r)) rs"

definition oldest_first :: "('r \<Rightarrow> time) \<Rightarrow> 'r list \<Rightarrow> 'r list" where
  "oldest_first key rs = sort_key (\<lambda>r. iso_rank (key r)) rs"

fun first_row :: "'r list \<Rightarrow> 'r option" where
  "first_row [] = None"
| "first_row (r # rs) = Some r"

definition latest_instant :: "time option list \<Rightarrow> time option" where
  "latest_instant ts = first_row (newest_first id (map the (filter (\<lambda>t. t \<noteq> None) ts)))"

lemma set_newest_first [simp]: "set (newest_first key rs) = set rs"
  by (simp add: newest_first_def)

lemma set_oldest_first [simp]: "set (oldest_first key rs) = set rs"
  by (simp add: oldest_first_def)

lemma newest_first_Nil [simp]: "newest_first key [] = []"
  by (simp add: newest_first_def)

lemma first_row_SomeD: "first_row rs = Some r \<Longrightarrow> r \<in> set rs"
  by (cases rs) auto

lemma first_row_None [simp]: "first_row rs = None \<longleftrightarrow> rs = []"
  by (cases rs) auto

lemma newest_first_eq_Nil [simp]: "newest_first key rs = [] \<longleftrightarrow> rs = []"
  by (metis set_empty set_newest_first)

lemma newest_first_newest:
  assumes "first_row (newest_first key rs) = Some r" and "x \<in> set rs"
  shows "iso_le (key x) (key r)"
proof -
  have "sorted (map (\<lambda>r. - iso_rank (key r)) (newest_first key rs))"
    by (simp add: newest_first_def)
  moreover have "x \<in> set (newest_first key rs)" using assms(2) by simp
  ultimately show ?thesis using assms(1)
    by (cases "newest_first key rs") (auto simp: iso_le_def)
qed

lemma latest_instant_None: "latest_instant ts = None \<longleftrightarrow> (\<forall>t \<in> set ts. t = None)"
  by (auto simp: latest_instant_def filter_empty_conv)

lemma latest_instant_le:
  assumes "latest_instant ts = Some m" and "Some t \<in> set ts"
  shows "iso_le t m"
proof -
  have "t \<in> set (map the (filter (\<lambda>t. t \<noteq> None) ts))" using assms(2) by force
  with assms(1) show ?thesis unfolding latest_instant_def using newest_first_newest by fastforce
qed

end
