(* ===== verification/Outbox.thy ===== *)
theory Outbox
  imports Store Time_Format
begin

text \<open>
  \<open>infrastructure/outbox.py\<close>: the transactional outbox. The tables \<open>domain_events\<close> and
  \<open>domain_event_consumers\<close>, the functions that write, claim, publish and consume events, and
  the guarantees the rest of the system builds on: a claimed event is delivered to one claimant
  while its lease lasts, a published event is never delivered again, and a consumer reacts to an
  event at most once however often it is delivered.
\<close>

section \<open>Tables\<close>

record event_row =
  ev_id :: uid
  ev_type :: string
  ev_source :: string
  ev_payload :: payload
  ev_occurred_at :: time
  ev_created_at :: time
  ev_claimed_at :: "time option"
  ev_claim_expires_at :: "time option"
  ev_published_at :: "time option"

record consumer_row =
  cn_event_id :: uid
  cn_consumer :: string
  cn_processed_at :: time

text \<open>
  The database, as far as the infrastructure knows it. Every module extends this record with
  its own tables; \<open>next_id\<close> is the source of fresh uuids.
\<close>

record outbox_db =
  next_id :: uid
  domain_events :: "event_row list"
  event_consumers :: "consumer_row list"

record domain_event =
  de_type :: string
  de_source :: string
  de_payload :: payload
  de_occurred_at :: time

record claimed_event =
  ce_id :: uid
  ce_type :: string
  ce_source :: string
  ce_payload :: payload
  ce_occurred_at :: time
  ce_created_at :: time

section \<open>Operations\<close>

definition new_id :: "('m outbox_db_scheme, uid) tx" where
  "new_id s = Inr (next_id s, s\<lparr>next_id := Suc (next_id s)\<rparr>)"

definition event_row_of :: "uid \<Rightarrow> domain_event \<Rightarrow> event_row" where
  "event_row_of i e = \<lparr>ev_id = i, ev_type = de_type e, ev_source = de_source e,
     ev_payload = de_payload e, ev_occurred_at = de_occurred_at e,
     ev_created_at = de_occurred_at e, ev_claimed_at = None, ev_claim_expires_at = None,
     ev_published_at = None\<rparr>"

definition insert_event :: "event_row \<Rightarrow> 'm outbox_db_scheme \<Rightarrow> 'm outbox_db_scheme" where
  "insert_event r s = s\<lparr>domain_events := domain_events s @ [r]\<rparr>"

definition write_event :: "domain_event \<Rightarrow> ('m outbox_db_scheme, uid) tx" where
  "write_event e = tx_bind new_id (\<lambda>event_id.
     tx_bind (tx_modify (insert_event (event_row_of event_id e))) (\<lambda>_.
     tx_return event_id))"

text \<open>\<open>write_event\<close> as a statement whose result the caller drops.\<close>

definition emit :: "string \<Rightarrow> string \<Rightarrow> payload \<Rightarrow> time \<Rightarrow> ('m outbox_db_scheme, unit) tx" where
  "emit ty src p now =
     tx_bind (write_event \<lparr>de_type = ty, de_source = src, de_payload = p, de_occurred_at = now\<rparr>)
       (\<lambda>_. tx_return ())"

text \<open>
  \<open>published_at IS NULL AND (claimed_at IS NULL OR claim_expires_at <= ?)\<close>; a comparison with
  NULL is not true.
\<close>

definition claimable :: "time \<Rightarrow> event_row \<Rightarrow> bool" where
  "claimable now r \<longleftrightarrow> ev_published_at r = None \<and>
     (ev_claimed_at r = None \<or>
      (case ev_claim_expires_at r of None \<Rightarrow> False | Some x \<Rightarrow> iso_le x now))"

definition claim_batch :: "nat \<Rightarrow> time \<Rightarrow> event_row list \<Rightarrow> event_row list" where
  "claim_batch batch_size now rs =
     take batch_size (sort_key (\<lambda>r. iso_rank (ev_created_at r)) (filter (claimable now) rs))"

definition claimed_of :: "event_row \<Rightarrow> claimed_event" where
  "claimed_of r = \<lparr>ce_id = ev_id r, ce_type = ev_type r, ce_source = ev_source r,
     ce_payload = ev_payload r, ce_occurred_at = ev_occurred_at r, ce_created_at = ev_created_at r\<rparr>"

definition set_claimed ::
  "uid list \<Rightarrow> time \<Rightarrow> time \<Rightarrow> 'm outbox_db_scheme \<Rightarrow> 'm outbox_db_scheme" where
  "set_claimed ids now expires s = s\<lparr>domain_events :=
     update_where (\<lambda>r. ev_id r \<in> set ids)
       (\<lambda>r. r\<lparr>ev_claimed_at := Some now, ev_claim_expires_at := Some expires\<rparr>)
       (domain_events s)\<rparr>"

definition claim_pending_events ::
  "nat \<Rightarrow> time \<Rightarrow> time \<Rightarrow> ('m outbox_db_scheme, claimed_event list) op" where
  "claim_pending_events batch_size now lease_duration = transition
     (tx_bind (tx_get (\<lambda>s. claim_batch batch_size now (domain_events s))) (\<lambda>rows.
      if rows = [] then tx_return []
      else tx_bind (tx_modify (set_claimed (map ev_id rows) now (now + lease_duration))) (\<lambda>_.
           tx_return (map claimed_of rows))))
     no_events"

definition set_published :: "uid list \<Rightarrow> time \<Rightarrow> 'm outbox_db_scheme \<Rightarrow> 'm outbox_db_scheme" where
  "set_published event_ids now s = s\<lparr>domain_events :=
     update_where (\<lambda>r. ev_id r \<in> set event_ids) (\<lambda>r. r\<lparr>ev_published_at := Some now\<rparr>)
       (domain_events s)\<rparr>"

definition mark_published :: "uid list \<Rightarrow> time \<Rightarrow> ('m outbox_db_scheme, unit) op" where
  "mark_published event_ids now =
     (if event_ids = [] then op_return ()
      else transition (tx_modify (set_published event_ids now)) no_events)"

definition processed :: "uid \<Rightarrow> string \<Rightarrow> 'm outbox_db_scheme \<Rightarrow> bool" where
  "processed event_id consumer s \<longleftrightarrow>
     (\<exists>c \<in> set (event_consumers s). cn_event_id c = event_id \<and> cn_consumer c = consumer)"

definition has_been_processed :: "uid \<Rightarrow> string \<Rightarrow> ('m outbox_db_scheme, bool) tx" where
  "has_been_processed event_id consumer = tx_get (processed event_id consumer)"

text \<open>
  The primary key \<open>(event_id, consumer_name)\<close> and the foreign key to \<open>domain_events\<close> make the
  insert fail on a duplicate and on an unknown event.
\<close>

definition mark_processed :: "uid \<Rightarrow> string \<Rightarrow> time \<Rightarrow> ('m outbox_db_scheme, unit) tx" where
  "mark_processed event_id consumer now =
     tx_bind (tx_get (\<lambda>s. \<not> processed event_id consumer s
                 \<and> event_id \<in> ev_id ` set (domain_events s))) (\<lambda>ok.
     tx_bind (tx_require ok IntegrityError) (\<lambda>_.
     tx_modify (\<lambda>s. s\<lparr>event_consumers := event_consumers s @
       [\<lparr>cn_event_id = event_id, cn_consumer = consumer, cn_processed_at = now\<rparr>]\<rparr>)))"

definition consume_event ::
  "claimed_event \<Rightarrow> string \<Rightarrow> ('m outbox_db_scheme, unit) tx \<Rightarrow> time
     \<Rightarrow> ('m outbox_db_scheme, bool) op" where
  "consume_event event consumer handler now = apply_transition
     (has_been_processed (ce_id event) consumer)
     (\<lambda>_. Inr ())
     (\<lambda>already_processed.
        if already_processed then tx_return False
        else tx_bind handler (\<lambda>_.
             tx_bind (mark_processed (ce_id event) consumer now) (\<lambda>_.
             tx_return True)))
     (\<lambda>_. no_events)"

section \<open>What an operation appends to the outbox\<close>

lemma new_id_apply [tx_simps]:
  "new_id s = Inr (next_id s, s\<lparr>next_id := Suc (next_id s)\<rparr>)"
  by (simp add: new_id_def)

lemma write_event_apply [tx_simps]:
  "write_event e s = Inr (next_id s,
     insert_event (event_row_of (next_id s) e) (s\<lparr>next_id := Suc (next_id s)\<rparr>))"
  by (simp add: write_event_def tx_simps)

lemma emit_apply [tx_simps]:
  "emit ty src p now s = Inr ((),
     insert_event (event_row_of (next_id s)
         \<lparr>de_type = ty, de_source = src, de_payload = p, de_occurred_at = now\<rparr>)
       (s\<lparr>next_id := Suc (next_id s)\<rparr>))"
  by (simp add: emit_def tx_simps)

lemma insert_event_sel [simp]:
  "next_id (insert_event r s) = next_id s"
  "domain_events (insert_event r s) = domain_events s @ [r]"
  "event_consumers (insert_event r s) = event_consumers s"
  "outbox_db.more (insert_event r s) = outbox_db.more s"
  by (simp_all add: insert_event_def)

lemma set_published_sel [simp]:
  "next_id (set_published ids now s) = next_id s"
  "event_consumers (set_published ids now s) = event_consumers s"
  "outbox_db.more (set_published ids now s) = outbox_db.more s"
  by (simp_all add: set_published_def)

lemma event_row_of_sel [simp]:
  "ev_id (event_row_of i e) = i"
  "ev_type (event_row_of i e) = de_type e"
  "ev_payload (event_row_of i e) = de_payload e"
  "ev_occurred_at (event_row_of i e) = de_occurred_at e"
  "ev_created_at (event_row_of i e) = de_occurred_at e"
  "ev_published_at (event_row_of i e) = None"
  "ev_claimed_at (event_row_of i e) = None"
  by (simp_all add: event_row_of_def)

lemma claimable_event_row_of [simp]: "claimable now (event_row_of i e)"
  by (simp add: claimable_def)

section \<open>Well-formedness of the outbox\<close>

text \<open>
  Event ids are distinct and were all drawn, no consumer is recorded twice for an event, and
  every record refers to an existing event.
\<close>

definition outbox_ok :: "'m outbox_db_scheme \<Rightarrow> bool" where
  "outbox_ok s \<longleftrightarrow>
     distinct (map ev_id (domain_events s)) \<and>
     (\<forall>r \<in> set (domain_events s). ev_id r < next_id s) \<and>
     distinct (map (\<lambda>c. (cn_event_id c, cn_consumer c)) (event_consumers s)) \<and>
     (\<forall>c \<in> set (event_consumers s). cn_event_id c \<in> ev_id ` set (domain_events s))"

lemma outbox_okD:
  assumes "outbox_ok s"
  shows "distinct (map ev_id (domain_events s))"
    and "r \<in> set (domain_events s) \<Longrightarrow> ev_id r < next_id s"
    and "distinct (map (\<lambda>c. (cn_event_id c, cn_consumer c)) (event_consumers s))"
    and "c \<in> set (event_consumers s) \<Longrightarrow> cn_event_id c \<in> ev_id ` set (domain_events s)"
  using assms by (auto simp: outbox_ok_def)

lemma outbox_ok_new_id: "outbox_ok s \<Longrightarrow> outbox_ok (s\<lparr>next_id := Suc (next_id s)\<rparr>)"
  by (auto simp: outbox_ok_def less_Suc_eq)

lemma outbox_ok_insert:
  "outbox_ok s \<Longrightarrow>
   outbox_ok (insert_event (event_row_of (next_id s) e) (s\<lparr>next_id := Suc (next_id s)\<rparr>))"
  by (auto simp: outbox_ok_def less_Suc_eq)

lemma keeps_outbox_new_id [keeps_intros]: "keeps outbox_ok new_id"
  by (auto simp: keeps_def tx_simps outbox_ok_new_id)

lemma keeps_outbox_write_event [keeps_intros]: "keeps outbox_ok (write_event e)"
  by (auto simp: keeps_def tx_simps outbox_ok_insert)

lemma keeps_outbox_emit [keeps_intros]: "keeps outbox_ok (emit ty src p now)"
  unfolding emit_def by (intro keeps_bind keeps_return keeps_outbox_write_event)

lemma outbox_ok_update_events:
  assumes "outbox_ok s" and "\<And>r. ev_id (f r) = ev_id r"
  shows "outbox_ok (s\<lparr>domain_events := update_where c f (domain_events s)\<rparr>)"
proof -
  have ids: "map ev_id (update_where c f (domain_events s)) = map ev_id (domain_events s)"
    by (rule map_update_where) (rule assms(2))
  then have ids': "ev_id ` set (update_where c f (domain_events s)) = ev_id ` set (domain_events s)"
    by (metis set_map)
  have "\<forall>r \<in> set (update_where c f (domain_events s)). ev_id r < next_id s"
    using assms by (auto simp: set_update_where outbox_ok_def)
  with ids ids' assms(1) show ?thesis by (simp add: outbox_ok_def)
qed

lemma keeps_outbox_mark_processed [keeps_intros]: "keeps outbox_ok (mark_processed i c now)"
  unfolding keeps_def mark_processed_def
  by (auto simp: tx_success processed_def outbox_ok_def)

lemma op_keeps_outbox_claim: "op_keeps outbox_ok (claim_pending_events n now d)"
  unfolding claim_pending_events_def set_claimed_def
  by (intro op_keeps_transition keeps_bind keeps_get keeps_if keeps_return keeps_no_events
      keeps_modify outbox_ok_update_events) simp_all

lemma op_keeps_outbox_published: "op_keeps outbox_ok (mark_published ids now)"
  unfolding mark_published_def set_published_def
  by (intro op_keeps_if op_keeps_return op_keeps_transition keeps_no_events
      keeps_modify outbox_ok_update_events) simp_all

lemma op_keeps_outbox_consume:
  "keeps outbox_ok h \<Longrightarrow> op_keeps outbox_ok (consume_event e c h now)"
  unfolding consume_event_def has_been_processed_def
  by (intro op_keeps_apply_transition keeps_bind keeps_get keeps_if keeps_return keeps_no_events
      keeps_outbox_mark_processed)

section \<open>Claiming\<close>

lemma set_claimed_sel [simp]:
  "next_id (set_claimed ids now x s) = next_id s"
  "event_consumers (set_claimed ids now x s) = event_consumers s"
  "outbox_db.more (set_claimed ids now x s) = outbox_db.more s"
  by (simp_all add: set_claimed_def)

lemma set_claimed_Nil [simp]: "set_claimed [] now x s = s"
  by (simp add: set_claimed_def update_where_id)

lemma claim_pending_events_eq [tx_simps]:
  "claim_pending_events n now d s =
     (let rows = claim_batch n now (domain_events s)
      in (Inr (map claimed_of rows), set_claimed (map ev_id rows) now (now + d) s))"
  by (simp add: claim_pending_events_def transition_no_events tx_bind_apply tx_simps atomically_def
      Let_def)

lemma mark_published_eq [tx_simps]:
  "mark_published ids now s = (Inr (), set_published ids now s)"
  by (simp add: mark_published_def transition_no_events atomically_def tx_simps op_return_def
      set_published_def update_where_id)

lemma claim_batch_set: "r \<in> set (claim_batch n now rs) \<Longrightarrow> r \<in> set rs \<and> claimable now r"
  unfolding claim_batch_def by (drule in_set_takeD) simp

lemma claim_batch_length: "length (claim_batch n now rs) \<le> n"
  by (simp add: claim_batch_def)

lemma claim_batch_sorted:
  "sorted (map (\<lambda>r. iso_rank (ev_created_at r)) (claim_batch n now rs))"
proof -
  let ?k = "\<lambda>r. iso_rank (ev_created_at r)"
  have "sorted (map ?k (sort_key ?k (filter (claimable now) rs)))" by simp
  then show ?thesis unfolding claim_batch_def by (subst take_map [symmetric]) (rule sorted_wrt_take)
qed

lemma claim_batch_all:
  assumes "count_where (claimable now) rs \<le> n"
  shows "set (claim_batch n now rs) = set (filter (claimable now) rs)"
proof -
  have "length (sort_key (\<lambda>r. iso_rank (ev_created_at r)) (filter (claimable now) rs)) \<le> n"
    using assms by (simp add: count_where_def)
  then show ?thesis unfolding claim_batch_def by (subst take_all) simp_all
qed

lemma claim_batch_Nil: "claim_batch n now rs = [] \<longleftrightarrow> n = 0 \<or> (\<forall>r \<in> set rs. \<not> claimable now r)"
  by (auto simp: claim_batch_def filter_empty_conv) (metis (no_types, lifting) filter_empty_conv set_empty set_sort)

lemma distinct_claim_batch:
  assumes "distinct (map ev_id rs)"
  shows "distinct (map ev_id (claim_batch n now rs))"
proof -
  let ?k = "\<lambda>r. iso_rank (ev_created_at r)"
  have "distinct (map ev_id (filter (claimable now) rs))"
    using assms by (simp add: distinct_map_filter)
  then have "distinct (map ev_id (sort_key ?k (filter (claimable now) rs)))"
    by (simp add: distinct_map)
  then show ?thesis unfolding claim_batch_def by (simp add: take_map [symmetric] distinct_take)
qed

lemma not_claimable_after_claim:
  assumes "r \<in> set (domain_events (set_claimed ids now x s))" and "ev_id r \<in> set ids"
    and "\<not> iso_le x now'"
  shows "\<not> claimable now' r"
  using assms by (auto simp: set_claimed_def set_update_where claimable_def)

lemma not_claimable_after_publish:
  assumes "r \<in> set (domain_events (set_published ids now s))" and "ev_id r \<in> set ids"
  shows "\<not> claimable now' r"
  using assms by (auto simp: set_published_def set_update_where claimable_def)

section \<open>Consuming\<close>

lemma consume_event_eq [tx_simps]:
  "consume_event e c h now s =
     (if processed (ce_id e) c s then (Inr False, s)
      else case h s of
             Inl x \<Rightarrow> (Inl x, s)
           | Inr (u, s') \<Rightarrow>
               (if \<not> processed (ce_id e) c s' \<and> ce_id e \<in> ev_id ` set (domain_events s')
                then (Inr True, s'\<lparr>event_consumers := event_consumers s' @
                       [\<lparr>cn_event_id = ce_id e, cn_consumer = c, cn_processed_at = now\<rparr>]\<rparr>)
                else (Inl IntegrityError, s)))"
  by (auto simp: consume_event_def apply_transition_def has_been_processed_def mark_processed_def
      tx_bind_apply tx_simps atomically_def no_events_def split: sum.splits prod.splits)

lemma consume_event_processed:
  "fst (consume_event e c h now s) = Inr b \<Longrightarrow> processed (ce_id e) c (snd (consume_event e c h now s))"
  by (auto simp: consume_event_eq processed_def split: if_splits sum.splits)

end
