(* ===== verification/Trust_Manager.thy ===== *)
theory Trust_Manager
  imports Trust_Rules Startup_Lease
begin

text \<open>
  \<open>trust_manager/repository.py\<close>: the domain registry, the incident and confirmation life cycle,
  the recalculation pipeline, the public reads and the startup repair. The invariant \<open>trust_ok\<close>
  collects what the tables always satisfy; every operation keeps it.
\<close>

section \<open>Tables\<close>

record trust_domain_row =
  td_domain_id :: string
  td_display_name :: string
  td_description :: string
  td_is_active :: bool
  td_created_at :: time
  td_created_via_consent_id :: string
  td_deactivated_at :: "time option"
  td_deactivated_via_consent_id :: "string option"
  td_initial_score_override :: "real option"
  td_initial_confidence_override :: "real option"

record domain_state_row =
  ds_domain_id :: string
  ds_score :: real
  ds_confidence :: real
  ds_trend :: string
  ds_last_recalculated_at :: time
  ds_last_relevant_event_at :: "time option"

text \<open>
  The assessment columns of \<open>incidents\<close> are NULL together or set together; the model keeps them
  as one optional pair of severity and cooperation.
\<close>

record incident_row =
  in_id :: uid
  in_created_at :: time
  in_rule_group_id :: string
  in_trust_domain :: string
  in_confirmation :: incident_confirmation
  in_description :: string
  in_evidence :: incident_evidence
  in_assessment :: "(severity_tier \<times> cooperation_assessment) option"

record confirmation_row =
  cr_id :: uid
  cr_incident_id :: uid
  cr_created_at :: time
  cr_previous :: incident_confirmation
  cr_new :: incident_confirmation
  cr_source :: confirmation_source
  cr_evidence_description :: string

record evidence_row =
  te_id :: uid
  te_domain_id :: string
  te_created_at :: time
  te_type :: evidence_type
  te_source_entity_type :: string
  te_source_entity_id :: uid
  te_raw_weight :: real
  te_confidence :: real

record recalculation_row =
  tr_id :: uid
  tr_domain_id :: string
  tr_created_at :: time
  tr_previous_score :: real
  tr_new_score :: real
  tr_previous_confidence :: real
  tr_new_confidence :: real
  tr_triggered_by :: string

record recalc_evidence_row =
  re_recalculation_id :: uid
  re_evidence_id :: uid
  re_effective_weight :: real
  re_created_at :: time

record trust_db = lease_db +
  trust_domains :: "trust_domain_row list"
  trust_domain_state :: "domain_state_row list"
  incidents :: "incident_row list"
  confirmation_records :: "confirmation_row list"
  trust_evidence :: "evidence_row list"
  trust_recalculations :: "recalculation_row list"
  trust_recalculation_evidence :: "recalc_evidence_row list"

record incident_assessment =
  intrinsic_severity :: severity_tier
  assessment_confirmation :: incident_confirmation
  assessment_cooperation :: cooperation_assessment
  assessment_evidence :: incident_evidence

record confirmed_incident_summary =
  cs_id :: uid
  cs_trust_domain :: string
  cs_rule_group_id :: string
  cs_created_at :: time

section \<open>Domain registry\<close>

definition default_new_domain_score :: real where "default_new_domain_score = 0.6"
definition default_new_domain_confidence :: real where "default_new_domain_confidence = 0.15"

definition or_default :: "'a option \<Rightarrow> 'a \<Rightarrow> 'a" where
  "or_default x d = (case x of None \<Rightarrow> d | Some v \<Rightarrow> v)"

definition create_domain ::
  "string \<Rightarrow> string \<Rightarrow> string \<Rightarrow> string \<Rightarrow> time \<Rightarrow> real option \<Rightarrow> real option
     \<Rightarrow> ('m trust_db_scheme, trust_domain_row) op" where
  "create_domain domain_id display_name description consent now score_override confidence_override =
     (let domain = \<lparr>td_domain_id = domain_id, td_display_name = display_name,
            td_description = description, td_is_active = True, td_created_at = now,
            td_created_via_consent_id = consent, td_deactivated_at = None,
            td_deactivated_via_consent_id = None, td_initial_score_override = score_override,
            td_initial_confidence_override = confidence_override\<rparr>;
          state = \<lparr>ds_domain_id = domain_id,
            ds_score = or_default score_override default_new_domain_score,
            ds_confidence = or_default confidence_override default_new_domain_confidence,
            ds_trend = ''stable'', ds_last_recalculated_at = now,
            ds_last_relevant_event_at = None\<rparr>
      in transition
        (tx_bind (tx_get (\<lambda>s. domain_id \<notin> td_domain_id ` set (trust_domains s)
                     \<and> domain_id \<notin> ds_domain_id ` set (trust_domain_state s))) (\<lambda>ok.
         tx_bind (tx_require ok IntegrityError) (\<lambda>_.
         tx_bind (tx_modify (\<lambda>s. s\<lparr>trust_domains := trust_domains s @ [domain],
                     trust_domain_state := trust_domain_state s @ [state]\<rparr>)) (\<lambda>_.
         tx_return domain))))
        (\<lambda>_. emit ''trust_domain.created'' ''trust_manager''
                [(''domain_id'', JStr domain_id)] now))"

definition deactivate_domain :: "string \<Rightarrow> string \<Rightarrow> time \<Rightarrow> ('m trust_db_scheme, unit) op" where
  "deactivate_domain domain_id via_consent_id now = transition
     (tx_modify (\<lambda>s. s\<lparr>trust_domains := update_where (\<lambda>d. td_domain_id d = domain_id)
        (\<lambda>d. d\<lparr>td_is_active := False, td_deactivated_at := Some now,
               td_deactivated_via_consent_id := Some via_consent_id\<rparr>) (trust_domains s)\<rparr>))
     (\<lambda>_. emit ''trust_domain.deactivated'' ''trust_manager''
             [(''domain_id'', JStr domain_id)] now)"

definition reactivate_domain :: "string \<Rightarrow> string \<Rightarrow> time \<Rightarrow> ('m trust_db_scheme, unit) op" where
  "reactivate_domain domain_id via_consent_id now = transition
     (tx_modify (\<lambda>s. s\<lparr>trust_domains := update_where (\<lambda>d. td_domain_id d = domain_id)
        (\<lambda>d. d\<lparr>td_is_active := True, td_deactivated_at := None,
               td_deactivated_via_consent_id := None\<rparr>) (trust_domains s)\<rparr>))
     (\<lambda>_. emit ''trust_domain.reactivated'' ''trust_manager''
             [(''domain_id'', JStr domain_id), (''via_consent_id'', JStr via_consent_id)] now)"

definition get_domain_state :: "string \<Rightarrow> 'm trust_db_scheme \<Rightarrow> domain_state_row option" where
  "get_domain_state domain_id s = row_by ds_domain_id domain_id (trust_domain_state s)"

section \<open>The recalculation pipeline\<close>

definition evidence_consumed :: "'m trust_db_scheme \<Rightarrow> evidence_row \<Rightarrow> bool" where
  "evidence_consumed s e \<longleftrightarrow> te_id e \<in> re_evidence_id ` set (trust_recalculation_evidence s)"

definition select_unconsumed_evidence :: "string \<Rightarrow> 'm trust_db_scheme \<Rightarrow> evidence_row list" where
  "select_unconsumed_evidence domain_id s = sort_key (\<lambda>e. iso_rank (te_created_at e))
     (filter (\<lambda>e. te_domain_id e = domain_id \<and> \<not> evidence_consumed s e) (trust_evidence s))"

definition select_applied_evidence_in_window ::
  "string \<Rightarrow> time \<Rightarrow> 'm trust_db_scheme \<Rightarrow> evidence_row list" where
  "select_applied_evidence_in_window domain_id window_start s =
     filter (\<lambda>e. evidence_consumed s e \<and> te_domain_id e = domain_id
               \<and> iso_le window_start (te_created_at e)) (trust_evidence s)"

text \<open>\<open>evidence_id\<close> is UNIQUE in \<open>trust_recalculation_evidence\<close>.\<close>

definition insert_recalc_evidence :: "uid \<Rightarrow> time \<Rightarrow> evidence_row \<Rightarrow> ('m trust_db_scheme, unit) tx" where
  "insert_recalc_evidence recalc_id now e =
     tx_bind (tx_get (\<lambda>s. \<not> evidence_consumed s e)) (\<lambda>ok.
     tx_bind (tx_require ok IntegrityError) (\<lambda>_.
     tx_modify (\<lambda>s. s\<lparr>trust_recalculation_evidence := trust_recalculation_evidence s @
       [\<lparr>re_recalculation_id = recalc_id, re_evidence_id = te_id e,
         re_effective_weight = effective_weight (te_raw_weight e) (te_confidence e),
         re_created_at = now\<rparr>]\<rparr>)))"

definition insert_recalculation :: "recalculation_row \<Rightarrow> 'm trust_db_scheme \<Rightarrow> 'm trust_db_scheme" where
  "insert_recalculation r s = s\<lparr>trust_recalculations := trust_recalculations s @ [r]\<rparr>"

definition finish_recalculation ::
  "uid \<Rightarrow> string \<Rightarrow> real \<Rightarrow> real \<Rightarrow> time \<Rightarrow> time option
     \<Rightarrow> 'm trust_db_scheme \<Rightarrow> 'm trust_db_scheme" where
  "finish_recalculation recalc_id domain_id new_score new_confidence now last_event s =
     s\<lparr>trust_recalculations := update_where (\<lambda>r. tr_id r = recalc_id)
          (\<lambda>r. r\<lparr>tr_new_confidence := new_confidence\<rparr>) (trust_recalculations s),
       trust_domain_state := update_where (\<lambda>d. ds_domain_id d = domain_id)
          (\<lambda>d. d\<lparr>ds_score := new_score, ds_confidence := new_confidence,
                 ds_last_recalculated_at := now, ds_last_relevant_event_at := last_event\<rparr>)
          (trust_domain_state s)\<rparr>"

definition recalculate_domain_trust_in_transaction ::
  "string \<Rightarrow> string \<Rightarrow> time \<Rightarrow> ('m trust_db_scheme, recalculation_row) tx" where
  "recalculate_domain_trust_in_transaction domain_id triggered_by now =
     tx_bind (tx_get (get_domain_state domain_id)) (\<lambda>row.
     tx_bind (tx_the TypeError row) (\<lambda>state_row.
     tx_bind (tx_get (select_unconsumed_evidence domain_id)) (\<lambda>unconsumed.
     (let proposed_delta =
            sum_list (map (\<lambda>e. effective_weight (te_raw_weight e) (te_confidence e)) unconsumed);
          new_score = apply_recalculation (ds_score state_row) proposed_delta
      in tx_bind new_id (\<lambda>recalc_id.
         (let recalculation = \<lparr>tr_id = recalc_id, tr_domain_id = domain_id, tr_created_at = now,
                tr_previous_score = ds_score state_row, tr_new_score = new_score,
                tr_previous_confidence = ds_confidence state_row, tr_new_confidence = 0,
                tr_triggered_by = triggered_by\<rparr>
          in tx_bind (tx_modify (insert_recalculation recalculation)) (\<lambda>_.
             tx_bind (tx_for unconsumed (insert_recalc_evidence recalc_id now)) (\<lambda>_.
             tx_bind (tx_get (select_applied_evidence_in_window domain_id
                        (now - confidence_rolling_window))) (\<lambda>applied.
             (let new_confidence = compute_confidence (length applied)
              in tx_bind (tx_modify (finish_recalculation recalc_id domain_id new_score
                       new_confidence now
                       (if unconsumed = [] then ds_last_relevant_event_at state_row
                        else Some now))) (\<lambda>_.
                 tx_return (recalculation\<lparr>tr_new_confidence := new_confidence\<rparr>)))))))))))) "

definition recalculated_payload :: "recalculation_row \<Rightarrow> payload" where
  "recalculated_payload r =
     [(''domain_id'', JStr (tr_domain_id r)), (''previous_score'', JNum (tr_previous_score r)),
      (''new_score'', JNum (tr_new_score r)),
      (''previous_confidence'', JNum (tr_previous_confidence r)),
      (''new_confidence'', JNum (tr_new_confidence r)),
      (''triggered_by'', JStr (tr_triggered_by r))]"

definition recalculate_domain_trust ::
  "string \<Rightarrow> string \<Rightarrow> time \<Rightarrow> ('m trust_db_scheme, recalculation_row) op" where
  "recalculate_domain_trust domain_id triggered_by now = transition
     (recalculate_domain_trust_in_transaction domain_id triggered_by now)
     (\<lambda>r. emit ''trust_domain.recalculated'' ''trust_manager'' (recalculated_payload r) now)"

section \<open>Incidents\<close>

text \<open>\<open>incidents.trust_domain\<close> is a foreign key to \<open>trust_domains\<close>.\<close>

definition register_incident_report ::
  "string \<Rightarrow> string \<Rightarrow> string \<Rightarrow> incident_evidence \<Rightarrow> time
     \<Rightarrow> ('m trust_db_scheme, incident_row) op" where
  "register_incident_report rule_group_id domain description evidence now = transition
     (tx_bind new_id (\<lambda>i.
      (let incident = \<lparr>in_id = i, in_created_at = now, in_rule_group_id = rule_group_id,
             in_trust_domain = domain, in_confirmation = UNCONFIRMED,
             in_description = description, in_evidence = evidence, in_assessment = None\<rparr>
       in tx_bind (tx_get (\<lambda>s. domain \<in> td_domain_id ` set (trust_domains s))) (\<lambda>known.
          tx_bind (tx_require known IntegrityError) (\<lambda>_.
          tx_bind (tx_modify (\<lambda>s. s\<lparr>incidents := incidents s @ [incident]\<rparr>)) (\<lambda>_.
          tx_return incident))))))
     (\<lambda>r. emit ''incident.reported'' ''trust_manager''
             [(''incident_id'', JId (in_id r)), (''trust_domain'', JStr (in_trust_domain r))] now)"

definition load_incident :: "uid \<Rightarrow> ('m trust_db_scheme, incident_row) tx" where
  "load_incident i = tx_bind (tx_get (\<lambda>s. row_by in_id i (incidents s)))
     (\<lambda>row. tx_the (IncidentNotFoundError i) row)"

definition update_incident_assessment ::
  "uid \<Rightarrow> severity_tier \<Rightarrow> cooperation_assessment \<Rightarrow> 'm trust_db_scheme \<Rightarrow> 'm trust_db_scheme" where
  "update_incident_assessment i t c s = s\<lparr>incidents :=
     update_where (\<lambda>r. in_id r = i) (\<lambda>r. r\<lparr>in_assessment := Some (t, c)\<rparr>) (incidents s)\<rparr>"

text \<open>
  \<open>UNIQUE(source_entity_type, source_entity_id, evidence_type)\<close> and the foreign key to the
  domain registry.
\<close>

definition evidence_key :: "evidence_row \<Rightarrow> string \<times> uid \<times> evidence_type" where
  "evidence_key e = (te_source_entity_type e, te_source_entity_id e, te_type e)"

definition insert_trust_evidence :: "evidence_row \<Rightarrow> ('m trust_db_scheme, unit) tx" where
  "insert_trust_evidence e =
     tx_bind (tx_get (\<lambda>s. evidence_key e \<notin> evidence_key ` set (trust_evidence s)
                 \<and> te_domain_id e \<in> td_domain_id ` set (trust_domains s))) (\<lambda>ok.
     tx_bind (tx_require ok IntegrityError) (\<lambda>_.
     tx_modify (\<lambda>s. s\<lparr>trust_evidence := trust_evidence s @ [e]\<rparr>)))"

definition insert_trust_evidence_for_incident ::
  "incident_row \<Rightarrow> severity_tier \<Rightarrow> cooperation_assessment \<Rightarrow> time
     \<Rightarrow> ('m trust_db_scheme, evidence_row) tx" where
  "insert_trust_evidence_for_incident inc t c now = tx_bind new_id (\<lambda>i.
     (let row = \<lparr>te_id = i, te_domain_id = in_trust_domain inc, te_created_at = now,
            te_type = INCIDENT_IMPACT, te_source_entity_type = ''incident'',
            te_source_entity_id = in_id inc, te_raw_weight = raw_weight_for_incident t c,
            te_confidence = confidence_numeric (evidence_confidence (in_evidence inc))\<rparr>
      in tx_bind (insert_trust_evidence row) (\<lambda>_. tx_return row)))"

definition emit_evidence_recorded :: "evidence_row \<Rightarrow> time \<Rightarrow> ('m trust_db_scheme, unit) tx" where
  "emit_evidence_recorded e now = emit ''trust_evidence.recorded'' ''trust_manager''
     [(''evidence_id'', JId (te_id e)), (''domain_id'', JStr (te_domain_id e))] now"

text \<open>
  The branch of \<open>confirm_incident\<close> for CONFIRMED: severity, assessment, evidence and the
  recalculation, all in the caller's transaction.
\<close>

definition confirm_effects ::
  "incident_row \<Rightarrow> cooperation_assessment \<Rightarrow> time \<Rightarrow> ('m trust_db_scheme, incident_row) tx" where
  "confirm_effects inc cooperation now =
     (let severity = assess_severity (in_evidence inc);
          inc' = inc\<lparr>in_assessment := Some (severity, cooperation)\<rparr>
      in tx_bind (tx_modify (update_incident_assessment (in_id inc) severity cooperation)) (\<lambda>_.
         tx_bind (insert_trust_evidence_for_incident inc' severity cooperation now) (\<lambda>evidence.
         tx_bind (emit_evidence_recorded evidence now) (\<lambda>_.
         tx_bind (recalculate_domain_trust_in_transaction (in_trust_domain inc) ''incident'' now) (\<lambda>r.
         tx_bind (emit ''trust_domain.recalculated'' ''trust_manager''
                    (recalculated_payload r) now) (\<lambda>_.
         tx_return inc'))))))"

definition confirmation_changed_payload :: "incident_row \<Rightarrow> confirmation_row \<Rightarrow> payload" where
  "confirmation_changed_payload inc r =
     [(''incident_id'', JId (in_id inc)), (''trust_domain'', JStr (in_trust_domain inc)),
      (''rule_group_id'', JStr (in_rule_group_id inc)),
      (''previous_confirmation'', JStr (confirmation_value (cr_previous r))),
      (''new_confirmation'', JStr (confirmation_value (cr_new r)))]
     @ (case in_assessment inc of None \<Rightarrow> []
        | Some (t, c) \<Rightarrow>
            [(''intrinsic_severity'', JStr (severity_value t)),
             (''cooperation_self_disclosed'', JBool (self_disclosed c)),
             (''cooperation_active_cooperation_in_resolution'',
              JBool (active_cooperation_in_resolution c))])"

definition confirm_write ::
  "incident_row \<Rightarrow> incident_confirmation \<Rightarrow> confirmation_source \<Rightarrow> string
     \<Rightarrow> cooperation_assessment \<Rightarrow> time
     \<Rightarrow> ('m trust_db_scheme, incident_row \<times> confirmation_row) tx" where
  "confirm_write inc new_confirmation source evidence_description cooperation now =
     tx_bind new_id (\<lambda>i.
     (let record_row = \<lparr>cr_id = i, cr_incident_id = in_id inc, cr_created_at = now,
            cr_previous = in_confirmation inc, cr_new = new_confirmation, cr_source = source,
            cr_evidence_description = evidence_description\<rparr>
      in tx_bind (tx_modify (\<lambda>s. s\<lparr>confirmation_records := confirmation_records s @ [record_row],
                    incidents := update_where (\<lambda>r. in_id r = in_id inc)
                      (\<lambda>r. r\<lparr>in_confirmation := new_confirmation\<rparr>) (incidents s)\<rparr>)) (\<lambda>_.
         tx_bind (if new_confirmation = CONFIRMED then confirm_effects inc cooperation now
                  else tx_return inc) (\<lambda>inc'.
         tx_return (inc', record_row)))))"

definition confirm_incident ::
  "uid \<Rightarrow> incident_confirmation \<Rightarrow> confirmation_source \<Rightarrow> string
     \<Rightarrow> cooperation_assessment option \<Rightarrow> time
     \<Rightarrow> ('m trust_db_scheme, incident_row \<times> confirmation_row) op" where
  "confirm_incident i new_confirmation source evidence_description cooperation now =
     apply_transition (load_incident i) (\<lambda>_. Inr ())
       (\<lambda>inc. confirm_write inc new_confirmation source evidence_description
                (or_default cooperation default_cooperation) now)
       (\<lambda>_ (inc', r). emit ''incident.confirmation_changed'' ''trust_manager''
                        (confirmation_changed_payload inc' r) now)"

section \<open>Public reads\<close>

text \<open>
  A CONFIRMED row whose severity column is NULL makes \<open>SeverityTier(None)\<close> raise; the invariant
  below (TI23) shows that this branch is never taken.
\<close>

definition row_to_assessment :: "incident_row \<Rightarrow> exn + incident_assessment" where
  "row_to_assessment r = (case in_assessment r of None \<Rightarrow> Inl ValueError
     | Some (t, c) \<Rightarrow> Inr \<lparr>intrinsic_severity = t, assessment_confirmation = in_confirmation r,
         assessment_cooperation = c, assessment_evidence = in_evidence r\<rparr>)"

definition get_incident_assessment ::
  "uid \<Rightarrow> 'm trust_db_scheme \<Rightarrow> exn + incident_assessment option" where
  "get_incident_assessment i s = (case row_by in_id i (incidents s) of
     None \<Rightarrow> Inr None
   | Some r \<Rightarrow> if in_confirmation r \<noteq> CONFIRMED then Inr None
       else (case row_to_assessment r of Inl e \<Rightarrow> Inl e | Inr a \<Rightarrow> Inr (Some a)))"

definition get_confirmed_incidents_since ::
  "time \<Rightarrow> 'm trust_db_scheme \<Rightarrow> confirmed_incident_summary list" where
  "get_confirmed_incidents_since since s =
     map (\<lambda>r. \<lparr>cs_id = in_id r, cs_trust_domain = in_trust_domain r,
                cs_rule_group_id = in_rule_group_id r, cs_created_at = in_created_at r\<rparr>)
       (filter (\<lambda>r. in_confirmation r = CONFIRMED \<and> iso_le since (in_created_at r)) (incidents s))"

section \<open>Startup repair\<close>

definition get_confirmed_incidents_with_null_assessment ::
  "'m trust_db_scheme \<Rightarrow> incident_row list" where
  "get_confirmed_incidents_with_null_assessment s =
     filter (\<lambda>r. in_confirmation r = CONFIRMED \<and> in_assessment r = None) (incidents s)"

definition repair_incident :: "time \<Rightarrow> incident_row \<Rightarrow> ('m trust_db_scheme, unit) op" where
  "repair_incident now inc =
     (let severity = assess_severity (in_evidence inc)
      in op_bind
         (transition
           (tx_bind (tx_modify (update_incident_assessment (in_id inc) severity default_cooperation)) (\<lambda>_.
            insert_trust_evidence_for_incident inc severity default_cooperation now))
           (\<lambda>evidence. emit_evidence_recorded evidence now))
         (\<lambda>_. op_return ()))"

definition recover_trust_manager_state :: "time \<Rightarrow> ('m trust_db_scheme, nat) op" where
  "recover_trust_manager_state now s =
     (let broken = get_confirmed_incidents_with_null_assessment s
      in op_bind (op_for broken (repair_incident now)) (\<lambda>_. op_return (length broken)) s)"

section \<open>The recalculation in closed form\<close>

definition recalc_evidence_of :: "uid \<Rightarrow> time \<Rightarrow> evidence_row \<Rightarrow> recalc_evidence_row" where
  "recalc_evidence_of rid now e = \<lparr>re_recalculation_id = rid, re_evidence_id = te_id e,
     re_effective_weight = effective_weight (te_raw_weight e) (te_confidence e), re_created_at = now\<rparr>"

lemma re_evidence_id_of [simp]: "re_evidence_id (recalc_evidence_of rid now e) = te_id e"
  by (simp add: recalc_evidence_of_def)

lemma tx_for_insert_recalc_evidence:
  assumes "distinct (map te_id es)" and "\<forall>e \<in> set es. \<not> evidence_consumed s e"
  shows "tx_for es (insert_recalc_evidence rid now) s = Inr ((),
    s\<lparr>trust_recalculation_evidence := trust_recalculation_evidence s @ map (recalc_evidence_of rid now) es\<rparr>)"
  using assms
proof (induction es arbitrary: s)
  case Nil
  then show ?case by (simp add: tx_simps)
next
  case (Cons e es)
  let ?s = "s\<lparr>trust_recalculation_evidence := trust_recalculation_evidence s @ [recalc_evidence_of rid now e]\<rparr>"
  have "insert_recalc_evidence rid now e s = Inr ((), ?s)"
    using Cons.prems by (simp add: insert_recalc_evidence_def tx_simps recalc_evidence_of_def)
  moreover have "tx_for es (insert_recalc_evidence rid now) ?s = Inr ((), ?s\<lparr>trust_recalculation_evidence :=
      trust_recalculation_evidence ?s @ map (recalc_evidence_of rid now) es\<rparr>)"
    by (rule Cons.IH) (use Cons.prems in \<open>auto simp: evidence_consumed_def image_iff\<close>)
  ultimately show ?case by (simp add: tx_simps)
qed

definition recalculation_of ::
  "string \<Rightarrow> string \<Rightarrow> time \<Rightarrow> domain_state_row \<Rightarrow> 'm trust_db_scheme \<Rightarrow> recalculation_row" where
  "recalculation_of domain_id trigger now st s =
     (let unconsumed = select_unconsumed_evidence domain_id s;
          s' = s\<lparr>trust_recalculation_evidence := trust_recalculation_evidence s
                 @ map (recalc_evidence_of (next_id s) now) unconsumed\<rparr>
      in \<lparr>tr_id = next_id s, tr_domain_id = domain_id, tr_created_at = now,
          tr_previous_score = ds_score st,
          tr_new_score = apply_recalculation (ds_score st)
            (sum_list (map (\<lambda>e. effective_weight (te_raw_weight e) (te_confidence e)) unconsumed)),
          tr_previous_confidence = ds_confidence st,
          tr_new_confidence = compute_confidence (length
            (select_applied_evidence_in_window domain_id (now - confidence_rolling_window) s')),
          tr_triggered_by = trigger\<rparr>)"

definition recalculated ::
  "string \<Rightarrow> string \<Rightarrow> time \<Rightarrow> domain_state_row \<Rightarrow> 'm trust_db_scheme \<Rightarrow> 'm trust_db_scheme" where
  "recalculated domain_id trigger now st s =
     (let unconsumed = select_unconsumed_evidence domain_id s;
          r = recalculation_of domain_id trigger now st s
      in s\<lparr>next_id := Suc (next_id s),
           trust_recalculations := trust_recalculations s @ [r],
           trust_recalculation_evidence := trust_recalculation_evidence s
              @ map (recalc_evidence_of (next_id s) now) unconsumed,
           trust_domain_state := update_where (\<lambda>d. ds_domain_id d = domain_id)
              (\<lambda>d. d\<lparr>ds_score := tr_new_score r, ds_confidence := tr_new_confidence r,
                 ds_last_recalculated_at := now,
                 ds_last_relevant_event_at :=
                   (if unconsumed = [] then ds_last_relevant_event_at st else Some now)\<rparr>)
              (trust_domain_state s)\<rparr>)"

lemma set_select_unconsumed [simp]:
  "set (select_unconsumed_evidence d s)
     = {e \<in> set (trust_evidence s). te_domain_id e = d \<and> \<not> evidence_consumed s e}"
  by (auto simp: select_unconsumed_evidence_def)

lemma distinct_select_unconsumed:
  "distinct (map te_id (trust_evidence s)) \<Longrightarrow> distinct (map te_id (select_unconsumed_evidence d s))"
  unfolding select_unconsumed_evidence_def
  by (simp add: distinct_map inj_on_def)

lemma recalculate_eq:
  assumes "get_domain_state d s = Some st" and "distinct (map te_id (trust_evidence s))"
    and "\<forall>r \<in> set (trust_recalculations s). tr_id r < next_id s"
  shows "recalculate_domain_trust_in_transaction d trigger now s
    = Inr (recalculation_of d trigger now st s, recalculated d trigger now st s)"
proof -
  let ?es = "select_unconsumed_evidence d s"
  let ?rid = "next_id s"
  define r0 where "r0 = (recalculation_of d trigger now st s)\<lparr>tr_new_confidence := 0\<rparr>"
  define s1 where "s1 = insert_recalculation r0 (s\<lparr>next_id := Suc ?rid\<rparr>)"
  have for_ok: "tx_for ?es (insert_recalc_evidence ?rid now) s1 = Inr ((),
      s1\<lparr>trust_recalculation_evidence := trust_recalculation_evidence s1
         @ map (recalc_evidence_of ?rid now) ?es\<rparr>)"
    using distinct_select_unconsumed [OF assms(2)]
    by (intro tx_for_insert_recalc_evidence)
      (auto simp: s1_def insert_recalculation_def evidence_consumed_def)
  have r0: "r0 = \<lparr>tr_id = ?rid, tr_domain_id = d, tr_created_at = now,
      tr_previous_score = ds_score st,
      tr_new_score = apply_recalculation (ds_score st)
        (sum_list (map (\<lambda>e. effective_weight (te_raw_weight e) (te_confidence e)) ?es)),
      tr_previous_confidence = ds_confidence st, tr_new_confidence = 0, tr_triggered_by = trigger\<rparr>"
    by (simp add: r0_def recalculation_of_def Let_def)
  have old: "update_where (\<lambda>r. tr_id r = ?rid) f (trust_recalculations s) = trust_recalculations s" for f
    using assms(3) by (intro update_where_id) auto
  show ?thesis
    unfolding recalculate_domain_trust_in_transaction_def Let_def
    using assms(1) for_ok
    by (simp add: tx_simps flip: r0 s1_def)
      (simp add: s1_def insert_recalculation_def finish_recalculation_def recalculated_def
        recalculation_of_def r0_def Let_def old select_applied_evidence_in_window_def
        evidence_consumed_def)
qed

lemma recalculate_raises:
  "get_domain_state d s = None \<Longrightarrow> recalculate_domain_trust_in_transaction d trigger now s = Inl TypeError"
  by (simp add: recalculate_domain_trust_in_transaction_def tx_simps)

end
