(* ===== verification/Trust_Facts.thy ===== *)
theory Trust_Facts
  imports Trust_Manager "HOL-Library.Multiset"
begin

text \<open>
  The invariants of the Trust Manager's tables and the behaviour of its operations:
  \<open>trust_ok\<close> (keys, references, TI4, TI15, TI23, TI25), \<open>scores_ok\<close> (scores and confidences
  stay in the unit interval) and \<open>audit_ok\<close> (TI2: every change of a score is a recorded
  recalculation, and the records chain without a gap).
\<close>

section \<open>Well-formedness\<close>

definition incident_evidence_key :: "uid \<Rightarrow> string \<times> uid \<times> evidence_type" where
  "incident_evidence_key i = (''incident'', i, INCIDENT_IMPACT)"

definition incident_ok :: "'m trust_db_scheme \<Rightarrow> incident_row \<Rightarrow> bool" where
  "incident_ok s i \<longleftrightarrow> in_id i < next_id s \<and> in_trust_domain i \<in> td_domain_id ` set (trust_domains s)
     \<and> (in_confirmation i = CONFIRMED \<longrightarrow> in_assessment i \<noteq> None)
     \<and> (in_assessment i \<noteq> None \<longleftrightarrow> incident_evidence_key (in_id i) \<in> evidence_key ` set (trust_evidence s))"

definition evidence_ok :: "'m trust_db_scheme \<Rightarrow> evidence_row \<Rightarrow> bool" where
  "evidence_ok s e \<longleftrightarrow> te_id e < next_id s \<and> te_source_entity_id e < next_id s
     \<and> te_domain_id e \<in> td_domain_id ` set (trust_domains s)
     \<and> -0.35 \<le> te_raw_weight e \<and> te_raw_weight e \<le> -0.01
     \<and> 0 < te_confidence e \<and> te_confidence e < 1"

definition trust_ok :: "'m trust_db_scheme \<Rightarrow> bool" where
  "trust_ok s \<longleftrightarrow>
     distinct (map td_domain_id (trust_domains s)) \<and>
     map ds_domain_id (trust_domain_state s) = map td_domain_id (trust_domains s) \<and>
     distinct (map in_id (incidents s)) \<and>
     (\<forall>i \<in> set (incidents s). incident_ok s i) \<and>
     distinct (map te_id (trust_evidence s)) \<and>
     distinct (map evidence_key (trust_evidence s)) \<and>
     (\<forall>e \<in> set (trust_evidence s). evidence_ok s e) \<and>
     distinct (map re_evidence_id (trust_recalculation_evidence s)) \<and>
     re_evidence_id ` set (trust_recalculation_evidence s) \<subseteq> te_id ` set (trust_evidence s) \<and>
     (\<forall>r \<in> set (trust_recalculations s). tr_id r < next_id s)"

lemmas trust_ok_defs = trust_ok_def incident_ok_def evidence_ok_def

lemma trust_okD:
  assumes "trust_ok s"
  shows "distinct (map td_domain_id (trust_domains s))"
    and "map ds_domain_id (trust_domain_state s) = map td_domain_id (trust_domains s)"
    and "distinct (map in_id (incidents s))"
    and "i \<in> set (incidents s) \<Longrightarrow> incident_ok s i"
    and "distinct (map te_id (trust_evidence s))"
    and "distinct (map evidence_key (trust_evidence s))"
    and "e \<in> set (trust_evidence s) \<Longrightarrow> evidence_ok s e"
    and "distinct (map re_evidence_id (trust_recalculation_evidence s))"
    and "re_evidence_id ` set (trust_recalculation_evidence s) \<subseteq> te_id ` set (trust_evidence s)"
    and "\<forall>r \<in> set (trust_recalculations s). tr_id r < next_id s"
  using assms by (auto simp: trust_ok_def)

lemma trust_ok_new_id [simp]: "trust_ok s \<Longrightarrow> trust_ok (s\<lparr>next_id := Suc (next_id s)\<rparr>)"
  unfolding trust_ok_defs by (auto simp: less_Suc_eq)

lemma trust_ok_insert_event [simp]: "trust_ok (insert_event r s) = trust_ok s"
  by (simp add: trust_ok_defs insert_event_def)

lemma trust_ok_consumers [simp]: "trust_ok (s\<lparr>event_consumers := cs\<rparr>) = trust_ok s"
  unfolding trust_ok_defs by simp

lemma trust_ok_events [simp]: "trust_ok (s\<lparr>domain_events := es\<rparr>) = trust_ok s"
  unfolding trust_ok_defs by simp

lemma trust_ok_claimed [simp]: "trust_ok (set_claimed ids now x s) = trust_ok s"
  unfolding set_claimed_def by (rule trust_ok_events)

lemma trust_ok_published [simp]: "trust_ok (set_published ids now s) = trust_ok s"
  unfolding set_published_def by (rule trust_ok_events)

lemma trust_ok_lease [simp]: "trust_ok (s\<lparr>system_startup_lease := l\<rparr>) = trust_ok s"
  unfolding trust_ok_defs by simp

lemma keeps_trust_new_id [keeps_intros]: "keeps trust_ok new_id"
  by (simp add: keeps_def tx_simps)

lemma keeps_trust_emit [keeps_intros]: "keeps trust_ok (emit ty src p now)"
  by (simp add: keeps_def tx_simps)

lemma domain_state_exists:
  assumes "trust_ok s" and "d \<in> td_domain_id ` set (trust_domains s)"
  shows "\<exists>st. get_domain_state d s = Some st"
proof -
  have "d \<in> set (map ds_domain_id (trust_domain_state s))"
    using assms trust_okD(2) [OF assms(1)] by simp
  then obtain st where "st \<in> set (trust_domain_state s)" and "ds_domain_id st = d" by auto
  then have "row_by ds_domain_id d (trust_domain_state s) \<noteq> None" by (auto simp: row_by_None)
  then show ?thesis by (simp add: get_domain_state_def)
qed

section \<open>The recalculation keeps well-formedness\<close>

lemma recalculated_sel [simp]:
  "trust_domains (recalculated d t now st s) = trust_domains s"
  "incidents (recalculated d t now st s) = incidents s"
  "confirmation_records (recalculated d t now st s) = confirmation_records s"
  "trust_evidence (recalculated d t now st s) = trust_evidence s"
  "next_id (recalculated d t now st s) = Suc (next_id s)"
  "domain_events (recalculated d t now st s) = domain_events s"
  "event_consumers (recalculated d t now st s) = event_consumers s"
  "system_startup_lease (recalculated d t now st s) = system_startup_lease s"
  "trust_recalculations (recalculated d t now st s)
     = trust_recalculations s @ [recalculation_of d t now st s]"
  "trust_recalculation_evidence (recalculated d t now st s) = trust_recalculation_evidence s
     @ map (recalc_evidence_of (next_id s) now) (select_unconsumed_evidence d s)"
  "trust_db.more (recalculated d t now st s) = trust_db.more s"
  by (simp_all add: recalculated_def Let_def)

lemma consumed_recalculated:
  assumes "e \<in> set (trust_evidence s)" and "te_domain_id e = d"
  shows "evidence_consumed (recalculated d t now st s) e"
proof (cases "evidence_consumed s e")
  case True
  then show ?thesis by (auto simp: evidence_consumed_def)
next
  case False
  then have "recalc_evidence_of (next_id s) now e \<in> set (trust_recalculation_evidence (recalculated d t now st s))"
    using assms by simp
  then show ?thesis unfolding evidence_consumed_def by (metis imageI re_evidence_id_of)
qed

lemma recalculated_domain_ids [simp]:
  "map ds_domain_id (trust_domain_state (recalculated d t now st s))
     = map ds_domain_id (trust_domain_state s)"
  by (simp add: recalculated_def Let_def map_update_where)

lemma recalculation_of_sel [simp]:
  "tr_id (recalculation_of d t now st s) = next_id s"
  "tr_domain_id (recalculation_of d t now st s) = d"
  "tr_previous_score (recalculation_of d t now st s) = ds_score st"
  "tr_previous_confidence (recalculation_of d t now st s) = ds_confidence st"
  "tr_triggered_by (recalculation_of d t now st s) = t"
  by (simp_all add: recalculation_of_def Let_def)

lemma trust_ok_recalculated:
  assumes "trust_ok s"
  shows "trust_ok (recalculated d t now st s)"
proof -
  have "distinct (map te_id (select_unconsumed_evidence d s))"
    by (intro distinct_select_unconsumed trust_okD(5) assms)
  then have 1: "distinct (map re_evidence_id (trust_recalculation_evidence s
      @ map (recalc_evidence_of (next_id s) now) (select_unconsumed_evidence d s)))"
    using trust_okD(8) [OF assms] by (auto simp: comp_def evidence_consumed_def image_iff)
  have 2: "re_evidence_id ` set (trust_recalculation_evidence s
      @ map (recalc_evidence_of (next_id s) now) (select_unconsumed_evidence d s))
      \<subseteq> te_id ` set (trust_evidence s)"
    using trust_okD(9) [OF assms] by auto
  show ?thesis using assms 1 2
    unfolding trust_ok_defs recalculated_sel recalculated_domain_ids
    by (auto simp: less_Suc_eq)
qed

lemma recalculate_cases:
  assumes "trust_ok s" and "recalculate_domain_trust_in_transaction d t now s = Inr (r, s')"
  obtains st where "get_domain_state d s = Some st" and "r = recalculation_of d t now st s"
    and "s' = recalculated d t now st s"
proof (cases "get_domain_state d s")
  case None
  then show ?thesis using assms(2) by (simp add: recalculate_raises)
next
  case (Some st)
  have "recalculate_domain_trust_in_transaction d t now s
      = Inr (recalculation_of d t now st s, recalculated d t now st s)"
    by (intro recalculate_eq Some trust_okD(5) trust_okD(10) assms(1))
  with assms(2) Some that show ?thesis by auto
qed

lemma keeps_trust_recalculate [keeps_intros]:
  "keeps trust_ok (recalculate_domain_trust_in_transaction d t now)"
  by (rule keepsI) (blast elim: recalculate_cases intro: trust_ok_recalculated)

section \<open>Confirmation keeps well-formedness\<close>

text \<open>
  Between the assessment update and the evidence insert the two disagree for the one incident;
  the pair of writes together keeps the invariant, and fails when the evidence already exists.
\<close>

definition assessed ::
  "incident_row \<Rightarrow> severity_tier \<Rightarrow> cooperation_assessment \<Rightarrow> time
     \<Rightarrow> 'm trust_db_scheme \<Rightarrow> 'm trust_db_scheme" where
  "assessed inc t c now s = (update_incident_assessment (in_id inc) t c s)
     \<lparr>next_id := Suc (next_id s),
      trust_evidence := trust_evidence s @
        [\<lparr>te_id = next_id s, te_domain_id = in_trust_domain inc, te_created_at = now,
          te_type = INCIDENT_IMPACT, te_source_entity_type = ''incident'',
          te_source_entity_id = in_id inc, te_raw_weight = raw_weight_for_incident t c,
          te_confidence = confidence_numeric (evidence_confidence (in_evidence inc))\<rparr>]\<rparr>"

definition assessment_writes ::
  "incident_row \<Rightarrow> severity_tier \<Rightarrow> cooperation_assessment \<Rightarrow> time
     \<Rightarrow> ('m trust_db_scheme, evidence_row) tx" where
  "assessment_writes inc t c now =
     tx_bind (tx_modify (update_incident_assessment (in_id inc) t c))
       (\<lambda>_. insert_trust_evidence_for_incident inc t c now)"

lemma assessment_writes_eq:
  "assessment_writes inc t c now s =
     (if incident_evidence_key (in_id inc) \<notin> evidence_key ` set (trust_evidence s)
         \<and> in_trust_domain inc \<in> td_domain_id ` set (trust_domains s)
      then Inr (last (trust_evidence (assessed inc t c now s)), assessed inc t c now s)
      else Inl IntegrityError)"
  by (simp add: assessment_writes_def insert_trust_evidence_for_incident_def insert_trust_evidence_def
      tx_bind_apply tx_simps update_incident_assessment_def assessed_def evidence_key_def
      incident_evidence_key_def Let_def)

lemma trust_ok_assessed:
  assumes ok: "trust_ok s" and inc: "in_id inc < next_id s"
    and fresh: "incident_evidence_key (in_id inc) \<notin> evidence_key ` set (trust_evidence s)"
    and dom: "in_trust_domain inc \<in> td_domain_id ` set (trust_domains s)"
    and ex: "in_id inc \<in> in_id ` set (incidents s)"
  shows "trust_ok (assessed inc t c now s)"
proof -
  let ?e = "\<lparr>te_id = next_id s, te_domain_id = in_trust_domain inc, te_created_at = now,
          te_type = INCIDENT_IMPACT, te_source_entity_type = ''incident'',
          te_source_entity_id = in_id inc, te_raw_weight = raw_weight_for_incident t c,
          te_confidence = confidence_numeric (evidence_confidence (in_evidence inc))\<rparr>"
  let ?s = "assessed inc t c now s"
  have key: "evidence_key ?e = incident_evidence_key (in_id inc)"
    by (simp add: evidence_key_def incident_evidence_key_def)
  have ids: "map in_id (incidents ?s) = map in_id (incidents s)"
    by (simp add: assessed_def update_incident_assessment_def map_update_where)
  have "\<forall>i \<in> set (incidents ?s). incident_ok ?s i"
  proof
    fix i assume "i \<in> set (incidents ?s)"
    then have "i \<in> set (update_where (\<lambda>r. in_id r = in_id inc) (\<lambda>r. r\<lparr>in_assessment := Some (t, c)\<rparr>) (incidents s))"
      by (simp add: assessed_def update_incident_assessment_def)
    then show "incident_ok ?s i"
    proof (cases rule: in_update_whereE)
      case same
      with trust_okD(4) [OF ok, of i] show ?thesis
        by (auto simp: incident_ok_def assessed_def update_incident_assessment_def key
            incident_evidence_key_def less_Suc_eq)
    next
      case (changed r)
      with trust_okD(4) [OF ok, of r] show ?thesis
        by (auto simp: incident_ok_def assessed_def update_incident_assessment_def key less_Suc_eq)
    qed
  qed
  moreover have "\<forall>e \<in> set (trust_evidence ?s). evidence_ok ?s e"
    using trust_okD(7) [OF ok] inc dom raw_weight_bounds [of t c] confidence_numeric_bounds
    by (auto simp: evidence_ok_def assessed_def update_incident_assessment_def less_Suc_eq)
  moreover have "te_id ` set (trust_evidence s) \<subseteq> {..<next_id s}"
    using trust_okD(7) [OF ok] by (auto simp: evidence_ok_def)
  ultimately show ?thesis
    using ok ids fresh unfolding trust_ok_def
    by (auto simp: assessed_def update_incident_assessment_def key less_Suc_eq)
qed

lemma keeps_trust_assessment_writes:
  assumes "in_id inc \<in> in_id ` set (incidents s)" and "trust_ok s"
    and "assessment_writes inc t c now s = Inr (e, s')"
  shows "trust_ok s'"
proof -
  have "in_id inc < next_id s" using assms(1) trust_okD(4) [OF assms(2)] by (auto simp: incident_ok_def)
  then show ?thesis using assms by (auto simp: assessment_writes_eq intro: trust_ok_assessed split: if_splits)
qed

lemma confirm_effects_alt:
  "confirm_effects inc c now =
     tx_bind (assessment_writes (inc\<lparr>in_assessment := Some (assess_severity (in_evidence inc), c)\<rparr>)
                (assess_severity (in_evidence inc)) c now) (\<lambda>evidence.
     tx_bind (emit_evidence_recorded evidence now) (\<lambda>_.
     tx_bind (recalculate_domain_trust_in_transaction (in_trust_domain inc) ''incident'' now) (\<lambda>r.
     tx_bind (emit ''trust_domain.recalculated'' ''trust_manager'' (recalculated_payload r) now) (\<lambda>_.
     tx_return (inc\<lparr>in_assessment := Some (assess_severity (in_evidence inc), c)\<rparr>)))))"
  by (simp add: confirm_effects_def assessment_writes_def Let_def tx_bind_assoc)

section \<open>Every operation keeps well-formedness\<close>

definition set_confirmation ::
  "uid \<Rightarrow> incident_confirmation \<Rightarrow> 'm trust_db_scheme \<Rightarrow> 'm trust_db_scheme" where
  "set_confirmation i new s = s\<lparr>incidents := update_where (\<lambda>r. in_id r = i)
     (\<lambda>r. r\<lparr>in_confirmation := new\<rparr>) (incidents s)\<rparr>"

lemma trust_ok_confirmation_records [simp]:
  "trust_ok (s\<lparr>confirmation_records := rs\<rparr>) = trust_ok s"
  unfolding trust_ok_defs by simp

lemma trust_ok_set_confirmation:
  assumes "trust_ok s"
    and "new = CONFIRMED \<Longrightarrow> incident_evidence_key i \<in> evidence_key ` set (trust_evidence s)"
  shows "trust_ok (set_confirmation i new s)"
proof -
  let ?s = "set_confirmation i new s"
  have "\<forall>r \<in> set (incidents ?s). incident_ok ?s r"
  proof
    fix r assume "r \<in> set (incidents ?s)"
    then have "r \<in> set (update_where (\<lambda>r. in_id r = i) (\<lambda>r. r\<lparr>in_confirmation := new\<rparr>) (incidents s))"
      by (simp add: set_confirmation_def)
    then show "incident_ok ?s r"
      using trust_okD(4) [OF assms(1)] assms(2)
      by (cases rule: in_update_whereE) (auto simp: incident_ok_def set_confirmation_def)
  qed
  moreover have "map in_id (incidents ?s) = map in_id (incidents s)"
    by (simp add: set_confirmation_def map_update_where)
  moreover have "\<forall>e \<in> set (trust_evidence ?s). evidence_ok ?s e"
    using trust_okD(7) [OF assms(1)] by (simp add: evidence_ok_def set_confirmation_def)
  ultimately show ?thesis
    using assms(1) by (auto simp: trust_ok_def set_confirmation_def)
qed

lemma assessed_set_confirmation:
  "assessed inc t c now (set_confirmation i new s) = set_confirmation i new (assessed inc t c now s)"
  by (cases s) (simp add: assessed_def update_incident_assessment_def set_confirmation_def
      update_where_def comp_def)

text \<open>
  \<open>confirm_write\<close> in closed form: the record and the status change, and for CONFIRMED the
  assessment, its evidence, two events and the recalculation.
\<close>

definition confirmation_row_of ::
  "uid \<Rightarrow> incident_row \<Rightarrow> incident_confirmation \<Rightarrow> confirmation_source \<Rightarrow> string \<Rightarrow> time
     \<Rightarrow> confirmation_row" where
  "confirmation_row_of i inc new source descr now = \<lparr>cr_id = i, cr_incident_id = in_id inc,
     cr_created_at = now, cr_previous = in_confirmation inc, cr_new = new, cr_source = source,
     cr_evidence_description = descr\<rparr>"

definition recorded ::
  "incident_row \<Rightarrow> incident_confirmation \<Rightarrow> confirmation_source \<Rightarrow> string \<Rightarrow> time
     \<Rightarrow> 'm trust_db_scheme \<Rightarrow> 'm trust_db_scheme" where
  "recorded inc new source descr now s =
     set_confirmation (in_id inc) new (s\<lparr>next_id := Suc (next_id s),
       confirmation_records := confirmation_records s
         @ [confirmation_row_of (next_id s) inc new source descr now]\<rparr>)"

lemma confirm_write_eq:
  "confirm_write inc new source descr c now s =
     (if new = CONFIRMED
      then tx_bind (confirm_effects inc c now)
             (\<lambda>inc'. tx_return (inc', confirmation_row_of (next_id s) inc new source descr now))
             (recorded inc new source descr now s)
      else Inr ((inc, confirmation_row_of (next_id s) inc new source descr now),
             recorded inc new source descr now s))"
  by (cases "new = CONFIRMED") (simp_all add: confirm_write_def tx_bind_apply tx_simps
      recorded_def set_confirmation_def confirmation_row_of_def Let_def)

lemma load_incident_eq:
  "load_incident i s = (case row_by in_id i (incidents s) of None \<Rightarrow> Inl (IncidentNotFoundError i)
     | Some r \<Rightarrow> Inr (r, s))"
  by (simp add: load_incident_def tx_bind_apply tx_simps split: option.splits)

lemma recorded_assessed_ok:
  assumes ok: "trust_ok s" and inc: "in_id inc \<in> in_id ` set (incidents s)"
    and dom: "in_trust_domain inc \<in> td_domain_id ` set (trust_domains s)"
    and fresh: "incident_evidence_key (in_id inc) \<notin> evidence_key ` set (trust_evidence s)"
  shows "trust_ok (assessed inc t c now (recorded inc CONFIRMED source descr now s))"
proof -
  let ?s1 = "s\<lparr>next_id := Suc (next_id s), confirmation_records := confirmation_records s
         @ [confirmation_row_of (next_id s) inc CONFIRMED source descr now]\<rparr>"
  have "in_id inc < next_id s" using inc trust_okD(4) [OF ok] by (auto simp: incident_ok_def)
  then have a: "trust_ok (assessed inc t c now ?s1)"
    using ok inc dom fresh by (intro trust_ok_assessed) simp_all
  have key: "incident_evidence_key (in_id inc)
      \<in> evidence_key ` set (trust_evidence (assessed inc t c now ?s1))"
    by (simp add: assessed_def evidence_key_def incident_evidence_key_def)
  have "trust_ok (set_confirmation (in_id inc) CONFIRMED (assessed inc t c now ?s1))"
    by (intro trust_ok_set_confirmation a key)
  then show ?thesis unfolding recorded_def assessed_set_confirmation by simp
qed

lemma incident_row_okD:
  assumes "trust_ok s" and "row_by in_id i (incidents s) = Some inc"
  shows "in_id inc = i" and "inc \<in> set (incidents s)" and "incident_ok s inc"
    and "in_trust_domain inc \<in> td_domain_id ` set (trust_domains s)"
  using row_by_SomeD [OF assms(2)] trust_okD(4) [OF assms(1)] by (auto simp: incident_ok_def)

lemma recorded_sel [simp]:
  "trust_domains (recorded inc new source descr now s) = trust_domains s"
  "trust_domain_state (recorded inc new source descr now s) = trust_domain_state s"
  "trust_evidence (recorded inc new source descr now s) = trust_evidence s"
  "trust_recalculations (recorded inc new source descr now s) = trust_recalculations s"
  "trust_recalculation_evidence (recorded inc new source descr now s) = trust_recalculation_evidence s"
  "domain_events (recorded inc new source descr now s) = domain_events s"
  "event_consumers (recorded inc new source descr now s) = event_consumers s"
  "next_id (recorded inc new source descr now s) = Suc (next_id s)"
  by (simp_all add: recorded_def set_confirmation_def)

lemma assessment_key_iff:
  assumes "trust_ok s" and "inc \<in> set (incidents s)"
  shows "incident_evidence_key (in_id inc) \<in> evidence_key ` set (trust_evidence s)
    \<longleftrightarrow> in_assessment inc \<noteq> None"
  using trust_okD(4) [OF assms] by (simp add: incident_ok_def)

lemma keeps_trust_confirm_write:
  assumes ok: "trust_ok s" and row: "row_by in_id i (incidents s) = Some inc"
    and w: "confirm_write inc new source descr c now s = Inr (r, s')"
  shows "trust_ok s'"
proof (cases "new = CONFIRMED")
  case False
  then have "s' = recorded inc new source descr now s" using w by (simp add: confirm_write_eq)
  then show ?thesis unfolding recorded_def
    by (simp only:) (intro trust_ok_set_confirmation, use ok False in simp_all)
next
  case True
  let ?t = "assess_severity (in_evidence inc)"
  let ?inc = "inc\<lparr>in_assessment := Some (?t, c)\<rparr>"
  let ?s1 = "recorded inc CONFIRMED source descr now s"
  note inc = incident_row_okD [OF ok row]
  obtain e s2 where aw: "assessment_writes ?inc ?t c now ?s1 = Inr (e, s2)"
    and rest: "tx_bind (emit_evidence_recorded e now) (\<lambda>_.
       tx_bind (recalculate_domain_trust_in_transaction (in_trust_domain inc) ''incident'' now) (\<lambda>r.
       emit ''trust_domain.recalculated'' ''trust_manager'' (recalculated_payload r) now)) s2
       = Inr ((), s')"
    using w True by (auto simp: confirm_write_eq confirm_effects_alt tx_success)
  have s2: "s2 = assessed ?inc ?t c now ?s1"
    and fresh: "incident_evidence_key (in_id inc) \<notin> evidence_key ` set (trust_evidence s)"
    using aw by (auto simp: assessment_writes_eq split: if_splits)
  have "trust_ok (assessed inc ?t c now ?s1)"
    using inc(2,4) fresh by (intro recorded_assessed_ok ok) auto
  then have "trust_ok s2" by (simp add: s2 assessed_def)
  moreover have "keeps trust_ok (tx_bind (emit_evidence_recorded e now) (\<lambda>_.
       tx_bind (recalculate_domain_trust_in_transaction (in_trust_domain inc) ''incident'' now) (\<lambda>r.
       emit ''trust_domain.recalculated'' ''trust_manager'' (recalculated_payload r) now)))"
    unfolding emit_evidence_recorded_def by (intro keeps_intros)
  ultimately show ?thesis using rest by (blast dest: keepsD)
qed

lemma op_keeps_trust_confirm:
  "op_keeps trust_ok (confirm_incident i new source descr c now)"
  unfolding confirm_incident_def
  by (rule op_keeps_apply_loaded [where P = "\<lambda>s inc. row_by in_id i (incidents s) = Some inc"])
    (auto simp: load_incident_eq split: option.splits prod.splits
      intro: keeps_trust_confirm_write keeps_trust_emit)

lemma map_td_update:
  "(\<And>d. td_domain_id (f d) = td_domain_id d) \<Longrightarrow>
   map td_domain_id (update_where c f ds) = map td_domain_id ds"
  by (rule map_update_where)

lemma trust_ok_update_domains:
  assumes "trust_ok s" and "\<And>d. td_domain_id (f d) = td_domain_id d"
  shows "trust_ok (s\<lparr>trust_domains := update_where c f (trust_domains s)\<rparr>)"
proof -
  have m: "map td_domain_id (update_where c f (trust_domains s)) = map td_domain_id (trust_domains s)"
    by (rule map_td_update) (rule assms(2))
  then have "td_domain_id ` set (update_where c f (trust_domains s)) = td_domain_id ` set (trust_domains s)"
    by (metis list.set_map)
  with m assms(1) show ?thesis unfolding trust_ok_defs by simp
qed

lemma trust_ok_add_domain:
  assumes "trust_ok s" and "td_domain_id d \<notin> td_domain_id ` set (trust_domains s)"
    and "ds_domain_id st = td_domain_id d"
  shows "trust_ok (s\<lparr>trust_domains := trust_domains s @ [d],
    trust_domain_state := trust_domain_state s @ [st]\<rparr>)"
  using assms unfolding trust_ok_defs by auto

lemma trust_ok_add_incident:
  assumes "trust_ok s" and "in_id i = next_id s" and "in_assessment i = None"
    and "in_confirmation i = UNCONFIRMED"
    and "in_trust_domain i \<in> td_domain_id ` set (trust_domains s)"
  shows "trust_ok (s\<lparr>next_id := Suc (next_id s), incidents := incidents s @ [i]\<rparr>)"
proof -
  have "\<forall>e \<in> set (trust_evidence s). te_source_entity_id e < next_id s"
    using trust_okD(7) [OF assms(1)] by (simp add: evidence_ok_def)
  then have "incident_evidence_key (next_id s) \<notin> evidence_key ` set (trust_evidence s)"
    by (auto simp: incident_evidence_key_def evidence_key_def)
  then show ?thesis using assms unfolding trust_ok_defs by (auto simp: less_Suc_eq)
qed

lemma op_keeps_trust_create:
  "op_keeps trust_ok (create_domain d n ds consent now so co)"
  unfolding create_domain_def Let_def
  by (intro op_keeps_transition keeps_trust_emit keepsI)
    (auto simp: tx_success intro!: trust_ok_add_domain)

lemma op_keeps_trust_deactivate: "op_keeps trust_ok (deactivate_domain d via now)"
  unfolding deactivate_domain_def
  by (intro op_keeps_transition keeps_trust_emit keeps_modify trust_ok_update_domains) simp_all

lemma op_keeps_trust_reactivate: "op_keeps trust_ok (reactivate_domain d via now)"
  unfolding reactivate_domain_def
  by (intro op_keeps_transition keeps_trust_emit keeps_modify trust_ok_update_domains) simp_all

lemma op_keeps_trust_recalculate: "op_keeps trust_ok (recalculate_domain_trust d t now)"
  unfolding recalculate_domain_trust_def
  by (intro op_keeps_transition keeps_trust_emit keeps_trust_recalculate)

lemma op_keeps_trust_register:
  "op_keeps trust_ok (register_incident_report g d descr e now)"
  unfolding register_incident_report_def Let_def
  by (intro op_keeps_transition keeps_trust_emit keepsI)
    (auto simp: tx_success new_id_def intro!: trust_ok_add_incident)

text \<open>TI23: the startup repair never finds a broken row, and changes nothing.\<close>

lemma no_null_assessment:
  "trust_ok s \<Longrightarrow> get_confirmed_incidents_with_null_assessment s = []"
  using trust_okD(4) by (fastforce simp: get_confirmed_incidents_with_null_assessment_def
      filter_empty_conv incident_ok_def)

lemma recover_noop: "trust_ok s \<Longrightarrow> recover_trust_manager_state now s = (Inr 0, s)"
  by (simp add: recover_trust_manager_state_def no_null_assessment op_bind_def op_return_def)

lemma op_keeps_trust_recover: "op_keeps trust_ok (recover_trust_manager_state now)"
  by (simp add: op_keeps_def recover_noop)

section \<open>Scores\<close>

text \<open>
  Scores and confidences stay in the unit interval as long as every domain is created with
  overrides in it; \<open>create_domain\<close> itself does not check them.
\<close>

definition scores_ok :: "'m trust_db_scheme \<Rightarrow> bool" where
  "scores_ok s \<longleftrightarrow> (\<forall>d \<in> set (trust_domain_state s).
     0 \<le> ds_score d \<and> ds_score d \<le> 1 \<and> 0 \<le> ds_confidence d \<and> ds_confidence d \<le> 1)"

lemma recalculation_of_range:
  "0 \<le> tr_new_score (recalculation_of d t now st s)"
  "tr_new_score (recalculation_of d t now st s) \<le> 1"
  "0 \<le> tr_new_confidence (recalculation_of d t now st s)"
  "tr_new_confidence (recalculation_of d t now st s) \<le> 1"
  using apply_recalculation_range compute_confidence_range
  by (auto simp: recalculation_of_def Let_def less_imp_le)

lemma recalculated_domain_state:
  "trust_domain_state (recalculated d t now st s) = update_where (\<lambda>x. ds_domain_id x = d)
     (\<lambda>x. x\<lparr>ds_score := tr_new_score (recalculation_of d t now st s),
        ds_confidence := tr_new_confidence (recalculation_of d t now st s),
        ds_last_recalculated_at := now,
        ds_last_relevant_event_at :=
          (if select_unconsumed_evidence d s = [] then ds_last_relevant_event_at st else Some now)\<rparr>)
     (trust_domain_state s)"
  by (simp add: recalculated_def Let_def)

lemma scores_ok_recalculated: "scores_ok s \<Longrightarrow> scores_ok (recalculated d t now st s)"
  unfolding scores_ok_def recalculated_domain_state
  by (auto simp: recalculation_of_range elim!: in_update_whereE)

lemma get_domain_state_recalculated:
  assumes "get_domain_state d s = Some st"
  shows "get_domain_state d' (recalculated d t now st s) =
    (if d' = d then Some (st\<lparr>ds_score := tr_new_score (recalculation_of d t now st s),
        ds_confidence := tr_new_confidence (recalculation_of d t now st s),
        ds_last_recalculated_at := now,
        ds_last_relevant_event_at :=
          (if select_unconsumed_evidence d s = [] then ds_last_relevant_event_at st else Some now)\<rparr>)
     else get_domain_state d' s)"
proof -
  have "get_domain_state d' (recalculated d t now st s) = map_option (\<lambda>x. if ds_domain_id x = d
       then x\<lparr>ds_score := tr_new_score (recalculation_of d t now st s),
        ds_confidence := tr_new_confidence (recalculation_of d t now st s),
        ds_last_recalculated_at := now,
        ds_last_relevant_event_at :=
          (if select_unconsumed_evidence d s = [] then ds_last_relevant_event_at st else Some now)\<rparr>
       else x) (get_domain_state d' s)"
    unfolding get_domain_state_def recalculated_domain_state by (rule row_by_update_where) simp
  moreover have "ds_domain_id x = d'" if "get_domain_state d' s = Some x" for x
    using that row_by_SomeD unfolding get_domain_state_def by fastforce
  ultimately show ?thesis using assms by (cases "get_domain_state d' s") auto
qed

section \<open>The audit trail\<close>

text \<open>
  TI2: the recalculations of a domain, in order, lead without a gap from the score and
  confidence the domain was created with to the present ones, and each of them is explained by
  the evidence rows recorded with it.
\<close>

fun chained :: "real \<times> real \<Rightarrow> recalculation_row list \<Rightarrow> real \<times> real \<Rightarrow> bool" where
  "chained p [] q \<longleftrightarrow> p = q"
| "chained p (r # rs) q \<longleftrightarrow> (tr_previous_score r, tr_previous_confidence r) = p
     \<and> chained (tr_new_score r, tr_new_confidence r) rs q"

definition initial_trust :: "trust_domain_row \<Rightarrow> real \<times> real" where
  "initial_trust d = (or_default (td_initial_score_override d) default_new_domain_score,
     or_default (td_initial_confidence_override d) default_new_domain_confidence)"

definition present_trust :: "domain_state_row \<Rightarrow> real \<times> real" where
  "present_trust st = (ds_score st, ds_confidence st)"

definition recalculations_for :: "string \<Rightarrow> 'm trust_db_scheme \<Rightarrow> recalculation_row list" where
  "recalculations_for d s = filter (\<lambda>r. tr_domain_id r = d) (trust_recalculations s)"

definition explained_by :: "recalc_evidence_row list \<Rightarrow> recalculation_row \<Rightarrow> bool" where
  "explained_by es r \<longleftrightarrow> tr_new_score r = apply_recalculation (tr_previous_score r)
     (sum_list (map re_effective_weight (filter (\<lambda>e. re_recalculation_id e = tr_id r) es)))"

definition audit_ok :: "'m trust_db_scheme \<Rightarrow> bool" where
  "audit_ok s \<longleftrightarrow>
     (\<forall>d \<in> set (trust_domains s). \<exists>st. get_domain_state (td_domain_id d) s = Some st \<and>
        chained (initial_trust d) (recalculations_for (td_domain_id d) s) (present_trust st)) \<and>
     (\<forall>r \<in> set (trust_recalculations s). tr_id r < next_id s
        \<and> tr_domain_id r \<in> td_domain_id ` set (trust_domains s)
        \<and> explained_by (trust_recalculation_evidence s) r) \<and>
     (\<forall>e \<in> set (trust_recalculation_evidence s). re_recalculation_id e < next_id s)"

lemma chained_append:
  "chained p (rs @ rs') q \<longleftrightarrow> (\<exists>m. chained p rs m \<and> chained m rs' q)"
  by (induction rs arbitrary: p) auto

lemma chained_trans: "chained p rs m \<Longrightarrow> chained m rs' q \<Longrightarrow> chained p (rs @ rs') q"
  unfolding chained_append by blast

lemma chained_functional: "chained p rs q \<Longrightarrow> chained p rs q' \<Longrightarrow> q = q'"
  by (induction rs arbitrary: p) auto

lemma audit_ok_more: "audit_ok s \<Longrightarrow> trust_domains s' = trust_domains s \<Longrightarrow>
  trust_domain_state s' = trust_domain_state s \<Longrightarrow>
  trust_recalculations s' = trust_recalculations s \<Longrightarrow>
  trust_recalculation_evidence s' = trust_recalculation_evidence s \<Longrightarrow> next_id s \<le> next_id s'
  \<Longrightarrow> audit_ok s'"
  unfolding audit_ok_def get_domain_state_def recalculations_for_def by fastforce

lemma explained_by_others:
  assumes "\<forall>e \<in> set new. re_recalculation_id e \<noteq> tr_id r"
  shows "explained_by (es @ new) r = explained_by es r"
proof -
  have "filter (\<lambda>e. re_recalculation_id e = tr_id r) new = []" using assms by (simp add: filter_empty_conv)
  then show ?thesis by (simp add: explained_by_def)
qed

lemma explained_by_recalculated:
  assumes "\<forall>e \<in> set (trust_recalculation_evidence s). re_recalculation_id e < next_id s"
  shows "explained_by (trust_recalculation_evidence (recalculated d t now st s))
           (recalculation_of d t now st s)"
proof -
  let ?new = "map (recalc_evidence_of (next_id s) now) (select_unconsumed_evidence d s)"
  have "filter (\<lambda>e. re_recalculation_id e = next_id s) (trust_recalculation_evidence s) = []"
    using assms by (auto simp: filter_empty_conv)
  moreover have "filter (\<lambda>e. re_recalculation_id e = next_id s) ?new = ?new"
    by (simp add: filter_id_conv recalc_evidence_of_def)
  moreover have "map re_effective_weight ?new
      = map (\<lambda>e. effective_weight (te_raw_weight e) (te_confidence e)) (select_unconsumed_evidence d s)"
    by (simp add: recalc_evidence_of_def)
  ultimately have "map re_effective_weight (filter (\<lambda>e. re_recalculation_id e = next_id s)
      (trust_recalculation_evidence (recalculated d t now st s)))
      = map (\<lambda>e. effective_weight (te_raw_weight e) (te_confidence e)) (select_unconsumed_evidence d s)"
    by (simp only: recalculated_sel filter_append append_Nil)
  then show ?thesis
    by (simp only: explained_by_def recalculation_of_sel) (simp add: recalculation_of_def Let_def)
qed

lemma audit_okD:
  assumes "audit_ok s"
  shows "\<And>d. d \<in> set (trust_domains s) \<Longrightarrow> \<exists>st. get_domain_state (td_domain_id d) s = Some st \<and>
           chained (initial_trust d) (recalculations_for (td_domain_id d) s) (present_trust st)"
    and "\<And>r. r \<in> set (trust_recalculations s) \<Longrightarrow> tr_id r < next_id s
        \<and> tr_domain_id r \<in> td_domain_id ` set (trust_domains s)
        \<and> explained_by (trust_recalculation_evidence s) r"
    and "\<And>e. e \<in> set (trust_recalculation_evidence s) \<Longrightarrow> re_recalculation_id e < next_id s"
  using assms by (auto simp: audit_ok_def)

lemma audit_ok_recalculated:
  assumes ok: "audit_ok s" and dom: "map ds_domain_id (trust_domain_state s) = map td_domain_id (trust_domains s)"
    and st: "get_domain_state d s = Some st"
  shows "audit_ok (recalculated d t now st s)"
  unfolding audit_ok_def
proof (intro conjI ballI)
  let ?s = "recalculated d t now st s"
  let ?r = "recalculation_of d t now st s"
  fix dom assume "dom \<in> set (trust_domains ?s)"
  then obtain x where x: "get_domain_state (td_domain_id dom) s = Some x"
    and ch: "chained (initial_trust dom) (recalculations_for (td_domain_id dom) s) (present_trust x)"
    using audit_okD(1) [OF ok] by auto
  show "\<exists>y. get_domain_state (td_domain_id dom) ?s = Some y \<and>
      chained (initial_trust dom) (recalculations_for (td_domain_id dom) ?s) (present_trust y)"
  proof (cases "td_domain_id dom = d")
    case True
    then have "recalculations_for (td_domain_id dom) ?s = recalculations_for (td_domain_id dom) s @ [?r]"
      by (simp add: recalculations_for_def)
    moreover have "chained (present_trust st) [?r]
        (tr_new_score ?r, tr_new_confidence ?r)"
      by (simp add: present_trust_def)
    moreover obtain y where "get_domain_state d ?s = Some y"
      and "present_trust y = (tr_new_score ?r, tr_new_confidence ?r)"
      by (simp add: get_domain_state_recalculated [OF st] present_trust_def)
    moreover have "x = st" using x st True by simp
    ultimately show ?thesis using chained_trans ch True by metis
  next
    case False
    then have "recalculations_for (td_domain_id dom) ?s = recalculations_for (td_domain_id dom) s"
      by (simp add: recalculations_for_def)
    then show ?thesis using ch x False by (simp add: get_domain_state_recalculated [OF st])
  qed
next
  let ?s = "recalculated d t now st s"
  have din: "d \<in> td_domain_id ` set (trust_domains s)"
  proof -
    have "d \<in> ds_domain_id ` set (trust_domain_state s)"
      using st row_by_SomeD unfolding get_domain_state_def by fastforce
    then show ?thesis using dom by (metis list.set_map)
  qed
  fix r assume "r \<in> set (trust_recalculations ?s)"
  then consider (old) "r \<in> set (trust_recalculations s)" | (new) "r = recalculation_of d t now st s" by auto
  then have "tr_id r < next_id ?s \<and> tr_domain_id r \<in> td_domain_id ` set (trust_domains ?s)
      \<and> explained_by (trust_recalculation_evidence ?s) r"
  proof cases
    case old
    note r = audit_okD(2) [OF ok old]
    have "\<forall>e \<in> set (map (recalc_evidence_of (next_id s) now) (select_unconsumed_evidence d s)).
        re_recalculation_id e \<noteq> tr_id r" using r by (auto simp: recalc_evidence_of_def)
    then have "explained_by (trust_recalculation_evidence ?s) r"
      using r by (simp add: explained_by_others)
    with r show ?thesis by simp
  next
    case new
    have "explained_by (trust_recalculation_evidence ?s) (recalculation_of d t now st s)"
      by (intro explained_by_recalculated ballI audit_okD(3) [OF ok])
    with new din show ?thesis by simp
  qed
  then show "tr_id r < next_id ?s" and "tr_domain_id r \<in> td_domain_id ` set (trust_domains ?s)"
    and "explained_by (trust_recalculation_evidence ?s) r" by simp_all
next
  let ?s = "recalculated d t now st s"
  fix e assume "e \<in> set (trust_recalculation_evidence ?s)"
  then show "re_recalculation_id e < next_id ?s"
    using audit_okD(3) [OF ok] by (auto simp: recalc_evidence_of_def less_Suc_eq)
qed

text \<open>
  The three invariants together, and the operations that touch none of the score tables.
\<close>

definition trust_inv :: "'m trust_db_scheme \<Rightarrow> bool" where
  "trust_inv s \<longleftrightarrow> trust_ok s \<and> audit_ok s"

lemma trust_invD: "trust_inv s \<Longrightarrow> trust_ok s" "trust_inv s \<Longrightarrow> audit_ok s"
  by (simp_all add: trust_inv_def)

lemma trust_inv_recalculated:
  assumes "trust_inv s" and "get_domain_state d s = Some st"
  shows "trust_inv (recalculated d t now st s)"
  using assms trust_okD(2) unfolding trust_inv_def
  by (blast intro: trust_ok_recalculated audit_ok_recalculated)

lemma keeps_inv_recalculate [keeps_intros]:
  "keeps trust_inv (recalculate_domain_trust_in_transaction d t now)"
  by (rule keepsI) (blast dest: trust_invD elim: recalculate_cases intro: trust_inv_recalculated)

lemma trust_inv_new_id: "trust_inv s \<Longrightarrow> trust_inv (s\<lparr>next_id := Suc (next_id s)\<rparr>)"
  unfolding trust_inv_def by (auto elim: audit_ok_more)

lemma trust_inv_insert_event [simp]: "trust_inv (insert_event r s) = trust_inv s"
  unfolding trust_inv_def audit_ok_def get_domain_state_def recalculations_for_def
  by (simp add: insert_event_def)

lemma keeps_inv_new_id [keeps_intros]: "keeps trust_inv new_id"
  by (simp add: keeps_def tx_simps trust_inv_new_id)

lemma keeps_inv_emit [keeps_intros]: "keeps trust_inv (emit ty src p now)"
  by (simp add: keeps_def tx_simps trust_inv_new_id)

lemma trust_inv_transfer:
  fixes s s' :: "'m trust_db_scheme"
  assumes "trust_inv s" and "trust_ok s'" and "trust_domains s' = trust_domains s"
    and "trust_domain_state s' = trust_domain_state s"
    and "trust_recalculations s' = trust_recalculations s"
    and "trust_recalculation_evidence s' = trust_recalculation_evidence s"
    and "next_id s \<le> next_id s'"
  shows "trust_inv s'"
  using assms audit_ok_more unfolding trust_inv_def by blast

lemma trust_inv_consumers: "trust_inv s \<Longrightarrow> trust_inv (s\<lparr>event_consumers := cs\<rparr>)"
  by (rule trust_inv_transfer, assumption) (simp_all add: trust_invD)

lemma trust_inv_claimed: "trust_inv s \<Longrightarrow> trust_inv (set_claimed ids now x s)"
  unfolding set_claimed_def by (rule trust_inv_transfer, assumption) (simp_all add: trust_invD)

lemma trust_inv_published: "trust_inv s \<Longrightarrow> trust_inv (set_published ids now s)"
  unfolding set_published_def by (rule trust_inv_transfer, assumption) (simp_all add: trust_invD)

lemma audit_ok_add_domain:
  assumes ok: "audit_ok s" and fresh: "td_domain_id d \<notin> td_domain_id ` set (trust_domains s)"
    "td_domain_id d \<notin> ds_domain_id ` set (trust_domain_state s)"
    and st: "ds_domain_id st = td_domain_id d" "present_trust st = initial_trust d"
  shows "audit_ok (s\<lparr>trust_domains := trust_domains s @ [d],
    trust_domain_state := trust_domain_state s @ [st]\<rparr>)"
proof -
  let ?s = "s\<lparr>trust_domains := trust_domains s @ [d], trust_domain_state := trust_domain_state s @ [st]\<rparr>"
  have none: "get_domain_state (td_domain_id d) s = None"
    using fresh(2) by (force simp: get_domain_state_def row_by_None)
  have "recalculations_for (td_domain_id d) s = []"
    unfolding recalculations_for_def filter_empty_conv
    using audit_okD(2) [OF ok] fresh(1) by metis
  moreover have "get_domain_state (td_domain_id d) ?s = Some st"
    using none st(1) by (simp add: get_domain_state_def row_by_append)
  moreover have "get_domain_state x ?s = Some y" if "get_domain_state x s = Some y" for x y
    using that by (simp add: get_domain_state_def row_by_append)
  moreover have "recalculations_for x ?s = recalculations_for x s" for x
    by (simp add: recalculations_for_def)
  ultimately show ?thesis using ok st(2) unfolding audit_ok_def by fastforce
qed

lemma audit_ok_update_domains:
  assumes ok: "audit_ok s" and f: "\<And>d. td_domain_id (f d) = td_domain_id d" "\<And>d. initial_trust (f d) = initial_trust d"
  shows "audit_ok (s\<lparr>trust_domains := update_where c f (trust_domains s)\<rparr>)"
proof -
  have "td_domain_id ` set (update_where c f (trust_domains s)) = td_domain_id ` set (trust_domains s)"
    using map_td_update [of f c, OF f(1)] by (metis list.set_map)
  moreover have "\<exists>x \<in> set (trust_domains s). td_domain_id d = td_domain_id x \<and> initial_trust d = initial_trust x"
    if "d \<in> set (update_where c f (trust_domains s))" for d
    using that f by (cases rule: in_update_whereE) auto
  ultimately show ?thesis using ok
    unfolding audit_ok_def by (simp add: get_domain_state_def recalculations_for_def) metis
qed

lemma op_keeps_inv_create:
  "op_keeps trust_inv (create_domain d n ds consent now so co)"
  unfolding create_domain_def Let_def
  by (intro op_keeps_transition keeps_inv_emit keepsI)
    (auto simp: tx_success trust_inv_def present_trust_def initial_trust_def
      intro!: trust_ok_add_domain audit_ok_add_domain)

lemma op_keeps_inv_deactivate: "op_keeps trust_inv (deactivate_domain d via now)"
  unfolding deactivate_domain_def
  by (intro op_keeps_transition keeps_inv_emit keeps_modify)
    (auto simp: trust_inv_def initial_trust_def intro!: trust_ok_update_domains audit_ok_update_domains)

lemma op_keeps_inv_reactivate: "op_keeps trust_inv (reactivate_domain d via now)"
  unfolding reactivate_domain_def
  by (intro op_keeps_transition keeps_inv_emit keeps_modify)
    (auto simp: trust_inv_def initial_trust_def intro!: trust_ok_update_domains audit_ok_update_domains)

lemma op_keeps_inv_recalculate: "op_keeps trust_inv (recalculate_domain_trust d t now)"
  unfolding recalculate_domain_trust_def
  by (intro op_keeps_transition keeps_inv_emit keeps_inv_recalculate)

lemma trust_inv_add_incident:
  assumes "trust_inv s" and "in_id i = next_id s" and "in_assessment i = None"
    and "in_confirmation i = UNCONFIRMED"
    and "in_trust_domain i \<in> td_domain_id ` set (trust_domains s)"
  shows "trust_inv (s\<lparr>next_id := Suc (next_id s), incidents := incidents s @ [i]\<rparr>)"
  by (rule trust_inv_transfer [OF assms(1)])
    (simp_all add: trust_ok_add_incident trust_invD [OF assms(1)] assms)

lemma op_keeps_inv_register:
  "op_keeps trust_inv (register_incident_report g d descr e now)"
  unfolding register_incident_report_def Let_def
  by (intro op_keeps_transition keeps_inv_emit keepsI)
    (auto simp: tx_success new_id_def intro!: trust_inv_add_incident)

lemma op_keeps_inv_recover: "op_keeps trust_inv (recover_trust_manager_state now)"
  by (simp add: op_keeps_def recover_noop trust_invD)

section \<open>Confirmation in closed form\<close>

definition emitted ::
  "string \<Rightarrow> string \<Rightarrow> payload \<Rightarrow> time \<Rightarrow> 'm outbox_db_scheme \<Rightarrow> 'm outbox_db_scheme" where
  "emitted ty src p now s = insert_event (event_row_of (next_id s)
     \<lparr>de_type = ty, de_source = src, de_payload = p, de_occurred_at = now\<rparr>)
     (s\<lparr>next_id := Suc (next_id s)\<rparr>)"

lemma emit_emitted: "emit ty src p now s = Inr ((), emitted ty src p now s)"
  by (simp add: emit_apply emitted_def)

lemma emitted_trust_sel [simp]:
  fixes s :: "'m trust_db_scheme"
  shows "trust_domains (emitted ty src p now s) = trust_domains s"
    and "trust_domain_state (emitted ty src p now s) = trust_domain_state s"
    and "incidents (emitted ty src p now s) = incidents s"
    and "confirmation_records (emitted ty src p now s) = confirmation_records s"
    and "trust_evidence (emitted ty src p now s) = trust_evidence s"
    and "trust_recalculations (emitted ty src p now s) = trust_recalculations s"
    and "trust_recalculation_evidence (emitted ty src p now s) = trust_recalculation_evidence s"
  by (simp_all add: emitted_def insert_event_def)

lemma emitted_sel [simp]:
  "next_id (emitted ty src p now s) = Suc (next_id s)"
  "domain_events (emitted ty src p now s) = domain_events s @ [event_row_of (next_id s)
     \<lparr>de_type = ty, de_source = src, de_payload = p, de_occurred_at = now\<rparr>]"
  "event_consumers (emitted ty src p now s) = event_consumers s"
  by (simp_all add: emitted_def)

lemma trust_ok_emitted [simp]: "trust_ok s \<Longrightarrow> trust_ok (emitted ty src p now s)"
  by (simp add: emitted_def)

lemma trust_inv_emitted [simp]: "trust_inv s \<Longrightarrow> trust_inv (emitted ty src p now s)"
  by (simp add: emitted_def trust_inv_new_id)

lemma emitted_reads [simp]:
  "get_domain_state d (emitted ty src p now s) = get_domain_state d s"
  "select_unconsumed_evidence d (emitted ty src p now s) = select_unconsumed_evidence d s"
  "evidence_consumed (emitted ty src p now s) e = evidence_consumed s e"
  by (simp_all add: get_domain_state_def select_unconsumed_evidence_def evidence_consumed_def)

definition incident_evidence_row ::
  "uid \<Rightarrow> incident_row \<Rightarrow> severity_tier \<Rightarrow> cooperation_assessment \<Rightarrow> time \<Rightarrow> evidence_row" where
  "incident_evidence_row i inc t c now = \<lparr>te_id = i, te_domain_id = in_trust_domain inc,
     te_created_at = now, te_type = INCIDENT_IMPACT, te_source_entity_type = ''incident'',
     te_source_entity_id = in_id inc, te_raw_weight = raw_weight_for_incident t c,
     te_confidence = confidence_numeric (evidence_confidence (in_evidence inc))\<rparr>"

lemma assessed_sel [simp]:
  "trust_domains (assessed inc t c now s) = trust_domains s"
  "trust_domain_state (assessed inc t c now s) = trust_domain_state s"
  "confirmation_records (assessed inc t c now s) = confirmation_records s"
  "trust_evidence (assessed inc t c now s) = trust_evidence s @ [incident_evidence_row (next_id s) inc t c now]"
  "trust_recalculations (assessed inc t c now s) = trust_recalculations s"
  "trust_recalculation_evidence (assessed inc t c now s) = trust_recalculation_evidence s"
  "next_id (assessed inc t c now s) = Suc (next_id s)"
  "domain_events (assessed inc t c now s) = domain_events s"
  "event_consumers (assessed inc t c now s) = event_consumers s"
  "incidents (assessed inc t c now s) =
     update_where (\<lambda>r. in_id r = in_id inc) (\<lambda>r. r\<lparr>in_assessment := Some (t, c)\<rparr>) (incidents s)"
  by (simp_all add: assessed_def update_incident_assessment_def incident_evidence_row_def)

text \<open>The state just before the recalculation, and the whole of the confirmed branch.\<close>

definition assessed_and_recorded ::
  "incident_row \<Rightarrow> confirmation_source \<Rightarrow> string \<Rightarrow> cooperation_assessment \<Rightarrow> time
     \<Rightarrow> 'm trust_db_scheme \<Rightarrow> 'm trust_db_scheme" where
  "assessed_and_recorded inc source descr c now s =
     (let s2 = assessed inc (assess_severity (in_evidence inc)) c now
                 (recorded inc CONFIRMED source descr now s)
      in emitted ''trust_evidence.recorded'' ''trust_manager''
           [(''evidence_id'', JId (Suc (next_id s))), (''domain_id'', JStr (in_trust_domain inc))] now s2)"

definition confirmed_state ::
  "incident_row \<Rightarrow> confirmation_source \<Rightarrow> string \<Rightarrow> cooperation_assessment \<Rightarrow> time
     \<Rightarrow> domain_state_row \<Rightarrow> 'm trust_db_scheme \<Rightarrow> 'm trust_db_scheme" where
  "confirmed_state inc source descr c now st s =
     (let s3 = assessed_and_recorded inc source descr c now s;
          r = recalculation_of (in_trust_domain inc) ''incident'' now st s3;
          s4 = recalculated (in_trust_domain inc) ''incident'' now st s3;
          s5 = emitted ''trust_domain.recalculated'' ''trust_manager'' (recalculated_payload r) now s4
      in emitted ''incident.confirmation_changed'' ''trust_manager''
           (confirmation_changed_payload
             (inc\<lparr>in_assessment := Some (assess_severity (in_evidence inc), c)\<rparr>)
             (confirmation_row_of (next_id s) inc CONFIRMED source descr now)) now s5)"

lemma assessed_and_recorded_ok:
  assumes "trust_inv s" and "row_by in_id i (incidents s) = Some inc" and "in_assessment inc = None"
  shows "trust_inv (assessed_and_recorded inc source descr c now s)"
proof -
  note ok = trust_invD(1) [OF assms(1)] and inc = incident_row_okD [OF trust_invD(1) [OF assms(1)] assms(2)]
  have "trust_ok (assessed inc (assess_severity (in_evidence inc)) c now
      (recorded inc CONFIRMED source descr now s))"
    using inc assms(3) assessment_key_iff [OF ok inc(2)]
    by (intro recorded_assessed_ok ok) auto
  then have "trust_inv (assessed inc (assess_severity (in_evidence inc)) c now
      (recorded inc CONFIRMED source descr now s))"
    by (intro trust_inv_transfer [OF assms(1)]) simp_all
  then show ?thesis by (simp add: assessed_and_recorded_def Let_def)
qed

lemma assessed_and_recorded_sel [simp]:
  "trust_domains (assessed_and_recorded inc source descr c now s) = trust_domains s"
  "trust_domain_state (assessed_and_recorded inc source descr c now s) = trust_domain_state s"
  "trust_recalculations (assessed_and_recorded inc source descr c now s) = trust_recalculations s"
  "trust_recalculation_evidence (assessed_and_recorded inc source descr c now s) = trust_recalculation_evidence s"
  "trust_evidence (assessed_and_recorded inc source descr c now s) = trust_evidence s
     @ [incident_evidence_row (Suc (next_id s)) inc (assess_severity (in_evidence inc)) c now]"
  "get_domain_state d (assessed_and_recorded inc source descr c now s) = get_domain_state d s"
  by (simp_all add: assessed_and_recorded_def Let_def get_domain_state_def)

lemma confirm_effects_eq:
  assumes "trust_inv s" and "row_by in_id i (incidents s) = Some inc" and "in_assessment inc = None"
    and "get_domain_state (in_trust_domain inc) s = Some st"
  shows "confirm_effects inc c now (recorded inc CONFIRMED source descr now s) =
    Inr (inc\<lparr>in_assessment := Some (assess_severity (in_evidence inc), c)\<rparr>,
      emitted ''trust_domain.recalculated'' ''trust_manager'' (recalculated_payload
          (recalculation_of (in_trust_domain inc) ''incident'' now st
             (assessed_and_recorded inc source descr c now s))) now
        (recalculated (in_trust_domain inc) ''incident'' now st
           (assessed_and_recorded inc source descr c now s)))"
proof -
  let ?t = "assess_severity (in_evidence inc)" and ?s1 = "recorded inc CONFIRMED source descr now s"
  let ?inc = "inc\<lparr>in_assessment := Some (?t, c)\<rparr>" and ?s3 = "assessed_and_recorded inc source descr c now s"
  note ok = trust_invD(1) [OF assms(1)] and inc = incident_row_okD [OF trust_invD(1) [OF assms(1)] assms(2)]
  have fresh: "incident_evidence_key (in_id inc) \<notin> evidence_key ` set (trust_evidence s)"
    using assms(3) assessment_key_iff [OF ok inc(2)] by simp
  have same: "assessed ?inc ?t c now ?s1 = assessed inc ?t c now ?s1"
    by (simp add: assessed_def)
  have writes: "assessment_writes ?inc ?t c now ?s1
      = Inr (incident_evidence_row (Suc (next_id s)) inc ?t c now, assessed inc ?t c now ?s1)"
    unfolding assessment_writes_eq same using fresh inc(4) by simp
  have ev: "emit_evidence_recorded (incident_evidence_row (Suc (next_id s)) inc ?t c now) now
      (assessed inc ?t c now ?s1) = Inr ((), ?s3)"
    by (simp add: emit_evidence_recorded_def emit_emitted assessed_and_recorded_def Let_def
        incident_evidence_row_def)
  have ok3: "trust_ok ?s3" using assessed_and_recorded_ok [OF assms(1-3)] by (rule trust_invD)
  have st3: "get_domain_state (in_trust_domain inc) ?s3 = Some st" using assms(4) by simp
  note rec = recalculate_eq [OF st3 trust_okD(5) [OF ok3] trust_okD(10) [OF ok3], of "''incident''" now]
  show ?thesis unfolding confirm_effects_alt
    by (simp only: tx_bind_apply writes ev rec emit_emitted tx_return_apply sum.case prod.case)
qed

lemma confirm_incident_eq:
  assumes "trust_inv s" and "row_by in_id i (incidents s) = Some inc" and "in_assessment inc = None"
    and "get_domain_state (in_trust_domain inc) s = Some st"
  shows "confirm_incident i CONFIRMED source descr c now s =
    (Inr (inc\<lparr>in_assessment := Some (assess_severity (in_evidence inc), or_default c default_cooperation)\<rparr>,
          confirmation_row_of (next_id s) inc CONFIRMED source descr now),
     confirmed_state inc source descr (or_default c default_cooperation) now st s)"
proof -
  have load: "load_incident i s = Inr (inc, s)" by (simp add: load_incident_eq assms(2))
  have w: "confirm_write inc CONFIRMED source descr (or_default c default_cooperation) now s = Inr
     ((inc\<lparr>in_assessment := Some (assess_severity (in_evidence inc), or_default c default_cooperation)\<rparr>,
       confirmation_row_of (next_id s) inc CONFIRMED source descr now),
      emitted ''trust_domain.recalculated'' ''trust_manager'' (recalculated_payload
          (recalculation_of (in_trust_domain inc) ''incident'' now st
             (assessed_and_recorded inc source descr (or_default c default_cooperation) now s))) now
        (recalculated (in_trust_domain inc) ''incident'' now st
           (assessed_and_recorded inc source descr (or_default c default_cooperation) now s)))"
    by (simp add: confirm_write_eq tx_bind_apply confirm_effects_eq [OF assms] tx_return_apply)
  show ?thesis unfolding confirm_incident_def apply_transition_def
    by (simp add: tx_bind_apply load tx_lift_Inr w emit_emitted tx_return_apply atomically_def
        confirmed_state_def Let_def)
qed

lemma trust_inv_confirmed_state:
  assumes "trust_inv s" and "row_by in_id i (incidents s) = Some inc" and "in_assessment inc = None"
    and "get_domain_state (in_trust_domain inc) s = Some st"
  shows "trust_inv (confirmed_state inc source descr c now st s)"
proof -
  have "get_domain_state (in_trust_domain inc) (assessed_and_recorded inc source descr c now s) = Some st"
    using assms(4) by simp
  then show ?thesis unfolding confirmed_state_def Let_def
    by (intro trust_inv_emitted trust_inv_recalculated assessed_and_recorded_ok [OF assms(1-3)])
qed

lemma confirm_incident_unknown:
  "row_by in_id i (incidents s) = None \<Longrightarrow>
   confirm_incident i new source descr c now s = (Inl (IncidentNotFoundError i), s)"
  by (simp add: confirm_incident_def apply_transition_def tx_bind_apply load_incident_eq atomically_def)

lemma confirm_incident_again:
  assumes "trust_ok s" and "row_by in_id i (incidents s) = Some inc" and "in_assessment inc \<noteq> None"
  shows "confirm_incident i CONFIRMED source descr c now s = (Inl IntegrityError, s)"
proof -
  note inc = incident_row_okD [OF assms(1,2)]
  have "incident_evidence_key (in_id inc) \<in> evidence_key ` set (trust_evidence s)"
    using assms(3) assessment_key_iff [OF assms(1) inc(2)] by simp
  then have "confirm_effects inc (or_default c default_cooperation) now
      (recorded inc CONFIRMED source descr now s) = Inl IntegrityError"
    by (simp add: confirm_effects_alt tx_bind_apply assessment_writes_eq)
  then show ?thesis
    by (simp add: confirm_incident_def apply_transition_def tx_bind_apply load_incident_eq assms(2)
        tx_lift_Inr tx_return_apply confirm_write_eq atomically_def)
qed

lemma confirm_incident_downgrade:
  assumes "row_by in_id i (incidents s) = Some inc" and "new \<noteq> CONFIRMED"
  shows "confirm_incident i new source descr c now s =
    (Inr (inc, confirmation_row_of (next_id s) inc new source descr now),
     emitted ''incident.confirmation_changed'' ''trust_manager''
       (confirmation_changed_payload inc (confirmation_row_of (next_id s) inc new source descr now)) now
       (recorded inc new source descr now s))"
  using assms
  by (simp add: confirm_incident_def apply_transition_def tx_bind_apply load_incident_eq
      tx_lift_Inr tx_return_apply confirm_write_eq emit_emitted atomically_def)

lemma op_keeps_inv_confirm: "op_keeps trust_inv (confirm_incident i new source descr c now)"
proof (rule op_keepsI)
  fix s :: "'a trust_db_scheme"
  assume ok: "trust_inv s"
  show "trust_inv (snd (confirm_incident i new source descr c now s))"
  proof (cases "row_by in_id i (incidents s)")
    case None
    then show ?thesis by (simp add: confirm_incident_unknown ok)
  next
    case (Some inc)
    note tok = trust_invD(1) [OF ok]
    show ?thesis
    proof (cases "new = CONFIRMED")
      case False
      have "trust_ok (snd (confirm_incident i new source descr c now s))"
        using op_keeps_trust_confirm tok by (rule op_keepsD)
      then show ?thesis
        by (intro trust_inv_transfer [OF ok])
          (simp_all add: confirm_incident_downgrade [OF Some False])
    next
      case True
      obtain st where st: "get_domain_state (in_trust_domain inc) s = Some st"
        using domain_state_exists [OF tok] incident_row_okD(4) [OF tok Some] by blast
      show ?thesis
      proof (cases "in_assessment inc = None")
        case None: True
        then show ?thesis unfolding True
          by (simp add: confirm_incident_eq [OF ok Some None st] trust_inv_confirmed_state [OF ok Some None st])
      next
        case False
        then show ?thesis unfolding True by (simp add: confirm_incident_again [OF tok Some] ok)
      qed
    qed
  qed
qed

lemma sum_list_sort_key: "sum_list (map f (sort_key k xs)) = (sum_list (map f xs) :: real)"
  by (metis mset_map mset_sort sum_mset_sum_list)

lemma confirmed_state_score:
  assumes "trust_inv s" and "row_by in_id i (incidents s) = Some inc" and "in_assessment inc = None"
    and "get_domain_state (in_trust_domain inc) s = Some st"
  shows "\<exists>st'. get_domain_state (in_trust_domain inc) (confirmed_state inc source descr c now st s) = Some st'
    \<and> ds_score st' = apply_recalculation (ds_score st)
        (sum_list (map (\<lambda>e. effective_weight (te_raw_weight e) (te_confidence e))
            (select_unconsumed_evidence (in_trust_domain inc) s))
         + effective_weight (raw_weight_for_incident (assess_severity (in_evidence inc)) c)
             (confidence_numeric (evidence_confidence (in_evidence inc))))"
proof -
  let ?d = "in_trust_domain inc" and ?s3 = "assessed_and_recorded inc source descr c now s"
  let ?w = "\<lambda>e. effective_weight (te_raw_weight e) (te_confidence e)"
  let ?e = "incident_evidence_row (Suc (next_id s)) inc (assess_severity (in_evidence inc)) c now"
  have ok: "trust_ok s" using assms(1) by (rule trust_invD)
  have "te_id e < next_id s" if "e \<in> set (trust_evidence s)" for e
    using trust_okD(7) [OF ok that] by (simp add: evidence_ok_def)
  then have fresh: "Suc (next_id s) \<notin> re_evidence_id ` set (trust_recalculation_evidence s)"
    using trust_okD(9) [OF ok] by fastforce
  have un: "filter (\<lambda>e. te_domain_id e = ?d \<and> \<not> evidence_consumed ?s3 e) (trust_evidence ?s3)
      = filter (\<lambda>e. te_domain_id e = ?d \<and> \<not> evidence_consumed s e) (trust_evidence s) @ [?e]"
    using fresh by (simp add: evidence_consumed_def incident_evidence_row_def)
  have "sum_list (map ?w (select_unconsumed_evidence ?d ?s3))
      = sum_list (map ?w (select_unconsumed_evidence ?d s)) + ?w ?e"
    unfolding select_unconsumed_evidence_def sum_list_sort_key un by simp
  moreover have "get_domain_state ?d ?s3 = Some st" using assms(4) by simp
  ultimately show ?thesis
    by (simp add: confirmed_state_def Let_def get_domain_state_recalculated)
      (simp add: recalculation_of_def Let_def incident_evidence_row_def)
qed

end
