(* ===== verification/Penalty_Engine.thy ===== *)
theory Penalty_Engine
  imports Penalty_Rules Trust_Facts
begin

text \<open>
  \<open>penalty_engine/repository.py\<close>: the penalty window's state machine, the consumption of
  confirmed incidents with the extension decision, recovery credits, freezing as a set of open
  periods, completion detection, and the public reads. Its tables extend the Trust Manager's
  database, of which it only uses the outbox.
\<close>

section \<open>Tables\<close>

record consumption_row =
  ic_incident_id :: uid
  ic_penalty_window_id :: uid
  ic_trust_domain :: string
  ic_rule_group_id :: string
  ic_consumed_at :: time

record ledger_row =
  rl_id :: uid
  rl_penalty_window_id :: uid
  rl_credited_hours :: real
  rl_source_completion_id :: "uid option"
  rl_created_at :: time

record penalty_db = trust_db +
  penalty_windows :: "penalty_window list"
  freeze_periods :: "freeze_period list"
  incident_consumption :: "consumption_row list"
  extension_decisions :: "extension_decision list"
  recovery_credit_decisions :: "recovery_credit_decision list"
  recovery_credit_ledger :: "ledger_row list"

section \<open>Reads\<close>

definition window_open :: "penalty_window \<Rightarrow> bool" where
  \<comment> \<open>\<open>status IN ('active', 'frozen')\<close>\<close>
  "window_open w \<longleftrightarrow> pw_status w = PW_ACTIVE \<or> pw_status w = PW_FROZEN"

definition get_active_or_frozen_penalty_window :: "'m penalty_db_scheme \<Rightarrow> penalty_window option" where
  "get_active_or_frozen_penalty_window s =
     first_row (newest_first pw_created_at (filter window_open (penalty_windows s)))"

definition last_window_closed_at :: "'m penalty_db_scheme \<Rightarrow> time" where
  "last_window_closed_at s = or_default (latest_instant (map pw_closed_at
     (filter (\<lambda>w. pw_status w = PW_COMPLETED) (penalty_windows s)))) 0"

definition window_by_id :: "uid \<Rightarrow> 'm penalty_db_scheme \<Rightarrow> penalty_window option" where
  "window_by_id i s = row_by pw_id i (penalty_windows s)"

definition period_open :: "freeze_period \<Rightarrow> bool" where
  "period_open f \<longleftrightarrow> fp_ended_at f = None"

definition get_authorization_freeze_state ::
  "string \<Rightarrow> 'm penalty_db_scheme \<Rightarrow> authorization_freeze_state" where
  "get_authorization_freeze_state decision_id s =
     (case first_row (newest_first fp_started_at
             (filter (\<lambda>f. fp_authorization_decision_id f = Some decision_id) (freeze_periods s))) of
        None \<Rightarrow> AF_NOT_FOUND
      | Some f \<Rightarrow> if period_open f then AF_OPEN
                  else if fp_end_reason f = Some EXPIRED then AF_EXPIRED
                  else AF_CLOSED)"

definition get_penalty_window_relevant_domains ::
  "uid \<Rightarrow> 'm penalty_db_scheme \<Rightarrow> exn + string set" where
  "get_penalty_window_relevant_domains i s =
     (case window_by_id i s of
        None \<Rightarrow> Inl (PenaltyWindowNotFound i)
      | Some _ \<Rightarrow> Inr (set (map ic_trust_domain
          (filter (\<lambda>c. ic_penalty_window_id c = i) (incident_consumption s)))))"

section \<open>Consumption of confirmed incidents\<close>

definition consumed :: "uid \<Rightarrow> 'm penalty_db_scheme \<Rightarrow> bool" where
  "consumed incident_id s \<longleftrightarrow> incident_id \<in> ic_incident_id ` set (incident_consumption s)"

definition new_window :: "uid \<Rightarrow> time \<Rightarrow> real \<Rightarrow> penalty_window" where
  "new_window i now base = \<lparr>pw_id = i, pw_created_at = now, pw_status = PW_ACTIVE,
     pw_closed_at = None, pw_resolution_method = None, pw_base_duration_hours = base,
     pw_extensions_hours = 0, pw_accumulated_active_hours = 0,
     pw_active_period_started_at = Some now, pw_recovery_credits_earned_hours = 0\<rparr>"

definition open_or_start_window :: "time \<Rightarrow> real \<Rightarrow> ('m penalty_db_scheme, penalty_window \<times> bool) tx" where
  "open_or_start_window now base =
     tx_bind (tx_get get_active_or_frozen_penalty_window) (\<lambda>window_row.
     case window_row of
       Some w \<Rightarrow> tx_return (w, False)
     | None \<Rightarrow> tx_bind new_id (\<lambda>i.
         tx_bind (tx_modify (\<lambda>s. s\<lparr>penalty_windows := penalty_windows s @ [new_window i now base]\<rparr>)) (\<lambda>_.
         tx_return (new_window i now base, True))))"

definition same_rule_count :: "uid \<Rightarrow> string \<Rightarrow> 'm penalty_db_scheme \<Rightarrow> nat" where
  "same_rule_count window_id rule_group_id s = count_where
     (\<lambda>c. ic_penalty_window_id c = window_id \<and> ic_rule_group_id c = rule_group_id)
     (incident_consumption s)"

definition remaining_capacity :: "penalty_window \<Rightarrow> real" where
  "remaining_capacity w =
     max 0 (max_target_active_hours - (pw_base_duration_hours w + pw_extensions_hours w))"

definition add_extension_hours ::
  "uid \<Rightarrow> real \<Rightarrow> 'm penalty_db_scheme \<Rightarrow> 'm penalty_db_scheme" where
  "add_extension_hours i hours s = s\<lparr>penalty_windows :=
     update_where (\<lambda>w. pw_id w = i)
       (\<lambda>w. w\<lparr>pw_extensions_hours := pw_extensions_hours w + hours\<rparr>) (penalty_windows s)\<rparr>"

definition consume_confirmed_incident_in_transaction ::
  "uid \<Rightarrow> string \<Rightarrow> string \<Rightarrow> severity_tier \<Rightarrow> cooperation_assessment \<Rightarrow> time \<Rightarrow> real
     \<Rightarrow> ('m penalty_db_scheme, (penalty_window \<times> extension_decision \<times> bool) option) tx" where
  "consume_confirmed_incident_in_transaction incident_id domain rule_group_id severity cooperation now base =
     tx_bind (tx_get (consumed incident_id)) (\<lambda>already_consumed.
     if already_consumed then tx_return None else
     tx_bind (open_or_start_window now base) (\<lambda>(window, started).
     tx_bind (tx_modify (\<lambda>s. s\<lparr>incident_consumption := incident_consumption s @
       [\<lparr>ic_incident_id = incident_id, ic_penalty_window_id = pw_id window,
         ic_trust_domain = domain, ic_rule_group_id = rule_group_id, ic_consumed_at = now\<rparr>]\<rparr>)) (\<lambda>_.
     tx_bind (tx_get (same_rule_count (pw_id window) rule_group_id)) (\<lambda>n.
     tx_bind new_id (\<lambda>decision_id.
     (let context = \<lparr>ec_severity = severity, ec_cooperation = cooperation,
            ec_same_rule_count = n, ec_remaining_capacity = remaining_capacity window,
            ec_during_recovery_task = False\<rparr>;
          decision = should_extend decision_id context incident_id (pw_id window) now
      in tx_bind (tx_modify (\<lambda>s. s\<lparr>extension_decisions := extension_decisions s @ [decision]\<rparr>)) (\<lambda>_.
         if ed_assigned_hours decision > 0
         then tx_bind (tx_modify (add_extension_hours (pw_id window) (ed_assigned_hours decision))) (\<lambda>_.
              tx_return (Some (window\<lparr>pw_extensions_hours :=
                  pw_extensions_hours window + ed_assigned_hours decision\<rparr>, decision, started)))
         else tx_return (Some (window, decision, started)))))))))"

definition emit_started :: "penalty_window \<Rightarrow> extension_decision \<Rightarrow> time \<Rightarrow> ('m outbox_db_scheme, unit) tx" where
  "emit_started w d now = emit ''penalty_window.started'' ''penalty_engine''
     [(''penalty_window_id'', JId (pw_id w)),
      (''base_duration_hours'', JNum (pw_base_duration_hours w)),
      (''incident_ids'', JArr [JId (ed_incident_id d)])] now"

definition emit_decision_recorded :: "extension_decision \<Rightarrow> time \<Rightarrow> ('m outbox_db_scheme, unit) tx" where
  "emit_decision_recorded d now = emit ''extension.decision_recorded'' ''penalty_engine''
     [(''extension_decision_id'', JId (ed_id d)), (''incident_id'', JId (ed_incident_id d)),
      (''penalty_window_id'', JId (ed_penalty_window_id d)), (''eligible'', JBool (ed_eligible d)),
      (''eligibility_reason'', JStr (eligibility_reason_value (ed_reason d))),
      (''assigned_hours'', JNum (ed_assigned_hours d)),
      (''capacity_limited'', JBool (ed_capacity_limited d))] now"

definition emit_consumption_events ::
  "penalty_window \<times> extension_decision \<times> bool \<Rightarrow> time \<Rightarrow> ('m outbox_db_scheme, unit) tx" where
  "emit_consumption_events result now =
     (case result of (window, decision, started) \<Rightarrow>
       tx_bind (if started then emit_started window decision now else tx_return ()) (\<lambda>_.
       tx_bind (emit_decision_recorded decision now) (\<lambda>_.
       if ed_assigned_hours decision > 0
       then tx_bind (emit ''penalty_window.extended'' ''penalty_engine''
                [(''penalty_window_id'', JId (pw_id window)),
                 (''assigned_hours'', JNum (ed_assigned_hours decision))] now) (\<lambda>_.
            emit ''penalty_window.target_duration_changed'' ''penalty_engine''
                [(''penalty_window_id'', JId (pw_id window)),
                 (''new_target_active_hours'',
                  JNum (pw_base_duration_hours window + pw_extensions_hours window))] now)
       else tx_return ())))"

definition consumption_events ::
  "time \<Rightarrow> (penalty_window \<times> extension_decision \<times> bool) option \<Rightarrow> ('m outbox_db_scheme, unit) tx" where
  "consumption_events now result =
     (case result of None \<Rightarrow> tx_return () | Some r \<Rightarrow> emit_consumption_events r now)"

definition consume_confirmed_incident ::
  "uid \<Rightarrow> string \<Rightarrow> string \<Rightarrow> severity_tier \<Rightarrow> cooperation_assessment \<Rightarrow> time \<Rightarrow> real
     \<Rightarrow> ('m penalty_db_scheme, penalty_window option) op" where
  "consume_confirmed_incident incident_id domain rule_group_id severity cooperation now base =
     op_bind (transition
       (consume_confirmed_incident_in_transaction incident_id domain rule_group_id severity cooperation now base)
       (consumption_events now))
     (\<lambda>result. op_return (map_option fst result))"

text \<open>
  The Trust Manager's two public reads are arguments, as \<open>trust_manager\<close> is in the source.
\<close>

fun consume_candidates ::
  "(uid \<Rightarrow> 'm penalty_db_scheme \<Rightarrow> exn + incident_assessment option) \<Rightarrow> real \<Rightarrow> time
     \<Rightarrow> confirmed_incident_summary list \<Rightarrow> penalty_window option
     \<Rightarrow> ('m penalty_db_scheme, penalty_window option) op" where
  "consume_candidates get_assessment base now [] result s = (Inr result, s)"
| "consume_candidates get_assessment base now (c # cs) result s =
     (case get_assessment (cs_id c) s of
        Inl e \<Rightarrow> (Inl e, s)
      | Inr None \<Rightarrow> consume_candidates get_assessment base now cs result s
      | Inr (Some a) \<Rightarrow>
          (case consume_confirmed_incident (cs_id c) (cs_trust_domain c) (cs_rule_group_id c)
                  (intrinsic_severity a) (assessment_cooperation a) now base s of
             (Inl e, s') \<Rightarrow> (Inl e, s')
           | (Inr w, s') \<Rightarrow> consume_candidates get_assessment base now cs w s'))"

definition start_window_if_eligible ::
  "(time \<Rightarrow> 'm penalty_db_scheme \<Rightarrow> confirmed_incident_summary list)
     \<Rightarrow> (uid \<Rightarrow> 'm penalty_db_scheme \<Rightarrow> exn + incident_assessment option) \<Rightarrow> real \<Rightarrow> time
     \<Rightarrow> ('m penalty_db_scheme, penalty_window option) op" where
  "start_window_if_eligible get_since get_assessment base now s =
     (let candidates = get_since (last_window_closed_at s) s;
          unconsumed = filter (\<lambda>c. \<not> consumed (cs_id c) s) candidates
      in if candidates = [] then (Inr None, s)
         else if unconsumed = [] then (Inr None, s)
         else consume_candidates get_assessment base now unconsumed None s)"

section \<open>Recovery credits\<close>

definition record_recovery_credit_in_transaction ::
  "uid \<Rightarrow> uid \<Rightarrow> real \<Rightarrow> time \<Rightarrow> ('m penalty_db_scheme, recovery_credit_decision) tx" where
  "record_recovery_credit_in_transaction completion_id penalty_window_id proposed now =
     tx_bind (tx_get (\<lambda>s. row_by rd_completion_id completion_id (recovery_credit_decisions s))) (\<lambda>existing.
     case existing of Some d \<Rightarrow> tx_return d | None \<Rightarrow>
     tx_bind (tx_get (window_by_id penalty_window_id)) (\<lambda>row.
     tx_bind (tx_the (PenaltyWindowNotFound penalty_window_id) row) (\<lambda>window.
     (let capacity = target_active_hours window / 2;
          remaining = max 0 (capacity - pw_recovery_credits_earned_hours window);
          credited = min proposed remaining
      in tx_bind new_id (\<lambda>i.
         (let decision = \<lparr>rd_id = i, rd_created_at = now, rd_completion_id = completion_id,
                rd_penalty_window_id = penalty_window_id, rd_proposed_hours = proposed,
                rd_credited_hours = credited, rd_capacity_limited = credited < proposed\<rparr>
          in tx_bind (tx_modify (\<lambda>s. s\<lparr>recovery_credit_decisions :=
                        recovery_credit_decisions s @ [decision]\<rparr>)) (\<lambda>_.
             if credited > 0
             then tx_bind new_id (\<lambda>j.
                  tx_bind (tx_modify (\<lambda>s. s\<lparr>
                      penalty_windows := update_where (\<lambda>w. pw_id w = penalty_window_id)
                        (\<lambda>w. w\<lparr>pw_recovery_credits_earned_hours :=
                                pw_recovery_credits_earned_hours w + credited\<rparr>) (penalty_windows s),
                      recovery_credit_ledger := recovery_credit_ledger s @
                        [\<lparr>rl_id = j, rl_penalty_window_id = penalty_window_id,
                          rl_credited_hours = credited, rl_source_completion_id = Some completion_id,
                          rl_created_at = now\<rparr>]\<rparr>)) (\<lambda>_.
                  tx_return decision))
             else tx_return decision)))))))"

definition emit_recovery_credit_event ::
  "recovery_credit_decision \<Rightarrow> time \<Rightarrow> ('m outbox_db_scheme, unit) tx" where
  "emit_recovery_credit_event d now = emit ''recovery_credit_decision.recorded'' ''penalty_engine''
     [(''recovery_credit_decision_id'', JId (rd_id d)), (''completion_id'', JId (rd_completion_id d)),
      (''penalty_window_id'', JId (rd_penalty_window_id d)),
      (''credited_hours'', JNum (rd_credited_hours d)),
      (''capacity_limited'', JBool (rd_capacity_limited d))] now"

section \<open>Freeze and resume\<close>

text \<open>The CHECK constraint and the partial unique index of \<open>freeze_periods\<close>.\<close>

definition freeze_links_ok :: "freeze_reason \<Rightarrow> string option \<Rightarrow> string option \<Rightarrow> bool" where
  "freeze_links_ok r exemption authorization =
     (case r of
        TEMPORARY_WEAR_EXEMPTION \<Rightarrow> exemption \<noteq> None \<and> authorization = None
      | PARTNERED_INTIMACY_AUTHORIZATION \<Rightarrow> authorization \<noteq> None \<and> exemption = None
      | EMERGENCY_OVERRIDE \<Rightarrow> exemption = None \<and> authorization = None)"

definition freeze_index_ok :: "uid \<Rightarrow> freeze_reason \<Rightarrow> 'm penalty_db_scheme \<Rightarrow> bool" where
  "freeze_index_ok i r s \<longleftrightarrow> r = PARTNERED_INTIMACY_AUTHORIZATION \<longrightarrow>
     count_where (\<lambda>f. fp_penalty_window_id f = i \<and> period_open f
       \<and> fp_reason f = PARTNERED_INTIMACY_AUTHORIZATION) (freeze_periods s) = 0"

definition set_frozen :: "uid \<Rightarrow> real \<Rightarrow> 'm penalty_db_scheme \<Rightarrow> 'm penalty_db_scheme" where
  "set_frozen i accumulated s = s\<lparr>penalty_windows := update_where (\<lambda>w. pw_id w = i)
     (\<lambda>w. w\<lparr>pw_status := PW_FROZEN, pw_accumulated_active_hours := accumulated,
            pw_active_period_started_at := None\<rparr>) (penalty_windows s)\<rparr>"

definition freeze_write ::
  "uid \<Rightarrow> freeze_reason \<Rightarrow> time \<Rightarrow> string option \<Rightarrow> string option \<Rightarrow> time option
     \<Rightarrow> ('m penalty_db_scheme, freeze_period \<times> bool) tx" where
  "freeze_write i reason now exemption authorization expires =
     tx_bind new_id (\<lambda>fid.
     (let fp = \<lparr>fp_id = fid, fp_penalty_window_id = i, fp_started_at = now, fp_ended_at = None,
            fp_reason = reason, fp_exemption_id = exemption,
            fp_authorization_decision_id = authorization, fp_expires_at = expires,
            fp_end_reason = None\<rparr>
      in tx_bind (tx_get (window_by_id i)) (\<lambda>row.
         tx_bind (tx_the (PenaltyWindowNotFound i) row) (\<lambda>w.
         tx_bind (tx_get (freeze_index_ok i reason)) (\<lambda>free.
         tx_bind (tx_require (free \<and> freeze_links_ok reason exemption authorization) IntegrityError) (\<lambda>_.
         tx_bind (tx_modify (\<lambda>s. s\<lparr>freeze_periods := freeze_periods s @ [fp]\<rparr>)) (\<lambda>_.
         tx_bind (if pw_status w = PW_ACTIVE then tx_modify (set_frozen i (active_hours_elapsed w now))
                  else tx_return ()) (\<lambda>_.
         tx_return (fp, pw_status w = PW_ACTIVE)))))))))"

definition freeze_events ::
  "uid \<Rightarrow> freeze_reason \<Rightarrow> time \<Rightarrow> bool \<Rightarrow> freeze_period \<times> bool \<Rightarrow> ('m outbox_db_scheme, unit) tx" where
  "freeze_events i reason now emergency result =
     (case result of (fp, was_first) \<Rightarrow>
        tx_bind (emit ''freeze_periods.opened'' ''penalty_engine''
          [(''freeze_period_id'', JId (fp_id fp)), (''penalty_window_id'', JId i),
           (''reason'', JStr (freeze_reason_value reason))] now) (\<lambda>_.
        tx_bind (if was_first then emit ''penalty_window.frozen'' ''penalty_engine''
            [(''penalty_window_id'', JId i), (''reason'', JStr (freeze_reason_value reason))] now
          else tx_return ()) (\<lambda>_.
        if emergency then emit ''emergency_override.triggered'' ''penalty_engine''
            [(''penalty_window_id'', JId i), (''freeze_period_id'', JId (fp_id fp))] now
        else tx_return ())))"

definition freeze_in_transaction ::
  "uid \<Rightarrow> freeze_reason \<Rightarrow> time \<Rightarrow> string option \<Rightarrow> string option \<Rightarrow> time option \<Rightarrow> bool
     \<Rightarrow> ('m penalty_db_scheme, freeze_period) op" where
  "freeze_in_transaction i reason now exemption authorization expires emergency =
     op_bind (transition (freeze_write i reason now exemption authorization expires)
       (freeze_events i reason now emergency))
     (\<lambda>(fp, _). op_return fp)"

definition freeze_window ::
  "uid \<Rightarrow> freeze_reason \<Rightarrow> time \<Rightarrow> string option \<Rightarrow> string option \<Rightarrow> time option
     \<Rightarrow> ('m penalty_db_scheme, freeze_period) op" where
  \<comment> \<open>the method \<open>freeze\<close>\<close>
  "freeze_window i reason now exemption authorization expires =
     freeze_in_transaction i reason now exemption authorization expires False"

definition emergency_freeze :: "uid \<Rightarrow> time \<Rightarrow> ('m penalty_db_scheme, freeze_period) op" where
  "emergency_freeze i now = freeze_in_transaction i EMERGENCY_OVERRIDE now None None None True"

definition end_period :: "time \<Rightarrow> freeze_end_reason \<Rightarrow> uid \<Rightarrow> 'm penalty_db_scheme \<Rightarrow> 'm penalty_db_scheme" where
  "end_period now why fid s = s\<lparr>freeze_periods := update_where (\<lambda>f. fp_id f = fid)
     (\<lambda>f. f\<lparr>fp_ended_at := Some now, fp_end_reason := Some why\<rparr>) (freeze_periods s)\<rparr>"

definition open_count :: "uid \<Rightarrow> 'm penalty_db_scheme \<Rightarrow> nat" where
  "open_count i s =
     count_where (\<lambda>f. fp_penalty_window_id f = i \<and> period_open f) (freeze_periods s)"

definition set_active :: "uid \<Rightarrow> time \<Rightarrow> 'm penalty_db_scheme \<Rightarrow> 'm penalty_db_scheme" where
  "set_active i now s = s\<lparr>penalty_windows := update_where (\<lambda>w. pw_id w = i)
     (\<lambda>w. w\<lparr>pw_status := PW_ACTIVE, pw_active_period_started_at := Some now\<rparr>)
     (penalty_windows s)\<rparr>"

definition periods_to_close ::
  "uid \<Rightarrow> freeze_reason \<Rightarrow> uid option \<Rightarrow> 'm penalty_db_scheme \<Rightarrow> freeze_period list" where
  "periods_to_close i reason only s =
     (case only of
        Some fid \<Rightarrow> filter (\<lambda>f. fp_id f = fid \<and> period_open f) (freeze_periods s)
      | None \<Rightarrow> oldest_first fp_started_at
          (filter (\<lambda>f. fp_penalty_window_id f = i \<and> fp_reason f = reason \<and> period_open f)
             (freeze_periods s)))"

definition close_write ::
  "uid \<Rightarrow> freeze_reason \<Rightarrow> time \<Rightarrow> freeze_end_reason \<Rightarrow> uid option
     \<Rightarrow> ('m penalty_db_scheme, uid list \<times> bool) tx" where
  "close_write i reason now why only =
     tx_bind (tx_get (periods_to_close i reason only)) (\<lambda>rows.
     if rows = [] then tx_return ([], False)
     else tx_bind (tx_for (map fp_id rows) (\<lambda>fid. tx_modify (end_period now why fid))) (\<lambda>_.
          tx_bind (tx_get (open_count i)) (\<lambda>remaining_open.
          if remaining_open = 0
          then tx_bind (tx_modify (set_active i now)) (\<lambda>_. tx_return (map fp_id rows, True))
          else tx_return (map fp_id rows, False))))"

definition close_events ::
  "uid \<Rightarrow> freeze_reason \<Rightarrow> time \<Rightarrow> freeze_end_reason \<Rightarrow> uid list \<times> bool
     \<Rightarrow> ('m outbox_db_scheme, unit) tx" where
  "close_events i reason now why result =
     (case result of (closed_ids, became_active_again) \<Rightarrow>
        tx_bind (tx_for closed_ids (\<lambda>fid. emit ''freeze_periods.closed'' ''penalty_engine''
          [(''freeze_period_id'', JId fid), (''penalty_window_id'', JId i),
           (''reason'', JStr (freeze_reason_value reason)),
           (''end_reason'', JStr (freeze_end_reason_value why))] now)) (\<lambda>_.
        tx_bind (if why = EXPIRED
          then tx_for closed_ids (\<lambda>fid. emit ''penalty_engine.freeze_expired'' ''penalty_engine''
            [(''freeze_period_id'', JId fid), (''penalty_window_id'', JId i),
             (''reason'', JStr (freeze_reason_value reason))] now)
          else tx_return ()) (\<lambda>_.
        if became_active_again then emit ''penalty_window.resumed'' ''penalty_engine''
            [(''penalty_window_id'', JId i)] now
        else tx_return ())))"

definition close_freeze_periods_in_transaction ::
  "uid \<Rightarrow> freeze_reason \<Rightarrow> time \<Rightarrow> freeze_end_reason \<Rightarrow> uid option
     \<Rightarrow> ('m penalty_db_scheme, unit) op" where
  "close_freeze_periods_in_transaction i reason now why only =
     op_bind (transition (close_write i reason now why only) (close_events i reason now why))
       (\<lambda>_. op_return ())"

definition resume :: "uid \<Rightarrow> freeze_reason \<Rightarrow> time \<Rightarrow> ('m penalty_db_scheme, unit) op" where
  "resume i reason now = close_freeze_periods_in_transaction i reason now RESUMED_NORMALLY None"

section \<open>Completion detection\<close>

definition period_expired :: "uid \<Rightarrow> time \<Rightarrow> freeze_period \<Rightarrow> bool" where
  "period_expired i now f \<longleftrightarrow> fp_penalty_window_id f = i \<and> period_open f \<and>
     (case fp_expires_at f of None \<Rightarrow> False | Some x \<Rightarrow> iso_le x now)"

definition close_expired_freezes :: "uid \<Rightarrow> time \<Rightarrow> ('m penalty_db_scheme, unit) op" where
  "close_expired_freezes i now =
     op_bind (op_get (\<lambda>s. filter (period_expired i now) (freeze_periods s))) (\<lambda>expired.
     op_for expired (\<lambda>f.
       close_freeze_periods_in_transaction i (fp_reason f) now EXPIRED (Some (fp_id f))))"

definition complete_window :: "uid \<Rightarrow> time \<Rightarrow> ('m penalty_db_scheme, unit) op" where
  "complete_window i now = transition
     (tx_modify (\<lambda>s. s\<lparr>penalty_windows := update_where (\<lambda>w. pw_id w = i)
        (\<lambda>w. w\<lparr>pw_status := PW_COMPLETED, pw_closed_at := Some now,
               pw_resolution_method := Some COUNTDOWN_COMPLETE\<rparr>) (penalty_windows s)\<rparr>))
     (\<lambda>_. emit ''penalty_window.completed'' ''penalty_engine''
        [(''penalty_window_id'', JId i), (''resolution_method'', JStr ''countdown_complete'')] now)"

definition ensure_current_state :: "time \<Rightarrow> ('m penalty_db_scheme, penalty_window option) op" where
  "ensure_current_state now =
     op_bind (op_get get_active_or_frozen_penalty_window) (\<lambda>first.
     case first of None \<Rightarrow> op_return None | Some w \<Rightarrow>
     op_bind (close_expired_freezes (pw_id w) now) (\<lambda>_.
     op_bind (op_get get_active_or_frozen_penalty_window) (\<lambda>second.
     case second of None \<Rightarrow> op_return None | Some w' \<Rightarrow>
       if pw_status w' = PW_ACTIVE \<and> is_complete w' now
       then op_bind (complete_window (pw_id w') now) (\<lambda>_. op_return None)
       else op_return (Some w'))))"

definition recover_penalty_window_state :: "time \<Rightarrow> ('m penalty_db_scheme, unit) op" where
  "recover_penalty_window_state now = op_bind (ensure_current_state now) (\<lambda>_. op_return ())"

end
