(* ===== verification/Recovery_Plan.thy ===== *)
theory Recovery_Plan
  imports Penalty_Engine
begin

text \<open>
  \<open>recovery_plan/models.py\<close> and \<open>recovery_plan/repository.py\<close>: one plan per penalty window,
  whose status mirrors the window's, and the tasks the Coach proposes under a version of the plan.
  The operations \<open>*_in_transaction\<close> are the reactions to the events of the Penalty Engine; the
  public ones open their own transaction. The last section is the Penalty Engine's entry point
  that reads a completed task through this module's narrow read API.
\<close>

section \<open>Rows\<close>

datatype recovery_plan_status = RP_ACTIVE | RP_FROZEN | RP_COMPLETED

datatype recovery_task_status = RT_PROPOSED | RT_ACCEPTED | RT_COMPLETED | RT_EXPIRED | RT_WITHDRAWN

fun task_status_value :: "recovery_task_status \<Rightarrow> string" where
  "task_status_value RT_PROPOSED = ''proposed''"
| "task_status_value RT_ACCEPTED = ''accepted''"
| "task_status_value RT_COMPLETED = ''completed''"
| "task_status_value RT_EXPIRED = ''expired''"
| "task_status_value RT_WITHDRAWN = ''withdrawn''"

record recovery_plan =
  rp_id :: uid
  rp_penalty_window_id :: uid
  rp_status :: recovery_plan_status
  rp_current_version :: nat
  rp_capacity_hours :: real
  rp_created_at :: time
  rp_status_changed_at :: time

record recovery_task =
  rt_id :: uid
  rt_recovery_plan_id :: uid
  rt_plan_version :: nat
  rt_title :: string
  rt_description :: string
  rt_credit_hours :: real
  rt_status :: recovery_task_status
  rt_created_at :: time
  rt_status_changed_at :: time

record recovery_task_completion =
  rc_id :: uid
  rc_recovery_task_id :: uid
  rc_recovery_plan_id :: uid
  rc_created_at :: time
  rc_notes :: "string option"

record recovery_db = penalty_db +
  recovery_plans :: "recovery_plan list"
  recovery_tasks :: "recovery_task list"
  recovery_task_completions :: "recovery_task_completion list"

section \<open>Narrow read API\<close>

definition get_recovery_plan_for_window :: "uid \<Rightarrow> 'm recovery_db_scheme \<Rightarrow> recovery_plan option" where
  "get_recovery_plan_for_window i s = row_by rp_penalty_window_id i (recovery_plans s)"

definition get_recovery_plan :: "uid \<Rightarrow> 'm recovery_db_scheme \<Rightarrow> recovery_plan option" where
  "get_recovery_plan i s = row_by rp_id i (recovery_plans s)"

definition get_recovery_task :: "uid \<Rightarrow> 'm recovery_db_scheme \<Rightarrow> recovery_task option" where
  "get_recovery_task i s = row_by rt_id i (recovery_tasks s)"

definition get_recovery_task_completion ::
  "uid \<Rightarrow> 'm recovery_db_scheme \<Rightarrow> recovery_task_completion option" where
  "get_recovery_task_completion i s = row_by rc_id i (recovery_task_completions s)"

section \<open>Reactions to the events of a penalty window\<close>

text \<open>The insert needs an existing window (foreign key) without a plan (UNIQUE).\<close>

definition create_plan_in_transaction ::
  "uid \<Rightarrow> real \<Rightarrow> time \<Rightarrow> ('m recovery_db_scheme, recovery_plan) tx" where
  "create_plan_in_transaction window_id base_duration_hours now =
     tx_bind new_id (\<lambda>i.
     (let plan = \<lparr>rp_id = i, rp_penalty_window_id = window_id, rp_status = RP_ACTIVE,
            rp_current_version = 1, rp_capacity_hours = base_duration_hours / 2,
            rp_created_at = now, rp_status_changed_at = now\<rparr>
      in tx_bind (tx_get (\<lambda>s. window_by_id window_id s \<noteq> None
                     \<and> get_recovery_plan_for_window window_id s = None)) (\<lambda>keys_ok.
         tx_bind (tx_require keys_ok IntegrityError) (\<lambda>_.
         tx_bind (tx_modify (\<lambda>s. s\<lparr>recovery_plans := recovery_plans s @ [plan]\<rparr>)) (\<lambda>_.
         tx_return plan)))))"

definition mirror_status_in_transaction ::
  "uid \<Rightarrow> recovery_plan_status \<Rightarrow> time \<Rightarrow> ('m recovery_db_scheme, recovery_plan option) tx" where
  "mirror_status_in_transaction window_id new_status now =
     tx_bind (tx_get (get_recovery_plan_for_window window_id)) (\<lambda>row.
     case row of None \<Rightarrow> tx_return None | Some plan \<Rightarrow>
     tx_bind (tx_modify (\<lambda>s. s\<lparr>recovery_plans := update_where (\<lambda>p. rp_penalty_window_id p = window_id)
         (\<lambda>p. p\<lparr>rp_status := new_status, rp_status_changed_at := now\<rparr>) (recovery_plans s)\<rparr>)) (\<lambda>_.
     tx_return (Some (plan\<lparr>rp_status := new_status, rp_status_changed_at := now\<rparr>))))"

definition task_open :: "recovery_task \<Rightarrow> bool" where
  \<comment> \<open>\<open>status IN ('proposed', 'accepted')\<close>\<close>
  "task_open t \<longleftrightarrow> rt_status t = RT_PROPOSED \<or> rt_status t = RT_ACCEPTED"

definition regenerate_in_transaction ::
  "uid \<Rightarrow> real \<Rightarrow> time \<Rightarrow> ('m recovery_db_scheme, recovery_plan option) tx" where
  "regenerate_in_transaction window_id new_target now =
     tx_bind (tx_get (get_recovery_plan_for_window window_id)) (\<lambda>row.
     case row of None \<Rightarrow> tx_return None | Some plan \<Rightarrow>
     (let new_version = rp_current_version plan + 1; new_capacity = new_target / 2
      in tx_bind (tx_modify (\<lambda>s. s\<lparr>recovery_plans := update_where (\<lambda>p. rp_penalty_window_id p = window_id)
             (\<lambda>p. p\<lparr>rp_current_version := new_version, rp_capacity_hours := new_capacity,
                    rp_status_changed_at := now\<rparr>) (recovery_plans s)\<rparr>)) (\<lambda>_.
         tx_bind (tx_modify (\<lambda>s. s\<lparr>recovery_tasks := update_where
             (\<lambda>t. rt_recovery_plan_id t = rp_id plan \<and> rt_plan_version t = rp_current_version plan \<and> task_open t)
             (\<lambda>t. t\<lparr>rt_status := RT_EXPIRED, rt_status_changed_at := now\<rparr>) (recovery_tasks s)\<rparr>)) (\<lambda>_.
         tx_return (Some (plan\<lparr>rp_current_version := new_version, rp_capacity_hours := new_capacity,
             rp_status_changed_at := now\<rparr>))))))"

section \<open>Public wrappers\<close>

definition emit_plan_event :: "string \<Rightarrow> recovery_plan \<Rightarrow> uid \<Rightarrow> time \<Rightarrow> ('m outbox_db_scheme, unit) tx" where
  "emit_plan_event ty plan window_id now = emit ty ''recovery_plan''
     [(''recovery_plan_id'', JId (rp_id plan)), (''penalty_window_id'', JId window_id)] now"

definition create_plan :: "uid \<Rightarrow> real \<Rightarrow> time \<Rightarrow> ('m recovery_db_scheme, recovery_plan) op" where
  "create_plan window_id base_duration_hours now =
     transition (create_plan_in_transaction window_id base_duration_hours now)
       (\<lambda>plan. emit_plan_event ''recovery_plan.created'' plan window_id now)"

definition emit_if_plan ::
  "(recovery_plan \<Rightarrow> ('m outbox_db_scheme, unit) tx) \<Rightarrow> recovery_plan option \<Rightarrow> ('m outbox_db_scheme, unit) tx" where
  "emit_if_plan f result = (case result of None \<Rightarrow> tx_return () | Some plan \<Rightarrow> f plan)"

definition mirror_status_and_emit ::
  "uid \<Rightarrow> recovery_plan_status \<Rightarrow> string \<Rightarrow> time \<Rightarrow> ('m recovery_db_scheme, recovery_plan option) op" where
  "mirror_status_and_emit window_id new_status ty now =
     transition (mirror_status_in_transaction window_id new_status now)
       (emit_if_plan (\<lambda>plan. emit_plan_event ty plan window_id now))"

definition mirror_frozen :: "uid \<Rightarrow> time \<Rightarrow> ('m recovery_db_scheme, recovery_plan option) op" where
  "mirror_frozen i now = mirror_status_and_emit i RP_FROZEN ''recovery_plan.frozen'' now"

definition mirror_resumed :: "uid \<Rightarrow> time \<Rightarrow> ('m recovery_db_scheme, recovery_plan option) op" where
  "mirror_resumed i now = mirror_status_and_emit i RP_ACTIVE ''recovery_plan.resumed'' now"

definition complete_plan :: "uid \<Rightarrow> time \<Rightarrow> ('m recovery_db_scheme, recovery_plan option) op" where
  "complete_plan i now = mirror_status_and_emit i RP_COMPLETED ''recovery_plan.completed'' now"

definition emit_regenerated :: "uid \<Rightarrow> time \<Rightarrow> recovery_plan \<Rightarrow> ('m outbox_db_scheme, unit) tx" where
  "emit_regenerated window_id now plan = emit ''recovery_plan.regenerated'' ''recovery_plan''
     [(''recovery_plan_id'', JId (rp_id plan)), (''penalty_window_id'', JId window_id),
      (''new_version'', JInt (int (rp_current_version plan))),
      (''new_capacity_hours'', JNum (rp_capacity_hours plan))] now"

definition regenerate :: "uid \<Rightarrow> real \<Rightarrow> time \<Rightarrow> ('m recovery_db_scheme, recovery_plan option) op" where
  "regenerate window_id new_target now =
     transition (regenerate_in_transaction window_id new_target now)
       (emit_if_plan (emit_regenerated window_id now))"

section \<open>Tasks\<close>

definition propose_task ::
  "uid \<Rightarrow> string \<Rightarrow> string \<Rightarrow> real \<Rightarrow> time \<Rightarrow> ('m recovery_db_scheme, recovery_task) op" where
  "propose_task plan_id title description credit_hours now = transition
     (tx_bind (tx_get (get_recovery_plan plan_id)) (\<lambda>row.
      tx_bind (tx_the (RecoveryPlanNotFoundError plan_id) row) (\<lambda>plan.
      tx_bind new_id (\<lambda>i.
      (let task = \<lparr>rt_id = i, rt_recovery_plan_id = plan_id, rt_plan_version = rp_current_version plan,
             rt_title = title, rt_description = description, rt_credit_hours = credit_hours,
             rt_status = RT_PROPOSED, rt_created_at = now, rt_status_changed_at = now\<rparr>
       in tx_bind (tx_modify (\<lambda>s. s\<lparr>recovery_tasks := recovery_tasks s @ [task]\<rparr>)) (\<lambda>_.
          tx_return task))))))
     (\<lambda>task. emit ''recovery_plan.task_proposed'' ''recovery_plan''
        [(''recovery_task_id'', JId (rt_id task)), (''recovery_plan_id'', JId plan_id),
         (''credit_hours'', JNum credit_hours)] now)"

definition set_task_status :: "uid \<Rightarrow> recovery_task_status \<Rightarrow> time \<Rightarrow> 'm recovery_db_scheme \<Rightarrow> 'm recovery_db_scheme" where
  "set_task_status i st now s = s\<lparr>recovery_tasks := update_where (\<lambda>t. rt_id t = i)
     (\<lambda>t. t\<lparr>rt_status := st, rt_status_changed_at := now\<rparr>) (recovery_tasks s)\<rparr>"

definition load_task_in ::
  "uid \<Rightarrow> recovery_task_status list \<Rightarrow> recovery_task_status \<Rightarrow> ('m recovery_db_scheme, recovery_task) tx" where
  "load_task_in task_id allowed_from new_status =
     tx_bind (tx_get (get_recovery_task task_id)) (\<lambda>row.
     tx_bind (tx_the (RecoveryTaskNotFoundError task_id) row) (\<lambda>task.
     tx_bind (tx_require (rt_status task \<in> set allowed_from) (InvalidTaskTransitionError task_id
         (task_status_value (rt_status task)) (task_status_value new_status))) (\<lambda>_.
     tx_return task)))"

definition transition_task ::
  "uid \<Rightarrow> recovery_task_status \<Rightarrow> string \<Rightarrow> time \<Rightarrow> recovery_task_status list
     \<Rightarrow> ('m recovery_db_scheme, recovery_task) op" where
  "transition_task task_id new_status ty now allowed_from = transition
     (tx_bind (load_task_in task_id allowed_from new_status) (\<lambda>task.
      tx_bind (tx_modify (set_task_status task_id new_status now)) (\<lambda>_.
      tx_return (task\<lparr>rt_status := new_status, rt_status_changed_at := now\<rparr>))))
     (\<lambda>task. emit ty ''recovery_plan''
        [(''recovery_task_id'', JId task_id), (''recovery_plan_id'', JId (rt_recovery_plan_id task))] now)"

definition accept_task :: "uid \<Rightarrow> time \<Rightarrow> ('m recovery_db_scheme, unit) op" where
  "accept_task i now = op_bind
     (transition_task i RT_ACCEPTED ''recovery_plan.task_accepted'' now [RT_PROPOSED]) (\<lambda>_. op_return ())"

definition withdraw_task :: "uid \<Rightarrow> time \<Rightarrow> ('m recovery_db_scheme, unit) op" where
  "withdraw_task i now = op_bind
     (transition_task i RT_WITHDRAWN ''recovery_plan.task_withdrawn'' now [RT_PROPOSED, RT_ACCEPTED])
     (\<lambda>_. op_return ())"

text \<open>\<open>plan_row["penalty_window_id"]\<close> raises \<open>TypeError\<close> when the plan is missing.\<close>

definition complete_task_write ::
  "uid \<Rightarrow> time \<Rightarrow> string option
     \<Rightarrow> ('m recovery_db_scheme, recovery_task \<times> recovery_task_completion \<times> uid) tx" where
  "complete_task_write task_id now notes =
     tx_bind (load_task_in task_id [RT_PROPOSED, RT_ACCEPTED] RT_COMPLETED) (\<lambda>task.
     tx_bind (tx_modify (set_task_status task_id RT_COMPLETED now)) (\<lambda>_.
     tx_bind new_id (\<lambda>i.
     (let completion = \<lparr>rc_id = i, rc_recovery_task_id = task_id,
            rc_recovery_plan_id = rt_recovery_plan_id task, rc_created_at = now, rc_notes = notes\<rparr>
      in tx_bind (tx_modify (\<lambda>s. s\<lparr>recovery_task_completions :=
             recovery_task_completions s @ [completion]\<rparr>)) (\<lambda>_.
         tx_bind (tx_get (get_recovery_plan (rt_recovery_plan_id task))) (\<lambda>row.
         tx_bind (tx_the TypeError row) (\<lambda>plan.
         tx_return (task\<lparr>rt_status := RT_COMPLETED, rt_status_changed_at := now\<rparr>, completion,
           rp_penalty_window_id plan))))))))"

definition emit_task_completed ::
  "time \<Rightarrow> recovery_task \<times> recovery_task_completion \<times> uid \<Rightarrow> ('m outbox_db_scheme, unit) tx" where
  "emit_task_completed now result = (case result of (task, completion, window_id) \<Rightarrow>
     emit ''recovery_plan.task_completed'' ''recovery_plan''
       [(''recovery_task_completion_id'', JId (rc_id completion)),
        (''recovery_task_id'', JId (rc_recovery_task_id completion)),
        (''recovery_plan_id'', JId (rc_recovery_plan_id completion)),
        (''penalty_window_id'', JId window_id),
        (''credit_hours'', JNum (rt_credit_hours task))] now)"

definition complete_task ::
  "uid \<Rightarrow> time \<Rightarrow> string option \<Rightarrow> ('m recovery_db_scheme, recovery_task_completion) op" where
  "complete_task task_id now notes =
     op_bind (transition (complete_task_write task_id now notes) (emit_task_completed now))
       (\<lambda>(_, completion, _). op_return completion)"

section \<open>Crash recovery: the consistency check\<close>

fun mirrors :: "recovery_plan_status \<Rightarrow> penalty_window_status \<Rightarrow> bool" where
  \<comment> \<open>equality of the two \<open>.value\<close> texts\<close>
  "mirrors RP_ACTIVE st = (st = PW_ACTIVE)"
| "mirrors RP_FROZEN st = (st = PW_FROZEN)"
| "mirrors RP_COMPLETED st = (st = PW_COMPLETED)"

definition has_matching_plan :: "'m recovery_db_scheme \<Rightarrow> penalty_window \<Rightarrow> bool" where
  "has_matching_plan s w =
     (case get_recovery_plan_for_window (pw_id w) s of
        None \<Rightarrow> False | Some plan \<Rightarrow> mirrors (rp_status plan) (pw_status w))"

definition recover_recovery_plan_state :: "time \<Rightarrow> ('m recovery_db_scheme, uid list) op" where
  "recover_recovery_plan_state now = op_get (\<lambda>s.
     map pw_id (filter (\<lambda>w. window_open w \<and> \<not> has_matching_plan s w) (penalty_windows s)))"

section \<open>The Penalty Engine's entry point for a completed task\<close>

text \<open>
  \<open>PenaltyEngine.record_recovery_credit_from_task_completion\<close>: three reads, each in its own
  transaction, before the credit is recorded; an attribute of a missing row is \<open>AttributeError\<close>.
\<close>

definition record_recovery_credit_from_task_completion ::
  "uid \<Rightarrow> time \<Rightarrow> ('m recovery_db_scheme, recovery_credit_decision) op" where
  "record_recovery_credit_from_task_completion completion_id now =
     op_bind (op_get (get_recovery_task_completion completion_id)) (\<lambda>row.
     case row of None \<Rightarrow> op_raise ValueError | Some completion \<Rightarrow>
     op_bind (op_get (get_recovery_task (rc_recovery_task_id completion))) (\<lambda>task_row.
     op_bind (op_get (get_recovery_plan (rc_recovery_plan_id completion))) (\<lambda>plan_row.
     transition
       (tx_bind (tx_the AttributeError plan_row) (\<lambda>plan.
        tx_bind (tx_the AttributeError task_row) (\<lambda>task.
        record_recovery_credit_in_transaction completion_id (rp_penalty_window_id plan)
          (rt_credit_hours task) now)))
       (\<lambda>decision. emit_recovery_credit_event decision now))))"

end
