(* ===== verification/Goal_Management.thy ===== *)
theory Goal_Management
  imports Recovery_Plan
begin

text \<open>
  \<open>goal_management/models.py\<close> and \<open>goal_management/repository.py\<close>: goals with their append-only
  versions, evidence and evaluations, and the change proposals whose recorded content is what an
  acceptance applies (GOAL-6).
\<close>

section \<open>Rows\<close>

datatype goal_lifecycle_status = GS_ACTIVE | GS_PAUSED | GS_COMPLETED | GS_ABANDONED | GS_REPLACED
datatype goal_outcome = GO_MET | GO_PARTIALLY_MET | GO_MISSED
datatype goal_intervention_type =
  ADAPT_TARGET | INCREASE_SUPPORT | NO_CHANGE | PROPOSE_REPLACEMENT | PROPOSE_ABANDONMENT
datatype goal_proposal_status = GP_PENDING | GP_ACCEPTED | GP_DECLINED | GP_EXPIRED

fun goal_status_value :: "goal_lifecycle_status \<Rightarrow> string" where
  "goal_status_value GS_ACTIVE = ''active''"
| "goal_status_value GS_PAUSED = ''paused''"
| "goal_status_value GS_COMPLETED = ''completed''"
| "goal_status_value GS_ABANDONED = ''abandoned''"
| "goal_status_value GS_REPLACED = ''replaced''"

fun goal_outcome_value :: "goal_outcome \<Rightarrow> string" where
  "goal_outcome_value GO_MET = ''met''"
| "goal_outcome_value GO_PARTIALLY_MET = ''partially_met''"
| "goal_outcome_value GO_MISSED = ''missed''"

fun intervention_value :: "goal_intervention_type \<Rightarrow> string" where
  "intervention_value ADAPT_TARGET = ''adapt_target''"
| "intervention_value INCREASE_SUPPORT = ''increase_support''"
| "intervention_value NO_CHANGE = ''no_change''"
| "intervention_value PROPOSE_REPLACEMENT = ''propose_replacement''"
| "intervention_value PROPOSE_ABANDONMENT = ''propose_abandonment''"

fun proposal_status_value :: "goal_proposal_status \<Rightarrow> string" where
  "proposal_status_value GP_PENDING = ''pending''"
| "proposal_status_value GP_ACCEPTED = ''accepted''"
| "proposal_status_value GP_DECLINED = ''declined''"
| "proposal_status_value GP_EXPIRED = ''expired''"

record goal_version =
  gv_id :: uid
  gv_goal_group_id :: uid
  gv_version :: nat
  gv_title :: string
  gv_target_description :: string
  gv_trust_domain :: string
  gv_created_at :: time
  gv_created_via :: string
  gv_adaptation_reason :: "string option"
  gv_supersedes_id :: "uid option"

record goal =
  go_group_id :: uid
  go_current_version_id :: uid
  go_status :: goal_lifecycle_status
  go_created_at :: time
  go_status_changed_at :: time
  go_replaces_group_id :: "uid option"
  go_archived_at :: "time option"

record goal_evidence =
  ge_id :: uid
  ge_goal_group_id :: uid
  ge_goal_version_id :: uid
  ge_period_start :: time
  ge_period_end :: time
  ge_outcome :: goal_outcome
  ge_observed_progress :: string
  ge_source :: string
  ge_created_at :: time

record goal_evaluation =
  gl_id :: uid
  gl_goal_group_id :: uid
  gl_created_at :: time
  gl_triggering_evidence_ids :: "uid list"
  gl_findings :: string
  gl_proposed_intervention :: goal_intervention_type
  gl_proposed_intervention_detail :: string

record goal_change_proposal =
  gp_id :: uid
  gp_evaluation_id :: "uid option"
  gp_goal_group_id :: uid
  gp_proposed_change :: goal_intervention_type
  gp_expires_at :: time
  gp_status :: goal_proposal_status
  gp_created_at :: time
  gp_resolved_at :: "time option"

record goal_change_proposal_content =
  gc_id :: uid
  gc_proposal_id :: uid
  gc_proposed_title :: "string option"
  gc_proposed_target_description :: "string option"
  gc_proposed_replacement_goal_group_id :: "uid option"
  gc_reason :: string

record goal_db = recovery_db +
  goals :: "goal list"
  goal_versions :: "goal_version list"
  goal_evidence_rows :: "goal_evidence list"
  goal_evaluations :: "goal_evaluation list"
  goal_change_proposals :: "goal_change_proposal list"
  goal_change_proposal_contents :: "goal_change_proposal_content list"

section \<open>Reads\<close>

definition get_goal :: "uid \<Rightarrow> 'm goal_db_scheme \<Rightarrow> goal option" where
  "get_goal i s = row_by go_group_id i (goals s)"

definition get_goal_version :: "uid \<Rightarrow> 'm goal_db_scheme \<Rightarrow> goal_version option" where
  "get_goal_version i s = row_by gv_id i (goal_versions s)"

definition get_change_proposal :: "uid \<Rightarrow> 'm goal_db_scheme \<Rightarrow> goal_change_proposal option" where
  "get_change_proposal i s = row_by gp_id i (goal_change_proposals s)"

definition get_change_proposal_content ::
  "uid \<Rightarrow> 'm goal_db_scheme \<Rightarrow> goal_change_proposal_content option" where
  "get_change_proposal_content i s = row_by gc_proposal_id i (goal_change_proposal_contents s)"

section \<open>Creation\<close>

definition insert_goal :: "goal \<Rightarrow> 'm goal_db_scheme \<Rightarrow> 'm goal_db_scheme" where
  "insert_goal g s = s\<lparr>goals := goals s @ [g]\<rparr>"

definition insert_version :: "goal_version \<Rightarrow> 'm goal_db_scheme \<Rightarrow> 'm goal_db_scheme" where
  "insert_version v s = s\<lparr>goal_versions := goal_versions s @ [v]\<rparr>"

text \<open>The version's identifier is drawn first, then the goal's.\<close>

definition create_goal ::
  "string \<Rightarrow> string \<Rightarrow> string \<Rightarrow> string \<Rightarrow> time \<Rightarrow> ('m goal_db_scheme, goal) op" where
  "create_goal title target_description domain created_via now = transition
     (tx_bind new_id (\<lambda>version_id.
      tx_bind new_id (\<lambda>i.
      (let g = \<lparr>go_group_id = i, go_current_version_id = version_id, go_status = GS_ACTIVE,
             go_created_at = now, go_status_changed_at = now, go_replaces_group_id = None,
             go_archived_at = None\<rparr>;
           version = \<lparr>gv_id = version_id, gv_goal_group_id = i, gv_version = 1, gv_title = title,
             gv_target_description = target_description, gv_trust_domain = domain,
             gv_created_at = now, gv_created_via = created_via, gv_adaptation_reason = None,
             gv_supersedes_id = None\<rparr>
       in tx_bind (tx_modify (insert_goal g)) (\<lambda>_.
          tx_bind (tx_modify (insert_version version)) (\<lambda>_.
          tx_return g))))))
     (\<lambda>g. emit ''goal.created'' ''goal_management''
        [(''goal_group_id'', JId (go_group_id g)), (''goal_version_id'', JId (go_current_version_id g)),
         (''trust_domain'', JStr domain)] now)"

section \<open>Direct lifecycle transitions\<close>

definition set_goal_status ::
  "uid \<Rightarrow> goal_lifecycle_status \<Rightarrow> time \<Rightarrow> 'm goal_db_scheme \<Rightarrow> 'm goal_db_scheme" where
  "set_goal_status i st now s = s\<lparr>goals := update_where (\<lambda>g. go_group_id g = i)
     (\<lambda>g. g\<lparr>go_status := st, go_status_changed_at := now\<rparr>) (goals s)\<rparr>"

definition load_goal_in ::
  "uid \<Rightarrow> goal_lifecycle_status list \<Rightarrow> string \<Rightarrow> ('m goal_db_scheme, goal) tx" where
  "load_goal_in i allowed_from action =
     tx_bind (tx_get (get_goal i)) (\<lambda>row.
     tx_bind (tx_the (GoalNotFoundError i) row) (\<lambda>g.
     tx_bind (tx_require (go_status g \<in> set allowed_from)
       (InvalidGoalTransitionError i (goal_status_value (go_status g)) action)) (\<lambda>_.
     tx_return g)))"

definition transition_goal ::
  "uid \<Rightarrow> goal_lifecycle_status \<Rightarrow> string \<Rightarrow> goal_lifecycle_status list \<Rightarrow> string \<Rightarrow> payload \<Rightarrow> time
     \<Rightarrow> ('m goal_db_scheme, unit) op" where
  "transition_goal i new_status action allowed_from ty extra now = transition
     (tx_bind (load_goal_in i allowed_from action) (\<lambda>_. tx_modify (set_goal_status i new_status now)))
     (\<lambda>_. emit ty ''goal_management'' ((''goal_group_id'', JId i) # extra) now)"

definition pause_goal :: "uid \<Rightarrow> string \<Rightarrow> time \<Rightarrow> ('m goal_db_scheme, unit) op" where
  "pause_goal i reason now = transition_goal i GS_PAUSED ''pause'' [GS_ACTIVE] ''goal.paused''
     [(''reason'', JStr reason)] now"

definition resume_goal :: "uid \<Rightarrow> time \<Rightarrow> ('m goal_db_scheme, unit) op" where
  "resume_goal i now = transition_goal i GS_ACTIVE ''resume'' [GS_PAUSED] ''goal.resumed'' [] now"

definition complete_goal :: "uid \<Rightarrow> string \<Rightarrow> time \<Rightarrow> ('m goal_db_scheme, unit) op" where
  "complete_goal i reason now = transition_goal i GS_COMPLETED ''complete'' [GS_ACTIVE, GS_PAUSED]
     ''goal.completed'' [(''reason'', JStr reason)] now"

definition goal_terminal_statuses :: "goal_lifecycle_status list" where
  "goal_terminal_statuses = [GS_COMPLETED, GS_ABANDONED, GS_REPLACED]"

definition archive_goal :: "uid \<Rightarrow> time \<Rightarrow> ('m goal_db_scheme, unit) op" where
  "archive_goal i now = transition
     (tx_bind (load_goal_in i goal_terminal_statuses ''archive'') (\<lambda>_.
      tx_modify (\<lambda>s. s\<lparr>goals := update_where (\<lambda>g. go_group_id g = i)
        (\<lambda>g. g\<lparr>go_archived_at := Some now\<rparr>) (goals s)\<rparr>)))
     (\<lambda>_. emit ''goal.archived'' ''goal_management'' [(''goal_group_id'', JId i)] now)"

section \<open>Evidence and evaluations\<close>

definition goal_known :: "uid \<Rightarrow> 'm goal_db_scheme \<Rightarrow> bool" where
  \<comment> \<open>the foreign key to \<open>goals\<close>\<close>
  "goal_known i s \<longleftrightarrow> get_goal i s \<noteq> None"

definition record_evidence ::
  "uid \<Rightarrow> uid \<Rightarrow> time \<Rightarrow> time \<Rightarrow> goal_outcome \<Rightarrow> string \<Rightarrow> string \<Rightarrow> time
     \<Rightarrow> ('m goal_db_scheme, goal_evidence) op" where
  "record_evidence goal_id version_id start_at end_at outcome progress source now = transition
     (tx_bind new_id (\<lambda>i.
      (let row = \<lparr>ge_id = i, ge_goal_group_id = goal_id, ge_goal_version_id = version_id,
             ge_period_start = start_at, ge_period_end = end_at, ge_outcome = outcome,
             ge_observed_progress = progress, ge_source = source, ge_created_at = now\<rparr>
       in tx_bind (tx_get (\<lambda>s. goal_known goal_id s \<and> get_goal_version version_id s \<noteq> None)) (\<lambda>known.
          tx_bind (tx_require known IntegrityError) (\<lambda>_.
          tx_bind (tx_modify (\<lambda>s. s\<lparr>goal_evidence_rows := goal_evidence_rows s @ [row]\<rparr>)) (\<lambda>_.
          tx_return row))))))
     (\<lambda>row. emit ''goal_evidence.recorded'' ''goal_management''
        [(''goal_evidence_id'', JId (ge_id row)), (''goal_group_id'', JId goal_id),
         (''outcome'', JStr (goal_outcome_value outcome))] now)"

definition record_evaluation ::
  "uid \<Rightarrow> uid list \<Rightarrow> string \<Rightarrow> goal_intervention_type \<Rightarrow> string \<Rightarrow> time
     \<Rightarrow> ('m goal_db_scheme, goal_evaluation) op" where
  "record_evaluation goal_id evidence_ids findings intervention detail now =
     (if evidence_ids = [] then op_raise ValueError else transition
       (tx_bind new_id (\<lambda>i.
        (let row = \<lparr>gl_id = i, gl_goal_group_id = goal_id, gl_created_at = now,
               gl_triggering_evidence_ids = evidence_ids, gl_findings = findings,
               gl_proposed_intervention = intervention, gl_proposed_intervention_detail = detail\<rparr>
         in tx_bind (tx_get (goal_known goal_id)) (\<lambda>known.
            tx_bind (tx_require known IntegrityError) (\<lambda>_.
            tx_bind (tx_modify (\<lambda>s. s\<lparr>goal_evaluations := goal_evaluations s @ [row]\<rparr>)) (\<lambda>_.
            tx_return row))))))
       (\<lambda>row. emit ''goal_evaluation.recorded'' ''goal_management''
          [(''goal_evaluation_id'', JId (gl_id row)), (''goal_group_id'', JId goal_id),
           (''proposed_intervention'', JStr (intervention_value intervention))] now))"

section \<open>Change proposals\<close>

definition create_change_proposal ::
  "uid \<Rightarrow> goal_intervention_type \<Rightarrow> string \<Rightarrow> time \<Rightarrow> uid option \<Rightarrow> string option \<Rightarrow> string option
     \<Rightarrow> uid option \<Rightarrow> time \<Rightarrow> ('m goal_db_scheme, goal_change_proposal) op" where
  "create_change_proposal goal_id change reason expires_at evaluation_id title target replacement now =
     transition
       (tx_bind new_id (\<lambda>i.
        tx_bind new_id (\<lambda>j.
        (let proposal = \<lparr>gp_id = i, gp_evaluation_id = evaluation_id, gp_goal_group_id = goal_id,
               gp_proposed_change = change, gp_expires_at = expires_at, gp_status = GP_PENDING,
               gp_created_at = now, gp_resolved_at = None\<rparr>;
             content = \<lparr>gc_id = j, gc_proposal_id = i, gc_proposed_title = title,
               gc_proposed_target_description = target,
               gc_proposed_replacement_goal_group_id = replacement, gc_reason = reason\<rparr>
         in tx_bind (tx_get (\<lambda>s. goal_known goal_id s \<and>
                (case evaluation_id of None \<Rightarrow> True
                 | Some e \<Rightarrow> row_by gl_id e (goal_evaluations s) \<noteq> None))) (\<lambda>known.
            tx_bind (tx_require known IntegrityError) (\<lambda>_.
            tx_bind (tx_modify (\<lambda>s. s\<lparr>goal_change_proposals := goal_change_proposals s @ [proposal],
                goal_change_proposal_contents := goal_change_proposal_contents s @ [content]\<rparr>)) (\<lambda>_.
            tx_return proposal)))))))
       (\<lambda>p. emit ''goal_change_proposal.created'' ''goal_management''
          [(''goal_change_proposal_id'', JId (gp_id p)), (''goal_group_id'', JId goal_id),
           (''proposed_change'', JStr (intervention_value change))] now)"

definition load_pending_proposal :: "uid \<Rightarrow> ('m goal_db_scheme, goal_change_proposal) tx" where
  "load_pending_proposal i =
     tx_bind (tx_get (get_change_proposal i)) (\<lambda>row.
     tx_bind (tx_the (GoalChangeProposalNotFoundError i) row) (\<lambda>p.
     tx_bind (tx_require (gp_status p = GP_PENDING)
       (InvalidProposalStateError i (proposal_status_value (gp_status p)))) (\<lambda>_.
     tx_return p)))"

definition set_proposal_status ::
  "uid \<Rightarrow> goal_proposal_status \<Rightarrow> time \<Rightarrow> 'm goal_db_scheme \<Rightarrow> 'm goal_db_scheme" where
  "set_proposal_status i st now s = s\<lparr>goal_change_proposals := update_where (\<lambda>p. gp_id p = i)
     (\<lambda>p. p\<lparr>gp_status := st, gp_resolved_at := Some now\<rparr>) (goal_change_proposals s)\<rparr>"

definition or_text :: "string option \<Rightarrow> string \<Rightarrow> string" where
  \<comment> \<open>Python's \<open>x or d\<close>: both \<open>None\<close> and the empty text fall back\<close>
  "or_text x d = (case x of None \<Rightarrow> d | Some t \<Rightarrow> if t = [] then d else t)"

text \<open>
  The effects of an acceptance. The content row is read before and subscripted only here, so a
  missing one raises \<open>TypeError\<close>, like a missing version row.
\<close>

definition apply_adaptation_in_transaction ::
  "uid \<Rightarrow> goal_change_proposal_content option \<Rightarrow> time \<Rightarrow> ('m goal_db_scheme, unit) tx" where
  "apply_adaptation_in_transaction goal_id content_row now =
     tx_bind (load_goal_in goal_id [GS_ACTIVE] ''adapt'') (\<lambda>g.
     tx_bind (tx_get (get_goal_version (go_current_version_id g))) (\<lambda>version_row.
     tx_bind (tx_the TypeError version_row) (\<lambda>current.
     tx_bind (tx_the TypeError content_row) (\<lambda>content.
     tx_bind new_id (\<lambda>i.
     (let version = \<lparr>gv_id = i, gv_goal_group_id = goal_id, gv_version = gv_version current + 1,
            gv_title = or_text (gc_proposed_title content) (gv_title current),
            gv_target_description = or_text (gc_proposed_target_description content)
              (gv_target_description current),
            gv_trust_domain = gv_trust_domain current, gv_created_at = now,
            gv_created_via = ''coach_proposed_user_approved'',
            gv_adaptation_reason = Some (gc_reason content), gv_supersedes_id = Some (gv_id current)\<rparr>
      in tx_bind (tx_modify (insert_version version)) (\<lambda>_.
         tx_bind (tx_modify (\<lambda>s. s\<lparr>goals := update_where (\<lambda>g. go_group_id g = goal_id)
             (\<lambda>g. g\<lparr>go_current_version_id := i\<rparr>) (goals s)\<rparr>)) (\<lambda>_.
         emit ''goal.adapted'' ''goal_management''
           [(''goal_group_id'', JId goal_id), (''goal_version_id'', JId i),
            (''reason'', JStr (gc_reason content))] now))))))))"

definition apply_replacement_in_transaction ::
  "uid \<Rightarrow> goal_change_proposal_content option \<Rightarrow> time \<Rightarrow> ('m goal_db_scheme, unit) tx" where
  "apply_replacement_in_transaction goal_id content_row now =
     tx_bind (load_goal_in goal_id [GS_ACTIVE, GS_PAUSED] ''replace'') (\<lambda>g.
     tx_bind (tx_modify (set_goal_status goal_id GS_REPLACED now)) (\<lambda>_.
     tx_bind (tx_get (get_goal_version (go_current_version_id g))) (\<lambda>version_row.
     tx_bind new_id (\<lambda>version_id.
     tx_bind new_id (\<lambda>i.
     tx_bind (tx_modify (insert_goal \<lparr>go_group_id = i, go_current_version_id = version_id,
         go_status = GS_ACTIVE, go_created_at = now, go_status_changed_at = now,
         go_replaces_group_id = Some goal_id, go_archived_at = None\<rparr>)) (\<lambda>_.
     tx_bind (tx_the TypeError content_row) (\<lambda>content.
     tx_bind (tx_the TypeError version_row) (\<lambda>current.
     tx_bind (tx_modify (insert_version \<lparr>gv_id = version_id, gv_goal_group_id = i, gv_version = 1,
         gv_title = or_text (gc_proposed_title content) (gv_title current),
         gv_target_description = or_text (gc_proposed_target_description content)
           (gv_target_description current),
         gv_trust_domain = gv_trust_domain current, gv_created_at = now,
         gv_created_via = ''coach_proposed_user_approved'', gv_adaptation_reason = None,
         gv_supersedes_id = None\<rparr>)) (\<lambda>_.
     tx_bind (emit ''goal.replaced'' ''goal_management''
         [(''goal_group_id'', JId goal_id), (''replacement_goal_group_id'', JId i)] now) (\<lambda>_.
     emit ''goal.created'' ''goal_management''
         [(''goal_group_id'', JId i), (''goal_version_id'', JId version_id),
          (''trust_domain'', JStr (gv_trust_domain current))] now))))))))))"

definition apply_abandonment_in_transaction :: "uid \<Rightarrow> time \<Rightarrow> ('m goal_db_scheme, unit) tx" where
  "apply_abandonment_in_transaction goal_id now =
     tx_bind (load_goal_in goal_id [GS_ACTIVE, GS_PAUSED] ''abandon'') (\<lambda>_.
     tx_bind (tx_modify (set_goal_status goal_id GS_ABANDONED now)) (\<lambda>_.
     emit ''goal.abandoned'' ''goal_management'' [(''goal_group_id'', JId goal_id)] now))"

definition apply_change ::
  "goal_intervention_type \<Rightarrow> uid \<Rightarrow> goal_change_proposal_content option \<Rightarrow> time
     \<Rightarrow> ('m goal_db_scheme, unit) tx" where
  "apply_change change goal_id content_row now =
     (case change of
        ADAPT_TARGET \<Rightarrow> apply_adaptation_in_transaction goal_id content_row now
      | PROPOSE_REPLACEMENT \<Rightarrow> apply_replacement_in_transaction goal_id content_row now
      | PROPOSE_ABANDONMENT \<Rightarrow> apply_abandonment_in_transaction goal_id now
      | INCREASE_SUPPORT \<Rightarrow> tx_return ()
      | NO_CHANGE \<Rightarrow> tx_return ())"

definition emit_resolved :: "uid \<Rightarrow> string \<Rightarrow> time \<Rightarrow> uid \<Rightarrow> ('m outbox_db_scheme, unit) tx" where
  "emit_resolved proposal_id resolution now goal_id =
     emit ''goal_change_proposal.resolved'' ''goal_management''
       [(''goal_change_proposal_id'', JId proposal_id), (''goal_group_id'', JId goal_id),
        (''resolution'', JStr resolution)] now"

definition accept_proposal_write :: "uid \<Rightarrow> time \<Rightarrow> ('m goal_db_scheme, uid) tx" where
  "accept_proposal_write proposal_id now =
     tx_bind (load_pending_proposal proposal_id) (\<lambda>p.
     tx_bind (tx_get (get_change_proposal_content proposal_id)) (\<lambda>content_row.
     tx_bind (tx_modify (set_proposal_status proposal_id GP_ACCEPTED now)) (\<lambda>_.
     tx_bind (apply_change (gp_proposed_change p) (gp_goal_group_id p) content_row now) (\<lambda>_.
     tx_return (gp_goal_group_id p)))))"

definition accept_proposal :: "uid \<Rightarrow> time \<Rightarrow> ('m goal_db_scheme, unit) op" where
  "accept_proposal proposal_id now = op_bind
     (transition (accept_proposal_write proposal_id now) (emit_resolved proposal_id ''accepted'' now))
     (\<lambda>_. op_return ())"

definition resolve_proposal_without_effect ::
  "uid \<Rightarrow> goal_proposal_status \<Rightarrow> string \<Rightarrow> time \<Rightarrow> ('m goal_db_scheme, unit) op" where
  "resolve_proposal_without_effect proposal_id st resolution now = op_bind
     (transition
       (tx_bind (load_pending_proposal proposal_id) (\<lambda>p.
        tx_bind (tx_modify (set_proposal_status proposal_id st now)) (\<lambda>_.
        tx_return (gp_goal_group_id p))))
       (emit_resolved proposal_id resolution now))
     (\<lambda>_. op_return ())"

definition decline_proposal :: "uid \<Rightarrow> time \<Rightarrow> ('m goal_db_scheme, unit) op" where
  "decline_proposal i now = resolve_proposal_without_effect i GP_DECLINED ''declined'' now"

section \<open>Startup reconciliation\<close>

definition proposal_overdue :: "time \<Rightarrow> goal_change_proposal \<Rightarrow> bool" where
  \<comment> \<open>\<open>status = 'pending' AND proposal_expires_at <= ?\<close>\<close>
  "proposal_overdue now p \<longleftrightarrow> gp_status p = GP_PENDING \<and> iso_le (gp_expires_at p) now"

definition recover_goal_management_state :: "time \<Rightarrow> ('m goal_db_scheme, uid list) op" where
  "recover_goal_management_state now =
     op_bind (op_get (\<lambda>s. map gp_id (filter (proposal_overdue now) (goal_change_proposals s)))) (\<lambda>pending.
     op_bind (op_for pending (\<lambda>i. resolve_proposal_without_effect i GP_EXPIRED ''expired'' now)) (\<lambda>_.
     op_return pending))"

end
