(* ===== verification/Penalty_Facts.thy ===== *)
theory Penalty_Facts
  imports Penalty_Engine
begin

text \<open>
  The invariants of the Penalty Engine's tables, one predicate per concern: the windows
  (\<open>windows_ok\<close>: I5, I3), freezing (\<open>freezes_ok\<close>: I21, I22), the consumption ledger
  (\<open>consumption_ok\<close>: I11 and the agreement of extension hours with the decisions) and the
  credit ledger (\<open>credits_ok\<close>: I26). Every operation keeps their conjunction \<open>penalty_ok\<close>.
\<close>

section \<open>The invariant\<close>

definition window_ok :: "penalty_window \<Rightarrow> bool" where
  "window_ok w \<longleftrightarrow>
     (pw_status w = PW_ACTIVE \<longrightarrow> pw_active_period_started_at w \<noteq> None) \<and>
     (pw_status w = PW_FROZEN \<longrightarrow> pw_active_period_started_at w = None) \<and>
     (pw_status w = PW_COMPLETED \<longrightarrow> pw_closed_at w \<noteq> None) \<and>
     0 \<le> pw_extensions_hours w \<and>
     pw_base_duration_hours w + pw_extensions_hours w
       \<le> max max_target_active_hours (pw_base_duration_hours w) \<and>
     0 \<le> pw_recovery_credits_earned_hours w \<and>
     pw_recovery_credits_earned_hours w \<le> max 0 (target_active_hours w / 2)"

definition windows_ok :: "'m penalty_db_scheme \<Rightarrow> bool" where
  "windows_ok s \<longleftrightarrow> distinct (map pw_id (penalty_windows s)) \<and>
     (\<forall>w \<in> set (penalty_windows s). pw_id w < next_id s \<and> window_ok w)"

definition period_ok :: "freeze_period \<Rightarrow> bool" where
  "period_ok f \<longleftrightarrow>
     freeze_links_ok (fp_reason f) (fp_exemption_id f) (fp_authorization_decision_id f) \<and>
     (fp_ended_at f = None \<longleftrightarrow> fp_end_reason f = None)"

definition open_authorizations :: "uid \<Rightarrow> 'm penalty_db_scheme \<Rightarrow> nat" where
  "open_authorizations i s = count_where (\<lambda>f. fp_penalty_window_id f = i \<and> period_open f
     \<and> fp_reason f = PARTNERED_INTIMACY_AUTHORIZATION) (freeze_periods s)"

definition frozen_ok :: "'m penalty_db_scheme \<Rightarrow> penalty_window \<Rightarrow> bool" where
  "frozen_ok s w \<longleftrightarrow> (pw_status w = PW_ACTIVE \<longrightarrow> open_count (pw_id w) s = 0) \<and>
     (pw_status w = PW_FROZEN \<longrightarrow> 0 < open_count (pw_id w) s)"

definition freezes_ok :: "'m penalty_db_scheme \<Rightarrow> bool" where
  "freezes_ok s \<longleftrightarrow> distinct (map fp_id (freeze_periods s)) \<and>
     (\<forall>f \<in> set (freeze_periods s). fp_id f < next_id s
        \<and> fp_penalty_window_id f \<in> pw_id ` set (penalty_windows s) \<and> period_ok f) \<and>
     (\<forall>w \<in> set (penalty_windows s). frozen_ok s w) \<and>
     (\<forall>i. open_authorizations i s \<le> 1)"

definition hours_assigned :: "uid \<Rightarrow> extension_decision list \<Rightarrow> real" where
  "hours_assigned i ds =
     sum_list (map ed_assigned_hours (filter (\<lambda>d. ed_penalty_window_id d = i) ds))"

definition consumption_ok :: "'m penalty_db_scheme \<Rightarrow> bool" where
  "consumption_ok s \<longleftrightarrow> distinct (map ic_incident_id (incident_consumption s)) \<and>
     map (\<lambda>c. (ic_incident_id c, ic_penalty_window_id c)) (incident_consumption s)
       = map (\<lambda>d. (ed_incident_id d, ed_penalty_window_id d)) (extension_decisions s) \<and>
     (\<forall>c \<in> set (incident_consumption s). ic_penalty_window_id c \<in> pw_id ` set (penalty_windows s)) \<and>
     (\<forall>w \<in> set (penalty_windows s).
        pw_extensions_hours w = hours_assigned (pw_id w) (extension_decisions s))"

definition hours_credited :: "uid \<Rightarrow> ledger_row list \<Rightarrow> real" where
  "hours_credited i rs =
     sum_list (map rl_credited_hours (filter (\<lambda>r. rl_penalty_window_id r = i) rs))"

definition credits_ok :: "'m penalty_db_scheme \<Rightarrow> bool" where
  "credits_ok s \<longleftrightarrow> distinct (map rd_completion_id (recovery_credit_decisions s)) \<and>
     map (\<lambda>r. (rl_source_completion_id r, rl_penalty_window_id r, rl_credited_hours r)) (recovery_credit_ledger s)
       = map (\<lambda>d. (Some (rd_completion_id d), rd_penalty_window_id d, rd_credited_hours d))
           (filter (\<lambda>d. rd_credited_hours d > 0) (recovery_credit_decisions s)) \<and>
     (\<forall>d \<in> set (recovery_credit_decisions s). rd_penalty_window_id d \<in> pw_id ` set (penalty_windows s)) \<and>
     (\<forall>w \<in> set (penalty_windows s).
        pw_recovery_credits_earned_hours w = hours_credited (pw_id w) (recovery_credit_ledger s))"

definition penalty_ok :: "'m penalty_db_scheme \<Rightarrow> bool" where
  "penalty_ok s \<longleftrightarrow> windows_ok s \<and> freezes_ok s \<and> consumption_ok s \<and> credits_ok s"

lemmas penalty_ok_defs = penalty_ok_def windows_ok_def freezes_ok_def consumption_ok_def credits_ok_def
  frozen_ok_def open_count_def open_authorizations_def

lemma penalty_okD:
  assumes "penalty_ok s"
  shows "windows_ok s" "freezes_ok s" "consumption_ok s" "credits_ok s"
  using assms by (simp_all add: penalty_ok_def)

lemma windows_okD:
  assumes "windows_ok s"
  shows "distinct (map pw_id (penalty_windows s))"
    and "w \<in> set (penalty_windows s) \<Longrightarrow> pw_id w < next_id s"
    and "w \<in> set (penalty_windows s) \<Longrightarrow> window_ok w"
  using assms by (auto simp: windows_ok_def)

lemma freezes_okD:
  assumes "freezes_ok s"
  shows "distinct (map fp_id (freeze_periods s))"
    and "f \<in> set (freeze_periods s) \<Longrightarrow> fp_id f < next_id s"
    and "f \<in> set (freeze_periods s) \<Longrightarrow> fp_penalty_window_id f \<in> pw_id ` set (penalty_windows s)"
    and "f \<in> set (freeze_periods s) \<Longrightarrow> period_ok f"
    and "w \<in> set (penalty_windows s) \<Longrightarrow> frozen_ok s w"
    and "open_authorizations i s \<le> 1"
  using assms by (auto simp: freezes_ok_def)

lemma penalty_ok_transfer:
  fixes s s' :: "'m penalty_db_scheme"
  assumes "penalty_ok s" and "next_id s \<le> next_id s'"
    and "penalty_windows s' = penalty_windows s" and "freeze_periods s' = freeze_periods s"
    and "incident_consumption s' = incident_consumption s"
    and "extension_decisions s' = extension_decisions s"
    and "recovery_credit_decisions s' = recovery_credit_decisions s"
    and "recovery_credit_ledger s' = recovery_credit_ledger s"
  shows "penalty_ok s'"
proof -
  have "windows_ok s'" using penalty_okD(1) [OF assms(1)] assms(2,3) by (fastforce simp: windows_ok_def)
  moreover have "freezes_ok s'" using penalty_okD(2) [OF assms(1)] assms(2-4)
    unfolding freezes_ok_def frozen_ok_def open_count_def open_authorizations_def by fastforce
  moreover have "consumption_ok s'" using penalty_okD(3) [OF assms(1)] assms(3,5,6)
    by (simp add: consumption_ok_def)
  moreover have "credits_ok s'" using penalty_okD(4) [OF assms(1)] assms(3,7,8)
    by (simp add: credits_ok_def)
  ultimately show ?thesis by (simp add: penalty_ok_def)
qed

lemma emitted_penalty_sel [simp]:
  fixes s :: "'m penalty_db_scheme"
  shows "penalty_windows (emitted ty src p now s) = penalty_windows s"
    and "freeze_periods (emitted ty src p now s) = freeze_periods s"
    and "incident_consumption (emitted ty src p now s) = incident_consumption s"
    and "extension_decisions (emitted ty src p now s) = extension_decisions s"
    and "recovery_credit_decisions (emitted ty src p now s) = recovery_credit_decisions s"
    and "recovery_credit_ledger (emitted ty src p now s) = recovery_credit_ledger s"
  by (simp_all add: emitted_def insert_event_def)

lemma penalty_ok_new_id: "penalty_ok s \<Longrightarrow> penalty_ok (s\<lparr>next_id := Suc (next_id s)\<rparr>)"
  by (rule penalty_ok_transfer, assumption) simp_all

lemma penalty_ok_emitted: "penalty_ok s \<Longrightarrow> penalty_ok (emitted ty src p now s)"
  by (rule penalty_ok_transfer, assumption) simp_all

lemma keeps_penalty_new_id [keeps_intros]: "keeps penalty_ok new_id"
  by (simp add: keeps_def new_id_def penalty_ok_new_id)

lemma keeps_penalty_emit [keeps_intros]: "keeps penalty_ok (emit ty src p now)"
  by (simp add: keeps_def emit_emitted penalty_ok_emitted)

section \<open>Updating one window\<close>

lemma window_by_idD:
  "window_by_id i s = Some w \<Longrightarrow> w \<in> set (penalty_windows s) \<and> pw_id w = i"
  unfolding window_by_id_def by (rule row_by_SomeD)

lemma window_by_id_eq:
  "windows_ok s \<Longrightarrow> w \<in> set (penalty_windows s) \<Longrightarrow> window_by_id (pw_id w) s = Some w"
  unfolding window_by_id_def windows_ok_def by (blast intro: row_by_unique)

lemma ids_update_window:
  "(\<And>w. pw_id (f w) = pw_id w) \<Longrightarrow>
   pw_id ` set (update_where c f ws) = pw_id ` set ws"
  by (metis (no_types, lifting) list.set_map map_update_where)

text \<open>
  The windows after an update of the one with id \<open>i\<close>, when only the freeze periods of that
  window change: nothing but that window and the new periods has to be looked at.
\<close>

definition open_in :: "uid \<Rightarrow> freeze_period list \<Rightarrow> nat" where
  "open_in i fs = count_where (\<lambda>f. fp_penalty_window_id f = i \<and> period_open f) fs"

definition authorizations_in :: "uid \<Rightarrow> freeze_period list \<Rightarrow> nat" where
  "authorizations_in i fs = count_where (\<lambda>f. fp_penalty_window_id f = i \<and> period_open f
     \<and> fp_reason f = PARTNERED_INTIMACY_AUTHORIZATION) fs"

lemma open_count_in: "open_count i s = open_in i (freeze_periods s)"
  by (simp add: open_count_def open_in_def)

lemma open_authorizations_in: "open_authorizations i s = authorizations_in i (freeze_periods s)"
  by (simp add: open_authorizations_def authorizations_in_def)

definition status_matches :: "penalty_window_status \<Rightarrow> nat \<Rightarrow> bool" where
  "status_matches st n \<longleftrightarrow> (st = PW_ACTIVE \<longrightarrow> n = 0) \<and> (st = PW_FROZEN \<longrightarrow> 0 < n)"

lemma frozen_ok_alt: "frozen_ok s w = status_matches (pw_status w) (open_in (pw_id w) (freeze_periods s))"
  by (simp add: frozen_ok_def status_matches_def open_count_in)

definition periods_ok :: "nat \<Rightarrow> uid set \<Rightarrow> freeze_period list \<Rightarrow> bool" where
  "periods_ok n ids fs \<longleftrightarrow> distinct (map fp_id fs) \<and>
     (\<forall>f \<in> set fs. fp_id f < n \<and> fp_penalty_window_id f \<in> ids \<and> period_ok f) \<and>
     (\<forall>i. authorizations_in i fs \<le> 1)"

lemma freezes_ok_alt:
  "freezes_ok s \<longleftrightarrow> periods_ok (next_id s) (pw_id ` set (penalty_windows s)) (freeze_periods s)
     \<and> (\<forall>w \<in> set (penalty_windows s). frozen_ok s w)"
  by (auto simp: freezes_ok_def periods_ok_def open_authorizations_in)

lemma penalty_ok_update_window:
  assumes ok: "penalty_ok s" and f: "\<And>w. pw_id (f w) = pw_id w"
    and w: "window_by_id i s = Some w" and wok: "window_ok (f w)"
    and st: "status_matches (pw_status (f w)) (open_in i fs)"
    and ext: "pw_extensions_hours (f w) = pw_extensions_hours w"
    and earned: "pw_recovery_credits_earned_hours (f w) = pw_recovery_credits_earned_hours w"
    and fs: "periods_ok n (pw_id ` set (penalty_windows s)) fs"
    and others: "\<And>j. j \<noteq> i \<Longrightarrow> open_in j fs = open_in j (freeze_periods s)"
    and n: "next_id s \<le> n"
  shows "penalty_ok (s\<lparr>next_id := n, freeze_periods := fs,
    penalty_windows := update_where (\<lambda>w. pw_id w = i) f (penalty_windows s)\<rparr>)"
proof -
  let ?ws = "update_where (\<lambda>w. pw_id w = i) f (penalty_windows s)"
  let ?s = "s\<lparr>next_id := n, freeze_periods := fs, penalty_windows := ?ws\<rparr>"
  note o = penalty_okD [OF ok]
  have only: "x = w" if "x \<in> set (penalty_windows s)" "pw_id x = i" for x
    using window_by_id_eq [OF o(1) that(1)] that(2) w by simp
  have win: "w \<in> set (penalty_windows s)" and wid: "pw_id w = i" using w window_by_idD by blast+
  have ids: "map pw_id ?ws = map pw_id (penalty_windows s)" by (rule map_update_where) (rule f)
  have ids': "pw_id ` set ?ws = pw_id ` set (penalty_windows s)" by (rule ids_update_window) (rule f)
  have all: "\<forall>x \<in> set ?ws. P x"
    if "\<forall>x \<in> set (penalty_windows s). pw_id x \<noteq> i \<longrightarrow> P x" "P (f w)" for P
    using that only by (auto elim!: in_update_whereE)
  have "windows_ok ?s"
    using o(1) wok win f n all [of "\<lambda>x. pw_id x < n \<and> window_ok x"]
    unfolding windows_ok_def by (fastforce simp: ids)
  moreover have "frozen_ok ?s (f w)" using st by (simp add: frozen_ok_alt f wid)
  then have "\<forall>x \<in> set ?ws. frozen_ok ?s x"
    using o(2) others by (intro all) (auto simp: freezes_ok_def frozen_ok_alt)
  then have "freezes_ok ?s" using fs unfolding freezes_ok_alt by (simp add: ids')
  moreover have "consumption_ok ?s"
    using o(3) win ext f all [of "\<lambda>x. pw_extensions_hours x = hours_assigned (pw_id x) (extension_decisions s)"]
    unfolding consumption_ok_def by (simp add: ids')
  moreover have "credits_ok ?s"
    using o(4) win earned f all [of "\<lambda>x. pw_recovery_credits_earned_hours x = hours_credited (pw_id x) (recovery_credit_ledger s)"]
    unfolding credits_ok_def by (simp add: ids')
  ultimately show ?thesis by (simp add: penalty_ok_def)
qed

lemma penalty_ok_update_window_only:
  fixes s :: "'m penalty_db_scheme"
  assumes ok: "penalty_ok s" and f: "\<And>w. pw_id (f w) = pw_id w"
    and w: "\<And>w. window_by_id i s = Some w \<Longrightarrow> window_ok (f w)
        \<and> status_matches (pw_status (f w)) (open_in i (freeze_periods s))
        \<and> pw_extensions_hours (f w) = pw_extensions_hours w
        \<and> pw_recovery_credits_earned_hours (f w) = pw_recovery_credits_earned_hours w"
  shows "penalty_ok (s\<lparr>penalty_windows := update_where (\<lambda>w. pw_id w = i) f (penalty_windows s)\<rparr>)"
proof (cases "window_by_id i s")
  case None
  then have "update_where (\<lambda>w. pw_id w = i) f (penalty_windows s) = penalty_windows s"
    by (intro update_where_id) (auto simp: window_by_id_def row_by_None)
  then show ?thesis using ok by simp
next
  case (Some w)
  have "penalty_ok (s\<lparr>next_id := next_id s, freeze_periods := freeze_periods s,
      penalty_windows := update_where (\<lambda>w. pw_id w = i) f (penalty_windows s)\<rparr>)"
    using assms(3) [OF Some] penalty_okD(2) [OF ok] unfolding freezes_ok_alt
    by (intro penalty_ok_update_window [OF ok f Some]) auto
  then show ?thesis by simp
qed

lemma status_matchesD:
  assumes "penalty_ok s" and "window_by_id i s = Some w"
  shows "status_matches (pw_status w) (open_in i (freeze_periods s))" and "window_ok w"
  using freezes_okD(5) [OF penalty_okD(2) [OF assms(1)]] windows_okD(3) [OF penalty_okD(1) [OF assms(1)]]
    window_by_idD [OF assms(2)] by (auto simp: frozen_ok_alt)

section \<open>Completion\<close>

lemma keeps_penalty_complete: "op_keeps penalty_ok (complete_window i now)"
  unfolding complete_window_def
  by (intro op_keeps_transition keeps_penalty_emit keeps_modify penalty_ok_update_window_only)
    (auto dest!: status_matchesD(2) simp: status_matches_def window_ok_def target_active_hours_def)

section \<open>Freezing\<close>

lemma open_in_append: "open_in i (fs @ [f]) = open_in i fs
    + (if fp_penalty_window_id f = i \<and> period_open f then 1 else 0)"
  by (simp add: open_in_def)

lemma open_in_pos:
  assumes "f \<in> set fs" and "fp_penalty_window_id f = i" and "period_open f"
  shows "0 < open_in i fs"
proof -
  have "open_in i fs \<noteq> 0" unfolding open_in_def count_where_0 using assms by blast
  then show ?thesis by simp
qed

lemma window_ok_frozen:
  "window_ok w \<Longrightarrow> window_ok (w\<lparr>pw_status := PW_FROZEN, pw_accumulated_active_hours := a,
     pw_active_period_started_at := None\<rparr>)"
  by (simp add: window_ok_def target_active_hours_def)

lemma keeps_penalty_freeze_write: "keeps penalty_ok (freeze_write i r now ex au xp)"
proof (rule keepsI)
  fix s :: "'a penalty_db_scheme" and a s'
  assume ok: "penalty_ok s" and run: "freeze_write i r now ex au xp s = Inr (a, s')"
  let ?fp = "\<lparr>fp_id = next_id s, fp_penalty_window_id = i, fp_started_at = now, fp_ended_at = None,
            fp_reason = r, fp_exemption_id = ex, fp_authorization_decision_id = au,
            fp_expires_at = xp, fp_end_reason = None\<rparr>"
  obtain w where w: "window_by_id i s = Some w" and idx: "freeze_index_ok i r s"
    and links: "freeze_links_ok r ex au"
    and s': "s' = (if pw_status w = PW_ACTIVE
       then set_frozen i (active_hours_elapsed w now) (s\<lparr>next_id := Suc (next_id s), freeze_periods := freeze_periods s @ [?fp]\<rparr>)
       else s\<lparr>next_id := Suc (next_id s), freeze_periods := freeze_periods s @ [?fp]\<rparr>)"
    using run by (auto simp: freeze_write_def Let_def tx_success new_id_def window_by_id_def
        freeze_index_ok_def split: if_splits)
  note m = status_matchesD [OF ok w] and win = window_by_idD [OF w]
  note fo = penalty_okD(2) [OF ok, unfolded freezes_ok_alt]
  have "authorizations_in i (freeze_periods s @ [?fp]) \<le> 1"
    using idx fo by (auto simp: authorizations_in_def freeze_index_ok_def period_open_def periods_ok_def)
  then have "authorizations_in j (freeze_periods s @ [?fp]) \<le> 1" for j
    using fo by (cases "j = i") (auto simp: authorizations_in_def periods_ok_def)
  moreover have "next_id s \<notin> fp_id ` set (freeze_periods s)"
    using fo by (auto simp: periods_ok_def)
  ultimately have fs: "periods_ok (Suc (next_id s)) (pw_id ` set (penalty_windows s)) (freeze_periods s @ [?fp])"
    using fo links win by (auto simp: periods_ok_def period_ok_def less_Suc_eq)
  have others: "open_in j (freeze_periods s @ [?fp]) = open_in j (freeze_periods s)" if "j \<noteq> i" for j
    using that by (simp add: open_in_append)
  have grown: "0 < open_in i (freeze_periods s @ [?fp])"
    by (simp add: open_in_append period_open_def)
  show "penalty_ok s'"
  proof (cases "pw_status w = PW_ACTIVE")
    case True
    show ?thesis using s' True unfolding set_frozen_def
      by (simp, intro penalty_ok_update_window [OF ok _ w])
        (use m fs others grown in \<open>auto simp: window_ok_frozen status_matches_def\<close>)
  next
    case False
    have "penalty_ok (s\<lparr>next_id := Suc (next_id s), freeze_periods := freeze_periods s @ [?fp],
        penalty_windows := update_where (\<lambda>w. pw_id w = i) id (penalty_windows s)\<rparr>)"
      by (rule penalty_ok_update_window [OF ok _ w])
        (use m fs others grown False in \<open>auto simp: status_matches_def\<close>)
    then show ?thesis using s' False by simp
  qed
qed

lemma op_keeps_penalty_freeze: "op_keeps penalty_ok (freeze_in_transaction i r now ex au xp em)"
  unfolding freeze_in_transaction_def freeze_events_def
  by (intro op_keeps_bind op_keeps_transition keeps_penalty_freeze_write)
    (auto intro!: keeps_intros op_keeps_return split: prod.splits)

section \<open>Closing freeze periods\<close>

definition ended :: "time \<Rightarrow> freeze_end_reason \<Rightarrow> freeze_period \<Rightarrow> freeze_period" where
  "ended now why f = f\<lparr>fp_ended_at := Some now, fp_end_reason := Some why\<rparr>"

definition end_periods ::
  "time \<Rightarrow> freeze_end_reason \<Rightarrow> uid list \<Rightarrow> freeze_period list \<Rightarrow> freeze_period list" where
  "end_periods now why ids fs = update_where (\<lambda>f. fp_id f \<in> set ids) (ended now why) fs"

lemma ended_sel [simp]:
  "fp_id (ended now why f) = fp_id f"
  "fp_penalty_window_id (ended now why f) = fp_penalty_window_id f"
  "fp_reason (ended now why f) = fp_reason f"
  "\<not> period_open (ended now why f)"
  "period_ok f \<Longrightarrow> period_ok (ended now why f)"
  by (simp_all add: ended_def period_open_def period_ok_def)

lemma tx_for_end_period:
  "tx_for ids (\<lambda>fid. tx_modify (end_period now why fid)) s
     = Inr ((), s\<lparr>freeze_periods := end_periods now why ids (freeze_periods s)\<rparr>)"
proof (induction ids arbitrary: s)
  case Nil
  show ?case by (simp add: tx_simps end_periods_def update_where_id)
next
  case (Cons i ids)
  have "tx_for (i # ids) (\<lambda>fid. tx_modify (end_period now why fid)) s
      = tx_for ids (\<lambda>fid. tx_modify (end_period now why fid)) (end_period now why i s)"
    by (simp add: tx_bind_apply tx_modify_def)
  also have "\<dots> = Inr ((), (end_period now why i s)\<lparr>freeze_periods :=
      end_periods now why ids (freeze_periods (end_period now why i s))\<rparr>)" by (rule Cons.IH)
  also have "(end_period now why i s)\<lparr>freeze_periods :=
      end_periods now why ids (freeze_periods (end_period now why i s))\<rparr>
      = s\<lparr>freeze_periods := end_periods now why (i # ids) (freeze_periods s)\<rparr>"
    by (auto simp: end_period_def end_periods_def update_where_def ended_def)
  finally show ?case .
qed

lemma close_write_eq:
  "close_write i r now why only s =
    (let rows = periods_to_close i r only s;
         s1 = s\<lparr>freeze_periods := end_periods now why (map fp_id rows) (freeze_periods s)\<rparr>
     in if rows = [] then Inr (([], False), s)
        else if open_count i s1 = 0 then Inr ((map fp_id rows, True), set_active i now s1)
        else Inr ((map fp_id rows, False), s1))"
  by (simp add: close_write_def tx_bind_apply tx_simps tx_for_end_period Let_def)

text \<open>
  \<open>only\<close> names a period of the window it is given: so \<open>close_expired_freezes\<close> calls it.
\<close>

definition period_of :: "uid \<Rightarrow> uid option \<Rightarrow> 'm penalty_db_scheme \<Rightarrow> bool" where
  "period_of i only s \<longleftrightarrow> (case only of None \<Rightarrow> True
     | Some fid \<Rightarrow> \<forall>f \<in> set (freeze_periods s). fp_id f = fid \<longrightarrow> fp_penalty_window_id f = i)"

lemma periods_to_close_mem:
  assumes "period_of i only s" and "f \<in> set (periods_to_close i r only s)"
  shows "f \<in> set (freeze_periods s)" and "fp_penalty_window_id f = i" and "period_open f"
  using assms by (auto simp: periods_to_close_def period_of_def split: option.splits)

lemma count_where_update_le:
  assumes "\<And>r. c r \<Longrightarrow> P (f r) \<Longrightarrow> P r"
  shows "count_where P (update_where c f rs) \<le> count_where P rs"
  using assms by (induction rs) auto

lemma count_where_update_same:
  assumes "\<And>r. r \<in> set rs \<Longrightarrow> c r \<Longrightarrow> P (f r) = P r"
  shows "count_where P (update_where c f rs) = count_where P rs"
  using assms by (induction rs) auto

lemma periods_ok_end:
  assumes "periods_ok n ids fs"
  shows "periods_ok n ids (end_periods now why is fs)"
proof -
  have "map fp_id (end_periods now why is fs) = map fp_id fs"
    unfolding end_periods_def by (rule map_update_where) simp
  moreover have "authorizations_in i (end_periods now why is fs) \<le> authorizations_in i fs" for i
    unfolding authorizations_in_def end_periods_def by (rule count_where_update_le) simp
  ultimately show ?thesis using assms
    unfolding periods_ok_def end_periods_def
    by (auto elim!: in_update_whereE intro: order_trans)
qed

lemma open_in_end_other:
  assumes "\<And>f. f \<in> set fs \<Longrightarrow> fp_id f \<in> set is \<Longrightarrow> fp_penalty_window_id f = i" and "j \<noteq> i"
  shows "open_in j (end_periods now why is fs) = open_in j fs"
  unfolding open_in_def end_periods_def using assms by (intro count_where_update_same) auto

lemma keeps_penalty_close_write:
  fixes s :: "'m penalty_db_scheme"
  assumes ok: "penalty_ok s" and own: "period_of i only s"
    and run: "close_write i r now why only s = Inr (a, s')"
  shows "penalty_ok s'"
proof (cases "periods_to_close i r only s = []")
  case True
  then show ?thesis using run ok by (simp add: close_write_eq)
next
  case False
  let ?ids = "map fp_id (periods_to_close i r only s)"
  let ?fs = "end_periods now why ?ids (freeze_periods s)"
  let ?s1 = "s\<lparr>freeze_periods := ?fs\<rparr>"
  note fo = penalty_okD(2) [OF ok, unfolded freezes_ok_alt]
  obtain f where f: "f \<in> set (periods_to_close i r only s)" using False by (cases "periods_to_close i r only s") auto
  note fm = periods_to_close_mem [OF own f]
  have "i \<in> pw_id ` set (penalty_windows s)" using fo fm by (auto simp: periods_ok_def)
  then obtain w where w: "window_by_id i s = Some w"
    using window_by_id_eq [OF penalty_okD(1) [OF ok]] by auto
  have "0 < open_in i (freeze_periods s)"
    using fm by (intro open_in_pos)
  then have notact: "pw_status w \<noteq> PW_ACTIVE" using status_matchesD(1) [OF ok w] by (auto simp: status_matches_def)
  have dist: "distinct (map fp_id (freeze_periods s))" using fo by (simp add: periods_ok_def)
  have "fp_penalty_window_id g = i" if g: "g \<in> set (freeze_periods s)" and gi: "fp_id g \<in> set ?ids" for g
  proof -
    obtain h where h: "h \<in> set (periods_to_close i r only s)" "fp_id h = fp_id g" using gi by auto
    note hm = periods_to_close_mem [OF own h(1)]
    have "h = g" by (rule distinct_key_eq [OF dist hm(1) g h(2)])
    with hm show ?thesis by simp
  qed
  then have others: "open_in j ?fs = open_in j (freeze_periods s)" if "j \<noteq> i" for j
    using that by (intro open_in_end_other) auto
  have fs: "periods_ok (next_id s) (pw_id ` set (penalty_windows s)) ?fs"
    using fo by (intro periods_ok_end) simp
  note upd = penalty_ok_update_window [OF ok _ w _ _ _ _ fs others order_refl]
  show ?thesis
  proof (cases "open_count i ?s1 = 0")
    case True
    have "penalty_ok (s\<lparr>next_id := next_id s, freeze_periods := ?fs, penalty_windows :=
        update_where (\<lambda>w. pw_id w = i) (\<lambda>w. w\<lparr>pw_status := PW_ACTIVE, pw_active_period_started_at := Some now\<rparr>)
          (penalty_windows s)\<rparr>)"
      by (rule upd) (use status_matchesD(2) [OF ok w] True in
        \<open>auto simp: window_ok_def target_active_hours_def status_matches_def open_count_in\<close>)
    then show ?thesis using run True False by (simp add: close_write_eq Let_def set_active_def)
  next
    case False': False
    have "penalty_ok (s\<lparr>next_id := next_id s, freeze_periods := ?fs, penalty_windows :=
        update_where (\<lambda>w. pw_id w = i) id (penalty_windows s)\<rparr>)"
      by (rule upd) (use status_matchesD(2) [OF ok w] False' notact in
        \<open>auto simp: status_matches_def open_count_in\<close>)
    then show ?thesis using run False' False by (simp add: close_write_eq Let_def)
  qed
qed

definition periods_of :: "uid \<Rightarrow> uid set \<Rightarrow> 'm penalty_db_scheme \<Rightarrow> bool" where
  "periods_of i fids s \<longleftrightarrow> penalty_ok s \<and>
     (\<forall>f \<in> set (freeze_periods s). fp_id f \<in> fids \<longrightarrow> fp_penalty_window_id f = i)"

lemma keeps_periods_of_emit: "keeps (periods_of i fids) (emit ty src p now)"
  by (simp add: keeps_def emit_emitted periods_of_def penalty_ok_emitted)

lemma close_write_periods:
  "close_write i r now why only s = Inr (a, s') \<Longrightarrow>
   \<exists>ids. freeze_periods s' = end_periods now why ids (freeze_periods s)"
proof (cases "periods_to_close i r only s = []")
  case True
  moreover assume "close_write i r now why only s = Inr (a, s')"
  ultimately have "freeze_periods s' = end_periods now why [] (freeze_periods s)"
    by (simp add: close_write_eq end_periods_def update_where_id)
  then show ?thesis by blast
next
  case False
  moreover assume "close_write i r now why only s = Inr (a, s')"
  ultimately have "freeze_periods s'
      = end_periods now why (map fp_id (periods_to_close i r only s)) (freeze_periods s)"
    by (auto simp: close_write_eq Let_def set_active_def split: if_splits)
  then show ?thesis by blast
qed

lemma keeps_periods_of_close:
  assumes "\<And>fid. only = Some fid \<Longrightarrow> fid \<in> fids"
  shows "keeps (periods_of i fids) (close_write i r now why only)"
proof (rule keepsI)
  fix s :: "'a penalty_db_scheme" and a s'
  assume I: "periods_of i fids s" and run: "close_write i r now why only s = Inr (a, s')"
  have "period_of i only s" using I assms by (auto simp: period_of_def periods_of_def split: option.splits)
  then have "penalty_ok s'" using I run by (auto simp: periods_of_def intro: keeps_penalty_close_write)
  moreover obtain ids where "freeze_periods s' = end_periods now why ids (freeze_periods s)"
    using close_write_periods [OF run] by blast
  ultimately show "periods_of i fids s'" using I
    by (auto simp: periods_of_def end_periods_def elim!: in_update_whereE)
qed

lemma op_keeps_periods_of_close:
  assumes "\<And>fid. only = Some fid \<Longrightarrow> fid \<in> fids"
  shows "op_keeps (periods_of i fids) (close_freeze_periods_in_transaction i r now why only)"
  unfolding close_freeze_periods_in_transaction_def close_events_def
  by (intro op_keeps_bind op_keeps_transition keeps_periods_of_close assms op_keeps_return)
    (auto intro!: keeps_bind keeps_for keeps_if keeps_return keeps_periods_of_emit split: prod.splits)

lemma op_keeps_penalty_resume: "op_keeps penalty_ok (resume i r now)"
proof -
  have "periods_of i {} = (penalty_ok :: 'a penalty_db_scheme \<Rightarrow> bool)"
    by (rule ext) (simp add: periods_of_def)
  then show ?thesis unfolding resume_def
    using op_keeps_periods_of_close [where only = None and fids = "{}" and i = i] by (metis option.distinct(1))
qed

lemma op_keeps_penalty_close_expired: "op_keeps penalty_ok (close_expired_freezes i now)"
proof (rule op_keepsI)
  fix s :: "'a penalty_db_scheme" assume ok: "penalty_ok s"
  let ?ex = "filter (period_expired i now) (freeze_periods s)"
  have "distinct (map fp_id (freeze_periods s))"
    using penalty_okD(2) [OF ok] by (simp add: freezes_ok_def)
  then have start: "periods_of i (fp_id ` set ?ex) s"
    using ok distinct_key_eq [of fp_id "freeze_periods s"]
    by (auto simp: periods_of_def period_expired_def)
  have "op_keeps (periods_of i (fp_id ` set ?ex))
     (op_for ?ex (\<lambda>f. close_freeze_periods_in_transaction i (fp_reason f) now EXPIRED (Some (fp_id f))))"
    by (intro op_keeps_for op_keeps_periods_of_close) auto
  with start have "periods_of i (fp_id ` set ?ex)
     (snd (op_for ?ex (\<lambda>f. close_freeze_periods_in_transaction i (fp_reason f) now EXPIRED (Some (fp_id f))) s))"
    by (rule op_keepsD [rotated])
  then show "penalty_ok (snd (close_expired_freezes i now s))"
    by (simp add: close_expired_freezes_def op_bind_def op_get_def periods_of_def)
qed

lemma op_keeps_penalty_ensure: "op_keeps penalty_ok (ensure_current_state now)"
  unfolding ensure_current_state_def
  by (intro op_keeps_bind op_keeps_get)
    (auto intro!: op_keeps_bind op_keeps_get op_keeps_return op_keeps_if op_keeps_penalty_close_expired
      keeps_penalty_complete split: option.splits)

lemma op_keeps_penalty_recover: "op_keeps penalty_ok (recover_penalty_window_state now)"
  unfolding recover_penalty_window_state_def
  by (intro op_keeps_bind op_keeps_penalty_ensure op_keeps_return)

section \<open>Starting a window\<close>

lemma consumption_windows:
  assumes "consumption_ok s" and "d \<in> set (extension_decisions s)"
  shows "ed_penalty_window_id d \<in> pw_id ` set (penalty_windows s)"
proof -
  have "(ed_incident_id d, ed_penalty_window_id d)
      \<in> set (map (\<lambda>d. (ed_incident_id d, ed_penalty_window_id d)) (extension_decisions s))"
    using assms(2) by simp
  then have "(ed_incident_id d, ed_penalty_window_id d)
      \<in> set (map (\<lambda>c. (ic_incident_id c, ic_penalty_window_id c)) (incident_consumption s))"
    using assms(1) by (simp add: consumption_ok_def)
  then show ?thesis using assms(1) by (auto simp: consumption_ok_def)
qed

lemma ledger_windows:
  assumes "credits_ok s" and "r \<in> set (recovery_credit_ledger s)"
  shows "rl_penalty_window_id r \<in> pw_id ` set (penalty_windows s)" and "0 < rl_credited_hours r"
proof -
  have "(rl_source_completion_id r, rl_penalty_window_id r, rl_credited_hours r)
      \<in> set (map (\<lambda>r. (rl_source_completion_id r, rl_penalty_window_id r, rl_credited_hours r)) (recovery_credit_ledger s))"
    using assms(2) by simp
  then have "(rl_source_completion_id r, rl_penalty_window_id r, rl_credited_hours r)
      \<in> set (map (\<lambda>d. (Some (rd_completion_id d), rd_penalty_window_id d, rd_credited_hours d))
           (filter (\<lambda>d. rd_credited_hours d > 0) (recovery_credit_decisions s)))"
    using assms(1) unfolding credits_ok_def by argo
  then show "rl_penalty_window_id r \<in> pw_id ` set (penalty_windows s)" and "0 < rl_credited_hours r"
    using assms(1) by (auto simp: credits_ok_def)
qed

lemma window_ids_less:
  "penalty_ok s \<Longrightarrow> i \<in> pw_id ` set (penalty_windows s) \<Longrightarrow> i < next_id s"
  using penalty_okD(1) windows_okD(2) by blast

lemma unreferenced_window:
  assumes ok: "penalty_ok s"
  shows "open_in (next_id s) (freeze_periods s) = 0"
    and "hours_assigned (next_id s) (extension_decisions s) = 0"
    and "hours_credited (next_id s) (recovery_credit_ledger s) = 0"
proof -
  note lt = window_ids_less [OF ok] and o = penalty_okD [OF ok]
  show "open_in (next_id s) (freeze_periods s) = 0"
    using freezes_okD(3) [OF o(2)] lt by (force simp: open_in_def count_where_0)
  have "filter (\<lambda>d. ed_penalty_window_id d = next_id s) (extension_decisions s) = []"
    using consumption_windows [OF o(3)] lt by (force simp: filter_empty_conv)
  then show "hours_assigned (next_id s) (extension_decisions s) = 0" by (simp add: hours_assigned_def)
  have "filter (\<lambda>d. rl_penalty_window_id d = next_id s) (recovery_credit_ledger s) = []"
    using ledger_windows(1) [OF o(4)] lt by (force simp: filter_empty_conv)
  then show "hours_credited (next_id s) (recovery_credit_ledger s) = 0" by (simp add: hours_credited_def)
qed

lemma penalty_ok_new_window:
  assumes ok: "penalty_ok s"
  shows "penalty_ok (s\<lparr>next_id := Suc (next_id s),
    penalty_windows := penalty_windows s @ [new_window (next_id s) now base]\<rparr>)" (is "penalty_ok ?s")
proof -
  note o = penalty_okD [OF ok] and u = unreferenced_window [OF ok]
  have lt: "\<And>w. w \<in> set (penalty_windows s) \<Longrightarrow> pw_id w < next_id s" by (rule windows_okD(2) [OF o(1)])
  have "windows_ok ?s" using o(1) lt
    unfolding windows_ok_def by (fastforce simp: new_window_def window_ok_def less_Suc_eq)
  moreover have "periods_ok (Suc (next_id s)) (pw_id ` set (penalty_windows ?s)) (freeze_periods s)"
    using o(2) unfolding freezes_ok_alt periods_ok_def by (auto simp: less_Suc_eq)
  then have "freezes_ok ?s" using o(2) u(1)
    unfolding freezes_ok_alt by (auto simp: frozen_ok_alt new_window_def status_matches_def)
  moreover have "consumption_ok ?s" using o(3) u(2)
    unfolding consumption_ok_def by (auto simp: new_window_def)
  moreover have "credits_ok ?s" using o(4) u(3)
    unfolding credits_ok_def by (auto simp: new_window_def)
  ultimately show ?thesis by (simp add: penalty_ok_def)
qed

lemma open_windowD:
  assumes "windows_ok s" and "get_active_or_frozen_penalty_window s = Some w"
  shows "w \<in> set (penalty_windows s)" and "window_open w" and "window_by_id (pw_id w) s = Some w"
proof -
  have "w \<in> set (filter window_open (penalty_windows s))"
    using first_row_SomeD [OF assms(2) [unfolded get_active_or_frozen_penalty_window_def]] by simp
  then show "w \<in> set (penalty_windows s)" and "window_open w" by simp_all
  then show "window_by_id (pw_id w) s = Some w" by (intro window_by_id_eq assms(1))
qed

lemma open_or_start_result:
  assumes "open_or_start_window now base s = Inr ((w, started), s')"
  shows "get_active_or_frozen_penalty_window s = None \<Longrightarrow> w = new_window (next_id s) now base"
    and "get_active_or_frozen_penalty_window s = Some x \<Longrightarrow> w = x"
  using assms by (auto simp: open_or_start_window_def tx_bind_apply tx_simps)

lemma open_or_start_window_ok:
  assumes ok: "penalty_ok s" and run: "open_or_start_window now base s = Inr ((w, started), s')"
  shows "penalty_ok s'" and "window_by_id (pw_id w) s' = Some w" and "window_open w"
    and "started \<longleftrightarrow> get_active_or_frozen_penalty_window s = None"
    and "incident_consumption s' = incident_consumption s"
    and "extension_decisions s' = extension_decisions s"
    and "freeze_periods s' = freeze_periods s"
    and "next_id s \<le> next_id s'"
proof -
  have "penalty_ok s' \<and> window_by_id (pw_id w) s' = Some w \<and> window_open w \<and>
    (started \<longleftrightarrow> get_active_or_frozen_penalty_window s = None) \<and>
    incident_consumption s' = incident_consumption s \<and> extension_decisions s' = extension_decisions s \<and>
    freeze_periods s' = freeze_periods s \<and> next_id s \<le> next_id s'"
  proof (cases "get_active_or_frozen_penalty_window s")
    case None
    then have w: "w = new_window (next_id s) now base" and s': "s' = s\<lparr>next_id := Suc (next_id s),
        penalty_windows := penalty_windows s @ [w]\<rparr>" and started
      using run by (auto simp: open_or_start_window_def tx_bind_apply tx_simps)
    have p: "penalty_ok s'" unfolding s' w by (rule penalty_ok_new_window) (rule ok)
    moreover have "w \<in> set (penalty_windows s')" by (simp add: s')
    then have "window_by_id (pw_id w) s' = Some w" using window_by_id_eq penalty_okD(1) [OF p] by blast
    ultimately show ?thesis using None w s' \<open>started\<close> by (simp add: new_window_def window_open_def)
  next
    case (Some x)
    then have "w = x" and "s' = s" and "\<not> started"
      using run by (auto simp: open_or_start_window_def tx_bind_apply tx_simps)
    with Some open_windowD [OF penalty_okD(1) [OF ok]] ok show ?thesis by auto
  qed
  then show "penalty_ok s'" "window_by_id (pw_id w) s' = Some w" "window_open w"
    "started \<longleftrightarrow> get_active_or_frozen_penalty_window s = None"
    "incident_consumption s' = incident_consumption s" "extension_decisions s' = extension_decisions s"
    "freeze_periods s' = freeze_periods s" "next_id s \<le> next_id s'" by simp_all
qed

section \<open>Consuming an incident\<close>

definition decided ::
  "consumption_row \<Rightarrow> extension_decision \<Rightarrow> 'm penalty_db_scheme \<Rightarrow> 'm penalty_db_scheme" where
  "decided c d s = s\<lparr>incident_consumption := incident_consumption s @ [c],
     next_id := Suc (next_id s), extension_decisions := extension_decisions s @ [d],
     penalty_windows := update_where (\<lambda>w. pw_id w = ed_penalty_window_id d)
       (\<lambda>w. w\<lparr>pw_extensions_hours := pw_extensions_hours w + ed_assigned_hours d\<rparr>) (penalty_windows s)\<rparr>"

lemma hours_assigned_snoc: "hours_assigned i (ds @ [d])
  = hours_assigned i ds + (if ed_penalty_window_id d = i then ed_assigned_hours d else 0)"
  by (simp add: hours_assigned_def)

lemma window_ok_extended:
  assumes "window_ok w" and "0 \<le> h" and "h \<le> remaining_capacity w"
  shows "window_ok (w\<lparr>pw_extensions_hours := pw_extensions_hours w + h\<rparr>)"
  using assms by (auto simp: window_ok_def remaining_capacity_def target_active_hours_def
      max_target_active_hours_def min_def max_def split: if_splits)

lemma penalty_ok_decided:
  assumes ok: "penalty_ok s" and w: "window_by_id (pw_id w) s = Some w"
    and new: "ic_incident_id c \<notin> ic_incident_id ` set (incident_consumption s)"
    and c: "ic_penalty_window_id c = pw_id w" "ed_penalty_window_id d = pw_id w"
      "ed_incident_id d = ic_incident_id c"
    and h: "0 \<le> ed_assigned_hours d" "ed_assigned_hours d \<le> remaining_capacity w"
  shows "penalty_ok (decided c d s)" (is "penalty_ok ?s")
proof -
  let ?f = "\<lambda>w. w\<lparr>pw_extensions_hours := pw_extensions_hours w + ed_assigned_hours d\<rparr>"
  note o = penalty_okD [OF ok] and win = window_by_idD [OF w]
  have ws: "penalty_windows ?s = update_where (\<lambda>x. pw_id x = pw_id w) ?f (penalty_windows s)"
    by (simp add: decided_def c)
  have ids: "map pw_id (penalty_windows ?s) = map pw_id (penalty_windows s)"
    unfolding ws by (rule map_update_where) simp
  have ids': "pw_id ` set (penalty_windows ?s) = pw_id ` set (penalty_windows s)"
    unfolding ws by (rule ids_update_window) simp
  have only: "x = w" if "x \<in> set (penalty_windows s)" "pw_id x = pw_id w" for x
    using window_by_id_eq [OF o(1) that(1)] that(2) w by simp
  have all: "\<forall>x \<in> set (penalty_windows ?s). P x"
    if "\<forall>x \<in> set (penalty_windows s). pw_id x \<noteq> pw_id w \<longrightarrow> P x" "P (?f w)" for P
    unfolding ws using that only by (auto elim!: in_update_whereE)
  have "window_ok (?f w)" by (intro window_ok_extended windows_okD(3) [OF o(1)] h) (use win in simp)
  moreover have "pw_id x < Suc (next_id s)" if "x \<in> set (penalty_windows s)" for x
    using windows_okD(2) [OF o(1) that] by simp
  ultimately have "\<forall>x \<in> set (penalty_windows ?s). pw_id x < Suc (next_id s) \<and> window_ok x"
    using windows_okD(3) [OF o(1)] win by (intro all) auto
  then have "windows_ok ?s" using windows_okD(1) [OF o(1)]
    unfolding windows_ok_def ids by (simp add: decided_def)
  moreover have "\<forall>x \<in> set (penalty_windows ?s). frozen_ok ?s x"
    using o(2) win by (intro all) (auto simp: freezes_ok_alt frozen_ok_alt decided_def)
  then have "freezes_ok ?s" using o(2) unfolding freezes_ok_alt ids'
    by (auto simp: decided_def periods_ok_def less_Suc_eq)
  moreover have "\<forall>x \<in> set (penalty_windows ?s).
      pw_extensions_hours x = hours_assigned (pw_id x) (extension_decisions ?s)"
    using o(3) win by (intro all) (auto simp: consumption_ok_def decided_def hours_assigned_snoc c)
  then have "consumption_ok ?s" using o(3) new c win unfolding consumption_ok_def ids'
    by (auto simp: decided_def)
  moreover have "\<forall>x \<in> set (penalty_windows ?s).
      pw_recovery_credits_earned_hours x = hours_credited (pw_id x) (recovery_credit_ledger ?s)"
    using o(4) win by (intro all) (auto simp: credits_ok_def decided_def)
  then have "credits_ok ?s" using o(4) unfolding credits_ok_def ids' by (simp add: decided_def)
  ultimately show ?thesis by (simp add: penalty_ok_def)
qed

definition consumption_of :: "uid \<Rightarrow> penalty_window \<Rightarrow> string \<Rightarrow> string \<Rightarrow> time \<Rightarrow> consumption_row" where
  "consumption_of i w dname g now = \<lparr>ic_incident_id = i, ic_penalty_window_id = pw_id w,
     ic_trust_domain = dname, ic_rule_group_id = g, ic_consumed_at = now\<rparr>"

definition decision_for ::
  "uid \<Rightarrow> penalty_window \<Rightarrow> string \<Rightarrow> severity_tier \<Rightarrow> cooperation_assessment \<Rightarrow> time
     \<Rightarrow> 'm penalty_db_scheme \<Rightarrow> extension_decision" where
  "decision_for i w g sev coop now s = should_extend (next_id s)
     \<lparr>ec_severity = sev, ec_cooperation = coop,
      ec_same_rule_count = Suc (same_rule_count (pw_id w) g s),
      ec_remaining_capacity = remaining_capacity w, ec_during_recovery_task = False\<rparr> i (pw_id w) now"

lemma decision_for_bounds:
  "0 \<le> ed_assigned_hours (decision_for i w g sev coop now s)"
  "ed_assigned_hours (decision_for i w g sev coop now s) \<le> remaining_capacity w"
  using should_extend_assigned_bounds
    [of "\<lparr>ec_severity = sev, ec_cooperation = coop, ec_same_rule_count = Suc (same_rule_count (pw_id w) g s),
      ec_remaining_capacity = remaining_capacity w, ec_during_recovery_task = False\<rparr>"]
  by (simp_all add: decision_for_def remaining_capacity_def)

lemma consume_eq:
  assumes "\<not> consumed i s" and "open_or_start_window now base s = Inr ((w, started), s1)"
  shows "consume_confirmed_incident_in_transaction i dname g sev coop now base s =
    (let d = decision_for i w g sev coop now s1
     in Inr (Some (w\<lparr>pw_extensions_hours := pw_extensions_hours w + ed_assigned_hours d\<rparr>, d, started),
             decided (consumption_of i w dname g now) d s1))"
proof -
  let ?d = "decision_for i w g sev coop now s1"
  have d: "ed_penalty_window_id ?d = pw_id w" by (simp add: decision_for_def)
  have n: "same_rule_count (pw_id w) g (s1\<lparr>incident_consumption := incident_consumption s1 @
      [consumption_of i w dname g now]\<rparr>) = Suc (same_rule_count (pw_id w) g s1)"
    by (simp add: same_rule_count_def consumption_of_def)
  show ?thesis
  proof (cases "ed_assigned_hours ?d > 0")
    case True
    then show ?thesis using assms d n
      by (simp add: consume_confirmed_incident_in_transaction_def tx_bind_apply tx_simps Let_def
          decided_def add_extension_hours_def consumption_of_def decision_for_def)
  next
    case False
    with decision_for_bounds(1) [of i w g sev coop now s1] have "ed_assigned_hours ?d = 0" by linarith
    then show ?thesis using assms d n
      by (simp add: consume_confirmed_incident_in_transaction_def tx_bind_apply tx_simps Let_def
          decided_def add_extension_hours_def consumption_of_def decision_for_def)
  qed
qed

lemma consume_already:
  "consumed i s \<Longrightarrow> consume_confirmed_incident_in_transaction i d g sev coop now base s = Inr (None, s)"
  by (simp add: consume_confirmed_incident_in_transaction_def tx_bind_apply tx_simps)

lemma open_or_start_returns: "\<exists>w started s'. open_or_start_window now base s = Inr ((w, started), s')"
  by (auto simp: open_or_start_window_def tx_bind_apply tx_simps split: option.splits)

lemma consume_cases:
  obtains (again) "consumed i s"
      and "consume_confirmed_incident_in_transaction i d g sev coop now base s = Inr (None, s)"
  | (fresh) w started s1 where "\<not> consumed i s"
      and "open_or_start_window now base s = Inr ((w, started), s1)"
      and "consume_confirmed_incident_in_transaction i d g sev coop now base s =
        (let dec = decision_for i w g sev coop now s1
         in Inr (Some (w\<lparr>pw_extensions_hours := pw_extensions_hours w + ed_assigned_hours dec\<rparr>, dec, started),
                 decided (consumption_of i w d g now) dec s1))"
  using consume_already consume_eq open_or_start_returns by metis

lemma keeps_penalty_consume [keeps_intros]:
  "keeps penalty_ok (consume_confirmed_incident_in_transaction i d g sev coop now base)"
proof (rule keepsI)
  fix s :: "'a penalty_db_scheme" and a s'
  assume ok: "penalty_ok s"
    and run: "consume_confirmed_incident_in_transaction i d g sev coop now base s = Inr (a, s')"
  show "penalty_ok s'"
  proof (cases rule: consume_cases [of i s d g sev coop now base])
    case again
    then show ?thesis using run ok by simp
  next
    case (fresh w started s1)
    note o = open_or_start_window_ok [OF ok fresh(2)]
    let ?dec = "decision_for i w g sev coop now s1"
    have "penalty_ok (decided (consumption_of i w d g now) ?dec s1)"
      using fresh(1) o(5) decision_for_bounds
      by (intro penalty_ok_decided [OF o(1,2)]) (auto simp: consumption_of_def decision_for_def consumed_def)
    then show ?thesis using fresh(3) run by (simp add: Let_def)
  qed
qed

lemma keeps_penalty_emit_consumption: "keeps penalty_ok (emit_consumption_events r now)"
  unfolding emit_consumption_events_def emit_started_def emit_decision_recorded_def
  by (cases r) (auto intro!: keeps_bind keeps_if keeps_return keeps_penalty_emit)

lemma op_keeps_penalty_consume: "op_keeps penalty_ok (consume_confirmed_incident i d g sev coop now base)"
  unfolding consume_confirmed_incident_def consumption_events_def
  by (intro op_keeps_bind op_keeps_transition keeps_penalty_consume op_keeps_return)
    (auto intro!: keeps_return keeps_penalty_emit_consumption split: option.splits)

lemma candidates_keep:
  assumes "\<And>i d g sev coop. op_keeps I (consume_confirmed_incident i d g sev coop now base)" and "I s"
  shows "I (snd (consume_candidates ga base now cs r s))"
  using assms(2)
proof (induction cs arbitrary: r s)
  case Nil
  then show ?case by simp
next
  case (Cons c cs)
  have "I (snd (consume_confirmed_incident (cs_id c) (cs_trust_domain c) (cs_rule_group_id c)
      sev coop now base s))" for sev coop
    using assms(1) Cons.prems by (rule op_keepsD)
  then have "consume_confirmed_incident (cs_id c) (cs_trust_domain c) (cs_rule_group_id c)
      sev coop now base s = (x, s') \<Longrightarrow> I s'" for sev coop x s'
    by (metis snd_conv)
  then show ?case using Cons by (auto split: sum.split option.split prod.split)
qed

lemma op_keeps_start:
  assumes "\<And>i d g sev coop. op_keeps I (consume_confirmed_incident i d g sev coop now base)"
  shows "op_keeps I (start_window_if_eligible gs ga base now)"
  by (rule op_keepsI) (simp add: start_window_if_eligible_def Let_def candidates_keep [OF assms])

lemma op_keeps_penalty_start: "op_keeps penalty_ok (start_window_if_eligible gs ga base now)"
  by (rule op_keeps_start) (rule op_keeps_penalty_consume)

section \<open>Crediting\<close>

definition credited_hours :: "penalty_window \<Rightarrow> real \<Rightarrow> real" where
  "credited_hours w proposed =
     min proposed (max 0 (target_active_hours w / 2 - pw_recovery_credits_earned_hours w))"

definition credit_decision :: "uid \<Rightarrow> uid \<Rightarrow> penalty_window \<Rightarrow> real \<Rightarrow> time \<Rightarrow> recovery_credit_decision" where
  "credit_decision i completion w proposed now = \<lparr>rd_id = i, rd_created_at = now,
     rd_completion_id = completion, rd_penalty_window_id = pw_id w, rd_proposed_hours = proposed,
     rd_credited_hours = credited_hours w proposed,
     rd_capacity_limited = credited_hours w proposed < proposed\<rparr>"

definition credited ::
  "uid \<Rightarrow> penalty_window \<Rightarrow> real \<Rightarrow> time \<Rightarrow> 'm penalty_db_scheme \<Rightarrow> 'm penalty_db_scheme" where
  "credited completion w proposed now s =
     (let d = credit_decision (next_id s) completion w proposed now;
          s1 = s\<lparr>next_id := Suc (next_id s),
            recovery_credit_decisions := recovery_credit_decisions s @ [d]\<rparr>
      in if rd_credited_hours d > 0
         then s1\<lparr>next_id := Suc (next_id s1),
              penalty_windows := update_where (\<lambda>x. pw_id x = pw_id w)
                (\<lambda>x. x\<lparr>pw_recovery_credits_earned_hours :=
                   pw_recovery_credits_earned_hours x + rd_credited_hours d\<rparr>) (penalty_windows s),
              recovery_credit_ledger := recovery_credit_ledger s @
                [\<lparr>rl_id = Suc (next_id s), rl_penalty_window_id = pw_id w,
                  rl_credited_hours = rd_credited_hours d, rl_source_completion_id = Some completion,
                  rl_created_at = now\<rparr>]\<rparr>
         else s1)"

lemma credit_existing:
  "row_by rd_completion_id c (recovery_credit_decisions s) = Some d \<Longrightarrow>
   record_recovery_credit_in_transaction c i proposed now s = Inr (d, s)"
  by (simp add: record_recovery_credit_in_transaction_def tx_bind_apply tx_simps)

lemma credit_unknown_window:
  "row_by rd_completion_id c (recovery_credit_decisions s) = None \<Longrightarrow> window_by_id i s = None \<Longrightarrow>
   record_recovery_credit_in_transaction c i proposed now s = Inl (PenaltyWindowNotFound i)"
  by (simp add: record_recovery_credit_in_transaction_def tx_bind_apply tx_simps)

lemma credit_eq:
  assumes "row_by rd_completion_id c (recovery_credit_decisions s) = None" and "window_by_id i s = Some w"
  shows "record_recovery_credit_in_transaction c i proposed now s
    = Inr (credit_decision (next_id s) c w proposed now, credited c w proposed now s)"
  using assms window_by_idD [OF assms(2)]
  by (simp add: record_recovery_credit_in_transaction_def tx_bind_apply tx_simps Let_def
      credit_decision_def credited_hours_def credited_def)

lemma hours_credited_snoc: "hours_credited i (rs @ [r])
  = hours_credited i rs + (if rl_penalty_window_id r = i then rl_credited_hours r else 0)"
  by (simp add: hours_credited_def)

lemma window_ok_credited:
  assumes "window_ok w" and "0 < credited_hours w p"
  shows "window_ok (w\<lparr>pw_recovery_credits_earned_hours :=
    pw_recovery_credits_earned_hours w + credited_hours w p\<rparr>)"
proof -
  let ?h = "credited_hours w p"
  have "?h \<le> max 0 (target_active_hours w / 2 - pw_recovery_credits_earned_hours w)"
    by (simp add: credited_hours_def)
  then have "pw_recovery_credits_earned_hours w + ?h \<le> target_active_hours w / 2" using assms(2) by linarith
  moreover have "target_active_hours (w\<lparr>pw_recovery_credits_earned_hours := e\<rparr>) = target_active_hours w" for e
    by (simp add: target_active_hours_def)
  ultimately show ?thesis using assms by (simp add: window_ok_def)
qed

lemma penalty_ok_credited:
  assumes ok: "penalty_ok s" and w: "window_by_id (pw_id w) s = Some w"
    and new: "row_by rd_completion_id c (recovery_credit_decisions s) = None"
  shows "penalty_ok (credited c w p now s)" (is "penalty_ok ?s")
proof -
  note o = penalty_okD [OF ok] and win = window_by_idD [OF w]
  have fresh: "c \<notin> rd_completion_id ` set (recovery_credit_decisions s)" using new by (auto simp: row_by_None)
  show ?thesis
  proof (cases "credited_hours w p > 0")
    case False
    have "penalty_ok (s\<lparr>next_id := Suc (next_id s)\<rparr>)" by (rule penalty_ok_new_id) (rule ok)
    moreover have "credits_ok ?s" using o(4) fresh win False
      by (auto simp: credits_ok_def credited_def credit_decision_def Let_def)
    ultimately show ?thesis using False unfolding penalty_ok_def
      by (auto simp: credited_def credit_decision_def Let_def windows_ok_def freezes_ok_def frozen_ok_alt
          open_authorizations_in consumption_ok_def)
  next
    case True
    let ?h = "credited_hours w p"
    let ?f = "\<lambda>x. x\<lparr>pw_recovery_credits_earned_hours := pw_recovery_credits_earned_hours x + ?h\<rparr>"
    have s: "next_id ?s = Suc (Suc (next_id s))"
      "penalty_windows ?s = update_where (\<lambda>x. pw_id x = pw_id w) ?f (penalty_windows s)"
      "freeze_periods ?s = freeze_periods s" "incident_consumption ?s = incident_consumption s"
      "extension_decisions ?s = extension_decisions s"
      "recovery_credit_decisions ?s = recovery_credit_decisions s @ [credit_decision (next_id s) c w p now]"
      "recovery_credit_ledger ?s = recovery_credit_ledger s @
                [\<lparr>rl_id = Suc (next_id s), rl_penalty_window_id = pw_id w,
                  rl_credited_hours = ?h, rl_source_completion_id = Some c, rl_created_at = now\<rparr>]"
      using True by (simp_all add: credited_def credit_decision_def Let_def)
    have ids: "map pw_id (penalty_windows ?s) = map pw_id (penalty_windows s)"
      unfolding s by (rule map_update_where) simp
    have ids': "pw_id ` set (penalty_windows ?s) = pw_id ` set (penalty_windows s)"
      unfolding s by (rule ids_update_window) simp
    have only: "x = w" if "x \<in> set (penalty_windows s)" "pw_id x = pw_id w" for x
      using window_by_id_eq [OF o(1) that(1)] that(2) w by simp
    have all: "\<forall>x \<in> set (penalty_windows ?s). P x"
      if "\<forall>x \<in> set (penalty_windows s). pw_id x \<noteq> pw_id w \<longrightarrow> P x" "P (?f w)" for P
      unfolding s using that only by (auto elim!: in_update_whereE)
    have "window_ok (?f w)" by (intro window_ok_credited windows_okD(3) [OF o(1)] True) (use win in simp)
    moreover have "pw_id x < Suc (Suc (next_id s))" if "x \<in> set (penalty_windows s)" for x
      using windows_okD(2) [OF o(1) that] by simp
    ultimately have "\<forall>x \<in> set (penalty_windows ?s). pw_id x < Suc (Suc (next_id s)) \<and> window_ok x"
      using windows_okD(3) [OF o(1)] win by (intro all) auto
    then have "windows_ok ?s" using windows_okD(1) [OF o(1)] unfolding windows_ok_def ids by (simp add: s)
    moreover have "\<forall>x \<in> set (penalty_windows ?s). frozen_ok ?s x"
      using o(2) win by (intro all) (auto simp: freezes_ok_alt frozen_ok_alt s)
    then have "freezes_ok ?s" using o(2) unfolding freezes_ok_alt ids'
      by (auto simp: s(1,3) periods_ok_def less_Suc_eq)
    moreover have "\<forall>x \<in> set (penalty_windows ?s).
        pw_extensions_hours x = hours_assigned (pw_id x) (extension_decisions ?s)"
      using o(3) win by (intro all) (auto simp: consumption_ok_def s)
    then have "consumption_ok ?s" using o(3) unfolding consumption_ok_def ids' by (simp add: s(4,5))
    moreover have "\<forall>x \<in> set (penalty_windows ?s).
        pw_recovery_credits_earned_hours x = hours_credited (pw_id x) (recovery_credit_ledger ?s)"
      using o(4) win by (intro all) (auto simp: credits_ok_def s(7) hours_credited_snoc)
    then have "credits_ok ?s" using o(4) fresh win True unfolding credits_ok_def ids'
      by (auto simp: s(6,7) credit_decision_def)
    ultimately show ?thesis by (simp add: penalty_ok_def)
  qed
qed

lemma keeps_penalty_credit [keeps_intros]:
  "keeps penalty_ok (record_recovery_credit_in_transaction c i p now)"
proof (rule keepsI)
  fix s :: "'a penalty_db_scheme" and a s'
  assume ok: "penalty_ok s" and run: "record_recovery_credit_in_transaction c i p now s = Inr (a, s')"
  show "penalty_ok s'"
  proof (cases "row_by rd_completion_id c (recovery_credit_decisions s)")
    case (Some d)
    then show ?thesis using run ok by (simp add: credit_existing)
  next
    case None
    then obtain w where w: "window_by_id i s = Some w"
      using run by (cases "window_by_id i s") (auto simp: credit_unknown_window)
    then have "s' = credited c w p now s" using run None by (simp add: credit_eq)
    with penalty_ok_credited [OF ok _ None] w window_by_idD [OF w] show ?thesis by auto
  qed
qed

lemma keeps_penalty_emit_credit: "keeps penalty_ok (emit_recovery_credit_event d now)"
  unfolding emit_recovery_credit_event_def by (rule keeps_penalty_emit)

section \<open>At most one open window\<close>

text \<open>
  \<open>freeze_window\<close> accepts a completed window; a later \<open>resume\<close> would then make it active
  again. As long as only open windows are frozen, at most one window is open and a completed
  window has no open period.
\<close>

definition open_windows :: "'m penalty_db_scheme \<Rightarrow> nat" where
  "open_windows s = count_where window_open (penalty_windows s)"

definition single_ok :: "'m penalty_db_scheme \<Rightarrow> bool" where
  "single_ok s \<longleftrightarrow> penalty_ok s \<and> open_windows s \<le> 1 \<and>
     (\<forall>w \<in> set (penalty_windows s). pw_status w = PW_COMPLETED \<longrightarrow> open_in (pw_id w) (freeze_periods s) = 0)"

lemma single_okD:
  assumes "single_ok s"
  shows "penalty_ok s" and "open_windows s \<le> 1"
    and "w \<in> set (penalty_windows s) \<Longrightarrow> pw_status w = PW_COMPLETED \<Longrightarrow> open_in (pw_id w) (freeze_periods s) = 0"
  using assms by (auto simp: single_ok_def)

lemma single_ok_transfer:
  fixes s s' :: "'m penalty_db_scheme"
  assumes "single_ok s" and "penalty_ok s'"
    and "map (\<lambda>w. (pw_id w, pw_status w)) (penalty_windows s') = map (\<lambda>w. (pw_id w, pw_status w)) (penalty_windows s)"
    and "freeze_periods s' = freeze_periods s"
  shows "single_ok s'"
proof -
  have count: "open_windows x = count_where (\<lambda>st. st = PW_ACTIVE \<or> st = PW_FROZEN)
      (map snd (map (\<lambda>w. (pw_id w, pw_status w)) (penalty_windows x)))" for x :: "'m penalty_db_scheme"
    by (simp add: open_windows_def count_where_def filter_map comp_def window_open_def [abs_def])
  have tidy: "(\<forall>w \<in> set (penalty_windows x). pw_status w = PW_COMPLETED \<longrightarrow> open_in (pw_id w) (freeze_periods x) = 0)
      \<longleftrightarrow> (\<forall>p \<in> set (map (\<lambda>w. (pw_id w, pw_status w)) (penalty_windows x)). snd p = PW_COMPLETED
             \<longrightarrow> open_in (fst p) (freeze_periods x) = 0)" for x :: "'m penalty_db_scheme"
    by auto
  have "open_windows s' = open_windows s" by (simp only: count assms(3))
  moreover have "(\<forall>w \<in> set (penalty_windows s'). pw_status w = PW_COMPLETED \<longrightarrow> open_in (pw_id w) (freeze_periods s') = 0)
      \<longleftrightarrow> (\<forall>w \<in> set (penalty_windows s). pw_status w = PW_COMPLETED \<longrightarrow> open_in (pw_id w) (freeze_periods s) = 0)"
    unfolding tidy [of s'] tidy [of s] unfolding assms(3) assms(4) by (rule refl)
  ultimately show ?thesis using assms(1,2) unfolding single_ok_def by argo
qed

lemma single_ok_emitted: "single_ok s \<Longrightarrow> single_ok (emitted ty src p now s)"
  by (rule single_ok_transfer, assumption) (simp_all add: penalty_ok_emitted single_okD)

lemma keeps_single_emit [keeps_intros]: "keeps single_ok (emit ty src p now)"
  by (simp add: keeps_def emit_emitted single_ok_emitted)

lemma keeps_single_consume [keeps_intros]:
  "keeps single_ok (consume_confirmed_incident_in_transaction i d g sev coop now base)"
proof (rule keepsI)
  fix s :: "'a penalty_db_scheme" and a s'
  assume single: "single_ok s"
    and run: "consume_confirmed_incident_in_transaction i d g sev coop now base s = Inr (a, s')"
  note ok = single_okD(1) [OF single]
  have ok': "penalty_ok s'" using keeps_penalty_consume ok run by (rule keepsD)
  show "single_ok s'"
  proof (cases rule: consume_cases [of i s d g sev coop now base])
    case again
    then show ?thesis using run single by simp
  next
    case (fresh w started s1)
    note o = open_or_start_window_ok [OF ok fresh(2)]
    have "single_ok s1"
    proof (cases "get_active_or_frozen_penalty_window s")
      case None
      then have s1: "s1 = s\<lparr>next_id := Suc (next_id s), penalty_windows := penalty_windows s @ [new_window (next_id s) now base]\<rparr>"
        using fresh(2) by (auto simp: open_or_start_window_def tx_bind_apply tx_simps)
      have "open_windows s = 0"
        using None by (simp add: get_active_or_frozen_penalty_window_def open_windows_def count_where_def)
      then show ?thesis using single o(1) unfolding s1
        by (auto simp: single_ok_def open_windows_def new_window_def)
    next
      case (Some x)
      then show ?thesis using fresh(2) single by (auto simp: open_or_start_window_def tx_bind_apply tx_simps)
    qed
    moreover have "s' = decided (consumption_of i w d g now) (decision_for i w g sev coop now s1) s1"
      using fresh(3) run by (simp add: Let_def)
    ultimately show ?thesis
      by (intro single_ok_transfer [OF _ ok']) (simp_all add: decided_def map_update_where)
  qed
qed

lemma keeps_single_credit [keeps_intros]:
  "keeps single_ok (record_recovery_credit_in_transaction c i p now)"
proof (rule keepsI)
  fix s :: "'a penalty_db_scheme" and a s'
  assume single: "single_ok s" and run: "record_recovery_credit_in_transaction c i p now s = Inr (a, s')"
  note ok = single_okD(1) [OF single]
  have ok': "penalty_ok s'" using keeps_penalty_credit ok run by (rule keepsD)
  show "single_ok s'"
  proof (cases "row_by rd_completion_id c (recovery_credit_decisions s)")
    case (Some d)
    then show ?thesis using run single by (simp add: credit_existing)
  next
    case None
    then obtain w where w: "window_by_id i s = Some w"
      using run by (cases "window_by_id i s") (auto simp: credit_unknown_window)
    then have "s' = credited c w p now s" using run None by (simp add: credit_eq)
    then show ?thesis
      by (intro single_ok_transfer [OF single ok']) (simp_all add: credited_def Let_def map_update_where)
  qed
qed

definition may_freeze :: "uid \<Rightarrow> 'm penalty_db_scheme \<Rightarrow> bool" where
  "may_freeze i s \<longleftrightarrow> (case window_by_id i s of None \<Rightarrow> True | Some w \<Rightarrow> window_open w)"

definition opened_period ::
  "uid \<Rightarrow> uid \<Rightarrow> freeze_reason \<Rightarrow> time \<Rightarrow> string option \<Rightarrow> string option \<Rightarrow> time option \<Rightarrow> freeze_period" where
  "opened_period fid i r now ex au xp = \<lparr>fp_id = fid, fp_penalty_window_id = i, fp_started_at = now,
     fp_ended_at = None, fp_reason = r, fp_exemption_id = ex, fp_authorization_decision_id = au,
     fp_expires_at = xp, fp_end_reason = None\<rparr>"

lemma freeze_write_eq:
  "freeze_write i r now ex au xp s =
    (case window_by_id i s of
       None \<Rightarrow> Inl (PenaltyWindowNotFound i)
     | Some w \<Rightarrow>
         if freeze_index_ok i r s \<and> freeze_links_ok r ex au
         then (let fp = opened_period (next_id s) i r now ex au xp;
                   s1 = s\<lparr>next_id := Suc (next_id s), freeze_periods := freeze_periods s @ [fp]\<rparr>
               in Inr ((fp, pw_status w = PW_ACTIVE),
                       if pw_status w = PW_ACTIVE then set_frozen i (active_hours_elapsed w now) s1 else s1))
         else Inl IntegrityError)"
  by (simp add: freeze_write_def tx_bind_apply tx_simps Let_def opened_period_def window_by_id_def
      freeze_index_ok_def split: option.splits)

lemma single_freeze_write:
  assumes single: "single_ok s" and may: "may_freeze i s"
    and run: "freeze_write i r now ex au xp s = Inr (a, s')"
  shows "single_ok s'"
proof -
  note ok = single_okD(1) [OF single]
  have ok': "penalty_ok s'" using keeps_penalty_freeze_write ok run by (rule keepsD)
  obtain w where w: "window_by_id i s = Some w"
    using run by (cases "window_by_id i s") (auto simp: freeze_write_eq)
  have only: "x = w" if "x \<in> set (penalty_windows s)" "pw_id x = i" for x
    using window_by_id_eq [OF penalty_okD(1) [OF ok] that(1)] that(2) w by simp
  have wopen: "window_open w" using may w by (simp add: may_freeze_def)
  let ?fp = "opened_period (next_id s) i r now ex au xp"
  have fp: "fp_penalty_window_id ?fp = i" by (simp add: opened_period_def)
  have fs: "freeze_periods s' = freeze_periods s @ [?fp]"
    and nxt: "pw_status w \<noteq> PW_ACTIVE \<Longrightarrow> penalty_windows s' = penalty_windows s"
    and fro: "pw_status w = PW_ACTIVE \<Longrightarrow> penalty_windows s' = penalty_windows (set_frozen i (active_hours_elapsed w now) s)"
    using run w by (auto simp: freeze_write_eq Let_def set_frozen_def split: if_splits)
  have tidy: "open_in (pw_id x) (freeze_periods s') = 0"
    if "x \<in> set (penalty_windows s)" and "pw_id x \<noteq> i" and "pw_status x = PW_COMPLETED" for x
    using single_okD(3) [OF single that(1,3)] that(2) fp by (simp add: fs open_in_append)
  show ?thesis
  proof (cases "pw_status w = PW_ACTIVE")
    case True
    have ws: "penalty_windows s' = update_where (\<lambda>x. pw_id x = i) (\<lambda>x. x\<lparr>pw_status := PW_FROZEN,
         pw_accumulated_active_hours := active_hours_elapsed w now, pw_active_period_started_at := None\<rparr>) (penalty_windows s)"
      using fro [OF True] by (simp add: set_frozen_def)
    have "window_open x" if "x \<in> set (penalty_windows s)" "pw_id x = i" for x
      using only [OF that] wopen by simp
    then have "open_windows s' = open_windows s"
      unfolding open_windows_def ws by (intro count_where_update_same) (simp add: window_open_def)
    moreover have "\<forall>x \<in> set (penalty_windows s'). pw_status x = PW_COMPLETED
        \<longrightarrow> open_in (pw_id x) (freeze_periods s') = 0"
      unfolding ws using tidy by (auto elim!: in_update_whereE)
    ultimately show ?thesis using single ok' by (simp add: single_ok_def)
  next
    case False
    have "pw_id x \<noteq> i" if "x \<in> set (penalty_windows s)" "pw_status x = PW_COMPLETED" for x
      using only [OF that(1)] that(2) wopen by (auto simp: window_open_def)
    with tidy have "\<forall>x \<in> set (penalty_windows s). pw_status x = PW_COMPLETED
        \<longrightarrow> open_in (pw_id x) (freeze_periods s') = 0" by blast
    then show ?thesis using single ok' nxt [OF False] by (simp add: single_ok_def open_windows_def)
  qed
qed

lemma single_close_write:
  assumes single: "single_ok s" and own: "period_of i only s"
    and run: "close_write i r now why only s = Inr (a, s')"
  shows "single_ok s'"
proof (cases "periods_to_close i r only s = []")
  case True
  then show ?thesis using run single by (simp add: close_write_eq)
next
  case False
  note ok = single_okD(1) [OF single]
  have ok': "penalty_ok s'" by (rule keeps_penalty_close_write [OF ok own run])
  let ?ids = "map fp_id (periods_to_close i r only s)"
  let ?fs = "end_periods now why ?ids (freeze_periods s)"
  have fs: "freeze_periods s' = ?fs"
    and ws: "penalty_windows s' = penalty_windows s \<or> penalty_windows s' = penalty_windows (set_active i now s)"
    using run False by (auto simp: close_write_eq Let_def set_active_def split: if_splits)
  obtain f where f: "f \<in> set (periods_to_close i r only s)" using False by (cases "periods_to_close i r only s") auto
  note fm = periods_to_close_mem [OF own f]
  have pos: "0 < open_in i (freeze_periods s)"
    using fm by (intro open_in_pos)
  have frozen: "pw_status x = PW_FROZEN" if "x \<in> set (penalty_windows s)" "pw_id x = i" for x
    using single_okD(3) [OF single that(1)] freezes_okD(5) [OF penalty_okD(2) [OF ok] that(1)] that(2) pos
    by (cases "pw_status x") (auto simp: frozen_ok_alt status_matches_def)
  have le: "open_in j ?fs \<le> open_in j (freeze_periods s)" for j
    unfolding open_in_def end_periods_def by (rule count_where_update_le) simp
  have "open_windows s' = open_windows s"
    using ws
  proof
    assume "penalty_windows s' = penalty_windows (set_active i now s)"
    then show ?thesis unfolding open_windows_def set_active_def
      using frozen by (simp add: count_where_update_same window_open_def)
  qed (simp add: open_windows_def)
  moreover have "open_in (pw_id x) (freeze_periods s') = 0"
    if x: "x \<in> set (penalty_windows s')" and c: "pw_status x = PW_COMPLETED" for x
  proof -
    have "x \<in> set (penalty_windows s)"
      using ws x c by (auto simp: set_active_def elim!: in_update_whereE)
    then show ?thesis using single_okD(3) [OF single _ c] le [of "pw_id x"] by (simp add: fs)
  qed
  ultimately show ?thesis using single ok' by (simp add: single_ok_def)
qed

definition single_periods_of :: "uid \<Rightarrow> uid set \<Rightarrow> 'm penalty_db_scheme \<Rightarrow> bool" where
  "single_periods_of i fids s \<longleftrightarrow> single_ok s \<and> periods_of i fids s"

lemma keeps_single_periods_close:
  assumes "\<And>fid. only = Some fid \<Longrightarrow> fid \<in> fids"
  shows "keeps (single_periods_of i fids) (close_write i r now why only)"
proof (rule keepsI)
  fix s :: "'a penalty_db_scheme" and a s'
  assume I: "single_periods_of i fids s" and run: "close_write i r now why only s = Inr (a, s')"
  then have "period_of i only s" using assms
    by (auto simp: single_periods_of_def periods_of_def period_of_def split: option.splits)
  moreover have "periods_of i fids s'"
    using keeps_periods_of_close [OF assms] I run unfolding single_periods_of_def by (blast dest: keepsD)
  ultimately show "single_periods_of i fids s'"
    using I run single_close_write unfolding single_periods_of_def by blast
qed

lemma keeps_single_periods_emit: "keeps (single_periods_of i fids) (emit ty src p now)"
  using keeps_single_emit keeps_periods_of_emit unfolding keeps_def single_periods_of_def by blast

lemma op_keeps_single_periods_close:
  assumes "\<And>fid. only = Some fid \<Longrightarrow> fid \<in> fids"
  shows "op_keeps (single_periods_of i fids) (close_freeze_periods_in_transaction i r now why only)"
  unfolding close_freeze_periods_in_transaction_def close_events_def
  by (intro op_keeps_bind op_keeps_transition keeps_single_periods_close assms op_keeps_return)
    (auto intro!: keeps_bind keeps_for keeps_if keeps_return keeps_single_periods_emit split: prod.splits)

lemma op_keeps_single_resume: "op_keeps single_ok (resume i r now)"
proof -
  have "single_periods_of i {} = (single_ok :: 'a penalty_db_scheme \<Rightarrow> bool)"
    by (rule ext) (auto simp: single_periods_of_def periods_of_def single_ok_def)
  then show ?thesis unfolding resume_def
    using op_keeps_single_periods_close [where only = None and fids = "{}" and i = i] by (metis option.distinct(1))
qed

lemma expired_periods_of:
  assumes "penalty_ok s"
  shows "periods_of i (fp_id ` set (filter (period_expired i now) (freeze_periods s))) s"
proof -
  have "distinct (map fp_id (freeze_periods s))"
    using penalty_okD(2) [OF assms] by (simp add: freezes_ok_def)
  then show ?thesis
    using assms distinct_key_eq [of fp_id "freeze_periods s"]
    by (auto simp: periods_of_def period_expired_def)
qed

lemma op_keeps_single_close_expired: "op_keeps single_ok (close_expired_freezes i now)"
proof (rule op_keepsI)
  fix s :: "'a penalty_db_scheme" assume single: "single_ok s"
  let ?ex = "filter (period_expired i now) (freeze_periods s)"
  have start: "single_periods_of i (fp_id ` set ?ex) s"
    using single expired_periods_of [OF single_okD(1) [OF single]] by (simp add: single_periods_of_def)
  have "op_keeps (single_periods_of i (fp_id ` set ?ex))
     (op_for ?ex (\<lambda>f. close_freeze_periods_in_transaction i (fp_reason f) now EXPIRED (Some (fp_id f))))"
    by (intro op_keeps_for op_keeps_single_periods_close) auto
  with start have "single_periods_of i (fp_id ` set ?ex)
     (snd (op_for ?ex (\<lambda>f. close_freeze_periods_in_transaction i (fp_reason f) now EXPIRED (Some (fp_id f))) s))"
    by (rule op_keepsD [rotated])
  then show "single_ok (snd (close_expired_freezes i now s))"
    by (simp add: close_expired_freezes_def op_bind_def op_get_def single_periods_of_def)
qed

section \<open>Completion detection in closed form\<close>

definition completed :: "uid \<Rightarrow> time \<Rightarrow> 'm penalty_db_scheme \<Rightarrow> 'm penalty_db_scheme" where
  "completed i now s = s\<lparr>penalty_windows := update_where (\<lambda>w. pw_id w = i)
     (\<lambda>w. w\<lparr>pw_status := PW_COMPLETED, pw_closed_at := Some now,
            pw_resolution_method := Some COUNTDOWN_COMPLETE\<rparr>) (penalty_windows s)\<rparr>"

lemma complete_window_eq: "complete_window i now s = (Inr (),
    emitted ''penalty_window.completed'' ''penalty_engine''
      [(''penalty_window_id'', JId i), (''resolution_method'', JStr ''countdown_complete'')] now
      (completed i now s))"
  by (simp add: complete_window_def transition_eq tx_bind_apply tx_simps atomically_def completed_def
      emitted_def)

lemma single_complete:
  assumes single: "single_ok s" and w: "window_by_id i s = Some w" and act: "pw_status w = PW_ACTIVE"
  shows "single_ok (snd (complete_window i now s))"
    and "open_windows (snd (complete_window i now s)) = 0"
proof -
  let ?s = "snd (complete_window i now s)"
  let ?f = "\<lambda>w. w\<lparr>pw_status := PW_COMPLETED, pw_closed_at := Some now,
            pw_resolution_method := Some COUNTDOWN_COMPLETE\<rparr>"
  note ok = single_okD(1) [OF single]
  have ok': "penalty_ok ?s" using keeps_penalty_complete ok by (rule op_keepsD)
  have ws: "penalty_windows ?s = update_where (\<lambda>w. pw_id w = i) ?f (penalty_windows s)"
    and fs: "freeze_periods ?s = freeze_periods s"
    by (simp_all add: complete_window_eq completed_def)
  note win = window_by_idD [OF w]
  have only: "x = w" if "x \<in> set (penalty_windows s)" "pw_id x = i" for x
    using window_by_id_eq [OF penalty_okD(1) [OF ok] that(1)] that(2) w by simp
  have split: "count_where window_open (update_where (\<lambda>w. pw_id w = i) ?f ws)
      + count_where (\<lambda>x. pw_id x = i \<and> window_open x) ws = count_where window_open ws" for ws
    by (induction ws) (auto simp: window_open_def)
  have "0 < count_where (\<lambda>x. pw_id x = i \<and> window_open x) (penalty_windows s)"
    using win act by (auto simp: count_where_0 neq0_conv [symmetric] window_open_def simp del: neq0_conv)
  with split [of "penalty_windows s"] single_okD(2) [OF single]
  show zero: "open_windows ?s = 0" unfolding open_windows_def ws by linarith
  have "open_in i (freeze_periods s) = 0"
    using status_matchesD(1) [OF ok w] act by (simp add: status_matches_def)
  then have "\<forall>x \<in> set (penalty_windows ?s). pw_status x = PW_COMPLETED
      \<longrightarrow> open_in (pw_id x) (freeze_periods ?s) = 0"
    unfolding ws fs using single_okD(3) [OF single] by (auto elim!: in_update_whereE)
  with zero ok' show "single_ok ?s" by (simp add: single_ok_def)
qed

text \<open>Writing events changes nothing but the outbox.\<close>

definition outbox_only :: "'m outbox_db_scheme \<Rightarrow> 'm outbox_db_scheme \<Rightarrow> bool" where
  "outbox_only s s' \<longleftrightarrow> (\<exists>n es. s' = s\<lparr>next_id := n, domain_events := es\<rparr>)"

lemma outbox_only_refl [simp]: "outbox_only s s"
  by (cases s) (auto simp: outbox_only_def)

lemma outbox_only_trans: "outbox_only s s' \<Longrightarrow> outbox_only s' s'' \<Longrightarrow> outbox_only s s''"
  by (cases s) (auto simp: outbox_only_def)

lemma outbox_only_emitted: "outbox_only s (emitted ty src p now s)"
  by (cases s) (auto simp: outbox_only_def emitted_def insert_event_def)

lemma outbox_only_tables:
  fixes s s' :: "'m penalty_db_scheme"
  assumes "outbox_only s s'"
  shows "penalty_windows s' = penalty_windows s" "freeze_periods s' = freeze_periods s"
    "incident_consumption s' = incident_consumption s" "extension_decisions s' = extension_decisions s"
    "recovery_credit_decisions s' = recovery_credit_decisions s"
    "recovery_credit_ledger s' = recovery_credit_ledger s"
  using assms by (auto simp: outbox_only_def)

definition writes_events :: "('m outbox_db_scheme, unit) tx \<Rightarrow> bool" where
  "writes_events m \<longleftrightarrow> (\<forall>s. \<exists>s'. m s = Inr ((), s') \<and> outbox_only s s')"

lemma writes_events_emit: "writes_events (emit ty src p now)"
  by (simp add: writes_events_def emit_emitted outbox_only_emitted)

lemma writes_events_return: "writes_events (tx_return ())"
  by (simp add: writes_events_def tx_return_apply)

lemma writes_events_bind:
  "writes_events m \<Longrightarrow> writes_events m' \<Longrightarrow> writes_events (tx_bind m (\<lambda>_. m'))"
  unfolding writes_events_def tx_bind_apply by (metis (no_types, lifting) outbox_only_trans prod.case sum.case(2))

lemma writes_events_if: "writes_events m \<Longrightarrow> writes_events m' \<Longrightarrow> writes_events (if b then m else m')"
  by simp

lemma writes_events_for: "(\<And>x. writes_events (f x)) \<Longrightarrow> writes_events (tx_for xs f)"
  by (induction xs) (simp_all add: writes_events_return writes_events_bind)

lemmas writes_events_intros = writes_events_bind writes_events_if writes_events_for
  writes_events_emit writes_events_return

lemma transition_writes_events:
  assumes "write s = Inr (a, s1)" and "writes_events (events a)"
  shows "\<exists>s'. transition write events s = (Inr a, s') \<and> outbox_only s1 s'"
  using assms by (auto simp: transition_eq tx_bind_apply writes_events_def atomically_def tx_return_apply
      dest!: spec [of _ s1])

lemma close_write_returns: "\<exists>a s'. close_write i r now why only s = Inr (a, s')"
  by (auto simp: close_write_eq Let_def)

lemma writes_events_close: "writes_events (close_events i r now why result)"
  unfolding close_events_def by (cases result) (simp add: writes_events_intros)

lemma writes_events_freeze: "writes_events (freeze_events i r now em result)"
  unfolding freeze_events_def by (cases result) (simp add: writes_events_intros)

lemma close_eq:
  assumes "close_write i r now why only s = Inr (a, s1)"
  shows "\<exists>s'. close_freeze_periods_in_transaction i r now why only s = (Inr (), s') \<and> outbox_only s1 s'"
proof -
  obtain s' where "transition (close_write i r now why only) (close_events i r now why) s = (Inr a, s')"
    and "outbox_only s1 s'"
    using transition_writes_events [of "close_write i r now why only" s a s1
      "close_events i r now why", OF assms writes_events_close] by blast
  then show ?thesis by (auto simp: close_freeze_periods_in_transaction_def op_bind_def op_return_def)
qed

definition has_open_window :: "uid \<Rightarrow> 'm penalty_db_scheme \<Rightarrow> bool" where
  "has_open_window i s \<longleftrightarrow> (\<exists>w \<in> set (penalty_windows s). pw_id w = i \<and> window_open w)"

lemma close_write_has_open:
  assumes "close_write i r now why only s = Inr (a, s')" and "has_open_window j s"
  shows "has_open_window j s'"
proof -
  have ws: "penalty_windows s' = penalty_windows s \<or> penalty_windows s' = penalty_windows (set_active i now s)"
    using assms(1) by (auto simp: close_write_eq Let_def set_active_def split: if_splits)
  obtain w where w: "w \<in> set (penalty_windows s)" "pw_id w = j" "window_open w"
    using assms(2) by (auto simp: has_open_window_def)
  let ?f = "\<lambda>w. w\<lparr>pw_status := PW_ACTIVE, pw_active_period_started_at := Some now\<rparr>"
  have "(if pw_id w = i then ?f w else w) \<in> set (penalty_windows (set_active i now s))"
    using update_where_mem [OF w(1), of "\<lambda>w. pw_id w = i" ?f] by (simp add: set_active_def)
  moreover have "pw_id (if pw_id w = i then ?f w else w) = j" and "window_open (if pw_id w = i then ?f w else w)"
    using w by (simp_all add: window_open_def)
  ultimately have "has_open_window j (set_active i now s)" unfolding has_open_window_def by blast
  with ws assms(2) show ?thesis by (auto simp: has_open_window_def)
qed

lemma end_periods_append:
  "end_periods now why ids' (end_periods now why ids fs) = end_periods now why (ids @ ids') fs"
  unfolding end_periods_def update_where_def by (auto simp: ended_def)

lemma end_periods_cong: "set ids = set ids' \<Longrightarrow> end_periods now why ids fs = end_periods now why ids' fs"
  by (simp add: end_periods_def)

lemma close_one_period:
  assumes "distinct (map fp_id (freeze_periods s))" and "f \<in> set (freeze_periods s)" and "period_open f"
  shows "\<exists>s'. close_freeze_periods_in_transaction i r now why (Some (fp_id f)) s = (Inr (), s')
    \<and> freeze_periods s' = end_periods now why [fp_id f] (freeze_periods s)
    \<and> (has_open_window j s \<longrightarrow> has_open_window j s')"
proof -
  obtain a s1 where cw: "close_write i r now why (Some (fp_id f)) s = Inr (a, s1)"
    using close_write_returns by blast
  let ?rows = "periods_to_close i r (Some (fp_id f)) s"
  have "set ?rows = {f}" using assms distinct_key_eq [OF assms(1)]
    by (auto simp: periods_to_close_def)
  then have ids: "set (map fp_id ?rows) = set [fp_id f]" and ne: "?rows \<noteq> []" by auto
  have "freeze_periods s1 = end_periods now why (map fp_id ?rows) (freeze_periods s)"
    using cw ne by (auto simp: close_write_eq Let_def set_active_def split: if_splits)
  then have "freeze_periods s1 = end_periods now why [fp_id f] (freeze_periods s)"
    using end_periods_cong [OF ids] by simp
  moreover obtain s' where "close_freeze_periods_in_transaction i r now why (Some (fp_id f)) s = (Inr (), s')"
    "outbox_only s1 s'" using close_eq [OF cw] by blast
  ultimately show ?thesis using close_write_has_open [OF cw] outbox_only_tables [of s1 s']
    by (auto simp: has_open_window_def)
qed

lemma close_periods_each:
  assumes "distinct (map fp_id (freeze_periods s))" and "distinct (map fp_id fs)"
    and "\<forall>f \<in> set fs. f \<in> set (freeze_periods s) \<and> period_open f"
  shows "\<exists>s'. op_for fs (\<lambda>f. close_freeze_periods_in_transaction i (fp_reason f) now why (Some (fp_id f))) s = (Inr (), s')
    \<and> freeze_periods s' = end_periods now why (map fp_id fs) (freeze_periods s)
    \<and> (has_open_window j s \<longrightarrow> has_open_window j s')"
  using assms
proof (induction fs arbitrary: s)
  case Nil
  then show ?case by (simp add: op_return_def end_periods_def update_where_id)
next
  case (Cons f fs)
  obtain s1 where s1: "close_freeze_periods_in_transaction i (fp_reason f) now why (Some (fp_id f)) s = (Inr (), s1)"
    "freeze_periods s1 = end_periods now why [fp_id f] (freeze_periods s)"
    "has_open_window j s \<Longrightarrow> has_open_window j s1"
    using close_one_period [of s f i "fp_reason f" now why j] Cons.prems by auto
  have "map fp_id (freeze_periods s1) = map fp_id (freeze_periods s)"
    unfolding s1(2) end_periods_def by (rule map_update_where) simp
  moreover have "g \<in> set (freeze_periods s1)" if "g \<in> set fs" for g
  proof -
    have "g \<in> set (freeze_periods s)" using that Cons.prems(3) by simp
    moreover have "fp_id g \<in> fp_id ` set fs" using that by (rule imageI)
    then have "fp_id g \<noteq> fp_id f" using Cons.prems(2) by (metis distinct.simps(2) list.simps(9) list.set_map)
    ultimately have "g \<in> set (freeze_periods s)" "fp_id g \<noteq> fp_id f" .
    then show ?thesis unfolding s1(2) end_periods_def by (auto simp: set_update_where)
  qed
  ultimately obtain s2 where "op_for fs (\<lambda>f. close_freeze_periods_in_transaction i (fp_reason f) now why (Some (fp_id f))) s1 = (Inr (), s2)"
    "freeze_periods s2 = end_periods now why (map fp_id fs) (freeze_periods s1)"
    "has_open_window j s1 \<longrightarrow> has_open_window j s2"
    using Cons.IH [of s1] Cons.prems by auto
  then show ?case using s1 by (auto simp: op_bind_def end_periods_append)
qed

lemma close_expired_freezes_eq:
  assumes "distinct (map fp_id (freeze_periods s))"
  shows "\<exists>s'. close_expired_freezes i now s = (Inr (), s')
    \<and> freeze_periods s' = end_periods now EXPIRED
        (map fp_id (filter (period_expired i now) (freeze_periods s))) (freeze_periods s)
    \<and> (has_open_window j s \<longrightarrow> has_open_window j s')"
proof -
  let ?ex = "filter (period_expired i now) (freeze_periods s)"
  have dist: "distinct (map fp_id ?ex)" using assms by (simp add: distinct_map_filter)
  have opens: "\<forall>f \<in> set ?ex. f \<in> set (freeze_periods s) \<and> period_open f"
    by (auto simp: period_expired_def)
  have run: "close_expired_freezes i now s = op_for ?ex
      (\<lambda>f. close_freeze_periods_in_transaction i (fp_reason f) now EXPIRED (Some (fp_id f))) s"
    by (simp add: close_expired_freezes_def op_bind_def op_get_def)
  show ?thesis unfolding run by (rule close_periods_each [OF assms dist opens])
qed

lemma none_expired_after:
  assumes "freeze_periods s' = end_periods now EXPIRED
      (map fp_id (filter (period_expired i now) (freeze_periods s))) (freeze_periods s)"
    and "f \<in> set (freeze_periods s')"
  shows "\<not> period_expired i now f"
proof -
  have "f \<in> set (update_where (\<lambda>f. fp_id f \<in> set (map fp_id (filter (period_expired i now) (freeze_periods s))))
      (ended now EXPIRED) (freeze_periods s))" using assms unfolding end_periods_def by simp
  then show ?thesis
  proof (cases rule: in_update_whereE)
    case same
    then show ?thesis by auto
  next
    case changed
    then show ?thesis by (simp add: period_expired_def)
  qed
qed

lemma count_le_1_unique:
  assumes "count_where P xs \<le> 1" and "x \<in> set xs" "P x" and "y \<in> set xs" "P y"
  shows "x = y"
proof -
  have "x \<in> set (filter P xs)" "y \<in> set (filter P xs)" using assms by auto
  moreover have "length (filter P xs) \<le> 1" using assms(1) by (simp add: count_where_def)
  ultimately show ?thesis by (cases "filter P xs") auto
qed

lemma get_open_window:
  assumes "single_ok s" and "w \<in> set (penalty_windows s)" and "window_open w"
  shows "get_active_or_frozen_penalty_window s = Some w"
proof -
  have "get_active_or_frozen_penalty_window s \<noteq> None"
    using assms(2,3) by (auto simp: get_active_or_frozen_penalty_window_def filter_empty_conv)
  then obtain x where x: "get_active_or_frozen_penalty_window s = Some x" by blast
  note xo = open_windowD [OF penalty_okD(1) [OF single_okD(1) [OF assms(1)]] x]
  have "x = w" using single_okD(2) [OF assms(1)] xo(1,2) assms(2,3)
    unfolding open_windows_def by (intro count_le_1_unique [of window_open "penalty_windows s"])
  with x show ?thesis by simp
qed

lemma no_open_window: "get_active_or_frozen_penalty_window s = None \<longleftrightarrow> open_windows s = 0"
  by (simp add: get_active_or_frozen_penalty_window_def open_windows_def count_where_def)

definition settled_window :: "time \<Rightarrow> 'm penalty_db_scheme \<Rightarrow> bool" where
  "settled_window now s \<longleftrightarrow> (case get_active_or_frozen_penalty_window s of None \<Rightarrow> True
     | Some w \<Rightarrow> (\<forall>f \<in> set (freeze_periods s). \<not> period_expired (pw_id w) now f)
         \<and> \<not> (pw_status w = PW_ACTIVE \<and> is_complete w now))"

lemma ensure_settled:
  assumes "settled_window now s"
  shows "ensure_current_state now s = (Inr (get_active_or_frozen_penalty_window s), s)"
proof (cases "get_active_or_frozen_penalty_window s")
  case None
  then show ?thesis by (simp add: ensure_current_state_def op_bind_def op_get_def op_return_def)
next
  case (Some w)
  then have "filter (period_expired (pw_id w) now) (freeze_periods s) = []"
    using assms by (simp add: settled_window_def filter_empty_conv)
  then have "close_expired_freezes (pw_id w) now s = (Inr (), s)"
    by (simp add: close_expired_freezes_def op_bind_def op_get_def op_return_def)
  then show ?thesis using Some assms
    by (auto simp: ensure_current_state_def op_bind_def op_get_def op_return_def settled_window_def)
qed

lemma ensure_cases:
  assumes single: "single_ok s"
  shows "\<exists>s'. ensure_current_state now s = (Inr (get_active_or_frozen_penalty_window s'), s')
    \<and> settled_window now s' \<and> single_ok s'
    \<and> (\<exists>i. freeze_periods s' = end_periods now EXPIRED
          (map fp_id (filter (period_expired i now) (freeze_periods s))) (freeze_periods s)
        \<or> freeze_periods s' = freeze_periods s)"
proof (cases "get_active_or_frozen_penalty_window s")
  case None
  then have "settled_window now s" by (simp add: settled_window_def)
  then show ?thesis using ensure_settled single by blast
next
  case (Some w)
  note ok = single_okD(1) [OF single]
  note wo = open_windowD [OF penalty_okD(1) [OF ok] Some]
  have dist: "distinct (map fp_id (freeze_periods s))" using penalty_okD(2) [OF ok] by (simp add: freezes_ok_def)
  obtain s1 where s1: "close_expired_freezes (pw_id w) now s = (Inr (), s1)"
    and fs: "freeze_periods s1 = end_periods now EXPIRED
        (map fp_id (filter (period_expired (pw_id w) now) (freeze_periods s))) (freeze_periods s)"
    and ho: "has_open_window (pw_id w) s \<longrightarrow> has_open_window (pw_id w) s1"
    using close_expired_freezes_eq [OF dist] by blast
  have single1: "single_ok s1" using op_keepsD [OF op_keeps_single_close_expired single, of "pw_id w" now] s1 by simp
  have "has_open_window (pw_id w) s" using wo by (auto simp: has_open_window_def)
  with ho obtain w1 where w1: "w1 \<in> set (penalty_windows s1)" "pw_id w1 = pw_id w" "window_open w1"
    by (auto simp: has_open_window_def)
  have g1: "get_active_or_frozen_penalty_window s1 = Some w1" by (rule get_open_window [OF single1 w1(1,3)])
  have noexp: "\<forall>f \<in> set (freeze_periods s1). \<not> period_expired (pw_id w1) now f"
    using none_expired_after [OF fs] w1(2) by simp
  show ?thesis
  proof (cases "pw_status w1 = PW_ACTIVE \<and> is_complete w1 now")
    case True
    let ?s2 = "snd (complete_window (pw_id w1) now s1)"
    have wid: "window_by_id (pw_id w1) s1 = Some w1"
      by (rule window_by_id_eq [OF penalty_okD(1) [OF single_okD(1) [OF single1]] w1(1)])
    note sc = single_complete [OF single1 wid conjunct1 [OF True], of now]
    have none: "get_active_or_frozen_penalty_window ?s2 = None" using sc(2) by (simp add: no_open_window)
    have run: "ensure_current_state now s = (Inr None, ?s2)"
      using Some s1 g1 True
      by (simp add: ensure_current_state_def op_bind_def op_get_def op_return_def complete_window_eq)
    have "freeze_periods ?s2 = freeze_periods s1" by (simp add: complete_window_eq completed_def)
    moreover have "settled_window now ?s2" using none by (simp add: settled_window_def)
    ultimately show ?thesis using run none sc(1) fs by (intro exI [of _ ?s2]) auto
  next
    case False
    have run: "ensure_current_state now s = (Inr (Some w1), s1)"
      using Some s1 g1 False
      by (auto simp: ensure_current_state_def op_bind_def op_get_def op_return_def)
    moreover have "settled_window now s1" using g1 noexp False by (simp add: settled_window_def)
    ultimately show ?thesis using g1 single1 fs by (intro exI [of _ s1]) auto
  qed
qed

lemma op_keeps_single_ensure: "op_keeps single_ok (ensure_current_state now)"
  by (rule op_keepsI) (metis ensure_cases snd_conv)

text \<open>A period without an expiry is never closed by the detection.\<close>

lemma unexpiring_period_stays:
  assumes single: "single_ok s" and f: "f \<in> set (freeze_periods s)" and no: "fp_expires_at f = None"
  shows "f \<in> set (freeze_periods (snd (ensure_current_state now s)))"
proof -
  obtain s' i where s': "ensure_current_state now s = (Inr (get_active_or_frozen_penalty_window s'), s')"
    and fs: "freeze_periods s' = end_periods now EXPIRED
          (map fp_id (filter (period_expired i now) (freeze_periods s))) (freeze_periods s)
        \<or> freeze_periods s' = freeze_periods s"
    using ensure_cases [OF single] by blast
  have dist: "distinct (map fp_id (freeze_periods s))"
    using penalty_okD(2) [OF single_okD(1) [OF single]] by (simp add: freezes_ok_def)
  have "fp_id f \<notin> set (map fp_id (filter (period_expired i now) (freeze_periods s)))"
  proof
    assume "fp_id f \<in> set (map fp_id (filter (period_expired i now) (freeze_periods s)))"
    then obtain g where g: "g \<in> set (freeze_periods s)" "period_expired i now g" "fp_id g = fp_id f" by auto
    then have "g = f" using distinct_key_eq [OF dist] f by blast
    with g(2) no show False by (simp add: period_expired_def)
  qed
  then have "f \<in> set (end_periods now EXPIRED
      (map fp_id (filter (period_expired i now) (freeze_periods s))) (freeze_periods s))"
    unfolding end_periods_def using f by (simp add: set_update_where)
  with fs f s' show ?thesis by auto
qed

text \<open>Freezing an open window keeps the stronger invariant.\<close>

lemma keeps_single_freeze_events: "keeps single_ok (freeze_events i r now em result)"
  unfolding freeze_events_def
  by (cases result) (auto intro!: keeps_bind keeps_if keeps_return keeps_single_emit)

lemma single_freeze:
  assumes single: "single_ok s" and may: "may_freeze i s"
  shows "single_ok (snd (freeze_in_transaction i r now ex au xp em s))"
proof -
  have "single_ok (snd (transition (freeze_write i r now ex au xp) (freeze_events i r now em) s))"
  proof (cases "freeze_write i r now ex au xp s")
    case (Inl e)
    then show ?thesis using single by (simp add: transition_eq tx_bind_apply atomically_def)
  next
    case (Inr x)
    obtain a s0 where x: "x = (a, s0)" by (cases x)
    have s0: "single_ok s0" using Inr x by (intro single_freeze_write [OF single may]) simp
    obtain s1 where "freeze_events i r now em a s0 = Inr ((), s1)"
      using writes_events_freeze unfolding writes_events_def by blast
    moreover from this have "single_ok s1" using keeps_single_freeze_events s0 by (blast dest: keepsD)
    ultimately show ?thesis using Inr x
      by (simp add: transition_eq tx_bind_apply atomically_def tx_return_apply)
  qed
  then show ?thesis
    by (auto simp: freeze_in_transaction_def op_bind_def op_return_def split: prod.splits sum.splits)
qed

section \<open>A freeze followed by its end\<close>

definition after_freeze :: "penalty_window \<Rightarrow> time \<Rightarrow> penalty_window" where
  "after_freeze w t = (if pw_status w = PW_ACTIVE
     then w\<lparr>pw_status := PW_FROZEN, pw_accumulated_active_hours := active_hours_elapsed w t,
            pw_active_period_started_at := None\<rparr> else w)"

definition after_resume :: "penalty_window \<Rightarrow> time \<Rightarrow> penalty_window" where
  "after_resume w t = w\<lparr>pw_status := PW_ACTIVE, pw_active_period_started_at := Some t\<rparr>"

lemma freeze_opens:
  assumes w: "window_by_id i s = Some w" and none: "open_in i (freeze_periods s) = 0"
    and only: "\<And>x. x \<in> set (penalty_windows s) \<Longrightarrow> pw_id x = i \<Longrightarrow> x = w"
    and links: "freeze_links_ok r ex au"
  shows "\<exists>s1. freeze_in_transaction i r t1 ex au xp em s = (Inr (opened_period (next_id s) i r t1 ex au xp), s1)
    \<and> freeze_periods s1 = freeze_periods s @ [opened_period (next_id s) i r t1 ex au xp]
    \<and> penalty_windows s1 = update_where (\<lambda>x. pw_id x = i) (\<lambda>x. after_freeze x t1) (penalty_windows s)
    \<and> window_by_id i s1 = Some (after_freeze w t1)"
proof -
  let ?fp = "opened_period (next_id s) i r t1 ex au xp"
  let ?s' = "s\<lparr>next_id := Suc (next_id s), freeze_periods := freeze_periods s @ [?fp]\<rparr>"
  let ?s0 = "if pw_status w = PW_ACTIVE then set_frozen i (active_hours_elapsed w t1) ?s' else ?s'"
  let ?a = "(?fp, pw_status w = PW_ACTIVE)"
  have "freeze_index_ok i r s"
    using none by (auto simp: freeze_index_ok_def open_in_def count_where_0)
  then have wr: "freeze_write i r t1 ex au xp s = Inr (?a, ?s0)"
    using w links by (simp add: freeze_write_eq Let_def)
  obtain s1 where s1: "freeze_in_transaction i r t1 ex au xp em s = (Inr ?fp, s1)" "outbox_only ?s0 s1"
    using transition_writes_events [of "freeze_write i r t1 ex au xp" s ?a ?s0
        "freeze_events i r t1 em", OF wr writes_events_freeze]
    by (auto simp: freeze_in_transaction_def op_bind_def op_return_def)
  have fs1: "freeze_periods s1 = freeze_periods s @ [?fp]"
    using outbox_only_tables [OF s1(2)] by (simp add: set_frozen_def)
  have "penalty_windows s1 = penalty_windows ?s0" using outbox_only_tables [OF s1(2)] by simp
  also have "\<dots> = update_where (\<lambda>x. pw_id x = i) (\<lambda>x. after_freeze x t1) (penalty_windows s)"
    using only unfolding update_where_def
    by (cases "pw_status w = PW_ACTIVE")
      (auto simp: set_frozen_def update_where_def after_freeze_def intro!: map_cong map_idI [symmetric])
  finally have ws1: "penalty_windows s1 = update_where (\<lambda>x. pw_id x = i) (\<lambda>x. after_freeze x t1) (penalty_windows s)" .
  have "window_by_id i s1 = Some (after_freeze w t1)"
    using w window_by_idD [OF w] by (simp add: ws1 window_by_id_def row_by_update_where after_freeze_def)
  with s1(1) fs1 ws1 show ?thesis by blast
qed

lemma only_period_ends:
  assumes none: "open_in i fs = 0" and fs: "freeze_periods s1 = fs @ [fp]"
    and rows: "periods_to_close i r only s1 = [fp]"
  shows "\<exists>s2. close_freeze_periods_in_transaction i r t2 why only s1 = (Inr (), s2)
    \<and> penalty_windows s2 = update_where (\<lambda>x. pw_id x = i) (\<lambda>x. after_resume x t2) (penalty_windows s1)"
proof -
  let ?s1' = "s1\<lparr>freeze_periods := end_periods t2 why [fp_id fp] (freeze_periods s1)\<rparr>"
  have "f \<in> set fs \<Longrightarrow> fp_penalty_window_id f = i \<Longrightarrow> \<not> period_open f" for f
    using none by (auto simp: open_in_def count_where_0)
  then have "open_count i ?s1' = 0"
    by (auto simp: open_count_def count_where_0 end_periods_def fs elim!: in_update_whereE split: if_splits)
  then have cw: "close_write i r t2 why only s1 = Inr (([fp_id fp], True), set_active i t2 ?s1')"
    by (simp add: close_write_eq rows Let_def)
  obtain s2 where s2: "close_freeze_periods_in_transaction i r t2 why only s1 = (Inr (), s2)"
    "outbox_only (set_active i t2 ?s1') s2"
    using close_eq [OF cw] by auto
  have "penalty_windows s2 = update_where (\<lambda>x. pw_id x = i) (\<lambda>x. after_resume x t2) (penalty_windows s1)"
    using outbox_only_tables [OF s2(2)] by (simp add: set_active_def after_resume_def)
  with s2(1) show ?thesis by blast
qed

lemma resume_only_period:
  assumes none: "open_in i fs = 0" and fs: "freeze_periods s1 = fs @ [fp]"
    and fp: "fp_penalty_window_id fp = i" "fp_reason fp = r" "period_open fp"
  shows "\<exists>s2. resume i r t2 s1 = (Inr (), s2)
    \<and> penalty_windows s2 = update_where (\<lambda>x. pw_id x = i) (\<lambda>x. after_resume x t2) (penalty_windows s1)"
proof -
  have "filter (\<lambda>f. fp_penalty_window_id f = i \<and> fp_reason f = r \<and> period_open f) (freeze_periods s1) = [fp]"
    using none fp by (auto simp: fs filter_empty_conv open_in_def count_where_0)
  then have "periods_to_close i r None s1 = [fp]" by (simp add: periods_to_close_def oldest_first_def)
  from only_period_ends [OF none fs this] show ?thesis by (simp add: resume_def)
qed

lemma expire_only_period:
  assumes none: "open_in i fs = 0" and fs: "freeze_periods s1 = fs @ [fp]"
    and fresh: "fp_id fp \<notin> fp_id ` set fs" and fp: "fp_penalty_window_id fp = i" "period_open fp"
    and x: "fp_expires_at fp = Some x"
  shows "iso_le x t2 \<Longrightarrow> \<exists>s2. close_expired_freezes i t2 s1 = (Inr (), s2)
      \<and> penalty_windows s2 = update_where (\<lambda>x. pw_id x = i) (\<lambda>x. after_resume x t2) (penalty_windows s1)"
    and "\<not> iso_le x t2 \<Longrightarrow> close_expired_freezes i t2 s1 = (Inr (), s1)"
proof -
  have old: "filter (period_expired i t2) fs = []"
    using none by (auto simp: filter_empty_conv open_in_def count_where_0 period_expired_def)
  { assume "iso_le x t2"
    then have "filter (period_expired i t2) (freeze_periods s1) = [fp]"
      using old fp x by (simp add: fs period_expired_def)
    moreover have "f \<in> set fs \<Longrightarrow> fp_id f \<noteq> fp_id fp" for f using fresh by (metis imageI)
    then have "periods_to_close i (fp_reason fp) (Some (fp_id fp)) s1 = [fp]"
      using fp by (simp add: periods_to_close_def fs filter_empty_conv)
    note only_period_ends [OF none fs this, of t2 EXPIRED]
    ultimately show "\<exists>s2. close_expired_freezes i t2 s1 = (Inr (), s2)
      \<and> penalty_windows s2 = update_where (\<lambda>x. pw_id x = i) (\<lambda>x. after_resume x t2) (penalty_windows s1)"
      by (auto simp: close_expired_freezes_def op_bind_def op_get_def op_return_def) }
  assume "\<not> iso_le x t2"
  then have "filter (period_expired i t2) (freeze_periods s1) = []"
    using old fp x by (simp add: fs period_expired_def)
  then show "close_expired_freezes i t2 s1 = (Inr (), s1)"
    by (simp add: close_expired_freezes_def op_bind_def op_get_def op_return_def)
qed

lemma emergency_round:
  assumes w: "window_by_id i s = Some w" and none: "open_in i (freeze_periods s) = 0"
    and only: "\<And>x. x \<in> set (penalty_windows s) \<Longrightarrow> pw_id x = i \<Longrightarrow> x = w"
  shows "\<exists>fp s1 s2. emergency_freeze i t1 s = (Inr fp, s1)
    \<and> resume i EMERGENCY_OVERRIDE t2 s1 = (Inr (), s2)
    \<and> window_by_id i s1 = Some (after_freeze w t1)
    \<and> window_by_id i s2 = Some (after_resume (after_freeze w t1) t2)
    \<and> penalty_windows s2 = update_where (\<lambda>x. pw_id x = i) (\<lambda>x. after_resume (after_freeze x t1) t2) (penalty_windows s)"
proof -
  let ?fp = "opened_period (next_id s) i EMERGENCY_OVERRIDE t1 None None None"
  obtain s1 where s1: "emergency_freeze i t1 s = (Inr ?fp, s1)" "freeze_periods s1 = freeze_periods s @ [?fp]"
    "penalty_windows s1 = update_where (\<lambda>x. pw_id x = i) (\<lambda>x. after_freeze x t1) (penalty_windows s)"
    "window_by_id i s1 = Some (after_freeze w t1)"
    using freeze_opens [OF w none only, of EMERGENCY_OVERRIDE None None t1 None True]
    by (auto simp: emergency_freeze_def freeze_links_ok_def)
  obtain s2 where s2: "resume i EMERGENCY_OVERRIDE t2 s1 = (Inr (), s2)"
    "penalty_windows s2 = update_where (\<lambda>x. pw_id x = i) (\<lambda>x. after_resume x t2) (penalty_windows s1)"
    using resume_only_period [OF none s1(2)] by (auto simp: opened_period_def period_open_def)
  have "penalty_windows s2 = update_where (\<lambda>x. pw_id x = i) (\<lambda>x. after_resume (after_freeze x t1) t2) (penalty_windows s)"
    by (simp add: s2(2) s1(3) update_where_def comp_def after_freeze_def cong: map_cong)
  moreover have "window_by_id i s2 = Some (after_resume (after_freeze w t1) t2)"
    using s1(4) window_by_idD [OF s1(4)]
    by (simp add: s2(2) window_by_id_def row_by_update_where after_resume_def)
  ultimately show ?thesis using s1 s2 by blast
qed

section \<open>The completion detection on any table\<close>

text \<open>
  \<open>touched\<close>: rows keep their places, and only those of window i may have become active again.
\<close>

definition touched :: "uid \<Rightarrow> time \<Rightarrow> penalty_window list \<Rightarrow> penalty_window list \<Rightarrow> bool" where
  "touched i now = list_all2 (\<lambda>x y. y = x \<or> pw_id x = i \<and> y = after_resume x now)"

lemma touched_refl: "touched i now ws ws"
  unfolding touched_def by (rule list_all2_refl) simp

lemma touched_trans: "touched i now xs ys \<Longrightarrow> touched i now ys zs \<Longrightarrow> touched i now xs zs"
  unfolding touched_def
  by (erule (1) list_all2_trans [rotated]) (auto simp: after_resume_def)

lemma touched_set_active: "touched i now ws (penalty_windows (set_active i now s))"
  if "penalty_windows s = ws"
  using that unfolding touched_def
  by (auto simp: set_active_def update_where_def list_all2_map2 after_resume_def intro!: list_all2_refl)

lemma touched_close:
  "\<exists>s'. close_freeze_periods_in_transaction i r now why only s = (Inr (), s')
    \<and> touched i now (penalty_windows s) (penalty_windows s')"
proof -
  obtain a s1 where cw: "close_write i r now why only s = Inr (a, s1)" using close_write_returns by blast
  have "penalty_windows s1 = penalty_windows s \<or> penalty_windows s1 = penalty_windows (set_active i now s)"
    using cw by (auto simp: close_write_eq Let_def set_active_def split: if_splits)
  then have "touched i now (penalty_windows s) (penalty_windows s1)"
    using touched_refl touched_set_active [OF refl] by metis
  then show ?thesis using close_eq [OF cw] outbox_only_tables [of s1] by metis
qed

lemma touched_close_each:
  "op_for fs (\<lambda>f. close_freeze_periods_in_transaction i (fp_reason f) now why (Some (fp_id f))) s = (Inr (), s')
    \<Longrightarrow> touched i now (penalty_windows s) (penalty_windows s')"
proof (induction fs arbitrary: s)
  case Nil
  then show ?case by (simp add: op_return_def touched_refl)
next
  case (Cons f fs)
  obtain s1 where s1: "close_freeze_periods_in_transaction i (fp_reason f) now why (Some (fp_id f)) s = (Inr (), s1)"
    "touched i now (penalty_windows s) (penalty_windows s1)" using touched_close by blast
  then have "op_for fs (\<lambda>f. close_freeze_periods_in_transaction i (fp_reason f) now why (Some (fp_id f))) s1 = (Inr (), s')"
    using Cons.prems by (simp add: op_bind_def)
  then show ?case using Cons.IH touched_trans [OF s1(2)] by blast
qed

text \<open>Closing the periods of the newest open window leaves its row the newest open one.\<close>

lemma insort_related:
  "list_all2 R xs ys \<Longrightarrow> R x y \<Longrightarrow> (\<And>x y. R x y \<Longrightarrow> k y = k x) \<Longrightarrow>
   list_all2 R (insort_key k x xs) (insort_key k y ys)"
  by (induction rule: list_all2_induct) auto

lemma newest_first_related:
  assumes "list_all2 R xs ys" and "\<And>x y. R x y \<Longrightarrow> key y = key x"
  shows "list_all2 R (newest_first key xs) (newest_first key ys)"
  using assms unfolding newest_first_def
  by (induction rule: list_all2_induct) (auto intro: insort_related)

lemma filter_related:
  "list_all2 R xs ys \<Longrightarrow> (\<And>x y. x \<in> set xs \<Longrightarrow> R x y \<Longrightarrow> P y = P x) \<Longrightarrow>
   list_all2 R (filter P xs) (filter P ys)"
  by (induction rule: list_all2_induct) auto

lemma touched_newest:
  assumes ok: "penalty_ok s" and w: "get_active_or_frozen_penalty_window s = Some w"
    and t: "touched (pw_id w) now (penalty_windows s) (penalty_windows s1)"
  shows "\<exists>w1. get_active_or_frozen_penalty_window s1 = Some w1 \<and> (w1 = w \<or> w1 = after_resume w now)
    \<and> penalty_windows s1 = map (\<lambda>x. if x = w then w1 else x) (penalty_windows s)"
proof -
  let ?R = "\<lambda>x y. y = x \<or> pw_id x = pw_id w \<and> y = after_resume x now"
  note wo = open_windowD [OF penalty_okD(1) [OF ok] w]
  have only: "x = w" if "x \<in> set (penalty_windows s)" "pw_id x = pw_id w" for x
    using window_by_id_eq [OF penalty_okD(1) [OF ok] that(1)] that(2) wo(3) by simp
  have "list_all2 ?R (filter window_open (penalty_windows s)) (filter window_open (penalty_windows s1))"
    using t wo(2) only unfolding touched_def
    by (elim filter_related) (auto simp: window_open_def after_resume_def)
  then have "list_all2 ?R (newest_first pw_created_at (filter window_open (penalty_windows s)))
      (newest_first pw_created_at (filter window_open (penalty_windows s1)))"
    by (rule newest_first_related) (auto simp: after_resume_def)
  then obtain w1 where w1: "get_active_or_frozen_penalty_window s1 = Some w1" "w1 = w \<or> w1 = after_resume w now"
    using w unfolding get_active_or_frozen_penalty_window_def
    by (cases "newest_first pw_created_at (filter window_open (penalty_windows s))") (auto simp: list_all2_Cons1)
  have "w1 \<in> set (penalty_windows s1)"
    using first_row_SomeD [OF w1(1) [unfolded get_active_or_frozen_penalty_window_def]] by simp
  then obtain m where m: "m < length (penalty_windows s1)" "penalty_windows s1 ! m = w1" by (auto simp: in_set_conv_nth)
  have rel: "length (penalty_windows s1) = length (penalty_windows s)"
    "\<And>n. n < length (penalty_windows s) \<Longrightarrow> ?R (penalty_windows s ! n) (penalty_windows s1 ! n)"
    using t by (auto simp: touched_def list_all2_conv_all_nth)
  have "pw_id w1 = pw_id w" using w1(2) by (auto simp: after_resume_def)
  then have "pw_id (penalty_windows s ! m) = pw_id w"
    using rel(2) [of m] m rel(1) by (auto simp: after_resume_def)
  then have wm: "penalty_windows s ! m = w" using only m(1) rel(1) by simp
  have "distinct (penalty_windows s)"
    using windows_okD(1) [OF penalty_okD(1) [OF ok]] by (simp add: distinct_map)
  then have place: "n = m" if "n < length (penalty_windows s)" "penalty_windows s ! n = w" for n
    using that wm m(1) rel(1) nth_eq_iff_index_eq by metis
  have "penalty_windows s1 = map (\<lambda>x. if x = w then w1 else x) (penalty_windows s)"
  proof (rule nth_equalityI)
    show "length (penalty_windows s1) = length (map (\<lambda>x. if x = w then w1 else x) (penalty_windows s))"
      by (simp add: rel(1))
    fix n assume "n < length (penalty_windows s1)"
    then have n: "n < length (penalty_windows s)" by (simp add: rel(1))
    show "penalty_windows s1 ! n = map (\<lambda>x. if x = w then w1 else x) (penalty_windows s) ! n"
    proof (cases "penalty_windows s ! n = w")
      case True
      then show ?thesis using place [OF n True] m(2) n by simp
    next
      case False
      then show ?thesis using rel(2) [OF n] only [of "penalty_windows s ! n"] n by auto
    qed
  qed
  with w1 show ?thesis by blast
qed

text \<open>The open window after its expired periods are closed: active again when they were the last.\<close>

definition unfrozen :: "time \<Rightarrow> freeze_period list \<Rightarrow> penalty_window \<Rightarrow> penalty_window" where
  "unfrozen now fs w = (if pw_status w = PW_FROZEN
       \<and> (\<forall>f \<in> set fs. fp_penalty_window_id f = pw_id w \<and> period_open f \<longrightarrow> period_expired (pw_id w) now f)
     then w\<lparr>pw_status := PW_ACTIVE, pw_active_period_started_at := Some now\<rparr> else w)"

lemma open_in_after_expiry:
  assumes "distinct (map fp_id fs)"
  shows "open_in i (end_periods now EXPIRED (map fp_id (filter (period_expired i now) fs)) fs) = 0
    \<longleftrightarrow> (\<forall>f \<in> set fs. fp_penalty_window_id f = i \<and> period_open f \<longrightarrow> period_expired i now f)"
proof -
  have expired: "fp_id f \<in> fp_id ` {f \<in> set fs. period_expired i now f} \<longleftrightarrow> period_expired i now f"
    if "f \<in> set fs" for f using distinct_key_eq [OF assms] that by blast
  have "update_where (\<lambda>f. fp_id f \<in> fp_id ` {f \<in> set fs. period_expired i now f}) (ended now EXPIRED) fs
      = update_where (period_expired i now) (ended now EXPIRED) fs"
    unfolding update_where_def using expired by (intro map_cong) auto
  then show ?thesis
    by (auto simp: end_periods_def open_in_def count_where_0 set_update_where split: if_splits)
qed

lemma close_expired_open_window:
  assumes ok: "penalty_ok s" and w: "get_active_or_frozen_penalty_window s = Some w"
  shows "\<exists>s1. close_expired_freezes (pw_id w) now s = (Inr (), s1) \<and> penalty_ok s1
    \<and> get_active_or_frozen_penalty_window s1 = Some (unfrozen now (freeze_periods s) w)
    \<and> penalty_windows s1 = map (\<lambda>x. if x = w then unfrozen now (freeze_periods s) w else x) (penalty_windows s)
    \<and> (\<forall>f \<in> set (freeze_periods s1). \<not> period_expired (pw_id w) now f)"
proof -
  note wo = open_windowD [OF penalty_okD(1) [OF ok] w]
  have dist: "distinct (map fp_id (freeze_periods s))" using penalty_okD(2) [OF ok] by (simp add: freezes_ok_def)
  obtain s1 where s1: "close_expired_freezes (pw_id w) now s = (Inr (), s1)"
    and fs: "freeze_periods s1 = end_periods now EXPIRED
        (map fp_id (filter (period_expired (pw_id w) now) (freeze_periods s))) (freeze_periods s)"
    using close_expired_freezes_eq [OF dist] by blast
  have ok1: "penalty_ok s1" using op_keepsD [OF op_keeps_penalty_close_expired ok, of "pw_id w" now] s1 by simp
  have "touched (pw_id w) now (penalty_windows s) (penalty_windows s1)"
    by (rule touched_close_each) (use s1 in \<open>simp add: close_expired_freezes_def op_bind_def op_get_def\<close>)
  then obtain w1 where w1: "get_active_or_frozen_penalty_window s1 = Some w1" "w1 = w \<or> w1 = after_resume w now"
    "penalty_windows s1 = map (\<lambda>x. if x = w then w1 else x) (penalty_windows s)"
    using touched_newest [OF ok w] by blast
  have id: "pw_id w1 = pw_id w" using w1(2) by (auto simp: after_resume_def)
  note before = status_matchesD(1) [OF ok wo(3)]
  have after: "status_matches (pw_status w1) (open_in (pw_id w) (freeze_periods s1))"
    using status_matchesD(1) [OF ok1 open_windowD(3) [OF penalty_okD(1) [OF ok1] w1(1)]] by (simp add: id)
  have "w1 = unfrozen now (freeze_periods s) w"
  proof (cases "pw_status w = PW_FROZEN")
    case True
    have "pw_status w1 = PW_ACTIVE \<longleftrightarrow> open_in (pw_id w) (freeze_periods s1) = 0"
      using after w1(2) True by (auto simp: status_matches_def after_resume_def)
    then show ?thesis using True w1(2) unfolding fs open_in_after_expiry [OF dist]
      by (auto simp: unfrozen_def after_resume_def)
  next
    case False
    then have "open_in (pw_id w) (freeze_periods s) = 0"
      using before wo(2) by (auto simp: status_matches_def window_open_def)
    then have "filter (period_expired (pw_id w) now) (freeze_periods s) = []"
      by (auto simp: filter_empty_conv open_in_def count_where_0 period_expired_def)
    then have "s1 = s" using s1 by (simp add: close_expired_freezes_def op_bind_def op_get_def op_return_def)
    then show ?thesis using w1(1) w False by (simp add: unfrozen_def)
  qed
  with s1 ok1 w1(1,3) none_expired_after [OF fs] show ?thesis by blast
qed

end
