(* ===== verification/Incident_Source.thy ===== *)
theory Incident_Source
  imports Penalty_Facts
begin

text \<open>
  The interface between the Penalty Engine and the Trust Manager: \<open>start_window_if_eligible\<close>
  takes two reads, and consumes every candidate when the reads agree with each other and do not
  depend on the Penalty Engine's own tables. The Trust Manager's reads are an interpretation.
\<close>

lemma emit_consumption_writes_events: "writes_events (emit_consumption_events r now)"
  unfolding emit_consumption_events_def emit_started_def emit_decision_recorded_def
  by (cases r) (simp add: writes_events_intros)

definition consumption_result ::
  "uid \<Rightarrow> string \<Rightarrow> severity_tier \<Rightarrow> cooperation_assessment \<Rightarrow> time
     \<Rightarrow> penalty_window \<Rightarrow> 'm penalty_db_scheme \<Rightarrow> penalty_window" where
  "consumption_result i g sev coop now w s = w\<lparr>pw_extensions_hours :=
     pw_extensions_hours w + ed_assigned_hours (decision_for i w g sev coop now s)\<rparr>"

text \<open>The public operation: nothing on an already consumed incident, else one consumption.\<close>

lemma consume_op_again:
  "consumed i s \<Longrightarrow> consume_confirmed_incident i d g sev coop now base s = (Inr None, s)"
  by (simp add: consume_confirmed_incident_def op_bind_def transition_eq tx_bind_apply consume_already
      consumption_events_def tx_return_apply atomically_def op_return_def)

lemma consume_op_fresh:
  assumes "\<not> consumed i s" and "open_or_start_window now base s = Inr ((w, started), s1)"
  shows "\<exists>s'. consume_confirmed_incident i d g sev coop now base s
      = (Inr (Some (consumption_result i g sev coop now w s1)), s')
    \<and> outbox_only (decided (consumption_of i w d g now) (decision_for i w g sev coop now s1) s1) s'"
proof -
  let ?dec = "decision_for i w g sev coop now s1"
  let ?r = "(consumption_result i g sev coop now w s1, ?dec, started)"
  have w: "consume_confirmed_incident_in_transaction i d g sev coop now base s
      = Inr (Some ?r, decided (consumption_of i w d g now) ?dec s1)"
    using consume_eq [OF assms] by (simp add: Let_def consumption_result_def)
  have ev: "writes_events (consumption_events now (Some ?r))"
    by (simp add: consumption_events_def emit_consumption_writes_events)
  obtain s' where "transition (consume_confirmed_incident_in_transaction i d g sev coop now base)
       (consumption_events now) s = (Inr (Some ?r), s')"
    and "outbox_only (decided (consumption_of i w d g now) ?dec s1) s'"
    using transition_writes_events [of "consume_confirmed_incident_in_transaction i d g sev coop now base"
        s "Some ?r" _ "consumption_events now", OF w ev] by blast
  then show ?thesis by (simp add: consume_confirmed_incident_def op_bind_def op_return_def)
qed

lemma open_or_start_incidents:
  "open_or_start_window now base s = Inr (a, s1) \<Longrightarrow> incidents s1 = incidents s
     \<and> incident_consumption s1 = incident_consumption s"
  by (auto simp: open_or_start_window_def tx_bind_apply tx_simps split: option.splits)

lemma consume_op_facts:
  "\<exists>w s'. consume_confirmed_incident i d g sev coop now base s = (Inr w, s')
    \<and> incidents s' = incidents s \<and> consumed i s' \<and> (\<forall>j. consumed j s \<longrightarrow> consumed j s')
    \<and> (\<not> consumed i s \<longrightarrow> w \<noteq> None)"
proof (cases "consumed i s")
  case True
  then show ?thesis by (simp add: consume_op_again)
next
  case False
  obtain w started s1 where o: "open_or_start_window now base s = Inr ((w, started), s1)"
    using open_or_start_returns by blast
  obtain s' where s': "consume_confirmed_incident i d g sev coop now base s
      = (Inr (Some (consumption_result i g sev coop now w s1)), s')"
    "outbox_only (decided (consumption_of i w d g now) (decision_for i w g sev coop now s1) s1) s'"
    using consume_op_fresh [OF False o] by blast
  have "incidents s' = incidents s" and ic: "incident_consumption s' = incident_consumption s @ [consumption_of i w d g now]"
    using s'(2) open_or_start_incidents [OF o] by (auto simp: outbox_only_def decided_def)
  then show ?thesis using s'(1) by (auto simp: consumed_def consumption_of_def)
qed

section \<open>The contract\<close>

locale incident_source =
  fixes source_ok :: "'m penalty_db_scheme \<Rightarrow> bool"
    and get_since :: "time \<Rightarrow> 'm penalty_db_scheme \<Rightarrow> confirmed_incident_summary list"
    and get_assessment :: "uid \<Rightarrow> 'm penalty_db_scheme \<Rightarrow> exn + incident_assessment option"
  assumes assessed: "source_ok s \<Longrightarrow> c \<in> set (get_since t s) \<Longrightarrow>
      \<exists>a. get_assessment (cs_id c) s = Inr (Some a)"
    and own_tables: "incidents s' = incidents s \<Longrightarrow> get_assessment i s' = get_assessment i s"
begin

lemma consume_candidates_all:
  assumes "\<forall>c \<in> set cs. \<exists>a. get_assessment (cs_id c) s = Inr (Some a)"
  shows "\<exists>w s'. consume_candidates get_assessment base now cs r s = (Inr w, s')
    \<and> incidents s' = incidents s \<and> (\<forall>c \<in> set cs. consumed (cs_id c) s')
    \<and> (\<forall>j. consumed j s \<longrightarrow> consumed j s')"
  using assms
proof (induction cs arbitrary: r s)
  case Nil
  then show ?case by simp
next
  case (Cons c cs)
  obtain a where a: "get_assessment (cs_id c) s = Inr (Some a)" using Cons.prems by auto
  obtain w s1 where s1: "consume_confirmed_incident (cs_id c) (cs_trust_domain c) (cs_rule_group_id c)
      (intrinsic_severity a) (assessment_cooperation a) now base s = (Inr w, s1)"
    "incidents s1 = incidents s" "consumed (cs_id c) s1" "\<forall>j. consumed j s \<longrightarrow> consumed j s1"
    using consume_op_facts by blast
  have "\<forall>c \<in> set cs. \<exists>a. get_assessment (cs_id c) s1 = Inr (Some a)"
    using Cons.prems own_tables [OF s1(2)] by simp
  then obtain w' s' where "consume_candidates get_assessment base now cs w s1 = (Inr w', s')"
    "incidents s' = incidents s1" "\<forall>c \<in> set cs. consumed (cs_id c) s'"
    "\<forall>j. consumed j s1 \<longrightarrow> consumed j s'"
    using Cons.IH by blast
  then show ?case using a s1 by auto
qed

lemma start_consumes_all:
  assumes "source_ok s"
  shows "\<exists>w s'. start_window_if_eligible get_since get_assessment base now s = (Inr w, s')
    \<and> (\<forall>c \<in> set (get_since (last_window_closed_at s) s). consumed (cs_id c) s')"
proof -
  let ?cs = "get_since (last_window_closed_at s) s"
  let ?un = "filter (\<lambda>c. \<not> consumed (cs_id c) s) ?cs"
  have "\<forall>c \<in> set ?un. \<exists>a. get_assessment (cs_id c) s = Inr (Some a)"
    using assessed [OF assms] by auto
  then obtain w s' where run: "consume_candidates get_assessment base now ?un None s = (Inr w, s')"
    "\<forall>c \<in> set ?un. consumed (cs_id c) s'" "\<forall>j. consumed j s \<longrightarrow> consumed j s'"
    using consume_candidates_all by blast
  show ?thesis
  proof (cases "?un = []")
    case True
    then have "start_window_if_eligible get_since get_assessment base now s = (Inr None, s)"
      by (simp add: start_window_if_eligible_def Let_def)
    moreover have "\<forall>c \<in> set ?cs. consumed (cs_id c) s" using True by (auto simp: filter_empty_conv)
    ultimately show ?thesis by blast
  next
    case False
    then have "?cs \<noteq> []" by auto
    with False have "start_window_if_eligible get_since get_assessment base now s = (Inr w, s')"
      using run(1) by (simp add: start_window_if_eligible_def Let_def)
    moreover have "\<forall>c \<in> set ?cs. consumed (cs_id c) s'" using run(2,3) by auto
    ultimately show ?thesis by blast
  qed
qed

end

section \<open>The Trust Manager provides it\<close>

lemma confirmed_incident_assessed:
  assumes "trust_ok s" and "c \<in> set (get_confirmed_incidents_since t s)"
  shows "\<exists>a. get_incident_assessment (cs_id c) s = Inr (Some a)"
proof -
  obtain r where r: "r \<in> set (incidents s)" "in_confirmation r = CONFIRMED" "cs_id c = in_id r"
    using assms(2) by (auto simp: get_confirmed_incidents_since_def)
  have "row_by in_id (in_id r) (incidents s) = Some r"
    by (rule row_by_unique [OF trust_okD(3) [OF assms(1)] r(1)])
  moreover have "in_assessment r \<noteq> None"
    using trust_okD(4) [OF assms(1) r(1)] r(2) by (simp add: incident_ok_def)
  ultimately show ?thesis using r(2,3)
    by (auto simp: get_incident_assessment_def row_to_assessment_def)
qed

interpretation trust_source: incident_source trust_ok get_confirmed_incidents_since get_incident_assessment
  by unfold_locales (rule confirmed_incident_assessed, assumption+, simp add: get_incident_assessment_def)

end
