(* ===== verification/Frames.thy ===== *)
theory Frames
  imports Penalty_Facts Recovery_Plan Incident_Source
begin

text \<open>
  What each module leaves alone. A module writes only its own tables, draws identifiers and
  appends events; so a property of the database that depends on none of these tables and survives
  the outbox survives every operation of the module. Each locale states that contract for one
  module (\<open>fixes\<close> the property, \<open>assumes\<close> its independence) and carries it through the module's
  operations; the interpretations put in the invariants of the other modules, and the tables of
  the modules above.
\<close>

section \<open>The Trust Manager\<close>

locale trust_scores =
  fixes I :: "'m trust_db_scheme \<Rightarrow> bool"
  assumes new_id: "keeps I new_id"
    and emit: "keeps I (emit ty src p now)"
    and domains: "I s \<Longrightarrow> I (s\<lparr>trust_domains := a\<rparr>)"
    and state: "I s \<Longrightarrow> I (s\<lparr>trust_domain_state := b\<rparr>)"
    and evidence: "I s \<Longrightarrow> I (s\<lparr>trust_evidence := trust_evidence s @ [e]\<rparr>)"
    and recalculations: "I s \<Longrightarrow> I (s\<lparr>trust_recalculations := f\<rparr>)"
    and applied: "I s \<Longrightarrow> I (s\<lparr>trust_recalculation_evidence := trust_recalculation_evidence s @ [g]\<rparr>)"
begin

lemmas tables = domains state evidence recalculations applied

lemma keeps_recalculate: "keeps I (recalculate_domain_trust_in_transaction d t now)"
  unfolding recalculate_domain_trust_in_transaction_def insert_recalc_evidence_def Let_def
    insert_recalculation_def finish_recalculation_def
  by (intro keeps_bind keeps_get keeps_the keeps_require keeps_return keeps_for keeps_modify new_id tables)

lemma keeps_insert_evidence: "keeps I (insert_trust_evidence_for_incident inc t c now)"
  unfolding insert_trust_evidence_for_incident_def insert_trust_evidence_def Let_def
  by (intro keeps_bind keeps_get keeps_require keeps_return keeps_modify new_id tables)

lemma keeps_evidence_event: "keeps I (emit_evidence_recorded e now)"
  unfolding emit_evidence_recorded_def by (rule emit)

lemma create: "op_keeps I (create_domain d n ds via now so co)"
  unfolding create_domain_def Let_def
  by (intro op_keeps_transition keeps_bind keeps_get keeps_require keeps_return keeps_modify emit tables)

lemma deactivate: "op_keeps I (deactivate_domain d via now)"
  unfolding deactivate_domain_def by (intro op_keeps_transition keeps_modify emit tables)

lemma reactivate: "op_keeps I (reactivate_domain d via now)"
  unfolding reactivate_domain_def by (intro op_keeps_transition keeps_modify emit tables)

lemma recalculate: "op_keeps I (recalculate_domain_trust d t now)"
  unfolding recalculate_domain_trust_def
  by (intro op_keeps_transition keeps_recalculate emit)

end

text \<open>The operations that also write incidents.\<close>

locale trust_frame = trust_scores +
  assumes incidents: "I s \<Longrightarrow> I (s\<lparr>incidents := c\<rparr>)"
    and confirmations: "I s \<Longrightarrow> I (s\<lparr>confirmation_records := confirmation_records s @ [d]\<rparr>)"
begin

lemma report: "op_keeps I (register_incident_report g d descr ev now)"
  unfolding register_incident_report_def Let_def
  by (intro op_keeps_transition keeps_bind keeps_get keeps_require keeps_return keeps_modify new_id emit tables incidents confirmations)

lemma keeps_confirm_write: "keeps I (confirm_write inc new source descr c now)"
  unfolding confirm_write_def confirm_effects_def Let_def update_incident_assessment_def
  by (intro keeps_bind keeps_if keeps_get keeps_require keeps_return keeps_modify new_id emit tables incidents confirmations
      keeps_insert_evidence keeps_evidence_event keeps_recalculate)

lemma confirm: "op_keeps I (confirm_incident i new source descr c now)"
  unfolding confirm_incident_def load_incident_def
  by (intro op_keeps_apply_transition keeps_bind keeps_get keeps_the keeps_confirm_write)
    (simp add: emit split: prod.split)

lemma repair: "op_keeps I (repair_incident now inc)"
  unfolding repair_incident_def Let_def update_incident_assessment_def
  by (intro op_keeps_bind op_keeps_return op_keeps_transition keeps_bind keeps_modify tables incidents confirmations
      keeps_insert_evidence keeps_evidence_event)

lemma recover: "op_keeps I (recover_trust_manager_state now)"
proof (rule op_keepsI)
  fix s :: "'a trust_db_scheme"
  assume "I s"
  moreover have "op_keeps I (op_bind (op_for xs (repair_incident now)) (\<lambda>_. op_return n))"
    for xs and n :: nat
    by (intro op_keeps_bind op_keeps_for op_keeps_return repair)
  ultimately show "I (snd (recover_trust_manager_state now s))"
    unfolding recover_trust_manager_state_def Let_def by (blast intro: op_keepsD)
qed

lemmas operations = create deactivate reactivate recalculate report confirm recover

end

section \<open>The Penalty Engine\<close>

text \<open>
  Windows are appended or changed in place, never removed, so a property may also depend on
  which windows exist.
\<close>

locale window_tables =
  fixes I :: "'m penalty_db_scheme \<Rightarrow> bool"
  assumes new_id: "keeps I new_id"
    and change_window: "I s \<Longrightarrow> (\<And>w. pw_id (h w) = pw_id w) \<Longrightarrow>
      I (s\<lparr>penalty_windows := update_where q h (penalty_windows s)\<rparr>)"
    and freezes: "I s \<Longrightarrow> I (s\<lparr>freeze_periods := a\<rparr>)"
begin

lemma keeps_set_frozen: "keeps I (tx_modify (set_frozen i x))"
  unfolding set_frozen_def by (intro keeps_modify change_window) simp_all

lemma keeps_freeze_write: "keeps I (freeze_write i r now ex au xp)"
proof -
  have "keeps I (tx_modify (\<lambda>s. s\<lparr>freeze_periods := freeze_periods s @ [p]\<rparr>))" for p
    by (intro keeps_modify freezes)
  then show ?thesis unfolding freeze_write_def Let_def
    by (intro keeps_bind keeps_if keeps_get keeps_the keeps_require keeps_return
        keeps_set_frozen new_id)
qed

lemma keeps_close_write: "keeps I (close_write i r now why only)"
proof -
  have "keeps I (tx_modify (end_period now why fid))" for fid
    unfolding end_period_def by (intro keeps_modify freezes)
  moreover have "keeps I (tx_modify (set_active i now))"
    unfolding set_active_def by (intro keeps_modify change_window) simp_all
  ultimately show ?thesis
    unfolding close_write_def by (intro keeps_bind keeps_if keeps_get keeps_return keeps_for)
qed

end

locale credit_tables = window_tables +
  assumes credits: "I s \<Longrightarrow> I (s\<lparr>recovery_credit_decisions := recovery_credit_decisions s @ [d]\<rparr>)"
    and ledger: "I s \<Longrightarrow> I (s\<lparr>recovery_credit_ledger := recovery_credit_ledger s @ [e]\<rparr>)"
begin

lemma keeps_credit: "keeps I (record_recovery_credit_in_transaction k i x now)"
proof (rule keepsI)
  fix s s' :: "'a penalty_db_scheme" and a
  assume I: "I s" and run: "record_recovery_credit_in_transaction k i x now s = Inr (a, s')"
  have both: "I (t\<lparr>penalty_windows := update_where q h (penalty_windows t),
      recovery_credit_ledger := recovery_credit_ledger t @ [l]\<rparr>)"
    if "I t" and "\<And>w. pw_id (h w) = pw_id w" for t q h l
  proof -
    have "I (t\<lparr>penalty_windows := update_where q h (penalty_windows t)\<rparr>)"
      using that by (rule change_window)
    from ledger [OF this, of l] show ?thesis by simp
  qed
  have "keeps I (record_recovery_credit_in_transaction k i x now)"
    unfolding record_recovery_credit_in_transaction_def Let_def
    by (intro keeps_bind keeps_get)
      (auto split: option.split simp: tx_simps intro!: keeps_bind keeps_get keeps_the keeps_return
        keeps_modify new_id credits both)
  then show "I s'" using I run by (rule keepsD)
qed

end

locale penalty_tables = credit_tables +
  assumes add_window: "I s \<Longrightarrow> I (s\<lparr>penalty_windows := penalty_windows s @ [w]\<rparr>)"
    and consumption: "I s \<Longrightarrow> I (s\<lparr>incident_consumption := incident_consumption s @ [b]\<rparr>)"
    and decisions: "I s \<Longrightarrow> I (s\<lparr>extension_decisions := extension_decisions s @ [c]\<rparr>)"
begin

lemma keeps_open_or_start: "keeps I (open_or_start_window now base)"
  unfolding open_or_start_window_def
  by (intro keeps_bind keeps_get) (auto split: option.split intro!: keeps_bind keeps_return new_id
      keeps_modify add_window)

lemma keeps_consume: "keeps I (consume_confirmed_incident_in_transaction i d g sev c now base)"
proof -
  have "keeps I (tx_modify (add_extension_hours j x))" for j x
    unfolding add_extension_hours_def by (intro keeps_modify change_window) simp_all
  then show ?thesis
    unfolding consume_confirmed_incident_in_transaction_def Let_def case_prod_beta
    by (intro keeps_bind keeps_if keeps_get keeps_return keeps_open_or_start new_id)
      (auto intro: keeps_modify consumption decisions)
qed

end

text \<open>The operations that also publish what they did.\<close>

locale window_frame = window_tables +
  assumes emit: "keeps I (emit ty src p now)"
begin

lemma freeze_op: "op_keeps I (freeze_in_transaction i r now ex au xp em)"
proof -
  have "keeps I (freeze_events i r now em x)" for x
    unfolding freeze_events_def case_prod_beta by (intro keeps_bind keeps_if keeps_return emit)
  then show ?thesis unfolding freeze_in_transaction_def case_prod_beta
    by (intro op_keeps_bind op_keeps_return op_keeps_transition keeps_freeze_write)
qed

lemma freeze: "op_keeps I (freeze_window i r now ex au xp)"
  unfolding freeze_window_def by (rule freeze_op)

lemma emergency: "op_keeps I (emergency_freeze i now)"
  unfolding emergency_freeze_def by (rule freeze_op)

lemma close: "op_keeps I (close_freeze_periods_in_transaction i r now why only)"
proof -
  have "keeps I (close_events i r now why x)" for x
    unfolding close_events_def case_prod_beta
    by (intro keeps_bind keeps_if keeps_for keeps_return emit)
  then show ?thesis unfolding close_freeze_periods_in_transaction_def
    by (intro op_keeps_bind op_keeps_return op_keeps_transition keeps_close_write)
qed

lemma resume: "op_keeps I (resume i r now)"
  unfolding resume_def by (rule close)

lemma complete: "op_keeps I (complete_window i now)"
  unfolding complete_window_def
  by (intro op_keeps_transition keeps_modify change_window emit) simp_all

lemma close_expired: "op_keeps I (close_expired_freezes i now)"
  unfolding close_expired_freezes_def by (intro op_keeps_bind op_keeps_get op_keeps_for close)

lemma ensure: "op_keeps I (ensure_current_state now)"
  unfolding ensure_current_state_def
  by (intro op_keeps_bind op_keeps_get)
    (auto split: option.split intro!: op_keeps_bind op_keeps_get op_keeps_return close_expired complete)

lemma recover: "op_keeps I (recover_penalty_window_state now)"
  unfolding recover_penalty_window_state_def by (intro op_keeps_bind op_keeps_return ensure)

lemma keeps_credit_event: "keeps I (emit_recovery_credit_event d now)"
  unfolding emit_recovery_credit_event_def by (rule emit)

lemmas window_operations = freeze emergency resume ensure recover

end

locale penalty_frame = penalty_tables + window_frame
begin

lemma keeps_events: "keeps I (emit_consumption_events r now)"
  unfolding emit_consumption_events_def emit_started_def emit_decision_recorded_def case_prod_beta
  by (intro keeps_bind keeps_if keeps_return emit)

lemma consume: "op_keeps I (consume_confirmed_incident i d g sev c now base)"
  unfolding consume_confirmed_incident_def consumption_events_def
  by (intro op_keeps_bind op_keeps_return op_keeps_transition keeps_consume)
    (simp add: keeps_return keeps_events split: option.split)

lemma start: "op_keeps I (start_window_if_eligible gs ga base now)"
  by (rule op_keeps_start) (rule consume)

lemmas operations = consume start window_operations

end

end
