(* ===== verification/Recovery_Facts.thy ===== *)
theory Recovery_Facts
  imports Frames
begin

text \<open>
  The invariant of the Recovery Plan's tables and its preservation by every operation: one plan per
  window, every task under a version of an existing plan, open tasks only under the current version
  (RP-4), and exactly one completion for each completed task (RP-2). The locale \<open>recovery_frame\<close>
  says what the module leaves alone.
\<close>

section \<open>The invariant\<close>

definition task_fits :: "recovery_plan list \<Rightarrow> recovery_task \<Rightarrow> bool" where
  "task_fits ps t \<longleftrightarrow> (\<exists>p \<in> set ps. rp_id p = rt_recovery_plan_id t
     \<and> rt_plan_version t \<le> rp_current_version p
     \<and> (task_open t \<longrightarrow> rt_plan_version t = rp_current_version p))"

definition completed_task_keys :: "recovery_task list \<Rightarrow> (uid \<times> uid) set" where
  "completed_task_keys ts =
     {(rt_id t, rt_recovery_plan_id t) | t. t \<in> set ts \<and> rt_status t = RT_COMPLETED}"

definition plans_ok :: "'m recovery_db_scheme \<Rightarrow> bool" where
  "plans_ok s \<longleftrightarrow> distinct (map rp_id (recovery_plans s))
     \<and> distinct (map rp_penalty_window_id (recovery_plans s))
     \<and> (\<forall>p \<in> set (recovery_plans s). rp_id p < next_id s
          \<and> rp_penalty_window_id p \<in> pw_id ` set (penalty_windows s))"

definition tasks_ok :: "'m recovery_db_scheme \<Rightarrow> bool" where
  "tasks_ok s \<longleftrightarrow> distinct (map rt_id (recovery_tasks s))
     \<and> (\<forall>t \<in> set (recovery_tasks s). rt_id t < next_id s \<and> task_fits (recovery_plans s) t)"

definition completions_ok :: "'m recovery_db_scheme \<Rightarrow> bool" where
  "completions_ok s \<longleftrightarrow> distinct (map rc_id (recovery_task_completions s))
     \<and> distinct (map rc_recovery_task_id (recovery_task_completions s))
     \<and> (\<forall>c \<in> set (recovery_task_completions s). rc_id c < next_id s)
     \<and> (\<lambda>c. (rc_recovery_task_id c, rc_recovery_plan_id c)) ` set (recovery_task_completions s)
         = completed_task_keys (recovery_tasks s)"

definition recovery_ok :: "'m recovery_db_scheme \<Rightarrow> bool" where
  "recovery_ok s \<longleftrightarrow> plans_ok s \<and> tasks_ok s \<and> completions_ok s"

lemmas recovery_ok_defs = recovery_ok_def plans_ok_def tasks_ok_def completions_ok_def

lemma recovery_okD:
  assumes "recovery_ok s"
  shows "plans_ok s" "tasks_ok s" "completions_ok s"
  using assms by (simp_all add: recovery_ok_def)

lemma recovery_ok_transfer:
  fixes s s' :: "'m recovery_db_scheme"
  assumes "recovery_ok s" and "next_id s \<le> next_id s'"
    and "pw_id ` set (penalty_windows s) \<subseteq> pw_id ` set (penalty_windows s')"
    and "recovery_plans s' = recovery_plans s" and "recovery_tasks s' = recovery_tasks s"
    and "recovery_task_completions s' = recovery_task_completions s"
  shows "recovery_ok s'"
proof -
  have "plans_ok s'" using recovery_okD(1) [OF assms(1)] assms(2-4)
    unfolding plans_ok_def by (simp, meson le_trans less_le_trans subsetD)
  moreover have "tasks_ok s'" using recovery_okD(2) [OF assms(1)] assms(2,4,5)
    unfolding tasks_ok_def by (simp, meson less_le_trans)
  moreover have "completions_ok s'" using recovery_okD(3) [OF assms(1)] assms(2,5,6)
    unfolding completions_ok_def by (simp, meson less_le_trans)
  ultimately show ?thesis by (simp add: recovery_ok_def)
qed

lemma recovery_ok_insert_event [simp]: "recovery_ok (insert_event r s) = recovery_ok s"
  by (simp add: recovery_ok_defs insert_event_def)

lemma recovery_ok_new_id: "recovery_ok s \<Longrightarrow> recovery_ok (s\<lparr>next_id := Suc (next_id s)\<rparr>)"
  by (rule recovery_ok_transfer, assumption) simp_all

lemma keeps_recovery_new_id [keeps_intros]: "keeps recovery_ok new_id"
  by (simp add: keeps_def tx_simps recovery_ok_new_id)

lemma keeps_recovery_emit [keeps_intros]: "keeps recovery_ok (emit ty src p now)"
  by (simp add: keeps_def tx_simps recovery_ok_new_id)

interpretation recovery_below_trust: trust_frame recovery_ok
  by unfold_locales
    (simp_all add: keeps_recovery_new_id keeps_recovery_emit, simp_all add: recovery_ok_defs)

interpretation recovery_below_penalty: penalty_frame recovery_ok
proof unfold_locales
  fix s :: "'a recovery_db_scheme" and w :: penalty_window
    and q and h :: "penalty_window \<Rightarrow> penalty_window"
  assume ok: "recovery_ok s"
  show "recovery_ok (s\<lparr>penalty_windows := penalty_windows s @ [w]\<rparr>)"
    by (rule recovery_ok_transfer [OF ok]) auto
  assume "\<And>w. pw_id (h w) = pw_id w"
  then have "map pw_id (update_where q h (penalty_windows s)) = map pw_id (penalty_windows s)"
    by (rule map_update_where)
  then have "pw_id ` set (update_where q h (penalty_windows s)) = pw_id ` set (penalty_windows s)"
    by (metis list.set_map)
  then show "recovery_ok (s\<lparr>penalty_windows := update_where q h (penalty_windows s)\<rparr>)"
    by (intro recovery_ok_transfer [OF ok]) simp_all
qed (simp_all add: keeps_recovery_new_id keeps_recovery_emit, simp_all add: recovery_ok_defs)

section \<open>The module's operations keep it\<close>

lemma ball_update_where:
  "(\<And>r. r \<in> set rs \<Longrightarrow> P (if c r then f r else r)) \<Longrightarrow> \<forall>r \<in> set (update_where c f rs). P r"
  unfolding update_where_def set_map by blast

lemma task_fitsI:
  "p \<in> set ps \<Longrightarrow> rp_id p = rt_recovery_plan_id t \<Longrightarrow> rt_plan_version t \<le> rp_current_version p \<Longrightarrow>
   (task_open t \<Longrightarrow> rt_plan_version t = rp_current_version p) \<Longrightarrow> task_fits ps t"
  by (auto simp: task_fits_def)

lemma task_fits_mono:
  assumes "task_fits ps t" and "set ps \<subseteq> set ps'"
  shows "task_fits ps' t"
  using assms by (auto simp: task_fits_def)

lemma task_fits_update:
  assumes "task_fits ps t"
    and "\<And>p. q p \<Longrightarrow> rp_id (f p) = rp_id p \<and> rp_current_version (f p) = rp_current_version p"
  shows "task_fits (update_where q f ps) t"
proof -
  obtain p where p: "p \<in> set ps" "rp_id p = rt_recovery_plan_id t"
    "rt_plan_version t \<le> rp_current_version p" "task_open t \<longrightarrow> rt_plan_version t = rp_current_version p"
    using assms(1) by (auto simp: task_fits_def)
  show ?thesis unfolding task_fits_def
    by (rule bexI [OF _ update_where_mem [OF p(1)]]) (use p assms(2) in auto)
qed

definition new_plan :: "uid \<Rightarrow> uid \<Rightarrow> real \<Rightarrow> time \<Rightarrow> recovery_plan" where
  "new_plan i w base now = \<lparr>rp_id = i, rp_penalty_window_id = w, rp_status = RP_ACTIVE,
     rp_current_version = 1, rp_capacity_hours = base / 2, rp_created_at = now,
     rp_status_changed_at = now\<rparr>"

lemma create_plan_eq: "create_plan_in_transaction w base now s =
  (if window_by_id w s \<noteq> None \<and> get_recovery_plan_for_window w s = None
   then Inr (new_plan (next_id s) w base now,
     s\<lparr>next_id := Suc (next_id s), recovery_plans := recovery_plans s @ [new_plan (next_id s) w base now]\<rparr>)
   else Inl IntegrityError)"
  by (simp add: create_plan_in_transaction_def new_id_def tx_bind_apply tx_simps Let_def new_plan_def
      window_by_id_def get_recovery_plan_for_window_def)

lemma keeps_recovery_create: "keeps recovery_ok (create_plan_in_transaction w base now)"
proof (rule keepsI)
  fix s s' :: "'a recovery_db_scheme" and a
  assume ok: "recovery_ok s" and run: "create_plan_in_transaction w base now s = Inr (a, s')"
  have s': "s' = s\<lparr>next_id := Suc (next_id s), recovery_plans := recovery_plans s @ [new_plan (next_id s) w base now]\<rparr>"
    and keys: "window_by_id w s \<noteq> None" "get_recovery_plan_for_window w s = None"
    using run by (auto simp: create_plan_eq split: if_splits)
  have known: "w \<in> pw_id ` set (penalty_windows s)" and fresh: "w \<notin> rp_penalty_window_id ` set (recovery_plans s)"
    using keys by (auto simp: window_by_id_def get_recovery_plan_for_window_def row_by_None dest!: row_by_SomeD)
  have "plans_ok s'" using recovery_okD(1) [OF ok] known fresh
    by (auto simp: s' plans_ok_def new_plan_def less_Suc_eq)
  moreover have "tasks_ok s'" using recovery_okD(2) [OF ok]
    by (auto simp: s' tasks_ok_def less_Suc_eq intro: task_fits_mono)
  moreover have "completions_ok s'" using recovery_okD(3) [OF ok]
    by (auto simp: s' completions_ok_def less_Suc_eq)
  ultimately show "recovery_ok s'" by (simp add: recovery_ok_def)
qed

lemma plans_ok_update:
  fixes s :: "'m recovery_db_scheme"
  assumes "plans_ok s" and f: "\<And>p. rp_id (f p) = rp_id p \<and> rp_penalty_window_id (f p) = rp_penalty_window_id p"
  shows "plans_ok (s\<lparr>recovery_plans := update_where q f (recovery_plans s)\<rparr>)"
proof -
  have maps: "map rp_id (update_where q f (recovery_plans s)) = map rp_id (recovery_plans s)"
    "map rp_penalty_window_id (update_where q f (recovery_plans s)) = map rp_penalty_window_id (recovery_plans s)"
    using f by (auto intro!: map_update_where)
  moreover have "rp_id p < next_id s \<and> rp_penalty_window_id p \<in> pw_id ` set (penalty_windows s)"
    if "p \<in> set (update_where q f (recovery_plans s))" for p
    using that assms by (cases rule: in_update_whereE) (auto simp: plans_ok_def)
  ultimately show ?thesis using assms(1) by (simp add: plans_ok_def)
qed

lemma keeps_recovery_mirror: "keeps recovery_ok (mirror_status_in_transaction w st now)"
proof -
  have upd: "recovery_ok (s\<lparr>recovery_plans := update_where (\<lambda>p. rp_penalty_window_id p = w)
      (\<lambda>p. p\<lparr>rp_status := st, rp_status_changed_at := now\<rparr>) (recovery_plans s)\<rparr>)"
    if ok: "recovery_ok s" for s :: "'a recovery_db_scheme"
  proof -
    have "plans_ok (s\<lparr>recovery_plans := update_where (\<lambda>p. rp_penalty_window_id p = w)
        (\<lambda>p. p\<lparr>rp_status := st, rp_status_changed_at := now\<rparr>) (recovery_plans s)\<rparr>)"
      using recovery_okD(1) [OF ok] by (rule plans_ok_update) simp
    then show ?thesis using recovery_okD [OF ok]
      by (auto simp: recovery_ok_def tasks_ok_def completions_ok_def intro: task_fits_update)
  qed
  show ?thesis unfolding mirror_status_in_transaction_def
    by (intro keeps_bind keeps_get)
      (auto split: option.split intro!: keeps_bind keeps_return keeps_modify upd)
qed

lemma completed_task_keyI:
  "x \<in> set ts \<Longrightarrow> rt_status x = RT_COMPLETED \<Longrightarrow> k = (rt_id x, rt_recovery_plan_id x)
    \<Longrightarrow> k \<in> completed_task_keys ts"
  by (auto simp: completed_task_keys_def)

lemma completed_task_keys_update:
  assumes "\<And>t. q t \<Longrightarrow> t \<in> set ts \<Longrightarrow> rt_status t \<noteq> RT_COMPLETED \<and> rt_status (f t) \<noteq> RT_COMPLETED"
  shows "completed_task_keys (update_where q f ts) = completed_task_keys ts"
  unfolding completed_task_keys_def set_update_where using assms by auto

lemma keeps_recovery_regenerate: "keeps recovery_ok (regenerate_in_transaction w target now)"
proof (rule keepsI)
  fix s s' :: "'a recovery_db_scheme" and a
  assume ok: "recovery_ok s" and run: "regenerate_in_transaction w target now s = Inr (a, s')"
  note D = recovery_okD [OF ok]
  show "recovery_ok s'"
  proof (cases "get_recovery_plan_for_window w s")
    case None
    then show ?thesis using run ok by (simp add: regenerate_in_transaction_def tx_bind_apply tx_simps)
  next
    case (Some plan)
    let ?f = "\<lambda>p. p\<lparr>rp_current_version := rp_current_version plan + 1, rp_capacity_hours := target / 2,
        rp_status_changed_at := now\<rparr>"
    let ?q = "\<lambda>t. rt_recovery_plan_id t = rp_id plan \<and> rt_plan_version t = rp_current_version plan \<and> task_open t"
    let ?g = "\<lambda>t. t\<lparr>rt_status := RT_EXPIRED, rt_status_changed_at := now\<rparr>"
    let ?plans = "update_where (\<lambda>p. rp_penalty_window_id p = w) ?f (recovery_plans s)"
    have s': "s' = s\<lparr>recovery_plans := ?plans, recovery_tasks := update_where ?q ?g (recovery_tasks s)\<rparr>"
      using run Some by (simp add: regenerate_in_transaction_def tx_bind_apply tx_simps Let_def)
    have plan: "plan \<in> set (recovery_plans s)" "rp_penalty_window_id plan = w"
      using Some by (auto simp: get_recovery_plan_for_window_def dest: row_by_SomeD)
    have the_plan: "p = plan" if "p \<in> set (recovery_plans s)" "rp_penalty_window_id p = w" for p
      using D(1) that plan unfolding plans_ok_def by (metis distinct_key_eq)
    have "plans_ok (s\<lparr>recovery_plans := ?plans\<rparr>)" using D(1) by (rule plans_ok_update) simp
    then have "plans_ok s'" by (simp add: s' plans_ok_def)
    have fit: "task_fits ?plans (if ?q t then ?g t else t)" if t: "t \<in> set (recovery_tasks s)" for t
    proof -
      obtain p where p: "p \<in> set (recovery_plans s)" "rp_id p = rt_recovery_plan_id t"
        "rt_plan_version t \<le> rp_current_version p" "task_open t \<longrightarrow> rt_plan_version t = rp_current_version p"
        using D(2) t by (auto simp: tasks_ok_def task_fits_def)
      let ?p = "if rp_penalty_window_id p = w then ?f p else p" and ?t = "if ?q t then ?g t else t"
      show ?thesis
      proof (rule task_fitsI [of ?p])
        show "?p \<in> set ?plans"
          using update_where_mem [OF p(1), of "\<lambda>p. rp_penalty_window_id p = w" ?f] .
        show "rp_id ?p = rt_recovery_plan_id ?t" using p(2) by simp
        have "rp_current_version p \<le> rp_current_version ?p" using the_plan [OF p(1)] by simp
        moreover have "rt_plan_version ?t = rt_plan_version t" by simp
        ultimately show "rt_plan_version ?t \<le> rp_current_version ?p" using p(3) by simp
        assume "task_open ?t"
        then have "task_open t" and not_q: "\<not> ?q t" by (auto simp: task_open_def split: if_splits)
        then have v: "rt_plan_version t = rp_current_version p" using p(4) by blast
        with not_q p(2) \<open>task_open t\<close> have "p \<noteq> plan" by metis
        then show "rt_plan_version ?t = rp_current_version ?p"
          using the_plan [OF p(1)] v by (auto simp: not_q)
      qed
    qed
    have fits: "\<forall>t \<in> set (update_where ?q ?g (recovery_tasks s)). task_fits ?plans t"
      by (rule ball_update_where, rule fit)
    have ids: "map rt_id (update_where ?q ?g (recovery_tasks s)) = map rt_id (recovery_tasks s)"
      by (rule map_update_where) simp
    have below: "\<forall>t \<in> set (update_where ?q ?g (recovery_tasks s)). rt_id t < next_id s"
      by (rule ball_update_where) (use D(2) in \<open>simp add: tasks_ok_def\<close>)
    have "distinct (map rt_id (update_where ?q ?g (recovery_tasks s)))"
      using D(2) unfolding ids tasks_ok_def by blast
    with below fits have "tasks_ok s'"
      unfolding tasks_ok_def s' by simp
    have "completed_task_keys (update_where ?q ?g (recovery_tasks s)) = completed_task_keys (recovery_tasks s)"
      by (rule completed_task_keys_update) (auto simp: task_open_def)
    then have "completions_ok s'" using D(3) by (simp add: s' completions_ok_def)
    with \<open>plans_ok s'\<close> \<open>tasks_ok s'\<close> show ?thesis by (simp add: recovery_ok_def)
  qed
qed

lemma op_keeps_recovery_propose: "op_keeps recovery_ok (propose_task p ti de h now)"
proof -
  have "recovery_ok (s\<lparr>next_id := Suc (next_id s), recovery_tasks := recovery_tasks s @
      [\<lparr>rt_id = next_id s, rt_recovery_plan_id = p, rt_plan_version = rp_current_version plan,
        rt_title = ti, rt_description = de, rt_credit_hours = h, rt_status = RT_PROPOSED,
        rt_created_at = now, rt_status_changed_at = now\<rparr>]\<rparr>)"
    if ok: "recovery_ok s" and row: "get_recovery_plan p s = Some plan"
    for s :: "'a recovery_db_scheme" and plan
    using recovery_okD [OF ok] row
    by (fastforce simp: recovery_ok_defs task_fits_def get_recovery_plan_def less_Suc_eq
        completed_task_keys_def dest: row_by_SomeD)
  then show ?thesis unfolding propose_task_def
    by (intro op_keeps_transition keeps_recovery_emit keepsI)
      (auto simp: tx_success tx_simps new_id_def Let_def)
qed

lemma recovery_ok_set_task_status:
  fixes s :: "'m recovery_db_scheme"
  assumes ok: "recovery_ok s" and row: "get_recovery_task i s = Some t" and "task_open t"
    and "st \<noteq> RT_COMPLETED"
  shows "recovery_ok (set_task_status i st now s)"
proof -
  note D = recovery_okD [OF ok]
  have t: "t \<in> set (recovery_tasks s)" "rt_id t = i"
    using row by (auto simp: get_recovery_task_def dest: row_by_SomeD)
  have the_task: "t' = t" if "t' \<in> set (recovery_tasks s)" "rt_id t' = i" for t'
    using D(2) that t unfolding tasks_ok_def by (metis distinct_key_eq)
  have "task_fits (recovery_plans s) t'" if "t' \<in> set (update_where (\<lambda>t. rt_id t = i)
      (\<lambda>t. t\<lparr>rt_status := st, rt_status_changed_at := now\<rparr>) (recovery_tasks s))" for t'
    using that
  proof (cases rule: in_update_whereE)
    case same
    then show ?thesis using D(2) by (simp add: tasks_ok_def)
  next
    case (changed t0)
    then have "t0 = t" using the_task by simp
    moreover have "task_fits (recovery_plans s) t" using D(2) t by (simp add: tasks_ok_def)
    ultimately show ?thesis using changed assms(3) by (auto simp: task_fits_def)
  qed
  then have "tasks_ok (set_task_status i st now s)" using D(2)
    by (simp add: set_task_status_def tasks_ok_def map_update_where)
      (auto simp: set_update_where)
  moreover have "completed_task_keys (recovery_tasks (set_task_status i st now s))
      = completed_task_keys (recovery_tasks s)"
    unfolding set_task_status_def using the_task assms(3,4)
    by simp (rule completed_task_keys_update, auto simp: task_open_def)
  then have "completions_ok (set_task_status i st now s)" using D(3)
    by (simp add: set_task_status_def completions_ok_def)
  moreover have "plans_ok (set_task_status i st now s)" using D(1)
    by (simp add: set_task_status_def plans_ok_def)
  ultimately show ?thesis by (simp add: recovery_ok_def)
qed

lemma op_keeps_recovery_transition_task:
  assumes "set from \<subseteq> {RT_PROPOSED, RT_ACCEPTED}" and "st \<noteq> RT_COMPLETED"
  shows "op_keeps recovery_ok (transition_task i st ty now from)"
  unfolding transition_task_def
proof (intro op_keeps_transition keeps_recovery_emit keepsI)
  fix s s' :: "'a recovery_db_scheme" and a
  assume ok: "recovery_ok s" and run: "tx_bind (load_task_in i from st) (\<lambda>task.
      tx_bind (tx_modify (set_task_status i st now)) (\<lambda>_.
      tx_return (task\<lparr>rt_status := st, rt_status_changed_at := now\<rparr>))) s = Inr (a, s')"
  then obtain t where "get_recovery_task i s = Some t" and "rt_status t \<in> set from"
    and s': "s' = set_task_status i st now s"
    by (auto simp: load_task_in_def tx_success)
  then show "recovery_ok s'" unfolding s' using assms
    by (intro recovery_ok_set_task_status [OF ok]) (auto simp: task_open_def)
qed

lemma op_keeps_recovery_accept: "op_keeps recovery_ok (accept_task i now)"
  unfolding accept_task_def
  by (intro op_keeps_bind op_keeps_return op_keeps_recovery_transition_task) simp_all

lemma op_keeps_recovery_withdraw: "op_keeps recovery_ok (withdraw_task i now)"
  unfolding withdraw_task_def
  by (intro op_keeps_bind op_keeps_return op_keeps_recovery_transition_task) simp_all

lemma keeps_recovery_emit_plan: "keeps recovery_ok (emit_plan_event ty p w now)"
  unfolding emit_plan_event_def by (rule keeps_recovery_emit)

lemma keeps_recovery_emit_regenerated: "keeps recovery_ok (emit_regenerated w now p)"
  unfolding emit_regenerated_def by (rule keeps_recovery_emit)

lemma keeps_emit_if_plan: "keeps I (tx_return ()) \<Longrightarrow> (\<And>p. keeps I (f p)) \<Longrightarrow> keeps I (emit_if_plan f r)"
  by (simp add: emit_if_plan_def split: option.split)

lemma op_keeps_recovery_create: "op_keeps recovery_ok (create_plan w base now)"
  unfolding create_plan_def
  by (intro op_keeps_transition keeps_recovery_create keeps_recovery_emit_plan)

lemma op_keeps_recovery_mirror: "op_keeps recovery_ok (mirror_status_and_emit w st ty now)"
  unfolding mirror_status_and_emit_def
  by (intro op_keeps_transition keeps_recovery_mirror keeps_emit_if_plan keeps_return keeps_recovery_emit_plan)

lemma op_keeps_recovery_regenerate: "op_keeps recovery_ok (regenerate w target now)"
  unfolding regenerate_def
  by (intro op_keeps_transition keeps_recovery_regenerate keeps_emit_if_plan keeps_return
      keeps_recovery_emit_regenerated)

section \<open>Completing a task\<close>

definition completion_of :: "uid \<Rightarrow> recovery_task \<Rightarrow> time \<Rightarrow> string option \<Rightarrow> recovery_task_completion" where
  "completion_of i t now notes = \<lparr>rc_id = i, rc_recovery_task_id = rt_id t,
     rc_recovery_plan_id = rt_recovery_plan_id t, rc_created_at = now, rc_notes = notes\<rparr>"

definition task_completed ::
  "recovery_task \<Rightarrow> time \<Rightarrow> string option \<Rightarrow> 'm recovery_db_scheme \<Rightarrow> 'm recovery_db_scheme" where
  "task_completed t now notes s = (set_task_status (rt_id t) RT_COMPLETED now s)
     \<lparr>next_id := Suc (next_id s), recovery_task_completions :=
        recovery_task_completions s @ [completion_of (next_id s) t now notes]\<rparr>"

lemma get_recovery_taskD:
  assumes "get_recovery_task i s = Some t"
  shows "t \<in> set (recovery_tasks s)" and "rt_id t = i"
  using assms by (auto simp: get_recovery_task_def dest: row_by_SomeD)

lemma task_has_plan:
  assumes "recovery_ok s" and "t \<in> set (recovery_tasks s)"
  obtains p where "get_recovery_plan (rt_recovery_plan_id t) s = Some p"
proof -
  obtain p where p: "p \<in> set (recovery_plans s)" "rp_id p = rt_recovery_plan_id t"
    using recovery_okD(2) [OF assms(1)] assms(2) by (auto simp: tasks_ok_def task_fits_def)
  have "row_by rp_id (rp_id p) (recovery_plans s) = Some p"
    using recovery_okD(1) [OF assms(1)] p(1) by (intro row_by_unique) (simp_all add: plans_ok_def)
  with p(2) that show ?thesis by (simp add: get_recovery_plan_def)
qed

lemma complete_task_write_eq:
  assumes "get_recovery_task i s = Some t" and "task_open t"
    and "get_recovery_plan (rt_recovery_plan_id t) s = Some p"
  shows "complete_task_write i now notes s =
    Inr ((t\<lparr>rt_status := RT_COMPLETED, rt_status_changed_at := now\<rparr>, completion_of (next_id s) t now notes,
          rp_penalty_window_id p), task_completed t now notes s)"
  using assms get_recovery_taskD(2) [OF assms(1)]
  by (simp add: complete_task_write_def load_task_in_def tx_bind_apply tx_simps new_id_def Let_def
      set_task_status_def completion_of_def task_completed_def task_open_def get_recovery_plan_def)

lemma complete_task_write_unknown:
  "get_recovery_task i s = None \<Longrightarrow> complete_task_write i now notes s = Inl (RecoveryTaskNotFoundError i)"
  by (simp add: complete_task_write_def load_task_in_def tx_bind_apply tx_simps)

lemma complete_task_write_closed:
  "get_recovery_task i s = Some t \<Longrightarrow> \<not> task_open t \<Longrightarrow> complete_task_write i now notes s =
    Inl (InvalidTaskTransitionError i (task_status_value (rt_status t)) ''completed'')"
  by (simp add: complete_task_write_def load_task_in_def tx_bind_apply tx_simps task_open_def)

lemma task_completed_ok:
  fixes s :: "'m recovery_db_scheme"
  assumes ok: "recovery_ok s" and row: "get_recovery_task i s = Some t" and "task_open t"
  shows "recovery_ok (task_completed t now notes s)"
proof -
  note D = recovery_okD [OF ok] and t = get_recovery_taskD [OF row]
  let ?g = "\<lambda>t. t\<lparr>rt_status := RT_COMPLETED, rt_status_changed_at := now\<rparr>"
  let ?tasks = "update_where (\<lambda>x. rt_id x = rt_id t) ?g (recovery_tasks s)"
  have the_task: "x = t" if "x \<in> set (recovery_tasks s)" "rt_id x = rt_id t" for x
    using D(2) that t unfolding tasks_ok_def by (metis distinct_key_eq)
  have "\<forall>x \<in> set ?tasks. rt_id x < Suc (next_id s) \<and> task_fits (recovery_plans s) x"
    by (rule ball_update_where) (use D(2) in \<open>auto simp: tasks_ok_def task_fits_def task_open_def\<close>)
  moreover have "map rt_id ?tasks = map rt_id (recovery_tasks s)" by (rule map_update_where) simp
  ultimately have "tasks_ok (task_completed t now notes s)" using D(2)
    by (simp add: tasks_ok_def task_completed_def set_task_status_def)
  moreover have "plans_ok (task_completed t now notes s)" using D(1)
    by (auto simp: plans_ok_def task_completed_def set_task_status_def less_Suc_eq)
  moreover have keys: "completed_task_keys ?tasks
      = insert (rt_id t, rt_recovery_plan_id t) (completed_task_keys (recovery_tasks s))"
  proof (intro subset_antisym subsetI)
    fix k assume "k \<in> completed_task_keys ?tasks"
    then obtain x where k: "k = (rt_id x, rt_recovery_plan_id x)" and x: "x \<in> set ?tasks" "rt_status x = RT_COMPLETED"
      by (auto simp: completed_task_keys_def)
    from x(1) show "k \<in> insert (rt_id t, rt_recovery_plan_id t) (completed_task_keys (recovery_tasks s))"
    proof (cases rule: in_update_whereE)
      case same
      with x(2) k show ?thesis by (auto simp: completed_task_keys_def)
    next
      case (changed y)
      then have "y = t" using the_task by simp
      with changed k show ?thesis by simp
    qed
  next
    fix k assume k: "k \<in> insert (rt_id t, rt_recovery_plan_id t) (completed_task_keys (recovery_tasks s))"
    show "k \<in> completed_task_keys ?tasks"
    proof (cases "k = (rt_id t, rt_recovery_plan_id t)")
      case True
      have "?g t \<in> set ?tasks" using t(1) by (auto simp: set_update_where)
      then show ?thesis by (rule completed_task_keyI) (simp_all add: True)
    next
      case False
      with k obtain x where x: "x \<in> set (recovery_tasks s)" "rt_status x = RT_COMPLETED" "k = (rt_id x, rt_recovery_plan_id x)"
        by (auto simp: completed_task_keys_def)
      have "x \<noteq> t" using x(2) assms(3) by (auto simp: task_open_def)
      then have "rt_id x \<noteq> rt_id t" using the_task x(1) by blast
      then have "x \<in> set ?tasks" using x(1) by (auto simp: set_update_where)
      with x show ?thesis by (auto simp: completed_task_keys_def)
    qed
  qed
  have "rt_status t \<noteq> RT_COMPLETED" using assms(3) by (auto simp: task_open_def)
  have "(rt_id t, x) \<notin> completed_task_keys (recovery_tasks s)" for x
  proof
    assume "(rt_id t, x) \<in> completed_task_keys (recovery_tasks s)"
    then obtain y where "y \<in> set (recovery_tasks s)" "rt_id y = rt_id t" "rt_status y = RT_COMPLETED"
      unfolding completed_task_keys_def by auto
    with the_task [of y] \<open>rt_status t \<noteq> RT_COMPLETED\<close> show False by simp
  qed
  then have "rt_id t \<notin> rc_recovery_task_id ` set (recovery_task_completions s)"
    using D(3) unfolding completions_ok_def by (metis (no_types, lifting) image_iff)
  then have "completions_ok (task_completed t now notes s)" using D(3) keys
    by (auto simp: completions_ok_def task_completed_def set_task_status_def completion_of_def less_Suc_eq)
  ultimately show ?thesis by (simp add: recovery_ok_def)
qed

lemma keeps_recovery_complete: "keeps recovery_ok (complete_task_write i now notes)"
proof (rule keepsI)
  fix s s' :: "'a recovery_db_scheme" and a
  assume ok: "recovery_ok s" and run: "complete_task_write i now notes s = Inr (a, s')"
  then obtain t where row: "get_recovery_task i s = Some t" and "task_open t"
    by (metis complete_task_write_closed complete_task_write_unknown not_Some_eq sum.distinct(1))
  moreover obtain p where "get_recovery_plan (rt_recovery_plan_id t) s = Some p"
    using ok get_recovery_taskD(1) [OF row] by (rule task_has_plan)
  ultimately show "recovery_ok s'" using run task_completed_ok [OF ok row]
    by (auto simp: complete_task_write_eq)
qed

lemma op_keeps_recovery_complete: "op_keeps recovery_ok (complete_task i now notes)"
  unfolding complete_task_def emit_task_completed_def case_prod_beta
  by (intro op_keeps_bind op_keeps_return op_keeps_transition keeps_recovery_complete keeps_recovery_emit)

section \<open>What the module leaves alone\<close>

locale recovery_tables =
  fixes I :: "'m recovery_db_scheme \<Rightarrow> bool"
  assumes new_id: "keeps I new_id"
    and add_plan: "I s \<Longrightarrow> I (s\<lparr>recovery_plans := recovery_plans s @ [a]\<rparr>)"
    and change_plan: "I s \<Longrightarrow>
      (\<And>p. rp_id (h p) = rp_id p \<and> rp_penalty_window_id (h p) = rp_penalty_window_id p) \<Longrightarrow>
      I (s\<lparr>recovery_plans := update_where q h (recovery_plans s)\<rparr>)"
    and tasks: "I s \<Longrightarrow> I (s\<lparr>recovery_tasks := b\<rparr>)"
    and completions: "I s \<Longrightarrow> I (s\<lparr>recovery_task_completions := recovery_task_completions s @ [c]\<rparr>)"
begin

lemmas tables = add_plan tasks completions

lemma keeps_create: "keeps I (create_plan_in_transaction w base now)"
  unfolding create_plan_in_transaction_def Let_def
  by (intro keeps_bind keeps_get keeps_require keeps_return keeps_modify new_id tables)

lemma keeps_mirror: "keeps I (mirror_status_in_transaction w st now)"
  unfolding mirror_status_in_transaction_def
  by (intro keeps_bind keeps_get)
    (auto split: option.split intro!: keeps_bind keeps_return keeps_modify change_plan)

lemma keeps_regenerate: "keeps I (regenerate_in_transaction w x now)"
proof -
  have "keeps I (tx_modify (\<lambda>s. s\<lparr>recovery_tasks := update_where q h (recovery_tasks s)\<rparr>))" for q h
    by (intro keeps_modify tasks)
  moreover have "keeps I (tx_modify (\<lambda>s. s\<lparr>recovery_plans := update_where q h (recovery_plans s)\<rparr>))"
    if "\<And>p. rp_id (h p) = rp_id p \<and> rp_penalty_window_id (h p) = rp_penalty_window_id p" for q h
    using that by (intro keeps_modify change_plan)
  ultimately show ?thesis unfolding regenerate_in_transaction_def Let_def
    by (intro keeps_bind keeps_get) (auto split: option.split intro!: keeps_bind keeps_return)
qed

lemma keeps_set_task: "keeps I (tx_modify (set_task_status i st now))"
  unfolding set_task_status_def by (intro keeps_modify tables)

lemma keeps_load: "keeps I (load_task_in i from st)"
  unfolding load_task_in_def by (intro keeps_bind keeps_get keeps_the keeps_require keeps_return)

end

locale recovery_frame = recovery_tables +
  assumes emit: "keeps I (emit ty src p now)"
begin

lemma keeps_plan_event: "keeps I (emit_plan_event ty p w now)"
  unfolding emit_plan_event_def by (rule emit)

lemma keeps_regenerated_event: "keeps I (emit_regenerated w now p)"
  unfolding emit_regenerated_def by (rule emit)

lemma create: "op_keeps I (create_plan w base now)"
  unfolding create_plan_def by (intro op_keeps_transition keeps_create keeps_plan_event)

lemma mirror: "op_keeps I (mirror_status_and_emit w st ty now)"
  unfolding mirror_status_and_emit_def
  by (intro op_keeps_transition keeps_mirror keeps_emit_if_plan keeps_return keeps_plan_event)

lemma regenerate: "op_keeps I (regenerate w x now)"
  unfolding regenerate_def
  by (intro op_keeps_transition keeps_regenerate keeps_emit_if_plan keeps_return keeps_regenerated_event)

lemma propose: "op_keeps I (propose_task p ti de h now)"
  unfolding propose_task_def Let_def
  by (intro op_keeps_transition keeps_bind keeps_get keeps_the keeps_return keeps_modify new_id emit tables)

lemma move_task: "op_keeps I (transition_task i st ty now from)"
  unfolding transition_task_def
  by (intro op_keeps_transition keeps_bind keeps_return keeps_load keeps_set_task emit)

lemma accept: "op_keeps I (accept_task i now)"
  unfolding accept_task_def by (intro op_keeps_bind op_keeps_return move_task)

lemma withdraw: "op_keeps I (withdraw_task i now)"
  unfolding withdraw_task_def by (intro op_keeps_bind op_keeps_return move_task)

lemma complete: "op_keeps I (complete_task i now notes)"
  unfolding complete_task_def complete_task_write_def emit_task_completed_def case_prod_beta Let_def
  by (intro op_keeps_bind op_keeps_return op_keeps_transition keeps_bind keeps_get keeps_the keeps_return
      keeps_modify keeps_load keeps_set_task new_id emit tables)

lemma recover: "op_keeps I (recover_recovery_plan_state now)"
  unfolding recover_recovery_plan_state_def by (rule op_keeps_get)

lemmas operations = create mirror regenerate propose accept withdraw complete recover

end

interpretation outbox_recovery: recovery_frame outbox_ok
  by unfold_locales
    (simp_all add: keeps_outbox_new_id keeps_outbox_emit, simp_all add: outbox_ok_def)

interpretation trust_recovery: recovery_frame trust_inv
proof unfold_locales
  fix s :: "'a recovery_db_scheme" and a b c q and h :: "recovery_plan \<Rightarrow> recovery_plan"
  assume inv: "trust_inv s"
  note ok = trust_invD(1) [OF inv]
  show "trust_inv (s\<lparr>recovery_plans := recovery_plans s @ [a]\<rparr>)"
    "trust_inv (s\<lparr>recovery_plans := update_where q h (recovery_plans s)\<rparr>)"
    "trust_inv (s\<lparr>recovery_tasks := b\<rparr>)" "trust_inv (s\<lparr>recovery_task_completions := recovery_task_completions s @ [c]\<rparr>)"
    by (rule trust_inv_transfer [OF inv], use ok in \<open>simp_all add: trust_ok_defs\<close>)+
qed (simp_all add: keeps_inv_new_id keeps_inv_emit)

interpretation penalty_recovery: recovery_frame penalty_ok
  by unfold_locales
    (simp_all add: keeps_penalty_new_id keeps_penalty_emit,
     (rule penalty_ok_transfer, assumption, simp_all)+)

end
