(* ===== verification/Goal_Facts.thy ===== *)
theory Goal_Facts
  imports Goal_Management Recovery_Facts
begin

text \<open>
  The invariant of the goal tables: every goal has an unbroken version history that ends in its
  current version (GOAL-5), only terminal goals are archived (GOAL-11), a goal is REPLACED exactly
  when one other goal replaces it, and every proposal has exactly one content (GOAL-6).
\<close>

section \<open>The invariant\<close>

fun version_chain :: "goal_version option \<Rightarrow> goal_version list \<Rightarrow> bool" where
  "version_chain _ [] = True"
| "version_chain None (v # vs) = (gv_version v = 1 \<and> gv_supersedes_id v = None
     \<and> gv_adaptation_reason v = None \<and> version_chain (Some v) vs)"
| "version_chain (Some p) (v # vs) = (gv_version v = gv_version p + 1
     \<and> gv_supersedes_id v = Some (gv_id p) \<and> gv_adaptation_reason v \<noteq> None
     \<and> gv_trust_domain v = gv_trust_domain p \<and> version_chain (Some v) vs)"

lemma version_chain_append:
  "version_chain p (vs @ [v]) \<longleftrightarrow>
     version_chain p vs \<and> version_chain (if vs = [] then p else Some (last vs)) [v]"
  by (induction p vs rule: version_chain.induct) auto

definition history :: "uid \<Rightarrow> goal_version list \<Rightarrow> goal_version list" where
  "history i vs = filter (\<lambda>v. gv_goal_group_id v = i) vs"

definition goal_terminal :: "goal \<Rightarrow> bool" where
  "goal_terminal g \<longleftrightarrow> go_status g \<in> set goal_terminal_statuses"

lemma goal_terminal_iff: "goal_terminal g \<longleftrightarrow> \<not> (go_status g = GS_ACTIVE \<or> go_status g = GS_PAUSED)"
  by (cases "go_status g") (simp_all add: goal_terminal_def goal_terminal_statuses_def)

definition goal_fits :: "goal_version list \<Rightarrow> goal \<Rightarrow> bool" where
  "goal_fits vs g \<longleftrightarrow> history (go_group_id g) vs \<noteq> []
     \<and> version_chain None (history (go_group_id g) vs)
     \<and> gv_id (last (history (go_group_id g) vs)) = go_current_version_id g
     \<and> (go_archived_at g \<noteq> None \<longrightarrow> goal_terminal g)"

definition replaced_ids :: "goal list \<Rightarrow> uid list" where
  "replaced_ids gs = map (the \<circ> go_replaces_group_id) (filter (\<lambda>g. go_replaces_group_id g \<noteq> None) gs)"

definition histories_ok :: "nat \<Rightarrow> goal list \<Rightarrow> goal_version list \<Rightarrow> bool" where
  "histories_ok n gs vs \<longleftrightarrow> distinct (map go_group_id gs) \<and> distinct (map gv_id vs)
     \<and> (\<forall>g \<in> set gs. go_group_id g < n \<and> goal_fits vs g)
     \<and> (\<forall>v \<in> set vs. gv_id v < n \<and> gv_goal_group_id v \<in> go_group_id ` set gs)"

definition replaced_ok :: "goal list \<Rightarrow> bool" where
  "replaced_ok gs \<longleftrightarrow> distinct (replaced_ids gs)
     \<and> set (replaced_ids gs) = go_group_id ` {g \<in> set gs. go_status g = GS_REPLACED}"

definition goals_ok :: "nat \<Rightarrow> goal list \<Rightarrow> goal_version list \<Rightarrow> bool" where
  "goals_ok n gs vs \<longleftrightarrow> histories_ok n gs vs \<and> replaced_ok gs"

definition proposal_fits :: "goal list \<Rightarrow> goal_change_proposal \<Rightarrow> bool" where
  "proposal_fits gs p \<longleftrightarrow> gp_goal_group_id p \<in> go_group_id ` set gs
     \<and> (gp_status p = GP_PENDING \<longleftrightarrow> gp_resolved_at p = None)"

definition proposals_ok ::
  "nat \<Rightarrow> goal list \<Rightarrow> goal_change_proposal list \<Rightarrow> goal_change_proposal_content list \<Rightarrow> bool" where
  "proposals_ok n gs ps cs \<longleftrightarrow> distinct (map gp_id ps) \<and> map gc_proposal_id cs = map gp_id ps
     \<and> (\<forall>p \<in> set ps. gp_id p < n \<and> proposal_fits gs p)"

definition goal_ok :: "'m goal_db_scheme \<Rightarrow> bool" where
  "goal_ok s \<longleftrightarrow> goals_ok (next_id s) (goals s) (goal_versions s)
     \<and> proposals_ok (next_id s) (goals s) (goal_change_proposals s) (goal_change_proposal_contents s)"

lemma goal_okD:
  assumes "goal_ok s"
  shows "goals_ok (next_id s) (goals s) (goal_versions s)"
    and "proposals_ok (next_id s) (goals s) (goal_change_proposals s) (goal_change_proposal_contents s)"
  using assms by (simp_all add: goal_ok_def)

lemma histories_okD:
  assumes "histories_ok n gs vs"
  shows "distinct (map go_group_id gs)" "distinct (map gv_id vs)"
    and "g \<in> set gs \<Longrightarrow> go_group_id g < n" and "g \<in> set gs \<Longrightarrow> goal_fits vs g"
    and "v \<in> set vs \<Longrightarrow> gv_id v < n" and "v \<in> set vs \<Longrightarrow> gv_goal_group_id v \<in> go_group_id ` set gs"
  using assms by (auto simp: histories_ok_def)

lemma goals_ok_mono: "goals_ok n gs vs \<Longrightarrow> n \<le> n' \<Longrightarrow> goals_ok n' gs vs"
  unfolding goals_ok_def histories_ok_def by (meson less_le_trans)

lemma proposals_ok_mono:
  assumes "proposals_ok n gs ps cs" and "n \<le> n'" and "go_group_id ` set gs \<subseteq> go_group_id ` set gs'"
  shows "proposals_ok n' gs' ps cs"
  using assms unfolding proposals_ok_def proposal_fits_def by (meson less_le_trans subsetD)

lemma goal_ok_transfer:
  fixes s s' :: "'m goal_db_scheme"
  assumes "goal_ok s" and "next_id s \<le> next_id s'" and "goals s' = goals s"
    and "goal_versions s' = goal_versions s" and "goal_change_proposals s' = goal_change_proposals s"
    and "goal_change_proposal_contents s' = goal_change_proposal_contents s"
  shows "goal_ok s'"
  using assms goals_ok_mono proposals_ok_mono [OF goal_okD(2) [OF assms(1)] assms(2) subset_refl]
  unfolding goal_ok_def by (metis (no_types, lifting))

lemma goal_ok_insert_event [simp]: "goal_ok (insert_event r s) = goal_ok s"
  by (simp add: goal_ok_def insert_event_def)

lemma goal_ok_new_id: "goal_ok s \<Longrightarrow> goal_ok (s\<lparr>next_id := Suc (next_id s)\<rparr>)"
  by (rule goal_ok_transfer, assumption) simp_all

lemma keeps_goal_new_id [keeps_intros]: "keeps goal_ok new_id"
  by (simp add: keeps_def tx_simps goal_ok_new_id)

lemma keeps_goal_emit [keeps_intros]: "keeps goal_ok (emit ty src p now)"
  by (simp add: keeps_def tx_simps goal_ok_new_id)

interpretation goal_below_trust: trust_frame goal_ok
  by unfold_locales (simp_all add: keeps_goal_new_id keeps_goal_emit, simp_all add: goal_ok_def)

interpretation goal_below_penalty: penalty_frame goal_ok
  by unfold_locales (simp_all add: keeps_goal_new_id keeps_goal_emit, simp_all add: goal_ok_def)

interpretation goal_below_recovery: recovery_frame goal_ok
  by unfold_locales (simp_all add: keeps_goal_new_id keeps_goal_emit, simp_all add: goal_ok_def)

section \<open>Changes of the goal table\<close>

lemma replaced_ids_update:
  "(\<And>g. q g \<Longrightarrow> go_replaces_group_id (f g) = go_replaces_group_id g) \<Longrightarrow>
   replaced_ids (update_where q f gs) = replaced_ids gs"
  unfolding replaced_ids_def by (induction gs) auto

lemma replaced_ids_append [simp]: "replaced_ids (xs @ ys) = replaced_ids xs @ replaced_ids ys"
  by (simp add: replaced_ids_def)

lemma group_ids_update:
  assumes "\<And>g. q g \<Longrightarrow> go_group_id (f g) = go_group_id g"
  shows "go_group_id ` set (update_where q f gs) = go_group_id ` set gs"
proof -
  have "map go_group_id (update_where q f gs) = map go_group_id gs"
    using assms by (rule map_update_where)
  then show ?thesis by (metis list.set_map)
qed

lemma replaced_set_update:
  assumes "\<And>g. q g \<Longrightarrow> go_group_id (f g) = go_group_id g"
    and "\<And>g. g \<in> set gs \<Longrightarrow> q g \<Longrightarrow> go_status g \<noteq> GS_REPLACED \<and> go_status (f g) \<noteq> GS_REPLACED
            \<or> go_status g = GS_REPLACED \<and> go_status (f g) = GS_REPLACED"
  shows "go_group_id ` {g \<in> set (update_where q f gs). go_status g = GS_REPLACED}
       = go_group_id ` {g \<in> set gs. go_status g = GS_REPLACED}"
  using assms by (induction gs) (auto simp: image_iff, (metis+)?)

text \<open>An in-place change that keeps identity and version.\<close>

lemma histories_ok_update:
  assumes ok: "histories_ok n gs vs"
    and f: "\<And>g. q g \<Longrightarrow> go_group_id (f g) = go_group_id g \<and> go_current_version_id (f g) = go_current_version_id g"
    and ar: "\<And>g. g \<in> set gs \<Longrightarrow> q g \<Longrightarrow> go_archived_at (f g) \<noteq> None \<Longrightarrow>
            (go_archived_at g \<noteq> None \<longrightarrow> goal_terminal g) \<Longrightarrow> goal_terminal (f g)"
  shows "histories_ok n (update_where q f gs) vs"
proof -
  note D = histories_okD [OF ok]
  have fits: "\<forall>g \<in> set (update_where q f gs). go_group_id g < n \<and> goal_fits vs g"
  proof (rule ball_update_where)
    fix g assume g: "g \<in> set gs"
    show "go_group_id (if q g then f g else g) < n \<and> goal_fits vs (if q g then f g else g)"
      using D(3,4) [OF g] f ar [OF g] by (auto simp: goal_fits_def)
  qed
  have "map go_group_id (update_where q f gs) = map go_group_id gs"
    using f by (intro map_update_where) blast
  with fits D(1,2,5,6) show ?thesis
    by (simp add: histories_ok_def group_ids_update f)
qed

lemma goal_fits_other_version:
  "goal_fits vs g \<Longrightarrow> gv_goal_group_id v \<noteq> go_group_id g \<Longrightarrow> goal_fits (vs @ [v]) g"
  by (simp add: goal_fits_def history_def)

lemma history_empty: "i \<notin> gv_goal_group_id ` set vs \<Longrightarrow> history i vs = []"
  by (auto simp: history_def filter_empty_conv)

text \<open>A new goal with its first version.\<close>

lemma histories_ok_add:
  assumes ok: "histories_ok n gs vs"
    and g: "go_group_id g = i" "go_current_version_id g = gv_id v" "go_archived_at g = None"
    and v: "gv_goal_group_id v = i" "version_chain None [v]"
    and ids: "n \<le> i" "n \<le> gv_id v" "i < n'" "gv_id v < n'"
  shows "histories_ok n' (gs @ [g]) (vs @ [v])"
proof -
  note D = histories_okD [OF ok]
  have fresh: "i \<notin> go_group_id ` set gs" "gv_id v \<notin> gv_id ` set vs" "i \<notin> gv_goal_group_id ` set vs"
    using D(3,5,6) ids(1,2) by (force dest: leD)+
  have "goal_fits (vs @ [v]) g" using g v history_empty [OF fresh(3)]
    by (simp add: goal_fits_def history_def)
  moreover have "goal_fits (vs @ [v]) x" if "x \<in> set gs" for x
    using D(4) [OF that] v(1) fresh(1) that by (intro goal_fits_other_version) auto
  moreover have "n \<le> n'" using ids by simp
  then have "\<forall>g \<in> set gs. go_group_id g < n'" "\<forall>v \<in> set vs. gv_id v < n'"
    using D(3,5) less_le_trans by blast+
  ultimately show ?thesis using D(1,2,6) fresh g(1) v(1) ids(3,4)
    by (auto simp: histories_ok_def)
qed

text \<open>A further version of a goal.\<close>

lemma histories_ok_adapt:
  assumes ok: "histories_ok n gs vs" and g: "g \<in> set gs" "go_group_id g = i"
    and cur: "cur \<in> set vs" "gv_id cur = go_current_version_id g"
    and v: "gv_goal_group_id v = i" "version_chain (Some cur) [v]" "gv_id v = n"
  shows "histories_ok (Suc n) (update_where (\<lambda>g. go_group_id g = i) (\<lambda>g. g\<lparr>go_current_version_id := n\<rparr>) gs)
    (vs @ [v])"
proof -
  let ?gs = "update_where (\<lambda>g. go_group_id g = i) (\<lambda>g. g\<lparr>go_current_version_id := n\<rparr>) gs"
  note D = histories_okD [OF ok]
  have fits: "goal_fits vs g" using D(4) [OF g(1)] .
  then have "last (history i vs) \<in> set (history i vs)" using g(2)
    by (intro last_in_set) (simp add: goal_fits_def)
  then have "last (history i vs) \<in> set vs" by (simp add: history_def)
  moreover have "gv_id (last (history i vs)) = gv_id cur" using fits g(2) cur(2) by (simp add: goal_fits_def)
  ultimately have last: "last (history i vs) = cur" using D(2) cur(1) by (metis distinct_key_eq)
  have new: "goal_fits (vs @ [v]) (x\<lparr>go_current_version_id := n\<rparr>)" if "x \<in> set gs" "go_group_id x = i" for x
  proof -
    have "x = g" using that g D(1) by (metis distinct_key_eq)
    moreover have "goal_terminal (g\<lparr>go_current_version_id := n\<rparr>) = goal_terminal g"
      by (simp add: goal_terminal_def)
    ultimately show ?thesis using fits g(2) last v
      by (simp add: goal_fits_def history_def) (simp only: version_chain_append, simp)
  qed
  have "\<forall>g \<in> set ?gs. go_group_id g < Suc n \<and> goal_fits (vs @ [v]) g"
  proof (rule ball_update_where)
    fix x assume x: "x \<in> set gs"
    show "go_group_id (if go_group_id x = i then x\<lparr>go_current_version_id := n\<rparr> else x) < Suc n
      \<and> goal_fits (vs @ [v]) (if go_group_id x = i then x\<lparr>go_current_version_id := n\<rparr> else x)"
      using D(3) [OF x] D(4) [OF x] new [OF x] v(1) by (auto intro: goal_fits_other_version)
  qed
  moreover have "map go_group_id ?gs = map go_group_id gs" by (rule map_update_where) simp
  moreover have "n \<notin> gv_id ` set vs" using D(5) by fastforce
  moreover have "go_group_id ` set ?gs = go_group_id ` set gs" by (rule group_ids_update) simp
  moreover have "i \<in> go_group_id ` set gs" using g by blast
  ultimately show ?thesis using D(1,2,5,6) v g
    by (auto simp: histories_ok_def less_Suc_eq)
qed

lemma replaced_ok_update:
  assumes "replaced_ok gs" and "\<And>g. q g \<Longrightarrow> go_group_id (f g) = go_group_id g"
    and "\<And>g. q g \<Longrightarrow> go_replaces_group_id (f g) = go_replaces_group_id g"
    and "\<And>g. g \<in> set gs \<Longrightarrow> q g \<Longrightarrow> go_status g \<noteq> GS_REPLACED \<and> go_status (f g) \<noteq> GS_REPLACED
            \<or> go_status g = GS_REPLACED \<and> go_status (f g) = GS_REPLACED"
  shows "replaced_ok (update_where q f gs)"
  using assms(1) replaced_ids_update [of q f gs, OF assms(3)] replaced_set_update [of q f gs, OF assms(2,4)]
  by (simp add: replaced_ok_def)

lemma replaced_ok_add:
  assumes "replaced_ok gs" and "go_replaces_group_id g = None" and "go_status g \<noteq> GS_REPLACED"
  shows "replaced_ok (gs @ [g])"
proof -
  have "{x \<in> set (gs @ [g]). go_status x = GS_REPLACED} = {x \<in> set gs. go_status x = GS_REPLACED}"
    using assms(3) by auto
  then show ?thesis using assms(1,2) by (simp add: replaced_ok_def replaced_ids_def)
qed

lemma replaced_ok_replace:
  assumes ok: "replaced_ok gs" and g: "g \<in> set gs" "go_group_id g = i" "go_status g \<noteq> GS_REPLACED"
    and dist: "distinct (map go_group_id gs)"
    and new: "go_replaces_group_id g' = Some i" "go_status g' \<noteq> GS_REPLACED"
  shows "replaced_ok (update_where (\<lambda>g. go_group_id g = i)
      (\<lambda>g. g\<lparr>go_status := GS_REPLACED, go_status_changed_at := now\<rparr>) gs @ [g'])"
proof -
  let ?f = "\<lambda>g. g\<lparr>go_status := GS_REPLACED, go_status_changed_at := now\<rparr>"
  let ?gs = "update_where (\<lambda>g. go_group_id g = i) ?f gs"
  have the_goal: "x = g" if "x \<in> set gs" "go_group_id x = i" for x
    using that g(1,2) dist by (metis distinct_key_eq)
  have ids: "replaced_ids ?gs = replaced_ids gs" by (rule replaced_ids_update) simp
  have "i \<notin> go_group_id ` {x \<in> set gs. go_status x = GS_REPLACED}" using the_goal g(3) by auto
  then have fresh: "i \<notin> set (replaced_ids gs)" using ok by (simp add: replaced_ok_def)
  have "go_group_id ` {x \<in> set (?gs @ [g']). go_status x = GS_REPLACED}
      = insert i (go_group_id ` {x \<in> set gs. go_status x = GS_REPLACED})"
  proof (intro subset_antisym subsetI)
    fix k assume "k \<in> go_group_id ` {x \<in> set (?gs @ [g']). go_status x = GS_REPLACED}"
    then obtain x where "x \<in> set ?gs" "go_status x = GS_REPLACED" "k = go_group_id x" using new(2) by auto
    then show "k \<in> insert i (go_group_id ` {x \<in> set gs. go_status x = GS_REPLACED})"
      by (cases rule: in_update_whereE) auto
  next
    fix k assume k: "k \<in> insert i (go_group_id ` {x \<in> set gs. go_status x = GS_REPLACED})"
    then obtain x where x: "x \<in> set gs" "go_group_id x = k" "k = i \<or> go_status x = GS_REPLACED"
      using g(1,2) by auto
    then have "(if go_group_id x = i then ?f x else x) \<in> set ?gs" by (intro update_where_mem)
    then show "k \<in> go_group_id ` {x \<in> set (?gs @ [g']). go_status x = GS_REPLACED}"
      using x by (intro image_eqI [of _ _ "if go_group_id x = i then ?f x else x"]) auto
  qed
  with ok ids fresh new(1) show ?thesis by (auto simp: replaced_ok_def replaced_ids_def)
qed

section \<open>The operations keep the invariant\<close>

lemma get_goalD: "get_goal i s = Some g \<Longrightarrow> g \<in> set (goals s) \<and> go_group_id g = i"
  unfolding get_goal_def by (rule row_by_SomeD)

lemma load_goal_in_Inr:
  "load_goal_in i from act s = Inr (g, s') \<longleftrightarrow> get_goal i s = Some g \<and> go_status g \<in> set from \<and> s' = s"
  by (auto simp: load_goal_in_def tx_success)

lemma proposals_ok_same_goals:
  "proposals_ok n gs ps cs \<Longrightarrow> go_group_id ` set gs \<subseteq> go_group_id ` set gs' \<Longrightarrow> n \<le> n' \<Longrightarrow> proposals_ok n' gs' ps cs"
  by (rule proposals_ok_mono)

lemma goal_ok_update:
  fixes s :: "'m goal_db_scheme"
  assumes ok: "goal_ok s"
    and f: "\<And>g. q g \<Longrightarrow> go_group_id (f g) = go_group_id g \<and> go_current_version_id (f g) = go_current_version_id g
              \<and> go_replaces_group_id (f g) = go_replaces_group_id g"
    and st: "\<And>g. g \<in> set (goals s) \<Longrightarrow> q g \<Longrightarrow> (go_status g = GS_REPLACED) = (go_status (f g) = GS_REPLACED)"
    and ar: "\<And>g. g \<in> set (goals s) \<Longrightarrow> q g \<Longrightarrow> go_archived_at (f g) \<noteq> None \<Longrightarrow>
            (go_archived_at g \<noteq> None \<longrightarrow> goal_terminal g) \<Longrightarrow> goal_terminal (f g)"
  shows "goal_ok (s\<lparr>goals := update_where q f (goals s)\<rparr>)"
proof -
  have h: "histories_ok (next_id s) (goals s) (goal_versions s)" and r: "replaced_ok (goals s)"
    using ok by (simp_all add: goal_ok_def goals_ok_def)
  have "histories_ok (next_id s) (update_where q f (goals s)) (goal_versions s)"
    using h f ar by (intro histories_ok_update) blast+
  moreover have "replaced_ok (update_where q f (goals s))"
    using r f st by (intro replaced_ok_update) blast+
  moreover have "go_group_id ` set (update_where q f (goals s)) = go_group_id ` set (goals s)"
    using f by (intro group_ids_update) blast
  ultimately show ?thesis using goal_okD(2) [OF ok]
    by (auto simp: goal_ok_def goals_ok_def intro: proposals_ok_mono)
qed

lemma goal_ok_set_status:
  fixes s :: "'m goal_db_scheme"
  assumes ok: "goal_ok s" and row: "get_goal i s = Some g" and "\<not> goal_terminal g" and "st \<noteq> GS_REPLACED"
  shows "goal_ok (set_goal_status i st now s)"
  unfolding set_goal_status_def
proof (rule goal_ok_update [OF ok])
  fix x assume x: "x \<in> set (goals s)" "go_group_id x = i"
  have "distinct (map go_group_id (goals s))"
    using goal_okD(1) [OF ok] by (simp add: goals_ok_def histories_ok_def)
  then have xg: "x = g" using x get_goalD [OF row] by (metis distinct_key_eq)
  then have nr: "go_status x \<noteq> GS_REPLACED" using assms(3) by (auto simp: goal_terminal_iff)
  then show "(go_status x = GS_REPLACED) = (go_status (x\<lparr>go_status := st, go_status_changed_at := now\<rparr>) = GS_REPLACED)"
    using assms(4) by simp
  assume "go_archived_at (x\<lparr>go_status := st, go_status_changed_at := now\<rparr>) \<noteq> None"
    and "go_archived_at x \<noteq> None \<longrightarrow> goal_terminal x"
  then show "goal_terminal (x\<lparr>go_status := st, go_status_changed_at := now\<rparr>)" using xg assms(3) by simp
qed simp

lemma goal_ok_add:
  fixes s s' :: "'m goal_db_scheme"
  assumes "goal_ok s"
    and "go_group_id g = Suc (next_id s)" "go_current_version_id g = next_id s" "go_archived_at g = None"
    and "go_replaces_group_id g = None" "go_status g \<noteq> GS_REPLACED"
    and "gv_goal_group_id v = Suc (next_id s)" "gv_id v = next_id s" "version_chain None [v]"
    and "next_id s' = Suc (Suc (next_id s))" "goals s' = goals s @ [g]" "goal_versions s' = goal_versions s @ [v]"
    and "goal_change_proposals s' = goal_change_proposals s"
    and "goal_change_proposal_contents s' = goal_change_proposal_contents s"
  shows "goal_ok s'"
proof -
  have h: "histories_ok (next_id s) (goals s) (goal_versions s)" and r: "replaced_ok (goals s)"
    using assms(1) by (simp_all add: goal_ok_def goals_ok_def)
  have "histories_ok (next_id s') (goals s') (goal_versions s')"
    unfolding assms(11,12) by (rule histories_ok_add [OF h, of _ "Suc (next_id s)"]) (use assms in simp_all)
  moreover have "replaced_ok (goals s')" unfolding assms(11) using r assms(5,6) by (intro replaced_ok_add)
  moreover have "proposals_ok (next_id s') (goals s') (goal_change_proposals s') (goal_change_proposal_contents s')"
    unfolding assms(13,14) by (rule proposals_ok_mono [OF goal_okD(2) [OF assms(1)]]) (use assms in auto)
  ultimately show ?thesis by (simp add: goal_ok_def goals_ok_def)
qed

lemma op_keeps_goal_create: "op_keeps goal_ok (create_goal ti de dm via now)"
proof -
  have "keeps goal_ok (tx_bind new_id (\<lambda>version_id. tx_bind new_id (\<lambda>i.
      (let g = \<lparr>go_group_id = i, go_current_version_id = version_id, go_status = GS_ACTIVE,
             go_created_at = now, go_status_changed_at = now, go_replaces_group_id = None,
             go_archived_at = None\<rparr>;
           version = \<lparr>gv_id = version_id, gv_goal_group_id = i, gv_version = 1, gv_title = ti,
             gv_target_description = de, gv_trust_domain = dm,
             gv_created_at = now, gv_created_via = via, gv_adaptation_reason = None,
             gv_supersedes_id = None\<rparr>
       in tx_bind (tx_modify (insert_goal g)) (\<lambda>_. tx_bind (tx_modify (insert_version version)) (\<lambda>_.
          tx_return g))))))"
    by (rule keepsI)
      (auto simp: tx_success new_id_def Let_def insert_goal_def insert_version_def elim!: goal_ok_add)
  then show ?thesis unfolding create_goal_def by (intro op_keeps_transition keeps_goal_emit)
qed

lemma op_keeps_goal_transition:
  assumes "set from \<subseteq> {GS_ACTIVE, GS_PAUSED}" and "st \<noteq> GS_REPLACED"
  shows "op_keeps goal_ok (transition_goal i st act from ty extra now)"
  unfolding transition_goal_def
proof (intro op_keeps_transition keeps_goal_emit keepsI)
  fix s s' :: "'a goal_db_scheme" and a
  assume ok: "goal_ok s"
    and run: "tx_bind (load_goal_in i from act) (\<lambda>_. tx_modify (set_goal_status i st now)) s = Inr (a, s')"
  then obtain g where row: "get_goal i s = Some g" and "go_status g \<in> set from"
    and s': "s' = set_goal_status i st now s"
    by (auto simp: tx_bind_eq_Inr load_goal_in_Inr tx_modify_apply)
  then have "\<not> goal_terminal g" using assms(1) by (auto simp: goal_terminal_iff)
  then show "goal_ok s'" unfolding s' using ok row assms(2) by (intro goal_ok_set_status)
qed

lemma op_keeps_goal_pause: "op_keeps goal_ok (pause_goal i r now)"
  unfolding pause_goal_def by (rule op_keeps_goal_transition) simp_all

lemma op_keeps_goal_resume: "op_keeps goal_ok (resume_goal i now)"
  unfolding resume_goal_def by (rule op_keeps_goal_transition) simp_all

lemma op_keeps_goal_complete: "op_keeps goal_ok (complete_goal i r now)"
  unfolding complete_goal_def by (rule op_keeps_goal_transition) simp_all

lemma op_keeps_goal_archive: "op_keeps goal_ok (archive_goal i now)"
proof -
  have upd: "goal_ok (s\<lparr>goals := update_where (\<lambda>g. go_group_id g = i) (\<lambda>g. g\<lparr>go_archived_at := Some now\<rparr>) (goals s)\<rparr>)"
    if ok: "goal_ok s" and row: "get_goal i s = Some g" and st: "go_status g \<in> set goal_terminal_statuses"
    for s :: "'a goal_db_scheme" and g
  proof (rule goal_ok_update [OF ok])
    fix x assume x: "x \<in> set (goals s)" "go_group_id x = i"
    have "distinct (map go_group_id (goals s))"
      using goal_okD(1) [OF ok] by (simp add: goals_ok_def histories_ok_def)
    then have "x = g" using x get_goalD [OF row] by (metis distinct_key_eq)
    then show "goal_terminal (x\<lparr>go_archived_at := Some now\<rparr>)" using st by (simp add: goal_terminal_def)
  qed simp_all
  show ?thesis unfolding archive_goal_def
    by (intro op_keeps_transition keeps_goal_emit keepsI)
      (auto simp: tx_bind_eq_Inr load_goal_in_Inr tx_modify_apply intro: upd)
qed

lemma goal_ok_more:
  "goal_ok s \<Longrightarrow> goal_ok (s\<lparr>goal_evidence_rows := a\<rparr>)" "goal_ok s \<Longrightarrow> goal_ok (s\<lparr>goal_evaluations := b\<rparr>)"
  by (simp_all add: goal_ok_def)

lemma op_keeps_goal_evidence: "op_keeps goal_ok (record_evidence gid vid a b oc pr src now)"
  unfolding record_evidence_def Let_def
  by (intro op_keeps_transition keeps_bind keeps_get keeps_require keeps_return keeps_modify
      keeps_goal_new_id keeps_goal_emit goal_ok_more)

lemma op_keeps_goal_evaluation: "op_keeps goal_ok (record_evaluation gid es fi iv de now)"
  unfolding record_evaluation_def Let_def
  by (intro op_keeps_if op_keeps_raise op_keeps_transition keeps_bind keeps_get keeps_require keeps_return
      keeps_modify keeps_goal_new_id keeps_goal_emit goal_ok_more)

section \<open>Proposals\<close>

lemma op_keeps_goal_propose: "op_keeps goal_ok (create_change_proposal gid ch re x ev ti de rep now)"
proof -
  have "goal_ok (s\<lparr>next_id := Suc (Suc (next_id s)), goal_change_proposals := goal_change_proposals s @ [p],
      goal_change_proposal_contents := goal_change_proposal_contents s @ [c]\<rparr>)"
    if ok: "goal_ok s" and known: "goal_known gid s"
      and p: "gp_id p = next_id s" "gp_goal_group_id p = gid" "gp_status p = GP_PENDING" "gp_resolved_at p = None"
        "gc_proposal_id c = next_id s"
    for s :: "'a goal_db_scheme" and p c
  proof -
    have "gid \<in> go_group_id ` set (goals s)" using known by (auto simp: goal_known_def dest: get_goalD)
    moreover have "next_id s \<notin> gp_id ` set (goal_change_proposals s)"
      using goal_okD(2) [OF ok] by (fastforce simp: proposals_ok_def)
    ultimately have "proposals_ok (Suc (Suc (next_id s))) (goals s) (goal_change_proposals s @ [p])
        (goal_change_proposal_contents s @ [c])"
      using goal_okD(2) [OF ok] p by (auto simp: proposals_ok_def proposal_fits_def less_Suc_eq)
    moreover have "goals_ok (Suc (Suc (next_id s))) (goals s) (goal_versions s)"
      using goal_okD(1) [OF ok] by (rule goals_ok_mono) simp
    ultimately show ?thesis by (simp add: goal_ok_def)
  qed
  note add = this
  show ?thesis unfolding create_change_proposal_def
    by (intro op_keeps_transition keeps_goal_emit keepsI)
      (auto simp: tx_success new_id_def Let_def goal_known_def get_goal_def intro!: add)
qed

lemma load_pending_proposal_Inr:
  "load_pending_proposal i s = Inr (p, s') \<longleftrightarrow> get_change_proposal i s = Some p \<and> gp_status p = GP_PENDING \<and> s' = s"
  by (auto simp: load_pending_proposal_def tx_success)

lemma goal_ok_set_proposal:
  fixes s :: "'m goal_db_scheme"
  assumes ok: "goal_ok s" and "st \<noteq> GP_PENDING"
  shows "goal_ok (set_proposal_status i st now s)"
proof -
  let ?f = "\<lambda>p. p\<lparr>gp_status := st, gp_resolved_at := Some now\<rparr>"
  have "\<forall>p \<in> set (update_where (\<lambda>p. gp_id p = i) ?f (goal_change_proposals s)).
      gp_id p < next_id s \<and> proposal_fits (goals s) p"
    by (rule ball_update_where) (use goal_okD(2) [OF ok] assms(2) in \<open>auto simp: proposals_ok_def proposal_fits_def\<close>)
  moreover have "map gp_id (update_where (\<lambda>p. gp_id p = i) ?f (goal_change_proposals s)) = map gp_id (goal_change_proposals s)"
    by (rule map_update_where) simp
  ultimately show ?thesis using goal_okD [OF ok]
    by (simp add: goal_ok_def set_proposal_status_def proposals_ok_def)
qed

subsection \<open>The effects of an acceptance in closed form\<close>

definition adapted_version ::
  "uid \<Rightarrow> uid \<Rightarrow> goal_version \<Rightarrow> goal_change_proposal_content \<Rightarrow> time \<Rightarrow> goal_version" where
  "adapted_version i gid cur c now = \<lparr>gv_id = i, gv_goal_group_id = gid, gv_version = gv_version cur + 1,
     gv_title = or_text (gc_proposed_title c) (gv_title cur),
     gv_target_description = or_text (gc_proposed_target_description c) (gv_target_description cur),
     gv_trust_domain = gv_trust_domain cur, gv_created_at = now,
     gv_created_via = ''coach_proposed_user_approved'',
     gv_adaptation_reason = Some (gc_reason c), gv_supersedes_id = Some (gv_id cur)\<rparr>"

definition adapted :: "uid \<Rightarrow> goal_version \<Rightarrow> goal_change_proposal_content \<Rightarrow> time
     \<Rightarrow> 'm goal_db_scheme \<Rightarrow> 'm goal_db_scheme" where
  "adapted gid cur c now s = s\<lparr>next_id := Suc (next_id s),
     goal_versions := goal_versions s @ [adapted_version (next_id s) gid cur c now],
     goals := update_where (\<lambda>g. go_group_id g = gid) (\<lambda>g. g\<lparr>go_current_version_id := next_id s\<rparr>) (goals s)\<rparr>"

lemma apply_adaptation_Inr:
  "apply_adaptation_in_transaction gid c now s = Inr (a, s') \<longleftrightarrow>
     (\<exists>g cur ct. get_goal gid s = Some g \<and> go_status g = GS_ACTIVE
        \<and> get_goal_version (go_current_version_id g) s = Some cur \<and> c = Some ct
        \<and> s' = emitted ''goal.adapted'' ''goal_management'' [(''goal_group_id'', JId gid),
            (''goal_version_id'', JId (next_id s)), (''reason'', JStr (gc_reason ct))] now (adapted gid cur ct now s))"
  by (auto simp: apply_adaptation_in_transaction_def tx_success load_goal_in_Inr new_id_def Let_def
      insert_version_def emit_emitted adapted_def adapted_version_def)

definition replacement_goal :: "uid \<Rightarrow> uid \<Rightarrow> uid \<Rightarrow> time \<Rightarrow> goal" where
  "replacement_goal i vid gid now = \<lparr>go_group_id = i, go_current_version_id = vid,
     go_status = GS_ACTIVE, go_created_at = now, go_status_changed_at = now,
     go_replaces_group_id = Some gid, go_archived_at = None\<rparr>"

definition replacement_version ::
  "uid \<Rightarrow> uid \<Rightarrow> goal_version \<Rightarrow> goal_change_proposal_content \<Rightarrow> time \<Rightarrow> goal_version" where
  "replacement_version i vid cur c now = \<lparr>gv_id = vid, gv_goal_group_id = i, gv_version = 1,
     gv_title = or_text (gc_proposed_title c) (gv_title cur),
     gv_target_description = or_text (gc_proposed_target_description c) (gv_target_description cur),
     gv_trust_domain = gv_trust_domain cur, gv_created_at = now,
     gv_created_via = ''coach_proposed_user_approved'', gv_adaptation_reason = None,
     gv_supersedes_id = None\<rparr>"

definition replaced :: "uid \<Rightarrow> goal_version \<Rightarrow> goal_change_proposal_content \<Rightarrow> time
     \<Rightarrow> 'm goal_db_scheme \<Rightarrow> 'm goal_db_scheme" where
  "replaced gid cur c now s = s\<lparr>next_id := Suc (Suc (next_id s)),
     goals := update_where (\<lambda>g. go_group_id g = gid)
         (\<lambda>g. g\<lparr>go_status := GS_REPLACED, go_status_changed_at := now\<rparr>) (goals s)
       @ [replacement_goal (Suc (next_id s)) (next_id s) gid now],
     goal_versions := goal_versions s @ [replacement_version (Suc (next_id s)) (next_id s) cur c now]\<rparr>"

definition replacement_events :: "uid \<Rightarrow> goal_version \<Rightarrow> uid \<Rightarrow> time
     \<Rightarrow> 'm outbox_db_scheme \<Rightarrow> 'm outbox_db_scheme" where
  "replacement_events gid cur n now s =
     emitted ''goal.created'' ''goal_management''
       [(''goal_group_id'', JId (Suc n)), (''goal_version_id'', JId n), (''trust_domain'', JStr (gv_trust_domain cur))] now
     (emitted ''goal.replaced'' ''goal_management''
       [(''goal_group_id'', JId gid), (''replacement_goal_group_id'', JId (Suc n))] now s)"

lemma apply_replacement_Inr:
  "apply_replacement_in_transaction gid c now s = Inr (a, s') \<longleftrightarrow>
     (\<exists>g cur ct. get_goal gid s = Some g \<and> (go_status g = GS_ACTIVE \<or> go_status g = GS_PAUSED)
        \<and> get_goal_version (go_current_version_id g) s = Some cur \<and> c = Some ct
        \<and> s' = replacement_events gid cur (next_id s) now (replaced gid cur ct now s))"
  by (auto simp: apply_replacement_in_transaction_def tx_success load_goal_in_Inr new_id_def Let_def
      insert_version_def insert_goal_def set_goal_status_def get_goal_version_def emit_emitted
      replaced_def replacement_goal_def replacement_version_def replacement_events_def)

lemma goal_ok_emitted: "goal_ok s \<Longrightarrow> goal_ok (emitted ty src p now s)"
  using keeps_goal_emit emit_emitted by (metis keepsD)

lemma get_goal_versionD:
  "get_goal_version i s = Some v \<Longrightarrow> v \<in> set (goal_versions s) \<and> gv_id v = i"
  unfolding get_goal_version_def by (rule row_by_SomeD)

lemma goal_ok_adapted:
  fixes s :: "'m goal_db_scheme"
  assumes ok: "goal_ok s" and g: "get_goal gid s = Some g"
    and cur: "get_goal_version (go_current_version_id g) s = Some cur"
  shows "goal_ok (adapted gid cur c now s)"
proof -
  let ?s = "adapted gid cur c now s"
  have h: "histories_ok (next_id s) (goals s) (goal_versions s)" and r: "replaced_ok (goals s)"
    using goal_okD(1) [OF ok] by (simp_all add: goals_ok_def)
  have "histories_ok (next_id ?s) (goals ?s) (goal_versions ?s)"
    using histories_ok_adapt [OF h, of g gid cur "adapted_version (next_id s) gid cur c now"]
      get_goalD [OF g] get_goal_versionD [OF cur]
    by (simp add: adapted_def adapted_version_def)
  moreover have "replaced_ok (goals ?s)" using r unfolding adapted_def
    by (simp, intro replaced_ok_update) auto
  moreover have "go_group_id ` set (goals ?s) = go_group_id ` set (goals s)"
    unfolding adapted_def by (simp, rule group_ids_update) simp
  ultimately show ?thesis using goal_okD(2) [OF ok]
    by (auto simp: adapted_def goal_ok_def goals_ok_def intro: proposals_ok_mono)
qed

lemma goal_ok_replaced:
  fixes s :: "'m goal_db_scheme"
  assumes ok: "goal_ok s" and g: "get_goal gid s = Some g"
    and st: "go_status g = GS_ACTIVE \<or> go_status g = GS_PAUSED"
    and cur: "get_goal_version (go_current_version_id g) s = Some cur"
  shows "goal_ok (replaced gid cur c now s)"
proof -
  let ?s = "replaced gid cur c now s"
  let ?gs = "update_where (\<lambda>g. go_group_id g = gid)
      (\<lambda>g. g\<lparr>go_status := GS_REPLACED, go_status_changed_at := now\<rparr>) (goals s)"
  have h: "histories_ok (next_id s) (goals s) (goal_versions s)" and r: "replaced_ok (goals s)"
    using goal_okD(1) [OF ok] by (simp_all add: goals_ok_def)
  have "histories_ok (next_id s) ?gs (goal_versions s)"
    using h by (rule histories_ok_update) (simp_all add: goal_terminal_iff)
  then have "histories_ok (next_id ?s) (goals ?s) (goal_versions ?s)" unfolding replaced_def
    by (simp, elim histories_ok_add [where i = "Suc (next_id s)"])
      (simp_all add: replacement_goal_def replacement_version_def)
  moreover have "replaced_ok (goals ?s)" unfolding replaced_def
    using replaced_ok_replace [OF r, of g gid] get_goalD [OF g] st histories_okD(1) [OF h]
    by (auto simp: replacement_goal_def)
  moreover have "go_group_id ` set (goals s) \<subseteq> go_group_id ` set (goals ?s)"
    using group_ids_update [of "\<lambda>g. go_group_id g = gid" "\<lambda>g. g\<lparr>go_status := GS_REPLACED, go_status_changed_at := now\<rparr>" "goals s"]
    by (auto simp: replaced_def)
  then have "proposals_ok (next_id ?s) (goals ?s) (goal_change_proposals s) (goal_change_proposal_contents s)"
    by (intro proposals_ok_mono [OF goal_okD(2) [OF ok]]) (simp_all add: replaced_def)
  ultimately show ?thesis by (simp add: replaced_def goal_ok_def goals_ok_def)
qed

lemma keeps_goal_adapt: "keeps goal_ok (apply_adaptation_in_transaction gid c now)"
  by (rule keepsI) (auto simp: apply_adaptation_Inr intro!: goal_ok_emitted elim: goal_ok_adapted)

lemma keeps_goal_replace: "keeps goal_ok (apply_replacement_in_transaction gid c now)"
  by (rule keepsI) (auto simp: apply_replacement_Inr replacement_events_def intro!: goal_ok_emitted
      elim: goal_ok_replaced)

lemma keeps_goal_abandon: "keeps goal_ok (apply_abandonment_in_transaction gid now)"
  by (rule keepsI) (auto simp: apply_abandonment_in_transaction_def tx_bind_eq_Inr load_goal_in_Inr
      tx_modify_apply emit_emitted goal_terminal_iff intro!: goal_ok_emitted elim!: goal_ok_set_status)

lemma keeps_goal_apply: "keeps goal_ok (apply_change ch gid c now)"
  unfolding apply_change_def
  by (cases ch) (simp_all add: keeps_goal_adapt keeps_goal_replace keeps_goal_abandon keeps_return)

lemma keeps_goal_load_pending: "keeps goal_ok (load_pending_proposal i)"
  unfolding load_pending_proposal_def by (intro keeps_bind keeps_get keeps_the keeps_require keeps_return)

lemma op_keeps_goal_accept: "op_keeps goal_ok (accept_proposal i now)"
  unfolding accept_proposal_def accept_proposal_write_def emit_resolved_def
  by (intro op_keeps_bind op_keeps_return op_keeps_transition keeps_bind keeps_get keeps_return
      keeps_goal_load_pending keeps_modify goal_ok_set_proposal keeps_goal_apply keeps_goal_emit) simp_all

lemma op_keeps_goal_resolve:
  "st \<noteq> GP_PENDING \<Longrightarrow> op_keeps goal_ok (resolve_proposal_without_effect i st res now)"
  unfolding resolve_proposal_without_effect_def emit_resolved_def
  by (intro op_keeps_bind op_keeps_return op_keeps_transition keeps_bind keeps_return
      keeps_goal_load_pending keeps_modify goal_ok_set_proposal keeps_goal_emit)

lemma op_keeps_goal_decline: "op_keeps goal_ok (decline_proposal i now)"
  unfolding decline_proposal_def by (rule op_keeps_goal_resolve) simp

lemma op_keeps_goal_recover: "op_keeps goal_ok (recover_goal_management_state now)"
  unfolding recover_goal_management_state_def
  by (intro op_keeps_bind op_keeps_get op_keeps_for op_keeps_return op_keeps_goal_resolve) simp

section \<open>What the module leaves alone\<close>

locale goal_frame =
  fixes I :: "'m goal_db_scheme \<Rightarrow> bool"
  assumes new_id: "keeps I new_id"
    and emit: "keeps I (emit ty src p now)"
    and goals: "I s \<Longrightarrow> I (s\<lparr>goals := a\<rparr>)"
    and versions: "I s \<Longrightarrow> I (s\<lparr>goal_versions := goal_versions s @ [b]\<rparr>)"
    and evidence: "I s \<Longrightarrow> I (s\<lparr>goal_evidence_rows := goal_evidence_rows s @ [c]\<rparr>)"
    and evaluations: "I s \<Longrightarrow> I (s\<lparr>goal_evaluations := goal_evaluations s @ [d]\<rparr>)"
    and proposals: "I s \<Longrightarrow> I (s\<lparr>goal_change_proposals := e\<rparr>)"
    and contents: "I s \<Longrightarrow> I (s\<lparr>goal_change_proposal_contents := goal_change_proposal_contents s @ [f]\<rparr>)"
begin

lemmas tables = goals versions evidence evaluations proposals contents

lemma keeps_status: "keeps I (tx_modify (set_goal_status i st now))"
  unfolding set_goal_status_def by (intro keeps_modify tables)

lemma keeps_insert_goal: "keeps I (tx_modify (insert_goal g))"
  unfolding insert_goal_def by (intro keeps_modify tables)

lemma keeps_insert_version: "keeps I (tx_modify (insert_version v))"
  unfolding insert_version_def by (intro keeps_modify tables)

lemma keeps_proposal_status: "keeps I (tx_modify (set_proposal_status i st now))"
  unfolding set_proposal_status_def by (intro keeps_modify tables)

lemma keeps_load: "keeps I (load_goal_in i from act)"
  unfolding load_goal_in_def by (intro keeps_bind keeps_get keeps_the keeps_require keeps_return)

lemma keeps_load_pending: "keeps I (load_pending_proposal i)"
  unfolding load_pending_proposal_def by (intro keeps_bind keeps_get keeps_the keeps_require keeps_return)

lemma create: "op_keeps I (create_goal ti de dm via now)"
  unfolding create_goal_def Let_def
  by (intro op_keeps_transition keeps_bind keeps_return keeps_insert_goal keeps_insert_version new_id emit)

lemma move: "op_keeps I (transition_goal i st act from ty extra now)"
  unfolding transition_goal_def by (intro op_keeps_transition keeps_bind keeps_load keeps_status emit)

lemma pause: "op_keeps I (pause_goal i r now)"
  unfolding pause_goal_def by (rule move)

lemma resume: "op_keeps I (resume_goal i now)"
  unfolding resume_goal_def by (rule move)

lemma complete: "op_keeps I (complete_goal i r now)"
  unfolding complete_goal_def by (rule move)

lemma archive: "op_keeps I (archive_goal i now)"
  unfolding archive_goal_def by (intro op_keeps_transition keeps_bind keeps_load keeps_modify tables emit)

lemma record_evidence: "op_keeps I (record_evidence gid vid x y oc pr src now)"
  unfolding record_evidence_def Let_def
  by (intro op_keeps_transition keeps_bind keeps_get keeps_require keeps_return keeps_modify new_id emit tables)

lemma record_evaluation: "op_keeps I (record_evaluation gid es fi iv de now)"
  unfolding record_evaluation_def Let_def
  by (intro op_keeps_if op_keeps_raise op_keeps_transition keeps_bind keeps_get keeps_require keeps_return
      keeps_modify new_id emit tables)

lemma propose: "op_keeps I (create_change_proposal gid ch re x ev ti de rep now)"
proof -
  have both: "I (s\<lparr>goal_change_proposals := ps, goal_change_proposal_contents :=
      goal_change_proposal_contents s @ [c]\<rparr>)" if "I s" for s ps c
    using contents [OF proposals [OF that], of ps c] by simp
  show ?thesis unfolding create_change_proposal_def Let_def
    by (intro op_keeps_transition keeps_bind keeps_get keeps_require keeps_return keeps_modify new_id emit both)
qed

lemma keeps_adapt: "keeps I (apply_adaptation_in_transaction gid c now)"
proof -
  have "keeps I (tx_modify (\<lambda>s. s\<lparr>goals := update_where q h (goals s)\<rparr>))" for q h
    by (intro keeps_modify goals)
  then show ?thesis unfolding apply_adaptation_in_transaction_def Let_def
    by (intro keeps_bind keeps_get keeps_the keeps_load keeps_insert_version new_id emit)
qed

lemma keeps_replace: "keeps I (apply_replacement_in_transaction gid c now)"
  unfolding apply_replacement_in_transaction_def
  by (intro keeps_bind keeps_get keeps_the keeps_load keeps_status keeps_insert_goal keeps_insert_version
      new_id emit)

lemma keeps_abandon: "keeps I (apply_abandonment_in_transaction gid now)"
  unfolding apply_abandonment_in_transaction_def by (intro keeps_bind keeps_load keeps_status emit)

lemma keeps_apply: "keeps I (apply_change ch gid c now)"
  unfolding apply_change_def
  by (cases ch) (simp_all add: keeps_adapt keeps_replace keeps_abandon keeps_return)

lemma accept: "op_keeps I (accept_proposal i now)"
  unfolding accept_proposal_def accept_proposal_write_def emit_resolved_def
  by (intro op_keeps_bind op_keeps_return op_keeps_transition keeps_bind keeps_get keeps_return
      keeps_load_pending keeps_proposal_status keeps_apply emit)

lemma resolve: "op_keeps I (resolve_proposal_without_effect i st res now)"
  unfolding resolve_proposal_without_effect_def emit_resolved_def
  by (intro op_keeps_bind op_keeps_return op_keeps_transition keeps_bind keeps_return
      keeps_load_pending keeps_proposal_status emit)

lemma decline: "op_keeps I (decline_proposal i now)"
  unfolding decline_proposal_def by (rule resolve)

lemma recover: "op_keeps I (recover_goal_management_state now)"
  unfolding recover_goal_management_state_def
  by (intro op_keeps_bind op_keeps_get op_keeps_for op_keeps_return resolve)

lemmas operations = create pause resume complete archive record_evidence record_evaluation propose
  accept decline recover

end

interpretation outbox_goal: goal_frame outbox_ok
  by unfold_locales
    (simp_all add: keeps_outbox_new_id keeps_outbox_emit, simp_all add: outbox_ok_def)

interpretation trust_goal: goal_frame trust_inv
proof unfold_locales
  fix s :: "'a goal_db_scheme" and a b c d e f
  assume inv: "trust_inv s"
  note ok = trust_invD(1) [OF inv]
  show "trust_inv (s\<lparr>goals := a\<rparr>)" "trust_inv (s\<lparr>goal_versions := goal_versions s @ [b]\<rparr>)"
    "trust_inv (s\<lparr>goal_evidence_rows := goal_evidence_rows s @ [c]\<rparr>)" "trust_inv (s\<lparr>goal_evaluations := goal_evaluations s @ [d]\<rparr>)"
    "trust_inv (s\<lparr>goal_change_proposals := e\<rparr>)" "trust_inv (s\<lparr>goal_change_proposal_contents := goal_change_proposal_contents s @ [f]\<rparr>)"
    by (rule trust_inv_transfer [OF inv], use ok in \<open>simp_all add: trust_ok_defs\<close>)+
qed (simp_all add: keeps_inv_new_id keeps_inv_emit)

interpretation penalty_goal: goal_frame penalty_ok
  by unfold_locales
    (simp_all add: keeps_penalty_new_id keeps_penalty_emit,
     (rule penalty_ok_transfer, assumption, simp_all)+)

interpretation recovery_goal: goal_frame recovery_ok
  by unfold_locales
    (simp_all add: keeps_recovery_new_id keeps_recovery_emit,
     (rule recovery_ok_transfer, assumption, simp_all)+)

end
