(* ===== verification/Texts.thy ===== *)
theory Texts
  imports Prelude "HOL-Library.Char_ord" "HOL-Library.List_Lexorder"
begin

text \<open>
  Python's \<open>str\<close> as far as the modelled modules use it: \<open>strip()\<close> and the blank test it gives,
  decimal digits (the fixed-width fields of a stored timestamp, the text of an identifier), and
  the code point order in which Python and SQLite compare texts. A text is a \<open>string\<close>, so the
  model covers the characters below code point 256.
\<close>

section \<open>Blank texts\<close>

text \<open>The characters \<open>str.strip()\<close> removes.\<close>

definition py_space :: "char \<Rightarrow> bool" where
  "py_space c \<longleftrightarrow> (of_char c :: nat) \<in> {9, 10, 11, 12, 13, 28, 29, 30, 31, 32, 133, 160}"

definition nonblank :: "string \<Rightarrow> bool" where
  \<comment> \<open>\<open>value and value.strip()\<close>\<close>
  "nonblank c \<longleftrightarrow> list_ex (\<lambda>x. \<not> py_space x) c"

definition py_strip :: "string \<Rightarrow> string" where
  "py_strip s = rev (dropWhile py_space (rev (dropWhile py_space s)))"

lemma nonblank_Nil [simp]: "\<not> nonblank []"
  by (simp add: nonblank_def)

lemma dropWhile_space_blank: "dropWhile py_space s = [] \<longleftrightarrow> \<not> nonblank s"
  by (induction s) (auto simp: nonblank_def)

lemma nonblank_rev [simp]: "nonblank (rev s) = nonblank s"
  by (simp add: nonblank_def list_ex_iff)

lemma nonblank_dropWhile [simp]: "nonblank (dropWhile py_space s) = nonblank s"
  by (induction s) (auto simp: nonblank_def)

lemma nonblank_py_strip [simp]: "nonblank (py_strip s) = nonblank s"
  by (simp add: py_strip_def)

lemma py_strip_empty: "py_strip s = [] \<longleftrightarrow> \<not> nonblank s"
  unfolding py_strip_def rev_is_Nil_conv dropWhile_space_blank by simp

lemma length_py_strip: "length (py_strip s) \<le> length s"
proof -
  have "length (py_strip s) \<le> length (dropWhile py_space s)"
    using length_dropWhile_le [of py_space "rev (dropWhile py_space s)"] by (simp add: py_strip_def)
  also have "\<dots> \<le> length s" by (rule length_dropWhile_le)
  finally show ?thesis .
qed

lemma dropWhile_hd: "xs \<noteq> [] \<Longrightarrow> \<not> P (hd xs) \<Longrightarrow> dropWhile P xs = xs"
  by (cases xs) auto

lemma py_strip_idem [simp]: "py_strip (py_strip s) = py_strip s"
proof (cases "nonblank s")
  case False
  then show ?thesis by (metis nonblank_py_strip py_strip_empty)
next
  case True
  define a where "a = dropWhile py_space s"
  define b where "b = dropWhile py_space (rev a)"
  have a: "a \<noteq> []" using True unfolding a_def by (metis dropWhile_space_blank)
  then have a_hd: "\<not> py_space (hd a)" unfolding a_def by (rule hd_dropWhile)
  have b: "b \<noteq> []" using True unfolding b_def a_def
    by (metis dropWhile_space_blank nonblank_dropWhile nonblank_rev)
  then have b_hd: "\<not> py_space (hd b)" unfolding b_def by (rule hd_dropWhile)
  obtain front where "rev a = front @ b"
    using takeWhile_dropWhile_id [of py_space "rev a"] unfolding b_def by metis
  then have "a = rev b @ rev front" by (metis rev_append rev_rev_ident)
  then have "hd (rev b) = hd a" using b by simp
  then have "dropWhile py_space (rev b) = rev b" using a_hd b by (intro dropWhile_hd) auto
  moreover have "dropWhile py_space b = b" using b b_hd by (intro dropWhile_hd)
  moreover have "py_strip s = rev b" by (simp add: py_strip_def a_def b_def)
  ultimately show ?thesis by (simp add: py_strip_def)
qed

section \<open>Decimal digits\<close>

definition digit :: "nat \<Rightarrow> char" where
  "digit d = char_of (48 + d)"

definition digit_value :: "char \<Rightarrow> nat option" where
  "digit_value c = (let n = of_char c in if 48 \<le> n \<and> n \<le> 57 then Some (n - 48) else None)"

fun padded :: "nat \<Rightarrow> nat \<Rightarrow> string" where
  \<comment> \<open>\<open>f"{n:0kd}"\<close> for a number of at most \<open>k\<close> digits\<close>
  "padded 0 n = []"
| "padded (Suc k) n = padded k (n div 10) @ [digit (n mod 10)]"

fun decimal :: "nat \<Rightarrow> string" where
  \<comment> \<open>\<open>str(n)\<close>\<close>
  "decimal n = (if n < 10 then [digit n] else decimal (n div 10) @ [digit (n mod 10)])"

declare decimal.simps [simp del]

fun read_digits :: "nat \<Rightarrow> string \<Rightarrow> nat option" where
  "read_digits acc [] = Some acc"
| "read_digits acc (c # cs) =
     (case digit_value c of None \<Rightarrow> None | Some d \<Rightarrow> read_digits (acc * 10 + d) cs)"

lemma of_char_digit: "d < 10 \<Longrightarrow> (of_char (digit d) :: nat) = 48 + d"
  by (simp add: digit_def)

lemma digit_value_digit [simp]: "d < 10 \<Longrightarrow> digit_value (digit d) = Some d"
  by (simp add: digit_value_def of_char_digit)

lemma digit_less: "d < 10 \<Longrightarrow> e < 10 \<Longrightarrow> digit d < digit e \<longleftrightarrow> d < e"
  by (simp add: less_char_def of_char_digit)

lemma digit_eq: "d < 10 \<Longrightarrow> e < 10 \<Longrightarrow> digit d = digit e \<longleftrightarrow> d = e"
  by (metis digit_value_digit option.inject)

lemma py_space_digit: "d < 10 \<Longrightarrow> \<not> py_space (digit d)"
  by (simp add: py_space_def of_char_digit)

lemma length_padded [simp]: "length (padded k n) = k"
  by (induction k arbitrary: n) auto

lemma read_digits_append:
  "read_digits acc (xs @ ys) = (case read_digits acc xs of None \<Rightarrow> None | Some a \<Rightarrow> read_digits a ys)"
  by (induction xs arbitrary: acc) (auto split: option.splits)

lemma read_padded: "n < 10 ^ k \<Longrightarrow> read_digits acc (padded k n) = Some (acc * 10 ^ k + n)"
proof (induction k arbitrary: n)
  case 0
  then show ?case by simp
next
  case (Suc k)
  have "n div 10 < 10 ^ k" using Suc.prems by (simp add: less_mult_imp_div_less)
  then have "read_digits acc (padded k (n div 10)) = Some (acc * 10 ^ k + n div 10)" by (rule Suc.IH)
  moreover have "(acc * 10 ^ k + n div 10) * 10 + n mod 10 = acc * 10 ^ Suc k + n"
    by (simp add: algebra_simps)
  ultimately show ?case by (simp add: read_digits_append)
qed

lemma read_decimal: "read_digits 0 (decimal n) = Some n"
proof (induction n rule: decimal.induct)
  case (1 n)
  show ?case
  proof (cases "n < 10")
    case True
    then show ?thesis by (simp add: decimal.simps [of n])
  next
    case False
    then show ?thesis using 1 by (simp add: decimal.simps [of n] read_digits_append)
  qed
qed

lemma decimal_inj [simp]: "decimal m = decimal n \<longleftrightarrow> m = n"
  by (metis option.inject read_decimal)

lemma decimal_nonblank [simp]: "nonblank (decimal n)"
proof (induction n rule: decimal.induct)
  case (1 n)
  have "\<not> py_space (digit (n mod 10))" by (simp add: py_space_digit)
  then show ?case using 1 py_space_digit [of n]
    by (cases "n < 10") (simp_all add: decimal.simps [of n] nonblank_def)
qed

section \<open>Lower case and numerals\<close>

text \<open>\<open>str.lower()\<close> on the characters below code point 256.\<close>

definition py_lower_char :: "char \<Rightarrow> char" where
  "py_lower_char c = (let n = of_char c :: nat in
     if 65 \<le> n \<and> n \<le> 90 \<or> 192 \<le> n \<and> n \<le> 222 \<and> n \<noteq> 215 then char_of (n + 32) else c)"

definition py_lower :: "string \<Rightarrow> string" where
  "py_lower s = map py_lower_char s"

text \<open>
  \<open>str.isdigit()\<close> also accepts the superscript digits, which \<open>int()\<close> rejects; \<open>int()\<close> further
  rejects numerals of more than 4300 digits.
\<close>

definition py_isdigit :: "string \<Rightarrow> bool" where
  "py_isdigit s \<longleftrightarrow> s \<noteq> [] \<and>
     list_all (\<lambda>c. digit_value c \<noteq> None \<or> (of_char c :: nat) \<in> {178, 179, 185}) s"

definition py_int_of_digits :: "string \<Rightarrow> exn + nat" where
  \<comment> \<open>\<open>int(s)\<close> for a text that passed \<open>isdigit()\<close>\<close>
  "py_int_of_digits s = (if 4300 < length s then Inl ValueError
     else case read_digits 0 s of None \<Rightarrow> Inl ValueError | Some n \<Rightarrow> Inr n)"

section \<open>The order of texts\<close>

lemma less_append_same_length:
  fixes xs ys us vs :: string
  assumes "length xs = length ys"
  shows "xs @ us < ys @ vs \<longleftrightarrow> xs < ys \<or> (xs = ys \<and> us < vs)"
  using assms by (induction xs ys rule: list_induct2) auto

lemma padded_inj: "m < 10 ^ k \<Longrightarrow> n < 10 ^ k \<Longrightarrow> padded k m = padded k n \<longleftrightarrow> m = n"
  by (metis add_left_cancel option.inject read_padded)

lemma padded_less: "m < 10 ^ k \<Longrightarrow> n < 10 ^ k \<Longrightarrow> padded k m < padded k n \<longleftrightarrow> m < n"
proof (induction k arbitrary: m n)
  case 0
  then show ?case by simp
next
  case (Suc k)
  have b: "m div 10 < 10 ^ k" "n div 10 < 10 ^ k"
    using Suc.prems by (simp_all add: less_mult_imp_div_less)
  have "padded (Suc k) m < padded (Suc k) n \<longleftrightarrow>
      m div 10 < n div 10 \<or> (m div 10 = n div 10 \<and> m mod 10 < n mod 10)"
    using Suc.IH [OF b] padded_inj [OF b]
    by (simp add: less_append_same_length digit_less)
  also have "\<dots> \<longleftrightarrow> m < n"
    using div_mult_mod_eq [of m 10] div_mult_mod_eq [of n 10]
      mod_less_divisor [of 10 m] mod_less_divisor [of 10 n] by linarith
  finally show ?case .
qed

section \<open>Identifiers as texts\<close>

text \<open>
  Modules that receive identifiers from callers as \<open>str\<close> and check them for blankness keep them
  as texts; a drawn uuid is rendered by an injective function whose values are never blank.
\<close>

definition uuid_text :: "uid \<Rightarrow> string" where
  "uuid_text i = decimal i"

lemma uuid_text_inj [simp]: "uuid_text i = uuid_text j \<longleftrightarrow> i = j"
  by (simp add: uuid_text_def)

lemma uuid_text_nonblank [simp]: "nonblank (uuid_text i)"
  by (simp add: uuid_text_def)

lemma uuid_text_not_Nil [simp]: "uuid_text i \<noteq> []" "[] \<noteq> uuid_text i"
  using uuid_text_nonblank [of i] nonblank_Nil by metis+

end
