(* ===== verification/Advanced_Mode.thy ===== *)
theory Advanced_Mode
  imports Goal_Facts Texts
begin

text \<open>
  \<open>advanced_mode/models.py\<close> and \<open>advanced_mode/repository.py\<close>: the operating mode and the
  two-stage transition between its two values. The Penalty Engine is a parameter of every call, as
  in the source; \<open>window_reader\<close> is the contract its read has to keep, interpreted below on the
  Penalty Engine's own read.
\<close>

section \<open>Rows\<close>

datatype operating_mode = STANDARD | ADVANCED

datatype mode_transition_status =
    BLOCKED_BY_PENALTY_WINDOW | WAITING | PAUSED_BY_PENALTY_WINDOW | AWAITING_CONFIRMATION
  | CANCELLED | MT_COMPLETED | INVALIDATED

fun terminal_status :: "mode_transition_status \<Rightarrow> bool" where
  "terminal_status CANCELLED = True"
| "terminal_status MT_COMPLETED = True"
| "terminal_status INVALIDATED = True"
| "terminal_status _ = False"

record operating_mode_state =
  current_mode :: operating_mode
  mode_activated_at :: time

record mode_transition_request =
  mt_id :: uid
  mt_source_mode :: operating_mode
  mt_target_mode :: operating_mode
  mt_status :: mode_transition_status
  mt_requested_at :: time
  mt_requested_via_consent_id :: string
  mt_wait_started_at :: "time option"
  mt_wait_interrupted_at :: "time option"
  mt_confirmable_at :: "time option"
  mt_confirmed_at :: "time option"
  mt_confirmed_via_consent_id :: "string option"
  mt_cancelled_at :: "time option"
  mt_invalidated_at :: "time option"
  mt_resolved_at :: "time option"

text \<open>\<open>operating_mode_state\<close> is a singleton table, seeded by its migration.\<close>

record mode_db = goal_db +
  operating_mode_row :: operating_mode_state
  mode_transition_requests :: "mode_transition_request list"

definition minimum_time_in_advanced :: time where "minimum_time_in_advanced = 30 * day"
definition confirmation_wait :: time where "confirmation_wait = 24 * hour"

section \<open>Reads and helpers\<close>

definition consent_given :: "string \<Rightarrow> bool" where
  \<comment> \<open>\<open>consent_id and consent_id.strip()\<close>\<close>
  "consent_given c \<longleftrightarrow> nonblank c"

definition fetch_active_request :: "'m mode_db_scheme \<Rightarrow> mode_transition_request option" where
  "fetch_active_request s =
     first_row (filter (\<lambda>r. \<not> terminal_status (mt_status r)) (mode_transition_requests s))"

definition get_current_mode :: "'m mode_db_scheme \<Rightarrow> operating_mode_state" where
  "get_current_mode s = operating_mode_row s"

definition request_by_id :: "uid \<Rightarrow> 'm mode_db_scheme \<Rightarrow> mode_transition_request option" where
  "request_by_id i s = row_by mt_id i (mode_transition_requests s)"

definition restart_wait :: "time \<Rightarrow> mode_transition_request \<Rightarrow> mode_transition_request" where
  "restart_wait now r = r\<lparr>mt_status := WAITING, mt_wait_started_at := Some now,
     mt_confirmable_at := Some (now + confirmation_wait)\<rparr>"

definition pause_request :: "time \<Rightarrow> mode_transition_request \<Rightarrow> mode_transition_request" where
  "pause_request now r = r\<lparr>mt_status := PAUSED_BY_PENALTY_WINDOW, mt_wait_interrupted_at := Some now,
     mt_confirmable_at := None\<rparr>"

definition compute_next_state ::
  "mode_transition_request \<Rightarrow> bool \<Rightarrow> time \<Rightarrow> mode_transition_request" where
  "compute_next_state r pw_active now =
     (case mt_status r of
        BLOCKED_BY_PENALTY_WINDOW \<Rightarrow> if \<not> pw_active then restart_wait now r else r
      | WAITING \<Rightarrow>
          if pw_active then pause_request now r
          else if (case mt_confirmable_at r of None \<Rightarrow> False | Some t \<Rightarrow> t \<le> now)
          then r\<lparr>mt_status := AWAITING_CONFIRMATION\<rparr>
          else r
      | PAUSED_BY_PENALTY_WINDOW \<Rightarrow> if \<not> pw_active then restart_wait now r else r
      | AWAITING_CONFIRMATION \<Rightarrow> if pw_active then pause_request now r else r
      | _ \<Rightarrow> r)"

definition write_request_fields ::
  "mode_transition_request \<Rightarrow> 'm mode_db_scheme \<Rightarrow> 'm mode_db_scheme" where
  "write_request_fields q s = s\<lparr>mode_transition_requests := update_where (\<lambda>r. mt_id r = mt_id q)
     (\<lambda>r. r\<lparr>mt_status := mt_status q, mt_wait_started_at := mt_wait_started_at q,
            mt_wait_interrupted_at := mt_wait_interrupted_at q,
            mt_confirmable_at := mt_confirmable_at q, mt_confirmed_at := mt_confirmed_at q,
            mt_confirmed_via_consent_id := mt_confirmed_via_consent_id q,
            mt_cancelled_at := mt_cancelled_at q, mt_invalidated_at := mt_invalidated_at q,
            mt_resolved_at := mt_resolved_at q\<rparr>) (mode_transition_requests s)\<rparr>"

section \<open>Operations\<close>

type_synonym 'm window_read = "'m mode_db_scheme \<Rightarrow> penalty_window option"

definition advance_transition_state ::
  "'m window_read \<Rightarrow> time \<Rightarrow> ('m mode_db_scheme, mode_transition_request option) op" where
  "advance_transition_state read_window now = transition
     (tx_bind (tx_get fetch_active_request) (\<lambda>row.
      case row of None \<Rightarrow> tx_return None | Some request \<Rightarrow>
      tx_bind (tx_get read_window) (\<lambda>pw.
      (let updated = compute_next_state request (pw \<noteq> None) now
       in if updated = request then tx_return (Some request)
          else tx_bind (tx_modify (write_request_fields updated)) (\<lambda>_. tx_return (Some updated))))))
     no_events"

definition new_request ::
  "uid \<Rightarrow> operating_mode \<Rightarrow> operating_mode \<Rightarrow> bool \<Rightarrow> string \<Rightarrow> time \<Rightarrow> mode_transition_request" where
  "new_request i source target blocked consent now =
     \<lparr>mt_id = i, mt_source_mode = source, mt_target_mode = target,
      mt_status = (if blocked then BLOCKED_BY_PENALTY_WINDOW else WAITING),
      mt_requested_at = now, mt_requested_via_consent_id = consent,
      mt_wait_started_at = (if blocked then None else Some now), mt_wait_interrupted_at = None,
      mt_confirmable_at = (if blocked then None else Some (now + confirmation_wait)),
      mt_confirmed_at = None, mt_confirmed_via_consent_id = None, mt_cancelled_at = None,
      mt_invalidated_at = None, mt_resolved_at = None\<rparr>"

definition request_transition ::
  "'m window_read \<Rightarrow> operating_mode \<Rightarrow> string \<Rightarrow> time \<Rightarrow> ('m mode_db_scheme, mode_transition_request) op" where
  "request_transition read_window target consent now =
     op_bind (op_require (consent_given consent) ValueError) (\<lambda>_. transition
       (tx_bind (tx_get fetch_active_request) (\<lambda>active.
        tx_bind (tx_require (active = None) ActiveModeTransitionExistsError) (\<lambda>_.
        tx_bind (tx_get operating_mode_row) (\<lambda>st.
        tx_bind (tx_require (target \<noteq> current_mode st) ValueError) (\<lambda>_.
        tx_bind (tx_require (\<not> (target = STANDARD \<and> now < mode_activated_at st + minimum_time_in_advanced))
          MinimumTimeInAdvancedNotMetError) (\<lambda>_.
        tx_bind (tx_get read_window) (\<lambda>pw.
        tx_bind new_id (\<lambda>i.
        (let request = new_request i (current_mode st) target (pw \<noteq> None) consent now
         in tx_bind (tx_modify (\<lambda>s. s\<lparr>mode_transition_requests := mode_transition_requests s @ [request]\<rparr>)) (\<lambda>_.
            tx_return request))))))))))
       no_events)"

definition cancel_request :: "uid \<Rightarrow> time \<Rightarrow> ('m mode_db_scheme, mode_transition_request) op" where
  "cancel_request i now = transition
     (tx_bind (tx_get (request_by_id i)) (\<lambda>row.
      tx_bind (tx_the NoActiveModeTransitionError row) (\<lambda>request.
      tx_bind (tx_require (\<not> terminal_status (mt_status request)) NoActiveModeTransitionError) (\<lambda>_.
      (let updated = request\<lparr>mt_status := CANCELLED, mt_cancelled_at := Some now, mt_resolved_at := Some now\<rparr>
       in tx_bind (tx_modify (write_request_fields updated)) (\<lambda>_. tx_return updated))))))
     no_events"

datatype confirm_outcome = Source_Mode_Mismatch | Penalty_Window_Interrupted | Confirm_Success

definition confirm_transition_write ::
  "uid \<Rightarrow> 'm window_read \<Rightarrow> string \<Rightarrow> time
     \<Rightarrow> ('m mode_db_scheme, mode_transition_request \<times> confirm_outcome) tx" where
  "confirm_transition_write i read_window consent now =
     tx_bind (tx_get (request_by_id i)) (\<lambda>row.
     tx_bind (tx_the NoActiveModeTransitionError row) (\<lambda>request.
     tx_bind (tx_require (mt_status request = AWAITING_CONFIRMATION) ModeTransitionNotConfirmableError) (\<lambda>_.
     tx_bind (tx_get operating_mode_row) (\<lambda>st.
     if current_mode st \<noteq> mt_source_mode request
     then (let invalidated = request\<lparr>mt_status := INVALIDATED, mt_confirmed_at := None,
                 mt_confirmed_via_consent_id := None, mt_cancelled_at := None,
                 mt_invalidated_at := Some now, mt_resolved_at := Some now\<rparr>
           in tx_bind (tx_modify (write_request_fields invalidated)) (\<lambda>_.
              tx_return (invalidated, Source_Mode_Mismatch)))
     else
     tx_bind (tx_get read_window) (\<lambda>pw.
     if pw \<noteq> None
     then (let paused = pause_request now request
           in tx_bind (tx_modify (write_request_fields paused)) (\<lambda>_.
              tx_return (paused, Penalty_Window_Interrupted)))
     else (let completed = request\<lparr>mt_status := MT_COMPLETED, mt_confirmed_at := Some now,
                 mt_confirmed_via_consent_id := Some consent, mt_resolved_at := Some now\<rparr>
           in tx_bind (tx_modify (write_request_fields completed)) (\<lambda>_.
              tx_bind (tx_modify (\<lambda>s. s\<lparr>operating_mode_row :=
                \<lparr>current_mode = mt_target_mode request, mode_activated_at = now\<rparr>\<rparr>)) (\<lambda>_.
              tx_return (completed, Confirm_Success)))))))))"

text \<open>The two exceptions are raised after the transaction has committed.\<close>

definition confirm_transition ::
  "uid \<Rightarrow> 'm window_read \<Rightarrow> string \<Rightarrow> time \<Rightarrow> ('m mode_db_scheme, mode_transition_request) op" where
  "confirm_transition i read_window consent now =
     op_bind (op_require (consent_given consent) ValueError) (\<lambda>_.
     op_bind (transition (confirm_transition_write i read_window consent now) no_events) (\<lambda>(request, outcome).
     case outcome of
       Source_Mode_Mismatch \<Rightarrow> op_raise ModeTransitionSourceModeMismatchError
     | Penalty_Window_Interrupted \<Rightarrow> op_raise ModeTransitionInterruptedByPenaltyWindowError
     | Confirm_Success \<Rightarrow> op_return request))"

section \<open>The contract of the window read\<close>

locale window_reader =
  fixes read_window :: "'m window_read"
  assumes requests_irrelevant: "read_window (s\<lparr>mode_transition_requests := rs\<rparr>) = read_window s"
    and mode_irrelevant: "read_window (s\<lparr>operating_mode_row := m\<rparr>) = read_window s"

interpretation engine_read: window_reader get_active_or_frozen_penalty_window
  by unfold_locales (simp_all add: get_active_or_frozen_penalty_window_def)

end
