(* ===== verification/Mode_Facts.thy ===== *)
theory Mode_Facts
  imports Advanced_Mode
begin

text \<open>
  The invariant of the operating mode (MODE-1 and the field table of \<open>ModeTransitionRequest\<close>), its
  preservation, and the runs of the module under a clock that does not go back: at most one open
  request, made from the current mode, confirmable only 24 hours after its wait began.
\<close>

section \<open>The invariant\<close>

abbreviation open_request :: "mode_transition_request \<Rightarrow> bool" where
  "open_request r \<equiv> \<not> terminal_status (mt_status r)"

fun status_fields_ok :: "mode_transition_status \<Rightarrow> mode_transition_request \<Rightarrow> bool" where
  "status_fields_ok BLOCKED_BY_PENALTY_WINDOW r = (mt_wait_started_at r = None \<and> mt_confirmable_at r = None)"
| "status_fields_ok WAITING r =
     (case mt_wait_started_at r of None \<Rightarrow> False
      | Some w \<Rightarrow> mt_confirmable_at r = Some (w + confirmation_wait))"
| "status_fields_ok PAUSED_BY_PENALTY_WINDOW r =
     (mt_confirmable_at r = None \<and> mt_wait_started_at r \<noteq> None \<and> mt_wait_interrupted_at r \<noteq> None)"
| "status_fields_ok AWAITING_CONFIRMATION r =
     (case mt_wait_started_at r of None \<Rightarrow> False
      | Some w \<Rightarrow> mt_confirmable_at r = Some (w + confirmation_wait))"
| "status_fields_ok CANCELLED r =
     (mt_cancelled_at r \<noteq> None \<and> mt_resolved_at r \<noteq> None \<and> mt_confirmed_at r = None)"
| "status_fields_ok MT_COMPLETED r =
     (mt_confirmed_at r \<noteq> None \<and> mt_confirmed_via_consent_id r \<noteq> None \<and> mt_resolved_at r \<noteq> None)"
| "status_fields_ok INVALIDATED r =
     (mt_invalidated_at r \<noteq> None \<and> mt_resolved_at r \<noteq> None \<and> mt_confirmed_at r = None
      \<and> mt_confirmed_via_consent_id r = None \<and> mt_cancelled_at r = None)"

definition request_ok :: "mode_transition_request \<Rightarrow> bool" where
  "request_ok r \<longleftrightarrow> mt_source_mode r \<noteq> mt_target_mode r \<and> status_fields_ok (mt_status r) r
     \<and> (open_request r \<longrightarrow> mt_confirmed_at r = None \<and> mt_confirmed_via_consent_id r = None
          \<and> mt_cancelled_at r = None \<and> mt_invalidated_at r = None \<and> mt_resolved_at r = None)"

definition fits_mode :: "operating_mode_state \<Rightarrow> mode_transition_request \<Rightarrow> bool" where
  "fits_mode st r \<longleftrightarrow> mt_source_mode r = current_mode st
     \<and> (mt_target_mode r = STANDARD \<longrightarrow> mode_activated_at st + minimum_time_in_advanced \<le> mt_requested_at r)"

definition requests_ok :: "operating_mode_state \<Rightarrow> mode_transition_request list \<Rightarrow> bool" where
  "requests_ok st rs \<longleftrightarrow> distinct (map mt_id rs) \<and> count_where open_request rs \<le> 1
     \<and> (\<forall>r \<in> set rs. request_ok r \<and> (open_request r \<longrightarrow> fits_mode st r))"

definition mode_ok :: "'m mode_db_scheme \<Rightarrow> bool" where
  "mode_ok s \<longleftrightarrow> requests_ok (operating_mode_row s) (mode_transition_requests s)
     \<and> (\<forall>r \<in> set (mode_transition_requests s). mt_id r < next_id s)"

lemma mode_okD:
  assumes "mode_ok s"
  shows "distinct (map mt_id (mode_transition_requests s))"
    and "count_where open_request (mode_transition_requests s) \<le> 1"
    and "r \<in> set (mode_transition_requests s) \<Longrightarrow> request_ok r"
    and "r \<in> set (mode_transition_requests s) \<Longrightarrow> open_request r \<Longrightarrow> fits_mode (operating_mode_row s) r"
    and "r \<in> set (mode_transition_requests s) \<Longrightarrow> mt_id r < next_id s"
  using assms by (auto simp: mode_ok_def requests_ok_def)

lemma mode_ok_transfer:
  fixes s s' :: "'m mode_db_scheme"
  assumes "mode_ok s" and "next_id s \<le> next_id s'"
    and "operating_mode_row s' = operating_mode_row s"
    and "mode_transition_requests s' = mode_transition_requests s"
  shows "mode_ok s'"
  using assms by (fastforce simp: mode_ok_def)

lemma mode_ok_insert_event [simp]: "mode_ok (insert_event r s) = mode_ok s"
  by (simp add: mode_ok_def insert_event_def)

lemma mode_ok_new_id: "mode_ok s \<Longrightarrow> mode_ok (s\<lparr>next_id := Suc (next_id s)\<rparr>)"
  by (rule mode_ok_transfer, assumption) simp_all

lemma keeps_mode_new_id [keeps_intros]: "keeps mode_ok new_id"
  by (simp add: keeps_def tx_simps mode_ok_new_id)

lemma keeps_mode_emit [keeps_intros]: "keeps mode_ok (emit ty src p now)"
  by (simp add: keeps_def tx_simps mode_ok_new_id)

interpretation mode_below_trust: trust_frame mode_ok
  by unfold_locales (simp_all add: keeps_mode_new_id keeps_mode_emit, simp_all add: mode_ok_def)

interpretation mode_below_penalty: penalty_frame mode_ok
  by unfold_locales (simp_all add: keeps_mode_new_id keeps_mode_emit, simp_all add: mode_ok_def)

interpretation mode_below_recovery: recovery_frame mode_ok
  by unfold_locales (simp_all add: keeps_mode_new_id keeps_mode_emit, simp_all add: mode_ok_def)

interpretation mode_below_goal: goal_frame mode_ok
  by unfold_locales (simp_all add: keeps_mode_new_id keeps_mode_emit, simp_all add: mode_ok_def)

section \<open>One step of a request\<close>

definition same_request :: "mode_transition_request \<Rightarrow> mode_transition_request \<Rightarrow> bool" where
  \<comment> \<open>the columns that never change after the insert\<close>
  "same_request q r \<longleftrightarrow> mt_id q = mt_id r \<and> mt_source_mode q = mt_source_mode r
     \<and> mt_target_mode q = mt_target_mode r \<and> mt_requested_at q = mt_requested_at r
     \<and> mt_requested_via_consent_id q = mt_requested_via_consent_id r"

lemma same_request_simps [simp]:
  "same_request r r"
  "same_request (restart_wait now r) r" "same_request (pause_request now r) r"
  "same_request (r\<lparr>mt_status := st\<rparr>) r"
  by (simp_all add: same_request_def restart_wait_def pause_request_def)

lemma same_request_next [simp]: "same_request (compute_next_state r pw now) r"
  by (simp add: compute_next_state_def split: mode_transition_status.split)

lemma compute_next_ok:
  assumes "request_ok r"
  shows "request_ok (compute_next_state r pw now)"
  using assms
  by (cases "mt_status r")
    (auto simp: compute_next_state_def request_ok_def restart_wait_def pause_request_def split: option.splits)

lemma compute_next_open: "open_request (compute_next_state r pw now) = open_request r"
  by (cases "mt_status r") (auto simp: compute_next_state_def restart_wait_def pause_request_def)

text \<open>A step is single: the freshly restarted wait is not over in the same call.\<close>

lemma compute_next_idem:
  "compute_next_state (compute_next_state r pw now) pw now = compute_next_state r pw now"
  by (cases "mt_status r")
    (auto simp: compute_next_state_def restart_wait_def pause_request_def confirmation_wait_def hour_def
      split: option.splits)

section \<open>Writing a request back\<close>

definition put_request :: "mode_transition_request \<Rightarrow> mode_transition_request list \<Rightarrow> mode_transition_request list" where
  "put_request q rs = update_where (\<lambda>r. mt_id r = mt_id q) (\<lambda>_. q) rs"

lemma write_request_fields_put:
  assumes "distinct (map mt_id (mode_transition_requests s))" and "r \<in> set (mode_transition_requests s)"
    and "same_request q r"
  shows "write_request_fields q s = s\<lparr>mode_transition_requests := put_request q (mode_transition_requests s)\<rparr>"
proof -
  have "(if mt_id x = mt_id q then x\<lparr>mt_status := mt_status q, mt_wait_started_at := mt_wait_started_at q,
            mt_wait_interrupted_at := mt_wait_interrupted_at q,
            mt_confirmable_at := mt_confirmable_at q, mt_confirmed_at := mt_confirmed_at q,
            mt_confirmed_via_consent_id := mt_confirmed_via_consent_id q,
            mt_cancelled_at := mt_cancelled_at q, mt_invalidated_at := mt_invalidated_at q,
            mt_resolved_at := mt_resolved_at q\<rparr> else x) = (if mt_id x = mt_id q then q else x)"
    if "x \<in> set (mode_transition_requests s)" for x
  proof (cases "mt_id x = mt_id q")
    case True
    then have "x = r" using that assms by (metis distinct_key_eq same_request_def)
    then show ?thesis using assms(3) by (cases x, cases q) (simp add: same_request_def)
  qed simp
  then show ?thesis
    by (simp add: write_request_fields_def put_request_def update_where_def cong: map_cong)
qed

lemma put_request_ids: "map mt_id (put_request q rs) = map mt_id rs"
  unfolding put_request_def by (rule map_update_where) simp

lemma count_open_put:
  assumes "distinct (map mt_id rs)" and "r \<in> set rs" and "mt_id q = mt_id r"
    and "open_request q \<Longrightarrow> open_request r"
  shows "count_where open_request (put_request q rs) \<le> count_where open_request rs"
  using assms(1,2)
proof (induction rs)
  case Nil
  then show ?case by simp
next
  case (Cons x xs)
  show ?case
  proof (cases "x = r")
    case True
    then have "mt_id q \<notin> mt_id ` set xs" using Cons.prems(1) assms(3) by simp
    then have "put_request q xs = xs" unfolding put_request_def by (rule update_where_absent)
    then show ?thesis using True assms(3,4) by (auto simp: put_request_def)
  next
    case False
    then have r: "r \<in> set xs" using Cons.prems(2) by simp
    then have "mt_id x \<noteq> mt_id q" using Cons.prems(1) assms(3) by (auto simp: image_iff)
    then show ?thesis using Cons.IH [OF _ r] Cons.prems(1) by (simp add: put_request_def)
  qed
qed

lemma requests_ok_put:
  assumes ok: "requests_ok st rs" and r: "r \<in> set rs" and q: "same_request q r" "request_ok q"
    and op: "open_request q \<Longrightarrow> open_request r"
    and st': "st' = st \<or> \<not> open_request q \<and> open_request r"
  shows "requests_ok st' (put_request q rs)"
proof -
  have dist: "distinct (map mt_id rs)" and one: "count_where open_request rs \<le> 1"
    and rows: "\<forall>r \<in> set rs. request_ok r \<and> (open_request r \<longrightarrow> fits_mode st r)"
    using ok by (simp_all add: requests_ok_def)
  have id: "mt_id q = mt_id r" using q(1) by (simp add: same_request_def)
  have "request_ok x \<and> (open_request x \<longrightarrow> fits_mode st' x)" if x: "x \<in> set (put_request q rs)" for x
  proof -
    have "x = q \<or> x \<in> set rs \<and> mt_id x \<noteq> mt_id q"
      using x unfolding put_request_def by (auto simp: set_update_where)
    then show ?thesis
    proof
      assume "x = q"
      moreover have "fits_mode st' q" if "open_request q"
        using rows r op [OF that] st' that q(1) by (auto simp: fits_mode_def same_request_def)
      ultimately show ?thesis using q(2) by simp
    next
      assume x: "x \<in> set rs \<and> mt_id x \<noteq> mt_id q"
      have "st' = st" if "open_request x"
      proof (rule ccontr)
        assume "st' \<noteq> st"
        then have "open_request r" using st' by simp
        then have "x = r" using count_le_1_unique [OF one] x r that by blast
        with x id show False by simp
      qed
      with rows x show ?thesis by auto
    qed
  qed
  moreover have "count_where open_request (put_request q rs) \<le> 1"
    using count_open_put [OF dist r id op] one by linarith
  ultimately show ?thesis using dist by (simp add: requests_ok_def put_request_ids)
qed

lemma mode_ok_put:
  fixes s s' :: "'m mode_db_scheme"
  assumes ok: "mode_ok s" and r: "r \<in> set (mode_transition_requests s)"
    and q: "same_request q r" "request_ok q" and op: "open_request q \<Longrightarrow> open_request r"
    and s': "mode_transition_requests s' = put_request q (mode_transition_requests s)" "next_id s' = next_id s"
      "operating_mode_row s' = operating_mode_row s \<or> \<not> open_request q \<and> open_request r"
  shows "mode_ok s'"
proof -
  have "requests_ok (operating_mode_row s') (mode_transition_requests s')"
    unfolding s'(1) using ok r q op s'(3) by (intro requests_ok_put) (simp_all add: mode_ok_def)
  moreover have "mt_id q = mt_id r" using q(1) by (simp add: same_request_def)
  then have "\<forall>x \<in> set (mode_transition_requests s'). mt_id x < next_id s'"
    using mode_okD(5) [OF ok] r by (auto simp: s'(1,2) put_request_def set_update_where)
  ultimately show ?thesis by (simp add: mode_ok_def)
qed

section \<open>The operations\<close>

lemma fetch_activeD:
  assumes "fetch_active_request s = Some r"
  shows "r \<in> set (mode_transition_requests s)" and "open_request r"
proof -
  have "r \<in> set (filter open_request (mode_transition_requests s))"
    using assms unfolding fetch_active_request_def
    by (cases "filter open_request (mode_transition_requests s)") auto
  then show "r \<in> set (mode_transition_requests s)" and "open_request r" by simp_all
qed

lemma fetch_active_None:
  "fetch_active_request s = None \<longleftrightarrow> (\<forall>r \<in> set (mode_transition_requests s). \<not> open_request r)"
proof -
  have "first_row xs = None \<longleftrightarrow> xs = []" for xs :: "mode_transition_request list" by (cases xs) simp_all
  then show ?thesis by (simp add: fetch_active_request_def filter_empty_conv)
qed

lemma request_by_idD: "request_by_id i s = Some r \<Longrightarrow> r \<in> set (mode_transition_requests s) \<and> mt_id r = i"
  unfolding request_by_id_def by (rule row_by_SomeD)

definition put :: "mode_transition_request \<Rightarrow> 'm mode_db_scheme \<Rightarrow> 'm mode_db_scheme" where
  "put q s = s\<lparr>mode_transition_requests := put_request q (mode_transition_requests s)\<rparr>"

lemma put_sel [simp]:
  "mode_transition_requests (put q s) = put_request q (mode_transition_requests s)"
  "next_id (put q s) = next_id s" "operating_mode_row (put q s) = operating_mode_row s"
  by (simp_all add: put_def)

lemma advance_eq:
  assumes ok: "mode_ok s" and r: "fetch_active_request s = Some r"
  shows "advance_transition_state read_window now s =
    (let q = compute_next_state r (read_window s \<noteq> None) now
     in (Inr (Some q), if q = r then s else put q s))"
proof -
  let ?q = "compute_next_state r (read_window s \<noteq> None) now"
  have "write_request_fields ?q s = put ?q s" unfolding put_def
    using mode_okD(1) [OF ok] fetch_activeD(1) [OF r] by (rule write_request_fields_put) simp
  then show ?thesis using r
    by (simp add: advance_transition_state_def transition_no_events tx_bind_apply tx_simps Let_def
        atomically_def)
qed

lemma advance_None:
  "fetch_active_request s = None \<Longrightarrow> advance_transition_state read_window now s = (Inr None, s)"
  by (simp add: advance_transition_state_def transition_no_events tx_bind_apply tx_simps atomically_def)

lemma op_keeps_mode_advance: "op_keeps mode_ok (advance_transition_state read_window now)"
proof (rule op_keepsI)
  fix s :: "'a mode_db_scheme"
  assume ok: "mode_ok s"
  show "mode_ok (snd (advance_transition_state read_window now s))"
  proof (cases "fetch_active_request s")
    case None
    then show ?thesis using ok by (simp add: advance_None)
  next
    case (Some r)
    let ?q = "compute_next_state r (read_window s \<noteq> None) now"
    have "mode_ok (put ?q s)"
      using mode_okD(3) [OF ok fetch_activeD(1) [OF Some]] fetch_activeD(2) [OF Some]
      by (intro mode_ok_put [OF ok fetch_activeD(1) [OF Some]]) (simp_all add: compute_next_ok)
    then show ?thesis using ok by (simp add: advance_eq [OF ok Some] Let_def)
  qed
qed

lemma request_eq:
  "request_transition read_window target consent now s =
    (if \<not> consent_given consent then (Inl ValueError, s)
     else if fetch_active_request s \<noteq> None then (Inl ActiveModeTransitionExistsError, s)
     else if target = current_mode (operating_mode_row s) then (Inl ValueError, s)
     else if target = STANDARD \<and> now < mode_activated_at (operating_mode_row s) + minimum_time_in_advanced
       then (Inl MinimumTimeInAdvancedNotMetError, s)
     else (let r = new_request (next_id s) (current_mode (operating_mode_row s)) target
                     (read_window s \<noteq> None) consent now
           in (Inr r, s\<lparr>next_id := Suc (next_id s),
                 mode_transition_requests := mode_transition_requests s @ [r]\<rparr>)))"
  by (simp add: request_transition_def transition_no_events op_bind_def op_require_def op_return_def
      op_raise_def tx_bind_apply tx_simps atomically_def Let_def new_id_def del: split_paired_Ex)

lemma new_request_ok:
  "source \<noteq> target \<Longrightarrow> request_ok (new_request i source target b c now)"
  by (simp add: request_ok_def new_request_def)

lemma op_keeps_mode_request: "op_keeps mode_ok (request_transition read_window target consent now)"
proof (rule op_keepsI)
  fix s :: "'a mode_db_scheme"
  assume ok: "mode_ok s"
  let ?r = "new_request (next_id s) (current_mode (operating_mode_row s)) target (read_window s \<noteq> None) consent now"
  have "mode_ok (s\<lparr>next_id := Suc (next_id s), mode_transition_requests := mode_transition_requests s @ [?r]\<rparr>)"
    if none: "fetch_active_request s = None" and new: "target \<noteq> current_mode (operating_mode_row s)"
      and time: "\<not> (target = STANDARD \<and> now < mode_activated_at (operating_mode_row s) + minimum_time_in_advanced)"
  proof -
    have "count_where open_request (mode_transition_requests s) = 0"
      using none by (auto simp: fetch_active_None count_where_0)
    moreover have "request_ok ?r" using new by (intro new_request_ok) simp
    moreover have "fits_mode (operating_mode_row s) ?r" using time by (auto simp: fits_mode_def new_request_def)
    moreover have "mt_id ?r = next_id s" by (simp add: new_request_def)
    moreover have "next_id s \<notin> mt_id ` set (mode_transition_requests s)" using mode_okD(5) [OF ok] by fastforce
    ultimately show ?thesis using ok by (auto simp: mode_ok_def requests_ok_def less_Suc_eq)
  qed
  then show "mode_ok (snd (request_transition read_window target consent now s))"
    using ok by (simp add: request_eq Let_def)
qed

definition cancelled :: "time \<Rightarrow> mode_transition_request \<Rightarrow> mode_transition_request" where
  "cancelled now r = r\<lparr>mt_status := CANCELLED, mt_cancelled_at := Some now, mt_resolved_at := Some now\<rparr>"

lemma cancel_eq:
  assumes ok: "mode_ok s"
  shows "cancel_request i now s = (case request_by_id i s of
      None \<Rightarrow> (Inl NoActiveModeTransitionError, s)
    | Some r \<Rightarrow> if open_request r then (Inr (cancelled now r), put (cancelled now r) s)
                else (Inl NoActiveModeTransitionError, s))"
proof (cases "request_by_id i s")
  case None
  then show ?thesis by (simp add: cancel_request_def transition_no_events tx_bind_apply tx_simps atomically_def)
next
  case (Some r)
  have "same_request (cancelled now r) r" by (simp add: same_request_def cancelled_def)
  then have "write_request_fields (cancelled now r) s = put (cancelled now r) s" unfolding put_def
    using mode_okD(1) [OF ok] request_by_idD [OF Some] by (intro write_request_fields_put) auto
  then show ?thesis using Some
    by (simp add: cancel_request_def transition_no_events tx_bind_apply tx_simps atomically_def Let_def
        cancelled_def)
qed

lemma op_keeps_mode_cancel: "op_keeps mode_ok (cancel_request i now)"
proof (rule op_keepsI)
  fix s :: "'a mode_db_scheme"
  assume ok: "mode_ok s"
  have "mode_ok (put (cancelled now r) s)" if r: "request_by_id i s = Some r" and "open_request r" for r
  proof (rule mode_ok_put [OF ok])
    show "r \<in> set (mode_transition_requests s)" using request_by_idD [OF r] ..
    then have "request_ok r" by (rule mode_okD(3) [OF ok])
    then show "request_ok (cancelled now r)" using that(2) by (simp add: request_ok_def cancelled_def)
  qed (simp_all add: same_request_def cancelled_def)
  then show "mode_ok (snd (cancel_request i now s))"
    using ok by (simp add: cancel_eq [OF ok] split: option.split)
qed

definition confirmed :: "string \<Rightarrow> time \<Rightarrow> mode_transition_request \<Rightarrow> mode_transition_request" where
  "confirmed consent now r = r\<lparr>mt_status := MT_COMPLETED, mt_confirmed_at := Some now,
     mt_confirmed_via_consent_id := Some consent, mt_resolved_at := Some now\<rparr>"

definition switched :: "operating_mode \<Rightarrow> time \<Rightarrow> 'm mode_db_scheme \<Rightarrow> 'm mode_db_scheme" where
  "switched m now s = s\<lparr>operating_mode_row := \<lparr>current_mode = m, mode_activated_at = now\<rparr>\<rparr>"

lemma switched_sel [simp]:
  "mode_transition_requests (switched m now s) = mode_transition_requests s"
  "next_id (switched m now s) = next_id s"
  "operating_mode_row (switched m now s) = \<lparr>current_mode = m, mode_activated_at = now\<rparr>"
  by (simp_all add: switched_def)

text \<open>The mismatch branch is dead: an open request was always made from the current mode.\<close>

lemma confirm_eq:
  assumes ok: "mode_ok s" and consent: "consent_given consent"
  shows "confirm_transition i read_window consent now s = (case request_by_id i s of
      None \<Rightarrow> (Inl NoActiveModeTransitionError, s)
    | Some r \<Rightarrow>
        if mt_status r \<noteq> AWAITING_CONFIRMATION then (Inl ModeTransitionNotConfirmableError, s)
        else if read_window s \<noteq> None
        then (Inl ModeTransitionInterruptedByPenaltyWindowError, put (pause_request now r) s)
        else (Inr (confirmed consent now r),
              switched (mt_target_mode r) now (put (confirmed consent now r) s)))"
proof (cases "request_by_id i s")
  case None
  then show ?thesis using consent
    by (simp add: confirm_transition_def confirm_transition_write_def transition_no_events op_bind_def
        op_require_def op_return_def tx_bind_apply tx_simps atomically_def)
next
  case (Some r)
  note r = request_by_idD [OF Some]
  have w: "write_request_fields q s = put q s" if "same_request q r" for q
    unfolding put_def using mode_okD(1) [OF ok] r that by (intro write_request_fields_put) auto
  have p: "write_request_fields (pause_request now r) s = put (pause_request now r) s" by (rule w) simp
  have "same_request (confirmed consent now r) r" by (simp add: same_request_def confirmed_def)
  then have c: "write_request_fields (confirmed consent now r) s = put (confirmed consent now r) s" by (rule w)
  have "mt_source_mode r = current_mode (operating_mode_row s)" if "mt_status r = AWAITING_CONFIRMATION"
    using mode_okD(4) [OF ok] r that by (auto simp: fits_mode_def)
  then show ?thesis using consent Some p c
    by (cases "mt_status r = AWAITING_CONFIRMATION"; cases "read_window s = None")
      (auto simp: confirm_transition_def confirm_transition_write_def transition_no_events op_bind_def
        op_require_def op_return_def op_raise_def tx_bind_apply tx_simps atomically_def Let_def
        confirmed_def switched_def)
qed

lemma confirm_no_consent:
  "\<not> consent_given consent \<Longrightarrow> confirm_transition i read_window consent now s = (Inl ValueError, s)"
  by (simp add: confirm_transition_def op_bind_def op_require_def op_raise_def)

lemma op_keeps_mode_confirm: "op_keeps mode_ok (confirm_transition i read_window consent now)"
proof (rule op_keepsI)
  fix s :: "'a mode_db_scheme"
  assume ok: "mode_ok s"
  show "mode_ok (snd (confirm_transition i read_window consent now s))"
  proof (cases "consent_given consent")
    case False
    then show ?thesis using ok by (simp add: confirm_no_consent)
  next
    case True
    have "mode_ok (put (pause_request now r) s)" "mode_ok (switched (mt_target_mode r) now (put (confirmed consent now r) s))"
      if row: "request_by_id i s = Some r" and st: "mt_status r = AWAITING_CONFIRMATION" for r
    proof -
      note r = request_by_idD [OF row]
      have rok: "request_ok r" using r mode_okD(3) [OF ok] by blast
      show "mode_ok (put (pause_request now r) s)"
        by (rule mode_ok_put [OF ok conjunct1 [OF r]])
          (use rok st in \<open>auto simp: request_ok_def pause_request_def same_request_def split: option.splits\<close>)
      show "mode_ok (switched (mt_target_mode r) now (put (confirmed consent now r) s))"
        by (rule mode_ok_put [OF ok conjunct1 [OF r], of "confirmed consent now r"])
          (use rok st in \<open>simp_all add: request_ok_def confirmed_def same_request_def switched_def\<close>)
    qed
    then show ?thesis using ok by (auto simp: confirm_eq [OF ok True] split: option.split)
  qed
qed

section \<open>Reading the window does not depend on the request\<close>

lemma open_requestI:
  assumes ok: "mode_ok s" and "r \<in> set (mode_transition_requests s)" and "open_request r"
  shows "fetch_active_request s = Some r"
proof -
  obtain r' where r': "fetch_active_request s = Some r'"
    using assms(2,3) by (cases "fetch_active_request s") (auto simp: fetch_active_None)
  have "r' = r" by (rule count_le_1_unique [OF mode_okD(2) [OF ok] fetch_activeD [OF r'] assms(2,3)])
  with r' show ?thesis by simp
qed

context window_reader
begin

lemma read_put [simp]: "read_window (put q s) = read_window s"
  by (simp add: put_def requests_irrelevant)

lemma read_switched [simp]: "read_window (switched m now s) = read_window s"
  by (simp add: switched_def mode_irrelevant)

text \<open>Settling twice at the same instant is settling once.\<close>

lemma advance_idempotent:
  assumes ok: "mode_ok s" and run: "advance_transition_state read_window now s = (r, s1)"
  shows "advance_transition_state read_window now s1 = (r, s1)"
proof (cases "fetch_active_request s")
  case None
  then show ?thesis using run by (simp add: advance_None)
next
  case (Some q)
  let ?q = "compute_next_state q (read_window s \<noteq> None) now"
  show ?thesis
  proof (cases "?q = q")
    case True
    then have "s1 = s" using run by (simp add: advance_eq [OF ok Some] Let_def)
    then show ?thesis using run by simp
  next
    case False
    then have s1: "s1 = put ?q s" and r: "r = Inr (Some ?q)"
      using run by (simp_all add: advance_eq [OF ok Some] Let_def)
    have ok1: "mode_ok s1" using op_keepsD [OF op_keeps_mode_advance ok, of read_window now] run by simp
    have "mt_id ?q = mt_id q" using same_request_next [of q "read_window s \<noteq> None" now] by (simp add: same_request_def)
    then have "?q \<in> set (mode_transition_requests s1)" unfolding s1
      using fetch_activeD(1) [OF Some] by (auto simp: put_request_def set_update_where)
    moreover have "open_request ?q" using fetch_activeD(2) [OF Some] by (simp add: compute_next_open)
    ultimately have "fetch_active_request s1 = Some ?q" by (rule open_requestI [OF ok1])
    moreover have "read_window s1 = read_window s" by (simp add: s1)
    ultimately show ?thesis by (simp add: advance_eq [OF ok1] Let_def compute_next_idem r)
  qed
qed

lemma confirm_blocked:
  assumes "mode_ok s" and "consent_given consent" and "request_by_id i s = Some r"
    and "mt_status r = AWAITING_CONFIRMATION" and "read_window s \<noteq> None"
    and "confirm_transition i read_window consent now s = (res, s')"
  shows "res = Inl ModeTransitionInterruptedByPenaltyWindowError"
    and "operating_mode_row s' = operating_mode_row s"
    and "request_by_id i s' = Some (pause_request now r)"
    and "read_window s' \<noteq> None"
proof -
  have s': "s' = put (pause_request now r) s" and "res = Inl ModeTransitionInterruptedByPenaltyWindowError"
    using assms by (simp_all add: confirm_eq [OF assms(1,2)])
  then show "res = Inl ModeTransitionInterruptedByPenaltyWindowError"
    "operating_mode_row s' = operating_mode_row s" "read_window s' \<noteq> None"
    using assms(5) by simp_all
  have "mt_id (pause_request now r) = i" "mt_id r = i"
    using request_by_idD [OF assms(3)] by (simp_all add: pause_request_def)
  then have "row_by mt_id i (update_where (\<lambda>r. mt_id r = i) (\<lambda>_. pause_request now r) (mode_transition_requests s))
      = map_option (\<lambda>x. if mt_id x = i then pause_request now r else x) (row_by mt_id i (mode_transition_requests s))"
    by (intro row_by_update_where) simp
  then show "request_by_id i s' = Some (pause_request now r)" using assms(3) \<open>mt_id r = i\<close>
      \<open>mt_id (pause_request now r) = i\<close> unfolding s'
    by (simp add: request_by_id_def put_request_def)
qed

end

section \<open>Runs under a clock that does not go back\<close>

text \<open>
  \<open>elsewhere\<close> stands for the operations of the other modules: they draw identifiers and change any
  other table.
\<close>

inductive mode_run :: "'m window_read \<Rightarrow> time \<Rightarrow> 'm mode_db_scheme \<Rightarrow> bool" for read_window where
  start: "mode_transition_requests s = [] \<Longrightarrow> mode_run read_window t s"
| advance: "mode_run read_window t s \<Longrightarrow> t \<le> now \<Longrightarrow>
    mode_run read_window now (snd (advance_transition_state read_window now s))"
| request: "mode_run read_window t s \<Longrightarrow> t \<le> now \<Longrightarrow>
    mode_run read_window now (snd (request_transition read_window target consent now s))"
| cancel: "mode_run read_window t s \<Longrightarrow> t \<le> now \<Longrightarrow>
    mode_run read_window now (snd (cancel_request i now s))"
| confirm: "mode_run read_window t s \<Longrightarrow> t \<le> now \<Longrightarrow>
    mode_run read_window now (snd (confirm_transition i read_window consent now s))"
| elsewhere: "mode_run read_window t s \<Longrightarrow> t \<le> now \<Longrightarrow> next_id s \<le> next_id s' \<Longrightarrow>
    operating_mode_row s' = operating_mode_row s \<Longrightarrow>
    mode_transition_requests s' = mode_transition_requests s \<Longrightarrow> mode_run read_window now s'"

definition waited :: "time \<Rightarrow> mode_transition_request \<Rightarrow> bool" where
  "waited t r \<longleftrightarrow> mt_status r = AWAITING_CONFIRMATION \<longrightarrow>
     (\<exists>w. mt_wait_started_at r = Some w \<and> w + confirmation_wait \<le> t)"

lemma waited_mono: "waited t r \<Longrightarrow> t \<le> t' \<Longrightarrow> waited t' r"
  by (auto simp: waited_def)

lemma waited_next:
  assumes "request_ok r" and "waited now r"
  shows "waited now (compute_next_state r pw now)"
  using assms
  by (cases "mt_status r")
    (auto simp: waited_def compute_next_state_def request_ok_def restart_wait_def pause_request_def
      split: option.splits)

lemma ball_put_request: "\<forall>r \<in> set rs. P r \<Longrightarrow> P q \<Longrightarrow> \<forall>r \<in> set (put_request q rs). P r"
  unfolding put_request_def by (rule ball_update_where) simp

lemma mode_run_inv:
  assumes "mode_run read_window t s"
  shows "mode_ok s \<and> (\<forall>r \<in> set (mode_transition_requests s). waited t r)"
  using assms
proof induction
  case (start s t)
  then show ?case by (simp add: mode_ok_def requests_ok_def)
next
  case (advance t s now)
  then have ok: "mode_ok s" and w: "\<forall>r \<in> set (mode_transition_requests s). waited now r"
    by (auto intro: waited_mono)
  have "\<forall>r \<in> set (mode_transition_requests (snd (advance_transition_state read_window now s))). waited now r"
  proof (cases "fetch_active_request s")
    case None
    then show ?thesis using w by (simp add: advance_None)
  next
    case (Some r)
    have "waited now (compute_next_state r (read_window s \<noteq> None) now)"
      using w fetch_activeD(1) [OF Some] mode_okD(3) [OF ok] by (intro waited_next) auto
    then have "\<forall>r \<in> set (put_request (compute_next_state r (read_window s \<noteq> None) now) (mode_transition_requests s)).
        waited now r" by (rule ball_put_request [OF w])
    then show ?thesis unfolding advance_eq [OF ok Some] Let_def using w by simp
  qed
  then show ?case using op_keepsD [OF op_keeps_mode_advance ok] by blast
next
  case (request t s now target consent)
  then have ok: "mode_ok s" and w: "\<forall>r \<in> set (mode_transition_requests s). waited now r"
    by (auto intro: waited_mono)
  moreover have "waited now (new_request i a b c d e)" for i a b c d e
    by (simp add: waited_def new_request_def)
  ultimately have "\<forall>r \<in> set (mode_transition_requests (snd (request_transition read_window target consent now s))).
      waited now r" by (auto simp: request_eq Let_def)
  then show ?case using op_keepsD [OF op_keeps_mode_request ok] by blast
next
  case (cancel t s now i)
  then have ok: "mode_ok s" and w: "\<forall>r \<in> set (mode_transition_requests s). waited now r"
    by (auto intro: waited_mono)
  have "\<forall>r \<in> set (put_request (cancelled now q) (mode_transition_requests s)). waited now r" for q
    by (rule ball_put_request [OF w]) (simp add: waited_def cancelled_def)
  then have "\<forall>r \<in> set (mode_transition_requests (snd (cancel_request i now s))). waited now r"
    unfolding cancel_eq [OF ok] using w by (simp split: option.split)
  then show ?case using op_keepsD [OF op_keeps_mode_cancel ok] by blast
next
  case (confirm t s now i consent)
  then have ok: "mode_ok s" and w: "\<forall>r \<in> set (mode_transition_requests s). waited now r"
    by (auto intro: waited_mono)
  have "\<forall>r \<in> set (put_request (confirmed consent now q) (mode_transition_requests s)). waited now r"
    "\<forall>r \<in> set (put_request (pause_request now q) (mode_transition_requests s)). waited now r" for q
    by (rule ball_put_request [OF w], simp add: waited_def confirmed_def pause_request_def)+
  then have "\<forall>r \<in> set (mode_transition_requests (snd (confirm_transition i read_window consent now s))). waited now r"
    using w by (cases "consent_given consent")
      (simp_all add: confirm_no_consent confirm_eq [OF ok] split: option.split)
  then show ?case using op_keepsD [OF op_keeps_mode_confirm ok] by blast
next
  case (elsewhere t s now s')
  then show ?case using mode_ok_transfer [of s s'] by (auto intro: waited_mono)
qed

section \<open>What the module leaves alone\<close>

locale request_frame =
  fixes I :: "'m mode_db_scheme \<Rightarrow> bool"
  assumes new_id: "keeps I new_id"
    and requests: "I s \<Longrightarrow> I (s\<lparr>mode_transition_requests := a\<rparr>)"
begin

lemma keeps_write: "keeps I (tx_modify (write_request_fields q))"
  unfolding write_request_fields_def by (intro keeps_modify requests)

lemma advance: "op_keeps I (advance_transition_state read_window now)"
  unfolding advance_transition_state_def Let_def
  by (intro op_keeps_transition keeps_no_events keeps_bind keeps_get)
    (auto split: option.split intro!: keeps_bind keeps_get keeps_return keeps_write)

lemma request: "op_keeps I (request_transition read_window target consent now)"
  unfolding request_transition_def Let_def
  by (intro op_keeps_bind op_keeps_require op_keeps_transition keeps_no_events keeps_bind keeps_get
      keeps_require keeps_return keeps_modify new_id requests)

lemma cancel: "op_keeps I (cancel_request i now)"
  unfolding cancel_request_def Let_def
  by (intro op_keeps_transition keeps_no_events keeps_bind keeps_get keeps_the keeps_require keeps_return
      keeps_write)

lemmas request_operations = advance request cancel

end

locale mode_frame = request_frame +
  assumes mode: "I s \<Longrightarrow> I (s\<lparr>operating_mode_row := b\<rparr>)"
begin

lemma keeps_switch: "keeps I (tx_modify (\<lambda>s. s\<lparr>operating_mode_row := b\<rparr>))"
  by (intro keeps_modify mode)

lemma confirm: "op_keeps I (confirm_transition i read_window consent now)"
proof -
  have "keeps I (confirm_transition_write i read_window consent now)"
    unfolding confirm_transition_write_def Let_def
    by (intro keeps_bind keeps_if keeps_get keeps_the keeps_require keeps_return keeps_write keeps_switch)
  then show ?thesis unfolding confirm_transition_def
    by (intro op_keeps_bind op_keeps_require op_keeps_transition keeps_no_events)
      (auto split: prod.split confirm_outcome.split intro!: op_keeps_raise op_keeps_return)
qed

lemmas operations = request_operations confirm

end

interpretation outbox_mode: mode_frame outbox_ok
  by unfold_locales (simp_all add: keeps_outbox_new_id, simp_all add: outbox_ok_def)

interpretation trust_mode: mode_frame trust_inv
proof unfold_locales
  fix s :: "'a mode_db_scheme" and a b
  assume inv: "trust_inv s"
  note ok = trust_invD(1) [OF inv]
  show "trust_inv (s\<lparr>mode_transition_requests := a\<rparr>)" "trust_inv (s\<lparr>operating_mode_row := b\<rparr>)"
    by (rule trust_inv_transfer [OF inv], use ok in \<open>simp_all add: trust_ok_defs\<close>)+
qed (simp_all add: keeps_inv_new_id)

interpretation penalty_mode: mode_frame penalty_ok
  by unfold_locales (simp_all add: keeps_penalty_new_id, (rule penalty_ok_transfer, assumption, simp_all)+)

interpretation recovery_mode: mode_frame recovery_ok
  by unfold_locales (simp_all add: keeps_recovery_new_id, (rule recovery_ok_transfer, assumption, simp_all)+)

interpretation goal_mode: mode_frame goal_ok
  by unfold_locales (simp_all add: keeps_goal_new_id, simp_all add: goal_ok_def)

end
