(* ===== verification/Consumers.thy ===== *)
theory Consumers
  imports Outbox "HOL-Library.Multiset"
begin

text \<open>
  \<open>infrastructure/consumer_registry.py\<close>: the registry that maps an event type to its handlers,
  the dispatch of one event to all of them with a per-registration exception boundary, and the
  publisher loop \<open>process_pending_events\<close>. The locale \<open>event_handlers\<close> is the contract between
  the publisher and the handlers a composition layer registers; \<open>cascading_handlers\<close> extends it
  with the bound on follow-up events under which the publisher settles every cascade.
\<close>

section \<open>The registry\<close>

type_synonym 'm handler = "claimed_event \<Rightarrow> ('m outbox_db_scheme, unit) tx"

type_synonym 'm registration = "string \<times> 'm handler"

type_synonym 'm registry = "(string \<times> 'm registration list) list"

fun register :: "string \<Rightarrow> string \<Rightarrow> 'h \<Rightarrow> (string \<times> (string \<times> 'h) list) list
    \<Rightarrow> (string \<times> (string \<times> 'h) list) list" where
  "register ty consumer h [] = [(ty, [(consumer, h)])]"
| "register ty consumer h ((t, rs) # xs) =
     (if t = ty then (t, rs @ [(consumer, h)]) # xs else (t, rs) # register ty consumer h xs)"

definition regs_for :: "(string \<times> (string \<times> 'h) list) list \<Rightarrow> string \<Rightarrow> (string \<times> 'h) list" where
  "regs_for reg ty = (case map_of reg ty of None \<Rightarrow> [] | Some rs \<Rightarrow> rs)"

lemma regs_for_Nil [simp]: "regs_for [] ty = []"
  by (simp add: regs_for_def)

lemma regs_for_register:
  "regs_for (register ty c h reg) t = (if t = ty then regs_for reg t @ [(c, h)] else regs_for reg t)"
  by (induction ty c h reg rule: register.induct) (auto simp: regs_for_def)

section \<open>Dispatch\<close>

text \<open>
  One \<open>consume_event\<close> per registration; an exception is logged and the loop continues. The
  result counts the handlers that ran.
\<close>

fun dispatch_each ::
  "'m registration list \<Rightarrow> claimed_event \<Rightarrow> time \<Rightarrow> 'm outbox_db_scheme
     \<Rightarrow> nat \<times> 'm outbox_db_scheme" where
  "dispatch_each [] e now s = (0, s)"
| "dispatch_each ((c, h) # rs) e now s =
     (case consume_event e c (h e) now s of
        (Inl _, s') \<Rightarrow> dispatch_each rs e now s'
      | (Inr did_run, s') \<Rightarrow>
          (let (n, s'') = dispatch_each rs e now s' in ((if did_run then Suc n else n), s'')))"

definition dispatch ::
  "'m registry \<Rightarrow> claimed_event \<Rightarrow> time \<Rightarrow> 'm outbox_db_scheme \<Rightarrow> nat \<times> 'm outbox_db_scheme" where
  "dispatch reg e now s = dispatch_each (regs_for reg (ce_type e)) e now s"

fun dispatch_all ::
  "'m registry \<Rightarrow> claimed_event list \<Rightarrow> time \<Rightarrow> 'm outbox_db_scheme
     \<Rightarrow> nat \<times> 'm outbox_db_scheme" where
  "dispatch_all reg [] now s = (0, s)"
| "dispatch_all reg (e # es) now s =
     (let (n, s') = dispatch reg e now s; (m, s'') = dispatch_all reg es now s' in (n + m, s''))"

section \<open>process_pending_events()\<close>

fun pending_rounds ::
  "nat \<Rightarrow> 'm registry \<Rightarrow> nat \<Rightarrow> time \<Rightarrow> time \<Rightarrow> ('m outbox_db_scheme, nat) op" where
  "pending_rounds 0 reg batch_size lease now s = (Inr 0, s)"
| "pending_rounds (Suc k) reg batch_size lease now s =
     (case claim_pending_events batch_size now lease s of
        (Inl e, s1) \<Rightarrow> (Inl e, s1)
      | (Inr claimed, s1) \<Rightarrow>
          if claimed = [] then (Inr 0, s1)
          else (let (ran, s2) = dispatch_all reg claimed now s1
                in case mark_published (map ce_id claimed) now s2 of
                     (Inl e, s3) \<Rightarrow> (Inl e, s3)
                   | (Inr _, s3) \<Rightarrow>
                       (case pending_rounds k reg batch_size lease now s3 of
                          (Inl e, s4) \<Rightarrow> (Inl e, s4)
                        | (Inr ran', s4) \<Rightarrow> (Inr (ran + ran'), s4))))"

text \<open>The defaults of the source: batches of 50, a lease of five minutes, ten rounds.\<close>

definition process_pending_events :: "'m registry \<Rightarrow> time \<Rightarrow> ('m outbox_db_scheme, nat) op" where
  "process_pending_events reg now = pending_rounds 10 reg 50 (5 * minute) now"

declare pending_rounds.simps(2) [simp del]

lemma pending_rounds_Suc: "pending_rounds (Suc k) reg n d now s =
  (let rows = claim_batch n now (domain_events s);
       s1 = set_claimed (map ev_id rows) now (now + d) s
   in if rows = [] then (Inr 0, s)
      else let (ran, s2) = dispatch_all reg (map claimed_of rows) now s1
           in case pending_rounds k reg n d now (set_published (map ev_id rows) now s2) of
                (Inl e, s4) \<Rightarrow> (Inl e, s4)
              | (Inr ran', s4) \<Rightarrow> (Inr (ran + ran'), s4))"
  by (simp add: pending_rounds.simps(2) tx_simps Let_def comp_def claimed_of_def
      split: prod.splits)

text \<open>The publisher itself never raises: exceptions of handlers stop at \<open>dispatch\<close>.\<close>

lemma pending_rounds_returns: "\<exists>n. fst (pending_rounds k reg b d now s) = Inr n"
proof (induction k arbitrary: s)
  case 0
  show ?case by simp
next
  case (Suc k)
  obtain ran s2 where d: "dispatch_all reg (map claimed_of (claim_batch b now (domain_events s))) now
      (set_claimed (map ev_id (claim_batch b now (domain_events s))) now (now + d) s) = (ran, s2)"
    by (cases "dispatch_all reg (map claimed_of (claim_batch b now (domain_events s))) now
      (set_claimed (map ev_id (claim_batch b now (domain_events s))) now (now + d) s)")
  obtain n where "fst (pending_rounds k reg b d now
      (set_published (map ev_id (claim_batch b now (domain_events s))) now s2)) = Inr n"
    using Suc.IH by blast
  then show ?case by (auto simp: pending_rounds_Suc Let_def d split: prod.splits sum.splits)
qed

section \<open>Exception isolation\<close>

text \<open>
  A registration that raises leaves the database to the next one exactly as it found it.
\<close>

lemma dispatch_each_raising:
  assumes "h e s = Inl x" and "\<not> processed (ce_id e) c s"
  shows "dispatch_each ((c, h) # rs) e now s = dispatch_each rs e now s"
  using assms by (simp add: consume_event_eq)

lemma dispatch_each_redelivery:
  assumes "processed (ce_id e) c s"
  shows "dispatch_each ((c, h) # rs) e now s = dispatch_each rs e now s"
  using assms by (simp add: consume_event_eq split: prod.splits)

lemma dispatch_each_append:
  "dispatch_each (rs @ rs') e now s =
     (let (n, s') = dispatch_each rs e now s; (m, s'') = dispatch_each rs' e now s' in (n + m, s''))"
  by (induction rs e now s rule: dispatch_each.induct)
    (auto simp: Let_def split: prod.splits sum.splits)

section \<open>What every single reaction keeps\<close>

lemma dispatch_each_inv:
  assumes "\<And>c h t. (c, h) \<in> set rs \<Longrightarrow> Q t \<Longrightarrow> Q (snd (consume_event e c (h e) now t))" and "Q s"
  shows "Q (snd (dispatch_each rs e now s))"
  using assms
proof (induction rs arbitrary: s)
  case Nil
  then show ?case by simp
next
  case (Cons r rs)
  obtain c h where r: "r = (c, h)" by (cases r)
  have "Q (snd (consume_event e c (h e) now s))" using Cons.prems r by auto
  moreover have "Q t \<Longrightarrow> Q (snd (dispatch_each rs e now t))" for t
    using Cons.prems(1) by (intro Cons.IH) auto
  ultimately show ?case unfolding r by (force split: prod.splits sum.splits)
qed

lemma dispatch_all_inv:
  assumes "\<And>e c h t. e \<in> set es \<Longrightarrow> (c, h) \<in> set (regs_for reg (ce_type e)) \<Longrightarrow> Q t \<Longrightarrow>
      Q (snd (consume_event e c (h e) now t))" and "Q s"
  shows "Q (snd (dispatch_all reg es now s))"
  using assms
proof (induction es arbitrary: s)
  case Nil
  then show ?case by simp
next
  case (Cons e es)
  have "Q (snd (dispatch reg e now s))" unfolding dispatch_def
    by (rule dispatch_each_inv) (use Cons.prems in auto)
  then have "Q (snd (dispatch_all reg es now (snd (dispatch reg e now s))))"
    using Cons.prems(1) by (intro Cons.IH) auto
  then show ?case by (simp add: Let_def split_beta)
qed

lemma dispatch_all_append:
  "snd (dispatch_all reg (es @ es') now s)
    = snd (dispatch_all reg es' now (snd (dispatch_all reg es now s)))"
  by (induction es arbitrary: s) (simp_all add: Let_def split_beta)

section \<open>The contract between publisher and handlers\<close>

locale event_handlers =
  fixes reg :: "'m registry"
    and inv :: "'m outbox_db_scheme \<Rightarrow> bool"
  assumes handler_keeps:
      "(c, h) \<in> set (regs_for reg (ce_type e)) \<Longrightarrow> keeps inv (h e)"
    and inv_bookkeeping: "inv s \<Longrightarrow> \<not> processed i c s \<Longrightarrow> i \<in> ev_id ` set (domain_events s) \<Longrightarrow>
        inv (s\<lparr>event_consumers := event_consumers s @
          [\<lparr>cn_event_id = i, cn_consumer = c, cn_processed_at = t\<rparr>]\<rparr>)"
    and inv_claimed: "inv s \<Longrightarrow> inv (set_claimed ids now x s)"
    and inv_published: "inv s \<Longrightarrow> inv (set_published ids now s)"
begin

lemma consume_keeps:
  assumes "(c, h) \<in> set (regs_for reg (ce_type e))" and "inv s"
  shows "inv (snd (consume_event e c (h e) now s))"
proof -
  have "h e s = Inr (u, s') \<Longrightarrow> inv s'" for u s'
    using handler_keeps [OF assms(1)] assms(2) by (rule keepsD)
  then show ?thesis using assms(2)
    by (auto simp: consume_event_eq inv_bookkeeping split: sum.splits prod.splits)
qed

lemma dispatch_each_keeps:
  "set rs \<subseteq> set (regs_for reg (ce_type e)) \<Longrightarrow> inv s \<Longrightarrow> inv (snd (dispatch_each rs e now s))"
  by (rule dispatch_each_inv) (auto intro: consume_keeps)

lemma dispatch_all_keeps: "inv s \<Longrightarrow> inv (snd (dispatch_all reg es now s))"
  by (rule dispatch_all_inv) (rule consume_keeps)

lemma pending_rounds_keeps: "inv s \<Longrightarrow> inv (snd (pending_rounds k reg n d now s))"
proof (induction k arbitrary: s)
  case 0
  then show ?case by simp
next
  case (Suc k)
  let ?rows = "claim_batch n now (domain_events s)"
  let ?s2 = "snd (dispatch_all reg (map claimed_of ?rows) now
                    (set_claimed (map ev_id ?rows) now (now + d) s))"
  have "inv ?s2" by (intro dispatch_all_keeps inv_claimed Suc.prems)
  then have "inv (snd (pending_rounds k reg n d now (set_published (map ev_id ?rows) now ?s2)))"
    by (intro Suc.IH inv_published)
  then show ?case using Suc.prems
    by (auto simp: pending_rounds_Suc Let_def split_beta split: prod.splits sum.splits)
qed

lemma process_keeps: "inv s \<Longrightarrow> inv (snd (process_pending_events reg now s))"
  unfolding process_pending_events_def by (rule pending_rounds_keeps)

end

section \<open>Settling cascades\<close>

text \<open>
  The weight of the pending events: with \<open>w\<close> the number of events a cascade started by one
  event can hold, the total bounds the size of every batch.
\<close>

definition event_weight :: "(string \<Rightarrow> nat) \<Rightarrow> event_row list \<Rightarrow> nat" where
  "event_weight w rs = sum_list (map (\<lambda>r. w (ev_type r)) rs)"

definition pending_weight :: "(string \<Rightarrow> nat) \<Rightarrow> time \<Rightarrow> 'm outbox_db_scheme \<Rightarrow> nat" where
  "pending_weight w now s = event_weight w (filter (claimable now) (domain_events s))"

lemma event_weight_simps [simp]:
  "event_weight w [] = 0"
  "event_weight w (r # rs) = w (ev_type r) + event_weight w rs"
  "event_weight w (xs @ ys) = event_weight w xs + event_weight w ys"
  by (simp_all add: event_weight_def)

lemma length_le_event_weight: "(\<And>ty. 0 < w ty) \<Longrightarrow> length rs \<le> event_weight w rs"
proof (induction rs)
  case (Cons r rs)
  then have "0 < w (ev_type r)" and "length rs \<le> event_weight w rs" by simp_all
  then show ?case by simp
qed simp

lemma event_weight_filter_le: "event_weight w (filter P rs) \<le> event_weight w rs"
  by (induction rs) auto

lemma event_weight_mset_eq:
  "mset xs = mset ys \<Longrightarrow> event_weight w xs = event_weight w ys"
  unfolding event_weight_def by (metis mset_map sum_mset_sum_list)

definition unclaimed :: "event_row \<Rightarrow> bool" where
  "unclaimed r \<longleftrightarrow> ev_claimed_at r = None \<and> ev_published_at r = None"

lemma unclaimed_claimable: "unclaimed r \<Longrightarrow> claimable now r"
  by (simp add: unclaimed_def claimable_def)

definition unpublished_claimable :: "time \<Rightarrow> 'm outbox_db_scheme \<Rightarrow> bool" where
  \<comment> \<open>no event is held by a claim that is still alive\<close>
  "unpublished_claimable now s \<longleftrightarrow>
     (\<forall>r \<in> set (domain_events s). ev_published_at r = None \<longrightarrow> claimable now r)"

text \<open>
  What the rounds reach: nothing is left to claim, and nothing at all when no other claim was alive.
\<close>

definition all_settled :: "time \<Rightarrow> bool \<Rightarrow> 'm outbox_db_scheme \<Rightarrow> bool" where
  "all_settled now u s \<longleftrightarrow> (\<forall>r \<in> set (domain_events s).
     \<not> claimable now r \<and> (u \<longrightarrow> ev_published_at r \<noteq> None))"

lemma all_settledI:
  assumes "\<forall>r \<in> set (domain_events s). \<not> claimable now r" and "u \<Longrightarrow> unpublished_claimable now s"
  shows "all_settled now u s"
  using assms by (auto simp: all_settled_def unpublished_claimable_def)

locale cascading_handlers = event_handlers +
  fixes weight rank budget :: "string \<Rightarrow> nat"
  assumes emits:
      "(c, h) \<in> set (regs_for reg (ce_type e)) \<Longrightarrow> inv s \<Longrightarrow> h e s = Inr (u, s') \<Longrightarrow>
       \<exists>new. domain_events s' = domain_events s @ new
         \<and> (\<forall>r \<in> set new. unclaimed r \<and> rank (ev_type r) < rank (ce_type e))
         \<and> event_weight weight new \<le> budget (ce_type e)"
    and within_budget: "length (regs_for reg ty) * budget ty < weight ty"
begin

lemma weight_pos: "0 < weight ty"
  using within_budget [of ty] by simp

lemma dispatch_each_emits:
  assumes "set rs \<subseteq> set (regs_for reg (ce_type e))" and "inv s"
  shows "\<exists>new. domain_events (snd (dispatch_each rs e now s)) = domain_events s @ new
    \<and> (\<forall>r \<in> set new. unclaimed r \<and> rank (ev_type r) < rank (ce_type e))
    \<and> event_weight weight new \<le> length rs * budget (ce_type e)"
  using assms
proof (induction rs arbitrary: s)
  case Nil
  then show ?case by simp
next
  case (Cons r rs)
  obtain c h where r: "r = (c, h)" by (cases r)
  have reg: "(c, h) \<in> set (regs_for reg (ce_type e))" using Cons.prems r by auto
  obtain res s1 where ce: "consume_event e c (h e) now s = (res, s1)"
    by (cases "consume_event e c (h e) now s")
  have "inv s1" using consume_keeps [OF reg Cons.prems(2), of now] by (simp add: ce)
  moreover have "set rs \<subseteq> set (regs_for reg (ce_type e))" using Cons.prems(1) by auto
  ultimately obtain new2 where n2: "domain_events (snd (dispatch_each rs e now s1)) = domain_events s1 @ new2"
      "\<forall>r \<in> set new2. unclaimed r \<and> rank (ev_type r) < rank (ce_type e)"
      "event_weight weight new2 \<le> length rs * budget (ce_type e)"
    using Cons.IH by blast
  have "\<exists>new1. domain_events s1 = domain_events s @ new1
      \<and> (\<forall>r \<in> set new1. unclaimed r \<and> rank (ev_type r) < rank (ce_type e))
      \<and> event_weight weight new1 \<le> budget (ce_type e)"
  proof (cases "s1 = s")
    case True
    then show ?thesis by simp
  next
    case False
    then obtain u s' where "h e s = Inr (u, s')" and "domain_events s1 = domain_events s'"
      using ce by (auto simp: consume_event_eq split: if_splits sum.splits prod.splits)
    with emits [OF reg Cons.prems(2)] show ?thesis by metis
  qed
  then obtain new1 where n1: "domain_events s1 = domain_events s @ new1"
      "\<forall>r \<in> set new1. unclaimed r \<and> rank (ev_type r) < rank (ce_type e)"
      "event_weight weight new1 \<le> budget (ce_type e)" by blast
  have "snd (dispatch_each (r # rs) e now s) = snd (dispatch_each rs e now s1)"
    by (simp add: r ce Let_def split_beta split: sum.splits)
  with n1 n2 show ?case by (intro exI [of _ "new1 @ new2"]) auto
qed

lemma dispatch_emits:
  assumes "inv s"
  shows "\<exists>new. domain_events (snd (dispatch reg e now s)) = domain_events s @ new
    \<and> (\<forall>r \<in> set new. unclaimed r \<and> rank (ev_type r) < rank (ce_type e))
    \<and> event_weight weight new \<le> weight (ce_type e)"
  using dispatch_each_emits [OF subset_refl assms, of e now] within_budget [of "ce_type e"]
  unfolding dispatch_def by (meson le_trans less_imp_le)

lemma dispatch_all_emits:
  assumes "inv s" and "\<forall>e \<in> set es. rank (ce_type e) \<le> k"
  shows "\<exists>new. domain_events (snd (dispatch_all reg es now s)) = domain_events s @ new
    \<and> (\<forall>r \<in> set new. unclaimed r \<and> rank (ev_type r) < k)
    \<and> event_weight weight new \<le> sum_list (map (\<lambda>e. weight (ce_type e)) es)"
  using assms
proof (induction es arbitrary: s)
  case Nil
  then show ?case by simp
next
  case (Cons e es)
  let ?s1 = "snd (dispatch reg e now s)"
  have "inv ?s1" unfolding dispatch_def by (rule dispatch_each_keeps) (use Cons.prems in auto)
  then obtain new2 where n2: "domain_events (snd (dispatch_all reg es now ?s1)) = domain_events ?s1 @ new2"
      "\<forall>r \<in> set new2. unclaimed r \<and> rank (ev_type r) < k"
      "event_weight weight new2 \<le> sum_list (map (\<lambda>e. weight (ce_type e)) es)"
    using Cons.IH [of ?s1] Cons.prems(2) by auto
  obtain new1 where n1: "domain_events ?s1 = domain_events s @ new1"
      "\<forall>r \<in> set new1. unclaimed r \<and> rank (ev_type r) < rank (ce_type e)"
      "event_weight weight new1 \<le> weight (ce_type e)"
    using dispatch_emits [OF Cons.prems(1)] by blast
  have "\<forall>r \<in> set new1. unclaimed r \<and> rank (ev_type r) < k" using n1(2) Cons.prems(2) by fastforce
  with n1 n2 show ?case by (intro exI [of _ "new1 @ new2"]) (auto simp: Let_def split_beta)
qed

text \<open>
  One round: when the pending events fit the batch, all of them are handed off, and what is
  pending afterwards are the follow-up events, of smaller rank and no larger total weight.
\<close>

lemma round_pending:
  assumes "inv s" and small: "pending_weight weight now s \<le> n"
    and ranks: "\<forall>r \<in> set (domain_events s). claimable now r \<longrightarrow> rank (ev_type r) \<le> k"
    and rows: "rows = claim_batch n now (domain_events s)"
    and s2: "s2 = snd (dispatch_all reg (map claimed_of rows) now
                    (set_claimed (map ev_id rows) now (now + d) s))"
    and s3: "s3 = set_published (map ev_id rows) now s2"
  shows "inv s3" and "pending_weight weight now s3 \<le> n"
    and "\<forall>r \<in> set (domain_events s3). claimable now r \<longrightarrow> rank (ev_type r) < k"
    and "unpublished_claimable now s \<Longrightarrow> unpublished_claimable now s3"
proof -
  let ?s1 = "set_claimed (map ev_id rows) now (now + d) s"
  let ?pend = "filter (claimable now) (domain_events s)"
  have "length ?pend \<le> n"
    using length_le_event_weight [of weight ?pend] weight_pos small by (simp add: pending_weight_def)
  then have all: "set rows = set ?pend" and rows_eq: "rows = sort_key (\<lambda>r. iso_rank (ev_created_at r)) ?pend"
    unfolding rows using claim_batch_all [of now "domain_events s" n]
    by (auto simp: count_where_def claim_batch_def)
  have i1: "inv ?s1" by (rule inv_claimed) (rule assms(1))
  show "inv s3" unfolding s3 s2 by (intro inv_published dispatch_all_keeps i1)
  have rk: "\<forall>e \<in> set (map claimed_of rows). rank (ce_type e) \<le> k"
    using ranks all by (auto simp: claimed_of_def)
  obtain new where new: "domain_events s2 = domain_events ?s1 @ new"
      "\<forall>r \<in> set new. unclaimed r \<and> rank (ev_type r) < k"
      "event_weight weight new \<le> sum_list (map (\<lambda>e. weight (ce_type e)) (map claimed_of rows))"
    using dispatch_all_emits [OF i1 rk, of now] unfolding s2 by blast
  have "sum_list (map (\<lambda>e. weight (ce_type e)) (map claimed_of rows)) = event_weight weight rows"
    by (simp add: event_weight_def claimed_of_def comp_def)
  also have "\<dots> = event_weight weight ?pend"
    unfolding rows_eq by (rule event_weight_mset_eq) simp
  finally have w: "event_weight weight new \<le> n" using new(3) small by (simp add: pending_weight_def)
  let ?pub = "update_where (\<lambda>r. ev_id r \<in> set (map ev_id rows)) (\<lambda>r. r\<lparr>ev_published_at := Some now\<rparr>)"
  have ev3: "domain_events s3 = ?pub (domain_events ?s1) @ ?pub new"
    by (simp add: s3 set_published_def new(1))
  have old: "\<forall>r \<in> set (?pub (domain_events ?s1)). \<not> claimable now r"
  proof
    fix r assume "r \<in> set (?pub (domain_events ?s1))"
    then show "\<not> claimable now r"
    proof (cases rule: in_update_whereE)
      case same
      from same(1) have "r \<in> set (domain_events s)" using same(2)
        by (auto simp: set_claimed_def set_update_where)
      with same(2) all show ?thesis by auto
    next
      case changed
      then show ?thesis by (simp add: claimable_def)
    qed
  qed
  have "filter (claimable now) (?pub new) = filter (\<lambda>r. claimable now r) (?pub new)" by simp
  have "event_weight weight (filter (claimable now) (?pub new)) \<le> event_weight weight (?pub new)"
    by (rule event_weight_filter_le)
  also have "event_weight weight (?pub new) = event_weight weight new"
    by (simp add: event_weight_def update_where_def comp_def if_distrib cong: if_cong)
  finally show "pending_weight weight now s3 \<le> n"
    using old w by (simp add: pending_weight_def ev3 filter_False)
  show "\<forall>r \<in> set (domain_events s3). claimable now r \<longrightarrow> rank (ev_type r) < k"
    using old new(2) by (auto simp: ev3 set_update_where)
  assume u: "unpublished_claimable now s"
  have "ev_published_at r \<noteq> None" if r: "r \<in> set (?pub (domain_events ?s1))" for r
    using r
  proof (cases rule: in_update_whereE)
    case same
    then have "r \<in> set (domain_events s)" by (auto simp: set_claimed_def set_update_where)
    with same(2) all u show ?thesis by (auto simp: unpublished_claimable_def)
  qed simp
  moreover have "claimable now r" if "r \<in> set (?pub new)" "ev_published_at r = None" for r
    using that(1)
  proof (cases rule: in_update_whereE)
    case same
    then show ?thesis using new(2) by (blast intro: unclaimed_claimable)
  next
    case changed
    then show ?thesis using that(2) by simp
  qed
  ultimately show "unpublished_claimable now s3" unfolding unpublished_claimable_def ev3 set_append by blast
qed

lemma pending_rounds_settle:
  assumes "inv s" and "pending_weight weight now s \<le> n"
    and "\<forall>r \<in> set (domain_events s). claimable now r \<longrightarrow> rank (ev_type r) < k" and "k \<le> rounds"
    and "u \<Longrightarrow> unpublished_claimable now s"
  shows "all_settled now u (snd (pending_rounds rounds reg n d now s))"
  using assms
proof (induction k arbitrary: s rounds)
  case 0
  then have none: "\<forall>r \<in> set (domain_events s). \<not> claimable now r" by simp
  then have "claim_batch n now (domain_events s) = []" by (simp add: claim_batch_Nil)
  then show ?case using none 0(5) by (cases rounds) (simp_all add: pending_rounds_Suc all_settledI)
next
  case (Suc k)
  then obtain m where m: "rounds = Suc m" "k \<le> m" by (cases rounds) auto
  let ?rows = "claim_batch n now (domain_events s)"
  let ?s2 = "snd (dispatch_all reg (map claimed_of ?rows) now
                    (set_claimed (map ev_id ?rows) now (now + d) s))"
  let ?s3 = "set_published (map ev_id ?rows) now ?s2"
  have ranks: "\<forall>r \<in> set (domain_events s). claimable now r \<longrightarrow> rank (ev_type r) \<le> k"
    using Suc.prems(3) by auto
  note step = round_pending [OF Suc.prems(1,2) ranks refl refl refl, of d]
  have IH: "all_settled now u (snd (pending_rounds m reg n d now ?s3))"
    using Suc.IH [OF step(1-3) m(2)] step(4) Suc.prems(5) by blast
  show ?case
  proof (cases "?rows = []")
    case True
    have "length (filter (claimable now) (domain_events s)) \<le> n"
      using length_le_event_weight [of weight "filter (claimable now) (domain_events s)"] weight_pos
        Suc.prems(2) by (simp add: pending_weight_def)
    then have "set ?rows = set (filter (claimable now) (domain_events s))"
      by (intro claim_batch_all) (simp add: count_where_def)
    then have "\<forall>r \<in> set (domain_events s). \<not> claimable now r" using True by (auto simp: filter_empty_conv)
    then have "all_settled now u s" using Suc.prems(5) by (rule all_settledI)
    with True show ?thesis by (simp add: m pending_rounds_Suc)
  next
    case False
    then have "snd (pending_rounds rounds reg n d now s) = snd (pending_rounds m reg n d now ?s3)"
      by (simp add: m pending_rounds_Suc Let_def split_beta split: sum.splits prod.splits)
    with IH show ?thesis by simp
  qed
qed

end

end
