(* ===== verification/System.thy ===== *)
theory System
  imports Mode_Facts Consumers
begin

text \<open>
  \<open>system/startup.py\<close>: the wiring of the modules and the startup sequence. The reactions the
  composition layer registers read only the payload of their event and call one
  \<open>_in_transaction\<close> operation of the consuming module; \<open>build_consumer_registry\<close> puts them
  together and \<open>on_system_startup\<close> runs the recovery steps and one pass of the publisher under the
  startup lease.
\<close>

section \<open>Reading a payload\<close>

text \<open>
  \<open>event.payload[key]\<close>, followed by the conversion to the type the callee expects. The writers of
  the events below always store that type, so only a missing key is an error of the source.
\<close>

definition payload_field :: "(json \<Rightarrow> exn + 'a) \<Rightarrow> claimed_event \<Rightarrow> string \<Rightarrow> ('s, 'a) tx" where
  "payload_field conv event k =
     tx_bind (tx_lift (payload_item (ce_payload event) k)) (\<lambda>v. tx_lift (conv v))"

section \<open>The reactions\<close>

definition on_incident_confirmation_changed :: "claimed_event \<Rightarrow> ('m penalty_db_scheme, unit) tx" where
  "on_incident_confirmation_changed event =
     (if map_of (ce_payload event) ''new_confirmation'' \<noteq> Some (JStr ''confirmed'') then tx_return ()
      else
      tx_bind (payload_field json_bool event ''cooperation_self_disclosed'') (\<lambda>disclosed.
      tx_bind (payload_field json_bool event ''cooperation_active_cooperation_in_resolution'') (\<lambda>active.
      tx_bind (payload_field json_id event ''incident_id'') (\<lambda>incident_id.
      tx_bind (payload_field json_str event ''trust_domain'') (\<lambda>domain.
      tx_bind (payload_field json_str event ''rule_group_id'') (\<lambda>rule_group_id.
      tx_bind (payload_field json_str event ''intrinsic_severity'') (\<lambda>value.
      tx_bind (tx_lift (severity_of_value value)) (\<lambda>severity.
      tx_bind (consume_confirmed_incident_in_transaction incident_id domain rule_group_id severity
          \<lparr>self_disclosed = disclosed, active_cooperation_in_resolution = active, cooperation_notes = None\<rparr>
          (ce_occurred_at event) default_base_duration_hours) (\<lambda>result.
      consumption_events (ce_occurred_at event) result)))))))))"

definition emit_recovery_plan_event ::
  "string \<Rightarrow> recovery_plan \<Rightarrow> claimed_event \<Rightarrow> ('m outbox_db_scheme, unit) tx" where
  "emit_recovery_plan_event ty plan source_event =
     emit_plan_event ty plan (rp_penalty_window_id plan) (ce_occurred_at source_event)"

definition on_penalty_window_started :: "claimed_event \<Rightarrow> ('m recovery_db_scheme, unit) tx" where
  "on_penalty_window_started event =
     tx_bind (payload_field json_id event ''penalty_window_id'') (\<lambda>window_id.
     tx_bind (payload_field json_num event ''base_duration_hours'') (\<lambda>base.
     tx_bind (create_plan_in_transaction window_id base (ce_occurred_at event)) (\<lambda>plan.
     emit_recovery_plan_event ''recovery_plan.created'' plan event)))"

definition mirror_reaction ::
  "recovery_plan_status \<Rightarrow> string \<Rightarrow> claimed_event \<Rightarrow> ('m recovery_db_scheme, unit) tx" where
  "mirror_reaction status ty event =
     tx_bind (payload_field json_id event ''penalty_window_id'') (\<lambda>window_id.
     tx_bind (mirror_status_in_transaction window_id status (ce_occurred_at event))
       (emit_if_plan (\<lambda>plan. emit_recovery_plan_event ty plan event)))"

definition on_penalty_window_frozen :: "claimed_event \<Rightarrow> ('m recovery_db_scheme, unit) tx" where
  "on_penalty_window_frozen = mirror_reaction RP_FROZEN ''recovery_plan.frozen''"

definition on_penalty_window_resumed :: "claimed_event \<Rightarrow> ('m recovery_db_scheme, unit) tx" where
  "on_penalty_window_resumed = mirror_reaction RP_ACTIVE ''recovery_plan.resumed''"

definition on_penalty_window_completed :: "claimed_event \<Rightarrow> ('m recovery_db_scheme, unit) tx" where
  "on_penalty_window_completed = mirror_reaction RP_COMPLETED ''recovery_plan.completed''"

definition on_penalty_window_target_duration_changed ::
  "claimed_event \<Rightarrow> ('m recovery_db_scheme, unit) tx" where
  "on_penalty_window_target_duration_changed event =
     tx_bind (payload_field json_id event ''penalty_window_id'') (\<lambda>window_id.
     tx_bind (payload_field json_num event ''new_target_active_hours'') (\<lambda>new_target.
     tx_bind (regenerate_in_transaction window_id new_target (ce_occurred_at event))
       (emit_if_plan (emit_regenerated window_id (ce_occurred_at event)))))"

definition on_recovery_plan_task_completed :: "claimed_event \<Rightarrow> ('m penalty_db_scheme, unit) tx" where
  "on_recovery_plan_task_completed event =
     tx_bind (payload_field json_id event ''recovery_task_completion_id'') (\<lambda>completion_id.
     tx_bind (payload_field json_id event ''penalty_window_id'') (\<lambda>window_id.
     tx_bind (payload_field json_num event ''credit_hours'') (\<lambda>credit_hours.
     tx_bind (record_recovery_credit_in_transaction completion_id window_id credit_hours
         (ce_occurred_at event)) (\<lambda>decision.
     emit_recovery_credit_event decision (ce_occurred_at event)))))"

section \<open>The registry\<close>

type_synonym 'm recovery_part =
  "'m recovery_db_ext penalty_db_ext trust_db_ext lease_db_ext"

definition build_consumer_registry :: "'m recovery_part registry" where
  "build_consumer_registry =
     register ''recovery_plan.task_completed'' ''penalty_engine'' on_recovery_plan_task_completed
    (register ''penalty_window.target_duration_changed'' ''recovery_plan''
        on_penalty_window_target_duration_changed
    (register ''penalty_window.completed'' ''recovery_plan'' on_penalty_window_completed
    (register ''penalty_window.resumed'' ''recovery_plan'' on_penalty_window_resumed
    (register ''penalty_window.frozen'' ''recovery_plan'' on_penalty_window_frozen
    (register ''penalty_window.started'' ''recovery_plan'' on_penalty_window_started
    (register ''incident.confirmation_changed'' ''penalty_engine'' on_incident_confirmation_changed
     []))))))"

section \<open>Startup\<close>

definition op_finally :: "('s, 'a) op \<Rightarrow> ('s, unit) op \<Rightarrow> ('s, 'a) op" where
  \<comment> \<open>\<open>try: f finally: g\<close>; an exception of \<open>g\<close> replaces the outcome\<close>
  "op_finally f g s = (case f s of (r, s') \<Rightarrow>
     (case g s' of (Inl e, s'') \<Rightarrow> (Inl e, s'') | (Inr _, s'') \<Rightarrow> (r, s'')))"

definition startup_lease_duration :: time where "startup_lease_duration = 5 * minute"

definition startup_sequence :: "time \<Rightarrow> ('m goal_db_scheme, unit) op" where
  "startup_sequence now =
     op_bind (recover_trust_manager_state now) (\<lambda>_.
     op_bind (recover_penalty_window_state now) (\<lambda>_.
     op_bind (recover_goal_management_state now) (\<lambda>_.
     op_bind (recover_recovery_plan_state now) (\<lambda>_.
     op_bind (process_pending_events build_consumer_registry now) (\<lambda>_.
     op_return ())))))"

definition on_system_startup :: "string \<Rightarrow> time \<Rightarrow> ('m goal_db_scheme, unit) op" where
  "on_system_startup process_id now =
     op_bind (acquire_system_startup_lease process_id now startup_lease_duration) (\<lambda>l.
     case l of None \<Rightarrow> op_raise StartupLeaseNotAcquired
     | Some l \<Rightarrow> op_finally (startup_sequence now) (release_system_startup_lease l))"

end
