(* ===== verification/System_Facts.thy ===== *)
theory System_Facts
  imports System
begin

text \<open>
  The composition of the modules. Every operation of a module keeps the invariants of all six
  components; the reactions of \<open>build_consumer_registry\<close> do so too and emit follow-up events of
  bounded number and depth, so they are an interpretation of both publisher contracts. The last
  section closes the invariant under every public operation of the system.
\<close>

section \<open>The remaining frames\<close>

interpretation outbox_below_trust: trust_frame outbox_ok
  by unfold_locales (simp_all add: keeps_outbox_new_id keeps_outbox_emit, simp_all add: outbox_ok_def)

interpretation outbox_below_penalty: penalty_frame outbox_ok
  by unfold_locales (simp_all add: keeps_outbox_new_id keeps_outbox_emit, simp_all add: outbox_ok_def)

interpretation trust_below_penalty: penalty_frame trust_inv
proof unfold_locales
  fix s :: "'a penalty_db_scheme" and w q and h :: "penalty_window \<Rightarrow> penalty_window" and a b c d e
  assume inv: "trust_inv s"
  note ok = trust_invD(1) [OF inv]
  show "trust_inv (s\<lparr>penalty_windows := penalty_windows s @ [w]\<rparr>)"
    "trust_inv (s\<lparr>penalty_windows := update_where q h (penalty_windows s)\<rparr>)"
    "trust_inv (s\<lparr>freeze_periods := a\<rparr>)" "trust_inv (s\<lparr>incident_consumption := incident_consumption s @ [b]\<rparr>)"
    "trust_inv (s\<lparr>extension_decisions := extension_decisions s @ [c]\<rparr>)" "trust_inv (s\<lparr>recovery_credit_decisions := recovery_credit_decisions s @ [d]\<rparr>)"
    "trust_inv (s\<lparr>recovery_credit_ledger := recovery_credit_ledger s @ [e]\<rparr>)"
    by (rule trust_inv_transfer [OF inv], use ok in \<open>simp_all add: trust_ok_defs\<close>)+
qed (simp_all add: keeps_inv_new_id keeps_inv_emit)

interpretation penalty_above_trust: trust_frame penalty_ok
  by unfold_locales
    (simp_all add: keeps_penalty_new_id keeps_penalty_emit,
     (rule penalty_ok_transfer, assumption, simp_all)+)

section \<open>Invariants that do not read the infrastructure tables\<close>

locale infrastructure_frame =
  fixes I :: "'m lease_db_scheme \<Rightarrow> bool"
  assumes events: "I s \<Longrightarrow> I (s\<lparr>domain_events := a\<rparr>)"
    and consumers: "I s \<Longrightarrow> I (s\<lparr>event_consumers := b\<rparr>)"
    and lease: "I s \<Longrightarrow> I (s\<lparr>system_startup_lease := c\<rparr>)"
begin

lemma claimed: "I s \<Longrightarrow> I (set_claimed ids now x s)"
  unfolding set_claimed_def by (rule events)

lemma published: "I s \<Longrightarrow> I (set_published ids now s)"
  unfolding set_published_def by (rule events)

lemma acquire: "op_keeps I (acquire_system_startup_lease p now d)"
  by (simp add: op_keeps_def acquire_eq lease)

lemma release: "op_keeps I (release_system_startup_lease l)"
  by (simp add: op_keeps_def release_eq lease)

end

interpretation trust_infra: infrastructure_frame trust_inv
proof unfold_locales
  fix s :: "'a trust_db_scheme" and a b c
  assume inv: "trust_inv s"
  note ok = trust_invD(1) [OF inv]
  show "trust_inv (s\<lparr>domain_events := a\<rparr>)" "trust_inv (s\<lparr>event_consumers := b\<rparr>)"
    "trust_inv (s\<lparr>system_startup_lease := c\<rparr>)"
    by (rule trust_inv_transfer [OF inv], use ok in \<open>simp_all add: trust_ok_defs\<close>)+
qed

interpretation penalty_infra: infrastructure_frame penalty_ok
  by unfold_locales (rule penalty_ok_transfer, assumption, simp_all)+

interpretation recovery_infra: infrastructure_frame recovery_ok
  by unfold_locales (rule recovery_ok_transfer, assumption, simp_all)+

interpretation goal_infra: infrastructure_frame goal_ok
  by unfold_locales (simp_all add: goal_ok_def)

interpretation mode_infra: infrastructure_frame mode_ok
  by unfold_locales (simp_all add: mode_ok_def)

section \<open>The reactions\<close>

lemma registered_cases:
  assumes "(c, h) \<in> set (regs_for build_consumer_registry ty)"
  obtains (confirmation_changed) "ty = ''incident.confirmation_changed''" "h = on_incident_confirmation_changed"
    | (started) "ty = ''penalty_window.started''" "h = on_penalty_window_started"
    | (frozen) "ty = ''penalty_window.frozen''" "h = on_penalty_window_frozen"
    | (resumed) "ty = ''penalty_window.resumed''" "h = on_penalty_window_resumed"
    | (completed) "ty = ''penalty_window.completed''" "h = on_penalty_window_completed"
    | (target_changed) "ty = ''penalty_window.target_duration_changed''"
        "h = on_penalty_window_target_duration_changed"
    | (task_completed) "ty = ''recovery_plan.task_completed''" "h = on_recovery_plan_task_completed"
  using assms by (auto simp: build_consumer_registry_def regs_for_def split: if_splits)

text \<open>What a property has to survive to survive every reaction.\<close>

locale reactions =
  fixes I :: "'m recovery_db_scheme \<Rightarrow> bool"
  assumes consume: "keeps I (consume_confirmed_incident_in_transaction i d g sev c now base)"
    and credit: "keeps I (record_recovery_credit_in_transaction k w x now)"
    and create: "keeps I (create_plan_in_transaction w x now)"
    and mirror: "keeps I (mirror_status_in_transaction w st now)"
    and regenerate: "keeps I (regenerate_in_transaction w x now)"
    and emit: "keeps I (emit ty src p now)"
begin

lemma payload: "keeps I (payload_field conv e k)"
  unfolding payload_field_def by (intro keeps_bind keeps_lift)

lemma consumption_events: "keeps I (consumption_events now r)"
  unfolding consumption_events_def emit_consumption_events_def emit_started_def
    emit_decision_recorded_def case_prod_beta
  by (cases r) (simp_all add: keeps_return keeps_bind emit)

lemma plan_event: "keeps I (emit_recovery_plan_event ty p e)"
  unfolding emit_recovery_plan_event_def emit_plan_event_def by (rule emit)

lemma mirrored: "keeps I (mirror_reaction st ty e)"
  unfolding mirror_reaction_def
  by (intro keeps_bind payload mirror keeps_emit_if_plan keeps_return plan_event)

lemma handler:
  assumes "(c, h) \<in> set (regs_for build_consumer_registry (ce_type e))"
  shows "keeps I (h e)"
  using assms
proof (cases rule: registered_cases)
  case confirmation_changed
  then show ?thesis unfolding on_incident_confirmation_changed_def
    by (auto intro!: keeps_return keeps_bind payload keeps_lift consume consumption_events)
next
  case started
  then show ?thesis unfolding on_penalty_window_started_def
    by (auto intro!: keeps_bind payload create plan_event)
next
  case target_changed
  then show ?thesis unfolding on_penalty_window_target_duration_changed_def emit_regenerated_def
    by (auto intro!: keeps_bind payload regenerate keeps_emit_if_plan keeps_return emit)
next
  case task_completed
  then show ?thesis unfolding on_recovery_plan_task_completed_def emit_recovery_credit_event_def
    by (auto intro!: keeps_bind payload credit emit)
qed (simp_all add: on_penalty_window_frozen_def on_penalty_window_resumed_def
    on_penalty_window_completed_def mirrored)

end

text \<open>A property neither module's tables matter to survives them.\<close>

locale consumer_frame = engine: penalty_frame I + plans: recovery_frame I for I :: "'m recovery_db_scheme \<Rightarrow> bool"

sublocale consumer_frame \<subseteq> reactions I
  by unfold_locales (rule engine.keeps_consume engine.keeps_credit plans.keeps_create plans.keeps_mirror
    plans.keeps_regenerate engine.emit)+

interpretation outbox_consumers: consumer_frame outbox_ok by unfold_locales

interpretation trust_consumers: consumer_frame trust_inv by unfold_locales

interpretation goal_consumers: consumer_frame goal_ok by unfold_locales

interpretation mode_consumers: consumer_frame mode_ok by unfold_locales

interpretation penalty_reactions: reactions penalty_ok
  by unfold_locales
    (rule keeps_penalty_consume keeps_penalty_credit penalty_recovery.keeps_create
      penalty_recovery.keeps_mirror penalty_recovery.keeps_regenerate keeps_penalty_emit)+

interpretation recovery_reactions: reactions recovery_ok
  by unfold_locales
    (rule recovery_below_penalty.keeps_consume recovery_below_penalty.keeps_credit keeps_recovery_create
      keeps_recovery_mirror keeps_recovery_regenerate keeps_recovery_emit)+

section \<open>The invariant of the system\<close>

definition system_ok :: "'m mode_db_scheme \<Rightarrow> bool" where
  "system_ok s \<longleftrightarrow>
     outbox_ok s \<and> trust_inv s \<and> penalty_ok s \<and> recovery_ok s \<and> goal_ok s \<and> mode_ok s"

lemma keeps_system:
  assumes "keeps outbox_ok m" "keeps trust_inv m" "keeps penalty_ok m" "keeps recovery_ok m"
    "keeps goal_ok m" "keeps mode_ok m"
  shows "keeps system_ok m"
  using assms unfolding keeps_def system_ok_def by blast

lemma op_keeps_system:
  assumes "op_keeps outbox_ok f" "op_keeps trust_inv f" "op_keeps penalty_ok f" "op_keeps recovery_ok f"
    "op_keeps goal_ok f" "op_keeps mode_ok f"
  shows "op_keeps system_ok f"
  using assms unfolding op_keeps_def system_ok_def by blast

lemma outbox_ok_recorded:
  assumes "outbox_ok s" and "\<not> processed i c s" and "i \<in> ev_id ` set (domain_events s)"
  shows "outbox_ok (s\<lparr>event_consumers := event_consumers s @
    [\<lparr>cn_event_id = i, cn_consumer = c, cn_processed_at = t\<rparr>]\<rparr>)"
  using assms by (auto simp: outbox_ok_def processed_def)

interpretation system_handlers: event_handlers build_consumer_registry system_ok
proof unfold_locales
  fix c and h :: "claimed_event \<Rightarrow> ('a mode_db_scheme, unit) tx" and e :: claimed_event
  assume reg: "(c, h) \<in> set (regs_for build_consumer_registry (ce_type e))"
  show "keeps system_ok (h e)"
    by (rule keeps_system)
      (rule outbox_consumers.handler trust_consumers.handler penalty_reactions.handler
        recovery_reactions.handler goal_consumers.handler mode_consumers.handler, rule reg)+
next
  fix s :: "'a mode_db_scheme" and i c t
  assume "system_ok s" "\<not> processed i c s" "i \<in> ev_id ` set (domain_events s)"
  then show "system_ok (s\<lparr>event_consumers := event_consumers s @
      [\<lparr>cn_event_id = i, cn_consumer = c, cn_processed_at = t\<rparr>]\<rparr>)"
    unfolding system_ok_def
    by (intro conjI outbox_ok_recorded trust_infra.consumers penalty_infra.consumers
      recovery_infra.consumers goal_infra.consumers mode_infra.consumers) simp_all
next
  fix s :: "'a mode_db_scheme" and ids now x
  assume "system_ok s"
  then show "system_ok (set_claimed ids now x s)" "system_ok (set_published ids now s)"
    unfolding system_ok_def
    by (simp_all add: trust_infra.claimed penalty_infra.claimed recovery_infra.claimed goal_infra.claimed
        mode_infra.claimed trust_infra.published penalty_infra.published recovery_infra.published
        goal_infra.published mode_infra.published)
      (simp_all add: set_claimed_def set_published_def outbox_ok_update_events)
qed

section \<open>Every public operation\<close>

named_theorems system_keeps

lemma op_keeps_penalty_freeze_window: "op_keeps penalty_ok (freeze_window i r now ex au xp)"
  unfolding freeze_window_def by (rule op_keeps_penalty_freeze)

lemma op_keeps_penalty_emergency: "op_keeps penalty_ok (emergency_freeze i now)"
  unfolding emergency_freeze_def by (rule op_keeps_penalty_freeze)

lemma system_create_domain [system_keeps]: "op_keeps system_ok (create_domain d n ds via now so co)"
  by (rule op_keeps_system)
     (rule outbox_below_trust.create op_keeps_inv_create penalty_above_trust.create
      recovery_below_trust.create goal_below_trust.create mode_below_trust.create)+

lemma system_deactivate [system_keeps]: "op_keeps system_ok (deactivate_domain d via now)"
  by (rule op_keeps_system)
     (rule outbox_below_trust.deactivate op_keeps_inv_deactivate penalty_above_trust.deactivate
      recovery_below_trust.deactivate goal_below_trust.deactivate mode_below_trust.deactivate)+

lemma system_reactivate [system_keeps]: "op_keeps system_ok (reactivate_domain d via now)"
  by (rule op_keeps_system)
     (rule outbox_below_trust.reactivate op_keeps_inv_reactivate penalty_above_trust.reactivate
      recovery_below_trust.reactivate goal_below_trust.reactivate mode_below_trust.reactivate)+

lemma system_recalculate [system_keeps]: "op_keeps system_ok (recalculate_domain_trust d t now)"
  by (rule op_keeps_system)
     (rule outbox_below_trust.recalculate op_keeps_inv_recalculate penalty_above_trust.recalculate
      recovery_below_trust.recalculate goal_below_trust.recalculate mode_below_trust.recalculate)+

lemma system_report [system_keeps]: "op_keeps system_ok (register_incident_report g d descr ev now)"
  by (rule op_keeps_system)
     (rule outbox_below_trust.report op_keeps_inv_register penalty_above_trust.report
      recovery_below_trust.report goal_below_trust.report mode_below_trust.report)+

lemma system_confirm [system_keeps]: "op_keeps system_ok (confirm_incident i new src descr c now)"
  by (rule op_keeps_system)
     (rule outbox_below_trust.confirm op_keeps_inv_confirm penalty_above_trust.confirm
      recovery_below_trust.confirm goal_below_trust.confirm mode_below_trust.confirm)+

lemma system_recover_trust [system_keeps]: "op_keeps system_ok (recover_trust_manager_state now)"
  by (rule op_keeps_system)
     (rule outbox_below_trust.recover op_keeps_inv_recover penalty_above_trust.recover
      recovery_below_trust.recover goal_below_trust.recover mode_below_trust.recover)+

lemma system_consume [system_keeps]: "op_keeps system_ok (consume_confirmed_incident i d g sev c
      now base)"
  by (rule op_keeps_system)
     (rule outbox_below_penalty.consume trust_below_penalty.consume op_keeps_penalty_consume
      recovery_below_penalty.consume goal_below_penalty.consume mode_below_penalty.consume)+

lemma system_start [system_keeps]: "op_keeps system_ok (start_window_if_eligible gs ga base now)"
  by (rule op_keeps_system)
     (rule outbox_below_penalty.start trust_below_penalty.start op_keeps_penalty_start
      recovery_below_penalty.start goal_below_penalty.start mode_below_penalty.start)+

lemma system_freeze [system_keeps]: "op_keeps system_ok (freeze_window i r now ex au xp)"
  by (rule op_keeps_system)
     (rule outbox_below_penalty.freeze trust_below_penalty.freeze op_keeps_penalty_freeze_window
      recovery_below_penalty.freeze goal_below_penalty.freeze mode_below_penalty.freeze)+

lemma system_emergency [system_keeps]: "op_keeps system_ok (emergency_freeze i now)"
  by (rule op_keeps_system)
     (rule outbox_below_penalty.emergency trust_below_penalty.emergency op_keeps_penalty_emergency
      recovery_below_penalty.emergency goal_below_penalty.emergency mode_below_penalty.emergency)+

lemma system_resume [system_keeps]: "op_keeps system_ok (resume i r now)"
  by (rule op_keeps_system)
     (rule outbox_below_penalty.resume trust_below_penalty.resume op_keeps_penalty_resume
      recovery_below_penalty.resume goal_below_penalty.resume mode_below_penalty.resume)+

lemma system_ensure [system_keeps]: "op_keeps system_ok (ensure_current_state now)"
  by (rule op_keeps_system)
     (rule outbox_below_penalty.ensure trust_below_penalty.ensure op_keeps_penalty_ensure
      recovery_below_penalty.ensure goal_below_penalty.ensure mode_below_penalty.ensure)+

lemma system_recover_penalty [system_keeps]: "op_keeps system_ok (recover_penalty_window_state now)"
  by (rule op_keeps_system)
     (rule outbox_below_penalty.recover trust_below_penalty.recover op_keeps_penalty_recover
      recovery_below_penalty.recover goal_below_penalty.recover mode_below_penalty.recover)+

lemma system_create_plan [system_keeps]: "op_keeps system_ok (create_plan w base now)"
  by (rule op_keeps_system)
     (rule outbox_recovery.create trust_recovery.create penalty_recovery.create
      op_keeps_recovery_create goal_below_recovery.create mode_below_recovery.create)+

lemma system_mirror [system_keeps]: "op_keeps system_ok (mirror_status_and_emit w st ty now)"
  by (rule op_keeps_system)
     (rule outbox_recovery.mirror trust_recovery.mirror penalty_recovery.mirror
      op_keeps_recovery_mirror goal_below_recovery.mirror mode_below_recovery.mirror)+

lemma system_regenerate [system_keeps]: "op_keeps system_ok (regenerate w x now)"
  by (rule op_keeps_system)
     (rule outbox_recovery.regenerate trust_recovery.regenerate penalty_recovery.regenerate
      op_keeps_recovery_regenerate goal_below_recovery.regenerate mode_below_recovery.regenerate)+

lemma system_propose_task [system_keeps]: "op_keeps system_ok (propose_task p ti de h now)"
  by (rule op_keeps_system)
     (rule outbox_recovery.propose trust_recovery.propose penalty_recovery.propose
      op_keeps_recovery_propose goal_below_recovery.propose mode_below_recovery.propose)+

lemma system_accept_task [system_keeps]: "op_keeps system_ok (accept_task i now)"
  by (rule op_keeps_system)
     (rule outbox_recovery.accept trust_recovery.accept penalty_recovery.accept
      op_keeps_recovery_accept goal_below_recovery.accept mode_below_recovery.accept)+

lemma system_withdraw_task [system_keeps]: "op_keeps system_ok (withdraw_task i now)"
  by (rule op_keeps_system)
     (rule outbox_recovery.withdraw trust_recovery.withdraw penalty_recovery.withdraw
      op_keeps_recovery_withdraw goal_below_recovery.withdraw mode_below_recovery.withdraw)+

lemma system_complete_task [system_keeps]: "op_keeps system_ok (complete_task i now notes)"
  by (rule op_keeps_system)
     (rule outbox_recovery.complete trust_recovery.complete penalty_recovery.complete
      op_keeps_recovery_complete goal_below_recovery.complete mode_below_recovery.complete)+

lemma system_create_goal [system_keeps]: "op_keeps system_ok (create_goal ti de dm via now)"
  by (rule op_keeps_system)
     (rule outbox_goal.create trust_goal.create penalty_goal.create recovery_goal.create
      op_keeps_goal_create mode_below_goal.create)+

lemma system_pause_goal [system_keeps]: "op_keeps system_ok (pause_goal i r now)"
  by (rule op_keeps_system)
     (rule outbox_goal.pause trust_goal.pause penalty_goal.pause recovery_goal.pause
      op_keeps_goal_pause mode_below_goal.pause)+

lemma system_resume_goal [system_keeps]: "op_keeps system_ok (resume_goal i now)"
  by (rule op_keeps_system)
     (rule outbox_goal.resume trust_goal.resume penalty_goal.resume recovery_goal.resume
      op_keeps_goal_resume mode_below_goal.resume)+

lemma system_complete_goal [system_keeps]: "op_keeps system_ok (complete_goal i r now)"
  by (rule op_keeps_system)
     (rule outbox_goal.complete trust_goal.complete penalty_goal.complete recovery_goal.complete
      op_keeps_goal_complete mode_below_goal.complete)+

lemma system_archive_goal [system_keeps]: "op_keeps system_ok (archive_goal i now)"
  by (rule op_keeps_system)
     (rule outbox_goal.archive trust_goal.archive penalty_goal.archive recovery_goal.archive
      op_keeps_goal_archive mode_below_goal.archive)+

lemma system_record_evidence [system_keeps]: "op_keeps system_ok (record_evidence gid vid x y oc
      pr src now)"
  by (rule op_keeps_system)
     (rule outbox_goal.record_evidence trust_goal.record_evidence penalty_goal.record_evidence
      recovery_goal.record_evidence op_keeps_goal_evidence mode_below_goal.record_evidence)+

lemma system_record_evaluation [system_keeps]: "op_keeps system_ok (record_evaluation gid es fi iv
      de now)"
  by (rule op_keeps_system)
     (rule outbox_goal.record_evaluation trust_goal.record_evaluation
      penalty_goal.record_evaluation recovery_goal.record_evaluation op_keeps_goal_evaluation
      mode_below_goal.record_evaluation)+

lemma system_propose_change [system_keeps]: "op_keeps system_ok (create_change_proposal gid ch re
      x ev ti de rep now)"
  by (rule op_keeps_system)
     (rule outbox_goal.propose trust_goal.propose penalty_goal.propose recovery_goal.propose
      op_keeps_goal_propose mode_below_goal.propose)+

lemma system_accept_proposal [system_keeps]: "op_keeps system_ok (accept_proposal i now)"
  by (rule op_keeps_system)
     (rule outbox_goal.accept trust_goal.accept penalty_goal.accept recovery_goal.accept
      op_keeps_goal_accept mode_below_goal.accept)+

lemma system_decline_proposal [system_keeps]: "op_keeps system_ok (decline_proposal i now)"
  by (rule op_keeps_system)
     (rule outbox_goal.decline trust_goal.decline penalty_goal.decline recovery_goal.decline
      op_keeps_goal_decline mode_below_goal.decline)+

lemma system_recover_goals [system_keeps]: "op_keeps system_ok (recover_goal_management_state now)"
  by (rule op_keeps_system)
     (rule outbox_goal.recover trust_goal.recover penalty_goal.recover recovery_goal.recover
      op_keeps_goal_recover mode_below_goal.recover)+

lemma system_advance_mode [system_keeps]: "op_keeps system_ok (advance_transition_state read now)"
  by (rule op_keeps_system)
     (rule outbox_mode.advance trust_mode.advance penalty_mode.advance recovery_mode.advance
      goal_mode.advance op_keeps_mode_advance)+

lemma system_request_mode [system_keeps]: "op_keeps system_ok (request_transition read target
      consent now)"
  by (rule op_keeps_system)
     (rule outbox_mode.request trust_mode.request penalty_mode.request recovery_mode.request
      goal_mode.request op_keeps_mode_request)+

lemma system_cancel_mode [system_keeps]: "op_keeps system_ok (cancel_request i now)"
  by (rule op_keeps_system)
     (rule outbox_mode.cancel trust_mode.cancel penalty_mode.cancel recovery_mode.cancel
      goal_mode.cancel op_keeps_mode_cancel)+

lemma system_confirm_mode [system_keeps]: "op_keeps system_ok (confirm_transition i read consent
      now)"
  by (rule op_keeps_system)
     (rule outbox_mode.confirm trust_mode.confirm penalty_mode.confirm recovery_mode.confirm
      goal_mode.confirm op_keeps_mode_confirm)+


lemma keeps_system_credit: "keeps system_ok (record_recovery_credit_in_transaction k w x now)"
  by (rule keeps_system)
    (rule outbox_consumers.credit trust_consumers.credit penalty_reactions.credit
      recovery_reactions.credit goal_consumers.credit mode_consumers.credit)+

lemma keeps_system_emit: "keeps system_ok (emit ty src p now)"
  by (rule keeps_system)
    (rule keeps_outbox_emit keeps_inv_emit keeps_penalty_emit keeps_recovery_emit keeps_goal_emit
      keeps_mode_emit)+

lemma credit_keeps:
  assumes "\<And>w x. keeps I (record_recovery_credit_in_transaction k w x now)"
    and "\<And>ty src p. keeps I (emit ty src p now)"
  shows "op_keeps I (record_recovery_credit_from_task_completion k now)"
proof -
  have "keeps I (emit_recovery_credit_event d now)" for d
    unfolding emit_recovery_credit_event_def by (rule assms(2))
  then have "op_keeps I (transition
      (tx_bind (tx_the AttributeError pr) (\<lambda>plan. tx_bind (tx_the AttributeError tr) (\<lambda>task.
        record_recovery_credit_in_transaction k (rp_penalty_window_id plan) (rt_credit_hours task) now)))
      (\<lambda>decision. emit_recovery_credit_event decision now))" for pr tr
    by (intro op_keeps_transition keeps_bind keeps_the assms(1))
  then show ?thesis unfolding record_recovery_credit_from_task_completion_def
    by (intro op_keeps_bind op_keeps_get)
      (auto split: option.split intro!: op_keeps_raise op_keeps_bind op_keeps_get)
qed

lemma system_credit [system_keeps]:
  "op_keeps system_ok (record_recovery_credit_from_task_completion k now)"
  by (rule credit_keeps) (rule keeps_system_credit keeps_system_emit)+

lemma system_check_plans [system_keeps]: "op_keeps system_ok (recover_recovery_plan_state now)"
  unfolding recover_recovery_plan_state_def by (rule op_keeps_get)

lemma system_publish [system_keeps]:
  "op_keeps system_ok (process_pending_events build_consumer_registry now)"
  by (rule op_keepsI) (rule system_handlers.process_keeps)

lemma system_acquire [system_keeps]: "op_keeps system_ok (acquire_system_startup_lease p now d)"
  by (rule op_keeps_system)
    (rule acquire_keeps_outbox trust_infra.acquire penalty_infra.acquire recovery_infra.acquire
      goal_infra.acquire mode_infra.acquire)+

lemma system_release [system_keeps]: "op_keeps system_ok (release_system_startup_lease l)"
  by (rule op_keeps_system)
    (rule release_keeps_outbox trust_infra.release penalty_infra.release recovery_infra.release
      goal_infra.release mode_infra.release)+

lemma op_keeps_finally:
  assumes "op_keeps I f" and "op_keeps I g"
  shows "op_keeps I (op_finally f g)"
proof (rule op_keepsI)
  fix s assume "I s"
  then have "I (snd (g (snd (f s))))" using assms by (blast dest: op_keepsD)
  then show "I (snd (op_finally f g s))" by (auto simp: op_finally_def split: prod.split sum.split)
qed

lemma system_startup [system_keeps]: "op_keeps system_ok (on_system_startup p now)"
proof -
  have "op_keeps system_ok (startup_sequence now)" unfolding startup_sequence_def
    by (intro op_keeps_bind op_keeps_return system_recover_trust system_recover_penalty
        system_recover_goals system_check_plans system_publish)
  then have "op_keeps system_ok (op_finally (startup_sequence now) (release_system_startup_lease l))" for l
    by (intro op_keeps_finally system_release)
  then show ?thesis unfolding on_system_startup_def
    by (intro op_keeps_bind system_acquire) (auto split: option.split intro: op_keeps_raise)
qed

end
