(* ===== verification/System_Cascade.thy ===== *)
theory System_Cascade
  imports System_Facts
begin

text \<open>
  How far an event can cascade. A reaction appends few events, of smaller rank than its own event,
  so the registry of the system is an interpretation of \<open>cascading_handlers\<close>: three rounds of the
  publisher settle every cascade that fits a batch.
\<close>

section \<open>What a reaction appends\<close>

text \<open>
  A computation appends at most \<open>b\<close> in weight to the outbox, all of rank below \<open>k\<close>; one that
  appends nothing is silent.
\<close>

definition cascade_rank :: "string \<Rightarrow> nat" where
  "cascade_rank ty =
     (if ty = ''incident.confirmation_changed'' then 2
      else if ty \<in> {''penalty_window.started'', ''penalty_window.frozen'', ''penalty_window.resumed'',
        ''penalty_window.completed'', ''penalty_window.target_duration_changed'',
        ''recovery_plan.task_completed''} then 1
      else 0)"

definition cascade_weight :: "string \<Rightarrow> nat" where
  "cascade_weight ty = (if cascade_rank ty = 2 then 7 else if cascade_rank ty = 1 then 2 else 1)"

definition appends :: "nat \<Rightarrow> nat \<Rightarrow> ('m outbox_db_scheme, 'a) tx \<Rightarrow> bool" where
  "appends k b m \<longleftrightarrow> (\<forall>s a s'. m s = Inr (a, s') \<longrightarrow> (\<exists>new. domain_events s' = domain_events s @ new
     \<and> (\<forall>r \<in> set new. unclaimed r \<and> cascade_rank (ev_type r) < k) \<and> event_weight cascade_weight new \<le> b))"

lemma appendsD:
  assumes "appends k b m" and "m s = Inr (a, s')"
  obtains new where "domain_events s' = domain_events s @ new"
    and "\<forall>r \<in> set new. unclaimed r \<and> cascade_rank (ev_type r) < k" and "event_weight cascade_weight new \<le> b"
  using assms unfolding appends_def by blast

lemma appends_silent: "(\<And>E. keeps (\<lambda>s. domain_events s = E) m) \<Longrightarrow> appends k b m"
  unfolding appends_def keeps_def by fastforce

lemma appends_bind:
  assumes m: "appends k b m" and f: "\<And>a. appends k b' (f a)" and le: "b + b' \<le> c"
  shows "appends k c (tx_bind m f)"
  unfolding appends_def
proof (intro allI impI)
  fix s a s' assume "tx_bind m f s = Inr (a, s')"
  then obtain x s1 where run: "m s = Inr (x, s1)" "f x s1 = Inr (a, s')" by (rule tx_bind_InrE)
  obtain n1 where n1: "domain_events s1 = domain_events s @ n1"
    "\<forall>r \<in> set n1. unclaimed r \<and> cascade_rank (ev_type r) < k" "event_weight cascade_weight n1 \<le> b"
    using m run(1) by (rule appendsD)
  obtain n2 where n2: "domain_events s' = domain_events s1 @ n2"
    "\<forall>r \<in> set n2. unclaimed r \<and> cascade_rank (ev_type r) < k" "event_weight cascade_weight n2 \<le> b'"
    using f run(2) by (rule appendsD)
  show "\<exists>new. domain_events s' = domain_events s @ new
     \<and> (\<forall>r \<in> set new. unclaimed r \<and> cascade_rank (ev_type r) < k) \<and> event_weight cascade_weight new \<le> c"
    using n1 n2 le by (intro exI [of _ "n1 @ n2"]) auto
qed

lemma appends_return: "appends k b (tx_return a)"
  by (rule appends_silent) (rule keeps_return)

lemma appends_if: "appends k b m \<Longrightarrow> appends k b m' \<Longrightarrow> appends k b (if c then m else m')"
  by simp

lemma appends_emit: "cascade_rank ty < k \<Longrightarrow> cascade_weight ty \<le> b \<Longrightarrow> appends k b (emit ty src p now)"
  unfolding appends_def by (auto simp: emit_emitted unclaimed_def)

lemma appends_payload: "appends k b (payload_field conv e f)"
  unfolding payload_field_def by (intro appends_silent keeps_bind keeps_lift)

lemma keeps_events_new_id: "keeps (\<lambda>s. domain_events s = E) new_id"
  by (simp add: keeps_def tx_simps)

interpretation silent_penalty: penalty_tables "\<lambda>s. domain_events s = E" for E
  by unfold_locales (simp_all add: keeps_events_new_id)

interpretation silent_recovery: recovery_tables "\<lambda>s. domain_events s = E" for E
  by unfold_locales (simp_all add: keeps_events_new_id)

lemmas appends_writes =
  silent_penalty.keeps_consume [THEN appends_silent]
  silent_penalty.keeps_credit [THEN appends_silent]
  silent_recovery.keeps_create [THEN appends_silent]
  silent_recovery.keeps_mirror [THEN appends_silent]
  silent_recovery.keeps_regenerate [THEN appends_silent]

lemma keeps_events_lift: "appends k b (tx_lift r)"
  by (rule appends_silent) (rule keeps_lift)

lemma appends_if_plan: "(\<And>p. appends k b (f p)) \<Longrightarrow> appends k b (emit_if_plan f r)"
  by (cases r) (simp_all add: emit_if_plan_def appends_return)

lemma appends_plan_event:
  "cascade_rank ty = 0 \<Longrightarrow> appends 1 1 (emit_recovery_plan_event ty p e)"
  unfolding emit_recovery_plan_event_def emit_plan_event_def
  by (rule appends_emit) (simp_all add: cascade_weight_def)

lemma appends_binds:
  assumes "appends k 0 m" and "\<And>a. appends k b (f a)"
  shows "appends k b (tx_bind m f)"
  by (rule appends_bind [OF assms]) (simp only: add_0)

lemma appends_mirror:
  assumes "cascade_rank ty = 0"
  shows "appends 1 1 (mirror_reaction st ty e)"
  unfolding mirror_reaction_def
  by (intro appends_binds appends_payload appends_writes appends_if_plan appends_plan_event assms)

lemma appends_consumption_events: "appends 2 6 (consumption_events now r)"
proof (cases r)
  case None
  then show ?thesis by (simp add: consumption_events_def appends_return)
next
  case (Some x)
  obtain w d started where x: "x = (w, d, started)" by (cases x)
  have "appends 2 2 (emit_started w d now)" unfolding emit_started_def
    by (intro appends_emit) (simp_all add: cascade_rank_def cascade_weight_def)
  moreover have "appends 2 1 (emit_decision_recorded d now)" unfolding emit_decision_recorded_def
    by (intro appends_emit) (simp_all add: cascade_rank_def cascade_weight_def)
  moreover have "appends 2 3 (tx_bind (emit ''penalty_window.extended'' src p now)
      (\<lambda>_. emit ''penalty_window.target_duration_changed'' src p' now))" for src p p'
    by (rule appends_bind [of 2 1 _ 2]; (rule appends_emit)?)
      (simp_all add: cascade_rank_def cascade_weight_def)
  ultimately have "appends 2 6 (emit_consumption_events (w, d, started) now)"
    unfolding emit_consumption_events_def prod.case
    by (intro appends_bind [of 2 2 _ 4 _ 6] appends_bind [of 2 1 _ 3 _ 4] appends_if appends_return) simp_all
  then show ?thesis by (simp add: consumption_events_def Some x)
qed

lemma handler_appends:
  assumes "(c, h) \<in> set (regs_for build_consumer_registry ty)"
  shows "appends (cascade_rank ty) (cascade_weight ty - 1) (h e)"
  using assms
proof (cases rule: registered_cases)
  case confirmation_changed
  then show ?thesis
    by (auto simp: cascade_weight_def cascade_rank_def on_incident_confirmation_changed_def
        intro!: appends_if appends_return appends_binds appends_payload keeps_events_lift appends_writes
          appends_consumption_events)
next
  case started
  then show ?thesis
    by (auto simp: cascade_weight_def cascade_rank_def on_penalty_window_started_def
        intro!: appends_binds appends_payload appends_writes appends_plan_event [simplified])
next
  case target_changed
  then show ?thesis
    by (auto simp: cascade_weight_def cascade_rank_def on_penalty_window_target_duration_changed_def
          emit_regenerated_def
        intro!: appends_binds appends_payload appends_writes appends_if_plan appends_emit)
next
  case task_completed
  then show ?thesis
    by (auto simp: cascade_weight_def cascade_rank_def on_recovery_plan_task_completed_def
          emit_recovery_credit_event_def
        intro!: appends_binds appends_payload appends_writes appends_emit)
qed (auto simp: cascade_weight_def cascade_rank_def on_penalty_window_frozen_def
    on_penalty_window_resumed_def on_penalty_window_completed_def intro!: appends_mirror [simplified])

lemma registrations_le_1: "length (regs_for build_consumer_registry ty) \<le> 1"
  by (simp add: build_consumer_registry_def regs_for_def)

interpretation cascade: cascading_handlers build_consumer_registry "\<lambda>_. True"
  cascade_weight cascade_rank "\<lambda>ty. cascade_weight ty - 1"
proof unfold_locales
  fix c and h :: "claimed_event \<Rightarrow> ('a recovery_db_scheme, unit) tx" and e :: claimed_event
    and s s' :: "'a recovery_db_scheme" and u
  assume "(c, h) \<in> set (regs_for build_consumer_registry (ce_type e))" and "h e s = Inr (u, s')"
  then show "\<exists>new. domain_events s' = domain_events s @ new
      \<and> (\<forall>r \<in> set new. unclaimed r \<and> cascade_rank (ev_type r) < cascade_rank (ce_type e))
      \<and> event_weight cascade_weight new \<le> cascade_weight (ce_type e) - 1"
    using handler_appends unfolding appends_def by blast
next
  fix ty
  have "length (regs_for build_consumer_registry ty) * (cascade_weight ty - 1)
      \<le> 1 * (cascade_weight ty - 1)" by (rule mult_le_mono1) (rule registrations_le_1)
  also have "\<dots> < cascade_weight ty" by (simp add: cascade_weight_def)
  finally show "length (regs_for build_consumer_registry ty) * (cascade_weight ty - 1) < cascade_weight ty" .
qed (simp_all add: keeps_def)

lemma cascade_rank_less_3: "cascade_rank ty < 3"
  by (simp add: cascade_rank_def)

lemma settles:
  assumes "pending_weight cascade_weight now s \<le> 50" and "u \<Longrightarrow> unpublished_claimable now s"
  shows "all_settled now u (snd (process_pending_events build_consumer_registry now s))"
  unfolding process_pending_events_def
  by (rule cascade.pending_rounds_settle [where k = 3]) (use assms cascade_rank_less_3 in simp_all)

end
