(* ===== verification/Delivery.thy ===== *)
theory Delivery
  imports Consumers
begin

text \<open>
  Reliable delivery: why a reaction that is due is eventually performed although publisher and
  operations are separate transactions and the publisher may stop between any two of them. An
  obligation has keys that become due, an event type that announces them, and a consumer whose
  handler meets them. \<open>delivered\<close> is the invariant: whatever is due is met or still announced by
  an unpublished event. The locale \<open>reliable_delivery\<close> is the contract under which the publisher
  keeps it.
\<close>

section \<open>How a computation grows the outbox\<close>

definition grows :: "'m outbox_db_scheme \<Rightarrow> 'm outbox_db_scheme \<Rightarrow> bool" where
  "grows s s' \<longleftrightarrow> next_id s \<le> next_id s' \<and> event_consumers s' = event_consumers s \<and>
     (\<exists>new. domain_events s' = domain_events s @ new \<and> (\<forall>r \<in> set new. next_id s \<le> ev_id r \<and> unclaimed r))"

lemma grows_refl [simp]: "grows s s"
  by (simp add: grows_def)

lemma grows_trans:
  assumes "grows s t" and "grows t u"
  shows "grows s u"
proof -
  obtain n1 n2 where "domain_events t = domain_events s @ n1" "domain_events u = domain_events t @ n2"
    "\<forall>r \<in> set n1. next_id s \<le> ev_id r \<and> unclaimed r" "\<forall>r \<in> set n2. next_id t \<le> ev_id r \<and> unclaimed r"
    using assms by (auto simp: grows_def)
  then show ?thesis using assms unfolding grows_def
    by (intro conjI exI [of _ "n1 @ n2"]) (auto dest: le_trans)
qed

lemma grows_new_id: "grows s (s\<lparr>next_id := Suc (next_id s)\<rparr>)"
  by (simp add: grows_def)

lemma grows_emitted: "grows s (insert_event (event_row_of (next_id s) e) (s\<lparr>next_id := Suc (next_id s)\<rparr>))"
  by (simp add: grows_def unclaimed_def)

lemma keeps_grows_new_id: "keeps (grows s0) new_id"
  unfolding keeps_def by (auto simp: tx_simps intro: grows_trans grows_new_id)

lemma keeps_grows_emit: "keeps (grows s0) (emit ty src p now)"
  unfolding keeps_def by (auto simp: tx_simps intro: grows_trans grows_emitted)

lemma grows_by_keeps: "(\<And>s0. keeps (grows s0) m) \<Longrightarrow> m s = Inr (a, s') \<Longrightarrow> grows s s'"
  using keepsD [of "grows s" m s a s'] by simp

section \<open>Obligations\<close>

definition announced :: "string \<Rightarrow> (payload \<Rightarrow> 'k \<Rightarrow> bool) \<Rightarrow> 'k \<Rightarrow> event_row \<Rightarrow> bool" where
  "announced ty ann k r \<longleftrightarrow> ev_type r = ty \<and> ann (ev_payload r) k"

definition owed ::
  "string \<Rightarrow> (payload \<Rightarrow> 'k \<Rightarrow> bool) \<Rightarrow> ('k \<Rightarrow> 'm outbox_db_scheme \<Rightarrow> bool)
     \<Rightarrow> ('k \<Rightarrow> 'm outbox_db_scheme \<Rightarrow> bool) \<Rightarrow> 'm outbox_db_scheme \<Rightarrow> bool" where
  "owed ty ann due met s \<longleftrightarrow> (\<forall>k. due k s \<longrightarrow> met k s \<or>
     (\<exists>r \<in> set (domain_events s). ev_published_at r = None \<and> announced ty ann k r))"

definition acted_on ::
  "string \<Rightarrow> string \<Rightarrow> (payload \<Rightarrow> 'k \<Rightarrow> bool) \<Rightarrow> ('k \<Rightarrow> 'm outbox_db_scheme \<Rightarrow> bool)
     \<Rightarrow> 'm outbox_db_scheme \<Rightarrow> bool" where
  \<comment> \<open>a consumer row of an announcing event means that the obligation is met\<close>
  "acted_on ty consumer ann met s \<longleftrightarrow> (\<forall>c \<in> set (event_consumers s). \<forall>r \<in> set (domain_events s). \<forall>k.
     cn_consumer c = consumer \<longrightarrow> cn_event_id c = ev_id r \<longrightarrow> announced ty ann k r \<longrightarrow> met k s)"

definition delivered ::
  "string \<Rightarrow> string \<Rightarrow> (payload \<Rightarrow> 'k \<Rightarrow> bool) \<Rightarrow> ('k \<Rightarrow> 'm outbox_db_scheme \<Rightarrow> bool)
     \<Rightarrow> ('k \<Rightarrow> 'm outbox_db_scheme \<Rightarrow> bool) \<Rightarrow> 'm outbox_db_scheme \<Rightarrow> bool" where
  "delivered ty consumer ann due met s \<longleftrightarrow>
     outbox_ok s \<and> owed ty ann due met s \<and> acted_on ty consumer ann met s"

lemma deliveredD:
  assumes "delivered ty consumer ann due met s"
  shows "outbox_ok s"
    and "due k s \<Longrightarrow> \<not> met k s \<Longrightarrow>
      \<exists>r \<in> set (domain_events s). ev_published_at r = None \<and> announced ty ann k r"
    and "processed i consumer s \<Longrightarrow> r \<in> set (domain_events s) \<Longrightarrow> ev_id r = i \<Longrightarrow>
      announced ty ann k r \<Longrightarrow> met k s"
  using assms by (auto simp: delivered_def owed_def acted_on_def processed_def)

lemma acted_on_grows:
  assumes ok: "outbox_ok s" and act: "acted_on ty consumer ann met s" and grow: "grows s s'"
    and met: "\<And>k. met k s \<Longrightarrow> met k s'"
  shows "acted_on ty consumer ann met s'"
proof -
  obtain new where new: "domain_events s' = domain_events s @ new" "\<forall>r \<in> set new. next_id s \<le> ev_id r"
    and cons: "event_consumers s' = event_consumers s"
    using grow by (auto simp: grows_def)
  have "cn_event_id c < next_id s" if "c \<in> set (event_consumers s)" for c
    using outbox_okD(4) [OF ok that] outbox_okD(2) [OF ok] by fastforce
  then have "cn_event_id c \<noteq> ev_id r" if "c \<in> set (event_consumers s)" "r \<in> set new" for c r
    using that new(2) by fastforce
  then show ?thesis using act met unfolding acted_on_def new(1) cons by fastforce
qed

lemma delivered_grows:
  assumes del: "delivered ty consumer ann due met s" and ok: "outbox_ok s'" and grow: "grows s s'"
    and met: "\<And>k. met k s \<Longrightarrow> met k s'"
    and due: "\<And>k. due k s' \<Longrightarrow> due k s \<or> met k s' \<or>
      (\<exists>r \<in> set (domain_events s'). ev_published_at r = None \<and> announced ty ann k r)"
  shows "delivered ty consumer ann due met s'"
proof -
  have "set (domain_events s) \<subseteq> set (domain_events s')" using grow by (auto simp: grows_def)
  then have "owed ty ann due met s'" using del met due unfolding delivered_def owed_def by (meson subsetD)
  moreover have "acted_on ty consumer ann met s'"
    using del grow met acted_on_grows unfolding delivered_def by blast
  ultimately show ?thesis using ok by (simp add: delivered_def)
qed

lemma delivered_same:
  assumes "delivered ty consumer ann due met s" and "outbox_ok s'"
    and "domain_events s' = domain_events s" and "event_consumers s' = event_consumers s"
    and "\<And>k. met k s \<Longrightarrow> met k s'" and "\<And>k. due k s' \<Longrightarrow> due k s"
  shows "delivered ty consumer ann due met s'"
  using assms unfolding delivered_def owed_def acted_on_def by metis

text \<open>Changing the claim or the publication columns of event rows.\<close>

lemma delivered_update_events:
  assumes del: "delivered ty consumer ann due met s"
    and f: "\<And>r. ev_id (f r) = ev_id r \<and> ev_type (f r) = ev_type r \<and> ev_payload (f r) = ev_payload r"
    and open_rows: "\<And>k. due k s \<Longrightarrow> \<not> met k s \<Longrightarrow> \<exists>r \<in> set (domain_events s).
      ev_published_at r = None \<and> announced ty ann k r \<and> (c r \<longrightarrow> ev_published_at (f r) = None)"
    and met: "\<And>k x. met k (s\<lparr>domain_events := x\<rparr>) = met k s"
    and due: "\<And>k x. due k (s\<lparr>domain_events := x\<rparr>) = due k s"
  shows "delivered ty consumer ann due met (s\<lparr>domain_events := update_where c f (domain_events s)\<rparr>)"
proof -
  have ann: "announced ty ann k (f r) = announced ty ann k r" for k r using f by (simp add: announced_def)
  have "\<exists>r \<in> set (update_where c f (domain_events s)). ev_published_at r = None \<and> announced ty ann k r"
    if k: "due k s" "\<not> met k s" for k
  proof -
    obtain r where r: "r \<in> set (domain_events s)" "ev_published_at r = None" "announced ty ann k r"
      and "c r \<longrightarrow> ev_published_at (f r) = None"
      using open_rows [OF k] by blast
    then show ?thesis using update_where_mem [OF r(1), of c f] r ann by (cases "c r") auto
  qed
  moreover have "met k s" if c: "x \<in> set (event_consumers s)" "r \<in> set (update_where c f (domain_events s))"
      "cn_consumer x = consumer" "cn_event_id x = ev_id r" "announced ty ann k r" for x r k
    using c(2)
  proof (cases rule: in_update_whereE)
    case same
    then show ?thesis using del c unfolding delivered_def acted_on_def by blast
  next
    case (changed q)
    then show ?thesis using del c f ann unfolding delivered_def acted_on_def by metis
  qed
  moreover have "outbox_ok (s\<lparr>domain_events := update_where c f (domain_events s)\<rparr>)"
    using del f by (intro outbox_ok_update_events) (auto simp: delivered_def)
  ultimately show ?thesis unfolding delivered_def owed_def acted_on_def by (simp add: met due) blast
qed

section \<open>One batch of events\<close>

text \<open>
  Where a dispatch that started in \<open>s\<close> can have come to: rows and identifiers have only been added,
  what was due or met still is, and what has become due is met or announced by a new event.
\<close>

definition during ::
  "string \<Rightarrow> string \<Rightarrow> (payload \<Rightarrow> 'k \<Rightarrow> bool) \<Rightarrow> ('k \<Rightarrow> 'm outbox_db_scheme \<Rightarrow> bool)
     \<Rightarrow> ('k \<Rightarrow> 'm outbox_db_scheme \<Rightarrow> bool) \<Rightarrow> 'm outbox_db_scheme \<Rightarrow> 'm outbox_db_scheme \<Rightarrow> bool" where
  "during ty consumer ann due met s t \<longleftrightarrow>
     outbox_ok t \<and> next_id s \<le> next_id t \<and>
     (\<exists>new. domain_events t = domain_events s @ new \<and> (\<forall>r \<in> set new. next_id s \<le> ev_id r \<and> unclaimed r)) \<and>
     acted_on ty consumer ann met t \<and> (\<forall>k. due k s \<longrightarrow> due k t) \<and> (\<forall>k. met k s \<longrightarrow> met k t) \<and>
     (\<forall>k. due k t \<longrightarrow> due k s \<or> met k t \<or> (\<exists>r \<in> set (domain_events t). next_id s \<le> ev_id r
        \<and> ev_published_at r = None \<and> announced ty ann k r))"

lemma during_start: "delivered ty consumer ann due met s \<Longrightarrow> during ty consumer ann due met s s"
  by (simp add: during_def delivered_def)

lemma duringD:
  assumes "during ty consumer ann due met s t"
  shows "outbox_ok t" and "next_id s \<le> next_id t"
    and "set (domain_events s) \<subseteq> set (domain_events t)"
    and "acted_on ty consumer ann met t" and "due k s \<Longrightarrow> due k t" and "met k s \<Longrightarrow> met k t"
    and "due k t \<Longrightarrow> \<not> due k s \<Longrightarrow> \<not> met k t \<Longrightarrow> \<exists>r \<in> set (domain_events t). next_id s \<le> ev_id r
        \<and> ev_published_at r = None \<and> announced ty ann k r"
  using assms by (auto simp: during_def)

lemma during_grows:
  assumes dur: "during ty consumer ann due met s t" and ok: "outbox_ok u" and grow: "grows t u"
    and met: "\<And>k. met k t \<Longrightarrow> met k u" and due: "\<And>k. due k t \<Longrightarrow> due k u"
    and new: "\<And>k. due k u \<Longrightarrow> \<not> due k t \<Longrightarrow> met k u \<or>
      (\<exists>r \<in> set (domain_events u). next_id t \<le> ev_id r \<and> ev_published_at r = None \<and> announced ty ann k r)"
  shows "during ty consumer ann due met s u"
proof -
  obtain n1 n2 where "domain_events t = domain_events s @ n1" "domain_events u = domain_events t @ n2"
    "\<forall>r \<in> set n1. next_id s \<le> ev_id r \<and> unclaimed r" "\<forall>r \<in> set n2. next_id t \<le> ev_id r \<and> unclaimed r"
    using dur grow by (auto simp: during_def grows_def)
  then have rows: "\<exists>new. domain_events u = domain_events s @ new \<and> (\<forall>r \<in> set new. next_id s \<le> ev_id r \<and> unclaimed r)"
    using duringD(2) [OF dur] by (intro exI [of _ "n1 @ n2"]) (auto dest: le_trans)
  have sub: "set (domain_events t) \<subseteq> set (domain_events u)" using grow by (auto simp: grows_def)
  have "due k s \<or> met k u \<or> (\<exists>r \<in> set (domain_events u). next_id s \<le> ev_id r \<and> ev_published_at r = None
      \<and> announced ty ann k r)" if k: "due k u" for k
  proof (cases "due k t")
    case True
    then show ?thesis using duringD(7) [OF dur, of k] met [of k] sub by blast
  next
    case False
    then show ?thesis using new [OF k] duringD(2) [OF dur] by (meson le_trans)
  qed
  moreover have "acted_on ty consumer ann met u"
    using duringD(1,4) [OF dur] grow met by (rule acted_on_grows)
  moreover have "next_id s \<le> next_id u" using duringD(2) [OF dur] grow by (auto simp: grows_def)
  ultimately show ?thesis unfolding during_def using ok rows met due duringD(5,6) [OF dur] by blast
qed

lemma during_record:
  assumes dur: "during ty consumer ann due met s t"
    and ok: "outbox_ok (t\<lparr>event_consumers := event_consumers t @ [x]\<rparr>)"
    and ann: "\<And>k r. r \<in> set (domain_events t) \<Longrightarrow> cn_consumer x = consumer \<Longrightarrow> ev_id r = cn_event_id x \<Longrightarrow>
      announced ty ann k r \<Longrightarrow> met k t"
    and met: "\<And>k b. met k (t\<lparr>event_consumers := b\<rparr>) = met k t"
    and due: "\<And>k b. due k (t\<lparr>event_consumers := b\<rparr>) = due k t"
  shows "during ty consumer ann due met s (t\<lparr>event_consumers := event_consumers t @ [x]\<rparr>)"
proof -
  have "acted_on ty consumer ann met (t\<lparr>event_consumers := event_consumers t @ [x]\<rparr>)"
    using duringD(4) [OF dur] ann unfolding acted_on_def by (auto simp: met)
  then show ?thesis using dur ok unfolding during_def by (simp add: met due)
qed

section \<open>The contract\<close>

locale reliable_delivery =
  fixes reg :: "'m registry"
    and ty consumer :: string and handler :: "'m handler"
    and ann :: "payload \<Rightarrow> 'k \<Rightarrow> bool"
    and due met :: "'k \<Rightarrow> 'm outbox_db_scheme \<Rightarrow> bool"
  assumes registered: "regs_for reg ty = [(consumer, handler)]"
    and keeps_outbox: "(c, h) \<in> set (regs_for reg (ce_type e)) \<Longrightarrow> keeps outbox_ok (h e)"
    and grows: "(c, h) \<in> set (regs_for reg (ce_type e)) \<Longrightarrow> h e s = Inr (u, s') \<Longrightarrow> grows s s'"
    and keeps_met: "(c, h) \<in> set (regs_for reg (ce_type e)) \<Longrightarrow> keeps (met k) (h e)"
    and keeps_due: "(c, h) \<in> set (regs_for reg (ce_type e)) \<Longrightarrow> keeps (due k) (h e)"
    and new_due: "(c, h) \<in> set (regs_for reg (ce_type e)) \<Longrightarrow> h e s = Inr (u, s') \<Longrightarrow>
      due k s' \<Longrightarrow> \<not> due k s \<Longrightarrow> met k s' \<or> (\<exists>r \<in> set (domain_events s'). next_id s \<le> ev_id r
        \<and> ev_published_at r = None \<and> announced ty ann k r)"
    and success: "ce_type e = ty \<Longrightarrow> ann (ce_payload e) k \<Longrightarrow> handler e s = Inr (u, s') \<Longrightarrow> met k s'"
    and failure: "ce_type e = ty \<Longrightarrow> ann (ce_payload e) k \<Longrightarrow> due k s \<Longrightarrow> handler e s = Inl x \<Longrightarrow> met k s"
    and met_books: "met k (s\<lparr>event_consumers := a\<rparr>) = met k s" "met k (s\<lparr>domain_events := b\<rparr>) = met k s"
    and due_books: "due k (s\<lparr>event_consumers := a\<rparr>) = due k s" "due k (s\<lparr>domain_events := b\<rparr>) = due k s"
begin

lemma during_consume:
  assumes dur: "during ty consumer ann due met s t"
    and reg: "(c, h) \<in> set (regs_for reg (ce_type e))" and e: "e = claimed_of q" "q \<in> set (domain_events s)"
  shows "during ty consumer ann due met s (snd (consume_event e c (h e) now t))"
proof (cases "\<exists>u t'. h e t = Inr (u, t') \<and> \<not> processed (ce_id e) c t \<and> \<not> processed (ce_id e) c t'
    \<and> ce_id e \<in> ev_id ` set (domain_events t')")
  case False
  then have "snd (consume_event e c (h e) now t) = t"
    by (auto simp: consume_event_eq split: sum.splits)
  then show ?thesis using dur by simp
next
  case True
  then obtain u t' where run: "h e t = Inr (u, t')" and fresh: "\<not> processed (ce_id e) c t"
      "\<not> processed (ce_id e) c t'" "ce_id e \<in> ev_id ` set (domain_events t')" by blast
  have ok': "outbox_ok t'" using keeps_outbox [OF reg] duringD(1) [OF dur] run by (rule keepsD)
  have dur': "during ty consumer ann due met s t'"
    using dur ok' grows [OF reg run] keepsD [OF keeps_met [OF reg] _ run] keepsD [OF keeps_due [OF reg] _ run]
      new_due [OF reg run] by (rule during_grows)
  have same: "r = q" if "r \<in> set (domain_events t')" "ev_id r = ce_id e" for r
    using distinct_key_eq [OF outbox_okD(1) [OF ok'] that(1)] duringD(3) [OF dur'] e that(2)
    by (auto simp: claimed_of_def)
  have "during ty consumer ann due met s (t'\<lparr>event_consumers := event_consumers t' @
      [\<lparr>cn_event_id = ce_id e, cn_consumer = c, cn_processed_at = now\<rparr>]\<rparr>)"
  proof (rule during_record [OF dur'])
    show "outbox_ok (t'\<lparr>event_consumers := event_consumers t' @
        [\<lparr>cn_event_id = ce_id e, cn_consumer = c, cn_processed_at = now\<rparr>]\<rparr>)"
      using ok' fresh(2,3) by (auto simp: outbox_ok_def processed_def)
  next
    fix k r
    assume r: "r \<in> set (domain_events t')"
      "cn_consumer \<lparr>cn_event_id = ce_id e, cn_consumer = c, cn_processed_at = now\<rparr> = consumer"
      "ev_id r = cn_event_id \<lparr>cn_event_id = ce_id e, cn_consumer = c, cn_processed_at = now\<rparr>"
      "announced ty ann k r"
    then have "r = q" using same by simp
    then have k: "ce_type e = ty" "ann (ce_payload e) k" using r(4) e by (simp_all add: announced_def claimed_of_def)
    then have "h = handler" using reg registered by simp
    then show "met k t'" using success [OF k] run by blast
  qed (simp_all add: met_books due_books)
  then show ?thesis using run fresh by (simp add: consume_event_eq)
qed

lemma during_dispatch:
  assumes "during ty consumer ann due met s t" and "\<forall>e \<in> set es. \<exists>q \<in> set (domain_events s). e = claimed_of q"
  shows "during ty consumer ann due met s (snd (dispatch_all reg es now t))"
  by (rule dispatch_all_inv) (use assms during_consume in blast)+

lemma consume_meets:
  assumes dur: "during ty consumer ann due met s t" and q: "q \<in> set (domain_events s)"
    and k: "announced ty ann k q" "due k s"
  shows "met k (snd (consume_event (claimed_of q) consumer (handler (claimed_of q)) now t))"
proof -
  let ?e = "claimed_of q"
  have e: "ce_type ?e = ty" "ann (ce_payload ?e) k" "ce_id ?e = ev_id q"
    using k(1) by (simp_all add: announced_def claimed_of_def)
  have qt: "q \<in> set (domain_events t)" using duringD(3) [OF dur] q by blast
  have reg: "(consumer, handler) \<in> set (regs_for reg (ce_type ?e))" by (simp add: e(1) registered)
  show ?thesis
  proof (cases "processed (ev_id q) consumer t")
    case True
    then have "met k t" using duringD(4) [OF dur] qt k(1) unfolding acted_on_def processed_def by metis
    then show ?thesis using True by (simp add: consume_event_eq e(3))
  next
    case False
    show ?thesis
    proof (cases "handler ?e t")
      case (Inl x)
      then have "met k t" using failure [OF e(1,2)] duringD(5) [OF dur k(2)] by blast
      then show ?thesis using Inl False by (simp add: consume_event_eq e(3))
    next
      case (Inr r)
      then obtain u t' where run: "handler ?e t = Inr (u, t')" by (cases r) simp
      have g: "grows t t'" by (rule grows [OF reg run])
      then have "event_consumers t' = event_consumers t" and "q \<in> set (domain_events t')"
        using qt by (auto simp: grows_def)
      then have "\<not> processed (ev_id q) consumer t'" and "ev_id q \<in> ev_id ` set (domain_events t')"
        using False by (simp_all add: processed_def)
      then show ?thesis using success [OF e(1,2) run] run False
        by (simp add: consume_event_eq e(3) met_books)
    qed
  qed
qed

lemma dispatch_meets:
  assumes dur: "during ty consumer ann due met s t"
    and es: "\<forall>e \<in> set es. \<exists>q \<in> set (domain_events s). e = claimed_of q"
    and q: "q \<in> set (domain_events s)" "claimed_of q \<in> set es" and k: "announced ty ann k q" "due k s"
  shows "met k (snd (dispatch_all reg es now t))"
proof -
  let ?e = "claimed_of q"
  obtain es1 es2 where split: "es = es1 @ ?e # es2" using q(2) by (meson split_list)
  let ?t1 = "snd (dispatch_all reg es1 now t)" and ?t2 = "snd (dispatch_all reg (es1 @ [?e]) now t)"
  have one: "?t2 = snd (consume_event ?e consumer (handler ?e) now ?t1)"
    using k(1) by (simp add: dispatch_all_append Let_def split_beta dispatch_def announced_def claimed_of_def
        registered split: sum.split)
  have dur1: "during ty consumer ann due met s ?t1" using dur es by (intro during_dispatch) (auto simp: split)
  have met2: "met k ?t2" unfolding one by (rule consume_meets [OF dur1 q(1) k])
  have "met k (snd (dispatch_all reg es2 now ?t2))"
  proof (rule dispatch_all_inv [where Q = "met k"])
    fix e :: claimed_event and c h u
    assume reg: "(c, h) \<in> set (regs_for reg (ce_type e))" and "met k u"
    then show "met k (snd (consume_event e c (h e) now u))"
      using keepsD [OF keeps_met [OF reg, of k]]
      by (auto simp: consume_event_eq met_books split: sum.split)
  qed (rule met2)
  then show ?thesis using dispatch_all_append [of reg "es1 @ [?e]" es2] split by simp
qed

text \<open>A claim, and a publisher that stops somewhere in its batch, keep the invariant.\<close>

lemma claim_delivered:
  assumes "delivered ty consumer ann due met s"
  shows "delivered ty consumer ann due met (set_claimed ids now x s)"
  unfolding set_claimed_def using deliveredD(2) [OF assms]
  by (intro delivered_update_events [OF assms]) (auto simp: met_books due_books)

lemma during_delivered:
  assumes del: "delivered ty consumer ann due met s" and dur: "during ty consumer ann due met s t"
  shows "delivered ty consumer ann due met t"
proof -
  have "owed ty ann due met t" unfolding owed_def
  proof (intro allI impI)
    fix k assume k: "due k t"
    show "met k t \<or> (\<exists>r \<in> set (domain_events t). ev_published_at r = None \<and> announced ty ann k r)"
      using duringD(7) [OF dur k] deliveredD(2) [OF del, of k] duringD(6) [OF dur, of k]
        duringD(3) [OF dur] by blast
  qed
  then show ?thesis using duringD(1,4) [OF dur] by (simp add: delivered_def)
qed

lemma publish_delivered:
  assumes del: "delivered ty consumer ann due met s"
    and rows: "\<forall>q \<in> set rows. \<exists>q' \<in> set (domain_events s). claimed_of q' = claimed_of q"
    and t: "t = snd (dispatch_all reg (map claimed_of rows) now s)"
  shows "delivered ty consumer ann due met (set_published (map ev_id rows) now t)"
proof -
  have es: "\<forall>e \<in> set (map claimed_of rows). \<exists>q \<in> set (domain_events s). e = claimed_of q"
    using rows by (auto simp: eq_commute)
  have dur: "during ty consumer ann due met s t"
    unfolding t by (rule during_dispatch [OF during_start [OF del] es])
  note delt = during_delivered [OF del dur]
  have "\<exists>r \<in> set (domain_events t). ev_published_at r = None \<and> announced ty ann k r
      \<and> \<not> ev_id r \<in> set (map ev_id rows)" if k: "due k t" "\<not> met k t" for k
  proof (cases "due k s")
    case True
    have "\<not> met k s" using k(2) duringD(6) [OF dur] by blast
    then obtain r where r: "r \<in> set (domain_events s)" "ev_published_at r = None" "announced ty ann k r"
      using deliveredD(2) [OF del True] by blast
    have "ev_id r \<notin> set (map ev_id rows)"
    proof
      assume "ev_id r \<in> set (map ev_id rows)"
      then obtain q where q: "q \<in> set rows" "ev_id q = ev_id r" by (auto simp: image_iff)
      then obtain q' where q': "q' \<in> set (domain_events s)" "claimed_of q' = claimed_of q" using rows by blast
      then have "q' = r" using distinct_key_eq [OF outbox_okD(1) [OF deliveredD(1) [OF del]] q'(1) r(1)] q(2)
        by (simp add: claimed_of_def)
      then have "claimed_of r \<in> set (map claimed_of rows)" using q' q(1) by auto
      then have "met k t" unfolding t
        using dispatch_meets [OF during_start [OF del] es r(1) _ r(3) True] by blast
      with k(2) show False by simp
    qed
    then show ?thesis using r duringD(3) [OF dur] by blast
  next
    case False
    then obtain r where r: "r \<in> set (domain_events t)" "next_id s \<le> ev_id r" "ev_published_at r = None"
      "announced ty ann k r" using duringD(7) [OF dur k(1) _ k(2)] by blast
    have "ev_id q < next_id s" if "q \<in> set rows" for q
      using rows that outbox_okD(2) [OF deliveredD(1) [OF del]] by (fastforce simp: claimed_of_def)
    then have "ev_id r \<notin> set (map ev_id rows)" using r(2) by fastforce
    then show ?thesis using r by blast
  qed
  then show ?thesis unfolding set_published_def
    by (intro delivered_update_events [OF delt]) (auto simp: met_books due_books)
qed

lemma claimed_rows:
  assumes "rows = claim_batch n now (domain_events s)"
  shows "\<forall>q \<in> set rows. \<exists>q' \<in> set (domain_events (set_claimed ids now x s)). claimed_of q' = claimed_of q"
proof
  fix q assume "q \<in> set rows"
  then have "q \<in> set (domain_events s)" using claim_batch_set unfolding assms by blast
  then have "(if ev_id q \<in> set ids then q\<lparr>ev_claimed_at := Some now, ev_claim_expires_at := Some x\<rparr> else q)
      \<in> set (domain_events (set_claimed ids now x s))"
    unfolding set_claimed_def by (auto simp: set_update_where)
  then show "\<exists>q' \<in> set (domain_events (set_claimed ids now x s)). claimed_of q' = claimed_of q"
    by (rule rev_bexI) (simp add: claimed_of_def)
qed

lemma pending_rounds_delivered:
  "delivered ty consumer ann due met s \<Longrightarrow>
   delivered ty consumer ann due met (snd (pending_rounds k reg n d now s))"
proof (induction k arbitrary: s)
  case 0
  then show ?case by simp
next
  case (Suc k)
  let ?rows = "claim_batch n now (domain_events s)"
  let ?s1 = "set_claimed (map ev_id ?rows) now (now + d) s"
  let ?s2 = "snd (dispatch_all reg (map claimed_of ?rows) now ?s1)"
  have "delivered ty consumer ann due met (set_published (map ev_id ?rows) now ?s2)"
    by (rule publish_delivered [OF claim_delivered [OF Suc.prems] claimed_rows [OF refl] refl])
  then have "delivered ty consumer ann due met
      (snd (pending_rounds k reg n d now (set_published (map ev_id ?rows) now ?s2)))"
    by (rule Suc.IH)
  then show ?case using Suc.prems
    by (auto simp: pending_rounds_Suc Let_def split_beta split: prod.splits sum.splits)
qed

lemma process_delivered:
  "delivered ty consumer ann due met s \<Longrightarrow>
   delivered ty consumer ann due met (snd (process_pending_events reg now s))"
  unfolding process_pending_events_def by (rule pending_rounds_delivered)

lemma interrupted_delivered:
  assumes "delivered ty consumer ann due met s" and "rows = claim_batch n now (domain_events s)"
  shows "delivered ty consumer ann due met (snd (dispatch_all reg (take j (map claimed_of rows)) now
    (set_claimed (map ev_id rows) now (now + d) s)))"
proof -
  let ?s1 = "set_claimed (map ev_id rows) now (now + d) s"
  have del: "delivered ty consumer ann due met ?s1" by (rule claim_delivered [OF assms(1)])
  have "\<forall>e \<in> set (take j (map claimed_of rows)). \<exists>q \<in> set (domain_events ?s1). e = claimed_of q"
  proof
    fix e assume "e \<in> set (take j (map claimed_of rows))"
    then have "e \<in> set (map claimed_of rows)" by (rule in_set_takeD)
    then obtain q where "q \<in> set rows" and e: "e = claimed_of q" by auto
    then obtain q' where "q' \<in> set (domain_events ?s1)" "claimed_of q' = claimed_of q"
      using claimed_rows [OF assms(2)] by blast
    then show "\<exists>q \<in> set (domain_events ?s1). e = claimed_of q" unfolding e by metis
  qed
  then show ?thesis by (rule during_delivered [OF del during_dispatch [OF during_start [OF del]]])
qed

text \<open>Once everything has been published, whatever is due is met.\<close>

lemma settled_met:
  assumes "delivered ty consumer ann due met s" and "all_settled now True s" and "due k s"
  shows "met k s"
proof (rule ccontr)
  assume "\<not> met k s"
  then obtain r where "r \<in> set (domain_events s)" "ev_published_at r = None"
    using deliveredD(2) [OF assms(1,3)] by blast
  then show False using assms(2) unfolding all_settled_def by blast
qed

end

end
