(* ===== verification/System_Delivery.thy ===== *)
theory System_Delivery
  imports System_Cascade Delivery
begin

text \<open>
  The two obligations of the composition layer as interpretations of \<open>reliable_delivery\<close>: a
  penalty window has to get its recovery plan, and a confirmed incident has to be consumed by the
  Penalty Engine. Both invariants survive every public operation of the modules.
\<close>

section \<open>The reactions only grow the outbox\<close>

interpretation grows_consumers: consumer_frame "grows s0" for s0
  by unfold_locales
    (simp_all add: keeps_grows_new_id keeps_grows_emit, simp_all add: grows_def)

lemma handler_grows:
  assumes "(c, h) \<in> set (regs_for build_consumer_registry (ce_type e))" and "h e s = Inr (u, s')"
  shows "grows s s'"
  by (rule grows_by_keeps [OF grows_consumers.handler [OF assms(1)] assms(2)])

lemma regs_for_started:
  "regs_for build_consumer_registry ''penalty_window.started'' = [(''recovery_plan'', on_penalty_window_started)]"
  by (simp add: build_consumer_registry_def regs_for_def)

lemma regs_for_confirmation: "regs_for build_consumer_registry ''incident.confirmation_changed''
    = [(''penalty_engine'', on_incident_confirmation_changed)]"
  by (simp add: build_consumer_registry_def regs_for_def)

section \<open>Every window gets its plan\<close>

definition has_window :: "uid \<Rightarrow> 'm penalty_db_scheme \<Rightarrow> bool" where
  "has_window k s \<longleftrightarrow> window_by_id k s \<noteq> None"

definition has_plan :: "uid \<Rightarrow> 'm recovery_db_scheme \<Rightarrow> bool" where
  "has_plan k s \<longleftrightarrow> get_recovery_plan_for_window k s \<noteq> None"

definition starts_window :: "payload \<Rightarrow> uid \<Rightarrow> bool" where
  "starts_window p k \<longleftrightarrow> map_of p ''penalty_window_id'' = Some (JId k) \<and>
     (case map_of p ''base_duration_hours'' of Some (JNum _) \<Rightarrow> True | _ \<Rightarrow> False)"

lemma has_window_iff: "has_window k s \<longleftrightarrow> k \<in> pw_id ` set (penalty_windows s)"
  by (auto simp: has_window_def window_by_id_def row_by_None)

lemma has_plan_iff: "has_plan k s \<longleftrightarrow> k \<in> rp_penalty_window_id ` set (recovery_plans s)"
  by (auto simp: has_plan_def get_recovery_plan_for_window_def row_by_None)

lemma update_where_image: "(\<And>r. k (f r) = k r) \<Longrightarrow> k ` set (update_where c f rs) = k ` set rs"
  by (metis list.set_map map_update_where)

interpretation window_consumers: consumer_frame "has_window k" for k
  by unfold_locales
    (auto simp: has_window_iff keeps_def tx_simps insert_event_def update_where_image)

interpretation plan_consumers: consumer_frame "has_plan k" for k
  by unfold_locales
    (auto simp: has_plan_iff keeps_def tx_simps insert_event_def update_where_image)

text \<open>Only the consumption of an incident opens a window, and it announces it.\<close>

interpretation no_window_credit: credit_tables "\<lambda>s. \<not> has_window k s" for k
  by unfold_locales (auto simp: has_window_iff keeps_def tx_simps insert_event_def update_where_image)

interpretation no_window_recovery: recovery_frame "\<lambda>s. \<not> has_window k s" for k
  by unfold_locales (auto simp: has_window_iff keeps_def tx_simps insert_event_def update_where_image)

lemma consume_window:
  assumes run: "consume_confirmed_incident_in_transaction i d g sev coop now base s = Inr (res, s1)"
    and k: "has_window k s1" "\<not> has_window k s"
  obtains w dec where "res = Some (w, dec, True)" and "pw_id w = k"
proof (cases rule: consume_cases [of i s d g sev coop now base])
  case again
  then show ?thesis using run k by simp
next
  case (fresh w started t)
  let ?dec = "decision_for i w g sev coop now t"
  have s1: "s1 = decided (consumption_of i w d g now) ?dec t"
    and res: "res = Some (w\<lparr>pw_extensions_hours := pw_extensions_hours w + ed_assigned_hours ?dec\<rparr>, ?dec, started)"
    using fresh(3) run by (simp_all add: Let_def)
  have k1: "has_window k t" using k(1) unfolding s1 has_window_iff decided_def
    by (simp add: update_where_image)
  have "started \<and> pw_id w = k"
  proof (cases "get_active_or_frozen_penalty_window s")
    case None
    then show ?thesis using fresh(2) k1 k(2)
      by (auto simp: open_or_start_window_def tx_bind_apply tx_simps has_window_iff new_window_def)
  next
    case (Some x)
    then show ?thesis using fresh(2) k1 k(2)
      by (auto simp: open_or_start_window_def tx_bind_apply tx_simps)
  qed
  then show ?thesis using that res by simp
qed

lemma consumption_events_windows:
  "consumption_events now res s = Inr (u, s') \<Longrightarrow> penalty_windows s' = penalty_windows (s :: 'm penalty_db_scheme)"
proof -
  assume run: "consumption_events now res s = Inr (u, s')"
  have e: "keeps (\<lambda>t. penalty_windows t = penalty_windows s) (emit ty src p now)" for ty src p
    by (simp add: keeps_def emit_emitted)
  have "keeps (\<lambda>t. penalty_windows t = penalty_windows s) (consumption_events now res)"
    unfolding consumption_events_def emit_consumption_events_def emit_started_def
      emit_decision_recorded_def case_prod_beta
    by (cases res) (simp_all add: keeps_return keeps_bind e)
  from keepsD [OF this refl run] show ?thesis .
qed

lemma started_announced:
  assumes run: "consumption_events now (Some (w, dec, True)) s = Inr (u, s')"
  shows "\<exists>r \<in> set (domain_events s'). next_id s \<le> ev_id r \<and> ev_published_at r = None
    \<and> announced ''penalty_window.started'' starts_window (pw_id w) r"
proof -
  let ?rest = "tx_bind (emit_decision_recorded dec now) (\<lambda>_. if ed_assigned_hours dec > 0
     then tx_bind (emit ''penalty_window.extended'' ''penalty_engine''
              [(''penalty_window_id'', JId (pw_id w)), (''assigned_hours'', JNum (ed_assigned_hours dec))] now)
          (\<lambda>_. emit ''penalty_window.target_duration_changed'' ''penalty_engine''
              [(''penalty_window_id'', JId (pw_id w)),
               (''new_target_active_hours'', JNum (pw_base_duration_hours w + pw_extensions_hours w))] now)
     else tx_return ())"
  obtain s1 where e: "emit_started w dec now s = Inr ((), s1)" and r: "?rest s1 = Inr (u, s')"
    using run by (auto simp: consumption_events_def emit_consumption_events_def tx_bind_eq_Inr)
  have "keeps (grows s0) ?rest" for s0
    unfolding emit_decision_recorded_def by (intro keeps_bind keeps_if keeps_return keeps_grows_emit)
  then have "grows s1 s'" using r by (rule grows_by_keeps)
  then have sub: "set (domain_events s1) \<subseteq> set (domain_events s')" by (auto simp: grows_def)
  obtain p where "domain_events s1 = domain_events s @ [event_row_of (next_id s)
      \<lparr>de_type = ''penalty_window.started'', de_source = ''penalty_engine'', de_payload = p, de_occurred_at = now\<rparr>]"
    and "starts_window p (pw_id w)"
    using e by (auto simp: emit_started_def emit_emitted starts_window_def)
  moreover from calculation have "event_row_of (next_id s) \<lparr>de_type = ''penalty_window.started'',
      de_source = ''penalty_engine'', de_payload = p, de_occurred_at = now\<rparr> \<in> set (domain_events s')"
    using sub by auto
  ultimately show ?thesis by (intro bexI) (simp_all add: announced_def)
qed

lemma consumption_grows: "consumption_events now res s = Inr (u, s') \<Longrightarrow> grows s s'"
proof -
  assume run: "consumption_events now res s = Inr (u, s')"
  have "keeps (grows s0) (consumption_events now res)" for s0
    unfolding consumption_events_def emit_consumption_events_def emit_started_def
      emit_decision_recorded_def case_prod_beta
    by (cases res) (simp_all add: keeps_return keeps_bind keeps_grows_emit)
  then show ?thesis using run by (rule grows_by_keeps)
qed

text \<open>A consumption together with its events, as the handler and the public operation run it.\<close>

lemma consumption_announces:
  assumes run: "consume_confirmed_incident_in_transaction i d g sev coop now base s = Inr (res, s1)"
    and ev: "consumption_events now res s1 = Inr (u, s')"
    and k: "has_window k s'" "\<not> has_window k (s :: 'm recovery_db_scheme)"
  shows "\<exists>r \<in> set (domain_events s'). next_id s \<le> ev_id r \<and> ev_published_at r = None
    \<and> announced ''penalty_window.started'' starts_window k r"
proof -
  have "has_window k s1" using k(1) consumption_events_windows [OF ev] by (simp add: has_window_iff)
  then obtain w dec where w: "res = Some (w, dec, True)" "pw_id w = k"
    using consume_window [OF run _ k(2)] by blast
  have "grows s s1"
    by (rule grows_by_keeps [OF grows_consumers.consume run])
  then have "next_id s \<le> next_id s1" by (simp add: grows_def)
  moreover obtain r where "r \<in> set (domain_events s')" "next_id s1 \<le> ev_id r" "ev_published_at r = None"
    "announced ''penalty_window.started'' starts_window k r"
    using started_announced [OF ev [unfolded w(1)]] w(2) by blast
  ultimately show ?thesis by (intro bexI [of _ r]) simp_all
qed

lemma handler_window:
  assumes reg: "(c, h) \<in> set (regs_for build_consumer_registry (ce_type e))" and run: "h e s = Inr (u, s')"
    and k: "has_window k s'" "\<not> has_window k (s :: 'm recovery_db_scheme)"
  shows "\<exists>r \<in> set (domain_events s'). next_id s \<le> ev_id r \<and> ev_published_at r = None
    \<and> announced ''penalty_window.started'' starts_window k r"
proof -
  have payload: "keeps (\<lambda>s. \<not> has_window k s) (payload_field conv e f)" for conv f
    unfolding payload_field_def by (intro keeps_bind keeps_lift)
  have silent: False if "keeps (\<lambda>s. \<not> has_window k s) (h e)"
    using keepsD [OF that k(2) run] k(1) by simp
  have mirrored: "keeps (\<lambda>s. \<not> has_window k s) (mirror_reaction st ty e)" for st ty
    unfolding mirror_reaction_def emit_recovery_plan_event_def
    by (intro keeps_bind payload no_window_recovery.keeps_mirror keeps_emit_if_plan keeps_return
        no_window_recovery.keeps_plan_event)
  from reg show ?thesis
  proof (cases rule: registered_cases)
    case confirmation_changed
    then obtain i d g sev coop res s1 where
      "consume_confirmed_incident_in_transaction i d g sev coop (ce_occurred_at e) default_base_duration_hours s
        = Inr (res, s1)" and "consumption_events (ce_occurred_at e) res s1 = Inr (u, s')"
      using run k
      by (auto simp: on_incident_confirmation_changed_def payload_field_def tx_success split: if_splits)
    then show ?thesis using k by (rule consumption_announces)
  next
    case started
    have "keeps (\<lambda>s. \<not> has_window k s) (h e)"
      unfolding started on_penalty_window_started_def emit_recovery_plan_event_def
      by (intro keeps_bind payload no_window_recovery.keeps_create no_window_recovery.keeps_plan_event)
    then show ?thesis using silent by blast
  next
    case target_changed
    have "keeps (\<lambda>s. \<not> has_window k s) (h e)"
      unfolding target_changed on_penalty_window_target_duration_changed_def
      by (intro keeps_bind payload no_window_recovery.keeps_regenerate keeps_emit_if_plan keeps_return
        no_window_recovery.keeps_regenerated_event)
    then show ?thesis using silent by blast
  next
    case task_completed
    have "keeps (\<lambda>s. \<not> has_window k s) (h e)"
      unfolding task_completed on_recovery_plan_task_completed_def emit_recovery_credit_event_def
      by (intro keeps_bind payload no_window_credit.keeps_credit no_window_recovery.emit)
    then show ?thesis using silent by blast
  qed (use silent mirrored in \<open>auto simp: on_penalty_window_frozen_def on_penalty_window_resumed_def
      on_penalty_window_completed_def\<close>)
qed

lemma started_success:
  assumes "starts_window (ce_payload e) k" and "on_penalty_window_started e s = Inr (u, s')"
  shows "has_plan k s'"
  using assms
  by (auto simp: starts_window_def on_penalty_window_started_def payload_field_def payload_item_def
      create_plan_in_transaction_def emit_recovery_plan_event_def emit_plan_event_def tx_success Let_def
      new_id_def emit_emitted has_plan_iff emitted_def insert_event_def
      split: option.splits json.splits)

lemma started_failure:
  assumes "starts_window (ce_payload e) k" and "has_window k s" and "on_penalty_window_started e s = Inl x"
  shows "has_plan k s"
  using assms
  by (auto simp: starts_window_def on_penalty_window_started_def payload_field_def payload_item_def
      create_plan_in_transaction_def emit_recovery_plan_event_def emit_plan_event_def tx_bind_apply
      tx_simps Let_def has_plan_def has_window_def get_recovery_plan_for_window_def window_by_id_def
      split: option.splits json.splits if_splits)

interpretation plan_delivery: reliable_delivery build_consumer_registry
  "''penalty_window.started''" "''recovery_plan''" on_penalty_window_started starts_window has_window has_plan
proof unfold_locales
  fix c and h :: "claimed_event \<Rightarrow> ('a recovery_db_scheme, unit) tx" and e :: claimed_event
    and s s' :: "'a recovery_db_scheme" and u k
  assume reg: "(c, h) \<in> set (regs_for build_consumer_registry (ce_type e))"
  show "keeps outbox_ok (h e)" "keeps (has_plan k) (h e)" "keeps (has_window k) (h e)"
    using reg by (rule outbox_consumers.handler plan_consumers.handler window_consumers.handler)+
  assume run: "h e s = Inr (u, s')"
  show "grows s s'" by (rule handler_grows [OF reg run])
  assume "has_window k s'" "\<not> has_window k s"
  then show "has_plan k s' \<or> (\<exists>r \<in> set (domain_events s'). next_id s \<le> ev_id r
      \<and> ev_published_at r = None \<and> announced ''penalty_window.started'' starts_window k r)"
    using handler_window [OF reg run] by blast
next
  fix e :: claimed_event and s s' :: "'a recovery_db_scheme" and u k x
  assume ann: "starts_window (ce_payload e) k"
  show "on_penalty_window_started e s = Inr (u, s') \<Longrightarrow> has_plan k s'" using ann by (rule started_success)
  show "has_window k s \<Longrightarrow> on_penalty_window_started e s = Inl x \<Longrightarrow> has_plan k s"
    using ann by (rule started_failure)
qed (simp_all add: regs_for_started has_plan_iff has_window_iff)

section \<open>Every confirmed incident is consumed\<close>

definition confirmed_incident :: "uid \<Rightarrow> 'm trust_db_scheme \<Rightarrow> bool" where
  "confirmed_incident k s \<longleftrightarrow> (\<exists>i \<in> set (incidents s). in_id i = k \<and> in_confirmation i = CONFIRMED)"

definition confirms_incident :: "payload \<Rightarrow> uid \<Rightarrow> bool" where
  "confirms_incident p k \<longleftrightarrow> map_of p ''incident_id'' = Some (JId k) \<and>
     map_of p ''new_confirmation'' = Some (JStr ''confirmed'') \<and>
     (case map_of p ''trust_domain'' of Some (JStr _) \<Rightarrow> True | _ \<Rightarrow> False) \<and>
     (case map_of p ''rule_group_id'' of Some (JStr _) \<Rightarrow> True | _ \<Rightarrow> False) \<and>
     (case map_of p ''intrinsic_severity'' of
        Some (JStr v) \<Rightarrow> (case severity_of_value v of Inr _ \<Rightarrow> True | Inl _ \<Rightarrow> False) | _ \<Rightarrow> False) \<and>
     (case map_of p ''cooperation_self_disclosed'' of Some (JBool _) \<Rightarrow> True | _ \<Rightarrow> False) \<and>
     (case map_of p ''cooperation_active_cooperation_in_resolution'' of Some (JBool _) \<Rightarrow> True | _ \<Rightarrow> False)"

interpretation confirmed_consumers: consumer_frame "confirmed_incident k" for k
  by unfold_locales (auto simp: confirmed_incident_def keeps_def tx_simps insert_event_def)

interpretation unconfirmed_consumers: consumer_frame "\<lambda>s. \<not> confirmed_incident k s" for k
  by unfold_locales (auto simp: confirmed_incident_def keeps_def tx_simps insert_event_def)

interpretation consumed_consumers: consumer_frame "consumed k" for k
  by unfold_locales (auto simp: consumed_def keeps_def tx_simps insert_event_def)

lemma consume_consumes:
  assumes "consume_confirmed_incident_in_transaction i d g sev coop now base s = Inr (res, s1)"
  shows "consumed i s1"
  using assms
  by (cases rule: consume_cases [of i s d g sev coop now base])
    (auto simp: Let_def consumed_def decided_def consumption_of_def)

lemma consume_returns:
  "\<exists>res s1. consume_confirmed_incident_in_transaction i d g sev coop now base s = Inr (res, s1)"
  by (cases rule: consume_cases [of i s d g sev coop now base]) (auto simp: Let_def)

lemma consumption_events_return: "\<exists>s'. consumption_events now res s = Inr ((), s')"
  by (auto simp: consumption_events_def emit_consumption_events_def emit_started_def
      emit_decision_recorded_def tx_bind_apply emit_emitted tx_return_apply split: option.split)

lemma confirmation_runs:
  assumes "confirms_incident (ce_payload e) k"
  obtains d g sev coop where "on_incident_confirmation_changed e s =
    tx_bind (consume_confirmed_incident_in_transaction k d g sev coop (ce_occurred_at e)
        default_base_duration_hours) (consumption_events (ce_occurred_at e)) s"
proof -
  obtain d g v sev b1 b2 where p: "map_of (ce_payload e) ''incident_id'' = Some (JId k)"
      "map_of (ce_payload e) ''new_confirmation'' = Some (JStr ''confirmed'')"
      "map_of (ce_payload e) ''trust_domain'' = Some (JStr d)"
      "map_of (ce_payload e) ''rule_group_id'' = Some (JStr g)"
      "map_of (ce_payload e) ''intrinsic_severity'' = Some (JStr v)" "severity_of_value v = Inr sev"
      "map_of (ce_payload e) ''cooperation_self_disclosed'' = Some (JBool b1)"
      "map_of (ce_payload e) ''cooperation_active_cooperation_in_resolution'' = Some (JBool b2)"
    using assms by (auto simp: confirms_incident_def split: option.splits json.splits sum.splits)
  show ?thesis
    by (rule that [of d g sev "\<lparr>self_disclosed = b1, active_cooperation_in_resolution = b2, cooperation_notes = None\<rparr>"])
      (simp add: on_incident_confirmation_changed_def p payload_field_def payload_item_def tx_simps)
qed

lemma confirmation_success:
  assumes "confirms_incident (ce_payload e) k" and "on_incident_confirmation_changed e s = Inr (u, s')"
  shows "consumed k (s' :: 'm recovery_db_scheme)"
proof -
  obtain d g sev coop where "on_incident_confirmation_changed e s =
    tx_bind (consume_confirmed_incident_in_transaction k d g sev coop (ce_occurred_at e)
        default_base_duration_hours) (consumption_events (ce_occurred_at e)) s"
    using confirmation_runs [OF assms(1)] by metis
  with assms(2) obtain res s1 where
    "consume_confirmed_incident_in_transaction k d g sev coop (ce_occurred_at e)
        default_base_duration_hours s = Inr (res, s1)"
    and ev: "consumption_events (ce_occurred_at e) res s1 = Inr (u, s')"
    by (auto simp: tx_bind_eq_Inr)
  then have "consumed k s1" by (intro consume_consumes)
  then show ?thesis by (rule keepsD [OF consumed_consumers.consumption_events _ ev])
qed

lemma confirmation_never_fails:
  assumes "confirms_incident (ce_payload e) k"
  shows "on_incident_confirmation_changed e s \<noteq> Inl x"
proof -
  obtain d g sev coop where run: "on_incident_confirmation_changed e s =
    tx_bind (consume_confirmed_incident_in_transaction k d g sev coop (ce_occurred_at e)
        default_base_duration_hours) (consumption_events (ce_occurred_at e)) s"
    using confirmation_runs [OF assms] by metis
  obtain res s1 where "consume_confirmed_incident_in_transaction k d g sev coop (ce_occurred_at e)
      default_base_duration_hours s = Inr (res, s1)"
    using consume_returns by blast
  moreover obtain s' where "consumption_events (ce_occurred_at e) res s1 = Inr ((), s')"
    using consumption_events_return by blast
  ultimately show ?thesis by (simp add: run tx_bind_apply)
qed

interpretation incident_delivery: reliable_delivery build_consumer_registry
  "''incident.confirmation_changed''" "''penalty_engine''" on_incident_confirmation_changed
  confirms_incident confirmed_incident consumed
proof unfold_locales
  fix c and h :: "claimed_event \<Rightarrow> ('a recovery_db_scheme, unit) tx" and e :: claimed_event
    and s s' :: "'a recovery_db_scheme" and u k
  assume reg: "(c, h) \<in> set (regs_for build_consumer_registry (ce_type e))"
  show "keeps outbox_ok (h e)" "keeps (consumed k) (h e)" "keeps (confirmed_incident k) (h e)"
    using reg by (rule outbox_consumers.handler consumed_consumers.handler confirmed_consumers.handler)+
  assume run: "h e s = Inr (u, s')"
  show "grows s s'" by (rule handler_grows [OF reg run])
  assume "confirmed_incident k s'" "\<not> confirmed_incident k s"
  then show "consumed k s' \<or> (\<exists>r \<in> set (domain_events s'). next_id s \<le> ev_id r
      \<and> ev_published_at r = None \<and> announced ''incident.confirmation_changed'' confirms_incident k r)"
    using keepsD [OF unconfirmed_consumers.handler [OF reg] _ run] by blast
next
  fix e :: claimed_event and s s' :: "'a recovery_db_scheme" and u k x
  assume ann: "confirms_incident (ce_payload e) k"
  show "on_incident_confirmation_changed e s = Inr (u, s') \<Longrightarrow> consumed k s'"
    using ann by (rule confirmation_success)
  show "on_incident_confirmation_changed e s = Inl x \<Longrightarrow> consumed k s"
    using confirmation_never_fails [OF ann] by blast
qed (simp_all add: regs_for_confirmation consumed_def confirmed_incident_def)

end
