(* ===== verification/System_Promises.thy ===== *)
theory System_Promises
  imports System_Delivery
begin

text \<open>
  The two obligations survive the public operations: everything that opens a window announces it,
  everything that confirms an incident announces it, and nothing takes a plan or a consumption
  back. The frames of the modules carry most operations; the consumption of an incident and the
  confirmation are proved on their closed forms.
\<close>

section \<open>Plans for windows\<close>

definition plan_promise :: "'m recovery_db_scheme \<Rightarrow> bool" where
  "plan_promise = delivered ''penalty_window.started'' ''recovery_plan'' starts_window has_window has_plan"

lemma outbox_ok_same:
  assumes "outbox_ok s" and "next_id s \<le> next_id s'" and "domain_events s' = domain_events s"
    and "event_consumers s' = event_consumers s"
  shows "outbox_ok s'"
  using assms by (fastforce simp: outbox_ok_def)

lemma plan_promise_same:
  fixes s s' :: "'m recovery_db_scheme"
  assumes "plan_promise s" and "next_id s \<le> next_id s'" and "domain_events s' = domain_events s"
    and "event_consumers s' = event_consumers s"
    and "pw_id ` set (penalty_windows s') \<subseteq> pw_id ` set (penalty_windows s)"
    and "rp_penalty_window_id ` set (recovery_plans s) \<subseteq> rp_penalty_window_id ` set (recovery_plans s')"
  shows "plan_promise s'"
  unfolding plan_promise_def
  by (rule delivered_same [OF assms(1) [unfolded plan_promise_def]])
    (use assms outbox_ok_same [of s s'] deliveredD(1) [OF assms(1) [unfolded plan_promise_def]]
     in \<open>auto simp: has_window_iff has_plan_iff\<close>)

lemma keeps_plan_new_id: "keeps plan_promise new_id"
  by (rule keepsI) (auto simp: tx_simps elim: plan_promise_same)

lemma keeps_plan_emit: "keeps plan_promise (emit ty src p now)"
proof (rule keepsI)
  fix s s' :: "'a recovery_db_scheme" and u
  assume P: "plan_promise s" and run: "emit ty src p now s = Inr (u, s')"
  have "outbox_ok s'" using keeps_outbox_emit deliveredD(1) [OF P [unfolded plan_promise_def]] run by (rule keepsD)
  moreover have "grows s s'" using run grows_emitted by (auto simp: tx_simps)
  ultimately show "plan_promise s'" unfolding plan_promise_def
    by (rule delivered_grows [OF P [unfolded plan_promise_def]])
      (use run in \<open>auto simp: emit_emitted has_window_iff has_plan_iff emitted_def insert_event_def\<close>)
qed

interpretation plan_trust: trust_frame plan_promise
  by unfold_locales
    (simp_all add: keeps_plan_new_id keeps_plan_emit, (erule plan_promise_same, simp_all)+)

interpretation plan_window: window_frame plan_promise
  by unfold_locales
    (simp_all add: keeps_plan_new_id keeps_plan_emit,
     (erule plan_promise_same, simp_all add: update_where_image)+)

interpretation plan_credit: credit_tables plan_promise
  by unfold_locales (erule plan_promise_same, simp_all)+

interpretation plan_recovery: recovery_frame plan_promise
  by unfold_locales
    (simp_all add: keeps_plan_new_id keeps_plan_emit,
     (erule plan_promise_same, auto simp: update_where_image)+)

interpretation plan_goal: goal_frame plan_promise
  by unfold_locales
    (simp_all add: keeps_plan_new_id keeps_plan_emit, (erule plan_promise_same, simp_all)+)

interpretation plan_mode: mode_frame plan_promise
  by unfold_locales
    (simp_all add: keeps_plan_new_id, (erule plan_promise_same, simp_all)+)

lemma keeps_plan_consumption:
  fixes i d g sev coop now base
  defines "m \<equiv> consume_confirmed_incident_in_transaction i d g sev coop now base"
  shows "keeps plan_promise (tx_bind m (\<lambda>r. tx_bind (consumption_events now r) (\<lambda>_. tx_return r)))"
proof (rule keepsI)
  fix s s' :: "'a recovery_db_scheme" and a
  assume P: "plan_promise s"
    and "tx_bind m (\<lambda>r. tx_bind (consumption_events now r) (\<lambda>_. tx_return r)) s = Inr (a, s')"
  then obtain s1 where run: "consume_confirmed_incident_in_transaction i d g sev coop now base s = Inr (a, s1)"
    and ev: "consumption_events now a s1 = Inr ((), s')"
    by (auto simp: m_def tx_success)
  note del = P [unfolded plan_promise_def]
  have "grows s s'" using grows_by_keeps [OF grows_consumers.consume run] consumption_grows [OF ev]
    by (rule grows_trans)
  moreover have "outbox_ok s'"
    using keepsD [OF outbox_consumers.consumption_events
        keepsD [OF outbox_consumers.consume deliveredD(1) [OF del] run] ev] .
  moreover have "has_plan k s'" if "has_plan k s" for k
    using keepsD [OF plan_consumers.consumption_events keepsD [OF plan_consumers.consume that run] ev] .
  ultimately show "plan_promise s'" unfolding plan_promise_def
    using consumption_announces [OF run ev]
    by (intro delivered_grows [OF del]) blast+
qed

lemma plan_consume: "op_keeps plan_promise (consume_confirmed_incident i d g sev coop now base)"
  unfolding consume_confirmed_incident_def transition_eq
  by (intro op_keeps_bind op_keeps_return op_keeps_atomically keeps_plan_consumption)

lemma plan_start: "op_keeps plan_promise (start_window_if_eligible gs ga base now)"
  by (rule op_keeps_start) (rule plan_consume)

section \<open>Consumption of confirmed incidents\<close>

definition incident_promise :: "'m recovery_db_scheme \<Rightarrow> bool" where
  "incident_promise = delivered ''incident.confirmation_changed'' ''penalty_engine'' confirms_incident
     confirmed_incident consumed"

lemma incident_promise_same:
  fixes s s' :: "'m recovery_db_scheme"
  assumes "incident_promise s" and "next_id s \<le> next_id s'" and "domain_events s' = domain_events s"
    and "event_consumers s' = event_consumers s"
    and "\<And>k. confirmed_incident k s' \<Longrightarrow> confirmed_incident k s"
    and "ic_incident_id ` set (incident_consumption s) \<subseteq> ic_incident_id ` set (incident_consumption s')"
  shows "incident_promise s'"
  unfolding incident_promise_def
  by (rule delivered_same [OF assms(1) [unfolded incident_promise_def]])
    (use assms outbox_ok_same [of s s'] deliveredD(1) [OF assms(1) [unfolded incident_promise_def]]
     in \<open>auto simp: consumed_def\<close>)

lemma keeps_incident_new_id: "keeps incident_promise new_id"
  by (rule keepsI) (auto simp: tx_simps confirmed_incident_def elim: incident_promise_same)

lemma keeps_incident_emit: "keeps incident_promise (emit ty src p now)"
proof (rule keepsI)
  fix s s' :: "'a recovery_db_scheme" and u
  assume P: "incident_promise s" and run: "emit ty src p now s = Inr (u, s')"
  have "outbox_ok s'"
    using keeps_outbox_emit deliveredD(1) [OF P [unfolded incident_promise_def]] run by (rule keepsD)
  moreover have "grows s s'" using run grows_emitted by (auto simp: tx_simps)
  ultimately show "incident_promise s'" unfolding incident_promise_def
    by (rule delivered_grows [OF P [unfolded incident_promise_def]])
      (use run in \<open>auto simp: emit_emitted confirmed_incident_def consumed_def emitted_def insert_event_def\<close>)
qed

interpretation incident_scores: trust_scores incident_promise
  by unfold_locales
    (simp_all add: keeps_incident_new_id keeps_incident_emit,
     (erule incident_promise_same, simp_all add: confirmed_incident_def)+)

interpretation incident_penalty: penalty_frame incident_promise
  by unfold_locales
    (simp_all add: keeps_incident_new_id keeps_incident_emit,
     (erule incident_promise_same, auto simp: confirmed_incident_def)+)

interpretation incident_recovery: recovery_frame incident_promise
  by unfold_locales
    (simp_all add: keeps_incident_new_id keeps_incident_emit,
     (erule incident_promise_same, simp_all add: confirmed_incident_def)+)

interpretation incident_goal: goal_frame incident_promise
  by unfold_locales
    (simp_all add: keeps_incident_new_id keeps_incident_emit,
     (erule incident_promise_same, simp_all add: confirmed_incident_def)+)

interpretation incident_mode: mode_frame incident_promise
  by unfold_locales
    (simp_all add: keeps_incident_new_id,
     (erule incident_promise_same, simp_all add: confirmed_incident_def)+)

interpretation grows_trust: trust_frame "grows s0" for s0
  by unfold_locales (simp_all add: keeps_grows_new_id keeps_grows_emit, simp_all add: grows_def)

interpretation consumed_trust: trust_frame "consumed k" for k
  by unfold_locales (auto simp: consumed_def keeps_def tx_simps insert_event_def)

lemma incident_report: "op_keeps incident_promise (register_incident_report g d descr ev now)"
  unfolding register_incident_report_def Let_def
  by (intro op_keeps_transition keeps_incident_emit keepsI)
    (auto simp: tx_success new_id_def confirmed_incident_def elim!: incident_promise_same)

lemma confirmed_after_downgrade:
  assumes "confirmed_incident k (recorded inc new source descr now s)" and "new \<noteq> CONFIRMED"
  shows "confirmed_incident k s"
  using assms
  by (auto simp: confirmed_incident_def recorded_def set_confirmation_def set_update_where)

lemma confirmed_after_confirmation:
  assumes "confirmed_incident k (confirmed_state inc source descr c now st s)"
  shows "k = in_id inc \<or> confirmed_incident k s"
  using assms
  by (auto simp: confirmed_incident_def confirmed_state_def assessed_and_recorded_def Let_def recorded_def
      set_confirmation_def elim!: in_update_whereE)

lemma confirmation_announced:
  "\<exists>r \<in> set (domain_events (confirmed_state inc source descr c now st s)). ev_published_at r = None
    \<and> announced ''incident.confirmation_changed'' confirms_incident (in_id inc) r"
  by (simp add: confirmed_state_def Let_def announced_def confirms_incident_def
      confirmation_changed_payload_def confirmation_row_of_def)

lemma incident_confirm:
  fixes s :: "'m recovery_db_scheme"
  assumes inv: "trust_inv s" and P: "incident_promise s"
  shows "incident_promise (snd (confirm_incident i new source descr c now s))"
proof (cases "row_by in_id i (incidents s)")
  case None
  then show ?thesis using P by (simp add: confirm_incident_unknown)
next
  case (Some inc)
  note tok = trust_invD(1) [OF inv] and del = P [unfolded incident_promise_def]
  let ?s = "snd (confirm_incident i new source descr c now s)"
  have grows: "grows s ?s" using op_keepsD [OF grows_trust.confirm grows_refl] .
  have ok: "outbox_ok ?s" using op_keepsD [OF outbox_below_trust.confirm deliveredD(1) [OF del]] .
  have met: "consumed k ?s" if "consumed k s" for k using op_keepsD [OF consumed_trust.confirm that] .
  have due: "confirmed_incident k s \<or> (\<exists>r \<in> set (domain_events ?s). ev_published_at r = None
      \<and> announced ''incident.confirmation_changed'' confirms_incident k r)"
    if k: "confirmed_incident k ?s" for k
  proof (cases "new = CONFIRMED")
    case False
    have "confirmed_incident k (recorded inc new source descr now s)"
      using k by (simp add: confirm_incident_downgrade [OF Some False] confirmed_incident_def)
    then show ?thesis using confirmed_after_downgrade False by blast
  next
    case True
    obtain st where st: "get_domain_state (in_trust_domain inc) s = Some st"
      using domain_state_exists [OF tok] incident_row_okD(4) [OF tok Some] by blast
    show ?thesis
    proof (cases "in_assessment inc = None")
      case None: True
      have s': "?s = confirmed_state inc source descr (or_default c default_cooperation) now st s"
        unfolding True by (simp add: confirm_incident_eq [OF inv Some None st])
      have "k = in_id inc \<or> confirmed_incident k s"
        using k unfolding s' by (rule confirmed_after_confirmation)
      then show ?thesis unfolding s' using confirmation_announced by blast
    next
      case False
      then show ?thesis using k unfolding True by (simp add: confirm_incident_again [OF tok Some])
    qed
  qed
  show ?thesis unfolding incident_promise_def
    by (rule delivered_grows [OF del ok grows met]) (use due in blast)+
qed

section \<open>Credits, the publisher and the lease\<close>

lemma plan_record: "op_keeps plan_promise (record_recovery_credit_from_task_completion k now)"
  by (rule credit_keeps) (rule plan_credit.keeps_credit keeps_plan_emit)+

lemma incident_record: "op_keeps incident_promise (record_recovery_credit_from_task_completion k now)"
  by (rule credit_keeps) (rule incident_penalty.keeps_credit keeps_incident_emit)+

lemma plan_publish: "op_keeps plan_promise (process_pending_events build_consumer_registry now)"
  unfolding plan_promise_def by (rule op_keepsI) (rule plan_delivery.process_delivered)

lemma incident_publish: "op_keeps incident_promise (process_pending_events build_consumer_registry now)"
  unfolding incident_promise_def by (rule op_keepsI) (rule incident_delivery.process_delivered)

lemma plan_acquire: "op_keeps plan_promise (acquire_system_startup_lease p now d)"
  by (rule op_keepsI) (auto simp: acquire_eq elim: plan_promise_same)

lemma incident_acquire: "op_keeps incident_promise (acquire_system_startup_lease p now d)"
  by (rule op_keepsI) (auto simp: acquire_eq confirmed_incident_def elim: incident_promise_same)

lemma plan_release: "op_keeps plan_promise (release_system_startup_lease l)"
  by (rule op_keepsI) (auto simp: release_eq elim: plan_promise_same)

lemma incident_release: "op_keeps incident_promise (release_system_startup_lease l)"
  by (rule op_keepsI) (auto simp: release_eq confirmed_incident_def elim: incident_promise_same)

end
