(* ===== verification/System_Run.thy ===== *)
theory System_Run
  imports System_Promises "HOL-Library.Sublist"
begin

text \<open>
  Runs of the system: every public operation of the modules, the publisher, the startup sequence,
  and a publisher that stops in the middle of a batch, in any order and with any arguments. The
  invariant of a reachable database is the conjunction of the invariants of the components and the
  two promises of the composition layer.
\<close>

section \<open>Steps\<close>

text \<open>The database the migrations leave behind.\<close>

definition fresh_db :: "time \<Rightarrow> mode_db" where
  "fresh_db t = \<lparr>next_id = 0, domain_events = [], event_consumers = [], system_startup_lease = None,
     trust_domains = [], trust_domain_state = [], incidents = [], confirmation_records = [],
     trust_evidence = [], trust_recalculations = [], trust_recalculation_evidence = [],
     penalty_windows = [], freeze_periods = [], incident_consumption = [], extension_decisions = [],
     recovery_credit_decisions = [], recovery_credit_ledger = [],
     recovery_plans = [], recovery_tasks = [], recovery_task_completions = [],
     goals = [], goal_versions = [], goal_evidence_rows = [], goal_evaluations = [],
     goal_change_proposals = [], goal_change_proposal_contents = [],
     operating_mode_row = \<lparr>current_mode = STANDARD, mode_activated_at = t\<rparr>,
     mode_transition_requests = []\<rparr>"

text \<open>
  A publisher that claimed a batch, ran the handlers of its first \<open>j\<close> events and then died: the
  rest of its batch stays claimed until the lease of the claim has expired.
\<close>

definition interrupted_publisher ::
  "nat \<Rightarrow> nat \<Rightarrow> time \<Rightarrow> time \<Rightarrow> 'm recovery_db_scheme \<Rightarrow> 'm recovery_db_scheme" where
  "interrupted_publisher j n lease now s =
     (let rows = claim_batch n now (domain_events s)
      in snd (dispatch_all build_consumer_registry (take j (map claimed_of rows)) now
           (set_claimed (map ev_id rows) now (now + lease) s)))"

inductive system_step :: "'m mode_db_scheme \<Rightarrow> 'm mode_db_scheme \<Rightarrow> bool" where
  step_create_domain: "system_step s (snd (create_domain d nm ds via now so co s))"
| step_deactivate_domain: "system_step s (snd (deactivate_domain d via now s))"
| step_reactivate_domain: "system_step s (snd (reactivate_domain d via now s))"
| step_recalculate_domain_trust: "system_step s (snd (recalculate_domain_trust d trig now s))"
| step_register_incident_report: "system_step s (snd (register_incident_report g d descr ev now s))"
| step_confirm_incident: "system_step s (snd (confirm_incident i new src descr coop now s))"
| step_recover_trust_manager_state: "system_step s (snd (recover_trust_manager_state now s))"
| step_consume_confirmed_incident:
    "system_step s (snd (consume_confirmed_incident i d g sev c now base s))"
| step_start_window_if_eligible:
    "system_step s (snd (start_window_if_eligible get_confirmed_incidents_since get_incident_assessment base now s))"
| step_freeze_window: "system_step s (snd (freeze_window i reason now ex au xp s))"
| step_emergency_freeze: "system_step s (snd (emergency_freeze i now s))"
| step_resume: "system_step s (snd (resume i reason now s))"
| step_ensure_current_state: "system_step s (snd (ensure_current_state now s))"
| step_recover_penalty_window_state: "system_step s (snd (recover_penalty_window_state now s))"
| step_record_recovery_credit_from_task_completion:
    "system_step s (snd (record_recovery_credit_from_task_completion k now s))"
| step_create_plan: "system_step s (snd (create_plan w base now s))"
| step_mirror_status_and_emit: "system_step s (snd (mirror_status_and_emit w status ty now s))"
| step_regenerate: "system_step s (snd (regenerate w x now s))"
| step_propose_task: "system_step s (snd (propose_task p ti de h now s))"
| step_accept_task: "system_step s (snd (accept_task i now s))"
| step_withdraw_task: "system_step s (snd (withdraw_task i now s))"
| step_complete_task: "system_step s (snd (complete_task i now notes s))"
| step_create_goal: "system_step s (snd (create_goal ti de dm via now s))"
| step_pause_goal: "system_step s (snd (pause_goal i r now s))"
| step_resume_goal: "system_step s (snd (resume_goal i now s))"
| step_complete_goal: "system_step s (snd (complete_goal i r now s))"
| step_archive_goal: "system_step s (snd (archive_goal i now s))"
| step_record_evidence: "system_step s (snd (record_evidence gid vid x y oc pr src now s))"
| step_record_evaluation: "system_step s (snd (record_evaluation gid es fi iv de now s))"
| step_create_change_proposal:
    "system_step s (snd (create_change_proposal gid ch re x ev ti de rep now s))"
| step_accept_proposal: "system_step s (snd (accept_proposal i now s))"
| step_decline_proposal: "system_step s (snd (decline_proposal i now s))"
| step_recover_goal_management_state: "system_step s (snd (recover_goal_management_state now s))"
| step_advance_transition_state:
    "system_step s (snd (advance_transition_state get_active_or_frozen_penalty_window now s))"
| step_request_transition:
    "system_step s (snd (request_transition get_active_or_frozen_penalty_window target consent now s))"
| step_cancel_request: "system_step s (snd (cancel_request i now s))"
| step_confirm_transition:
    "system_step s (snd (confirm_transition i get_active_or_frozen_penalty_window consent now s))"
| step_process_pending_events:
    "system_step s (snd (process_pending_events build_consumer_registry now s))"
| step_acquire_system_startup_lease:
    "system_step s (snd (acquire_system_startup_lease p now dur s))"
| step_release_system_startup_lease: "system_step s (snd (release_system_startup_lease l s))"
| step_on_system_startup: "system_step s (snd (on_system_startup p now s))"
| step_interrupted: "system_step s (interrupted_publisher j n lease now s)"

inductive reachable :: "mode_db \<Rightarrow> bool" where
  initially: "reachable (fresh_db t)"
| next_step: "reachable s \<Longrightarrow> system_step s s' \<Longrightarrow> reachable s'"

section \<open>The invariant\<close>

definition run_ok :: "'m mode_db_scheme \<Rightarrow> bool" where
  "run_ok s \<longleftrightarrow> system_ok s \<and> plan_promise s \<and> incident_promise s"

lemma run_okD:
  assumes "run_ok s"
  shows "system_ok s" and "plan_promise s" and "incident_promise s"
    and "outbox_ok s" and "trust_inv s" and "penalty_ok s" and "recovery_ok s" and "goal_ok s" and "mode_ok s"
  using assms by (simp_all add: run_ok_def system_ok_def)

lemma run_keeps:
  assumes "op_keeps system_ok f" and "op_keeps plan_promise f" and "op_keeps incident_promise f"
  shows "op_keeps run_ok f"
  using assms unfolding op_keeps_def run_ok_def by blast

lemmas plan_operations = plan_trust.create plan_trust.deactivate plan_trust.reactivate plan_trust.recalculate
  plan_trust.report plan_trust.confirm plan_trust.recover plan_consume plan_start plan_window.window_operations
  plan_recovery.operations plan_goal.operations plan_mode.operations plan_record plan_publish plan_acquire
  plan_release

lemmas incident_operations = incident_scores.create incident_scores.deactivate incident_scores.reactivate
  incident_scores.recalculate incident_report incident_penalty.operations incident_recovery.operations
  incident_goal.operations incident_mode.operations incident_record incident_publish incident_acquire
  incident_release

lemma run_confirm: "op_keeps run_ok (confirm_incident i new src descr coop now)"
proof (rule op_keepsI)
  fix s :: "'a mode_db_scheme" assume ok: "run_ok s"
  show "run_ok (snd (confirm_incident i new src descr coop now s))"
    using op_keepsD [OF system_confirm run_okD(1) [OF ok]] op_keepsD [OF plan_trust.confirm run_okD(2) [OF ok]]
      incident_confirm [OF run_okD(5) [OF ok] run_okD(3) [OF ok]] by (simp add: run_ok_def)
qed

lemma run_recover_trust: "op_keeps run_ok (recover_trust_manager_state now)"
  by (rule op_keepsI) (simp add: recover_noop trust_invD run_okD)

lemma run_startup: "op_keeps run_ok (on_system_startup p now)"
proof -
  have "op_keeps run_ok (recover_penalty_window_state now)" "op_keeps run_ok (recover_goal_management_state now)"
    "op_keeps run_ok (process_pending_events build_consumer_registry now)"
    "op_keeps run_ok (acquire_system_startup_lease p now d)" "op_keeps run_ok (release_system_startup_lease l)"
    for d l
    by (rule run_keeps; rule system_keeps plan_operations incident_operations)+
  moreover have "op_keeps run_ok (recover_recovery_plan_state now)"
    unfolding recover_recovery_plan_state_def by (rule op_keeps_get)
  ultimately have "op_keeps run_ok (startup_sequence now)" and "op_keeps run_ok (acquire_system_startup_lease p now d)"
    and rel: "op_keeps run_ok (release_system_startup_lease l)" for d l
    unfolding startup_sequence_def by (auto intro!: op_keeps_bind op_keeps_return run_recover_trust)
  then have "op_keeps run_ok (op_finally (startup_sequence now) (release_system_startup_lease l))" for l
    by (intro op_keeps_finally)
  with \<open>\<And>d. op_keeps run_ok (acquire_system_startup_lease p now d)\<close> show ?thesis
    unfolding on_system_startup_def
    by (intro op_keeps_bind) (auto split: option.split intro: op_keeps_raise)
qed

lemma run_interrupted:
  assumes "run_ok s"
  shows "run_ok (interrupted_publisher j n lease now s)"
proof -
  have "system_ok (interrupted_publisher j n lease now s)"
    unfolding interrupted_publisher_def Let_def
    by (intro system_handlers.dispatch_all_keeps system_handlers.inv_claimed run_okD(1) assms)
  moreover have "plan_promise (interrupted_publisher j n lease now s)"
    using plan_delivery.interrupted_delivered [OF run_okD(2) [OF assms, unfolded plan_promise_def] refl]
    by (simp add: plan_promise_def interrupted_publisher_def Let_def)
  moreover have "incident_promise (interrupted_publisher j n lease now s)"
    using incident_delivery.interrupted_delivered [OF run_okD(3) [OF assms, unfolded incident_promise_def] refl]
    by (simp add: incident_promise_def interrupted_publisher_def Let_def)
  ultimately show ?thesis by (simp add: run_ok_def)
qed

lemma run_step:
  assumes "system_step s s'" and "run_ok s"
  shows "run_ok s'"
  using assms(1)
proof cases
  case step_confirm_incident
  then show ?thesis using op_keepsD [OF run_confirm assms(2)] by simp
next
  case step_recover_trust_manager_state
  then show ?thesis using op_keepsD [OF run_recover_trust assms(2)] by simp
next
  case step_on_system_startup
  then show ?thesis using op_keepsD [OF run_startup assms(2)] by simp
next
  case step_interrupted
  then show ?thesis using run_interrupted [OF assms(2)] by simp
qed (simp only:, rule op_keepsD [OF run_keeps assms(2)], rule system_keeps, rule plan_operations, rule incident_operations)+

lemma fresh_ok: "run_ok (fresh_db t)"
proof -
  have "outbox_ok (fresh_db t)" by (simp add: fresh_db_def outbox_ok_def)
  moreover have "trust_inv (fresh_db t)"
    by (simp add: fresh_db_def trust_inv_def trust_ok_defs audit_ok_def)
  moreover have "penalty_ok (fresh_db t)"
    by (simp add: fresh_db_def penalty_ok_defs open_authorizations_def)
  moreover have "recovery_ok (fresh_db t)" by (simp add: fresh_db_def recovery_ok_defs completed_task_keys_def)
  moreover have "goal_ok (fresh_db t)"
    by (simp add: fresh_db_def goal_ok_def goals_ok_def histories_ok_def replaced_ok_def replaced_ids_def proposals_ok_def)
  moreover have "mode_ok (fresh_db t)" by (simp add: fresh_db_def mode_ok_def requests_ok_def)
  moreover have "plan_promise (fresh_db t)"
    by (simp add: plan_promise_def delivered_def owed_def acted_on_def has_window_iff outbox_ok_def fresh_db_def)
  moreover have "incident_promise (fresh_db t)"
    by (simp add: incident_promise_def delivered_def owed_def acted_on_def confirmed_incident_def
        outbox_ok_def fresh_db_def)
  ultimately show ?thesis by (simp add: run_ok_def system_ok_def)
qed

lemma reachable_ok: "reachable s \<Longrightarrow> run_ok s"
  by (induction rule: reachable.induct) (rule fresh_ok, rule run_step)

section \<open>What no step of the system disturbs\<close>

text \<open>
  A property outside the tables of the Trust Manager, the Penalty Engine and the outbox, kept by the
  single operations of the other modules, survives every step but a confirmed change of the mode.
\<close>

locale kept_elsewhere = trust: trust_frame I + engine: penalty_frame I + infra: infrastructure_frame I
    + reacting: reactions I
  for I :: "'m mode_db_scheme \<Rightarrow> bool" +
  assumes propose_task: "op_keeps I (propose_task p ti de h now)"
    and accept_task: "op_keeps I (accept_task i now)"
    and withdraw_task: "op_keeps I (withdraw_task i now)"
    and complete_task: "op_keeps I (complete_task i now notes)"
    and create_goal: "op_keeps I (create_goal ti de dm via now)"
    and pause_goal: "op_keeps I (pause_goal i r now)"
    and resume_goal: "op_keeps I (resume_goal i now)"
    and complete_goal: "op_keeps I (complete_goal i r now)"
    and archive_goal: "op_keeps I (archive_goal i now)"
    and record_evidence: "op_keeps I (record_evidence gid vid x y oc pr src now)"
    and record_evaluation: "op_keeps I (record_evaluation gid es fi iv de now)"
    and propose_change: "op_keeps I (create_change_proposal gid ch re a ev ti' de' rep now)"
    and accept_proposal: "op_keeps I (accept_proposal i now)"
    and decline_proposal: "op_keeps I (decline_proposal i now)"
    and recover_goals: "op_keeps I (recover_goal_management_state now)"
    and advance_mode: "op_keeps I (advance_transition_state get_active_or_frozen_penalty_window now)"
    and request_mode: "op_keeps I (request_transition get_active_or_frozen_penalty_window target consent now)"
    and cancel_mode: "op_keeps I (cancel_request i now)"
begin

lemma create_plan: "op_keeps I (create_plan w x now)"
  unfolding create_plan_def emit_plan_event_def by (intro op_keeps_transition reacting.create reacting.emit)

lemma mirror_plan: "op_keeps I (mirror_status_and_emit w st ty now)"
  unfolding mirror_status_and_emit_def emit_plan_event_def
  by (intro op_keeps_transition reacting.mirror keeps_emit_if_plan keeps_return reacting.emit)

lemma regenerate_plan: "op_keeps I (regenerate w x now)"
  unfolding regenerate_def emit_regenerated_def
  by (intro op_keeps_transition reacting.regenerate keeps_emit_if_plan keeps_return reacting.emit)

lemma check_plans: "op_keeps I (recover_recovery_plan_state now)"
  unfolding recover_recovery_plan_state_def by (rule op_keeps_get)

lemma credit: "op_keeps I (record_recovery_credit_from_task_completion k now)"
  by (rule credit_keeps) (rule reacting.credit reacting.emit)+

end

sublocale kept_elsewhere \<subseteq> publisher: event_handlers build_consumer_registry I
  by unfold_locales (blast intro: reacting.handler infra.consumers infra.claimed infra.published)+

context kept_elsewhere
begin

lemma publish: "op_keeps I (process_pending_events build_consumer_registry now)"
  by (rule op_keepsI) (rule publisher.process_keeps)

lemma startup: "op_keeps I (on_system_startup p now)"
proof -
  have "op_keeps I (startup_sequence now)" unfolding startup_sequence_def
    by (intro op_keeps_bind op_keeps_return trust.recover engine.recover recover_goals check_plans publish)
  then have "op_keeps I (op_finally (startup_sequence now) (release_system_startup_lease l))" for l
    by (intro op_keeps_finally infra.release)
  then show ?thesis unfolding on_system_startup_def
    by (intro op_keeps_bind infra.acquire) (auto split: option.split intro: op_keeps_raise)
qed

lemma interrupted: "I s \<Longrightarrow> I (interrupted_publisher j n lease now s)"
  unfolding interrupted_publisher_def Let_def
  by (intro publisher.dispatch_all_keeps infra.claimed)

lemmas operations = trust.operations trust.create trust.deactivate trust.reactivate trust.recalculate
  engine.operations credit create_plan mirror_plan regenerate_plan propose_task accept_task withdraw_task
  complete_task create_goal pause_goal resume_goal complete_goal archive_goal record_evidence
  record_evaluation propose_change accept_proposal decline_proposal recover_goals advance_mode request_mode
  cancel_mode infra.acquire infra.release publish startup

lemma step_or_confirm:
  assumes "system_step s s'" and "I s"
  shows "I s' \<or> (\<exists>i consent now.
    s' = snd (confirm_transition i get_active_or_frozen_penalty_window consent now s))"
  using assms(1)
proof cases
  case step_confirm_transition
  then show ?thesis by blast
next
  case step_interrupted
  then show ?thesis using interrupted [OF assms(2)] by simp
qed (simp only:, rule disjI1, rule op_keepsD [where I = I], rule operations, rule assms(2))+

lemma step:
  assumes "system_step s s'" and "I s"
    and "\<And>i consent now. op_keeps I (confirm_transition i get_active_or_frozen_penalty_window consent now)"
  shows "I s'"
  using step_or_confirm [OF assms(1,2)] op_keepsD [OF assms(3,2)] by auto

end

text \<open>A property in all the frames survives every step.\<close>

locale system_frame = trust: trust_frame I + engine: penalty_frame I + plans: recovery_frame I
    + goals: goal_frame I + mode: mode_frame I + infra: infrastructure_frame I
  for I :: "'m mode_db_scheme \<Rightarrow> bool"

sublocale system_frame \<subseteq> consumers: consumer_frame I
  by unfold_locales

sublocale system_frame \<subseteq> kept: kept_elsewhere I
  by unfold_locales (rule plans.operations goals.operations mode.operations)+

context system_frame
begin

lemma step: "system_step s s' \<Longrightarrow> I s \<Longrightarrow> I s'"
  by (rule kept.step [OF _ _ mode.confirm])

end

text \<open>The audit tables are only ever appended to.\<close>

definition audit_extends :: "'m mode_db_scheme \<Rightarrow> 'm mode_db_scheme \<Rightarrow> bool" where
  "audit_extends s s' \<longleftrightarrow>
     prefix (confirmation_records s) (confirmation_records s') \<and>
     prefix (trust_evidence s) (trust_evidence s') \<and>
     prefix (trust_recalculation_evidence s) (trust_recalculation_evidence s') \<and>
     prefix (incident_consumption s) (incident_consumption s') \<and>
     prefix (extension_decisions s) (extension_decisions s') \<and>
     prefix (recovery_credit_decisions s) (recovery_credit_decisions s') \<and>
     prefix (recovery_credit_ledger s) (recovery_credit_ledger s') \<and>
     prefix (recovery_task_completions s) (recovery_task_completions s') \<and>
     prefix (goal_versions s) (goal_versions s') \<and>
     prefix (goal_evidence_rows s) (goal_evidence_rows s') \<and>
     prefix (goal_evaluations s) (goal_evaluations s') \<and>
     prefix (goal_change_proposal_contents s) (goal_change_proposal_contents s')"

interpretation audit: system_frame "audit_extends s0" for s0
  by unfold_locales (simp_all add: audit_extends_def keeps_def tx_simps insert_event_def)

lemma audit_extends_step: "system_step s s' \<Longrightarrow> audit_extends s s'"
  by (rule audit.step) (auto simp: audit_extends_def)

end
