(* ===== verification/Goal_Properties.thy ===== *)
theory Goal_Properties
  imports Goal_Facts
begin

text \<open>
  The properties of Goal Management: an accepted proposal applies exactly its recorded content,
  exactly once; every failing acceptance changes nothing; the startup step expires exactly the
  overdue proposals.
\<close>

section \<open>Acceptance on every branch\<close>

lemma load_pending_eq:
  "load_pending_proposal i s = (case get_change_proposal i s of
      None \<Rightarrow> Inl (GoalChangeProposalNotFoundError i)
    | Some p \<Rightarrow> if gp_status p = GP_PENDING then Inr (p, s)
        else Inl (InvalidProposalStateError i (proposal_status_value (gp_status p))))"
  by (simp add: load_pending_proposal_def tx_bind_apply tx_simps split: option.split)

definition resolved_payload :: "uid \<Rightarrow> uid \<Rightarrow> string \<Rightarrow> payload" where
  "resolved_payload i gid resolution = [(''goal_change_proposal_id'', JId i), (''goal_group_id'', JId gid),
     (''resolution'', JStr resolution)]"

lemma accept_eq:
  "accept_proposal i now s = (case get_change_proposal i s of
      None \<Rightarrow> (Inl (GoalChangeProposalNotFoundError i), s)
    | Some p \<Rightarrow> if gp_status p \<noteq> GP_PENDING
        then (Inl (InvalidProposalStateError i (proposal_status_value (gp_status p))), s)
        else (case apply_change (gp_proposed_change p) (gp_goal_group_id p)
                 (get_change_proposal_content i s) now (set_proposal_status i GP_ACCEPTED now s) of
                Inl e \<Rightarrow> (Inl e, s)
              | Inr (_, s') \<Rightarrow> (Inr (), emitted ''goal_change_proposal.resolved'' ''goal_management''
                  (resolved_payload i (gp_goal_group_id p) ''accepted'') now s')))"
  by (simp add: accept_proposal_def accept_proposal_write_def transition_eq op_bind_def op_return_def
      atomically_def tx_bind_apply load_pending_eq tx_get_apply tx_modify_apply tx_return_apply
      emit_resolved_def emit_emitted resolved_payload_def split: option.split sum.split)

lemma resolve_eq:
  "resolve_proposal_without_effect i st res now s = (case get_change_proposal i s of
      None \<Rightarrow> (Inl (GoalChangeProposalNotFoundError i), s)
    | Some p \<Rightarrow> if gp_status p \<noteq> GP_PENDING
        then (Inl (InvalidProposalStateError i (proposal_status_value (gp_status p))), s)
        else (Inr (), emitted ''goal_change_proposal.resolved'' ''goal_management''
                  (resolved_payload i (gp_goal_group_id p) res) now (set_proposal_status i st now s)))"
  by (simp add: resolve_proposal_without_effect_def transition_eq op_bind_def op_return_def
      atomically_def tx_bind_apply load_pending_eq tx_modify_apply tx_return_apply
      emit_resolved_def emit_emitted resolved_payload_def split: option.split)

lemma proposal_reads [simp]:
  "get_goal g (set_proposal_status i st now s) = get_goal g s"
  "get_goal_version v (set_proposal_status i st now s) = get_goal_version v s"
  "next_id (set_proposal_status i st now s) = next_id s"
  "goal_versions (set_proposal_status i st now s) = goal_versions s"
  "goals (set_proposal_status i st now s) = goals s"
  by (simp_all add: set_proposal_status_def get_goal_def get_goal_version_def)

lemma emitted_goal_reads [simp]:
  "get_goal g (emitted ty src p now s) = get_goal g s"
  "get_goal_version v (emitted ty src p now s) = get_goal_version v s"
  "get_change_proposal i (emitted ty src p now s) = get_change_proposal i s"
  "goal_versions (emitted ty src p now s) = goal_versions s"
  "goals (emitted ty src p now s) = goals s"
  "goal_change_proposals (emitted ty src p now s) = goal_change_proposals s"
  "goal_change_proposal_contents (emitted ty src p now s) = goal_change_proposal_contents s"
  by (simp_all add: emitted_def insert_event_def get_goal_def get_goal_version_def get_change_proposal_def)

lemma get_proposal_set_status:
  "get_change_proposal i (set_proposal_status j st now s) =
     map_option (\<lambda>p. if gp_id p = j then p\<lparr>gp_status := st, gp_resolved_at := Some now\<rparr> else p)
       (get_change_proposal i s)"
  unfolding get_change_proposal_def set_proposal_status_def by (simp, rule row_by_update_where) simp

lemma get_change_proposalD: "get_change_proposal i s = Some p \<Longrightarrow> p \<in> set (goal_change_proposals s) \<and> gp_id p = i"
  unfolding get_change_proposal_def by (rule row_by_SomeD)

lemma proposal_has_content:
  assumes ok: "goal_ok s" and p: "get_change_proposal i s = Some p"
  obtains c where "get_change_proposal_content i s = Some c"
proof -
  have "map gc_proposal_id (goal_change_proposal_contents s) = map gp_id (goal_change_proposals s)"
    using goal_okD(2) [OF ok] by (simp add: proposals_ok_def)
  then have "gc_proposal_id ` set (goal_change_proposal_contents s) = gp_id ` set (goal_change_proposals s)"
    by (metis list.set_map)
  moreover have "i \<in> gp_id ` set (goal_change_proposals s)" using get_change_proposalD [OF p] by auto
  ultimately have "i \<in> gc_proposal_id ` set (goal_change_proposal_contents s)" by simp
  then have "get_change_proposal_content i s \<noteq> None"
    by (auto simp: get_change_proposal_content_def row_by_None)
  then show ?thesis using that by auto
qed

lemma goal_has_version:
  assumes ok: "goal_ok s" and g: "get_goal i s = Some g"
  obtains v where "get_goal_version (go_current_version_id g) s = Some v" and "gv_goal_group_id v = i"
proof -
  have h: "histories_ok (next_id s) (goals s) (goal_versions s)" using goal_okD(1) [OF ok] by (simp add: goals_ok_def)
  have fits: "goal_fits (goal_versions s) g" using histories_okD(4) [OF h] get_goalD [OF g] by blast
  let ?v = "last (history (go_group_id g) (goal_versions s))"
  have v: "?v \<in> set (history (go_group_id g) (goal_versions s))" "gv_id ?v = go_current_version_id g"
    using fits by (auto simp: goal_fits_def)
  then have "row_by gv_id (gv_id ?v) (goal_versions s) = Some ?v"
    using histories_okD(2) [OF h] by (intro row_by_unique) (auto simp: history_def)
  moreover have "gv_goal_group_id ?v = i" using v(1) get_goalD [OF g] by (simp add: history_def)
  ultimately show ?thesis using that v(2) by (simp add: get_goal_version_def)
qed

lemma resolved_again:
  assumes "get_change_proposal i s = Some p" and "gp_status p \<noteq> GP_PENDING"
  shows "accept_proposal i later s = (Inl (InvalidProposalStateError i (proposal_status_value (gp_status p))), s)"
    and "decline_proposal i later s = (Inl (InvalidProposalStateError i (proposal_status_value (gp_status p))), s)"
  using assms by (simp_all add: accept_eq decline_proposal_def resolve_eq)

section \<open>A sample goal with a proposal\<close>

definition sample_version :: goal_version where
  "sample_version = \<lparr>gv_id = 0, gv_goal_group_id = 1, gv_version = 1, gv_title = ''Read'',
     gv_target_description = ''daily'', gv_trust_domain = ''growth'', gv_created_at = 0,
     gv_created_via = ''user'', gv_adaptation_reason = None, gv_supersedes_id = None\<rparr>"

definition sample_goal :: goal where
  "sample_goal = \<lparr>go_group_id = 1, go_current_version_id = 0, go_status = GS_ACTIVE, go_created_at = 0,
     go_status_changed_at = 0, go_replaces_group_id = None, go_archived_at = None\<rparr>"

definition sample_proposal :: "goal_intervention_type \<Rightarrow> goal_change_proposal" where
  "sample_proposal ch = \<lparr>gp_id = 2, gp_evaluation_id = None, gp_goal_group_id = 1, gp_proposed_change = ch,
     gp_expires_at = 5, gp_status = GP_PENDING, gp_created_at = 0, gp_resolved_at = None\<rparr>"

definition sample_content :: goal_change_proposal_content where
  "sample_content = \<lparr>gc_id = 3, gc_proposal_id = 2, gc_proposed_title = Some ''Read more'',
     gc_proposed_target_description = None, gc_proposed_replacement_goal_group_id = None,
     gc_reason = ''too easy''\<rparr>"

definition goal_sample :: "goal_intervention_type \<Rightarrow> goal_db" where
  "goal_sample ch = \<lparr>next_id = 4, domain_events = [], event_consumers = [],
     system_startup_lease = None, trust_domains = [], trust_domain_state = [], incidents = [],
     confirmation_records = [], trust_evidence = [], trust_recalculations = [],
     trust_recalculation_evidence = [], penalty_windows = [], freeze_periods = [],
     incident_consumption = [], extension_decisions = [], recovery_credit_decisions = [],
     recovery_credit_ledger = [], recovery_plans = [], recovery_tasks = [],
     recovery_task_completions = [], goals = [sample_goal], goal_versions = [sample_version],
     goal_evidence_rows = [], goal_evaluations = [], goal_change_proposals = [sample_proposal ch],
     goal_change_proposal_contents = [sample_content]\<rparr>"

lemma goal_sample_rows:
  "goal_ok (goal_sample ch)"
  "get_change_proposal 2 (goal_sample ch) = Some (sample_proposal ch)"
  "get_change_proposal_content 2 (goal_sample ch) = Some sample_content"
  "get_goal 1 (goal_sample ch) = Some sample_goal"
  "get_goal_version 0 (goal_sample ch) = Some sample_version"
  by (simp_all add: goal_sample_def sample_goal_def sample_version_def sample_proposal_def sample_content_def
      goal_ok_def goals_ok_def histories_ok_def goal_fits_def history_def replaced_ok_def replaced_ids_def
      proposals_ok_def proposal_fits_def get_change_proposal_def get_change_proposal_content_def
      get_goal_def get_goal_version_def)

section \<open>Adaptation and replacement\<close>

text \<open>
  Accepting a pending ADAPT_TARGET proposal of an active goal (GOAL-5, GOAL-6) appends one version
  whose texts are the recorded content (an absent or empty text keeps the current one), numbered one
  higher and superseding the current version, makes it current and resolves the proposal; nothing else
  of the goal changes, and accepting or declining the proposal again raises and changes nothing. The
  expiry of the proposal plays no role.
\<close>

theorem accept_adaptation_once:
  assumes ok: "goal_ok s" and p: "get_change_proposal i s = Some p" and pending: "gp_status p = GP_PENDING"
    and change: "gp_proposed_change p = ADAPT_TARGET"
    and g: "get_goal (gp_goal_group_id p) s = Some g" and active: "go_status g = GS_ACTIVE"
  shows "\<exists>c cur s'. accept_proposal i now s = (Inr (), s')
    \<and> get_change_proposal_content i s = Some c
    \<and> get_goal_version (go_current_version_id g) s = Some cur
    \<and> goal_versions s' = goal_versions s @ [adapted_version (next_id s) (gp_goal_group_id p) cur c now]
    \<and> get_goal (gp_goal_group_id p) s' = Some (g\<lparr>go_current_version_id := next_id s\<rparr>)
    \<and> (\<forall>k. k \<noteq> gp_goal_group_id p \<longrightarrow> get_goal k s' = get_goal k s)
    \<and> get_change_proposal i s' = Some (p\<lparr>gp_status := GP_ACCEPTED, gp_resolved_at := Some now\<rparr>)
    \<and> (\<forall>later. accept_proposal i later s' = (Inl (InvalidProposalStateError i ''accepted''), s')
         \<and> decline_proposal i later s' = (Inl (InvalidProposalStateError i ''accepted''), s'))"
proof -
  let ?gid = "gp_goal_group_id p" and ?s1 = "set_proposal_status i GP_ACCEPTED now s"
  obtain c where c: "get_change_proposal_content i s = Some c" using proposal_has_content [OF ok p] .
  obtain cur where cur: "get_goal_version (go_current_version_id g) s = Some cur" using goal_has_version [OF ok g] .
  let ?s2 = "emitted ''goal.adapted'' ''goal_management'' [(''goal_group_id'', JId ?gid),
      (''goal_version_id'', JId (next_id s)), (''reason'', JStr (gc_reason c))] now (adapted ?gid cur c now ?s1)"
  have "apply_adaptation_in_transaction ?gid (Some c) now ?s1 = Inr ((), ?s2)"
    by (subst apply_adaptation_Inr) (use g active cur in simp)
  then obtain s' where run: "accept_proposal i now s = (Inr (), s')"
      and s': "s' = emitted ''goal_change_proposal.resolved'' ''goal_management'' (resolved_payload i ?gid ''accepted'') now ?s2"
    using p pending change c by (simp add: accept_eq apply_change_def)
  have goal: "get_goal k s' = map_option (\<lambda>x. if go_group_id x = ?gid then x\<lparr>go_current_version_id := next_id s\<rparr> else x)
      (get_goal k s)" for k
    unfolding s' emitted_goal_reads unfolding get_goal_def adapted_def by (simp, rule row_by_update_where) simp
  have "get_goal k s' = get_goal k s" if "k \<noteq> ?gid" for k
    using that goal [of k] get_goalD [of k s] by (cases "get_goal k s") auto
  moreover have "get_change_proposal i s' = get_change_proposal i ?s1"
    unfolding s' emitted_goal_reads by (simp add: get_change_proposal_def adapted_def)
  then have p': "get_change_proposal i s' = Some (p\<lparr>gp_status := GP_ACCEPTED, gp_resolved_at := Some now\<rparr>)"
    using p get_change_proposalD [OF p] by (simp add: get_proposal_set_status)
  moreover have "accept_proposal i later s' = (Inl (InvalidProposalStateError i ''accepted''), s')"
    "decline_proposal i later s' = (Inl (InvalidProposalStateError i ''accepted''), s')" for later
    using resolved_again [OF p'] by simp_all
  moreover have "goal_versions s' = goal_versions s @ [adapted_version (next_id s) ?gid cur c now]"
    by (simp add: s' adapted_def)
  ultimately show ?thesis using run c cur goal [of ?gid] g get_goalD [OF g]
    by (intro exI [of _ c] exI [of _ cur] exI [of _ s']) simp
qed

theorem accept_adaptation_once_witness:
  "\<exists>s'. accept_proposal 2 9 (goal_sample ADAPT_TARGET) = (Inr (), s')
     \<and> map gv_title (goal_versions s') = [''Read'', ''Read more'']
     \<and> accept_proposal 2 10 s' = (Inl (InvalidProposalStateError 2 ''accepted''), s')"
proof -
  have "gp_status (sample_proposal ADAPT_TARGET) = GP_PENDING" "gp_proposed_change (sample_proposal ADAPT_TARGET) = ADAPT_TARGET"
    "get_goal (gp_goal_group_id (sample_proposal ADAPT_TARGET)) (goal_sample ADAPT_TARGET) = Some sample_goal"
    "go_status sample_goal = GS_ACTIVE"
    using goal_sample_rows(4) [of ADAPT_TARGET] by (simp_all add: sample_proposal_def sample_goal_def)
  from accept_adaptation_once [OF goal_sample_rows(1,2) this, of 9] show ?thesis
    using goal_sample_rows(3) [of ADAPT_TARGET]
    by (auto simp: goal_sample_def sample_version_def adapted_version_def sample_content_def or_text_def)
qed

text \<open>
  Accepting a pending PROPOSE_REPLACEMENT proposal of an active or paused goal marks the old goal
  REPLACED, keeping its versions, and creates one new ACTIVE goal that points back to it, with a first
  version carrying the recorded texts in the same trust domain; no other goal changes.
\<close>

theorem accept_replacement_effects:
  assumes ok: "goal_ok s" and p: "get_change_proposal i s = Some p" and pending: "gp_status p = GP_PENDING"
    and change: "gp_proposed_change p = PROPOSE_REPLACEMENT"
    and g: "get_goal (gp_goal_group_id p) s = Some g" and st: "go_status g = GS_ACTIVE \<or> go_status g = GS_PAUSED"
  shows "\<exists>c cur s'. accept_proposal i now s = (Inr (), s')
    \<and> get_change_proposal_content i s = Some c
    \<and> get_goal_version (go_current_version_id g) s = Some cur
    \<and> get_goal (gp_goal_group_id p) s' = Some (g\<lparr>go_status := GS_REPLACED, go_status_changed_at := now\<rparr>)
    \<and> get_goal (Suc (next_id s)) s' = Some (replacement_goal (Suc (next_id s)) (next_id s) (gp_goal_group_id p) now)
    \<and> goal_versions s' = goal_versions s @ [replacement_version (Suc (next_id s)) (next_id s) cur c now]
    \<and> (\<forall>k. k \<noteq> gp_goal_group_id p \<and> k \<noteq> Suc (next_id s) \<longrightarrow> get_goal k s' = get_goal k s)
    \<and> get_change_proposal i s' = Some (p\<lparr>gp_status := GP_ACCEPTED, gp_resolved_at := Some now\<rparr>)"
proof -
  let ?gid = "gp_goal_group_id p" and ?s1 = "set_proposal_status i GP_ACCEPTED now s" and ?n = "next_id s"
  let ?f = "\<lambda>x. x\<lparr>go_status := GS_REPLACED, go_status_changed_at := now\<rparr>"
  obtain c where c: "get_change_proposal_content i s = Some c" using proposal_has_content [OF ok p] .
  obtain cur where cur: "get_goal_version (go_current_version_id g) s = Some cur" using goal_has_version [OF ok g] .
  let ?s2 = "replacement_events ?gid cur ?n now (replaced ?gid cur c now ?s1)"
  have "apply_replacement_in_transaction ?gid (Some c) now ?s1 = Inr ((), ?s2)"
    by (subst apply_replacement_Inr) (use g st cur in simp)
  then obtain s' where run: "accept_proposal i now s = (Inr (), s')"
      and s': "s' = emitted ''goal_change_proposal.resolved'' ''goal_management'' (resolved_payload i ?gid ''accepted'') now ?s2"
    using p pending change c by (simp add: accept_eq apply_change_def)
  have h: "histories_ok ?n (goals s) (goal_versions s)" using goal_okD(1) [OF ok] by (simp add: goals_ok_def)
  have new: "get_goal (Suc ?n) s = None" unfolding get_goal_def row_by_None
    using histories_okD(3) [OF h] by fastforce
  have rows: "goals s' = update_where (\<lambda>x. go_group_id x = ?gid) ?f (goals s) @ [replacement_goal (Suc ?n) ?n ?gid now]"
    by (simp add: s' replacement_events_def replaced_def)
  have old: "row_by go_group_id k (update_where (\<lambda>x. go_group_id x = ?gid) ?f (goals s)) =
      map_option (\<lambda>x. if go_group_id x = ?gid then ?f x else x) (get_goal k s)" for k
    unfolding get_goal_def by (rule row_by_update_where) simp
  have goal: "get_goal k s' = (case get_goal k s of Some x \<Rightarrow> Some (if go_group_id x = ?gid then ?f x else x)
      | None \<Rightarrow> if k = Suc ?n then Some (replacement_goal (Suc ?n) ?n ?gid now) else None)" for k
    using old [of k] by (auto simp: get_goal_def rows row_by_append replacement_goal_def split: option.split)
  have "get_goal k s' = get_goal k s" if "k \<noteq> ?gid" "k \<noteq> Suc ?n" for k
    using that goal [of k] get_goalD [of k s] by (cases "get_goal k s") auto
  moreover have "get_change_proposal i s' = get_change_proposal i ?s1"
    unfolding s' emitted_goal_reads replacement_events_def by (simp add: get_change_proposal_def replaced_def)
  then have "get_change_proposal i s' = Some (p\<lparr>gp_status := GP_ACCEPTED, gp_resolved_at := Some now\<rparr>)"
    using p get_change_proposalD [OF p] by (simp add: get_proposal_set_status)
  moreover have "goal_versions s' = goal_versions s @ [replacement_version (Suc ?n) ?n cur c now]"
    by (simp add: s' replacement_events_def replaced_def)
  ultimately show ?thesis using run c cur goal [of ?gid] goal [of "Suc ?n"] g new get_goalD [OF g]
    by (intro exI [of _ c] exI [of _ cur] exI [of _ s']) simp
qed

theorem accept_replacement_effects_witness:
  "\<exists>s'. accept_proposal 2 9 (goal_sample PROPOSE_REPLACEMENT) = (Inr (), s')
     \<and> map_option go_status (get_goal 1 s') = Some GS_REPLACED
     \<and> map_option go_replaces_group_id (get_goal 5 s') = Some (Some 1)"
proof -
  let ?p = "sample_proposal PROPOSE_REPLACEMENT"
  have "gp_status ?p = GP_PENDING" "gp_proposed_change ?p = PROPOSE_REPLACEMENT"
    "get_goal (gp_goal_group_id ?p) (goal_sample PROPOSE_REPLACEMENT) = Some sample_goal"
    "go_status sample_goal = GS_ACTIVE \<or> go_status sample_goal = GS_PAUSED"
    using goal_sample_rows(4) [of PROPOSE_REPLACEMENT] by (simp_all add: sample_proposal_def sample_goal_def)
  from accept_replacement_effects [OF goal_sample_rows(1,2) this, of 9] show ?thesis
    by (auto simp: goal_sample_def sample_proposal_def replacement_goal_def eval_nat_numeral)
qed

section \<open>Failing acceptances\<close>

text \<open>
  A failing accept_proposal changes nothing: an unknown proposal and one that is not PENDING raise;
  so does a pending one whose goal is not in a status the change allows (adaptation: ACTIVE;
  replacement and abandonment: ACTIVE or PAUSED), which leaves the proposal PENDING.
\<close>

theorem accept_proposal_errors:
  assumes ok: "goal_ok s"
  shows "(get_change_proposal i s = None \<longrightarrow> accept_proposal i now s = (Inl (GoalChangeProposalNotFoundError i), s))
    \<and> (\<forall>p. get_change_proposal i s = Some p \<longrightarrow>
        (gp_status p \<noteq> GP_PENDING \<longrightarrow>
           accept_proposal i now s = (Inl (InvalidProposalStateError i (proposal_status_value (gp_status p))), s))
        \<and> (gp_status p = GP_PENDING \<longrightarrow> (\<forall>g. get_goal (gp_goal_group_id p) s = Some g \<longrightarrow>
            (gp_proposed_change p = ADAPT_TARGET \<and> go_status g \<noteq> GS_ACTIVE \<longrightarrow> accept_proposal i now s =
               (Inl (InvalidGoalTransitionError (gp_goal_group_id p) (goal_status_value (go_status g)) ''adapt''), s))
            \<and> (gp_proposed_change p = PROPOSE_REPLACEMENT \<and> goal_terminal g \<longrightarrow> accept_proposal i now s =
               (Inl (InvalidGoalTransitionError (gp_goal_group_id p) (goal_status_value (go_status g)) ''replace''), s))
            \<and> (gp_proposed_change p = PROPOSE_ABANDONMENT \<and> goal_terminal g \<longrightarrow> accept_proposal i now s =
               (Inl (InvalidGoalTransitionError (gp_goal_group_id p) (goal_status_value (go_status g)) ''abandon''), s)))))"
  by (auto simp: accept_eq apply_change_def apply_adaptation_in_transaction_def
      apply_replacement_in_transaction_def apply_abandonment_in_transaction_def load_goal_in_def
      tx_bind_apply tx_simps goal_terminal_iff)

theorem accept_proposal_errors_witness:
  "accept_proposal 7 0 (goal_sample NO_CHANGE) = (Inl (GoalChangeProposalNotFoundError 7), goal_sample NO_CHANGE)"
  using accept_proposal_errors [OF goal_sample_rows(1), of 7 NO_CHANGE 0]
  by (simp add: get_change_proposal_def goal_sample_def sample_proposal_def)

section \<open>Expiry at startup\<close>

abbreviation expired_at :: "time \<Rightarrow> goal_change_proposal \<Rightarrow> goal_change_proposal" where
  "expired_at now p \<equiv> p\<lparr>gp_status := GP_EXPIRED, gp_resolved_at := Some now\<rparr>"

definition only_proposals_changed :: "'m goal_db_scheme \<Rightarrow> 'm goal_db_scheme \<Rightarrow> bool" where
  "only_proposals_changed s s' \<longleftrightarrow> goals s' = goals s \<and> goal_versions s' = goal_versions s
     \<and> goal_change_proposal_contents s' = goal_change_proposal_contents s
     \<and> goal_evidence_rows s' = goal_evidence_rows s \<and> goal_evaluations s' = goal_evaluations s"

lemma expire_all:
  assumes "distinct js" and "\<forall>i \<in> set js. \<exists>p. get_change_proposal i s = Some p \<and> gp_status p = GP_PENDING"
  shows "\<exists>s'. op_for js (\<lambda>i. resolve_proposal_without_effect i GP_EXPIRED ''expired'' now) s = (Inr (), s')
    \<and> goal_change_proposals s' = update_where (\<lambda>p. gp_id p \<in> set js) (expired_at now) (goal_change_proposals s)
    \<and> length (domain_events s') = length (domain_events s) + length js \<and> only_proposals_changed s s'"
  using assms
proof (induction js arbitrary: s)
  case Nil
  have "update_where (\<lambda>p. False) (expired_at now) (goal_change_proposals s) = goal_change_proposals s"
    by (rule update_where_id) simp
  then show ?case by (simp add: op_return_def only_proposals_changed_def)
next
  case (Cons i js)
  obtain p where p: "get_change_proposal i s = Some p" "gp_status p = GP_PENDING" using Cons.prems(2) by auto
  let ?s = "emitted ''goal_change_proposal.resolved'' ''goal_management''
     (resolved_payload i (gp_goal_group_id p) ''expired'') now (set_proposal_status i GP_EXPIRED now s)"
  have step: "resolve_proposal_without_effect i GP_EXPIRED ''expired'' now s = (Inr (), ?s)"
    using p by (simp add: resolve_eq)
  have rows: "goal_change_proposals ?s = update_where (\<lambda>p. gp_id p = i) (expired_at now) (goal_change_proposals s)"
    by (simp add: set_proposal_status_def)
  have "\<exists>p. get_change_proposal j ?s = Some p \<and> gp_status p = GP_PENDING" if j: "j \<in> set js" for j
  proof -
    obtain q where q: "get_change_proposal j s = Some q" "gp_status q = GP_PENDING" using Cons.prems(2) j by auto
    moreover have "gp_id q = j" "j \<noteq> i" using get_change_proposalD [OF q(1)] Cons.prems(1) j by auto
    ultimately show ?thesis by (simp add: get_proposal_set_status)
  qed
  then obtain s' where s': "op_for js (\<lambda>i. resolve_proposal_without_effect i GP_EXPIRED ''expired'' now) ?s = (Inr (), s')"
      "goal_change_proposals s' = update_where (\<lambda>p. gp_id p \<in> set js) (expired_at now) (goal_change_proposals ?s)"
      "length (domain_events s') = length (domain_events ?s) + length js" "only_proposals_changed ?s s'"
    using Cons.IH [of ?s] Cons.prems(1) by auto
  have "goal_change_proposals s' = update_where (\<lambda>p. gp_id p \<in> set (i # js)) (expired_at now) (goal_change_proposals s)"
    using Cons.prems(1) unfolding s'(2) rows by (auto simp: update_where_def)
  moreover have "length (domain_events ?s) = Suc (length (domain_events s))"
    by (simp add: emitted_def insert_event_def set_proposal_status_def)
  moreover have "only_proposals_changed s s'" using s'(4)
    by (simp add: only_proposals_changed_def set_proposal_status_def emitted_def insert_event_def)
  ultimately show ?case using s'(1,3) by (intro exI [of _ s']) (simp add: op_bind_def step)
qed

lemma pending_proposals_found:
  assumes ok: "goal_ok s" and i: "i \<in> gp_id ` {p \<in> set (goal_change_proposals s). proposal_overdue now p}"
  shows "\<exists>p. get_change_proposal i s = Some p \<and> gp_status p = GP_PENDING"
proof -
  obtain p where p: "p \<in> set (goal_change_proposals s)" "proposal_overdue now p" "gp_id p = i" using i by auto
  have "row_by gp_id (gp_id p) (goal_change_proposals s) = Some p"
    using goal_okD(2) [OF ok] p(1) by (intro row_by_unique) (simp_all add: proposals_ok_def)
  then show ?thesis using p by (simp add: get_change_proposal_def proposal_overdue_def)
qed

lemma recover_goals_returns:
  assumes ok: "goal_ok s"
  shows "\<exists>s'. recover_goal_management_state now s
      = (Inr (map gp_id (filter (proposal_overdue now) (goal_change_proposals s))), s')
    \<and> goal_change_proposals s' = update_where
        (\<lambda>p. gp_id p \<in> set (map gp_id (filter (proposal_overdue now) (goal_change_proposals s))))
        (expired_at now) (goal_change_proposals s)
    \<and> length (domain_events s') = length (domain_events s) + length (filter (proposal_overdue now) (goal_change_proposals s))
    \<and> only_proposals_changed s s'"
proof -
  let ?is = "map gp_id (filter (proposal_overdue now) (goal_change_proposals s))"
  have "distinct ?is" using goal_okD(2) [OF ok] by (simp add: proposals_ok_def distinct_map_filter)
  moreover have "\<forall>i \<in> set ?is. \<exists>p. get_change_proposal i s = Some p \<and> gp_status p = GP_PENDING"
    using pending_proposals_found [OF ok] by auto
  ultimately obtain s' where "op_for ?is (\<lambda>i. resolve_proposal_without_effect i GP_EXPIRED ''expired'' now) s = (Inr (), s')"
      "goal_change_proposals s' = update_where (\<lambda>p. gp_id p \<in> set ?is) (expired_at now) (goal_change_proposals s)"
      "length (domain_events s') = length (domain_events s) + length ?is" "only_proposals_changed s s'"
    using expire_all [of ?is s now] by blast
  then show ?thesis by (simp add: recover_goal_management_state_def op_bind_def op_get_def op_return_def)
qed

lemma recover_goals_expired:
  assumes ok: "goal_ok s"
  shows "\<exists>s'. recover_goal_management_state now s
      = (Inr (map gp_id (filter (proposal_overdue now) (goal_change_proposals s))), s')
    \<and> goal_change_proposals s' = update_where (proposal_overdue now) (expired_at now) (goal_change_proposals s)
    \<and> length (domain_events s') = length (domain_events s) + length (filter (proposal_overdue now) (goal_change_proposals s))
    \<and> only_proposals_changed s s'"
proof -
  let ?ps = "goal_change_proposals s"
  let ?is = "map gp_id (filter (proposal_overdue now) ?ps)"
  have dist: "distinct (map gp_id ?ps)" using goal_okD(2) [OF ok] by (simp add: proposals_ok_def)
  have "update_where (\<lambda>p. gp_id p \<in> set ?is) (expired_at now) ?ps = update_where (proposal_overdue now) (expired_at now) ?ps"
    unfolding update_where_def
  proof (rule map_cong [OF refl])
    fix p assume p: "p \<in> set ?ps"
    have "gp_id p \<in> set ?is \<longleftrightarrow> proposal_overdue now p" using p dist by (auto dest: distinct_key_eq)
    then show "(if gp_id p \<in> set ?is then expired_at now p else p) = (if proposal_overdue now p then expired_at now p else p)"
      by simp
  qed
  then show ?thesis using recover_goals_returns [OF ok, of now] by simp
qed

lemma none_overdue:
  "goal_change_proposals s' = update_where (proposal_overdue now) (expired_at now) ps \<Longrightarrow>
   \<forall>p \<in> set (goal_change_proposals s'). \<not> proposal_overdue now p"
  by (auto simp: set_update_where proposal_overdue_def)

text \<open>
  The startup step of Goal Management always returns; it expires exactly the proposals that are
  PENDING and whose expiry is not later than now, one event each, touches no goal, version, evidence
  or other proposal, and a second run finds nothing to do.
\<close>

theorem recover_goals_expires_overdue:
  assumes ok: "goal_ok s"
  shows "\<exists>s' overdue. recover_goal_management_state now s = (Inr overdue, s')
    \<and> set overdue = gp_id ` {p \<in> set (goal_change_proposals s). gp_status p = GP_PENDING \<and> iso_le (gp_expires_at p) now}
    \<and> goal_change_proposals s' = update_where (proposal_overdue now) (expired_at now) (goal_change_proposals s)
    \<and> length (domain_events s') = length (domain_events s) + length overdue
    \<and> only_proposals_changed s s'
    \<and> recover_goal_management_state now s' = (Inr [], s')"
proof -
  obtain s' where s': "recover_goal_management_state now s
        = (Inr (map gp_id (filter (proposal_overdue now) (goal_change_proposals s))), s')"
      "goal_change_proposals s' = update_where (proposal_overdue now) (expired_at now) (goal_change_proposals s)"
      "length (domain_events s') = length (domain_events s) + length (filter (proposal_overdue now) (goal_change_proposals s))"
      "only_proposals_changed s s'"
    using recover_goals_expired [OF ok] by blast
  have "filter (proposal_overdue now) (goal_change_proposals s') = []"
    using none_overdue [OF s'(2)] by (simp add: filter_empty_conv)
  then have "recover_goal_management_state now s' = (Inr [], s')"
    by (simp add: recover_goal_management_state_def op_bind_def op_get_def op_return_def)
  with s' show ?thesis by (intro exI [of _ s'] exI) (auto simp: proposal_overdue_def)
qed

theorem recover_goals_expires_overdue_witness:
  "\<exists>s' overdue. recover_goal_management_state 60000000 (goal_sample NO_CHANGE) = (Inr overdue, s') \<and> 2 \<in> set overdue"
proof -
  have "{p \<in> set (goal_change_proposals (goal_sample NO_CHANGE)). gp_status p = GP_PENDING \<and> iso_le (gp_expires_at p) 60000000}
      = {sample_proposal NO_CHANGE}"
    by (auto simp: goal_sample_def sample_proposal_def iso_le_def iso_rank_def)
  then show ?thesis using recover_goals_expires_overdue [OF goal_sample_rows(1), of 60000000 NO_CHANGE]
    by (auto simp: sample_proposal_def)
qed

end
