(* ===== verification/Recovery_Properties.thy ===== *)
theory Recovery_Properties
  imports Recovery_Facts
begin

text \<open>
  The properties of the Recovery Plan: a task is completed exactly once, every transition of a task
  on every branch, and the regeneration of a plan after its window's target changed.
\<close>

section \<open>A sample plan\<close>

definition sample_plan :: recovery_plan where
  "sample_plan = new_plan 2 1 24 0"

definition sample_task :: recovery_task where
  "sample_task = \<lparr>rt_id = 3, rt_recovery_plan_id = 2, rt_plan_version = 1, rt_title = ''Write'',
     rt_description = ''an essay'', rt_credit_hours = 3, rt_status = RT_PROPOSED, rt_created_at = 0,
     rt_status_changed_at = 0\<rparr>"

definition recovery_sample :: recovery_db where
  "recovery_sample = \<lparr>next_id = 5, domain_events = [], event_consumers = [],
     system_startup_lease = None, trust_domains = [], trust_domain_state = [], incidents = [],
     confirmation_records = [], trust_evidence = [], trust_recalculations = [],
     trust_recalculation_evidence = [], penalty_windows = [new_window 1 0 24], freeze_periods = [],
     incident_consumption = [], extension_decisions = [], recovery_credit_decisions = [],
     recovery_credit_ledger = [], recovery_plans = [sample_plan], recovery_tasks = [sample_task],
     recovery_task_completions = []\<rparr>"

lemma recovery_sample_rows:
  "recovery_ok recovery_sample"
  "get_recovery_task 3 recovery_sample = Some sample_task"
  "get_recovery_plan_for_window 1 recovery_sample = Some sample_plan"
  by (simp_all add: recovery_ok_defs recovery_sample_def sample_plan_def sample_task_def new_plan_def new_window_def
      task_fits_def task_open_def completed_task_keys_def get_recovery_task_def get_recovery_plan_for_window_def)

section \<open>Tasks\<close>

lemma load_task_in_eq:
  "load_task_in i from st s = (case get_recovery_task i s of
      None \<Rightarrow> Inl (RecoveryTaskNotFoundError i)
    | Some t \<Rightarrow> if rt_status t \<in> set from then Inr (t, s)
        else Inl (InvalidTaskTransitionError i (task_status_value (rt_status t)) (task_status_value st)))"
  by (simp add: load_task_in_def tx_bind_apply tx_simps split: option.split)

lemma get_task_set_status:
  "get_recovery_task i (set_task_status j st now s) =
     map_option (\<lambda>t. if rt_id t = j then t\<lparr>rt_status := st, rt_status_changed_at := now\<rparr> else t)
       (get_recovery_task i s)"
  unfolding get_recovery_task_def set_task_status_def by (simp, rule row_by_update_where) simp

lemma transition_task_eq:
  "transition_task i st ty now from s = (case get_recovery_task i s of
      None \<Rightarrow> (Inl (RecoveryTaskNotFoundError i), s)
    | Some t \<Rightarrow> if rt_status t \<in> set from
        then (Inr (t\<lparr>rt_status := st, rt_status_changed_at := now\<rparr>),
              emitted ty ''recovery_plan''
                [(''recovery_task_id'', JId i), (''recovery_plan_id'', JId (rt_recovery_plan_id t))] now
                (set_task_status i st now s))
        else (Inl (InvalidTaskTransitionError i (task_status_value (rt_status t)) (task_status_value st)), s))"
  by (simp add: transition_task_def transition_eq atomically_def tx_bind_apply load_task_in_eq
      tx_modify_apply tx_return_apply emit_emitted split: option.split)

definition task_completed_payload :: "uid \<Rightarrow> recovery_task \<Rightarrow> recovery_plan \<Rightarrow> payload" where
  "task_completed_payload c t p =
     [(''recovery_task_completion_id'', JId c), (''recovery_task_id'', JId (rt_id t)),
      (''recovery_plan_id'', JId (rt_recovery_plan_id t)),
      (''penalty_window_id'', JId (rp_penalty_window_id p)), (''credit_hours'', JNum (rt_credit_hours t))]"

lemma complete_task_eq:
  assumes ok: "recovery_ok s"
  shows "complete_task i now notes s = (case get_recovery_task i s of
      None \<Rightarrow> (Inl (RecoveryTaskNotFoundError i), s)
    | Some t \<Rightarrow> if task_open t
        then (Inr (completion_of (next_id s) t now notes),
              emitted ''recovery_plan.task_completed'' ''recovery_plan''
                (task_completed_payload (next_id s) t (the (get_recovery_plan (rt_recovery_plan_id t) s))) now
                (task_completed t now notes s))
        else (Inl (InvalidTaskTransitionError i (task_status_value (rt_status t)) ''completed''), s))"
proof (cases "get_recovery_task i s")
  case None
  then show ?thesis
    by (simp add: complete_task_def transition_eq atomically_def tx_bind_apply complete_task_write_unknown op_bind_def)
next
  case (Some t)
  show ?thesis
  proof (cases "task_open t")
    case True
    obtain p where p: "get_recovery_plan (rt_recovery_plan_id t) s = Some p"
      using task_has_plan [OF ok get_recovery_taskD(1) [OF Some]] .
    show ?thesis using Some True p
      by (simp add: complete_task_def transition_eq atomically_def tx_bind_apply complete_task_write_eq [OF Some True p]
          op_bind_def op_return_def emit_task_completed_def emit_emitted tx_return_apply
          task_completed_payload_def completion_of_def)
  qed (simp add: complete_task_def transition_eq atomically_def tx_bind_apply complete_task_write_closed
      op_bind_def Some)
qed

lemma get_task_completed:
  assumes "get_recovery_task i s = Some t"
  shows "get_recovery_task i (emitted ty src p now (task_completed t now' notes s))
    = Some (t\<lparr>rt_status := RT_COMPLETED, rt_status_changed_at := now'\<rparr>)"
proof -
  have "get_recovery_task i (emitted ty src p now (task_completed t now' notes s))
      = get_recovery_task i (set_task_status (rt_id t) RT_COMPLETED now' s)"
    by (simp add: get_recovery_task_def emitted_def insert_event_def task_completed_def)
  then show ?thesis using assms get_recovery_taskD(2) [OF assms] by (simp add: get_task_set_status)
qed

text \<open>
  C27: Completing an open task records exactly one completion for it, marks it COMPLETED and emits
  one recovery_plan.task_completed carrying the task's credit and its plan's window (RP-2); from
  then on completing, accepting and withdrawing the task all raise and change nothing.
\<close>

theorem complete_task_exactly_once:
  assumes ok: "recovery_ok s" and t: "get_recovery_task i s = Some t" and open_t: "task_open t"
  shows "\<exists>c p s'. complete_task i now notes s = (Inr c, s')
    \<and> get_recovery_plan (rt_recovery_plan_id t) s = Some p
    \<and> get_recovery_task i s' = Some (t\<lparr>rt_status := RT_COMPLETED, rt_status_changed_at := now\<rparr>)
    \<and> filter (\<lambda>x. rc_recovery_task_id x = i) (recovery_task_completions s') = [c]
    \<and> recovery_task_completions s' = recovery_task_completions s @ [c]
    \<and> (\<exists>r. domain_events s' = domain_events s @ [r] \<and> ev_type r = ''recovery_plan.task_completed''
         \<and> ev_payload r = task_completed_payload (rc_id c) t p)
    \<and> (\<forall>later n. complete_task i later n s' = (Inl (InvalidTaskTransitionError i ''completed'' ''completed''), s')
         \<and> accept_task i later s' = (Inl (InvalidTaskTransitionError i ''completed'' ''accepted''), s')
         \<and> withdraw_task i later s' = (Inl (InvalidTaskTransitionError i ''completed'' ''withdrawn''), s'))"
proof -
  obtain p where p: "get_recovery_plan (rt_recovery_plan_id t) s = Some p"
    using task_has_plan [OF ok get_recovery_taskD(1) [OF t]] .
  let ?c = "completion_of (next_id s) t now notes"
  let ?s = "emitted ''recovery_plan.task_completed'' ''recovery_plan'' (task_completed_payload (next_id s) t p) now
     (task_completed t now notes s)"
  have run: "complete_task i now notes s = (Inr ?c, ?s)" using t open_t p by (simp add: complete_task_eq [OF ok])
  have t': "get_recovery_task i ?s = Some (t\<lparr>rt_status := RT_COMPLETED, rt_status_changed_at := now\<rparr>)"
    by (rule get_task_completed [OF t])
  have ok': "recovery_ok ?s" using op_keepsD [OF op_keeps_recovery_complete ok] run by (metis snd_conv)
  have rows: "recovery_task_completions ?s = recovery_task_completions s @ [?c]"
    by (simp add: emitted_def insert_event_def task_completed_def)
  have "distinct (map rc_recovery_task_id (recovery_task_completions s @ [?c]))"
    using recovery_okD(3) [OF ok'] unfolding completions_ok_def rows by blast
  then have "filter (\<lambda>x. rc_recovery_task_id x = i) (recovery_task_completions ?s) = [?c]"
    using get_recovery_taskD(2) [OF t] unfolding rows
    by (auto simp: completion_of_def filter_empty_conv image_iff)
  moreover have "complete_task i later n ?s = (Inl (InvalidTaskTransitionError i ''completed'' ''completed''), ?s)"
    "accept_task i later ?s = (Inl (InvalidTaskTransitionError i ''completed'' ''accepted''), ?s)"
    "withdraw_task i later ?s = (Inl (InvalidTaskTransitionError i ''completed'' ''withdrawn''), ?s)" for later n
    by (simp_all add: complete_task_eq [OF ok'] t' task_open_def accept_task_def withdraw_task_def op_bind_def
        transition_task_eq)
  moreover have "\<exists>r. domain_events ?s = domain_events s @ [r] \<and> ev_type r = ''recovery_plan.task_completed''
      \<and> ev_payload r = task_completed_payload (rc_id ?c) t p"
    by (simp add: emitted_def insert_event_def task_completed_def set_task_status_def completion_of_def event_row_of_def)
  ultimately show ?thesis using run p t' rows by (intro exI [of _ ?c] exI [of _ p] exI [of _ ?s]) simp
qed

theorem complete_task_exactly_once_witness:
  "\<exists>c s'. complete_task 3 7 None recovery_sample = (Inr c, s') \<and> recovery_task_completions s' = [c]
     \<and> complete_task 3 8 None s' = (Inl (InvalidTaskTransitionError 3 ''completed'' ''completed''), s')"
proof -
  have "task_open sample_task" by (simp add: task_open_def sample_task_def)
  from complete_task_exactly_once [OF recovery_sample_rows(1,2) this, of 7 None] show ?thesis
    by (auto simp: recovery_sample_def)
qed

text \<open>
  Every failing call on a task changes nothing: an unknown task raises RecoveryTaskNotFoundError,
  accepting one that is not PROPOSED and withdrawing or completing one that is neither PROPOSED nor
  ACCEPTED raise InvalidTaskTransitionError with both statuses.
\<close>

theorem task_transition_errors:
  assumes "recovery_ok s"
  shows "(get_recovery_task i s = None \<longrightarrow>
      accept_task i now s = (Inl (RecoveryTaskNotFoundError i), s)
      \<and> withdraw_task i now s = (Inl (RecoveryTaskNotFoundError i), s)
      \<and> complete_task i now notes s = (Inl (RecoveryTaskNotFoundError i), s))
    \<and> (\<forall>t. get_recovery_task i s = Some t \<longrightarrow>
        (rt_status t \<noteq> RT_PROPOSED \<longrightarrow> accept_task i now s =
           (Inl (InvalidTaskTransitionError i (task_status_value (rt_status t)) ''accepted''), s))
        \<and> (\<not> task_open t \<longrightarrow>
           withdraw_task i now s =
             (Inl (InvalidTaskTransitionError i (task_status_value (rt_status t)) ''withdrawn''), s)
           \<and> complete_task i now notes s =
             (Inl (InvalidTaskTransitionError i (task_status_value (rt_status t)) ''completed''), s)))"
  by (simp add: complete_task_eq [OF assms] accept_task_def withdraw_task_def op_bind_def transition_task_eq task_open_def)

theorem task_transition_errors_witness:
  "withdraw_task 9 0 recovery_sample = (Inl (RecoveryTaskNotFoundError 9), recovery_sample)"
proof -
  have "get_recovery_task 9 recovery_sample = None"
    by (simp add: get_recovery_task_def recovery_sample_def sample_task_def)
  then show ?thesis using task_transition_errors [OF recovery_sample_rows(1), of 9 0 None] by blast
qed

section \<open>Regeneration\<close>

definition plan_regenerated :: "real \<Rightarrow> time \<Rightarrow> recovery_plan \<Rightarrow> recovery_plan" where
  "plan_regenerated target now p = p\<lparr>rp_current_version := rp_current_version p + 1,
     rp_capacity_hours := target / 2, rp_status_changed_at := now\<rparr>"

text \<open>
  Regenerating a plan after the window's target changed (RP-4): the plan's version goes up by
  one and its capacity becomes half the new target; every task of the plan that was open is expired,
  no other task, no other plan and no completion changes, and afterwards no task of the plan is open.
\<close>

theorem regenerate_expires_open_tasks:
  assumes ok: "recovery_ok s" and p: "get_recovery_plan_for_window w s = Some p"
  shows "\<exists>s'. regenerate w target now s = (Inr (Some (plan_regenerated target now p)), s')
    \<and> get_recovery_plan_for_window w s' = Some (plan_regenerated target now p)
    \<and> (\<forall>w'. w' \<noteq> w \<longrightarrow> get_recovery_plan_for_window w' s' = get_recovery_plan_for_window w' s)
    \<and> (\<forall>i. get_recovery_task i s' = map_option (\<lambda>t.
         if rt_recovery_plan_id t = rp_id p \<and> task_open t
         then t\<lparr>rt_status := RT_EXPIRED, rt_status_changed_at := now\<rparr> else t) (get_recovery_task i s))
    \<and> (\<forall>t \<in> set (recovery_tasks s'). rt_recovery_plan_id t = rp_id p \<longrightarrow> \<not> task_open t)
    \<and> recovery_task_completions s' = recovery_task_completions s"
proof -
  let ?q = "\<lambda>t. rt_recovery_plan_id t = rp_id p \<and> rt_plan_version t = rp_current_version p \<and> task_open t"
  let ?g = "\<lambda>t. t\<lparr>rt_status := RT_EXPIRED, rt_status_changed_at := now\<rparr>"
  let ?f = "\<lambda>x. x\<lparr>rp_current_version := rp_current_version p + 1, rp_capacity_hours := target / 2,
        rp_status_changed_at := now\<rparr>"
  let ?s = "s\<lparr>recovery_plans := update_where (\<lambda>x. rp_penalty_window_id x = w) ?f (recovery_plans s),
        recovery_tasks := update_where ?q ?g (recovery_tasks s)\<rparr>"
  obtain s' where run: "regenerate w target now s = (Inr (Some (plan_regenerated target now p)), s')"
      and tabs: "recovery_plans s' = recovery_plans ?s" "recovery_tasks s' = recovery_tasks ?s"
        "recovery_task_completions s' = recovery_task_completions ?s"
    using p by (simp add: regenerate_def transition_eq atomically_def regenerate_in_transaction_def tx_bind_apply
        tx_simps Let_def emit_if_plan_def emit_regenerated_def insert_event_def plan_regenerated_def)
  have pm: "p \<in> set (recovery_plans s)" "rp_penalty_window_id p = w"
    using p by (auto simp: get_recovery_plan_for_window_def dest: row_by_SomeD)
  have the_p: "x = p" if "x \<in> set (recovery_plans s)" "rp_id x = rp_id p" for x
    using recovery_okD(1) [OF ok] that pm unfolding plans_ok_def by (metis distinct_key_eq)
  have q: "?q t = (rt_recovery_plan_id t = rp_id p \<and> task_open t)" if t: "t \<in> set (recovery_tasks s)" for t
  proof -
    obtain x where "x \<in> set (recovery_plans s)" "rp_id x = rt_recovery_plan_id t"
        "task_open t \<longrightarrow> rt_plan_version t = rp_current_version x"
      using recovery_okD(2) [OF ok] t by (auto simp: tasks_ok_def task_fits_def)
    then show ?thesis using the_p by metis
  qed
  have plans': "recovery_plans s' = update_where (\<lambda>x. rp_penalty_window_id x = w) ?f (recovery_plans s)"
    using tabs(1) by simp
  have plan: "get_recovery_plan_for_window w' s' =
      map_option (\<lambda>x. if rp_penalty_window_id x = w then ?f x else x) (get_recovery_plan_for_window w' s)" for w'
    unfolding get_recovery_plan_for_window_def plans' by (rule row_by_update_where) simp
  have plan_w: "get_recovery_plan_for_window w s' = Some (plan_regenerated target now p)"
    using p pm unfolding plan by (simp add: plan_regenerated_def)
  have other: "get_recovery_plan_for_window w' s' = get_recovery_plan_for_window w' s" if "w' \<noteq> w" for w'
  proof (cases "get_recovery_plan_for_window w' s")
    case (Some x)
    then have "rp_penalty_window_id x = w'" unfolding get_recovery_plan_for_window_def by (metis row_by_SomeD)
    with that Some show ?thesis by (simp add: plan)
  qed (simp add: plan)
  have task: "get_recovery_task i s' = map_option (\<lambda>t.
      if rt_recovery_plan_id t = rp_id p \<and> task_open t then ?g t else t) (get_recovery_task i s)" for i
  proof -
    have "get_recovery_task i s' = map_option (\<lambda>t. if ?q t then ?g t else t) (get_recovery_task i s)"
      unfolding get_recovery_task_def tabs by (simp, rule row_by_update_where) simp
    then show ?thesis using q get_recovery_taskD(1) [of i s] by (cases "get_recovery_task i s") auto
  qed
  have "\<forall>t \<in> set (recovery_tasks s'). rt_recovery_plan_id t = rp_id p \<longrightarrow> \<not> task_open t"
    unfolding tabs by (simp, rule ball_update_where) (use q in \<open>auto simp: task_open_def\<close>)
  with run plan_w other task tabs show ?thesis by (intro exI [of _ s']) simp
qed

theorem regenerate_expires_open_tasks_witness:
  "\<exists>s'. regenerate 1 36 7 recovery_sample = (Inr (Some (plan_regenerated 36 7 sample_plan)), s')
     \<and> map_option rt_status (get_recovery_task 3 s') = Some RT_EXPIRED"
proof -
  have "rt_recovery_plan_id sample_task = rp_id sample_plan" "task_open sample_task"
    by (simp_all add: sample_task_def sample_plan_def new_plan_def task_open_def)
  then show ?thesis
    using regenerate_expires_open_tasks [OF recovery_sample_rows(1,3), of 36 7] recovery_sample_rows(2) by auto
qed

end
