(* ===== verification/Mode_Properties.thy ===== *)
theory Mode_Properties
  imports Mode_Facts
begin

text \<open>
  The properties of the operating mode: the cooling-off period really elapses, every branch of a
  request and of a confirmation, and the settling step.
\<close>

section \<open>A sample run of the module\<close>

definition mode_sample :: mode_db where
  "mode_sample = \<lparr>next_id = 0, domain_events = [], event_consumers = [], system_startup_lease = None,
     trust_domains = [], trust_domain_state = [], incidents = [], confirmation_records = [],
     trust_evidence = [], trust_recalculations = [], trust_recalculation_evidence = [],
     penalty_windows = [], freeze_periods = [], incident_consumption = [], extension_decisions = [],
     recovery_credit_decisions = [], recovery_credit_ledger = [],
     recovery_plans = [], recovery_tasks = [], recovery_task_completions = [],
     goals = [], goal_versions = [], goal_evidence_rows = [], goal_evaluations = [],
     goal_change_proposals = [], goal_change_proposal_contents = [],
     operating_mode_row = \<lparr>current_mode = STANDARD, mode_activated_at = 0\<rparr>,
     mode_transition_requests = []\<rparr>"

definition sample_request :: mode_transition_request where
  "sample_request = new_request 0 STANDARD ADVANCED False ''c1'' 0"

definition mode_requested :: mode_db where
  "mode_requested = mode_sample\<lparr>next_id := 1, mode_transition_requests := [sample_request]\<rparr>"

definition mode_waited :: mode_db where
  "mode_waited = mode_requested\<lparr>mode_transition_requests := [sample_request\<lparr>mt_status := AWAITING_CONFIRMATION\<rparr>]\<rparr>"

lemma consent_sample: "consent_given ''c1''"
  by (simp add: consent_given_def nonblank_def py_space_def)

lemma mode_requested_run: "mode_run get_active_or_frozen_penalty_window 0 mode_requested"
proof -
  have "mode_requested = snd (request_transition get_active_or_frozen_penalty_window ADVANCED ''c1'' 0 mode_sample)"
    by (simp add: request_eq consent_sample mode_requested_def mode_sample_def sample_request_def Let_def
        fetch_active_request_def get_active_or_frozen_penalty_window_def)
  moreover have "mode_run get_active_or_frozen_penalty_window 0 mode_sample"
    by (rule mode_run.start) (simp add: mode_sample_def)
  ultimately show ?thesis by (metis mode_run.request order_refl)
qed

lemma mode_requested_ok: "mode_ok mode_requested"
  using mode_run_inv [OF mode_requested_run] ..

lemma mode_waited_eq:
  "mode_waited = snd (advance_transition_state get_active_or_frozen_penalty_window confirmation_wait mode_requested)"
proof -
  have "fetch_active_request mode_requested = Some sample_request"
    by (simp add: fetch_active_request_def mode_requested_def sample_request_def new_request_def)
  then show ?thesis unfolding advance_eq [OF mode_requested_ok \<open>fetch_active_request mode_requested = Some sample_request\<close>]
    by (simp add: Let_def mode_requested_def mode_sample_def mode_waited_def sample_request_def new_request_def
        compute_next_state_def get_active_or_frozen_penalty_window_def put_def put_request_def update_where_def)
qed

lemma mode_waited_run: "mode_run get_active_or_frozen_penalty_window confirmation_wait mode_waited"
  unfolding mode_waited_eq using mode_requested_run by (rule mode_run.advance) (simp add: confirmation_wait_def hour_def minute_def)

lemma mode_waited_request: "request_by_id 0 mode_waited = Some (sample_request\<lparr>mt_status := AWAITING_CONFIRMATION\<rparr>)"
  by (simp add: request_by_id_def mode_waited_def mode_requested_def sample_request_def new_request_def)

lemma mode_waited_window: "get_active_or_frozen_penalty_window mode_waited = None"
  by (simp add: mode_waited_def mode_requested_def mode_sample_def get_active_or_frozen_penalty_window_def)

section \<open>The cooling-off period\<close>

text \<open>
  MODE-1 under a clock that does not go back: when a confirmation changes the operating mode,
  consent was given for it, the request had reached AWAITING_CONFIRMATION, no penalty window was
  open, the uninterrupted wait began at least 24 hours earlier, and a return to STANDARD was
  requested no earlier than 30 days after the mode was entered.
\<close>

theorem mode_change_waits:
  assumes run: "mode_run get_active_or_frozen_penalty_window t s" and now: "t \<le> now"
    and conf: "confirm_transition i get_active_or_frozen_penalty_window consent now s = (res, s')"
    and changed: "operating_mode_row s' \<noteq> operating_mode_row s"
  shows "consent_given consent \<and> get_active_or_frozen_penalty_window s = None
    \<and> (\<exists>r w. request_by_id i s = Some r \<and> mt_status r = AWAITING_CONFIRMATION
         \<and> mt_wait_started_at r = Some w \<and> w + 24 * hour \<le> now
         \<and> (mt_target_mode r = STANDARD \<longrightarrow>
              mode_activated_at (operating_mode_row s) + 30 * day \<le> mt_requested_at r)
         \<and> operating_mode_row s' = \<lparr>current_mode = mt_target_mode r, mode_activated_at = now\<rparr>
         \<and> mt_source_mode r = current_mode (operating_mode_row s))"
proof -
  have ok: "mode_ok s" and waits: "\<forall>r \<in> set (mode_transition_requests s). waited t r"
    using mode_run_inv [OF run] by simp_all
  have consent: "consent_given consent" using conf changed by (cases "consent_given consent") (auto simp: confirm_no_consent)
  obtain r where r: "request_by_id i s = Some r" "mt_status r = AWAITING_CONFIRMATION"
      "get_active_or_frozen_penalty_window s = None" "s' = switched (mt_target_mode r) now (put (confirmed consent now r) s)"
    using conf changed unfolding confirm_eq [OF ok consent] by (auto split: option.splits if_splits)
  note row = request_by_idD [OF r(1)]
  obtain w where w: "mt_wait_started_at r = Some w" "w + confirmation_wait \<le> t"
    using waits row r(2) by (auto simp: waited_def)
  have "fits_mode (operating_mode_row s) r" using mode_okD(4) [OF ok] row r(2) by simp
  with consent r w now show ?thesis
    by (auto simp: fits_mode_def confirmation_wait_def minimum_time_in_advanced_def)
qed

theorem mode_change_waits_witness:
  "current_mode (operating_mode_row (snd (confirm_transition 0 get_active_or_frozen_penalty_window ''c1''
     confirmation_wait mode_waited))) = ADVANCED
   \<and> (\<exists>r w. request_by_id 0 mode_waited = Some r \<and> mt_wait_started_at r = Some w \<and> w + 24 * hour \<le> confirmation_wait)"
proof -
  have ok: "mode_ok mode_waited" using mode_run_inv [OF mode_waited_run] ..
  let ?r = "confirm_transition 0 get_active_or_frozen_penalty_window ''c1'' confirmation_wait mode_waited"
  have run: "operating_mode_row (snd ?r) = \<lparr>current_mode = ADVANCED, mode_activated_at = confirmation_wait\<rparr>"
    unfolding confirm_eq [OF ok consent_sample]
    by (simp add: mode_waited_request mode_waited_window sample_request_def new_request_def)
  then have "operating_mode_row (snd ?r) \<noteq> operating_mode_row mode_waited"
    by (simp add: mode_waited_def mode_requested_def mode_sample_def confirmation_wait_def hour_def)
  from mode_change_waits [OF mode_waited_run order_refl prod.collapse [symmetric] this] run
  show ?thesis by auto
qed

section \<open>Branches\<close>

text \<open>
  Every outcome of confirm_transition in a consistent database: no consent, an unknown request
  and a request that is not awaiting confirmation raise and change nothing; an open penalty window
  commits the pause of the request and then raises; otherwise the mode is switched and the request
  completed in one transaction. ModeTransitionSourceModeMismatchError is never raised.
\<close>

theorem confirm_transition_outcomes:
  assumes ok: "mode_ok s" and res: "confirm_transition i get_active_or_frozen_penalty_window consent now s = (res, s')"
  shows "(res = Inl ValueError \<and> \<not> consent_given consent \<and> s' = s)
    \<or> (res = Inl NoActiveModeTransitionError \<and> request_by_id i s = None \<and> s' = s)
    \<or> (\<exists>r. request_by_id i s = Some r \<and>
        ((res = Inl ModeTransitionNotConfirmableError \<and> mt_status r \<noteq> AWAITING_CONFIRMATION \<and> s' = s)
         \<or> (res = Inl ModeTransitionInterruptedByPenaltyWindowError
            \<and> get_active_or_frozen_penalty_window s \<noteq> None
            \<and> request_by_id i s' = Some (pause_request now r)
            \<and> operating_mode_row s' = operating_mode_row s)
         \<or> (\<exists>r'. res = Inr r' \<and> mt_status r' = MT_COMPLETED \<and> mt_confirmed_via_consent_id r' = Some consent
            \<and> get_active_or_frozen_penalty_window s = None
            \<and> request_by_id i s' = Some r' \<and> fetch_active_request s' = None
            \<and> operating_mode_row s' = \<lparr>current_mode = mt_target_mode r, mode_activated_at = now\<rparr>)))"
proof (cases "consent_given consent")
  case False
  then show ?thesis using res by (simp add: confirm_no_consent)
next
  case consent: True
  show ?thesis
  proof (cases "request_by_id i s")
    case None
    then show ?thesis using res by (simp add: confirm_eq [OF ok consent])
  next
    case (Some r)
    show ?thesis
    proof (cases "mt_status r = AWAITING_CONFIRMATION \<and> get_active_or_frozen_penalty_window s = None")
      case True
      let ?r = "confirmed consent now r"
      have s': "res = Inr ?r" "s' = switched (mt_target_mode r) now (put ?r s)"
        using res Some True by (simp_all add: confirm_eq [OF ok consent])
      note row = request_by_idD [OF Some]
      have ok': "mode_ok s'" using op_keepsD [OF op_keeps_mode_confirm ok] res by (metis snd_conv)
      have mem: "?r \<in> set (mode_transition_requests s')" and id: "mt_id ?r = i"
        using row unfolding s' by (auto simp: put_request_def set_update_where confirmed_def)
      have found: "request_by_id i s' = Some ?r" unfolding request_by_id_def id [symmetric]
        by (rule row_by_unique [OF mode_okD(1) [OF ok'] mem])
      have "fetch_active_request s' = None"
      proof (rule ccontr)
        assume "fetch_active_request s' \<noteq> None"
        then obtain q where q: "fetch_active_request s' = Some q" by blast
        have qs: "q \<in> set (put_request ?r (mode_transition_requests s))" "open_request q"
          using fetch_activeD [OF q] unfolding s' by simp_all
        have "\<not> open_request ?r" by (simp add: confirmed_def)
        then have "q \<in> set (mode_transition_requests s)" "mt_id q \<noteq> i" using qs id row
          by (auto simp: put_request_def set_update_where)
        moreover have "open_request r" using True by simp
        ultimately show False
          using count_le_1_unique [OF mode_okD(2) [OF ok] _ qs(2) conjunct1 [OF row]] row by blast
      qed
      with found s' True Some show ?thesis by (auto simp: confirmed_def)
    next
      case False
      show ?thesis
      proof (cases "mt_status r = AWAITING_CONFIRMATION")
        case True
        with False have "get_active_or_frozen_penalty_window s \<noteq> None" by simp
        from engine_read.confirm_blocked [OF ok consent Some True this res] Some this show ?thesis by auto
      qed (use res Some in \<open>simp add: confirm_eq [OF ok consent]\<close>)
    qed
  qed
qed

theorem confirm_transition_outcomes_witness:
  "fst (confirm_transition 0 get_active_or_frozen_penalty_window ''c1'' 0 mode_requested)
     = Inl ModeTransitionNotConfirmableError"
proof -
  have r: "request_by_id 0 mode_requested = Some sample_request"
    by (simp add: request_by_id_def mode_requested_def sample_request_def new_request_def)
  obtain res s' where run: "confirm_transition 0 get_active_or_frozen_penalty_window ''c1'' 0 mode_requested = (res, s')"
    by (cases "confirm_transition 0 get_active_or_frozen_penalty_window ''c1'' 0 mode_requested")
  have "mt_status sample_request = WAITING" by (simp add: sample_request_def new_request_def)
  then have "res = Inl ModeTransitionNotConfirmableError"
    using confirm_transition_outcomes [OF mode_requested_ok run] run consent_sample r
    by (simp add: confirm_eq [OF mode_requested_ok consent_sample])
  then show ?thesis by (simp add: run)
qed

text \<open>
  Every outcome of request_transition: missing consent, an open request, the current mode as the
  target and a return to STANDARD before 30 days raise their own exception, in this order, and change
  nothing; otherwise one request from the current mode is stored, BLOCKED while a penalty window is
  open and else WAITING for 24 hours, and it is the only open request.
\<close>

theorem request_transition_outcomes:
  assumes ok: "mode_ok s" and res: "request_transition get_active_or_frozen_penalty_window target consent now s = (res, s')"
  shows "(case res of
      Inl e \<Rightarrow> s' = s \<and> e =
        (if \<not> consent_given consent then ValueError
         else if fetch_active_request s \<noteq> None then ActiveModeTransitionExistsError
         else if target = current_mode (operating_mode_row s) then ValueError
         else MinimumTimeInAdvancedNotMetError)
    | Inr r \<Rightarrow> consent_given consent \<and> fetch_active_request s = None
        \<and> mt_source_mode r = current_mode (operating_mode_row s) \<and> mt_target_mode r = target
        \<and> (target = STANDARD \<longrightarrow> mode_activated_at (operating_mode_row s) + 30 * day \<le> now)
        \<and> (if get_active_or_frozen_penalty_window s = None
           then mt_status r = WAITING \<and> mt_confirmable_at r = Some (now + 24 * hour)
           else mt_status r = BLOCKED_BY_PENALTY_WINDOW \<and> mt_confirmable_at r = None)
        \<and> fetch_active_request s' = Some r \<and> operating_mode_row s' = operating_mode_row s)"
proof (cases res)
  case (Inl e)
  then show ?thesis using res by (auto simp: request_eq Let_def split: if_splits)
next
  case (Inr r)
  have ok': "mode_ok s'" using op_keepsD [OF op_keeps_mode_request ok] res by (metis snd_conv)
  have run: "r = new_request (next_id s) (current_mode (operating_mode_row s)) target
       (get_active_or_frozen_penalty_window s \<noteq> None) consent now"
    "consent_given consent" "fetch_active_request s = None" "operating_mode_row s' = operating_mode_row s"
    "r \<in> set (mode_transition_requests s')"
    "target = STANDARD \<longrightarrow> mode_activated_at (operating_mode_row s) + minimum_time_in_advanced \<le> now"
    using res Inr by (auto simp: request_eq Let_def split: if_splits)
  moreover have "open_request r" unfolding run(1) by (simp add: new_request_def)
  then have "fetch_active_request s' = Some r" by (rule open_requestI [OF ok' run(5)])
  ultimately show ?thesis using Inr
    by (auto simp: new_request_def minimum_time_in_advanced_def confirmation_wait_def)
qed

theorem request_transition_outcomes_witness:
  "\<exists>r s'. request_transition get_active_or_frozen_penalty_window ADVANCED ''c1'' 0 mode_sample = (Inr r, s')
     \<and> mt_status r = WAITING"
proof -
  have ok: "mode_ok mode_sample" by (simp add: mode_sample_def mode_ok_def requests_ok_def)
  have eq: "request_transition get_active_or_frozen_penalty_window ADVANCED ''c1'' 0 mode_sample
      = (Inr sample_request, mode_requested)"
    by (simp add: request_eq consent_sample mode_requested_def mode_sample_def sample_request_def Let_def
        fetch_active_request_def get_active_or_frozen_penalty_window_def)
  have "get_active_or_frozen_penalty_window mode_sample = None"
    by (simp add: mode_sample_def get_active_or_frozen_penalty_window_def)
  with request_transition_outcomes [OF ok eq] eq show ?thesis by simp
qed

text \<open>
  advance_transition_state is idempotent at one instant: a second call returns the same request
  and changes nothing, so calling it before every read is safe.
\<close>

theorem advance_settles:
  assumes "mode_ok s" and "advance_transition_state get_active_or_frozen_penalty_window now s = (r, s1)"
  shows "advance_transition_state get_active_or_frozen_penalty_window now s1 = (r, s1)"
  using assms by (rule engine_read.advance_idempotent)

theorem advance_settles_witness:
  "snd (advance_transition_state get_active_or_frozen_penalty_window confirmation_wait mode_waited) = mode_waited"
  using advance_settles [OF mode_requested_ok prod.collapse [symmetric], of confirmation_wait]
  by (simp add: mode_waited_eq [symmetric])

end
