(* ===== verification/System_Safety.thy ===== *)
theory System_Safety
  imports System_Run Goal_Properties Recovery_Properties Mode_Properties
begin

text \<open>
  What no step of the system can do, whatever the state and the arguments: change the operating mode
  other than by a confirmed transition, reopen a finished goal, touch a closed recovery task, or
  rewrite an audit row. Each is an instance of \<open>kept_elsewhere\<close> or \<open>system_frame\<close>.
\<close>

section \<open>The operating mode\<close>

interpretation mode_row_plans: recovery_frame "\<lambda>s. operating_mode_row s = m" for m
  by unfold_locales (simp_all add: keeps_def tx_simps insert_event_def)

interpretation mode_row_goals: goal_frame "\<lambda>s. operating_mode_row s = m" for m
  by unfold_locales (simp_all add: keeps_def tx_simps insert_event_def)

interpretation mode_row_requests: request_frame "\<lambda>s. operating_mode_row s = m" for m
  by unfold_locales (simp_all add: keeps_def tx_simps)

interpretation mode_row_consumers: consumer_frame "\<lambda>s. operating_mode_row s = m" for m
  by unfold_locales (simp_all add: keeps_def tx_simps insert_event_def)

interpretation mode_row: kept_elsewhere "\<lambda>s. operating_mode_row s = m" for m
  by unfold_locales
    (simp_all add: keeps_def tx_simps insert_event_def,
     (rule mode_row_plans.operations mode_row_goals.operations mode_row_requests.request_operations)+)

section \<open>Finished goals\<close>

definition retired :: "uid \<Rightarrow> goal \<Rightarrow> 'm goal_db_scheme \<Rightarrow> bool" where
  \<comment> \<open>the goal is finished and its row is \<open>g\<close>, up to the time it was archived\<close>
  "retired i g s \<longleftrightarrow> goal_terminal g \<and>
     map_option (\<lambda>x. x\<lparr>go_archived_at := None\<rparr>) (get_goal i s) = Some g"

lemma retired_cong: "goals s' = goals s \<Longrightarrow> retired i g s \<Longrightarrow> retired i g s'"
  by (simp add: retired_def get_goal_def)

lemma retired_append: "retired i g s \<Longrightarrow> retired i g (s\<lparr>goals := goals s @ gs\<rparr>)"
  by (auto simp: retired_def get_goal_def row_by_append)

lemma retired_update:
  assumes "retired i g s" and "\<And>x. go_group_id (f x) = go_group_id x"
    and "\<And>x. get_goal i s = Some x \<Longrightarrow> j = i \<Longrightarrow> (f x)\<lparr>go_archived_at := None\<rparr> = x\<lparr>go_archived_at := None\<rparr>"
  shows "retired i g (s\<lparr>goals := update_where (\<lambda>x. go_group_id x = j) f (goals s)\<rparr>)"
proof -
  have "row_by go_group_id i (update_where (\<lambda>x. go_group_id x = j) f (goals s)) =
      map_option (\<lambda>x. if go_group_id x = j then f x else x) (get_goal i s)"
    unfolding get_goal_def by (rule row_by_update_where) (rule assms(2))
  moreover obtain x where x: "get_goal i s = Some x" using assms(1) by (auto simp: retired_def)
  ultimately have "get_goal i (s\<lparr>goals := update_where (\<lambda>x. go_group_id x = j) f (goals s)\<rparr>)
      = Some (if j = i then f x else x)" using get_goalD [OF x] by (simp add: get_goal_def)
  then show ?thesis using assms(1) assms(3) [OF x] x by (simp add: retired_def)
qed

lemma retired_terminal: "retired i g s \<Longrightarrow> get_goal i s = Some x \<Longrightarrow> goal_terminal x"
  by (auto simp: retired_def goal_terminal_def)

text \<open>A change of an open goal leaves a finished one alone.\<close>

lemma retired_other:
  assumes "retired i g s" and "get_goal j s = Some x" and "\<not> goal_terminal x"
    and "\<And>x. go_group_id (f x) = go_group_id x"
  shows "retired i g (s\<lparr>goals := update_where (\<lambda>x. go_group_id x = j) f (goals s)\<rparr>)"
  using assms retired_terminal [OF assms(1)] by (intro retired_update) auto

lemma retired_set_status:
  "retired i g s \<Longrightarrow> get_goal j s = Some x \<Longrightarrow> \<not> goal_terminal x \<Longrightarrow> retired i g (set_goal_status j st now s)"
  unfolding set_goal_status_def by (rule retired_other) simp_all

interpretation retired_consumers: consumer_frame "retired i g" for i g
  by unfold_locales (simp_all add: keeps_def tx_simps insert_event_def, simp_all add: retired_def get_goal_def)

interpretation retired_mode: mode_frame "retired i g" for i g
  by unfold_locales (simp_all add: keeps_def tx_simps, simp_all add: retired_def get_goal_def)

lemma retired_move:
  assumes "\<forall>st \<in> set from. \<not> st \<in> set goal_terminal_statuses"
  shows "op_keeps (retired i g) (transition_goal j st act from ty extra now)"
  unfolding transition_goal_def
  by (intro op_keeps_transition retired_consumers.engine.emit keepsI)
    (use assms in \<open>auto simp: tx_success load_goal_in_Inr goal_terminal_def intro!: retired_set_status\<close>)

lemma retired_create: "op_keeps (retired i g) (create_goal ti de dm via now)"
  unfolding create_goal_def
  by (intro op_keeps_transition retired_consumers.engine.emit keepsI)
    (auto simp: tx_success new_id_def Let_def insert_goal_def insert_version_def retired_def get_goal_def row_by_append)

lemma retired_archive: "op_keeps (retired i g) (archive_goal j now)"
  unfolding archive_goal_def
  by (intro op_keeps_transition retired_consumers.engine.emit keepsI)
    (auto simp: tx_success load_goal_in_Inr intro!: retired_update)

lemma retired_same: "keeps (retired i g) (tx_modify h)" if "\<And>s. goals (h s) = goals s"
  by (rule keepsI) (use that in \<open>auto simp: tx_success elim: retired_cong [rotated]\<close>)

lemma retired_evidence: "op_keeps (retired i g) (record_evidence gid vid x y oc pr src now)"
  unfolding record_evidence_def Let_def
  by (intro op_keeps_transition keeps_bind retired_consumers.engine.new_id retired_consumers.engine.emit
      keeps_get keeps_require keeps_return retired_same) simp

lemma retired_evaluation: "op_keeps (retired i g) (record_evaluation gid es fi iv de now)"
  unfolding record_evaluation_def Let_def
  by (intro op_keeps_if op_keeps_raise op_keeps_transition keeps_bind retired_consumers.engine.new_id
      retired_consumers.engine.emit keeps_get keeps_require keeps_return retired_same) simp

lemma retired_propose: "op_keeps (retired i g) (create_change_proposal gid ch re x ev ti de rep now)"
  unfolding create_change_proposal_def Let_def
  by (intro op_keeps_transition keeps_bind retired_consumers.engine.new_id
      retired_consumers.engine.emit keeps_get keeps_require keeps_return retired_same) simp

lemma retired_load_pending: "keeps (retired i g) (load_pending_proposal j)"
  unfolding load_pending_proposal_def by (intro keeps_bind keeps_get keeps_the keeps_require keeps_return)

lemma retired_proposal_status: "keeps (retired i g) (tx_modify (set_proposal_status j st now))"
  by (rule retired_same) simp

lemma retired_emitted: "retired i g s \<Longrightarrow> retired i g (emitted ty src p now s)"
  by (erule retired_cong [rotated]) simp

lemma retired_adapt: "keeps (retired i g) (apply_adaptation_in_transaction gid c now)"
proof (rule keepsI)
  fix s s' :: "'a goal_db_scheme" and a
  assume r: "retired i g s" and "apply_adaptation_in_transaction gid c now s = Inr (a, s')"
  then obtain x cur ct ty src p where x: "get_goal gid s = Some x" "go_status x = GS_ACTIVE"
      and s': "s' = emitted ty src p now (adapted gid cur ct now s)"
    unfolding apply_adaptation_Inr by blast
  have "retired i g (s\<lparr>goals := update_where (\<lambda>x. go_group_id x = gid)
      (\<lambda>x. x\<lparr>go_current_version_id := next_id s\<rparr>) (goals s)\<rparr>)"
    by (rule retired_other [OF r x(1)]) (simp_all add: goal_terminal_iff x(2))
  then show "retired i g s'" unfolding s' adapted_def
    by (intro retired_emitted) (erule retired_cong [rotated], simp)
qed

lemma retired_replace: "keeps (retired i g) (apply_replacement_in_transaction gid c now)"
proof (rule keepsI)
  fix s s' :: "'a goal_db_scheme" and a
  assume r: "retired i g s" and "apply_replacement_in_transaction gid c now s = Inr (a, s')"
  then obtain x cur ct where x: "get_goal gid s = Some x" "go_status x = GS_ACTIVE \<or> go_status x = GS_PAUSED"
      and s': "s' = replacement_events gid cur (next_id s) now (replaced gid cur ct now s)"
    unfolding apply_replacement_Inr by blast
  have "retired i g (s\<lparr>goals := update_where (\<lambda>x. go_group_id x = gid)
      (\<lambda>x. x\<lparr>go_status := GS_REPLACED, go_status_changed_at := now\<rparr>) (goals s)\<rparr>)"
    by (rule retired_other [OF r x(1)]) (use x(2) in \<open>auto simp: goal_terminal_iff\<close>)
  from retired_append [OF this, of "[replacement_goal (Suc (next_id s)) (next_id s) gid now]"]
  show "retired i g s'" unfolding s' replacement_events_def replaced_def
    by (intro retired_emitted) (erule retired_cong [rotated], simp)
qed

lemma retired_abandon: "keeps (retired i g) (apply_abandonment_in_transaction gid now)"
  by (rule keepsI) (auto simp: apply_abandonment_in_transaction_def tx_bind_eq_Inr load_goal_in_Inr
      tx_modify_apply emit_emitted goal_terminal_iff intro!: retired_emitted retired_set_status)

lemma retired_apply: "keeps (retired i g) (apply_change ch gid c now)"
  by (cases ch) (simp_all add: apply_change_def keeps_return retired_adapt retired_replace retired_abandon)

lemma retired_accept: "op_keeps (retired i g) (accept_proposal j now)"
  unfolding accept_proposal_def accept_proposal_write_def emit_resolved_def
  by (intro op_keeps_bind op_keeps_return op_keeps_transition keeps_bind keeps_get keeps_return
      retired_load_pending retired_proposal_status retired_apply retired_consumers.engine.emit)

lemma retired_resolve: "op_keeps (retired i g) (resolve_proposal_without_effect j st res now)"
  unfolding resolve_proposal_without_effect_def emit_resolved_def
  by (intro op_keeps_bind op_keeps_return op_keeps_transition keeps_bind keeps_return
      retired_load_pending retired_proposal_status retired_consumers.engine.emit)

lemma retired_recover: "op_keeps (retired i g) (recover_goal_management_state now)"
  unfolding recover_goal_management_state_def
  by (intro op_keeps_bind op_keeps_get op_keeps_for op_keeps_return retired_resolve)

lemma retired_lifecycle:
  "op_keeps (retired i g) (pause_goal j r now)" "op_keeps (retired i g) (resume_goal j now)"
  "op_keeps (retired i g) (complete_goal j r now)" "op_keeps (retired i g) (decline_proposal j now)"
  unfolding pause_goal_def resume_goal_def complete_goal_def decline_proposal_def
  by (rule retired_move retired_resolve; simp add: goal_terminal_statuses_def)+

interpretation retired: kept_elsewhere "retired i g" for i g
  by unfold_locales
    (rule retired_consumers.plans.operations retired_create retired_lifecycle retired_archive retired_evidence
      retired_evaluation retired_propose retired_accept retired_recover retired_mode.operations
      retired_consumers.engine.new_id retired_consumers.engine.emit | (erule retired_cong [rotated], simp))+

section \<open>Closed recovery tasks\<close>

definition task_closed :: "uid \<Rightarrow> recovery_task \<Rightarrow> 'm recovery_db_scheme \<Rightarrow> bool" where
  "task_closed i t s \<longleftrightarrow> \<not> task_open t \<and> get_recovery_task i s = Some t"

lemma task_closed_cong: "recovery_tasks s' = recovery_tasks s \<Longrightarrow> task_closed i t s \<Longrightarrow> task_closed i t s'"
  by (simp add: task_closed_def get_recovery_task_def)

lemma task_closed_append: "task_closed i t s \<Longrightarrow> task_closed i t (s\<lparr>recovery_tasks := recovery_tasks s @ ts\<rparr>)"
  by (auto simp: task_closed_def get_recovery_task_def row_by_append)

lemma task_closed_update:
  assumes "task_closed i t s" and "\<And>x. rt_id (f x) = rt_id x" and "\<not> q t"
  shows "task_closed i t (s\<lparr>recovery_tasks := update_where q f (recovery_tasks s)\<rparr>)"
proof -
  have "row_by rt_id i (update_where q f (recovery_tasks s)) =
      map_option (\<lambda>x. if q x then f x else x) (get_recovery_task i s)"
    unfolding get_recovery_task_def by (rule row_by_update_where) (rule assms(2))
  with assms(1,3) show ?thesis by (auto simp: task_closed_def get_recovery_task_def)
qed

lemma task_closed_set_status:
  assumes "task_closed i t s" and "get_recovery_task j s = Some x" and "task_open x"
  shows "task_closed i t (set_task_status j st now s)"
proof -
  have "rt_id t \<noteq> j" using assms get_recovery_taskD(2) [of i s t] by (auto simp: task_closed_def)
  then show ?thesis unfolding set_task_status_def by (intro task_closed_update assms(1)) simp_all
qed

interpretation task_closed_engine: penalty_frame "task_closed i t" for i t
  by unfold_locales (simp_all add: keeps_def tx_simps insert_event_def, simp_all add: task_closed_def get_recovery_task_def)

interpretation task_closed_goals: goal_frame "task_closed i t" for i t
  by unfold_locales (simp_all add: task_closed_engine.new_id task_closed_engine.emit, (erule task_closed_cong [rotated], simp)+)

interpretation task_closed_mode: mode_frame "task_closed i t" for i t
  by unfold_locales (simp_all add: task_closed_engine.new_id, (erule task_closed_cong [rotated], simp)+)

lemma task_closed_same: "keeps (task_closed i t) (tx_modify h)" if "\<And>s. recovery_tasks (h s) = recovery_tasks s"
  by (rule keepsI) (use that in \<open>auto simp: tx_success elim: task_closed_cong [rotated]\<close>)

lemma task_closed_create: "keeps (task_closed i t) (create_plan_in_transaction w x now)"
  unfolding create_plan_in_transaction_def Let_def
  by (intro keeps_bind task_closed_engine.new_id keeps_get keeps_require keeps_return task_closed_same) simp

lemma task_closed_mirror: "keeps (task_closed i t) (mirror_status_in_transaction w st now)"
  unfolding mirror_status_in_transaction_def
  by (intro keeps_bind keeps_get) (auto split: option.split intro!: keeps_bind keeps_return task_closed_same)

lemma task_closed_regenerate: "keeps (task_closed i t) (regenerate_in_transaction w x now)"
proof (rule keepsI)
  fix s s' :: "'a recovery_db_scheme" and a
  assume c: "task_closed i t s" and "regenerate_in_transaction w x now s = Inr (a, s')"
  then show "task_closed i t s'"
  proof (cases "get_recovery_plan_for_window w s")
    case None
    with c \<open>regenerate_in_transaction w x now s = Inr (a, s')\<close> show ?thesis
      by (simp add: regenerate_in_transaction_def tx_success)
  next
    case (Some p)
    have "task_closed i t (s\<lparr>recovery_tasks := update_where
       (\<lambda>t. rt_recovery_plan_id t = rp_id p \<and> rt_plan_version t = rp_current_version p \<and> task_open t)
       (\<lambda>t. t\<lparr>rt_status := RT_EXPIRED, rt_status_changed_at := now\<rparr>) (recovery_tasks s)\<rparr>)"
      using c by (intro task_closed_update) (auto simp: task_closed_def)
    with Some \<open>regenerate_in_transaction w x now s = Inr (a, s')\<close> show ?thesis
      by (auto simp: regenerate_in_transaction_def tx_success Let_def elim!: task_closed_cong [rotated])
  qed
qed

interpretation task_closed_reactions: reactions "task_closed i t" for i t
  by unfold_locales
    (rule task_closed_engine.keeps_consume task_closed_engine.keeps_credit task_closed_create task_closed_mirror
      task_closed_regenerate task_closed_engine.emit)+

lemma task_closed_move:
  assumes "\<forall>st \<in> set from. st = RT_PROPOSED \<or> st = RT_ACCEPTED"
  shows "op_keeps (task_closed i t) (transition_task j st ty now from)"
  unfolding transition_task_def
  by (intro op_keeps_transition task_closed_engine.emit keepsI)
    (use assms in \<open>auto simp: tx_success load_task_in_def task_open_def intro!: task_closed_set_status\<close>)

lemma task_closed_accept: "op_keeps (task_closed i t) (accept_task j now)"
  and task_closed_withdraw: "op_keeps (task_closed i t) (withdraw_task j now)"
  unfolding accept_task_def withdraw_task_def
  by (rule op_keeps_bind [OF task_closed_move op_keeps_return]; simp)+

lemma task_closed_propose: "op_keeps (task_closed i t) (propose_task p ti de h now)"
  unfolding propose_task_def Let_def
  by (intro op_keeps_transition keeps_bind keeps_get keeps_the keeps_return task_closed_engine.new_id
      task_closed_engine.emit keeps_modify task_closed_append)

lemma task_closed_complete_write: "keeps (task_closed i t) (complete_task_write j now notes)"
proof (rule keepsI)
  fix s s' :: "'a recovery_db_scheme" and a
  assume c: "task_closed i t s" and run: "complete_task_write j now notes s = Inr (a, s')"
  then obtain x where x: "get_recovery_task j s = Some x" "task_open x"
    by (auto simp: complete_task_write_def load_task_in_def tx_success task_open_def)
  have "recovery_tasks s' = recovery_tasks (set_task_status j RT_COMPLETED now s)"
    using run by (auto simp: complete_task_write_def load_task_in_def tx_success new_id_def Let_def)
  then show "task_closed i t s'" using task_closed_set_status [OF c x] by (rule task_closed_cong)
qed

lemma task_closed_complete: "op_keeps (task_closed i t) (complete_task j now notes)"
  unfolding complete_task_def emit_task_completed_def case_prod_beta
  by (intro op_keeps_bind op_keeps_return op_keeps_transition task_closed_engine.emit task_closed_complete_write)

interpretation task_closed: kept_elsewhere "task_closed i t" for i t
  by unfold_locales
    (rule task_closed_propose task_closed_accept task_closed_withdraw task_closed_complete
      task_closed_goals.operations task_closed_mode.request_operations task_closed_engine.new_id
      task_closed_engine.emit | (erule task_closed_cong [rotated], simp))+

section \<open>Properties\<close>

text \<open>
  Consent and cooling-off for the whole system: if any step, of any module, publisher or startup,
  changes the operating mode of a reachable database, the step is a confirm_transition with given
  consent, of a request in AWAITING_CONFIRMATION whose confirmable_at is 24 hours after its wait
  began, made from the current mode, while no penalty window is open; the new mode is the request's
  target.
\<close>

theorem mode_change_guarded:
  assumes "reachable s" and "system_step s s'" and "operating_mode_row s' \<noteq> operating_mode_row s"
  shows "\<exists>i consent now r w. s' = snd (confirm_transition i get_active_or_frozen_penalty_window consent now s)
    \<and> consent_given consent \<and> get_active_or_frozen_penalty_window s = None
    \<and> request_by_id i s = Some r \<and> mt_status r = AWAITING_CONFIRMATION
    \<and> mt_wait_started_at r = Some w \<and> mt_confirmable_at r = Some (w + 24 * hour)
    \<and> mt_source_mode r = current_mode (operating_mode_row s)
    \<and> operating_mode_row s' = \<lparr>current_mode = mt_target_mode r, mode_activated_at = now\<rparr>"
proof -
  have ok: "mode_ok s" using run_okD(9) [OF reachable_ok [OF assms(1)]] .
  obtain i consent now where s': "s' = snd (confirm_transition i get_active_or_frozen_penalty_window consent now s)"
    using mode_row.step_or_confirm [OF assms(2) refl] assms(3) by blast
  have consent: "consent_given consent"
    using s' assms(3) by (cases "consent_given consent") (auto simp: confirm_no_consent)
  obtain r where r: "request_by_id i s = Some r" "mt_status r = AWAITING_CONFIRMATION"
      "get_active_or_frozen_penalty_window s = None" "s' = switched (mt_target_mode r) now (put (confirmed consent now r) s)"
    using s' assms(3) unfolding confirm_eq [OF ok consent] by (auto split: option.splits if_splits)
  note row = request_by_idD [OF r(1)]
  have "request_ok r" "fits_mode (operating_mode_row s) r" using mode_okD(3,4) [OF ok] row r(2) by simp_all
  then obtain w where "mt_wait_started_at r = Some w" "mt_confirmable_at r = Some (w + 24 * hour)"
      "mt_source_mode r = current_mode (operating_mode_row s)"
    using r(2) by (auto simp: fits_mode_def request_ok_def confirmation_wait_def split: option.splits)
  moreover have "operating_mode_row s' = \<lparr>current_mode = mt_target_mode r, mode_activated_at = now\<rparr>"
    by (simp add: r(4))
  ultimately show ?thesis using s' consent r(1-3) by blast
qed

lemma mode_waited_reachable: "reachable mode_waited"
proof -
  have "mode_requested = snd (request_transition get_active_or_frozen_penalty_window ADVANCED ''c1'' 0 (fresh_db 0))"
    by (simp add: request_eq consent_sample mode_requested_def mode_sample_def fresh_db_def sample_request_def Let_def
        fetch_active_request_def get_active_or_frozen_penalty_window_def)
  then have "reachable mode_requested" by (metis next_step initially step_request_transition)
  then show ?thesis unfolding mode_waited_eq by (rule next_step [OF _ step_advance_transition_state])
qed

theorem mode_change_guarded_witness:
  "operating_mode_row (snd (confirm_transition 0 get_active_or_frozen_penalty_window ''c1'' 5 mode_waited))
     \<noteq> operating_mode_row mode_waited
   \<and> (\<exists>i r. request_by_id i mode_waited = Some r \<and> mt_status r = AWAITING_CONFIRMATION)"
proof -
  have ok: "mode_ok mode_waited" using run_okD(9) [OF reachable_ok [OF mode_waited_reachable]] .
  have "operating_mode_row (snd (confirm_transition 0 get_active_or_frozen_penalty_window ''c1'' 5 mode_waited))
      \<noteq> operating_mode_row mode_waited"
    unfolding confirm_eq [OF ok consent_sample]
    by (simp add: mode_waited_request mode_waited_window sample_request_def new_request_def)
      (simp add: mode_waited_def mode_requested_def mode_sample_def)
  with mode_change_guarded [OF mode_waited_reachable step_confirm_transition this] show ?thesis by blast
qed

text \<open>
  A finished goal stays finished: no step of the system, whatever the database, changes anything
  of a goal that is COMPLETED, ABANDONED or REPLACED except the time it was archived at.
\<close>

theorem finished_goal_final:
  assumes "system_step s s'" and "get_goal i s = Some g" and "goal_terminal g"
  shows "\<exists>a. get_goal i s' = Some (g\<lparr>go_archived_at := a\<rparr>)"
proof -
  have "retired i (g\<lparr>go_archived_at := None\<rparr>) s" using assms(2,3) by (simp add: retired_def goal_terminal_def)
  then have "retired i (g\<lparr>go_archived_at := None\<rparr>) s'"
    by (rule retired.step [OF assms(1) _ retired_mode.confirm])
  then obtain x where x: "get_goal i s' = Some x" "x\<lparr>go_archived_at := None\<rparr> = g\<lparr>go_archived_at := None\<rparr>"
    by (auto simp: retired_def)
  then have "x = g\<lparr>go_archived_at := go_archived_at x\<rparr>" by (cases x, cases g) simp
  with x(1) show ?thesis by metis
qed

theorem finished_goal_final_witness:
  "\<exists>a. get_goal 1 (snd (archive_goal 1 9 (fresh_db 0\<lparr>goals := [sample_goal\<lparr>go_status := GS_COMPLETED\<rparr>]\<rparr>)))
     = Some (sample_goal\<lparr>go_status := GS_COMPLETED, go_archived_at := a\<rparr>)"
proof -
  let ?s = "fresh_db 0\<lparr>goals := [sample_goal\<lparr>go_status := GS_COMPLETED\<rparr>]\<rparr>"
  have "get_goal 1 ?s = Some (sample_goal\<lparr>go_status := GS_COMPLETED\<rparr>)" by (simp add: get_goal_def sample_goal_def)
  moreover have "goal_terminal (sample_goal\<lparr>go_status := GS_COMPLETED\<rparr>)" by (simp add: goal_terminal_iff)
  ultimately show ?thesis using finished_goal_final [OF step_archive_goal [where s = ?s and i = 1 and now = 9]] by auto
qed

text \<open>
  A closed recovery task is final: no step of the system, whatever the database, changes the row
  of a task that is COMPLETED, EXPIRED or WITHDRAWN.
\<close>

theorem closed_task_final:
  assumes "system_step s s'" and "get_recovery_task i s = Some t" and "\<not> task_open t"
  shows "get_recovery_task i s' = Some t"
proof -
  have "task_closed i t s" using assms(2,3) by (simp add: task_closed_def)
  then have "task_closed i t s'" by (rule task_closed.step [OF assms(1) _ task_closed_mode.confirm])
  then show ?thesis by (simp add: task_closed_def)
qed

theorem closed_task_final_witness:
  "get_recovery_task 3 (snd (complete_task 3 9 None (fresh_db 0\<lparr>recovery_tasks := [sample_task\<lparr>rt_status := RT_EXPIRED\<rparr>]\<rparr>)))
     = Some (sample_task\<lparr>rt_status := RT_EXPIRED\<rparr>)"
  by (rule closed_task_final [OF step_complete_task])
    (simp_all add: get_recovery_task_def sample_task_def task_open_def)

text \<open>
  C23: The audit tables are append-only: every step of the system extends confirmations, trust
  evidence and its application, consumptions, extension and credit decisions, the credit ledger, task
  completions, goal versions, evidence, evaluations and proposal contents, and never rewrites or
  removes a row of them.
\<close>

theorem audit_append_only:
  assumes "system_step s s'"
  shows "prefix (confirmation_records s) (confirmation_records s')
    \<and> prefix (trust_evidence s) (trust_evidence s')
    \<and> prefix (trust_recalculation_evidence s) (trust_recalculation_evidence s')
    \<and> prefix (incident_consumption s) (incident_consumption s')
    \<and> prefix (extension_decisions s) (extension_decisions s')
    \<and> prefix (recovery_credit_decisions s) (recovery_credit_decisions s')
    \<and> prefix (recovery_credit_ledger s) (recovery_credit_ledger s')
    \<and> prefix (recovery_task_completions s) (recovery_task_completions s')
    \<and> prefix (goal_versions s) (goal_versions s')
    \<and> prefix (goal_evidence_rows s) (goal_evidence_rows s')
    \<and> prefix (goal_evaluations s) (goal_evaluations s')
    \<and> prefix (goal_change_proposal_contents s) (goal_change_proposal_contents s')"
  using audit_extends_step [OF assms] by (simp add: audit_extends_def)

text \<open>The goal version of a first goal is still there, in front, after a second goal was created.\<close>

definition after_first_goal :: mode_db where
  "after_first_goal = snd (create_goal ''run'' ''three times a week'' ''fitness'' ''user'' 1 (fresh_db 0))"

definition after_second_goal :: mode_db where
  "after_second_goal = snd (create_goal ''read'' ''a book a month'' ''learning'' ''user'' 2 after_first_goal)"

theorem audit_append_only_witness:
  "\<exists>v w. goal_versions after_first_goal = [v] \<and> gv_title v = ''run''
    \<and> prefix [v] (goal_versions after_second_goal) \<and> goal_versions after_second_goal = [v, w] \<and> gv_title w = ''read''"
proof -
  have step: "system_step after_first_goal after_second_goal"
    unfolding after_second_goal_def by (rule step_create_goal)
  have "\<exists>v. goal_versions after_first_goal = [v] \<and> gv_title v = ''run''"
    by (simp add: after_first_goal_def create_goal_def transition_eq atomically_def tx_bind_apply tx_simps Let_def
        insert_goal_def insert_version_def emit_emitted fresh_db_def emitted_def insert_event_def)
  then obtain v where v: "goal_versions after_first_goal = [v]" "gv_title v = ''run''" by blast
  moreover have "\<exists>w. goal_versions after_second_goal = goal_versions after_first_goal @ [w] \<and> gv_title w = ''read''"
    by (simp add: after_second_goal_def create_goal_def transition_eq atomically_def tx_bind_apply tx_simps Let_def
        insert_goal_def insert_version_def emit_emitted emitted_def insert_event_def)
  moreover have "prefix [v] (goal_versions after_second_goal)"
    using audit_append_only [OF step] v(1) by simp
  ultimately show ?thesis by auto
qed

end
