(* ===== verification/System_Startup.thy ===== *)
theory System_Startup
  imports System_Safety
begin

text \<open>
  The startup sequence returns and gives its lease back, and every reaction of the composition layer
  is the public operation of its module, run at the time of the event.
\<close>

section \<open>Operations that always return\<close>

definition op_returns :: "('s, 'a) op \<Rightarrow> bool" where
  "op_returns f \<longleftrightarrow> (\<forall>s. \<exists>a. fst (f s) = Inr a)"

lemma op_returns_bind:
  assumes "op_returns f" and "\<And>a. op_returns (g a)"
  shows "op_returns (op_bind f g)"
proof -
  have "\<exists>b. fst (op_bind f g s) = Inr b" for s
  proof -
    obtain a s' where "f s = (Inr a, s')" using assms(1) unfolding op_returns_def by (metis prod.collapse)
    then show ?thesis using assms(2) [of a] by (simp add: op_bind_def op_returns_def)
  qed
  then show ?thesis by (simp add: op_returns_def)
qed

lemma op_returns_simps: "op_returns (op_return a)" "op_returns (op_get f)"
  by (simp_all add: op_returns_def op_return_def op_get_def)

lemma op_returns_for: "(\<And>x. op_returns (f x)) \<Longrightarrow> op_returns (op_for xs f)"
  by (induction xs) (simp_all add: op_returns_simps op_returns_bind)

lemma close_returns: "op_returns (close_freeze_periods_in_transaction i r now why only)"
  unfolding op_returns_def
proof
  fix s :: "'a penalty_db_scheme"
  obtain a s1 where "close_write i r now why only s = Inr (a, s1)" using close_write_returns by blast
  from close_eq [OF this] show "\<exists>a. fst (close_freeze_periods_in_transaction i r now why only s) = Inr a" by auto
qed

lemma complete_window_returns: "op_returns (complete_window i now)"
  by (simp add: op_returns_def complete_window_def transition_eq atomically_def tx_bind_apply tx_simps)

lemma ensure_returns: "op_returns (ensure_current_state now)"
proof -
  have close: "op_returns (close_expired_freezes i now)" for i
    unfolding close_expired_freezes_def
    by (intro op_returns_bind op_returns_simps op_returns_for close_returns)
  show ?thesis unfolding ensure_current_state_def
    by (intro op_returns_bind op_returns_simps)
      (auto split: option.split intro!: op_returns_bind op_returns_simps close complete_window_returns)
qed

lemma publish_returns: "op_returns (process_pending_events reg now)"
  by (simp add: op_returns_def process_pending_events_def pending_rounds_returns)

section \<open>The startup lease is nobody else's\<close>

interpretation lease_consumers: consumer_frame "\<lambda>s. system_startup_lease s = l" for l
  by unfold_locales (simp_all add: keeps_def tx_simps insert_event_def)

interpretation lease_trust: trust_frame "\<lambda>s. system_startup_lease s = l" for l
  by unfold_locales (simp_all add: keeps_def tx_simps insert_event_def)

interpretation lease_goals: goal_frame "\<lambda>s. system_startup_lease s = l" for l
  by unfold_locales (simp_all add: keeps_def tx_simps insert_event_def)

interpretation lease_handlers: event_handlers build_consumer_registry "\<lambda>s. system_startup_lease s = l" for l
  by unfold_locales (simp_all add: lease_consumers.handler set_claimed_def set_published_def)

lemma startup_sequence_lease: "op_keeps (\<lambda>s. system_startup_lease s = l) (startup_sequence now)"
proof -
  have "op_keeps (\<lambda>s. system_startup_lease s = l) (process_pending_events build_consumer_registry now)"
    by (rule op_keepsI) (rule lease_handlers.process_keeps)
  then show ?thesis unfolding startup_sequence_def
    by (intro op_keeps_bind op_keeps_return lease_trust.recover lease_consumers.engine.recover
        lease_goals.recover lease_consumers.plans.recover)
qed

interpretation proposals_consumers: consumer_frame "\<lambda>s. goal_change_proposals s = ps" for ps
  by unfold_locales (simp_all add: keeps_def tx_simps insert_event_def)

interpretation proposals_handlers: event_handlers build_consumer_registry "\<lambda>s. goal_change_proposals s = ps" for ps
  by unfold_locales (simp_all add: proposals_consumers.handler set_claimed_def set_published_def)

section \<open>The startup sequence\<close>

lemma startup_sequence_runs:
  assumes ok: "run_ok s"
  shows "\<exists>s'. startup_sequence now s = (Inr (), s')
    \<and> (\<forall>p \<in> set (goal_change_proposals s'). \<not> proposal_overdue now p)"
proof -
  have trust: "recover_trust_manager_state now s = (Inr 0, s)"
    using run_okD(5) [OF ok] by (simp add: recover_noop trust_invD)
  obtain w s1 where e: "ensure_current_state now s = (Inr w, s1)"
    using ensure_returns unfolding op_returns_def by (metis prod.collapse)
  have "goal_ok s1" using op_keepsD [OF goal_below_penalty.ensure run_okD(8) [OF ok], of now] e by simp
  then obtain overdue s2 where g: "recover_goal_management_state now s1 = (Inr overdue, s2)"
      and none: "\<forall>p \<in> set (goal_change_proposals s2). \<not> proposal_overdue now p"
    using recover_goals_expired none_overdue by blast
  obtain n s3 where p: "process_pending_events build_consumer_registry now s2 = (Inr n, s3)"
    using publish_returns unfolding op_returns_def by (metis prod.collapse)
  have "goal_change_proposals s3 = goal_change_proposals s2"
    using proposals_handlers.process_keeps [of s2 _ now, OF refl] by (simp add: p)
  moreover have "recover_penalty_window_state now s = (Inr (), s1)"
    by (simp add: recover_penalty_window_state_def op_bind_def op_return_def e)
  ultimately show ?thesis using trust g p none
    by (simp add: startup_sequence_def op_bind_def op_return_def recover_recovery_plan_state_def op_get_def)
qed

text \<open>
  C28: on_system_startup in a reachable database: while another process holds a live lease it raises
  StartupLeaseNotAcquired and changes nothing; otherwise it always returns, leaves a reachable
  database in which no overdue change proposal is pending, and has cleared its lease, so that the
  next process can start at once.
\<close>

theorem startup_outcome:
  assumes "reachable s"
  shows "if lease_live (system_startup_lease s) now
    then on_system_startup p now s = (Inl StartupLeaseNotAcquired, s)
    else \<exists>s'. on_system_startup p now s = (Inr (), s') \<and> reachable s'
      \<and> (\<forall>later. \<not> lease_live (system_startup_lease s') later)
      \<and> (\<forall>x \<in> set (goal_change_proposals s'). \<not> proposal_overdue now x)"
proof (cases "lease_live (system_startup_lease s) now")
  case True
  then show ?thesis by (simp add: on_system_startup_def op_bind_def acquire_eq op_raise_def)
next
  case False
  let ?row = "\<lparr>held_by = Some p, acquired_at = Some now, lease_expires_at = Some (now + startup_lease_duration)\<rparr>"
  let ?l = "\<lparr>lease_held_by = p, lease_acquired_at = now, lease_until = now + startup_lease_duration\<rparr>"
  let ?s = "s\<lparr>system_startup_lease := Some ?row\<rparr>"
  have acq: "acquire_system_startup_lease p now startup_lease_duration s = (Inr (Some ?l), ?s)"
    using False by (simp add: acquire_eq)
  have "reachable ?s" using next_step [OF assms step_acquire_system_startup_lease [of s p now startup_lease_duration]] acq by simp
  then obtain s1 where s1: "startup_sequence now ?s = (Inr (), s1)"
      "\<forall>x \<in> set (goal_change_proposals s1). \<not> proposal_overdue now x"
    using startup_sequence_runs [OF reachable_ok] by blast
  have lease: "system_startup_lease s1 = Some ?row"
    using op_keepsD [OF startup_sequence_lease [of "Some ?row" now], of ?s] s1(1) by simp
  obtain s' where s': "on_system_startup p now s = (Inr (), s')"
      "s' = s1\<lparr>system_startup_lease := Some \<lparr>held_by = None, acquired_at = None, lease_expires_at = None\<rparr>\<rparr>"
    using acq s1(1) lease by (simp add: on_system_startup_def op_bind_def op_finally_def release_eq)
  have "reachable s'" using next_step [OF assms step_on_system_startup [of s p now]] s'(1) by simp
  with s' s1(2) False show ?thesis by (simp add: lease_live_def)
qed

theorem startup_outcome_witness:
  "\<exists>s'. on_system_startup ''p1'' 0 (fresh_db 0) = (Inr (), s') \<and> \<not> lease_live (system_startup_lease s') 1"
proof -
  have "\<not> lease_live (system_startup_lease (fresh_db 0)) 0" by (simp add: fresh_db_def lease_live_def)
  then show ?thesis using startup_outcome [OF initially [of 0], of 0 "''p1''"] by auto
qed

section \<open>Reactions and public operations\<close>

lemma transition_forget:
  "op_bind (transition w ev) (\<lambda>_. op_return ()) = atomically (tx_bind w ev)"
  by (rule ext) (auto simp: op_bind_def op_return_def transition_eq atomically_def tx_bind_def tx_return_def
      split: sum.splits)

lemma payload_field_bind:
  assumes "map_of (ce_payload e) k = Some v" and "conv v = Inr x"
  shows "tx_bind (payload_field conv e k) f = f x"
  by (rule ext) (simp add: payload_field_def payload_item_def tx_bind_apply tx_simps assms)

lemma tx_bind_cong_run:
  assumes "\<And>s a s'. m s = Inr (a, s') \<Longrightarrow> f a s' = g a s'"
  shows "tx_bind m f = tx_bind m g"
  using assms by (auto simp: fun_eq_iff tx_bind_def split: sum.split)

lemma created_plan_window:
  "create_plan_in_transaction w b now s = Inr (p, s') \<Longrightarrow> rp_penalty_window_id p = w"
  by (auto simp: create_plan_in_transaction_def tx_success Let_def)

lemma mirrored_plan_window:
  assumes "mirror_status_in_transaction w st now s = Inr (Some p, s')"
  shows "rp_penalty_window_id p = w"
  using assms by (auto simp: mirror_status_in_transaction_def tx_success get_recovery_plan_for_window_def
      dest: row_by_SomeD split: option.splits)

lemma mirror_reaction_runs:
  assumes "map_of (ce_payload e) ''penalty_window_id'' = Some (JId w)"
  shows "mirror_reaction st ty e = tx_bind (mirror_status_in_transaction w st (ce_occurred_at e))
      (emit_if_plan (\<lambda>plan. emit_plan_event ty plan w (ce_occurred_at e)))"
  unfolding mirror_reaction_def using assms
  by (subst payload_field_bind, assumption, simp, intro tx_bind_cong_run)
    (auto simp: emit_if_plan_def emit_recovery_plan_event_def mirrored_plan_window split: option.split)

lemma mirror_reaction_eq:
  assumes "map_of (ce_payload e) ''penalty_window_id'' = Some (JId w)"
  shows "atomically (mirror_reaction st ty e)
    = op_bind (mirror_status_and_emit w st ty (ce_occurred_at e)) (\<lambda>_. op_return ())"
  by (simp add: mirror_reaction_runs [OF assms] mirror_status_and_emit_def transition_forget)

lemma started_reaction_runs:
  assumes w: "map_of (ce_payload e) ''penalty_window_id'' = Some (JId w)"
    and b: "map_of (ce_payload e) ''base_duration_hours'' = Some (JNum b)"
  shows "on_penalty_window_started e = tx_bind (create_plan_in_transaction w b (ce_occurred_at e))
      (\<lambda>plan. emit_plan_event ''recovery_plan.created'' plan w (ce_occurred_at e))"
  unfolding on_penalty_window_started_def
  by (simp add: payload_field_bind [OF w] payload_field_bind [OF b], intro tx_bind_cong_run)
    (simp add: emit_recovery_plan_event_def created_plan_window)

lemma op_forget:
  "op_bind (op_bind f (\<lambda>r. op_return (h r))) (\<lambda>_. op_return ()) = op_bind f (\<lambda>_. op_return ())"
  by (rule ext) (auto simp: op_bind_def op_return_def split: prod.split sum.split)

lemma atomically_nothing: "atomically (tx_return a) = op_return a"
  by (rule ext) (simp add: atomically_def tx_return_def op_return_def)

lemma tx_lift_bind: "x = Inr a \<Longrightarrow> tx_bind (tx_lift x) f = f a"
  by (rule ext) (simp add: tx_bind_apply tx_simps)

text \<open>
  The reactions of the composition layer and the public operations of the modules agree: run as a
  transaction on an event with a well-formed payload, each handler has the outcome and the effect,
  events included, of its module's public operation called at the time of the event, whatever the
  database.
\<close>

theorem reactions_are_public_operations:
  assumes w: "map_of (ce_payload e) ''penalty_window_id'' = Some (JId w)"
  shows "atomically (on_penalty_window_frozen e)
        = op_bind (mirror_frozen w (ce_occurred_at e)) (\<lambda>_. op_return ())
    \<and> atomically (on_penalty_window_resumed e)
        = op_bind (mirror_resumed w (ce_occurred_at e)) (\<lambda>_. op_return ())
    \<and> atomically (on_penalty_window_completed e)
        = op_bind (complete_plan w (ce_occurred_at e)) (\<lambda>_. op_return ())
    \<and> (map_of (ce_payload e) ''base_duration_hours'' = Some (JNum b) \<longrightarrow>
        atomically (on_penalty_window_started e)
          = op_bind (create_plan w b (ce_occurred_at e)) (\<lambda>_. op_return ()))
    \<and> (map_of (ce_payload e) ''new_target_active_hours'' = Some (JNum x) \<longrightarrow>
        atomically (on_penalty_window_target_duration_changed e)
          = op_bind (regenerate w x (ce_occurred_at e)) (\<lambda>_. op_return ()))"
proof (intro conjI impI)
  assume b: "map_of (ce_payload e) ''base_duration_hours'' = Some (JNum b)"
  show "atomically (on_penalty_window_started e)
      = op_bind (create_plan w b (ce_occurred_at e)) (\<lambda>_. op_return ())"
    by (simp add: started_reaction_runs [OF w b] create_plan_def transition_forget)
next
  assume x: "map_of (ce_payload e) ''new_target_active_hours'' = Some (JNum x)"
  show "atomically (on_penalty_window_target_duration_changed e)
      = op_bind (regenerate w x (ce_occurred_at e)) (\<lambda>_. op_return ())"
    by (simp add: on_penalty_window_target_duration_changed_def payload_field_bind [OF w]
        payload_field_bind [OF x] regenerate_def transition_forget)
qed (simp_all add: on_penalty_window_frozen_def on_penalty_window_resumed_def on_penalty_window_completed_def
    mirror_frozen_def mirror_resumed_def complete_plan_def mirror_reaction_eq [OF w])

definition sample_started :: claimed_event where
  "sample_started = \<lparr>ce_id = 0, ce_type = ''penalty_window.started'', ce_source = ''penalty_engine'',
     ce_payload = [(''penalty_window_id'', JId 1), (''base_duration_hours'', JNum 24)], ce_occurred_at = 5, ce_created_at = 5\<rparr>"

theorem reactions_are_public_operations_witness:
  "(atomically (on_penalty_window_started sample_started) :: (recovery_db, unit) op)
     = op_bind (create_plan 1 24 (ce_occurred_at sample_started)) (\<lambda>_. op_return ())"
proof -
  have w: "map_of (ce_payload sample_started) ''penalty_window_id'' = Some (JId 1)"
    and b: "map_of (ce_payload sample_started) ''base_duration_hours'' = Some (JNum 24)"
    by (simp_all add: sample_started_def)
  show ?thesis
    by (rule reactions_are_public_operations [OF w, THEN conjunct2, THEN conjunct2, THEN conjunct2, THEN conjunct1,
          THEN mp, OF b])
qed

text \<open>
  The Penalty Engine's reaction to a confirmed incident is its public operation: on the payload
  that confirm_incident writes, the handler has the outcome and the effect of
  consume_confirmed_incident with the incident's severity and cooperation, 24 base hours, at the time
  of the event; an event with any other new confirmation does nothing.
\<close>

theorem confirmation_reaction_is_consumption:
  assumes "map_of (ce_payload e) ''incident_id'' = Some (JId i)"
    and "map_of (ce_payload e) ''trust_domain'' = Some (JStr d)"
    and "map_of (ce_payload e) ''rule_group_id'' = Some (JStr g)"
    and "map_of (ce_payload e) ''intrinsic_severity'' = Some (JStr v)" and "severity_of_value v = Inr sev"
    and "map_of (ce_payload e) ''cooperation_self_disclosed'' = Some (JBool b1)"
    and "map_of (ce_payload e) ''cooperation_active_cooperation_in_resolution'' = Some (JBool b2)"
  shows "if map_of (ce_payload e) ''new_confirmation'' = Some (JStr ''confirmed'')
    then atomically (on_incident_confirmation_changed e)
       = op_bind (consume_confirmed_incident i d g sev
           \<lparr>self_disclosed = b1, active_cooperation_in_resolution = b2, cooperation_notes = None\<rparr>
           (ce_occurred_at e) 24) (\<lambda>_. op_return ())
    else atomically (on_incident_confirmation_changed e) = op_return ()"
  by (simp add: on_incident_confirmation_changed_def atomically_nothing payload_field_bind [OF assms(1)]
      payload_field_bind [OF assms(2)] payload_field_bind [OF assms(3)] payload_field_bind [OF assms(4)]
      payload_field_bind [OF assms(6)] payload_field_bind [OF assms(7)] tx_lift_bind [OF assms(5)]
      consume_confirmed_incident_def op_forget transition_forget default_base_duration_hours_def)

definition sample_confirmation :: claimed_event where
  "sample_confirmation = \<lparr>ce_id = 0, ce_type = ''incident.confirmation_changed'', ce_source = ''trust_manager'',
     ce_payload = [(''incident_id'', JId 1), (''trust_domain'', JStr ''d''), (''rule_group_id'', JStr ''g''),
       (''intrinsic_severity'', JStr ''major''), (''cooperation_self_disclosed'', JBool False),
       (''cooperation_active_cooperation_in_resolution'', JBool True),
       (''new_confirmation'', JStr ''confirmed'')], ce_occurred_at = 5, ce_created_at = 5\<rparr>"

theorem confirmation_reaction_is_consumption_witness:
  "(atomically (on_incident_confirmation_changed sample_confirmation) :: (recovery_db, unit) op)
     = op_bind (consume_confirmed_incident 1 ''d'' ''g'' MAJOR
         \<lparr>self_disclosed = False, active_cooperation_in_resolution = True, cooperation_notes = None\<rparr>
         (ce_occurred_at sample_confirmation) 24) (\<lambda>_. op_return ())"
proof -
  let ?p = "map_of (ce_payload sample_confirmation)"
  have p: "?p ''incident_id'' = Some (JId 1)" "?p ''trust_domain'' = Some (JStr ''d'')"
      "?p ''rule_group_id'' = Some (JStr ''g'')" "?p ''intrinsic_severity'' = Some (JStr ''major'')"
      "severity_of_value ''major'' = Inr MAJOR" "?p ''cooperation_self_disclosed'' = Some (JBool False)"
      "?p ''cooperation_active_cooperation_in_resolution'' = Some (JBool True)"
    and c: "(?p ''new_confirmation'' = Some (JStr ''confirmed'')) = True"
    by (simp_all add: sample_confirmation_def severity_of_value_def)
  show ?thesis by (rule confirmation_reaction_is_consumption [OF p, unfolded c if_True])
qed

end
