(* ===== verification/Trust_Properties.thy ===== *)
theory Trust_Properties
  imports Trust_Facts
begin

text \<open>
  The properties of the Trust Manager: the severity rubric, the bounds of a recalculation, the
  effects of a confirmation on every branch, and the audit trail of a domain's score.
\<close>

definition sample_evidence :: incident_evidence where
  "sample_evidence = \<lparr>actual_or_potential_impact = Impact_Medium, rule_breach_directness = Direct,
     repetition = \<lparr>same_rule_confirmed_count = 0, evaluation_window_days = 90, source_incident_ids = []\<rparr>,
     evidence_confidence = Confidence_High, intentionality = Deliberate\<rparr>"

definition sample_incident :: incident_row where
  "sample_incident = \<lparr>in_id = 1, in_created_at = 0, in_rule_group_id = ''curfew'',
     in_trust_domain = ''reliability'', in_confirmation = UNCONFIRMED, in_description = ''late'',
     in_evidence = sample_evidence, in_assessment = None\<rparr>"

definition sample_domain :: trust_domain_row where
  "sample_domain = \<lparr>td_domain_id = ''reliability'', td_display_name = ''Reliability'',
     td_description = '''', td_is_active = True, td_created_at = 0,
     td_created_via_consent_id = ''c'', td_deactivated_at = None,
     td_deactivated_via_consent_id = None, td_initial_score_override = None,
     td_initial_confidence_override = None\<rparr>"

definition sample_domain_state :: domain_state_row where
  "sample_domain_state = \<lparr>ds_domain_id = ''reliability'', ds_score = default_new_domain_score,
     ds_confidence = default_new_domain_confidence, ds_trend = ''stable'',
     ds_last_recalculated_at = 0, ds_last_relevant_event_at = None\<rparr>"

definition sample_trust :: trust_db where
  "sample_trust = \<lparr>next_id = 2, domain_events = [], event_consumers = [],
     system_startup_lease = None, trust_domains = [sample_domain],
     trust_domain_state = [sample_domain_state], incidents = [sample_incident],
     confirmation_records = [], trust_evidence = [], trust_recalculations = [],
     trust_recalculation_evidence = []\<rparr>"

lemmas sample_trust_defs = sample_trust_def sample_domain_state_def sample_domain_def
  sample_incident_def sample_evidence_def

lemma sample_trust_inv: "trust_inv sample_trust"
  by (simp add: trust_inv_def trust_ok_defs audit_ok_def get_domain_state_def recalculations_for_def
      sample_trust_defs incident_evidence_key_def initial_trust_def present_trust_def or_default_def)

lemma sample_trust_lookups:
  "row_by in_id 1 (incidents sample_trust) = Some sample_incident"
  "get_domain_state ''reliability'' sample_trust = Some sample_domain_state"
  by (simp_all add: sample_trust_def sample_incident_def sample_domain_state_def get_domain_state_def)

text \<open>
  The severity rubric is monotone in every factor and reaches CRITICAL exactly from six of
  the seven points (TI9): raising the impact, the intent, the directness or the repetition of
  the evidence never lowers the tier.
\<close>

theorem severity_monotone:
  assumes "impact_points (actual_or_potential_impact e) \<le> impact_points (actual_or_potential_impact e')"
    and "intentionality_points (intentionality e) \<le> intentionality_points (intentionality e')"
    and "breach_directness_points (rule_breach_directness e) \<le> breach_directness_points (rule_breach_directness e')"
    and "same_rule_confirmed_count (repetition e) \<le> same_rule_confirmed_count (repetition e')"
  shows "assess_severity e \<le> assess_severity e'
    \<and> (assess_severity e = CRITICAL \<longleftrightarrow> 6 \<le> severity_score e)"
proof -
  have "repetition_contribution (repetition e) \<le> repetition_contribution (repetition e')"
    using assms(4) by (simp add: repetition_contribution_def)
  then have "severity_score e \<le> severity_score e'" using assms by (simp add: severity_score_def)
  then show ?thesis by (simp add: assess_severity_mono assess_severity_critical)
qed

theorem severity_monotone_witness:
  "assess_severity (sample_evidence\<lparr>actual_or_potential_impact := Impact_Low\<rparr>) \<le> assess_severity sample_evidence
    \<and> (assess_severity (sample_evidence\<lparr>actual_or_potential_impact := Impact_Low\<rparr>) = CRITICAL
       \<longleftrightarrow> 6 \<le> severity_score (sample_evidence\<lparr>actual_or_potential_impact := Impact_Low\<rparr>))"
  by (rule severity_monotone) (simp_all add: sample_evidence_def)

text \<open>
  One recalculation (TI19) moves the score of its domain by at most 0.15, keeps it in the
  unit interval, sets the confidence to a value below 1, consumes every pending evidence row of
  the domain, and touches no other domain.
\<close>

theorem recalculation_bounded:
  assumes "trust_ok s" and "get_domain_state d s = Some st" and "0 \<le> ds_score st" and "ds_score st \<le> 1"
  shows "\<exists>r s' st'. recalculate_domain_trust_in_transaction d trigger now s = Inr (r, s')
    \<and> get_domain_state d s' = Some st'
    \<and> \<bar>ds_score st' - ds_score st\<bar> \<le> 0.15 \<and> 0 \<le> ds_score st' \<and> ds_score st' \<le> 1
    \<and> 0 \<le> ds_confidence st' \<and> ds_confidence st' < 1
    \<and> select_unconsumed_evidence d s' = []
    \<and> (\<forall>d'. d' \<noteq> d \<longrightarrow> get_domain_state d' s' = get_domain_state d' s)"
proof -
  let ?s = "recalculated d trigger now st s"
  have run: "recalculate_domain_trust_in_transaction d trigger now s
      = Inr (recalculation_of d trigger now st s, ?s)"
    by (intro recalculate_eq assms(2) trust_okD(5,10) [OF assms(1)])
  obtain st' where st': "get_domain_state d ?s = Some st'"
    "ds_score st' = tr_new_score (recalculation_of d trigger now st s)"
    "ds_confidence st' = tr_new_confidence (recalculation_of d trigger now st s)"
    by (simp add: get_domain_state_recalculated [OF assms(2)])
  have "\<bar>ds_score st' - ds_score st\<bar> \<le> 0.15"
    using apply_recalculation_delta [OF assms(3,4)]
    by (simp add: st'(2) recalculation_of_def Let_def max_absolute_delta_def)
  moreover have "ds_confidence st' < 1" using compute_confidence_range
    by (simp add: st'(3) recalculation_of_def Let_def)
  moreover have "select_unconsumed_evidence d ?s = []"
  proof -
    have "set (select_unconsumed_evidence d ?s) = {}"
      by (auto simp: consumed_recalculated)
    then show ?thesis by (simp only: set_empty)
  qed
  ultimately show ?thesis using run st' recalculation_of_range [of d trigger now st s]
    by (intro exI [of _ "recalculation_of d trigger now st s"] exI [of _ ?s] exI [of _ st'])
      (simp add: get_domain_state_recalculated [OF assms(2)])
qed

theorem recalculation_bounded_witness:
  "\<exists>r s' st'. recalculate_domain_trust_in_transaction ''reliability'' ''manual'' 5 sample_trust = Inr (r, s')
    \<and> get_domain_state ''reliability'' s' = Some st'
    \<and> \<bar>ds_score st' - ds_score sample_domain_state\<bar> \<le> 0.15 \<and> 0 \<le> ds_score st' \<and> ds_score st' \<le> 1
    \<and> 0 \<le> ds_confidence st' \<and> ds_confidence st' < 1
    \<and> select_unconsumed_evidence ''reliability'' s' = []
    \<and> (\<forall>d'. d' \<noteq> ''reliability'' \<longrightarrow> get_domain_state d' s' = get_domain_state d' sample_trust)"
  by (rule recalculation_bounded [OF trust_invD(1) [OF sample_trust_inv] sample_trust_lookups(2)])
    (simp_all add: sample_domain_state_def default_new_domain_score_def)

text \<open>
  C24: Confirming an incident that was not assessed yet succeeds and does everything in one
  transaction: the tier is the rubric's, get_incident_assessment returns it afterwards, exactly one
  evidence row with the incident's weight is added and already consumed, the domain score is the
  bounded sum over all pending evidence and the new row, and exactly three events are appended in
  the documented order.
\<close>

theorem confirm_incident_effects:
  assumes inv: "trust_inv s" and row: "row_by in_id i (incidents s) = Some inc"
    and new: "in_assessment inc = None" and st: "get_domain_state (in_trust_domain inc) s = Some st"
  shows "\<exists>r s' e st'. confirm_incident i CONFIRMED source descr (Some c) now s
      = (Inr (inc\<lparr>in_assessment := Some (assess_severity (in_evidence inc), c)\<rparr>, r), s')
    \<and> get_incident_assessment i s' = Inr (Some \<lparr>intrinsic_severity = assess_severity (in_evidence inc),
         assessment_confirmation = CONFIRMED, assessment_cooperation = c,
         assessment_evidence = in_evidence inc\<rparr>)
    \<and> trust_evidence s' = trust_evidence s @ [e] \<and> te_source_entity_id e = i
    \<and> te_raw_weight e = raw_weight_for_incident (assess_severity (in_evidence inc)) c
    \<and> evidence_consumed s' e
    \<and> get_domain_state (in_trust_domain inc) s' = Some st'
    \<and> ds_score st' = apply_recalculation (ds_score st)
        (sum_list (map (\<lambda>e. effective_weight (te_raw_weight e) (te_confidence e))
            (select_unconsumed_evidence (in_trust_domain inc) s))
         + effective_weight (raw_weight_for_incident (assess_severity (in_evidence inc)) c)
             (confidence_numeric (evidence_confidence (in_evidence inc))))
    \<and> map ev_type (domain_events s') = map ev_type (domain_events s) @
        [''trust_evidence.recorded'', ''trust_domain.recalculated'', ''incident.confirmation_changed'']"
proof -
  let ?t = "assess_severity (in_evidence inc)"
  let ?e = "incident_evidence_row (Suc (next_id s)) inc ?t c now"
  let ?s' = "confirmed_state inc source descr c now st s"
  note ok = trust_invD(1) [OF inv] and in_id = incident_row_okD(1) [OF trust_invD(1) [OF inv] row]
  have run: "confirm_incident i CONFIRMED source descr (Some c) now s
      = (Inr (inc\<lparr>in_assessment := Some (?t, c)\<rparr>, confirmation_row_of (next_id s) inc CONFIRMED source descr now), ?s')"
    using confirm_incident_eq [OF inv row new st, of source descr "Some c" now] by (simp add: or_default_def)
  obtain st' where sc: "get_domain_state (in_trust_domain inc) ?s' = Some st'"
    "ds_score st' = apply_recalculation (ds_score st)
        (sum_list (map (\<lambda>e. effective_weight (te_raw_weight e) (te_confidence e))
            (select_unconsumed_evidence (in_trust_domain inc) s))
         + effective_weight (raw_weight_for_incident ?t c)
             (confidence_numeric (evidence_confidence (in_evidence inc))))"
    using confirmed_state_score [OF inv row new st] by blast
  have "row_by in_id i (incidents ?s')
      = Some (inc\<lparr>in_confirmation := CONFIRMED, in_assessment := Some (?t, c)\<rparr>)"
    by (simp add: confirmed_state_def assessed_and_recorded_def Let_def recorded_def set_confirmation_def
        row_by_update_where row in_id)
  then have "get_incident_assessment i ?s' = Inr (Some \<lparr>intrinsic_severity = ?t,
      assessment_confirmation = CONFIRMED, assessment_cooperation = c, assessment_evidence = in_evidence inc\<rparr>)"
    by (simp add: get_incident_assessment_def row_to_assessment_def)
  moreover have "trust_evidence ?s' = trust_evidence s @ [?e]"
    by (simp add: confirmed_state_def Let_def)
  moreover have "evidence_consumed ?s' ?e"
    by (simp add: confirmed_state_def Let_def, rule consumed_recalculated)
      (simp_all add: incident_evidence_row_def)
  moreover have "map ev_type (domain_events ?s') = map ev_type (domain_events s) @
        [''trust_evidence.recorded'', ''trust_domain.recalculated'', ''incident.confirmation_changed'']"
    by (simp add: confirmed_state_def assessed_and_recorded_def Let_def)
  ultimately show ?thesis using run sc in_id
    by (intro exI [of _ "confirmation_row_of (next_id s) inc CONFIRMED source descr now"] exI [of _ ?s']
        exI [of _ ?e] exI [of _ st'] conjI) (simp_all add: incident_evidence_row_def)
qed

text \<open>
  The other branches of confirm_incident: an unknown incident raises IncidentNotFoundError;
  confirming an incident that already has its evidence raises IntegrityError (the UNIQUE key of the
  evidence) - also after a downgrade, so such an incident can never be confirmed again; a status
  other than CONFIRMED is recorded without any score change. Each failure leaves the database as it
  was.
\<close>

theorem confirm_incident_other_branches:
  assumes "trust_ok s"
  shows "(row_by in_id i (incidents s) = None \<longrightarrow>
        confirm_incident i new source descr c now s = (Inl (IncidentNotFoundError i), s))
    \<and> (\<forall>inc. row_by in_id i (incidents s) = Some inc \<and> in_assessment inc \<noteq> None \<longrightarrow>
        confirm_incident i CONFIRMED source descr c now s = (Inl IntegrityError, s))
    \<and> (\<forall>inc. row_by in_id i (incidents s) = Some inc \<and> new \<noteq> CONFIRMED \<longrightarrow>
        trust_domain_state (snd (confirm_incident i new source descr c now s)) = trust_domain_state s
      \<and> trust_evidence (snd (confirm_incident i new source descr c now s)) = trust_evidence s
      \<and> map ev_type (domain_events (snd (confirm_incident i new source descr c now s)))
          = map ev_type (domain_events s) @ [''incident.confirmation_changed''])"
  using assms by (auto intro: confirm_incident_unknown confirm_incident_again
      simp: confirm_incident_downgrade)

theorem confirm_incident_other_branches_witness:
  "confirm_incident 7 PROVISIONAL KEYHOLDER_REVIEW ''seen'' None 3 sample_trust
     = (Inl (IncidentNotFoundError 7), sample_trust)
   \<and> fst (confirm_incident 1 CONFIRMED SYSTEM_VERIFIED ''log'' None 12 (snd
       (confirm_incident 1 CONFIRMED SYSTEM_VERIFIED ''log'' None 9 sample_trust))) = Inl IntegrityError"
proof -
  let ?s = "snd (confirm_incident 1 CONFIRMED SYSTEM_VERIFIED ''log'' None 9 sample_trust)"
  have ok: "trust_ok ?s"
    using op_keepsD [OF op_keeps_inv_confirm sample_trust_inv] by (rule trust_invD)
  have "in_assessment sample_incident = None" by (simp add: sample_incident_def)
  moreover have "get_domain_state (in_trust_domain sample_incident) sample_trust = Some sample_domain_state"
    by (simp add: sample_incident_def sample_trust_lookups(2))
  ultimately have s: "?s = confirmed_state sample_incident SYSTEM_VERIFIED ''log'' default_cooperation 9
      sample_domain_state sample_trust"
    using confirm_incident_eq [OF sample_trust_inv sample_trust_lookups(1)] by (simp add: or_default_def)
  have "\<exists>inc. row_by in_id 1 (incidents ?s) = Some inc \<and> in_assessment inc \<noteq> None"
    unfolding s by (simp add: confirmed_state_def assessed_and_recorded_def Let_def recorded_def
        set_confirmation_def sample_trust_def sample_incident_def update_where_def row_by_def)
  with confirm_incident_other_branches [OF ok, of 1 CONFIRMED SYSTEM_VERIFIED "''log''" None 12]
  have "fst (confirm_incident 1 CONFIRMED SYSTEM_VERIFIED ''log'' None 12 ?s) = Inl IntegrityError" by auto
  moreover have "confirm_incident 7 PROVISIONAL KEYHOLDER_REVIEW ''seen'' None 3 sample_trust
     = (Inl (IncidentNotFoundError 7), sample_trust)"
    using confirm_incident_other_branches [OF trust_invD(1) [OF sample_trust_inv], of 7]
    by (simp add: sample_trust_def sample_incident_def)
  ultimately show ?thesis by simp
qed

theorem confirm_incident_effects_witness:
  "\<exists>r s' e st'. confirm_incident 1 CONFIRMED SYSTEM_VERIFIED ''log'' (Some default_cooperation) 9 sample_trust
      = (Inr (sample_incident\<lparr>in_assessment := Some (assess_severity (in_evidence sample_incident), default_cooperation)\<rparr>, r), s')
    \<and> get_incident_assessment 1 s' = Inr (Some \<lparr>intrinsic_severity = assess_severity (in_evidence sample_incident),
         assessment_confirmation = CONFIRMED, assessment_cooperation = default_cooperation,
         assessment_evidence = in_evidence sample_incident\<rparr>)
    \<and> trust_evidence s' = trust_evidence sample_trust @ [e] \<and> te_source_entity_id e = 1
    \<and> te_raw_weight e = raw_weight_for_incident (assess_severity (in_evidence sample_incident)) default_cooperation
    \<and> evidence_consumed s' e
    \<and> get_domain_state (in_trust_domain sample_incident) s' = Some st'
    \<and> ds_score st' = apply_recalculation (ds_score sample_domain_state)
        (sum_list (map (\<lambda>e. effective_weight (te_raw_weight e) (te_confidence e))
            (select_unconsumed_evidence (in_trust_domain sample_incident) sample_trust))
         + effective_weight (raw_weight_for_incident (assess_severity (in_evidence sample_incident)) default_cooperation)
             (confidence_numeric (evidence_confidence (in_evidence sample_incident))))
    \<and> map ev_type (domain_events s') = map ev_type (domain_events sample_trust) @
        [''trust_evidence.recorded'', ''trust_domain.recalculated'', ''incident.confirmation_changed'']"
  by (rule confirm_incident_effects [OF sample_trust_inv sample_trust_lookups(1)])
    (simp_all add: sample_incident_def sample_trust_lookups(2))

text \<open>
  The score arithmetic: every incident weighs negatively, whatever the cooperation, and more
  cooperation never makes it heavier; the confidence grows with each applied row, by less each time,
  and never reaches 1 (TI5).
\<close>

theorem weights_and_confidence:
  "raw_weight_for_incident t c < 0
   \<and> ((self_disclosed c \<longrightarrow> self_disclosed c') \<and> (active_cooperation_in_resolution c \<longrightarrow> active_cooperation_in_resolution c')
       \<longrightarrow> raw_weight_for_incident t c \<le> raw_weight_for_incident t c')
   \<and> compute_confidence n < compute_confidence (Suc n) \<and> compute_confidence n < 1
   \<and> compute_confidence (Suc (Suc n)) - compute_confidence (Suc n) < compute_confidence (Suc n) - compute_confidence n"
proof (intro conjI)
  show "raw_weight_for_incident t c < 0" using raw_weight_bounds [of t c] by auto
  show "(self_disclosed c \<longrightarrow> self_disclosed c') \<and> (active_cooperation_in_resolution c \<longrightarrow> active_cooperation_in_resolution c')
     \<longrightarrow> raw_weight_for_incident t c \<le> raw_weight_for_incident t c'"
    by (auto simp: raw_weight_for_incident_def cooperation_trust_offset_def)
qed (use compute_confidence_strict_mono compute_confidence_range compute_confidence_diminishing in auto)

theorem weights_and_confidence_witness:
  "raw_weight_for_incident MINOR default_cooperation
     \<le> raw_weight_for_incident MINOR (default_cooperation\<lparr>self_disclosed := True\<rparr>)"
  using weights_and_confidence [of MINOR default_cooperation "default_cooperation\<lparr>self_disclosed := True\<rparr>"]
  by (simp add: default_cooperation_def)

end
