(* ===== verification/System_Properties.thy ===== *)
theory System_Properties
  imports System_Run Trust_Properties
begin

text \<open>
  The properties that span the modules: the invariant of every reachable database, the promises of
  the composition layer, the publisher, the audit tables, the startup sequence, and the agreement
  of the reactions with the public operations.
\<close>

section \<open>A sample run\<close>

definition sample_reported :: mode_db where
  "sample_reported = snd (register_incident_report ''curfew'' ''reliability'' ''late'' sample_evidence 0
     (snd (create_domain ''reliability'' ''Reliability'' ''d'' ''c'' 0 None None (fresh_db 0))))"

definition sample_run :: mode_db where
  "sample_run = snd (confirm_incident 1 CONFIRMED USER_ACKNOWLEDGED ''admitted'' None 0 sample_reported)"

lemma sample_reported_reachable: "reachable sample_reported"
  unfolding sample_reported_def
  by (rule next_step [OF next_step [OF initially step_create_domain] step_register_incident_report])

lemma sample_run_reachable: "reachable sample_run"
  unfolding sample_run_def by (rule next_step [OF sample_reported_reachable step_confirm_incident])

lemma sample_reported_rows:
  "length (domain_events sample_reported) = 2"
  "\<exists>inc. row_by in_id 1 (incidents sample_reported) = Some inc \<and> in_assessment inc = None
     \<and> in_trust_domain inc = ''reliability''"
  "get_domain_state ''reliability'' sample_reported \<noteq> None"
  by (simp_all add: sample_reported_def create_domain_def register_incident_report_def transition_eq
      tx_bind_apply tx_simps Let_def atomically_def fresh_db_def get_domain_state_def insert_event_def)

lemma sample_run_state:
  "length (domain_events sample_run) = 5" "confirmed_incident 1 sample_run"
  "\<forall>r \<in> set (domain_events sample_run). unclaimed r"
proof -
  obtain inc st where inc: "row_by in_id 1 (incidents sample_reported) = Some inc" "in_assessment inc = None"
      and st: "get_domain_state (in_trust_domain inc) sample_reported = Some st"
    using sample_reported_rows by auto
  have inv: "trust_inv sample_reported" by (rule run_okD(5)) (rule reachable_ok [OF sample_reported_reachable])
  have s: "sample_run = confirmed_state inc USER_ACKNOWLEDGED ''admitted'' default_cooperation 0 st sample_reported"
    by (simp add: sample_run_def confirm_incident_eq [OF inv inc st] or_default_def del: One_nat_def)
  show "length (domain_events sample_run) = 5"
    by (simp add: s confirmed_state_def assessed_and_recorded_def Let_def sample_reported_rows)
  have rows: "incidents sample_run = map (\<lambda>r. if in_id r = in_id inc then r\<lparr>in_confirmation := CONFIRMED,
      in_assessment := Some (assess_severity (in_evidence inc), default_cooperation)\<rparr> else r)
      (incidents sample_reported)"
    by (simp add: s confirmed_state_def assessed_and_recorded_def Let_def recorded_def
        set_confirmation_def update_incident_assessment_def update_where_def assessed_def)
  have "inc \<in> set (incidents sample_reported)" and id: "in_id inc = 1"
    using row_by_SomeD [OF inc(1)] by blast+
  then have "inc\<lparr>in_confirmation := CONFIRMED,
      in_assessment := Some (assess_severity (in_evidence inc), default_cooperation)\<rparr> \<in> set (incidents sample_run)"
    by (simp add: rows image_iff) (rule bexI [of _ inc], simp_all)
  with id show "confirmed_incident 1 sample_run" unfolding confirmed_incident_def by (rule_tac bexI) auto
  have "grows (fresh_db 0) sample_run" unfolding sample_run_def sample_reported_def
    by (intro op_keepsD [OF grows_trust.confirm] op_keepsD [OF grows_trust.report]
        op_keepsD [OF grows_trust.create] grows_refl)
  then show "\<forall>r \<in> set (domain_events sample_run). unclaimed r"
    by (auto simp: grows_def fresh_db_def)
qed

lemma pending_weight_le_length: "pending_weight cascade_weight now s \<le> 7 * length (domain_events s)"
proof -
  have "event_weight cascade_weight rs \<le> 7 * length rs" for rs
    by (induction rs) (auto simp: cascade_weight_def)
  then have "pending_weight cascade_weight now s \<le> 7 * length (filter (claimable now) (domain_events s))"
    by (simp add: pending_weight_def)
  also have "\<dots> \<le> 7 * length (domain_events s)" by simp
  finally show ?thesis .
qed

lemma sample_run_pending:
  "pending_weight cascade_weight now sample_run \<le> 50" "unpublished_claimable now sample_run"
  using pending_weight_le_length [of now sample_run] sample_run_state
  by (simp_all add: unpublished_claimable_def unclaimed_claimable)

interpretation confirmed_handlers: event_handlers build_consumer_registry "confirmed_incident k" for k
  by unfold_locales
    (simp_all add: confirmed_consumers.handler, simp_all add: confirmed_incident_def set_claimed_def set_published_def)

lemma confirmed_incident_published:
  "confirmed_incident k s \<Longrightarrow>
   confirmed_incident k (snd (process_pending_events build_consumer_registry now s))"
  for s :: "'m recovery_db_scheme"
  by (rule confirmed_handlers.process_keeps)

section \<open>Reachable databases\<close>

text \<open>
  C1: Every database the system can reach, in any interleaving of the public operations of all
  modules, publisher passes, startups and publishers that die in the middle of a batch, satisfies
  the invariants of all six components, and both promises of the composition layer: a penalty
  window has a recovery plan or an unpublished event still announces it, and a confirmed incident
  is consumed by the Penalty Engine or an unpublished event still announces it.
\<close>

theorem reachable_invariant:
  assumes "reachable s"
  shows "outbox_ok s \<and> trust_inv s \<and> penalty_ok s \<and> recovery_ok s \<and> goal_ok s \<and> mode_ok s
    \<and> (\<forall>k. has_window k s \<longrightarrow> has_plan k s \<or> (\<exists>r \<in> set (domain_events s).
         ev_published_at r = None \<and> announced ''penalty_window.started'' starts_window k r))
    \<and> (\<forall>k. confirmed_incident k s \<longrightarrow> consumed k s \<or> (\<exists>r \<in> set (domain_events s).
         ev_published_at r = None \<and> announced ''incident.confirmation_changed'' confirms_incident k r))"
  using run_okD [OF reachable_ok [OF assms]]
  by (simp add: plan_promise_def incident_promise_def delivered_def owed_def)

theorem reachable_invariant_witness:
  "trust_inv sample_run \<and> penalty_ok sample_run \<and> (consumed 1 sample_run \<or> (\<exists>r \<in> set (domain_events sample_run).
     ev_published_at r = None \<and> announced ''incident.confirmation_changed'' confirms_incident 1 r))"
  using reachable_invariant [OF sample_run_reachable] sample_run_state(2) by blast

text \<open>
  C3: Eventual consistency: in a reachable database in which no other publisher holds a live claim
  and the pending events weigh at most 50 (the batch size; a confirmation weighs 7, an event with
  one follow-up 2, any other 1), one call of process_pending_events leaves every penalty window
  with its recovery plan, every confirmed incident consumed, and every event published.
\<close>

theorem publisher_reaches_consistency:
  assumes "reachable s" and "pending_weight cascade_weight now s \<le> 50" and "unpublished_claimable now s"
    and "s' = snd (process_pending_events build_consumer_registry now s)"
  shows "(\<forall>k. has_window k s' \<longrightarrow> has_plan k s') \<and> (\<forall>k. confirmed_incident k s' \<longrightarrow> consumed k s')
    \<and> (\<forall>r \<in> set (domain_events s'). ev_published_at r \<noteq> None)"
proof -
  have "reachable s'" unfolding assms(4) by (rule next_step [OF assms(1) step_process_pending_events])
  note ok = run_okD(2,3) [OF reachable_ok [OF this]]
  have settled: "all_settled now True s'" unfolding assms(4) by (rule settles [OF assms(2,3)])
  have "has_plan k s'" if "has_window k s'" for k
    using plan_delivery.settled_met [OF ok(1) [unfolded plan_promise_def] settled that] .
  moreover have "consumed k s'" if "confirmed_incident k s'" for k
    using incident_delivery.settled_met [OF ok(2) [unfolded incident_promise_def] settled that] .
  ultimately show ?thesis using settled unfolding all_settled_def by blast
qed

theorem publisher_reaches_consistency_witness:
  "consumed 1 (snd (process_pending_events build_consumer_registry 0 sample_run))"
  using publisher_reaches_consistency [OF sample_run_reachable sample_run_pending refl]
    confirmed_incident_published [OF sample_run_state(2)] by blast

section \<open>The publisher\<close>

text \<open>
  C26: process_pending_events always returns a count: whatever the database, the registered handlers'
  exceptions included, it never raises; and when the pending events weigh at most 50 its ten rounds
  are enough: nothing is left that could be claimed, however long the cascades.
\<close>

theorem publisher_returns_and_drains:
  "(\<exists>n. fst (process_pending_events build_consumer_registry now s) = Inr n)
   \<and> (pending_weight cascade_weight now s \<le> 50 \<longrightarrow>
       (\<forall>r \<in> set (domain_events (snd (process_pending_events build_consumer_registry now s))). \<not> claimable now r))"
proof -
  have "all_settled now False (snd (process_pending_events build_consumer_registry now s))"
    if "pending_weight cascade_weight now s \<le> 50"
    by (rule settles [OF that]) simp
  then show ?thesis
    by (simp add: process_pending_events_def pending_rounds_returns all_settled_def)
qed

theorem publisher_returns_and_drains_witness:
  "filter (claimable 0) (domain_events (snd (process_pending_events build_consumer_registry 0 sample_run))) = []"
  using publisher_returns_and_drains [of 0 sample_run] sample_run_pending(1) [of 0]
  by (simp add: filter_empty_conv)

end
