(* ===== verification/Penalty_Properties.thy ===== *)
theory Penalty_Properties
  imports Incident_Source Trust_Properties
begin

text \<open>
  The properties of the Penalty Engine: the extension algorithm, consumption exactly once, the
  countdown across freezes, the emergency freeze, completion detection, recovery credits, and the
  reactivation of a completed window.
\<close>

definition sample_window :: penalty_window where
  "sample_window = new_window 1 0 24"

definition penalty_sample :: "penalty_window list \<Rightarrow> penalty_db" where
  "penalty_sample ws = \<lparr>next_id = 5, domain_events = [], event_consumers = [],
     system_startup_lease = None, trust_domains = [], trust_domain_state = [], incidents = [],
     confirmation_records = [], trust_evidence = [], trust_recalculations = [],
     trust_recalculation_evidence = [], penalty_windows = ws, freeze_periods = [],
     incident_consumption = [], extension_decisions = [], recovery_credit_decisions = [],
     recovery_credit_ledger = []\<rparr>"

lemma penalty_sample_ok: "single_ok (penalty_sample [sample_window])"
  by (simp add: single_ok_def penalty_ok_defs penalty_sample_def sample_window_def new_window_def
      window_ok_def hours_assigned_def hours_credited_def open_in_def open_windows_def
      target_active_hours_def max_target_active_hours_def)

lemma penalty_sample_window: "window_by_id 1 (penalty_sample [sample_window]) = Some sample_window"
  by (simp add: window_by_id_def penalty_sample_def sample_window_def new_window_def)

text \<open>
  \<open>should_extend\<close> on every branch: an incident is eligible exactly when it is MAJOR or CRITICAL,
  repeated in the window, or not met with full cooperation (EXT-3); an ineligible one is assigned
  nothing; an eligible one keeps at least the floor of its severity of the base hours (EXT-5), never
  exceeds the base or the remaining capacity, and is flagged exactly when the capacity cut it
  (EXT-6).
\<close>

theorem should_extend_stages:
  assumes "0 \<le> ec_remaining_capacity ctx"
  shows "let d = should_extend i ctx inc w now;
             base = calculate_base_magnitude (ec_severity ctx) (ec_same_rule_count ctx)
         in (ed_eligible d \<longleftrightarrow> MAJOR \<le> ec_severity ctx \<or> 1 < ec_same_rule_count ctx
               \<or> \<not> is_high_cooperation (ec_cooperation ctx))
          \<and> (\<not> ed_eligible d \<longrightarrow> ed_assigned_hours d = 0 \<and> ed_base_hours d = None)
          \<and> (ed_eligible d \<longrightarrow> (\<exists>u. ed_uncapped_hours d = Some u \<and> ed_base_hours d = Some base
               \<and> 0.2 * base \<le> u \<and> u \<le> base
               \<and> (ec_severity ctx = MAJOR \<longrightarrow> 0.5 * base \<le> u)
               \<and> (ec_severity ctx = CRITICAL \<longrightarrow> 0.7 * base \<le> u)
               \<and> ed_mitigation_hours d = base - u
               \<and> ed_assigned_hours d = min u (ec_remaining_capacity ctx)
               \<and> (ed_capacity_limited d \<longleftrightarrow> ec_remaining_capacity ctx < u)))
          \<and> 0 \<le> ed_assigned_hours d \<and> ed_assigned_hours d \<le> ec_remaining_capacity ctx"
proof -
  let ?d = "should_extend i ctx inc w now"
  let ?b = "calculate_base_magnitude (ec_severity ctx) (ec_same_rule_count ctx)"
  let ?u = "apply_mitigation ?b (ec_severity ctx) (ec_cooperation ctx) (ec_during_recovery_task ctx)"
  have b: "0 \<le> ?b" using base_magnitude_ge [of "ec_severity ctx" "ec_same_rule_count ctx"] by linarith
  have u: "0.2 * ?b \<le> ?u" "?u \<le> ?b" using apply_mitigation_bounds [OF b] by simp_all
  have major: "ec_severity ctx = MAJOR \<longrightarrow> 0.5 * ?b \<le> ?u"
    and critical: "ec_severity ctx = CRITICAL \<longrightarrow> 0.7 * ?b \<le> ?u"
    using apply_mitigation_floor [of MAJOR "0.5" ?b "ec_cooperation ctx" "ec_during_recovery_task ctx"]
      apply_mitigation_floor [of CRITICAL "0.7" ?b "ec_cooperation ctx" "ec_during_recovery_task ctx"]
    by auto
  have "\<not> ed_eligible ?d \<longrightarrow> ed_assigned_hours ?d = 0 \<and> ed_base_hours ?d = None"
    by (simp add: should_extend_def Let_def split: prod.splits)
  moreover have "ed_eligible ?d \<longrightarrow> ed_uncapped_hours ?d = Some ?u \<and> ed_base_hours ?d = Some ?b
      \<and> ed_mitigation_hours ?d = ?b - ?u \<and> ed_assigned_hours ?d = min ?u (ec_remaining_capacity ctx)
      \<and> (ed_capacity_limited ?d \<longleftrightarrow> ec_remaining_capacity ctx < ?u)"
    by (auto simp: should_extend_def Let_def apply_capacity_cap_def split: prod.splits)
  ultimately show ?thesis
    using u major critical should_extend_assigned_bounds [OF assms] should_extend_eligible_iff [of i ctx inc w now]
    unfolding Let_def by blast
qed

definition sample_context :: extension_context where
  "sample_context = \<lparr>ec_severity = CRITICAL, ec_cooperation = default_cooperation,
     ec_same_rule_count = 1, ec_remaining_capacity = 30, ec_during_recovery_task = False\<rparr>"

theorem should_extend_stages_witness:
  "ed_eligible (should_extend 4 sample_context 2 1 0)
    \<and> ed_assigned_hours (should_extend 4 sample_context 2 1 0) \<le> 30"
  using should_extend_stages [of sample_context 4 2 1 0]
  by (simp add: sample_context_def Let_def less_eq_severity_tier_def)

text \<open>
  More cooperation never lengthens an extension: with the same incident, window and capacity,
  disclosing or cooperating more leaves the assigned hours equal or smaller.
\<close>

theorem cooperation_never_extends_more:
  assumes "0 \<le> cap"
    and "self_disclosed c \<Longrightarrow> self_disclosed c'"
    and "active_cooperation_in_resolution c \<Longrightarrow> active_cooperation_in_resolution c'"
  shows "ed_assigned_hours (should_extend i \<lparr>ec_severity = t, ec_cooperation = c', ec_same_rule_count = n,
             ec_remaining_capacity = cap, ec_during_recovery_task = b\<rparr> inc w now)
    \<le> ed_assigned_hours (should_extend i \<lparr>ec_severity = t, ec_cooperation = c, ec_same_rule_count = n,
             ec_remaining_capacity = cap, ec_during_recovery_task = b\<rparr> inc w now)"
    (is "ed_assigned_hours ?d' \<le> ed_assigned_hours ?d")
proof -
  let ?b = "calculate_base_magnitude t n"
  have "0 \<le> ?b" using base_magnitude_ge [of t n] by linarith
  then have less: "apply_mitigation ?b t c' b \<le> apply_mitigation ?b t c b"
    using assms(2,3) by (intro apply_mitigation_antimono mitigation_fraction_mono)
  have eligible: "ed_eligible ?d' \<longrightarrow> ed_eligible ?d"
    using assms(2,3) by (auto simp: should_extend_eligible_iff is_high_cooperation_def)
  have hours: "ed_assigned_hours (should_extend i \<lparr>ec_severity = t, ec_cooperation = x, ec_same_rule_count = n,
             ec_remaining_capacity = cap, ec_during_recovery_task = b\<rparr> inc w now)
      = (if ed_eligible (should_extend i \<lparr>ec_severity = t, ec_cooperation = x, ec_same_rule_count = n,
             ec_remaining_capacity = cap, ec_during_recovery_task = b\<rparr> inc w now)
         then min (apply_mitigation ?b t x b) cap else 0)" for x
    by (simp add: should_extend_def Let_def apply_capacity_cap_def split: prod.splits)
  have "0 \<le> ed_assigned_hours ?d" by (rule should_extend_assigned_bounds) (simp add: assms(1))
  then show ?thesis using less eligible unfolding hours by auto
qed

theorem cooperation_never_extends_more_witness:
  "ed_assigned_hours (should_extend 1 \<lparr>ec_severity = MINOR,
       ec_cooperation = default_cooperation\<lparr>self_disclosed := True\<rparr>, ec_same_rule_count = 1,
       ec_remaining_capacity = 100, ec_during_recovery_task = False\<rparr> 2 3 0)
   \<le> ed_assigned_hours (should_extend 1 \<lparr>ec_severity = MINOR, ec_cooperation = default_cooperation,
       ec_same_rule_count = 1, ec_remaining_capacity = 100, ec_during_recovery_task = False\<rparr> 2 3 0)"
  by (rule cooperation_never_extends_more) (simp_all add: default_cooperation_def)

lemma update_by_id_map:
  assumes "distinct (map pw_id ws)" and "w0 \<in> set ws"
  shows "update_where (\<lambda>x. pw_id x = pw_id w0) f ws = map (\<lambda>x. if x = w0 then f w0 else x) ws"
proof -
  have "x = w0" if "x \<in> set ws" "pw_id x = pw_id w0" for x
    using distinct_key_eq [OF assms(1)] that assms(2) by blast
  then show ?thesis unfolding update_where_def by (intro map_cong) auto
qed

lemma open_or_start_tables:
  assumes "penalty_ok s" and "open_or_start_window now base s = Inr ((w, started), s1)"
  shows "update_where (\<lambda>x. pw_id x = pw_id w) f (penalty_windows s1) =
    (case get_active_or_frozen_penalty_window s of
       None \<Rightarrow> penalty_windows s @ [f w]
     | Some w0 \<Rightarrow> map (\<lambda>x. if x = w0 then f w else x) (penalty_windows s))"
proof (cases "get_active_or_frozen_penalty_window s")
  case None
  then have w: "w = new_window (next_id s) now base" "penalty_windows s1 = penalty_windows s @ [w]"
    using assms(2) by (auto simp: open_or_start_window_def tx_bind_apply tx_simps)
  have "next_id s \<notin> pw_id ` set (penalty_windows s)" using window_ids_less [OF assms(1)] by blast
  then show ?thesis using None w by (simp add: new_window_def update_where_absent)
next
  case (Some w0)
  then have "w = w0" "s1 = s" using assms(2) by (auto simp: open_or_start_window_def tx_bind_apply tx_simps)
  moreover note open_windowD(1) [OF penalty_okD(1) [OF assms(1)] Some] windows_okD(1) [OF penalty_okD(1) [OF assms(1)]]
  ultimately show ?thesis using Some update_by_id_map [of "penalty_windows s" w0 f] by simp
qed

text \<open>
  C6: Consumption (I11): the first consumption of an incident appends exactly one consumption row and
  one extension decision (of \<open>should_extend\<close>, for the hours left in the window), both for the
  returned window. Without an open window it starts one, of the base duration and with the assigned
  hours; with an open one it starts none and adds the assigned hours to that window; no other window
  changes. Every further consumption of the same incident returns None and changes nothing.
\<close>

theorem consumption_exactly_once:
  assumes "penalty_ok s" and "\<not> consumed i s"
  shows "\<exists>w s' d. consume_confirmed_incident i dname g sev coop now base s = (Inr (Some w), s')
    \<and> window_by_id (pw_id w) s' = Some w
    \<and> incident_consumption s' = incident_consumption s
        @ [\<lparr>ic_incident_id = i, ic_penalty_window_id = pw_id w, ic_trust_domain = dname,
            ic_rule_group_id = g, ic_consumed_at = now\<rparr>]
    \<and> extension_decisions s' = extension_decisions s @ [d]
    \<and> d = should_extend (ed_id d)
        \<lparr>ec_severity = sev, ec_cooperation = coop, ec_same_rule_count = same_rule_count (pw_id w) g s',
         ec_remaining_capacity = max 0 (max_target_active_hours
           - (pw_base_duration_hours w + (pw_extensions_hours w - ed_assigned_hours d))),
         ec_during_recovery_task = False\<rparr> i (pw_id w) now
    \<and> (case get_active_or_frozen_penalty_window s of
         None \<Rightarrow> w = \<lparr>pw_id = pw_id w, pw_created_at = now, pw_status = PW_ACTIVE, pw_closed_at = None,
                     pw_resolution_method = None, pw_base_duration_hours = base,
                     pw_extensions_hours = ed_assigned_hours d, pw_accumulated_active_hours = 0,
                     pw_active_period_started_at = Some now, pw_recovery_credits_earned_hours = 0\<rparr>
               \<and> pw_id w \<notin> pw_id ` set (penalty_windows s)
               \<and> penalty_windows s' = penalty_windows s @ [w]
       | Some w0 \<Rightarrow> w = w0\<lparr>pw_extensions_hours := pw_extensions_hours w0 + ed_assigned_hours d\<rparr>
               \<and> penalty_windows s' = map (\<lambda>x. if x = w0 then w else x) (penalty_windows s))
    \<and> consume_confirmed_incident i dname' g' sev' coop' now' base' s' = (Inr None, s')"
proof -
  obtain w started s1 where o: "open_or_start_window now base s = Inr ((w, started), s1)"
    using open_or_start_returns by blast
  note oo = open_or_start_window_ok [OF assms(1) o]
  let ?d = "decision_for i w g sev coop now s1" and ?c = "consumption_of i w dname g now"
  let ?f = "\<lambda>x. x\<lparr>pw_extensions_hours := pw_extensions_hours x + ed_assigned_hours ?d\<rparr>"
  let ?w = "consumption_result i g sev coop now w s1"
  have w: "?w = ?f w" by (simp add: consumption_result_def)
  obtain s' where s': "consume_confirmed_incident i dname g sev coop now base s = (Inr (Some ?w), s')"
    "outbox_only (decided ?c ?d s1) s'"
    using consume_op_fresh [OF assms(2) o] by blast
  have d: "ed_incident_id ?d = i" "ed_penalty_window_id ?d = pw_id w" by (simp_all add: decision_for_def)
  have tables: "incident_consumption s' = incident_consumption s @ [?c]"
    "extension_decisions s' = extension_decisions s @ [?d]"
    "penalty_windows s' = update_where (\<lambda>x. pw_id x = pw_id w) ?f (penalty_windows s1)"
    using outbox_only_tables [OF s'(2)] oo(5,6) d by (simp_all add: decided_def)
  have wid: "window_by_id (pw_id ?w) s' = Some ?w"
    using oo(2) unfolding w by (simp add: window_by_id_def tables(3) row_by_update_where)
  have pid: "pw_id ?w = pw_id w" unfolding w by simp
  have "consumed i s'" by (simp add: consumed_def tables consumption_of_def)
  then have again: "consume_confirmed_incident i dname' g' sev' coop' now' base' s' = (Inr None, s')"
    by (rule consume_op_again)
  have count: "same_rule_count (pw_id w) g s' = Suc (same_rule_count (pw_id w) g s1)"
    using oo(5) by (simp add: same_rule_count_def tables(1) consumption_of_def)
  have decision: "?d = should_extend (ed_id ?d)
        \<lparr>ec_severity = sev, ec_cooperation = coop, ec_same_rule_count = same_rule_count (pw_id ?w) g s',
         ec_remaining_capacity = max 0 (max_target_active_hours
           - (pw_base_duration_hours ?w + (pw_extensions_hours ?w - ed_assigned_hours ?d))),
         ec_during_recovery_task = False\<rparr> i (pw_id ?w) now"
    unfolding pid count unfolding w by (simp add: decision_for_def remaining_capacity_def)
  have windows: "case get_active_or_frozen_penalty_window s of
         None \<Rightarrow> ?w = \<lparr>pw_id = pw_id ?w, pw_created_at = now, pw_status = PW_ACTIVE, pw_closed_at = None,
                     pw_resolution_method = None, pw_base_duration_hours = base,
                     pw_extensions_hours = ed_assigned_hours ?d, pw_accumulated_active_hours = 0,
                     pw_active_period_started_at = Some now, pw_recovery_credits_earned_hours = 0\<rparr>
               \<and> pw_id ?w \<notin> pw_id ` set (penalty_windows s)
               \<and> penalty_windows s' = penalty_windows s @ [?w]
       | Some w0 \<Rightarrow> ?w = ?f w0
               \<and> penalty_windows s' = map (\<lambda>x. if x = w0 then ?w else x) (penalty_windows s)"
    using window_ids_less [OF assms(1)] open_or_start_result [OF o]
    unfolding tables(3) open_or_start_tables [OF assms(1) o] w
    by (fastforce simp: new_window_def split: option.splits)
  have row: "?c = \<lparr>ic_incident_id = i, ic_penalty_window_id = pw_id ?w, ic_trust_domain = dname,
            ic_rule_group_id = g, ic_consumed_at = now\<rparr>" by (simp add: consumption_of_def pid)
  show ?thesis
    by (intro exI [of _ ?w] exI [of _ s'] exI [of _ ?d] conjI s'(1) wid tables(1) [unfolded row] tables(2)
        decision windows again)
qed

theorem consumption_exactly_once_witness:
  "\<exists>w s' d. consume_confirmed_incident 3 ''reliability'' ''curfew'' MAJOR default_cooperation 7 24
        (penalty_sample [sample_window]) = (Inr (Some w), s')
    \<and> incident_consumption s' = [\<lparr>ic_incident_id = 3, ic_penalty_window_id = 1,
         ic_trust_domain = ''reliability'', ic_rule_group_id = ''curfew'', ic_consumed_at = 7\<rparr>]
    \<and> extension_decisions s' = [d]
    \<and> w = sample_window\<lparr>pw_extensions_hours := ed_assigned_hours d\<rparr> \<and> penalty_windows s' = [w]
    \<and> consume_confirmed_incident 3 ''reliability'' ''curfew'' MAJOR default_cooperation 8 24 s' = (Inr None, s')"
proof -
  have "get_active_or_frozen_penalty_window (penalty_sample [sample_window]) = Some sample_window"
    by (rule get_open_window [OF penalty_sample_ok])
      (simp_all add: penalty_sample_def sample_window_def new_window_def window_open_def)
  moreover have "\<not> consumed 3 (penalty_sample [sample_window])" by (simp add: consumed_def penalty_sample_def)
  note consumption_exactly_once [OF single_okD(1) [OF penalty_sample_ok] this, of "''reliability''" "''curfew''" MAJOR
        default_cooperation 7 24 "''reliability''" "''curfew''" MAJOR default_cooperation 8 24]
  then obtain w s' d where run: "consume_confirmed_incident 3 ''reliability'' ''curfew'' MAJOR default_cooperation 7 24
        (penalty_sample [sample_window]) = (Inr (Some w), s')"
    "consume_confirmed_incident 3 ''reliability'' ''curfew'' MAJOR default_cooperation 8 24 s' = (Inr None, s')"
    and rows: "incident_consumption s' = incident_consumption (penalty_sample [sample_window])
        @ [\<lparr>ic_incident_id = 3, ic_penalty_window_id = pw_id w, ic_trust_domain = ''reliability'',
            ic_rule_group_id = ''curfew'', ic_consumed_at = 7\<rparr>]"
    "extension_decisions s' = extension_decisions (penalty_sample [sample_window]) @ [d]"
    and windows: "case get_active_or_frozen_penalty_window (penalty_sample [sample_window]) of
         None \<Rightarrow> w = \<lparr>pw_id = pw_id w, pw_created_at = 7, pw_status = PW_ACTIVE, pw_closed_at = None,
                     pw_resolution_method = None, pw_base_duration_hours = 24,
                     pw_extensions_hours = ed_assigned_hours d, pw_accumulated_active_hours = 0,
                     pw_active_period_started_at = Some 7, pw_recovery_credits_earned_hours = 0\<rparr>
               \<and> pw_id w \<notin> pw_id ` set (penalty_windows (penalty_sample [sample_window]))
               \<and> penalty_windows s' = penalty_windows (penalty_sample [sample_window]) @ [w]
       | Some w0 \<Rightarrow> w = w0\<lparr>pw_extensions_hours := pw_extensions_hours w0 + ed_assigned_hours d\<rparr>
               \<and> penalty_windows s' = map (\<lambda>x. if x = w0 then w else x) (penalty_windows (penalty_sample [sample_window]))"
    by (elim exE conjE) (erule (4) that)
  moreover have "incident_consumption (penalty_sample [sample_window]) = []"
    "extension_decisions (penalty_sample [sample_window]) = []"
    "penalty_windows (penalty_sample [sample_window]) = [sample_window]"
    "pw_id sample_window = 1" "pw_extensions_hours sample_window = 0"
    by (simp_all add: penalty_sample_def sample_window_def new_window_def)
  ultimately show ?thesis by simp
qed

text \<open>
  \<open>start_window_if_eligible\<close> with the Trust Manager's reads never raises, and consumes every
  confirmed incident created since the last closed window (compared as SQLite compares the stored
  texts, so with at-or-after, not after).
\<close>

theorem start_window_consumes_all:
  assumes "trust_ok s"
  shows "\<exists>w s'. start_window_if_eligible get_confirmed_incidents_since get_incident_assessment base now s
      = (Inr w, s')
    \<and> (\<forall>r \<in> set (incidents s). in_confirmation r = CONFIRMED \<and> iso_le (last_window_closed_at s) (in_created_at r)
         \<longrightarrow> consumed (in_id r) s')"
proof -
  obtain w s' where run: "start_window_if_eligible get_confirmed_incidents_since get_incident_assessment base now s = (Inr w, s')"
    and all: "\<forall>c \<in> set (get_confirmed_incidents_since (last_window_closed_at s) s). consumed (cs_id c) s'"
    using trust_source.start_consumes_all [OF assms] by blast
  have "consumed (in_id r) s'" if "r \<in> set (incidents s)" "in_confirmation r = CONFIRMED"
    "iso_le (last_window_closed_at s) (in_created_at r)" for r
    using all that by (auto simp: get_confirmed_incidents_since_def)
  with run show ?thesis by blast
qed

theorem start_window_consumes_all_witness:
  "\<exists>w s'. start_window_if_eligible get_confirmed_incidents_since get_incident_assessment 24 9
        (penalty_sample [sample_window]) = (Inr w, s')
    \<and> (\<forall>r \<in> set (incidents (penalty_sample [sample_window])). in_confirmation r = CONFIRMED
         \<and> iso_le (last_window_closed_at (penalty_sample [sample_window])) (in_created_at r)
         \<longrightarrow> consumed (in_id r) s')"
  by (rule start_window_consumes_all) (simp add: trust_ok_defs penalty_sample_def)

text \<open>
  C22: Frozen time does not count (I6): any freeze of an active window at t1 - an exemption, an
  authorization or an emergency, with the link its reason requires and with or without an expiry - stops its countdown at the hours elapsed
  so far. It continues from there when it is resumed at t2, and likewise when its expiry is detected
  at t2 (not before the expiry): at any later instant the elapsed hours are those before the freeze
  plus the time since t2.
\<close>

theorem frozen_time_excluded:
  assumes ok: "penalty_ok s" and w: "window_by_id i s = Some w" and act: "pw_status w = PW_ACTIVE"
    and links: "freeze_links_ok r ex au"
    and frz: "frz = freeze_window i r t1 ex au xp
      \<or> frz = emergency_freeze i t1 \<and> r = EMERGENCY_OVERRIDE \<and> ex = None \<and> au = None \<and> xp = None"
  shows "\<exists>fp s1 w1. frz s = (Inr fp, s1) \<and> fp_reason fp = r \<and> fp_expires_at fp = xp
    \<and> window_by_id i s1 = Some w1 \<and> pw_status w1 = PW_FROZEN
    \<and> (\<forall>t. active_hours_elapsed w1 t = active_hours_elapsed w t1)
    \<and> (\<exists>s2 w2. resume i r t2 s1 = (Inr (), s2) \<and> window_by_id i s2 = Some w2 \<and> pw_status w2 = PW_ACTIVE
        \<and> (\<forall>t. active_hours_elapsed w2 t = active_hours_elapsed w t1 + hours_between t2 t))
    \<and> (\<forall>x. xp = Some x \<longrightarrow>
        (if iso_le x t2
         then \<exists>s2 w2. close_expired_freezes i t2 s1 = (Inr (), s2) \<and> window_by_id i s2 = Some w2
           \<and> pw_status w2 = PW_ACTIVE
           \<and> (\<forall>t. active_hours_elapsed w2 t = active_hours_elapsed w t1 + hours_between t2 t)
         else close_expired_freezes i t2 s1 = (Inr (), s1)))"
proof -
  let ?fp = "opened_period (next_id s) i r t1 ex au xp"
  have none: "open_in i (freeze_periods s) = 0"
    using status_matchesD(1) [OF ok w] act by (simp add: status_matches_def)
  have only: "x = w" if "x \<in> set (penalty_windows s)" "pw_id x = i" for x
    using window_by_id_eq [OF penalty_okD(1) [OF ok] that(1)] that(2) w by simp
  obtain em where em: "frz = freeze_in_transaction i r t1 ex au xp em"
    using frz unfolding freeze_window_def emergency_freeze_def by blast
  obtain s1 where s1: "frz s = (Inr ?fp, s1)" "freeze_periods s1 = freeze_periods s @ [?fp]"
    "window_by_id i s1 = Some (after_freeze w t1)"
    using freeze_opens [OF w none only links, of t1 xp em] unfolding em by blast
  have fp: "fp_penalty_window_id ?fp = i" "fp_reason ?fp = r" "period_open ?fp" "fp_expires_at ?fp = xp"
    "fp_id ?fp \<notin> fp_id ` set (freeze_periods s)"
    using freezes_okD(2) [OF penalty_okD(2) [OF ok]] by (force simp: opened_period_def period_open_def)+
  have ended: "\<exists>w2. window_by_id i s2 = Some w2 \<and> pw_status w2 = PW_ACTIVE
      \<and> (\<forall>t. active_hours_elapsed w2 t = active_hours_elapsed w t1 + hours_between t2 t)"
    if "penalty_windows s2 = update_where (\<lambda>x. pw_id x = i) (\<lambda>x. after_resume x t2) (penalty_windows s1)" for s2
    using s1(3) window_by_idD [OF s1(3)] act that
    by (simp add: window_by_id_def row_by_update_where after_freeze_def after_resume_def elapsed_active)
  have frozen: "pw_status (after_freeze w t1) = PW_FROZEN"
    "\<forall>t. active_hours_elapsed (after_freeze w t1) t = active_hours_elapsed w t1"
    using act by (simp_all add: after_freeze_def elapsed_not_active)
  have resumed: "\<exists>s2 w2. resume i r t2 s1 = (Inr (), s2) \<and> window_by_id i s2 = Some w2 \<and> pw_status w2 = PW_ACTIVE
        \<and> (\<forall>t. active_hours_elapsed w2 t = active_hours_elapsed w t1 + hours_between t2 t)"
    using resume_only_period [OF none s1(2) fp(1-3), of t2] ended by blast
  have expired: "if iso_le x t2
         then \<exists>s2 w2. close_expired_freezes i t2 s1 = (Inr (), s2) \<and> window_by_id i s2 = Some w2
           \<and> pw_status w2 = PW_ACTIVE
           \<and> (\<forall>t. active_hours_elapsed w2 t = active_hours_elapsed w t1 + hours_between t2 t)
         else close_expired_freezes i t2 s1 = (Inr (), s1)" if "xp = Some x" for x
    using expire_only_period [OF none s1(2) fp(5,1,3), of x t2] fp(4) that ended by (cases "iso_le x t2") auto
  show ?thesis using s1(1,3) fp(2,4) frozen resumed expired by blast
qed

theorem frozen_time_excluded_witness:
  "\<exists>fp s1 w1. freeze_window 1 TEMPORARY_WEAR_EXEMPTION hour (Some ''e'') None (Some (2 * hour))
        (penalty_sample [sample_window]) = (Inr fp, s1)
    \<and> window_by_id 1 s1 = Some w1 \<and> pw_status w1 = PW_FROZEN
    \<and> (\<forall>t. active_hours_elapsed w1 t = 1)
    \<and> (\<exists>s2 w2. close_expired_freezes 1 (3 * hour) s1 = (Inr (), s2) \<and> window_by_id 1 s2 = Some w2
        \<and> pw_status w2 = PW_ACTIVE \<and> active_hours_elapsed w2 (5 * hour) = 3)"
proof -
  have act: "pw_status sample_window = PW_ACTIVE" and links: "freeze_links_ok TEMPORARY_WEAR_EXEMPTION (Some ''e'') None"
    by (simp_all add: sample_window_def new_window_def freeze_links_ok_def)
  have le: "iso_le (2 * hour) (3 * hour)" by (simp add: iso_le_def iso_rank_def hour_def)
  have hours: "active_hours_elapsed sample_window hour = 1" "hours_between (3 * hour) (5 * hour) = 2"
    by (simp_all add: sample_window_def new_window_def active_hours_elapsed_def hours_between_def hour_def)
  from frozen_time_excluded [OF single_okD(1) [OF penalty_sample_ok] penalty_sample_window act links disjI1 [OF refl],
      of hour "Some (2 * hour)" "3 * hour"]
  show ?thesis using le hours by auto
qed

text \<open>
  An emergency freeze is never ended by the completion detection (I17): however late
  ensure_current_state runs, the period stays open and its window is not active.
\<close>

theorem emergency_freeze_stays:
  assumes single: "single_ok s" and w: "window_by_id i s = Some w" and wopen: "window_open w"
  shows "\<exists>fp s1. emergency_freeze i t s = (Inr fp, s1)
    \<and> (let s2 = snd (ensure_current_state now s1)
       in fp \<in> set (freeze_periods s2) \<and> period_open fp
          \<and> (\<forall>w2. window_by_id i s2 = Some w2 \<longrightarrow> pw_status w2 \<noteq> PW_ACTIVE))"
proof -
  let ?fp = "opened_period (next_id s) i EMERGENCY_OVERRIDE t None None None"
  obtain a s0 where wr: "freeze_write i EMERGENCY_OVERRIDE t None None None s = Inr (a, s0)"
    and a: "fst a = ?fp" and fs0: "freeze_periods s0 = freeze_periods s @ [?fp]"
    using w by (auto simp: freeze_write_eq Let_def freeze_index_ok_def freeze_links_ok_def set_frozen_def)
  obtain s1 where s1: "emergency_freeze i t s = (Inr ?fp, s1)" "outbox_only s0 s1"
    using transition_writes_events [of "freeze_write i EMERGENCY_OVERRIDE t None None None" s a s0
        "freeze_events i EMERGENCY_OVERRIDE t True", OF wr writes_events_freeze] a
    by (cases a) (auto simp: emergency_freeze_def freeze_in_transaction_def op_bind_def op_return_def)
  have "may_freeze i s" using w wopen by (simp add: may_freeze_def)
  then have single1: "single_ok s1"
    using single_freeze [OF single, of i EMERGENCY_OVERRIDE t None None None True] s1(1)
    by (simp add: emergency_freeze_def)
  have fp1: "?fp \<in> set (freeze_periods s1)" using fs0 outbox_only_tables [OF s1(2)] by simp
  let ?s2 = "snd (ensure_current_state now s1)"
  have fp2: "?fp \<in> set (freeze_periods ?s2)"
    by (rule unexpiring_period_stays [OF single1 fp1]) (simp add: opened_period_def)
  have popen: "period_open ?fp" by (simp add: opened_period_def period_open_def)
  have single2: "single_ok ?s2" using op_keeps_single_ensure single1 by (rule op_keepsD)
  have "pw_status w2 \<noteq> PW_ACTIVE" if "window_by_id i ?s2 = Some w2" for w2
  proof -
    have "0 < open_in i (freeze_periods ?s2)"
      by (rule open_in_pos [OF fp2 _ popen]) (simp add: opened_period_def)
    then show ?thesis using status_matchesD(1) [OF single_okD(1) [OF single2] that] by (auto simp: status_matches_def)
  qed
  with s1(1) fp2 popen show ?thesis by (intro exI [of _ ?fp] exI [of _ s1]) (simp add: Let_def)
qed

theorem emergency_freeze_stays_witness:
  "\<exists>fp s1. emergency_freeze 1 minute (penalty_sample [sample_window]) = (Inr fp, s1)
    \<and> (let s2 = snd (ensure_current_state (365 * day) s1)
       in fp \<in> set (freeze_periods s2) \<and> period_open fp
          \<and> (\<forall>w2. window_by_id 1 s2 = Some w2 \<longrightarrow> pw_status w2 \<noteq> PW_ACTIVE))"
  by (rule emergency_freeze_stays [OF penalty_sample_ok penalty_sample_window])
    (simp add: sample_window_def new_window_def window_open_def)



text \<open>
  C21: Recovery credits (I3, I26): the credit of a completion is the proposed amount, cut to what is
  left of half the window's target. It is recorded once, as a decision; a positive credit is added to
  the window's earned hours and booked in the ledger, and changes no other window; a repeated call
  returns the same decision and changes nothing. The earned hours are always the sum of the window's
  ledger rows and never more than half its target, whatever is proposed.
\<close>

theorem recovery_credit_bounded:
  assumes ok: "penalty_ok s" and w: "window_by_id i s = Some w"
    and new: "row_by rd_completion_id c (recovery_credit_decisions s) = None"
  shows "\<exists>d s' w' n. record_recovery_credit_in_transaction c i p now s = Inr (d, s')
    \<and> rd_completion_id d = c \<and> rd_penalty_window_id d = i \<and> rd_proposed_hours d = p
    \<and> rd_credited_hours d = min p (max 0 (target_active_hours w / 2 - pw_recovery_credits_earned_hours w))
    \<and> (rd_capacity_limited d \<longleftrightarrow> rd_credited_hours d < p)
    \<and> recovery_credit_decisions s' = recovery_credit_decisions s @ [d]
    \<and> recovery_credit_ledger s' = recovery_credit_ledger s
        @ (if 0 < rd_credited_hours d
           then [\<lparr>rl_id = n, rl_penalty_window_id = i, rl_credited_hours = rd_credited_hours d,
                  rl_source_completion_id = Some c, rl_created_at = now\<rparr>] else [])
    \<and> w' = w\<lparr>pw_recovery_credits_earned_hours :=
               pw_recovery_credits_earned_hours w + max 0 (rd_credited_hours d)\<rparr>
    \<and> penalty_windows s' = map (\<lambda>x. if x = w then w' else x) (penalty_windows s)
    \<and> pw_recovery_credits_earned_hours w' \<le> max 0 (target_active_hours w' / 2)
    \<and> pw_recovery_credits_earned_hours w' = hours_credited i (recovery_credit_ledger s')
    \<and> record_recovery_credit_in_transaction c j p' now' s' = Inr (d, s')"
proof -
  let ?d = "credit_decision (next_id s) c w p now" and ?s' = "credited c w p now s"
  let ?h = "credited_hours w p"
  let ?w' = "w\<lparr>pw_recovery_credits_earned_hours := pw_recovery_credits_earned_hours w + max 0 ?h\<rparr>"
  have wid: "pw_id w = i" and mem: "w \<in> set (penalty_windows s)" using window_by_idD [OF w] by simp_all
  have run: "record_recovery_credit_in_transaction c i p now s = Inr (?d, ?s')" by (rule credit_eq [OF new w])
  have ok': "penalty_ok ?s'" using keeps_penalty_credit ok run by (rule keepsD)
  have decisions: "recovery_credit_decisions ?s' = recovery_credit_decisions s @ [?d]"
    and ledger: "recovery_credit_ledger ?s' = recovery_credit_ledger s @ (if 0 < ?h
        then [\<lparr>rl_id = Suc (next_id s), rl_penalty_window_id = i, rl_credited_hours = ?h,
               rl_source_completion_id = Some c, rl_created_at = now\<rparr>] else [])"
    using wid by (simp_all add: credited_def credit_decision_def Let_def)
  have "penalty_windows ?s' = update_where (\<lambda>x. pw_id x = pw_id w)
      (\<lambda>x. x\<lparr>pw_recovery_credits_earned_hours := pw_recovery_credits_earned_hours x + max 0 ?h\<rparr>) (penalty_windows s)"
    by (cases "0 < ?h") (simp_all add: credited_def credit_decision_def Let_def max_def)
  then have windows: "penalty_windows ?s' = map (\<lambda>x. if x = w then ?w' else x) (penalty_windows s)"
    using update_by_id_map [OF windows_okD(1) [OF penalty_okD(1) [OF ok]] mem] by simp
  have w'mem: "?w' \<in> set (penalty_windows ?s')" "pw_id ?w' = i" using mem wid by (auto simp: windows)
  then have w': "window_by_id i ?s' = Some ?w'" using window_by_id_eq [OF penalty_okD(1) [OF ok']] by force
  have earned: "pw_recovery_credits_earned_hours ?w' = hours_credited i (recovery_credit_ledger ?s')"
    using penalty_okD(4) [OF ok'] w'mem unfolding credits_ok_def by metis
  have "row_by rd_completion_id c (recovery_credit_decisions ?s') = Some ?d"
    using new by (simp add: decisions row_by_append credit_decision_def)
  then have again: "record_recovery_credit_in_transaction c j p' now' ?s' = Inr (?d, ?s')" by (rule credit_existing)
  have dec: "rd_completion_id ?d = c" "rd_penalty_window_id ?d = i" "rd_proposed_hours ?d = p" "rd_credited_hours ?d = ?h"
    "?h = min p (max 0 (target_active_hours w / 2 - pw_recovery_credits_earned_hours w))" "rd_capacity_limited ?d \<longleftrightarrow> ?h < p"
    using wid by (simp_all add: credit_decision_def credited_hours_def)
  have bound: "pw_recovery_credits_earned_hours ?w' \<le> max 0 (target_active_hours ?w' / 2)"
    using status_matchesD(2) [OF ok' w'] by (simp add: window_ok_def)
  show ?thesis
    by (intro exI [of _ ?d] exI [of _ ?s'] exI [of _ ?w'] exI [of _ "Suc (next_id s)"], unfold dec(4))
      (intro conjI refl run dec decisions ledger windows bound earned again)
qed

theorem recovery_credit_bounded_witness:
  "\<exists>d s' w' n. record_recovery_credit_in_transaction 4 1 100 0 (penalty_sample [sample_window]) = Inr (d, s')
    \<and> rd_credited_hours d = 12 \<and> rd_capacity_limited d
    \<and> recovery_credit_decisions s' = [d]
    \<and> recovery_credit_ledger s' = [\<lparr>rl_id = n, rl_penalty_window_id = 1, rl_credited_hours = 12,
         rl_source_completion_id = Some 4, rl_created_at = 0\<rparr>]
    \<and> penalty_windows s' = [sample_window\<lparr>pw_recovery_credits_earned_hours := 12\<rparr>]
    \<and> record_recovery_credit_in_transaction 4 1 50 1 s' = Inr (d, s')"
proof -
  have "row_by rd_completion_id 4 (recovery_credit_decisions (penalty_sample [sample_window])) = None"
    by (simp add: penalty_sample_def)
  note recovery_credit_bounded [OF single_okD(1) [OF penalty_sample_ok] penalty_sample_window this, of 100 0 1 50 1]
  then obtain d s' w' n where run: "record_recovery_credit_in_transaction 4 1 100 0 (penalty_sample [sample_window]) = Inr (d, s')"
      "record_recovery_credit_in_transaction 4 1 50 1 s' = Inr (d, s')"
    and hours: "rd_credited_hours d = min 100 (max 0 (target_active_hours sample_window / 2
        - pw_recovery_credits_earned_hours sample_window))" "rd_capacity_limited d \<longleftrightarrow> rd_credited_hours d < 100"
    and rows: "recovery_credit_decisions s' = recovery_credit_decisions (penalty_sample [sample_window]) @ [d]"
      "recovery_credit_ledger s' = recovery_credit_ledger (penalty_sample [sample_window])
        @ (if 0 < rd_credited_hours d
           then [\<lparr>rl_id = n, rl_penalty_window_id = 1, rl_credited_hours = rd_credited_hours d,
                  rl_source_completion_id = Some 4, rl_created_at = 0\<rparr>] else [])"
    and w': "w' = sample_window\<lparr>pw_recovery_credits_earned_hours :=
               pw_recovery_credits_earned_hours sample_window + max 0 (rd_credited_hours d)\<rparr>"
      "penalty_windows s' = map (\<lambda>x. if x = sample_window then w' else x) (penalty_windows (penalty_sample [sample_window]))"
    by (elim exE conjE) (erule (7) that)
  have sample: "recovery_credit_ledger (penalty_sample [sample_window]) = []"
    "recovery_credit_decisions (penalty_sample [sample_window]) = []"
    "penalty_windows (penalty_sample [sample_window]) = [sample_window]"
    "target_active_hours sample_window = 24" "pw_recovery_credits_earned_hours sample_window = 0"
    by (simp_all add: penalty_sample_def sample_window_def new_window_def target_active_hours_def
        max_target_active_hours_def)
  have credit: "rd_credited_hours d = 12" using hours(1) unfolding sample by simp
  show ?thesis using run hours(2) rows w' by (intro exI [of _ d] exI [of _ s'] exI [of _ n]) (simp add: sample credit)
qed

text \<open>
  \<open>freeze\<close> does not look at the status: an emergency freeze of a completed window followed by its
  resumption makes the window active again, although it keeps its closing time, and so adds an open
  window to the one that may already be open.
\<close>

theorem completed_window_reactivated:
  assumes single: "single_ok s" and w: "window_by_id i s = Some w" and comp: "pw_status w = PW_COMPLETED"
  shows "\<exists>fp s1 s2 w2. emergency_freeze i t1 s = (Inr fp, s1) \<and> resume i EMERGENCY_OVERRIDE t2 s1 = (Inr (), s2)
    \<and> window_by_id i s2 = Some w2 \<and> pw_status w2 = PW_ACTIVE \<and> pw_closed_at w2 \<noteq> None
    \<and> open_windows s2 = Suc (open_windows s)"
proof -
  note ok = single_okD(1) [OF single] and win = window_by_idD [OF w]
  have only: "x = w" if "x \<in> set (penalty_windows s)" "pw_id x = i" for x
    using window_by_id_eq [OF penalty_okD(1) [OF ok] that(1)] that(2) w by simp
  have "open_in i (freeze_periods s) = 0" using single_okD(3) [OF single] win comp by auto
  then obtain fp s1 s2 where r: "emergency_freeze i t1 s = (Inr fp, s1)"
    "resume i EMERGENCY_OVERRIDE t2 s1 = (Inr (), s2)"
    "window_by_id i s2 = Some (after_resume (after_freeze w t1) t2)"
    and ws: "penalty_windows s2 = update_where (\<lambda>x. pw_id x = i) (\<lambda>x. after_resume (after_freeze x t1) t2) (penalty_windows s)"
    using emergency_round [OF w _ only] by blast
  have "distinct (map pw_id ws) \<Longrightarrow> w \<in> set ws \<Longrightarrow>
      count_where window_open (update_where (\<lambda>x. pw_id x = i) (\<lambda>x. after_resume (after_freeze x t1) t2) ws)
      = Suc (count_where window_open ws)" for ws
  proof (induction ws)
    case (Cons x xs)
    show ?case
    proof (cases "x = w")
      case True
      then have "update_where (\<lambda>x. pw_id x = i) (\<lambda>x. after_resume (after_freeze x t1) t2) xs = xs"
        using Cons.prems(1) win by (intro update_where_absent) auto
      then show ?thesis using True win comp by (simp add: window_open_def after_resume_def)
    next
      case False
      then have "pw_id x \<noteq> i" using Cons.prems win by force
      with Cons False show ?thesis by simp
    qed
  qed simp
  then have "open_windows s2 = Suc (open_windows s)"
    using windows_okD(1) [OF penalty_okD(1) [OF ok]] win by (simp add: open_windows_def ws)
  moreover have "pw_closed_at w \<noteq> None" using status_matchesD(2) [OF ok w] comp by (simp add: window_ok_def)
  ultimately show ?thesis using r comp
    by (intro exI [of _ fp] exI [of _ s1] exI [of _ s2] exI [of _ "after_resume (after_freeze w t1) t2"])
      (simp add: after_resume_def after_freeze_def)
qed

definition sample_completed :: penalty_window where
  "sample_completed = sample_window\<lparr>pw_status := PW_COMPLETED, pw_closed_at := Some day,
     pw_resolution_method := Some COUNTDOWN_COMPLETE\<rparr>"

theorem completed_window_reactivated_witness:
  "\<exists>fp s1 s2 w2. emergency_freeze 1 (2 * day) (penalty_sample [sample_completed, new_window 2 day 24]) = (Inr fp, s1)
    \<and> resume 1 EMERGENCY_OVERRIDE (3 * day) s1 = (Inr (), s2)
    \<and> window_by_id 1 s2 = Some w2 \<and> pw_status w2 = PW_ACTIVE \<and> pw_closed_at w2 \<noteq> None
    \<and> open_windows s2 = Suc (open_windows (penalty_sample [sample_completed, new_window 2 day 24]))"
proof (rule completed_window_reactivated)
  show "single_ok (penalty_sample [sample_completed, new_window 2 day 24])"
    by (simp add: single_ok_def penalty_ok_defs penalty_sample_def sample_completed_def sample_window_def
        new_window_def window_ok_def hours_assigned_def hours_credited_def open_in_def open_windows_def
        target_active_hours_def max_target_active_hours_def window_open_def)
  show "window_by_id 1 (penalty_sample [sample_completed, new_window 2 day 24]) = Some sample_completed"
    by (simp add: window_by_id_def penalty_sample_def sample_completed_def sample_window_def new_window_def)
  show "pw_status sample_completed = PW_COMPLETED" by (simp add: sample_completed_def)
qed

end
