(* ===== verification/Infrastructure_Properties.thy ===== *)
theory Infrastructure_Properties
  imports Consumers Startup_Lease
begin

text \<open>
  The properties of the infrastructure layer: transactions, claims, publication, idempotent
  consumption, exception isolation of the dispatcher, and the startup lease.
\<close>

definition sample_event :: event_row where
  "sample_event = \<lparr>ev_id = 1, ev_type = ''incident.reported'', ev_source = ''trust_manager'',
     ev_payload = [], ev_occurred_at = 0, ev_created_at = 0, ev_claimed_at = None,
     ev_claim_expires_at = None, ev_published_at = None\<rparr>"

definition sample_outbox :: outbox_db where
  "sample_outbox = \<lparr>next_id = 2, domain_events = [sample_event], event_consumers = []\<rparr>"

lemmas sample_outbox_defs = sample_outbox_def sample_event_def

text \<open>
  C25: While a claim's lease lasts (in the order SQLite compares the stored instants), a second
  call of claim_pending_events hands out none of the events of the first: no two publishers work
  on the same event.
\<close>

theorem claim_exclusive:
  assumes "\<not> iso_le (now + d) now'"
  shows "\<exists>es s1 es' s2. claim_pending_events n now d s = (Inr es, s1)
    \<and> claim_pending_events n' now' d' s1 = (Inr es', s2)
    \<and> ce_id ` set es \<inter> ce_id ` set es' = {}"
proof -
  let ?rows = "claim_batch n now (domain_events s)"
  let ?s1 = "set_claimed (map ev_id ?rows) now (now + d) s"
  let ?rows' = "claim_batch n' now' (domain_events ?s1)"
  have "ev_id ` set ?rows \<inter> ev_id ` set ?rows' = {}"
  proof (rule equals0I)
    fix x assume "x \<in> ev_id ` set ?rows \<inter> ev_id ` set ?rows'"
    then have ids: "x \<in> ev_id ` set ?rows" and ids': "x \<in> ev_id ` set ?rows'" by simp_all
    from ids' obtain r where xr: "x = ev_id r" and r: "r \<in> set ?rows'" by (rule imageE)
    have x: "ev_id r \<in> set (map ev_id ?rows)" using ids by (simp add: xr)
    have "\<not> claimable now' r"
      using conjunct1 [OF claim_batch_set [OF r]] x assms by (rule not_claimable_after_claim)
    with claim_batch_set [OF r] show False by simp
  qed
  then show ?thesis
    by (simp add: claim_pending_events_eq Let_def claimed_of_def image_image)
qed

theorem claim_exclusive_witness:
  "\<exists>es s1 es' s2. claim_pending_events 50 0 (5 * minute) sample_outbox = (Inr es, s1)
    \<and> claim_pending_events 50 minute (5 * minute) s1 = (Inr es', s2)
    \<and> ce_id ` set es \<inter> ce_id ` set es' = {}"
  by (rule claim_exclusive) (simp add: iso_le_def iso_rank_def minute_def)

text \<open>
  A published event is never claimed again, whatever the time and the batch size, as long as
  no row loses its publication mark (none of the statements of the module removes one).
\<close>

theorem published_never_reclaimed:
  assumes "\<forall>r \<in> set (domain_events s'). ev_id r \<in> set ids \<longrightarrow> ev_published_at r \<noteq> None"
  shows "(case fst (claim_pending_events n now d s') of Inl _ \<Rightarrow> False
          | Inr es \<Rightarrow> ce_id ` set es \<inter> set ids = {})"
  using assms claim_batch_set
  by (fastforce simp: claim_pending_events_eq Let_def claimed_of_def claimable_def)

theorem published_never_reclaimed_witness:
  "(case fst (claim_pending_events 50 (365 * day) minute (snd (mark_published [1] 0 sample_outbox)))
    of Inl _ \<Rightarrow> False | Inr es \<Rightarrow> ce_id ` set es \<inter> set [1] = {})"
  by (rule published_never_reclaimed)
    (simp add: mark_published_eq set_published_def sample_outbox_defs)

text \<open>
  \<open>consume_event\<close> applies a handler at most once per consumer name: once a call returned True,
  every later delivery of the event to that consumer, with any handler, returns False and leaves
  the database as it is, as long as the processed records are kept.
\<close>

theorem consume_event_once:
  assumes "fst (consume_event e c h now s) = Inr True"
    and "set (event_consumers (snd (consume_event e c h now s))) \<subseteq> set (event_consumers s')"
  shows "consume_event e c h' now' s' = (Inr False, s')"
proof -
  have "processed (ce_id e) c (snd (consume_event e c h now s))"
    using assms(1) by (rule consume_event_processed)
  then have "processed (ce_id e) c s'" using assms(2) by (auto simp: processed_def)
  then show ?thesis by (simp add: consume_event_eq)
qed

definition sample_claim :: claimed_event where
  "sample_claim = claimed_of sample_event"

theorem consume_event_once_witness:
  "consume_event sample_claim ''observer'' (tx_raise ValueError) minute
     (snd (consume_event sample_claim ''observer'' (tx_return ()) 0 sample_outbox))
   = (Inr False, snd (consume_event sample_claim ''observer'' (tx_return ()) 0 sample_outbox))"
  by (rule consume_event_once [where h = "tx_return ()" and now = 0 and s = sample_outbox])
    (auto simp: consume_event_eq tx_return_apply processed_def sample_claim_def sample_outbox_defs
      claimed_of_def)

text \<open>
  A raising handler rolls its own writes back and does not disturb the others: dispatch goes
  on with the next registration on the state it found, and the result is that of the
  registrations before and after it alone.
\<close>

theorem dispatch_isolates_exceptions:
  assumes "regs_for reg (ce_type e) = before @ (c, h) # after"
    and "h e (snd (dispatch_each before e now s)) = Inl x"
    and "\<not> processed (ce_id e) c (snd (dispatch_each before e now s))"
  shows "dispatch reg e now s = dispatch_each (before @ after) e now s"
  unfolding dispatch_def assms(1) dispatch_each_append
  by (simp only: split_beta Let_def dispatch_each_raising [of h, OF assms(2,3)])

theorem dispatch_isolates_exceptions_witness:
  "dispatch [(''incident.reported'', [(''a'', \<lambda>_. tx_return ()), (''b'', \<lambda>_. tx_raise ValueError)])]
     sample_claim 0 sample_outbox
   = dispatch_each ([(''a'', \<lambda>_. tx_return ())] @ []) sample_claim 0 sample_outbox"
  by (rule dispatch_isolates_exceptions [where c = "''b''" and h = "\<lambda>_. tx_raise ValueError"])
    (auto simp: regs_for_def sample_claim_def sample_outbox_defs claimed_of_def consume_event_eq
      tx_return_apply tx_raise_apply processed_def)

text \<open>
  The publisher marks every event of a batch as published after dispatching it, also when a
  handler raised: the failed reaction is never retried. The event here is published, no consumer
  recorded it, and a further run of the publisher does nothing.
\<close>

theorem failed_reaction_is_not_retried:
  "let reg = [(''incident.reported'', [(''a'', \<lambda>_. tx_raise ValueError)])];
       s1 = snd (process_pending_events reg 0 sample_outbox)
   in fst (process_pending_events reg 0 sample_outbox) = Inr 0
      \<and> \<not> processed 1 ''a'' s1
      \<and> map ev_published_at (domain_events s1) = [Some 0]
      \<and> process_pending_events reg now s1 = (Inr 0, s1)"
proof -
  have ten: "(10::nat) = Suc (Suc 8)" by simp
  show ?thesis
    unfolding process_pending_events_def ten pending_rounds_Suc Let_def
    by (simp add: claim_batch_def sample_outbox_defs claimable_def set_claimed_def claimed_of_def
        dispatch_def regs_for_def consume_event_eq processed_def tx_raise_apply set_published_def)
qed

text \<open>
  The startup lease excludes: while a lease acquired at \<open>now\<close> for duration \<open>d\<close> lives, no
  process acquires it, and the attempt changes nothing; from its expiry on, an acquisition
  succeeds.
\<close>

theorem lease_excludes:
  assumes "acquire_system_startup_lease p now d s = (Inr (Some l), s1)"
  shows "(now' < now + d \<longrightarrow> acquire_system_startup_lease q now' d' s1 = (Inr None, s1))
    \<and> (now + d \<le> now' \<longrightarrow> fst (acquire_system_startup_lease q now' d' s1)
      = Inr (Some \<lparr>lease_held_by = q, lease_acquired_at = now', lease_until = now' + d'\<rparr>))"
  using assms by (auto simp: acquire_eq lease_live_def split: if_splits)

definition sample_lease_db :: lease_db where
  "sample_lease_db = \<lparr>next_id = 1, domain_events = [], event_consumers = [], system_startup_lease = None\<rparr>"

theorem lease_excludes_witness:
  "acquire_system_startup_lease ''b'' (3 * minute) minute
      (snd (acquire_system_startup_lease ''a'' 0 (5 * minute) sample_lease_db))
    = (Inr None, snd (acquire_system_startup_lease ''a'' 0 (5 * minute) sample_lease_db))"
proof -
  have acq: "acquire_system_startup_lease ''a'' 0 (5 * minute) sample_lease_db
    = (Inr (Some \<lparr>lease_held_by = ''a'', lease_acquired_at = 0, lease_until = 0 + 5 * minute\<rparr>),
       snd (acquire_system_startup_lease ''a'' 0 (5 * minute) sample_lease_db))"
    by (simp add: acquire_eq sample_lease_db_def lease_live_def)
  show ?thesis
    using lease_excludes [OF acq, of "3 * minute" "''b''" minute] by (simp add: minute_def)
qed

text \<open>
  A release by a former holder is harmless: it changes a lease only when the lease is held by
  the process that releases, and then the lease is free at once.
\<close>

theorem stale_release_harmless:
  assumes "system_startup_lease s = Some r"
  shows "(held_by r \<noteq> Some (lease_held_by l) \<longrightarrow> release_system_startup_lease l s = (Inr (), s))
    \<and> (held_by r = Some (lease_held_by l) \<longrightarrow>
      \<not> lease_live (system_startup_lease (snd (release_system_startup_lease l s))) now)"
  using assms by (simp_all add: release_eq lease_live_def)

theorem stale_release_harmless_witness:
  "release_system_startup_lease \<lparr>lease_held_by = ''a'', lease_acquired_at = 0, lease_until = 5\<rparr>
     (snd (acquire_system_startup_lease ''b'' 10 minute sample_lease_db))
   = (Inr (), snd (acquire_system_startup_lease ''b'' 10 minute sample_lease_db))"
proof -
  let ?s = "snd (acquire_system_startup_lease ''b'' 10 minute sample_lease_db)"
  have row: "system_startup_lease ?s = Some \<lparr>held_by = Some ''b'', acquired_at = Some 10,
      lease_expires_at = Some (10 + minute)\<rparr>"
    by (simp add: acquire_eq sample_lease_db_def lease_live_def)
  show ?thesis
    using stale_release_harmless [OF row, of "\<lparr>lease_held_by = ''a'', lease_acquired_at = 0, lease_until = 5\<rparr>"]
    by simp
qed

section \<open>Transactions\<close>

text \<open>
  C29: Database.transaction refines an atomic step. The statements of a block write to their own
  connection: whatever they have written, and even when one of them then raises, the committed
  content is the old one until the block ends. A block that raises leaves the content untouched and
  re-raises; one that returns commits exactly its writes; in both cases the lock is free and the
  thread's guard closed again. When another thread's connection holds the write lock past the busy
  timeout the block is not run and OperationalError raised; a nested transaction of the same thread
  raises NestedTransactionError; both change nothing.
\<close>

theorem transaction_refines_atomic_step:
  "(txn_open db th \<longrightarrow> transaction th body db = (Inl NestedTransactionError, db))
   \<and> (\<not> txn_open db th \<longrightarrow> (case uncommitted db of
        Some (h, s) \<Rightarrow> h \<noteq> th \<longrightarrow> transaction th body db = (Inl OperationalError, db)
      | None \<Rightarrow> transaction th (op_bind (execute th f) (\<lambda>a. execute th (g a))) db =
          (case f (content db) of
             (Inl e, s1) \<Rightarrow> (Inl e, db)
           | (Inr a, s1) \<Rightarrow> (case g a s1 of
               (Inl e, s2) \<Rightarrow> (Inl e, db)
             | (Inr b, s2) \<Rightarrow> (Inr b, db\<lparr>content := s2\<rparr>)))))
   \<and> content (snd (op_bind (execute th f) (\<lambda>a. execute th (g a)) db')) = content db'"
proof -
  have "transaction th (op_bind (execute th f) (\<lambda>a. execute th (g a))) db =
          (case f (content db) of
             (Inl e, s1) \<Rightarrow> (Inl e, db)
           | (Inr a, s1) \<Rightarrow> (case g a s1 of
               (Inl e, s2) \<Rightarrow> (Inl e, db)
             | (Inr b, s2) \<Rightarrow> (Inr b, db\<lparr>content := s2\<rparr>)))"
    if free: "\<not> txn_open db th" "uncommitted db = None"
  proof -
    have "transaction th (op_bind (execute th f) (\<lambda>a. execute th (g a))) db = transaction th (execute th (op_bind f g)) db"
      by (rule transaction_cong) (simp add: execute_bind)
    then show ?thesis by (auto simp: transaction_execute [OF free] op_bind_def split: sum.split prod.split)
  qed
  moreover have "content (snd (op_bind (execute th f) (\<lambda>a. execute th (g a)) db')) = content db'"
  proof (cases "execute th f db'")
    case (Pair r db1)
    have "content db1 = content db'" using execute_isolated [of th f db'] Pair by simp
    then show ?thesis using Pair execute_isolated [of th _ db1] by (cases r) (simp_all add: op_bind_def)
  qed
  ultimately show ?thesis by (auto simp: transaction_nested transaction_locked split: option.split)
qed

definition idle_database :: "int list database" where
  "idle_database = \<lparr>content = [1], uncommitted = None, txn_open = (\<lambda>_. False)\<rparr>"

text \<open>An INSERT that succeeds, then a statement that raises, or one that does not.\<close>

theorem transaction_refines_atomic_step_witness:
  "transaction 0 (op_bind (execute 0 (\<lambda>rows. (Inr (), rows @ [2]))) (\<lambda>_. execute 0 (op_raise IntegrityError))) idle_database
     = (Inl IntegrityError :: exn + unit, idle_database)
   \<and> transaction 0 (op_bind (execute 0 (\<lambda>rows. (Inr (), rows @ [2]))) (\<lambda>_. execute 0 (op_return ()))) idle_database
     = (Inr (), idle_database\<lparr>content := [1, 2]\<rparr>)"
proof -
  have idle: "\<not> txn_open idle_database 0" "uncommitted idle_database = None" "content idle_database = [1]"
    by (simp_all add: idle_database_def)
  have run: "transaction 0 (op_bind (execute 0 f) (\<lambda>a. execute 0 (g a))) idle_database =
      (case f (content idle_database) of
             (Inl e, s1) \<Rightarrow> (Inl e, idle_database)
           | (Inr a, s1) \<Rightarrow> (case g a s1 of
               (Inl e, s2) \<Rightarrow> (Inl e, idle_database)
             | (Inr b, s2) \<Rightarrow> (Inr b, idle_database\<lparr>content := s2\<rparr>)))"
    for f and g :: "unit \<Rightarrow> (int list, unit) op"
    using transaction_refines_atomic_step [of idle_database 0 "\<lambda>db. (Inr (), db)" f g idle_database] idle(1,2) by simp
  show ?thesis unfolding run by (simp add: idle op_raise_def op_return_def)
qed

end
