(* ===== verification/Iso_Text.thy ===== *)
theory Iso_Text
  imports Texts Time_Format
begin

text \<open>
  \<open>infrastructure/time_format.py\<close> at the level of its texts: \<open>iso\<close> prints an aware UTC
  \<open>datetime\<close>, \<open>parse_iso\<close> reads the text back. The first result is the round trip; the second
  justifies \<open>iso_le\<close>: the byte order of two stored texts is the order of the numbers
  \<open>iso_rank\<close> gives the instants, which is how the other theories model SQL comparisons.
\<close>

section \<open>Calendar\<close>

text \<open>A \<open>datetime\<close> in UTC, and the instant it denotes (\<open>_ymd2ord\<close> of Python's \<open>datetime\<close>).\<close>

record datetime =
  dt_year :: nat
  dt_month :: nat
  dt_day :: nat
  dt_hour :: nat
  dt_minute :: nat
  dt_second :: nat
  dt_microsecond :: nat

definition is_leap :: "nat \<Rightarrow> bool" where
  "is_leap y \<longleftrightarrow> y mod 4 = 0 \<and> (y mod 100 \<noteq> 0 \<or> y mod 400 = 0)"

fun days_in_month :: "nat \<Rightarrow> nat \<Rightarrow> nat" where
  "days_in_month y m = (if m = 2 then (if is_leap y then 29 else 28)
     else if m \<in> {4, 6, 9, 11} then 30 else 31)"

definition valid_datetime :: "datetime \<Rightarrow> bool" where
  "valid_datetime d \<longleftrightarrow> 1 \<le> dt_year d \<and> dt_year d \<le> 9999 \<and> 1 \<le> dt_month d \<and> dt_month d \<le> 12 \<and>
     1 \<le> dt_day d \<and> dt_day d \<le> days_in_month (dt_year d) (dt_month d) \<and>
     dt_hour d < 24 \<and> dt_minute d < 60 \<and> dt_second d < 60 \<and> dt_microsecond d < 1000000"

definition days_before_year :: "nat \<Rightarrow> int" where
  "days_before_year y = (let z = int y - 1 in z * 365 + z div 4 - z div 100 + z div 400)"

fun days_before_month :: "nat \<Rightarrow> nat \<Rightarrow> nat" where
  "days_before_month y 0 = 0"
| "days_before_month y (Suc m) = (if m = 0 then 0 else days_before_month y m + days_in_month y m)"

definition ymd_ord :: "nat \<Rightarrow> nat \<Rightarrow> nat \<Rightarrow> int" where
  "ymd_ord y m d = days_before_year y + int (days_before_month y m) + int d"

definition epoch_seconds :: "datetime \<Rightarrow> int" where
  "epoch_seconds d = (ymd_ord (dt_year d) (dt_month d) (dt_day d) - 719163) * 86400
     + int (dt_hour d) * 3600 + int (dt_minute d) * 60 + int (dt_second d)"

definition instant :: "datetime \<Rightarrow> time" where
  "instant d = epoch_seconds d * 1000000 + int (dt_microsecond d)"

section \<open>iso() and parse_iso()\<close>

definition iso_seconds :: "datetime \<Rightarrow> string" where
  "iso_seconds d = padded 4 (dt_year d) @ ''-'' @ padded 2 (dt_month d) @ ''-'' @ padded 2 (dt_day d) @
     ''T'' @ padded 2 (dt_hour d) @ '':'' @ padded 2 (dt_minute d) @ '':'' @ padded 2 (dt_second d)"

text \<open>\<open>isoformat()\<close> leaves the fraction out when it is 0; \<open>+00:00\<close> becomes \<open>Z\<close>.\<close>

definition iso_tail :: "nat \<Rightarrow> string" where
  "iso_tail us = (if us = 0 then ''Z'' else ''.'' @ padded 6 us @ ''Z'')"

definition iso :: "datetime \<Rightarrow> string" where
  "iso d = iso_seconds d @ iso_tail (dt_microsecond d)"

text \<open>
  \<open>fromisoformat\<close> on the two layouts \<open>iso\<close> writes, with the range checks of the \<open>datetime\<close>
  constructor. \<open>None\<close> stands for every other text: those \<open>fromisoformat\<close> rejects with
  \<open>ValueError\<close> and the further layouts it accepts, which no repository ever stores.
\<close>

definition text_field :: "nat \<Rightarrow> nat \<Rightarrow> string \<Rightarrow> nat option" where
  "text_field from width t = read_digits 0 (take width (drop from t))"

definition iso_layout :: "string \<Rightarrow> bool" where
  "iso_layout t \<longleftrightarrow> (length t = 20 \<or> length t = 27 \<and> t ! 19 = CHR ''.'') \<and>
     t ! 4 = CHR ''-'' \<and> t ! 7 = CHR ''-'' \<and> t ! 10 = CHR ''T'' \<and> t ! 13 = CHR '':'' \<and>
     t ! 16 = CHR '':'' \<and> last t = CHR ''Z''"

definition parse_iso :: "string \<Rightarrow> datetime option" where
  "parse_iso t =
     (if \<not> iso_layout t then None
      else case (text_field 0 4 t, text_field 5 2 t, text_field 8 2 t, text_field 11 2 t,
                 text_field 14 2 t, text_field 17 2 t,
                 if length t = 20 then Some 0 else text_field 20 6 t) of
        (Some y, Some m, Some d, Some h, Some mi, Some s, Some us) \<Rightarrow>
          (let r = \<lparr>dt_year = y, dt_month = m, dt_day = d, dt_hour = h, dt_minute = mi,
                    dt_second = s, dt_microsecond = us\<rparr>
           in if valid_datetime r then Some r else None)
      | _ \<Rightarrow> None)"

section \<open>The instants follow the calendar\<close>

lemma days_before_month_mono:
  assumes "m < m'" and "d \<le> days_in_month y m" and "1 \<le> m" and "1 \<le> d'"
  shows "days_before_month y m + d < days_before_month y m' + d'"
proof -
  have "days_before_month y m + days_in_month y m \<le> days_before_month y m'"
    using assms(1,3)
  proof (induction m')
    case 0
    then show ?case by simp
  next
    case (Suc k)
    then show ?case by (cases "m = k") (auto simp del: days_in_month.simps)
  qed
  then show ?thesis using assms(2,4) by linarith
qed

lemma days_in_year:
  "1 \<le> m \<Longrightarrow> m \<le> 12 \<Longrightarrow> days_before_month y m + days_in_month y m \<le> (if is_leap y then 366 else 365)"
proof -
  assume "1 \<le> m" "m \<le> 12"
  then have "m = 1 \<or> m = 2 \<or> m = 3 \<or> m = 4 \<or> m = 5 \<or> m = 6 \<or> m = 7 \<or> m = 8 \<or> m = 9
      \<or> m = 10 \<or> m = 11 \<or> m = 12" by presburger
  then show ?thesis by (auto simp: numeral_eq_Suc)
qed

lemma days_before_next_year:
  "days_before_year (Suc y) = days_before_year y + (if is_leap y then 366 else 365)"
proof (cases y)
  case 0
  then show ?thesis by (simp add: days_before_year_def is_leap_def)
next
  case (Suc n)
  have next_div: "int y div int k = int n div int k + (if y mod k = 0 then 1 else 0)" for k
  proof -
    have "int y div int k = int (Suc n div k)" by (simp only: Suc zdiv_int)
    then show ?thesis using div_Suc [of n k] by (simp only: Suc zdiv_int [symmetric]) simp
  qed
  have n: "y mod 400 = 0 \<Longrightarrow> y mod 100 = 0" "y mod 100 = 0 \<Longrightarrow> y mod 4 = 0"
    by (auto simp: mod_eq_0_iff_dvd elim: dvd_trans [rotated])
  have "days_before_year (Suc y) = int y * 365 + int y div 4 - int y div 100 + int y div 400"
    by (simp add: days_before_year_def Let_def)
  moreover have "days_before_year y = int n * 365 + int n div 4 - int n div 100 + int n div 400"
    by (simp add: days_before_year_def Let_def Suc)
  ultimately show ?thesis
    using next_div [of 4] next_div [of 100] next_div [of 400] n Suc by (auto simp: is_leap_def)
qed

lemma days_before_later_year:
  "y < y' \<Longrightarrow> days_before_year y + (if is_leap y then 366 else 365) \<le> days_before_year y'"
proof (induction y')
  case 0
  then show ?case by simp
next
  case (Suc k)
  show ?case
  proof (cases "y = k")
    case True
    then show ?thesis by (simp add: days_before_next_year)
  next
    case False
    then have "days_before_year y + (if is_leap y then 366 else 365) \<le> days_before_year k"
      using Suc by simp
    also have "\<dots> \<le> days_before_year (Suc k)" by (simp add: days_before_next_year)
    finally show ?thesis .
  qed
qed

text \<open>The fields from the year down to the second, most significant first.\<close>

definition civil :: "datetime \<Rightarrow> nat list" where
  "civil d = [dt_year d, dt_month d, dt_day d, dt_hour d, dt_minute d, dt_second d]"

lemma ymd_ord_less:
  assumes "valid_datetime a" and "valid_datetime b"
    and "[dt_year a, dt_month a, dt_day a] < [dt_year b, dt_month b, dt_day b]"
  shows "ymd_ord (dt_year a) (dt_month a) (dt_day a) < ymd_ord (dt_year b) (dt_month b) (dt_day b)"
proof -
  have a: "1 \<le> dt_month a" "dt_month a \<le> 12" "dt_day a \<le> days_in_month (dt_year a) (dt_month a)"
    and b: "1 \<le> dt_day b"
    using assms(1,2) by (auto simp: valid_datetime_def simp del: days_in_month.simps)
  consider (year) "dt_year a < dt_year b"
    | (month) "dt_year a = dt_year b" "dt_month a < dt_month b"
    | (day) "dt_year a = dt_year b" "dt_month a = dt_month b" "dt_day a < dt_day b"
    using assms(3) by (auto split: if_splits)
  then show ?thesis
  proof cases
    case year
    have "int (days_before_month (dt_year a) (dt_month a)) + int (dt_day a)
        \<le> (if is_leap (dt_year a) then 366 else 365)"
      using days_in_year [OF a(1,2), of "dt_year a"] a(3)
      by (simp del: days_in_month.simps split: if_splits)
    then show ?thesis using days_before_later_year [OF year] b unfolding ymd_ord_def by linarith
  next
    case month
    then show ?thesis using days_before_month_mono [OF month(2) a(3) a(1) b]
      unfolding ymd_ord_def by (simp del: days_in_month.simps)
  next
    case day
    then show ?thesis unfolding ymd_ord_def by simp
  qed
qed

definition second_of_day :: "datetime \<Rightarrow> int" where
  "second_of_day d = int (dt_hour d) * 3600 + int (dt_minute d) * 60 + int (dt_second d)"

lemma second_of_day_bounds: "valid_datetime d \<Longrightarrow> 0 \<le> second_of_day d \<and> second_of_day d < 86400"
  by (auto simp: valid_datetime_def second_of_day_def)

lemma second_of_day_less:
  "valid_datetime a \<Longrightarrow> valid_datetime b \<Longrightarrow>
    [dt_hour a, dt_minute a, dt_second a] < [dt_hour b, dt_minute b, dt_second b] \<Longrightarrow>
    second_of_day a < second_of_day b"
  by (auto simp: valid_datetime_def second_of_day_def split: if_splits)

lemma civil_less:
  "civil a < civil b \<longleftrightarrow> [dt_year a, dt_month a, dt_day a] < [dt_year b, dt_month b, dt_day b] \<or>
     ([dt_year a, dt_month a, dt_day a] = [dt_year b, dt_month b, dt_day b] \<and>
      [dt_hour a, dt_minute a, dt_second a] < [dt_hour b, dt_minute b, dt_second b])"
  by (auto simp: civil_def)

lemma epoch_seconds_less:
  assumes "valid_datetime a" and "valid_datetime b" and "civil a < civil b"
  shows "epoch_seconds a < epoch_seconds b"
proof -
  let ?o = "\<lambda>d. ymd_ord (dt_year d) (dt_month d) (dt_day d)"
  have e: "epoch_seconds d = (?o d - 719163) * 86400 + second_of_day d" for d
    by (simp add: epoch_seconds_def second_of_day_def)
  have "?o a < ?o b \<or> ?o a = ?o b \<and> second_of_day a < second_of_day b"
    using assms(3) unfolding civil_less
    using ymd_ord_less [OF assms(1,2)] second_of_day_less [OF assms(1,2)] by auto
  moreover have "(x - 719163) * 86400 + r < (y - 719163) * 86400 + r'"
    if "x < y" "r < 86400" "0 \<le> r'" for x y r r' :: int
  proof -
    have "(x + 1) * 86400 \<le> y * 86400" using that(1) by simp
    then show ?thesis using that by (simp add: algebra_simps)
  qed
  ultimately show ?thesis unfolding e
    using second_of_day_bounds [OF assms(1)] second_of_day_bounds [OF assms(2)] by auto
qed

lemma epoch_seconds_civil: "civil a = civil b \<Longrightarrow> epoch_seconds a = epoch_seconds b"
  by (simp add: civil_def epoch_seconds_def)

lemma epoch_seconds_less_iff:
  assumes "valid_datetime a" and "valid_datetime b"
  shows "epoch_seconds a < epoch_seconds b \<longleftrightarrow> civil a < civil b"
    and "epoch_seconds a = epoch_seconds b \<longleftrightarrow> civil a = civil b"
proof -
  note ab = epoch_seconds_less [OF assms] and ba = epoch_seconds_less [OF assms(2,1)]
  consider "civil a < civil b" | "civil a = civil b" | "civil b < civil a" by (rule linorder_cases)
  then have "(epoch_seconds a < epoch_seconds b \<longleftrightarrow> civil a < civil b) \<and>
      (epoch_seconds a = epoch_seconds b \<longleftrightarrow> civil a = civil b)"
  proof cases
    case 1
    then show ?thesis using ab by (metis less_irrefl)
  next
    case 2
    then show ?thesis using epoch_seconds_civil by (metis less_irrefl)
  next
    case 3
    then show ?thesis using ba by (metis less_asym less_irrefl)
  qed
  then show "epoch_seconds a < epoch_seconds b \<longleftrightarrow> civil a < civil b"
    and "epoch_seconds a = epoch_seconds b \<longleftrightarrow> civil a = civil b" by blast+
qed

section \<open>The texts follow the calendar\<close>

lemma iso_seconds_length [simp]: "length (iso_seconds d) = 19"
  by (simp add: iso_seconds_def)

lemma field_bounds:
  assumes "valid_datetime d"
  shows "dt_year d < 10 ^ 4" "dt_month d < 10\<^sup>2" "dt_day d < 10\<^sup>2" "dt_hour d < 10\<^sup>2" "dt_minute d < 10\<^sup>2"
    "dt_second d < 10\<^sup>2" "dt_microsecond d < 10 ^ 6"
proof -
  have "days_in_month (dt_year d) (dt_month d) \<le> 31" by simp
  then show "dt_year d < 10 ^ 4" "dt_month d < 10\<^sup>2" "dt_day d < 10\<^sup>2" "dt_hour d < 10\<^sup>2" "dt_minute d < 10\<^sup>2"
    "dt_second d < 10\<^sup>2" "dt_microsecond d < 10 ^ 6"
    using assms by (auto simp: valid_datetime_def simp del: days_in_month.simps)
qed

lemma iso_seconds_less:
  assumes "valid_datetime a" and "valid_datetime b"
  shows "iso_seconds a < iso_seconds b \<longleftrightarrow> civil a < civil b"
    and "iso_seconds a = iso_seconds b \<longleftrightarrow> civil a = civil b"
  using field_bounds [OF assms(1)] field_bounds [OF assms(2)]
  by (simp_all add: iso_seconds_def civil_def less_append_same_length padded_less padded_inj)

definition fraction_rank :: "nat \<Rightarrow> nat" where
  "fraction_rank us = (if us = 0 then 1000000 else us)"

lemma iso_tail_less:
  assumes "u < 10 ^ 6" and "v < 10 ^ 6"
  shows "iso_tail u < iso_tail v \<longleftrightarrow> fraction_rank u < fraction_rank v"
  using assms by (auto simp: iso_tail_def fraction_rank_def less_append_same_length padded_less less_char_def)

lemma iso_rank_instant:
  assumes "valid_datetime d"
  shows "iso_rank (instant d) = epoch_seconds d * 1000001 + int (fraction_rank (dt_microsecond d))"
proof -
  have us: "0 \<le> int (dt_microsecond d)" "int (dt_microsecond d) < 1000000"
    using assms by (auto simp: valid_datetime_def)
  have "instant d div 1000000 = epoch_seconds d" "instant d mod 1000000 = int (dt_microsecond d)"
    using us unfolding instant_def by simp_all
  then show ?thesis by (simp add: iso_rank_def fraction_rank_def)
qed

lemma fraction_rank_bounds: "us < 1000000 \<Longrightarrow> 1 \<le> fraction_rank us \<and> fraction_rank us \<le> 1000000"
  by (simp add: fraction_rank_def)

lemma iso_less:
  assumes a: "valid_datetime a" and b: "valid_datetime b"
  shows "iso a < iso b \<longleftrightarrow> iso_rank (instant a) < iso_rank (instant b)"
proof -
  let ?f = "\<lambda>d. int (fraction_rank (dt_microsecond d))"
  have f: "1 \<le> ?f a" "?f a \<le> 1000000" "1 \<le> ?f b" "?f b \<le> 1000000"
    using fraction_rank_bounds a b by (simp_all add: valid_datetime_def Suc_leI)
  have "iso a < iso b \<longleftrightarrow> epoch_seconds a < epoch_seconds b \<or>
      (epoch_seconds a = epoch_seconds b \<and> ?f a < ?f b)"
    using field_bounds(7) [OF a] field_bounds(7) [OF b]
    by (simp add: iso_def less_append_same_length iso_tail_less iso_seconds_less [OF a b]
        epoch_seconds_less_iff [OF a b])
  also have "\<dots> \<longleftrightarrow> iso_rank (instant a) < iso_rank (instant b)"
    unfolding iso_rank_instant [OF a] iso_rank_instant [OF b]
    using f by (cases "epoch_seconds a" "epoch_seconds b" rule: linorder_cases) linarith+
  finally show ?thesis .
qed

text \<open>C19: SQLite compares stored instants as texts, and the order of the texts of two valid UTC
  datetimes is exactly the order iso_le the model uses for the instants they denote; in
  particular different instants have different texts.\<close>
theorem stored_order_is_iso_le:
  assumes "valid_datetime a" and "valid_datetime b"
  shows "iso a \<le> iso b \<longleftrightarrow> iso_le (instant a) (instant b)"
  using iso_less [OF assms(2,1)] unfolding iso_le_def not_less [symmetric] by blast

definition new_year :: datetime where
  "new_year = \<lparr>dt_year = 2026, dt_month = 1, dt_day = 1, dt_hour = 0, dt_minute = 0, dt_second = 0,
     dt_microsecond = 0\<rparr>"

definition after_new_year :: datetime where
  "after_new_year = new_year\<lparr>dt_microsecond := 250000\<rparr>"

lemma sample_datetimes_valid: "valid_datetime new_year" "valid_datetime after_new_year"
  by (simp_all add: new_year_def after_new_year_def valid_datetime_def is_leap_def)

text \<open>A quarter of a second after midnight has the smaller text.\<close>

lemma stored_order_is_iso_le_witness:
  "(iso new_year \<le> iso after_new_year) = iso_le (instant new_year) (instant after_new_year)
   \<and> \<not> iso new_year \<le> iso after_new_year \<and> instant new_year < instant after_new_year"
proof -
  note eq = stored_order_is_iso_le [OF sample_datetimes_valid]
  have "\<not> iso_le (instant new_year) (instant after_new_year)"
    unfolding iso_le_def iso_rank_instant [OF sample_datetimes_valid(1)]
      iso_rank_instant [OF sample_datetimes_valid(2)]
    by (simp add: fraction_rank_def new_year_def after_new_year_def epoch_seconds_def)
  moreover have "instant new_year < instant after_new_year"
    by (simp add: instant_def new_year_def after_new_year_def epoch_seconds_def)
  ultimately show ?thesis using eq by blast
qed

section \<open>Round trip\<close>

lemma iso_fields:
  assumes "valid_datetime d"
  shows "text_field 0 4 (iso d) = Some (dt_year d)" "text_field 5 2 (iso d) = Some (dt_month d)"
    "text_field 8 2 (iso d) = Some (dt_day d)" "text_field 11 2 (iso d) = Some (dt_hour d)"
    "text_field 14 2 (iso d) = Some (dt_minute d)" "text_field 17 2 (iso d) = Some (dt_second d)"
  using field_bounds [OF assms]
  by (simp_all add: text_field_def iso_def iso_seconds_def read_padded)

lemma iso_fraction:
  assumes "valid_datetime d"
  shows "(if length (iso d) = 20 then Some 0 else text_field 20 6 (iso d)) = Some (dt_microsecond d)"
  using field_bounds [OF assms]
  by (simp add: text_field_def iso_def iso_seconds_def iso_tail_def read_padded)

lemma iso_layout_iso: "iso_layout (iso d)"
  by (simp add: iso_layout_def iso_def iso_seconds_def iso_tail_def nth_append)

lemma parse_iso_iso:
  "(valid_datetime d \<longrightarrow> parse_iso (iso d) = Some d) \<and>
   (parse_iso t = Some e \<longrightarrow> valid_datetime e)"
proof (intro conjI impI)
  assume d: "valid_datetime d"
  then show "parse_iso (iso d) = Some d"
    unfolding parse_iso_def iso_fields [OF d] iso_fraction [OF d] Let_def using iso_layout_iso [of d]
    by (cases d) simp
next
  assume "parse_iso t = Some e"
  then show "valid_datetime e" unfolding parse_iso_def Let_def
    by (auto split: if_splits option.splits simp del: valid_datetime_def)
qed

text \<open>What an operation stores in a timestamp column is what a later read returns:
  parse_iso of the text iso writes for a valid UTC datetime is that datetime, whether or not
  the fraction of the second is printed; and whatever parse_iso accepts is a valid datetime.\<close>
theorem iso_roundtrip:
  "(valid_datetime d \<longrightarrow> parse_iso (iso d) = Some d) \<and>
   (parse_iso t = Some e \<longrightarrow> valid_datetime e)"
  by (rule parse_iso_iso)

lemma digit_chars: "digit 0 = CHR ''0''" "digit 1 = CHR ''1''" "digit 2 = CHR ''2''"
    "digit 5 = CHR ''5''" "digit 6 = CHR ''6''"
  by (simp_all add: digit_def char_of_def bit_numeral_rec bit_0)

lemma padded_numeral: "padded (numeral k) n = padded (pred_numeral k) (n div 10) @ [digit (n mod 10)]"
  by (simp only: numeral_eq_Suc padded.simps)

lemma iso_roundtrip_witness:
  "valid_datetime after_new_year \<and> iso after_new_year = ''2026-01-01T00:00:00.250000Z''
   \<and> parse_iso (iso after_new_year) = Some after_new_year"
proof (intro conjI)
  show "valid_datetime after_new_year" by (rule sample_datetimes_valid)
  show "iso after_new_year = ''2026-01-01T00:00:00.250000Z''"
    by (simp add: iso_def iso_seconds_def iso_tail_def after_new_year_def new_year_def padded_numeral
        digit_chars del: One_nat_def) (simp add: digit_chars)
  show "parse_iso (iso after_new_year) = Some after_new_year"
    using iso_roundtrip [of after_new_year] sample_datetimes_valid by blast
qed

end
