(* ===== verification/Subject_Queue.thy ===== *)
theory Subject_Queue
  imports Texts "HOL-Library.Sublist"
begin

text \<open>
  \<open>conversation_engine/subject_queue.py\<close>: the ticket queue that serialises the turns of one
  subject. The entries of the dict are objects that worker threads keep a reference to, so they live
  in a store; an \<open>Event\<close> is a ticket number with the set of the events that are set. The two
  critical sections under \<open>_registry_lock\<close> are atomic operations; a step relation interleaves
  the threads between them.
\<close>

section \<open>State\<close>

record queue_entry =
  waiting :: "nat list"
  active_count :: int

datatype turn_phase = BLOCKED | IN_TURN

record queue_state =
  entries :: "string \<rightharpoonup> nat"
  objects :: "nat \<Rightarrow> queue_entry"
  set_events :: "nat set"
  threads :: "nat \<rightharpoonup> (string \<times> nat \<times> turn_phase)"
  next_ticket :: nat
  next_object :: nat

definition new_queue_entry :: queue_entry where
  "new_queue_entry = \<lparr>waiting = [], active_count = 0\<rparr>"

definition empty_queue :: queue_state where
  "empty_queue = \<lparr>entries = Map.empty, objects = (\<lambda>r. new_queue_entry), set_events = {}, threads = Map.empty,
     next_ticket = 0, next_object = 0\<rparr>"

section \<open>The two critical sections of turn()\<close>

definition entry_for :: "string \<Rightarrow> queue_state \<Rightarrow> nat \<times> queue_state" where
  \<comment> \<open>\<open>self._entries.setdefault(subject_key, _SubjectQueueEntry())\<close>\<close>
  "entry_for k q = (case entries q k of Some r \<Rightarrow> (r, q)
     | None \<Rightarrow> (next_object q, q\<lparr>entries := (entries q)(k \<mapsto> next_object q),
         objects := (objects q)(next_object q := new_queue_entry), next_object := Suc (next_object q)\<rparr>))"

definition join_line :: "string \<Rightarrow> queue_state \<Rightarrow> (exn + nat) \<times> queue_state" where
  "join_line k q =
    (if \<not> nonblank k then (Inl ValueError, q)
     else let (r, q1) = entry_for k q; t = next_ticket q; e = objects q1 r in
       (Inr t, q1\<lparr>
           objects := (objects q1)(r := \<lparr>waiting = waiting e @ [t], active_count = active_count e + 1\<rparr>),
           set_events := (if waiting e = [] then insert t (set_events q1) else set_events q1),
           threads := (threads q1)(t \<mapsto> (k, r, BLOCKED)), next_ticket := Suc t\<rparr>))"

definition leave_line :: "nat \<Rightarrow> string \<Rightarrow> nat \<Rightarrow> queue_state \<Rightarrow> (exn + unit) \<times> queue_state" where
  "leave_line t k r q =
    (let q1 = q\<lparr>threads := (threads q)(t := None)\<rparr>; e = objects q r in
     case waiting e of [] \<Rightarrow> (Inl IndexError, q1)
     | first # rest \<Rightarrow>
        (let q2 = q1\<lparr>
           objects := (objects q1)(r := \<lparr>waiting = rest, active_count = active_count e - 1\<rparr>),
           set_events := (if rest = [] then set_events q1 else insert (hd rest) (set_events q1))\<rparr> in
         if active_count e - 1 = 0 then
           (if entries q2 k = None then (Inl (KeyError k), q2)
            else (Inr (), q2\<lparr>entries := (entries q2)(k := None)\<rparr>))
         else (Inr (), q2)))"

section \<open>Interleaving\<close>

datatype turn_event = Joined string nat | Started string nat | Left string nat

inductive turn_step :: "queue_state \<Rightarrow> turn_event \<Rightarrow> queue_state \<Rightarrow> bool" where
  join: "turn_step q (Joined k t) q'" if "join_line k q = (Inr t, q')"
| start: "turn_step q (Started k t) (q\<lparr>threads := (threads q)(t \<mapsto> (k, r, IN_TURN))\<rparr>)"
    if "threads q t = Some (k, r, BLOCKED)" "t \<in> set_events q"
| leave: "turn_step q (Left k t) (snd (leave_line t k r q))"
    if "threads q t = Some (k, r, IN_TURN)"

inductive_cases turn_stepE: "turn_step q ev q'"

inductive turns :: "turn_event list \<Rightarrow> queue_state \<Rightarrow> bool" where
  none: "turns [] empty_queue"
| more: "turns (evs @ [ev]) q'" if "turns evs q" "turn_step q ev q'"

fun joins :: "string \<Rightarrow> turn_event list \<Rightarrow> nat list" where
  "joins k [] = []"
| "joins k (Joined j t # evs) = (if j = k then t # joins k evs else joins k evs)"
| "joins k (ev # evs) = joins k evs"

fun starts :: "string \<Rightarrow> turn_event list \<Rightarrow> nat list" where
  "starts k [] = []"
| "starts k (Started j t # evs) = (if j = k then t # starts k evs else starts k evs)"
| "starts k (ev # evs) = starts k evs"

fun leaves :: "string \<Rightarrow> turn_event list \<Rightarrow> nat list" where
  "leaves k [] = []"
| "leaves k (Left j t # evs) = (if j = k then t # leaves k evs else leaves k evs)"
| "leaves k (ev # evs) = leaves k evs"

lemma joins_append [simp]: "joins k (xs @ ys) = joins k xs @ joins k ys"
  by (induction k xs rule: joins.induct) auto

lemma starts_append [simp]: "starts k (xs @ ys) = starts k xs @ starts k ys"
  by (induction k xs rule: starts.induct) auto

lemma leaves_append [simp]: "leaves k (xs @ ys) = leaves k xs @ leaves k ys"
  by (induction k xs rule: leaves.induct) auto

section \<open>Invariant\<close>

definition line_of :: "queue_state \<Rightarrow> string \<Rightarrow> nat list" where
  "line_of q k = (case entries q k of None \<Rightarrow> [] | Some r \<Rightarrow> waiting (objects q r))"

definition in_turn :: "queue_state \<Rightarrow> string \<Rightarrow> nat \<Rightarrow> bool" where
  "in_turn q k t \<longleftrightarrow> (\<exists>r. threads q t = Some (k, r, IN_TURN))"

definition entry_ok :: "queue_state \<Rightarrow> string \<Rightarrow> nat \<Rightarrow> bool" where
  "entry_ok q k r \<longleftrightarrow> (let e = objects q r in
     r < next_object q \<and> waiting e \<noteq> [] \<and> distinct (waiting e) \<and>
     active_count e = int (length (waiting e)) \<and> hd (waiting e) \<in> set_events q \<and>
     set (tl (waiting e)) \<inter> set_events q = {} \<and>
     (\<forall>t \<in> set (waiting e). \<exists>ph. threads q t = Some (k, r, ph)))"

definition thread_ok :: "queue_state \<Rightarrow> nat \<Rightarrow> bool" where
  "thread_ok q t \<longleftrightarrow> (\<forall>k r ph. threads q t = Some (k, r, ph) \<longrightarrow>
     t < next_ticket q \<and> entries q k = Some r \<and> t \<in> set (waiting (objects q r)) \<and>
     (ph = IN_TURN \<longrightarrow> t \<in> set_events q))"

definition queue_ok :: "queue_state \<Rightarrow> bool" where
  "queue_ok q \<longleftrightarrow> (\<forall>k r. entries q k = Some r \<longrightarrow> entry_ok q k r) \<and> (\<forall>t. thread_ok q t) \<and>
     (\<forall>t \<in> set_events q. t < next_ticket q)"

text \<open>What the log of a run says about the line of one subject: who joined is who left followed by
  who is in line, and who started is who left followed by the one in the turn, if any.\<close>

definition log_ok :: "turn_event list \<Rightarrow> queue_state \<Rightarrow> bool" where
  "log_ok evs q \<longleftrightarrow> (\<forall>k. joins k evs = leaves k evs @ line_of q k \<and>
     starts k evs = leaves k evs @ filter (in_turn q k) (line_of q k))"

lemma entries_unshared:
  "\<lbrakk>queue_ok q; entries q k = Some r; entries q j = Some r\<rbrakk> \<Longrightarrow> j = k"
  unfolding queue_ok_def entry_ok_def Let_def by (metis hd_in_set option.inject prod.inject)

lemma in_turn_head:
  assumes "queue_ok q" and "in_turn q k t"
  shows "\<exists>r rest. entries q k = Some r \<and> waiting (objects q r) = t # rest"
proof -
  obtain r where r: "threads q t = Some (k, r, IN_TURN)" using assms(2) by (auto simp: in_turn_def)
  then have e: "entries q k = Some r" "t \<in> set (waiting (objects q r))" "t \<in> set_events q"
    using assms(1) unfolding queue_ok_def thread_ok_def by blast+
  then have "entry_ok q k r" using assms(1) by (simp add: queue_ok_def)
  then show ?thesis using e by (cases "waiting (objects q r)") (auto simp: entry_ok_def Let_def)
qed

lemma empty_queue_ok: "queue_ok empty_queue" "log_ok [] empty_queue"
  by (simp_all add: queue_ok_def thread_ok_def empty_queue_def log_ok_def line_of_def)

section \<open>The operations keep it\<close>

definition lined :: "queue_state \<Rightarrow> string \<Rightarrow> nat \<Rightarrow> nat \<Rightarrow> bool" where
  "lined q k r t \<longleftrightarrow> entries q k = Some r \<and> t \<in> set (waiting (objects q r))"

lemma lined_thread: "\<lbrakk>queue_ok q; lined q k r t\<rbrakk> \<Longrightarrow> \<exists>ph. threads q t = Some (k, r, ph)"
  by (auto simp: queue_ok_def lined_def entry_ok_def Let_def)

lemma lined_old: "\<lbrakk>queue_ok q; lined q k r t\<rbrakk> \<Longrightarrow> t < next_ticket q"
  using lined_thread by (fastforce simp: queue_ok_def thread_ok_def)

lemma entry_known: "\<lbrakk>queue_ok q; entries q k = Some r\<rbrakk> \<Longrightarrow> r < next_object q"
  by (auto simp: queue_ok_def entry_ok_def Let_def)

lemma thread_known: "\<lbrakk>queue_ok q; threads q t = Some (k, r, ph)\<rbrakk> \<Longrightarrow> t < next_ticket q \<and> lined q k r t"
  by (auto simp: queue_ok_def thread_ok_def lined_def)

lemma line_of_Some: "entries q k = Some r \<Longrightarrow> line_of q k = waiting (objects q r)"
  by (simp add: line_of_def)

definition extended :: "queue_state \<Rightarrow> string \<Rightarrow> nat \<Rightarrow> queue_entry \<Rightarrow> queue_state" where
  "extended q k r e = q\<lparr>entries := (entries q)(k \<mapsto> r),
     objects := (objects q)(r := \<lparr>waiting = waiting e @ [next_ticket q], active_count = active_count e + 1\<rparr>),
     set_events := (if waiting e = [] then insert (next_ticket q) (set_events q) else set_events q),
     threads := (threads q)(next_ticket q \<mapsto> (k, r, BLOCKED)), next_ticket := Suc (next_ticket q),
     next_object := (if r = next_object q then Suc r else next_object q)\<rparr>"

lemma join_line_eq:
  assumes "queue_ok q" and "join_line k q = (Inr t, q')"
  shows "t = next_ticket q \<and> nonblank k \<and>
    ((\<exists>r. entries q k = Some r \<and> q' = extended q k r (objects q r)) \<or>
     (entries q k = None \<and> q' = extended q k (next_object q) new_queue_entry))"
proof (cases "entries q k")
  case None
  then show ?thesis using assms(2)
    by (auto simp: join_line_def entry_for_def extended_def new_queue_entry_def Let_def split: if_splits)
next
  case (Some r)
  moreover have "r \<noteq> next_object q" using entry_known [OF assms(1) Some] by simp
  moreover have "(entries q)(k \<mapsto> r) = entries q" using Some by auto
  ultimately show ?thesis using assms(2)
    by (auto simp: join_line_def entry_for_def extended_def Let_def split: if_splits)
qed

lemma extended_ok:
  assumes ok: "queue_ok q"
    and r: "entries q k = Some r \<and> e = objects q r \<or> entries q k = None \<and> r = next_object q \<and> e = new_queue_entry"
  shows "queue_ok (extended q k r e)"
proof -
  let ?t = "next_ticket q" and ?q = "extended q k r e"
  have other: "j = k" if "entries q j = Some r" for j
    using r entries_unshared [OF ok _ that] entry_known [OF ok that] by auto
  have e_ok: "distinct (waiting e)" "active_count e = int (length (waiting e))"
      "waiting e \<noteq> [] \<Longrightarrow> hd (waiting e) \<in> set_events q" "set (tl (waiting e)) \<inter> set_events q = {}"
      "\<And>u. u \<in> set (waiting e) \<Longrightarrow> lined q k r u"
    using r ok by (auto simp: new_queue_entry_def queue_ok_def entry_ok_def Let_def lined_def)
  have new: "?t \<notin> set (waiting e)" "?t \<notin> set_events q"
    using e_ok(5) lined_old [OF ok] ok by (auto simp: queue_ok_def)
  have r_known: "r < next_object ?q"
    using r entry_known [OF ok] by (auto simp: extended_def)
  have mine: "entry_ok ?q k r"
    using e_ok(1-4) new r_known lined_thread [OF ok e_ok(5)]
    by (cases "waiting e") (auto simp: entry_ok_def Let_def extended_def)
  have "entry_ok ?q j s" if s: "entries ?q j = Some s" for j s
  proof (cases "j = k")
    case True
    then show ?thesis using s mine by (simp add: extended_def)
  next
    case False
    then have old: "entries q j = Some s" and "s \<noteq> r" using s other by (auto simp: extended_def)
    then have "entry_ok q j s" using ok by (simp add: queue_ok_def)
    moreover have "?t \<notin> set (waiting (objects q s))"
      using lined_old [OF ok, of j s ?t] old by (auto simp: lined_def)
    ultimately show ?thesis using \<open>s \<noteq> r\<close> entry_known [OF ok old]
      by (cases "waiting (objects q s)") (auto simp: entry_ok_def Let_def extended_def)
  qed
  moreover have "thread_ok ?q u" for u
  proof (cases "u = ?t")
    case False
    have "u < next_ticket ?q \<and> entries ?q j = Some s \<and> u \<in> set (waiting (objects ?q s)) \<and>
        (ph = IN_TURN \<longrightarrow> u \<in> set_events ?q)"
      if th: "threads ?q u = Some (j, s, ph)" for j s ph
    proof -
      have old: "threads q u = Some (j, s, ph)" using th False by (simp add: extended_def)
      then have l: "lined q j s u" "u < next_ticket q" using thread_known [OF ok] by blast+
      have "thread_ok q u" using ok by (simp add: queue_ok_def)
      then have ev: "ph = IN_TURN \<longrightarrow> u \<in> set_events q" using old by (simp add: thread_ok_def)
      have s: "entries q j = Some s" "u \<in> set (waiting (objects q s))" using l(1) by (simp_all add: lined_def)
      show ?thesis
      proof (cases "j = k")
        case True
        then have "s = r \<and> e = objects q r" using r s(1) by (elim disjE) simp_all
        then show ?thesis using True s l ev by (simp add: extended_def)
      next
        case False
        then have "s \<noteq> r" using other s(1) by blast
        then show ?thesis using False s l ev by (simp add: extended_def)
      qed
    qed
    then show ?thesis by (simp add: thread_ok_def)
  qed (auto simp: thread_ok_def extended_def)
  moreover have "\<forall>u \<in> set_events ?q. u < next_ticket ?q"
    using ok by (auto simp: extended_def queue_ok_def)
  ultimately show ?thesis by (simp add: queue_ok_def)
qed

lemma queue_ok_join:
  assumes ok: "queue_ok q" and run: "join_line k q = (Inr t, q')"
  shows "queue_ok q'" "line_of q' = (line_of q)(k := line_of q k @ [t])"
    "in_turn q' = in_turn q" "\<not> in_turn q j t"
proof -
  note eq = join_line_eq [OF assms]
  show "queue_ok q'" using eq extended_ok [OF ok] by blast
  have idle: "\<not> in_turn q j t" for j using eq thread_known [OF ok] by (fastforce simp: in_turn_def)
  then show "\<not> in_turn q j t" .
  have "in_turn (extended q k r e) i u \<longleftrightarrow> u \<noteq> next_ticket q \<and> in_turn q i u" for r e i u
    by (auto simp: in_turn_def extended_def)
  then show "in_turn q' = in_turn q" using eq idle by (auto simp: fun_eq_iff)
  have "line_of q' j = ((line_of q)(k := line_of q k @ [t])) j" for j
  proof (cases "j = k")
    case True
    then show ?thesis using eq by (auto simp: line_of_def extended_def new_queue_entry_def)
  next
    case False
    then have "entries q j = Some r \<Longrightarrow> entries q k = Some s \<Longrightarrow> r \<noteq> s" for r s
      using entries_unshared [OF ok] by blast
    then show ?thesis using eq False entry_known [OF ok, of j]
      by (fastforce simp: line_of_def extended_def split: option.splits)
  qed
  then show "line_of q' = (line_of q)(k := line_of q k @ [t])" by blast
qed

lemma leave_line_eq:
  assumes "queue_ok q" and "threads q t = Some (k, r, IN_TURN)"
  obtains rest where "waiting (objects q r) = t # rest" "entries q k = Some r"
    "leave_line t k r q = (Inr (), q\<lparr>threads := (threads q)(t := None),
       objects := (objects q)(r := \<lparr>waiting = rest, active_count = int (length rest)\<rparr>),
       set_events := (if rest = [] then set_events q else insert (hd rest) (set_events q)),
       entries := (if rest = [] then (entries q)(k := None) else entries q)\<rparr>)"
proof -
  have "in_turn q k t" using assms(2) by (auto simp: in_turn_def)
  moreover have "entries q k = Some r" using thread_known [OF assms] by (simp add: lined_def)
  ultimately obtain rest where rest: "waiting (objects q r) = t # rest" and e: "entries q k = Some r"
    using in_turn_head [OF assms(1)] by fastforce
  have "entry_ok q k r" using assms(1) e by (simp add: queue_ok_def)
  then have "active_count (objects q r) = int (length (t # rest))" by (simp add: entry_ok_def Let_def rest)
  then have n: "active_count (objects q r) - 1 = int (length rest)" by simp
  show ?thesis by (rule that [OF rest e]) (simp add: leave_line_def Let_def rest n e)
qed

lemma queue_ok_leave:
  assumes ok: "queue_ok q" and th: "threads q t = Some (k, r, IN_TURN)"
    and q': "q' = snd (leave_line t k r q)"
  shows "queue_ok q'" "\<exists>rest. line_of q k = t # rest \<and> line_of q' = (line_of q)(k := rest)"
    "in_turn q' = (in_turn q)(k := (in_turn q k)(t := False))"
proof -
  obtain rest where rest: "waiting (objects q r) = t # rest" and e: "entries q k = Some r"
    and "leave_line t k r q = (Inr (), q\<lparr>threads := (threads q)(t := None),
       objects := (objects q)(r := \<lparr>waiting = rest, active_count = int (length rest)\<rparr>),
       set_events := (if rest = [] then set_events q else insert (hd rest) (set_events q)),
       entries := (if rest = [] then (entries q)(k := None) else entries q)\<rparr>)"
    using leave_line_eq [OF ok th] by blast
  then have eq: "q' = q\<lparr>threads := (threads q)(t := None),
       objects := (objects q)(r := \<lparr>waiting = rest, active_count = int (length rest)\<rparr>),
       set_events := (if rest = [] then set_events q else insert (hd rest) (set_events q)),
       entries := (if rest = [] then (entries q)(k := None) else entries q)\<rparr>"
    using q' by simp
  have mine: "entry_ok q k r" using ok e by (simp add: queue_ok_def)
  have unshared: "s \<noteq> r" if "entries q j = Some s" "j \<noteq> k" for j s
    using entries_unshared [OF ok e] that by blast
  have hd_rest: "rest \<noteq> [] \<Longrightarrow> lined q k r (hd rest)" using rest e by (simp add: lined_def)
  have "entry_ok q' j s" if s: "entries q' j = Some s" for j s
  proof (cases "j = k")
    case True
    then have "rest \<noteq> []" "s = r" using s e by (auto simp: eq split: if_splits)
    then show ?thesis using mine True rest
      by (cases rest) (auto simp: entry_ok_def Let_def eq)
  next
    case False
    then have old: "entries q j = Some s" using s by (auto simp: eq split: if_splits)
    then have "entry_ok q j s" and "s \<noteq> r" using ok unshared [OF old False] by (simp_all add: queue_ok_def)
    moreover have "u \<noteq> t \<and> (rest \<noteq> [] \<longrightarrow> u \<noteq> hd rest)" if "u \<in> set (waiting (objects q s))" for u
      using lined_thread [OF ok, of j s u] lined_thread [OF ok hd_rest] th that old False
      by (auto simp: lined_def)
    ultimately show ?thesis
      by (cases "waiting (objects q s)") (auto simp: entry_ok_def Let_def eq)
  qed
  moreover have "thread_ok q' u" for u
  proof (cases "u = t")
    case False
    have "u < next_ticket q' \<and> entries q' j = Some s \<and> u \<in> set (waiting (objects q' s)) \<and>
        (ph = IN_TURN \<longrightarrow> u \<in> set_events q')"
      if th': "threads q' u = Some (j, s, ph)" for j s ph
    proof -
      have old: "threads q u = Some (j, s, ph)" using th' False by (simp add: eq)
      then have l: "entries q j = Some s" "u \<in> set (waiting (objects q s))" "u < next_ticket q"
        using thread_known [OF ok] by (auto simp: lined_def)
      have "thread_ok q u" using ok by (simp add: queue_ok_def)
      then have ev: "ph = IN_TURN \<longrightarrow> u \<in> set_events q" using old by (simp add: thread_ok_def)
      show ?thesis
      proof (cases "j = k")
        case True
        then have "s = r" using l(1) e by simp
        then have "u \<in> set rest" using l(2) rest False by simp
        then show ?thesis using True \<open>s = r\<close> l ev by (auto simp: eq)
      next
        case False
        then show ?thesis using l ev unshared [OF l(1) False] by (simp add: eq)
      qed
    qed
    then show ?thesis by (simp add: thread_ok_def)
  qed (simp add: thread_ok_def eq)
  moreover have "\<forall>u \<in> set_events q'. u < next_ticket q'"
    using ok lined_old [OF ok hd_rest] by (auto simp: eq queue_ok_def)
  ultimately show "queue_ok q'" by (simp add: queue_ok_def)
  have "line_of q' = (line_of q)(k := rest)"
    using unshared e by (auto simp: fun_eq_iff line_of_def eq split: option.splits)
  then show "\<exists>rest. line_of q k = t # rest \<and> line_of q' = (line_of q)(k := rest)"
    using line_of_Some [OF e] rest by auto
  show "in_turn q' = (in_turn q)(k := (in_turn q k)(t := False))"
    using th by (auto simp: fun_eq_iff in_turn_def eq)
qed

lemma queue_ok_start:
  assumes ok: "queue_ok q" and th: "threads q t = Some (k, r, BLOCKED)" and ev: "t \<in> set_events q"
    and q': "q' = q\<lparr>threads := (threads q)(t \<mapsto> (k, r, IN_TURN))\<rparr>"
  shows "queue_ok q'" "line_of q' = line_of q"
    "in_turn q' = (in_turn q)(k := (in_turn q k)(t := True))" "\<exists>rest. line_of q k = t # rest"
proof -
  have "entry_ok q' j s" if s: "entries q' j = Some s" for j s
  proof -
    have "entry_ok q j s" using ok s by (simp add: queue_ok_def q')
    then show ?thesis using th by (auto simp: entry_ok_def Let_def q')
  qed
  moreover have "thread_ok q' u" for u
  proof -
    have "thread_ok q u" "thread_ok q t" using ok by (simp_all add: queue_ok_def)
    then show ?thesis using th ev by (auto simp: thread_ok_def q')
  qed
  ultimately show "queue_ok q'" using ok by (simp add: queue_ok_def q')
  show "line_of q' = line_of q" by (simp add: fun_eq_iff line_of_def q' split: option.split)
  show "in_turn q' = (in_turn q)(k := (in_turn q k)(t := True))"
    using th by (auto simp: fun_eq_iff in_turn_def q')
  have l: "entries q k = Some r" "t \<in> set (waiting (objects q r))"
    using thread_known [OF ok th] by (simp_all add: lined_def)
  then have "entry_ok q k r" using ok by (simp add: queue_ok_def)
  then show "\<exists>rest. line_of q k = t # rest" using l ev
    by (cases "waiting (objects q r)") (auto simp: entry_ok_def Let_def line_of_def)
qed

lemma turn_taker:
  assumes ok: "queue_ok q" and "line_of q k = h # rest"
  shows "filter (in_turn q k) (line_of q k) = (if in_turn q k h then [h] else [])"
proof -
  have "u = h" if "in_turn q k u" for u
    using in_turn_head [OF ok that] assms(2) by (auto simp: line_of_def)
  moreover have "distinct (line_of q k)"
    using ok by (auto simp: line_of_def queue_ok_def entry_ok_def Let_def split: option.splits)
  ultimately have "\<not> in_turn q k u" if "u \<in> set rest" for u using assms(2) that by fastforce
  then have "filter (in_turn q k) rest = []" by (simp add: filter_empty_conv)
  then show ?thesis by (simp add: assms(2))
qed

lemma log_ok_join:
  assumes "log_ok evs q" and "line_of q' = (line_of q)(k := line_of q k @ [t])"
    and "in_turn q' = in_turn q" and "\<not> in_turn q k t"
  shows "log_ok (evs @ [Joined k t]) q'"
  using assms(1,4) unfolding log_ok_def assms(2,3) by simp

lemma log_ok_start:
  assumes "log_ok evs q" and "line_of q' = line_of q"
    and "filter (in_turn q k) (line_of q k) = []" "filter (in_turn q' k) (line_of q k) = [t]"
    and "\<forall>j. j \<noteq> k \<longrightarrow> in_turn q' j = in_turn q j"
  shows "log_ok (evs @ [Started k t]) q'"
  unfolding log_ok_def
proof
  fix j
  show "joins j (evs @ [Started k t]) = leaves j (evs @ [Started k t]) @ line_of q' j \<and>
      starts j (evs @ [Started k t]) = leaves j (evs @ [Started k t]) @ filter (in_turn q' j) (line_of q' j)"
    using assms by (cases "j = k") (auto simp: log_ok_def)
qed

lemma log_ok_leave:
  assumes "log_ok evs q" and "line_of q k = t # rest" and "line_of q' = (line_of q)(k := rest)"
    and "filter (in_turn q k) (line_of q k) = [t]" "filter (in_turn q' k) rest = []"
    and "\<forall>j. j \<noteq> k \<longrightarrow> in_turn q' j = in_turn q j"
  shows "log_ok (evs @ [Left k t]) q'"
  unfolding log_ok_def
proof
  fix j
  show "joins j (evs @ [Left k t]) = leaves j (evs @ [Left k t]) @ line_of q' j \<and>
      starts j (evs @ [Left k t]) = leaves j (evs @ [Left k t]) @ filter (in_turn q' j) (line_of q' j)"
    using assms by (cases "j = k") (auto simp: log_ok_def)
qed

lemma turn_step_keeps:
  assumes "turn_step q ev q'" and ok: "queue_ok q" and log: "log_ok evs q"
  shows "queue_ok q' \<and> log_ok (evs @ [ev]) q'"
  using assms(1)
proof (cases rule: turn_step.cases)
  case (join k t)
  note j = queue_ok_join [OF ok join(2)]
  show ?thesis unfolding join(1) using j(1) log_ok_join [OF log j(2-4)] by blast
next
  case (start t k r)
  note s = queue_ok_start [OF ok start(3,4,2)]
  obtain rest where rest: "line_of q k = t # rest" using s(4) by blast
  then have rest': "line_of q' k = t # rest" by (simp only: s(2))
  have "\<not> in_turn q k t" using start(3) by (simp add: in_turn_def)
  then have "filter (in_turn q k) (line_of q k) = []" using turn_taker [OF ok rest] by simp
  moreover have "filter (in_turn q' k) (line_of q k) = [t]"
    using turn_taker [OF s(1) rest'] s(3) rest' s(2) by (metis fun_upd_same)
  ultimately show ?thesis unfolding start(1) using s(1) log_ok_start [OF log s(2)] s(3) by simp
next
  case (leave t k r)
  note l = queue_ok_leave [OF ok leave(3,2)]
  obtain rest where rest: "line_of q k = t # rest" "line_of q' = (line_of q)(k := rest)" using l(2) by blast
  have "in_turn q k t" using leave(3) by (auto simp: in_turn_def)
  then have f: "filter (in_turn q k) (line_of q k) = [t]" using turn_taker [OF ok rest(1)] by simp
  then have "\<not> in_turn q k u" if "u \<in> set rest" for u
    using that rest(1) \<open>in_turn q k t\<close> by (auto simp: filter_empty_conv)
  then have "filter (in_turn q' k) rest = []" by (simp add: filter_empty_conv l(3))
  then show ?thesis unfolding leave(1) using l(1) log_ok_leave [OF log rest f] l(3) by simp
qed

theorem turns_ok: "turns evs q \<Longrightarrow> queue_ok q \<and> log_ok evs q"
proof (induction rule: turns.induct)
  case none
  then show ?case using empty_queue_ok by blast
next
  case (more evs q ev q')
  then show ?case using turn_step_keeps by blast
qed

section \<open>Properties\<close>

text \<open>C12: on every interleaving of worker threads, the turns of one subject are taken one at a time
  and in the order the threads joined the queue: who left is an initial part of who started, who
  started is an initial part of who joined, and at most one started turn has not been left.\<close>
theorem turns_are_fifo:
  assumes "turns evs q"
  shows "prefix (leaves k evs) (starts k evs) \<and> prefix (starts k evs) (joins k evs)
    \<and> length (starts k evs) \<le> Suc (length (leaves k evs))"
proof -
  have ok: "queue_ok q" and log: "log_ok evs q" using turns_ok [OF assms] by blast+
  have j: "joins k evs = leaves k evs @ line_of q k"
    and s: "starts k evs = leaves k evs @ filter (in_turn q k) (line_of q k)"
    using log by (simp_all add: log_ok_def)
  show ?thesis
  proof (cases "line_of q k")
    case (Cons h rest)
    show ?thesis using turn_taker [OF ok Cons] Cons unfolding j s by simp
  qed (simp add: j s)
qed

lemma one_turn_run:
  "turns [Joined ''a'' 0, Joined ''a'' 1, Started ''a'' 0]
     (empty_queue\<lparr>entries := [''a'' \<mapsto> 0], objects := (objects empty_queue)(0 := \<lparr>waiting = [0, 1], active_count = 2\<rparr>),
        set_events := {0}, threads := [0 \<mapsto> (''a'', 0, IN_TURN), 1 \<mapsto> (''a'', 0, BLOCKED)],
        next_ticket := 2, next_object := 1\<rparr>)"
proof -
  have j0: "join_line ''a'' empty_queue = (Inr 0, snd (join_line ''a'' empty_queue))"
    by (simp add: join_line_def entry_for_def empty_queue_def nonblank_def py_space_def)
  have j1: "join_line ''a'' (snd (join_line ''a'' empty_queue))
      = (Inr 1, snd (join_line ''a'' (snd (join_line ''a'' empty_queue))))"
    by (simp add: join_line_def entry_for_def empty_queue_def nonblank_def py_space_def)
  let ?q = "snd (join_line ''a'' (snd (join_line ''a'' empty_queue)))"
  have r: "turns ([] @ [Joined ''a'' 0]) (snd (join_line ''a'' empty_queue))"
    by (rule turns.more [OF turns.none turn_step.join [OF j0]])
  have r1: "turns (([] @ [Joined ''a'' 0]) @ [Joined ''a'' 1]) ?q"
    by (rule turns.more [OF r turn_step.join [OF j1]])
  have th: "threads ?q 0 = Some (''a'', 0, BLOCKED)" "0 \<in> set_events ?q"
    by (simp_all add: join_line_def entry_for_def empty_queue_def new_queue_entry_def nonblank_def py_space_def)
  note turns.more [OF r1 turn_step.start [OF th]]
  then show ?thesis
    by (simp add: join_line_def entry_for_def empty_queue_def new_queue_entry_def nonblank_def py_space_def
        fun_upd_twist numeral_2_eq_2)
qed

lemma turns_are_fifo_witness:
  "prefix (starts ''a'' [Joined ''a'' 0, Joined ''a'' 1, Started ''a'' 0])
     (joins ''a'' [Joined ''a'' 0, Joined ''a'' 1, Started ''a'' 0])"
  using turns_are_fifo [OF one_turn_run, of "''a''"] by blast

text \<open>C13: no wake-up is lost and nothing leaks: whenever someone is in line for a subject, the head of
  the line can move (start its turn, or leave the turn it is in, and leaving never raises); and the
  queue holds an entry for a subject exactly while someone is in line for it.\<close>
theorem queue_never_stuck:
  assumes "turns evs q" and "line_of q k = h # rest"
  shows "entries q k \<noteq> None \<and> (\<exists>r ph. threads q h = Some (k, r, ph) \<and>
    (case ph of BLOCKED \<Rightarrow> turn_step q (Started k h) (q\<lparr>threads := (threads q)(h \<mapsto> (k, r, IN_TURN))\<rparr>)
     | IN_TURN \<Rightarrow> fst (leave_line h k r q) = Inr () \<and>
         line_of (snd (leave_line h k r q)) k = rest \<and>
         (entries (snd (leave_line h k r q)) k = None \<longleftrightarrow> rest = [])))"
proof -
  have ok: "queue_ok q" using turns_ok [OF assms(1)] by blast
  obtain r where r: "entries q k = Some r" "waiting (objects q r) = h # rest"
    using assms(2) by (auto simp: line_of_def split: option.splits)
  have e: "entry_ok q k r" using ok r(1) by (simp add: queue_ok_def)
  then have ev: "h \<in> set_events q" by (simp add: entry_ok_def Let_def r(2))
  obtain ph where ph: "threads q h = Some (k, r, ph)" using e r(2) by (auto simp: entry_ok_def Let_def)
  show ?thesis
  proof (cases ph)
    case BLOCKED
    then show ?thesis using turn_step.start ph ev r(1) by auto
  next
    case IN_TURN
    then have th: "threads q h = Some (k, r, IN_TURN)" using ph by simp
    obtain rest' where l: "waiting (objects q r) = h # rest'"
      "leave_line h k r q = (Inr (), q\<lparr>threads := (threads q)(h := None),
       objects := (objects q)(r := \<lparr>waiting = rest', active_count = int (length rest')\<rparr>),
       set_events := (if rest' = [] then set_events q else insert (hd rest') (set_events q)),
       entries := (if rest' = [] then (entries q)(k := None) else entries q)\<rparr>)"
      using leave_line_eq [OF ok th] by blast
    then have "rest' = rest" using r(2) by simp
    then show ?thesis using l(2) th r(1) by (auto simp: line_of_def)
  qed
qed

lemma queue_never_stuck_witness:
  "\<exists>evs q. turns evs q \<and> line_of q ''a'' = [0, 1] \<and> entries q ''a'' \<noteq> None
     \<and> (\<exists>r. threads q 0 = Some (''a'', r, IN_TURN) \<and> fst (leave_line 0 ''a'' r q) = Inr ())"
proof -
  let ?q = "empty_queue\<lparr>entries := [''a'' \<mapsto> 0], objects := (objects empty_queue)(0 := \<lparr>waiting = [0, 1], active_count = 2\<rparr>),
        set_events := {0}, threads := [0 \<mapsto> (''a'', 0, IN_TURN), 1 \<mapsto> (''a'', 0, BLOCKED)],
        next_ticket := 2, next_object := 1\<rparr>"
  have l: "line_of ?q ''a'' = 0 # [1]" by (simp add: line_of_def)
  have th: "threads ?q 0 = Some (''a'', 0, IN_TURN)" by simp
  from queue_never_stuck [OF one_turn_run l] th
  have "fst (leave_line 0 ''a'' 0 ?q) = Inr ()" by auto
  then show ?thesis using one_turn_run l th queue_never_stuck [OF one_turn_run l] by blast
qed

end
