(* ===== verification/Accounts.thy ===== *)
theory Accounts
  imports Advanced_Mode
begin

text \<open>
  The identity tables of the application layer (\<open>application/user_service.py\<close>): accounts and
  the channel identities that lead to them. An account id is a text here, as the modules that
  receive it check it for blankness.
\<close>

section \<open>Rows\<close>

record user_account =
  ua_id :: string
  ua_created_at :: time
  ua_last_seen_at :: time

record channel_identity =
  ci_id :: string
  ci_user_account_id :: string
  ci_channel :: string
  ci_external_id :: string
  ci_created_at :: time

record account_db = mode_db +
  user_accounts :: "user_account list"
  user_channel_identities :: "channel_identity list"

section \<open>Operations\<close>

definition new_text_id :: "('m outbox_db_scheme, string) tx" where
  \<comment> \<open>\<open>str(uuid.uuid4())\<close>\<close>
  "new_text_id = tx_bind new_id (\<lambda>i. tx_return (uuid_text i))"

definition account_by_id :: "string \<Rightarrow> 'm account_db_scheme \<Rightarrow> user_account option" where
  "account_by_id i s = row_by ua_id i (user_accounts s)"

definition identity_row :: "string \<Rightarrow> string \<Rightarrow> 'm account_db_scheme \<Rightarrow> channel_identity option" where
  "identity_row channel ext s =
     row_by (\<lambda>c. (ci_channel c, ci_external_id c)) (channel, ext) (user_channel_identities s)"

definition user_exists :: "string \<Rightarrow> 'm account_db_scheme \<Rightarrow> bool" where
  "user_exists u s \<longleftrightarrow> account_by_id u s \<noteq> None"

definition touch_account :: "string \<Rightarrow> time \<Rightarrow> 'm account_db_scheme \<Rightarrow> 'm account_db_scheme" where
  "touch_account i now s = s\<lparr>user_accounts :=
     update_where (\<lambda>a. ua_id a = i) (\<lambda>a. a\<lparr>ua_last_seen_at := now\<rparr>) (user_accounts s)\<rparr>"

definition insert_account :: "user_account \<Rightarrow> 'm account_db_scheme \<Rightarrow> 'm account_db_scheme" where
  "insert_account a s = s\<lparr>user_accounts := user_accounts s @ [a]\<rparr>"

definition insert_identity :: "channel_identity \<Rightarrow> 'm account_db_scheme \<Rightarrow> 'm account_db_scheme" where
  "insert_identity c s = s\<lparr>user_channel_identities := user_channel_identities s @ [c]\<rparr>"

definition get_or_create_user ::
  "string \<Rightarrow> string \<Rightarrow> time \<Rightarrow> ('m account_db_scheme, user_account) op" where
  "get_or_create_user channel ext now = transition
     (tx_bind (tx_get (identity_row channel ext)) (\<lambda>found.
      case found of
        Some c \<Rightarrow>
          tx_bind (tx_get (account_by_id (ci_user_account_id c))) (\<lambda>row.
          tx_bind (tx_the TypeError row) (\<lambda>account.
          tx_bind (tx_modify (touch_account (ua_id account) now)) (\<lambda>_.
          tx_return (account\<lparr>ua_last_seen_at := now\<rparr>))))
      | None \<Rightarrow>
          tx_bind new_text_id (\<lambda>i.
          (let account = \<lparr>ua_id = i, ua_created_at = now, ua_last_seen_at = now\<rparr>
           in tx_bind (tx_modify (insert_account account)) (\<lambda>_.
              tx_bind new_text_id (\<lambda>j.
              tx_bind (tx_modify (insert_identity \<lparr>ci_id = j, ci_user_account_id = i, ci_channel = channel,
                ci_external_id = ext, ci_created_at = now\<rparr>)) (\<lambda>_.
              tx_return account)))))))
     no_events"

definition get_user :: "string \<Rightarrow> 'm account_db_scheme \<Rightarrow> user_account option" where
  "get_user i s = account_by_id i s"

section \<open>Well-formedness\<close>

text \<open>Primary keys, the unique channel key, the foreign key, and that ids are drawn ones.\<close>

definition drawn :: "string \<Rightarrow> 'm outbox_db_scheme \<Rightarrow> bool" where
  "drawn i s \<longleftrightarrow> (\<exists>k < next_id s. i = uuid_text k)"

definition accounts_ok :: "'m account_db_scheme \<Rightarrow> bool" where
  "accounts_ok s \<longleftrightarrow> distinct (map ua_id (user_accounts s)) \<and>
     distinct (map ci_id (user_channel_identities s)) \<and>
     distinct (map (\<lambda>c. (ci_channel c, ci_external_id c)) (user_channel_identities s)) \<and>
     (\<forall>c \<in> set (user_channel_identities s). user_exists (ci_user_account_id c) s) \<and>
     (\<forall>a \<in> set (user_accounts s). drawn (ua_id a) s) \<and>
     (\<forall>c \<in> set (user_channel_identities s). drawn (ci_id c) s)"

lemma fresh_not_drawn: "drawn i s \<Longrightarrow> i \<noteq> uuid_text (next_id s)"
  by (auto simp: drawn_def)

lemma drawn_later: "drawn i s \<Longrightarrow> next_id s \<le> next_id s' \<Longrightarrow> drawn i s'"
  by (force simp: drawn_def)

lemma drawn_new: "k < next_id s \<Longrightarrow> drawn (uuid_text k) s"
  by (auto simp: drawn_def)

lemma new_text_id_apply [tx_simps]:
  "new_text_id s = Inr (uuid_text (next_id s), s\<lparr>next_id := Suc (next_id s)\<rparr>)"
  by (simp add: new_text_id_def tx_bind_def new_id_def tx_return_def)

lemma user_exists_iff: "user_exists u s \<longleftrightarrow> u \<in> ua_id ` set (user_accounts s)"
  by (auto simp: user_exists_def account_by_id_def row_by_None image_iff)

lemma user_exists_touch [simp]: "user_exists u (touch_account i now s) = user_exists u s"
  by (simp add: user_exists_iff touch_account_def set_update_where image_Un image_image)
    (auto simp: image_iff)

lemma get_or_create_user_known:
  assumes "identity_row channel ext s = Some c" and "account_by_id (ci_user_account_id c) s = Some a"
  shows "get_or_create_user channel ext now s
    = (Inr (a\<lparr>ua_last_seen_at := now\<rparr>), touch_account (ua_id a) now s)"
  using assms
  by (simp add: get_or_create_user_def transition_no_events atomically_def tx_bind_def tx_simps)

definition with_new_account :: "string \<Rightarrow> string \<Rightarrow> time \<Rightarrow> 'm account_db_scheme \<Rightarrow> 'm account_db_scheme" where
  "with_new_account channel ext now s =
     insert_identity \<lparr>ci_id = uuid_text (Suc (next_id s)), ci_user_account_id = uuid_text (next_id s),
        ci_channel = channel, ci_external_id = ext, ci_created_at = now\<rparr>
       (insert_account \<lparr>ua_id = uuid_text (next_id s), ua_created_at = now, ua_last_seen_at = now\<rparr>
         (s\<lparr>next_id := Suc (Suc (next_id s))\<rparr>))"

lemma get_or_create_user_unknown:
  assumes "identity_row channel ext s = None"
  shows "get_or_create_user channel ext now s
    = (Inr \<lparr>ua_id = uuid_text (next_id s), ua_created_at = now, ua_last_seen_at = now\<rparr>,
       with_new_account channel ext now s)"
  using assms
  by (simp add: get_or_create_user_def transition_no_events atomically_def tx_bind_def tx_simps Let_def
      with_new_account_def insert_account_def insert_identity_def)

lemma known_identity_has_account:
  assumes "accounts_ok s" and "identity_row channel ext s = Some c"
  obtains a where "account_by_id (ci_user_account_id c) s = Some a" and "ua_id a = ci_user_account_id c"
proof -
  have "c \<in> set (user_channel_identities s)"
    using assms(2) row_by_SomeD unfolding identity_row_def by fast
  then obtain a where a: "account_by_id (ci_user_account_id c) s = Some a"
    using assms(1) by (auto simp: accounts_ok_def user_exists_def)
  then have "ua_id a = ci_user_account_id c"
    using row_by_SomeD unfolding account_by_id_def by fast
  with a show thesis by (rule that)
qed

lemma accounts_ok_touch: "accounts_ok s \<Longrightarrow> accounts_ok (touch_account i now s)"
proof -
  assume ok: "accounts_ok s"
  let ?s = "touch_account i now s"
  have ids: "map ua_id (user_accounts ?s) = map ua_id (user_accounts s)"
    by (simp add: touch_account_def map_update_where)
  have "drawn (ua_id a) s" if "a \<in> set (user_accounts ?s)" for a
  proof -
    have "ua_id a \<in> set (map ua_id (user_accounts s))" unfolding ids [symmetric] using that by simp
    then show ?thesis using ok by (auto simp: accounts_ok_def)
  qed
  moreover have "drawn u ?s = drawn u s" "user_channel_identities ?s = user_channel_identities s" for u
    by (simp_all add: touch_account_def drawn_def)
  ultimately show "accounts_ok ?s" using ok by (simp add: accounts_ok_def ids)
qed

lemma accounts_ok_new:
  assumes ok: "accounts_ok s" and none: "identity_row channel ext s = None"
  shows "accounts_ok (with_new_account channel ext now s)"
proof -
  let ?s = "with_new_account channel ext now s"
  have d: "uuid_text k \<notin> ua_id ` set (user_accounts s)" "uuid_text k \<notin> ci_id ` set (user_channel_identities s)"
    if "next_id s \<le> k" for k
    using ok that by (auto simp: accounts_ok_def drawn_def)
  have key: "(channel, ext) \<notin> (\<lambda>c. (ci_channel c, ci_external_id c)) ` set (user_channel_identities s)"
    using none by (auto simp: identity_row_def row_by_None)
  have later: "drawn i s \<Longrightarrow> drawn i ?s" for i
    by (erule drawn_later) (simp add: with_new_account_def insert_account_def insert_identity_def)
  have fresh: "drawn (uuid_text (next_id s)) ?s" "drawn (uuid_text (Suc (next_id s))) ?s"
    by (rule drawn_new, simp add: with_new_account_def insert_account_def insert_identity_def)+
  have rows: "user_accounts ?s = user_accounts s
      @ [\<lparr>ua_id = uuid_text (next_id s), ua_created_at = now, ua_last_seen_at = now\<rparr>]"
    "user_channel_identities ?s = user_channel_identities s
      @ [\<lparr>ci_id = uuid_text (Suc (next_id s)), ci_user_account_id = uuid_text (next_id s),
          ci_channel = channel, ci_external_id = ext, ci_created_at = now\<rparr>]"
    by (simp_all add: with_new_account_def insert_account_def insert_identity_def)
  show ?thesis
    using ok d [of "next_id s"] d [of "Suc (next_id s)"] key later fresh
    by (auto simp: accounts_ok_def rows user_exists_iff)
qed

lemma op_keeps_get_or_create_user: "op_keeps accounts_ok (get_or_create_user channel ext now)"
proof (rule op_keepsI)
  fix s :: "'a account_db_scheme" assume ok: "accounts_ok s"
  show "accounts_ok (snd (get_or_create_user channel ext now s))"
  proof (cases "identity_row channel ext s")
    case None
    then show ?thesis using accounts_ok_new [OF ok None] by (simp add: get_or_create_user_unknown)
  next
    case (Some c)
    obtain a where "account_by_id (ci_user_account_id c) s = Some a"
      using known_identity_has_account [OF ok Some] .
    then show ?thesis using accounts_ok_touch [OF ok] Some by (simp add: get_or_create_user_known)
  qed
qed

lemma get_or_create_user_total:
  assumes "accounts_ok s"
  obtains a where "fst (get_or_create_user channel ext now s) = Inr a"
    and "user_exists (ua_id a) (snd (get_or_create_user channel ext now s))"
    and "identity_row channel ext (snd (get_or_create_user channel ext now s)) \<noteq> None"
proof (cases "identity_row channel ext s")
  case None
  show thesis
  proof (rule that)
    show "fst (get_or_create_user channel ext now s)
        = Inr \<lparr>ua_id = uuid_text (next_id s), ua_created_at = now, ua_last_seen_at = now\<rparr>"
      using None by (simp add: get_or_create_user_unknown)
  qed (use None in \<open>simp_all add: get_or_create_user_unknown user_exists_iff identity_row_def
        with_new_account_def insert_account_def insert_identity_def row_by_append\<close>)
next
  case (Some c)
  obtain a where a: "account_by_id (ci_user_account_id c) s = Some a" and i: "ua_id a = ci_user_account_id c"
    using known_identity_has_account [OF assms Some] .
  show thesis
  proof (rule that)
    show "fst (get_or_create_user channel ext now s) = Inr (a\<lparr>ua_last_seen_at := now\<rparr>)"
      using Some a by (simp add: get_or_create_user_known)
  next
    have "user_exists (ua_id a) s" using a i by (simp add: user_exists_def)
    then show "user_exists (ua_id (a\<lparr>ua_last_seen_at := now\<rparr>)) (snd (get_or_create_user channel ext now s))"
      using Some a by (simp add: get_or_create_user_known)
  next
    show "identity_row channel ext (snd (get_or_create_user channel ext now s)) \<noteq> None"
      using Some a by (simp add: get_or_create_user_known identity_row_def touch_account_def)
  qed
qed

end
