(* ===== verification/Identity_Catalog.thy ===== *)
theory Identity_Catalog
  imports Texts
begin

text \<open>
  \<open>ai/identity_catalog.py\<close>: the catalog of the fifteen personalities, the constant table that
  onboarding offers and the conversation engine looks identities up in. The archetype, a text
  that is only printed, is left out.
\<close>

datatype identity_group = FEMALE | MALE | NEUTRAL

record communication_profile =
  warmth :: real
  humor :: real
  teasing :: real
  assertiveness :: real
  formality :: real
  verbosity :: real

record identity_entry =
  identity_id :: string
  identity_group_of :: identity_group
  default_name :: string
  localized_names :: "(string \<times> string) list"
  profile :: communication_profile

definition display_name :: "identity_entry \<Rightarrow> string \<Rightarrow> string" where
  "display_name e language =
     (case map_of (localized_names e) language of None \<Rightarrow> default_name e | Some n \<Rightarrow> n)"

definition entry_of ::
  "string \<Rightarrow> identity_group \<Rightarrow> string \<Rightarrow> (string \<times> string) list
    \<Rightarrow> real \<Rightarrow> real \<Rightarrow> real \<Rightarrow> real \<Rightarrow> real \<Rightarrow> real \<Rightarrow> identity_entry" where
  "entry_of i g n l w h t a f v = \<lparr>identity_id = i, identity_group_of = g, default_name = n,
     localized_names = l, profile = \<lparr>warmth = w, humor = h, teasing = t, assertiveness = a,
       formality = f, verbosity = v\<rparr>\<rparr>"

definition identity_catalog :: "identity_entry list" where
  "identity_catalog =
    [entry_of ''sophia'' FEMALE ''Sophia'' [(''cs'', ''Sofie'')] 0.9 0.4 0.3 0.4 0.5 0.6,
     entry_of ''victoria'' FEMALE ''Victoria'' [(''cs'', ''Viktorie'')] 0.5 0.2 0.1 0.8 0.8 0.5,
     entry_of ''luna'' FEMALE ''Luna'' [] 0.6 0.2 0.2 0.3 0.5 0.3,
     entry_of ''iris'' FEMALE ''Iris'' [] 0.7 0.8 0.7 0.5 0.2 0.6,
     entry_of ''scarlett'' FEMALE ''Scarlett'' [] 0.5 0.4 0.5 0.9 0.3 0.4,
     entry_of ''marcus'' MALE ''Marcus'' [] 0.6 0.3 0.2 0.6 0.5 0.5,
     entry_of ''adrian'' MALE ''Adrian'' [] 0.5 0.2 0.1 0.6 0.8 0.7,
     entry_of ''ethan'' MALE ''Ethan'' [] 0.8 0.7 0.5 0.4 0.2 0.5,
     entry_of ''leo'' MALE ''Leo'' [] 0.8 0.7 0.6 0.8 0.3 0.6,
     entry_of ''damon'' MALE ''Damon'' [] 0.4 0.1 0.1 0.8 0.4 0.2,
     entry_of ''alex'' NEUTRAL ''Alex'' [] 0.5 0.4 0.3 0.5 0.5 0.5,
     entry_of ''nova'' NEUTRAL ''Nova'' [] 0.7 0.7 0.5 0.5 0.3 0.6,
     entry_of ''sage'' NEUTRAL ''Sage'' [] 0.6 0.2 0.1 0.4 0.7 0.4,
     entry_of ''echo'' NEUTRAL ''Echo'' [] 0.4 0.1 0.1 0.4 0.5 0.1,
     entry_of ''river'' NEUTRAL ''River'' [] 0.7 0.3 0.2 0.3 0.3 0.4]"

text \<open>The dictionary \<open>_BY_ID\<close> keeps the last entry of an identifier; the identifiers differ.\<close>

definition get_identity :: "string \<Rightarrow> identity_entry option" where
  "get_identity i = map_of (map (\<lambda>e. (identity_id e, e)) (rev identity_catalog)) i"

lemma identity_ids: "map identity_id identity_catalog =
  [''sophia'', ''victoria'', ''luna'', ''iris'', ''scarlett'', ''marcus'', ''adrian'', ''ethan'', ''leo'',
   ''damon'', ''alex'', ''nova'', ''sage'', ''echo'', ''river'']"
  by (simp add: identity_catalog_def entry_of_def)

lemma identity_ids_distinct: "distinct (map identity_id identity_catalog)"
  unfolding identity_ids by simp

lemma get_identity_SomeI:
  assumes "e \<in> set identity_catalog"
  shows "get_identity (identity_id e) = Some e"
proof -
  have "distinct (map fst (map (\<lambda>e. (identity_id e, e)) (rev identity_catalog)))"
    using identity_ids_distinct by (simp add: rev_map [symmetric] comp_def)
  moreover have "(identity_id e, e) \<in> set (map (\<lambda>e. (identity_id e, e)) (rev identity_catalog))"
    using assms by simp
  ultimately show ?thesis unfolding get_identity_def by (rule map_of_is_SomeI)
qed

lemma get_identity_SomeD: "get_identity i = Some e \<Longrightarrow> e \<in> set identity_catalog \<and> identity_id e = i"
  unfolding get_identity_def by (drule map_of_SomeD) auto

lemma five_of_each_group: "length (filter (\<lambda>e. identity_group_of e = g) identity_catalog) = 5"
  by (cases g) (simp_all add: identity_catalog_def entry_of_def)

end
