(* ===== verification/Onboarding.thy ===== *)
theory Onboarding
  imports Accounts Identity_Catalog
begin

text \<open>
  \<open>application/onboarding_service.py\<close>: the onboarding state machine. A user's row walks from
  LANGUAGE over AI_GENDER and PERSONALITY to COMPLETE, one valid answer at a time; an answer
  computed from a snapshot that is no longer current changes nothing.
\<close>

section \<open>Rows and replies\<close>

datatype onboarding_step = OB_LANGUAGE | OB_AI_GENDER | OB_PERSONALITY | OB_COMPLETE

record preferences =
  up_user_id :: string
  up_step :: onboarding_step
  up_language :: "string option"
  up_ai_gender :: "identity_group option"
  up_identity_id :: "string option"
  up_created_at :: time
  up_updated_at :: time

record preference_db = account_db +
  user_preferences :: "preferences list"

text \<open>The texts sent back; \<open>Not_Recognized\<close> is the prefix put before a repeated prompt.\<close>

datatype onboarding_reply =
    Language_Prompt | Ai_Gender_Prompt | Personality_Prompt "string list"
  | Not_Recognized onboarding_reply | All_Set string | Welcome_Back

section \<open>Reading\<close>

definition preferences_of :: "string \<Rightarrow> 'm preference_db_scheme \<Rightarrow> preferences option" where
  "preferences_of u s = row_by up_user_id u (user_preferences s)"

definition new_preferences :: "string \<Rightarrow> time \<Rightarrow> preferences" where
  "new_preferences u now = \<lparr>up_user_id = u, up_step = OB_LANGUAGE, up_language = None,
     up_ai_gender = None, up_identity_id = None, up_created_at = now, up_updated_at = now\<rparr>"

definition get_or_create_preferences ::
  "string \<Rightarrow> time \<Rightarrow> ('m preference_db_scheme, preferences \<times> bool) op" where
  "get_or_create_preferences u now = transition
     (tx_bind (tx_get (preferences_of u)) (\<lambda>row.
      case row of
        Some p \<Rightarrow> tx_return (p, False)
      | None \<Rightarrow>
          tx_bind (tx_get (user_exists u)) (\<lambda>known.
          tx_bind (tx_require known IntegrityError) (\<lambda>_.
          tx_bind (tx_modify (\<lambda>s. s\<lparr>user_preferences := user_preferences s @ [new_preferences u now]\<rparr>)) (\<lambda>_.
          tx_return (new_preferences u now, True))))))
     no_events"

definition onboarding_is_complete :: "preferences \<Rightarrow> bool" where
  "onboarding_is_complete p \<longleftrightarrow> up_step p = OB_COMPLETE"

section \<open>Prompts\<close>

definition or_english :: "string option \<Rightarrow> string" where
  \<comment> \<open>\<open>preferences.language or "en"\<close>\<close>
  "or_english l = (case l of None \<Rightarrow> ''en'' | Some t \<Rightarrow> if t = [] then ''en'' else t)"

definition identities_for :: "preferences \<Rightarrow> identity_entry list" where
  "identities_for p = (case up_ai_gender p of None \<Rightarrow> identity_catalog
     | Some g \<Rightarrow> filter (\<lambda>e. identity_group_of e = g) identity_catalog)"

definition personality_prompt :: "preferences \<Rightarrow> onboarding_reply" where
  "personality_prompt p =
     Personality_Prompt (map (\<lambda>e. display_name e (or_english (up_language p))) (identities_for p))"

definition prompt_for :: "preferences \<Rightarrow> onboarding_reply" where
  "prompt_for p = (case up_step p of
       OB_LANGUAGE \<Rightarrow> Language_Prompt
     | OB_AI_GENDER \<Rightarrow> Ai_Gender_Prompt
     | OB_PERSONALITY \<Rightarrow> personality_prompt p
     | OB_COMPLETE \<Rightarrow> Welcome_Back)"

definition completion_reply :: "preferences \<Rightarrow> onboarding_reply" where
  "completion_reply p =
     (case (case up_identity_id p of None \<Rightarrow> None | Some i \<Rightarrow> if i = [] then None else get_identity i) of
        None \<Rightarrow> All_Set ''your AI''
      | Some e \<Rightarrow> All_Set (display_name e (or_english (up_language p))))"

section \<open>The transition\<close>

text \<open>
  The conditional UPDATE: it changes the row of this user only while the row is at \<open>from\<close>; the
  row is then read back whether or not it changed.
\<close>

definition advance ::
  "preferences \<Rightarrow> onboarding_step \<Rightarrow> onboarding_step \<Rightarrow> (preferences \<Rightarrow> preferences) \<Rightarrow> time
     \<Rightarrow> ('m preference_db_scheme, preferences) op" where
  "advance p from to set_column now = transition
     (tx_bind (tx_modify (\<lambda>s. s\<lparr>user_preferences :=
         update_where (\<lambda>r. up_user_id r = up_user_id p \<and> up_step r = from)
           (\<lambda>r. (set_column r)\<lparr>up_step := to, up_updated_at := now\<rparr>) (user_preferences s)\<rparr>)) (\<lambda>_.
      tx_bind (tx_get (preferences_of (up_user_id p))) (\<lambda>row.
      tx_the TypeError row)))
     no_events"

definition language_choices :: "(string \<times> string) list" where
  \<comment> \<open>the key with a letter above code point 255 is left out\<close>
  "language_choices = [(''1'', ''en''), (''english'', ''en''), (''en'', ''en''),
     (''2'', ''cs''), (''cs'', ''cs''), (''cestina'', ''cs''), (''czech'', ''cs'')]"

definition ai_gender_choices :: "(string \<times> identity_group) list" where
  "ai_gender_choices = [(''1'', FEMALE), (''female'', FEMALE), (''2'', MALE), (''male'', MALE),
     (''3'', NEUTRAL), (''neutral'', NEUTRAL)]"

definition handle_language ::
  "preferences \<Rightarrow> string \<Rightarrow> time \<Rightarrow> ('m preference_db_scheme, preferences \<times> onboarding_reply) op" where
  "handle_language p normalized now = (case map_of language_choices normalized of
       None \<Rightarrow> op_return (p, Not_Recognized Language_Prompt)
     | Some l \<Rightarrow>
         op_bind (advance p OB_LANGUAGE OB_AI_GENDER (\<lambda>r. r\<lparr>up_language := Some l\<rparr>) now) (\<lambda>updated.
         op_return (updated, prompt_for updated)))"

definition handle_ai_gender ::
  "preferences \<Rightarrow> string \<Rightarrow> time \<Rightarrow> ('m preference_db_scheme, preferences \<times> onboarding_reply) op" where
  "handle_ai_gender p normalized now = (case map_of ai_gender_choices normalized of
       None \<Rightarrow> op_return (p, Not_Recognized Ai_Gender_Prompt)
     | Some g \<Rightarrow>
         op_bind (advance p OB_AI_GENDER OB_PERSONALITY (\<lambda>r. r\<lparr>up_ai_gender := Some g\<rparr>) now) (\<lambda>updated.
         op_return (updated, prompt_for updated)))"

definition names_of :: "preferences \<Rightarrow> identity_entry \<Rightarrow> string list" where
  "names_of p e = [identity_id e, py_lower (default_name e),
     py_lower (display_name e (or_english (up_language p)))]"

definition choose_personality :: "preferences \<Rightarrow> string \<Rightarrow> exn + identity_entry option" where
  "choose_personality p normalized =
     (let candidates = identities_for p in
      if py_isdigit normalized
      then (case py_int_of_digits normalized of
              Inl e \<Rightarrow> Inl e
            | Inr n \<Rightarrow> Inr (if 1 \<le> n \<and> n \<le> length candidates then Some (candidates ! (n - 1)) else None))
      else Inr (find (\<lambda>e. normalized \<in> set (names_of p e)) candidates))"

definition handle_personality ::
  "preferences \<Rightarrow> string \<Rightarrow> time \<Rightarrow> ('m preference_db_scheme, preferences \<times> onboarding_reply) op" where
  "handle_personality p normalized now = (case choose_personality p normalized of
       Inl e \<Rightarrow> op_raise e
     | Inr None \<Rightarrow> op_return (p, Not_Recognized (personality_prompt p))
     | Inr (Some chosen) \<Rightarrow>
         op_bind (advance p OB_PERSONALITY OB_COMPLETE
           (\<lambda>r. r\<lparr>up_identity_id := Some (identity_id chosen)\<rparr>) now) (\<lambda>updated.
         op_return (updated, completion_reply updated)))"

definition process_message ::
  "preferences \<Rightarrow> string \<Rightarrow> time \<Rightarrow> ('m preference_db_scheme, preferences \<times> onboarding_reply) op" where
  "process_message p txt now = (let normalized = py_lower (py_strip txt) in
     case up_step p of
       OB_LANGUAGE \<Rightarrow> handle_language p normalized now
     | OB_AI_GENDER \<Rightarrow> handle_ai_gender p normalized now
     | OB_PERSONALITY \<Rightarrow> handle_personality p normalized now
     | OB_COMPLETE \<Rightarrow> op_return (p, Welcome_Back))"

section \<open>Well-formedness\<close>

fun step_rank :: "onboarding_step \<Rightarrow> nat" where
  "step_rank OB_LANGUAGE = 0"
| "step_rank OB_AI_GENDER = 1"
| "step_rank OB_PERSONALITY = 2"
| "step_rank OB_COMPLETE = 3"

text \<open>A row carries exactly the answers of the steps it has passed.\<close>

definition preferences_wf :: "preferences \<Rightarrow> bool" where
  "preferences_wf p \<longleftrightarrow>
     (if step_rank (up_step p) < 1 then up_language p = None
      else up_language p \<in> {Some ''en'', Some ''cs''}) \<and>
     (up_ai_gender p \<noteq> None \<longleftrightarrow> 2 \<le> step_rank (up_step p)) \<and>
     (if step_rank (up_step p) < 3 then up_identity_id p = None
      else \<exists>e \<in> set identity_catalog. up_identity_id p = Some (identity_id e) \<and>
             up_ai_gender p = Some (identity_group_of e))"

definition preferences_ok :: "'m preference_db_scheme \<Rightarrow> bool" where
  "preferences_ok s \<longleftrightarrow> accounts_ok s \<and> distinct (map up_user_id (user_preferences s)) \<and>
     (\<forall>p \<in> set (user_preferences s). user_exists (up_user_id p) s \<and> preferences_wf p)"

text \<open>\<open>p\<close> is what an earlier read of the row \<open>r\<close> may have returned.\<close>

definition snapshot_of :: "preferences \<Rightarrow> preferences \<Rightarrow> bool" where
  "snapshot_of p r \<longleftrightarrow> up_user_id p = up_user_id r \<and> step_rank (up_step p) \<le> step_rank (up_step r) \<and>
     preferences_wf p \<and>
     (1 \<le> step_rank (up_step p) \<longrightarrow> up_language p = up_language r) \<and>
     (2 \<le> step_rank (up_step p) \<longrightarrow> up_ai_gender p = up_ai_gender r) \<and>
     (3 \<le> step_rank (up_step p) \<longrightarrow> up_identity_id p = up_identity_id r)"

text \<open>The column a valid answer to the snapshot's step sets, and the step it leads to.\<close>

definition answer :: "preferences \<Rightarrow> string \<Rightarrow> (exn + ((preferences \<Rightarrow> preferences) \<times> onboarding_step) option)" where
  "answer p txt = (let normalized = py_lower (py_strip txt) in
     case up_step p of
       OB_LANGUAGE \<Rightarrow> Inr (map_option (\<lambda>l. (\<lambda>r. r\<lparr>up_language := Some l\<rparr>, OB_AI_GENDER))
         (map_of language_choices normalized))
     | OB_AI_GENDER \<Rightarrow> Inr (map_option (\<lambda>g. (\<lambda>r. r\<lparr>up_ai_gender := Some g\<rparr>, OB_PERSONALITY))
         (map_of ai_gender_choices normalized))
     | OB_PERSONALITY \<Rightarrow> (case choose_personality p normalized of Inl e \<Rightarrow> Inl e
         | Inr c \<Rightarrow> Inr (map_option (\<lambda>e. (\<lambda>r. r\<lparr>up_identity_id := Some (identity_id e)\<rparr>, OB_COMPLETE)) c))
     | OB_COMPLETE \<Rightarrow> Inr None)"

end
