(* ===== verification/Lock_State.thy ===== *)
theory Lock_State
  imports Onboarding
begin

text \<open>
  \<open>lock_state/models.py\<close> and \<open>lock_state/repository.py\<close>: what the user reported about the lock.
  Reports are appended and numbered per user; the current knowledge is the report with the
  largest number, or UNKNOWN when there is none.
\<close>

section \<open>Rows\<close>

datatype lock_report_status = LOCKED_USER_REPORTED | UNLOCKED_USER_REPORTED

datatype lock_knowledge_state = KN_LOCKED_USER_REPORTED | KN_UNLOCKED_USER_REPORTED | KN_UNKNOWN

record lock_report =
  lr_id :: string
  lr_user_id :: string
  lr_status :: lock_report_status
  lr_sequence_number :: nat
  lr_reported_at :: time
  lr_reported_via_consent_id :: string

record lock_db = preference_db +
  lock_reports :: "lock_report list"

section \<open>Operations\<close>

definition reports_of :: "string \<Rightarrow> 'm lock_db_scheme \<Rightarrow> lock_report list" where
  "reports_of u s = filter (\<lambda>r. lr_user_id r = u) (lock_reports s)"

text \<open>\<open>ORDER BY sequence_number DESC LIMIT 1\<close> and \<open>COALESCE(MAX(sequence_number), 0)\<close>.\<close>

definition latest_report :: "string \<Rightarrow> 'm lock_db_scheme \<Rightarrow> lock_report option" where
  "latest_report u s = first_row (sort_key (\<lambda>r. - int (lr_sequence_number r)) (reports_of u s))"

definition max_sequence :: "string \<Rightarrow> 'm lock_db_scheme \<Rightarrow> nat" where
  "max_sequence u s = foldr max (map lr_sequence_number (reports_of u s)) 0"

definition get_current_report :: "string \<Rightarrow> ('m lock_db_scheme, lock_report option) op" where
  "get_current_report u =
     op_bind (op_require (nonblank u) ValueError) (\<lambda>_. op_get (latest_report u))"

fun knowledge_of :: "lock_report_status \<Rightarrow> lock_knowledge_state" where
  "knowledge_of LOCKED_USER_REPORTED = KN_LOCKED_USER_REPORTED"
| "knowledge_of UNLOCKED_USER_REPORTED = KN_UNLOCKED_USER_REPORTED"

definition get_current_knowledge_state :: "string \<Rightarrow> ('m lock_db_scheme, lock_knowledge_state) op" where
  "get_current_knowledge_state u = op_bind (get_current_report u) (\<lambda>report.
     op_return (case report of None \<Rightarrow> KN_UNKNOWN | Some r \<Rightarrow> knowledge_of (lr_status r)))"

definition insert_report :: "lock_report \<Rightarrow> 'm lock_db_scheme \<Rightarrow> 'm lock_db_scheme" where
  "insert_report r s = s\<lparr>lock_reports := lock_reports s @ [r]\<rparr>"

definition report_status ::
  "string \<Rightarrow> lock_report_status \<Rightarrow> string \<Rightarrow> time \<Rightarrow> ('m lock_db_scheme, lock_report) op" where
  "report_status u status consent now =
     op_bind (op_require (nonblank u) ValueError) (\<lambda>_.
     op_bind (op_require (nonblank consent) ValueError) (\<lambda>_. transition
       (tx_bind (tx_get (max_sequence u)) (\<lambda>m.
        tx_bind new_text_id (\<lambda>i.
        (let report = \<lparr>lr_id = i, lr_user_id = u, lr_status = status, lr_sequence_number = m + 1,
               lr_reported_at = now, lr_reported_via_consent_id = consent\<rparr>
         in tx_bind (tx_get (user_exists u)) (\<lambda>known.
            tx_bind (tx_require known IntegrityError) (\<lambda>_.
            tx_bind (tx_modify (insert_report report)) (\<lambda>_.
            tx_return report)))))))
       no_events))"

section \<open>Well-formedness\<close>

text \<open>The reports of a user are numbered 1, 2, 3, ... in the order they were made.\<close>

definition lock_ok :: "'m lock_db_scheme \<Rightarrow> bool" where
  "lock_ok s \<longleftrightarrow> distinct (map lr_id (lock_reports s)) \<and>
     (\<forall>r \<in> set (lock_reports s). drawn (lr_id r) s \<and> user_exists (lr_user_id r) s \<and>
        nonblank (lr_user_id r) \<and> nonblank (lr_reported_via_consent_id r)) \<and>
     (\<forall>u. map lr_sequence_number (reports_of u s) = [1..<Suc (length (reports_of u s))])"

lemma foldr_max_upt: "foldr max [1..<Suc n] (a::nat) = max n a"
proof (induction n arbitrary: a)
  case 0
  then show ?case by simp
next
  case (Suc n)
  have "[1..<Suc (Suc n)] = [1..<Suc n] @ [Suc n]" by simp
  then have "foldr max [1..<Suc (Suc n)] a = foldr max [1..<Suc n] (max (Suc n) a)"
    by (simp only: foldr_append foldr.simps comp_apply id_apply)
  also have "\<dots> = max n (max (Suc n) a)" by (rule Suc.IH)
  also have "\<dots> = max (Suc n) a" by simp
  finally show ?case .
qed

lemma max_sequence_eq: "lock_ok s \<Longrightarrow> max_sequence u s = length (reports_of u s)"
  unfolding max_sequence_def lock_ok_def by (simp only: foldr_max_upt max_0R)

text \<open>The report read back is the last one made.\<close>

lemma latest_report_last:
  assumes "lock_ok s"
  shows "latest_report u s = (if reports_of u s = [] then None else Some (last (reports_of u s)))"
proof (cases "reports_of u s = []")
  case True
  then show ?thesis by (simp add: latest_report_def)
next
  case False
  let ?rs = "reports_of u s"
  let ?sorted = "sort_key (\<lambda>r. - int (lr_sequence_number r)) ?rs"
  have seq: "map lr_sequence_number ?rs = [1..<Suc (length ?rs)]" using assms by (simp add: lock_ok_def)
  have inj: "x = y" if "x \<in> set ?rs" "y \<in> set ?rs" "lr_sequence_number x = lr_sequence_number y" for x y
    using that seq by (intro distinct_key_eq [of lr_sequence_number ?rs]) (simp_all del: upt_Suc)
  have top: "lr_sequence_number x \<le> lr_sequence_number (last ?rs)" if "x \<in> set ?rs" for x
  proof -
    have "lr_sequence_number x \<in> set [1..<Suc (length ?rs)]" unfolding seq [symmetric] using that by simp
    moreover have "lr_sequence_number (last ?rs) = length ?rs"
      using False seq by (metis One_nat_def Suc_leI last_map last_upt length_greater_0_conv less_Suc_eq_le diff_Suc_1)
    ultimately show ?thesis by (metis atLeastLessThan_iff less_Suc_eq_le set_upt)
  qed
  have "?sorted \<noteq> []" using False by (metis set_empty set_sort)
  then obtain r rest where s: "?sorted = r # rest" by (cases ?sorted) auto
  have "r \<in> set ?rs" by (metis list.set_intros(1) s set_sort)
  moreover have "- int (lr_sequence_number r) \<le> - int (lr_sequence_number x)" if "x \<in> set ?rs" for x
  proof -
    have "sorted (map (\<lambda>r. - int (lr_sequence_number r)) (r # rest))" unfolding s [symmetric] by simp
    moreover have "x \<in> set (r # rest)" unfolding s [symmetric] using that by simp
    ultimately show ?thesis by auto
  qed
  ultimately have "r = last ?rs" using False top inj by (metis last_in_set le_antisym neg_le_iff_le of_nat_le_iff)
  then show ?thesis using False by (simp add: latest_report_def s)
qed

definition new_report :: "string \<Rightarrow> lock_report_status \<Rightarrow> string \<Rightarrow> time \<Rightarrow> 'm lock_db_scheme \<Rightarrow> lock_report" where
  "new_report u status consent now s = \<lparr>lr_id = uuid_text (next_id s), lr_user_id = u, lr_status = status,
     lr_sequence_number = max_sequence u s + 1, lr_reported_at = now, lr_reported_via_consent_id = consent\<rparr>"

lemma report_status_eq:
  "report_status u status consent now s =
    (if \<not> nonblank u \<or> \<not> nonblank consent then (Inl ValueError, s)
     else if \<not> user_exists u s then (Inl IntegrityError, s)
     else (Inr (new_report u status consent now s),
           insert_report (new_report u status consent now s) (s\<lparr>next_id := Suc (next_id s)\<rparr>)))"
proof -
  have "user_exists u (s\<lparr>next_id := Suc (next_id s)\<rparr>) = user_exists u s"
    by (simp add: user_exists_def account_by_id_def)
  then show ?thesis
    by (simp add: report_status_def op_bind_def op_require_def op_return_def op_raise_def
        transition_no_events atomically_def tx_bind_def tx_simps Let_def new_report_def insert_report_def)
qed

lemma lock_ok_insert:
  assumes ok: "lock_ok s" and "user_exists u s" and "nonblank u" and "nonblank consent"
  shows "lock_ok (insert_report (new_report u status consent now s) (s\<lparr>next_id := Suc (next_id s)\<rparr>))"
    (is "lock_ok ?s")
proof -
  let ?r = "new_report u status consent now s"
  have rows: "lock_reports ?s = lock_reports s @ [?r]" by (simp add: insert_report_def)
  have of: "reports_of v ?s = reports_of v s @ (if v = u then [?r] else [])" for v
    unfolding reports_of_def rows by (simp add: new_report_def)
  have "lr_id ?r \<notin> lr_id ` set (lock_reports s)"
    using ok by (auto simp: lock_ok_def drawn_def new_report_def)
  moreover have "drawn i s \<Longrightarrow> drawn i ?s" for i
    by (erule drawn_later) (simp add: insert_report_def)
  moreover have "drawn (lr_id ?r) ?s" unfolding new_report_def
    by (simp add: drawn_new insert_report_def)
  moreover have "user_exists v ?s = user_exists v s" for v
    by (simp add: user_exists_def account_by_id_def insert_report_def)
  moreover have "map lr_sequence_number (reports_of v ?s) = [1..<Suc (length (reports_of v ?s))]" for v
  proof -
    have "map lr_sequence_number (reports_of v s) = [1..<Suc (length (reports_of v s))]"
      using ok unfolding lock_ok_def by blast
    then show ?thesis unfolding of by (simp add: new_report_def max_sequence_eq [OF ok])
  qed
  ultimately show ?thesis using assms unfolding lock_ok_def rows by (auto simp: new_report_def)
qed

lemma op_keeps_report_status: "op_keeps lock_ok (report_status u status consent now)"
  by (rule op_keepsI) (simp add: report_status_eq lock_ok_insert)

end
