(* ===== verification/Task_Catalog.thy ===== *)
theory Task_Catalog
  imports Lock_State
begin

text \<open>
  \<open>task_catalog/models.py\<close> and \<open>task_catalog/repository.py\<close>: the catalog of task templates. A
  template is an append-only list of numbered versions and one entry row that says which version
  is current and whether the template is active.
\<close>

section \<open>Rows\<close>

datatype task_instance_role = ROLE_RECOVERY | ROLE_PRIMARY | ROLE_JOURNALING | ROLE_INTEGRITY | ROLE_OPTIONAL_CHALLENGE

datatype template_eligibility_status = TE_ACTIVE | TE_DEACTIVATED

datatype lock_requirement = LOCK_NONE | REQUIRES_LOCKED

definition title_max_length :: nat where "title_max_length = 200"
definition instructions_max_length :: nat where "instructions_max_length = 2000"

text \<open>The keyword arguments that describe the task; JSON columns hold their values.\<close>

record template_details =
  td_category :: string
  td_difficulty :: string
  td_effort :: string
  td_duration_minutes :: int
  td_required_equipment :: "string list"
  td_required_privacy :: string
  td_required_context :: string
  td_safety_classification :: string
  td_eligible_instance_roles :: "task_instance_role list"
  td_eligible_operating_modes :: "string list"
  td_completion_requirements :: payload
  td_verification_requirements :: payload
  td_reflection_requirements :: "payload option"
  td_lock_requirement :: lock_requirement

record task_template_version =
  tv_id :: string
  tv_template_id :: string
  tv_version :: int
  tv_details :: template_details
  tv_created_at :: time
  tv_created_via_consent_id :: string
  tv_title :: "string option"
  tv_instructions :: "string option"

record catalog_entry =
  te_template_id :: string
  te_current_version :: int
  te_eligibility_status :: template_eligibility_status
  te_status_changed_at :: time
  te_eligibility_changed_via_consent_id :: "string option"
  te_current_version_changed_via_consent_id :: "string option"
  te_current_version_changed_at :: "time option"

record catalog_db = lock_db +
  task_template_versions :: "task_template_version list"
  task_template_catalog_entries :: "catalog_entry list"

section \<open>Validation\<close>

definition text_check :: "nat \<Rightarrow> string option \<Rightarrow> exn + unit" where
  "text_check limit t = (case t of None \<Rightarrow> Inr ()
     | Some x \<Rightarrow> if \<not> nonblank x \<or> limit < length x then Inl ValueError else Inr ())"

text \<open>\<open>TaskTemplateVersion.__post_init__\<close>: what a constructed version satisfies.\<close>

definition check_version :: "task_template_version \<Rightarrow> exn + task_template_version" where
  "check_version v =
     (let d = tv_details v in
      if td_eligible_instance_roles d = [] \<or> \<not> distinct (td_eligible_instance_roles d) \<or>
         td_eligible_operating_modes d = [] \<or> \<not> distinct (td_eligible_operating_modes d)
      then Inl ValueError
      else case text_check title_max_length (tv_title v) of Inl e \<Rightarrow> Inl e | Inr _ \<Rightarrow>
           (case text_check instructions_max_length (tv_instructions v) of Inl e \<Rightarrow> Inl e | Inr _ \<Rightarrow> Inr v))"

definition normalize_required_text :: "string \<Rightarrow> nat \<Rightarrow> exn + string" where
  "normalize_required_text x limit = (let stripped = py_strip x in
     if stripped = [] \<or> limit < length stripped then Inl InvalidTaskTemplateVersionError else Inr stripped)"

section \<open>Reads\<close>

text \<open>A row read back is constructed again, and so checked again.\<close>

definition read_version :: "task_template_version option \<Rightarrow> exn + task_template_version option" where
  "read_version row = (case row of None \<Rightarrow> Inr None
     | Some v \<Rightarrow> (case check_version v of Inl e \<Rightarrow> Inl e | Inr w \<Rightarrow> Inr (Some w)))"

definition op_lift :: "exn + 'a \<Rightarrow> ('s, 'a) op" where
  "op_lift r s = (r, s)"

definition entry_by_id :: "string \<Rightarrow> 'm catalog_db_scheme \<Rightarrow> catalog_entry option" where
  "entry_by_id t s = row_by te_template_id t (task_template_catalog_entries s)"

definition version_row :: "string \<Rightarrow> int \<Rightarrow> 'm catalog_db_scheme \<Rightarrow> task_template_version option" where
  "version_row t n s = row_by (\<lambda>v. (tv_template_id v, tv_version v)) (t, n) (task_template_versions s)"

definition is_current :: "'m catalog_db_scheme \<Rightarrow> task_template_version \<Rightarrow> bool" where
  \<comment> \<open>the join with the entry that points at this version\<close>
  "is_current s v \<longleftrightarrow> list_ex (\<lambda>e. te_template_id e = tv_template_id v \<and> te_current_version e = tv_version v)
     (task_template_catalog_entries s)"

definition is_current_active :: "'m catalog_db_scheme \<Rightarrow> task_template_version \<Rightarrow> bool" where
  "is_current_active s v \<longleftrightarrow> list_ex (\<lambda>e. te_template_id e = tv_template_id v \<and>
     te_current_version e = tv_version v \<and> te_eligibility_status e = TE_ACTIVE)
     (task_template_catalog_entries s)"

definition get_template :: "string \<Rightarrow> int \<Rightarrow> ('m catalog_db_scheme, task_template_version option) op" where
  "get_template t n = op_bind (op_get (version_row t n)) (\<lambda>row. op_lift (read_version row))"

definition current_version_row :: "string \<Rightarrow> 'm catalog_db_scheme \<Rightarrow> task_template_version option" where
  "current_version_row t s =
     first_row (filter (\<lambda>v. tv_template_id v = t \<and> is_current s v) (task_template_versions s))"

definition get_current_version :: "string \<Rightarrow> ('m catalog_db_scheme, task_template_version option) op" where
  "get_current_version t = op_bind (op_get (current_version_row t)) (\<lambda>row. op_lift (read_version row))"

fun check_all :: "task_template_version list \<Rightarrow> exn + task_template_version list" where
  "check_all [] = Inr []"
| "check_all (v # vs) = (case check_version v of Inl e \<Rightarrow> Inl e
     | Inr w \<Rightarrow> (case check_all vs of Inl e \<Rightarrow> Inl e | Inr ws \<Rightarrow> Inr (w # ws)))"

text \<open>
  The query has no ORDER BY; the model returns the rows in rowid order. Nothing proved about the
  selection among them depends on that order.
\<close>

definition get_active_templates ::
  "task_instance_role \<Rightarrow> string \<Rightarrow> ('m catalog_db_scheme, task_template_version list) op" where
  "get_active_templates role mode =
     op_bind (op_get (\<lambda>s. filter (is_current_active s) (task_template_versions s))) (\<lambda>rows.
     op_bind (op_lift (check_all rows)) (\<lambda>versions.
     op_return (filter (\<lambda>v. role \<in> set (td_eligible_instance_roles (tv_details v)) \<and>
       mode \<in> set (td_eligible_operating_modes (tv_details v))) versions)))"

section \<open>Administration\<close>

definition tx_insert_version :: "task_template_version \<Rightarrow> ('m catalog_db_scheme, unit) tx" where
  "tx_insert_version v =
     tx_bind (tx_get (version_row (tv_template_id v) (tv_version v))) (\<lambda>clash.
     tx_bind (tx_require (clash = None) IntegrityError) (\<lambda>_.
     tx_modify (\<lambda>s. s\<lparr>task_template_versions := task_template_versions s @ [v]\<rparr>)))"

definition new_version ::
  "string \<Rightarrow> string \<Rightarrow> int \<Rightarrow> string \<Rightarrow> string \<Rightarrow> template_details \<Rightarrow> string \<Rightarrow> time \<Rightarrow> task_template_version" where
  "new_version i t n heading instr d consent now = \<lparr>tv_id = i, tv_template_id = t, tv_version = n,
     tv_details = d, tv_created_at = now, tv_created_via_consent_id = consent,
     tv_title = Some heading, tv_instructions = Some instr\<rparr>"

definition new_entry :: "string \<Rightarrow> string \<Rightarrow> time \<Rightarrow> catalog_entry" where
  "new_entry t consent now = \<lparr>te_template_id = t, te_current_version = 1, te_eligibility_status = TE_ACTIVE,
     te_status_changed_at = now, te_eligibility_changed_via_consent_id = Some consent,
     te_current_version_changed_via_consent_id = Some consent, te_current_version_changed_at = Some now\<rparr>"

definition create_template ::
  "string \<Rightarrow> string \<Rightarrow> string \<Rightarrow> template_details \<Rightarrow> string \<Rightarrow> time
     \<Rightarrow> ('m catalog_db_scheme, task_template_version) op" where
  "create_template t heading instr d consent now =
     op_bind (op_require (nonblank consent) InvalidTaskTemplateVersionError) (\<lambda>_.
     op_bind (op_lift (normalize_required_text heading title_max_length)) (\<lambda>h.
     op_bind (op_lift (normalize_required_text instr instructions_max_length)) (\<lambda>ins. transition
       (tx_bind (tx_get (entry_by_id t)) (\<lambda>existing.
        tx_bind (tx_require (existing = None) InvalidTaskTemplateVersionError) (\<lambda>_.
        tx_bind new_text_id (\<lambda>i.
        tx_bind (tx_lift (check_version (new_version i t 1 h ins d consent now))) (\<lambda>version.
        tx_bind (tx_insert_version version) (\<lambda>_.
        tx_bind (tx_modify (\<lambda>s. s\<lparr>task_template_catalog_entries :=
          task_template_catalog_entries s @ [new_entry t consent now]\<rparr>)) (\<lambda>_.
        tx_return version)))))))
       no_events)))"

definition max_version :: "string \<Rightarrow> 'm catalog_db_scheme \<Rightarrow> int" where
  \<comment> \<open>\<open>(MAX(version)) or 0\<close>\<close>
  "max_version t s = (case map tv_version (filter (\<lambda>v. tv_template_id v = t) (task_template_versions s)) of
     [] \<Rightarrow> 0 | n # ns \<Rightarrow> foldr max ns n)"

definition add_version ::
  "string \<Rightarrow> string \<Rightarrow> string \<Rightarrow> template_details \<Rightarrow> string \<Rightarrow> time
     \<Rightarrow> ('m catalog_db_scheme, task_template_version) op" where
  "add_version t heading instr d consent now =
     op_bind (op_require (nonblank consent) InvalidTaskTemplateVersionError) (\<lambda>_.
     op_bind (op_lift (normalize_required_text heading title_max_length)) (\<lambda>h.
     op_bind (op_lift (normalize_required_text instr instructions_max_length)) (\<lambda>ins. transition
       (tx_bind (tx_get (entry_by_id t)) (\<lambda>existing.
        tx_bind (tx_require (existing \<noteq> None) TaskTemplateNotFoundError) (\<lambda>_.
        tx_bind (tx_get (max_version t)) (\<lambda>m.
        tx_bind new_text_id (\<lambda>i.
        tx_bind (tx_lift (check_version (new_version i t (m + 1) h ins d consent now))) (\<lambda>version.
        tx_bind (tx_insert_version version) (\<lambda>_.
        tx_return version)))))))
       no_events)))"

definition update_entry ::
  "string \<Rightarrow> (catalog_entry \<Rightarrow> catalog_entry) \<Rightarrow> 'm catalog_db_scheme \<Rightarrow> 'm catalog_db_scheme" where
  "update_entry t f s = s\<lparr>task_template_catalog_entries :=
     update_where (\<lambda>e. te_template_id e = t) f (task_template_catalog_entries s)\<rparr>"

definition set_current_version ::
  "string \<Rightarrow> int \<Rightarrow> string \<Rightarrow> time \<Rightarrow> ('m catalog_db_scheme, catalog_entry) op" where
  "set_current_version t n consent now =
     op_bind (op_require (nonblank consent) InvalidTaskTemplateVersionError) (\<lambda>_. transition
       (tx_bind (tx_get (entry_by_id t)) (\<lambda>existing.
        tx_bind (tx_require (existing \<noteq> None) TaskTemplateNotFoundError) (\<lambda>_.
        tx_bind (tx_get (version_row t n)) (\<lambda>row.
        tx_bind (tx_require (row \<noteq> None) InvalidTaskTemplateVersionError) (\<lambda>_.
        tx_bind (tx_modify (update_entry t (\<lambda>e. e\<lparr>te_current_version := n,
          te_current_version_changed_via_consent_id := Some consent,
          te_current_version_changed_at := Some now\<rparr>))) (\<lambda>_.
        tx_bind (tx_get (entry_by_id t)) (\<lambda>updated. tx_the TypeError updated)))))))
       no_events)"

definition set_eligibility ::
  "string \<Rightarrow> template_eligibility_status \<Rightarrow> string \<Rightarrow> time \<Rightarrow> ('m catalog_db_scheme, catalog_entry) op" where
  "set_eligibility t target consent now =
     op_bind (op_require (nonblank consent) InvalidTaskTemplateVersionError) (\<lambda>_. transition
       (tx_bind (tx_get (entry_by_id t)) (\<lambda>row.
        tx_bind (tx_the TaskTemplateNotFoundError row) (\<lambda>entry.
        tx_bind (tx_require (te_eligibility_status entry \<noteq> target) TaskTemplateEligibilityTransitionError) (\<lambda>_.
        tx_bind (tx_modify (update_entry t (\<lambda>e. e\<lparr>te_eligibility_status := target,
          te_status_changed_at := now, te_eligibility_changed_via_consent_id := Some consent\<rparr>))) (\<lambda>_.
        tx_bind (tx_get (entry_by_id t)) (\<lambda>updated. tx_the TypeError updated))))))
       no_events)"

definition activate :: "string \<Rightarrow> string \<Rightarrow> time \<Rightarrow> ('m catalog_db_scheme, catalog_entry) op" where
  "activate t consent now = set_eligibility t TE_ACTIVE consent now"

definition deactivate :: "string \<Rightarrow> string \<Rightarrow> time \<Rightarrow> ('m catalog_db_scheme, catalog_entry) op" where
  "deactivate t consent now = set_eligibility t TE_DEACTIVATED consent now"

end
