(* ===== verification/Catalog_Facts.thy ===== *)
theory Catalog_Facts
  imports Task_Catalog
begin

text \<open>
  The invariant of the task catalog, the closed form of each operation and the lemmas the task
  runtime builds on: numbering of versions, existence of the current version, and that reading
  a stored version never raises.
\<close>

section \<open>The invariant\<close>

definition versions_of :: "string \<Rightarrow> 'm catalog_db_scheme \<Rightarrow> task_template_version list" where
  "versions_of t s = filter (\<lambda>v. tv_template_id v = t) (task_template_versions s)"

definition stored_text :: "nat \<Rightarrow> string option \<Rightarrow> bool" where
  "stored_text limit t \<longleftrightarrow> (\<exists>x. t = Some x \<and> nonblank x \<and> length x \<le> limit \<and> py_strip x = x)"

definition version_wf :: "task_template_version \<Rightarrow> bool" where
  "version_wf v \<longleftrightarrow> td_eligible_instance_roles (tv_details v) \<noteq> [] \<and>
     distinct (td_eligible_instance_roles (tv_details v)) \<and>
     td_eligible_operating_modes (tv_details v) \<noteq> [] \<and>
     distinct (td_eligible_operating_modes (tv_details v)) \<and>
     stored_text title_max_length (tv_title v) \<and> stored_text instructions_max_length (tv_instructions v) \<and>
     nonblank (tv_created_via_consent_id v)"

definition catalog_ok :: "'m catalog_db_scheme \<Rightarrow> bool" where
  "catalog_ok s \<longleftrightarrow> distinct (map tv_id (task_template_versions s)) \<and>
     (\<forall>v \<in> set (task_template_versions s). version_wf v \<and> drawn (tv_id v) s \<and>
        entry_by_id (tv_template_id v) s \<noteq> None) \<and>
     (\<forall>t. map tv_version (versions_of t s) = map int [1..<Suc (length (versions_of t s))]) \<and>
     distinct (map te_template_id (task_template_catalog_entries s)) \<and>
     (\<forall>e \<in> set (task_template_catalog_entries s).
        version_row (te_template_id e) (te_current_version e) s \<noteq> None)"

section \<open>Versions\<close>

lemma check_version_wf: "version_wf v \<Longrightarrow> check_version v = Inr v"
  by (auto simp: version_wf_def check_version_def Let_def text_check_def stored_text_def)

lemma check_version_InrD: "check_version v = Inr w \<Longrightarrow> w = v \<and>
    td_eligible_instance_roles (tv_details v) \<noteq> [] \<and> distinct (td_eligible_instance_roles (tv_details v)) \<and>
    td_eligible_operating_modes (tv_details v) \<noteq> [] \<and> distinct (td_eligible_operating_modes (tv_details v))"
  by (auto simp: check_version_def Let_def split: if_splits sum.splits)

lemma normalize_InrD:
  "normalize_required_text x n = Inr y \<Longrightarrow> y = py_strip x \<and> stored_text n (Some y)"
  by (auto simp: normalize_required_text_def Let_def stored_text_def py_strip_empty split: if_splits)

lemma check_new_version:
  assumes "stored_text title_max_length (Some h)" and "stored_text instructions_max_length (Some k)"
  shows "check_version (new_version i t n h k d consent now) =
    (if td_eligible_instance_roles d = [] \<or> \<not> distinct (td_eligible_instance_roles d) \<or>
        td_eligible_operating_modes d = [] \<or> \<not> distinct (td_eligible_operating_modes d)
     then Inl ValueError else Inr (new_version i t n h k d consent now))"
  using assms by (auto simp: check_version_def new_version_def Let_def text_check_def stored_text_def)

definition prepare :: "string \<Rightarrow> string \<Rightarrow> string \<Rightarrow> exn + (string \<times> string)" where
  "prepare consent heading instr =
     (if \<not> nonblank consent then Inl InvalidTaskTemplateVersionError
      else case normalize_required_text heading title_max_length of Inl e \<Rightarrow> Inl e | Inr h \<Rightarrow>
        (case normalize_required_text instr instructions_max_length of Inl e \<Rightarrow> Inl e | Inr k \<Rightarrow> Inr (h, k)))"

lemma prepare_InrD: "prepare consent heading instr = Inr (h, k) \<Longrightarrow> nonblank consent \<and>
    h = py_strip heading \<and> k = py_strip instr \<and>
    stored_text title_max_length (Some h) \<and> stored_text instructions_max_length (Some k)"
  by (auto simp: prepare_def dest: normalize_InrD split: if_splits sum.splits)

lemma prepare_InlD: "prepare consent heading instr = Inl e \<Longrightarrow> e = InvalidTaskTemplateVersionError"
  by (auto simp: prepare_def normalize_required_text_def Let_def split: if_splits)

lemma new_version_wf:
  assumes "prepare consent heading instr = Inr (h, k)"
    and "check_version (new_version i t n h k d consent now) = Inr w"
  shows "w = new_version i t n h k d consent now \<and> version_wf w"
  using check_version_InrD [OF assms(2)] prepare_InrD [OF assms(1)]
  by (auto simp: version_wf_def new_version_def)

section \<open>Lookups\<close>

lemma version_row_SomeD:
  "version_row t n s = Some v \<Longrightarrow> v \<in> set (task_template_versions s) \<and> tv_template_id v = t \<and> tv_version v = n"
  by (auto simp: version_row_def dest: row_by_SomeD)

lemma entry_by_id_SomeD:
  "entry_by_id t s = Some e \<Longrightarrow> e \<in> set (task_template_catalog_entries s) \<and> te_template_id e = t"
  by (auto simp: entry_by_id_def dest: row_by_SomeD)

lemma version_key_unique:
  assumes ok: "catalog_ok s" and v: "v \<in> set (task_template_versions s)" and w: "w \<in> set (task_template_versions s)"
    and t: "tv_template_id v = tv_template_id w" and n: "tv_version v = tv_version w"
  shows "v = w"
proof -
  let ?vs = "versions_of (tv_template_id v) s"
  have "map tv_version ?vs = map int [1..<Suc (length ?vs)]" using ok by (simp add: catalog_ok_def)
  then have "distinct (map tv_version ?vs)" by (simp add: distinct_map inj_on_def)
  moreover have "v \<in> set ?vs" "w \<in> set ?vs" using v w t by (simp_all add: versions_of_def)
  ultimately show ?thesis using n by (metis distinct_key_eq)
qed

lemma version_row_of:
  assumes "catalog_ok s" and "v \<in> set (task_template_versions s)"
  shows "version_row (tv_template_id v) (tv_version v) s = Some v"
proof -
  have "version_row (tv_template_id v) (tv_version v) s \<noteq> None"
    using assms(2) by (auto simp: version_row_def row_by_None)
  then show ?thesis using version_key_unique [OF assms(1)] assms(2) version_row_SomeD by fastforce
qed

lemma max_version_eq:
  assumes "catalog_ok s"
  shows "max_version t s = int (length (versions_of t s))"
proof -
  have "foldr max (map int [1..<Suc n]) (0::int) = int n" for n
  proof -
    have "foldr max (map int ns) (int a) = int (foldr max ns a)" for ns a
      by (induction ns) (simp_all add: of_nat_max)
    from this [of "[1..<Suc n]" 0] show ?thesis by (simp only: foldr_max_upt of_nat_0 max_0R)
  qed
  moreover have "(case ms of [] \<Rightarrow> 0 | n # ns \<Rightarrow> foldr max ns n) = foldr max ms (0::int)"
    if "ms = map int ks" for ms ks
  proof (cases ms)
    case (Cons a as)
    have "foldr max as b = max b (foldr max as c)" if "c \<le> b" for b c
      using that by (induction as) (simp_all add: max.left_commute max_def)
    moreover have "0 \<le> a" using that Cons by auto
    moreover have "foldr max as 0 \<le> foldr max as a" if "0 \<le> a" using that by (induction as) auto
    ultimately have "foldr max as a = max a (foldr max as 0)" by blast
    then show ?thesis using Cons by simp
  qed simp
  moreover have "map tv_version (versions_of t s) = map int [1..<Suc (length (versions_of t s))]"
    using assms by (simp add: catalog_ok_def)
  ultimately show ?thesis unfolding max_version_def versions_of_def [symmetric] by metis
qed

lemma fresh_version_key:
  assumes "catalog_ok s"
  shows "version_row t (int (length (versions_of t s)) + 1) s = None"
proof (rule ccontr)
  assume "version_row t (int (length (versions_of t s)) + 1) s \<noteq> None"
  then obtain v where v: "v \<in> set (task_template_versions s)" "tv_template_id v = t"
    "tv_version v = int (length (versions_of t s)) + 1"
    using version_row_SomeD by blast
  have "v \<in> set (versions_of t s)" using v(1,2) by (simp add: versions_of_def)
  then have "tv_version v \<in> set (map tv_version (versions_of t s))" unfolding list.set_map by (rule imageI)
  also have "map tv_version (versions_of t s) = map int [1..<Suc (length (versions_of t s))]"
    using assms by (simp add: catalog_ok_def)
  finally show False using v(3) by auto
qed

lemma no_entry_no_versions: "catalog_ok s \<Longrightarrow> entry_by_id t s = None \<Longrightarrow> versions_of t s = []"
  by (auto simp: catalog_ok_def versions_of_def filter_empty_conv)

section \<open>Closed forms\<close>

definition with_version :: "task_template_version \<Rightarrow> 'm catalog_db_scheme \<Rightarrow> 'm catalog_db_scheme" where
  "with_version v s = s\<lparr>next_id := Suc (next_id s), task_template_versions := task_template_versions s @ [v]\<rparr>"

definition with_entry :: "catalog_entry \<Rightarrow> 'm catalog_db_scheme \<Rightarrow> 'm catalog_db_scheme" where
  "with_entry e s = s\<lparr>task_template_catalog_entries := task_template_catalog_entries s @ [e]\<rparr>"

lemma version_row_next_id [simp]: "version_row t n (s\<lparr>next_id := k\<rparr>) = version_row t n s"
  by (simp add: version_row_def)

lemma create_template_eq:
  assumes ok: "catalog_ok s"
  shows "create_template t heading instr d consent now s =
    (case prepare consent heading instr of Inl e \<Rightarrow> (Inl e, s) | Inr (h, k) \<Rightarrow>
       if entry_by_id t s \<noteq> None then (Inl InvalidTaskTemplateVersionError, s)
       else case check_version (new_version (uuid_text (next_id s)) t 1 h k d consent now) of
              Inl e \<Rightarrow> (Inl e, s)
            | Inr v \<Rightarrow> (Inr v, with_entry (new_entry t consent now) (with_version v s)))"
proof -
  have clash: "version_row t 1 s = None" if "entry_by_id t s = None"
    using fresh_version_key [OF ok, of t] no_entry_no_versions [OF ok that] by simp
  show ?thesis
    using clash
    by (auto simp: create_template_def prepare_def op_bind_def op_require_def op_return_def op_raise_def
        op_lift_def transition_no_events atomically_def tx_bind_def tx_simps tx_lift_def
        tx_insert_version_def with_version_def with_entry_def new_version_def
        dest!: check_version_InrD split: sum.splits)
qed

lemma add_version_eq:
  assumes ok: "catalog_ok s"
  shows "add_version t heading instr d consent now s =
    (case prepare consent heading instr of Inl e \<Rightarrow> (Inl e, s) | Inr (h, k) \<Rightarrow>
       if entry_by_id t s = None then (Inl TaskTemplateNotFoundError, s)
       else case check_version (new_version (uuid_text (next_id s)) t
                   (int (length (versions_of t s)) + 1) h k d consent now) of
              Inl e \<Rightarrow> (Inl e, s)
            | Inr v \<Rightarrow> (Inr v, with_version v s))"
  using fresh_version_key [OF ok, of t]
  by (auto simp: add_version_def prepare_def op_bind_def op_require_def op_return_def op_raise_def
      op_lift_def transition_no_events atomically_def tx_bind_def tx_simps tx_lift_def
      tx_insert_version_def with_version_def new_version_def max_version_eq [OF ok]
      dest!: check_version_InrD split: sum.splits)

lemma entry_by_id_update_entry:
  assumes "\<And>e. te_template_id (f e) = te_template_id e"
  shows "entry_by_id u (update_entry t f s) =
    (if u = t then map_option f (entry_by_id t s) else entry_by_id u s)"
proof -
  have "entry_by_id u (update_entry t f s) =
      map_option (\<lambda>e. if te_template_id e = t then f e else e) (entry_by_id u s)"
    by (simp add: entry_by_id_def update_entry_def row_by_update_where assms)
  then show ?thesis by (cases "entry_by_id u s") (auto dest: entry_by_id_SomeD)
qed

definition point_at :: "int \<Rightarrow> string \<Rightarrow> time \<Rightarrow> catalog_entry \<Rightarrow> catalog_entry" where
  "point_at n consent now e = e\<lparr>te_current_version := n,
     te_current_version_changed_via_consent_id := Some consent, te_current_version_changed_at := Some now\<rparr>"

definition with_status :: "template_eligibility_status \<Rightarrow> string \<Rightarrow> time \<Rightarrow> catalog_entry \<Rightarrow> catalog_entry" where
  "with_status target consent now e = e\<lparr>te_eligibility_status := target, te_status_changed_at := now,
     te_eligibility_changed_via_consent_id := Some consent\<rparr>"

lemma set_current_version_eq:
  "set_current_version t n consent now s =
    (if \<not> nonblank consent then (Inl InvalidTaskTemplateVersionError, s)
     else case entry_by_id t s of None \<Rightarrow> (Inl TaskTemplateNotFoundError, s) | Some e \<Rightarrow>
       if version_row t n s = None then (Inl InvalidTaskTemplateVersionError, s)
       else (Inr (point_at n consent now e), update_entry t (point_at n consent now) s))"
proof -
  have p: "(\<lambda>e. e\<lparr>te_current_version := n, te_current_version_changed_via_consent_id := Some consent,
      te_current_version_changed_at := Some now\<rparr>) = point_at n consent now"
    by (rule ext) (simp add: point_at_def)
  have "entry_by_id t (update_entry t (point_at n consent now) s)
      = map_option (point_at n consent now) (entry_by_id t s)"
    by (subst entry_by_id_update_entry) (simp_all add: point_at_def)
  then show ?thesis
    by (auto simp: set_current_version_def p op_bind_def op_require_def op_return_def op_raise_def
        transition_no_events atomically_def tx_bind_def tx_simps split: option.splits)
qed

lemma set_eligibility_eq:
  "set_eligibility t target consent now s =
    (if \<not> nonblank consent then (Inl InvalidTaskTemplateVersionError, s)
     else case entry_by_id t s of None \<Rightarrow> (Inl TaskTemplateNotFoundError, s) | Some e \<Rightarrow>
       if te_eligibility_status e = target then (Inl TaskTemplateEligibilityTransitionError, s)
       else (Inr (with_status target consent now e), update_entry t (with_status target consent now) s))"
proof -
  have p: "(\<lambda>e. e\<lparr>te_eligibility_status := target, te_status_changed_at := now,
      te_eligibility_changed_via_consent_id := Some consent\<rparr>) = with_status target consent now"
    by (rule ext) (simp add: with_status_def)
  have "entry_by_id t (update_entry t (with_status target consent now) s)
      = map_option (with_status target consent now) (entry_by_id t s)"
    by (subst entry_by_id_update_entry) (simp_all add: with_status_def)
  then show ?thesis
    by (auto simp: set_eligibility_def p op_bind_def op_require_def op_return_def op_raise_def
        transition_no_events atomically_def tx_bind_def tx_simps split: option.splits)
qed

section \<open>The invariant is kept\<close>

lemma entry_by_id_with [simp]:
  "entry_by_id t (with_version v s) = entry_by_id t s"
  "entry_by_id t (with_entry e s) = (case entry_by_id t s of
     None \<Rightarrow> if te_template_id e = t then Some e else None | Some x \<Rightarrow> Some x)"
  by (simp_all add: entry_by_id_def with_version_def with_entry_def row_by_append split: option.split)

lemma versions_of_with [simp]:
  "versions_of t (with_version v s) = versions_of t s @ (if tv_template_id v = t then [v] else [])"
  "versions_of t (with_entry e s) = versions_of t s"
  "versions_of t (update_entry u f s) = versions_of t s"
  by (simp_all add: versions_of_def with_version_def with_entry_def update_entry_def)

lemma version_row_with [simp]:
  "version_row t n (with_version v s) = (case version_row t n s of
     None \<Rightarrow> if tv_template_id v = t \<and> tv_version v = n then Some v else None | Some x \<Rightarrow> Some x)"
  "version_row t n (with_entry e s) = version_row t n s"
  "version_row t n (update_entry u f s) = version_row t n s"
  by (simp_all add: version_row_def with_version_def with_entry_def update_entry_def row_by_append
      split: option.split)

lemma catalog_ok_update_entry:
  assumes ok: "catalog_ok s" and key: "\<And>e. te_template_id (f e) = te_template_id e"
    and points: "\<And>e. version_row t (te_current_version e) s \<noteq> None \<Longrightarrow> version_row t (te_current_version (f e)) s \<noteq> None"
  shows "catalog_ok (update_entry t f s)"
proof -
  have ids: "map te_template_id (task_template_catalog_entries (update_entry t f s))
      = map te_template_id (task_template_catalog_entries s)"
    unfolding update_entry_def by (simp add: map_update_where key)
  have rows: "task_template_versions (update_entry t f s) = task_template_versions s"
    "next_id (update_entry t f s) = next_id s"
    by (simp_all add: update_entry_def)
  have entries: "entry_by_id u (update_entry t f s) \<noteq> None" if "entry_by_id u s \<noteq> None" for u
    unfolding entry_by_id_update_entry [of f, OF key] using that by auto
  have "version_row (te_template_id e) (te_current_version e) s \<noteq> None"
    if "e \<in> set (task_template_catalog_entries (update_entry t f s))" for e
  proof -
    have "e \<in> set (update_where (\<lambda>e. te_template_id e = t) f (task_template_catalog_entries s))"
      using that by (simp add: update_entry_def)
    then show ?thesis
    proof (cases rule: in_update_whereE)
      case same
      then show ?thesis using ok by (simp add: catalog_ok_def)
    next
      case (changed e0)
      then have "version_row t (te_current_version e0) s \<noteq> None" using ok by (auto simp: catalog_ok_def)
      then show ?thesis using points [of e0] changed by (simp add: key)
    qed
  qed
  then show ?thesis using ok entries unfolding catalog_ok_def ids rows drawn_def by (simp add: rows)
qed

lemma catalog_ok_with_version:
  assumes ok: "catalog_ok s" and wf: "version_wf v" and i: "tv_id v = uuid_text (next_id s)"
    and n: "tv_version v = int (length (versions_of (tv_template_id v) s)) + 1"
    and e: "entry_by_id (tv_template_id v) s \<noteq> None"
  shows "catalog_ok (with_version v s)"
proof -
  have rows: "task_template_versions (with_version v s) = task_template_versions s @ [v]"
    "task_template_catalog_entries (with_version v s) = task_template_catalog_entries s"
    by (simp_all add: with_version_def)
  have "tv_id v \<notin> tv_id ` set (task_template_versions s)"
    using ok by (auto simp: catalog_ok_def drawn_def i)
  moreover have "drawn u s \<Longrightarrow> drawn u (with_version v s)" for u
    by (erule drawn_later) (simp add: with_version_def)
  moreover have "drawn (tv_id v) (with_version v s)" unfolding i
    by (simp add: drawn_new with_version_def)
  moreover have "map tv_version (versions_of t (with_version v s))
      = map int [1..<Suc (length (versions_of t (with_version v s)))]" for t
  proof -
    have "map tv_version (versions_of t s) = map int [1..<Suc (length (versions_of t s))]"
      using ok by (simp add: catalog_ok_def)
    then show ?thesis using n by (auto simp: versions_of_with)
  qed
  ultimately show ?thesis using ok wf e unfolding catalog_ok_def rows
    by (auto split: option.splits)
qed

lemma catalog_ok_created:
  assumes ok: "catalog_ok s" and none: "entry_by_id t s = None" and wf: "version_wf v"
    and v: "tv_id v = uuid_text (next_id s)" "tv_template_id v = t" "tv_version v = 1"
  shows "catalog_ok (with_entry (new_entry t consent now) (with_version v s))" (is "catalog_ok ?s")
proof -
  have empty: "versions_of t s = []" by (rule no_entry_no_versions [OF ok none])
  have rows: "task_template_versions ?s = task_template_versions s @ [v]"
    "task_template_catalog_entries ?s = task_template_catalog_entries s @ [new_entry t consent now]"
    by (simp_all add: with_version_def with_entry_def)
  have "tv_id v \<notin> tv_id ` set (task_template_versions s)"
    using ok by (auto simp: catalog_ok_def drawn_def v)
  moreover have "drawn u s \<Longrightarrow> drawn u ?s" for u
    by (erule drawn_later) (simp add: with_version_def with_entry_def)
  moreover have "drawn (tv_id v) ?s" unfolding v
    by (simp add: drawn_new with_version_def with_entry_def)
  moreover have "map tv_version (versions_of u ?s) = map int [1..<Suc (length (versions_of u ?s))]" for u
  proof -
    have "map tv_version (versions_of u s) = map int [1..<Suc (length (versions_of u s))]"
      using ok by (simp add: catalog_ok_def)
    then show ?thesis using v empty by auto
  qed
  moreover have "t \<notin> te_template_id ` set (task_template_catalog_entries s)"
    using none by (auto simp: entry_by_id_def row_by_None)
  moreover have new: "te_template_id (new_entry t consent now) = t" "te_current_version (new_entry t consent now) = 1"
    by (simp_all add: new_entry_def)
  moreover have "entry_by_id u ?s \<noteq> None" if "u = t \<or> entry_by_id u s \<noteq> None" for u
    using that new by (auto split: option.split)
  moreover have "version_row u n ?s \<noteq> None" if "u = t \<and> n = 1 \<or> version_row u n s \<noteq> None" for u n
    using that v by (auto split: option.split)
  ultimately show ?thesis using ok wf v unfolding catalog_ok_def rows
    by (simp del: entry_by_id_with version_row_with versions_of_with upt_Suc)
qed

lemma op_keeps_create_template: "op_keeps catalog_ok (create_template t heading instr d consent now)"
proof (rule op_keepsI)
  fix s :: "'a catalog_db_scheme" assume ok: "catalog_ok s"
  show "catalog_ok (snd (create_template t heading instr d consent now s))"
    unfolding create_template_eq [OF ok] using ok
    by (auto simp: new_version_def dest: new_version_wf intro!: catalog_ok_created split: sum.splits)
qed

lemma op_keeps_add_version: "op_keeps catalog_ok (add_version t heading instr d consent now)"
proof (rule op_keepsI)
  fix s :: "'a catalog_db_scheme" assume ok: "catalog_ok s"
  show "catalog_ok (snd (add_version t heading instr d consent now s))"
    unfolding add_version_eq [OF ok] using ok
    by (auto simp: new_version_def dest: new_version_wf intro!: catalog_ok_with_version split: sum.splits)
qed

lemma op_keeps_set_current_version: "op_keeps catalog_ok (set_current_version t n consent now)"
proof (rule op_keepsI)
  fix s :: "'a catalog_db_scheme" assume ok: "catalog_ok s"
  have "catalog_ok (update_entry t (point_at n consent now) s)" if "version_row t n s \<noteq> None"
    by (rule catalog_ok_update_entry [OF ok]) (use that in \<open>simp_all add: point_at_def\<close>)
  then show "catalog_ok (snd (set_current_version t n consent now s))"
    using ok unfolding set_current_version_eq by (auto split: option.splits)
qed

lemma op_keeps_set_eligibility: "op_keeps catalog_ok (set_eligibility t target consent now)"
proof (rule op_keepsI)
  fix s :: "'a catalog_db_scheme" assume ok: "catalog_ok s"
  have "catalog_ok (update_entry t (with_status target consent now) s)"
    by (rule catalog_ok_update_entry [OF ok]) (simp_all add: with_status_def)
  then show "catalog_ok (snd (set_eligibility t target consent now s))"
    using ok unfolding set_eligibility_eq by (auto split: option.splits)
qed

section \<open>Reads of a well-formed catalog\<close>

lemma is_current_iff:
  assumes ok: "catalog_ok s" and v: "v \<in> set (task_template_versions s)"
  shows "is_current s v \<longleftrightarrow> (\<exists>e. entry_by_id (tv_template_id v) s = Some e \<and> te_current_version e = tv_version v)"
proof
  assume "is_current s v"
  then obtain e where e: "e \<in> set (task_template_catalog_entries s)" "te_template_id e = tv_template_id v"
    "te_current_version e = tv_version v" by (auto simp: is_current_def list_ex_iff)
  have "distinct (map te_template_id (task_template_catalog_entries s))" using ok by (simp add: catalog_ok_def)
  from row_by_unique [OF this e(1)] show "\<exists>e. entry_by_id (tv_template_id v) s = Some e \<and> te_current_version e = tv_version v"
    using e by (simp add: entry_by_id_def)
next
  assume "\<exists>e. entry_by_id (tv_template_id v) s = Some e \<and> te_current_version e = tv_version v"
  then show "is_current s v" by (auto simp: is_current_def list_ex_iff dest!: entry_by_id_SomeD)
qed

lemma current_version_row_eq:
  assumes ok: "catalog_ok s"
  shows "current_version_row t s = (case entry_by_id t s of None \<Rightarrow> None
    | Some e \<Rightarrow> version_row t (te_current_version e) s)"
proof (cases "entry_by_id t s")
  case None
  then have "filter (\<lambda>v. tv_template_id v = t \<and> is_current s v) (task_template_versions s) = []"
    using is_current_iff [OF ok] by (auto simp: filter_empty_conv)
  then show ?thesis using None by (simp add: current_version_row_def)
next
  case (Some e)
  then have "version_row t (te_current_version e) s \<noteq> None"
    using ok entry_by_id_SomeD [OF Some] by (auto simp: catalog_ok_def)
  then obtain v where v: "version_row t (te_current_version e) s = Some v" by blast
  note vD = version_row_SomeD [OF v]
  have "v \<in> set (filter (\<lambda>v. tv_template_id v = t \<and> is_current s v) (task_template_versions s))"
    using vD Some is_current_iff [OF ok] by simp
  then obtain w where w: "current_version_row t s = Some w"
    unfolding current_version_row_def by (metis first_row_None list.set(1) empty_iff not_None_eq)
  then have wD: "w \<in> set (task_template_versions s)" "tv_template_id w = t" "is_current s w"
    using first_row_SomeD unfolding current_version_row_def by fastforce+
  then have "tv_version w = te_current_version e" using is_current_iff [OF ok wD(1)] Some by auto
  then have "w = v" using version_key_unique [OF ok wD(1)] vD wD(2) by simp
  then show ?thesis using Some v w by simp
qed

lemma read_version_stored:
  assumes "catalog_ok s" and "row = None \<or> (\<exists>v \<in> set (task_template_versions s). row = Some v)"
  shows "read_version row = Inr row"
  using assms by (auto simp: read_version_def catalog_ok_def check_version_wf)

lemma version_row_mem:
  "version_row t n s = None \<or> (\<exists>v \<in> set (task_template_versions s). version_row t n s = Some v)"
  by (cases "version_row t n s") (auto dest: version_row_SomeD)

lemma get_template_eq:
  assumes ok: "catalog_ok s"
  shows "get_template t n s = (Inr (version_row t n s), s)"
proof -
  have "read_version (version_row t n s) = Inr (version_row t n s)"
    by (rule read_version_stored [OF ok version_row_mem])
  then show ?thesis by (simp add: get_template_def op_bind_def op_get_def op_lift_def)
qed

lemma get_current_version_eq:
  assumes ok: "catalog_ok s"
  shows "get_current_version t s = (Inr (case entry_by_id t s of None \<Rightarrow> None
    | Some e \<Rightarrow> version_row t (te_current_version e) s), s)"
proof -
  have "read_version (current_version_row t s) = Inr (current_version_row t s)"
    unfolding current_version_row_eq [OF ok]
    by (rule read_version_stored [OF ok]) (cases "entry_by_id t s", simp_all add: version_row_mem)
  then show ?thesis
    by (simp add: get_current_version_def op_bind_def op_get_def op_lift_def current_version_row_eq [OF ok])
qed

lemma check_all_stored: "\<forall>v \<in> set vs. version_wf v \<Longrightarrow> check_all vs = Inr vs"
  by (induction vs) (simp_all add: check_version_wf)

lemma get_active_templates_eq:
  assumes ok: "catalog_ok s"
  shows "get_active_templates role mode s = (Inr (filter (\<lambda>v. is_current_active s v \<and>
      role \<in> set (td_eligible_instance_roles (tv_details v)) \<and>
      mode \<in> set (td_eligible_operating_modes (tv_details v))) (task_template_versions s)), s)"
proof -
  have "check_all (filter (is_current_active s) (task_template_versions s))
      = Inr (filter (is_current_active s) (task_template_versions s))"
    using ok by (intro check_all_stored) (auto simp: catalog_ok_def)
  then show ?thesis
    by (simp add: get_active_templates_def op_bind_def op_get_def op_lift_def op_return_def conj_commute)
qed

lemma is_current_active_iff:
  assumes ok: "catalog_ok s" and v: "v \<in> set (task_template_versions s)"
  shows "is_current_active s v \<longleftrightarrow> (\<exists>e. entry_by_id (tv_template_id v) s = Some e \<and>
    te_current_version e = tv_version v \<and> te_eligibility_status e = TE_ACTIVE)"
proof
  assume "is_current_active s v"
  then obtain e where e: "e \<in> set (task_template_catalog_entries s)" "te_template_id e = tv_template_id v"
    "te_current_version e = tv_version v" "te_eligibility_status e = TE_ACTIVE"
    by (auto simp: is_current_active_def list_ex_iff)
  have "distinct (map te_template_id (task_template_catalog_entries s))" using ok by (simp add: catalog_ok_def)
  from row_by_unique [OF this e(1)] show "\<exists>e. entry_by_id (tv_template_id v) s = Some e \<and>
    te_current_version e = tv_version v \<and> te_eligibility_status e = TE_ACTIVE"
    using e by (simp add: entry_by_id_def)
next
  assume "\<exists>e. entry_by_id (tv_template_id v) s = Some e \<and>
    te_current_version e = tv_version v \<and> te_eligibility_status e = TE_ACTIVE"
  then show "is_current_active s v" by (auto simp: is_current_active_def list_ex_iff dest!: entry_by_id_SomeD)
qed

end
