(* ===== verification/Task_Runtime.thy ===== *)
theory Task_Runtime
  imports Catalog_Facts
begin

text \<open>
  \<open>task_runtime\<close>: eligibility and selection of templates and the life of an assignment, from
  ACTIVE to COMPLETED or CANCELLED. \<open>assign_task\<close> decides eligibility again itself, whatever the
  caller believes, and the partial unique index allows one active assignment per user.
\<close>

section \<open>Rows\<close>

datatype assignment_status = TA_ACTIVE | TA_COMPLETED | TA_CANCELLED

record task_assignment =
  ta_id :: string
  ta_user_id :: string
  ta_template_id :: string
  ta_template_version :: int
  ta_status :: assignment_status
  ta_assigned_at :: time
  ta_assigned_via_consent_id :: string
  ta_resolved_at :: "time option"
  ta_resolved_via_consent_id :: "string option"

record runtime_db = catalog_db +
  task_assignments :: "task_assignment list"

section \<open>Eligibility and selection\<close>

datatype eligibility_reason = ELIGIBLE | LOCK_STATE_REQUIRED

record eligibility_decision =
  eligible :: bool
  reason_code :: eligibility_reason

definition evaluate_task_eligibility ::
  "task_template_version \<Rightarrow> lock_knowledge_state \<Rightarrow> eligibility_decision" where
  "evaluate_task_eligibility v k =
     (if td_lock_requirement (tv_details v) = REQUIRES_LOCKED \<and> k \<noteq> KN_LOCKED_USER_REPORTED
      then \<lparr>eligible = False, reason_code = LOCK_STATE_REQUIRED\<rparr>
      else \<lparr>eligible = True, reason_code = ELIGIBLE\<rparr>)"

definition select_eligible_template :: "task_template_version list \<Rightarrow> task_template_version option" where
  "select_eligible_template vs = first_row (sort_key tv_template_id vs)"

section \<open>Reads\<close>

definition active_row :: "string \<Rightarrow> 'm runtime_db_scheme \<Rightarrow> task_assignment option" where
  "active_row u s = first_row (filter (\<lambda>a. ta_user_id a = u \<and> ta_status a = TA_ACTIVE) (task_assignments s))"

definition assignment_by_id :: "string \<Rightarrow> 'm runtime_db_scheme \<Rightarrow> task_assignment option" where
  "assignment_by_id i s = row_by ta_id i (task_assignments s)"

definition get_active_assignment :: "string \<Rightarrow> ('m runtime_db_scheme, task_assignment option) op" where
  "get_active_assignment u =
     op_bind (op_require (nonblank u) ValueError) (\<lambda>_. op_get (active_row u))"

definition get_eligible_templates ::
  "task_instance_role \<Rightarrow> string \<Rightarrow> lock_knowledge_state
     \<Rightarrow> ('m runtime_db_scheme, task_template_version list) op" where
  "get_eligible_templates role mode k = op_bind (get_active_templates role mode) (\<lambda>candidates.
     op_return (filter (\<lambda>v. eligible (evaluate_task_eligibility v k)) candidates))"

section \<open>Administration\<close>

definition new_assignment :: "string \<Rightarrow> string \<Rightarrow> task_template_version \<Rightarrow> string \<Rightarrow> time \<Rightarrow> task_assignment" where
  "new_assignment i u v consent now = \<lparr>ta_id = i, ta_user_id = u, ta_template_id = tv_template_id v,
     ta_template_version = tv_version v, ta_status = TA_ACTIVE, ta_assigned_at = now,
     ta_assigned_via_consent_id = consent, ta_resolved_at = None, ta_resolved_via_consent_id = None\<rparr>"

definition insert_assignment :: "task_assignment \<Rightarrow> 'm runtime_db_scheme \<Rightarrow> 'm runtime_db_scheme" where
  "insert_assignment a s = s\<lparr>task_assignments := task_assignments s @ [a]\<rparr>"

text \<open>
  The INSERT violates the composite foreign key or the partial unique index exactly when the
  version is missing or the user has an active assignment; both are mapped to one error.
\<close>

definition assign_write ::
  "string \<Rightarrow> task_template_version \<Rightarrow> string \<Rightarrow> time \<Rightarrow> ('m runtime_db_scheme, task_assignment) tx" where
  "assign_write u v consent now =
     tx_bind (tx_get (user_exists u)) (\<lambda>known.
     tx_bind (tx_require known TaskAssignmentReferentialIntegrityError) (\<lambda>_.
     tx_bind new_text_id (\<lambda>i.
     (let assignment = new_assignment i u v consent now
      in tx_bind (tx_get (\<lambda>s. version_row (tv_template_id v) (tv_version v) s \<noteq> None \<and> active_row u s = None)) (\<lambda>valid.
         tx_bind (tx_require valid TaskAssignmentConcurrencyError) (\<lambda>_.
         tx_bind (tx_modify (insert_assignment assignment)) (\<lambda>_.
         tx_return assignment)))))))"

definition assign_task ::
  "string \<Rightarrow> string \<Rightarrow> lock_knowledge_state \<Rightarrow> string \<Rightarrow> time \<Rightarrow> ('m runtime_db_scheme, task_assignment) op" where
  "assign_task u t k consent now =
     op_bind (op_require (nonblank u) ValueError) (\<lambda>_.
     op_bind (op_require (nonblank t) ValueError) (\<lambda>_.
     op_bind (op_require (nonblank consent) ValueError) (\<lambda>_.
     op_bind (get_current_version t) (\<lambda>template.
     case template of
       None \<Rightarrow> op_raise TaskTemplateNotFoundForAssignmentError
     | Some v \<Rightarrow>
         op_bind (op_require (eligible (evaluate_task_eligibility v k)) TaskNotEligibleError) (\<lambda>_.
         transition (assign_write u v consent now) no_events)))))"

definition resolved :: "assignment_status \<Rightarrow> string \<Rightarrow> time \<Rightarrow> task_assignment \<Rightarrow> task_assignment" where
  "resolved target consent now a = a\<lparr>ta_status := target, ta_resolved_at := Some now,
     ta_resolved_via_consent_id := Some consent\<rparr>"

definition resolve_assignment ::
  "string \<Rightarrow> assignment_status \<Rightarrow> string \<Rightarrow> time \<Rightarrow> ('m runtime_db_scheme, task_assignment) op" where
  "resolve_assignment i target consent now =
     op_bind (op_require (nonblank i) ValueError) (\<lambda>_.
     op_bind (op_require (nonblank consent) ValueError) (\<lambda>_. transition
       (tx_bind (tx_get (assignment_by_id i)) (\<lambda>row.
        tx_bind (tx_the TaskAssignmentNotFoundError row) (\<lambda>current.
        tx_bind (tx_require (ta_status current = TA_ACTIVE) TaskAssignmentTransitionError) (\<lambda>_.
        tx_bind (tx_modify (\<lambda>s. s\<lparr>task_assignments :=
          update_where (\<lambda>a. ta_id a = i) (resolved target consent now) (task_assignments s)\<rparr>)) (\<lambda>_.
        tx_return (resolved target consent now current))))))
       no_events))"

definition complete_assignment :: "string \<Rightarrow> string \<Rightarrow> time \<Rightarrow> ('m runtime_db_scheme, task_assignment) op" where
  "complete_assignment i consent now = resolve_assignment i TA_COMPLETED consent now"

definition cancel_assignment :: "string \<Rightarrow> string \<Rightarrow> time \<Rightarrow> ('m runtime_db_scheme, task_assignment) op" where
  "cancel_assignment i consent now = resolve_assignment i TA_CANCELLED consent now"

section \<open>The invariant\<close>

definition assignment_wf :: "'m catalog_db_scheme \<Rightarrow> task_assignment \<Rightarrow> bool" where
  "assignment_wf s a \<longleftrightarrow> drawn (ta_id a) s \<and> user_exists (ta_user_id a) s \<and>
     version_row (ta_template_id a) (ta_template_version a) s \<noteq> None \<and>
     nonblank (ta_user_id a) \<and> nonblank (ta_assigned_via_consent_id a) \<and>
     (ta_status a = TA_ACTIVE \<longleftrightarrow> ta_resolved_at a = None) \<and>
     (ta_resolved_at a = None \<longleftrightarrow> ta_resolved_via_consent_id a = None)"

definition runtime_ok :: "'m runtime_db_scheme \<Rightarrow> bool" where
  "runtime_ok s \<longleftrightarrow> distinct (map ta_id (task_assignments s)) \<and>
     (\<forall>a \<in> set (task_assignments s). assignment_wf s a) \<and>
     (\<forall>a \<in> set (task_assignments s). \<forall>b \<in> set (task_assignments s).
        ta_status a = TA_ACTIVE \<longrightarrow> ta_status b = TA_ACTIVE \<longrightarrow> ta_user_id a = ta_user_id b \<longrightarrow> a = b)"

section \<open>Closed forms\<close>

definition assigned :: "task_assignment \<Rightarrow> 'm runtime_db_scheme \<Rightarrow> 'm runtime_db_scheme" where
  "assigned a s = s\<lparr>next_id := Suc (next_id s), task_assignments := task_assignments s @ [a]\<rparr>"

definition with_resolved ::
  "string \<Rightarrow> assignment_status \<Rightarrow> string \<Rightarrow> time \<Rightarrow> 'm runtime_db_scheme \<Rightarrow> 'm runtime_db_scheme" where
  "with_resolved i target consent now s = s\<lparr>task_assignments :=
     update_where (\<lambda>a. ta_id a = i) (resolved target consent now) (task_assignments s)\<rparr>"

lemma active_row_SomeD:
  "active_row u s = Some a \<Longrightarrow> a \<in> set (task_assignments s) \<and> ta_user_id a = u \<and> ta_status a = TA_ACTIVE"
  by (auto simp: active_row_def dest: first_row_SomeD)

lemma active_row_None:
  "active_row u s = None \<longleftrightarrow> (\<forall>a \<in> set (task_assignments s). ta_user_id a = u \<longrightarrow> ta_status a \<noteq> TA_ACTIVE)"
  by (auto simp: active_row_def filter_empty_conv)

lemma assignment_by_id_SomeD:
  "assignment_by_id i s = Some a \<Longrightarrow> a \<in> set (task_assignments s) \<and> ta_id a = i"
  by (auto simp: assignment_by_id_def dest: row_by_SomeD)

lemma assign_write_eq:
  assumes "version_row (tv_template_id v) (tv_version v) s \<noteq> None"
  shows "transition (assign_write u v consent now) no_events s =
    (if \<not> user_exists u s then (Inl TaskAssignmentReferentialIntegrityError, s)
     else if active_row u s \<noteq> None then (Inl TaskAssignmentConcurrencyError, s)
     else (Inr (new_assignment (uuid_text (next_id s)) u v consent now),
           assigned (new_assignment (uuid_text (next_id s)) u v consent now) s))"
proof -
  have "active_row u (s\<lparr>next_id := k\<rparr>) = active_row u s" for k by (simp add: active_row_def)
  then show ?thesis using assms
    by (simp add: transition_no_events atomically_def assign_write_def tx_bind_def tx_simps Let_def
        insert_assignment_def assigned_def)
qed

lemma assign_task_eq:
  assumes ok: "catalog_ok s"
  shows "assign_task u t k consent now s =
    (if \<not> nonblank u \<or> \<not> nonblank t \<or> \<not> nonblank consent then (Inl ValueError, s)
     else case entry_by_id t s of
       None \<Rightarrow> (Inl TaskTemplateNotFoundForAssignmentError, s)
     | Some e \<Rightarrow>
         let v = the (version_row t (te_current_version e) s) in
         if \<not> eligible (evaluate_task_eligibility v k) then (Inl TaskNotEligibleError, s)
         else if \<not> user_exists u s then (Inl TaskAssignmentReferentialIntegrityError, s)
         else if active_row u s \<noteq> None then (Inl TaskAssignmentConcurrencyError, s)
         else (Inr (new_assignment (uuid_text (next_id s)) u v consent now),
               assigned (new_assignment (uuid_text (next_id s)) u v consent now) s))"
proof (cases "entry_by_id t s")
  case None
  then show ?thesis
    by (simp add: assign_task_def op_bind_def op_require_def op_return_def op_raise_def
        get_current_version_eq [OF ok])
next
  case (Some e)
  then have "version_row t (te_current_version e) s \<noteq> None"
    using ok entry_by_id_SomeD [OF Some] by (auto simp: catalog_ok_def)
  then obtain v where v: "version_row t (te_current_version e) s = Some v" by blast
  then have "version_row (tv_template_id v) (tv_version v) s \<noteq> None" using version_row_SomeD by fastforce
  from assign_write_eq [OF this] show ?thesis using Some v
    by (simp add: assign_task_def op_bind_def op_require_def op_return_def op_raise_def
        get_current_version_eq [OF ok])
qed

lemma resolve_assignment_eq:
  "resolve_assignment i target consent now s =
    (if \<not> nonblank i \<or> \<not> nonblank consent then (Inl ValueError, s)
     else case assignment_by_id i s of None \<Rightarrow> (Inl TaskAssignmentNotFoundError, s) | Some a \<Rightarrow>
       if ta_status a \<noteq> TA_ACTIVE then (Inl TaskAssignmentTransitionError, s)
       else (Inr (resolved target consent now a), with_resolved i target consent now s))"
  by (simp add: resolve_assignment_def op_bind_def op_require_def op_return_def op_raise_def
      transition_no_events atomically_def tx_bind_def tx_simps with_resolved_def split: option.split)

section \<open>The invariant is kept\<close>

lemma runtime_ok_assigned:
  assumes ok: "runtime_ok s" and u: "user_exists u s" "nonblank u" "nonblank consent"
    and v: "version_row (tv_template_id v) (tv_version v) s \<noteq> None" and none: "active_row u s = None"
  shows "runtime_ok (assigned (new_assignment (uuid_text (next_id s)) u v consent now) s)" (is "runtime_ok ?s")
proof -
  let ?a = "new_assignment (uuid_text (next_id s)) u v consent now"
  have rows: "task_assignments ?s = task_assignments s @ [?a]" by (simp add: assigned_def)
  have a: "ta_id ?a = uuid_text (next_id s)" "ta_user_id ?a = u" "ta_status ?a = TA_ACTIVE"
    "ta_template_id ?a = tv_template_id v" "ta_template_version ?a = tv_version v" "ta_resolved_at ?a = None"
    "ta_resolved_via_consent_id ?a = None" "ta_assigned_via_consent_id ?a = consent"
    by (simp_all add: new_assignment_def)
  have fresh: "ta_id ?a \<notin> ta_id ` set (task_assignments s)"
    using ok by (auto simp: runtime_ok_def assignment_wf_def drawn_def a)
  have later: "drawn w s \<Longrightarrow> drawn w ?s" for w by (erule drawn_later) (simp add: assigned_def)
  have drawn: "drawn (ta_id ?a) ?s" unfolding a by (simp add: drawn_new assigned_def)
  have same: "user_exists w ?s = user_exists w s" "version_row x n ?s = version_row x n s" for w x n
    by (simp_all add: assigned_def user_exists_def account_by_id_def version_row_def)
  have one: "ta_status b \<noteq> TA_ACTIVE" if "b \<in> set (task_assignments s)" "ta_user_id b = u" for b
    using none that by (simp add: active_row_None)
  have "distinct (map ta_id (task_assignments ?s))" using ok fresh by (simp add: rows runtime_ok_def)
  moreover have "assignment_wf ?s b" if "b \<in> set (task_assignments ?s)" for b
  proof (cases "b = ?a")
    case True
    then show ?thesis using drawn u v by (simp add: assignment_wf_def same a)
  next
    case False
    then have "assignment_wf s b" using that ok by (simp add: rows runtime_ok_def)
    then show ?thesis using later by (simp add: assignment_wf_def same)
  qed
  moreover have "b = c" if "b \<in> set (task_assignments ?s)" "c \<in> set (task_assignments ?s)"
      "ta_status b = TA_ACTIVE" "ta_status c = TA_ACTIVE" "ta_user_id b = ta_user_id c" for b c
  proof -
    have bc: "b = ?a \<or> b \<in> set (task_assignments s)" "c = ?a \<or> c \<in> set (task_assignments s)"
      using that(1,2) by (auto simp: rows)
    show ?thesis
    proof (cases "b = ?a \<or> c = ?a")
      case True
      then show ?thesis using bc one that(3,4,5) a(2) by metis
    next
      case False
      then show ?thesis using bc ok that(3,4,5) unfolding runtime_ok_def by blast
    qed
  qed
  ultimately show ?thesis unfolding runtime_ok_def by blast
qed

lemma runtime_ok_resolved:
  assumes ok: "runtime_ok s" and target: "target \<noteq> TA_ACTIVE"
  shows "runtime_ok (with_resolved i target consent now s)" (is "runtime_ok ?s")
proof -
  let ?rows = "update_where (\<lambda>a. ta_id a = i) (resolved target consent now) (task_assignments s)"
  have rows: "task_assignments ?s = ?rows" by (simp add: with_resolved_def)
  have ids: "map ta_id ?rows = map ta_id (task_assignments s)"
    by (rule map_update_where) (simp add: resolved_def)
  have same: "user_exists w ?s = user_exists w s" "version_row x n ?s = version_row x n s"
    "drawn w ?s = drawn w s" for w x n
    by (simp_all add: with_resolved_def user_exists_def account_by_id_def version_row_def drawn_def)
  have active: "b \<in> set (task_assignments s)" if "b \<in> set ?rows" "ta_status b = TA_ACTIVE" for b
    using that target by (auto simp: set_update_where resolved_def)
  have fields: "assignment_wf s b" if "b \<in> set ?rows" for b
    using that
  proof (cases rule: in_update_whereE)
    case same
    then show ?thesis using ok unfolding runtime_ok_def by blast
  next
    case (changed a)
    then have "assignment_wf s a" using ok by (simp add: runtime_ok_def)
    then show ?thesis using changed(3) target by (simp add: assignment_wf_def resolved_def)
  qed
  have "assignment_wf ?s b" if "b \<in> set ?rows" for b
    using fields [OF that] by (simp add: assignment_wf_def same)
  then show ?thesis using ok active unfolding runtime_ok_def rows ids by blast
qed

lemma op_keeps_assign_task: "op_keeps (\<lambda>s. catalog_ok s \<and> runtime_ok s) (assign_task u t k consent now)"
proof (rule op_keepsI)
  fix s :: "'a runtime_db_scheme" assume s: "catalog_ok s \<and> runtime_ok s"
  have cat: "catalog_ok (assigned a s)" for a
  proof -
    have "drawn w s \<Longrightarrow> drawn w (assigned a s)" for w by (erule drawn_later) (simp add: assigned_def)
    then show ?thesis using s
      by (auto simp: catalog_ok_def assigned_def versions_of_def entry_by_id_def version_row_def)
  qed
  have "version_row (tv_template_id (the (version_row t (te_current_version e) s)))
      (tv_version (the (version_row t (te_current_version e) s))) s \<noteq> None" if e: "entry_by_id t s = Some e" for e
  proof -
    have "version_row t (te_current_version e) s \<noteq> None"
      using s entry_by_id_SomeD [OF e] by (auto simp: catalog_ok_def)
    then show ?thesis using version_row_SomeD by fastforce
  qed
  then show "catalog_ok (snd (assign_task u t k consent now s)) \<and> runtime_ok (snd (assign_task u t k consent now s))"
    using s cat runtime_ok_assigned [of s u consent] unfolding assign_task_eq [OF conjunct1 [OF s]]
    by (auto simp: Let_def split: option.split)
qed

lemma op_keeps_resolve:
  assumes "target \<noteq> TA_ACTIVE"
  shows "op_keeps runtime_ok (resolve_assignment i target consent now)"
  by (rule op_keepsI) (auto simp: resolve_assignment_eq runtime_ok_resolved assms split: option.split)

end
