(* ===== verification/Onboarding_Properties.thy ===== *)
theory Onboarding_Properties
  imports Onboarding
begin

text \<open>
  What onboarding guarantees: the well-formedness of the rows is kept by every message, a row
  moves one step at a time and only on a valid answer, stale answers change nothing, other users
  are never touched, and three valid answers complete it.
\<close>

section \<open>Closed forms\<close>

definition step_row :: "(preferences \<Rightarrow> preferences) \<Rightarrow> onboarding_step \<Rightarrow> time \<Rightarrow> preferences \<Rightarrow> preferences" where
  "step_row f to now r = (f r)\<lparr>up_step := to, up_updated_at := now\<rparr>"

definition stepped :: "string \<Rightarrow> (preferences \<Rightarrow> preferences) \<Rightarrow> onboarding_step \<Rightarrow> time
    \<Rightarrow> 'm preference_db_scheme \<Rightarrow> 'm preference_db_scheme" where
  "stepped u f to now s = s\<lparr>user_preferences :=
     update_where (\<lambda>r. up_user_id r = u) (step_row f to now) (user_preferences s)\<rparr>"

lemma preferences_of_SomeD:
  "preferences_of u s = Some r \<Longrightarrow> r \<in> set (user_preferences s) \<and> up_user_id r = u"
  by (auto simp: preferences_of_def dest: row_by_SomeD)

lemma preferences_of_stepped:
  assumes "\<And>r. up_user_id (f r) = up_user_id r"
  shows "preferences_of v (stepped u f to now s)
    = (if v = u then map_option (step_row f to now) (preferences_of u s) else preferences_of v s)"
proof -
  have "preferences_of v (stepped u f to now s)
      = map_option (\<lambda>r. if up_user_id r = u then step_row f to now r else r) (preferences_of v s)"
    unfolding preferences_of_def stepped_def
    by (simp add: row_by_update_where step_row_def assms)
  then show ?thesis
    by (cases "preferences_of v s") (auto dest: preferences_of_SomeD)
qed

lemma only_row:
  assumes "preferences_ok s" and "preferences_of u s = Some r"
    and "q \<in> set (user_preferences s)" and "up_user_id q = u"
  shows "q = r"
proof -
  have "distinct (map up_user_id (user_preferences s))" using assms(1) by (simp add: preferences_ok_def)
  moreover have "r \<in> set (user_preferences s)" "up_user_id r = u"
    using preferences_of_SomeD [OF assms(2)] by simp_all
  ultimately show ?thesis using assms(3,4) by (metis distinct_key_eq)
qed

lemma onboarding_advance_eq:
  assumes ok: "preferences_ok s" and r: "preferences_of (up_user_id p) s = Some r"
    and f: "\<And>r. up_user_id (f r) = up_user_id r"
  shows "advance p from to f now s =
    (if up_step r = from then (Inr (step_row f to now r), stepped (up_user_id p) f to now s)
     else (Inr r, s))"
proof -
  let ?rs = "update_where (\<lambda>q. up_user_id q = up_user_id p \<and> up_step q = from)
    (step_row f to now) (user_preferences s)"
  have run: "advance p from to f now s =
      (case preferences_of (up_user_id p) (s\<lparr>user_preferences := ?rs\<rparr>) of
         None \<Rightarrow> (Inl TypeError, s) | Some q \<Rightarrow> (Inr q, s\<lparr>user_preferences := ?rs\<rparr>))"
    by (simp add: advance_def transition_no_events atomically_def tx_bind_def tx_simps step_row_def [abs_def]
        tx_the_def split: option.splits)
  show ?thesis
  proof (cases "up_step r = from")
    case True
    have "?rs = update_where (\<lambda>q. up_user_id q = up_user_id p) (step_row f to now) (user_preferences s)"
      unfolding update_where_def using only_row [OF ok r] True by (intro map_cong) auto
    then have "s\<lparr>user_preferences := ?rs\<rparr> = stepped (up_user_id p) f to now s" by (simp add: stepped_def)
    then show ?thesis
      unfolding run using True r preferences_of_stepped [of f "up_user_id p" "up_user_id p" to now s] f
      by simp
  next
    case False
    have "?rs = user_preferences s"
      using only_row [OF ok r] False by (intro update_where_id) auto
    then have "s\<lparr>user_preferences := ?rs\<rparr> = s" by simp
    then show ?thesis unfolding run using False r by simp
  qed
qed

definition reply_after :: "preferences \<Rightarrow> preferences \<Rightarrow> onboarding_reply" where
  "reply_after p q = (if up_step p = OB_PERSONALITY then completion_reply q else prompt_for q)"

definition repeated_prompt :: "preferences \<Rightarrow> onboarding_reply" where
  "repeated_prompt p = (if onboarding_is_complete p then Welcome_Back else Not_Recognized (prompt_for p))"

lemma answer_column: "answer p txt = Inr (Some (f, to)) \<Longrightarrow> up_user_id (f r) = up_user_id r"
  by (auto simp: answer_def Let_def split: onboarding_step.splits sum.splits)

lemma process_message_eq:
  assumes ok: "preferences_ok s" and r: "preferences_of (up_user_id p) s = Some r"
  shows "process_message p txt now s = (case answer p txt of
      Inl e \<Rightarrow> (Inl e, s)
    | Inr None \<Rightarrow> (Inr (p, repeated_prompt p), s)
    | Inr (Some (f, to)) \<Rightarrow>
        if up_step r = up_step p
        then (Inr (step_row f to now r, reply_after p (step_row f to now r)),
              stepped (up_user_id p) f to now s)
        else (Inr (r, reply_after p r), s))"
proof (cases "up_step p")
  case OB_LANGUAGE
  then show ?thesis
    by (simp add: process_message_def handle_language_def answer_def Let_def op_bind_def op_return_def
        onboarding_advance_eq [OF ok r] repeated_prompt_def reply_after_def onboarding_is_complete_def prompt_for_def
        split: option.splits)
next
  case OB_AI_GENDER
  then show ?thesis
    by (simp add: process_message_def handle_ai_gender_def answer_def Let_def op_bind_def op_return_def
        onboarding_advance_eq [OF ok r] repeated_prompt_def reply_after_def onboarding_is_complete_def prompt_for_def
        split: option.splits)
next
  case OB_PERSONALITY
  let ?c = "choose_personality p (py_lower (py_strip txt))"
  consider e where "?c = Inl e" | "?c = Inr None" | e where "?c = Inr (Some e)"
    by (cases ?c) (auto simp: option.nchotomy split: option.splits)
  then show ?thesis
    using OB_PERSONALITY
    by cases (simp_all add: process_message_def handle_personality_def answer_def Let_def op_bind_def
        op_return_def op_raise_def onboarding_advance_eq [OF ok r] repeated_prompt_def reply_after_def
        onboarding_is_complete_def prompt_for_def)
next
  case OB_COMPLETE
  then show ?thesis
    by (simp add: process_message_def answer_def Let_def op_return_def repeated_prompt_def onboarding_is_complete_def)
qed

section \<open>Answers\<close>

lemma chosen_personality:
  assumes "choose_personality p n = Inr (Some e)"
  shows "e \<in> set (identities_for p)"
  using assms by (auto simp: choose_personality_def Let_def find_Some_iff split: if_splits sum.splits)

lemma answer_wf:
  assumes a: "answer p txt = Inr (Some (f, to))" and snap: "snapshot_of p r"
    and r: "preferences_wf r" and step: "up_step r = up_step p"
  shows "preferences_wf (step_row f to now r) \<and> step_rank to = Suc (step_rank (up_step r))"
proof (cases "up_step p")
  case OB_LANGUAGE
  then obtain l where l: "map_of language_choices (py_lower (py_strip txt)) = Some l"
    and f: "f = (\<lambda>r. r\<lparr>up_language := Some l\<rparr>)" "to = OB_AI_GENDER"
    using a by (auto simp: answer_def Let_def)
  have "l \<in> {''en'', ''cs''}" using map_of_SomeD [OF l] by (auto simp: language_choices_def)
  then show ?thesis using r step OB_LANGUAGE by (auto simp: f step_row_def preferences_wf_def)
next
  case OB_AI_GENDER
  then obtain g where f: "f = (\<lambda>r. r\<lparr>up_ai_gender := Some g\<rparr>)" "to = OB_PERSONALITY"
    using a by (auto simp: answer_def Let_def)
  then show ?thesis using r step OB_AI_GENDER by (auto simp: f step_row_def preferences_wf_def)
next
  case OB_PERSONALITY
  then obtain e where c: "choose_personality p (py_lower (py_strip txt)) = Inr (Some e)"
    and f: "f = (\<lambda>r. r\<lparr>up_identity_id := Some (identity_id e)\<rparr>)" "to = OB_COMPLETE"
    using a by (auto simp: answer_def Let_def split: sum.splits)
  have g: "up_ai_gender p = up_ai_gender r" using snap OB_PERSONALITY by (simp add: snapshot_of_def)
  have "up_ai_gender r \<noteq> None" using r step OB_PERSONALITY by (simp add: preferences_wf_def)
  then have "e \<in> set identity_catalog" "up_ai_gender r = Some (identity_group_of e)"
    using chosen_personality [OF c] g by (auto simp: identities_for_def)
  then show ?thesis using r step OB_PERSONALITY by (auto simp: f step_row_def preferences_wf_def)
next
  case OB_COMPLETE
  then show ?thesis using a by (simp add: answer_def Let_def)
qed

lemma answer_error: "answer p txt = Inl e \<Longrightarrow> up_step p = OB_PERSONALITY \<and> e = ValueError"
  by (auto simp: answer_def choose_personality_def py_int_of_digits_def Let_def
      split: onboarding_step.splits sum.splits if_splits option.splits)

lemma preferences_ok_stepped:
  assumes ok: "preferences_ok s" and r: "preferences_of u s = Some r"
    and f: "\<And>r. up_user_id (f r) = up_user_id r" and wf: "preferences_wf (step_row f to now r)"
  shows "preferences_ok (stepped u f to now s)"
proof -
  have key: "map up_user_id (user_preferences (stepped u f to now s)) = map up_user_id (user_preferences s)"
    unfolding stepped_def by (simp add: map_update_where step_row_def f)
  have acc: "accounts_ok (stepped u f to now s) = accounts_ok s"
    by (simp add: accounts_ok_def stepped_def user_exists_def account_by_id_def drawn_def)
  have users: "user_exists v (stepped u f to now s) = user_exists v s" for v
    by (simp add: stepped_def user_exists_def account_by_id_def)
  have "user_exists (up_user_id q) s \<and> preferences_wf q"
    if "q \<in> set (user_preferences (stepped u f to now s))" for q
  proof -
    have "q \<in> set (update_where (\<lambda>r. up_user_id r = u) (step_row f to now) (user_preferences s))"
      using that by (simp add: stepped_def)
    then show ?thesis
    proof (cases rule: in_update_whereE)
      case same
      then show ?thesis using ok by (simp add: preferences_ok_def)
    next
      case (changed q0)
      then have "q0 = r" using only_row [OF ok r] by blast
      moreover have "user_exists (up_user_id r) s"
        using ok preferences_of_SomeD [OF r] by (auto simp: preferences_ok_def)
      ultimately show ?thesis using changed(3) wf by (simp add: step_row_def f)
    qed
  qed
  then show ?thesis using ok by (simp add: preferences_ok_def key acc users)
qed

lemma snapshot_refl: "preferences_wf r \<Longrightarrow> snapshot_of r r"
  by (simp add: snapshot_of_def)

lemma preferences_ok_row: "preferences_ok s \<Longrightarrow> preferences_of u s = Some r \<Longrightarrow> preferences_wf r"
  using preferences_of_SomeD by (fastforce simp: preferences_ok_def)

lemma message_effects:
  assumes "preferences_ok s" and "preferences_of (up_user_id p) s = Some r" and "snapshot_of p r"
    and "process_message p txt now s = (res, s')"
  shows "preferences_ok s' \<and> (\<forall>v. v = up_user_id p \<or> preferences_of v s' = preferences_of v s) \<and>
    (s' = s \<or> (\<exists>r'. preferences_of (up_user_id p) s' = Some r' \<and> up_step r = up_step p \<and>
        step_rank (up_step r') = Suc (step_rank (up_step r)) \<and> snapshot_of r r' \<and>
        (\<exists>f to. answer p txt = Inr (Some (f, to)))))"
proof -
  note wf = preferences_ok_row [OF assms(1,2)]
  note run = assms(4) [unfolded process_message_eq [OF assms(1,2)]]
  show ?thesis
  proof (cases "s' = s")
    case True
    then show ?thesis using assms(1) by simp
  next
    case False
    obtain f to where a: "answer p txt = Inr (Some (f, to))" and step: "up_step r = up_step p"
      and s': "s' = stepped (up_user_id p) f to now s"
      using run False by (auto split: sum.splits option.splits if_splits prod.splits)
    note f = answer_column [OF a]
    note w = answer_wf [OF a assms(3) wf step, of now]
    have "preferences_of v s' = (if v = up_user_id p then Some (step_row f to now r) else preferences_of v s)" for v
      unfolding s' preferences_of_stepped [of f, OF f] using assms(2) by simp
    moreover have "preferences_ok s'"
      unfolding s' by (rule preferences_ok_stepped [OF assms(1,2) f]) (rule conjunct1 [OF w])
    moreover have "snapshot_of r (step_row f to now r)"
      using a w step wf f
      by (auto simp: snapshot_of_def step_row_def answer_def Let_def split: onboarding_step.splits sum.splits)
    ultimately show ?thesis using w a step by (auto simp: step_row_def)
  qed
qed

end
