(* ===== verification/User_Side.thy ===== *)
theory User_Side
  imports Task_Runtime Onboarding_Properties System_Safety
begin

text \<open>
  The user-facing tables together: accounts, preferences, lock reports, the task catalog and the
  assignments. Each invariant reads other tables only through facts that later states keep
  (\<open>grown\<close>: ids are not reused, accounts and template versions do not disappear), which is the
  interface \<open>user_table\<close>; so an operation that leaves a table alone keeps its invariant. The
  operations of the rest of the system leave all of them alone.
\<close>

section \<open>What later states keep\<close>

definition grown :: "'m runtime_db_scheme \<Rightarrow> 'm runtime_db_scheme \<Rightarrow> bool" where
  "grown s s' \<longleftrightarrow> next_id s \<le> next_id s' \<and> (\<forall>u. user_exists u s \<longrightarrow> user_exists u s') \<and>
     (\<forall>t n v. version_row t n s = Some v \<longrightarrow> version_row t n s' = Some v)"

lemma grown_refl [simp]: "grown s s"
  by (simp add: grown_def)

lemma grown_trans: "grown s t \<Longrightarrow> grown t u \<Longrightarrow> grown s u"
  unfolding grown_def by (meson le_trans)

lemma grown_drawn: "grown s s' \<Longrightarrow> drawn i s \<Longrightarrow> drawn i s'"
  by (erule drawn_later) (simp add: grown_def)

lemma grown_user: "grown s s' \<Longrightarrow> user_exists u s \<Longrightarrow> user_exists u s'"
  by (simp add: grown_def)

lemma grown_version: "grown s s' \<Longrightarrow> version_row t n s \<noteq> None \<Longrightarrow> version_row t n s' \<noteq> None"
  by (auto simp: grown_def)

locale user_table =
  fixes I :: "'m runtime_db_scheme \<Rightarrow> bool"
    and part :: "'m runtime_db_scheme \<Rightarrow> 't"
  assumes frame: "I s \<Longrightarrow> grown s s' \<Longrightarrow> part s' = part s \<Longrightarrow> I s'"
begin

lemma elsewhere:
  assumes "I s" and "grown s (snd (f s))" and "part (snd (f s)) = part s"
  shows "I (snd (f s))"
  using assms by (rule frame)

end

section \<open>The five tables\<close>

definition account_part :: "'m account_db_scheme \<Rightarrow> user_account list \<times> channel_identity list" where
  "account_part s = (user_accounts s, user_channel_identities s)"

definition catalog_part :: "'m catalog_db_scheme \<Rightarrow> task_template_version list \<times> catalog_entry list" where
  "catalog_part s = (task_template_versions s, task_template_catalog_entries s)"

definition preference_rows_ok :: "'m preference_db_scheme \<Rightarrow> bool" where
  "preference_rows_ok s \<longleftrightarrow> distinct (map up_user_id (user_preferences s)) \<and>
     (\<forall>p \<in> set (user_preferences s). user_exists (up_user_id p) s \<and> preferences_wf p)"

lemma preferences_ok_split: "preferences_ok s \<longleftrightarrow> accounts_ok s \<and> preference_rows_ok s"
  by (auto simp: preferences_ok_def preference_rows_ok_def)

interpretation account_table: user_table accounts_ok account_part
proof (unfold_locales)
  fix s s' :: "'m runtime_db_scheme"
  assume ok: "accounts_ok s" and g: "grown s s'" and same: "account_part s' = account_part s"
  then show "accounts_ok s'"
    using grown_drawn [OF g] grown_user [OF g] by (auto simp: accounts_ok_def account_part_def)
qed

interpretation preference_table: user_table preference_rows_ok user_preferences
proof (unfold_locales)
  fix s s' :: "'m runtime_db_scheme"
  assume ok: "preference_rows_ok s" and g: "grown s s'" and same: "user_preferences s' = user_preferences s"
  then show "preference_rows_ok s'"
    using grown_user [OF g] by (auto simp: preference_rows_ok_def)
qed

interpretation lock_table: user_table lock_ok lock_reports
proof (unfold_locales)
  fix s s' :: "'m runtime_db_scheme"
  assume ok: "lock_ok s" and g: "grown s s'" and same: "lock_reports s' = lock_reports s"
  have of: "reports_of u s' = reports_of u s" for u by (simp add: reports_of_def same)
  show "lock_ok s'" using ok grown_user [OF g] grown_drawn [OF g] unfolding lock_ok_def of same by blast
qed

interpretation catalog_table: user_table catalog_ok catalog_part
proof (unfold_locales)
  fix s s' :: "'m runtime_db_scheme"
  assume ok: "catalog_ok s" and g: "grown s s'" and same: "catalog_part s' = catalog_part s"
  have rows: "task_template_versions s' = task_template_versions s"
    "task_template_catalog_entries s' = task_template_catalog_entries s"
    using same by (simp_all add: catalog_part_def)
  have of: "versions_of t s' = versions_of t s" "entry_by_id t s' = entry_by_id t s"
    "version_row t n s' = version_row t n s" for t n
    by (simp_all add: versions_of_def entry_by_id_def version_row_def rows)
  show "catalog_ok s'" using ok grown_drawn [OF g] unfolding catalog_ok_def of rows by blast
qed

interpretation assignment_table: user_table runtime_ok task_assignments
proof (unfold_locales)
  fix s s' :: "'m runtime_db_scheme"
  assume ok: "runtime_ok s" and g: "grown s s'" and same: "task_assignments s' = task_assignments s"
  have "assignment_wf s a \<Longrightarrow> assignment_wf s' a" for a
    using grown_drawn [OF g] grown_user [OF g] grown_version [OF g] by (auto simp: assignment_wf_def)
  then show "runtime_ok s'" using ok unfolding runtime_ok_def same by blast
qed

definition user_side_ok :: "'m runtime_db_scheme \<Rightarrow> bool" where
  "user_side_ok s \<longleftrightarrow> accounts_ok s \<and> preference_rows_ok s \<and> lock_ok s \<and> catalog_ok s \<and> runtime_ok s"

lemma user_side_okD:
  assumes "user_side_ok s"
  shows "accounts_ok s" and "preference_rows_ok s" and "preferences_ok s" and "lock_ok s" and "catalog_ok s"
    and "runtime_ok s"
  using assms by (simp_all add: user_side_ok_def preferences_ok_split)

section \<open>The rest of the system leaves them alone\<close>

lemma user_side_ok_cong:
  fixes s s' :: "'m runtime_db_scheme"
  assumes ok: "user_side_ok s" and n: "next_id s \<le> next_id s'" and p: "account_part s' = account_part s"
    and q: "user_preferences s' = user_preferences s" and l: "lock_reports s' = lock_reports s"
    and c: "catalog_part s' = catalog_part s" and a: "task_assignments s' = task_assignments s"
  shows "user_side_ok s'"
proof -
  have g: "grown s s'" using n p c
    by (simp add: grown_def user_exists_def account_by_id_def version_row_def account_part_def catalog_part_def)
  show ?thesis using ok account_table.frame [OF _ g p] preference_table.frame [OF _ g q]
      lock_table.frame [OF _ g l] catalog_table.frame [OF _ g c] assignment_table.frame [OF _ g a]
    by (simp add: user_side_ok_def)
qed

interpretation user_side: system_frame user_side_ok
  by unfold_locales
    (auto simp: keeps_def tx_simps insert_event_def new_id_def account_part_def catalog_part_def
      intro: user_side_ok_cong)

end
