(* ===== verification/User_Facts.thy ===== *)
theory User_Facts
  imports User_Side
begin

text \<open>
  Every operation of the user-facing modules keeps all five invariants: it keeps the invariant of
  its own table and only grows what the others read.
\<close>

lemma user_side_ok_step:
  fixes s s' :: "'m runtime_db_scheme"
  assumes ok: "user_side_ok s" and g: "grown s s'"
    and "account_part s' = account_part s \<or> accounts_ok s'"
    and "user_preferences s' = user_preferences s \<or> preference_rows_ok s'"
    and "lock_reports s' = lock_reports s \<or> lock_ok s'"
    and "catalog_part s' = catalog_part s \<or> catalog_ok s'"
    and "task_assignments s' = task_assignments s \<or> runtime_ok s'"
  shows "user_side_ok s'"
  using assms account_table.frame [OF _ g] preference_table.frame [OF _ g] lock_table.frame [OF _ g]
    catalog_table.frame [OF _ g] assignment_table.frame [OF _ g]
  unfolding user_side_ok_def by blast

lemmas part_defs = account_part_def catalog_part_def

section \<open>Accounts and preferences\<close>

lemma user_exists_with_new_account:
  "user_exists u (with_new_account channel ext now s) \<longleftrightarrow> user_exists u s \<or> u = uuid_text (next_id s)"
  by (auto simp: user_exists_iff with_new_account_def insert_account_def insert_identity_def)

lemma side_get_or_create_user: "op_keeps user_side_ok (get_or_create_user channel ext now)"
proof (rule op_keepsI)
  fix s :: "'a runtime_db_scheme" assume ok: "user_side_ok s"
  let ?s = "snd (get_or_create_user channel ext now s)"
  have "grown s ?s \<and> user_preferences ?s = user_preferences s \<and> lock_reports ?s = lock_reports s \<and>
      catalog_part ?s = catalog_part s \<and> task_assignments ?s = task_assignments s"
  proof (cases "identity_row channel ext s")
    case None
    have "version_row t n (with_new_account channel ext now s) = version_row t n s" for t n
      by (simp add: version_row_def with_new_account_def insert_account_def insert_identity_def)
    moreover have "next_id s \<le> next_id (with_new_account channel ext now s)"
      by (simp add: with_new_account_def insert_account_def insert_identity_def)
    ultimately have "grown s (with_new_account channel ext now s)"
      by (simp add: grown_def user_exists_with_new_account)
    then show ?thesis using None
      by (simp add: get_or_create_user_unknown part_defs)
        (simp add: with_new_account_def insert_account_def insert_identity_def)
  next
    case (Some c)
    obtain a where a: "account_by_id (ci_user_account_id c) s = Some a"
      using known_identity_has_account [OF user_side_okD(1) [OF ok] Some] .
    have "grown s (touch_account (ua_id a) now s)"
      by (simp add: grown_def) (simp add: touch_account_def version_row_def)
    then show ?thesis using Some a
      by (simp add: get_or_create_user_known part_defs) (simp add: touch_account_def)
  qed
  moreover have "accounts_ok ?s" by (rule op_keepsD [OF op_keeps_get_or_create_user user_side_okD(1) [OF ok]])
  ultimately show "user_side_ok ?s" using user_side_ok_step [OF ok] by blast
qed

lemma get_or_create_preferences_eq:
  "get_or_create_preferences u now s = (case preferences_of u s of
     Some p \<Rightarrow> (Inr (p, False), s)
   | None \<Rightarrow> if user_exists u s
       then (Inr (new_preferences u now, True), s\<lparr>user_preferences := user_preferences s @ [new_preferences u now]\<rparr>)
       else (Inl IntegrityError, s))"
  by (simp add: get_or_create_preferences_def transition_no_events atomically_def tx_bind_def tx_simps
      split: option.split)

lemma new_preferences_wf: "preferences_wf (new_preferences u now)"
  by (simp add: new_preferences_def preferences_wf_def)

lemma side_get_or_create_preferences: "op_keeps user_side_ok (get_or_create_preferences u now)"
proof (rule op_keepsI)
  fix s :: "'a runtime_db_scheme" assume ok: "user_side_ok s"
  let ?s = "s\<lparr>user_preferences := user_preferences s @ [new_preferences u now]\<rparr>"
  have "user_side_ok ?s" if none: "preferences_of u s = None" and u: "user_exists u s"
  proof -
    have same: "user_exists w ?s = user_exists w s" for w by (simp add: user_exists_def account_by_id_def)
    have "grown s ?s" by (simp add: grown_def same version_row_def)
    moreover have "preference_rows_ok ?s"
    proof -
      have "u \<notin> up_user_id ` set (user_preferences s)"
        using none by (auto simp: preferences_of_def row_by_None)
      moreover have "up_user_id (new_preferences u now) = u" by (simp add: new_preferences_def)
      ultimately show ?thesis using user_side_okD(2) [OF ok] u new_preferences_wf [of u now]
        by (simp add: preference_rows_ok_def same)
    qed
    ultimately show ?thesis using user_side_ok_step [OF ok] by (simp add: part_defs)
  qed
  then show "user_side_ok (snd (get_or_create_preferences u now s))"
    using ok by (simp add: get_or_create_preferences_eq split: option.split)
qed

lemma side_process_message:
  assumes ok: "user_side_ok s" and r: "preferences_of (up_user_id p) s = Some r" and snap: "snapshot_of p r"
  shows "user_side_ok (snd (process_message p txt now s))"
proof -
  let ?s = "snd (process_message p txt now s)"
  note pok = user_side_okD(3) [OF ok]
  have "\<exists>f to. ?s = stepped (up_user_id p) f to now s \<or> ?s = s"
    by (auto simp: process_message_eq [OF pok r] split: sum.split option.split prod.split)
  then obtain f to where s': "?s = stepped (up_user_id p) f to now s \<or> ?s = s" by blast
  have "grown s (stepped (up_user_id p) f to now s)"
    by (simp add: grown_def stepped_def user_exists_def account_by_id_def version_row_def)
  then have "grown s ?s \<and> account_part ?s = account_part s \<and> lock_reports ?s = lock_reports s \<and>
      catalog_part ?s = catalog_part s \<and> task_assignments ?s = task_assignments s"
    using s' by (auto simp: part_defs stepped_def)
  moreover have "preference_rows_ok ?s"
    using message_effects [OF pok r snap, of "txt" now "fst (process_message p txt now s)" "?s"]
    by (simp add: preferences_ok_split)
  ultimately show ?thesis using user_side_ok_step [OF ok] by blast
qed

section \<open>Lock reports, catalog, assignments\<close>

lemma side_report_status: "op_keeps user_side_ok (report_status u status consent now)"
proof (rule op_keepsI)
  fix s :: "'a runtime_db_scheme" assume ok: "user_side_ok s"
  let ?s = "snd (report_status u status consent now s)"
  have "grown s ?s \<and> account_part ?s = account_part s \<and> user_preferences ?s = user_preferences s \<and>
      catalog_part ?s = catalog_part s \<and> task_assignments ?s = task_assignments s"
    by (simp add: report_status_eq part_defs grown_def insert_report_def user_exists_def account_by_id_def
        version_row_def)
  moreover have "lock_ok ?s" by (rule op_keepsD [OF op_keeps_report_status user_side_okD(4) [OF ok]])
  ultimately show "user_side_ok ?s" using user_side_ok_step [OF ok] by blast
qed

lemma side_catalog:
  fixes s s' :: "'m runtime_db_scheme"
  assumes "user_side_ok s" and "catalog_ok s'" and "next_id s \<le> next_id s'"
    and "\<And>t n v. version_row t n s = Some v \<Longrightarrow> version_row t n s' = Some v"
    and "account_part s' = account_part s" and "user_preferences s' = user_preferences s"
    and "lock_reports s' = lock_reports s" and "task_assignments s' = task_assignments s"
  shows "user_side_ok s'"
proof -
  have "grown s s'" using assms(3,4,5)
    by (simp add: grown_def user_exists_def account_by_id_def account_part_def)
  then show ?thesis using user_side_ok_step [OF assms(1)] assms by blast
qed

lemma catalog_changes_parts:
  "account_part (with_version v s) = account_part s" "account_part (with_entry e s) = account_part s"
  "account_part (update_entry t f s) = account_part s"
  "user_preferences (with_version v s) = user_preferences s" "user_preferences (with_entry e s) = user_preferences s"
  "user_preferences (update_entry t f s) = user_preferences s"
  "lock_reports (with_version v s) = lock_reports s" "lock_reports (with_entry e s) = lock_reports s"
  "lock_reports (update_entry t f s) = lock_reports s"
  "next_id (with_version v s) = Suc (next_id s)" "next_id (with_entry e s) = next_id s"
  "next_id (update_entry t f s) = next_id s"
  by (simp_all add: account_part_def with_version_def with_entry_def update_entry_def)

lemma catalog_changes_assignments:
  "task_assignments (with_version v s) = task_assignments s" "task_assignments (with_entry e s) = task_assignments s"
  "task_assignments (update_entry t f s) = task_assignments s"
  by (simp_all add: with_version_def with_entry_def update_entry_def)

lemma catalog_outcomes:
  fixes s :: "'m catalog_db_scheme"
  assumes ok: "catalog_ok s"
  shows "snd (create_template t h i d c now s) = s \<or>
      (\<exists>v e. snd (create_template t h i d c now s) = with_entry e (with_version v s))"
    and "snd (add_version t h i d c now s) = s \<or> (\<exists>v. snd (add_version t h i d c now s) = with_version v s)"
    and "snd (set_current_version t n c now s) = s \<or>
      (\<exists>f. snd (set_current_version t n c now s) = update_entry t f s)"
    and "snd (set_eligibility t target c now s) = s \<or>
      (\<exists>f. snd (set_eligibility t target c now s) = update_entry t f s)"
  unfolding create_template_eq [OF ok] add_version_eq [OF ok] set_current_version_eq set_eligibility_eq
  by (auto split: sum.split option.split prod.split)

lemma side_catalog_op:
  fixes f :: "('m runtime_db_scheme, 'b) op"
  assumes keeps: "op_keeps catalog_ok f" and outcome: "\<And>s. catalog_ok s \<Longrightarrow> snd (f s) = s \<or>
      (\<exists>v. snd (f s) = with_version v s) \<or> (\<exists>v e. snd (f s) = with_entry e (with_version v s)) \<or>
      (\<exists>t g. snd (f s) = update_entry t g s)"
  shows "op_keeps user_side_ok f"
proof (rule op_keepsI)
  fix s :: "'m runtime_db_scheme" assume s: "user_side_ok s"
  note cat = user_side_okD(5) [OF s]
  have "catalog_ok (snd (f s))" by (rule op_keepsD [OF keeps cat])
  then show "user_side_ok (snd (f s))"
    using outcome [OF cat]
    by (auto intro!: side_catalog [OF s] simp: s catalog_changes_parts catalog_changes_assignments
        split: option.split)
qed

lemma side_set_eligibility: "op_keeps user_side_ok (set_eligibility t target c now)"
  by (rule side_catalog_op [OF op_keeps_set_eligibility]) (use catalog_outcomes(4) in blast)

lemma side_catalog_operations:
  "op_keeps user_side_ok (create_template t h i d c now)" "op_keeps user_side_ok (add_version t h i d c now)"
  "op_keeps user_side_ok (set_current_version t n c now)"
  "op_keeps user_side_ok (activate t c now)" "op_keeps user_side_ok (deactivate t c now)"
  subgoal by (rule side_catalog_op [OF op_keeps_create_template]) (use catalog_outcomes(1) in blast)
  subgoal by (rule side_catalog_op [OF op_keeps_add_version]) (use catalog_outcomes(2) in blast)
  subgoal by (rule side_catalog_op [OF op_keeps_set_current_version]) (use catalog_outcomes(3) in blast)
  unfolding activate_def [abs_def] deactivate_def [abs_def] by (rule side_set_eligibility)+

lemma side_assign_task: "op_keeps user_side_ok (assign_task u t k consent now)"
proof (rule op_keepsI)
  fix s :: "'a runtime_db_scheme" assume ok: "user_side_ok s"
  note cat = user_side_okD(5) [OF ok]
  let ?s = "snd (assign_task u t k consent now s)"
  have "?s = s \<or> (\<exists>a. ?s = assigned a s)"
    by (auto simp: assign_task_eq [OF cat] Let_def split: option.split)
  then have "grown s ?s \<and> account_part ?s = account_part s \<and> user_preferences ?s = user_preferences s \<and>
      lock_reports ?s = lock_reports s \<and> catalog_part ?s = catalog_part s"
    by (auto simp: part_defs assigned_def grown_def user_exists_def account_by_id_def version_row_def)
  moreover have "runtime_ok ?s" using op_keepsD [OF op_keeps_assign_task] cat user_side_okD(6) [OF ok] by blast
  ultimately show "user_side_ok ?s" using user_side_ok_step [OF ok] by blast
qed

lemma side_resolve:
  assumes "target \<noteq> TA_ACTIVE"
  shows "op_keeps user_side_ok (resolve_assignment i target consent now)"
proof (rule op_keepsI)
  fix s :: "'a runtime_db_scheme" assume ok: "user_side_ok s"
  let ?s = "snd (resolve_assignment i target consent now s)"
  have "?s = s \<or> ?s = with_resolved i target consent now s"
    by (auto simp: resolve_assignment_eq split: option.split)
  then have "grown s ?s \<and> account_part ?s = account_part s \<and> user_preferences ?s = user_preferences s \<and>
      lock_reports ?s = lock_reports s \<and> catalog_part ?s = catalog_part s"
    by (auto simp: part_defs with_resolved_def grown_def user_exists_def account_by_id_def version_row_def)
  moreover have "runtime_ok ?s" by (rule op_keepsD [OF op_keeps_resolve [OF assms] user_side_okD(6) [OF ok]])
  ultimately show "user_side_ok ?s" using user_side_ok_step [OF ok] by blast
qed

end
