(* ===== verification/Chaster_Wire.thy ===== *)
theory Chaster_Wire
  imports Texts
begin

text \<open>
  What the Chaster clients exchange with the network: requests, replies and parsed JSON. The
  transport itself (\<open>requests\<close>) is a parameter, a function from the request to its result. Results
  of client calls are values or exceptions; \<open>res_bind\<close> is sequencing.
\<close>

section \<open>Values and exceptions\<close>

definition res_bind :: "exn + 'a \<Rightarrow> ('a \<Rightarrow> exn + 'b) \<Rightarrow> exn + 'b" where
  "res_bind r f = (case r of Inl e \<Rightarrow> Inl e | Inr a \<Rightarrow> f a)"

definition res_require :: "bool \<Rightarrow> exn \<Rightarrow> exn + unit" where
  "res_require c e = (if c then Inr () else Inl e)"

lemma res_bind_simps [simp]: "res_bind (Inl e) f = Inl e" "res_bind (Inr a) f = f a"
  by (simp_all add: res_bind_def)

lemma res_require_simps [simp]: "res_require True e = Inr ()" "res_require False e = Inl e"
  by (simp_all add: res_require_def)

lemma res_bind_eq_Inr: "res_bind r f = Inr b \<longleftrightarrow> (\<exists>a. r = Inr a \<and> f a = Inr b)"
  by (cases r) simp_all

section \<open>Parsed JSON\<close>

text \<open>\<open>response.json()\<close>; the keys of an object are distinct. NaN and Infinity are left out.\<close>

datatype wire =
    WNull
  | WBool bool
  | WInt int
  | WReal real
  | WStr string
  | WList "wire list"
  | WObj "(string \<times> wire) list"

fun wire_item :: "wire \<Rightarrow> string \<Rightarrow> exn + wire" where
  \<comment> \<open>\<open>body[key]\<close>\<close>
  "wire_item (WObj kvs) k = (case map_of kvs k of None \<Rightarrow> Inl (KeyError k) | Some v \<Rightarrow> Inr v)"
| "wire_item _ k = Inl TypeError"

fun wire_get :: "wire \<Rightarrow> string \<Rightarrow> wire \<Rightarrow> exn + wire" where
  \<comment> \<open>\<open>body.get(key, default)\<close>\<close>
  "wire_get (WObj kvs) k d = Inr (case map_of kvs k of None \<Rightarrow> d | Some v \<Rightarrow> v)"
| "wire_get _ k d = Inl AttributeError"

fun wire_truthy :: "wire \<Rightarrow> bool" where
  "wire_truthy WNull = False"
| "wire_truthy (WBool b) = b"
| "wire_truthy (WInt i) = (i \<noteq> 0)"
| "wire_truthy (WReal x) = (x \<noteq> 0)"
| "wire_truthy (WStr s) = (s \<noteq> [])"
| "wire_truthy (WList ws) = (ws \<noteq> [])"
| "wire_truthy (WObj kvs) = (kvs \<noteq> [])"

text \<open>\<open>int(text)\<close>: surrounding white space, one sign, digits with single underscores between them.\<close>

fun underscored_digits :: "string \<Rightarrow> bool" where
  "underscored_digits [] = False"
| "underscored_digits [c] = (digit_value c \<noteq> None)"
| "underscored_digits (c # d # cs) = (digit_value c \<noteq> None \<and>
     (if d = CHR ''_'' then underscored_digits cs else underscored_digits (d # cs)))"

definition unsigned_int :: "string \<Rightarrow> exn + int" where
  "unsigned_int s = (let ds = filter (\<lambda>c. c \<noteq> CHR ''_'') s in
     if \<not> underscored_digits s \<or> 4300 < length ds then Inl ValueError
     else case read_digits 0 ds of None \<Rightarrow> Inl ValueError | Some n \<Rightarrow> Inr (int n))"

definition text_int :: "string \<Rightarrow> exn + int" where
  "text_int s = (case py_strip s of
     c # cs \<Rightarrow> if c = CHR ''-'' then res_bind (unsigned_int cs) (\<lambda>n. Inr (- n))
               else if c = CHR ''+'' then unsigned_int cs else unsigned_int (c # cs)
   | [] \<Rightarrow> Inl ValueError)"

fun wire_int :: "wire \<Rightarrow> exn + int" where
  \<comment> \<open>\<open>int(value)\<close>\<close>
  "wire_int (WInt i) = Inr i"
| "wire_int (WBool b) = Inr (if b then 1 else 0)"
| "wire_int (WReal x) = Inr (if x < 0 then \<lceil>x\<rceil> else \<lfloor>x\<rfloor>)"
| "wire_int (WStr s) = text_int s"
| "wire_int _ = Inl TypeError"

text \<open>\<open>str.split()\<close>: the maximal runs without white space.\<close>

function py_split :: "string \<Rightarrow> string list" where
  "py_split s = (case dropWhile py_space s of [] \<Rightarrow> []
     | c # cs \<Rightarrow> (c # takeWhile (\<lambda>x. \<not> py_space x) cs) # py_split (dropWhile (\<lambda>x. \<not> py_space x) cs))"
  by pat_completeness auto
termination
proof (relation "measure length", simp)
  fix s c cs assume "dropWhile py_space s = c # cs"
  then have "length (c # cs) \<le> length s" by (metis length_dropWhile_le)
  moreover have "length (dropWhile (\<lambda>x. \<not> py_space x) cs) \<le> length cs" by (rule length_dropWhile_le)
  ultimately show "(dropWhile (\<lambda>x. \<not> py_space x) cs, s) \<in> measure length" by simp
qed

declare py_split.simps [simp del]

fun wire_split :: "wire \<Rightarrow> exn + string list" where
  \<comment> \<open>\<open>value.split()\<close>\<close>
  "wire_split (WStr s) = Inr (py_split s)"
| "wire_split _ = Inl AttributeError"

section \<open>Requests\<close>

record http_request =
  rq_method :: string
  rq_url :: string
  rq_params :: "(string \<times> string) list"
  rq_data :: "(string \<times> string) list"
  rq_bearer :: "string option"

datatype http_result = HTTP_FAILED | HTTP_REPLY nat "wire option"

type_synonym transport = "http_request \<Rightarrow> http_result"

text \<open>\<open>urllib.parse.quote_plus\<close> on characters below code point 256 (UTF-8 bytes, upper case hex).\<close>

definition hex_digit :: "nat \<Rightarrow> char" where
  "hex_digit d = char_of (if d < 10 then 48 + d else 55 + d)"

definition percent_byte :: "nat \<Rightarrow> string" where
  "percent_byte b = [CHR ''%'', hex_digit (b div 16), hex_digit (b mod 16)]"

definition unreserved :: "char \<Rightarrow> bool" where
  "unreserved c = (let n = of_char c :: nat in 48 \<le> n \<and> n \<le> 57 \<or> 65 \<le> n \<and> n \<le> 90 \<or> 97 \<le> n \<and> n \<le> 122
     \<or> c \<in> set ''_.-~'')"

definition quote_char :: "char \<Rightarrow> string" where
  "quote_char c = (let n = of_char c :: nat in
     if unreserved c then [c] else if c = CHR '' '' then ''+''
     else if n < 128 then percent_byte n
     else percent_byte (192 + n div 64) @ percent_byte (128 + n mod 64))"

definition quote_plus :: "string \<Rightarrow> string" where
  "quote_plus s = concat (map quote_char s)"

fun urlencode :: "(string \<times> string) list \<Rightarrow> string" where
  "urlencode [] = []"
| "urlencode [(k, v)] = quote_plus k @ ''='' @ quote_plus v"
| "urlencode ((k, v) # kvs) = quote_plus k @ ''='' @ quote_plus v @ ''&'' @ urlencode kvs"

section \<open>Tokens as text\<close>

fun token_text :: "wire \<Rightarrow> exn + string" where
  \<comment> \<open>the checks of \<open>TokenEncryptor.encrypt\<close>\<close>
  "token_text (WStr s) = (if nonblank s then Inr s else Inl ValueError)"
| "token_text _ = Inl TypeError"

fun bearer_text :: "wire \<Rightarrow> exn + string" where
  \<comment> \<open>\<open>if not access_token or not access_token.strip(): raise ValueError\<close>\<close>
  "bearer_text (WStr s) = (if nonblank s then Inr s else Inl ValueError)"
| "bearer_text w = (if wire_truthy w then Inl AttributeError else Inl ValueError)"

end
