(* ===== verification/Chaster_Store.thy ===== *)
theory Chaster_Store
  imports User_Facts Chaster_Wire
begin

text \<open>
  \<open>chaster/models.py\<close>, \<open>chaster/repository.py\<close>, \<open>chaster/token_encryptor.py\<close> and
  \<open>chaster/provider_observation_repository.py\<close>: pending OAuth states, connections whose tokens
  are stored encrypted, and the append-only log of what the provider reported. The cipher is
  \<open>cryptography.fernet\<close>, a parameter; a random value (the OAuth state, the nonce of a ciphertext)
  is drawn from the same counter as the uuids.
\<close>

section \<open>Rows\<close>

record chaster_oauth_state =
  os_state :: string
  os_user_id :: string
  os_created_at :: time
  os_expires_at :: time

datatype connection_status = CS_ACTIVE | CS_NEEDS_REAUTHORIZATION

record chaster_connection =
  cc_user_id :: string
  cc_account_id :: string
  cc_username :: "string option"
  cc_encrypted_access_token :: string
  cc_encrypted_refresh_token :: string
  cc_encryption_key_version :: "string option"
  cc_access_token_expires_at :: time
  cc_refresh_token_expires_at :: time
  cc_granted_scopes :: "string list"
  cc_status :: connection_status
  cc_created_at :: time
  cc_updated_at :: time

datatype provider_status = PS_LOCKED | PS_UNLOCKED | PS_DESERTED

record provider_observation =
  po_id :: string
  po_connection_id :: string
  po_provider :: string
  po_chaster_lock_id :: "string option"
  po_status :: provider_status
  po_fetched_at :: time
  po_created_at :: time

record chaster_db = runtime_db +
  chaster_oauth_states :: "chaster_oauth_state list"
  chaster_connections :: "chaster_connection list"
  chaster_provider_observations :: "provider_observation list"

definition state_ttl :: time where
  "state_ttl = 10 * minute"

section \<open>Pending OAuth states\<close>

record consume_result =
  cr_matched :: bool
  cr_expired :: bool
  cr_user_id :: "string option"

definition draw_text :: "('m outbox_db_scheme, string) op" where
  \<comment> \<open>\<open>secrets.token_urlsafe(32)\<close>, drawn before the transaction is opened\<close>
  "draw_text s = (Inr (uuid_text (next_id s)), s\<lparr>next_id := Suc (next_id s)\<rparr>)"

definition delete_state_of :: "string \<Rightarrow> 'm chaster_db_scheme \<Rightarrow> 'm chaster_db_scheme" where
  "delete_state_of u s = s\<lparr>chaster_oauth_states :=
     filter (\<lambda>r. os_user_id r \<noteq> u) (chaster_oauth_states s)\<rparr>"

definition insert_state :: "chaster_oauth_state \<Rightarrow> 'm chaster_db_scheme \<Rightarrow> 'm chaster_db_scheme" where
  "insert_state r s = s\<lparr>chaster_oauth_states := chaster_oauth_states s @ [r]\<rparr>"

definition create_or_replace_state :: "string \<Rightarrow> time \<Rightarrow> ('m chaster_db_scheme, string) op" where
  "create_or_replace_state u now =
     op_bind (op_require (nonblank u) ValueError) (\<lambda>_.
     op_bind draw_text (\<lambda>state. atomically
       (tx_bind (tx_modify (delete_state_of u)) (\<lambda>_.
        tx_bind (tx_get (user_exists u)) (\<lambda>known.
        tx_bind (tx_require known IntegrityError) (\<lambda>_.
        tx_bind (tx_modify (insert_state \<lparr>os_state = state, os_user_id = u, os_created_at = now,
          os_expires_at = now + state_ttl\<rparr>)) (\<lambda>_.
        tx_return state)))))))"

definition state_row :: "string \<Rightarrow> 'm chaster_db_scheme \<Rightarrow> chaster_oauth_state option" where
  "state_row st s = row_by os_state st (chaster_oauth_states s)"

definition delete_state :: "string \<Rightarrow> 'm chaster_db_scheme \<Rightarrow> 'm chaster_db_scheme" where
  "delete_state st s = s\<lparr>chaster_oauth_states :=
     filter (\<lambda>r. os_state r \<noteq> st) (chaster_oauth_states s)\<rparr>"

definition consume_state :: "string \<Rightarrow> time \<Rightarrow> ('m chaster_db_scheme, consume_result) op" where
  "consume_state st now = atomically
     (tx_bind (tx_get (state_row st)) (\<lambda>row.
      case row of
        None \<Rightarrow> tx_return \<lparr>cr_matched = False, cr_expired = False, cr_user_id = None\<rparr>
      | Some r \<Rightarrow>
          tx_bind (tx_modify (delete_state st)) (\<lambda>_.
          tx_return (if os_expires_at r \<le> now
            then \<lparr>cr_matched = True, cr_expired = True, cr_user_id = None\<rparr>
            else \<lparr>cr_matched = True, cr_expired = False, cr_user_id = Some (os_user_id r)\<rparr>))))"

section \<open>The token encryptor\<close>

text \<open>\<open>Fernet.encrypt\<close> takes a fresh nonce; \<open>Fernet.decrypt\<close> returns the text or raises.\<close>

record fernet =
  fn_encrypt :: "nat \<Rightarrow> string \<Rightarrow> string"
  fn_decrypt :: "string \<Rightarrow> string option"

definition encrypt_token :: "fernet \<Rightarrow> wire \<Rightarrow> ('m outbox_db_scheme, string) op" where
  "encrypt_token f w s = (case token_text w of Inl e \<Rightarrow> (Inl e, s)
     | Inr p \<Rightarrow> (Inr (fn_encrypt f (next_id s) p), s\<lparr>next_id := Suc (next_id s)\<rparr>))"

definition decrypt_token :: "fernet \<Rightarrow> string \<Rightarrow> exn + string" where
  "decrypt_token f c = (case fn_decrypt f c of None \<Rightarrow> Inl TokenDecryptionError | Some p \<Rightarrow> Inr p)"

section \<open>Connections\<close>

definition connection_of :: "string \<Rightarrow> 'm chaster_db_scheme \<Rightarrow> chaster_connection option" where
  "connection_of u s = row_by cc_user_id u (chaster_connections s)"

definition account_taken :: "string \<Rightarrow> string \<Rightarrow> 'm chaster_db_scheme \<Rightarrow> bool" where
  \<comment> \<open>another user's row holds this \<open>chaster_account_id\<close> (its UNIQUE constraint)\<close>
  "account_taken u a s \<longleftrightarrow> (\<exists>c \<in> set (chaster_connections s). cc_account_id c = a \<and> cc_user_id c \<noteq> u)"

definition reconnected :: "chaster_connection \<Rightarrow> chaster_connection \<Rightarrow> chaster_connection" where
  \<comment> \<open>\<open>ON CONFLICT(user_id) DO UPDATE SET ... = excluded. ...\<close>\<close>
  "reconnected new old = new\<lparr>cc_user_id := cc_user_id old, cc_created_at := cc_created_at old\<rparr>"

definition upsert_connection :: "chaster_connection \<Rightarrow> 'm chaster_db_scheme \<Rightarrow> 'm chaster_db_scheme" where
  "upsert_connection c s = (case connection_of (cc_user_id c) s of
     None \<Rightarrow> s\<lparr>chaster_connections := chaster_connections s @ [c]\<rparr>
   | Some _ \<Rightarrow> s\<lparr>chaster_connections :=
       update_where (\<lambda>r. cc_user_id r = cc_user_id c) (reconnected c) (chaster_connections s)\<rparr>)"

definition create_or_replace_connection ::
  "fernet \<Rightarrow> string \<Rightarrow> string \<Rightarrow> string option \<Rightarrow> wire \<Rightarrow> wire \<Rightarrow> time \<Rightarrow> time \<Rightarrow> string list \<Rightarrow> time
     \<Rightarrow> ('m chaster_db_scheme, chaster_connection) op" where
  "create_or_replace_connection f u account username access refresh access_expires refresh_expires scopes now =
     op_bind (op_require (nonblank u) ValueError) (\<lambda>_.
     op_bind (op_require (nonblank account) ValueError) (\<lambda>_.
     op_bind (encrypt_token f access) (\<lambda>encrypted_access.
     op_bind (encrypt_token f refresh) (\<lambda>encrypted_refresh. atomically
       (tx_bind (tx_get (\<lambda>s. user_exists u s \<and> \<not> account_taken u account s)) (\<lambda>valid.
        tx_bind (tx_require valid IntegrityError) (\<lambda>_.
        tx_bind (tx_modify (upsert_connection \<lparr>cc_user_id = u, cc_account_id = account, cc_username = username,
          cc_encrypted_access_token = encrypted_access, cc_encrypted_refresh_token = encrypted_refresh,
          cc_encryption_key_version = None, cc_access_token_expires_at = access_expires,
          cc_refresh_token_expires_at = refresh_expires, cc_granted_scopes = scopes, cc_status = CS_ACTIVE,
          cc_created_at = now, cc_updated_at = now\<rparr>)) (\<lambda>_.
        tx_bind (tx_get (connection_of u)) (\<lambda>row. tx_the TypeError row)))))))))"

definition get_connection :: "string \<Rightarrow> ('m chaster_db_scheme, chaster_connection option) op" where
  "get_connection u = op_bind (op_require (nonblank u) ValueError) (\<lambda>_. op_get (connection_of u))"

definition needs_reauthorization :: "time \<Rightarrow> chaster_connection \<Rightarrow> chaster_connection" where
  "needs_reauthorization now c = c\<lparr>cc_status := CS_NEEDS_REAUTHORIZATION, cc_updated_at := now\<rparr>"

definition mark_needs_reauthorization :: "string \<Rightarrow> time \<Rightarrow> ('m chaster_db_scheme, unit) op" where
  "mark_needs_reauthorization u now =
     op_bind (op_require (nonblank u) ValueError) (\<lambda>_. atomically
       (tx_modify (\<lambda>s. s\<lparr>chaster_connections :=
          update_where (\<lambda>c. cc_user_id c = u) (needs_reauthorization now) (chaster_connections s)\<rparr>)))"

definition require_connection :: "string \<Rightarrow> ('m chaster_db_scheme, chaster_connection) op" where
  "require_connection u = op_bind (get_connection u) (\<lambda>row.
     case row of None \<Rightarrow> op_raise LookupError | Some c \<Rightarrow> op_return c)"

definition get_decrypted :: "fernet \<Rightarrow> (chaster_connection \<Rightarrow> string) \<Rightarrow> string \<Rightarrow> time \<Rightarrow> ('m chaster_db_scheme, string) op" where
  "get_decrypted f field u now = op_bind (require_connection u) (\<lambda>c.
     case decrypt_token f (field c) of
       Inl e \<Rightarrow> op_bind (mark_needs_reauthorization u now) (\<lambda>_. op_raise e)
     | Inr p \<Rightarrow> op_return p)"

definition get_decrypted_access_token :: "fernet \<Rightarrow> string \<Rightarrow> time \<Rightarrow> ('m chaster_db_scheme, string) op" where
  "get_decrypted_access_token f u now = get_decrypted f cc_encrypted_access_token u now"

definition get_decrypted_refresh_token :: "fernet \<Rightarrow> string \<Rightarrow> time \<Rightarrow> ('m chaster_db_scheme, string) op" where
  "get_decrypted_refresh_token f u now = get_decrypted f cc_encrypted_refresh_token u now"

definition observed :: "string \<Rightarrow> 'm chaster_db_scheme \<Rightarrow> bool" where
  \<comment> \<open>an observation refers to the connection (foreign key of \<open>chaster_provider_observations\<close>)\<close>
  "observed u s \<longleftrightarrow> (\<exists>o' \<in> set (chaster_provider_observations s). po_connection_id o' = u)"

definition delete_connection :: "string \<Rightarrow> ('m chaster_db_scheme, unit) op" where
  "delete_connection u =
     op_bind (op_require (nonblank u) ValueError) (\<lambda>_. atomically
       (tx_bind (tx_get (observed u)) (\<lambda>refers.
        tx_bind (tx_require (\<not> refers) IntegrityError) (\<lambda>_.
        tx_modify (\<lambda>s. s\<lparr>chaster_connections :=
          filter (\<lambda>c. cc_user_id c \<noteq> u) (chaster_connections s)\<rparr>)))))"

section \<open>Provider observations\<close>

definition observations_of :: "string \<Rightarrow> 'm chaster_db_scheme \<Rightarrow> provider_observation list" where
  "observations_of u s = filter (\<lambda>r. po_connection_id r = u) (chaster_provider_observations s)"

definition last_row :: "'r list \<Rightarrow> 'r option" where
  "last_row rs = (if rs = [] then None else Some (last rs))"

definition latest_observation :: "string \<Rightarrow> 'm chaster_db_scheme \<Rightarrow> provider_observation option" where
  \<comment> \<open>\<open>ORDER BY fetched_at DESC, rowid DESC LIMIT 1\<close>: the last row of the stable ascending order\<close>
  "latest_observation u s = last_row (sort_key (\<lambda>r. iso_rank (po_fetched_at r)) (observations_of u s))"

definition get_latest_observation :: "string \<Rightarrow> ('m chaster_db_scheme, provider_observation option) op" where
  "get_latest_observation u =
     op_bind (op_require (nonblank u) ValueError) (\<lambda>_. op_get (latest_observation u))"

definition record_observation ::
  "string \<Rightarrow> string \<Rightarrow> string option \<Rightarrow> provider_status \<Rightarrow> time \<Rightarrow> time
     \<Rightarrow> ('m chaster_db_scheme, provider_observation) op" where
  "record_observation u provider lock_id status fetched now =
     op_bind (op_require (nonblank u) ValueError) (\<lambda>_.
     op_bind (op_require (nonblank provider) ValueError) (\<lambda>_.
     op_bind draw_text (\<lambda>i.
     (let r = \<lparr>po_id = i, po_connection_id = u, po_provider = provider, po_chaster_lock_id = lock_id,
        po_status = status, po_fetched_at = fetched, po_created_at = now\<rparr>
      in atomically
        (tx_bind (tx_get (\<lambda>s. connection_of u s \<noteq> None)) (\<lambda>known.
         tx_bind (tx_require known IntegrityError) (\<lambda>_.
         tx_bind (tx_modify (\<lambda>s. s\<lparr>chaster_provider_observations := chaster_provider_observations s @ [r]\<rparr>)) (\<lambda>_.
         tx_return r))))))))"

end
