(* ===== verification/App_State.thy ===== *)
theory App_State
  imports User_Facts
begin

text \<open>
  The invariants of the rest of the system read nothing of the user-facing tables, so the
  operations on those tables keep them; together with \<open>User_Facts\<close> this gives the invariant of
  the whole application.
\<close>

section \<open>The system invariant does not read the user tables\<close>

lemma run_ok_core:
  fixes s :: "'m mode_db_scheme" and s' :: "'n mode_db_scheme"
  assumes eq: "mode_db.truncate s' = mode_db.truncate s"
  shows "run_ok s' = run_ok s"
proof (cases s rule: mode_db.cases_scheme)
  case s: fields
  show ?thesis
  proof (cases s' rule: mode_db.cases_scheme)
    case s': fields
    note f = eq [unfolded s s' mode_db.defs, simplified]
    have out: "outbox_ok s' = outbox_ok s"
      unfolding s s' outbox_ok_def by (simp add: f)
    have trust: "trust_inv s' = trust_inv s"
      unfolding s s' trust_inv_def trust_ok_defs audit_ok_def get_domain_state_def recalculations_for_def
      by (simp add: f)
    have penalty: "penalty_ok s' = penalty_ok s"
      unfolding s s' penalty_ok_defs by (simp add: f)
    have recovery: "recovery_ok s' = recovery_ok s"
      unfolding s s' recovery_ok_defs by (simp add: f)
    have goal: "goal_ok s' = goal_ok s"
      unfolding s s' goal_ok_def by (simp add: f)
    have mode: "mode_ok s' = mode_ok s"
      unfolding s s' mode_ok_def by (simp add: f)
    have windows: "has_window k s' = has_window k s" "has_plan k s' = has_plan k s"
      "confirmed_incident k s' = confirmed_incident k s" "consumed k s' = consumed k s" for k
      unfolding s s' has_window_def has_plan_def confirmed_incident_def consumed_def window_by_id_def
        get_recovery_plan_for_window_def
      by (simp_all add: f)
    have rows: "domain_events s' = domain_events s" "event_consumers s' = event_consumers s"
      unfolding s s' by (simp_all add: f)
    have promise: "plan_promise s' = plan_promise s" "incident_promise s' = incident_promise s"
      unfolding plan_promise_def incident_promise_def delivered_def owed_def acted_on_def out windows rows
      by simp_all
    show ?thesis unfolding run_ok_def system_ok_def out trust penalty recovery goal mode promise ..
  qed
qed


lemma run_ok_next_id:
  assumes "run_ok s" and "next_id s \<le> k"
  shows "run_ok (s\<lparr>next_id := k\<rparr>)"
proof -
  have step: "run_ok (t\<lparr>next_id := Suc (next_id t)\<rparr>)" if t: "run_ok t" for t :: "'a mode_db_scheme"
  proof -
    note run = new_id_def [of t]
    note ok = run_okD [OF t]
    show ?thesis
      using keepsD [OF outbox_mode.new_id ok(4) run] keepsD [OF trust_mode.new_id ok(5) run]
        keepsD [OF penalty_mode.new_id ok(6) run] keepsD [OF recovery_mode.new_id ok(7) run]
        keepsD [OF goal_mode.new_id ok(8) run] keepsD [OF mode_below_goal.new_id ok(9) run]
        keepsD [OF plan_mode.new_id ok(2) run] keepsD [OF incident_mode.new_id ok(3) run]
      by (simp add: run_ok_def system_ok_def)
  qed
  have "run_ok (s\<lparr>next_id := next_id s + n\<rparr>)" for n
  proof (induction n)
    case 0
    then show ?case using assms(1) by simp
  next
    case (Suc n)
    from step [OF this] show ?case by simp
  qed
  from this [of "k - next_id s"] show ?thesis using assms(2) by simp
qed

definition same_core :: "'m mode_db_scheme \<Rightarrow> 'm mode_db_scheme \<Rightarrow> bool" where
  \<comment> \<open>\<open>s'\<close> differs from \<open>s\<close> in the user-facing tables and in ids drawn for them\<close>
  "same_core s s' \<longleftrightarrow> next_id s \<le> next_id s' \<and>
     mode_db.truncate s' = mode_db.truncate (s\<lparr>next_id := next_id s'\<rparr>)"

lemma run_ok_same_core: "run_ok s \<Longrightarrow> same_core s s' \<Longrightarrow> run_ok s'"
  unfolding same_core_def using run_ok_next_id run_ok_core by blast

lemma same_core_refl [simp]: "same_core s s"
  by (simp add: same_core_def)

lemma core_get_or_create_user:
  assumes "accounts_ok s"
  shows "same_core s (snd (get_or_create_user channel ext now s))"
proof (cases "identity_row channel ext s")
  case None
  then show ?thesis
    by (simp add: get_or_create_user_unknown same_core_def mode_db.defs with_new_account_def insert_account_def
        insert_identity_def)
next
  case (Some c)
  obtain a where "account_by_id (ci_user_account_id c) s = Some a"
    using known_identity_has_account [OF assms Some] .
  then show ?thesis using Some
    by (simp add: get_or_create_user_known same_core_def mode_db.defs touch_account_def)
qed

lemma core_get_or_create_preferences: "same_core s (snd (get_or_create_preferences u now s))"
  by (simp add: get_or_create_preferences_eq same_core_def mode_db.defs split: option.split)

lemma core_process_message:
  assumes "preferences_ok s" and "preferences_of (up_user_id p) s = Some r"
  shows "same_core s (snd (process_message p t now s))"
  by (auto simp: process_message_eq [OF assms] same_core_def mode_db.defs stepped_def
      split: sum.split option.split)

lemma core_report_status: "same_core s (snd (report_status u status consent now s))"
  by (simp add: report_status_eq same_core_def mode_db.defs insert_report_def)

lemma core_assign_task: "catalog_ok s \<Longrightarrow> same_core s (snd (assign_task u t k consent now s))"
  by (simp add: assign_task_eq same_core_def mode_db.defs assigned_def Let_def split: option.split)

lemma core_resolve: "same_core s (snd (resolve_assignment i target consent now s))"
  by (simp add: resolve_assignment_eq same_core_def mode_db.defs with_resolved_def split: option.split)

section \<open>The invariant of the application\<close>

definition app_ok :: "'m runtime_db_scheme \<Rightarrow> bool" where
  "app_ok s \<longleftrightarrow> run_ok s \<and> user_side_ok s"

lemma app_okD:
  assumes "app_ok s"
  shows "run_ok s" and "user_side_ok s"
  using assms by (simp_all add: app_ok_def)

lemma app_user_op:
  assumes "app_ok s" and "same_core s s'" and "user_side_ok s'"
  shows "app_ok s'"
  unfolding app_ok_def using run_ok_same_core [OF app_okD(1) [OF assms(1)] assms(2)] assms(3) ..

lemma app_system_op:
  assumes "op_keeps run_ok f" and "op_keeps user_side_ok f"
  shows "op_keeps app_ok f"
  using assms by (simp add: op_keeps_def app_ok_def)

lemma app_get_or_create_user: "op_keeps app_ok (get_or_create_user channel ext now)"
  by (rule op_keepsI, rule app_user_op, assumption, rule core_get_or_create_user)
    (auto dest: app_okD user_side_okD intro: op_keepsD [OF side_get_or_create_user])

lemma app_get_or_create_preferences: "op_keeps app_ok (get_or_create_preferences u now)"
  by (rule op_keepsI, rule app_user_op, assumption, rule core_get_or_create_preferences)
    (rule op_keepsD [OF side_get_or_create_preferences], rule app_okD)

lemma app_report_status: "op_keeps app_ok (report_status u status consent now)"
  by (rule op_keepsI, rule app_user_op, assumption, rule core_report_status)
    (rule op_keepsD [OF side_report_status], rule app_okD)

lemma app_assign_task: "op_keeps app_ok (assign_task u t k consent now)"
  by (rule op_keepsI, rule app_user_op, assumption, rule core_assign_task)
    (auto dest: app_okD user_side_okD intro: op_keepsD [OF side_assign_task])

lemma app_resolve: "target \<noteq> TA_ACTIVE \<Longrightarrow> op_keeps app_ok (resolve_assignment i target consent now)"
  by (rule op_keepsI, rule app_user_op, assumption, rule core_resolve)
    (rule op_keepsD [OF side_resolve], assumption, rule app_okD)

lemma app_process_message:
  assumes ok: "app_ok s" and r: "preferences_of (up_user_id p) s = Some r" and "snapshot_of p r"
  shows "app_ok (snd (process_message p t now s))"
proof -
  have p: "preferences_ok s" using app_okD(2) [OF ok] by (rule user_side_okD)
  show ?thesis
    by (rule app_user_op [OF ok core_process_message [OF p r]])
      (rule side_process_message [OF app_okD(2) [OF ok] r assms(3)])
qed

end
