(* ===== verification/Chaster_Facts.thy ===== *)
theory Chaster_Facts
  imports Chaster_Store App_State
begin

text \<open>
  Closed forms of the Chaster repositories, their invariant, and that every operation keeps it
  together with the invariant of the rest of the application.
\<close>

section \<open>The invariant\<close>

definition states_ok :: "'m chaster_db_scheme \<Rightarrow> bool" where
  "states_ok s \<longleftrightarrow> distinct (map os_state (chaster_oauth_states s)) \<and>
     distinct (map os_user_id (chaster_oauth_states s)) \<and>
     (\<forall>r \<in> set (chaster_oauth_states s). user_exists (os_user_id r) s \<and> drawn (os_state r) s)"

definition connections_ok :: "'m chaster_db_scheme \<Rightarrow> bool" where
  "connections_ok s \<longleftrightarrow> distinct (map cc_user_id (chaster_connections s)) \<and>
     distinct (map cc_account_id (chaster_connections s)) \<and>
     (\<forall>c \<in> set (chaster_connections s). user_exists (cc_user_id c) s \<and> nonblank (cc_user_id c) \<and>
        nonblank (cc_account_id c))"

definition observations_ok :: "'m chaster_db_scheme \<Rightarrow> bool" where
  "observations_ok s \<longleftrightarrow> distinct (map po_id (chaster_provider_observations s)) \<and>
     (\<forall>r \<in> set (chaster_provider_observations s). drawn (po_id r) s \<and> nonblank (po_provider r) \<and>
        connection_of (po_connection_id r) s \<noteq> None)"

definition chaster_ok :: "'m chaster_db_scheme \<Rightarrow> bool" where
  "chaster_ok s \<longleftrightarrow> states_ok s \<and> connections_ok s \<and> observations_ok s"

definition chaster_part ::
  "'m chaster_db_scheme \<Rightarrow> chaster_oauth_state list \<times> chaster_connection list \<times> provider_observation list" where
  "chaster_part s = (chaster_oauth_states s, chaster_connections s, chaster_provider_observations s)"

interpretation chaster_tables: user_table chaster_ok chaster_part
proof (unfold_locales)
  fix s s' :: "'m chaster_db_scheme"
  assume ok: "chaster_ok s" and g: "grown s s'" and same: "chaster_part s' = chaster_part s"
  have c: "connection_of u s' = connection_of u s" for u
    using same by (simp add: connection_of_def chaster_part_def)
  show "chaster_ok s'" using ok same grown_user [OF g] grown_drawn [OF g]
    by (auto simp: chaster_ok_def states_ok_def connections_ok_def observations_ok_def c chaster_part_def)
qed

section \<open>Closed forms\<close>

definition pending :: "string \<Rightarrow> time \<Rightarrow> 'm chaster_db_scheme \<Rightarrow> chaster_oauth_state" where
  "pending u now s = \<lparr>os_state = uuid_text (next_id s), os_user_id = u, os_created_at = now,
     os_expires_at = now + state_ttl\<rparr>"

definition with_state :: "chaster_oauth_state \<Rightarrow> 'm chaster_db_scheme \<Rightarrow> 'm chaster_db_scheme" where
  "with_state r s = s\<lparr>next_id := Suc (next_id s),
     chaster_oauth_states := filter (\<lambda>q. os_user_id q \<noteq> os_user_id r) (chaster_oauth_states s) @ [r]\<rparr>"

lemma user_exists_rows [simp]:
  "user_exists u (s\<lparr>chaster_oauth_states := a\<rparr>) = user_exists u s"
  "user_exists u (s\<lparr>chaster_connections := b\<rparr>) = user_exists u s"
  "user_exists u (s\<lparr>chaster_provider_observations := d\<rparr>) = user_exists u s"
  "user_exists u (s\<lparr>next_id := k\<rparr>) = user_exists u s"
  by (simp_all add: user_exists_def account_by_id_def)

lemma create_or_replace_state_eq:
  "create_or_replace_state u now s =
    (if \<not> nonblank u then (Inl ValueError, s)
     else if \<not> user_exists u s then (Inl IntegrityError, s\<lparr>next_id := Suc (next_id s)\<rparr>)
     else (Inr (uuid_text (next_id s)), with_state (pending u now s) s))"
  by (simp add: create_or_replace_state_def op_bind_def op_require_def op_return_def op_raise_def draw_text_def
      atomically_def tx_bind_def tx_simps delete_state_of_def insert_state_def with_state_def pending_def)

definition consume_reply :: "time \<Rightarrow> chaster_oauth_state \<Rightarrow> consume_result" where
  "consume_reply now r = (if os_expires_at r \<le> now
     then \<lparr>cr_matched = True, cr_expired = True, cr_user_id = None\<rparr>
     else \<lparr>cr_matched = True, cr_expired = False, cr_user_id = Some (os_user_id r)\<rparr>)"

lemma consume_state_eq:
  "consume_state st now s = (case state_row st s of
     None \<Rightarrow> (Inr \<lparr>cr_matched = False, cr_expired = False, cr_user_id = None\<rparr>, s)
   | Some r \<Rightarrow> (Inr (consume_reply now r), delete_state st s))"
  by (simp add: consume_state_def atomically_def tx_bind_def tx_simps consume_reply_def split: option.split)

definition connection_row ::
  "fernet \<Rightarrow> string \<Rightarrow> string \<Rightarrow> string option \<Rightarrow> string \<Rightarrow> string \<Rightarrow> time \<Rightarrow> time \<Rightarrow> string list \<Rightarrow> time
     \<Rightarrow> uid \<Rightarrow> chaster_connection" where
  "connection_row f u account username access refresh ae re scopes now n =
     \<lparr>cc_user_id = u, cc_account_id = account, cc_username = username,
      cc_encrypted_access_token = fn_encrypt f n access, cc_encrypted_refresh_token = fn_encrypt f (Suc n) refresh,
      cc_encryption_key_version = None, cc_access_token_expires_at = ae, cc_refresh_token_expires_at = re,
      cc_granted_scopes = scopes, cc_status = CS_ACTIVE, cc_created_at = now, cc_updated_at = now\<rparr>"

definition stored_row :: "chaster_connection \<Rightarrow> 'm chaster_db_scheme \<Rightarrow> chaster_connection" where
  "stored_row c s = (case connection_of (cc_user_id c) s of None \<Rightarrow> c | Some old \<Rightarrow> reconnected c old)"

lemma connection_of_upsert:
  "connection_of v (upsert_connection c s) = (if v = cc_user_id c then Some (stored_row c s) else connection_of v s)"
proof (cases "connection_of (cc_user_id c) s")
  case None
  then show ?thesis
    by (auto simp: upsert_connection_def stored_row_def connection_of_def row_by_append split: option.split)
next
  case (Some old)
  have "connection_of v (upsert_connection c s)
      = map_option (\<lambda>r. if cc_user_id r = cc_user_id c then reconnected c r else r) (connection_of v s)"
    using Some by (simp add: upsert_connection_def connection_of_def row_by_update_where reconnected_def)
  then show ?thesis using Some
    by (cases "connection_of v s") (auto simp: stored_row_def connection_of_def dest: row_by_SomeD)
qed

lemma create_or_replace_connection_eq:
  "create_or_replace_connection f u account username access refresh ae re scopes now s =
    (if \<not> nonblank u \<or> \<not> nonblank account then (Inl ValueError, s)
     else case token_text access of Inl e \<Rightarrow> (Inl e, s) | Inr a \<Rightarrow>
       (case token_text refresh of Inl e \<Rightarrow> (Inl e, s\<lparr>next_id := Suc (next_id s)\<rparr>) | Inr r \<Rightarrow>
         let s1 = s\<lparr>next_id := Suc (Suc (next_id s))\<rparr>;
             c = connection_row f u account username a r ae re scopes now (next_id s) in
         if \<not> user_exists u s \<or> account_taken u account s then (Inl IntegrityError, s1)
         else (Inr (stored_row c s1), upsert_connection c s1)))"
proof -
  have "account_taken u account (s\<lparr>next_id := k\<rparr>) = account_taken u account s" for k
    by (simp add: account_taken_def)
  moreover have "connection_of u (upsert_connection c t) = Some (stored_row c t)"
      if "cc_user_id c = u" for c and t :: "'a chaster_db_scheme"
    using that by (simp add: connection_of_upsert)
  ultimately show ?thesis
    by (simp add: create_or_replace_connection_def op_bind_def op_require_def op_return_def op_raise_def
        encrypt_token_def atomically_def tx_bind_def tx_simps connection_row_def Let_def split: sum.split)
qed

lemma mark_needs_reauthorization_eq:
  "mark_needs_reauthorization u now s =
    (if \<not> nonblank u then (Inl ValueError, s)
     else (Inr (), s\<lparr>chaster_connections :=
       update_where (\<lambda>c. cc_user_id c = u) (needs_reauthorization now) (chaster_connections s)\<rparr>))"
  by (simp add: mark_needs_reauthorization_def op_bind_def op_require_def op_return_def op_raise_def
      atomically_def tx_simps)

lemma get_connection_eq:
  "get_connection u s = (if \<not> nonblank u then (Inl ValueError, s) else (Inr (connection_of u s), s))"
  by (simp add: get_connection_def op_bind_def op_require_def op_return_def op_raise_def op_get_def)

lemma get_decrypted_eq:
  "get_decrypted f field u now s =
    (if \<not> nonblank u then (Inl ValueError, s)
     else case connection_of u s of None \<Rightarrow> (Inl LookupError, s)
     | Some c \<Rightarrow> (case fn_decrypt f (field c) of Some p \<Rightarrow> (Inr p, s)
        | None \<Rightarrow> (Inl TokenDecryptionError, snd (mark_needs_reauthorization u now s))))"
  by (simp add: get_decrypted_def require_connection_def op_bind_def op_return_def op_raise_def
      get_connection_eq decrypt_token_def mark_needs_reauthorization_eq split: option.split)

lemma delete_connection_eq:
  "delete_connection u s =
    (if \<not> nonblank u then (Inl ValueError, s)
     else if observed u s then (Inl IntegrityError, s)
     else (Inr (), s\<lparr>chaster_connections := filter (\<lambda>c. cc_user_id c \<noteq> u) (chaster_connections s)\<rparr>))"
  by (simp add: delete_connection_def op_bind_def op_require_def op_return_def op_raise_def
      atomically_def tx_bind_def tx_simps)

lemma get_latest_observation_eq:
  "get_latest_observation u s = (if \<not> nonblank u then (Inl ValueError, s) else (Inr (latest_observation u s), s))"
  by (simp add: get_latest_observation_def op_bind_def op_require_def op_return_def op_raise_def op_get_def)

definition observation_row ::
  "string \<Rightarrow> string \<Rightarrow> string option \<Rightarrow> provider_status \<Rightarrow> time \<Rightarrow> time \<Rightarrow> uid \<Rightarrow> provider_observation" where
  "observation_row u provider lock_id status fetched now n = \<lparr>po_id = uuid_text n, po_connection_id = u,
     po_provider = provider, po_chaster_lock_id = lock_id, po_status = status, po_fetched_at = fetched,
     po_created_at = now\<rparr>"

lemma record_observation_eq:
  "record_observation u provider lock_id status fetched now s =
    (if \<not> nonblank u \<or> \<not> nonblank provider then (Inl ValueError, s)
     else let r = observation_row u provider lock_id status fetched now (next_id s);
              s1 = s\<lparr>next_id := Suc (next_id s)\<rparr> in
       if connection_of u s = None then (Inl IntegrityError, s1)
       else (Inr r, s1\<lparr>chaster_provider_observations := chaster_provider_observations s @ [r]\<rparr>))"
proof -
  have "connection_of u (s\<lparr>next_id := k\<rparr>) = connection_of u s" for k by (simp add: connection_of_def)
  then show ?thesis
    by (simp add: record_observation_def op_bind_def op_require_def op_return_def op_raise_def draw_text_def
        atomically_def tx_bind_def tx_simps observation_row_def Let_def)
qed

section \<open>The invariant is kept\<close>

lemma drawn_next: "drawn i s \<Longrightarrow> next_id s \<le> k \<Longrightarrow> drawn i (s\<lparr>next_id := k\<rparr>)"
  by (erule drawn_later) simp

lemma chaster_ok_next_id: "chaster_ok s \<Longrightarrow> next_id s \<le> k \<Longrightarrow> chaster_ok (s\<lparr>next_id := k\<rparr>)"
  by (rule chaster_tables.frame [of s])
    (auto simp: grown_def chaster_part_def version_row_def)

lemma chaster_ok_with_state:
  assumes ok: "chaster_ok s" and u: "user_exists u s"
  shows "chaster_ok (with_state (pending u now s) s)" (is "chaster_ok ?s")
proof -
  have d: "drawn i ?s" if "drawn i s" for i
    using that by (rule drawn_later) (simp add: with_state_def)
  have new: "drawn (uuid_text (next_id s)) ?s" by (simp add: drawn_new with_state_def)
  have fresh: "uuid_text (next_id s) \<notin> os_state ` set (chaster_oauth_states s)"
    using ok by (auto simp: chaster_ok_def states_ok_def drawn_def)
  have exists: "user_exists v ?s = user_exists v s" for v
    by (simp add: with_state_def user_exists_def account_by_id_def)
  let ?kept = "filter (\<lambda>q. os_user_id q \<noteq> u) (chaster_oauth_states s)"
  have rows: "chaster_oauth_states ?s = ?kept @ [pending u now s]"
    by (simp add: with_state_def pending_def)
  have p: "os_user_id (pending u now s) = u" "os_state (pending u now s) = uuid_text (next_id s)"
    by (simp_all add: pending_def)
  have "states_ok ?s" using ok u d new fresh unfolding states_ok_def rows exists
    by (auto simp: chaster_ok_def states_ok_def p distinct_map_filter)
  moreover have "connections_ok ?s" using ok
    by (auto simp: chaster_ok_def connections_ok_def exists) (simp_all add: with_state_def)
  moreover have "observations_ok ?s" using ok d
    by (auto simp: chaster_ok_def observations_ok_def) (simp_all add: with_state_def connection_of_def)
  ultimately show ?thesis by (simp add: chaster_ok_def)
qed

lemma chaster_ok_delete_state: "chaster_ok s \<Longrightarrow> chaster_ok (delete_state st s)"
  by (auto simp: chaster_ok_def states_ok_def connections_ok_def observations_ok_def delete_state_def
      distinct_map_filter connection_of_def drawn_def)

lemma distinct_update_one:
  assumes "distinct (map key rs)" "distinct (map owner rs)" and f: "\<And>r. key (f r) = k"
    and "\<forall>r \<in> set rs. key r = k \<longrightarrow> owner r = u"
  shows "distinct (map key (update_where (\<lambda>r. owner r = u) f rs))"
  using assms(1,2,4)
proof (induction rs)
  case (Cons r rs)
  show ?case
  proof (cases "owner r = u")
    case True
    then have "update_where (\<lambda>r. owner r = u) f rs = rs"
      using Cons.prems(2) by (intro update_where_id) (metis distinct.simps(2) image_eqI list.simps(9) set_map)
    moreover have "key x \<noteq> k" if "x \<in> set rs" for x
    proof
      assume "key x = k"
      then have "owner x = owner r" using Cons.prems(3) that True by simp
      then show False using Cons.prems(2) that by (metis distinct.simps(2) image_eqI list.simps(9) set_map)
    qed
    ultimately show ?thesis using True Cons.prems(1) f by auto
  next
    case False
    then have "key x \<noteq> key r" if "x \<in> set (update_where (\<lambda>r. owner r = u) f rs)" for x
      using that Cons.prems f by (auto simp: set_update_where) (metis rev_image_eqI)
    then have "key r \<notin> key ` set (update_where (\<lambda>r. owner r = u) f rs)" by (metis imageE)
    then show ?thesis using False Cons by simp
  qed
qed simp

lemma upsert_new: "connection_of (cc_user_id c) s = None \<Longrightarrow>
    upsert_connection c s = s\<lparr>chaster_connections := chaster_connections s @ [c]\<rparr>"
  by (simp add: upsert_connection_def)

lemma upsert_again: "connection_of (cc_user_id c) s = Some old \<Longrightarrow>
    upsert_connection c s = s\<lparr>chaster_connections :=
      update_where (\<lambda>r. cc_user_id r = cc_user_id c) (reconnected c) (chaster_connections s)\<rparr>"
  by (simp add: upsert_connection_def)

lemma connections_ok_upsert:
  assumes ok: "connections_ok s" and u: "user_exists (cc_user_id c) s" "nonblank (cc_user_id c)" "nonblank (cc_account_id c)"
    and free: "\<not> account_taken (cc_user_id c) (cc_account_id c) s"
  shows "connections_ok (upsert_connection c s)"
proof (cases "connection_of (cc_user_id c) s")
  case None
  then have users: "\<forall>r \<in> set (chaster_connections s). cc_user_id r \<noteq> cc_user_id c"
    by (simp add: connection_of_def row_by_None)
  then have "cc_user_id c \<notin> cc_user_id ` set (chaster_connections s)"
    "cc_account_id c \<notin> cc_account_id ` set (chaster_connections s)"
    using free by (auto simp: account_taken_def)
  then show ?thesis using ok u unfolding upsert_new [OF None]
    by (auto simp: connections_ok_def)
next
  case (Some old)
  let ?rows = "update_where (\<lambda>r. cc_user_id r = cc_user_id c) (reconnected c) (chaster_connections s)"
  have "map cc_user_id ?rows = map cc_user_id (chaster_connections s)"
    by (rule map_update_where) (simp add: reconnected_def)
  moreover have "distinct (map cc_account_id ?rows)"
    using ok free by (intro distinct_update_one [where k = "cc_account_id c"])
      (auto simp: connections_ok_def account_taken_def reconnected_def)
  moreover have "user_exists (cc_user_id r) s \<and> nonblank (cc_user_id r) \<and> nonblank (cc_account_id r)"
      if "r \<in> set ?rows" for r
    using that ok u by (auto simp: set_update_where connections_ok_def reconnected_def)
  ultimately show ?thesis using ok unfolding upsert_again [OF Some]
    by (simp add: connections_ok_def)
qed

lemma upsert_frame [simp]:
  "chaster_oauth_states (upsert_connection c s) = chaster_oauth_states s"
  "chaster_provider_observations (upsert_connection c s) = chaster_provider_observations s"
  "next_id (upsert_connection c s) = next_id s" "user_exists u (upsert_connection c s) = user_exists u s"
  by (simp_all add: upsert_connection_def split: option.split)

lemma drawn_cong: "next_id s' = next_id s \<Longrightarrow> drawn i s' = drawn i s"
  by (simp add: drawn_def)

lemma chaster_ok_upsert:
  assumes ok: "chaster_ok s" and u: "user_exists (cc_user_id c) s" "nonblank (cc_user_id c)" "nonblank (cc_account_id c)"
    and free: "\<not> account_taken (cc_user_id c) (cc_account_id c) s"
  shows "chaster_ok (upsert_connection c s)"
proof -
  have d: "drawn i (upsert_connection c s) = drawn i s" for i by (rule drawn_cong) simp
  show ?thesis using ok connections_ok_upsert [OF _ u free]
    by (auto simp: chaster_ok_def states_ok_def observations_ok_def connection_of_upsert d)
qed

lemma chaster_ok_needs_reauthorization:
  assumes ok: "chaster_ok s"
  shows "chaster_ok (s\<lparr>chaster_connections :=
    update_where (\<lambda>c. cc_user_id c = u) (needs_reauthorization now) (chaster_connections s)\<rparr>)"
proof -
  let ?rows = "update_where (\<lambda>c. cc_user_id c = u) (needs_reauthorization now) (chaster_connections s)"
  have keys: "map cc_user_id ?rows = map cc_user_id (chaster_connections s)"
    "map cc_account_id ?rows = map cc_account_id (chaster_connections s)"
    by (rule map_update_where, simp add: needs_reauthorization_def)+
  have "row_by cc_user_id v ?rows = map_option (\<lambda>r. if cc_user_id r = u then needs_reauthorization now r else r)
      (row_by cc_user_id v (chaster_connections s))" for v
    by (rule row_by_update_where) (simp add: needs_reauthorization_def)
  then show ?thesis using ok keys
    by (auto simp: chaster_ok_def states_ok_def connections_ok_def observations_ok_def connection_of_def drawn_def
        set_update_where needs_reauthorization_def)
qed

lemma chaster_ok_observation:
  assumes ok: "chaster_ok s" and c: "connection_of u s \<noteq> None" and p: "nonblank provider"
  shows "chaster_ok (s\<lparr>next_id := Suc (next_id s), chaster_provider_observations :=
    chaster_provider_observations s @ [observation_row u provider lock_id status fetched now (next_id s)]\<rparr>)"
proof -
  have "uuid_text (next_id s) \<notin> po_id ` set (chaster_provider_observations s)"
    using ok by (auto simp: chaster_ok_def observations_ok_def drawn_def)
  moreover have "drawn i s \<Longrightarrow> drawn i (s\<lparr>next_id := Suc (next_id s), chaster_provider_observations := x\<rparr>)" for i x
    by (erule drawn_later) simp
  moreover have "drawn (uuid_text (next_id s)) (s\<lparr>next_id := Suc (next_id s), chaster_provider_observations := x\<rparr>)" for x
    by (simp add: drawn_new)
  ultimately show ?thesis using ok c p
    by (auto simp: chaster_ok_def states_ok_def connections_ok_def observations_ok_def connection_of_def
        observation_row_def)
qed

lemma chaster_ok_delete_connection:
  assumes ok: "chaster_ok s" and none: "\<not> observed u s"
  shows "chaster_ok (s\<lparr>chaster_connections := filter (\<lambda>c. cc_user_id c \<noteq> u) (chaster_connections s)\<rparr>)"
proof -
  have "row_by cc_user_id v (filter (\<lambda>c. cc_user_id c \<noteq> u) rs) = row_by cc_user_id v rs" if "v \<noteq> u"
      for v and rs :: "chaster_connection list"
    using that by (induction rs) auto
  then show ?thesis using ok none
    by (auto simp: chaster_ok_def states_ok_def connections_ok_def observations_ok_def connection_of_def drawn_def
        distinct_map_filter observed_def)
qed

lemma op_keeps_create_or_replace_state: "op_keeps chaster_ok (create_or_replace_state u now)"
  by (rule op_keepsI) (simp add: create_or_replace_state_eq chaster_ok_with_state chaster_ok_next_id)

lemma op_keeps_consume_state: "op_keeps chaster_ok (consume_state st now)"
  by (rule op_keepsI) (simp add: consume_state_eq chaster_ok_delete_state split: option.split)

lemma op_keeps_create_or_replace_connection:
  "op_keeps chaster_ok (create_or_replace_connection f u account username access refresh ae re scopes now)"
proof (rule op_keepsI)
  fix s :: "'a chaster_db_scheme" assume ok: "chaster_ok s"
  let ?s = "s\<lparr>next_id := Suc (Suc (next_id s))\<rparr>"
  let ?c = "\<lambda>a r. connection_row f u account username a r ae re scopes now (next_id s)"
  have s: "chaster_ok ?s" by (rule chaster_ok_next_id [OF ok]) simp
  have c: "cc_user_id (?c a r) = u" "cc_account_id (?c a r) = account" for a r
    by (simp_all add: connection_row_def)
  have t: "account_taken u account ?s = account_taken u account s" by (simp add: account_taken_def)
  have up: "chaster_ok (upsert_connection (?c a r) ?s)"
    if "user_exists u s" "nonblank u" "nonblank account" "\<not> account_taken u account s" for a r
    using chaster_ok_upsert [OF s, of "?c a r"] that unfolding c t by simp
  show "chaster_ok (snd (create_or_replace_connection f u account username access refresh ae re scopes now s))"
    using ok s up chaster_ok_next_id [OF ok, of "Suc (next_id s)"]
    by (simp add: create_or_replace_connection_eq Let_def split: sum.split)
qed

lemma op_keeps_mark_needs_reauthorization: "op_keeps chaster_ok (mark_needs_reauthorization u now)"
  by (rule op_keepsI) (simp add: mark_needs_reauthorization_eq chaster_ok_needs_reauthorization)

lemma op_keeps_get_decrypted: "op_keeps chaster_ok (get_decrypted f field u now)"
  by (rule op_keepsI)
    (simp add: get_decrypted_eq op_keepsD [OF op_keeps_mark_needs_reauthorization] split: option.split)

lemma op_keeps_record_observation: "op_keeps chaster_ok (record_observation u provider lock_id status fetched now)"
  by (rule op_keepsI)
    (simp add: record_observation_eq Let_def chaster_ok_observation chaster_ok_next_id)

lemma op_keeps_delete_connection: "op_keeps chaster_ok (delete_connection u)"
  by (rule op_keepsI) (simp add: delete_connection_eq chaster_ok_delete_connection)

lemma op_keeps_reads [keeps_intros]:
  "op_keeps I (get_connection u)" "op_keeps I (get_latest_observation u)"
  by (simp_all add: op_keeps_def get_connection_eq get_latest_observation_eq)

end
