(* ===== verification/Chaster_Clients.thy ===== *)
theory Chaster_Clients
  imports Chaster_Wire
begin

text \<open>
  \<open>chaster/oauth_client.py\<close> and \<open>chaster/lock_client.py\<close>: each call checks its argument, sends
  one request and turns the reply into a value or into the one exception its callers expect.
\<close>

section \<open>ChasterOAuthClient\<close>

record oauth_client =
  oc_client_id :: string
  oc_client_secret :: string
  oc_redirect_uri :: string

definition new_oauth_client :: "string \<Rightarrow> string \<Rightarrow> string \<Rightarrow> exn + oauth_client" where
  "new_oauth_client i secret uri =
     (if \<not> nonblank i \<or> \<not> nonblank secret \<or> \<not> nonblank uri then Inl ValueError
      else Inr \<lparr>oc_client_id = i, oc_client_secret = secret, oc_redirect_uri = uri\<rparr>)"

record token_response =
  tr_access_token :: wire
  tr_refresh_token :: wire
  tr_expires_in :: int
  tr_refresh_expires_in :: int
  tr_granted_scopes :: "string list"

definition authorization_url :: string where
  "authorization_url = ''https://sso.chaster.app/auth/realms/app/protocol/openid-connect/auth''"

definition token_url :: string where
  "token_url = ''https://sso.chaster.app/auth/realms/app/protocol/openid-connect/token''"

fun spaced :: "string list \<Rightarrow> string" where
  \<comment> \<open>\<open>" ".join(scopes)\<close>\<close>
  "spaced [] = []"
| "spaced [x] = x"
| "spaced (x # xs) = x @ '' '' @ spaced xs"

definition build_authorization_url :: "oauth_client \<Rightarrow> string \<Rightarrow> string list \<Rightarrow> exn + string" where
  "build_authorization_url c state scopes =
     (if \<not> nonblank state then Inl ValueError
      else Inr (authorization_url @ ''?'' @ urlencode
        [(''client_id'', oc_client_id c), (''redirect_uri'', oc_redirect_uri c), (''response_type'', ''code''),
         (''scope'', spaced scopes), (''state'', state)]))"

definition parse_tokens :: "wire \<Rightarrow> exn + token_response" where
  "parse_tokens body =
     res_bind (wire_item body ''access_token'') (\<lambda>access.
     res_bind (wire_item body ''refresh_token'') (\<lambda>refresh.
     res_bind (res_bind (wire_item body ''expires_in'') wire_int) (\<lambda>expires.
     res_bind (res_bind (wire_item body ''refresh_expires_in'') wire_int) (\<lambda>refresh_expires.
     res_bind (res_bind (wire_get body ''scope'' (WStr '''')) wire_split) (\<lambda>scopes.
     Inr \<lparr>tr_access_token = access, tr_refresh_token = refresh, tr_expires_in = expires,
       tr_refresh_expires_in = refresh_expires, tr_granted_scopes = scopes\<rparr>)))))"

fun unparsable :: "exn \<Rightarrow> exn" where
  \<comment> \<open>\<open>except (ValueError, KeyError, TypeError) as exc: raise ChasterTokenExchangeError\<close>\<close>
  "unparsable ValueError = ChasterTokenExchangeError"
| "unparsable (KeyError k) = ChasterTokenExchangeError"
| "unparsable TypeError = ChasterTokenExchangeError"
| "unparsable e = e"

definition token_reply :: "http_result \<Rightarrow> exn + token_response" where
  "token_reply r = (case r of
     HTTP_FAILED \<Rightarrow> Inl ChasterTokenExchangeError
   | HTTP_REPLY status body \<Rightarrow>
       if status \<noteq> 200 then Inl ChasterTokenExchangeError
       else (case body of None \<Rightarrow> Inl ChasterTokenExchangeError
         | Some b \<Rightarrow> (case parse_tokens b of Inl e \<Rightarrow> Inl (unparsable e) | Inr t \<Rightarrow> Inr t)))"

definition token_request :: "(string \<times> string) list \<Rightarrow> http_request" where
  "token_request form = \<lparr>rq_method = ''POST'', rq_url = token_url, rq_params = [], rq_data = form, rq_bearer = None\<rparr>"

definition exchange_code_for_tokens :: "oauth_client \<Rightarrow> transport \<Rightarrow> string \<Rightarrow> exn + token_response" where
  "exchange_code_for_tokens c send code =
     (if \<not> nonblank code then Inl ValueError
      else token_reply (send (token_request
        [(''grant_type'', ''authorization_code''), (''code'', code), (''redirect_uri'', oc_redirect_uri c),
         (''client_id'', oc_client_id c), (''client_secret'', oc_client_secret c)])))"

definition refresh_tokens :: "oauth_client \<Rightarrow> transport \<Rightarrow> string \<Rightarrow> exn + token_response" where
  "refresh_tokens c send refresh =
     (if \<not> nonblank refresh then Inl ValueError
      else token_reply (send (token_request
        [(''grant_type'', ''refresh_token''), (''refresh_token'', refresh),
         (''client_id'', oc_client_id c), (''client_secret'', oc_client_secret c)])))"

definition bearer_get :: "string \<Rightarrow> (string \<times> string) list \<Rightarrow> string \<Rightarrow> http_request" where
  "bearer_get url params token =
     \<lparr>rq_method = ''GET'', rq_url = url, rq_params = params, rq_data = [], rq_bearer = Some token\<rparr>"

definition fetch_raw_profile :: "transport \<Rightarrow> wire \<Rightarrow> exn + wire" where
  "fetch_raw_profile send access =
     res_bind (bearer_text access) (\<lambda>token.
     case send (bearer_get ''https://api.chaster.app/auth/profile'' [] token) of
       HTTP_FAILED \<Rightarrow> Inl ChasterTokenExchangeError
     | HTTP_REPLY status body \<Rightarrow>
         if status \<noteq> 200 then Inl ChasterTokenExchangeError
         else (case body of None \<Rightarrow> Inl ChasterTokenExchangeError
           | Some (WObj kvs) \<Rightarrow> Inr (WObj kvs)
           | Some _ \<Rightarrow> Inl ChasterTokenExchangeError))"

section \<open>ChasterLockClient\<close>

datatype unlock_http_outcome =
  HTTP_SUCCEEDED | HTTP_NOT_ELIGIBLE | HTTP_UNAUTHORIZED | HTTP_FORBIDDEN | HTTP_NOT_FOUND | HTTP_UNEXPECTED

definition locks_url :: string where
  "locks_url = ''https://api.chaster.app/locks''"

definition list_active_locks :: "transport \<Rightarrow> string \<Rightarrow> exn + wire list" where
  "list_active_locks send access =
     (if \<not> nonblank access then Inl ValueError
      else case send (bearer_get locks_url [(''status'', ''active'')] access) of
        HTTP_FAILED \<Rightarrow> Inl (ChasterLockApiError ''Network error contacting Chaster's locks endpoint.'')
      | HTTP_REPLY status body \<Rightarrow>
          if status \<noteq> 200 then
            Inl (ChasterLockApiError (''Chaster's locks endpoint returned HTTP '' @ decimal status @ ''.''))
          else (case body of
              None \<Rightarrow> Inl (ChasterLockApiError
                ''Chaster's locks endpoint returned a response this application could not parse.'')
            | Some (WList ws) \<Rightarrow> Inr ws
            | Some _ \<Rightarrow> Inl (ChasterLockApiError
                ''Chaster's locks endpoint returned an unexpected response shape (expected a list).'')))"

definition outcome_of_status :: "nat \<Rightarrow> unlock_http_outcome" where
  "outcome_of_status n = (if n = 204 then HTTP_SUCCEEDED else if n = 400 then HTTP_NOT_ELIGIBLE
     else if n = 401 then HTTP_UNAUTHORIZED else if n = 403 then HTTP_FORBIDDEN
     else if n = 404 then HTTP_NOT_FOUND else HTTP_UNEXPECTED)"

definition emergency_unlock_request :: "string \<Rightarrow> string \<Rightarrow> http_request" where
  "emergency_unlock_request access lock_id = \<lparr>rq_method = ''POST'',
     rq_url = locks_url @ ''/'' @ lock_id @ ''/emergency-unlock'', rq_params = [], rq_data = [],
     rq_bearer = Some access\<rparr>"

definition emergency_unlock :: "transport \<Rightarrow> string \<Rightarrow> string \<Rightarrow> exn + (unlock_http_outcome \<times> nat)" where
  "emergency_unlock send access lock_id =
     (if \<not> nonblank access \<or> \<not> nonblank lock_id then Inl ValueError
      else case send (emergency_unlock_request access lock_id) of
        HTTP_FAILED \<Rightarrow> Inl (ChasterLockApiError ''Network error contacting Chaster's emergency-unlock endpoint.'')
      | HTTP_REPLY status body \<Rightarrow> Inr (outcome_of_status status, status))"

end
