(* ===== verification/Chaster_Services.thy ===== *)
theory Chaster_Services
  imports Chaster_Facts Chaster_Clients
begin

text \<open>
  The three services over the Chaster repositories and clients: the OAuth callback
  (\<open>chaster/callback_service.py\<close>), the on-demand observation of the provider
  (\<open>chaster/provider_observation_service.py\<close>) and the PC-local emergency unlock
  (\<open>chaster/emergency_unlock.py\<close>, \<open>emergency_unlock_provider.py\<close>, \<open>emergency_unlock_listener.py\<close>).
\<close>

lemma op_keeps_lifted [keeps_intros]: "op_keeps I (op_lift r)"
  by (simp add: op_keeps_def op_lift_def)

section \<open>The OAuth callback\<close>

record chaster_identity =
  id_account :: string
  id_username :: "string option"

definition resolve_identity :: "transport \<Rightarrow> wire \<Rightarrow> exn + chaster_identity" where
  "resolve_identity send access =
     (case fetch_raw_profile send access of
        Inl e \<Rightarrow> Inl (if e = ChasterTokenExchangeError then ChasterIdentityResolutionUnavailable else e)
      | Inr found \<Rightarrow>
          res_bind (wire_get found ''_id'' WNull) (\<lambda>account.
          case account of
            WStr i \<Rightarrow>
              if i = [] then Inl ChasterIdentityResolutionUnavailable
              else res_bind (wire_get found ''username'' WNull) (\<lambda>name.
                case name of
                  WNull \<Rightarrow> Inr \<lparr>id_account = i, id_username = None\<rparr>
                | WStr n \<Rightarrow> Inr \<lparr>id_account = i, id_username = Some n\<rparr>
                | _ \<Rightarrow> Inl ChasterIdentityResolutionUnavailable)
          | _ \<Rightarrow> Inl ChasterIdentityResolutionUnavailable))"

datatype callback_message = CB_NO_STATE | CB_NO_LONGER_VALID | CB_EXPIRED | CB_NOT_COMPLETED | CB_NO_CODE
  | CB_EXCHANGE_FAILED | CB_IDENTITY_FAILED | CB_CONNECTED

record callback_outcome =
  co_success :: bool
  co_user_id :: "string option"
  co_message :: callback_message

definition given :: "string option \<Rightarrow> bool" where
  \<comment> \<open>the truth value of a \<open>str | None\<close>\<close>
  "given x = (case x of None \<Rightarrow> False | Some s \<Rightarrow> s \<noteq> [])"

definition failed_callback :: "string option \<Rightarrow> callback_message \<Rightarrow> callback_outcome" where
  "failed_callback u m = \<lparr>co_success = False, co_user_id = u, co_message = m\<rparr>"

definition complete_connection ::
  "oauth_client \<Rightarrow> transport \<Rightarrow> fernet \<Rightarrow> string \<Rightarrow> string \<Rightarrow> time \<Rightarrow> ('m chaster_db_scheme, callback_outcome) op" where
  \<comment> \<open>\<open>handle_callback\<close> from the token exchange on\<close>
  "complete_connection c send f u code now =
     (case exchange_code_for_tokens c send code of
        Inl e \<Rightarrow> if e = ChasterTokenExchangeError then op_return (failed_callback (Some u) CB_EXCHANGE_FAILED)
                 else op_raise e
      | Inr tokens \<Rightarrow>
          (case resolve_identity send (tr_access_token tokens) of
             Inl e \<Rightarrow> if e = ChasterIdentityResolutionUnavailable
                      then op_return (failed_callback (Some u) CB_IDENTITY_FAILED) else op_raise e
           | Inr who \<Rightarrow>
               op_bind (create_or_replace_connection f u (id_account who) (id_username who)
                 (tr_access_token tokens) (tr_refresh_token tokens)
                 (now + tr_expires_in tokens * second) (now + tr_refresh_expires_in tokens * second)
                 (tr_granted_scopes tokens) now) (\<lambda>_.
               op_return \<lparr>co_success = True, co_user_id = Some u, co_message = CB_CONNECTED\<rparr>)))"

definition handle_callback ::
  "oauth_client \<Rightarrow> transport \<Rightarrow> fernet \<Rightarrow> string option \<Rightarrow> string option \<Rightarrow> string option \<Rightarrow> time
     \<Rightarrow> ('m chaster_db_scheme, callback_outcome) op" where
  "handle_callback c send f st code error now =
     (if \<not> given st then op_return (failed_callback None CB_NO_STATE)
      else op_bind (consume_state (the st) now) (\<lambda>r.
        if \<not> cr_matched r then op_return (failed_callback None CB_NO_LONGER_VALID)
        else if cr_expired r then op_return (failed_callback None CB_EXPIRED)
        else case cr_user_id r of
          None \<Rightarrow> op_raise AssertionError
        | Some u \<Rightarrow>
            if given error then op_return (failed_callback (Some u) CB_NOT_COMPLETED)
            else if \<not> given code then op_return (failed_callback (Some u) CB_NO_CODE)
            else complete_connection c send f u (the code) now))"

section \<open>Observing the provider\<close>

datatype fetch_outcome = FO_RECORDED | FO_ZERO_ACTIVE_LOCKS | FO_NO_CONNECTION | FO_NEEDS_REAUTHORIZATION
  | FO_API_UNAVAILABLE | FO_AMBIGUOUS_MULTIPLE_LOCKS | FO_UNPARSEABLE_STATUS

record fetch_result =
  fr_outcome :: fetch_outcome
  fr_observation :: "provider_observation option"

definition provider_name :: string where
  "provider_name = ''chaster''"

definition status_of_wire :: "wire \<Rightarrow> provider_status option" where
  \<comment> \<open>\<open>ChasterProviderStatus(raw_status)\<close>\<close>
  "status_of_wire w = (if w = WStr ''locked'' then Some PS_LOCKED
     else if w = WStr ''unlocked'' then Some PS_UNLOCKED
     else if w = WStr ''deserted'' then Some PS_DESERTED else None)"

definition refresh_and_persist ::
  "oauth_client \<Rightarrow> transport \<Rightarrow> fernet \<Rightarrow> string \<Rightarrow> chaster_connection \<Rightarrow> time
     \<Rightarrow> ('m chaster_db_scheme, chaster_connection option) op" where
  "refresh_and_persist c send f u connection now =
     op_bind (op_catch (op_bind (get_decrypted_refresh_token f u now) (\<lambda>t. op_return (Some t)))
                (\<lambda>e. op_return None)) (\<lambda>decrypted.
     case decrypted of
       None \<Rightarrow> op_return None
     | Some token \<Rightarrow>
         (case refresh_tokens c send token of
            Inl e \<Rightarrow> if e = ChasterTokenExchangeError
                     then op_bind (mark_needs_reauthorization u now) (\<lambda>_. op_return None) else op_raise e
          | Inr tokens \<Rightarrow>
              op_bind (create_or_replace_connection f u (cc_account_id connection) (cc_username connection)
                (tr_access_token tokens) (tr_refresh_token tokens)
                (now + tr_expires_in tokens * second) (now + tr_refresh_expires_in tokens * second)
                (tr_granted_scopes tokens) now) (\<lambda>row. op_return (Some row))))"

definition last_known :: "fetch_outcome \<Rightarrow> string \<Rightarrow> ('m chaster_db_scheme, fetch_result) op" where
  "last_known o' u = op_bind (get_latest_observation u) (\<lambda>r.
     op_return \<lparr>fr_outcome = o', fr_observation = r\<rparr>)"

definition record_fetched :: "fetch_outcome \<Rightarrow> string \<Rightarrow> string option \<Rightarrow> provider_status \<Rightarrow> time
    \<Rightarrow> ('m chaster_db_scheme, fetch_result) op" where
  "record_fetched o' u lock_id status now =
     op_bind (record_observation u provider_name lock_id status now now) (\<lambda>r.
     op_return \<lparr>fr_outcome = o', fr_observation = Some r\<rparr>)"

definition record_locks :: "string \<Rightarrow> wire list \<Rightarrow> time \<Rightarrow> ('m chaster_db_scheme, fetch_result) op" where
  \<comment> \<open>\<open>fetch_and_record\<close> from the reply on\<close>
  "record_locks u locks now = (case locks of
      [] \<Rightarrow> record_fetched FO_ZERO_ACTIVE_LOCKS u None PS_UNLOCKED now
    | [lock] \<Rightarrow>
        op_bind (op_lift (wire_get lock ''_id'' WNull)) (\<lambda>lock_id.
        op_bind (op_lift (wire_get lock ''status'' WNull)) (\<lambda>raw_status.
        case status_of_wire raw_status of
          None \<Rightarrow> last_known FO_UNPARSEABLE_STATUS u
        | Some status \<Rightarrow>
            record_fetched FO_RECORDED u (case lock_id of WStr i \<Rightarrow> Some i | _ \<Rightarrow> None) status now))
    | _ \<Rightarrow> last_known FO_AMBIGUOUS_MULTIPLE_LOCKS u)"

definition fetch_locks ::
  "transport \<Rightarrow> fernet \<Rightarrow> string \<Rightarrow> time \<Rightarrow> ('m chaster_db_scheme, fetch_result) op" where
  \<comment> \<open>\<open>fetch_and_record\<close> once the access token is current\<close>
  "fetch_locks send f u now =
     op_bind (get_decrypted_access_token f u now) (\<lambda>access.
     case list_active_locks send access of
       Inl (ChasterLockApiError m) \<Rightarrow> last_known FO_API_UNAVAILABLE u
     | Inl e \<Rightarrow> op_raise e
     | Inr locks \<Rightarrow> record_locks u locks now)"

definition fetch_and_record ::
  "oauth_client \<Rightarrow> transport \<Rightarrow> fernet \<Rightarrow> string \<Rightarrow> time \<Rightarrow> ('m chaster_db_scheme, fetch_result) op" where
  "fetch_and_record c send f u now =
     op_bind (get_connection u) (\<lambda>row.
     case row of
       None \<Rightarrow> op_return \<lparr>fr_outcome = FO_NO_CONNECTION, fr_observation = None\<rparr>
     | Some connection \<Rightarrow>
         if cc_access_token_expires_at connection \<le> now then
           op_bind (refresh_and_persist c send f u connection now) (\<lambda>refreshed.
             if refreshed = None then last_known FO_NEEDS_REAUTHORIZATION u else fetch_locks send f u now)
         else fetch_locks send f u now)"

section \<open>The emergency unlock\<close>

datatype provider_unlock_outcome = UNLOCK_SUCCEEDED | UNLOCK_FAILED

record provider_unlock_result =
  pr_outcome :: provider_unlock_outcome
  pr_detail :: string

record lock_eligibility =
  le_lock_id :: string
  le_eligible :: bool
  le_reason :: string

definition unconfirmed_message :: string where
  "unconfirmed_message = ''Chaster's LockForWearer response schema has not been confirmed from an '' @
     ''authoritative first-party source -- this application cannot safely determine '' @
     ''a lock's id, type, or bondage-safety configuration from the raw API response.''"

definition unconfirmed_lock_field_extractor :: "wire \<Rightarrow> exn + lock_eligibility" where
  \<comment> \<open>the extractor of the production wiring\<close>
  "unconfirmed_lock_field_extractor raw_lock = Inl (LockFieldsUnconfirmedError unconfirmed_message)"

definition unlock_failed :: "string \<Rightarrow> provider_unlock_result" where
  "unlock_failed detail = \<lparr>pr_outcome = UNLOCK_FAILED, pr_detail = detail\<rparr>"

fun rejection_text :: "unlock_http_outcome \<Rightarrow> nat \<Rightarrow> string" where
  "rejection_text HTTP_NOT_ELIGIBLE n = ''Chaster rejected the emergency unlock -- the lock is not a bondage lock, has no safety feature enabled, or is not locked.''"
| "rejection_text HTTP_UNAUTHORIZED n = ''Chaster rejected the emergency unlock -- not authorized.''"
| "rejection_text HTTP_FORBIDDEN n = ''Chaster rejected the emergency unlock -- only the wearer can emergency-unlock.''"
| "rejection_text HTTP_NOT_FOUND n = ''Chaster rejected the emergency unlock -- the target lock could not be found (it may have changed since discovery).''"
| "rejection_text _ n = ''Chaster returned an unexpected response (HTTP '' @ decimal n @ '').''"

definition attempt_unlock ::
  "transport \<Rightarrow> (wire \<Rightarrow> exn + lock_eligibility) \<Rightarrow> string \<Rightarrow> exn + provider_unlock_result" where
  "attempt_unlock send extractor access =
     (case list_active_locks send access of
        Inl (ChasterLockApiError m) \<Rightarrow> Inr (unlock_failed (''Could not retrieve active locks: '' @ m))
      | Inl e \<Rightarrow> Inl e
      | Inr [] \<Rightarrow> Inr (unlock_failed ''No active Chaster lock found.'')
      | Inr (raw_lock # more_locks) \<Rightarrow>
          if more_locks \<noteq> [] then Inr (unlock_failed (''Found '' @ decimal (Suc (length more_locks)) @
            '' active Chaster locks -- cannot determine an unambiguous target. No lock was unlocked.''))
          else case extractor raw_lock of
            Inl (LockFieldsUnconfirmedError m) \<Rightarrow> Inr (unlock_failed
              (''Could not determine emergency-unlock eligibility for the active lock: '' @ m))
          | Inl e \<Rightarrow> Inl e
          | Inr eligibility \<Rightarrow>
              if \<not> le_eligible eligibility then Inr (unlock_failed
                (''The active lock does not meet Chaster's documented emergency-unlock prerequisites: '' @ le_reason eligibility))
              else (case emergency_unlock send access (le_lock_id eligibility) of
                Inl (ChasterLockApiError m) \<Rightarrow> Inr (unlock_failed (''Emergency-unlock request failed: '' @ m))
              | Inl e \<Rightarrow> Inl e
              | Inr (http, n) \<Rightarrow>
                  if http = HTTP_SUCCEEDED then Inr \<lparr>pr_outcome = UNLOCK_SUCCEEDED,
                    pr_detail = ''Chaster confirmed the emergency unlock (HTTP 204).''\<rparr>
                  else Inr (unlock_failed (rejection_text http n))))"

datatype unlock_status = US_AUTH_FAILED | US_NO_CONNECTION | US_PROVIDER_SUCCEEDED | US_PROVIDER_FAILED

record unlock_result =
  ur_status :: unlock_status
  ur_message :: string

definition ascii :: "string \<Rightarrow> bool" where
  "ascii s \<longleftrightarrow> list_all (\<lambda>c. (of_char c :: nat) < 128) s"

definition compare_digest :: "string \<Rightarrow> string \<Rightarrow> exn + bool" where
  \<comment> \<open>\<open>secrets.compare_digest\<close> on two texts: non-ASCII texts are a \<open>TypeError\<close>\<close>
  "compare_digest a b = (if ascii a \<and> ascii b then Inr (a = b) else Inl TypeError)"

definition authenticate :: "string option \<Rightarrow> string \<Rightarrow> exn + bool" where
  "authenticate expected presented =
     (if \<not> given expected then Inr False
      else if presented = [] then Inr False
      else compare_digest presented (the expected))"

definition audit :: "string \<Rightarrow> string \<Rightarrow> payload \<Rightarrow> time \<Rightarrow> ('m outbox_db_scheme, unit) op" where
  "audit ty u detail now = atomically (emit ty ''chaster_emergency'' ((''user_id'', JStr u) # detail) now)"

definition request_unlock ::
  "fernet \<Rightarrow> (string \<Rightarrow> exn + provider_unlock_result) \<Rightarrow> string option \<Rightarrow> string \<Rightarrow> string \<Rightarrow> time
     \<Rightarrow> ('m chaster_db_scheme, unlock_result) op" where
  "request_unlock f provider expected presented u now =
     op_bind (op_lift (authenticate expected presented)) (\<lambda>ok.
     if \<not> ok then
       op_bind (audit ''chaster_emergency.auth_failed'' u [] now) (\<lambda>_.
       op_return \<lparr>ur_status = US_AUTH_FAILED, ur_message = ''Authentication failed.''\<rparr>)
     else
       op_bind (audit ''chaster_emergency.request_accepted'' u [] now) (\<lambda>_.
       op_bind (get_connection u) (\<lambda>row.
       case row of
         None \<Rightarrow>
           op_bind (audit ''chaster_emergency.no_connection'' u [] now) (\<lambda>_.
           op_return \<lparr>ur_status = US_NO_CONNECTION,
             ur_message = ''No Chaster connection exists for this account -- nothing to unlock.''\<rparr>)
       | Some connection \<Rightarrow>
           op_bind (get_decrypted_access_token f u now) (\<lambda>access.
           op_bind (audit ''chaster_emergency.provider_attempted'' u
             [(''chaster_account_id'', JStr (cc_account_id connection))] now) (\<lambda>_.
           op_bind (op_lift (provider access)) (\<lambda>result.
           (let detail = [(''chaster_account_id'', JStr (cc_account_id connection)),
                          (''detail'', JStr (pr_detail result))] in
            if pr_outcome result = UNLOCK_SUCCEEDED then
              op_bind (audit ''chaster_emergency.provider_succeeded'' u detail now) (\<lambda>_.
              op_return \<lparr>ur_status = US_PROVIDER_SUCCEEDED, ur_message = pr_detail result\<rparr>)
            else
              op_bind (audit ''chaster_emergency.provider_failed'' u detail now) (\<lambda>_.
              op_return \<lparr>ur_status = US_PROVIDER_FAILED, ur_message = pr_detail result\<rparr>))))))))"

fun unlock_http_code :: "unlock_status \<Rightarrow> nat" where
  "unlock_http_code US_AUTH_FAILED = 401"
| "unlock_http_code US_NO_CONNECTION = 404"
| "unlock_http_code US_PROVIDER_SUCCEEDED = 200"
| "unlock_http_code US_PROVIDER_FAILED = 502"

definition body_field :: "wire \<Rightarrow> string \<Rightarrow> wire" where
  \<comment> \<open>\<open>body.get(key) if isinstance(body, dict) else None\<close>\<close>
  "body_field body k = (case wire_get body k WNull of Inl e \<Rightarrow> WNull | Inr v \<Rightarrow> v)"

definition handle_unlock ::
  "fernet \<Rightarrow> (string \<Rightarrow> exn + provider_unlock_result) \<Rightarrow> string option \<Rightarrow> wire option \<Rightarrow> time
     \<Rightarrow> 'm chaster_db_scheme \<Rightarrow> nat \<times> 'm chaster_db_scheme" where
  \<comment> \<open>\<open>EmergencyUnlockListener._handle_unlock\<close>: the status of the HTTP response\<close>
  "handle_unlock f provider expected body now s = (case body of
      None \<Rightarrow> (400, s)
    | Some b \<Rightarrow> (case (body_field b ''secret'', body_field b ''user_id'') of
        (WStr presented, WStr u) \<Rightarrow>
          if u = [] then (400, s)
          else (case request_unlock f provider expected presented u now s of
              (Inl e, s') \<Rightarrow> (500, s')
            | (Inr r, s') \<Rightarrow> (unlock_http_code (ur_status r), s'))
      | _ \<Rightarrow> (400, s)))"

end
