(* ===== verification/User_Sample.thy ===== *)
theory User_Sample
  imports Chaster_Facts
begin

text \<open>
  A database with one user who has finished onboarding and one active task template; the witnesses
  of the user-facing properties start from it.
\<close>

definition sample_user :: string where
  "sample_user = uuid_text 0"

definition sample_details :: "lock_requirement \<Rightarrow> template_details" where
  "sample_details req = \<lparr>td_category = ''movement'', td_difficulty = ''easy'', td_effort = ''low'',
     td_duration_minutes = 10, td_required_equipment = [], td_required_privacy = ''none'',
     td_required_context = ''any'', td_safety_classification = ''safe'',
     td_eligible_instance_roles = [ROLE_PRIMARY], td_eligible_operating_modes = [''standard''],
     td_completion_requirements = [], td_verification_requirements = [], td_reflection_requirements = None,
     td_lock_requirement = req\<rparr>"

definition sample_template :: "lock_requirement \<Rightarrow> task_template_version" where
  "sample_template req = \<lparr>tv_id = uuid_text 2, tv_template_id = ''stretch'', tv_version = 1,
     tv_details = sample_details req, tv_created_at = 0, tv_created_via_consent_id = ''c'',
     tv_title = Some ''Stretch'', tv_instructions = Some ''Ten minutes''\<rparr>"

definition sample_entry :: catalog_entry where
  "sample_entry = \<lparr>te_template_id = ''stretch'', te_current_version = 1, te_eligibility_status = TE_ACTIVE,
     te_status_changed_at = 0, te_eligibility_changed_via_consent_id = None,
     te_current_version_changed_via_consent_id = None, te_current_version_changed_at = None\<rparr>"

definition sample_preferences :: "onboarding_step \<Rightarrow> preferences" where
  "sample_preferences step = \<lparr>up_user_id = sample_user, up_step = step,
     up_language = (if step_rank step < 1 then None else Some ''en''),
     up_ai_gender = (if step_rank step < 2 then None else Some FEMALE),
     up_identity_id = (if step_rank step < 3 then None else Some ''scarlett''),
     up_created_at = 0, up_updated_at = 0\<rparr>"

definition sample_db :: "onboarding_step \<Rightarrow> lock_requirement \<Rightarrow> chaster_db" where
  "sample_db step req = \<lparr>next_id = 3, domain_events = [], event_consumers = [], system_startup_lease = None,
     trust_domains = [], trust_domain_state = [], incidents = [], confirmation_records = [],
     trust_evidence = [], trust_recalculations = [], trust_recalculation_evidence = [],
     penalty_windows = [], freeze_periods = [], incident_consumption = [], extension_decisions = [],
     recovery_credit_decisions = [], recovery_credit_ledger = [],
     recovery_plans = [], recovery_tasks = [], recovery_task_completions = [],
     goals = [], goal_versions = [], goal_evidence_rows = [], goal_evaluations = [],
     goal_change_proposals = [], goal_change_proposal_contents = [],
     operating_mode_row = \<lparr>current_mode = STANDARD, mode_activated_at = 0\<rparr>,
     mode_transition_requests = [],
     user_accounts = [\<lparr>ua_id = sample_user, ua_created_at = 0, ua_last_seen_at = 0\<rparr>],
     user_channel_identities = [\<lparr>ci_id = uuid_text 1, ci_user_account_id = sample_user,
       ci_channel = ''discord'', ci_external_id = ''42'', ci_created_at = 0\<rparr>],
     user_preferences = [sample_preferences step], lock_reports = [],
     task_template_versions = [sample_template req], task_template_catalog_entries = [sample_entry],
     task_assignments = [],
     chaster_oauth_states = [], chaster_connections = [], chaster_provider_observations = []\<rparr>"

lemma sample_run_ok: "run_ok (sample_db step req)"
proof -
  have "run_ok (fresh_db 0\<lparr>next_id := 3\<rparr>)"
    by (rule run_ok_next_id [OF fresh_ok]) (simp add: fresh_db_def)
  then show ?thesis
    by (subst run_ok_core [where s = "fresh_db 0\<lparr>next_id := 3\<rparr>"])
      (simp_all add: sample_db_def fresh_db_def mode_db.defs)
qed

lemma sample_known: "user_exists sample_user (sample_db step req)"
  by (simp add: user_exists_def account_by_id_def sample_db_def)

lemma sample_row: "version_row ''stretch'' 1 (sample_db step req) = Some (sample_template req)"
  by (simp add: version_row_def sample_db_def sample_template_def)

lemma sample_drawn: "k < 3 \<Longrightarrow> drawn (uuid_text k) (sample_db step req)"
  by (simp add: drawn_def sample_db_def)

lemma scarlett_in_catalog: "\<exists>e \<in> set identity_catalog. identity_id e = ''scarlett'' \<and> identity_group_of e = FEMALE"
  by (simp add: identity_catalog_def entry_of_def)

lemma sample_user_side: "user_side_ok (sample_db step req)"
proof -
  have "accounts_ok (sample_db step req)"
    using sample_known [of step req] sample_drawn [of 0 step req] sample_drawn [of 1 step req]
    by (simp add: accounts_ok_def sample_user_def) (simp add: sample_db_def sample_user_def)
  moreover have "preferences_wf (sample_preferences step)"
    using scarlett_in_catalog by (cases step) (simp_all add: preferences_wf_def sample_preferences_def, metis)
  then have "preference_rows_ok (sample_db step req)" using sample_known
    by (simp add: preference_rows_ok_def) (simp add: sample_db_def sample_preferences_def)
  moreover have "lock_ok (sample_db step req)"
    by (simp add: lock_ok_def reports_of_def sample_db_def)
  moreover have "runtime_ok (sample_db step req)"
    by (simp add: runtime_ok_def sample_db_def)
  moreover have "catalog_ok (sample_db step req)"
    using sample_drawn [of 2 step req] sample_row [of step req]
    by (simp add: catalog_ok_def)
      (auto simp: sample_db_def sample_template_def sample_entry_def version_wf_def sample_details_def
        entry_by_id_def versions_of_def stored_text_def title_max_length_def instructions_max_length_def
        nonblank_def py_space_def py_strip_def)
  ultimately show ?thesis by (simp add: user_side_ok_def)
qed

lemma sample_app_ok: "app_ok (sample_db step req)"
  by (simp add: app_ok_def sample_run_ok sample_user_side)

lemma sample_chaster_ok: "chaster_ok (sample_db step req)"
  by (simp add: chaster_ok_def states_ok_def connections_ok_def observations_ok_def sample_db_def)

end
