(* ===== verification/Chaster_Properties.thy ===== *)
theory Chaster_Properties
  imports Chaster_Services User_Sample
begin

text \<open>
  Properties of the Chaster integration: a state value is consumed once, tokens come back as they
  were stored, the observation log holds only what the provider reported, and the emergency unlock
  reports success only for a confirmed one and with a matching audit trail.
\<close>

section \<open>A state value is consumed once\<close>

lemma row_by_filter_same:
  "(\<And>r. r \<in> set rs \<Longrightarrow> key r = k \<Longrightarrow> P r) \<Longrightarrow> row_by key k (filter P rs) = row_by key k rs"
  by (induction rs) auto

lemma state_row_deleted [simp]: "state_row st (delete_state st s) = None"
  by (simp add: state_row_def delete_state_def row_by_None)

lemma state_row_fresh:
  assumes "states_ok s"
  shows "state_row (uuid_text (next_id s)) s = None"
  using assms by (auto simp: states_ok_def state_row_def row_by_None drawn_def)

lemma state_row_with_state_new:
  assumes ok: "states_ok s"
  shows "state_row (uuid_text (next_id s)) (with_state (pending u now s) s) = Some (pending u now s)"
proof -
  have "row_by os_state (uuid_text (next_id s)) (filter P (chaster_oauth_states s)) = None" for P
    using state_row_fresh [OF ok] by (auto simp: state_row_def row_by_None)
  then show ?thesis by (simp add: state_row_def with_state_def row_by_append) (simp add: pending_def)
qed

lemma state_row_with_state_old:
  assumes ok: "states_ok s" and r: "r \<in> set (chaster_oauth_states s)"
  shows "state_row (os_state r) (with_state (pending u now s) s) = (if os_user_id r = u then None else Some r)"
proof -
  have d: "distinct (map os_state (chaster_oauth_states s))" using ok by (simp add: states_ok_def)
  have new: "os_state r \<noteq> uuid_text (next_id s)" using ok r by (auto simp: states_ok_def drawn_def)
  have only: "q = r" if "q \<in> set (chaster_oauth_states s)" "os_state q = os_state r" for q
    using distinct_key_eq [OF d that(1) r that(2)] .
  have "row_by os_state (os_state r) (filter (\<lambda>q. os_user_id q \<noteq> u) (chaster_oauth_states s))
      = (if os_user_id r = u then None else Some r)"
  proof (cases "os_user_id r = u")
    case True
    then show ?thesis using only by (auto simp: row_by_None)
  next
    case False
    then have "row_by os_state (os_state r) (filter (\<lambda>q. os_user_id q \<noteq> u) (chaster_oauth_states s))
        = row_by os_state (os_state r) (chaster_oauth_states s)"
      using only by (intro row_by_filter_same) auto
    then show ?thesis using False row_by_unique [OF d r] by simp
  qed
  then show ?thesis using new by (simp add: state_row_def with_state_def row_by_append pending_def)
qed

text \<open>C16: the state handed to a user by \<open>chaster connect\<close> is consumed at most once, gives back that
  user until ten minutes have passed and nobody afterwards; it makes every earlier state of the same
  user worthless and leaves the pending states of other users alone.\<close>
theorem oauth_state_single_use:
  assumes "chaster_ok s" and "create_or_replace_state u now s = (Inr st, s1)"
  shows "consume_state st at1 s1 =
      (Inr \<lparr>cr_matched = True, cr_expired = (now + 10 * minute \<le> at1),
         cr_user_id = (if now + 10 * minute \<le> at1 then None else Some u)\<rparr>, delete_state st s1)
    \<and> consume_state st at2 (delete_state st s1) =
      (Inr \<lparr>cr_matched = False, cr_expired = False, cr_user_id = None\<rparr>, delete_state st s1)
    \<and> (\<forall>r \<in> set (chaster_oauth_states s). fst (consume_state (os_state r) at1 s1) =
        (if os_user_id r = u then Inr \<lparr>cr_matched = False, cr_expired = False, cr_user_id = None\<rparr>
         else fst (consume_state (os_state r) at1 s)))"
proof -
  have ok: "states_ok s" using assms(1) by (simp add: chaster_ok_def)
  have s1: "st = uuid_text (next_id s)" "s1 = with_state (pending u now s) s"
    using assms(2) by (simp_all add: create_or_replace_state_eq split: if_splits)
  have old: "state_row (os_state r) s = Some r" if "r \<in> set (chaster_oauth_states s)" for r
    using ok that by (simp add: states_ok_def state_row_def row_by_unique)
  show ?thesis
    using state_row_with_state_new [OF ok, of u now] state_row_with_state_old [OF ok, of _ u now] old
    unfolding s1
    by (simp add: consume_state_eq consume_reply_def) (simp add: pending_def state_ttl_def)
qed

lemma oauth_state_single_use_witness:
  "\<exists>st s1. create_or_replace_state sample_user 0 (sample_db OB_COMPLETE LOCK_NONE) = (Inr st, s1)
    \<and> fst (consume_state st minute s1) = Inr \<lparr>cr_matched = True, cr_expired = False, cr_user_id = Some sample_user\<rparr>
    \<and> fst (consume_state st minute (delete_state st s1)) = Inr \<lparr>cr_matched = False, cr_expired = False, cr_user_id = None\<rparr>"
proof -
  let ?s = "sample_db OB_COMPLETE LOCK_NONE"
  have run: "create_or_replace_state sample_user 0 ?s = (Inr (uuid_text (next_id ?s)), with_state (pending sample_user 0 ?s) ?s)"
    by (simp add: create_or_replace_state_eq sample_known) (simp add: sample_user_def)
  show ?thesis using run oauth_state_single_use [OF sample_chaster_ok run, of minute minute]
    by (auto simp: minute_def)
qed

section \<open>Tokens come back\<close>

definition fernet_ok :: "fernet \<Rightarrow> bool" where
  \<comment> \<open>the documented contract of Fernet: decrypting under the same key gives the text back\<close>
  "fernet_ok f \<longleftrightarrow> (\<forall>n p. fn_decrypt f (fn_encrypt f n p) = Some p)"

text \<open>C17: a connection stored with \<open>create_or_replace\<close> gives back exactly the two tokens it was given,
  is active and belongs to the named account, and no other user's connection changes.\<close>
theorem connection_tokens_roundtrip:
  assumes "fernet_ok f"
    and "create_or_replace_connection f u account username access refresh ae re scopes now s = (Inr c, s1)"
  shows "\<exists>a r. access = WStr a \<and> refresh = WStr r
    \<and> get_decrypted_access_token f u at1 s1 = (Inr a, s1)
    \<and> get_decrypted_refresh_token f u at1 s1 = (Inr r, s1)
    \<and> get_connection u s1 = (Inr (Some c), s1)
    \<and> cc_account_id c = account \<and> cc_status c = CS_ACTIVE \<and> cc_granted_scopes c = scopes
    \<and> (\<forall>v. v = u \<or> connection_of v s1 = connection_of v s)"
proof -
  have tok: "\<exists>p. w = WStr p \<and> t = p" if "token_text w = Inr t" for w t
    using that by (cases w) (simp_all split: if_splits)
  obtain a r where ar: "token_text access = Inr a" "token_text refresh = Inr r"
    using assms(2) by (auto simp: create_or_replace_connection_eq split: if_splits sum.splits)
  let ?s1 = "s\<lparr>next_id := Suc (Suc (next_id s))\<rparr>"
  let ?c = "connection_row f u account username a r ae re scopes now (next_id s)"
  have u: "cc_user_id ?c = u" by (simp add: connection_row_def)
  have run: "nonblank u" "c = stored_row ?c ?s1" "s1 = upsert_connection ?c ?s1"
    using assms(2) ar by (auto simp: create_or_replace_connection_eq Let_def split: if_splits)
  have con: "connection_of v s1 = (if v = u then Some c else connection_of v s)" for v
    unfolding run(2,3) connection_of_upsert u by (simp add: connection_of_def)
  have c: "cc_encrypted_access_token c = fn_encrypt f (next_id s) a"
    "cc_encrypted_refresh_token c = fn_encrypt f (Suc (next_id s)) r"
    "cc_account_id c = account" "cc_status c = CS_ACTIVE" "cc_granted_scopes c = scopes"
    unfolding run(2) by (simp_all add: stored_row_def connection_row_def reconnected_def split: option.split)
  have dec: "fn_decrypt f (fn_encrypt f n p) = Some p" for n p using assms(1) by (simp add: fernet_ok_def)
  show ?thesis using tok [OF ar(1)] tok [OF ar(2)] run(1) c
    by (auto simp: get_decrypted_access_token_def get_decrypted_refresh_token_def get_decrypted_eq
        get_connection_eq con dec)
qed

definition plain_fernet :: fernet where
  "plain_fernet = \<lparr>fn_encrypt = (\<lambda>n p. decimal n @ ''.'' @ p),
     fn_decrypt = (\<lambda>c. case dropWhile (\<lambda>x. x \<noteq> CHR ''.'') c of [] \<Rightarrow> None | _ # p \<Rightarrow> Some p)\<rparr>"

lemma digit_not_stop: "CHR ''.'' \<notin> set (decimal n)"
proof (induction n rule: decimal.induct)
  case (1 n)
  have "CHR ''.'' \<noteq> digit d" if "d < 10" for d
  proof
    assume "CHR ''.'' = digit d"
    then have "(of_char (digit d) :: nat) = of_char CHR ''.''" by simp
    then show False using of_char_digit [OF that] by simp
  qed
  then show ?case using 1 by (cases "n < 10") (auto simp: decimal.simps [of n])
qed

lemma plain_fernet_ok: "fernet_ok plain_fernet"
proof -
  have "dropWhile (\<lambda>x. x \<noteq> CHR ''.'') (decimal n @ CHR ''.'' # p) = CHR ''.'' # p" for n p
    using digit_not_stop [of n] by (subst dropWhile_append2) auto
  then show ?thesis by (simp add: fernet_ok_def plain_fernet_def)
qed

lemma connection_tokens_roundtrip_witness:
  "\<exists>c s1. create_or_replace_connection plain_fernet sample_user ''acc'' None (WStr ''A'') (WStr ''R'') hour day [''locks''] 0
       (sample_db OB_COMPLETE LOCK_NONE) = (Inr c, s1)
     \<and> get_decrypted_access_token plain_fernet sample_user minute s1 = (Inr ''A'', s1)"
proof -
  let ?s = "sample_db OB_COMPLETE LOCK_NONE"
  have none: "\<not> account_taken sample_user ''acc'' ?s" by (simp add: account_taken_def sample_db_def)
  have ne: "nonblank ''acc''" "nonblank ''A''" "nonblank ''R''" by (simp_all add: nonblank_def py_space_def)
  have u: "nonblank sample_user" by (simp add: sample_user_def)
  have "\<exists>c s1. create_or_replace_connection plain_fernet sample_user ''acc'' None (WStr ''A'') (WStr ''R'') hour day [''locks''] 0 ?s
      = (Inr c, s1)"
    using none ne u sample_known [of OB_COMPLETE LOCK_NONE] by (simp add: create_or_replace_connection_eq Let_def)
  then obtain c s1 where run: "create_or_replace_connection plain_fernet sample_user ''acc'' None (WStr ''A'') (WStr ''R'')
      hour day [''locks''] 0 ?s = (Inr c, s1)" by blast
  then show ?thesis using connection_tokens_roundtrip [OF plain_fernet_ok run, of minute] by auto
qed

section \<open>The observation log\<close>

lemma log_untouched:
  "op_keeps (\<lambda>s. chaster_provider_observations s = X) (mark_needs_reauthorization u now)"
  "op_keeps (\<lambda>s. chaster_provider_observations s = X) (get_decrypted f field u now)"
  "op_keeps (\<lambda>s. chaster_provider_observations s = X)
     (create_or_replace_connection f u account username access refresh ae re scopes now)"
proof -
  show m: "op_keeps (\<lambda>s. chaster_provider_observations s = X) (mark_needs_reauthorization u now)"
    by (rule op_keepsI) (simp add: mark_needs_reauthorization_eq)
  show "op_keeps (\<lambda>s. chaster_provider_observations s = X) (get_decrypted f field u now)"
    by (rule op_keepsI) (auto simp: get_decrypted_eq mark_needs_reauthorization_eq split: option.split)
  show "op_keeps (\<lambda>s. chaster_provider_observations s = X)
     (create_or_replace_connection f u account username access refresh ae re scopes now)"
    by (rule op_keepsI) (simp add: create_or_replace_connection_eq Let_def split: sum.split)
qed

lemma log_untouched_refresh:
  "op_keeps (\<lambda>s. chaster_provider_observations s = X) (refresh_and_persist c send f u connection now)"
  unfolding refresh_and_persist_def get_decrypted_refresh_token_def
  by (intro op_keeps_bind op_keeps_catch op_keeps_return log_untouched)
    (auto intro!: op_keeps_bind op_keeps_return op_keeps_raise log_untouched split: option.split sum.split)

lemma last_known_eq: "nonblank u \<Longrightarrow>
    last_known o' u s = (Inr \<lparr>fr_outcome = o', fr_observation = latest_observation u s\<rparr>, s)"
  by (simp add: last_known_def op_bind_def get_latest_observation_eq op_return_def)

lemma latest_observation_cong:
  "chaster_provider_observations s' = chaster_provider_observations s \<Longrightarrow> latest_observation u s' = latest_observation u s"
  by (simp add: latest_observation_def observations_of_def)

definition reported :: "transport \<Rightarrow> fetch_result \<Rightarrow> provider_observation \<Rightarrow> bool" where
  \<comment> \<open>a row that states what one reply of \<open>GET /locks\<close> said\<close>
  "reported send r row \<longleftrightarrow> (\<exists>access.
     (list_active_locks send access = Inr [] \<and> fr_outcome r = FO_ZERO_ACTIVE_LOCKS \<and>
        po_status row = PS_UNLOCKED \<and> po_chaster_lock_id row = None) \<or>
     (\<exists>kvs w. list_active_locks send access = Inr [WObj kvs] \<and> map_of kvs ''status'' = Some w \<and>
        fr_outcome r = FO_RECORDED \<and> status_of_wire w = Some (po_status row)))"

definition appended ::
  "transport \<Rightarrow> string \<Rightarrow> time \<Rightarrow> provider_observation list \<Rightarrow> fetch_result \<Rightarrow> 'm chaster_db_scheme \<Rightarrow> bool" where
  "appended send u now old r s1 \<longleftrightarrow> (\<exists>row. chaster_provider_observations s1 = old @ [row] \<and>
     fr_observation r = Some row \<and> po_connection_id row = u \<and> po_fetched_at row = now \<and> reported send r row)"

definition stale ::
  "string \<Rightarrow> provider_observation list \<Rightarrow> fetch_result \<Rightarrow> 'm chaster_db_scheme \<Rightarrow> bool" where
  "stale u old r s1 \<longleftrightarrow> chaster_provider_observations s1 = old \<and>
     fr_outcome r \<notin> {FO_RECORDED, FO_ZERO_ACTIVE_LOCKS} \<and>
     fr_observation r = (if fr_outcome r = FO_NO_CONNECTION then None else latest_observation u s1)"

lemma record_fetched_effect:
  assumes run: "record_fetched o' u lock_id status now s = (Inr r, s1)"
  shows "\<exists>row. chaster_provider_observations s1 = chaster_provider_observations s @ [row] \<and>
    r = \<lparr>fr_outcome = o', fr_observation = Some row\<rparr> \<and> po_connection_id row = u \<and> po_fetched_at row = now \<and>
    po_status row = status \<and> po_chaster_lock_id row = lock_id"
  using run by (auto simp: record_fetched_def op_bind_def op_return_def record_observation_eq Let_def
      observation_row_def split: if_splits)

lemma record_locks_effect:
  assumes run: "record_locks u locks now s = (Inr r, s1)" and u: "nonblank u"
    and reply: "list_active_locks send access = Inr locks"
  shows "appended send u now (chaster_provider_observations s) r s1 \<or> stale u (chaster_provider_observations s) r s1"
proof (cases locks)
  case Nil
  then have "record_fetched FO_ZERO_ACTIVE_LOCKS u None PS_UNLOCKED now s = (Inr r, s1)"
    using run by (simp add: record_locks_def)
  from record_fetched_effect [OF this] show ?thesis using reply Nil
    by (auto simp: appended_def reported_def)
next
  case (Cons lock more_locks)
  show ?thesis
  proof (cases more_locks)
    case (Cons l ls)
    then show ?thesis using run \<open>locks = lock # more_locks\<close>
      by (auto simp: record_locks_def last_known_eq [OF u] stale_def)
  next
    case Nil
    then have locks: "locks = [lock]" using Cons by simp
    show ?thesis
    proof (cases lock)
      case (WObj kvs)
      let ?w = "case map_of kvs ''status'' of None \<Rightarrow> WNull | Some v \<Rightarrow> v"
      show ?thesis
      proof (cases "status_of_wire ?w")
        case None
        then show ?thesis using run locks WObj
          by (auto simp: record_locks_def op_bind_def op_lift_def last_known_eq [OF u] stale_def)
      next
        case (Some status)
        then obtain lock_id where "record_fetched FO_RECORDED u lock_id status now s = (Inr r, s1)"
          using run locks WObj by (auto simp: record_locks_def op_bind_def op_lift_def)
        note eff = record_fetched_effect [OF this]
        obtain w where w: "map_of kvs ''status'' = Some w" "status_of_wire w = Some status"
          using Some by (cases "map_of kvs ''status''") (auto simp: status_of_wire_def)
        obtain row where row: "chaster_provider_observations s1 = chaster_provider_observations s @ [row]"
          "r = \<lparr>fr_outcome = FO_RECORDED, fr_observation = Some row\<rparr>" "po_connection_id row = u"
          "po_fetched_at row = now" "po_status row = status" using eff by blast
        have "list_active_locks send access = Inr [WObj kvs]" using reply locks WObj by simp
        then have "reported send r row" unfolding reported_def using w row(2,5) by fastforce
        then show ?thesis using row by (simp add: appended_def)
      qed
    qed (use run locks in \<open>simp_all add: record_locks_def op_bind_def op_lift_def\<close>)
  qed
qed

lemma fetch_locks_effect:
  assumes run: "fetch_locks send f u now s = (Inr r, s1)" and u: "nonblank u"
  shows "appended send u now (chaster_provider_observations s) r s1 \<or> stale u (chaster_provider_observations s) r s1"
proof -
  obtain access where dec: "get_decrypted_access_token f u now s = (Inr access, s)"
    and rest: "(case list_active_locks send access of
       Inl (ChasterLockApiError m) \<Rightarrow> last_known FO_API_UNAVAILABLE u
     | Inl e \<Rightarrow> op_raise e
     | Inr locks \<Rightarrow> record_locks u locks now) s = (Inr r, s1)"
    using run by (auto simp: fetch_locks_def op_bind_def get_decrypted_access_token_def get_decrypted_eq
        split: if_splits option.splits)
  show ?thesis
  proof (cases "list_active_locks send access")
    case (Inl e)
    then show ?thesis using rest
      by (cases e) (auto simp: op_raise_def last_known_eq [OF u] stale_def)
  next
    case (Inr locks)
    then show ?thesis using rest record_locks_effect [OF _ u Inr] by simp
  qed
qed

text \<open>Fetching the provider's state either appends exactly one row, dated now and stating what a
  successful reply with no lock or with one lock of a known status said, or leaves the log as it was
  and hands back the last known row (none without a connection); UNLOCKED is never recorded for a
  failed, ambiguous or unparsable reply.\<close>
theorem fetch_records_only_reports:
  assumes "fetch_and_record c send f u now s = (Inr r, s1)"
  shows "appended send u now (chaster_provider_observations s) r s1 \<or> stale u (chaster_provider_observations s) r s1"
proof -
  have u: "nonblank u" using assms by (auto simp: fetch_and_record_def op_bind_def get_connection_eq split: if_splits)
  show ?thesis
  proof (cases "connection_of u s")
    case None
    then show ?thesis using assms u
      by (auto simp: fetch_and_record_def op_bind_def get_connection_eq op_return_def stale_def)
  next
    case (Some connection)
    show ?thesis
    proof (cases "cc_access_token_expires_at connection \<le> now")
      case False
      then show ?thesis using assms u Some fetch_locks_effect
        by (simp add: fetch_and_record_def op_bind_def get_connection_eq)
    next
      case True
      let ?ref = "refresh_and_persist c send f u connection now s"
      obtain refreshed s' where ref: "?ref = (Inr refreshed, s')"
        and rest: "(if refreshed = None then last_known FO_NEEDS_REAUTHORIZATION u else fetch_locks send f u now) s'
          = (Inr r, s1)"
        using assms u Some True
        by (auto simp: fetch_and_record_def op_bind_def get_connection_eq split: prod.splits sum.splits)
      have unchanged: "chaster_provider_observations s' = chaster_provider_observations s"
        using op_keepsD [OF log_untouched_refresh, of s "chaster_provider_observations s" c send f u connection now] ref
        by simp
      show ?thesis
      proof (cases refreshed)
        case None
        then show ?thesis using rest unchanged by (auto simp: last_known_eq [OF u] stale_def)
      next
        case (Some row)
        then show ?thesis using rest fetch_locks_effect [OF _ u, of send f now s' r s1] unchanged by simp
      qed
    qed
  qed
qed

definition sample_client :: oauth_client where
  "sample_client = \<lparr>oc_client_id = ''id'', oc_client_secret = ''secret'', oc_redirect_uri = ''uri''\<rparr>"

definition one_lock :: transport where
  "one_lock r = HTTP_REPLY 200 (Some (WList [WObj [(''_id'', WStr ''L1''), (''status'', WStr ''locked'')]]))"

definition sample_connection :: chaster_connection where
  "sample_connection = \<lparr>cc_user_id = sample_user, cc_account_id = ''acc'', cc_username = None,
     cc_encrypted_access_token = ''0.A'', cc_encrypted_refresh_token = ''0.R'', cc_encryption_key_version = None,
     cc_access_token_expires_at = hour, cc_refresh_token_expires_at = day, cc_granted_scopes = [''locks''],
     cc_status = CS_ACTIVE, cc_created_at = 0, cc_updated_at = 0\<rparr>"

definition connected_db :: chaster_db where
  "connected_db = (sample_db OB_COMPLETE LOCK_NONE)\<lparr>chaster_connections := [sample_connection]\<rparr>"

lemma connected_facts:
  "connection_of sample_user connected_db = Some sample_connection" "nonblank sample_user"
  "get_decrypted_access_token plain_fernet sample_user now connected_db = (Inr ''A'', connected_db)"
  by (simp_all add: connection_of_def connected_db_def sample_connection_def sample_user_def
      get_decrypted_access_token_def get_decrypted_eq plain_fernet_def)

lemma one_lock_listed: "list_active_locks one_lock ''A'' = Inr [WObj [(''_id'', WStr ''L1''), (''status'', WStr ''locked'')]]"
  by (simp add: list_active_locks_def one_lock_def nonblank_def py_space_def)

lemma fetch_records_only_reports_witness:
  "\<exists>r s1. fetch_and_record sample_client one_lock plain_fernet sample_user 0 connected_db = (Inr r, s1)
    \<and> (appended one_lock sample_user 0 (chaster_provider_observations connected_db) r s1
       \<or> stale sample_user (chaster_provider_observations connected_db) r s1) \<and> fr_outcome r = FO_RECORDED"
proof -
  have "\<exists>r s1. fetch_and_record sample_client one_lock plain_fernet sample_user 0 connected_db = (Inr r, s1)
    \<and> fr_outcome r = FO_RECORDED"
    using connected_facts
    by (simp add: fetch_and_record_def op_bind_def get_connection_eq fetch_locks_def one_lock_listed record_locks_def
        op_lift_def status_of_wire_def record_fetched_def record_observation_eq Let_def op_return_def)
      (simp add: sample_connection_def hour_def provider_name_def nonblank_def py_space_def)
  then obtain r s1 where run: "fetch_and_record sample_client one_lock plain_fernet sample_user 0 connected_db = (Inr r, s1)"
    and out: "fr_outcome r = FO_RECORDED" by blast
  show ?thesis using fetch_records_only_reports [OF run] run out by blast
qed

section \<open>Disconnecting\<close>

text \<open>Once the provider has been observed through a connection, \<open>delete\<close> cannot remove it: the
  foreign key of the append-only observation log makes every later disconnect raise and change
  nothing.\<close>
theorem disconnect_blocked_by_observation:
  assumes "record_observation u provider lock_id status fetched now s = (Inr r, s1)"
  shows "delete_connection u s1 = (Inl IntegrityError, s1)"
  using assms by (auto simp: record_observation_eq delete_connection_eq observed_def observation_row_def Let_def
      split: if_splits)

lemma disconnect_blocked_by_observation_witness:
  "\<exists>r s1. record_observation sample_user ''chaster'' None PS_UNLOCKED 0 0 connected_db = (Inr r, s1)
    \<and> delete_connection sample_user s1 = (Inl IntegrityError, s1)"
proof -
  obtain r s1 where run: "record_observation sample_user ''chaster'' None PS_UNLOCKED 0 0 connected_db = (Inr r, s1)"
    using connected_facts by (auto simp: record_observation_eq Let_def nonblank_def py_space_def)
  then show ?thesis using disconnect_blocked_by_observation [OF run] by blast
qed

section \<open>The emergency unlock\<close>

text \<open>C18: an unlock is reported as successful only when the account had exactly one active lock, that
  lock was found eligible, and the provider confirmed the request for that very lock with HTTP 204;
  the extractor of the production wiring never reports success.\<close>
theorem unlock_requires_confirmation:
  assumes "attempt_unlock send extractor access = Inr r" and "pr_outcome r = UNLOCK_SUCCEEDED"
  shows "(\<exists>lock e body. list_active_locks send access = Inr [lock] \<and> extractor lock = Inr e \<and> le_eligible e
      \<and> send (emergency_unlock_request access (le_lock_id e)) = HTTP_REPLY 204 body)
    \<and> extractor \<noteq> unconfirmed_lock_field_extractor"
proof -
  obtain locks where locks: "list_active_locks send access = Inr locks"
    using assms by (cases "list_active_locks send access")
      (auto simp: attempt_unlock_def unlock_failed_def split: exn.splits)
  obtain lock where one: "locks = [lock]"
    using assms locks by (cases locks) (auto simp: attempt_unlock_def unlock_failed_def split: if_splits)
  obtain e where e: "extractor lock = Inr e"
    using assms locks one by (cases "extractor lock")
      (auto simp: attempt_unlock_def unlock_failed_def split: exn.splits)
  have ok: "le_eligible e" using assms locks one e by (auto simp: attempt_unlock_def unlock_failed_def split: if_splits)
  obtain h where h: "emergency_unlock send access (le_lock_id e) = Inr h"
    using assms locks one e ok by (cases "emergency_unlock send access (le_lock_id e)")
      (auto simp: attempt_unlock_def unlock_failed_def split: exn.splits)
  have "fst h = HTTP_SUCCEEDED"
    using assms locks one e ok h by (cases h) (auto simp: attempt_unlock_def unlock_failed_def split: if_splits)
  then have "\<exists>body. send (emergency_unlock_request access (le_lock_id e)) = HTTP_REPLY 204 body"
    using h by (auto simp: emergency_unlock_def outcome_of_status_def split: if_splits http_result.splits)
  moreover have "extractor \<noteq> unconfirmed_lock_field_extractor"
    using e by (auto simp: unconfirmed_lock_field_extractor_def)
  ultimately show ?thesis using locks one e ok by blast
qed

definition confirming :: transport where
  "confirming r = (if rq_method r = ''POST'' then HTTP_REPLY 204 None else one_lock r)"

definition trusting_extractor :: "wire \<Rightarrow> exn + lock_eligibility" where
  "trusting_extractor w = Inr \<lparr>le_lock_id = ''L1'', le_eligible = True, le_reason = []\<rparr>"

lemma unlock_requires_confirmation_witness:
  "\<exists>r. attempt_unlock confirming trusting_extractor ''A'' = Inr r \<and> pr_outcome r = UNLOCK_SUCCEEDED
    \<and> (\<exists>lock. list_active_locks confirming ''A'' = Inr [lock])"
proof -
  have l: "list_active_locks confirming ''A'' = Inr [WObj [(''_id'', WStr ''L1''), (''status'', WStr ''locked'')]]"
    by (simp add: list_active_locks_def confirming_def one_lock_def bearer_get_def nonblank_def py_space_def)
  have "emergency_unlock confirming ''A'' ''L1'' = Inr (HTTP_SUCCEEDED, 204)"
    by (simp add: emergency_unlock_def emergency_unlock_request_def confirming_def outcome_of_status_def
        nonblank_def py_space_def)
  then obtain r where run: "attempt_unlock confirming trusting_extractor ''A'' = Inr r" "pr_outcome r = UNLOCK_SUCCEEDED"
    using l by (simp add: attempt_unlock_def trusting_extractor_def)
  show ?thesis using unlock_requires_confirmation [OF run] run by blast
qed

fun trail_of :: "unlock_status \<Rightarrow> string list" where
  "trail_of US_AUTH_FAILED = [''chaster_emergency.auth_failed'']"
| "trail_of US_NO_CONNECTION = [''chaster_emergency.request_accepted'', ''chaster_emergency.no_connection'']"
| "trail_of US_PROVIDER_SUCCEEDED = [''chaster_emergency.request_accepted'',
     ''chaster_emergency.provider_attempted'', ''chaster_emergency.provider_succeeded'']"
| "trail_of US_PROVIDER_FAILED = [''chaster_emergency.request_accepted'',
     ''chaster_emergency.provider_attempted'', ''chaster_emergency.provider_failed'']"

definition audit_event :: "uid \<Rightarrow> string \<Rightarrow> string \<Rightarrow> payload \<Rightarrow> time \<Rightarrow> event_row" where
  "audit_event i ty u detail now = event_row_of i \<lparr>de_type = ty, de_source = ''chaster_emergency'',
     de_payload = (''user_id'', JStr u) # detail, de_occurred_at = now\<rparr>"

definition with_event :: "event_row \<Rightarrow> 'm outbox_db_scheme \<Rightarrow> 'm outbox_db_scheme" where
  "with_event r s = s\<lparr>next_id := Suc (next_id s), domain_events := domain_events s @ [r]\<rparr>"

lemma audit_eq: "audit ty u detail now s = (Inr (), with_event (audit_event (next_id s) ty u detail now) s)"
  by (simp add: audit_def atomically_def tx_simps insert_event_def audit_event_def with_event_def)

lemma audit_event_sel [simp]: "ev_type (audit_event i ty u d now) = ty"
  "ev_source (audit_event i ty u d now) = ''chaster_emergency''" "ev_occurred_at (audit_event i ty u d now) = now"
  "ev_payload (audit_event i ty u d now) = (''user_id'', JStr u) # d"
  by (simp_all add: audit_event_def event_row_of_def)

lemma with_event_sel [simp]: "domain_events (with_event r s) = domain_events s @ [r]"
  "connection_of u (with_event r s) = connection_of u s" "next_id (with_event r s) = Suc (next_id s)"
  by (simp_all add: with_event_def connection_of_def)

text \<open>When an emergency request is answered, exactly the audit events of its terminal status were
  appended, in order, each naming the account; the status is an authentication failure exactly when the
  presented secret is not the configured one.\<close>
theorem unlock_audit_matches_status:
  assumes "request_unlock f provider expected presented u now s = (Inr r, s1)"
  shows "(\<exists>evs. domain_events s1 = domain_events s @ evs \<and> map ev_type evs = trail_of (ur_status r)
      \<and> list_all (\<lambda>e. ev_source e = ''chaster_emergency'' \<and> ev_occurred_at e = now
           \<and> map_of (ev_payload e) ''user_id'' = Some (JStr u)) evs)
    \<and> (ur_status r = US_AUTH_FAILED \<longleftrightarrow> expected \<noteq> Some presented \<or> presented = [])"
proof -
  obtain ok where auth: "authenticate expected presented = Inr ok"
    using assms by (cases "authenticate expected presented") (auto simp: request_unlock_def op_bind_def op_lift_def)
  then have ok: "ok \<longleftrightarrow> expected = Some presented \<and> presented \<noteq> []"
    by (cases expected) (auto simp: authenticate_def given_def compare_digest_def split: if_splits)
  note evals = request_unlock_def op_bind_def op_lift_def op_return_def audit_eq get_connection_eq
  show ?thesis
  proof (cases ok)
    case False
    then show ?thesis using assms ok by (auto simp: evals auth)
  next
    case True
    let ?s = "with_event (audit_event (next_id s) ''chaster_emergency.request_accepted'' u [] now) s"
    have u: "nonblank u" using assms True by (auto simp: evals auth split: if_splits)
    show ?thesis
    proof (cases "connection_of u s")
      case None
      then show ?thesis using assms True ok u by (auto simp: evals auth)
    next
      case (Some connection)
      obtain access where acc: "get_decrypted_access_token f u now ?s = (Inr access, ?s)"
        using assms True u Some by (cases "fn_decrypt f (cc_encrypted_access_token connection)")
          (simp_all add: evals auth get_decrypted_access_token_def get_decrypted_eq)
      obtain result where res: "provider access = Inr result"
        using assms True u Some acc by (cases "provider access") (simp_all add: evals auth)
      show ?thesis using assms True ok u Some acc res
        by (cases "pr_outcome result") (auto simp: evals auth)
    qed
  qed
qed

lemma unlock_audit_matches_status_witness:
  "\<exists>r s1. request_unlock plain_fernet (attempt_unlock one_lock unconfirmed_lock_field_extractor) (Some ''k'') ''k''
       sample_user 0 connected_db = (Inr r, s1)
     \<and> ur_status r = US_PROVIDER_FAILED \<and> map ev_type (domain_events s1) = trail_of US_PROVIDER_FAILED"
proof -
  let ?provider = "attempt_unlock one_lock unconfirmed_lock_field_extractor"
  have auth: "authenticate (Some ''k'') ''k'' = Inr True"
    by (simp add: authenticate_def given_def compare_digest_def ascii_def)
  have prov: "\<exists>d. ?provider ''A'' = Inr (unlock_failed d)"
    by (simp add: attempt_unlock_def one_lock_listed unconfirmed_lock_field_extractor_def) (rule exI, rule refl)
  have dec: "get_decrypted_access_token plain_fernet sample_user 0 (with_event e connected_db)
      = (Inr ''A'', with_event e connected_db)" for e
    using connected_facts by (simp add: get_decrypted_access_token_def get_decrypted_eq plain_fernet_def sample_connection_def)
  have "\<exists>r s1. request_unlock plain_fernet ?provider (Some ''k'') ''k'' sample_user 0 connected_db = (Inr r, s1)
      \<and> ur_status r = US_PROVIDER_FAILED"
    using connected_facts prov
    by (auto simp: request_unlock_def op_bind_def op_lift_def op_return_def audit_eq auth get_connection_eq dec
        unlock_failed_def)
  then obtain r s1 where run: "request_unlock plain_fernet ?provider (Some ''k'') ''k'' sample_user 0 connected_db
      = (Inr r, s1)" and st: "ur_status r = US_PROVIDER_FAILED" by blast
  have "domain_events connected_db = []" by (simp add: connected_db_def sample_db_def)
  then show ?thesis using unlock_audit_matches_status [OF run] run st by auto
qed

text \<open>A presented secret with a character outside ASCII makes the comparison itself raise: the
  operator gets an internal error instead of an authentication failure and no audit event is
  written.\<close>
theorem non_ascii_secret_unaudited:
  assumes "given expected" and "presented \<noteq> []" and "\<not> ascii presented" and "u \<noteq> []"
  shows "request_unlock f provider expected presented u now s = (Inl TypeError, s)
    \<and> handle_unlock f provider expected (Some (WObj [(''secret'', WStr presented), (''user_id'', WStr u)])) now s = (500, s)"
proof -
  have "request_unlock f provider expected presented u now s = (Inl TypeError, s)"
    using assms by (simp add: request_unlock_def op_bind_def op_lift_def authenticate_def compare_digest_def)
  then show ?thesis using assms(4) by (simp add: handle_unlock_def body_field_def)
qed

lemma non_ascii_secret_unaudited_witness:
  "handle_unlock plain_fernet (\<lambda>_. Inr (unlock_failed [])) (Some ''k'')
     (Some (WObj [(''secret'', WStr [char_of (233::nat)]), (''user_id'', WStr ''u'')])) 0 connected_db = (500, connected_db)"
  using non_ascii_secret_unaudited [of "Some ''k''" "[char_of (233::nat)]" "''u''" plain_fernet
      "\<lambda>_. Inr (unlock_failed [])" 0 connected_db]
  by (simp add: given_def ascii_def)

end
