(* ===== verification/Working_Memory.thy ===== *)
theory Working_Memory
  imports Texts Store "HOL-Library.Sublist"
begin

text \<open>
  \<open>memory_system/working_memory.py\<close>: the process-lifetime memory of each subject's recent
  exchanges. A commit appends a whole exchange and drops the oldest whole exchanges until both
  budgets hold.
\<close>

section \<open>Data\<close>

datatype memory_role = USER_ROLE | ASSISTANT_ROLE

record memory_turn =
  wm_role :: memory_role
  wm_content :: string

type_synonym exchange = "memory_turn \<times> memory_turn"

type_synonym exchanges = "string \<rightharpoonup> exchange list"

record memory_limits =
  max_exchanges :: nat
  max_characters :: nat

definition require_positive :: "int \<Rightarrow> exn + nat" where
  "require_positive n = (if n \<le> 0 then Inl ValueError else Inr (nat n))"

definition new_working_memory :: "int \<Rightarrow> int \<Rightarrow> exn + (memory_limits \<times> exchanges)" where
  "new_working_memory e c = (case require_positive e of Inl x \<Rightarrow> Inl x | Inr m \<Rightarrow>
     (case require_positive c of Inl x \<Rightarrow> Inl x | Inr n \<Rightarrow>
        Inr (\<lparr>max_exchanges = m, max_characters = n\<rparr>, Map.empty)))"

definition memory_turn_of :: "memory_role \<Rightarrow> string \<Rightarrow> exn + memory_turn" where
  \<comment> \<open>\<open>WorkingMemoryTurn.__post_init__\<close>\<close>
  "memory_turn_of r c = (if nonblank c then Inr \<lparr>wm_role = r, wm_content = c\<rparr> else Inl ValueError)"

section \<open>read()\<close>

fun turns_of :: "exchange list \<Rightarrow> memory_turn list" where
  "turns_of [] = []"
| "turns_of ((u, a) # ps) = u # a # turns_of ps"

definition read_memory :: "string \<Rightarrow> exchanges \<Rightarrow> exn + memory_turn list" where
  "read_memory k m = (if \<not> nonblank k then Inl ValueError
     else Inr (turns_of (case m k of None \<Rightarrow> [] | Some ps \<Rightarrow> ps)))"

section \<open>commit_exchange()\<close>

definition exchange_size :: "exchange \<Rightarrow> nat" where
  "exchange_size p = length (wm_content (fst p)) + length (wm_content (snd p))"

definition total_characters :: "exchange list \<Rightarrow> nat" where
  "total_characters ps = sum_list (map exchange_size ps)"

function trim_count :: "nat \<Rightarrow> exchange list \<Rightarrow> exchange list" where
  "trim_count n ps = (if n < length ps then trim_count n (tl ps) else ps)"
  by pat_completeness auto
termination by (relation "measure (\<lambda>(n, ps). length ps)") auto

function trim_characters :: "nat \<Rightarrow> exchange list \<Rightarrow> exchange list" where
  "trim_characters n ps = (if ps \<noteq> [] \<and> n < total_characters ps then trim_characters n (tl ps) else ps)"
  by pat_completeness auto
termination by (relation "measure (\<lambda>(n, ps). length ps)") auto

declare trim_count.simps [simp del] trim_characters.simps [simp del]

definition trim :: "memory_limits \<Rightarrow> exchange list \<Rightarrow> exchange list" where
  "trim l ps = trim_characters (max_characters l) (trim_count (max_exchanges l) ps)"

definition commit_exchange ::
  "memory_limits \<Rightarrow> string \<Rightarrow> string \<Rightarrow> string \<Rightarrow> exchanges \<Rightarrow> (exn + unit) \<times> exchanges" where
  "commit_exchange l k u a m =
     (if \<not> nonblank k \<or> \<not> nonblank u \<or> \<not> nonblank a then (Inl ValueError, m)
      else if max_characters l < length u + length a then (Inl WorkingMemoryCapacityError, m)
      else case (memory_turn_of USER_ROLE u, memory_turn_of ASSISTANT_ROLE a) of
             (Inr user_turn, Inr assistant_turn) \<Rightarrow>
               (Inr (), m(k \<mapsto> trim l ((case m k of None \<Rightarrow> [] | Some ps \<Rightarrow> ps) @ [(user_turn, assistant_turn)])))
           | (Inl e, _) \<Rightarrow> (Inl e, m)
           | (_, Inl e) \<Rightarrow> (Inl e, m))"

section \<open>Trimming keeps the longest admissible suffix\<close>

definition admissible :: "memory_limits \<Rightarrow> exchange list \<Rightarrow> bool" where
  "admissible l ps \<longleftrightarrow> length ps \<le> max_exchanges l \<and> total_characters ps \<le> max_characters l"

lemma total_characters_tl: "total_characters (tl ps) \<le> total_characters ps"
  by (cases ps) (simp_all add: total_characters_def)

lemma total_characters_suffix:
  assumes "suffix qs ps"
  shows "total_characters qs \<le> total_characters ps"
  using assms by (auto simp: suffix_def total_characters_def)

lemma trim_count_spec: "suffix (trim_count n ps) ps \<and> length (trim_count n ps) \<le> n \<and>
    (\<forall>qs. suffix qs ps \<and> length qs \<le> n \<longrightarrow> suffix qs (trim_count n ps))"
proof (induction n ps rule: trim_count.induct)
  case (1 n ps)
  show ?case
  proof (cases "n < length ps")
    case True
    then obtain p rest where ps: "ps = p # rest" by (cases ps) auto
    have "suffix qs rest" if "suffix qs ps" "length qs \<le> n" for qs
      using that True by (auto simp: ps suffix_Cons)
    then show ?thesis using 1 [OF True] True
      by (simp add: ps trim_count.simps [of n "p # rest"] suffix_ConsI)
  next
    case False
    then show ?thesis by (simp add: trim_count.simps [of n ps])
  qed
qed

lemma trim_characters_spec: "suffix (trim_characters n ps) ps \<and> total_characters (trim_characters n ps) \<le> n \<and>
    (\<forall>qs. suffix qs ps \<and> total_characters qs \<le> n \<longrightarrow> suffix qs (trim_characters n ps))"
proof (induction n ps rule: trim_characters.induct)
  case (1 n ps)
  show ?case
  proof (cases "ps \<noteq> [] \<and> n < total_characters ps")
    case True
    then obtain p rest where ps: "ps = p # rest" by (cases ps) auto
    have "suffix qs rest" if "suffix qs ps" "total_characters qs \<le> n" for qs
      using that True by (auto simp: ps suffix_Cons)
    then show ?thesis using 1 [OF True] True
      by (simp add: ps trim_characters.simps [of n "p # rest"] suffix_ConsI)
  next
    case False
    then show ?thesis by (auto simp: trim_characters.simps [of n ps] total_characters_def)
  qed
qed

lemma trim_spec:
  "suffix (trim l ps) ps \<and> admissible l (trim l ps) \<and>
   (\<forall>qs. suffix qs ps \<and> admissible l qs \<longrightarrow> suffix qs (trim l ps))"
proof -
  let ?c = "trim_count (max_exchanges l) ps"
  note c = trim_count_spec [of "max_exchanges l" ps]
  note t = trim_characters_spec [of "max_characters l" ?c]
  have "suffix (trim l ps) ps" using c t unfolding trim_def by (blast intro: suffix_order.trans)
  moreover have "length (trim l ps) \<le> max_exchanges l"
    using c t suffix_length_le unfolding trim_def by (metis le_trans)
  ultimately show ?thesis using c t unfolding admissible_def trim_def by blast
qed

lemma trim_keeps_newest:
  assumes "1 \<le> max_exchanges l" and "exchange_size p \<le> max_characters l"
  shows "\<exists>qs. trim l (ps @ [p]) = qs @ [p]"
proof -
  have "admissible l [p]" using assms by (simp add: admissible_def total_characters_def)
  moreover have "suffix [p] (ps @ [p])" by (simp add: suffix_def)
  ultimately have "suffix [p] (trim l (ps @ [p]))" using trim_spec by blast
  then show ?thesis by (auto simp: suffix_def)
qed

lemma trim_elems: "p \<in> set (trim l (ps @ [q])) \<Longrightarrow> p = q \<or> p \<in> set ps"
proof -
  assume "p \<in> set (trim l (ps @ [q]))"
  moreover have "suffix (trim l (ps @ [q])) (ps @ [q])" using trim_spec by blast
  ultimately have "p \<in> set (ps @ [q])" by (metis set_mono_suffix subsetD)
  then show ?thesis by auto
qed

lemma suffix_one_longer: "older \<noteq> [] \<Longrightarrow> suffix (last older # ks) (older @ ks)"
  by (induction older rule: rev_induct) (auto simp: suffix_def)

lemma commit_exchange_eq:
  "commit_exchange l k u a m =
    (if \<not> nonblank k \<or> \<not> nonblank u \<or> \<not> nonblank a then (Inl ValueError, m)
     else if max_characters l < length u + length a then (Inl WorkingMemoryCapacityError, m)
     else (Inr (), m(k \<mapsto> trim l ((case m k of None \<Rightarrow> [] | Some ps \<Rightarrow> ps) @
        [(\<lparr>wm_role = USER_ROLE, wm_content = u\<rparr>, \<lparr>wm_role = ASSISTANT_ROLE, wm_content = a\<rparr>)]))))"
  by (simp add: commit_exchange_def memory_turn_of_def)

definition exchange_ok :: "exchange \<Rightarrow> bool" where
  "exchange_ok p \<longleftrightarrow> wm_role (fst p) = USER_ROLE \<and> wm_role (snd p) = ASSISTANT_ROLE \<and>
     nonblank (wm_content (fst p)) \<and> nonblank (wm_content (snd p))"

definition memory_ok :: "memory_limits \<Rightarrow> exchanges \<Rightarrow> bool" where
  "memory_ok l m \<longleftrightarrow> 1 \<le> max_exchanges l \<and> 1 \<le> max_characters l \<and>
     (\<forall>k ps. m k = Some ps \<longrightarrow> nonblank k \<and> admissible l ps \<and> (\<forall>p \<in> set ps. exchange_ok p))"

lemma new_working_memory_ok: "new_working_memory e c = Inr (l, m) \<Longrightarrow> memory_ok l m"
  by (auto simp: new_working_memory_def require_positive_def memory_ok_def split: if_splits)

lemma memory_ok_commit:
  assumes ok: "memory_ok l m"
  shows "memory_ok l (snd (commit_exchange l k u a m))"
proof (cases "nonblank k \<and> nonblank u \<and> nonblank a \<and> length u + length a \<le> max_characters l")
  case False
  then show ?thesis using ok by (auto simp: commit_exchange_eq)
next
  case True
  let ?p = "(\<lparr>wm_role = USER_ROLE, wm_content = u\<rparr>, \<lparr>wm_role = ASSISTANT_ROLE, wm_content = a\<rparr>)"
  let ?old = "case m k of None \<Rightarrow> [] | Some ps \<Rightarrow> ps"
  have old: "exchange_ok p" if "p \<in> set ?old" for p
    using ok that by (cases "m k") (auto simp: memory_ok_def)
  let ?kept = "trim l (?old @ [?p])"
  have new: "exchange_ok ?p" using True by (simp add: exchange_ok_def)
  have "exchange_ok p" if "p \<in> set ?kept" for p
    using trim_elems that old new by blast
  then have "\<forall>p \<in> set ?kept. exchange_ok p" by blast
  moreover have "admissible l ?kept" using trim_spec by blast
  moreover have "snd (commit_exchange l k u a m) = m(k \<mapsto> ?kept)"
    using True by (simp add: commit_exchange_eq)
  moreover have "nonblank k" using True by blast
  ultimately show ?thesis using ok by (simp add: memory_ok_def)
qed

section \<open>Properties\<close>

text \<open>C14: committing an exchange that fits the character budget keeps, for its subject, exactly the
  longest run of most recent whole exchanges that respects both budgets; the new exchange is
  always among them, and no other subject's memory changes.\<close>
theorem commit_keeps_longest_recent_run:
  assumes "memory_ok l m" and "commit_exchange l k u a m = (Inr x, m')"
  shows "\<exists>kept. m' k = Some kept \<and> admissible l kept \<and>
     (\<exists>older. (case m k of None \<Rightarrow> [] | Some ps \<Rightarrow> ps) = older @ butlast kept \<and>
        (older = [] \<or> \<not> admissible l (last older # kept))) \<and>
     last kept = (\<lparr>wm_role = USER_ROLE, wm_content = u\<rparr>, \<lparr>wm_role = ASSISTANT_ROLE, wm_content = a\<rparr>) \<and>
     (\<forall>j. j = k \<or> m' j = m j)"
proof -
  let ?p = "(\<lparr>wm_role = USER_ROLE, wm_content = u\<rparr>, \<lparr>wm_role = ASSISTANT_ROLE, wm_content = a\<rparr>)"
  let ?old = "case m k of None \<Rightarrow> [] | Some ps \<Rightarrow> ps"
  let ?kept = "trim l (?old @ [?p])"
  have m': "m' = m(k \<mapsto> ?kept)" and fits: "length u + length a \<le> max_characters l"
    using assms(2) by (auto simp: commit_exchange_eq split: if_splits)
  have "1 \<le> max_exchanges l" using assms(1) by (simp add: memory_ok_def)
  then obtain qs where qs: "?kept = qs @ [?p]"
    using trim_keeps_newest [of l ?p ?old] fits by (auto simp: exchange_size_def)
  note spec = trim_spec [of l "?old @ [?p]"]
  obtain older where older: "?old @ [?p] = older @ ?kept" using spec by (auto simp: suffix_def)
  then have old: "?old = older @ qs" by (simp add: qs)
  have "\<not> admissible l (last older # ?kept)" if ne: "older \<noteq> []"
  proof
    assume adm: "admissible l (last older # ?kept)"
    have "suffix (last older # ?kept) (?old @ [?p])"
      by (subst older) (rule suffix_one_longer [OF ne])
    with adm have "suffix (last older # ?kept) ?kept" using spec by blast
    then show False using suffix_length_le by fastforce
  qed
  then have maximal: "older = [] \<or> \<not> admissible l (last older # ?kept)" by blast
  have "?old = older @ butlast ?kept" unfolding qs butlast_snoc by (rule old)
  with maximal have "\<exists>older. ?old = older @ butlast ?kept \<and> (older = [] \<or> \<not> admissible l (last older # ?kept))"
    by blast
  moreover have "m' k = Some ?kept" "last ?kept = ?p" "\<forall>j. j = k \<or> m' j = m j" "admissible l ?kept"
    using spec by (simp_all add: m' qs)
  ultimately show ?thesis by blast
qed

definition sample_limits :: memory_limits where
  "sample_limits = \<lparr>max_exchanges = 2, max_characters = 8\<rparr>"

definition turn_pair :: "string \<Rightarrow> string \<Rightarrow> exchange" where
  "turn_pair u a = (\<lparr>wm_role = USER_ROLE, wm_content = u\<rparr>, \<lparr>wm_role = ASSISTANT_ROLE, wm_content = a\<rparr>)"

definition sample_memory :: exchanges where
  "sample_memory = [''u1'' \<mapsto> [turn_pair ''abc'' ''d'', turn_pair ''e'' ''f'']]"

lemma sample_memory_ok: "memory_ok sample_limits sample_memory"
  by (simp add: memory_ok_def exchange_ok_def sample_limits_def sample_memory_def admissible_def turn_pair_def
      total_characters_def exchange_size_def nonblank_def py_space_def)

lemma commit_keeps_longest_recent_run_witness:
  "\<exists>m'. commit_exchange sample_limits ''u1'' ''ghij'' ''k'' sample_memory = (Inr (), m')
    \<and> m' ''u1'' = Some [turn_pair ''e'' ''f'', turn_pair ''ghij'' ''k'']
    \<and> last (the (m' ''u1'')) = turn_pair ''ghij'' ''k''"
proof -
  let ?kept = "[turn_pair ''e'' ''f'', turn_pair ''ghij'' ''k'']"
  have t: "trim sample_limits ([turn_pair ''abc'' ''d'', turn_pair ''e'' ''f''] @ [turn_pair ''ghij'' ''k'']) = ?kept"
    by (simp add: trim_def sample_limits_def trim_count.simps trim_characters.simps total_characters_def
        exchange_size_def turn_pair_def)
  have run: "commit_exchange sample_limits ''u1'' ''ghij'' ''k'' sample_memory
      = (Inr (), sample_memory(''u1'' \<mapsto> ?kept))"
    using t by (simp add: commit_exchange_eq sample_memory_def nonblank_def py_space_def turn_pair_def)
      (simp add: sample_limits_def)
  show ?thesis
    using commit_keeps_longest_recent_run [OF sample_memory_ok run] run by (auto simp: turn_pair_def)
qed

text \<open>A commit that raises (a blank argument, or a single exchange above the character
  budget) leaves the whole memory as it was, and it raises exactly in these cases.\<close>
theorem commit_exchange_errors:
  "fst (commit_exchange l k u a m) =
     (if \<not> nonblank k \<or> \<not> nonblank u \<or> \<not> nonblank a then Inl ValueError
      else if max_characters l < length u + length a then Inl WorkingMemoryCapacityError else Inr ())
   \<and> (case fst (commit_exchange l k u a m) of Inl e \<Rightarrow> snd (commit_exchange l k u a m) = m | Inr x \<Rightarrow> True)"
  by (simp add: commit_exchange_eq)

end
