(* ===== verification/Conversation.thy ===== *)
theory Conversation
  imports Task_Runtime Working_Memory
begin

text \<open>
  \<open>conversation_engine\<close>: from the user's free text to a reply. Context fragments come from
  providers, the plan and the prompt are built deterministically, the language model is called once
  (a parameter), its text is checked, and only then is the exchange committed to working memory.
  The fixed paragraphs of the prompt are named, not spelled out: a system message is the list of its
  parts.
\<close>

section \<open>Fragments and their frozen data\<close>

text \<open>
  The Python values a provider may return; \<open>P_Object\<close> is any other class. The keys of a mapping are
  arbitrary (hashable) values too, foreign objects included; \<open>_freeze\<close> keeps them as they are.
\<close>

datatype py_value =
    P_None
  | P_Bool bool
  | P_Int int
  | P_Float real
  | P_Str string
  | P_Bytes string
  | P_Dict "(py_value \<times> py_value) list"
  | P_List "py_value list"
  | P_Set "py_value list"
  | P_Mapping_Proxy "(py_value \<times> py_value) list"
  | P_Tuple "py_value list"
  | P_Frozenset "py_value list"
  | P_Object string

fun freeze :: "py_value \<Rightarrow> exn + py_value"
  and freeze_all :: "py_value list \<Rightarrow> exn + py_value list"
  and freeze_items :: "(py_value \<times> py_value) list \<Rightarrow> exn + (py_value \<times> py_value) list" where
  "freeze (P_Dict kvs) = (case freeze_items kvs of Inl e \<Rightarrow> Inl e | Inr l \<Rightarrow> Inr (P_Mapping_Proxy l))"
| "freeze (P_Mapping_Proxy kvs) = (case freeze_items kvs of Inl e \<Rightarrow> Inl e | Inr l \<Rightarrow> Inr (P_Mapping_Proxy l))"
| "freeze (P_List vs) = (case freeze_all vs of Inl e \<Rightarrow> Inl e | Inr l \<Rightarrow> Inr (P_Tuple l))"
| "freeze (P_Tuple vs) = (case freeze_all vs of Inl e \<Rightarrow> Inl e | Inr l \<Rightarrow> Inr (P_Tuple l))"
| "freeze (P_Set vs) = (case freeze_all vs of Inl e \<Rightarrow> Inl e | Inr l \<Rightarrow> Inr (P_Frozenset l))"
| "freeze (P_Frozenset vs) = (case freeze_all vs of Inl e \<Rightarrow> Inl e | Inr l \<Rightarrow> Inr (P_Frozenset l))"
| "freeze (P_Object c) = Inl UnsupportedFragmentDataError"
| "freeze v = Inr v"
| "freeze_all [] = Inr []"
| "freeze_all (v # vs) = (case freeze v of Inl e \<Rightarrow> Inl e | Inr w \<Rightarrow>
     (case freeze_all vs of Inl e \<Rightarrow> Inl e | Inr ws \<Rightarrow> Inr (w # ws)))"
| "freeze_items [] = Inr []"
| "freeze_items ((k, v) # kvs) = (case freeze v of Inl e \<Rightarrow> Inl e | Inr w \<Rightarrow>
     (case freeze_items kvs of Inl e \<Rightarrow> Inl e | Inr l \<Rightarrow> Inr ((k, w) # l)))"

record fragment =
  fg_namespace :: string
  fg_data :: py_value

definition new_fragment :: "string \<Rightarrow> (py_value \<times> py_value) list \<Rightarrow> exn + fragment" where
  \<comment> \<open>\<open>ConversationContextFragment.__post_init__\<close>\<close>
  "new_fragment ns kvs = (if \<not> nonblank ns then Inl ValueError
     else case freeze (P_Dict kvs) of Inl e \<Rightarrow> Inl e
       | Inr d \<Rightarrow> Inr \<lparr>fg_namespace = ns, fg_data = d\<rparr>)"

section \<open>Situational constraints\<close>

record situational_constraints =
  max_humor :: "real option"
  max_teasing :: "real option"
  max_assertiveness :: "real option"
  max_verbosity :: "real option"

definition valid_constraint :: "real option \<Rightarrow> bool" where
  "valid_constraint v = (case v of None \<Rightarrow> True | Some x \<Rightarrow> 0 \<le> x \<and> x \<le> 1)"

definition check_constraints :: "situational_constraints \<Rightarrow> exn + situational_constraints" where
  "check_constraints c = (if valid_constraint (max_humor c) \<and> valid_constraint (max_teasing c) \<and>
      valid_constraint (max_assertiveness c) \<and> valid_constraint (max_verbosity c) then Inr c else Inl ValueError)"

definition no_constraints :: situational_constraints where
  "no_constraints = \<lparr>max_humor = None, max_teasing = None, max_assertiveness = None, max_verbosity = None\<rparr>"

definition clamp :: "real option \<Rightarrow> real \<Rightarrow> real" where
  "clamp m x = (case m of None \<Rightarrow> x | Some y \<Rightarrow> min x y)"

definition apply_situational_constraints ::
  "communication_profile \<Rightarrow> situational_constraints \<Rightarrow> communication_profile" where
  "apply_situational_constraints p c = \<lparr>warmth = warmth p, humor = clamp (max_humor c) (humor p),
     teasing = clamp (max_teasing c) (teasing p), assertiveness = clamp (max_assertiveness c) (assertiveness p),
     formality = formality p, verbosity = clamp (max_verbosity c) (verbosity p)\<rparr>"

section \<open>Responses and fallbacks\<close>

datatype response_category = INFORMATIONAL_STATUS | OPERATION_CONFIRMATION | GOVERNANCE_EXPLANATION
  | ONBOARDING | COACHING_DIALOGUE | MOTIVATIONAL | REFLECTIVE | CRISIS | ERROR_FALLBACK

datatype generation_path = DETERMINISTIC_FALLBACK | MODEL_GENERATION

record conversation_response =
  rsp_text :: string
  rsp_category :: response_category

datatype fallback_reason = GENERIC | MISSING_REQUIRED_CONTEXT | UNSUPPORTED_CATEGORY | GENERATION_UNAVAILABLE

fun fallback_message :: "fallback_reason \<Rightarrow> string" where
  "fallback_message GENERIC = ''Something went wrong putting that response together. It's been logged.''"
| "fallback_message MISSING_REQUIRED_CONTEXT = ''I don't have enough information to answer that right now.''"
| "fallback_message UNSUPPORTED_CATEGORY = ''I can't handle that kind of response yet.''"
| "fallback_message GENERATION_UNAVAILABLE = ''I can't generate a response right now. Please try again shortly.''"

definition render_fallback :: "fallback_reason \<Rightarrow> conversation_response" where
  "render_fallback r = \<lparr>rsp_text = fallback_message r, rsp_category = ERROR_FALLBACK\<rparr>"

section \<open>Context assembly\<close>

record 's provider =
  pv_namespace :: string
  pv_provide :: "string \<Rightarrow> time \<Rightarrow> ('s, fragment option) op"

record provider_outcome =
  pc_namespace :: string
  pc_succeeded :: bool
  pc_fragment :: "fragment option"

record snapshot =
  sn_category :: response_category
  sn_message :: string
  sn_language :: string
  sn_profile :: communication_profile
  sn_identity_id :: string
  sn_constraints :: situational_constraints
  sn_fragments :: "(string \<times> fragment) list"

definition failed_call :: "string \<Rightarrow> provider_outcome" where
  "failed_call ns = \<lparr>pc_namespace = ns, pc_succeeded = False, pc_fragment = None\<rparr>"

fun call_providers ::
  "'s provider list \<Rightarrow> string \<Rightarrow> time \<Rightarrow> (string \<times> fragment) list \<Rightarrow> provider_outcome list
    \<Rightarrow> ('s, (string \<times> fragment) list \<times> provider_outcome list) op" where
  "call_providers [] k now frs outs s = (Inr (frs, outs), s)"
| "call_providers (p # ps) k now frs outs s =
    (case pv_provide p k now s of
       (Inl e, s1) \<Rightarrow> call_providers ps k now frs (outs @ [failed_call (pv_namespace p)]) s1
     | (Inr None, s1) \<Rightarrow> call_providers ps k now frs (outs @ [failed_call (pv_namespace p)]) s1
     | (Inr (Some f), s1) \<Rightarrow>
         if fg_namespace f \<noteq> pv_namespace p then (Inl ProviderNamespaceMismatchError, s1)
         else if map_of frs (fg_namespace f) \<noteq> None then (Inl ProviderNamespaceCollisionError, s1)
         else call_providers ps k now (frs @ [(fg_namespace f, f)])
           (outs @ [\<lparr>pc_namespace = pv_namespace p, pc_succeeded = True, pc_fragment = Some f\<rparr>]) s1)"

definition new_snapshot :: "snapshot \<Rightarrow> exn + snapshot" where
  \<comment> \<open>\<open>ResponseContextSnapshot.__post_init__\<close>\<close>
  "new_snapshot n = (if list_all (\<lambda>(k, f). k = fg_namespace f) (sn_fragments n) then Inr n else Inl ValueError)"

definition assemble_context ::
  "response_category \<Rightarrow> string \<Rightarrow> string \<Rightarrow> communication_profile \<Rightarrow> string \<Rightarrow> situational_constraints
    \<Rightarrow> 's provider list \<Rightarrow> string list \<Rightarrow> string \<Rightarrow> time \<Rightarrow> ('s, snapshot \<times> provider_outcome list) op" where
  "assemble_context cat msg lang prof ident cons providers required k now =
     op_bind (call_providers providers k now [] []) (\<lambda>(frs, outs).
     if \<not> list_all (\<lambda>ns. map_of frs ns \<noteq> None) required then op_raise RequiredProviderFailedError
     else case new_snapshot \<lparr>sn_category = cat, sn_message = msg, sn_language = lang, sn_profile = prof,
            sn_identity_id = ident, sn_constraints = cons, sn_fragments = frs\<rparr> of
         Inl e \<Rightarrow> op_raise e | Inr n \<Rightarrow> op_return (n, outs))"

datatype context_outcome = Assembled snapshot "provider_outcome list" | Fallback conversation_response

definition build_identity_profile :: "string \<Rightarrow> exn + communication_profile" where
  "build_identity_profile i = (case get_identity i of None \<Rightarrow> Inl UnknownIdentityError
     | Some e \<Rightarrow> Inr (profile e))"

definition build_response_context ::
  "response_category \<Rightarrow> string \<Rightarrow> string \<Rightarrow> string \<Rightarrow> situational_constraints
    \<Rightarrow> 's provider list \<Rightarrow> string list \<Rightarrow> string \<Rightarrow> time \<Rightarrow> ('s, context_outcome) op" where
  "build_response_context cat msg lang ident cons providers required k now =
     (case build_identity_profile ident of Inl e \<Rightarrow> op_raise e | Inr prof \<Rightarrow>
        op_catch
          (op_bind (assemble_context cat msg lang prof ident cons providers required k now)
             (\<lambda>(n, outs). op_return (Assembled n outs)))
          (\<lambda>e. if e = RequiredProviderFailedError
               then op_return (Fallback (render_fallback MISSING_REQUIRED_CONTEXT)) else op_raise e))"

section \<open>The plan and the check of the response\<close>

record response_plan =
  pl_category :: response_category
  pl_required :: "string list"
  pl_optional :: "string list"
  pl_path :: generation_path
  pl_tool_calls :: "string list"

definition new_response_plan :: "response_plan \<Rightarrow> exn + response_plan" where
  \<comment> \<open>\<open>ResponsePlan.__post_init__\<close>\<close>
  "new_response_plan p = (if list_all (\<lambda>ns. \<not> List.member (pl_optional p) ns) (pl_required p) then Inr p else Inl ValueError)"

definition build_response_plan :: "snapshot \<Rightarrow> exn + response_plan" where
  "build_response_plan n = new_response_plan \<lparr>pl_category = COACHING_DIALOGUE, pl_required = [], pl_optional = [],
     pl_path = MODEL_GENERATION, pl_tool_calls = []\<rparr>"

datatype validation_failure = TEXT_EMPTY | CATEGORY_MISMATCH | TOOL_CALLS_PRESENT | NAMESPACES_OVERLAP
  | NAMESPACE_MISSING | LANGUAGE_EMPTY | MESSAGE_EMPTY | FRAGMENT_KEY_MISMATCH

definition validate_response ::
  "conversation_response \<Rightarrow> response_plan \<Rightarrow> snapshot \<Rightarrow> validation_failure option" where
  \<comment> \<open>\<open>None\<close> is \<open>is_valid=True\<close>\<close>
  "validate_response r p n =
    (if \<not> nonblank (rsp_text r) then Some TEXT_EMPTY
     else if rsp_category r \<noteq> pl_category p then Some CATEGORY_MISMATCH
     else if pl_tool_calls p \<noteq> [] then Some TOOL_CALLS_PRESENT
     else if \<not> list_all (\<lambda>ns. \<not> List.member (pl_optional p) ns) (pl_required p) then Some NAMESPACES_OVERLAP
     else if \<not> list_all (\<lambda>ns. map_of (sn_fragments n) ns \<noteq> None) (pl_required p) then Some NAMESPACE_MISSING
     else if \<not> nonblank (sn_language n) then Some LANGUAGE_EMPTY
     else if \<not> nonblank (sn_message n) then Some MESSAGE_EMPTY
     else if \<not> list_all (\<lambda>(k, f). k = fg_namespace f) (sn_fragments n) then Some FRAGMENT_KEY_MISMATCH
     else None)"

section \<open>The prompt\<close>

fun py_item :: "py_value \<Rightarrow> string \<Rightarrow> exn + py_value" where
  "py_item (P_Mapping_Proxy kvs) k = (case map_of kvs (P_Str k) of None \<Rightarrow> Inl (KeyError k) | Some v \<Rightarrow> Inr v)"
| "py_item _ k = Inl TypeError"

fun py_get :: "py_value \<Rightarrow> string \<Rightarrow> exn + py_value" where
  "py_get (P_Mapping_Proxy kvs) k = Inr (case map_of kvs (P_Str k) of None \<Rightarrow> P_None | Some v \<Rightarrow> v)"
| "py_get _ k = Inl AttributeError"

datatype domain_line = LOCK_LINE py_value py_value | NO_TASK_LINE | TASK_LINE "(string \<times> py_value) list"

definition render_lock_state :: "py_value \<Rightarrow> exn + domain_line" where
  "render_lock_state d = (case py_item d ''status'' of Inl e \<Rightarrow> Inl e | Inr st \<Rightarrow>
     (case py_item d ''note'' of Inl e \<Rightarrow> Inl e | Inr note \<Rightarrow> Inr (LOCK_LINE st note)))"

fun truthy :: "py_value \<Rightarrow> bool" where
  "truthy P_None = False"
| "truthy (P_Bool b) = b"
| "truthy (P_Int i) = (i \<noteq> 0)"
| "truthy (P_Float x) = (x \<noteq> 0)"
| "truthy (P_Str s) = (s \<noteq> [])"
| "truthy (P_Bytes s) = (s \<noteq> [])"
| "truthy (P_Dict l) = (l \<noteq> [])"
| "truthy (P_Mapping_Proxy l) = (l \<noteq> [])"
| "truthy (P_List l) = (l \<noteq> [])"
| "truthy (P_Tuple l) = (l \<noteq> [])"
| "truthy (P_Set l) = (l \<noteq> [])"
| "truthy (P_Frozenset l) = (l \<noteq> [])"
| "truthy (P_Object c) = True"

fun task_text_field :: "py_value \<Rightarrow> py_value" where
  "task_text_field (P_Str s) = P_Str s"
| "task_text_field _ = P_Str ''(not recorded)''"

fun items_of :: "string list \<Rightarrow> py_value \<Rightarrow> exn + (string \<times> py_value) list" where
  "items_of [] d = Inr []"
| "items_of (k # ks) d = (case py_item d k of Inl e \<Rightarrow> Inl e | Inr v \<Rightarrow>
     (case items_of ks d of Inl e \<Rightarrow> Inl e | Inr l \<Rightarrow> Inr ((k, v) # l)))"

definition render_active_task :: "py_value \<Rightarrow> exn + domain_line" where
  "render_active_task d = (case py_item d ''has_active_task'' of Inl e \<Rightarrow> Inl e | Inr h \<Rightarrow>
     if \<not> truthy h then Inr NO_TASK_LINE
     else (case (py_get d ''title'', py_get d ''instructions'') of
         (Inr title, Inr instructions) \<Rightarrow>
           (case items_of [''template_id'', ''template_version'', ''category'', ''difficulty'', ''duration_minutes'',
                    ''completion_requirements''] d of Inl e \<Rightarrow> Inl e
            | Inr l \<Rightarrow> Inr (TASK_LINE (l @ [(''title'', task_text_field title),
                (''instructions'', task_text_field instructions)])))
       | (Inl e, _) \<Rightarrow> Inl e
       | (_, Inl e) \<Rightarrow> Inl e))"

datatype prompt_part = BOUNDARIES | CATEGORY_RULES response_category | DOMAIN_STATE "domain_line list"
  | PERSONALITY string communication_profile | LANGUAGE_CODE string

definition domain_section :: "snapshot \<Rightarrow> exn + prompt_part list" where
  "domain_section n = (let
      lock = (case map_of (sn_fragments n) ''lock_state'' of None \<Rightarrow> Inr []
        | Some f \<Rightarrow> (case render_lock_state (fg_data f) of Inl e \<Rightarrow> Inl e | Inr l \<Rightarrow> Inr [l]));
      task = (case map_of (sn_fragments n) ''active_task'' of None \<Rightarrow> Inr []
        | Some f \<Rightarrow> (case render_active_task (fg_data f) of Inl e \<Rightarrow> Inl e | Inr l \<Rightarrow> Inr [l]))
     in case lock of Inl e \<Rightarrow> Inl e | Inr l1 \<Rightarrow> (case task of Inl e \<Rightarrow> Inl e
        | Inr l2 \<Rightarrow> Inr (if l1 @ l2 = [] then [] else [DOMAIN_STATE (l1 @ l2)])))"

definition system_message :: "snapshot \<Rightarrow> response_plan \<Rightarrow> exn + prompt_part list" where
  "system_message n p = (case domain_section n of Inl e \<Rightarrow> Inl e | Inr domain \<Rightarrow>
     Inr ([BOUNDARIES] @ (if pl_category p = COACHING_DIALOGUE then [CATEGORY_RULES COACHING_DIALOGUE] else [])
       @ domain @ [PERSONALITY (sn_identity_id n) (sn_profile n), LANGUAGE_CODE (sn_language n)]))"

datatype model_message = System_Message "prompt_part list" | User_Message string | Assistant_Message string

record generation_request =
  gr_messages :: "model_message list"
  gr_max_output :: nat

definition turn_message :: "memory_turn \<Rightarrow> model_message" where
  "turn_message t = (if wm_role t = USER_ROLE then User_Message (wm_content t) else Assistant_Message (wm_content t))"

definition build_generation_request ::
  "snapshot \<Rightarrow> response_plan \<Rightarrow> memory_turn list \<Rightarrow> nat \<Rightarrow> exn + generation_request" where
  "build_generation_request n p ts limit = (case system_message n p of Inl e \<Rightarrow> Inl e | Inr parts \<Rightarrow>
     Inr \<lparr>gr_messages = System_Message parts # map turn_message ts @ [User_Message (sn_message n)],
       gr_max_output = limit\<rparr>)"

definition keyholder_command_guidance :: "string list" where
  "keyholder_command_guidance = [''lock status'', ''lock report locked'', ''lock report unlocked'',
     ''task request'', ''task active'', ''task complete'', ''task cancel'', ''help'']"

section \<open>The engine\<close>

record 's engine =
  en_model :: "generation_request \<Rightarrow> exn + string"
  en_limits :: memory_limits
  en_providers :: "'s provider list"
  en_max_output :: nat

definition read_working_memory :: "string \<Rightarrow> exchanges \<Rightarrow> memory_turn list" where
  \<comment> \<open>a failing read degrades to an empty history\<close>
  "read_working_memory k m = (case read_memory k m of Inl e \<Rightarrow> [] | Inr ts \<Rightarrow> ts)"

definition commit_response :: "memory_limits \<Rightarrow> string \<Rightarrow> string \<Rightarrow> string \<Rightarrow> exchanges \<Rightarrow> exchanges" where
  \<comment> \<open>\<open>_commit_exchange\<close>: a failing commit is logged and dropped\<close>
  "commit_response l k u a m = snd (commit_exchange l k u a m)"

definition finish_response ::
  "'s engine \<Rightarrow> string \<Rightarrow> string \<Rightarrow> snapshot \<Rightarrow> exchanges \<Rightarrow> (exn + conversation_response) \<times> exchanges" where
  \<comment> \<open>\<open>generate_response\<close> once the context is assembled\<close>
  "finish_response en k msg n m =
    (case build_response_plan n of Inl e \<Rightarrow> (Inl e, m) | Inr plan \<Rightarrow>
      (case build_generation_request n plan (read_working_memory k m) (en_max_output en) of
        Inl e \<Rightarrow> (Inl e, m)
      | Inr request \<Rightarrow>
          (case en_model en request of
             Inl (LLMGenerationError c) \<Rightarrow> (Inr (render_fallback GENERATION_UNAVAILABLE), m)
           | Inl e \<Rightarrow> (Inl e, m)
           | Inr raw \<Rightarrow>
               (let response = \<lparr>rsp_text = raw, rsp_category = pl_category plan\<rparr> in
                if validate_response response plan n \<noteq> None then (Inr (render_fallback GENERATION_UNAVAILABLE), m)
                else (Inr response, commit_response (en_limits en) k msg raw m)))))"

definition generate_response ::
  "'s engine \<Rightarrow> string \<Rightarrow> string \<Rightarrow> string \<Rightarrow> string \<Rightarrow> time
    \<Rightarrow> 's \<times> exchanges \<Rightarrow> (exn + conversation_response) \<times> ('s \<times> exchanges)" where
  "generate_response en k msg lang ident now sm = (let (s, m) = sm in
     if \<not> nonblank k then (Inl ValueError, sm)
     else case build_response_context COACHING_DIALOGUE msg lang ident no_constraints (en_providers en) [] k now s of
       (Inl e, s1) \<Rightarrow> (Inl e, (s1, m))
     | (Inr (Fallback r), s1) \<Rightarrow> (Inr r, (s1, m))
     | (Inr (Assembled n outs), s1) \<Rightarrow>
         (case finish_response en k msg n m of (r, m1) \<Rightarrow> (r, (s1, m1))))"

section \<open>The two context providers\<close>

fun knowledge_value :: "lock_knowledge_state \<Rightarrow> string" where
  "knowledge_value KN_LOCKED_USER_REPORTED = ''locked_user_reported''"
| "knowledge_value KN_UNLOCKED_USER_REPORTED = ''unlocked_user_reported''"
| "knowledge_value KN_UNKNOWN = ''unknown''"

fun knowledge_note :: "lock_knowledge_state \<Rightarrow> string" where
  "knowledge_note KN_UNKNOWN =
     ''No current user-reported lock state is recorded. Do not infer that the user is unlocked.''"
| "knowledge_note KN_LOCKED_USER_REPORTED = ''The user has reported that they are locked. This is user-reported '' @
     ''and has not been independently physically verified.''"
| "knowledge_note KN_UNLOCKED_USER_REPORTED = ''The user has reported that they are unlocked. This is user-reported '' @
     ''and has not been independently physically verified.''"

definition lift_fragment :: "exn + fragment \<Rightarrow> ('s, fragment option) op" where
  "lift_fragment r = (case r of Inl e \<Rightarrow> op_raise e | Inr f \<Rightarrow> op_return (Some f))"

definition lock_state_provider :: "('m lock_db_scheme) provider" where
  "lock_state_provider = \<lparr>pv_namespace = ''lock_state'', pv_provide = (\<lambda>k now.
     op_bind (get_current_knowledge_state k) (\<lambda>st.
     lift_fragment (new_fragment ''lock_state''
       [(P_Str ''status'', P_Str (knowledge_value st)), (P_Str ''note'', P_Str (knowledge_note st))])))\<rparr>"

definition text_or_none :: "string option \<Rightarrow> py_value" where
  "text_or_none x = (case x of None \<Rightarrow> P_None | Some t \<Rightarrow> P_Str t)"

fun json_value :: "json \<Rightarrow> py_value" where
  "json_value JNull = P_None"
| "json_value (JBool b) = P_Bool b"
| "json_value (JInt i) = P_Int i"
| "json_value (JNum x) = P_Float x"
| "json_value (JStr s) = P_Str s"
| "json_value (JId i) = P_Str (uuid_text i)"
| "json_value (JArr js) = P_List (map json_value js)"

definition active_task_provider :: "('m runtime_db_scheme) provider" where
  "active_task_provider = \<lparr>pv_namespace = ''active_task'', pv_provide = (\<lambda>k now.
     op_bind (get_active_assignment k) (\<lambda>a.
     case a of
       None \<Rightarrow> lift_fragment (new_fragment ''active_task'' [(P_Str ''has_active_task'', P_Bool False)])
     | Some assignment \<Rightarrow>
         op_bind (get_template (ta_template_id assignment) (ta_template_version assignment)) (\<lambda>v.
         case v of
           None \<Rightarrow> op_return None
         | Some template \<Rightarrow> lift_fragment (new_fragment ''active_task''
             [(P_Str ''has_active_task'', P_Bool True),
              (P_Str ''template_id'', P_Str (tv_template_id template)),
              (P_Str ''template_version'', P_Int (tv_version template)),
              (P_Str ''title'', text_or_none (tv_title template)),
              (P_Str ''instructions'', text_or_none (tv_instructions template)),
              (P_Str ''category'', P_Str (td_category (tv_details template))),
              (P_Str ''difficulty'', P_Str (td_difficulty (tv_details template))),
              (P_Str ''duration_minutes'', P_Int (td_duration_minutes (tv_details template))),
              (P_Str ''completion_requirements'', P_Dict (map (\<lambda>(x, v). (P_Str x, json_value v))
                 (td_completion_requirements (tv_details template))))]))))\<rparr>"

end
