(* ===== verification/Application.thy ===== *)
theory Application
  imports Conversation Chaster_Services
begin

text \<open>
  \<open>application/router.py\<close> and \<open>application/service.py\<close>: the one entry point an adapter calls.
  \<open>handle_message\<close> resolves the user, lets onboarding answer while it is unfinished, then matches the
  text against the registered commands and otherwise hands it to the conversation engine; every
  exception ends in one generic reply. The command table holds names of handlers, \<open>run_command\<close> is
  what the bound methods do. A reply carries its data; the fixed wording around it is left out.
\<close>

section \<open>CommandRouter\<close>

definition dict_set :: "'k \<Rightarrow> 'v \<Rightarrow> ('k \<times> 'v) list \<Rightarrow> ('k \<times> 'v) list" where
  \<comment> \<open>\<open>d[k] = v\<close>: an existing key keeps its place\<close>
  "dict_set k v d = (if map_of d k = None then d @ [(k, v)] else map (\<lambda>(x, w). if x = k then (x, v) else (x, w)) d)"

record 'h router =
  rt_handlers :: "(string \<times> 'h) list"
  rt_descriptions :: "(string \<times> string) list"
  rt_families :: "(string \<times> 'h) list"

definition empty_router :: "'h router" where
  "empty_router = \<lparr>rt_handlers = [], rt_descriptions = [], rt_families = []\<rparr>"

definition normalized :: "string \<Rightarrow> string" where
  "normalized t = py_lower (py_strip t)"

definition register_command :: "string \<Rightarrow> string \<Rightarrow> 'h \<Rightarrow> 'h router \<Rightarrow> 'h router" where
  "register_command command description h r = (let k = normalized command in
     r\<lparr>rt_handlers := dict_set k h (rt_handlers r), rt_descriptions := dict_set k description (rt_descriptions r)\<rparr>)"

definition register_family :: "string \<Rightarrow> 'h \<Rightarrow> 'h router \<Rightarrow> 'h router" where
  "register_family family h r = r\<lparr>rt_families := dict_set (normalized family) h (rt_families r)\<rparr>"

definition route :: "'h router \<Rightarrow> string \<Rightarrow> 'h option" where
  \<comment> \<open>the handler that is called; \<open>None\<close> is \<open>matched=False\<close>\<close>
  "route r t = (let command = normalized t in
     case map_of (rt_handlers r) command of Some h \<Rightarrow> Some h | None \<Rightarrow> map_of (rt_families r) command)"

definition help_lines :: "'h router \<Rightarrow> (string \<times> string) list" where
  "help_lines r = map (\<lambda>c. (c, the (map_of (rt_descriptions r) c))) (sort (map fst (rt_descriptions r)))"

section \<open>The registered commands\<close>

datatype command = CMD_HELP | CMD_STATUS | CMD_PREFERENCES
  | CMD_MODE_STATUS | CMD_MODE_REQUEST_ADVANCED | CMD_MODE_REQUEST_STANDARD | CMD_MODE_CANCEL | CMD_MODE_CONFIRM
  | CMD_MODE_INVALID | CMD_LOCK_STATUS | CMD_LOCK_REPORT_LOCKED | CMD_LOCK_REPORT_UNLOCKED | CMD_LOCK_INVALID
  | CMD_TASK_REQUEST | CMD_TASK_ACTIVE | CMD_TASK_COMPLETE | CMD_TASK_CANCEL | CMD_TASK_INVALID
  | CMD_CHASTER_CONNECT | CMD_CHASTER_INVALID

definition command_router :: "command router" where
  "command_router =
    register_family ''chaster'' CMD_CHASTER_INVALID (
    register_command ''chaster connect'' ''Connect your Chaster account'' CMD_CHASTER_CONNECT (
    register_family ''task'' CMD_TASK_INVALID (
    register_command ''task cancel'' ''Cancel your active task'' CMD_TASK_CANCEL (
    register_command ''task complete'' ''Mark your active task as completed'' CMD_TASK_COMPLETE (
    register_command ''task active'' ''Show your currently active task, if any'' CMD_TASK_ACTIVE (
    register_command ''task request'' ''Request a new eligible task, if you don't already have an active one'' CMD_TASK_REQUEST (
    register_family ''lock'' CMD_LOCK_INVALID (
    register_command ''lock report unlocked'' ''Report yourself as unlocked'' CMD_LOCK_REPORT_UNLOCKED (
    register_command ''lock report locked'' ''Report yourself as locked'' CMD_LOCK_REPORT_LOCKED (
    register_command ''lock status'' ''Show your current reported lock status'' CMD_LOCK_STATUS (
    register_family ''mode'' CMD_MODE_INVALID (
    register_command ''mode confirm'' ''Give final confirmation for a pending mode transition, once eligible -- must be a separate message from the original request'' CMD_MODE_CONFIRM (
    register_command ''mode cancel'' ''Cancel your pending mode transition request'' CMD_MODE_CANCEL (
    register_command ''mode request standard'' ''Request switching back to Standard Mode (needs 30+ days in Advanced first, then a 24h wait and a separate second confirmation)'' CMD_MODE_REQUEST_STANDARD (
    register_command ''mode request advanced'' ''Request switching to Advanced Mode (needs a full 24h uninterrupted wait, then a separate second confirmation)'' CMD_MODE_REQUEST_ADVANCED (
    register_command ''mode status'' ''Show your current operating mode and any pending transition'' CMD_MODE_STATUS (
    register_command ''mode'' ''Show your current operating mode and any pending transition'' CMD_MODE_STATUS (
    register_command ''preferences'' ''Show your saved language/AI voice/personality choices'' CMD_PREFERENCES (
    register_command ''status'' ''Show the current penalty window, if any'' CMD_STATUS (
    register_command ''help'' ''Show this list of commands'' CMD_HELP empty_router))))))))))))))))))))"

section \<open>Replies\<close>

datatype app_reply =
    Onboarding_Reply onboarding_reply
  | Help_Reply "(string \<times> string) list"
  | No_Window_Reply
  | Window_Reply penalty_window_status real real
  | Setup_Unfinished_Reply
  | Preferences_Reply "string option" "identity_group option" "string option"
  | Mode_Invalid_Reply
  | Mode_Status_Reply operating_mode_state "mode_transition_request option"
  | No_Reference_Reply
  | Already_In_Mode_Reply operating_mode
  | Mode_Requested_Reply operating_mode bool
  | Mode_Request_Pending_Reply
  | Minimum_Time_Reply time
  | No_Request_To_Cancel_Reply
  | Mode_Cancelled_Reply operating_mode operating_mode
  | No_Request_Reply
  | Still_Blocked_Reply
  | Wait_Interrupted_Reply
  | Hours_Left_Reply real
  | Still_Waiting_Reply
  | Confirmation_Unavailable_Reply mode_transition_status
  | Interrupted_At_Confirmation_Reply
  | Request_Invalidated_Reply
  | Not_Ready_Reply
  | Mode_Confirmed_Reply operating_mode
  | Lock_Invalid_Reply
  | Lock_Status_Reply lock_knowledge_state
  | Lock_Recorded_Reply lock_report_status
  | Task_Invalid_Reply
  | No_Active_Task_Reply
  | Active_Task_Reply string string time
  | Task_Already_Active_Reply string
  | No_Eligible_Task_Reply
  | Task_No_Longer_Eligible_Reply
  | Task_Raced_Reply
  | Task_Assign_Failed_Reply
  | Task_No_Longer_Available_Reply
  | Task_Assigned_Reply string
  | No_Task_To_Resolve_Reply
  | Task_Not_Active_Reply
  | Task_Resolve_Failed_Reply
  | Task_Resolved_Reply assignment_status string
  | Chaster_Not_Configured_Reply
  | Chaster_Already_Connected_Reply connection_status
  | Chaster_Link_Reply string
  | Chaster_Invalid_Reply
  | Unrecognized_Reply
  | Text_Reply string
  | Went_Wrong_Reply

section \<open>Requests\<close>

record incoming_message =
  im_channel :: string
  im_external_user_id :: string
  im_text :: string
  im_received_at :: time
  im_external_message_id :: "string option"

record request_context =
  rc_user :: user_account
  rc_now :: time
  rc_message_id :: "string option"

record 'm application =
  ap_engine :: "('m chaster_db_scheme) engine option"
  ap_oauth_client :: "oauth_client option"
  ap_connections :: "fernet option"

definition consent_id_for :: "request_context \<Rightarrow> string option" where
  "consent_id_for ctx = (case rc_message_id ctx of None \<Rightarrow> None | Some i \<Rightarrow> Some (''discord_message:'' @ i))"

definition with_consent :: "request_context \<Rightarrow> (string \<Rightarrow> ('s, app_reply) op) \<Rightarrow> ('s, app_reply) op" where
  \<comment> \<open>\<open>if consent_id is None: return ...\<close>\<close>
  "with_consent ctx f = (case consent_id_for ctx of None \<Rightarrow> op_return No_Reference_Reply | Some c \<Rightarrow> f c)"

section \<open>Status and preferences\<close>

definition handle_status :: "request_context \<Rightarrow> ('m chaster_db_scheme, app_reply) op" where
  "handle_status ctx = op_bind (op_get get_active_or_frozen_penalty_window) (\<lambda>window.
     op_return (case window of None \<Rightarrow> No_Window_Reply
       | Some w \<Rightarrow> Window_Reply (pw_status w) (remaining_active_hours w (rc_now ctx)) (target_active_hours w)))"

definition handle_preferences :: "request_context \<Rightarrow> ('m chaster_db_scheme, app_reply) op" where
  "handle_preferences ctx = op_bind (get_or_create_preferences (ua_id (rc_user ctx)) (rc_now ctx)) (\<lambda>(p, created).
     op_return (if \<not> onboarding_is_complete p then Setup_Unfinished_Reply
       else Preferences_Reply (up_language p) (up_ai_gender p)
         (case (case up_identity_id p of None \<Rightarrow> None | Some i \<Rightarrow> if i = [] then None else get_identity i) of
            None \<Rightarrow> None | Some e \<Rightarrow> Some (display_name e (or_english (up_language p))))))"

section \<open>Mode commands\<close>

abbreviation read_penalty_window :: "'m chaster_db_scheme \<Rightarrow> penalty_window option" where
  "read_penalty_window \<equiv> get_active_or_frozen_penalty_window"

definition settle_mode_state :: "request_context \<Rightarrow> ('m chaster_db_scheme, unit) op" where
  "settle_mode_state ctx = op_bind (ensure_current_state (rc_now ctx)) (\<lambda>_.
     op_bind (advance_transition_state read_penalty_window (rc_now ctx)) (\<lambda>_. op_return ()))"

definition handle_mode_status :: "request_context \<Rightarrow> ('m chaster_db_scheme, app_reply) op" where
  "handle_mode_status ctx = op_bind (settle_mode_state ctx) (\<lambda>_.
     op_bind (op_get get_current_mode) (\<lambda>state.
     op_bind (op_get fetch_active_request) (\<lambda>request.
     op_return (Mode_Status_Reply state request))))"

definition requested_reply :: "operating_mode \<Rightarrow> mode_transition_request \<Rightarrow> app_reply" where
  "requested_reply target r = Mode_Requested_Reply target (mt_status r = BLOCKED_BY_PENALTY_WINDOW)"

definition handle_mode_request_advanced :: "request_context \<Rightarrow> ('m chaster_db_scheme, app_reply) op" where
  "handle_mode_request_advanced ctx = op_bind (settle_mode_state ctx) (\<lambda>_.
     with_consent ctx (\<lambda>consent.
     op_bind (op_get get_current_mode) (\<lambda>state.
     if current_mode state = ADVANCED then op_return (Already_In_Mode_Reply ADVANCED)
     else op_catch
       (op_bind (request_transition read_penalty_window ADVANCED consent (rc_now ctx)) (\<lambda>request.
        op_return (requested_reply ADVANCED request)))
       (\<lambda>e. if e = ActiveModeTransitionExistsError then op_return Mode_Request_Pending_Reply
            else op_raise e))))"

definition handle_mode_request_standard :: "request_context \<Rightarrow> ('m chaster_db_scheme, app_reply) op" where
  "handle_mode_request_standard ctx = op_bind (settle_mode_state ctx) (\<lambda>_.
     with_consent ctx (\<lambda>consent.
     op_bind (op_get get_current_mode) (\<lambda>state.
     if current_mode state = STANDARD then op_return (Already_In_Mode_Reply STANDARD)
     else op_catch
       (op_bind (request_transition read_penalty_window STANDARD consent (rc_now ctx)) (\<lambda>request.
        op_return (requested_reply STANDARD request)))
       (\<lambda>e. if e = ActiveModeTransitionExistsError then op_return Mode_Request_Pending_Reply
            else if e = MinimumTimeInAdvancedNotMetError
              then op_return (Minimum_Time_Reply (mode_activated_at state + 30 * day))
            else op_raise e))))"

definition handle_mode_cancel :: "request_context \<Rightarrow> ('m chaster_db_scheme, app_reply) op" where
  "handle_mode_cancel ctx = op_bind (settle_mode_state ctx) (\<lambda>_.
     op_bind (op_get fetch_active_request) (\<lambda>request.
     case request of None \<Rightarrow> op_return No_Request_To_Cancel_Reply
     | Some r \<Rightarrow> op_bind (cancel_request (mt_id r) (rc_now ctx)) (\<lambda>_.
         op_return (Mode_Cancelled_Reply (mt_source_mode r) (mt_target_mode r)))))"

definition not_confirmable_reply :: "mode_transition_request \<Rightarrow> time \<Rightarrow> app_reply" where
  "not_confirmable_reply r now = (case mt_status r of
      BLOCKED_BY_PENALTY_WINDOW \<Rightarrow> Still_Blocked_Reply
    | PAUSED_BY_PENALTY_WINDOW \<Rightarrow> Wait_Interrupted_Reply
    | WAITING \<Rightarrow> (case mt_confirmable_at r of
          Some x \<Rightarrow> if now < x then Hours_Left_Reply (real_of_int (x - now) / real_of_int hour) else Still_Waiting_Reply
        | None \<Rightarrow> Still_Waiting_Reply)
    | st \<Rightarrow> Confirmation_Unavailable_Reply st)"

definition handle_mode_confirm :: "request_context \<Rightarrow> ('m chaster_db_scheme, app_reply) op" where
  "handle_mode_confirm ctx = op_bind (settle_mode_state ctx) (\<lambda>_.
     with_consent ctx (\<lambda>consent.
     op_bind (op_get fetch_active_request) (\<lambda>request.
     case request of None \<Rightarrow> op_return No_Request_Reply
     | Some r \<Rightarrow>
         if mt_status r \<noteq> AWAITING_CONFIRMATION then op_return (not_confirmable_reply r (rc_now ctx))
         else op_catch
           (op_bind (confirm_transition (mt_id r) read_penalty_window consent (rc_now ctx)) (\<lambda>confirmed.
            op_return (Mode_Confirmed_Reply (mt_target_mode confirmed))))
           (\<lambda>e. if e = ModeTransitionInterruptedByPenaltyWindowError then op_return Interrupted_At_Confirmation_Reply
                else if e = ModeTransitionSourceModeMismatchError then op_return Request_Invalidated_Reply
                else if e = ModeTransitionNotConfirmableError then op_return Not_Ready_Reply
                else op_raise e))))"

section \<open>Lock commands\<close>

definition handle_lock_status :: "request_context \<Rightarrow> ('m chaster_db_scheme, app_reply) op" where
  "handle_lock_status ctx = op_bind (get_current_knowledge_state (ua_id (rc_user ctx))) (\<lambda>st.
     op_return (Lock_Status_Reply st))"

definition report_lock_status :: "request_context \<Rightarrow> lock_report_status \<Rightarrow> ('m chaster_db_scheme, app_reply) op" where
  "report_lock_status ctx status = with_consent ctx (\<lambda>consent.
     op_bind (report_status (ua_id (rc_user ctx)) status consent (rc_now ctx)) (\<lambda>_.
     op_return (Lock_Recorded_Reply status)))"

section \<open>Task commands\<close>

definition present_title :: "string option \<Rightarrow> string" where
  "present_title title = (case title of None \<Rightarrow> ''(not recorded)'' | Some t \<Rightarrow> t)"

definition title_of :: "task_assignment \<Rightarrow> ('m chaster_db_scheme, string) op" where
  "title_of a = op_bind (get_template (ta_template_id a) (ta_template_version a)) (\<lambda>v.
     op_return (present_title (case v of None \<Rightarrow> None | Some template \<Rightarrow> tv_title template)))"

definition handle_task_active :: "request_context \<Rightarrow> ('m chaster_db_scheme, app_reply) op" where
  "handle_task_active ctx = op_bind (get_active_assignment (ua_id (rc_user ctx))) (\<lambda>found.
     case found of None \<Rightarrow> op_return No_Active_Task_Reply
     | Some a \<Rightarrow> op_bind (title_of a) (\<lambda>title.
         op_return (Active_Task_Reply title (ta_template_id a) (ta_assigned_at a))))"

fun mode_value :: "operating_mode \<Rightarrow> string" where
  "mode_value STANDARD = ''standard''"
| "mode_value ADVANCED = ''advanced''"

fun assign_error_reply :: "exn \<Rightarrow> ('s, app_reply) op" where
  "assign_error_reply TaskNotEligibleError = op_return Task_No_Longer_Eligible_Reply"
| "assign_error_reply TaskAssignmentConcurrencyError = op_return Task_Raced_Reply"
| "assign_error_reply TaskAssignmentReferentialIntegrityError = op_return Task_Assign_Failed_Reply"
| "assign_error_reply TaskTemplateNotFoundForAssignmentError = op_return Task_No_Longer_Available_Reply"
| "assign_error_reply e = op_raise e"

definition handle_task_request :: "request_context \<Rightarrow> ('m chaster_db_scheme, app_reply) op" where
  "handle_task_request ctx = with_consent ctx (\<lambda>consent.
     op_bind (get_active_assignment (ua_id (rc_user ctx))) (\<lambda>existing.
     case existing of
       Some a \<Rightarrow> op_bind (title_of a) (\<lambda>title. op_return (Task_Already_Active_Reply title))
     | None \<Rightarrow>
         op_bind (get_current_knowledge_state (ua_id (rc_user ctx))) (\<lambda>knowledge.
         op_bind (op_get get_current_mode) (\<lambda>state.
         op_bind (get_eligible_templates ROLE_PRIMARY (mode_value (current_mode state)) knowledge) (\<lambda>candidates.
         case select_eligible_template candidates of
           None \<Rightarrow> op_return No_Eligible_Task_Reply
         | Some chosen \<Rightarrow> op_catch
             (op_bind (assign_task (ua_id (rc_user ctx)) (tv_template_id chosen) knowledge consent (rc_now ctx)) (\<lambda>_.
              op_return (Task_Assigned_Reply (present_title (tv_title chosen)))))
             assign_error_reply)))))"

definition resolve_task :: "request_context \<Rightarrow> assignment_status \<Rightarrow> ('m chaster_db_scheme, app_reply) op" where
  "resolve_task ctx target = with_consent ctx (\<lambda>consent.
     op_bind (get_active_assignment (ua_id (rc_user ctx))) (\<lambda>found.
     case found of None \<Rightarrow> op_return No_Task_To_Resolve_Reply
     | Some a \<Rightarrow> op_catch
         (op_bind (resolve_assignment (ta_id a) target consent (rc_now ctx)) (\<lambda>_.
          op_bind (title_of a) (\<lambda>title. op_return (Task_Resolved_Reply target title))))
         (\<lambda>e. if e = TaskAssignmentTransitionError then op_return Task_Not_Active_Reply
              else if e = TaskAssignmentNotFoundError then op_return Task_Resolve_Failed_Reply
              else op_raise e)))"

section \<open>Chaster\<close>

definition handle_chaster_connect ::
  "'m application \<Rightarrow> request_context \<Rightarrow> ('m chaster_db_scheme, app_reply) op" where
  "handle_chaster_connect app ctx = (case (ap_oauth_client app, ap_connections app) of
      (Some client, Some f) \<Rightarrow>
        op_bind (get_connection (ua_id (rc_user ctx))) (\<lambda>existing.
        case existing of
          Some c \<Rightarrow> op_return (Chaster_Already_Connected_Reply (cc_status c))
        | None \<Rightarrow>
            op_bind (create_or_replace_state (ua_id (rc_user ctx)) (rc_now ctx)) (\<lambda>state.
            op_bind (op_lift (build_authorization_url client state [''locks''])) (\<lambda>url.
            op_return (Chaster_Link_Reply url))))
    | _ \<Rightarrow> op_return Chaster_Not_Configured_Reply)"

section \<open>handle_message()\<close>

fun run_command :: "'m application \<Rightarrow> command \<Rightarrow> request_context \<Rightarrow> ('m chaster_db_scheme, app_reply) op" where
  "run_command app CMD_HELP ctx = op_return (Help_Reply (help_lines command_router))"
| "run_command app CMD_STATUS ctx = handle_status ctx"
| "run_command app CMD_PREFERENCES ctx = handle_preferences ctx"
| "run_command app CMD_MODE_STATUS ctx = handle_mode_status ctx"
| "run_command app CMD_MODE_REQUEST_ADVANCED ctx = handle_mode_request_advanced ctx"
| "run_command app CMD_MODE_REQUEST_STANDARD ctx = handle_mode_request_standard ctx"
| "run_command app CMD_MODE_CANCEL ctx = handle_mode_cancel ctx"
| "run_command app CMD_MODE_CONFIRM ctx = handle_mode_confirm ctx"
| "run_command app CMD_MODE_INVALID ctx = op_return Mode_Invalid_Reply"
| "run_command app CMD_LOCK_STATUS ctx = handle_lock_status ctx"
| "run_command app CMD_LOCK_REPORT_LOCKED ctx = report_lock_status ctx LOCKED_USER_REPORTED"
| "run_command app CMD_LOCK_REPORT_UNLOCKED ctx = report_lock_status ctx UNLOCKED_USER_REPORTED"
| "run_command app CMD_LOCK_INVALID ctx = op_return Lock_Invalid_Reply"
| "run_command app CMD_TASK_REQUEST ctx = handle_task_request ctx"
| "run_command app CMD_TASK_ACTIVE ctx = handle_task_active ctx"
| "run_command app CMD_TASK_COMPLETE ctx = resolve_task ctx TA_COMPLETED"
| "run_command app CMD_TASK_CANCEL ctx = resolve_task ctx TA_CANCELLED"
| "run_command app CMD_TASK_INVALID ctx = op_return Task_Invalid_Reply"
| "run_command app CMD_CHASTER_CONNECT ctx = handle_chaster_connect app ctx"
| "run_command app CMD_CHASTER_INVALID ctx = op_return Chaster_Invalid_Reply"

text \<open>The state of the process: the database and the working memory of the engine.\<close>

type_synonym 'm process = "'m chaster_db_scheme \<times> exchanges"

definition on_database :: "('s, 'a) op \<Rightarrow> ('s \<times> exchanges, 'a) op" where
  "on_database f sm = (case f (fst sm) of (r, s1) \<Rightarrow> (r, (s1, snd sm)))"

definition missing_context :: app_reply where
  "missing_context = Text_Reply (rsp_text (render_fallback MISSING_REQUIRED_CONTEXT))"

definition converse ::
  "'m application \<Rightarrow> user_account \<Rightarrow> preferences \<Rightarrow> incoming_message \<Rightarrow> ('m process, app_reply) op" where
  \<comment> \<open>the unmatched text\<close>
  "converse app user p msg = (case ap_engine app of
      None \<Rightarrow> op_return Unrecognized_Reply
    | Some en \<Rightarrow> (case up_identity_id p of
        None \<Rightarrow> op_return missing_context
      | Some ident \<Rightarrow> op_catch
          (op_bind (generate_response en (ua_id user) (im_text msg) (or_english (up_language p)) ident (im_received_at msg))
             (\<lambda>r. op_return (Text_Reply (rsp_text r))))
          (\<lambda>e. if e = UnknownIdentityError then op_return missing_context else op_raise e)))"

definition answer_message :: "'m application \<Rightarrow> incoming_message \<Rightarrow> ('m process, app_reply) op" where
  \<comment> \<open>the body of the \<open>try\<close> block\<close>
  "answer_message app msg =
     op_bind (on_database (get_or_create_user (im_channel msg) (im_external_user_id msg) (im_received_at msg))) (\<lambda>user.
     op_bind (on_database (get_or_create_preferences (ua_id user) (im_received_at msg))) (\<lambda>(p, created).
     if created then op_return (Onboarding_Reply (prompt_for p))
     else if \<not> onboarding_is_complete p then
       op_bind (on_database (process_message p (im_text msg) (im_received_at msg))) (\<lambda>(q, reply).
       op_return (Onboarding_Reply reply))
     else (case route command_router (im_text msg) of
         Some command \<Rightarrow> on_database (run_command app command
           \<lparr>rc_user = user, rc_now = im_received_at msg, rc_message_id = im_external_message_id msg\<rparr>)
       | None \<Rightarrow> converse app user p msg)))"

definition handle_message :: "'m application \<Rightarrow> incoming_message \<Rightarrow> 'm process \<Rightarrow> app_reply \<times> 'm process" where
  "handle_message app msg sm = (case answer_message app msg sm of
      (Inr reply, sm1) \<Rightarrow> (reply, sm1)
    | (Inl e, sm1) \<Rightarrow> (Went_Wrong_Reply, sm1))"

end
