(* ===== verification/Conversation_Properties.thy ===== *)
theory Conversation_Properties
  imports Conversation User_Sample
begin

text \<open>
  What the conversation engine promises: fragments are immutable, a clamp only lowers, and every
  free text gets a reply that is either the checked text of the model, with exactly that exchange
  committed, or the deterministic fallback with memory untouched. The contract between the engine
  and its providers is the locale \<open>context_providers\<close>, interpreted on the two providers of the bot.
\<close>

section \<open>Frozen data\<close>

fun immutable :: "py_value \<Rightarrow> bool" and immutable_all :: "py_value list \<Rightarrow> bool"
  and immutable_items :: "(py_value \<times> py_value) list \<Rightarrow> bool" where
  "immutable (P_Dict l) = False"
| "immutable (P_List l) = False"
| "immutable (P_Set l) = False"
| "immutable (P_Object c) = False"
| "immutable (P_Mapping_Proxy l) = immutable_items l"
| "immutable (P_Tuple l) = immutable_all l"
| "immutable (P_Frozenset l) = immutable_all l"
| "immutable v = True"
| "immutable_all [] = True"
| "immutable_all (v # vs) = (immutable v \<and> immutable_all vs)"
| "immutable_items [] = True"
| "immutable_items ((k, v) # l) = (immutable v \<and> immutable_items l)"

fun foreign :: "py_value \<Rightarrow> bool" and foreign_any :: "py_value list \<Rightarrow> bool"
  and foreign_item :: "(py_value \<times> py_value) list \<Rightarrow> bool" where
  "foreign (P_Object c) = True"
| "foreign (P_Dict l) = foreign_item l"
| "foreign (P_Mapping_Proxy l) = foreign_item l"
| "foreign (P_List l) = foreign_any l"
| "foreign (P_Tuple l) = foreign_any l"
| "foreign (P_Set l) = foreign_any l"
| "foreign (P_Frozenset l) = foreign_any l"
| "foreign v = False"
| "foreign_any [] = False"
| "foreign_any (v # vs) = (foreign v \<or> foreign_any vs)"
| "foreign_item [] = False"
| "foreign_item ((k, v) # l) = (foreign v \<or> foreign_item l)"

text \<open>
  The content of a value, whatever its containers: lists and tuples, sets and frozensets, and the two
  kinds of mapping are told apart from each other, but not the mutable from the immutable one.
\<close>

fun py_content :: "py_value \<Rightarrow> py_value" and content_all :: "py_value list \<Rightarrow> py_value list"
  and content_items :: "(py_value \<times> py_value) list \<Rightarrow> (py_value \<times> py_value) list" where
  "py_content (P_Dict l) = P_Dict (content_items l)"
| "py_content (P_Mapping_Proxy l) = P_Dict (content_items l)"
| "py_content (P_List l) = P_List (content_all l)"
| "py_content (P_Tuple l) = P_List (content_all l)"
| "py_content (P_Set l) = P_Set (content_all l)"
| "py_content (P_Frozenset l) = P_Set (content_all l)"
| "py_content v = v"
| "content_all [] = []"
| "content_all (v # vs) = py_content v # content_all vs"
| "content_items [] = []"
| "content_items ((k, v) # l) = (k, py_content v) # content_items l"

lemma freeze_spec:
  "(case freeze v of Inr w \<Rightarrow> immutable w \<and> py_content w = py_content v \<and> freeze w = Inr w \<and> \<not> foreign v
     | Inl e \<Rightarrow> e = UnsupportedFragmentDataError \<and> foreign v)"
  "(case freeze_all vs of Inr ws \<Rightarrow> immutable_all ws \<and> content_all ws = content_all vs
       \<and> freeze_all ws = Inr ws \<and> \<not> foreign_any vs
     | Inl e \<Rightarrow> e = UnsupportedFragmentDataError \<and> foreign_any vs)"
  "(case freeze_items kvs of Inr l \<Rightarrow> immutable_items l \<and> content_items l = content_items kvs
       \<and> freeze_items l = Inr l \<and> \<not> foreign_item kvs
     | Inl e \<Rightarrow> e = UnsupportedFragmentDataError \<and> foreign_item kvs)"
  by (induction v and vs and kvs rule: freeze_freeze_all_freeze_items.induct) (auto split: sum.splits)

text \<open>C15: freezing the data of a fragment keeps its content and its mapping keys, yields no mutable
  container as a value at any depth (element, or value of a mapping), and leaves frozen data as it is.
  It raises exactly when some foreign object is inside as such a value. Keys are not inspected: an
  object of any class used as a key stays in the frozen data, although the docstring promises that
  every foreign object is rejected (a recorded finding).\<close>
theorem freeze_is_immutable:
  "case freeze v of
       Inr w \<Rightarrow> immutable w \<and> py_content w = py_content v \<and> freeze w = Inr w \<and> \<not> foreign v
     | Inl e \<Rightarrow> e = UnsupportedFragmentDataError \<and> foreign v"
  by (rule freeze_spec)

section \<open>The clamp\<close>

definition dimensions :: "communication_profile \<Rightarrow> real list" where
  "dimensions p = [warmth p, humor p, teasing p, assertiveness p, formality p, verbosity p]"

text \<open>A valid clamp keeps every dimension of a profile between 0 and 1, raises none of them, caps the
  four it names, leaves warmth and formality alone, and applying it again changes nothing.\<close>
theorem clamp_only_lowers:
  assumes "check_constraints c = Inr d" and "list_all (\<lambda>x. 0 \<le> x \<and> x \<le> 1) (dimensions p)"
  shows "list_all (\<lambda>x. 0 \<le> x \<and> x \<le> 1) (dimensions (apply_situational_constraints p d))
    \<and> list_all2 (\<le>) (dimensions (apply_situational_constraints p d)) (dimensions p)
    \<and> list_all (\<lambda>(m, x). case m of None \<Rightarrow> True | Some y \<Rightarrow> x \<le> y)
        (zip [None, max_humor c, max_teasing c, max_assertiveness c, None, max_verbosity c]
          (dimensions (apply_situational_constraints p d)))
    \<and> warmth (apply_situational_constraints p d) = warmth p
    \<and> formality (apply_situational_constraints p d) = formality p
    \<and> apply_situational_constraints (apply_situational_constraints p d) d = apply_situational_constraints p d"
proof -
  have d: "d = c" "valid_constraint (max_humor c)" "valid_constraint (max_teasing c)"
    "valid_constraint (max_assertiveness c)" "valid_constraint (max_verbosity c)"
    using assms(1) by (simp_all add: check_constraints_def split: if_splits)
  have range: "0 \<le> x \<Longrightarrow> x \<le> 1 \<Longrightarrow> valid_constraint m \<Longrightarrow> 0 \<le> clamp m x \<and> clamp m x \<le> 1 \<and> clamp m x \<le> x" for m x
    by (auto simp: clamp_def valid_constraint_def split: option.splits)
  have cap: "case m of None \<Rightarrow> True | Some y \<Rightarrow> clamp m x \<le> y" for m x
    by (simp add: clamp_def split: option.split)
  have again: "clamp m (clamp m x) = clamp m x" for m x by (simp add: clamp_def split: option.split)
  show ?thesis using assms(2) d range cap
    by (simp add: apply_situational_constraints_def dimensions_def again)
qed

lemma clamp_only_lowers_witness:
  "humor (apply_situational_constraints (profile (hd identity_catalog)) (no_constraints\<lparr>max_humor := Some 0.1\<rparr>)) \<le> 0.1"
proof -
  have c: "check_constraints (no_constraints\<lparr>max_humor := Some 0.1\<rparr>) = Inr (no_constraints\<lparr>max_humor := Some 0.1\<rparr>)"
    by (simp add: check_constraints_def no_constraints_def valid_constraint_def)
  have p: "list_all (\<lambda>x. 0 \<le> x \<and> x \<le> 1) (dimensions (profile (hd identity_catalog)))"
    by (simp add: identity_catalog_def entry_of_def dimensions_def)
  show ?thesis using clamp_only_lowers [OF c p] by (simp add: dimensions_def no_constraints_def)
qed

section \<open>Providers\<close>

definition renderable :: "fragment \<Rightarrow> bool" where
  "renderable f \<longleftrightarrow>
     (fg_namespace f = ''lock_state'' \<longrightarrow> (\<exists>l. render_lock_state (fg_data f) = Inr l)) \<and>
     (fg_namespace f = ''active_task'' \<longrightarrow> (\<exists>l. render_active_task (fg_data f) = Inr l))"

locale context_providers =
  fixes ps :: "'s provider list"
  assumes reads: "p \<in> set ps \<Longrightarrow> snd (pv_provide p k now s) = s"
    and own_namespace: "p \<in> set ps \<Longrightarrow> fst (pv_provide p k now s) = Inr (Some f) \<Longrightarrow> fg_namespace f = pv_namespace p"
    and distinct_namespaces: "distinct (map pv_namespace ps)"
    and can_render: "p \<in> set ps \<Longrightarrow> fst (pv_provide p k now s) = Inr (Some f) \<Longrightarrow> renderable f"
begin

lemma calls:
  assumes "set qs \<subseteq> set ps" and "distinct (map pv_namespace qs)"
    and "fst ` set frs \<inter> pv_namespace ` set qs = {}"
    and "\<forall>(k', f) \<in> set frs. k' = fg_namespace f \<and> renderable f"
  shows "\<exists>frs' outs'. call_providers qs k now frs outs s = (Inr (frs', outs'), s) \<and>
    (\<forall>(k', f) \<in> set frs'. k' = fg_namespace f \<and> renderable f)"
  using assms
proof (induction qs arbitrary: frs outs)
  case Nil
  then show ?case by auto
next
  case (Cons p qs)
  have p: "p \<in> set ps" using Cons.prems(1) by simp
  obtain r where r: "pv_provide p k now s = (r, s)" using reads [OF p, of k now s] by (cases "pv_provide p k now s") auto
  have skip: "\<exists>frs' outs'. call_providers qs k now frs outs1 s = (Inr (frs', outs'), s) \<and>
      (\<forall>(k', f) \<in> set frs'. k' = fg_namespace f \<and> renderable f)" for outs1
    by (rule Cons.IH) (use Cons.prems in auto)
  show ?case
  proof (cases r)
    case (Inl e)
    then show ?thesis using r skip by simp
  next
    case (Inr found)
    show ?thesis
    proof (cases found)
      case None
      then show ?thesis using r Inr skip by simp
    next
      case (Some f)
      have f: "fg_namespace f = pv_namespace p" "renderable f"
        using own_namespace [OF p, of k now s f] can_render [OF p, of k now s f] r Inr Some by simp_all
      have new: "map_of frs (pv_namespace p) = None" using Cons.prems(3) by (auto simp: map_of_eq_None_iff)
      have "\<exists>frs' outs'. call_providers qs k now (frs @ [(fg_namespace f, f)]) outs1 s = (Inr (frs', outs'), s) \<and>
          (\<forall>(k', f) \<in> set frs'. k' = fg_namespace f \<and> renderable f)" for outs1
      proof (rule Cons.IH)
        show "set qs \<subseteq> set ps" "distinct (map pv_namespace qs)" using Cons.prems by simp_all
        show "fst ` set (frs @ [(fg_namespace f, f)]) \<inter> pv_namespace ` set qs = {}"
          using Cons.prems f by auto
        show "\<forall>(k', g) \<in> set (frs @ [(fg_namespace f, f)]). k' = fg_namespace g \<and> renderable g"
          using Cons.prems(4) f by simp
      qed
      then show ?thesis using r Inr Some f new by simp
    qed
  qed
qed

lemma assembles:
  assumes "get_identity ident = Some e"
  shows "\<exists>frs outs. (\<forall>msg. build_response_context cat msg lang ident cons ps [] k now s =
      (Inr (Assembled \<lparr>sn_category = cat, sn_message = msg, sn_language = lang, sn_profile = profile e,
         sn_identity_id = ident, sn_constraints = cons, sn_fragments = frs\<rparr> outs), s))
    \<and> (\<forall>(k', f) \<in> set frs. k' = fg_namespace f \<and> renderable f)"
proof -
  obtain frs outs where c: "call_providers ps k now [] [] s = (Inr (frs, outs), s)"
    and f: "\<forall>(k', f) \<in> set frs. k' = fg_namespace f \<and> renderable f"
    using calls [of ps "[]" k now "[]" s] distinct_namespaces by auto
  have "list_all (\<lambda>(k, f). k = fg_namespace f) frs" using f by (auto simp: list_all_iff)
  then show ?thesis using c f assms
    by (simp add: build_response_context_def build_identity_profile_def op_catch_def op_bind_def op_return_def
        assemble_context_def new_snapshot_def)
qed

end

lemma lock_provider_eq: "pv_provide lock_state_provider k now s =
  (if \<not> nonblank k then (Inl ValueError, s)
   else (Inr (Some \<lparr>fg_namespace = ''lock_state'', fg_data = P_Mapping_Proxy
     [(P_Str ''status'', P_Str (knowledge_value (case latest_report k s of None \<Rightarrow> KN_UNKNOWN | Some r \<Rightarrow> knowledge_of (lr_status r)))),
      (P_Str ''note'', P_Str (knowledge_note (case latest_report k s of None \<Rightarrow> KN_UNKNOWN | Some r \<Rightarrow> knowledge_of (lr_status r))))]\<rparr>), s))"
  by (simp add: lock_state_provider_def get_current_knowledge_state_def get_current_report_def op_bind_def
      op_require_def op_return_def op_raise_def op_get_def lift_fragment_def new_fragment_def nonblank_def py_space_def)

lemma freeze_items_keys: "freeze_items kvs = Inr l \<Longrightarrow> map fst l = map fst kvs"
  by (induction kvs arbitrary: l rule: list.induct) (auto split: sum.splits)

lemma freeze_items_lookup:
  assumes "freeze_items kvs = Inr l" and "k \<in> fst ` set kvs"
  shows "\<exists>v. map_of l k = Some v"
proof -
  have "fst ` set l = fst ` set kvs" using freeze_items_keys [OF assms(1)] by (metis list.set_map)
  then show ?thesis using assms(2) by (metis map_of_eq_None_iff not_Some_eq)
qed

lemma items_of_found:
  "(\<And>k. k \<in> set ks \<Longrightarrow> \<exists>v. map_of l (P_Str k) = Some v) \<Longrightarrow> \<exists>r. items_of ks (P_Mapping_Proxy l) = Inr r"
proof (induction ks)
  case (Cons k ks)
  obtain v where "map_of l (P_Str k) = Some v" using Cons.prems by auto
  moreover obtain r where "items_of ks (P_Mapping_Proxy l) = Inr r" using Cons by auto
  ultimately show ?case by simp
qed simp

lemma renders_task:
  assumes l: "freeze_items kvs = Inr l"
    and keys: "P_Str ` set [''has_active_task'', ''template_id'', ''template_version'', ''category'', ''difficulty'',
      ''duration_minutes'', ''completion_requirements''] \<subseteq> fst ` set kvs"
  shows "\<exists>x. render_active_task (P_Mapping_Proxy l) = Inr x"
proof -
  have found: "\<exists>v. map_of l (P_Str k) = Some v" if "k \<in> set [''has_active_task'', ''template_id'', ''template_version'',
      ''category'', ''difficulty'', ''duration_minutes'', ''completion_requirements'']" for k
    using freeze_items_lookup [OF l] keys that by blast
  obtain h where h: "map_of l (P_Str ''has_active_task'') = Some h" using found [of "''has_active_task''"] by auto
  obtain r where r: "items_of [''template_id'', ''template_version'', ''category'', ''difficulty'', ''duration_minutes'',
      ''completion_requirements''] (P_Mapping_Proxy l) = Inr r"
    using items_of_found [of "[''template_id'', ''template_version'', ''category'', ''difficulty'',
      ''duration_minutes'', ''completion_requirements'']" l] found by auto
  show ?thesis unfolding render_active_task_def r by (simp add: h)
qed

lemma json_not_foreign: "\<not> foreign (json_value j)"
proof (induction j)
  case (JArr js)
  then have "\<not> foreign_any (map json_value js)" by (induction js) auto
  then show ?case by simp
qed simp_all

definition task_items :: "task_template_version \<Rightarrow> (py_value \<times> py_value) list" where
  "task_items v = [(P_Str ''has_active_task'', P_Bool True), (P_Str ''template_id'', P_Str (tv_template_id v)),
     (P_Str ''template_version'', P_Int (tv_version v)), (P_Str ''title'', text_or_none (tv_title v)),
     (P_Str ''instructions'', text_or_none (tv_instructions v)), (P_Str ''category'', P_Str (td_category (tv_details v))),
     (P_Str ''difficulty'', P_Str (td_difficulty (tv_details v))),
     (P_Str ''duration_minutes'', P_Int (td_duration_minutes (tv_details v))),
     (P_Str ''completion_requirements'', P_Dict (map (\<lambda>(x, v). (P_Str x, json_value v)) (td_completion_requirements (tv_details v))))]"

lemma task_items_freeze: "\<exists>l. freeze_items (task_items v) = Inr l"
proof -
  have "\<not> foreign_item (map (\<lambda>(x, v). (P_Str x, json_value v)) ps)" for ps
    by (induction ps) (auto simp: json_not_foreign)
  then have "\<not> foreign_item (task_items v)"
    by (simp add: task_items_def text_or_none_def split: option.split)
  then show ?thesis using freeze_spec(3) [of "task_items v"] by (auto split: sum.splits)
qed

lemma new_fragment_eq: "nonblank ns \<Longrightarrow> freeze_items kvs = Inr l \<Longrightarrow>
    new_fragment ns kvs = Inr \<lparr>fg_namespace = ns, fg_data = P_Mapping_Proxy l\<rparr>"
  by (simp add: new_fragment_def)

lemma active_task_provider_effect:
  "\<exists>r. pv_provide active_task_provider k now s = (r, s) \<and>
    (\<forall>f. r = Inr (Some f) \<longrightarrow> fg_namespace f = ''active_task'' \<and> renderable f)"
proof (cases "nonblank k")
  case False
  then show ?thesis
    by (simp add: active_task_provider_def get_active_assignment_def op_bind_def op_require_def op_raise_def)
next
  case k: True
  have ns: "nonblank ''active_task''" by (simp add: nonblank_def py_space_def)
  have none: "new_fragment ''active_task'' [(P_Str ''has_active_task'', P_Bool False)]
      = Inr \<lparr>fg_namespace = ''active_task'', fg_data = P_Mapping_Proxy [(P_Str ''has_active_task'', P_Bool False)]\<rparr>"
    by (rule new_fragment_eq [OF ns]) simp
  have some: "\<exists>l. new_fragment ''active_task'' (task_items v)
      = Inr \<lparr>fg_namespace = ''active_task'', fg_data = P_Mapping_Proxy l\<rparr> \<and> (\<exists>x. render_active_task (P_Mapping_Proxy l) = Inr x)" for v
  proof -
    obtain l where l: "freeze_items (task_items v) = Inr l" using task_items_freeze by blast
    have "\<exists>x. render_active_task (P_Mapping_Proxy l) = Inr x"
      by (rule renders_task [OF l]) (simp add: task_items_def)
    then show ?thesis using new_fragment_eq [OF ns l] by blast
  qed
  have ren: "renderable \<lparr>fg_namespace = ''active_task'', fg_data = d\<rparr>"
    if "\<exists>x. render_active_task d = Inr x" for d using that by (simp add: renderable_def)
  show ?thesis
  proof (cases "active_row k s")
    case None
    then show ?thesis using k none ren
      by (simp add: active_task_provider_def get_active_assignment_def op_bind_def op_require_def op_return_def
          op_get_def lift_fragment_def render_active_task_def)
  next
    case (Some a)
    let ?v = "read_version (version_row (ta_template_id a) (ta_template_version a) s)"
    show ?thesis
    proof (cases ?v)
      case (Inl e)
      then show ?thesis using k Some
        by (simp add: active_task_provider_def get_active_assignment_def op_bind_def op_require_def op_return_def
            op_get_def get_template_def op_lift_def)
    next
      case (Inr row)
      show ?thesis
      proof (cases row)
        case None
        then show ?thesis using k Some Inr
          by (simp add: active_task_provider_def get_active_assignment_def op_bind_def op_require_def op_return_def
              op_get_def get_template_def op_lift_def)
      next
        case (Some v)
        obtain l where l: "new_fragment ''active_task'' (task_items v)
            = Inr \<lparr>fg_namespace = ''active_task'', fg_data = P_Mapping_Proxy l\<rparr>"
          and x: "\<exists>x. render_active_task (P_Mapping_Proxy l) = Inr x" using some [of v] by blast
        have "pv_provide active_task_provider k now s
            = (Inr (Some \<lparr>fg_namespace = ''active_task'', fg_data = P_Mapping_Proxy l\<rparr>), s)"
          using k \<open>active_row k s = Some a\<close> Inr Some l [unfolded task_items_def]
          by (simp add: active_task_provider_def get_active_assignment_def op_bind_def op_require_def op_return_def
              op_get_def get_template_def op_lift_def lift_fragment_def)
        then show ?thesis using ren [OF x] by simp
      qed
    qed
  qed
qed

definition standard_providers :: "('m runtime_db_scheme) provider list" where
  \<comment> \<open>the composition root of \<open>bot/discord_bot.py\<close>\<close>
  "standard_providers = [lock_state_provider, active_task_provider]"

interpretation standard: context_providers standard_providers
proof (unfold_locales)
  fix p k now and s :: "'m runtime_db_scheme" and f
  assume p: "p \<in> set (standard_providers :: ('m runtime_db_scheme) provider list)"
  obtain r where r: "pv_provide active_task_provider k now s = (r, s)"
    "\<forall>f. r = Inr (Some f) \<longrightarrow> fg_namespace f = ''active_task'' \<and> renderable f"
    using active_task_provider_effect by blast
  have ns: "pv_namespace (active_task_provider :: ('m runtime_db_scheme) provider) = ''active_task''"
    "pv_namespace (lock_state_provider :: ('m runtime_db_scheme) provider) = ''lock_state''"
    by (simp_all add: active_task_provider_def lock_state_provider_def)
  have which: "p = lock_state_provider \<or> p = active_task_provider" using p by (simp add: standard_providers_def)
  then show "snd (pv_provide p k now s) = s" using r by (auto simp: lock_provider_eq)
  assume found: "fst (pv_provide p k now s) = Inr (Some f)"
  show "fg_namespace f = pv_namespace p" using which found r ns by (auto simp: lock_provider_eq split: if_splits)
  show "renderable f" using which found r
    by (auto simp: lock_provider_eq renderable_def render_lock_state_def split: if_splits)
next
  show "distinct (map pv_namespace (standard_providers :: ('m runtime_db_scheme) provider list))"
    by (simp add: standard_providers_def active_task_provider_def lock_state_provider_def)
qed

section \<open>The reply\<close>

definition standard_engine ::
  "(generation_request \<Rightarrow> exn + string) \<Rightarrow> memory_limits \<Rightarrow> nat \<Rightarrow> ('m runtime_db_scheme) engine" where
  "standard_engine model l limit = \<lparr>en_model = model, en_limits = l, en_providers = standard_providers,
     en_max_output = limit\<rparr>"

definition model_contract :: "(generation_request \<Rightarrow> exn + string) \<Rightarrow> bool" where
  \<comment> \<open>\<open>ConversationModel\<close>: never raises anything other than \<open>LLMGenerationError\<close>\<close>
  "model_contract model \<longleftrightarrow> (\<forall>r e. model r = Inl e \<longrightarrow> (\<exists>c. e = LLMGenerationError c))"

lemma system_message_total:
  assumes "\<forall>(k', f) \<in> set (sn_fragments n). k' = fg_namespace f \<and> renderable f"
  shows "\<exists>parts. \<forall>x. system_message (n\<lparr>sn_message := x\<rparr>) p = Inr parts"
proof -
  have f: "fg_namespace f = k \<and> renderable f" if "map_of (sn_fragments n) k = Some f" for k f
    using assms map_of_SomeD [OF that] by auto
  have lock: "\<exists>l. render_lock_state (fg_data f) = Inr l" if "map_of (sn_fragments n) ''lock_state'' = Some f" for f
    using f [OF that] by (simp add: renderable_def)
  have task: "\<exists>l. render_active_task (fg_data f) = Inr l" if "map_of (sn_fragments n) ''active_task'' = Some f" for f
    using f [OF that] by (simp add: renderable_def)
  have "\<exists>d. domain_section n = Inr d"
    using lock task
    by (cases "map_of (sn_fragments n) ''lock_state''"; cases "map_of (sn_fragments n) ''active_task''")
      (force simp: domain_section_def Let_def)+
  then obtain d where "domain_section n = Inr d" by blast
  moreover have "domain_section (n\<lparr>sn_message := x\<rparr>) = domain_section n" for x by (simp add: domain_section_def)
  ultimately show ?thesis by (simp add: system_message_def)
qed

definition request_of :: "prompt_part list \<Rightarrow> memory_turn list \<Rightarrow> string \<Rightarrow> nat \<Rightarrow> generation_request" where
  \<comment> \<open>the system message, the remembered turns in order, and the user's text as the last message\<close>
  "request_of parts turns msg limit = \<lparr>gr_messages = System_Message parts # map turn_message turns @ [User_Message msg],
     gr_max_output = limit\<rparr>"

lemma reply_given:
  fixes s :: "'m runtime_db_scheme"
  assumes "nonblank k" and "get_identity ident = Some e"
  shows "\<exists>parts. \<forall>model l limit msg m. model_contract model \<longrightarrow>
    (let request = request_of parts (read_working_memory k m) msg limit
     in \<exists>r m1. generate_response (standard_engine model l limit) k msg lang ident now (s, m) = (Inr r, (s, m1))
      \<and> nonblank (rsp_text r)
      \<and> ((model request = Inr (rsp_text r) \<and> rsp_category r = COACHING_DIALOGUE \<and> nonblank lang \<and> nonblank msg
             \<and> m1 = snd (commit_exchange l k msg (rsp_text r) m))
          \<or> (r = render_fallback GENERATION_UNAVAILABLE \<and> m1 = m
             \<and> (case model request of Inl x \<Rightarrow> True | Inr t \<Rightarrow> \<not> nonblank t \<or> \<not> nonblank lang \<or> \<not> nonblank msg)))
      \<and> (\<forall>model'. model' request = model request \<longrightarrow>
           generate_response (standard_engine model' l limit) k msg lang ident now (s, m) = (Inr r, (s, m1))))"
proof -
  obtain frs outs where c: "\<And>msg. build_response_context COACHING_DIALOGUE msg lang ident no_constraints standard_providers [] k now s =
      (Inr (Assembled \<lparr>sn_category = COACHING_DIALOGUE, sn_message = msg, sn_language = lang, sn_profile = profile e,
         sn_identity_id = ident, sn_constraints = no_constraints, sn_fragments = frs\<rparr> outs), s)"
    and f: "\<forall>(k', f) \<in> set frs. k' = fg_namespace f \<and> renderable f"
    using standard.assembles [OF assms(2)] by blast
  let ?n = "\<lambda>msg. \<lparr>sn_category = COACHING_DIALOGUE, sn_message = msg, sn_language = lang, sn_profile = profile e,
         sn_identity_id = ident, sn_constraints = no_constraints, sn_fragments = frs\<rparr>"
  let ?p = "\<lparr>pl_category = COACHING_DIALOGUE, pl_required = [], pl_optional = [], pl_path = MODEL_GENERATION,
     pl_tool_calls = []\<rparr>"
  obtain parts where parts: "\<And>msg. system_message (?n msg) ?p = Inr parts"
    using system_message_total [of "?n []" ?p] f by fastforce
  have keys: "list_all (\<lambda>(k, f). k = fg_namespace f) frs" using f by (auto simp: list_all_iff)
  have plan: "build_response_plan (?n msg) = Inr ?p" for msg
    by (simp add: build_response_plan_def new_response_plan_def)
  have req: "build_generation_request (?n msg) ?p ts limit = Inr (request_of parts ts msg limit)" for msg ts limit
    by (simp add: build_generation_request_def parts request_of_def)
  have fb: "nonblank (rsp_text (render_fallback GENERATION_UNAVAILABLE))"
    by (simp add: render_fallback_def nonblank_def py_space_def)
  have valid: "validate_response \<lparr>rsp_text = raw, rsp_category = COACHING_DIALOGUE\<rparr> ?p (?n msg) = None
      \<longleftrightarrow> nonblank raw \<and> nonblank lang \<and> nonblank msg" for raw msg
    using keys by (simp add: validate_response_def)
  have gen: "generate_response (standard_engine model l limit) k msg lang ident now (s, m) =
      (case model (request_of parts (read_working_memory k m) msg limit) of
         Inl (LLMGenerationError code) \<Rightarrow> (Inr (render_fallback GENERATION_UNAVAILABLE), (s, m))
       | Inl x \<Rightarrow> (Inl x, (s, m))
       | Inr raw \<Rightarrow> if nonblank raw \<and> nonblank lang \<and> nonblank msg
           then (Inr \<lparr>rsp_text = raw, rsp_category = COACHING_DIALOGUE\<rparr>, (s, snd (commit_exchange l k msg raw m)))
           else (Inr (render_fallback GENERATION_UNAVAILABLE), (s, m)))" for model l limit msg m
  proof -
    have "finish_response (standard_engine model l limit :: ('m runtime_db_scheme) engine) k msg (?n msg) m =
        (case model (request_of parts (read_working_memory k m) msg limit) of
         Inl (LLMGenerationError code) \<Rightarrow> (Inr (render_fallback GENERATION_UNAVAILABLE), m)
       | Inl x \<Rightarrow> (Inl x, m)
       | Inr raw \<Rightarrow> if nonblank raw \<and> nonblank lang \<and> nonblank msg
           then (Inr \<lparr>rsp_text = raw, rsp_category = COACHING_DIALOGUE\<rparr>, snd (commit_exchange l k msg raw m))
           else (Inr (render_fallback GENERATION_UNAVAILABLE), m))"
      (is "_ = ?rhs")
    proof (cases "model (request_of parts (read_working_memory k m) msg limit)")
      case (Inl x)
      then show ?thesis by (simp add: finish_response_def plan req standard_engine_def split: exn.split)
    next
      case (Inr raw)
      show ?thesis
      proof (cases "nonblank raw \<and> nonblank lang \<and> nonblank msg")
        case True
        then have "validate_response \<lparr>rsp_text = raw, rsp_category = COACHING_DIALOGUE\<rparr> ?p (?n msg) = None"
          unfolding valid .
        then show ?thesis using Inr True
          by (simp add: finish_response_def plan req standard_engine_def commit_response_def Let_def)
      next
        case False
        then have "validate_response \<lparr>rsp_text = raw, rsp_category = COACHING_DIALOGUE\<rparr> ?p (?n msg) \<noteq> None"
          unfolding valid .
        then show ?thesis using Inr False
          by (auto simp add: finish_response_def plan req standard_engine_def Let_def)
      qed
    qed
    then show ?thesis using assms(1) c [of msg]
      by (auto simp: generate_response_def standard_engine_def split: sum.splits exn.splits)
  qed
  show ?thesis
  proof (intro exI [of _ parts] allI impI)
    fix model :: "generation_request \<Rightarrow> exn + string" and l limit msg m
    assume "model_contract model"
    then have e: "\<exists>code. x = LLMGenerationError code" if "model r = Inl x" for r x
      using that by (auto simp: model_contract_def)
    let ?request = "request_of parts (read_working_memory k m) msg limit"
    show "let request = ?request in
     \<exists>r m1. generate_response (standard_engine model l limit) k msg lang ident now (s, m) = (Inr r, (s, m1))
      \<and> nonblank (rsp_text r)
      \<and> ((model request = Inr (rsp_text r) \<and> rsp_category r = COACHING_DIALOGUE \<and> nonblank lang \<and> nonblank msg
             \<and> m1 = snd (commit_exchange l k msg (rsp_text r) m))
          \<or> (r = render_fallback GENERATION_UNAVAILABLE \<and> m1 = m
             \<and> (case model request of Inl x \<Rightarrow> True | Inr t \<Rightarrow> \<not> nonblank t \<or> \<not> nonblank lang \<or> \<not> nonblank msg)))
      \<and> (\<forall>model'. model' request = model request \<longrightarrow>
           generate_response (standard_engine model' l limit) k msg lang ident now (s, m) = (Inr r, (s, m1)))"
      unfolding Let_def gen using e [of ?request] fb by (cases "model ?request") auto
  qed
qed

corollary some_reply:
  fixes s :: "'m runtime_db_scheme"
  assumes "nonblank k" and "get_identity ident = Some e" and "model_contract model"
  shows "\<exists>r m1. generate_response (standard_engine model l limit) k msg lang ident now (s, m) = (Inr r, (s, m1))"
  using reply_given [OF assms(1,2), of lang now s] assms(3) unfolding Let_def by meson

text \<open>C11: with the two providers of the bot, a user with a known identity gets a reply that is not blank
  to every message, whatever model that keeps its contract is configured, and the database is only
  read. One system message, determined by the user, identity, language, time and database alone and so
  the same for every text, model and memory, precedes the remembered turns and the text in the request;
  nothing else is asked (the outcome depends on the model only through its answer to this request).
  Either its answer passed the check and exactly this exchange was committed, or the reply is the
  deterministic fallback and working memory is as it was.\<close>
theorem reply_always_given:
  fixes s :: "'m runtime_db_scheme"
  assumes "nonblank k" and "get_identity ident = Some e"
  shows "\<exists>parts. \<forall>model l limit msg m. model_contract model \<longrightarrow>
    (let request = \<lparr>gr_messages = System_Message parts # map turn_message (read_working_memory k m) @ [User_Message msg],
                    gr_max_output = limit\<rparr>
     in \<exists>r m1. generate_response (standard_engine model l limit) k msg lang ident now (s, m) = (Inr r, (s, m1))
      \<and> nonblank (rsp_text r)
      \<and> ((model request = Inr (rsp_text r) \<and> rsp_category r = COACHING_DIALOGUE \<and> nonblank lang \<and> nonblank msg
             \<and> m1 = snd (commit_exchange l k msg (rsp_text r) m))
          \<or> (r = render_fallback GENERATION_UNAVAILABLE \<and> m1 = m
             \<and> (case model request of Inl x \<Rightarrow> True | Inr t \<Rightarrow> \<not> nonblank t \<or> \<not> nonblank lang \<or> \<not> nonblank msg)))
      \<and> (\<forall>model'. model' request = model request \<longrightarrow>
           generate_response (standard_engine model' l limit) k msg lang ident now (s, m) = (Inr r, (s, m1))))"
  using reply_given [OF assms, of lang now s] unfolding request_of_def .

lemma reply_always_given_witness:
  "\<exists>r m1. generate_response (standard_engine (\<lambda>r. Inr ''fine'') sample_limits 1800) sample_user ''hi'' ''en'' ''scarlett'' 0
      (sample_db OB_COMPLETE LOCK_NONE, Map.empty) = (Inr r, (sample_db OB_COMPLETE LOCK_NONE, m1))
    \<and> rsp_text r = ''fine'' \<and> m1 sample_user = Some [turn_pair ''hi'' ''fine'']"
proof -
  have u: "nonblank sample_user" by (simp add: sample_user_def)
  have t: "nonblank ''fine''" "nonblank ''en''" "nonblank ''hi''" by (simp_all add: nonblank_def py_space_def)
  obtain e where e: "get_identity ''scarlett'' = Some e"
    by (simp add: get_identity_def identity_catalog_def entry_of_def)
  have m: "model_contract (\<lambda>r. Inr ''fine'')" by (simp add: model_contract_def)
  have c: "commit_exchange sample_limits sample_user ''hi'' ''fine'' Map.empty
      = (Inr (), [sample_user \<mapsto> [turn_pair ''hi'' ''fine'']])"
    using t u by (simp add: commit_exchange_eq)
      (simp add: sample_limits_def trim_def trim_count.simps trim_characters.simps total_characters_def
        exchange_size_def turn_pair_def)
  obtain r m1 where run: "generate_response (standard_engine (\<lambda>r. Inr ''fine'') sample_limits 1800) sample_user ''hi'' ''en'' ''scarlett'' 0
      (sample_db OB_COMPLETE LOCK_NONE, Map.empty) = (Inr r, (sample_db OB_COMPLETE LOCK_NONE, m1))"
    and r: "rsp_text r = ''fine''" "m1 = snd (commit_exchange sample_limits sample_user ''hi'' ''fine'' Map.empty)"
    using reply_always_given [OF u e, of "''en''" 0 "sample_db OB_COMPLETE LOCK_NONE"] m t
    by (elim exE) (drule spec [of _ "\<lambda>r. Inr ''fine''"], drule spec [of _ sample_limits], drule spec [of _ 1800],
      drule spec [of _ "''hi''"], drule spec [of _ Map.empty], auto simp: Let_def)
  show ?thesis using run r c by simp
qed

end
