(* ===== verification/Application_Facts.thy ===== *)
theory Application_Facts
  imports Application Conversation_Properties
begin

text \<open>
  The invariant of the whole application: that of the system, of the user-facing tables and of the
  Chaster tables together, and that every handler keeps it. The Chaster tables are outside the
  frames of the rest of the system, so the interpretation \<open>chaster_side\<close> carries their invariant
  through every system operation a handler calls.
\<close>

definition whole_ok :: "'m chaster_db_scheme \<Rightarrow> bool" where
  "whole_ok s \<longleftrightarrow> app_ok s \<and> chaster_ok s"

lemma whole_okD:
  assumes "whole_ok s"
  shows "app_ok s" and "chaster_ok s" and "run_ok s" and "user_side_ok s" and "accounts_ok s"
    and "preferences_ok s" and "catalog_ok s" and "runtime_ok s" and "lock_ok s"
  using assms by (auto simp: whole_ok_def app_ok_def user_side_ok_def preferences_ok_split)

lemma whole_keepsI:
  assumes "\<And>s. whole_ok s \<Longrightarrow> app_ok (snd (f s))" and "\<And>s. whole_ok s \<Longrightarrow> chaster_ok (snd (f s))"
  shows "op_keeps whole_ok f"
  using assms by (auto simp: op_keeps_def whole_ok_def)

lemma whole_keeps:
  assumes "op_keeps app_ok f" and "op_keeps chaster_ok f"
  shows "op_keeps whole_ok f"
  using assms by (simp add: op_keeps_def whole_ok_def)

section \<open>The Chaster tables are outside the rest of the system\<close>

lemma chaster_ok_cong:
  fixes s s' :: "'m chaster_db_scheme"
  assumes "chaster_ok s" and "next_id s \<le> next_id s'" and p: "account_part s' = account_part s"
    and c: "catalog_part s' = catalog_part s" and "chaster_part s' = chaster_part s"
  shows "chaster_ok s'"
proof -
  have "grown s s'" using assms(2) p c
    by (simp add: grown_def user_exists_def account_by_id_def version_row_def account_part_def catalog_part_def)
  then show ?thesis using chaster_tables.frame assms(1,5) by blast
qed

interpretation chaster_side: system_frame chaster_ok
  by unfold_locales
    (auto simp: keeps_def tx_simps insert_event_def new_id_def account_part_def catalog_part_def chaster_part_def
      intro: chaster_ok_cong)

text \<open>The operations of the user-facing modules only grow what the Chaster tables refer to.\<close>

lemma chaster_get_or_create_user:
  assumes "whole_ok s"
  shows "chaster_ok (snd (get_or_create_user channel ext now s))"
proof (cases "identity_row channel ext s")
  case None
  have "grown s (with_new_account channel ext now s)"
    by (simp add: grown_def user_exists_with_new_account)
      (simp add: version_row_def with_new_account_def insert_account_def insert_identity_def)
  then show ?thesis using None whole_okD(2) [OF assms]
    by (simp add: get_or_create_user_unknown)
      (rule chaster_tables.frame, assumption, assumption,
        simp add: chaster_part_def with_new_account_def insert_account_def insert_identity_def)
next
  case (Some c)
  obtain a where a: "account_by_id (ci_user_account_id c) s = Some a"
    using known_identity_has_account [OF whole_okD(5) [OF assms] Some] .
  have "grown s (touch_account (ua_id a) now s)"
    by (simp add: grown_def) (simp add: touch_account_def version_row_def)
  then show ?thesis using Some a whole_okD(2) [OF assms]
    by (simp add: get_or_create_user_known)
      (rule chaster_tables.frame, assumption, assumption, simp add: chaster_part_def touch_account_def)
qed

lemma chaster_get_or_create_preferences: "op_keeps chaster_ok (get_or_create_preferences u now)"
  by (rule op_keepsI, rule chaster_ok_cong, assumption)
    (simp_all add: get_or_create_preferences_eq part_defs chaster_part_def split: option.split)

lemma chaster_report_status: "op_keeps chaster_ok (report_status u status consent now)"
  by (rule op_keepsI, rule chaster_ok_cong, assumption)
    (simp_all add: report_status_eq part_defs chaster_part_def insert_report_def)

lemma chaster_assign_task:
  assumes "whole_ok s"
  shows "chaster_ok (snd (assign_task u t k consent now s))"
  by (rule chaster_ok_cong [OF whole_okD(2) [OF assms]])
    (simp_all add: assign_task_eq [OF whole_okD(7) [OF assms]] part_defs chaster_part_def assigned_def Let_def
      split: option.split)

lemma chaster_resolve: "op_keeps chaster_ok (resolve_assignment i target consent now)"
  by (rule op_keepsI, rule chaster_ok_cong, assumption)
    (simp_all add: resolve_assignment_eq part_defs chaster_part_def with_resolved_def split: option.split)

lemma chaster_process_message:
  assumes ok: "whole_ok s" and r: "preferences_of (up_user_id p) s = Some r"
  shows "chaster_ok (snd (process_message p t now s))"
  by (rule chaster_ok_cong [OF whole_okD(2) [OF ok]])
    (auto simp: process_message_eq [OF whole_okD(6) [OF ok] r] part_defs chaster_part_def stepped_def
      split: sum.split option.split)

text \<open>And the operation on the Chaster tables a command reaches leaves the rest as it is.\<close>

lemma core_create_or_replace_state: "same_core s (snd (create_or_replace_state u now s))"
  by (simp add: create_or_replace_state_eq same_core_def mode_db.defs with_state_def)

lemma app_create_or_replace_state: "op_keeps app_ok (create_or_replace_state u now)"
  by (rule op_keepsI, rule app_user_op, assumption, rule core_create_or_replace_state,
      rule user_side_ok_cong, erule app_okD)
    (simp_all add: create_or_replace_state_eq part_defs with_state_def)

section \<open>Every operation a handler calls\<close>

lemma whole_get_or_create_user: "op_keeps whole_ok (get_or_create_user channel ext now)"
  by (rule whole_keepsI, rule op_keepsD [OF app_get_or_create_user], erule whole_okD, erule chaster_get_or_create_user)

lemma whole_get_or_create_preferences [keeps_intros]: "op_keeps whole_ok (get_or_create_preferences u now)"
  by (rule whole_keeps app_get_or_create_preferences chaster_get_or_create_preferences)+

lemma whole_report_status [keeps_intros]: "op_keeps whole_ok (report_status u status consent now)"
  by (rule whole_keeps app_report_status chaster_report_status)+

lemma whole_assign_task [keeps_intros]: "op_keeps whole_ok (assign_task u t k consent now)"
  by (rule whole_keepsI, rule op_keepsD [OF app_assign_task], erule whole_okD, erule chaster_assign_task)

lemma whole_resolve [keeps_intros]: "target \<noteq> TA_ACTIVE \<Longrightarrow> op_keeps whole_ok (resolve_assignment i target consent now)"
  by (rule whole_keeps app_resolve chaster_resolve | assumption)+

lemma whole_create_or_replace_state [keeps_intros]: "op_keeps whole_ok (create_or_replace_state u now)"
  by (rule whole_keeps app_create_or_replace_state op_keeps_create_or_replace_state)+

text \<open>The operations on the rest of the system.\<close>

lemma whole_system_op:
  assumes "op_keeps run_ok f" and "op_keeps user_side_ok f" and "op_keeps chaster_ok f"
  shows "op_keeps whole_ok f"
  by (intro whole_keeps app_system_op assms)

lemma whole_ensure [keeps_intros]: "op_keeps whole_ok (ensure_current_state now)"
  by (rule whole_system_op; (rule run_keeps)?;
      rule system_keeps plan_operations incident_operations user_side.kept.operations chaster_side.kept.operations)

lemma whole_mode [keeps_intros]:
  "op_keeps whole_ok (advance_transition_state get_active_or_frozen_penalty_window now)"
  "op_keeps whole_ok (request_transition get_active_or_frozen_penalty_window target consent now)"
  "op_keeps whole_ok (cancel_request i now)"
  "op_keeps whole_ok (confirm_transition i get_active_or_frozen_penalty_window consent now)"
  by (rule whole_system_op; (rule run_keeps)?;
      rule system_keeps plan_operations incident_operations user_side.kept.operations chaster_side.kept.operations
        user_side.mode.confirm chaster_side.mode.confirm)+

section \<open>Handlers\<close>

lemma op_keeps_with_consent [keeps_intros]:
  "(\<And>c. op_keeps I (f c)) \<Longrightarrow> op_keeps I (with_consent ctx f)"
  by (auto simp: with_consent_def intro: keeps_intros split: option.split)

lemma op_keeps_lift [keeps_intros]: "op_keeps I (op_lift r)"
  by (cases r) (auto simp: op_lift_def intro: keeps_intros)

lemma whole_settle [keeps_intros]: "op_keeps whole_ok (settle_mode_state ctx)"
  unfolding settle_mode_state_def by (intro keeps_intros)

lemma whole_title [keeps_intros]: "op_keeps whole_ok (title_of a)"
  unfolding title_of_def get_template_def by (intro keeps_intros)

lemma assign_error_keeps [keeps_intros]: "op_keeps I (assign_error_reply e)"
  by (cases e rule: assign_error_reply.cases) (simp_all add: op_keeps_return op_keeps_raise)

lemma op_keeps_user_reads [keeps_intros]:
  "op_keeps I (get_active_assignment u)" "op_keeps I (get_current_knowledge_state u)"
  "op_keeps I (get_eligible_templates r m k)"
  unfolding get_active_assignment_def get_current_knowledge_state_def get_current_report_def
    get_eligible_templates_def get_active_templates_def
  by (intro keeps_intros)+

lemmas handler_defs = handle_status_def handle_preferences_def handle_mode_status_def handle_mode_request_advanced_def
  handle_mode_request_standard_def handle_mode_cancel_def handle_mode_confirm_def handle_lock_status_def
  report_lock_status_def handle_task_active_def handle_task_request_def handle_chaster_connect_def resolve_task_def

lemma whole_run_command [keeps_intros]: "op_keeps whole_ok (run_command app c ctx)"
  by (cases c; simp only: run_command.simps handler_defs)
    (auto intro!: keeps_intros split: option.split prod.split)

section \<open>The bot\<close>

text \<open>The composition root of \<open>bot/discord_bot.py\<close>: the language model, the OAuth client and the token
  encryptor come from outside.\<close>

definition bot_limits :: memory_limits where
  "bot_limits = \<lparr>max_exchanges = 10, max_characters = 8000\<rparr>"

definition default_max_output_characters :: nat where
  "default_max_output_characters = 1800"

definition bot_application ::
  "(generation_request \<Rightarrow> exn + string) \<Rightarrow> oauth_client option \<Rightarrow> fernet option \<Rightarrow> 'm application" where
  "bot_application model client f =
     \<lparr>ap_engine = Some (standard_engine model bot_limits default_max_output_characters),
      ap_oauth_client = client, ap_connections = f\<rparr>"

definition process_ok :: "'m process \<Rightarrow> bool" where
  "process_ok sm \<longleftrightarrow> whole_ok (fst sm) \<and> memory_ok bot_limits (snd sm)"

text \<open>The engine only reads the database, and only commits whole exchanges to memory.\<close>

lemma generate_keeps:
  assumes "memory_ok l m"
  shows "\<exists>r m1. generate_response (standard_engine model l n) k msg lang ident now (s, m) = (r, (s, m1))
    \<and> memory_ok l m1"
proof -
  let ?en = "standard_engine model l n :: ('a runtime_db_scheme) engine"
  have fin: "memory_ok l (snd (finish_response ?en k msg x m))" for x
    using assms memory_ok_commit [OF assms]
    by (auto simp: finish_response_def standard_engine_def commit_response_def Let_def split: sum.split exn.split)
  have "\<exists>r. build_response_context COACHING_DIALOGUE msg lang ident no_constraints standard_providers [] k now s = (r, s)"
  proof (cases "get_identity ident")
    case None
    then show ?thesis by (simp add: build_response_context_def build_identity_profile_def op_bind_def op_catch_def op_raise_def op_return_def)
  next
    case (Some e)
    then show ?thesis using standard.assembles by blast
  qed
  then obtain r where r: "build_response_context COACHING_DIALOGUE msg lang ident no_constraints standard_providers [] k now s = (r, s)"
    by blast
  show ?thesis
    using assms fin r
    by (auto simp: generate_response_def standard_engine_def split: sum.split context_outcome.split prod.split)
      (metis snd_conv)
qed

lemma converse_keeps:
  assumes "memory_ok bot_limits m"
  shows "\<exists>r m1. converse (bot_application model client f) user p msg (s, m) = (r, (s, m1)) \<and> memory_ok bot_limits m1"
proof (cases "up_identity_id p")
  case None
  then show ?thesis using assms by (simp add: converse_def bot_application_def op_return_def)
next
  case (Some ident)
  obtain r m1 where "generate_response (standard_engine model bot_limits default_max_output_characters)
      (ua_id user) (im_text msg) (or_english (up_language p)) ident (im_received_at msg) (s, m) = (r, (s, m1))"
    and "memory_ok bot_limits m1" using generate_keeps [OF assms] by blast
  then show ?thesis using Some
    by (cases r) (simp_all add: converse_def bot_application_def op_bind_def op_catch_def op_return_def op_raise_def)
qed

end
