(* ===== verification/Application_Answers.thy ===== *)
theory Application_Answers
  imports Application_Facts
begin

text \<open>
  Total correctness of the handlers. \<open>answers f Q s\<close> says that \<open>f\<close>, run in \<open>s\<close>, returns (it does not
  raise) and that the value and the state it leaves satisfy \<open>Q\<close>; its rules follow the way operations
  are composed. From a state of the invariant every handler returns.
\<close>

named_theorems answers_simps

definition answers :: "('s, 'a) op \<Rightarrow> ('a \<Rightarrow> 's \<Rightarrow> bool) \<Rightarrow> 's \<Rightarrow> bool" where
  "answers f Q s = (case f s of (Inr a, s') \<Rightarrow> Q a s' | (Inl e, s') \<Rightarrow> False)"

section \<open>Rules\<close>

lemma answers_return [answers_simps]: "answers (op_return a) Q s = Q a s"
  by (simp add: answers_def op_return_def)

lemma answers_get [answers_simps]: "answers (op_get h) Q s = Q (h s) s"
  by (simp add: answers_def op_get_def)

lemma answers_require [answers_simps]: "answers (op_require c e) Q s = (c \<and> Q () s)"
  by (simp add: answers_def op_require_def op_return_def op_raise_def)

lemma answers_bind [answers_simps]: "answers (op_bind f g) Q s = answers f (\<lambda>a. answers (g a) Q) s"
  by (simp add: answers_def op_bind_def split: sum.split prod.split)

lemma answers_run: "f s = (Inr a, s') \<Longrightarrow> answers f Q s = Q a s'"
  by (simp add: answers_def)

lemma answers_catch_Inr: "f s = (Inr a, s') \<Longrightarrow> answers (op_catch f h) Q s = Q a s'"
  by (simp add: answers_def op_catch_def)

lemma answers_catch_Inl: "f s = (Inl e, s') \<Longrightarrow> answers (op_catch f h) Q s = answers (h e) Q s'"
  by (simp add: answers_def op_catch_def)

lemma answers_mono: "answers f Q s \<Longrightarrow> (\<And>a s'. Q a s' \<Longrightarrow> R a s') \<Longrightarrow> answers f R s"
  by (auto simp: answers_def split: sum.splits)

lemma answers_keeps: "answers f (\<lambda>a s'. True) s \<Longrightarrow> op_keeps I f \<Longrightarrow> I s \<Longrightarrow> answers f (\<lambda>a s'. I s') s"
  using op_keepsD [of I f s] by (auto simp: answers_def split: sum.splits)

text \<open>A settled step: it returns from every state of the invariant, so what follows may assume it.\<close>

lemma answers_step:
  assumes "answers f (\<lambda>a s'. True) s" and "op_keeps I f" and "I s" and "\<And>a s'. I s' \<Longrightarrow> Q a s'"
  shows "answers f Q s"
  by (rule answers_mono [OF answers_keeps [OF assms(1-3)]]) (rule assms(4))

lemma answersD: "answers f Q s \<Longrightarrow> \<exists>a s'. f s = (Inr a, s') \<and> Q a s'"
  by (cases "f s"; cases "fst (f s)") (auto simp: answers_def)

section \<open>Settling the mode\<close>

lemma answers_ensure:
  assumes "penalty_ok s"
  shows "answers (ensure_current_state now) (\<lambda>a s'. True) s"
proof -
  have dist: "distinct (map fp_id (freeze_periods s))" using penalty_okD(2) [OF assms] by (simp add: freezes_ok_def)
  have close: "\<exists>s1. close_expired_freezes i now s = (Inr (), s1)" for i
    using close_expired_freezes_eq [OF dist] by blast
  show ?thesis
  proof (cases "get_active_or_frozen_penalty_window s")
    case None
    then show ?thesis by (simp add: ensure_current_state_def answers_simps)
  next
    case (Some w)
    obtain s1 where "close_expired_freezes (pw_id w) now s = (Inr (), s1)" using close by blast
    then show ?thesis using Some
      by (simp add: ensure_current_state_def answers_simps answers_run [of _ s] answers_run [OF complete_window_eq]
          split: option.split)
  qed
qed

lemma advance_returns:
  assumes "mode_ok s"
  shows "answers (advance_transition_state read_window now) (\<lambda>a s'. True) s"
  by (cases "fetch_active_request s") (simp_all add: answers_def advance_None advance_eq [OF assms] Let_def)

lemma answers_settle:
  assumes ok: "whole_ok s" and rest: "\<And>s'. whole_ok s' \<Longrightarrow> Q () s'"
  shows "answers (settle_mode_state ctx) Q s"
  unfolding settle_mode_state_def answers_simps
proof (rule answers_step [OF _ whole_ensure ok])
  show "answers (ensure_current_state (rc_now ctx)) (\<lambda>a s'. True) s"
    by (rule answers_ensure [OF run_okD(6) [OF whole_okD(3) [OF ok]]])
  fix a and s1 :: "'a chaster_db_scheme" assume ok1: "whole_ok s1"
  show "answers (advance_transition_state get_active_or_frozen_penalty_window (rc_now ctx)) (\<lambda>_. Q ()) s1"
    by (rule answers_step [OF advance_returns [OF run_okD(9) [OF whole_okD(3) [OF ok1]]] whole_mode(1) ok1])
      (rule rest)
qed

lemma consent_nonblank: "consent_id_for ctx = Some c \<Longrightarrow> nonblank c"
  by (auto simp: consent_id_for_def nonblank_def py_space_def split: option.splits)

lemma answers_consent:
  assumes "Q No_Reference_Reply s" and "\<And>c. nonblank c \<Longrightarrow> answers (f c) Q s"
  shows "answers (with_consent ctx f) Q s"
  using assms consent_nonblank by (auto simp: with_consent_def answers_simps split: option.split)

section \<open>Mode commands\<close>

lemma fetched_by_id:
  assumes ok: "mode_ok s" and r: "fetch_active_request s = Some r"
  shows "request_by_id (mt_id r) s = Some r" and "open_request r"
  using fetch_activeD [OF r] row_by_unique [OF mode_okD(1) [OF ok]] by (auto simp: request_by_id_def)

lemma mode_request_answers:
  assumes ok: "whole_ok s"
  shows "answers (handle_mode_request_advanced ctx) (\<lambda>r s'. r \<noteq> Went_Wrong_Reply) s"
    and "answers (handle_mode_request_standard ctx) (\<lambda>r s'. r \<noteq> Went_Wrong_Reply) s"
  unfolding handle_mode_request_advanced_def handle_mode_request_standard_def answers_simps
  by (rule answers_settle [OF ok], rule answers_consent, simp;
      auto simp: answers_def op_catch_def op_bind_def op_return_def op_get_def request_eq requested_reply_def
        get_current_mode_def consent_given_def Let_def)+

lemma mode_cancel_answers:
  assumes ok: "whole_ok s"
  shows "answers (handle_mode_cancel ctx) (\<lambda>r s'. r \<noteq> Went_Wrong_Reply) s"
  unfolding handle_mode_cancel_def answers_simps
proof (rule answers_settle [OF ok])
  fix s1 :: "'a chaster_db_scheme" assume "whole_ok s1"
  then have m: "mode_ok s1" using run_okD(9) [OF whole_okD(3)] by blast
  show "answers (case fetch_active_request s1 of None \<Rightarrow> op_return No_Request_To_Cancel_Reply
      | Some r \<Rightarrow> op_bind (cancel_request (mt_id r) (rc_now ctx)) (\<lambda>_.
          op_return (Mode_Cancelled_Reply (mt_source_mode r) (mt_target_mode r))))
      (\<lambda>r s'. r \<noteq> Went_Wrong_Reply) s1"
    using fetched_by_id [OF m]
    by (auto simp: answers_simps answers_def [of "cancel_request i now" for i now] cancel_eq [OF m] split: option.split)
qed

lemma mode_confirm_answers:
  assumes ok: "whole_ok s"
  shows "answers (handle_mode_confirm ctx) (\<lambda>r s'. r \<noteq> Went_Wrong_Reply) s"
  unfolding handle_mode_confirm_def answers_simps
proof (rule answers_settle [OF ok], rule answers_consent, simp)
  fix s1 :: "'a chaster_db_scheme" and c :: string
  assume "whole_ok s1" and c: "nonblank c"
  then have m: "mode_ok s1" using run_okD(9) [OF whole_okD(3)] by blast
  have waits: "not_confirmable_reply r now \<noteq> Went_Wrong_Reply" for r now
    by (simp add: not_confirmable_reply_def split: mode_transition_status.split option.split)
  show "answers (op_bind (op_get fetch_active_request) (\<lambda>request.
     case request of None \<Rightarrow> op_return No_Request_Reply
     | Some r \<Rightarrow>
         if mt_status r \<noteq> AWAITING_CONFIRMATION then op_return (not_confirmable_reply r (rc_now ctx))
         else op_catch
           (op_bind (confirm_transition (mt_id r) get_active_or_frozen_penalty_window c (rc_now ctx)) (\<lambda>confirmed.
            op_return (Mode_Confirmed_Reply (mt_target_mode confirmed))))
           (\<lambda>e. if e = ModeTransitionInterruptedByPenaltyWindowError then op_return Interrupted_At_Confirmation_Reply
                else if e = ModeTransitionSourceModeMismatchError then op_return Request_Invalidated_Reply
                else if e = ModeTransitionNotConfirmableError then op_return Not_Ready_Reply
                else op_raise e))) (\<lambda>r s'. r \<noteq> Went_Wrong_Reply) s1"
    using fetched_by_id [OF m] c waits
    by (auto simp: answers_def op_catch_def op_bind_def op_return_def op_get_def confirm_eq [OF m] consent_given_def
        split: option.split)
qed

section \<open>Commands of the user-facing modules\<close>

lemma known_nonblank:
  assumes "accounts_ok s" and "user_exists u s"
  shows "nonblank u"
  using assms by (auto simp: accounts_ok_def user_exists_iff drawn_def)

definition named_templates :: "'m catalog_db_scheme \<Rightarrow> bool" where
  \<comment> \<open>\<open>create_template\<close> accepts a blank \<open>template_id\<close>, \<open>assign_task\<close> does not\<close>
  "named_templates s \<longleftrightarrow> list_all (\<lambda>v. nonblank (tv_template_id v)) (task_template_versions s)"

lemma answers_template: "catalog_ok s \<Longrightarrow> answers (get_template t n) Q s = Q (version_row t n s) s"
  by (simp add: answers_def get_template_eq)

lemma answers_title:
  assumes "catalog_ok s"
  shows "answers (title_of a) Q s = Q (present_title (case version_row (ta_template_id a) (ta_template_version a) s of
    None \<Rightarrow> None | Some v \<Rightarrow> tv_title v)) s"
  by (simp add: title_of_def answers_simps answers_template [OF assms])

lemma answers_active: "nonblank u \<Longrightarrow> answers (get_active_assignment u) Q s = Q (active_row u s) s"
  by (simp add: get_active_assignment_def answers_simps)

lemma answers_knowledge: "nonblank u \<Longrightarrow> answers (get_current_knowledge_state u) Q s =
    Q (case latest_report u s of None \<Rightarrow> KN_UNKNOWN | Some r \<Rightarrow> knowledge_of (lr_status r)) s"
  by (simp add: get_current_knowledge_state_def get_current_report_def answers_simps)

lemma lock_answers:
  assumes ok: "whole_ok s" and u: "user_exists (ua_id (rc_user ctx)) s"
  shows "answers (handle_lock_status ctx) (\<lambda>r s'. r \<noteq> Went_Wrong_Reply) s"
    and "answers (report_lock_status ctx status) (\<lambda>r s'. r \<noteq> Went_Wrong_Reply) s"
proof -
  note n = known_nonblank [OF whole_okD(5) [OF ok] u]
  show "answers (handle_lock_status ctx) (\<lambda>r s'. r \<noteq> Went_Wrong_Reply) s"
    by (simp add: handle_lock_status_def answers_simps answers_knowledge [OF n])
  show "answers (report_lock_status ctx status) (\<lambda>r s'. r \<noteq> Went_Wrong_Reply) s"
    unfolding report_lock_status_def
    by (rule answers_consent, simp) (simp add: answers_simps answers_def [of "report_status i st c now" for i st c now]
        report_status_eq n u)
qed

lemma task_active_answers:
  assumes ok: "whole_ok s" and u: "user_exists (ua_id (rc_user ctx)) s"
  shows "answers (handle_task_active ctx) (\<lambda>r s'. r \<noteq> Went_Wrong_Reply) s"
  by (simp add: handle_task_active_def answers_simps answers_active known_nonblank [OF whole_okD(5) [OF ok] u]
      answers_title [OF whole_okD(7) [OF ok]] split: option.split)

definition eligible_now :: "string \<Rightarrow> 'm runtime_db_scheme \<Rightarrow> task_template_version list" where
  \<comment> \<open>what \<open>_handle_task_request\<close> selects from\<close>
  "eligible_now u s = filter (\<lambda>v. is_current_active s v
      \<and> ROLE_PRIMARY \<in> set (td_eligible_instance_roles (tv_details v))
      \<and> mode_value (current_mode (operating_mode_row s)) \<in> set (td_eligible_operating_modes (tv_details v))
      \<and> eligible (evaluate_task_eligibility v
            (case latest_report u s of None \<Rightarrow> KN_UNKNOWN | Some r \<Rightarrow> knowledge_of (lr_status r))))
    (task_template_versions s)"

lemma answers_eligible:
  assumes "catalog_ok s"
  shows "answers (get_eligible_templates ROLE_PRIMARY (mode_value (current_mode (operating_mode_row s)))
      (case latest_report u s of None \<Rightarrow> KN_UNKNOWN | Some r \<Rightarrow> knowledge_of (lr_status r))) Q s
    = Q (eligible_now u s) s"
proof -
  have "filter P (filter R xs) = filter (\<lambda>v. R v \<and> P v) xs" for P R and xs :: "task_template_version list"
    by (simp add: conj_commute)
  then show ?thesis
    by (simp add: get_eligible_templates_def answers_simps answers_def get_active_templates_eq [OF assms]
        op_bind_def op_return_def eligible_now_def conj_ac cong: filter_cong)
qed

lemma chosen_mem: "select_eligible_template (eligible_now u s) = Some v \<Longrightarrow> v \<in> set (eligible_now u s)"
  by (auto simp: select_eligible_template_def dest: first_row_SomeD)

lemma task_request_answers:
  assumes ok: "whole_ok s" and u: "user_exists (ua_id (rc_user ctx)) s" and names: "named_templates s"
  shows "answers (handle_task_request ctx) (\<lambda>r s'. r \<noteq> Went_Wrong_Reply) s"
  unfolding handle_task_request_def
proof (rule answers_consent, simp)
  fix c :: string assume c: "nonblank c"
  note n = known_nonblank [OF whole_okD(5) [OF ok] u]
  note cat = whole_okD(7) [OF ok]
  let ?k = "case latest_report (ua_id (rc_user ctx)) s of None \<Rightarrow> KN_UNKNOWN | Some r \<Rightarrow> knowledge_of (lr_status r)"
  have assign: "answers (op_catch (op_bind (assign_task (ua_id (rc_user ctx)) t ?k c (rc_now ctx)) (\<lambda>_. op_return (Task_Assigned_Reply x)))
      assign_error_reply) (\<lambda>r s'. r \<noteq> Went_Wrong_Reply) s" if "nonblank t" for t x
    using that n c
    by (auto simp: answers_def op_catch_def op_bind_def op_return_def assign_task_eq [OF cat] Let_def split: option.split)
  show "answers (op_bind (get_active_assignment (ua_id (rc_user ctx))) (\<lambda>existing.
     case existing of
       Some a \<Rightarrow> op_bind (title_of a) (\<lambda>title. op_return (Task_Already_Active_Reply title))
     | None \<Rightarrow>
         op_bind (get_current_knowledge_state (ua_id (rc_user ctx))) (\<lambda>knowledge.
         op_bind (op_get get_current_mode) (\<lambda>state.
         op_bind (get_eligible_templates ROLE_PRIMARY (mode_value (current_mode state)) knowledge) (\<lambda>candidates.
         case select_eligible_template candidates of
           None \<Rightarrow> op_return No_Eligible_Task_Reply
         | Some chosen \<Rightarrow> op_catch
             (op_bind (assign_task (ua_id (rc_user ctx)) (tv_template_id chosen) knowledge c (rc_now ctx)) (\<lambda>_.
              op_return (Task_Assigned_Reply (present_title (tv_title chosen)))))
             assign_error_reply))))) (\<lambda>r s'. r \<noteq> Went_Wrong_Reply) s"
  proof (cases "active_row (ua_id (rc_user ctx)) s")
    case (Some a)
    then show ?thesis by (simp add: answers_simps answers_active [OF n] answers_title [OF cat])
  next
    case None
    show ?thesis
    proof (cases "select_eligible_template (eligible_now (ua_id (rc_user ctx)) s)")
      case none: None
      then show ?thesis using None
        by (simp add: answers_simps answers_active [OF n] answers_knowledge [OF n] get_current_mode_def answers_eligible [OF cat])
    next
      case (Some v)
      have "nonblank (tv_template_id v)" using chosen_mem [OF Some] names
        by (simp add: eligible_now_def named_templates_def list_all_iff)
      from assign [OF this] show ?thesis using None Some
        by (simp add: answers_simps answers_active [OF n] answers_knowledge [OF n] get_current_mode_def answers_eligible [OF cat])
    qed
  qed
qed

lemma resolve_errors:
  assumes "nonblank i" and "nonblank c" and "resolve_assignment i target c now s = (Inl e, s1)"
  shows "e = TaskAssignmentNotFoundError \<or> e = TaskAssignmentTransitionError"
  using assms by (auto simp: resolve_assignment_eq split: option.splits if_splits)

lemma resolve_task_answers:
  assumes ok: "whole_ok s" and u: "user_exists (ua_id (rc_user ctx)) s" and target: "target \<noteq> TA_ACTIVE"
  shows "answers (resolve_task ctx target) (\<lambda>r s'. r \<noteq> Went_Wrong_Reply) s"
  unfolding resolve_task_def
proof (rule answers_consent, simp)
  fix c :: string assume c: "nonblank c"
  note n = known_nonblank [OF whole_okD(5) [OF ok] u]
  have resolve: "answers (op_catch
         (op_bind (resolve_assignment (ta_id a) target c (rc_now ctx)) (\<lambda>_.
          op_bind (title_of a) (\<lambda>title. op_return (Task_Resolved_Reply target title))))
         (\<lambda>e. if e = TaskAssignmentTransitionError then op_return Task_Not_Active_Reply
              else if e = TaskAssignmentNotFoundError then op_return Task_Resolve_Failed_Reply
              else op_raise e)) (\<lambda>r s'. r \<noteq> Went_Wrong_Reply) s"
    if a: "active_row (ua_id (rc_user ctx)) s = Some a" for a
  proof -
    have i: "nonblank (ta_id a)" using whole_okD(8) [OF ok] active_row_SomeD [OF a]
      by (auto simp: runtime_ok_def assignment_wf_def drawn_def)
    have cat: "catalog_ok (snd (resolve_assignment (ta_id a) target c (rc_now ctx) s))"
      using op_keepsD [OF whole_resolve [OF target] ok] by (rule whole_okD)
    show ?thesis
    proof (cases "resolve_assignment (ta_id a) target c (rc_now ctx) s")
      case (Pair r s1)
      show ?thesis
      proof (cases r)
        case (Inl e)
        then have "e = TaskAssignmentNotFoundError \<or> e = TaskAssignmentTransitionError"
          using resolve_errors i c Pair by blast
        then show ?thesis using Pair Inl by (auto simp: answers_def op_catch_def op_bind_def op_return_def)
      next
        case (Inr b)
        have "answers (title_of a) (\<lambda>x s'. True) s1"
          using cat Pair by (simp add: answers_title)
        from answersD [OF this] obtain x s2 where "title_of a s1 = (Inr x, s2)" by auto
        then show ?thesis using Pair Inr by (simp add: answers_def op_catch_def op_bind_def op_return_def)
      qed
    qed
  qed
  show "answers (op_bind (get_active_assignment (ua_id (rc_user ctx))) (\<lambda>found.
     case found of None \<Rightarrow> op_return No_Task_To_Resolve_Reply
     | Some a \<Rightarrow> op_catch
         (op_bind (resolve_assignment (ta_id a) target c (rc_now ctx)) (\<lambda>_.
          op_bind (title_of a) (\<lambda>title. op_return (Task_Resolved_Reply target title))))
         (\<lambda>e. if e = TaskAssignmentTransitionError then op_return Task_Not_Active_Reply
              else if e = TaskAssignmentNotFoundError then op_return Task_Resolve_Failed_Reply
              else op_raise e))) (\<lambda>r s'. r \<noteq> Went_Wrong_Reply) s"
    by (cases "active_row (ua_id (rc_user ctx)) s") (simp_all add: answers_simps answers_active [OF n] resolve)
qed

lemma chaster_connect_answers:
  assumes ok: "whole_ok s" and u: "user_exists (ua_id (rc_user ctx)) s"
  shows "answers (handle_chaster_connect app ctx) (\<lambda>r s'. r \<noteq> Went_Wrong_Reply) s"
  using known_nonblank [OF whole_okD(5) [OF ok] u] u
  by (auto simp: handle_chaster_connect_def answers_def op_bind_def op_return_def get_connection_eq
      create_or_replace_state_eq build_authorization_url_def op_lift_def split: option.split)

lemma preferences_answers:
  assumes u: "user_exists (ua_id (rc_user ctx)) s"
  shows "answers (handle_preferences ctx) (\<lambda>r s'. r \<noteq> Went_Wrong_Reply) s"
  using u by (auto simp: handle_preferences_def answers_def op_bind_def op_return_def get_or_create_preferences_eq
      split: option.split)

lemma run_command_answers:
  assumes ok: "whole_ok s" and u: "user_exists (ua_id (rc_user ctx)) s" and names: "named_templates s"
  shows "answers (run_command app c ctx) (\<lambda>r s'. r \<noteq> Went_Wrong_Reply) s"
proof -
  have simple: "answers (handle_status ctx) (\<lambda>r s'. r \<noteq> Went_Wrong_Reply) s"
    by (simp add: handle_status_def answers_simps split: option.split)
  have mode: "answers (handle_mode_status ctx) (\<lambda>r s'. r \<noteq> Went_Wrong_Reply) s"
    unfolding handle_mode_status_def answers_simps by (rule answers_settle [OF ok]) (simp add: answers_simps)
  show ?thesis
    using simple mode mode_request_answers [OF ok] mode_cancel_answers [OF ok] mode_confirm_answers [OF ok]
      lock_answers [OF ok u] task_active_answers [OF ok u] task_request_answers [OF ok u names]
      resolve_task_answers [OF ok u] chaster_connect_answers [OF ok u] preferences_answers [OF u]
    by (cases c) (simp_all add: answers_simps)
qed

end
