(* ===== verification/Application_Properties.thy ===== *)
theory Application_Properties
  imports Application_Answers
begin

text \<open>
  What \<open>handle_message\<close> promises about one incoming message, from any state of the invariant: the
  invariant of the whole application afterwards, who reaches the command table, when the generic
  error reply is given, and what each of the commands that change something may change.
\<close>

section \<open>The sender\<close>

definition sender_row :: "incoming_message \<Rightarrow> 'm preference_db_scheme \<Rightarrow> preferences option" where
  "sender_row msg s = (case identity_row (im_channel msg) (im_external_user_id msg) s of
     None \<Rightarrow> None | Some c \<Rightarrow> preferences_of (ci_user_account_id c) s)"

definition only_onboarding :: "'m chaster_db_scheme \<Rightarrow> 'm chaster_db_scheme \<Rightarrow> bool" where
  \<comment> \<open>no table differs but the accounts and the onboarding rows\<close>
  "only_onboarding s s' \<longleftrightarrow> same_core s s' \<and> lock_reports s' = lock_reports s
     \<and> catalog_part s' = catalog_part s \<and> task_assignments s' = task_assignments s \<and> chaster_part s' = chaster_part s"

lemma only_onboarding_trans: "only_onboarding s t \<Longrightarrow> only_onboarding t u \<Longrightarrow> only_onboarding s u"
  by (auto simp: only_onboarding_def same_core_def mode_db.defs)

text \<open>What is left to do once the sender and the row are known.\<close>

definition answer_known ::
  "'m application \<Rightarrow> incoming_message \<Rightarrow> user_account \<Rightarrow> preferences \<Rightarrow> 'm process
     \<Rightarrow> (exn + app_reply) \<times> 'm process" where
  "answer_known app msg u p sm =
     (if \<not> onboarding_is_complete p
      then (case process_message p (im_text msg) (im_received_at msg) (fst sm) of
          (Inl e, s2) \<Rightarrow> (Inl e, (s2, snd sm)) | (Inr (q, reply), s2) \<Rightarrow> (Inr (Onboarding_Reply reply), (s2, snd sm)))
      else (case route command_router (im_text msg) of
          Some command \<Rightarrow> on_database (run_command app command
           \<lparr>rc_user = u, rc_now = im_received_at msg, rc_message_id = im_external_message_id msg\<rparr>) sm
        | None \<Rightarrow> converse app u p msg sm))"

lemma sender_resolved:
  assumes ok: "whole_ok s"
  obtains u s1 where "get_or_create_user (im_channel msg) (im_external_user_id msg) now s = (Inr u, s1)"
    and "whole_ok s1" and "user_exists (ua_id u) s1" and "preferences_of (ua_id u) s1 = sender_row msg s"
    and "only_onboarding s s1"
proof -
  let ?run = "get_or_create_user (im_channel msg) (im_external_user_id msg) now"
  have keep: "whole_ok (snd (?run s))" by (rule op_keepsD [OF whole_get_or_create_user ok])
  have core: "same_core s (snd (?run s))" by (rule core_get_or_create_user [OF whole_okD(5) [OF ok]])
  show thesis
  proof (cases "identity_row (im_channel msg) (im_external_user_id msg) s")
    case None
    let ?s = "with_new_account (im_channel msg) (im_external_user_id msg) now s"
    let ?u = "\<lparr>ua_id = uuid_text (next_id s), ua_created_at = now, ua_last_seen_at = now\<rparr>"
    have run: "?run s = (Inr ?u, ?s)" using None by (rule get_or_create_user_unknown)
    have rows: "user_preferences ?s = user_preferences s" "lock_reports ?s = lock_reports s"
      "catalog_part ?s = catalog_part s" "task_assignments ?s = task_assignments s" "chaster_part ?s = chaster_part s"
      by (simp_all add: with_new_account_def insert_account_def insert_identity_def catalog_part_def chaster_part_def)
    have "preferences_of (uuid_text (next_id s)) s = None"
    proof (rule ccontr)
      assume "preferences_of (uuid_text (next_id s)) s \<noteq> None"
      then obtain p where p: "preferences_of (uuid_text (next_id s)) s = Some p" by blast
      have "user_exists (uuid_text (next_id s)) s"
        using whole_okD(6) [OF ok] preferences_of_SomeD [OF p] by (auto simp: preferences_ok_def)
      then have "drawn (uuid_text (next_id s)) s" using whole_okD(5) [OF ok]
        by (auto simp: accounts_ok_def user_exists_iff)
      then show False using fresh_not_drawn by blast
    qed
    then have "preferences_of (ua_id ?u) ?s = sender_row msg s"
      using None rows(1) by (simp add: sender_row_def preferences_of_def)
    moreover have "user_exists (ua_id ?u) ?s" by (simp add: user_exists_with_new_account)
    moreover have "only_onboarding s ?s" using run core rows by (simp add: only_onboarding_def)
    ultimately show thesis using that [of ?u ?s] run keep by simp
  next
    case (Some c)
    obtain a where a: "account_by_id (ci_user_account_id c) s = Some a" "ua_id a = ci_user_account_id c"
      using known_identity_has_account [OF whole_okD(5) [OF ok] Some] .
    let ?u = "a\<lparr>ua_last_seen_at := now\<rparr>" and ?s = "touch_account (ua_id a) now s"
    have run: "?run s = (Inr ?u, ?s)" using get_or_create_user_known [OF Some a(1)] .
    have rows: "user_preferences ?s = user_preferences s" "lock_reports ?s = lock_reports s"
      "catalog_part ?s = catalog_part s" "task_assignments ?s = task_assignments s" "chaster_part ?s = chaster_part s"
      by (simp_all add: touch_account_def catalog_part_def chaster_part_def)
    have "preferences_of (ua_id ?u) ?s = sender_row msg s"
      using Some a(2) rows(1) by (simp add: sender_row_def preferences_of_def)
    moreover have "user_exists (ua_id ?u) s" using a by (simp add: user_exists_def)
    moreover have "only_onboarding s ?s" using run core rows by (simp add: only_onboarding_def)
    ultimately show thesis using that [of ?u ?s] run keep by simp
  qed
qed

text \<open>After the sender is resolved, the message takes one of three ways.\<close>

lemma answer_message_new:
  assumes ok: "whole_ok s" and none: "sender_row msg s = None"
  shows "\<exists>s'. answer_message app msg (s, m) = (Inr (Onboarding_Reply Language_Prompt), (s', m)) \<and> whole_ok s'
    \<and> only_onboarding s s'"
proof (rule sender_resolved [OF ok])
  fix u s1
  assume u: "get_or_create_user (im_channel msg) (im_external_user_id msg) (im_received_at msg) s = (Inr u, s1)"
    and s1: "whole_ok s1" "user_exists (ua_id u) s1" "preferences_of (ua_id u) s1 = sender_row msg s"
    and only: "only_onboarding s s1"
  let ?p = "new_preferences (ua_id u) (im_received_at msg)"
  let ?s = "s1\<lparr>user_preferences := user_preferences s1 @ [?p]\<rparr>"
  have run: "get_or_create_preferences (ua_id u) (im_received_at msg) s1 = (Inr (?p, True), ?s)"
    using s1 none by (simp add: get_or_create_preferences_eq)
  have "whole_ok ?s" using op_keepsD [OF whole_get_or_create_preferences s1(1), of "ua_id u" "im_received_at msg"] run by simp
  moreover have "only_onboarding s1 ?s"
    by (simp add: only_onboarding_def same_core_def mode_db.defs catalog_part_def chaster_part_def)
  moreover have "answer_message app msg (s, m) = (Inr (Onboarding_Reply Language_Prompt), (?s, m))"
    using u run by (simp add: answer_message_def op_bind_def on_database_def op_return_def prompt_for_def new_preferences_def)
  ultimately show ?thesis using only_onboarding_trans [OF only] by blast
qed

lemma answer_message_known:
  assumes ok: "whole_ok s" and row: "sender_row msg s = Some p"
  shows "\<exists>u s1. whole_ok s1 \<and> user_exists (ua_id u) s1 \<and> preferences_of (up_user_id p) s1 = Some p
    \<and> up_user_id p = ua_id u \<and> only_onboarding s s1
    \<and> (\<forall>app m. answer_message app msg (s, m) = answer_known app msg u p (s1, m))"
proof (rule sender_resolved [OF ok])
  fix u s1
  assume u: "get_or_create_user (im_channel msg) (im_external_user_id msg) (im_received_at msg) s = (Inr u, s1)"
    and s1: "whole_ok s1" "user_exists (ua_id u) s1" "preferences_of (ua_id u) s1 = sender_row msg s"
    and only: "only_onboarding s s1"
  have p: "preferences_of (ua_id u) s1 = Some p" using s1(3) row by simp
  have id: "up_user_id p = ua_id u" using preferences_of_SomeD [OF p] by simp
  have run: "get_or_create_preferences (ua_id u) (im_received_at msg) s1 = (Inr (p, False), s1)"
    using p by (simp add: get_or_create_preferences_eq)
  have "answer_message app msg (s, m) = answer_known app msg u p (s1, m)" for app m
    using u run id by (simp add: answer_message_def answer_known_def op_bind_def on_database_def op_return_def
        split: sum.split prod.split option.split)
  then show ?thesis using s1(1,2) p id only by auto
qed

section \<open>The invariant\<close>

lemma message_keeps:
  assumes ok: "process_ok (s, m)"
  shows "process_ok (snd (answer_message (bot_application model client f) msg (s, m)))"
proof -
  have w: "whole_ok s" and mem: "memory_ok bot_limits m" using ok by (simp_all add: process_ok_def)
  let ?app = "bot_application model client f"
  show ?thesis
  proof (cases "sender_row msg s")
    case None
    then show ?thesis using answer_message_new [OF w None, of ?app m] mem by (auto simp: process_ok_def)
  next
    case (Some p)
    obtain u s1 where s1: "whole_ok s1" and "user_exists (ua_id u) s1"
      and pr: "preferences_of (up_user_id p) s1 = Some p" and "up_user_id p = ua_id u" and "only_onboarding s s1"
      and run: "\<forall>app m. answer_message app msg (s, m) = answer_known app msg u p (s1, m)"
      using answer_message_known [OF w Some] by blast
    have "whole_ok (snd (process_message p (im_text msg) (im_received_at msg) s1))"
    proof -
      have "snapshot_of p p" using preferences_ok_row [OF whole_okD(6) [OF s1] pr] by (rule snapshot_refl)
      then show ?thesis
        using app_process_message [OF whole_okD(1) [OF s1] pr] chaster_process_message [OF s1 pr]
        by (simp add: whole_ok_def)
    qed
    moreover have "whole_ok (snd (run_command ?app c ctx s1))" for c ctx
      by (rule op_keepsD [OF whole_run_command s1])
    moreover obtain r m1 where "converse ?app u p msg (s1, m) = (r, (s1, m1))" and "memory_ok bot_limits m1"
      using converse_keeps [OF mem] by blast
    ultimately show ?thesis using s1 mem run
      by (cases "process_message p (im_text msg) (im_received_at msg) s1"; cases "route command_router (im_text msg)")
        (simp_all add: answer_known_def process_ok_def on_database_def split_beta split: sum.split)
  qed
qed

lemma handle_message_state: "snd (handle_message app msg sm) = snd (answer_message app msg sm)"
  by (simp add: handle_message_def split: prod.split sum.split)

text \<open>C2: whatever one incoming message says, whoever sends it and whatever the language model answers, it
  leaves the whole application consistent: outbox, trust, penalty, recovery, goal and mode tables,
  accounts, onboarding rows, lock reports, catalog, assignments, Chaster tables and working memory.\<close>
theorem message_keeps_everything_consistent:
  assumes "process_ok sm"
  shows "process_ok (snd (handle_message (bot_application model client f) msg sm))"
  unfolding handle_message_state using message_keeps [of "fst sm" "snd sm"] assms by simp

definition hello :: "string \<Rightarrow> incoming_message" where
  "hello t = \<lparr>im_channel = ''discord'', im_external_user_id = ''42'', im_text = t, im_received_at = 5,
     im_external_message_id = Some ''m1''\<rparr>"

definition quiet_model :: "generation_request \<Rightarrow> exn + string" where
  "quiet_model r = Inl (LLMGenerationError ''timeout'')"

lemma sample_process_ok: "process_ok (sample_db step req, Map.empty)"
  by (simp add: process_ok_def whole_ok_def sample_app_ok sample_chaster_ok memory_ok_def bot_limits_def)

lemma message_keeps_everything_consistent_witness:
  "process_ok (snd (handle_message (bot_application quiet_model None None) (hello ''task request'')
     (sample_db OB_COMPLETE LOCK_NONE, Map.empty)))"
  by (rule message_keeps_everything_consistent [OF sample_process_ok])

section \<open>Onboarding comes first\<close>

lemma message_parts:
  assumes "preferences_ok s" and "preferences_of (up_user_id p) s = Some r"
  shows "lock_reports (snd (process_message p t now s)) = lock_reports s
    \<and> catalog_part (snd (process_message p t now s)) = catalog_part s
    \<and> task_assignments (snd (process_message p t now s)) = task_assignments s
    \<and> chaster_part (snd (process_message p t now s)) = chaster_part s"
  by (simp add: process_message_eq [OF assms] catalog_part_def chaster_part_def stepped_def
      split: sum.split option.split prod.split)

lemma message_error:
  assumes "preferences_ok s" and "preferences_of (up_user_id p) s = Some r"
    and "process_message p t now s = (Inl e, s')"
  shows "up_step p = OB_PERSONALITY \<and> answer p t = Inl e"
proof -
  have "answer p t = Inl e" using assms(3) unfolding process_message_eq [OF assms(1,2)]
    by (auto split: sum.splits option.splits if_splits prod.splits)
  then show ?thesis using answer_error by blast
qed

text \<open>C7: a message of a sender who has not finished onboarding, a new sender included, never reaches the
  command table or the language model: it is answered by onboarding (the generic reply only for an
  answer that onboarding itself cannot read), and it touches no table but the accounts and the
  onboarding rows, and not the working memory.\<close>
theorem onboarding_comes_first:
  fixes s :: "'m chaster_db_scheme"
  assumes "whole_ok s" and "\<forall>p. sender_row msg s = Some p \<longrightarrow> up_step p \<noteq> OB_COMPLETE"
  shows "\<exists>reply s'. handle_message app msg (s, m) = (reply, (s', m))
    \<and> ((\<exists>r. reply = Onboarding_Reply r) \<or> reply = Went_Wrong_Reply \<and> (\<exists>p. sender_row msg s = Some p \<and> up_step p = OB_PERSONALITY))
    \<and> (sender_row msg s = None \<longrightarrow> reply = Onboarding_Reply Language_Prompt)
    \<and> only_onboarding s s'"
proof (cases "sender_row msg s")
  case None
  then show ?thesis using answer_message_new [OF assms(1) None, of app m] by (auto simp: handle_message_def)
next
  case (Some p)
  obtain u s1 where s1: "whole_ok s1" and "user_exists (ua_id u) s1"
    and pr: "preferences_of (up_user_id p) s1 = Some p" and "up_user_id p = ua_id u" and only: "only_onboarding s s1"
    and run: "\<forall>app m. answer_message app msg (s, m) = answer_known app msg u p (s1, m)"
    using answer_message_known [OF assms(1) Some] by blast
  note p = whole_okD(6) [OF s1]
  have inc: "\<not> onboarding_is_complete p" using assms(2) Some by (simp add: onboarding_is_complete_def)
  obtain res s2 where p2: "process_message p (im_text msg) (im_received_at msg) s1 = (res, s2)" by fastforce
  have "same_core s1 s2" using core_process_message [OF p pr, of "im_text msg" "im_received_at msg"] p2 by simp
  moreover have "lock_reports s2 = lock_reports s1 \<and> catalog_part s2 = catalog_part s1
    \<and> task_assignments s2 = task_assignments s1 \<and> chaster_part s2 = chaster_part s1"
    using message_parts [OF p pr, of "im_text msg" "im_received_at msg"] p2 by simp
  ultimately have "only_onboarding s s2" using only_onboarding_trans [OF only] by (simp add: only_onboarding_def)
  moreover have "up_step p = OB_PERSONALITY" if "res = Inl e" for e
    using message_error [OF p pr] p2 that by blast
  ultimately show ?thesis
    using Some inc p2
    by (cases res) (auto simp: handle_message_def run answer_known_def split: prod.split)
qed

lemma sample_whole_ok: "whole_ok (sample_db step req)"
  by (simp add: whole_ok_def sample_app_ok sample_chaster_ok)

lemma sample_sender: "sender_row (hello t) (sample_db step req) = Some (sample_preferences step)"
  by (simp add: sender_row_def hello_def identity_row_def preferences_of_def sample_db_def sample_preferences_def)

lemma onboarding_comes_first_witness:
  "\<exists>reply s'. handle_message (bot_application quiet_model None None) (hello ''task request'')
        (sample_db OB_LANGUAGE LOCK_NONE, Map.empty) = (reply, (s', Map.empty))
    \<and> only_onboarding (sample_db OB_LANGUAGE LOCK_NONE) s'"
proof -
  have "\<forall>p. sender_row (hello ''task request'') (sample_db OB_LANGUAGE LOCK_NONE) = Some p \<longrightarrow> up_step p \<noteq> OB_COMPLETE"
    by (simp add: sample_sender sample_preferences_def)
  from onboarding_comes_first [OF sample_whole_ok this, of "bot_application quiet_model None None" Map.empty]
  show ?thesis by blast
qed

section \<open>One onboarding message\<close>

text \<open>One onboarding message, answered from any snapshot of the user's row, however old: the
  tables stay well formed (a row holds exactly the answers of the steps it has passed, and a
  complete row names a catalog identity of the chosen group), no other user's row changes, and
  the user's own row either stays as it is or moves exactly one step forward; it moves only when
  the snapshot is current and the text is a valid answer to its step.\<close>
theorem onboarding_message_effects:
  assumes "preferences_ok s" and "preferences_of (up_user_id p) s = Some r" and "snapshot_of p r"
    and "process_message p txt now s = (res, s')"
  shows "preferences_ok s' \<and> (\<forall>v. v = up_user_id p \<or> preferences_of v s' = preferences_of v s) \<and>
    (s' = s \<or> (\<exists>r'. preferences_of (up_user_id p) s' = Some r' \<and> up_step r = up_step p \<and>
        step_rank (up_step r') = Suc (step_rank (up_step r)) \<and> snapshot_of r r' \<and>
        (\<exists>f to. answer p txt = Inr (Some (f, to)))))"
  by (rule message_effects [OF assms])

lemma onboarding_message_effects_witness:
  "\<exists>res s' r'. process_message (sample_preferences OB_LANGUAGE) ''English'' 9 (sample_db OB_LANGUAGE LOCK_NONE) = (res, s')
    \<and> preferences_ok s' \<and> preferences_of sample_user s' = Some r' \<and> up_step r' = OB_AI_GENDER"
proof -
  let ?s = "sample_db OB_LANGUAGE LOCK_NONE" and ?p = "sample_preferences OB_LANGUAGE"
  have ok: "preferences_ok ?s" using whole_okD(6) [OF sample_whole_ok] .
  have u: "up_user_id ?p = sample_user" by (simp add: sample_preferences_def)
  have r: "preferences_of (up_user_id ?p) ?s = Some ?p"
    by (simp add: u preferences_of_def sample_db_def sample_preferences_def)
  have snap: "snapshot_of ?p ?p" using preferences_ok_row [OF ok r] by (rule snapshot_refl)
  have a: "answer ?p ''English'' = Inr (Some (\<lambda>r. r\<lparr>up_language := Some ''en''\<rparr>, OB_AI_GENDER))"
  proof -
    have "map_of language_choices (py_lower (py_strip ''English'')) = Some ''en''" by code_simp
    then show ?thesis by (simp add: answer_def sample_preferences_def Let_def)
  qed
  obtain res s' where run: "process_message ?p ''English'' 9 ?s = (res, s')" by fastforce
  have row: "preferences_of sample_user s' = Some (step_row (\<lambda>r. r\<lparr>up_language := Some ''en''\<rparr>) OB_AI_GENDER 9 ?p)"
    using run r u
    by (auto simp: process_message_eq [OF ok r] a preferences_of_stepped split: if_splits)
  then show ?thesis
    using onboarding_message_effects [OF ok r snap run] run by (auto simp: step_row_def)
qed

section \<open>When the generic error reply is given\<close>

lemma complete_identity:
  assumes "preferences_wf p" and "up_step p = OB_COMPLETE"
  obtains ident e where "up_identity_id p = Some ident" and "get_identity ident = Some e"
proof -
  obtain e where "e \<in> set identity_catalog" "up_identity_id p = Some (identity_id e)"
    using assms by (auto simp: preferences_wf_def)
  then show thesis using get_identity_SomeI that by blast
qed

lemma converse_answers:
  assumes "preferences_wf p" and "up_step p = OB_COMPLETE" and "nonblank (ua_id u)" and "model_contract model"
  shows "answers (converse (bot_application model client f) u p msg) (\<lambda>r sm. r \<noteq> Went_Wrong_Reply) (s, m)"
proof -
  obtain ident e where i: "up_identity_id p = Some ident" and e: "get_identity ident = Some e"
    using complete_identity [OF assms(1,2)] .
  obtain r m1 where "generate_response (standard_engine model bot_limits default_max_output_characters)
      (ua_id u) (im_text msg) (or_english (up_language p)) ident (im_received_at msg) (s, m) = (Inr r, (s, m1))"
    using some_reply [OF assms(3) e assms(4)] by blast
  then show ?thesis using i
    by (simp add: converse_def bot_application_def op_bind_def op_catch_def op_return_def answers_def)
qed

lemma choose_personality_error:
  "choose_personality p t = Inl e \<longleftrightarrow> py_isdigit t \<and> py_int_of_digits t = Inl e"
  by (auto simp: choose_personality_def Let_def split: sum.split)

lemma message_answered:
  assumes "process_ok (s, m)" and "named_templates s" and "model_contract model"
  shows "fst (handle_message (bot_application model client f) msg (s, m)) = Went_Wrong_Reply \<longleftrightarrow>
    (\<exists>p. sender_row msg s = Some p \<and> up_step p = OB_PERSONALITY
       \<and> py_isdigit (normalized (im_text msg)) \<and> py_int_of_digits (normalized (im_text msg)) = Inl ValueError)"
proof (cases "sender_row msg s")
  case None
  have w: "whole_ok s" using assms(1) by (simp add: process_ok_def)
  show ?thesis
    using answer_message_new [OF w None, of "bot_application model client f" m] None by (auto simp: handle_message_def)
next
  case (Some p)
  have w: "whole_ok s" using assms(1) by (simp add: process_ok_def)
  obtain u s1 where s1: "whole_ok s1" and u: "user_exists (ua_id u) s1"
    and pr: "preferences_of (up_user_id p) s1 = Some p" and "up_user_id p = ua_id u" and only: "only_onboarding s s1"
    and run: "\<forall>app m. answer_message app msg (s, m) = answer_known app msg u p (s1, m)"
    using answer_message_known [OF w Some] by blast
  note ok = whole_okD(6) [OF s1]
  have names: "named_templates s1"
    using only assms(2) by (simp add: only_onboarding_def catalog_part_def named_templates_def)
  show ?thesis
  proof (cases "up_step p = OB_COMPLETE")
    case True
    have cmd: "answers (run_command (bot_application model client f) c ctx) (\<lambda>r s'. r \<noteq> Went_Wrong_Reply) s1"
      if "rc_user ctx = u" for c ctx
      by (rule run_command_answers [OF s1 _ names]) (simp add: that u)
    have talk: "answers (converse (bot_application model client f) u p msg) (\<lambda>r sm. r \<noteq> Went_Wrong_Reply) (s1, m)"
      by (rule converse_answers [OF preferences_ok_row [OF ok pr] True known_nonblank [OF whole_okD(5) [OF s1] u] assms(3)])
    have "answers (answer_known (bot_application model client f) msg u p) (\<lambda>r sm. r \<noteq> Went_Wrong_Reply) (s1, m)"
      using True talk cmd
      by (cases "route command_router (im_text msg)")
        (simp_all add: answer_known_def onboarding_is_complete_def answers_def on_database_def split_beta split: sum.splits)
    from answersD [OF this] show ?thesis using run True Some by (auto simp: handle_message_def)
  next
    case False
    note pm = process_message_eq [OF ok pr, of "im_text msg" "im_received_at msg"]
    have "answer p (im_text msg) = Inl ValueError \<longleftrightarrow> up_step p = OB_PERSONALITY
       \<and> py_isdigit (normalized (im_text msg)) \<and> py_int_of_digits (normalized (im_text msg)) = Inl ValueError"
      using choose_personality_error [of p "normalized (im_text msg)" ValueError]
      by (auto simp: answer_def Let_def normalized_def split: onboarding_step.split sum.split)
    moreover have "fst (answer_message (bot_application model client f) msg (s, m)) = Inl ValueError
        \<or> (\<exists>r. fst (answer_message (bot_application model client f) msg (s, m)) = Inr (Onboarding_Reply r))"
      and "fst (answer_message (bot_application model client f) msg (s, m)) = Inl ValueError
        \<longleftrightarrow> answer p (im_text msg) = Inl ValueError"
      using run False answer_error [of p "im_text msg"]
      by (auto simp: answer_known_def onboarding_is_complete_def pm split: sum.split option.split prod.split)
    ultimately show ?thesis using Some by (auto simp: handle_message_def split: prod.splits sum.splits)
  qed
qed

text \<open>C4: from a state of the invariant whose templates all have a name, with a model that keeps its
  contract, every message is answered by one of the replies meant for it: the generic error is given
  exactly when a sender who is asked for the personality answers with a text that is all digits for
  Python but that \<open>int()\<close> refuses (a superscript, or more than 4300 digits).\<close>
theorem every_message_answered:
  assumes "process_ok (s, m)" and "named_templates s" and "model_contract model"
  shows "fst (handle_message (bot_application model client f) msg (s, m)) = Went_Wrong_Reply \<longleftrightarrow>
    (\<exists>p. sender_row msg s = Some p \<and> up_step p = OB_PERSONALITY
       \<and> py_isdigit (normalized (im_text msg)) \<and> py_int_of_digits (normalized (im_text msg)) = Inl ValueError)"
  by (rule message_answered [OF assms])

lemma every_message_answered_witness:
  "fst (handle_message (bot_application quiet_model None None) (hello [CHR 0xB2])
      (sample_db OB_PERSONALITY LOCK_NONE, Map.empty)) = Went_Wrong_Reply"
proof -
  have n: "named_templates (sample_db OB_PERSONALITY LOCK_NONE)"
    by (simp add: named_templates_def sample_db_def sample_template_def nonblank_def py_space_def)
  have c: "model_contract quiet_model" by (simp add: model_contract_def quiet_model_def)
  have t: "normalized (im_text (hello [CHR 0xB2])) = [CHR 0xB2]" by code_simp
  have "py_isdigit [CHR 0xB2]" "py_int_of_digits [CHR 0xB2] = Inl ValueError" by code_simp+
  then show ?thesis
    using every_message_answered [OF sample_process_ok n c, of None None "hello [CHR 0xB2]"] t
    by (simp add: sample_sender sample_preferences_def)
qed

end
