(* ===== verification/Application_Commands.thy ===== *)
theory Application_Commands
  imports Application_Properties
begin

text \<open>
  What single commands do: which texts reach which handler, the task and lock commands on every
  branch, and that only a confirmation message changes the operating mode.
\<close>

section \<open>Routing\<close>

definition command_table :: "(string \<times> command) list" where
  "command_table = [(''help'', CMD_HELP), (''status'', CMD_STATUS), (''preferences'', CMD_PREFERENCES),
     (''mode'', CMD_MODE_STATUS), (''mode status'', CMD_MODE_STATUS),
     (''mode request advanced'', CMD_MODE_REQUEST_ADVANCED), (''mode request standard'', CMD_MODE_REQUEST_STANDARD),
     (''mode cancel'', CMD_MODE_CANCEL), (''mode confirm'', CMD_MODE_CONFIRM),
     (''lock status'', CMD_LOCK_STATUS), (''lock report locked'', CMD_LOCK_REPORT_LOCKED),
     (''lock report unlocked'', CMD_LOCK_REPORT_UNLOCKED),
     (''task request'', CMD_TASK_REQUEST), (''task active'', CMD_TASK_ACTIVE),
     (''task complete'', CMD_TASK_COMPLETE), (''task cancel'', CMD_TASK_CANCEL),
     (''chaster connect'', CMD_CHASTER_CONNECT)]"

definition family_table :: "(string \<times> command) list" where
  "family_table = [(''mode'', CMD_MODE_INVALID), (''lock'', CMD_LOCK_INVALID), (''task'', CMD_TASK_INVALID),
     (''chaster'', CMD_CHASTER_INVALID)]"

lemma router_handlers: "rt_handlers command_router = command_table"
  by code_simp

lemma router_families: "rt_families command_router = family_table"
  by code_simp

lemma router_described: "map fst (rt_descriptions command_router) = map fst command_table"
  by code_simp

lemma routed:
  "route command_router t = Some c \<longleftrightarrow>
     (normalized t, c) \<in> set command_table
     \<or> (normalized t, c) \<in> {(''lock'', CMD_LOCK_INVALID), (''task'', CMD_TASK_INVALID), (''chaster'', CMD_CHASTER_INVALID)}"
proof -
  have d: "distinct (map fst command_table)" by (simp add: command_table_def)
  have none: "map_of command_table ''lock'' = None" "map_of command_table ''task'' = None"
    "map_of command_table ''chaster'' = None" "map_of command_table ''mode'' \<noteq> None"
    by (simp_all add: command_table_def)
  have fam: "map_of family_table k = Some c \<longleftrightarrow> (k, c) \<in> {(''mode'', CMD_MODE_INVALID), (''lock'', CMD_LOCK_INVALID),
      (''task'', CMD_TASK_INVALID), (''chaster'', CMD_CHASTER_INVALID)}" for k
    by (auto simp: family_table_def)
  have "route command_router t = (case map_of command_table (normalized t) of Some h \<Rightarrow> Some h
      | None \<Rightarrow> map_of family_table (normalized t))"
    by (simp add: route_def router_handlers router_families Let_def split: option.split)
  then show ?thesis using none fam [of "normalized t"] map_of_eq_Some_iff [OF d, of "normalized t" c]
    by (cases "map_of command_table (normalized t)") (auto simp: none)
qed

text \<open>C10: a text reaches a handler exactly when, stripped and lower-cased, it equals a registered command,
  or else one of the four family words alone (of which \<open>mode\<close> is itself a command); every other text,
  however close to a command, falls through to the conversation. (So \<open>mode nonsense\<close> does too, although the
  invalid-command handlers' docstrings and two README files say that any text starting with a family word is
  answered by its invalid handler: the code is modelled as it is, and the disagreement is a recorded finding.)\<close>
theorem routing_is_exact:
  "route command_router t = Some c \<longleftrightarrow>
     (normalized t, c) \<in> set command_table
     \<or> (normalized t, c) \<in> {(''lock'', CMD_LOCK_INVALID), (''task'', CMD_TASK_INVALID), (''chaster'', CMD_CHASTER_INVALID)}"
  by (rule routed)

text \<open>The help lists every registered command once, sorted, each with its own description, and nothing
  else, so every command it names is routed; the commands the system prompt tells the user to send are
  among them.\<close>
theorem help_is_complete:
  "sorted (map fst (help_lines command_router)) \<and> distinct (map fst (help_lines command_router))
    \<and> set (map fst (help_lines command_router)) = {k. k \<in> fst ` set command_table}
    \<and> (\<forall>k \<in> set (map fst (help_lines command_router)). route command_router k \<noteq> None)
    \<and> list_all (\<lambda>k. route command_router k \<noteq> None) keyholder_command_guidance"
proof -
  have names: "map fst (help_lines command_router) = sort (map fst command_table)"
    by (simp add: help_lines_def router_described comp_def)
  have "route command_router k \<noteq> None" if "k \<in> fst ` set command_table" for k
  proof -
    have "normalized k = k" using that by (auto simp: command_table_def; code_simp)
    then show ?thesis using that
      by (auto simp: route_def router_handlers Let_def map_of_eq_None_iff split: option.split)
  qed
  moreover have "distinct (map fst command_table)" by (simp add: command_table_def)
  moreover have "list_all (\<lambda>k. k \<in> fst ` set command_table) keyholder_command_guidance"
    by (simp add: command_table_def keyholder_command_guidance_def)
  ultimately show ?thesis unfolding names by (auto simp: list_all_iff)
qed

section \<open>Lock reports\<close>

definition known_lock :: "string \<Rightarrow> 'm lock_db_scheme \<Rightarrow> lock_knowledge_state" where
  \<comment> \<open>the abstract state: what is known about one user's lock\<close>
  "known_lock u s = (case latest_report u s of None \<Rightarrow> KN_UNKNOWN | Some r \<Rightarrow> knowledge_of (lr_status r))"

lemma known_lock_inserted:
  assumes ok: "lock_ok s" and ok': "lock_ok (insert_report r (s\<lparr>next_id := k\<rparr>))"
  shows "known_lock v (insert_report r (s\<lparr>next_id := k\<rparr>))
    = (if v = lr_user_id r then knowledge_of (lr_status r) else known_lock v s)"
proof -
  have "reports_of v (insert_report r (s\<lparr>next_id := k\<rparr>))
    = reports_of v s @ (if v = lr_user_id r then [r] else [])"
    by (auto simp: reports_of_def insert_report_def)
  then show ?thesis unfolding known_lock_def latest_report_last [OF ok] latest_report_last [OF ok']
    by (cases "v = lr_user_id r") simp_all
qed

lemma active_read: "nonblank u \<Longrightarrow> get_active_assignment u s = (Inr (active_row u s), s)"
  by (simp add: get_active_assignment_def op_bind_def op_require_def op_return_def op_get_def)

lemma knowledge_read: "nonblank u \<Longrightarrow> get_current_knowledge_state u s = (Inr (known_lock u s), s)"
  by (simp add: get_current_knowledge_state_def get_current_report_def op_bind_def op_require_def
      op_return_def op_get_def known_lock_def)

text \<open>C9: the lock commands refine one variable per user, initially UNKNOWN: with a message reference a
  report sets the sender's variable and no other, whatever the clock says, and appends exactly one row
  that carries the reference; without one it changes nothing; the status command reads the variable.\<close>
theorem lock_commands_refine:
  assumes ok: "whole_ok s" and u: "user_exists (ua_id (rc_user ctx)) s"
  shows "handle_lock_status ctx s = (Inr (Lock_Status_Reply (known_lock (ua_id (rc_user ctx)) s)), s)
    \<and> (case consent_id_for ctx of
        None \<Rightarrow> report_lock_status ctx status s = (Inr No_Reference_Reply, s)
      | Some c \<Rightarrow> \<exists>s' r. report_lock_status ctx status s = (Inr (Lock_Recorded_Reply status), s')
          \<and> lock_reports s' = lock_reports s @ [r] \<and> lr_user_id r = ua_id (rc_user ctx)
          \<and> lr_status r = status \<and> lr_reported_via_consent_id r = c
          \<and> (\<forall>v. known_lock v s' = (if v = ua_id (rc_user ctx) then knowledge_of status else known_lock v s)))"
proof -
  note n = known_nonblank [OF whole_okD(5) [OF ok] u]
  have read: "handle_lock_status ctx s = (Inr (Lock_Status_Reply (known_lock (ua_id (rc_user ctx)) s)), s)"
    by (simp add: handle_lock_status_def op_bind_def op_return_def knowledge_read [OF n])
  show ?thesis
  proof (cases "consent_id_for ctx")
    case None
    then show ?thesis using read by (simp add: report_lock_status_def with_consent_def op_return_def)
  next
    case (Some c)
    note cn = consent_nonblank [OF Some]
    have ok': "lock_ok (snd (report_status (ua_id (rc_user ctx)) status c (rc_now ctx) s))"
      by (rule whole_okD [OF op_keepsD [OF whole_report_status ok]])
    let ?r = "new_report (ua_id (rc_user ctx)) status c (rc_now ctx) s"
    let ?s = "snd (report_status (ua_id (rc_user ctx)) status c (rc_now ctx) s)"
    obtain k where s': "?s = insert_report ?r (s\<lparr>next_id := k\<rparr>)"
      using n cn u by (auto simp: report_status_eq)
    have run: "report_lock_status ctx status s = (Inr (Lock_Recorded_Reply status), ?s)"
      using Some n cn u by (simp add: report_lock_status_def with_consent_def op_bind_def op_return_def report_status_eq)
    have "\<forall>v. known_lock v ?s = (if v = ua_id (rc_user ctx) then knowledge_of status else known_lock v s)"
      using known_lock_inserted [OF whole_okD(9) [OF ok] ok' [unfolded s']] unfolding s'
      by (simp add: new_report_def)
    moreover have "lock_reports ?s = lock_reports s @ [?r]" unfolding s' by (simp add: insert_report_def)
    moreover have "lr_user_id ?r = ua_id (rc_user ctx)" "lr_status ?r = status" "lr_reported_via_consent_id ?r = c"
      by (simp_all add: new_report_def)
    ultimately show ?thesis using run read Some by auto
  qed
qed

definition sample_request_context :: request_context where
  "sample_request_context = \<lparr>rc_user = \<lparr>ua_id = sample_user, ua_created_at = 0, ua_last_seen_at = 0\<rparr>, rc_now = 7,
     rc_message_id = Some ''m1''\<rparr>"

lemma sample_request_context_known: "user_exists (ua_id (rc_user sample_request_context)) (sample_db step req)"
  using sample_known by (simp add: sample_request_context_def)

lemma lock_commands_refine_witness:
  "\<exists>s'. report_lock_status sample_request_context LOCKED_USER_REPORTED (sample_db OB_COMPLETE LOCK_NONE)
      = (Inr (Lock_Recorded_Reply LOCKED_USER_REPORTED), s')
    \<and> known_lock sample_user s' = KN_LOCKED_USER_REPORTED"
  using lock_commands_refine [OF sample_whole_ok sample_request_context_known, of OB_COMPLETE LOCK_NONE LOCKED_USER_REPORTED]
  by (auto simp: consent_id_for_def sample_request_context_def)

section \<open>Task requests\<close>

lemma select_least:
  assumes "select_eligible_template vs = Some v" and "w \<in> set vs"
  shows "tv_template_id v \<le> tv_template_id w"
proof -
  obtain rest where s: "sort_key tv_template_id vs = v # rest"
    using assms(1) by (cases "sort_key tv_template_id vs") (auto simp: select_eligible_template_def)
  have "sorted (map tv_template_id (v # rest))" unfolding s [symmetric] by simp
  moreover have "w \<in> set (v # rest)" unfolding s [symmetric] using assms(2) by simp
  ultimately show ?thesis by auto
qed

lemma select_None: "select_eligible_template vs = None \<longleftrightarrow> vs = []"
  by (simp add: select_eligible_template_def) (metis length_0_conv length_sort)

text \<open>The version that was selected is the one that is assigned: it is the current one of its template.\<close>

lemma eligible_is_current:
  assumes ok: "catalog_ok s" and v: "v \<in> set (eligible_now u s)"
  obtains e where "entry_by_id (tv_template_id v) s = Some e" and "te_eligibility_status e = TE_ACTIVE"
    and "version_row (tv_template_id v) (te_current_version e) s = Some v"
proof -
  have mem: "v \<in> set (task_template_versions s)" and cur: "is_current_active s v"
    using v by (simp_all add: eligible_now_def)
  then obtain e where "entry_by_id (tv_template_id v) s = Some e" "te_current_version e = tv_version v"
    "te_eligibility_status e = TE_ACTIVE" using is_current_active_iff [OF ok mem] by blast
  then show thesis using that version_row_of [OF ok mem] by simp
qed

definition request_outcome :: "request_context \<Rightarrow> string \<Rightarrow> 'm chaster_db_scheme
    \<Rightarrow> app_reply \<times> task_assignment option" where
  \<comment> \<open>the reply to \<open>task request\<close> and the row it appends\<close>
  "request_outcome ctx c s = (let u = ua_id (rc_user ctx) in
     case active_row u s of
       Some a \<Rightarrow> (Task_Already_Active_Reply (present_title
         (case version_row (ta_template_id a) (ta_template_version a) s of None \<Rightarrow> None | Some v \<Rightarrow> tv_title v)), None)
     | None \<Rightarrow> (case select_eligible_template (eligible_now u s) of
         None \<Rightarrow> (No_Eligible_Task_Reply, None)
       | Some v \<Rightarrow> (Task_Assigned_Reply (present_title (tv_title v)),
           Some (new_assignment (uuid_text (next_id s)) u v c (rc_now ctx)))))"

lemma eligible_read:
  "catalog_ok s \<Longrightarrow> get_eligible_templates ROLE_PRIMARY (mode_value (current_mode (operating_mode_row s))) (known_lock u s) s
    = (Inr (eligible_now u s), s)"
  using answers_eligible [of s u "\<lambda>a s'. a = eligible_now u s \<and> s' = s"]
  by (auto simp: answers_def known_lock_def split: prod.splits sum.splits)

lemma request_run:
  assumes ok: "whole_ok s" and u: "user_exists (ua_id (rc_user ctx)) s" and names: "named_templates s"
    and c: "consent_id_for ctx = Some c" and out: "request_outcome ctx c s = (reply, row)"
  shows "handle_task_request ctx s = (Inr reply, case row of None \<Rightarrow> s | Some a \<Rightarrow> assigned a s)"
proof -
  let ?u = "ua_id (rc_user ctx)"
  note n = known_nonblank [OF whole_okD(5) [OF ok] u]
  note cat = whole_okD(7) [OF ok]
  note cn = consent_nonblank [OF c]
  let ?k = "known_lock ?u s"
  note active = active_read [OF n] and know = knowledge_read [OF n] and elig = eligible_read [OF cat]
  have title: "title_of a s = (Inr (present_title (case version_row (ta_template_id a) (ta_template_version a) s of
      None \<Rightarrow> None | Some v \<Rightarrow> tv_title v)), s)" for a
    by (simp add: title_of_def op_bind_def op_return_def get_template_eq [OF cat])
  show ?thesis
  proof (cases "active_row ?u s")
    case (Some a)
    then show ?thesis using out
      by (auto simp: handle_task_request_def with_consent_def c op_bind_def active title op_return_def request_outcome_def Let_def)
  next
    case None
    note reads = handle_task_request_def with_consent_def c op_bind_def active None know op_get_def get_current_mode_def
      elig op_return_def
    show ?thesis
    proof (cases "select_eligible_template (eligible_now ?u s)")
      case none: None
      then show ?thesis using out None by (auto simp: reads request_outcome_def Let_def)
    next
      case (Some v)
      note v = chosen_mem [OF Some]
      have "nonblank (tv_template_id v)" using v names
        by (simp add: eligible_now_def named_templates_def list_all_iff)
      moreover obtain e where "entry_by_id (tv_template_id v) s = Some e"
        "version_row (tv_template_id v) (te_current_version e) s = Some v"
        using eligible_is_current [OF cat v] by blast
      moreover have "eligible (evaluate_task_eligibility v ?k)" using v by (simp add: eligible_now_def known_lock_def)
      ultimately have "assign_task ?u (tv_template_id v) ?k c (rc_now ctx) s
          = (Inr (new_assignment (uuid_text (next_id s)) ?u v c (rc_now ctx)),
             assigned (new_assignment (uuid_text (next_id s)) ?u v c (rc_now ctx)) s)"
        using n cn u None by (simp add: assign_task_eq [OF cat])
      then show ?thesis using out None Some
        by (auto simp: reads op_catch_def request_outcome_def Let_def)
    qed
  qed
qed

text \<open>C8: a task request with a message reference: a user with an active assignment is told the title of
  the template version that assignment is pinned to (or that none is recorded) and nothing changes; without an eligible template nothing changes; otherwise exactly one row is appended,
  an active assignment of the current version of the eligible template whose id is the least, eligible
  for the primary role, the current mode and the reported lock, with the reference as its consent, and
  it is then the user's active one. The four error replies of the handler are never given.\<close>
theorem task_request_assigns:
  assumes ok: "whole_ok s" and u: "user_exists (ua_id (rc_user ctx)) s" and names: "named_templates s"
    and c: "consent_id_for ctx = Some c"
  shows "(case active_row (ua_id (rc_user ctx)) s of
      Some a \<Rightarrow> \<exists>v \<in> set (task_template_versions s).
          tv_template_id v = ta_template_id a \<and> tv_version v = ta_template_version a
          \<and> handle_task_request ctx s = (Inr (Task_Already_Active_Reply
               (case tv_title v of None \<Rightarrow> ''(not recorded)'' | Some title \<Rightarrow> title)), s)
    | None \<Rightarrow>
        if eligible_now (ua_id (rc_user ctx)) s = [] then handle_task_request ctx s = (Inr No_Eligible_Task_Reply, s)
        else \<exists>v a s'. handle_task_request ctx s = (Inr (Task_Assigned_Reply (present_title (tv_title v))), s')
          \<and> v \<in> set (eligible_now (ua_id (rc_user ctx)) s)
          \<and> list_all (\<lambda>w. tv_template_id v \<le> tv_template_id w) (eligible_now (ua_id (rc_user ctx)) s)
          \<and> task_assignments s' = task_assignments s @ [a]
          \<and> ta_template_id a = tv_template_id v \<and> ta_template_version a = tv_version v
          \<and> ta_assigned_via_consent_id a = c \<and> ta_assigned_at a = rc_now ctx
          \<and> active_row (ua_id (rc_user ctx)) s' = Some a)"
proof (cases "active_row (ua_id (rc_user ctx)) s")
  case (Some a)
  have "a \<in> set (task_assignments s)" using active_row_SomeD [OF Some] by simp
  then obtain v where row: "version_row (ta_template_id a) (ta_template_version a) s = Some v"
    using whole_okD(8) [OF ok] by (auto simp: runtime_ok_def assignment_wf_def)
  then have v: "v \<in> set (task_template_versions s)" "tv_template_id v = ta_template_id a"
    "tv_version v = ta_template_version a"
    using row_by_SomeD [OF row [unfolded version_row_def]] by simp_all
  have "handle_task_request ctx s = (Inr (Task_Already_Active_Reply (present_title (tv_title v))), s)"
    using Some row request_run [OF ok u names c, of "Task_Already_Active_Reply (present_title (tv_title v))" None]
    by (simp add: request_outcome_def Let_def)
  with v Some show ?thesis unfolding present_title_def by auto
next
  case None
  let ?u = "ua_id (rc_user ctx)"
  show ?thesis
  proof (cases "select_eligible_template (eligible_now ?u s)")
    case none: None
    then show ?thesis using None request_run [OF ok u names c, of No_Eligible_Task_Reply None]
      by (simp add: request_outcome_def Let_def) (simp add: select_None)
  next
    case (Some v)
    let ?a = "new_assignment (uuid_text (next_id s)) ?u v c (rc_now ctx)"
    have run: "handle_task_request ctx s = (Inr (Task_Assigned_Reply (present_title (tv_title v))), assigned ?a s)"
      using None Some request_run [OF ok u names c, of "Task_Assigned_Reply (present_title (tv_title v))" "Some ?a"]
      by (simp add: request_outcome_def Let_def)
    have "eligible_now ?u s \<noteq> []" using Some select_None [of "eligible_now ?u s"] by auto
    moreover have "active_row ?u (assigned ?a s) = Some ?a"
      using None by (simp add: active_row_def assigned_def new_assignment_def)
    moreover have "list_all (\<lambda>w. tv_template_id v \<le> tv_template_id w) (eligible_now ?u s)"
      using select_least [OF Some] by (simp add: list_all_iff)
    ultimately show ?thesis using None run chosen_mem [OF Some]
      by (auto simp: assigned_def new_assignment_def intro!: exI [of _ v])
  qed
qed

lemma task_request_assigns_witness:
  "\<exists>a s'. handle_task_request sample_request_context (sample_db OB_COMPLETE LOCK_NONE)
      = (Inr (Task_Assigned_Reply ''Stretch''), s')
    \<and> task_assignments s' = [a] \<and> ta_template_id a = ''stretch'' \<and> active_row sample_user s' = Some a"
proof -
  let ?s = "sample_db OB_COMPLETE LOCK_NONE"
  have n: "named_templates ?s"
    by (simp add: named_templates_def sample_db_def sample_template_def nonblank_def py_space_def)
  have c: "consent_id_for sample_request_context = Some ''discord_message:m1''" by (simp add: consent_id_for_def sample_request_context_def)
  have u: "ua_id (rc_user sample_request_context) = sample_user" by (simp add: sample_request_context_def)
  have none: "active_row sample_user ?s = None" by (simp add: active_row_def sample_db_def)
  have e: "eligible_now sample_user ?s = [sample_template LOCK_NONE]"
    by (simp add: eligible_now_def sample_db_def is_current_active_def sample_entry_def sample_template_def
        sample_details_def evaluate_task_eligibility_def)
  show ?thesis
    using task_request_assigns [OF sample_whole_ok sample_request_context_known n c] none e
    by (auto simp: u sample_db_def sample_template_def present_title_def)
qed

section \<open>A template without a name\<close>

text \<open>\<open>create_template\<close> accepts a blank template id but \<open>assign_task\<close> does not: while the selected
  template has one, every task request with a message reference raises, and changes nothing.\<close>
theorem blank_template_blocks_requests:
  assumes ok: "whole_ok s" and u: "user_exists (ua_id (rc_user ctx)) s" and c: "consent_id_for ctx = Some c"
    and none: "active_row (ua_id (rc_user ctx)) s = None"
    and v: "select_eligible_template (eligible_now (ua_id (rc_user ctx)) s) = Some v" and blank: "\<not> nonblank (tv_template_id v)"
  shows "handle_task_request ctx s = (Inl ValueError, s)"
proof -
  note n = known_nonblank [OF whole_okD(5) [OF ok] u]
  note cat = whole_okD(7) [OF ok]
  show ?thesis using none v blank
    by (simp add: handle_task_request_def with_consent_def c op_bind_def active_read [OF n] knowledge_read [OF n]
        op_get_def get_current_mode_def eligible_read [OF cat] op_catch_def assign_task_eq [OF cat] op_raise_def)
qed

text \<open>The administrator's catalog operations keep the whole invariant, so such a template can get in.\<close>

lemma whole_catalog_op:
  fixes f :: "('m chaster_db_scheme, 'b) op"
  assumes keeps: "op_keeps user_side_ok f" and outcome: "\<And>s. catalog_ok s \<Longrightarrow> snd (f s) = s \<or>
      (\<exists>v. snd (f s) = with_version v s) \<or> (\<exists>v e. snd (f s) = with_entry e (with_version v s)) \<or>
      (\<exists>t g. snd (f s) = update_entry t g s)"
  shows "op_keeps whole_ok f"
proof (rule whole_keepsI)
  fix s :: "'m chaster_db_scheme" assume ok: "whole_ok s"
  note out = outcome [OF whole_okD(7) [OF ok]]
  have "same_core s (snd (f s))"
    using out by (auto simp: same_core_def mode_db.defs with_version_def with_entry_def update_entry_def)
  then show "app_ok (snd (f s))"
    using run_ok_same_core [OF whole_okD(3) [OF ok]] op_keepsD [OF keeps whole_okD(4) [OF ok]] by (simp add: app_ok_def)
  have same: "chaster_part (snd (f s)) = chaster_part s" "account_part (snd (f s)) = account_part s"
      "next_id s \<le> next_id (snd (f s))"
    using out by (auto simp: account_part_def chaster_part_def with_version_def with_entry_def update_entry_def)
  have "user_exists u (snd (f s)) = user_exists u s" "connection_of u (snd (f s)) = connection_of u s"
      "drawn i s \<Longrightarrow> drawn i (snd (f s))" for u i
    using same by (auto simp: user_exists_def account_by_id_def account_part_def connection_of_def chaster_part_def
        drawn_def)
  then show "chaster_ok (snd (f s))" using whole_okD(2) [OF ok] same(1)
    by (auto simp: chaster_ok_def states_ok_def connections_ok_def observations_ok_def chaster_part_def)
qed

lemma whole_catalog_operations:
  "op_keeps whole_ok (create_template t h i d c now)" "op_keeps whole_ok (add_version t h i d c now)"
  "op_keeps whole_ok (set_current_version t n c now)"
  "op_keeps whole_ok (activate t c now)" "op_keeps whole_ok (deactivate t c now)"
  subgoal by (rule whole_catalog_op [OF side_catalog_operations(1)]) (use catalog_outcomes(1) in blast)
  subgoal by (rule whole_catalog_op [OF side_catalog_operations(2)]) (use catalog_outcomes(2) in blast)
  subgoal by (rule whole_catalog_op [OF side_catalog_operations(3)]) (use catalog_outcomes(3) in blast)
  unfolding activate_def [abs_def] deactivate_def [abs_def]
  by (rule whole_catalog_op [OF side_set_eligibility], use catalog_outcomes(4) in blast)+

definition blank_named :: chaster_db where
  \<comment> \<open>the sample database after an administrator added a template with an empty id\<close>
  "blank_named = snd (create_template '''' ''Rest'' ''Lie down'' (sample_details LOCK_NONE) ''admin'' 1
     (sample_db OB_COMPLETE LOCK_NONE))"

lemma blank_named_eq: "blank_named =
    with_entry (new_entry '''' ''admin'' 1) (with_version
      (new_version (uuid_text 3) '''' 1 ''Rest'' ''Lie down'' (sample_details LOCK_NONE) ''admin'' 1)
      (sample_db OB_COMPLETE LOCK_NONE))"
proof -
  let ?s = "sample_db OB_COMPLETE LOCK_NONE"
  have p: "prepare ''admin'' ''Rest'' ''Lie down'' = Inr (''Rest'', ''Lie down'')" by code_simp
  have v: "check_version (new_version (uuid_text 3) '''' 1 ''Rest'' ''Lie down'' (sample_details LOCK_NONE) ''admin'' 1)
      = Inr (new_version (uuid_text 3) '''' 1 ''Rest'' ''Lie down'' (sample_details LOCK_NONE) ''admin'' 1)"
    by code_simp
  have e: "entry_by_id '''' ?s = None" and n: "next_id ?s = 3"
    by (simp_all add: entry_by_id_def sample_db_def sample_entry_def)
  show ?thesis
    unfolding blank_named_def create_template_eq [OF whole_okD(7) [OF sample_whole_ok]] by (simp add: p v e n)
qed

lemma blank_template_blocks_requests_witness:
  "\<exists>s'. handle_task_request sample_request_context blank_named = (Inl ValueError, s')"
proof -
  let ?u = "ua_id (rc_user sample_request_context)"
  have ok: "whole_ok blank_named"
    unfolding blank_named_def by (rule op_keepsD [OF whole_catalog_operations(1) sample_whole_ok])
  have u: "user_exists ?u blank_named"
    using sample_request_context_known [of OB_COMPLETE LOCK_NONE]
    by (simp add: blank_named_eq with_version_def with_entry_def user_exists_def account_by_id_def)
  have c: "consent_id_for sample_request_context = Some ''discord_message:m1''"
    by (simp add: consent_id_for_def sample_request_context_def)
  have none: "active_row ?u blank_named = None"
    by (simp add: blank_named_eq with_version_def with_entry_def active_row_def sample_db_def)
  have "map_option tv_template_id (select_eligible_template (eligible_now ?u blank_named)) = Some ''''"
    unfolding blank_named_eq by code_simp
  then show ?thesis
    using blank_template_blocks_requests [OF ok u c none] by (auto simp: nonblank_def py_strip_def)
qed

section \<open>The operating mode\<close>

definition in_mode :: "operating_mode_state \<Rightarrow> 'm chaster_db_scheme \<Rightarrow> bool" where
  "in_mode x s \<longleftrightarrow> whole_ok s \<and> operating_mode_row s = x"

lemma same_core_mode: "same_core s s' \<Longrightarrow> operating_mode_row s' = operating_mode_row s
    \<and> mode_transition_requests s' = mode_transition_requests s \<and> penalty_windows s' = penalty_windows s"
  by (cases s rule: mode_db.cases_scheme; cases s' rule: mode_db.cases_scheme) (simp add: same_core_def mode_db.defs)

lemma in_mode_same_core:
  assumes "op_keeps whole_ok f" and "\<And>s. whole_ok s \<Longrightarrow> same_core s (snd (f s))"
  shows "op_keeps (in_mode x) f"
  using assms same_core_mode by (auto simp: op_keeps_def in_mode_def)

lemma in_mode_row:
  assumes "op_keeps whole_ok f" and "op_keeps (\<lambda>s. operating_mode_row s = x) f"
  shows "op_keeps (in_mode x) f"
  using assms by (simp add: op_keeps_def in_mode_def)

lemma in_mode_user_ops [keeps_intros]:
  "op_keeps (in_mode x) (get_or_create_preferences u now)"
  "op_keeps (in_mode x) (report_status u status consent now)"
  "op_keeps (in_mode x) (assign_task u t k consent now)"
  "target \<noteq> TA_ACTIVE \<Longrightarrow> op_keeps (in_mode x) (resolve_assignment i target consent now)"
  "op_keeps (in_mode x) (create_or_replace_state u now)"
  by (rule in_mode_same_core; (intro keeps_intros core_get_or_create_preferences core_report_status core_assign_task
      core_resolve core_create_or_replace_state whole_okD(7) | assumption)+)+

lemma in_mode_system_ops [keeps_intros]:
  "op_keeps (in_mode x) (ensure_current_state now)"
  "op_keeps (in_mode x) (advance_transition_state get_active_or_frozen_penalty_window now)"
  "op_keeps (in_mode x) (request_transition get_active_or_frozen_penalty_window target consent now)"
  "op_keeps (in_mode x) (cancel_request i now)"
  by (rule in_mode_row; rule keeps_intros mode_row.operations)+

lemma in_mode_title [keeps_intros]: "op_keeps (in_mode x) (title_of a)"
  unfolding title_of_def get_template_def by (intro keeps_intros)

lemma in_mode_settle [keeps_intros]: "op_keeps (in_mode x) (settle_mode_state ctx)"
  unfolding settle_mode_state_def by (intro keeps_intros)

lemma in_mode_run_command: "c \<noteq> CMD_MODE_CONFIRM \<Longrightarrow> op_keeps (in_mode x) (run_command app c ctx)"
  by (cases c; simp only: run_command.simps handler_defs)
    (auto intro!: keeps_intros split: option.split prod.split)

text \<open>A confirmation message first settles the request, as every mode command does.\<close>

interpretation requests_untouched: penalty_frame "\<lambda>s. mode_transition_requests s = rs" for rs
  by unfold_locales (simp_all add: keeps_def tx_simps insert_event_def)

lemma settled_request:
  assumes ok: "whole_ok s" and run: "settle_mode_state ctx s = (Inr (), s2)"
  shows "fetch_active_request s2 = map_option
      (\<lambda>r. compute_next_state r (get_active_or_frozen_penalty_window s2 \<noteq> None) (rc_now ctx)) (fetch_active_request s)"
proof -
  obtain a s1 b where e: "ensure_current_state (rc_now ctx) s = (Inr a, s1)"
    and adv: "advance_transition_state get_active_or_frozen_penalty_window (rc_now ctx) s1 = (Inr b, s2)"
    using run by (auto simp: settle_mode_state_def op_bind_def op_return_def split: prod.splits sum.splits)
  have s1: "whole_ok s1" using op_keepsD [OF whole_ensure ok, of "rc_now ctx"] e by simp
  then have m1: "mode_ok s1" and m2: "mode_ok s2"
    using run_okD(9) [OF whole_okD(3)] op_keepsD [OF whole_mode(1) s1, of "rc_now ctx"] adv by fastforce+
  have "mode_transition_requests s1 = mode_transition_requests s"
    using op_keepsD [OF requests_untouched.ensure, of s "mode_transition_requests s" "rc_now ctx"] e by simp
  then have same: "fetch_active_request s1 = fetch_active_request s" by (simp add: fetch_active_request_def)
  show ?thesis
  proof (cases "fetch_active_request s1")
    case None
    then show ?thesis using adv same by (simp add: advance_None)
  next
    case (Some r)
    let ?q = "compute_next_state r (get_active_or_frozen_penalty_window s1 \<noteq> None) (rc_now ctx)"
    have s2: "s2 = (if ?q = r then s1 else put ?q s1)" using adv by (auto simp: advance_eq [OF m1 Some] Let_def)
    have win: "get_active_or_frozen_penalty_window s2 = get_active_or_frozen_penalty_window s1"
      unfolding s2 put_def by (simp add: engine_read.requests_irrelevant)
    have "mt_id ?q = mt_id r" using same_request_next [of r] by (simp add: same_request_def)
    then have "?q \<in> set (mode_transition_requests s2)"
      using fetch_activeD(1) [OF Some] unfolding s2 by (auto simp: put_request_def set_update_where)
    moreover have "open_request ?q" using fetch_activeD(2) [OF Some] by (simp add: compute_next_open)
    ultimately have "fetch_active_request s2 = Some ?q" by (rule open_requestI [OF m2])
    then show ?thesis using Some same win by simp
  qed
qed

lemma confirm_changes_mode:
  assumes ok: "whole_ok s" and run: "handle_mode_confirm ctx s = (res, s')"
    and changed: "operating_mode_row s' \<noteq> operating_mode_row s"
  shows "\<exists>r. rc_message_id ctx \<noteq> None \<and> fetch_active_request s = Some r
    \<and> (mt_status r = AWAITING_CONFIRMATION
        \<or> mt_status r = WAITING \<and> (\<exists>t. mt_confirmable_at r = Some t \<and> t \<le> rc_now ctx))
    \<and> get_active_or_frozen_penalty_window s' = None
    \<and> operating_mode_row s' = \<lparr>current_mode = mt_target_mode r, mode_activated_at = rc_now ctx\<rparr>
    \<and> res = Inr (Mode_Confirmed_Reply (mt_target_mode r))"
proof -
  have "answers (settle_mode_state ctx) (\<lambda>a s'. True) s" by (rule answers_settle [OF ok]) simp
  from answersD [OF this] obtain s2 where set: "settle_mode_state ctx s = (Inr (), s2)" by auto
  have s2: "in_mode (operating_mode_row s) s2"
    using op_keepsD [OF in_mode_settle, of "operating_mode_row s" s ctx] ok set by (simp add: in_mode_def)
  then have w2: "whole_ok s2" and row2: "operating_mode_row s2 = operating_mode_row s" by (simp_all add: in_mode_def)
  have m2: "mode_ok s2" using run_okD(9) [OF whole_okD(3) [OF w2]] .
  obtain c where c: "consent_id_for ctx = Some c"
    using run changed set row2
    by (cases "consent_id_for ctx") (auto simp: handle_mode_confirm_def op_bind_def with_consent_def op_return_def)
  note cn = consent_nonblank [OF c]
  obtain q where q: "fetch_active_request s2 = Some q"
    using run changed set row2 c
    by (cases "fetch_active_request s2") (auto simp: handle_mode_confirm_def op_bind_def with_consent_def op_return_def op_get_def)
  note byid = fetched_by_id(1) [OF m2 q]
  have aw: "mt_status q = AWAITING_CONFIRMATION"
    using run changed set row2 c q
    by (auto simp: handle_mode_confirm_def op_bind_def with_consent_def op_return_def op_get_def split: if_splits)
  have none: "get_active_or_frozen_penalty_window s2 = None"
    using run changed set row2 c q aw byid cn
    by (auto simp: handle_mode_confirm_def op_bind_def with_consent_def op_return_def op_get_def op_catch_def
        confirm_eq [OF m2] consent_given_def split: if_splits)
  have s': "s' = switched (mt_target_mode q) (rc_now ctx) (put (confirmed c (rc_now ctx) q) s2)"
    and res: "res = Inr (Mode_Confirmed_Reply (mt_target_mode q))"
    using run set c q aw byid cn none
    by (auto simp: handle_mode_confirm_def op_bind_def with_consent_def op_return_def op_get_def op_catch_def
        confirm_eq [OF m2] consent_given_def confirmed_def)
  obtain r where r: "fetch_active_request s = Some r" and next_state: "q = compute_next_state r False (rc_now ctx)"
    using settled_request [OF ok set] q none by (cases "fetch_active_request s") auto
  have "mt_target_mode q = mt_target_mode r"
    unfolding next_state using same_request_next [of r False] by (simp add: same_request_def)
  moreover have "mt_status r = AWAITING_CONFIRMATION
        \<or> mt_status r = WAITING \<and> (\<exists>t. mt_confirmable_at r = Some t \<and> t \<le> rc_now ctx)"
    using aw unfolding next_state
    by (auto simp: compute_next_state_def restart_wait_def split: mode_transition_status.splits if_splits option.splits)
  moreover have "get_active_or_frozen_penalty_window s' = None"
    using none unfolding s' switched_def put_def
    by (simp add: engine_read.requests_irrelevant engine_read.mode_irrelevant)
  moreover have "rc_message_id ctx \<noteq> None" using c by (cases "rc_message_id ctx") (simp_all add: consent_id_for_def)
  moreover have "operating_mode_row s' = \<lparr>current_mode = mt_target_mode q, mode_activated_at = rc_now ctx\<rparr>"
    unfolding s' by (simp add: switched_def)
  ultimately show ?thesis using r res by auto
qed

text \<open>C5: one message changes the operating mode only if it says \<open>mode confirm\<close> and comes from a sender who has
  finished onboarding, with a message reference, while a request made by an earlier message is awaiting
  confirmation or its wait is over at that moment, and no penalty window is open; the mode is then
  the request's target, and the reply says so. No other message, and nothing the language model says,
  changes the mode.\<close>
theorem mode_changes_only_on_confirm:
  assumes ok: "process_ok (s, m)"
    and run: "handle_message (bot_application model client f) msg (s, m) = (reply, (s', m'))"
    and changed: "operating_mode_row s' \<noteq> operating_mode_row s"
  shows "\<exists>p r. sender_row msg s = Some p \<and> up_step p = OB_COMPLETE \<and> normalized (im_text msg) = ''mode confirm''
    \<and> im_external_message_id msg \<noteq> None \<and> fetch_active_request s = Some r
    \<and> (mt_status r = AWAITING_CONFIRMATION
        \<or> mt_status r = WAITING \<and> (\<exists>t. mt_confirmable_at r = Some t \<and> t \<le> im_received_at msg))
    \<and> get_active_or_frozen_penalty_window s' = None
    \<and> operating_mode_row s' = \<lparr>current_mode = mt_target_mode r, mode_activated_at = im_received_at msg\<rparr>
    \<and> reply = Mode_Confirmed_Reply (mt_target_mode r)"
proof -
  let ?app = "bot_application model client f"
  have w: "whole_ok s" and mem: "memory_ok bot_limits m" using ok by (simp_all add: process_ok_def)
  have last: "snd (answer_message ?app msg (s, m)) = (s', m')" using run handle_message_state [of ?app msg "(s, m)"] by simp
  show ?thesis
  proof (cases "sender_row msg s")
    case None
    then show ?thesis using answer_message_new [OF w None, of ?app m] last changed same_core_mode
      by (fastforce simp: only_onboarding_def)
  next
    case (Some p)
    obtain u s1 where s1: "whole_ok s1" and u: "user_exists (ua_id u) s1"
      and pr: "preferences_of (up_user_id p) s1 = Some p" and "up_user_id p = ua_id u" and only: "only_onboarding s s1"
      and start: "\<forall>app m. answer_message app msg (s, m) = answer_known app msg u p (s1, m)"
      using answer_message_known [OF w Some] by blast
    have core: "operating_mode_row s1 = operating_mode_row s" "fetch_active_request s1 = fetch_active_request s"
      using same_core_mode [of s s1] only by (simp_all add: only_onboarding_def fetch_active_request_def)
    have known: "answer_message ?app msg (s, m) = answer_known ?app msg u p (s1, m)" using start by simp
    have complete: "up_step p = OB_COMPLETE"
    proof (rule ccontr)
      assume "up_step p \<noteq> OB_COMPLETE"
      then have "s' = snd (process_message p (im_text msg) (im_received_at msg) s1)"
        using known last by (cases "process_message p (im_text msg) (im_received_at msg) s1"; cases "fst (process_message p (im_text msg) (im_received_at msg) s1)")
          (auto simp: answer_known_def onboarding_is_complete_def split: prod.splits)
      then show False
        using same_core_mode [OF core_process_message [OF whole_okD(6) [OF s1] pr]] changed core by simp
    qed
    obtain r m1 where talk: "converse ?app u p msg (s1, m) = (r, (s1, m1))" using converse_keeps [OF mem] by blast
    obtain c where c: "route command_router (im_text msg) = Some c"
      using known last changed core complete talk
      by (cases "route command_router (im_text msg)") (auto simp: answer_known_def onboarding_is_complete_def)
    let ?ctx = "\<lparr>rc_user = u, rc_now = im_received_at msg, rc_message_id = im_external_message_id msg\<rparr>"
    obtain res where res: "run_command ?app c ?ctx s1 = (res, s')"
      and answer: "answer_message ?app msg (s, m) = (res, (s', m'))"
      using known last complete c
      by (cases "run_command ?app c ?ctx s1") (auto simp: answer_known_def onboarding_is_complete_def on_database_def)
    have conf: "c = CMD_MODE_CONFIRM"
      using op_keepsD [OF in_mode_run_command, of c "operating_mode_row s1" s1 ?app ?ctx] res s1 changed core
      by (auto simp: in_mode_def)
    have "normalized (im_text msg) = ''mode confirm''"
      using c [unfolded conf, unfolded routed] by (auto simp: command_table_def)
    moreover obtain r where "fetch_active_request s = Some r" "im_external_message_id msg \<noteq> None"
      "mt_status r = AWAITING_CONFIRMATION
        \<or> mt_status r = WAITING \<and> (\<exists>t. mt_confirmable_at r = Some t \<and> t \<le> im_received_at msg)"
      "get_active_or_frozen_penalty_window s' = None"
      "operating_mode_row s' = \<lparr>current_mode = mt_target_mode r, mode_activated_at = im_received_at msg\<rparr>"
      "res = Inr (Mode_Confirmed_Reply (mt_target_mode r))"
      using confirm_changes_mode [OF s1, of ?ctx res s'] res changed core conf by auto
    ultimately show ?thesis using Some complete answer run by (auto simp: handle_message_def)
  qed
qed

text \<open>A sender who asked for the advanced mode at time 5 and confirms it a day later.\<close>

definition said :: "string \<Rightarrow> time \<Rightarrow> incoming_message" where
  "said t now = (hello t)\<lparr>im_received_at := now\<rparr>"

definition asked :: "chaster_db \<times> exchanges" where
  "asked = snd (handle_message (bot_application quiet_model None None) (said ''mode request advanced'' 5)
     (sample_db OB_COMPLETE LOCK_NONE, Map.empty))"

definition confirmed_after :: "chaster_db \<times> exchanges" where
  "confirmed_after = snd (handle_message (bot_application quiet_model None None)
     (said ''mode confirm'' (5 + confirmation_wait)) asked)"

lemma asked_ok: "process_ok asked"
  unfolding asked_def handle_message_state
  using message_keeps [of "sample_db OB_COMPLETE LOCK_NONE" Map.empty] sample_process_ok by simp

lemma asked_modes:
  "current_mode (operating_mode_row (fst asked)) = STANDARD" "current_mode (operating_mode_row (fst confirmed_after)) = ADVANCED"
  unfolding confirmed_after_def asked_def by code_simp+

lemma mode_changes_only_on_confirm_witness:
  "\<exists>p. sender_row (said ''mode confirm'' (5 + confirmation_wait)) (fst asked) = Some p \<and> up_step p = OB_COMPLETE
    \<and> mode_activated_at (operating_mode_row (fst confirmed_after)) = 5 + confirmation_wait"
proof -
  let ?app = "bot_application quiet_model None None" and ?msg = "said ''mode confirm'' (5 + confirmation_wait)"
  have run: "handle_message ?app ?msg (fst asked, snd asked)
      = (fst (handle_message ?app ?msg asked), (fst confirmed_after, snd confirmed_after))"
    by (simp add: confirmed_after_def)
  have "process_ok (fst asked, snd asked)" by (simp add: asked_ok)
  moreover have "operating_mode_row (fst confirmed_after) \<noteq> operating_mode_row (fst asked)"
    using asked_modes by auto
  ultimately show ?thesis using mode_changes_only_on_confirm [OF _ run] by (auto simp: said_def)
qed

end
