(* ===== verification/Ollama_Adapter.thy ===== *)
theory Ollama_Adapter
  imports Chaster_Wire Conversation
begin

text \<open>
  \<open>conversation_engine/ollama_adapter.py\<close>: the adapter behind the conversation engine's model
  parameter. One POST to a local server, then a chain of checks on the reply, each with its own
  \<open>LLMGenerationError\<close> code. The transport (\<open>requests.post\<close>), the JSON decoder (\<open>json.loads\<close>) and the
  wording of the prompt parts are parameters; a body is a sequence of bytes (a \<open>string\<close>), its decoding
  a list of code points. Closing the response is not modelled.
\<close>

section \<open>Text helpers\<close>

fun split_at :: "char \<Rightarrow> string \<Rightarrow> string list" where
  \<comment> \<open>\<open>text.split(sep)\<close>\<close>
  "split_at sep [] = [[]]"
| "split_at sep (c # cs) = (if c = sep then [] # split_at sep cs
     else (case split_at sep cs of [] \<Rightarrow> [[c]] | p # ps \<Rightarrow> (c # p) # ps))"

definition part_before :: "char \<Rightarrow> string \<Rightarrow> string" where
  "part_before sep t = takeWhile (\<lambda>c. c \<noteq> sep) t"

definition part_after :: "char \<Rightarrow> string \<Rightarrow> string" where
  \<comment> \<open>the last component of \<open>text.partition(sep)\<close>\<close>
  "part_after sep t = drop 1 (dropWhile (\<lambda>c. c \<noteq> sep) t)"

definition strip_right :: "char \<Rightarrow> string \<Rightarrow> string" where
  \<comment> \<open>\<open>text.rstrip(char)\<close>\<close>
  "strip_right x t = rev (dropWhile (\<lambda>c. c = x) (rev t))"

definition res_except :: "(exn \<Rightarrow> bool) \<Rightarrow> exn \<Rightarrow> exn + 'a \<Rightarrow> exn + 'a" where
  \<comment> \<open>\<open>try: ... except P: raise e\<close>\<close>
  "res_except P e r = (case r of Inl x \<Rightarrow> Inl (if P x then e else x) | Inr a \<Rightarrow> Inr a)"

section \<open>The content type\<close>

definition accepted_parameter :: "string \<Rightarrow> bool" where
  "accepted_parameter param \<longleftrightarrow> CHR ''='' \<notin> set param \<or>
     py_lower (py_strip (part_before (CHR ''='') param)) \<noteq> ''charset'' \<or>
     py_lower (py_strip (part_after (CHR ''='') param)) = ''utf-8''"

definition is_accepted_content_type :: "string \<Rightarrow> bool" where
  "is_accepted_content_type content_type = (let parts = map py_strip (split_at (CHR '';'') content_type) in
     py_lower (hd parts) = ''application/json'' \<and> list_all accepted_parameter (tl parts))"

section \<open>The body\<close>

text \<open>\<open>iter_content\<close>: chunks of bytes, and possibly a transport error in between.\<close>

datatype stream_item = Chunk string | Broken

record post_response =
  pr_status :: nat
  pr_content_type :: "string option"
  pr_content_length :: "string option"
  pr_body :: "stream_item list"

fun read_chunks :: "int \<Rightarrow> string \<Rightarrow> stream_item list \<Rightarrow> exn + string" where
  "read_chunks limit body [] = Inr body"
| "read_chunks limit body (Broken # items) = Inl (LLMGenerationError ''ollama_read_error'')"
| "read_chunks limit body (Chunk c # items) =
     (if c = [] then read_chunks limit body items
      else if int (length c) > limit - int (length body) then Inl (LLMGenerationError ''ollama_response_too_large'')
      else read_chunks limit (body @ c) items)"

definition read_bounded_response_body :: "int \<Rightarrow> post_response \<Rightarrow> exn + string" where
  "read_bounded_response_body limit r =
     res_bind (case pr_content_length r of None \<Rightarrow> Inr ()
       | Some header \<Rightarrow>
           res_bind (res_except (\<lambda>e. e = ValueError) (LLMGenerationError ''ollama_invalid_content_length'') (text_int header)) (\<lambda>n.
           res_bind (res_require (0 \<le> n) (LLMGenerationError ''ollama_invalid_content_length'')) (\<lambda>_.
           res_require (n \<le> limit) (LLMGenerationError ''ollama_response_too_large'')))) (\<lambda>_.
     read_chunks limit [] (pr_body r))"

text \<open>\<open>bytes.decode(''utf-8'')\<close>: the well-formed sequences of the Unicode standard.\<close>

definition continuation :: "nat \<Rightarrow> bool" where
  "continuation b \<longleftrightarrow> 128 \<le> b \<and> b < 192"

fun utf8_points :: "nat list \<Rightarrow> nat list option" where
  "utf8_points [] = Some []"
| "utf8_points (a # bs) =
     (if a < 128 then map_option (Cons a) (utf8_points bs)
      else if 194 \<le> a \<and> a < 224 then (case bs of
          b # r \<Rightarrow> if continuation b then map_option (Cons ((a - 192) * 64 + (b - 128))) (utf8_points r) else None
        | _ \<Rightarrow> None)
      else if 224 \<le> a \<and> a < 240 then (case bs of
          b # c # r \<Rightarrow> (let p = (a - 224) * 4096 + (b - 128) * 64 + (c - 128) in
            if continuation b \<and> continuation c \<and> 2048 \<le> p \<and> \<not> (55296 \<le> p \<and> p < 57344)
            then map_option (Cons p) (utf8_points r) else None)
        | _ \<Rightarrow> None)
      else if 240 \<le> a \<and> a < 245 then (case bs of
          b # c # d # r \<Rightarrow> (let p = (a - 240) * 262144 + (b - 128) * 4096 + (c - 128) * 64 + (d - 128) in
            if continuation b \<and> continuation c \<and> continuation d \<and> 65536 \<le> p \<and> p < 1114112
            then map_option (Cons p) (utf8_points r) else None)
        | _ \<Rightarrow> None)
      else None)"

definition decode_utf8 :: "string \<Rightarrow> exn + nat list" where
  "decode_utf8 body = (case utf8_points (map of_char body) of
      None \<Rightarrow> Inl (LLMGenerationError ''ollama_invalid_utf8'') | Some ps \<Rightarrow> Inr ps)"

section \<open>The request and the reply\<close>

record ollama =
  ol_host :: string
  ol_model_name :: string
  ol_connect_timeout :: real
  ol_read_timeout :: real
  ol_max_body_bytes :: int

definition default_connect_timeout :: real where "default_connect_timeout = 5"
definition default_read_timeout :: real where "default_read_timeout = 30"
definition default_max_body_bytes :: int where "default_max_body_bytes = 1000000"

definition new_ollama :: "string \<Rightarrow> string \<Rightarrow> ollama" where
  "new_ollama host name = \<lparr>ol_host = strip_right (CHR ''/'') host, ol_model_name = name,
     ol_connect_timeout = default_connect_timeout, ol_read_timeout = default_read_timeout,
     ol_max_body_bytes = default_max_body_bytes\<rparr>"

record chat_request =
  cq_url :: string
  cq_model :: string
  cq_messages :: "(string \<times> string) list"
  cq_stream_payload :: bool
  cq_timeout :: "real \<times> real"
  cq_allow_redirects :: bool

datatype post_result = POST_TIMEOUT | POST_FAILED | POST_REPLY post_response

fun chat_message :: "(prompt_part list \<Rightarrow> string) \<Rightarrow> model_message \<Rightarrow> string \<times> string" where
  "chat_message wording (System_Message parts) = (''system'', wording parts)"
| "chat_message wording (User_Message t) = (''user'', t)"
| "chat_message wording (Assistant_Message t) = (''assistant'', t)"

definition chat_of :: "ollama \<Rightarrow> (prompt_part list \<Rightarrow> string) \<Rightarrow> generation_request \<Rightarrow> chat_request" where
  "chat_of c wording r = \<lparr>cq_url = ol_host c @ ''/api/chat'', cq_model = ol_model_name c,
     cq_messages = map (chat_message wording) (gr_messages r), cq_stream_payload = False,
     cq_timeout = (ol_connect_timeout c, ol_read_timeout c), cq_allow_redirects = False\<rparr>"

fun lookup_failed :: "exn \<Rightarrow> bool" where
  "lookup_failed (KeyError k) = True"
| "lookup_failed TypeError = True"
| "lookup_failed _ = False"

definition message_content :: "wire \<Rightarrow> exn + string" where
  "message_content payload =
     res_bind (res_except lookup_failed (LLMGenerationError ''ollama_invalid_response_shape'')
       (res_bind (wire_item payload ''message'') (\<lambda>m. wire_item m ''content''))) (\<lambda>t.
     case t of WStr x \<Rightarrow> Inr x | _ \<Rightarrow> Inl (LLMGenerationError ''ollama_invalid_response_shape''))"

definition read_reply ::
  "ollama \<Rightarrow> (nat list \<Rightarrow> exn + wire) \<Rightarrow> nat \<Rightarrow> post_response \<Rightarrow> exn + string" where
  "read_reply c loads max_output r =
     res_bind (res_require (pr_status r = 200) (LLMGenerationError ''ollama_http_error'')) (\<lambda>_.
     res_bind (res_require (is_accepted_content_type (case pr_content_type r of None \<Rightarrow> '''' | Some t \<Rightarrow> t))
       (LLMGenerationError ''ollama_invalid_content_type'')) (\<lambda>_.
     res_bind (read_bounded_response_body (ol_max_body_bytes c) r) (\<lambda>body.
     res_bind (decode_utf8 body) (\<lambda>decoded.
     res_bind (res_except (\<lambda>e. e = JSONDecodeError) (LLMGenerationError ''ollama_invalid_json'') (loads decoded)) (\<lambda>payload.
     res_bind (message_content payload) (\<lambda>text.
     (let t = py_strip text in
      res_bind (res_require (t \<noteq> []) (LLMGenerationError ''ollama_empty_response'')) (\<lambda>_.
      res_bind (res_require (length t \<le> max_output) (LLMGenerationError ''ollama_response_too_long'')) (\<lambda>_.
      Inr t)))))))))"

definition ollama_generate ::
  "ollama \<Rightarrow> (chat_request \<Rightarrow> post_result) \<Rightarrow> (nat list \<Rightarrow> exn + wire) \<Rightarrow> (prompt_part list \<Rightarrow> string)
     \<Rightarrow> generation_request \<Rightarrow> exn + string" where
  "ollama_generate c post loads wording r = (case post (chat_of c wording r) of
      POST_TIMEOUT \<Rightarrow> Inl (LLMGenerationError ''ollama_timeout'')
    | POST_FAILED \<Rightarrow> Inl (LLMGenerationError ''ollama_connection_error'')
    | POST_REPLY reply \<Rightarrow> read_reply c loads (gr_max_output r) reply)"

lemma text_int_error: "text_int t = Inl e \<Longrightarrow> e = ValueError"
  by (auto simp: text_int_def unsigned_int_def res_bind_def Let_def split: list.splits if_splits option.splits sum.splits)

end
