(* ===== verification/Ollama_Properties.thy ===== *)
theory Ollama_Properties
  imports Ollama_Adapter Application_Properties
begin

text \<open>
  What the model adapter promises the conversation engine: a body is read up to its limit and no
  further, however it is cut into chunks; a text that is returned is stripped, not empty and within
  the requested length; and every failure is an \<open>LLMGenerationError\<close>, unless the JSON decoder raises
  something else than \<open>JSONDecodeError\<close>.
\<close>

section \<open>Decoding\<close>

text \<open>The decoder inverts the encoding of the Unicode standard, which validates it.\<close>

definition utf8_of_point :: "nat \<Rightarrow> nat list" where
  "utf8_of_point p =
     (if p < 128 then [p]
      else if p < 2048 then [192 + p div 64, 128 + p mod 64]
      else if p < 65536 then [224 + p div 4096, 128 + p div 64 mod 64, 128 + p mod 64]
      else [240 + p div 262144, 128 + p div 4096 mod 64, 128 + p div 64 mod 64, 128 + p mod 64])"

definition scalar_value :: "nat \<Rightarrow> bool" where
  "scalar_value p \<longleftrightarrow> p < 55296 \<or> 57344 \<le> p \<and> p < 1114112"

lemma sixes:
  fixes p :: nat
  shows "p div 64 * 64 + p mod 64 = p" "p div 4096 * 4096 + p div 64 mod 64 * 64 + p mod 64 = p"
    "p div 262144 * 262144 + p div 4096 mod 64 * 4096 + p div 64 mod 64 * 64 + p mod 64 = p"
proof -
  have a: "p div 64 * 64 + p mod 64 = p" by simp
  have b: "p div 4096 * 64 + p div 64 mod 64 = p div 64"
    using div_mult_mod_eq [of "p div 64" 64] by (simp add: div_mult2_eq [symmetric])
  have c: "p div 262144 * 64 + p div 4096 mod 64 = p div 4096"
    using div_mult_mod_eq [of "p div 4096" 64] by (simp add: div_mult2_eq [symmetric])
  show "p div 64 * 64 + p mod 64 = p" by (rule a)
  show "p div 4096 * 4096 + p div 64 mod 64 * 64 + p mod 64 = p" using a b by linarith
  show "p div 262144 * 262144 + p div 4096 mod 64 * 4096 + p div 64 mod 64 * 64 + p mod 64 = p" using a b c by linarith
qed

lemma continuation_six: "continuation (128 + n mod 64)"
  using mod_less_divisor [of 64 n] by (simp add: continuation_def)

lemma utf8_point: 
  assumes "scalar_value p"
  shows "utf8_points (utf8_of_point p @ bs) = map_option (Cons p) (utf8_points bs)"
proof -
  consider (1) "p < 128" | (2) "128 \<le> p" "p < 2048" | (3) "2048 \<le> p" "p < 65536" | (4) "65536 \<le> p" by linarith
  then show ?thesis
  proof cases
    case 2
    then have "2 \<le> p div 64" "p div 64 < 32" by auto
    then show ?thesis using 2 sixes(1) [of p] by (auto simp: utf8_of_point_def continuation_six)
  next
    case 3
    then have "p div 4096 < 16" by auto
    then show ?thesis using 3 assms sixes(2) [of p]
      by (auto simp: utf8_of_point_def scalar_value_def continuation_six Let_def)
  next
    case 4
    then have "p div 262144 < 5" using assms by (auto simp: scalar_value_def)
    then show ?thesis using 4 assms sixes(3) [of p]
      by (simp add: utf8_of_point_def scalar_value_def continuation_six Let_def)
  qed (simp add: utf8_of_point_def)
qed

lemma utf8_decodes: "list_all scalar_value ps \<Longrightarrow> utf8_points (concat (map utf8_of_point ps)) = Some ps"
  by (induction ps) (simp_all add: utf8_point)

section \<open>The bounded body\<close>

definition arrived :: "stream_item list \<Rightarrow> string" where
  \<comment> \<open>the bytes that arrive before the transport fails, or all of them\<close>
  "arrived items = concat (map (\<lambda>i. case i of Chunk c \<Rightarrow> c | Broken \<Rightarrow> []) (takeWhile (\<lambda>i. i \<noteq> Broken) items))"

lemma arrived_simps [simp]: "arrived [] = []" "arrived (Chunk c # items) = c @ arrived items" "arrived (Broken # items) = []"
  by (simp_all add: arrived_def)

lemma read_chunks_eq:
  "int (length body) \<le> limit \<Longrightarrow> read_chunks limit body items =
    (if limit < int (length body) + int (length (arrived items)) then Inl (LLMGenerationError ''ollama_response_too_large'')
     else if Broken \<in> set items then Inl (LLMGenerationError ''ollama_read_error'')
     else Inr (body @ arrived items))"
  by (induction limit body items rule: read_chunks.induct) auto

lemma body_read:
  assumes "0 \<le> limit"
  shows "read_bounded_response_body limit r =
    (case (case pr_content_length r of None \<Rightarrow> Inr 0 | Some h \<Rightarrow> text_int h) of
       Inl e \<Rightarrow> Inl (LLMGenerationError ''ollama_invalid_content_length'')
     | Inr n \<Rightarrow>
        if n < 0 then Inl (LLMGenerationError ''ollama_invalid_content_length'')
        else if limit < n \<or> limit < int (length (arrived (pr_body r)))
        then Inl (LLMGenerationError ''ollama_response_too_large'')
        else if Broken \<in> set (pr_body r) then Inl (LLMGenerationError ''ollama_read_error'')
        else Inr (arrived (pr_body r)))"
  using assms text_int_error
  by (auto simp: read_bounded_response_body_def read_chunks_eq res_except_def res_require_def
      split: option.split sum.split)

text \<open>The reply's body is accepted exactly when it arrives completely and has at most
  \<open>max_bytes\<close> bytes, however the transport cuts it into chunks, and is then returned unchanged; a longer one is
  refused as soon as it exceeds the limit, even if the transport would have failed later. A
  declared length is never trusted: it can only refuse a body, unread, that it declares too long.\<close>
theorem bounded_body_exact:
  assumes "0 \<le> limit"
  shows "read_bounded_response_body limit r =
    (case (case pr_content_length r of None \<Rightarrow> Inr 0 | Some h \<Rightarrow> text_int h) of
       Inl e \<Rightarrow> Inl (LLMGenerationError ''ollama_invalid_content_length'')
     | Inr n \<Rightarrow>
        if n < 0 then Inl (LLMGenerationError ''ollama_invalid_content_length'')
        else if limit < n \<or> limit < int (length (arrived (pr_body r)))
        then Inl (LLMGenerationError ''ollama_response_too_large'')
        else if Broken \<in> set (pr_body r) then Inl (LLMGenerationError ''ollama_read_error'')
        else Inr (arrived (pr_body r)))"
  by (rule body_read [OF assms])

lemma bounded_body_exact_witness:
  "read_bounded_response_body 4 \<lparr>pr_status = 200, pr_content_type = None, pr_content_length = Some ''2'',
     pr_body = [Chunk ''ab'', Chunk '''', Chunk ''cd'', Chunk ''e'', Broken]\<rparr> = Inl (LLMGenerationError ''ollama_response_too_large'')"
  unfolding bounded_body_exact [of 4, simplified] by code_simp

section \<open>The contract of the adapter\<close>

definition ollama_codes :: "string list" where
  "ollama_codes = [''ollama_timeout'', ''ollama_connection_error'', ''ollama_http_error'', ''ollama_invalid_content_type'',
     ''ollama_invalid_content_length'', ''ollama_response_too_large'', ''ollama_read_error'', ''ollama_invalid_utf8'',
     ''ollama_invalid_json'', ''ollama_invalid_response_shape'', ''ollama_empty_response'', ''ollama_response_too_long'']"

definition ollama_error :: "exn \<Rightarrow> bool" where
  "ollama_error e \<longleftrightarrow> (case e of LLMGenerationError c \<Rightarrow> c \<in> set ollama_codes | _ \<Rightarrow> False)"

lemma wire_item_error: "wire_item w k = Inl e \<Longrightarrow> lookup_failed e"
  by (cases w) (auto split: option.splits)

lemma message_content_error: "message_content w = Inl e \<Longrightarrow> e = LLMGenerationError ''ollama_invalid_response_shape''"
  by (auto simp: message_content_def res_bind_def res_except_def dest: wire_item_error split: sum.splits wire.splits if_splits)

lemma body_error:
  assumes "0 \<le> limit" and "read_bounded_response_body limit r = Inl e"
  shows "ollama_error e"
  using assms(2) unfolding body_read [OF assms(1)]
  by (auto simp: ollama_error_def ollama_codes_def split: sum.splits if_splits)

lemma decode_error: "decode_utf8 b = Inl e \<Longrightarrow> ollama_error e"
  by (auto simp: decode_utf8_def ollama_error_def ollama_codes_def split: option.splits)

lemma reply_error:
  assumes "0 \<le> ol_max_body_bytes c" and "read_reply c loads n r = Inl e" and "\<not> ollama_error e"
  shows "e \<noteq> JSONDecodeError \<and> (\<exists>body ps. read_bounded_response_body (ol_max_body_bytes c) r = Inr body
    \<and> decode_utf8 body = Inr ps \<and> loads ps = Inl e)"
proof -
  have own: "e \<noteq> LLMGenerationError x" if "x \<in> set ollama_codes" for x
    using assms(3) that by (auto simp: ollama_error_def)
  note lit = own [unfolded ollama_codes_def]
  show ?thesis
    using assms lit
    by (auto simp: read_reply_def res_bind_def res_require_def res_except_def Let_def
        dest: body_error decode_error message_content_error split: sum.splits if_splits)
qed

lemma reply_text:
  "read_reply c loads n r = Inr t \<longleftrightarrow> pr_status r = 200
    \<and> is_accepted_content_type (case pr_content_type r of None \<Rightarrow> '''' | Some ty \<Rightarrow> ty)
    \<and> (\<exists>body ps w x. read_bounded_response_body (ol_max_body_bytes c) r = Inr body \<and> decode_utf8 body = Inr ps
        \<and> loads ps = Inr w \<and> message_content w = Inr x \<and> t = py_strip x) \<and> t \<noteq> [] \<and> length t \<le> n"
  by (auto simp: read_reply_def res_bind_def res_require_def res_except_def Let_def split: sum.splits if_splits)

lemma accepted_media_type:
  "\<not> is_accepted_content_type ''''"
  "is_accepted_content_type ty \<Longrightarrow> py_lower (py_strip (hd (split_at (CHR '';'') ty))) = ''application/json''"
proof -
  show "\<not> is_accepted_content_type ''''" by code_simp
  have "split_at (CHR '';'') ty \<noteq> []" by (induction ty) (auto split: list.split)
  then show "is_accepted_content_type ty \<Longrightarrow> py_lower (py_strip (hd (split_at (CHR '';'') ty))) = ''application/json''"
    by (simp add: is_accepted_content_type_def Let_def hd_map)
qed

text \<open>C30: what the engine gets from the adapter: a text is returned only from a reply with status 200,
  an accepted content type (the header is there, its media type is \<open>application/json\<close>, and a charset, if any, is
  UTF-8) and a body within the limit that decodes to an object with a text under
  \<open>message.content\<close>; it is that text stripped, not empty and within the requested length. An exception is one of twelve
  \<open>LLMGenerationError\<close>s, or one that \<open>json.loads\<close> itself raised and that is not a
  \<open>JSONDecodeError\<close>, such as the \<open>ValueError\<close> for a number of more than 4300 digits or the
  \<open>RecursionError\<close> for deep nesting: the adapter lets these escape.\<close>
theorem ollama_contract:
  assumes "0 \<le> ol_max_body_bytes c"
  shows "case ollama_generate c post loads wording r of
      Inr t \<Rightarrow> t \<noteq> [] \<and> py_strip t = t \<and> length t \<le> gr_max_output r \<and>
        (\<exists>reply body ps w x. post (chat_of c wording r) = POST_REPLY reply \<and> pr_status reply = 200
          \<and> (\<exists>ty. pr_content_type reply = Some ty \<and> is_accepted_content_type ty
              \<and> py_lower (py_strip (hd (split_at (CHR '';'') ty))) = ''application/json'')
          \<and> read_bounded_response_body (ol_max_body_bytes c) reply = Inr body
          \<and> int (length body) \<le> ol_max_body_bytes c \<and> decode_utf8 body = Inr ps
          \<and> loads ps = Inr w \<and> message_content w = Inr x \<and> t = py_strip x)
    | Inl e \<Rightarrow> ollama_error e \<or> e \<noteq> JSONDecodeError \<and> (\<exists>reply body ps. post (chat_of c wording r) = POST_REPLY reply
          \<and> read_bounded_response_body (ol_max_body_bytes c) reply = Inr body
          \<and> decode_utf8 body = Inr ps \<and> loads ps = Inl e)"
proof (cases "post (chat_of c wording r)")
  case (POST_REPLY reply)
  have size: "int (length body) \<le> ol_max_body_bytes c"
    if "read_bounded_response_body (ol_max_body_bytes c) reply = Inr body" for body
    using that unfolding body_read [OF assms] by (auto split: sum.splits if_splits)
  have type: "\<exists>ty. pr_content_type reply = Some ty \<and> is_accepted_content_type ty
      \<and> py_lower (py_strip (hd (split_at (CHR '';'') ty))) = ''application/json''"
    if "is_accepted_content_type (case pr_content_type reply of None \<Rightarrow> '''' | Some ty \<Rightarrow> ty)"
    using that accepted_media_type by (cases "pr_content_type reply") auto
  show ?thesis
    using POST_REPLY reply_error [OF assms] size type
    by (auto simp: ollama_generate_def reply_text split: sum.split)
qed (simp_all add: ollama_generate_def ollama_error_def ollama_codes_def)

lemma ollama_contract_witness:
  "\<exists>r reply. ollama_generate (new_ollama ''http://localhost/'' ''m'') (\<lambda>q. POST_REPLY reply) (\<lambda>ps. Inl RecursionError) (\<lambda>ps. '''') r
     = Inl RecursionError \<and> (\<exists>body ps. read_bounded_response_body default_max_body_bytes reply = Inr body \<and> decode_utf8 body = Inr ps)"
proof -
  let ?c = "new_ollama ''http://localhost/'' ''m''"
  let ?reply = "\<lparr>pr_status = 200, pr_content_type = Some ''Application/JSON; charset=UTF-8'', pr_content_length = None,
    pr_body = [Chunk ''[[['']\<rparr>"
  let ?r = "\<lparr>gr_messages = [], gr_max_output = 10\<rparr>"
  have "0 \<le> ol_max_body_bytes ?c" by (simp add: new_ollama_def default_max_body_bytes_def)
  moreover have "ollama_generate ?c (\<lambda>q. POST_REPLY ?reply) (\<lambda>ps. Inl RecursionError) (\<lambda>ps. '''') ?r = Inl RecursionError"
    by code_simp
  ultimately show ?thesis
    using ollama_contract [where c = ?c and post = "\<lambda>q. POST_REPLY ?reply" and loads = "\<lambda>ps. Inl RecursionError"
        and wording = "\<lambda>ps. ''''" and r = ?r]
    by (auto simp: ollama_error_def new_ollama_def)
qed

section \<open>The bot over this adapter\<close>

lemma ollama_is_model:
  assumes "0 \<le> ol_max_body_bytes c" and "\<forall>ps e. loads ps = Inl e \<longrightarrow> e = JSONDecodeError"
  shows "model_contract (ollama_generate c post loads wording)"
proof -
  have "\<exists>x. e = LLMGenerationError x" if failed: "ollama_generate c post loads wording r = Inl e" for r e
  proof -
    have "ollama_error e"
    proof (rule ccontr)
      assume "\<not> ollama_error e"
      then obtain reply where "read_reply c loads (gr_max_output r) reply = Inl e"
        using failed by (auto simp: ollama_generate_def ollama_error_def ollama_codes_def split: post_result.splits)
      from reply_error [OF assms(1) this \<open>\<not> ollama_error e\<close>] assms(2) show False by blast
    qed
    then show ?thesis by (auto simp: ollama_error_def split: exn.splits)
  qed
  then show ?thesis by (simp add: model_contract_def)
qed

text \<open>The bot over the Ollama adapter, when the decoder rejects a malformed body only with
  \<open>JSONDecodeError\<close>: whatever the server sends, late or never, every message gets an answer other
  than the generic error, except for the personality answer that \<open>int()\<close> refuses.\<close>
theorem ollama_bot_always_answers:
  assumes "process_ok (s, m)" and "named_templates s"
    and "\<forall>ps e. loads ps = Inl e \<longrightarrow> e = JSONDecodeError"
    and "up_step p \<noteq> OB_PERSONALITY" and "sender_row msg s = Some p"
  shows "fst (handle_message (bot_application (ollama_generate (new_ollama host name) post loads wording) client f) msg (s, m))
    \<noteq> Went_Wrong_Reply"
proof -
  have "0 \<le> ol_max_body_bytes (new_ollama host name)" by (simp add: new_ollama_def default_max_body_bytes_def)
  from message_answered [OF assms(1,2) ollama_is_model [OF this assms(3)]] show ?thesis using assms(4,5) by auto
qed

lemma ollama_bot_always_answers_witness:
  "fst (handle_message (bot_application (ollama_generate (new_ollama ''http://localhost'' ''m'') (\<lambda>q. POST_TIMEOUT)
      (\<lambda>ps. Inl JSONDecodeError) (\<lambda>ps. '''')) None None) (hello ''good morning'') (sample_db OB_COMPLETE LOCK_NONE, Map.empty))
    \<noteq> Went_Wrong_Reply"
proof -
  have n: "named_templates (sample_db OB_COMPLETE LOCK_NONE)"
    by (simp add: named_templates_def sample_db_def sample_template_def nonblank_def py_space_def)
  show ?thesis
    by (rule ollama_bot_always_answers [OF sample_process_ok n _ _ sample_sender]) (simp_all add: sample_preferences_def)
qed

end
