(* ===== verification/Plugin_Base.thy ===== *)
theory Plugin_Base
  imports Consumers Chaster_Wire Ollama_Adapter "HOL-Library.Sublist"
begin

text \<open>
  The parts of the plugin framework one plugin consists of: its manifest
  (\<open>infrastructure/plugin_models.py\<close>), the fault boundary around its handlers
  (\<open>infrastructure/plugin_fault_boundary.py\<close>) and the narrow SDK it is given
  (\<open>infrastructure/plugin_sdk.py\<close>). The time a handler takes is a parameter, as the wall clock measures it.
\<close>

section \<open>Manifests\<close>

record plugin_manifest =
  pm_name :: string
  pm_version :: string
  pm_api_version :: string
  pm_min_core_version :: string
  pm_max_core_version :: "string option"
  pm_trust_tier :: string
  pm_reads :: "string list"
  pm_consumes :: "string list"
  pm_publishes :: "string list"
  pm_commands :: "string list"
  pm_owns_tables :: bool
  pm_config_keys :: "string list"

definition plugin_source :: "plugin_manifest \<Rightarrow> string" where
  "plugin_source m = ''plugin_'' @ pm_name m"

definition own_prefix :: "plugin_manifest \<Rightarrow> string" where
  "own_prefix m = ''plugin_'' @ pm_name m @ ''.''"

definition check_manifest :: "plugin_manifest \<Rightarrow> exn + plugin_manifest" where
  \<comment> \<open>\<open>__post_init__\<close>\<close>
  "check_manifest m =
     res_bind (res_require (list_all (prefix (own_prefix m)) (pm_publishes m)) InvalidPluginManifestError) (\<lambda>_.
     res_bind (res_require (pm_trust_tier m = ''first_party'') InvalidPluginManifestError) (\<lambda>_.
     Inr m))"

section \<open>Versions\<close>

fun tuple_le :: "int list \<Rightarrow> int list \<Rightarrow> bool" where
  \<comment> \<open>Python's order of tuples\<close>
  "tuple_le [] ys = True"
| "tuple_le (x # xs) [] = False"
| "tuple_le (x # xs) (y # ys) = (x < y \<or> x = y \<and> tuple_le xs ys)"

fun all_ints :: "string list \<Rightarrow> exn + int list" where
  "all_ints [] = Inr []"
| "all_ints (t # ts) = res_bind (text_int t) (\<lambda>i. res_bind (all_ints ts) (\<lambda>is. Inr (i # is)))"

definition parse_version :: "string \<Rightarrow> exn + int list" where
  "parse_version v = all_ints (split_at (CHR ''.'') v)"

definition version_at_least :: "string \<Rightarrow> string \<Rightarrow> exn + bool" where
  "version_at_least actual required =
     res_bind (parse_version actual) (\<lambda>a. res_bind (parse_version required) (\<lambda>r. Inr (tuple_le r a)))"

definition validate_compatibility :: "string \<Rightarrow> plugin_manifest \<Rightarrow> exn + bool" where
  "validate_compatibility core_version m =
     (if pm_trust_tier m \<noteq> ''first_party'' then Inr False
      else res_bind (version_at_least core_version (pm_min_core_version m)) (\<lambda>high.
        if \<not> high then Inr False
        else case pm_max_core_version m of
            None \<Rightarrow> Inr True
          | Some newest \<Rightarrow> version_at_least newest core_version))"

section \<open>The fault boundary\<close>

record fault_boundary =
  fb_plugin :: string
  fb_budget :: real
  fb_threshold :: int
  fb_window :: time
  fb_failures :: "time list"
  fb_disabled :: bool

definition default_execution_budget :: real where "default_execution_budget = 5"
definition default_failure_threshold :: int where "default_failure_threshold = 3"
definition default_failure_window :: time where "default_failure_window = 300 * second"

definition new_boundary :: "string \<Rightarrow> fault_boundary" where
  "new_boundary name = \<lparr>fb_plugin = name, fb_budget = default_execution_budget,
     fb_threshold = default_failure_threshold, fb_window = default_failure_window,
     fb_failures = [], fb_disabled = False\<rparr>"

datatype invocation_error = Is_Disabled | Raised exn | Over_Budget real

record 'a invocation =
  iv_succeeded :: bool
  iv_value :: "'a option"
  iv_error :: "invocation_error option"
  iv_slow :: bool
  iv_duration :: real

definition record_failure :: "time \<Rightarrow> fault_boundary \<Rightarrow> fault_boundary" where
  "record_failure now b =
     (let recent = filter (\<lambda>t. now - fb_window b \<le> t) (fb_failures b @ [now]) in
      b\<lparr>fb_failures := recent, fb_disabled := fb_disabled b \<or> fb_threshold b \<le> int (length recent)\<rparr>)"

definition fault_call ::
  "fault_boundary \<Rightarrow> real \<Rightarrow> ('s, 'a) op \<Rightarrow> time \<Rightarrow> 's \<Rightarrow> 'a invocation \<times> fault_boundary \<times> 's" where
  "fault_call b took handler now s =
     (if fb_disabled b
      then (\<lparr>iv_succeeded = False, iv_value = None, iv_error = Some Is_Disabled, iv_slow = False, iv_duration = 0\<rparr>, b, s)
      else case handler s of
          (Inl e, s') \<Rightarrow> (\<lparr>iv_succeeded = False, iv_value = None, iv_error = Some (Raised e), iv_slow = False,
             iv_duration = took\<rparr>, record_failure now b, s')
        | (Inr v, s') \<Rightarrow>
            if fb_budget b < took
            then (\<lparr>iv_succeeded = False, iv_value = Some v, iv_error = Some (Over_Budget (fb_budget b)), iv_slow = True,
              iv_duration = took\<rparr>, record_failure now b, s')
            else (\<lparr>iv_succeeded = True, iv_value = Some v, iv_error = None, iv_slow = False, iv_duration = took\<rparr>, b, s'))"

section \<open>The SDK\<close>

definition capability_methods :: "(string \<times> string list) list" where
  "capability_methods =
    [(''trust_manager.read'', [''get_domain_state'', ''get_incident_assessment'', ''get_confirmed_incidents_since'']),
     (''penalty_engine.read'', [''get_active_or_frozen_penalty_window'', ''get_authorization_freeze_state'',
        ''get_penalty_window_relevant_domains'']),
     (''recovery_plan.read'', [''get_recovery_task_completion'', ''get_recovery_task'', ''get_recovery_plan_for_window'',
        ''get_recovery_plan'']),
     (''goal_management.read'', [''get_goal'', ''get_goal_version'', ''get_change_proposal'',
        ''get_change_proposal_content''])]"

record plugin_sdk =
  sdk_manifest :: plugin_manifest
  sdk_values :: "(string \<times> string) list"
  sdk_methods :: "string list"

fun granted_methods :: "string list \<Rightarrow> string list \<Rightarrow> (string \<times> string list) list \<Rightarrow> exn + string list" where
  \<comment> \<open>the \<open>if\<close> statements of \<open>build_plugin_sdk\<close>; \<open>supplied\<close>: the capabilities whose module is not None\<close>
  "granted_methods reads supplied [] = Inr []"
| "granted_methods reads supplied ((capability, methods) # rest) =
     (if capability \<in> set reads
      then if capability \<in> set supplied
           then res_bind (granted_methods reads supplied rest) (\<lambda>ms. Inr (methods @ ms))
           else Inl ValueError
      else granted_methods reads supplied rest)"

definition build_plugin_sdk ::
  "plugin_manifest \<Rightarrow> (string \<times> string) list \<Rightarrow> string list \<Rightarrow> exn + plugin_sdk" where
  "build_plugin_sdk m values supplied =
     res_bind (granted_methods (pm_reads m) supplied capability_methods) (\<lambda>methods.
     Inr \<lparr>sdk_manifest = m, sdk_values = values,
       sdk_methods = [''publish_event'', ''publish_event_in_transaction''] @ methods\<rparr>)"

definition config_get :: "plugin_sdk \<Rightarrow> string \<Rightarrow> string option \<Rightarrow> exn + string option" where
  "config_get sdk key fallback =
     (if key \<notin> set (pm_config_keys (sdk_manifest sdk)) then Inl PluginCapabilityNotGrantedError
      else Inr (case map_of (sdk_values sdk) key of None \<Rightarrow> fallback | Some v \<Rightarrow> Some v))"

definition publish_event_allowlist_check :: "plugin_manifest \<Rightarrow> string \<Rightarrow> exn + unit" where
  "publish_event_allowlist_check m ty =
     res_bind (res_require (ty \<in> set (pm_publishes m)) PluginCapabilityNotGrantedError) (\<lambda>_.
     res_require (prefix (own_prefix m) ty) PluginCapabilityNotGrantedError)"

definition publish_event_in_transaction ::
  "plugin_sdk \<Rightarrow> string \<Rightarrow> payload \<Rightarrow> time \<Rightarrow> ('m outbox_db_scheme, unit) tx" where
  "publish_event_in_transaction sdk ty p now =
     tx_bind (tx_lift (publish_event_allowlist_check (sdk_manifest sdk) ty)) (\<lambda>_.
     emit ty (plugin_source (sdk_manifest sdk)) p now)"

definition publish_event ::
  "plugin_sdk \<Rightarrow> nat \<Rightarrow> string \<Rightarrow> payload \<Rightarrow> time \<Rightarrow> ('m outbox_db_scheme, unit) action" where
  \<comment> \<open>opens its own transaction in the calling thread\<close>
  "publish_event sdk th ty p now db =
     (case publish_event_allowlist_check (sdk_manifest sdk) ty of
        Inl e \<Rightarrow> (Inl e, db)
      | Inr _ \<Rightarrow> transaction th (execute th (atomically (emit ty (plugin_source (sdk_manifest sdk)) p now))) db)"

end
