(* ===== verification/Migrations.thy ===== *)
theory Migrations
  imports Ollama_Adapter
begin

text \<open>
  What the two migration passes share: \<open>apply_plugin_migrations\<close> (\<open>infrastructure/plugin_migrations.py\<close>)
  and \<open>Database.migrate\<close> (\<open>database/database.py\<close>) both run the files whose number exceeds the recorded
  version, in the order of their names. A file is a name with the operation SQLite performs for its script.
\<close>

definition file_version :: "string \<Rightarrow> exn + int" where
  \<comment> \<open>\<open>int(path.name.split(''_'')[0])\<close>\<close>
  "file_version file = text_int (hd (split_at (CHR ''_'') file))"

fun pending_files :: "int \<Rightarrow> (string \<times> 'script) list \<Rightarrow> exn + (int \<times> 'script) list" where
  "pending_files current [] = Inr []"
| "pending_files current ((file, script) # rest) =
     res_bind (file_version file) (\<lambda>v. res_bind (pending_files current rest) (\<lambda>ps.
     Inr (if current < v then (v, script) # ps else ps)))"

fun run_scripts :: "(int \<times> ('s, unit) op) list \<Rightarrow> ('s, int list) op" where
  "run_scripts [] = op_return []"
| "run_scripts ((v, script) # rest) = op_bind script (\<lambda>_. op_bind (run_scripts rest) (\<lambda>vs. op_return (v # vs)))"

section \<open>Which files are pending\<close>

lemma foldl_max: "x \<le> a \<or> x \<in> set xs \<Longrightarrow> x \<le> foldl max a xs" for a :: int
proof (induction xs arbitrary: a)
  case (Cons y xs)
  then have "x \<le> max a y \<or> x \<in> set xs" by auto
  from Cons.IH [OF this] show ?case by simp
qed simp
lemma pending_files_step:
  assumes "pending_files current ((f, script) # files) = Inr ps"
  shows "\<exists>v ps'. file_version f = Inr v \<and> pending_files current files = Inr ps'
    \<and> ps = (if current < v then (v, script) # ps' else ps')"
  using assms by (auto simp: res_bind_eq_Inr)

lemma pending_files_complete:
  assumes "pending_files current files = Inr ps" and "(f, script) \<in> set files"
  shows "\<exists>v. file_version f = Inr v \<and> (v \<le> current \<or> (v, script) \<in> set ps)"
  using assms
proof (induction files arbitrary: ps)
  case (Cons y files)
  obtain g sc where y: "y = (g, sc)" by (cases y)
  obtain v ps' where step: "file_version g = Inr v" "pending_files current files = Inr ps'"
      "ps = (if current < v then (v, sc) # ps' else ps')"
    using pending_files_step [OF Cons.prems(1) [unfolded y]] by blast
  show ?case
  proof (cases "(f, script) = (g, sc)")
    case False
    then have "(f, script) \<in> set files" using Cons.prems(2) y by auto
    from Cons.IH [OF step(2) this] step(3) show ?thesis by auto
  qed (use step in auto)
qed simp

lemma pending_files_sound:
  assumes "pending_files current files = Inr ps" and "(v, script) \<in> set ps"
  shows "current < v \<and> (\<exists>f. (f, script) \<in> set files \<and> file_version f = Inr v)"
  using assms
proof (induction files arbitrary: ps)
  case (Cons y files)
  obtain g sc where y: "y = (g, sc)" by (cases y)
  obtain w ps' where step: "file_version g = Inr w" "pending_files current files = Inr ps'"
      "ps = (if current < w then (w, sc) # ps' else ps')"
    using pending_files_step [OF Cons.prems(1) [unfolded y]] by blast
  then have "(v, script) = (w, sc) \<and> current < w \<or> (v, script) \<in> set ps'" using Cons.prems(2) by (auto split: if_splits)
  then show ?case using Cons.IH [OF step(2)] step(1) y by auto
qed simp

lemma nothing_pending:
  "list_all (\<lambda>f. \<exists>v. file_version (fst f) = Inr v \<and> v \<le> current) files \<Longrightarrow> pending_files current files = Inr []"
  by (induction files) (auto simp: res_bind_def)

lemma run_scripts_record:
  fixes log_of :: "'s \<Rightarrow> 'x list" and mark :: "int \<Rightarrow> 'x"
  assumes "run_scripts ps s = (Inr vs, s')"
    and "\<And>v script s s'. (v, script) \<in> set ps \<Longrightarrow> script s = (Inr (), s') \<Longrightarrow> log_of s' = log_of s @ [mark v]"
  shows "vs = map fst ps \<and> log_of s' = log_of s @ map mark vs"
  using assms
proof (induction ps arbitrary: s vs)
  case (Cons p ps)
  obtain v script where p: "p = (v, script)" by (cases p)
  obtain s1 ws where one: "script s = (Inr (), s1)" and rest: "run_scripts ps s1 = (Inr ws, s')" and vs: "vs = v # ws"
    using Cons.prems(1) p by (auto simp: op_bind_def op_return_def split: prod.splits sum.splits)
  have "log_of s1 = log_of s @ [mark v]" using Cons.prems(2) [of v script s s1] one p by simp
  moreover have "ws = map fst ps \<and> log_of s' = log_of s1 @ map mark ws"
    by (rule Cons.IH [OF rest]) (use Cons.prems(2) in auto)
  ultimately show ?case using vs p by simp
qed (simp add: op_return_def)

text \<open>A pass that has run what was pending leaves nothing pending, when the recorded versions are at most the new current one.\<close>

lemma nothing_left:
  assumes "pending_files current files = Inr ps" and "current \<le> current'" and "\<And>v. v \<in> fst ` set ps \<Longrightarrow> v \<le> current'"
  shows "pending_files current' files = Inr []"
proof (rule nothing_pending)
  show "list_all (\<lambda>f. \<exists>v. file_version (fst f) = Inr v \<and> v \<le> current') files"
    unfolding list_all_iff
  proof
    fix f assume "f \<in> set files"
    then obtain v where "file_version (fst f) = Inr v" "v \<le> current \<or> (v, snd f) \<in> set ps"
      using pending_files_complete [OF assms(1), of "fst f" "snd f"] by auto
    then show "\<exists>v. file_version (fst f) = Inr v \<and> v \<le> current'"
      using assms(2) assms(3) [of v] by force
  qed
qed

end
