(* ===== verification/Plugin_Registry.thy ===== *)
theory Plugin_Registry
  imports Plugin_Base Application Migrations
begin

text \<open>
  \<open>infrastructure/plugin_registry.py\<close> and \<open>infrastructure/plugin_migrations.py\<close>: discovery, validation and
  loading of the plugins, and the wrappers under which their handlers join the consumer registry and
  the command router. What \<open>importlib\<close> and the file system return for a plugin directory is data
  (\<open>plugin_dir\<close>); a migration script is the operation SQLite performs for it. The boundaries live in
  memory: a rollback does not undo what they recorded.
\<close>

section \<open>The plugin tables\<close>

record plugin_db = chaster_db +
  plugin_schema_versions :: "(string \<times> int) list"
  goal_celebration_log :: "(uid \<times> time) list"

section \<open>Migrations\<close>

type_synonym 'm script = "('m plugin_db_scheme, unit) op"

definition current_plugin_version :: "string \<Rightarrow> 'm plugin_db_scheme \<Rightarrow> int" where
  "current_plugin_version name s =
     (case map snd (filter (\<lambda>(n, v). n = name) (plugin_schema_versions s)) of
        [] \<Rightarrow> 0 | v # vs \<Rightarrow> foldl max v vs)"

definition apply_plugin_migrations ::
  "string \<Rightarrow> (string \<times> 'm script) list \<Rightarrow> ('m plugin_db_scheme, int list) op" where
  \<comment> \<open>an absent directory has no files\<close>
  "apply_plugin_migrations name files =
     op_bind (op_get (current_plugin_version name)) (\<lambda>current.
     op_bind (op_lift (pending_files current (sort_key fst files))) run_scripts)"

section \<open>What a plugin directory offers\<close>

type_synonym 'm plugin_handler = "claimed_event \<Rightarrow> ('m plugin_db_scheme, unit) tx"

type_synonym 'm plugin_command = "request_context \<Rightarrow> ('m plugin_db_scheme, app_reply) op"

record ('m, 'r) handlers_module =
  hm_event_consumers :: "(plugin_sdk \<Rightarrow> 'r option \<Rightarrow> exn + (string \<times> 'm plugin_handler) list) option"
  hm_commands :: "(plugin_sdk \<Rightarrow> 'r option \<Rightarrow> exn + (string \<times> string \<times> 'm plugin_command) list) option"

datatype manifest_import = Import_Failed | No_Manifest | Not_A_Manifest | Manifest plugin_manifest

definition declares :: "plugin_manifest \<Rightarrow> manifest_import" where
  \<comment> \<open>a module that constructs this manifest: the constructor's exception fails the import\<close>
  "declares m = (case check_manifest m of Inl e \<Rightarrow> Import_Failed | Inr m' \<Rightarrow> Manifest m')"

record ('m, 'r) plugin_dir =
  pd_name :: string
  pd_is_dir :: bool
  pd_has_manifest :: bool
  pd_manifest :: manifest_import
  pd_migrations :: "(string \<times> 'm script) list"
  pd_repository :: "exn + (exn + 'r) option"
  pd_handlers :: "exn + ('m, 'r) handlers_module"

section \<open>Discovery and validation\<close>

definition discover :: "('m, 'r) plugin_dir list \<Rightarrow> ('m, 'r) plugin_dir list" where
  "discover entries = sort_key pd_name
     (filter (\<lambda>d. pd_is_dir d \<and> pd_has_manifest d \<and> \<not> prefix ''_'' (pd_name d)) entries)"

definition load_manifest :: "('m, 'r) plugin_dir \<Rightarrow> exn + plugin_manifest" where
  "load_manifest d = (case pd_manifest d of
      Manifest m \<Rightarrow> if pm_name m \<noteq> pd_name d then Inl PluginConventionError else Inr m
    | _ \<Rightarrow> Inl PluginConventionError)"

section \<open>The wrappers\<close>

definition wrapped_event_consumer ::
  "fault_boundary \<Rightarrow> real \<Rightarrow> (claimed_event \<Rightarrow> ('s, unit) tx) \<Rightarrow> claimed_event \<Rightarrow> ('s, unit) tx" where
  "wrapped_event_consumer b took handler e s =
     (case fault_call b took (atomically (handler e)) (ce_occurred_at e) s of
        (result, b', s') \<Rightarrow> if iv_succeeded result then Inr ((), s') else Inl RuntimeError)"

definition boundary_after ::
  "fault_boundary \<Rightarrow> real \<Rightarrow> (claimed_event \<Rightarrow> ('s, unit) tx) \<Rightarrow> claimed_event \<Rightarrow> 's \<Rightarrow> fault_boundary" where
  "boundary_after b took handler e s = fst (snd (fault_call b took (atomically (handler e)) (ce_occurred_at e) s))"

definition consume_plugin_event ::
  "fault_boundary \<Rightarrow> real \<Rightarrow> claimed_event \<Rightarrow> string \<Rightarrow> (claimed_event \<Rightarrow> ('m outbox_db_scheme, unit) tx)
     \<Rightarrow> time \<Rightarrow> 'm outbox_db_scheme \<Rightarrow> (exn + bool) \<times> fault_boundary \<times> 'm outbox_db_scheme" where
  \<comment> \<open>\<open>consume_event\<close> of a wrapped handler; the handler is not called on a redelivery\<close>
  "consume_plugin_event b took e consumer handler now s =
     (case consume_event e consumer (wrapped_event_consumer b took handler e) now s of
        (r, s') \<Rightarrow> (r, if processed (ce_id e) consumer s then b else boundary_after b took handler e s, s'))"

definition wrapped_command_handler ::
  "fault_boundary \<Rightarrow> real \<Rightarrow> 'm plugin_command \<Rightarrow> request_context \<Rightarrow> 'm plugin_db_scheme
     \<Rightarrow> app_reply \<times> fault_boundary \<times> 'm plugin_db_scheme" where
  "wrapped_command_handler b took handler ctx s =
     (case fault_call b took (handler ctx) (rc_now ctx) s of
        (result, b', s') \<Rightarrow> (case iv_value result of
           Some reply \<Rightarrow> (if iv_succeeded result then reply else Went_Wrong_Reply, b', s')
         | None \<Rightarrow> (Went_Wrong_Reply, b', s')))"

section \<open>Loading\<close>

datatype 'm bot_consumer = Core_Consumer "'m plugin_handler" | Plugin_Consumer string "'m plugin_handler"

datatype 'm bot_command = Core_Command command | Plugin_Command string "'m plugin_command"

text \<open>The process the plugins are loaded into.\<close>

record 'm plugin_host =
  ph_registry :: "(string \<times> (string \<times> 'm bot_consumer) list) list"
  ph_router :: "'m bot_command router"
  ph_boundaries :: "string \<Rightarrow> fault_boundary"
  ph_db :: "'m plugin_db_scheme"

record registry_config =
  rg_core_version :: string
  rg_values :: "(string \<times> (string \<times> string) list) list"
  rg_supplied :: "string list"

definition core_version :: string where "core_version = ''1.0''"

record 'r loaded_plugin =
  lp_manifest :: plugin_manifest
  lp_sdk :: plugin_sdk
  lp_repo :: "'r option"

definition load_repository ::
  "('m, 'r) plugin_dir \<Rightarrow> plugin_manifest \<Rightarrow> ('m plugin_db_scheme, 'r option) op" where
  "load_repository d m =
     (if \<not> pm_owns_tables m then op_return None
      else op_bind (apply_plugin_migrations (pm_name m) (pd_migrations d)) (\<lambda>_.
        case pd_repository d of
          Inl e \<Rightarrow> op_raise PluginConventionError
        | Inr None \<Rightarrow> op_raise PluginConventionError
        | Inr (Some built) \<Rightarrow> op_bind (op_lift built) (\<lambda>r. op_return (Some r))))"

definition provided ::
  "string list \<Rightarrow> (plugin_sdk \<Rightarrow> 'r option \<Rightarrow> exn + (string \<times> 'h) list) option \<Rightarrow> plugin_sdk \<Rightarrow> 'r option
     \<Rightarrow> exn + (string \<times> 'h) list" where
  \<comment> \<open>\<open>build_event_consumers\<close> or \<open>build_commands\<close>, called when the manifest declares any\<close>
  "provided declared build sdk repo =
     (if declared = [] then Inr []
      else case build of
          None \<Rightarrow> Inl PluginConventionError
        | Some f \<Rightarrow> res_bind (f sdk repo) (\<lambda>hs.
            res_bind (res_require (list_all (\<lambda>k. k \<in> fst ` set hs) declared) PluginConventionError) (\<lambda>_. Inr hs)))"

definition load_handlers ::
  "registry_config \<Rightarrow> ('m, 'r) plugin_dir \<Rightarrow> plugin_manifest \<Rightarrow> 'r option
     \<Rightarrow> exn + plugin_sdk \<times> (string \<times> 'm plugin_handler) list \<times> (string \<times> string \<times> 'm plugin_command) list" where
  "load_handlers cfg d m repo =
     res_bind (build_plugin_sdk m (case map_of (rg_values cfg) (pm_name m) of None \<Rightarrow> [] | Some vs \<Rightarrow> vs) (rg_supplied cfg)) (\<lambda>sdk.
     res_bind (case pd_handlers d of Inl e \<Rightarrow> Inl PluginConventionError | Inr hm \<Rightarrow> Inr hm) (\<lambda>hm.
     res_bind (provided (pm_consumes m) (hm_event_consumers hm) sdk repo) (\<lambda>consumers.
     res_bind (provided (pm_commands m) (hm_commands hm) sdk repo) (\<lambda>commands.
     Inr (sdk, consumers, commands)))))"

definition register_consumers ::
  "plugin_manifest \<Rightarrow> (string \<times> 'm plugin_handler) list \<Rightarrow> (string \<times> (string \<times> 'm bot_consumer) list) list
     \<Rightarrow> (string \<times> (string \<times> 'm bot_consumer) list) list" where
  "register_consumers m consumers reg =
     fold (\<lambda>ty. register ty (plugin_source m) (Plugin_Consumer (pm_name m) (the (map_of consumers ty)))) (pm_consumes m) reg"

definition register_commands ::
  "plugin_manifest \<Rightarrow> (string \<times> string \<times> 'm plugin_command) list \<Rightarrow> 'm bot_command router \<Rightarrow> 'm bot_command router" where
  "register_commands m commands router =
     fold (\<lambda>c. case the (map_of commands c) of (description, h) \<Rightarrow>
       register_command c description (Plugin_Command (pm_name m) h)) (pm_commands m) router"

definition load_plugin ::
  "registry_config \<Rightarrow> ('m, 'r) plugin_dir \<Rightarrow> plugin_manifest \<Rightarrow> 'm plugin_host
     \<Rightarrow> (exn + 'r loaded_plugin) \<times> 'm plugin_host" where
  "load_plugin cfg d m h =
     (case load_repository d m (ph_db h) of
        (Inl e, s) \<Rightarrow> (Inl e, h\<lparr>ph_db := s\<rparr>)
      | (Inr repo, s) \<Rightarrow>
          (case load_handlers cfg d m repo of
             Inl e \<Rightarrow> (Inl e, h\<lparr>ph_db := s\<rparr>)
           | Inr (sdk, consumers, commands) \<Rightarrow>
               (Inr \<lparr>lp_manifest = m, lp_sdk = sdk, lp_repo = repo\<rparr>,
                h\<lparr>ph_registry := register_consumers m consumers (ph_registry h),
                  ph_router := register_commands m commands (ph_router h),
                  ph_boundaries := (ph_boundaries h)(pm_name m := new_boundary (pm_name m)), ph_db := s\<rparr>)))"

datatype load_reason = Manifest_Error exn | Incompatible | Load_Error exn

type_synonym 'r load_result = "'r loaded_plugin list \<times> (string \<times> load_reason) list"

definition also_loaded :: "'r loaded_plugin \<Rightarrow> exn + 'r load_result \<Rightarrow> exn + 'r load_result" where
  "also_loaded p r = res_bind r (\<lambda>(ps, fs). Inr (p # ps, fs))"

definition also_failed :: "string \<times> load_reason \<Rightarrow> exn + 'r load_result \<Rightarrow> exn + 'r load_result" where
  "also_failed f r = res_bind r (\<lambda>(ps, fs). Inr (ps, f # fs))"

fun load_each ::
  "registry_config \<Rightarrow> ('m, 'r) plugin_dir list \<Rightarrow> 'm plugin_host \<Rightarrow> (exn + 'r load_result) \<times> 'm plugin_host" where
  "load_each cfg [] h = (Inr ([], []), h)"
| "load_each cfg (d # ds) h =
     (case load_manifest d of
        Inl e \<Rightarrow> (case load_each cfg ds h of (r, h') \<Rightarrow> (also_failed (pd_name d, Manifest_Error e) r, h'))
      | Inr m \<Rightarrow>
          (case validate_compatibility (rg_core_version cfg) m of
             Inl e \<Rightarrow> (Inl e, h)
           | Inr compatible \<Rightarrow>
               if \<not> compatible
               then (case load_each cfg ds h of (r, h') \<Rightarrow> (also_failed (pm_name m, Incompatible) r, h'))
               else (case load_plugin cfg d m h of
                   (Inl e, h1) \<Rightarrow> (case load_each cfg ds h1 of (r, h') \<Rightarrow> (also_failed (pm_name m, Load_Error e) r, h'))
                 | (Inr p, h1) \<Rightarrow> (case load_each cfg ds h1 of (r, h') \<Rightarrow> (also_loaded p r, h')))))"

definition load_all ::
  "registry_config \<Rightarrow> ('m, 'r) plugin_dir list \<Rightarrow> 'm plugin_host \<Rightarrow> (exn + 'r load_result) \<times> 'm plugin_host" where
  "load_all cfg entries h = load_each cfg (discover entries) h"

section \<open>Dispatch to wrapped handlers\<close>

text \<open>\<open>ConsumerRegistry.dispatch\<close> with the boundaries the wrappers close over; \<open>took\<close> is the time a plugin's handler takes.\<close>

fun dispatch_wrapped ::
  "(string \<Rightarrow> real) \<Rightarrow> (string \<times> 'm bot_consumer) list \<Rightarrow> claimed_event \<Rightarrow> time
     \<Rightarrow> (string \<Rightarrow> fault_boundary) \<times> 'm plugin_db_scheme \<Rightarrow> nat \<times> (string \<Rightarrow> fault_boundary) \<times> 'm plugin_db_scheme" where
  "dispatch_wrapped took [] e now (bs, s) = (0, bs, s)"
| "dispatch_wrapped took ((c, Core_Consumer h) # rs) e now (bs, s) =
     (case consume_event e c (h e) now s of
        (Inl _, s') \<Rightarrow> dispatch_wrapped took rs e now (bs, s')
      | (Inr did_run, s') \<Rightarrow> (case dispatch_wrapped took rs e now (bs, s') of
          (n, rest) \<Rightarrow> ((if did_run then Suc n else n), rest)))"
| "dispatch_wrapped took ((c, Plugin_Consumer p h) # rs) e now (bs, s) =
     (case consume_plugin_event (bs p) (took p) e c h now s of
        (Inl _, b, s') \<Rightarrow> dispatch_wrapped took rs e now (bs(p := b), s')
      | (Inr did_run, b, s') \<Rightarrow> (case dispatch_wrapped took rs e now (bs(p := b), s') of
          (n, rest) \<Rightarrow> ((if did_run then Suc n else n), rest)))"

end
