(* ===== verification/Goal_Celebration.thy ===== *)
theory Goal_Celebration
  imports Plugin_Registry
begin

text \<open>
  \<open>plugins/goal_celebration\<close>: the plugin that comes with the bot. It reacts to \<open>goal.completed\<close>,
  records the celebration in its own table and announces it.
\<close>

definition goal_celebration_manifest :: plugin_manifest where
  "goal_celebration_manifest = \<lparr>pm_name = ''goal_celebration'', pm_version = ''0.1.0'', pm_api_version = ''1.0'',
     pm_min_core_version = ''1.0'', pm_max_core_version = None, pm_trust_tier = ''first_party'',
     pm_reads = [''goal_management.read''], pm_consumes = [''goal.completed''],
     pm_publishes = [''plugin_goal_celebration.sent''], pm_commands = [], pm_owns_tables = True, pm_config_keys = []\<rparr>"

definition has_been_celebrated_in_transaction :: "uid \<Rightarrow> ('m plugin_db_scheme, bool) tx" where
  "has_been_celebrated_in_transaction i = tx_get (\<lambda>s. i \<in> fst ` set (goal_celebration_log s))"

definition mark_celebrated_in_transaction :: "uid \<Rightarrow> time \<Rightarrow> ('m plugin_db_scheme, unit) tx" where
  \<comment> \<open>\<open>INSERT OR IGNORE\<close>\<close>
  "mark_celebrated_in_transaction i now = tx_modify (\<lambda>s.
     if i \<in> fst ` set (goal_celebration_log s) then s
     else s\<lparr>goal_celebration_log := goal_celebration_log s @ [(i, now)]\<rparr>)"

definition on_goal_completed :: "plugin_sdk \<Rightarrow> claimed_event \<Rightarrow> ('m plugin_db_scheme, unit) tx" where
  "on_goal_completed sdk e =
     tx_bind (tx_lift (res_bind (payload_item (ce_payload e) ''goal_group_id'') json_id)) (\<lambda>goal.
     tx_bind (has_been_celebrated_in_transaction goal) (\<lambda>celebrated.
     if celebrated then tx_return ()
     else tx_bind (mark_celebrated_in_transaction goal (ce_occurred_at e)) (\<lambda>_.
          publish_event_in_transaction sdk ''plugin_goal_celebration.sent'' [(''goal_group_id'', JId goal)] (ce_occurred_at e))))"

definition build_event_consumers ::
  "plugin_sdk \<Rightarrow> unit option \<Rightarrow> exn + (string \<times> 'm plugin_handler) list" where
  "build_event_consumers sdk repo = Inr [(''goal.completed'', on_goal_completed sdk)]"

definition build_commands ::
  "plugin_sdk \<Rightarrow> unit option \<Rightarrow> exn + (string \<times> string \<times> 'm plugin_command) list" where
  "build_commands sdk repo = Inr []"

definition goal_celebration_migration :: "'m script" where
  \<comment> \<open>\<open>001_goal_celebration_log.sql\<close>: the table is part of \<open>plugin_db\<close>; the primary key refuses a second row\<close>
  "goal_celebration_migration = atomically
     (tx_bind (tx_get (\<lambda>s. (''goal_celebration'', 1) \<in> set (plugin_schema_versions s))) (\<lambda>applied.
      tx_bind (tx_require (\<not> applied) IntegrityError) (\<lambda>_.
      tx_modify (\<lambda>s. s\<lparr>plugin_schema_versions := plugin_schema_versions s @ [(''goal_celebration'', 1)]\<rparr>))))"

definition goal_celebration_dir :: "('m, unit) plugin_dir" where
  "goal_celebration_dir = \<lparr>pd_name = ''goal_celebration'', pd_is_dir = True, pd_has_manifest = True,
     pd_manifest = declares goal_celebration_manifest,
     pd_migrations = [(''001_goal_celebration_log.sql'', goal_celebration_migration)],
     pd_repository = Inr (Some (Inr ())),
     pd_handlers = Inr \<lparr>hm_event_consumers = Some build_event_consumers, hm_commands = Some build_commands\<rparr>\<rparr>"

end
