(* ===== verification/Plugin_Properties.thy ===== *)
theory Plugin_Properties
  imports Goal_Celebration User_Sample
begin

text \<open>
  What the plugin framework guarantees: when the circuit breaker of a plugin trips, what a failed
  delivery leaves behind, what loading registers, what a plugin may publish, and that the plugin that
  comes with the bot celebrates each goal once.
\<close>

section \<open>The circuit breaker\<close>

text \<open>
  A sequence of calls through one boundary; the third component lists when calls failed. A call of an
  enabled boundary fails when its handler raises or takes longer than five seconds, whatever
  the boundary reports of it.
\<close>

definition call_fails :: "real \<Rightarrow> ('s, 'a) op \<Rightarrow> 's \<Rightarrow> bool" where
  "call_fails took h s \<longleftrightarrow> (\<exists>e. fst (h s) = Inl e) \<or> 5 < took"

fun run_calls :: "fault_boundary \<Rightarrow> (real \<times> ('s, 'a) op \<times> time) list \<Rightarrow> 's \<Rightarrow> fault_boundary \<times> 's \<times> time list" where
  "run_calls b [] s = (b, s, [])"
| "run_calls b ((took, h, now) # cs) s =
     (case fault_call b took h now s of (r, b1, s1) \<Rightarrow>
      case run_calls b1 cs s1 of (b2, s2, ts) \<Rightarrow>
        (b2, s2, if \<not> fb_disabled b \<and> call_fails took h s then now # ts else ts))"

lemma fault_call_boundary:
  "fault_call b took h now s = (r, b1, s1) \<Longrightarrow> fb_budget b = 5 \<Longrightarrow>
   b1 = (if \<not> fb_disabled b \<and> call_fails took h s then record_failure now b else b)"
  by (auto simp: fault_call_def call_fails_def split: prod.splits sum.splits if_splits)

lemma run_calls_boundary:
  "run_calls b cs s = (b', s', ts) \<Longrightarrow> fb_budget b = 5 \<Longrightarrow> b' = fold record_failure ts b"
proof (induction b cs s arbitrary: b' s' ts rule: run_calls.induct)
  case (2 b took h now cs s)
  obtain r b1 s1 where c: "fault_call b took h now s = (r, b1, s1)" by (metis prod_cases3)
  obtain b2 s2 us where rest: "run_calls b1 cs s1 = (b2, s2, us)" by (metis prod_cases3)
  note b1 = fault_call_boundary [OF c "2.prems"(2)]
  then have "fb_budget b1 = 5" using "2.prems"(2) by (simp add: record_failure_def Let_def)
  with "2.IH" [OF c [symmetric] _ _] rest have "b2 = fold record_failure us b1" by simp
  then show ?case using "2.prems"(1) c rest b1 by (auto split: if_splits)
qed simp

lemma filter_sorted_count:
  fixes ts :: "int list"
  assumes "sorted ts" and "0 < n"
  shows "n \<le> length (filter (\<lambda>t. c \<le> t) ts) \<longleftrightarrow> n \<le> length ts \<and> c \<le> ts ! (length ts - n)"
  using assms(1)
proof (induction ts)
  case (Cons x xs)
  show ?case
  proof (cases "c \<le> x")
    case True
    then have "c \<le> y" if "y \<in> set (x # xs)" for y using Cons.prems that by auto
    then have "filter (\<lambda>t. c \<le> t) (x # xs) = x # xs" by (simp add: filter_id_conv)
    moreover have "c \<le> (x # xs) ! (length (x # xs) - n)"
      by (rule \<open>\<And>y. y \<in> set (x # xs) \<Longrightarrow> c \<le> y\<close>, rule nth_mem) (use assms(2) in simp)
    ultimately show ?thesis by simp
  next
    case False
    have "length (filter (\<lambda>t. c \<le> t) xs) \<le> length xs" by simp
    then show ?thesis using Cons False assms(2)
      by (cases "n \<le> length xs") (auto simp: Suc_diff_le nth_Cons')
  qed
qed (use assms(2) in simp)

lemma boundary_fields:
  "fb_window (fold record_failure ts b) = fb_window b" "fb_threshold (fold record_failure ts b) = fb_threshold b"
  "fb_budget (fold record_failure ts b) = fb_budget b"
  by (induction ts arbitrary: b) (simp_all add: record_failure_def Let_def)

lemma record_failure_fields:
  "fb_failures (record_failure now b) = filter (\<lambda>t. now - fb_window b \<le> t) (fb_failures b @ [now])"
  "fb_disabled (record_failure now b) \<longleftrightarrow> fb_disabled b
    \<or> fb_threshold b \<le> int (length (filter (\<lambda>t. now - fb_window b \<le> t) (fb_failures b @ [now])))"
  by (simp_all add: record_failure_def Let_def)

lemma recent_failures:
  assumes "sorted ts" and "fb_failures b = []" and "ts \<noteq> []"
  shows "fb_failures (fold record_failure ts b) = filter (\<lambda>t. last ts - fb_window b \<le> t) ts"
  using assms
proof (induction ts rule: rev_induct)
  case (snoc now ts)
  show ?case
  proof (cases "ts = []")
    case False
    then have now: "last ts \<le> now" and ih: "fb_failures (fold record_failure ts b) = filter (\<lambda>t. last ts - fb_window b \<le> t) ts"
      using snoc by (simp_all add: sorted_append)
    have "filter (\<lambda>t. now - fb_window b \<le> t) (filter (\<lambda>t. last ts - fb_window b \<le> t) ts) = filter (\<lambda>t. now - fb_window b \<le> t) ts"
      unfolding filter_filter by (rule filter_cong) (use now in auto)
    then show ?thesis by (simp add: record_failure_fields boundary_fields ih)
  qed (use snoc.prems in \<open>simp add: record_failure_fields\<close>)
qed simp

lemma tripped:
  assumes "sorted ts" and "fb_failures b = []" and "\<not> fb_disabled b" and n: "fb_threshold b = int (Suc n)"
  shows "fb_disabled (fold record_failure ts b) \<longleftrightarrow> (\<exists>k. k + n < length ts \<and> ts ! (k + n) - ts ! k \<le> fb_window b)"
  using assms(1)
proof (induction ts rule: rev_induct)
  case (snoc now ts)
  let ?b = "fold record_failure ts b" and ?us = "ts @ [now]"
  have recent: "filter (\<lambda>t. now - fb_window b \<le> t) (fb_failures ?b @ [now]) = filter (\<lambda>t. now - fb_window b \<le> t) ?us"
    using recent_failures [OF snoc.prems assms(2)] by (simp add: record_failure_fields boundary_fields)
  have "Suc n \<le> length (filter (\<lambda>t. now - fb_window b \<le> t) ?us)
      \<longleftrightarrow> n \<le> length ts \<and> now - ?us ! (length ts - n) \<le> fb_window b"
    using filter_sorted_count [OF snoc.prems, of "Suc n" "now - fb_window b"] by auto
  then have "fb_disabled (record_failure now ?b)
      \<longleftrightarrow> fb_disabled ?b \<or> n \<le> length ts \<and> now - ?us ! (length ts - n) \<le> fb_window b"
    by (simp add: record_failure_fields boundary_fields n recent del: filter_append) linarith
  moreover have "(\<exists>k. k + n < length ?us \<and> ?us ! (k + n) - ?us ! k \<le> fb_window b) \<longleftrightarrow>
      (\<exists>k. k + n < length ts \<and> ts ! (k + n) - ts ! k \<le> fb_window b)
      \<or> n \<le> length ts \<and> now - ?us ! (length ts - n) \<le> fb_window b"
  proof -
    have "k + n < length ?us \<and> ?us ! (k + n) - ?us ! k \<le> fb_window b \<longleftrightarrow>
        k + n < length ts \<and> ts ! (k + n) - ts ! k \<le> fb_window b
        \<or> k = length ts - n \<and> n \<le> length ts \<and> now - ?us ! (length ts - n) \<le> fb_window b" for k
    proof (cases "k + n < length ts")
      case False
      show ?thesis
      proof (cases "k + n = length ts")
        case True
        then have "k = length ts - n" "n \<le> length ts" by auto
        then show ?thesis using True by (simp add: nth_append)
      qed (use False in auto)
    qed (auto simp: nth_append)
    then show ?thesis by auto
  qed
  ultimately show ?case using snoc by (simp add: sorted_append)
qed (use assms(3) in simp)

text \<open>C31: the circuit breaker of a new boundary, when time does not go back: whatever is called,
  however long it takes, the plugin is disabled exactly when three of its calls failed within five
  minutes (a call fails when its handler raises or takes more than five seconds). A call reports success
  exactly when the plugin is enabled and the call does not fail; and a disabled plugin is not called any
  more, so nothing of it can change the state, and it stays disabled.\<close>
theorem breaker_trips_on_three_failures:
  assumes "run_calls (new_boundary name) cs s = (b, s', ts)" and "sorted ts"
  shows "(fb_disabled b \<longleftrightarrow> (\<exists>k. k + 2 < length ts \<and> ts ! (k + 2) - ts ! k \<le> 5 * minute))
    \<and> (\<forall>took h now s. iv_succeeded (fst (fault_call b took h now s)) \<longleftrightarrow>
          \<not> fb_disabled b \<and> (\<exists>v. fst (h s) = Inr v) \<and> took \<le> 5)
    \<and> (fb_disabled b \<longrightarrow> (\<forall>took h now s. snd (fault_call b took h now s) = (b, s)))"
proof -
  have five: "fb_budget (new_boundary name) = 5" by (simp add: new_boundary_def default_execution_budget_def)
  note b = run_calls_boundary [OF assms(1) five]
  then have "fb_budget b = 5" using five by (simp add: boundary_fields)
  then have reports: "iv_succeeded (fst (fault_call b took h now s)) \<longleftrightarrow>
      \<not> fb_disabled b \<and> (\<exists>v. fst (h s) = Inr v) \<and> took \<le> 5" for took and h :: "('x, 'y) op" and now s
    by (auto simp: fault_call_def split: prod.split sum.split)
  have "fb_disabled b \<longleftrightarrow> (\<exists>k. k + 2 < length ts \<and> ts ! (k + 2) - ts ! k \<le> 5 * minute)"
    using b tripped [OF assms(2), of "new_boundary name" 2]
    by (simp add: new_boundary_def default_failure_threshold_def default_failure_window_def time_units)
  moreover have "snd (fault_call b took h now s) = (b, s)" if "fb_disabled b" for took and h :: "('x, 'y) op" and now s
    using that by (simp add: fault_call_def)
  ultimately show ?thesis using reports by (intro conjI allI impI)
qed

lemma breaker_trips_on_three_failures_witness:
  "\<exists>b s ts. run_calls (new_boundary ''p'') [(0, op_raise ValueError, 0), (0, op_return (), minute),
      (6, op_return (), 2 * minute), (0, op_raise TypeError, 5 * minute)] () = (b, s, ts)
    \<and> ts = [0, 2 * minute, 5 * minute] \<and> fb_disabled b"
proof -
  obtain b s ts where r: "run_calls (new_boundary ''p'') [(0, op_raise ValueError, 0), (0, op_return (), minute),
      (6, op_return (), 2 * minute), (0, op_raise TypeError, 5 * minute)] () = (b, s, ts)"
    by (metis prod_cases3)
  then have ts: "ts = [0, 2 * minute, 5 * minute]"
    by (simp add: fault_call_def call_fails_def op_raise_def op_return_def new_boundary_def record_failure_def Let_def
        default_failure_threshold_def default_execution_budget_def default_failure_window_def time_units)
  then have s: "sorted ts" and three: "0 + 2 < length ts \<and> ts ! (0 + 2) - ts ! 0 \<le> 5 * minute" by (simp_all add: time_units)
  have "\<exists>k. k + 2 < length ts \<and> ts ! (k + 2) - ts ! k \<le> 5 * minute" by (rule exI [of _ 0]) (rule three)
  then have "fb_disabled b" by (rule iffD2 [OF conjunct1 [OF breaker_trips_on_three_failures [OF r s]]])
  then show ?thesis using r ts by blast
qed

section \<open>Deliveries\<close>

lemma wrapped_eq:
  "wrapped_event_consumer b took h e s =
    (if fb_disabled b then Inl RuntimeError else case h e s of Inl x \<Rightarrow> Inl RuntimeError
     | Inr (u, s') \<Rightarrow> if fb_budget b < took then Inl RuntimeError else Inr ((), s'))"
  by (auto simp: wrapped_event_consumer_def fault_call_def atomically_def split: sum.split prod.split)

lemma boundary_after_eq:
  "boundary_after b took h e s =
    (if fb_disabled b then b else case h e s of Inl x \<Rightarrow> record_failure (ce_occurred_at e) b
     | Inr (u, s') \<Rightarrow> if fb_budget b < took then record_failure (ce_occurred_at e) b else b)"
  by (auto simp: boundary_after_def fault_call_def atomically_def split: sum.split prod.split)

lemma plugin_delivery:
  "consume_plugin_event b took e c h now s =
    (if processed (ce_id e) c s then (Inr False, b, s)
     else if fb_disabled b then (Inl RuntimeError, b, s)
     else case h e s of
         Inl x \<Rightarrow> (Inl RuntimeError, record_failure (ce_occurred_at e) b, s)
       | Inr _ \<Rightarrow> if fb_budget b < took then (Inl RuntimeError, record_failure (ce_occurred_at e) b, s)
           else (case consume_event e c (h e) now s of (r, s') \<Rightarrow> (r, b, s')))"
  by (auto simp: consume_plugin_event_def consume_event_eq wrapped_eq boundary_after_eq split: sum.split prod.split)

text \<open>C32: a delivery to a plugin's consumer, on every branch: a redelivery is absorbed; a disabled
  plugin, an exception and a handler that took longer than its budget all end in \<open>RuntimeError\<close>, with the
  database as it was, the event not marked as consumed, and the failure recorded outside the
  transaction; otherwise the delivery is exactly that of the bare handler. So the work of a
  handler that succeeded but was slow is rolled back.\<close>
theorem plugin_delivery_outcomes:
  "consume_plugin_event b took e c h now s =
    (if processed (ce_id e) c s then (Inr False, b, s)
     else if fb_disabled b then (Inl RuntimeError, b, s)
     else case h e s of
         Inl x \<Rightarrow> (Inl RuntimeError, record_failure (ce_occurred_at e) b, s)
       | Inr _ \<Rightarrow> if fb_budget b < took then (Inl RuntimeError, record_failure (ce_occurred_at e) b, s)
           else (case consume_event e c (h e) now s of (r, s') \<Rightarrow> (r, b, s')))"
  by (rule plugin_delivery)

section \<open>Loading\<close>

definition version_error :: "registry_config \<Rightarrow> ('m, 'r) plugin_dir \<Rightarrow> bool" where
  \<comment> \<open>a manifest whose version texts \<open>validate_compatibility\<close> cannot read\<close>
  "version_error cfg d = (case load_manifest d of Inl e \<Rightarrow> False
     | Inr m \<Rightarrow> (case validate_compatibility (rg_core_version cfg) m of Inl e \<Rightarrow> True | Inr b \<Rightarrow> False))"

lemma all_ints_error: "all_ints ts = Inl e \<Longrightarrow> e = ValueError"
  by (induction ts) (auto simp: res_bind_def dest: text_int_error split: sum.splits)

lemma compatibility_error: "validate_compatibility v m = Inl e \<Longrightarrow> e = ValueError"
  by (auto simp: validate_compatibility_def version_at_least_def parse_version_def res_bind_def
      dest: all_ints_error split: sum.splits if_splits option.splits)

lemma also_Inr [simp]:
  "also_loaded p r = Inl e \<longleftrightarrow> r = Inl e" "also_failed f r = Inl e \<longleftrightarrow> r = Inl e"
  by (auto simp: also_loaded_def also_failed_def res_bind_def split: sum.split)

lemma load_each_result:
  "fst (load_each cfg ds h) = Inl e \<longleftrightarrow> e = ValueError \<and> (\<exists>d \<in> set ds. version_error cfg d)"
proof (induction cfg ds h rule: load_each.induct)
  case (2 cfg d ds h)
  show ?case
  proof (cases "load_manifest d")
    case (Inl x)
    then show ?thesis using "2.IH"(1) by (auto simp: version_error_def split: prod.splits)
  next
    case m: (Inr m)
    show ?thesis
    proof (cases "validate_compatibility (rg_core_version cfg) m")
      case (Inl x)
      then show ?thesis using m compatibility_error [OF Inl] by (auto simp: version_error_def)
    next
      case (Inr c)
      have fine: "\<not> version_error cfg d" using m Inr by (simp add: version_error_def)
      show ?thesis
      proof (cases c)
        case False
        then show ?thesis using m Inr fine "2.IH"(2) [OF m Inr] by (auto split: prod.splits)
      next
        case True
        obtain r h1 where l: "load_plugin cfg d m h = (r, h1)" by (cases "load_plugin cfg d m h")
        show ?thesis
        proof (cases r)
          case (Inl x)
          show ?thesis
            using m Inr fine True Inl l "2.IH"(3) [OF m Inr _ l [symmetric] Inl] by (auto split: prod.splits)
        next
          case (Inr p)
          show ?thesis
            using m \<open>validate_compatibility _ _ = _\<close> fine True Inr l
              "2.IH"(4) [OF m \<open>validate_compatibility _ _ = _\<close> _ l [symmetric] Inr] by (auto split: prod.splits)
        qed
      qed
    qed
  qed
qed simp

text \<open>C33: whatever the plugin directories offer (no manifest, a foreign one, an incompatible version,
  missing handlers, a migration or constructor that raises), \<open>load_all\<close> returns, except for
  one defect that escapes it although its documentation says that no failure does: a manifest whose version is
  not made of numbers raises \<open>ValueError\<close> out of \<open>load_all\<close>, because the compatibility
  check stands outside every \<open>try\<close>.\<close>
theorem load_all_returns:
  "case fst (load_all cfg entries h) of
      Inr r \<Rightarrow> \<not> (\<exists>d \<in> set (discover entries). version_error cfg d)
    | Inl e \<Rightarrow> e = ValueError \<and> (\<exists>d \<in> set (discover entries). version_error cfg d)"
proof (cases "fst (load_all cfg entries h)")
  case (Inl e)
  then show ?thesis using load_each_result [of cfg "discover entries" h e] by (simp add: load_all_def)
next
  case (Inr r)
  then show ?thesis using load_each_result [of cfg "discover entries" h ValueError] by (simp add: load_all_def)
qed

text \<open>What loading registers.\<close>

definition consumers_of :: "string \<Rightarrow> plugin_manifest \<Rightarrow> string list" where
  \<comment> \<open>the consumer names a loaded plugin adds for an event type\<close>
  "consumers_of ty m = map (\<lambda>_. plugin_source m) (filter (\<lambda>x. x = ty) (pm_consumes m))"

lemma register_names: "map fst (regs_for (register x c h reg) ty) = map fst (regs_for reg ty) @ (if x = ty then [c] else [])"
  by (simp add: regs_for_register)

lemma register_consumers_names:
  "map fst (regs_for (register_consumers m cs reg) ty) = map fst (regs_for reg ty) @ consumers_of ty m"
proof -
  have "map fst (regs_for (fold (\<lambda>x. register x c (h x)) xs reg) ty)
      = map fst (regs_for reg ty) @ map (\<lambda>_. c) (filter (\<lambda>x. x = ty) xs)" for c h xs
    by (induction xs arbitrary: reg) (simp_all add: register_names)
  then show ?thesis by (simp add: register_consumers_def consumers_of_def)
qed

lemma load_plugin_result:
  assumes "load_plugin cfg d m h = (r, h')"
  shows "case r of Inl e \<Rightarrow> ph_registry h' = ph_registry h \<and> ph_router h' = ph_router h \<and> ph_boundaries h' = ph_boundaries h
    | Inr p \<Rightarrow> lp_manifest p = m \<and> (\<forall>ty. map fst (regs_for (ph_registry h') ty)
        = map fst (regs_for (ph_registry h) ty) @ consumers_of ty m) \<and> pm_name m \<in> {n. ph_boundaries h' n = new_boundary n}"
  using assms by (auto simp: load_plugin_def register_consumers_names split: prod.splits sum.splits)

lemma load_manifest_name: "load_manifest d = Inr m \<Longrightarrow> pm_name m = pd_name d"
  by (auto simp: load_manifest_def split: manifest_import.splits if_splits)

definition load_names :: "'r load_result \<Rightarrow> string list" where
  "load_names r = map (\<lambda>p. pm_name (lp_manifest p)) (fst r) @ map fst (snd r)"

lemma load_names_step:
  "also_loaded p r = Inr q \<Longrightarrow> \<exists>ps fs. r = Inr (ps, fs) \<and> q = (p # ps, fs)"
  "also_failed f r = Inr q \<Longrightarrow> \<exists>ps fs. r = Inr (ps, fs) \<and> q = (ps, f # fs)"
  by (auto simp: also_loaded_def also_failed_def res_bind_eq_Inr)

lemma load_each_registers:
  "load_each cfg ds h = (Inr q, h') \<Longrightarrow>
    mset (load_names q) = mset (map pd_name ds)
    \<and> (\<forall>ty. map fst (regs_for (ph_registry h') ty)
        = map fst (regs_for (ph_registry h) ty) @ concat (map (\<lambda>p. consumers_of ty (lp_manifest p)) (fst q)))"
proof (induction ds arbitrary: h q)
  case Nil
  then show ?case by (auto simp: load_names_def)
next
  case (Cons d ds)
  show ?case
  proof (cases "load_manifest d")
    case (Inl x)
    obtain r h1 where rest: "load_each cfg ds h = (r, h1)" by (cases "load_each cfg ds h")
    with Cons.prems Inl have "also_failed (pd_name d, Manifest_Error x) r = Inr q" "h1 = h'" by auto
    with load_names_step(2) obtain ps fs where "r = Inr (ps, fs)" "q = (ps, (pd_name d, Manifest_Error x) # fs)" by blast
    with Cons.IH [of h "(ps, fs)"] rest \<open>h1 = h'\<close> show ?thesis by (simp add: load_names_def)
  next
    case m: (Inr m)
    note name = load_manifest_name [OF m]
    from Cons.prems m obtain c where c: "validate_compatibility (rg_core_version cfg) m = Inr c"
      by (cases "validate_compatibility (rg_core_version cfg) m") auto
    show ?thesis
    proof (cases c)
      case False
      obtain r h1 where rest: "load_each cfg ds h = (r, h1)" by (cases "load_each cfg ds h")
      with Cons.prems m c False have "also_failed (pm_name m, Incompatible) r = Inr q" "h1 = h'" by auto
      with load_names_step(2) obtain ps fs where "r = Inr (ps, fs)" "q = (ps, (pm_name m, Incompatible) # fs)" by blast
      with Cons.IH [of h "(ps, fs)"] rest \<open>h1 = h'\<close> name show ?thesis by (simp add: load_names_def)
    next
      case True
      obtain l h1 where l: "load_plugin cfg d m h = (l, h1)" by (cases "load_plugin cfg d m h")
      obtain r h2 where rest: "load_each cfg ds h1 = (r, h2)" by (cases "load_each cfg ds h1")
      show ?thesis
      proof (cases l)
        case (Inl x)
        with Cons.prems m c True l rest have "also_failed (pm_name m, Load_Error x) r = Inr q" "h2 = h'" by auto
        with load_names_step(2) obtain ps fs where "r = Inr (ps, fs)" "q = (ps, (pm_name m, Load_Error x) # fs)" by blast
        with Cons.IH [of h1 "(ps, fs)"] rest \<open>h2 = h'\<close> name load_plugin_result [OF l] Inl show ?thesis
          by (simp add: load_names_def)
      next
        case (Inr p)
        with Cons.prems m c True l rest have "also_loaded p r = Inr q" "h2 = h'" by auto
        with load_names_step(1) obtain ps fs where "r = Inr (ps, fs)" "q = (p # ps, fs)" by blast
        with Cons.IH [of h1 "(ps, fs)"] rest \<open>h2 = h'\<close> name load_plugin_result [OF l] Inr show ?thesis
          by (simp add: load_names_def)
      qed
    qed
  qed
qed

text \<open>When \<open>load_all\<close> returns, every discovered plugin is reported once, as loaded or as
  failed, and the consumer registry has grown by exactly the declared consumers of the loaded ones, in
  alphabetical order and under their own names: a plugin that failed at any stage has
  registered nothing, and no core consumer was touched.\<close>
theorem load_all_registers_loaded_only:
  assumes "load_all cfg entries h = (Inr (ps, fs), h')"
  shows "mset (map (\<lambda>p. pm_name (lp_manifest p)) ps @ map fst fs) = mset (map pd_name (discover entries))
    \<and> map fst (regs_for (ph_registry h') ty)
        = map fst (regs_for (ph_registry h) ty) @ concat (map (\<lambda>p. consumers_of ty (lp_manifest p)) ps)"
  using load_each_registers [OF assms [unfolded load_all_def]] by (simp add: load_names_def)

definition empty_host :: "'m plugin_db_scheme \<Rightarrow> 'm plugin_host" where
  "empty_host s = \<lparr>ph_registry = [], ph_router = empty_router, ph_boundaries = new_boundary, ph_db = s\<rparr>"

definition plugin_sample :: plugin_db where
  "plugin_sample = chaster_db.extend (sample_db OB_COMPLETE LOCK_NONE) \<lparr>plugin_schema_versions = [], goal_celebration_log = []\<rparr>"

definition bot_plugins :: registry_config where
  "bot_plugins = \<lparr>rg_core_version = core_version, rg_values = [], rg_supplied = [''goal_management.read'']\<rparr>"

definition broken_dir :: "('m, unit) plugin_dir" where
  "broken_dir = goal_celebration_dir\<lparr>pd_name := ''broken'', pd_manifest := No_Manifest\<rparr>"

lemma bot_plugins_load:
  "case fst (load_all bot_plugins [goal_celebration_dir, broken_dir] (empty_host plugin_sample)) of
     Inl e \<Rightarrow> False | Inr (ps, fs) \<Rightarrow> map lp_manifest ps = [goal_celebration_manifest] \<and> fs = [(''broken'', Manifest_Error PluginConventionError)]"
  by code_simp

lemma load_all_registers_loaded_only_witness:
  "\<exists>ps fs h'. load_all bot_plugins [goal_celebration_dir, broken_dir] (empty_host plugin_sample) = (Inr (ps, fs), h')
    \<and> map fst fs = [''broken''] \<and> map fst (regs_for (ph_registry h') ''goal.completed'') = [''plugin_goal_celebration'']"
proof -
  obtain ps fs h' where l: "load_all bot_plugins [goal_celebration_dir, broken_dir] (empty_host plugin_sample) = (Inr (ps, fs), h')"
    and ps: "map lp_manifest ps = [goal_celebration_manifest]" and fs: "fs = [(''broken'', Manifest_Error PluginConventionError)]"
    using bot_plugins_load by (cases "load_all bot_plugins [goal_celebration_dir, broken_dir] (empty_host plugin_sample)")
      (auto split: sum.splits)
  have "map fst (regs_for (ph_registry h') ''goal.completed'') = map fst (regs_for (ph_registry (empty_host plugin_sample)) ''goal.completed'')
      @ concat (map (\<lambda>p. consumers_of ''goal.completed'' (lp_manifest p)) ps)"
    using load_all_registers_loaded_only [OF l] by blast
  also have "map (\<lambda>p. consumers_of ''goal.completed'' (lp_manifest p)) ps
      = map (consumers_of ''goal.completed'') (map lp_manifest ps)" by simp
  finally show ?thesis using l fs unfolding ps
    by (simp add: consumers_of_def goal_celebration_manifest_def plugin_source_def empty_host_def regs_for_def)
qed

section \<open>What a plugin may reach\<close>

lemma granted_error: "granted_methods reads supplied table = Inl e \<Longrightarrow> e = ValueError"
  by (induction reads supplied table rule: granted_methods.induct) (auto simp: res_bind_def split: if_splits sum.splits)

lemma granted_iff:
  "(\<exists>ms. granted_methods reads supplied table = Inr ms) \<longleftrightarrow> (\<forall>c \<in> fst ` set table. c \<in> set reads \<longrightarrow> c \<in> set supplied)"
  by (induction reads supplied table rule: granted_methods.induct) (auto simp: res_bind_def split: sum.splits)

lemma granted_set: "granted_methods reads supplied table = Inr ms \<Longrightarrow>
    x \<in> set ms \<longleftrightarrow> (\<exists>c ns. (c, ns) \<in> set table \<and> c \<in> set reads \<and> x \<in> set ns)"
proof (induction table arbitrary: ms)
  case (Cons y table)
  obtain c ns where y: "y = (c, ns)" by (cases y)
  show ?case
  proof (cases "c \<in> set reads")
    case True
    then obtain ms' where "granted_methods reads supplied table = Inr ms'" "ms = ns @ ms'"
      using Cons.prems y by (auto simp: res_bind_def split: if_splits sum.splits)
    then show ?thesis using Cons.IH [of ms'] y True by auto
  qed (use Cons y in auto)
qed simp

lemma emit_event: "emit ty src p now s = Inr ((), s') \<Longrightarrow>
    \<exists>r. domain_events s' = domain_events s @ [r] \<and> ev_type r = ty \<and> ev_source r = src \<and> ev_payload r = p"
  by (auto simp: emit_def write_event_def tx_success insert_event_def new_id_def event_row_of_def)

lemma published_alone:
  assumes "\<not> txn_open db th" and "uncommitted db = None"
  shows "\<exists>s'. transaction th (execute th (atomically (emit ty (plugin_source m) p now))) db = (Inr (), db\<lparr>content := s'\<rparr>)
    \<and> (\<exists>r. domain_events s' = domain_events (content db) @ [r] \<and> ev_type r = ty
         \<and> ev_source r = ''plugin_'' @ pm_name m \<and> ev_payload r = p)"
proof -
  obtain s' where out: "emit ty (plugin_source m) p now (content db) = Inr ((), s')"
    by (simp add: emit_def write_event_def tx_bind_def tx_simps)
  then show ?thesis using emit_event [OF out]
    by (auto simp: transaction_carries_out [OF carries_out_statement assms] atomically_def plugin_source_def)
qed

text \<open>C34: an SDK is built exactly when every module whose read capability the manifest declares was
  supplied, and it has the read methods of the declared capabilities and no others; what is published
  through it, inside the caller's transaction or in one of its own, is exactly the event types the
  manifest lists, each inside the plugin's own namespace and marked with the plugin as its source, so no
  plugin can forge an event of the core or of another plugin; any other type raises
  PluginCapabilityNotGrantedError and writes nothing. A listed event published on its own is one committed
  row, unless the thread is inside a transaction already (NestedTransactionError) or another connection
  holds the write lock too long (OperationalError), and then nothing is written.\<close>
theorem sdk_reaches_declared_only:
  assumes "check_manifest m = Inr m"
  shows "case build_plugin_sdk m vals supplied of
      Inl e \<Rightarrow> e = ValueError \<and> \<not> set (pm_reads m) \<inter> fst ` set capability_methods \<subseteq> set supplied
    | Inr sdk \<Rightarrow> set (pm_reads m) \<inter> fst ` set capability_methods \<subseteq> set supplied
        \<and> set (sdk_methods sdk) = {''publish_event'', ''publish_event_in_transaction''}
            \<union> {x. \<exists>c ns. (c, ns) \<in> set capability_methods \<and> c \<in> set (pm_reads m) \<and> x \<in> set ns}
        \<and> (case publish_event_in_transaction sdk ty p now s of
             Inl e \<Rightarrow> ty \<notin> set (pm_publishes m) \<and> e = PluginCapabilityNotGrantedError
           | Inr (u, s') \<Rightarrow> ty \<in> set (pm_publishes m) \<and> prefix (''plugin_'' @ pm_name m @ ''.'') ty
               \<and> (\<exists>r. domain_events s' = domain_events s @ [r] \<and> ev_type r = ty
                    \<and> ev_source r = ''plugin_'' @ pm_name m \<and> ev_payload r = p))
        \<and> (if ty \<notin> set (pm_publishes m)
             then publish_event sdk th ty p now db = (Inl PluginCapabilityNotGrantedError, db)
             else if txn_open db th then publish_event sdk th ty p now db = (Inl NestedTransactionError, db)
             else (case uncommitted db of
                 Some (h, c) \<Rightarrow> h \<noteq> th \<longrightarrow> publish_event sdk th ty p now db = (Inl OperationalError, db)
               | None \<Rightarrow> \<exists>s'. publish_event sdk th ty p now db = (Inr (), db\<lparr>content := s'\<rparr>)
                   \<and> (\<exists>r. domain_events s' = domain_events (content db) @ [r] \<and> ev_type r = ty
                        \<and> ev_source r = ''plugin_'' @ pm_name m \<and> ev_payload r = p)))"
proof -
  have own: "prefix (own_prefix m) x" if "x \<in> set (pm_publishes m)" for x
    using assms that by (auto simp: check_manifest_def res_bind_eq_Inr res_require_def list_all_iff split: if_splits)
  have pub: "publish_event_allowlist_check m ty = (if ty \<in> set (pm_publishes m) then Inr () else Inl PluginCapabilityNotGrantedError)"
    using own by (simp add: publish_event_allowlist_check_def res_require_def)
  have sub: "set (pm_reads m) \<inter> fst ` set capability_methods \<subseteq> set supplied
      \<longleftrightarrow> (\<forall>c \<in> fst ` set capability_methods. c \<in> set (pm_reads m) \<longrightarrow> c \<in> set supplied)" by blast
  obtain s' where out: "emit ty (plugin_source m) p now s = Inr ((), s')"
    by (simp add: emit_def write_event_def tx_bind_def tx_simps)
  have alone: "if ty \<notin> set (pm_publishes m)
             then publish_event sdk th ty p now db = (Inl PluginCapabilityNotGrantedError, db)
             else if txn_open db th then publish_event sdk th ty p now db = (Inl NestedTransactionError, db)
             else (case uncommitted db of
                 Some (h, c) \<Rightarrow> h \<noteq> th \<longrightarrow> publish_event sdk th ty p now db = (Inl OperationalError, db)
               | None \<Rightarrow> \<exists>s'. publish_event sdk th ty p now db = (Inr (), db\<lparr>content := s'\<rparr>)
                   \<and> (\<exists>r. domain_events s' = domain_events (content db) @ [r] \<and> ev_type r = ty
                        \<and> ev_source r = ''plugin_'' @ pm_name m \<and> ev_payload r = p))"
    if "sdk_manifest sdk = m" for sdk
    using that published_alone [of db th ty m p now]
    by (auto simp: publish_event_def pub transaction_nested transaction_locked split: option.split)
  show ?thesis
  proof (cases "granted_methods (pm_reads m) supplied capability_methods")
    case (Inl e)
    then show ?thesis using granted_error [OF Inl] granted_iff [of "pm_reads m" supplied capability_methods] sub
      by (simp add: build_plugin_sdk_def)
  next
    case (Inr ms)
    then have "set (pm_reads m) \<inter> fst ` set capability_methods \<subseteq> set supplied"
      using granted_iff [of "pm_reads m" supplied capability_methods] sub by blast
    moreover have "set ms = {x. \<exists>c ns. (c, ns) \<in> set capability_methods \<and> c \<in> set (pm_reads m) \<and> x \<in> set ns}"
      using granted_set [OF Inr] by blast
    moreover have "case publish_event_in_transaction sdk ty p now s of
             Inl e \<Rightarrow> ty \<notin> set (pm_publishes m) \<and> e = PluginCapabilityNotGrantedError
           | Inr (u, s') \<Rightarrow> ty \<in> set (pm_publishes m) \<and> prefix (''plugin_'' @ pm_name m @ ''.'') ty
               \<and> (\<exists>r. domain_events s' = domain_events s @ [r] \<and> ev_type r = ty
                    \<and> ev_source r = ''plugin_'' @ pm_name m \<and> ev_payload r = p)"
      if "sdk_manifest sdk = m" for sdk
      using that own emit_event [OF out] out
      by (auto simp: publish_event_in_transaction_def pub tx_simps tx_bind_def own_prefix_def plugin_source_def)
    moreover obtain sdk where "build_plugin_sdk m vals supplied = Inr sdk" "sdk_manifest sdk = m"
      "sdk_methods sdk = [''publish_event'', ''publish_event_in_transaction''] @ ms"
      using Inr by (simp add: build_plugin_sdk_def)
    ultimately show ?thesis using alone by simp
  qed
qed

lemma goal_celebration_manifest_ok: "check_manifest goal_celebration_manifest = Inr goal_celebration_manifest"
  by code_simp

lemma sdk_reaches_declared_only_witness:
  "\<exists>sdk. build_plugin_sdk goal_celebration_manifest [] [''goal_management.read''] = Inr sdk
    \<and> publish_event_in_transaction sdk ''incident.confirmation_changed'' [] 0 plugin_sample = Inl PluginCapabilityNotGrantedError
    \<and> publish_event sdk 0 ''incident.confirmation_changed'' [] 0 \<lparr>content = plugin_sample, uncommitted = None, txn_open = (\<lambda>_. False)\<rparr>
      = (Inl PluginCapabilityNotGrantedError, \<lparr>content = plugin_sample, uncommitted = None, txn_open = (\<lambda>_. False)\<rparr>)"
proof -
  let ?b = "build_plugin_sdk goal_celebration_manifest [] [''goal_management.read'']"
  let ?db = "\<lparr>content = plugin_sample, uncommitted = None, txn_open = (\<lambda>_. False)\<rparr>"
  have "fst ` set capability_methods \<inter> set (pm_reads goal_celebration_manifest) \<subseteq> set [''goal_management.read'']" by code_simp
  then obtain sdk where b: "?b = Inr sdk"
    using sdk_reaches_declared_only [OF goal_celebration_manifest_ok, where vals = "[]" and supplied = "[''goal_management.read'']"]
    by (cases ?b) (auto simp: Int_commute)
  have "''incident.confirmation_changed'' \<notin> set (pm_publishes goal_celebration_manifest)" by code_simp
  then have "publish_event_in_transaction sdk ''incident.confirmation_changed'' [] 0 plugin_sample = Inl PluginCapabilityNotGrantedError
      \<and> publish_event sdk 0 ''incident.confirmation_changed'' [] 0 ?db = (Inl PluginCapabilityNotGrantedError, ?db)"
    using sdk_reaches_declared_only [OF goal_celebration_manifest_ok, where vals = "[]" and supplied = "[''goal_management.read'']"
        and ty = "''incident.confirmation_changed''" and p = "[]" and now = 0 and s = plugin_sample and th = 0 and db = ?db] b
    by (auto split: sum.splits)
  then show ?thesis using b by blast
qed

text \<open>Called inside a consumer, the variant that opens its own transaction raises.\<close>

lemma publish_event_nested:
  assumes "txn_open db th" and "publish_event_allowlist_check (sdk_manifest sdk) ty = Inr ()"
  shows "publish_event sdk th ty p now db = (Inl NestedTransactionError, db)"
  using assms by (simp add: publish_event_def transaction_def)

section \<open>Migrations\<close>

text \<open>The convention every script follows: it inserts its own version row.\<close>

definition records_version :: "string \<Rightarrow> string \<times> 'm script \<Rightarrow> bool" where
  "records_version name f \<longleftrightarrow> (\<forall>v s s'. file_version (fst f) = Inr v \<longrightarrow> snd f s = (Inr (), s') \<longrightarrow>
     plugin_schema_versions s' = plugin_schema_versions s @ [(name, v)])"

definition versions_for :: "string \<Rightarrow> 'm plugin_db_scheme \<Rightarrow> int list" where
  "versions_for name s = map snd (filter (\<lambda>(n, v). n = name) (plugin_schema_versions s))"

lemma current_version_bound:
  assumes "v \<in> set (versions_for name s)"
  shows "v \<le> current_plugin_version name s"
proof (cases "versions_for name s")
  case (Cons w ws)
  then have "current_plugin_version name s = foldl max w ws"
    by (simp add: current_plugin_version_def versions_for_def)
  then show ?thesis using assms Cons foldl_max [of v w ws] by auto
qed (use assms in simp)

lemma run_scripts_versions:
  assumes "run_scripts ps s = (Inr vs, s')" and "\<And>v script. (v, script) \<in> set ps \<Longrightarrow> \<exists>f. file_version f = Inr v \<and> records_version name (f, script)"
  shows "vs = map fst ps \<and> plugin_schema_versions s' = plugin_schema_versions s @ map (\<lambda>v. (name, v)) vs"
proof (rule run_scripts_record [OF assms(1)])
  fix v and script :: "'a script" and x y :: "'a plugin_db_scheme"
  assume "(v, script) \<in> set ps" and "script x = (Inr (), y)"
  then show "plugin_schema_versions y = plugin_schema_versions x @ [(name, v)]"
    using assms(2) [of v script] by (auto simp: records_version_def)
qed

text \<open>Plugin migrations run once: when the scripts follow the convention of inserting their own version row, a
  pass that returns has run exactly the files above the recorded version, in the order of their names, and recorded
  them; the next pass, at the next startup, finds nothing to do and changes nothing.\<close>
theorem plugin_migrations_run_once:
  assumes conv: "\<forall>f \<in> set files. records_version name f"
    and run: "apply_plugin_migrations name files s = (Inr vs, s')"
  shows "Inr vs = (case pending_files (current_plugin_version name s) (sort_key fst files) of Inl e \<Rightarrow> Inl e | Inr ps \<Rightarrow> Inr (map fst ps))
    \<and> plugin_schema_versions s' = plugin_schema_versions s @ map (\<lambda>v. (name, v)) vs
    \<and> apply_plugin_migrations name files s' = (Inr [], s')"
proof -
  let ?files = "sort_key fst files"
  obtain ps where ps: "pending_files (current_plugin_version name s) ?files = Inr ps" and scripts: "run_scripts ps s = (Inr vs, s')"
    using run by (auto simp: apply_plugin_migrations_def op_bind_def op_get_def op_lift_def split: sum.splits)
  have rec: "\<exists>f. file_version f = Inr v \<and> records_version name (f, script)" if "(v, script) \<in> set ps" for v script
    using pending_files_sound [OF ps that] conv by auto
  note ran = run_scripts_versions [OF scripts rec]
  have new: "v \<le> current_plugin_version name s'" if "v \<in> set vs" for v
    by (rule current_version_bound) (use ran that in \<open>simp add: versions_for_def comp_def\<close>)
  have le: "current_plugin_version name s \<le> current_plugin_version name s'"
  proof (cases ps)
    case Nil
    then show ?thesis using ran by (simp add: current_plugin_version_def)
  next
    case (Cons p ps')
    then have "current_plugin_version name s < fst p" using pending_files_sound [OF ps, of "fst p" "snd p"] by simp
    moreover have "fst p \<le> current_plugin_version name s'" by (rule new) (use ran Cons in simp)
    ultimately show ?thesis by simp
  qed
  have "pending_files (current_plugin_version name s') ?files = Inr []"
    by (rule nothing_left [OF ps le]) (use new ran in auto)
  then have "apply_plugin_migrations name files s' = (Inr [], s')"
    by (simp add: apply_plugin_migrations_def op_bind_def op_get_def op_lift_def op_return_def)
  then show ?thesis using ps ran by simp
qed

lemma plugin_migrations_run_once_witness:
  "\<exists>s'. apply_plugin_migrations ''goal_celebration'' (pd_migrations goal_celebration_dir) plugin_sample = (Inr [1], s')
    \<and> apply_plugin_migrations ''goal_celebration'' (pd_migrations goal_celebration_dir) s' = (Inr [], s')"
proof -
  let ?files = "pd_migrations goal_celebration_dir :: (string \<times> unit script) list"
  have v: "file_version ''001_goal_celebration_log.sql'' = Inr 1" by code_simp
  have conv: "\<forall>f \<in> set ?files. records_version ''goal_celebration'' f"
    by (auto simp: goal_celebration_dir_def records_version_def v goal_celebration_migration_def atomically_def tx_bind_def
        tx_simps split: if_splits)
  obtain s' where run: "apply_plugin_migrations ''goal_celebration'' ?files plugin_sample = (Inr [1], s')"
    by (simp add: apply_plugin_migrations_def op_bind_def op_get_def op_lift_def op_return_def goal_celebration_dir_def v
        current_plugin_version_def plugin_sample_def chaster_db.defs goal_celebration_migration_def atomically_def
        tx_bind_def tx_simps)
  show ?thesis using plugin_migrations_run_once [OF conv run] run by blast
qed

section \<open>Celebrating a goal\<close>

definition sent :: "uid \<Rightarrow> 'm plugin_db_scheme \<Rightarrow> event_row list" where
  "sent i s = filter (\<lambda>r. ev_type r = ''plugin_goal_celebration.sent'' \<and> ev_payload r = [(''goal_group_id'', JId i)])
     (domain_events s)"

definition celebrated :: "uid \<Rightarrow> 'm plugin_db_scheme \<Rightarrow> bool" where
  "celebrated i s \<longleftrightarrow> i \<in> fst ` set (goal_celebration_log s)"

definition celebration_ok :: "'m plugin_db_scheme \<Rightarrow> bool" where
  "celebration_ok s \<longleftrightarrow> distinct (map fst (goal_celebration_log s)) \<and>
     (\<forall>i. length (sent i s) = (if celebrated i s then 1 else 0))"

definition celebrate :: "plugin_sdk \<Rightarrow> uid \<Rightarrow> time \<Rightarrow> 'm plugin_db_scheme \<Rightarrow> 'm plugin_db_scheme" where
  "celebrate sdk i now s = (let s1 = s\<lparr>goal_celebration_log := goal_celebration_log s @ [(i, now)]\<rparr> in
     insert_event (event_row_of (next_id s1) \<lparr>de_type = ''plugin_goal_celebration.sent'',
       de_source = plugin_source (sdk_manifest sdk), de_payload = [(''goal_group_id'', JId i)], de_occurred_at = now\<rparr>)
       (s1\<lparr>next_id := Suc (next_id s1)\<rparr>))"

lemma on_goal_completed_eq:
  assumes "sdk_manifest sdk = goal_celebration_manifest"
  shows "on_goal_completed sdk e s = (case res_bind (payload_item (ce_payload e) ''goal_group_id'') json_id of
      Inl x \<Rightarrow> Inl x | Inr i \<Rightarrow> Inr ((), if celebrated i s then s else celebrate sdk i (ce_occurred_at e) s))"
proof -
  have ok: "publish_event_allowlist_check goal_celebration_manifest ''plugin_goal_celebration.sent'' = Inr ()" by code_simp
  show ?thesis
    using ok by (auto simp: on_goal_completed_def tx_bind_def tx_simps assms celebrated_def celebrate_def Let_def
      has_been_celebrated_in_transaction_def mark_celebrated_in_transaction_def publish_event_in_transaction_def
      emit_def write_event_def split: sum.split)
qed

lemma celebrate_state:
  "goal_celebration_log (celebrate sdk i now s) = goal_celebration_log s @ [(i, now)]"
  "celebrated j (celebrate sdk i now s) \<longleftrightarrow> celebrated j s \<or> j = i"
  "length (sent j (celebrate sdk i now s)) = length (sent j s) + (if j = i then 1 else 0)"
  by (auto simp: celebrate_def celebrated_def sent_def insert_event_def event_row_of_def Let_def)

lemma celebrate_ok: "celebration_ok s \<Longrightarrow> \<not> celebrated i s \<Longrightarrow> celebration_ok (celebrate sdk i now s)"
  by (auto simp: celebration_ok_def celebrate_state) (force simp: celebrated_def)

lemma consumed_handler:
  "consume_event e c m now s = (Inr True, s') \<Longrightarrow> \<exists>s1. m s = Inr ((), s1) \<and> \<not> processed (ce_id e) c s
     \<and> s' = s1\<lparr>event_consumers := event_consumers s1 @ [\<lparr>cn_event_id = ce_id e, cn_consumer = c, cn_processed_at = now\<rparr>]\<rparr>"
  by (auto simp: consume_event_eq split: sum.splits if_splits prod.splits)

lemma not_consumed: "consume_event e c m now s = (r, s') \<Longrightarrow> r \<noteq> Inr True \<Longrightarrow> s' = s"
  by (auto simp: consume_event_eq split: sum.splits if_splits prod.splits)

lemma celebration_consumers [simp]:
  "celebration_ok (s\<lparr>event_consumers := x\<rparr>) = celebration_ok s" "celebrated i (s\<lparr>event_consumers := x\<rparr>) = celebrated i s"
  "sent i (s\<lparr>event_consumers := x\<rparr>) = sent i s"
  by (simp_all add: celebration_ok_def celebrated_def sent_def)

text \<open>C35: each goal is celebrated once: however often and in whatever form completions of goals are
  delivered to the plugin, slow or failing, each goal has at most one log row, and exactly one announcement if it has one;
  a delivery that counts as handled leaves its goal celebrated, any other one leaves the database as it was.\<close>
theorem goals_celebrated_once:
  assumes ok: "celebration_ok s" and sdk: "sdk_manifest sdk = goal_celebration_manifest"
    and run: "consume_plugin_event b took e c (on_goal_completed sdk) now s = (r, b', s')"
  shows "celebration_ok s' \<and> (if r = Inr True
      then \<exists>i. payload_item (ce_payload e) ''goal_group_id'' = Inr (JId i) \<and> celebrated i s' \<and> length (sent i s') = 1
        \<and> (\<forall>j. celebrated j s' = (celebrated j s \<or> j = i))
      else s' = s)"
proof (cases "r = Inr True")
  case True
  then have ran: "consume_event e c (on_goal_completed sdk e) now s = (Inr True, s')"
    using run by (auto simp: plugin_delivery split: if_splits sum.splits prod.splits)
  obtain s1 where h: "on_goal_completed sdk e s = Inr ((), s1)"
    and s': "s' = s1\<lparr>event_consumers := event_consumers s1 @ [\<lparr>cn_event_id = ce_id e, cn_consumer = c, cn_processed_at = now\<rparr>]\<rparr>"
    using consumed_handler [OF ran] by blast
  obtain i where i: "res_bind (payload_item (ce_payload e) ''goal_group_id'') json_id = Inr i"
    and s1: "s1 = (if celebrated i s then s else celebrate sdk i (ce_occurred_at e) s)"
    using h unfolding on_goal_completed_eq [OF sdk] by (auto split: sum.splits)
  have "payload_item (ce_payload e) ''goal_group_id'' = Inr (JId i)"
    using i by (auto simp: res_bind_eq_Inr elim!: json_id.elims)
  moreover have one: "celebration_ok s1" using ok celebrate_ok [OF ok] s1 by simp
  moreover have "celebrated j s1 \<longleftrightarrow> celebrated j s \<or> j = i" for j using s1 by (auto simp: celebrate_state)
  ultimately show ?thesis using True one unfolding s' by (auto simp: celebration_ok_def)
next
  case False
  then have "s' = s" using run not_consumed by (fastforce simp: plugin_delivery split: if_splits sum.splits prod.splits)
  then show ?thesis using ok False by simp
qed

definition completed_event :: claimed_event where
  "completed_event = \<lparr>ce_id = 7, ce_type = ''goal.completed'', ce_source = ''goal_management'',
     ce_payload = [(''goal_group_id'', JId 4), (''reason'', JStr ''reached'')], ce_occurred_at = 9, ce_created_at = 9\<rparr>"

lemma goals_celebrated_once_witness:
  "\<exists>sdk b s'. consume_plugin_event (new_boundary ''p'') 0 completed_event ''plugin_goal_celebration'' (on_goal_completed sdk) 10
      (plugin_sample\<lparr>domain_events := [event_row_of 7 \<lparr>de_type = ''goal.completed'', de_source = ''goal_management'',
         de_payload = ce_payload completed_event, de_occurred_at = 9\<rparr>]\<rparr>) = (Inr True, b, s')
    \<and> celebrated 4 s' \<and> length (sent 4 s') = 1"
proof -
  let ?sdk = "\<lparr>sdk_manifest = goal_celebration_manifest, sdk_values = [], sdk_methods = []\<rparr>"
  let ?s = "plugin_sample\<lparr>domain_events := [event_row_of 7 \<lparr>de_type = ''goal.completed'', de_source = ''goal_management'',
         de_payload = ce_payload completed_event, de_occurred_at = 9\<rparr>]\<rparr>"
  have ok: "celebration_ok ?s"
    by (simp add: celebration_ok_def celebrated_def sent_def event_row_of_def plugin_sample_def chaster_db.defs)
  have sdk: "sdk_manifest ?sdk = goal_celebration_manifest" by simp
  obtain r b s' where run: "consume_plugin_event (new_boundary ''p'') 0 completed_event ''plugin_goal_celebration''
      (on_goal_completed ?sdk) 10 ?s = (r, b, s')" by (metis prod_cases3)
  have "fst (consume_plugin_event (new_boundary ''p'') 0 completed_event ''plugin_goal_celebration''
      (on_goal_completed ?sdk) 10 ?s) = Inr True"
    by code_simp
  then have r: "r = Inr True" using run by simp
  from goals_celebrated_once [OF ok sdk run] r have "celebrated 4 s' \<and> length (sent 4 s') = 1"
    by (auto simp: completed_event_def payload_item_def)
  then show ?thesis using run r by blast
qed

end
