(* ===== verification/Preference_Profile.thy ===== *)
theory Preference_Profile
  imports Texts "HOL-Library.Multiset"
begin

text \<open>
  \<open>preference_profile/models.py\<close> and \<open>preference_profile/policy.py\<close>: a user's confirmed statements about
  topics. Every type checks itself when it is constructed, so a snapshot holds at most one statement
  per topic and the policy is a lookup.
\<close>

section \<open>Values that check themselves\<close>

datatype profile_owner_key = Owner_Key (owner_value: string)

definition profile_owner :: "string \<Rightarrow> exn + profile_owner_key" where
  "profile_owner v = (if nonblank v then Inr (Owner_Key v) else Inl ValueError)"

record profile_topic =
  tp_namespace :: string
  tp_value :: string

definition check_topic :: "profile_topic \<Rightarrow> exn + profile_topic" where
  "check_topic t = (if \<not> nonblank (tp_namespace t) then Inl ValueError
     else if \<not> nonblank (tp_value t) then Inl ValueError else Inr t)"

datatype profile_disposition = DISP_PREFERENCE | DISP_SOFT_LIMIT | DISP_HARD_LIMIT

record profile_entry =
  pe_id :: string
  pe_owner :: profile_owner_key
  pe_topic :: profile_topic
  pe_disposition :: profile_disposition

definition check_entry :: "profile_entry \<Rightarrow> exn + profile_entry" where
  "check_entry e = (if nonblank (pe_id e) then Inr e else Inl ValueError)"

record preference_snapshot =
  sp_owner :: profile_owner_key
  sp_entries :: "profile_entry list"

fun no_duplicate_topics :: "profile_topic list \<Rightarrow> profile_entry list \<Rightarrow> bool" where
  \<comment> \<open>the second loop; \<open>seen_topics\<close> is its set\<close>
  "no_duplicate_topics seen [] = True"
| "no_duplicate_topics seen (e # es) = (pe_topic e \<notin> set seen \<and> no_duplicate_topics (pe_topic e # seen) es)"

definition check_snapshot :: "preference_snapshot \<Rightarrow> exn + preference_snapshot" where
  "check_snapshot n = (if \<not> list_all (\<lambda>e. pe_owner e = sp_owner n) (sp_entries n) then Inl ValueError
     else if \<not> no_duplicate_topics [] (sp_entries n) then Inl ValueError else Inr n)"

section \<open>The policy\<close>

datatype topic_state = TOPIC_HARD_LIMIT | TOPIC_SOFT_LIMIT | TOPIC_PREFERENCE | NO_ACTIVE_STATEMENT

fun topic_state_of :: "profile_disposition \<Rightarrow> topic_state" where
  \<comment> \<open>\<open>TopicState(entry.disposition.value)\<close>\<close>
  "topic_state_of DISP_HARD_LIMIT = TOPIC_HARD_LIMIT"
| "topic_state_of DISP_SOFT_LIMIT = TOPIC_SOFT_LIMIT"
| "topic_state_of DISP_PREFERENCE = TOPIC_PREFERENCE"

fun resolve_in :: "profile_entry list \<Rightarrow> profile_topic \<Rightarrow> topic_state" where
  "resolve_in [] t = NO_ACTIVE_STATEMENT"
| "resolve_in (e # es) t = (if pe_topic e = t then topic_state_of (pe_disposition e) else resolve_in es t)"

definition resolve_topic_state :: "preference_snapshot \<Rightarrow> profile_topic \<Rightarrow> topic_state" where
  "resolve_topic_state n t = resolve_in (sp_entries n) t"

section \<open>What the policy answers\<close>

lemma no_duplicates: "no_duplicate_topics seen es \<longleftrightarrow> distinct (map pe_topic es) \<and> set seen \<inter> pe_topic ` set es = {}"
  by (induction seen es rule: no_duplicate_topics.induct) auto

lemma check_snapshot_iff: "check_snapshot n = Inr m \<longleftrightarrow> m = n \<and> (\<forall>e \<in> set (sp_entries n). pe_owner e = sp_owner n)
    \<and> distinct (map pe_topic (sp_entries n))"
  by (auto simp: check_snapshot_def no_duplicates list_all_iff)

lemma resolve_in_entry: "distinct (map pe_topic es) \<Longrightarrow> e \<in> set es \<Longrightarrow> resolve_in es (pe_topic e) = topic_state_of (pe_disposition e)"
  by (induction es) auto

lemma resolve_in_none: "resolve_in es t = NO_ACTIVE_STATEMENT \<longleftrightarrow> t \<notin> pe_topic ` set es"
proof (induction es)
  case (Cons e es)
  have "topic_state_of d \<noteq> NO_ACTIVE_STATEMENT" for d by (cases d) simp_all
  then show ?case using Cons by auto
qed simp

lemma resolve_in_perm:
  assumes "distinct (map pe_topic es)" and "mset es = mset fs"
  shows "resolve_in es t = resolve_in fs t"
proof (cases "t \<in> pe_topic ` set es")
  case True
  then obtain e where e: "e \<in> set es" "t = pe_topic e" by blast
  have "distinct (map pe_topic fs)" using assms by (metis mset_eq_imp_distinct_iff mset_map)
  moreover have "e \<in> set fs" using e(1) assms(2) by (metis mset_eq_setD)
  ultimately show ?thesis using resolve_in_entry e assms(1) by metis
next
  case False
  then have "t \<notin> pe_topic ` set fs" using mset_eq_setD [OF assms(2)] by simp
  with False show ?thesis using resolve_in_none by metis
qed

definition the_entry :: "preference_snapshot \<Rightarrow> profile_topic \<Rightarrow> profile_entry option" where
  "the_entry n t = find (\<lambda>e. pe_topic e = t) (sp_entries n)"

lemma resolve_the_entry: "resolve_topic_state n t =
    (case the_entry n t of None \<Rightarrow> NO_ACTIVE_STATEMENT | Some e \<Rightarrow> topic_state_of (pe_disposition e))"
proof -
  have "resolve_in es t = (case find (\<lambda>e. pe_topic e = t) es of None \<Rightarrow> NO_ACTIVE_STATEMENT
      | Some e \<Rightarrow> topic_state_of (pe_disposition e))" for es
    by (induction es) auto
  then show ?thesis by (simp add: resolve_topic_state_def the_entry_def)
qed

lemma the_entry_unique:
  assumes "check_snapshot n = Inr n" and "the_entry n t = Some e"
  shows "{x \<in> set (sp_entries n). pe_topic x = t} = {e}" and "pe_owner e = sp_owner n"
proof -
  have d: "distinct (map pe_topic (sp_entries n))" and own: "\<forall>e \<in> set (sp_entries n). pe_owner e = sp_owner n"
    using assms(1) by (simp_all add: check_snapshot_iff)
  have e: "e \<in> set (sp_entries n)" "pe_topic e = t"
    using assms(2) by (auto simp: the_entry_def find_Some_iff)
  have "x = e" if "x \<in> set (sp_entries n)" "pe_topic x = t" for x
    using d that e by (simp add: distinct_map inj_on_def)
  then show "{x \<in> set (sp_entries n). pe_topic x = t} = {e}" using e by blast
  show "pe_owner e = sp_owner n" using own e(1) by simp
qed

text \<open>A snapshot that could be constructed answers every topic unambiguously: the answer is that of the one
  entry about the topic, which belongs to the snapshot's owner, or NO_ACTIVE_STATEMENT when there is
  none, whatever the order of the entries; two statements about one topic, or one of another owner, cannot be
  put into a snapshot at all.\<close>
theorem topic_state_unambiguous:
  assumes "check_snapshot n = Inr n" and "mset es = mset (sp_entries n)"
  shows "case resolve_topic_state (n\<lparr>sp_entries := es\<rparr>) t of
      NO_ACTIVE_STATEMENT \<Rightarrow> {x \<in> set (sp_entries n). pe_topic x = t} = {}
    | state \<Rightarrow> \<exists>e. {x \<in> set (sp_entries n). pe_topic x = t} = {e} \<and> topic_state_of (pe_disposition e) = state
        \<and> pe_owner e = sp_owner n"
proof -
  have d: "distinct (map pe_topic (sp_entries n))" using assms(1) by (simp add: check_snapshot_iff)
  have "resolve_topic_state (n\<lparr>sp_entries := es\<rparr>) t = resolve_topic_state n t"
    using resolve_in_perm [OF d, of es t] assms(2) by (simp add: resolve_topic_state_def)
  moreover have ?thesis if "resolve_topic_state (n\<lparr>sp_entries := es\<rparr>) t = resolve_topic_state n t"
  proof (cases "the_entry n t")
    case None
    then have "{x \<in> set (sp_entries n). pe_topic x = t} = {}" by (auto simp: the_entry_def find_None_iff)
    then show ?thesis using that None by (simp add: resolve_the_entry)
  next
    case (Some e)
    from the_entry_unique [OF assms(1) Some] show ?thesis
      unfolding that unfolding resolve_the_entry Some by (cases "pe_disposition e") auto
  qed
  ultimately show ?thesis by blast
qed

lemma topic_state_unambiguous_witness:
  "resolve_topic_state \<lparr>sp_owner = Owner_Key ''u'', sp_entries = [\<lparr>pe_id = ''1'', pe_owner = Owner_Key ''u'',
      pe_topic = \<lparr>tp_namespace = ''n'', tp_value = ''x''\<rparr>, pe_disposition = DISP_HARD_LIMIT\<rparr>]\<rparr>
    \<lparr>tp_namespace = ''n'', tp_value = ''X''\<rparr> = NO_ACTIVE_STATEMENT"
proof -
  let ?n = "\<lparr>sp_owner = Owner_Key ''u'', sp_entries = [\<lparr>pe_id = ''1'', pe_owner = Owner_Key ''u'',
      pe_topic = \<lparr>tp_namespace = ''n'', tp_value = ''x''\<rparr>, pe_disposition = DISP_HARD_LIMIT\<rparr>]\<rparr>"
  have "check_snapshot ?n = Inr ?n" by code_simp
  note answer = topic_state_unambiguous [OF this refl, of "\<lparr>tp_namespace = ''n'', tp_value = ''X''\<rparr>"]
  have none: "{x \<in> set (sp_entries ?n). pe_topic x = \<lparr>tp_namespace = ''n'', tp_value = ''X''\<rparr>} = {}" by auto
  have same: "?n\<lparr>sp_entries := sp_entries ?n\<rparr> = ?n" by simp
  show ?thesis using answer unfolding none same by (simp split: topic_state.splits)
qed

end
