(* ===== verification/Audit_Store.thy ===== *)
theory Audit_Store
  imports Outbox Iso_Text
begin

text \<open>
  \<open>database/models.py\<close> and \<open>database/database.py\<close> on the tables of \<open>001_initial_schema.sql\<close>: context
  snapshots, the two assessments, decisions, observations, rules with their consent log, and
  conversation messages. Identifiers are texts the caller supplies. A JSON column holds the value
  that is serialised; the dictionaries of \<open>ContextFactor\<close> and \<open>RelevantPattern\<close> keep their instants as text. Rows
  with equal \<open>created_at\<close> are ordered by insertion, where SQL leaves it open.
\<close>

section \<open>The dataclasses\<close>

datatype factor_source = SRC_APPLE_HEALTH | SRC_USER_REPORTED | SRC_INFERRED | SRC_MANUAL_LOG
datatype risk_direction = RISK_OVERLOAD | RISK_STAGNATION | RISK_NONE
datatype decision_method = RULE_BASED | WEIGHTED_SCORE | LLM_ARBITRATION
datatype approval_status = APPROVAL_NOT_REQUIRED | APPROVAL_PENDING | APPROVAL_APPROVED | APPROVAL_REJECTED
datatype observation_type = DECISION_MADE | PERSPECTIVE_CONFLICT | UNEXPECTED_OUTCOME | RECURRING_PATTERN | ESTIMATION_ERROR
datatype consent_target = CT_RULE | CT_PHILOSOPHY | CT_TRUST_ALGORITHM | CT_REWARD_ALGORITHM | CT_INTEGRATION
datatype consent_action = CA_APPROVED | CA_REJECTED | CA_REVOKED
datatype created_by = BY_USER | BY_AI_PROPOSAL
datatype message_role = MSG_USER | MSG_ASSISTANT | MSG_SYSTEM

fun factor_source_value :: "factor_source \<Rightarrow> string" where
  "factor_source_value SRC_APPLE_HEALTH = ''apple_health''"
| "factor_source_value SRC_USER_REPORTED = ''user_reported''"
| "factor_source_value SRC_INFERRED = ''inferred''"
| "factor_source_value SRC_MANUAL_LOG = ''manual_log''"

definition factor_source_of :: "string \<Rightarrow> exn + factor_source" where
  \<comment> \<open>\<open>FactorSource(text)\<close>\<close>
  "factor_source_of t = (case find (\<lambda>x. factor_source_value x = t)
       [SRC_APPLE_HEALTH, SRC_USER_REPORTED, SRC_INFERRED, SRC_MANUAL_LOG] of
     None \<Rightarrow> Inl ValueError | Some x \<Rightarrow> Inr x)"

record context_factor =
  cf_name :: string
  cf_value :: json
  cf_source :: factor_source
  cf_confidence :: real
  cf_observed_at :: datetime

record relevant_pattern =
  rp_pattern_id :: string
  rp_description :: string
  rp_strength :: real
  rp_last_confirmed :: datetime

definition factor_to_dict :: "context_factor \<Rightarrow> payload" where
  "factor_to_dict f = [(''name'', JStr (cf_name f)), (''value'', cf_value f), (''source'', JStr (factor_source_value (cf_source f))),
     (''confidence'', JNum (cf_confidence f)), (''observed_at'', JStr (iso (cf_observed_at f)))]"

definition json_instant :: "json \<Rightarrow> exn + datetime" where
  \<comment> \<open>\<open>parse_iso(value)\<close>\<close>
  "json_instant j = (case json_str j of Inl e \<Rightarrow> Inl AttributeError
     | Inr t \<Rightarrow> (case parse_iso t of None \<Rightarrow> Inl ValueError | Some d \<Rightarrow> Inr d))"

definition factor_from_dict :: "payload \<Rightarrow> exn + context_factor" where
  "factor_from_dict d =
    (case payload_item d ''name'' of Inl e \<Rightarrow> Inl e | Inr n \<Rightarrow>
    (case payload_item d ''value'' of Inl e \<Rightarrow> Inl e | Inr v \<Rightarrow>
    (case payload_item d ''source'' of Inl e \<Rightarrow> Inl e | Inr s \<Rightarrow>
    (case json_str s of Inl e \<Rightarrow> Inl ValueError | Inr st \<Rightarrow>
    (case factor_source_of st of Inl e \<Rightarrow> Inl e | Inr src \<Rightarrow>
    (case payload_item d ''confidence'' of Inl e \<Rightarrow> Inl e | Inr c \<Rightarrow>
    (case payload_item d ''observed_at'' of Inl e \<Rightarrow> Inl e | Inr ob \<Rightarrow>
    (case json_instant ob of Inl e \<Rightarrow> Inl e | Inr t \<Rightarrow>
    (case (json_str n, json_num c) of
       (Inr name, Inr conf) \<Rightarrow> Inr \<lparr>cf_name = name, cf_value = v, cf_source = src, cf_confidence = conf, cf_observed_at = t\<rparr>
     | _ \<Rightarrow> Inl TypeError)))))))))"

definition pattern_to_dict :: "relevant_pattern \<Rightarrow> payload" where
  "pattern_to_dict p = [(''pattern_id'', JStr (rp_pattern_id p)), (''description'', JStr (rp_description p)),
     (''strength'', JNum (rp_strength p)), (''last_confirmed'', JStr (iso (rp_last_confirmed p)))]"

definition pattern_from_dict :: "payload \<Rightarrow> exn + relevant_pattern" where
  "pattern_from_dict d =
    (case payload_item d ''pattern_id'' of Inl e \<Rightarrow> Inl e | Inr i \<Rightarrow>
    (case payload_item d ''description'' of Inl e \<Rightarrow> Inl e | Inr t \<Rightarrow>
    (case payload_item d ''strength'' of Inl e \<Rightarrow> Inl e | Inr s \<Rightarrow>
    (case payload_item d ''last_confirmed'' of Inl e \<Rightarrow> Inl e | Inr c \<Rightarrow>
    (case json_instant c of Inl e \<Rightarrow> Inl e | Inr confirmed_at \<Rightarrow>
    (case (json_str i, json_str t, json_num s) of
       (Inr pid, Inr desc, Inr strength) \<Rightarrow>
         Inr \<lparr>rp_pattern_id = pid, rp_description = desc, rp_strength = strength, rp_last_confirmed = confirmed_at\<rparr>
     | _ \<Rightarrow> Inl TypeError))))))"

record context_snapshot =
  cs_id :: string
  cs_created_at :: time
  cs_engine_version :: string
  cs_factors :: "context_factor list"
  cs_patterns :: "relevant_pattern list"
  cs_overall_confidence :: real
  cs_data_freshness_hours :: real

record coach_assessment =
  ca_id :: string
  ca_created_at :: time
  ca_engine_version :: string
  ca_context_snapshot_id :: string
  ca_recommendation :: string
  ca_reasoning :: string
  ca_confidence :: real
  ca_risk_direction :: risk_direction
  ca_sustainability_score :: real
  ca_supporting_factors :: "string list"

record trust_state =
  ts_trust_score :: real
  ts_recent_trend :: string
  ts_consecutive_failures :: int
  ts_consecutive_successes :: int

record reward_state =
  rs_eligible_rewards :: "string list"
  rs_pending_consequence :: "string option"
  rs_positive_streak_note :: "string option"

record keyholder_assessment =
  ka_id :: string
  ka_created_at :: time
  ka_engine_version :: string
  ka_context_snapshot_id :: string
  ka_recommendation :: string
  ka_reasoning :: string
  ka_confidence :: real
  ka_consistency_score :: real
  ka_trust_state :: trust_state
  ka_reward_state :: reward_state
  ka_rule_relevance :: "string list"

record impact_score =
  is_value :: real
  is_significant :: bool
  is_contributing_factors :: "(string \<times> real) list"

record decision_result =
  dr_id :: string
  dr_created_at :: time
  dr_engine_version :: string
  dr_context_snapshot_id :: string
  dr_coach_assessment_id :: string
  dr_keyholder_assessment_id :: string
  dr_final_decision :: string
  dr_resolution_method :: decision_method
  dr_impact_score :: impact_score
  dr_is_critical_change :: bool
  dr_safety_override :: bool
  dr_requires_user_approval :: bool
  dr_explanation :: "string option"
  dr_approval_status :: approval_status

definition compute_requires_approval :: "decision_result \<Rightarrow> bool" where
  "compute_requires_approval d \<longleftrightarrow> dr_is_critical_change d \<or> is_significant (dr_impact_score d) \<or> dr_safety_override d"

record observation =
  ob_id :: string
  ob_created_at :: time
  ob_type :: observation_type
  ob_related_decision_id :: "string option"
  ob_description :: string
  ob_raw_data :: payload
  ob_flagged_for_review :: bool
  ob_reviewed_at :: "time option"
  ob_review_notes :: "string option"

record rule =
  ru_id :: string
  ru_group_id :: string
  ru_version :: int
  ru_title :: string
  ru_description :: string
  ru_category :: string
  ru_parameters :: payload
  ru_is_active :: bool
  ru_supersedes_id :: "string option"
  ru_created_at :: time
  ru_created_by :: created_by
  ru_is_critical :: bool

record consent_record =
  cr_id :: string
  cr_created_at :: time
  cr_target_type :: consent_target
  cr_target_id :: "string option"
  cr_target_version :: "string option"
  cr_action :: consent_action
  cr_decision_result_id :: "string option"
  cr_explanation_shown :: "string option"
  cr_user_comment :: "string option"

record conversation_message =
  cm_id :: string
  cm_created_at :: time
  cm_role :: message_role
  cm_content :: string
  cm_discord_channel_id :: "string option"
  cm_discord_message_id :: "string option"
  cm_related_decision_id :: "string option"

record trust_history_row =
  th_id :: string
  th_recorded_at :: time
  th_trust_score :: real
  th_reason :: string
  th_keyholder_assessment_id :: "string option"

section \<open>The tables\<close>

text \<open>
  A snapshot row keeps its lists as dictionaries. The column \<open>is_critical\<close> of \<open>rules\<close> is declared
  \<open>TEXT\<close>, so SQLite stores the number the code writes as its digit.
\<close>

record snapshot_row =
  sr_id :: string
  sr_created_at :: time
  sr_engine_version :: string
  sr_overall_confidence :: real
  sr_data_freshness_hours :: real
  sr_factors :: "payload list"
  sr_patterns :: "payload list"

record rule_row =
  rr_rule :: rule \<comment> \<open>every column but \<open>is_critical\<close>\<close>
  rr_is_critical :: string

record audit_db = outbox_db +
  context_snapshots :: "snapshot_row list"
  coach_assessments :: "coach_assessment list"
  keyholder_assessments :: "keyholder_assessment list"
  trust_history :: "trust_history_row list"
  decision_results :: "decision_result list"
  observations :: "observation list"
  rules :: "rule_row list"
  consent_log :: "consent_record list"
  conversation_messages :: "conversation_message list"

definition fresh_key :: "('r \<Rightarrow> string) \<Rightarrow> string \<Rightarrow> 'r list \<Rightarrow> bool" where
  "fresh_key key i rs \<longleftrightarrow> row_by key i rs = None"

definition refers :: "('r \<Rightarrow> string) \<Rightarrow> string option \<Rightarrow> 'r list \<Rightarrow> bool" where
  \<comment> \<open>a nullable foreign key\<close>
  "refers key i rs \<longleftrightarrow> (case i of None \<Rightarrow> True | Some k \<Rightarrow> row_by key k rs \<noteq> None)"

definition integrity :: "('s \<Rightarrow> bool) \<Rightarrow> ('s, unit) tx" where
  "integrity ok = tx_bind (tx_get ok) (\<lambda>b. tx_require b IntegrityError)"

section \<open>Snapshots, assessments and decisions\<close>

definition snapshot_row_of :: "context_snapshot \<Rightarrow> snapshot_row" where
  "snapshot_row_of n = \<lparr>sr_id = cs_id n, sr_created_at = cs_created_at n, sr_engine_version = cs_engine_version n,
     sr_overall_confidence = cs_overall_confidence n, sr_data_freshness_hours = cs_data_freshness_hours n,
     sr_factors = map factor_to_dict (cs_factors n), sr_patterns = map pattern_to_dict (cs_patterns n)\<rparr>"

definition save_context_snapshot :: "context_snapshot \<Rightarrow> ('m audit_db_scheme, string) op" where
  "save_context_snapshot n = atomically
     (tx_bind (integrity (\<lambda>s. fresh_key sr_id (cs_id n) (context_snapshots s))) (\<lambda>_.
      tx_bind (tx_modify (\<lambda>s. s\<lparr>context_snapshots := context_snapshots s @ [snapshot_row_of n]\<rparr>)) (\<lambda>_.
      tx_return (cs_id n))))"

fun each_dict :: "(payload \<Rightarrow> exn + 'a) \<Rightarrow> payload list \<Rightarrow> exn + 'a list" where
  "each_dict f [] = Inr []"
| "each_dict f (d # ds) = (case f d of Inl e \<Rightarrow> Inl e | Inr x \<Rightarrow>
     (case each_dict f ds of Inl e \<Rightarrow> Inl e | Inr xs \<Rightarrow> Inr (x # xs)))"

definition snapshot_of_row :: "snapshot_row \<Rightarrow> exn + context_snapshot" where
  "snapshot_of_row r = (case each_dict factor_from_dict (sr_factors r) of Inl e \<Rightarrow> Inl e | Inr fs \<Rightarrow>
     (case each_dict pattern_from_dict (sr_patterns r) of Inl e \<Rightarrow> Inl e | Inr ps \<Rightarrow>
     Inr \<lparr>cs_id = sr_id r, cs_created_at = sr_created_at r, cs_engine_version = sr_engine_version r,
       cs_factors = fs, cs_patterns = ps, cs_overall_confidence = sr_overall_confidence r,
       cs_data_freshness_hours = sr_data_freshness_hours r\<rparr>))"

definition get_context_snapshot :: "string \<Rightarrow> ('m audit_db_scheme, context_snapshot option) op" where
  "get_context_snapshot i s = (case row_by sr_id i (context_snapshots s) of
      None \<Rightarrow> (Inr None, s)
    | Some r \<Rightarrow> (case snapshot_of_row r of Inl e \<Rightarrow> (Inl e, s) | Inr n \<Rightarrow> (Inr (Some n), s)))"

definition save_coach_assessment :: "coach_assessment \<Rightarrow> ('m audit_db_scheme, string) op" where
  "save_coach_assessment a = atomically
     (tx_bind (integrity (\<lambda>s. fresh_key ca_id (ca_id a) (coach_assessments s)
        \<and> refers sr_id (Some (ca_context_snapshot_id a)) (context_snapshots s))) (\<lambda>_.
      tx_bind (tx_modify (\<lambda>s. s\<lparr>coach_assessments := coach_assessments s @ [a]\<rparr>)) (\<lambda>_.
      tx_return (ca_id a))))"

definition get_coach_assessment :: "string \<Rightarrow> ('m audit_db_scheme, coach_assessment option) op" where
  "get_coach_assessment i = op_get (\<lambda>s. row_by ca_id i (coach_assessments s))"

definition save_keyholder_assessment :: "keyholder_assessment \<Rightarrow> ('m audit_db_scheme, string) op" where
  "save_keyholder_assessment a = atomically
     (tx_bind (integrity (\<lambda>s. fresh_key ka_id (ka_id a) (keyholder_assessments s)
        \<and> refers sr_id (Some (ka_context_snapshot_id a)) (context_snapshots s))) (\<lambda>_.
      tx_bind (tx_modify (\<lambda>s. s\<lparr>keyholder_assessments := keyholder_assessments s @ [a]\<rparr>)) (\<lambda>_.
      tx_return (ka_id a))))"

definition get_keyholder_assessment :: "string \<Rightarrow> ('m audit_db_scheme, keyholder_assessment option) op" where
  "get_keyholder_assessment i = op_get (\<lambda>s. row_by ka_id i (keyholder_assessments s))"

definition record_trust_history ::
  "real \<Rightarrow> string \<Rightarrow> time \<Rightarrow> string option \<Rightarrow> ('m audit_db_scheme, string) op" where
  "record_trust_history score reason now assessment = atomically
     (tx_bind new_id (\<lambda>k. (let i = uuid_text k in
      tx_bind (integrity (\<lambda>s. fresh_key th_id i (trust_history s) \<and> refers ka_id assessment (keyholder_assessments s))) (\<lambda>_.
      tx_bind (tx_modify (\<lambda>s. s\<lparr>trust_history := trust_history s @ [\<lparr>th_id = i, th_recorded_at = now,
        th_trust_score = score, th_reason = reason, th_keyholder_assessment_id = assessment\<rparr>]\<rparr>)) (\<lambda>_.
      tx_return i)))))"

definition save_decision_result :: "decision_result \<Rightarrow> ('m audit_db_scheme, string) op" where
  "save_decision_result d = atomically
     (tx_bind (integrity (\<lambda>s. fresh_key dr_id (dr_id d) (decision_results s)
        \<and> refers sr_id (Some (dr_context_snapshot_id d)) (context_snapshots s)
        \<and> refers ca_id (Some (dr_coach_assessment_id d)) (coach_assessments s)
        \<and> refers ka_id (Some (dr_keyholder_assessment_id d)) (keyholder_assessments s))) (\<lambda>_.
      tx_bind (tx_modify (\<lambda>s. s\<lparr>decision_results := decision_results s @ [d]\<rparr>)) (\<lambda>_.
      tx_return (dr_id d))))"

definition get_decision_result :: "string \<Rightarrow> ('m audit_db_scheme, decision_result option) op" where
  "get_decision_result i = op_get (\<lambda>s. row_by dr_id i (decision_results s))"

definition set_decision_approval_status :: "string \<Rightarrow> approval_status \<Rightarrow> ('m audit_db_scheme, unit) op" where
  "set_decision_approval_status i status = atomically (tx_modify (\<lambda>s. s\<lparr>decision_results :=
     update_where (\<lambda>d. dr_id d = i) (\<lambda>d. d\<lparr>dr_approval_status := status\<rparr>) (decision_results s)\<rparr>))"

fun get_each_decision :: "string list \<Rightarrow> ('m audit_db_scheme, decision_result option list) op" where
  "get_each_decision [] = op_return []"
| "get_each_decision (i # is) = op_bind (get_decision_result i) (\<lambda>d. op_bind (get_each_decision is) (\<lambda>ds. op_return (d # ds)))"

definition get_pending_approvals :: "('m audit_db_scheme, decision_result option list) op" where
  "get_pending_approvals =
     op_bind (op_get (\<lambda>s. map dr_id (filter (\<lambda>d. dr_approval_status d = APPROVAL_PENDING) (decision_results s)))) get_each_decision"

section \<open>Observations and messages\<close>

definition save_observation :: "observation \<Rightarrow> ('m audit_db_scheme, string) op" where
  \<comment> \<open>the review columns are not written\<close>
  "save_observation b = atomically
     (tx_bind (integrity (\<lambda>s. fresh_key ob_id (ob_id b) (observations s)
        \<and> refers dr_id (ob_related_decision_id b) (decision_results s))) (\<lambda>_.
      tx_bind (tx_modify (\<lambda>s. s\<lparr>observations := observations s @
        [b\<lparr>ob_reviewed_at := None, ob_review_notes := None\<rparr>]\<rparr>)) (\<lambda>_.
      tx_return (ob_id b))))"

definition get_unreviewed_observations :: "('m audit_db_scheme, observation list) op" where
  "get_unreviewed_observations = op_get (\<lambda>s.
     sort_key (\<lambda>b. iso_rank (ob_created_at b)) (filter (\<lambda>b. ob_reviewed_at b = None) (observations s)))"

definition mark_observation_reviewed :: "string \<Rightarrow> time \<Rightarrow> string option \<Rightarrow> ('m audit_db_scheme, unit) op" where
  "mark_observation_reviewed i now notes = atomically (tx_modify (\<lambda>s. s\<lparr>observations :=
     update_where (\<lambda>b. ob_id b = i) (\<lambda>b. b\<lparr>ob_reviewed_at := Some now, ob_review_notes := notes\<rparr>) (observations s)\<rparr>))"

definition save_conversation_message :: "conversation_message \<Rightarrow> ('m audit_db_scheme, string) op" where
  "save_conversation_message m = atomically
     (tx_bind (integrity (\<lambda>s. fresh_key cm_id (cm_id m) (conversation_messages s)
        \<and> refers dr_id (cm_related_decision_id m) (decision_results s))) (\<lambda>_.
      tx_bind (tx_modify (\<lambda>s. s\<lparr>conversation_messages := conversation_messages s @ [m]\<rparr>)) (\<lambda>_.
      tx_return (cm_id m))))"

definition sql_limit :: "int \<Rightarrow> 'a list \<Rightarrow> 'a list" where
  \<comment> \<open>a negative \<open>LIMIT\<close> is no limit\<close>
  "sql_limit n xs = (if n < 0 then xs else take (nat n) xs)"

definition get_recent_messages :: "string \<Rightarrow> int \<Rightarrow> ('m audit_db_scheme, conversation_message list) op" where
  \<comment> \<open>\<open>ORDER BY created_at DESC LIMIT ?\<close>, then \<open>reversed\<close>\<close>
  "get_recent_messages channel limit = op_get (\<lambda>s. rev (sql_limit limit (rev
     (sort_key (\<lambda>m. iso_rank (cm_created_at m))
       (filter (\<lambda>m. cm_discord_channel_id m = Some channel) (conversation_messages s))))))"

section \<open>Rules and consent\<close>

definition row_of_rule :: "rule \<Rightarrow> rule_row" where
  "row_of_rule r = \<lparr>rr_rule = r, rr_is_critical = (if ru_is_critical r then ''1'' else ''0'')\<rparr>"

definition rule_of_row :: "rule_row \<Rightarrow> rule" where
  \<comment> \<open>\<open>_row_to_rule\<close>: \<open>bool(row[''is_critical''])\<close> of a text\<close>
  "rule_of_row r = (rr_rule r)\<lparr>ru_is_critical := (rr_is_critical r \<noteq> [])\<rparr>"

definition insert_rule_row :: "rule \<Rightarrow> ('m audit_db_scheme, unit) tx" where
  \<comment> \<open>a row may refer to itself\<close>
  "insert_rule_row r =
     tx_bind (integrity (\<lambda>s. fresh_key (\<lambda>x. ru_id (rr_rule x)) (ru_id r) (rules s) \<and>
       (ru_supersedes_id r = Some (ru_id r) \<or> refers (\<lambda>x. ru_id (rr_rule x)) (ru_supersedes_id r) (rules s)))) (\<lambda>_.
     tx_modify (\<lambda>s. s\<lparr>rules := rules s @ [row_of_rule r]\<rparr>))"

definition insert_consent_row :: "consent_record \<Rightarrow> ('m audit_db_scheme, unit) tx" where
  "insert_consent_row c =
     tx_bind (integrity (\<lambda>s. fresh_key cr_id (cr_id c) (consent_log s) \<and> refers dr_id (cr_decision_result_id c) (decision_results s))) (\<lambda>_.
     tx_modify (\<lambda>s. s\<lparr>consent_log := consent_log s @ [c]\<rparr>))"

definition deactivate_rule :: "string option \<Rightarrow> ('m audit_db_scheme, unit) tx" where
  \<comment> \<open>\<open>if new_rule.supersedes_id: UPDATE rules SET is_active = 0 WHERE id = ?\<close>\<close>
  "deactivate_rule i = (case i of None \<Rightarrow> tx_return ()
     | Some k \<Rightarrow> if k = [] then tx_return () else tx_modify (\<lambda>s. s\<lparr>rules :=
         update_where (\<lambda>x. ru_id (rr_rule x) = k) (\<lambda>x. x\<lparr>rr_rule := (rr_rule x)\<lparr>ru_is_active := False\<rparr>\<rparr>) (rules s)\<rparr>))"

definition save_rule :: "rule \<Rightarrow> ('m audit_db_scheme, string) op" where
  "save_rule r = transition (tx_bind (insert_rule_row r) (\<lambda>_. tx_return (ru_id r))) no_events"

definition supersede_rule :: "rule \<Rightarrow> ('m audit_db_scheme, string) op" where
  "supersede_rule r = transition
     (tx_bind (deactivate_rule (ru_supersedes_id r)) (\<lambda>_.
      tx_bind (insert_rule_row r) (\<lambda>_. tx_return (ru_id r)))) no_events"

definition record_rule_change_with_consent ::
  "rule \<Rightarrow> consent_record \<Rightarrow> ('m audit_db_scheme, string \<times> string) op" where
  "record_rule_change_with_consent r c = transition
     (tx_bind (deactivate_rule (ru_supersedes_id r)) (\<lambda>_.
      tx_bind (insert_rule_row r) (\<lambda>_.
      tx_bind (insert_consent_row c) (\<lambda>_.
      tx_return (ru_id r, cr_id c)))))
     (\<lambda>(rule_id, consent_id). emit ''consent_log.rule_change_recorded'' ''database''
        [(''rule_id'', JStr rule_id), (''consent_id'', JStr consent_id)] (ru_created_at r))"

definition get_active_rules :: "('m audit_db_scheme, rule list) op" where
  "get_active_rules = op_get (\<lambda>s. map rule_of_row (filter (\<lambda>x. ru_is_active (rr_rule x)) (rules s)))"

definition get_rule_history :: "string \<Rightarrow> ('m audit_db_scheme, rule list) op" where
  "get_rule_history g = op_get (\<lambda>s. map rule_of_row
     (sort_key (\<lambda>x. ru_version (rr_rule x)) (filter (\<lambda>x. ru_group_id (rr_rule x) = g) (rules s))))"

definition save_consent_record :: "consent_record \<Rightarrow> ('m audit_db_scheme, string) op" where
  "save_consent_record c = transition (tx_bind (insert_consent_row c) (\<lambda>_. tx_return (cr_id c))) no_events"

definition get_consent_history :: "consent_target \<Rightarrow> string option \<Rightarrow> ('m audit_db_scheme, consent_record list) op" where
  "get_consent_history target i = op_get (\<lambda>s. sort_key (\<lambda>c. iso_rank (cr_created_at c))
     (filter (\<lambda>c. cr_target_type c = target \<and> (i = None \<or> cr_target_id c = i)) (consent_log s)))"

end
