(* ===== verification/Audit_Properties.thy ===== *)
theory Audit_Properties
  imports Audit_Store "HOL-Library.Sublist"
begin

text \<open>
  The older store: what is written comes back as it was, with one exception; a rule change and its
  consent are one transaction; and the rule versions and the consent log are append-only.
\<close>

lemma integrity_apply [tx_simps]: "integrity ok s = (if ok s then Inr ((), s) else Inl IntegrityError)"
  by (simp add: integrity_def tx_bind_def tx_simps)

section \<open>Round trips\<close>

definition factor_ok :: "context_factor \<Rightarrow> bool" where
  "factor_ok f \<longleftrightarrow> valid_datetime (cf_observed_at f)"

definition pattern_ok :: "relevant_pattern \<Rightarrow> bool" where
  "pattern_ok p \<longleftrightarrow> valid_datetime (rp_last_confirmed p)"

lemma factor_source_roundtrip: "factor_source_of (factor_source_value x) = Inr x"
  by (cases x) (simp_all add: factor_source_of_def)

lemma instant_roundtrip: "valid_datetime d \<Longrightarrow> json_instant (JStr (iso d)) = Inr d"
  using parse_iso_iso [of d] by (simp add: json_instant_def)

lemma factor_roundtrip: "factor_ok f \<Longrightarrow> factor_from_dict (factor_to_dict f) = Inr f"
  by (simp add: factor_ok_def factor_from_dict_def factor_to_dict_def payload_item_def factor_source_roundtrip instant_roundtrip)

lemma pattern_roundtrip: "pattern_ok p \<Longrightarrow> pattern_from_dict (pattern_to_dict p) = Inr p"
  by (simp add: pattern_ok_def pattern_from_dict_def pattern_to_dict_def payload_item_def instant_roundtrip)

lemma each_dict_roundtrip: "(\<And>x. x \<in> set xs \<Longrightarrow> f (g x) = Inr x) \<Longrightarrow> each_dict f (map g xs) = Inr xs"
  by (induction xs) simp_all

lemma audit_row_append: "row_by key k (rs @ [r]) = (case row_by key k rs of None \<Rightarrow> if key r = k then Some r else None | Some x \<Rightarrow> Some x)"
  by (induction rs) (simp_all add: row_by_def)

text \<open>A context snapshot that could be saved is read back as it was, its factors and patterns
  with their instants through the dictionaries of JSON texts included; saving under a used
  id raises, and changes nothing.\<close>
theorem context_snapshot_roundtrip:
  assumes "list_all factor_ok (cs_factors n)" and "list_all pattern_ok (cs_patterns n)"
  shows "case save_context_snapshot n s of
      (Inl e, s') \<Rightarrow> e = IntegrityError \<and> s' = s \<and> row_by sr_id (cs_id n) (context_snapshots s) \<noteq> None
    | (Inr i, s') \<Rightarrow> i = cs_id n \<and> get_context_snapshot i s' = (Inr (Some n), s')
        \<and> (\<forall>j. j = i \<or> get_context_snapshot j s' = (fst (get_context_snapshot j s), s'))"
proof (cases "row_by sr_id (cs_id n) (context_snapshots s)")
  case None
  have "snapshot_of_row (snapshot_row_of n) = Inr n"
    using assms
    by (simp add: snapshot_of_row_def snapshot_row_of_def each_dict_roundtrip factor_roundtrip pattern_roundtrip list_all_iff)
  then show ?thesis using None
    by (auto simp: save_context_snapshot_def atomically_def tx_bind_def tx_simps fresh_key_def get_context_snapshot_def
        audit_row_append snapshot_row_of_def split: option.split sum.split)
next
  case (Some r)
  then show ?thesis by (simp add: save_context_snapshot_def atomically_def tx_bind_def tx_simps fresh_key_def)
qed

definition empty_audit :: audit_db where
  "empty_audit = \<lparr>next_id = 0, domain_events = [], event_consumers = [], context_snapshots = [], coach_assessments = [],
     keyholder_assessments = [], trust_history = [], decision_results = [], observations = [], rules = [],
     consent_log = [], conversation_messages = []\<rparr>"

definition sample_snapshot :: context_snapshot where
  "sample_snapshot = \<lparr>cs_id = ''s'', cs_created_at = 0, cs_engine_version = ''context_engine@0.1.0'',
     cs_factors = [\<lparr>cf_name = ''sleep'', cf_value = JNum 7, cf_source = SRC_APPLE_HEALTH, cf_confidence = 1,
       cf_observed_at = after_new_year\<rparr>], cs_patterns = [], cs_overall_confidence = 1, cs_data_freshness_hours = 2\<rparr>"

lemma context_snapshot_roundtrip_witness:
  "\<exists>s'. save_context_snapshot sample_snapshot empty_audit = (Inr ''s'', s')
    \<and> get_context_snapshot ''s'' s' = (Inr (Some sample_snapshot), s')"
proof -
  have ok: "list_all factor_ok (cs_factors sample_snapshot)" "list_all pattern_ok (cs_patterns sample_snapshot)"
    using sample_datetimes_valid by (simp_all add: sample_snapshot_def factor_ok_def)
  have i: "cs_id sample_snapshot = ''s''" by (simp add: sample_snapshot_def)
  show ?thesis using context_snapshot_roundtrip [OF ok, of empty_audit] i
    by (auto simp: empty_audit_def split: prod.splits sum.splits)
qed

section \<open>Rules\<close>

lemma insert_rule_eq: "insert_rule_row r s = (if fresh_key (\<lambda>x. ru_id (rr_rule x)) (ru_id r) (rules s) \<and>
       (ru_supersedes_id r = Some (ru_id r) \<or> refers (\<lambda>x. ru_id (rr_rule x)) (ru_supersedes_id r) (rules s))
     then Inr ((), s\<lparr>rules := rules s @ [row_of_rule r]\<rparr>) else Inl IntegrityError)"
  by (simp add: insert_rule_row_def tx_bind_def tx_simps)

lemma insert_consent_eq: "insert_consent_row c s =
    (if fresh_key cr_id (cr_id c) (consent_log s) \<and> refers dr_id (cr_decision_result_id c) (decision_results s)
     then Inr ((), s\<lparr>consent_log := consent_log s @ [c]\<rparr>) else Inl IntegrityError)"
  by (simp add: insert_consent_row_def tx_bind_def tx_simps)

definition without_rule :: "string option \<Rightarrow> rule_row list \<Rightarrow> rule_row list" where
  "without_rule i rs = (case i of None \<Rightarrow> rs | Some k \<Rightarrow> if k = [] then rs else
     update_where (\<lambda>x. ru_id (rr_rule x) = k) (\<lambda>x. x\<lparr>rr_rule := (rr_rule x)\<lparr>ru_is_active := False\<rparr>\<rparr>) rs)"

lemma deactivate_eq: "deactivate_rule i s = Inr ((), s\<lparr>rules := without_rule i (rules s)\<rparr>)"
  by (auto simp: deactivate_rule_def without_rule_def tx_simps split: option.split)

lemma without_rule_ids: "row_by (\<lambda>x. ru_id (rr_rule x)) k (without_rule i rs) = None \<longleftrightarrow> row_by (\<lambda>x. ru_id (rr_rule x)) k rs = None"
  by (induction rs) (auto simp: without_rule_def row_by_def update_where_def split: option.split)

definition rule_accepted :: "rule \<Rightarrow> 'm audit_db_scheme \<Rightarrow> bool" where
  "rule_accepted r s \<longleftrightarrow> row_by (\<lambda>x. ru_id (rr_rule x)) (ru_id r) (rules s) = None \<and>
     (case ru_supersedes_id r of None \<Rightarrow> True | Some k \<Rightarrow> k = ru_id r \<or> row_by (\<lambda>x. ru_id (rr_rule x)) k (rules s) \<noteq> None)"

definition consent_accepted :: "consent_record \<Rightarrow> 'm audit_db_scheme \<Rightarrow> bool" where
  "consent_accepted c s \<longleftrightarrow> row_by cr_id (cr_id c) (consent_log s) = None \<and>
     (case cr_decision_result_id c of None \<Rightarrow> True | Some k \<Rightarrow> row_by dr_id k (decision_results s) \<noteq> None)"

lemma accepted: "fresh_key (\<lambda>x. ru_id (rr_rule x)) (ru_id r) (without_rule i (rules s)) \<and>
       (ru_supersedes_id r = Some (ru_id r) \<or> refers (\<lambda>x. ru_id (rr_rule x)) (ru_supersedes_id r) (without_rule i (rules s)))
     \<longleftrightarrow> rule_accepted r s"
  by (auto simp: rule_accepted_def fresh_key_def refers_def without_rule_ids split: option.split)

lemma rule_change:
  "record_rule_change_with_consent r c s =
    (if rule_accepted r s \<and> consent_accepted c s
     then (Inr (ru_id r, cr_id c), s\<lparr>next_id := Suc (next_id s),
        rules := without_rule (ru_supersedes_id r) (rules s) @ [row_of_rule r], consent_log := consent_log s @ [c],
        domain_events := domain_events s @ [event_row_of (next_id s)
          \<lparr>de_type = ''consent_log.rule_change_recorded'', de_source = ''database'',
           de_payload = [(''rule_id'', JStr (ru_id r)), (''consent_id'', JStr (cr_id c))], de_occurred_at = ru_created_at r\<rparr>]\<rparr>)
     else (Inl IntegrityError, s))"
  using accepted [of r "ru_supersedes_id r" s]
  by (auto simp: record_rule_change_with_consent_def transition_def apply_transition_def atomically_def tx_bind_def tx_simps
      deactivate_eq insert_rule_eq insert_consent_eq consent_accepted_def fresh_key_def refers_def emit_def write_event_def
      insert_event_def split: option.splits)

text \<open>C36: a rule change and its consent are recorded together or not at all: when either row is
  refused (a used id, a missing predecessor, an unknown decision), nothing has changed, the predecessor is
  still active; otherwise the predecessor is inactive, both rows are appended and exactly one event
  names them.\<close>
theorem rule_change_with_consent_atomic:
  "record_rule_change_with_consent r c s =
    (if rule_accepted r s \<and> consent_accepted c s
     then (Inr (ru_id r, cr_id c), s\<lparr>next_id := Suc (next_id s),
        rules := without_rule (ru_supersedes_id r) (rules s) @ [row_of_rule r], consent_log := consent_log s @ [c],
        domain_events := domain_events s @ [event_row_of (next_id s)
          \<lparr>de_type = ''consent_log.rule_change_recorded'', de_source = ''database'',
           de_payload = [(''rule_id'', JStr (ru_id r)), (''consent_id'', JStr (cr_id c))], de_occurred_at = ru_created_at r\<rparr>]\<rparr>)
     else (Inl IntegrityError, s))"
  by (rule rule_change)

text \<open>C37: \<open>is_critical\<close> does not survive storage: the column is declared \<open>TEXT\<close>, so the number 0
  is stored as a digit (\<open>0\<close>), a non-empty text, which \<open>bool\<close> reads as true. Every rule that was saved is read back with all its
  other fields, but as critical, whether it is or not.\<close>
theorem saved_rule_reads_critical:
  assumes "save_rule r s = (Inr i, s')"
  shows "\<exists>rs. get_rule_history (ru_group_id r) s' = (Inr rs, s') \<and> r\<lparr>ru_is_critical := True\<rparr> \<in> set rs
    \<and> (\<forall>q \<in> set rs. ru_id q = i \<longrightarrow> q = r\<lparr>ru_is_critical := True\<rparr>)"
proof -
  have fresh: "fresh_key (\<lambda>x. ru_id (rr_rule x)) (ru_id r) (rules s)" and i: "i = ru_id r"
    and s': "rules s' = rules s @ [row_of_rule r]"
    using assms by (auto simp: save_rule_def transition_no_events atomically_def tx_bind_def tx_simps insert_rule_eq split: if_splits)
  have other: "ru_id (rr_rule x) \<noteq> ru_id r" if "x \<in> set (rules s)" for x
    using fresh that by (auto simp: fresh_key_def row_by_def find_None_iff)
  have read: "rule_of_row (row_of_rule r) = r\<lparr>ru_is_critical := True\<rparr>" by (simp add: rule_of_row_def row_of_rule_def)
  have "ru_id (rule_of_row x) = ru_id (rr_rule x)" for x by (simp add: rule_of_row_def)
  then show ?thesis using other read
    by (auto simp: get_rule_history_def op_get_def s' i row_of_rule_def)
qed

definition sample_rule :: rule where
  "sample_rule = \<lparr>ru_id = ''r1'', ru_group_id = ''g'', ru_version = 1, ru_title = ''Sleep'', ru_description = '''',
     ru_category = ''sleep'', ru_parameters = [], ru_is_active = True, ru_supersedes_id = None, ru_created_at = 0,
     ru_created_by = BY_USER, ru_is_critical = False\<rparr>"

lemma saved_rule_reads_critical_witness:
  "\<exists>s' rs. save_rule sample_rule empty_audit = (Inr ''r1'', s') \<and> get_rule_history ''g'' s' = (Inr rs, s')
    \<and> sample_rule\<lparr>ru_is_critical := True\<rparr> \<in> set rs \<and> sample_rule \<notin> set rs"
proof -
  obtain s' where run: "save_rule sample_rule empty_audit = (Inr ''r1'', s')"
    by (simp add: save_rule_def transition_no_events atomically_def tx_bind_def tx_simps insert_rule_eq sample_rule_def
        empty_audit_def fresh_key_def refers_def)
  have g: "ru_group_id sample_rule = ''g''" "ru_id sample_rule = ''r1''" "sample_rule\<lparr>ru_is_critical := True\<rparr> \<noteq> sample_rule"
    by (simp_all add: sample_rule_def)
  show ?thesis using saved_rule_reads_critical [OF run] run g by metis
qed

section \<open>Append-only\<close>

inductive audit_step :: "'m audit_db_scheme \<Rightarrow> 'm audit_db_scheme \<Rightarrow> bool" where
  step_save_snapshot: "audit_step s (snd (save_context_snapshot n s))"
| step_save_coach: "audit_step s (snd (save_coach_assessment a s))"
| step_save_keyholder: "audit_step s (snd (save_keyholder_assessment k s))"
| step_trust_history: "audit_step s (snd (record_trust_history score reason now i s))"
| step_save_decision: "audit_step s (snd (save_decision_result d s))"
| step_set_approval: "audit_step s (snd (set_decision_approval_status i status s))"
| step_save_observation: "audit_step s (snd (save_observation b s))"
| step_mark_reviewed: "audit_step s (snd (mark_observation_reviewed i now notes s))"
| step_save_message: "audit_step s (snd (save_conversation_message m s))"
| step_save_rule: "audit_step s (snd (save_rule r s))"
| step_supersede: "audit_step s (snd (supersede_rule r s))"
| step_rule_change: "audit_step s (snd (record_rule_change_with_consent r c s))"
| step_save_consent: "audit_step s (snd (save_consent_record c s))"

definition retired :: "rule_row \<Rightarrow> rule_row" where
  "retired x = x\<lparr>rr_rule := (rr_rule x)\<lparr>ru_is_active := False\<rparr>\<rparr>"

definition rows_kept :: "rule_row list \<Rightarrow> rule_row list \<Rightarrow> bool" where
  \<comment> \<open>the same rows, some of them retired\<close>
  "rows_kept = list_all2 (\<lambda>x y. y = x \<or> y = retired x)"

lemma rows_kept_refl [simp]: "rows_kept rs rs"
  by (simp add: rows_kept_def list_all2_refl)

lemma rows_kept_without: "rows_kept rs (without_rule i rs)"
  by (auto simp: rows_kept_def without_rule_def update_where_def retired_def list_all2_conv_all_nth split: option.split)

definition log_grows :: "'m audit_db_scheme \<Rightarrow> 'm audit_db_scheme \<Rightarrow> bool" where
  "log_grows s s' \<longleftrightarrow> prefix (consent_log s) (consent_log s') \<and> prefix (trust_history s) (trust_history s')
     \<and> prefix (conversation_messages s) (conversation_messages s')
     \<and> (\<exists>old new. rules s' = old @ new \<and> rows_kept (rules s) old)"

lemma log_growsI:
  assumes "consent_log s' = consent_log s @ a" and "trust_history s' = trust_history s @ b"
    and "conversation_messages s' = conversation_messages s @ c" and "rules s' = without_rule i (rules s) @ d"
  shows "log_grows s s'"
  unfolding log_grows_def using assms rows_kept_without by fastforce

lemma log_grows_plain:
  assumes "prefix (consent_log s) (consent_log s')" and "prefix (trust_history s) (trust_history s')"
    and "prefix (conversation_messages s) (conversation_messages s')" and "prefix (rules s) (rules s')"
  shows "log_grows s s'"
  using assms rows_kept_refl by (force simp: log_grows_def prefix_def)

text \<open>C38: the store never rewrites its history: no operation of it removes or changes a row of the consent log,
  the trust history or the conversation, and of a rule version the only thing that ever changes is that
  it is retired.\<close>
theorem audit_store_append_only:
  assumes "audit_step s s'"
  shows "prefix (consent_log s) (consent_log s') \<and> prefix (trust_history s) (trust_history s')
    \<and> prefix (conversation_messages s) (conversation_messages s')
    \<and> (\<exists>old new. rules s' = old @ new \<and> list_all2 (\<lambda>x y. y = x \<or> y = retired x) (rules s) old)"
proof -
  note ops = save_context_snapshot_def save_coach_assessment_def save_keyholder_assessment_def record_trust_history_def
    save_decision_result_def set_decision_approval_status_def save_observation_def mark_observation_reviewed_def
    save_conversation_message_def save_rule_def supersede_rule_def save_consent_record_def
  note run = atomically_def tx_bind_def tx_simps transition_no_events insert_rule_eq insert_consent_eq deactivate_eq
  have "log_grows s s'"
    using assms
  proof cases
    case (step_supersede r)
    then show ?thesis
      by (cases "rule_accepted r s") (auto simp: ops run accepted intro: log_grows_plain log_growsI [where i = "ru_supersedes_id r"])
  next
    case (step_rule_change r c)
    then show ?thesis unfolding rule_change
      by (auto intro: log_grows_plain log_growsI [where i = "ru_supersedes_id r"])
  qed (auto simp: ops run Let_def intro!: log_grows_plain)
  then show ?thesis by (simp add: log_grows_def rows_kept_def)
qed

lemma audit_store_append_only_witness:
  "\<exists>s'. audit_step empty_audit s' \<and> prefix (consent_log empty_audit) (consent_log s') \<and> length (rules s') = 1"
proof -
  let ?s = "snd (save_rule sample_rule empty_audit)"
  have "length (rules ?s) = 1"
    by (simp add: save_rule_def transition_no_events atomically_def tx_bind_def tx_simps insert_rule_eq sample_rule_def
        empty_audit_def fresh_key_def refers_def)
  then show ?thesis using audit_store_append_only [OF step_save_rule [of empty_audit sample_rule]] step_save_rule by blast
qed

end
