(* ===== verification/Backups.thy ===== *)
theory Backups
  imports Iso_Text Migrations
begin

text \<open>
  \<open>database/backup.py\<close>, and the methods of \<open>database/database.py\<close> that work on files: backups, their
  rotation, and the migration of the core schema. The disk holds the database file and the files of the
  backup directory, by name; what a database file contains is left open (\<open>'d\<close>), only the
  version rows a migration reads are asked for. Errors of the operating system are not modelled.
\<close>

section \<open>The disk\<close>

record 'd disk =
  disk_database :: "'d option"
  disk_backups :: "(string \<times> 'd) list option"

definition backup_files :: "'d disk \<Rightarrow> (string \<times> 'd) list" where
  "backup_files s = (case disk_backups s of None \<Rightarrow> [] | Some fs \<Rightarrow> fs)"

definition put_file :: "string \<Rightarrow> 'd \<Rightarrow> (string \<times> 'd) list \<Rightarrow> (string \<times> 'd) list" where
  \<comment> \<open>an existing file of that name is overwritten\<close>
  "put_file name d fs = (name, d) # filter (\<lambda>f. fst f \<noteq> name) fs"

definition db_names :: "(string \<times> 'd) list \<Rightarrow> string list" where
  \<comment> \<open>\<open>glob(''*.db'')\<close>\<close>
  "db_names fs = filter (suffix ''.db'') (map fst fs)"

definition stem_of :: "string \<Rightarrow> string" where
  \<comment> \<open>\<open>path.stem\<close> of a name that ends in \<open>.db\<close>\<close>
  "stem_of name = (if name = ''.db'' then name else take (length name - 3) name)"

definition slice_from :: "int \<Rightarrow> 'a list \<Rightarrow> 'a list" where
  \<comment> \<open>\<open>xs[k:]\<close>\<close>
  "slice_from k xs = drop (nat (if k < 0 then int (length xs) + k else k)) xs"

section \<open>Backups\<close>

definition today_str :: "datetime \<Rightarrow> string" where
  "today_str now = padded 4 (dt_year now) @ padded 2 (dt_month now) @ padded 2 (dt_day now)"

definition timestamp_str :: "datetime \<Rightarrow> string" where
  "timestamp_str now = today_str now @ ''_'' @ padded 2 (dt_hour now) @ padded 2 (dt_minute now) @ padded 2 (dt_second now)"

definition backup_name :: "string \<Rightarrow> datetime \<Rightarrow> string" where
  "backup_name reason now = ''coach_keyholder_'' @ timestamp_str now @ ''_'' @ reason @ ''.db''"

definition create_backup :: "string \<Rightarrow> datetime \<Rightarrow> ('d disk, string option) op" where
  "create_backup reason now s = (case disk_database s of
      None \<Rightarrow> (Inr None, s)
    | Some d \<Rightarrow> (Inr (Some (backup_name reason now)),
        s\<lparr>disk_backups := Some (put_file (backup_name reason now) d (backup_files s))\<rparr>))"

definition of_today :: "datetime \<Rightarrow> string \<Rightarrow> bool" where
  "of_today now name = (let parts = split_at (CHR ''_'') (stem_of name) in
     3 \<le> length parts \<and> parts ! 2 = today_str now)"

definition has_backup_today :: "datetime \<Rightarrow> 'd disk \<Rightarrow> bool" where
  "has_backup_today now s = (case disk_backups s of None \<Rightarrow> False
     | Some fs \<Rightarrow> list_ex (of_today now) (db_names fs))"

definition ensure_daily_backup :: "datetime \<Rightarrow> ('d disk, string option) op" where
  "ensure_daily_backup now s =
     (if has_backup_today now s then (Inr None, s) else create_backup ''daily'' now s)"

definition rotate_backups :: "int \<Rightarrow> ('d disk, string list) op" where
  "rotate_backups keep s = (case disk_backups s of
      None \<Rightarrow> (Inr [], s)
    | Some fs \<Rightarrow> (let to_delete = slice_from keep (rev (sort (db_names fs))) in
        (Inr to_delete, s\<lparr>disk_backups := Some (filter (\<lambda>f. fst f \<notin> set to_delete) fs)\<rparr>)))"

section \<open>The store's methods\<close>

definition default_backup_retention :: int where "default_backup_retention = 14"

definition store_create_backup :: "int \<Rightarrow> string \<Rightarrow> datetime \<Rightarrow> ('d disk, string option) op" where
  "store_create_backup retention reason now =
     op_bind (create_backup reason now) (\<lambda>path.
     op_bind (rotate_backups retention) (\<lambda>_. op_return path))"

definition store_ensure_daily_backup :: "int \<Rightarrow> datetime \<Rightarrow> ('d disk, string option) op" where
  "store_ensure_daily_backup retention now =
     op_bind (ensure_daily_backup now) (\<lambda>path.
     if path \<noteq> None then op_bind (rotate_backups retention) (\<lambda>_. op_return path) else op_return path)"

definition connect :: "'d \<Rightarrow> ('d disk, 'd) op" where
  \<comment> \<open>\<open>sqlite3.connect\<close> creates an empty database when there is no file\<close>
  "connect blank s = (let d = (case disk_database s of None \<Rightarrow> blank | Some d \<Rightarrow> d) in
     (Inr d, s\<lparr>disk_database := Some d\<rparr>))"

definition on_connection :: "'d \<Rightarrow> ('d, 'a) op \<Rightarrow> ('d disk, 'a) op" where
  \<comment> \<open>a \<open>raw_connection\<close>: every script commits by itself, so a failure leaves what ran before it\<close>
  "on_connection blank m = op_bind (connect blank) (\<lambda>d s.
     case m d of (r, d') \<Rightarrow> (r, s\<lparr>disk_database := Some d'\<rparr>))"

definition current_version_of :: "('d \<Rightarrow> int list option) \<Rightarrow> 'd \<Rightarrow> int" where
  \<comment> \<open>\<open>versions d = None\<close>: there is no table \<open>schema_version\<close> yet\<close>
  "current_version_of versions d = (case versions d of None \<Rightarrow> 0 | Some [] \<Rightarrow> 0 | Some (v # vs) \<Rightarrow> foldl max v vs)"

definition migrate ::
  "'d \<Rightarrow> ('d \<Rightarrow> int list option) \<Rightarrow> int \<Rightarrow> (string \<times> ('d, unit) op) list \<Rightarrow> datetime \<Rightarrow> ('d disk, int list) op" where
  "migrate blank versions retention files now =
     op_bind (op_bind (connect blank) (\<lambda>d.
       op_bind (op_lift (pending_files (current_version_of versions d) (sort_key fst files))) (\<lambda>pending.
       op_return (current_version_of versions d, pending)))) (\<lambda>(current, pending).
     if pending = [] then op_return []
     else op_bind (if 0 < current then store_create_backup retention ''pre_migration'' now else op_return None) (\<lambda>_.
       on_connection blank (run_scripts pending)))"

end
