(* ===== verification/Backup_Properties.thy ===== *)
theory Backup_Properties
  imports Backups
begin

text \<open>
  What the backups promise: the rotation keeps the newest files, at most one automatic backup is made a
  day, and a migration never touches a database of which there is no backup.
\<close>

section \<open>Names\<close>

lemma split_at_append: "c \<notin> set xs \<Longrightarrow> split_at c (xs @ c # ys) = xs # split_at c ys"
  by (induction xs) auto

lemma digit_no_underscore: "d < 10 \<Longrightarrow> digit d \<noteq> CHR ''_''"
proof
  assume "d < 10" and "digit d = CHR ''_''"
  then have "(of_char (CHR ''_'') :: nat) = 48 + d" using of_char_digit [of d] by simp
  then show False using \<open>d < 10\<close> by simp
qed

lemma padded_no_underscore: "CHR ''_'' \<notin> set (padded k n)"
  by (induction k n rule: padded.induct) (auto dest: digit_no_underscore [rotated] simp: digit_no_underscore [symmetric])

lemma today_no_underscore: "CHR ''_'' \<notin> set (today_str d)"
  using padded_no_underscore by (auto simp: today_str_def)

lemma backup_name_db [simp]: "suffix ''.db'' (backup_name r d)"
  by (simp add: backup_name_def suffix_def)

lemma stem_backup_name: "stem_of (backup_name r d) = ''coach_keyholder_'' @ timestamp_str d @ ''_'' @ r"
  by (simp add: stem_of_def backup_name_def)

lemma of_today_backup_name: "of_today now (backup_name r d) \<longleftrightarrow> today_str d = today_str now"
proof -
  define rest where "rest = padded 2 (dt_hour d) @ padded 2 (dt_minute d) @ padded 2 (dt_second d) @ ''_'' @ r"
  have "stem_of (backup_name r d) = ''coach'' @ CHR ''_'' # (''keyholder'' @ CHR ''_'' # (today_str d @ CHR ''_'' # rest))"
    by (simp add: stem_backup_name timestamp_str_def rest_def)
  then have "split_at (CHR ''_'') (stem_of (backup_name r d))
      = ''coach'' # ''keyholder'' # today_str d # split_at (CHR ''_'') rest"
    using split_at_append [of "CHR ''_''" "''coach''"] split_at_append [of "CHR ''_''" "''keyholder''"]
      split_at_append [OF today_no_underscore] by simp
  then show ?thesis by (simp add: of_today_def)
qed

lemma length_today [simp]: "length (today_str d) = 8"
  by (simp add: today_str_def)

lemma timestamp_less:
  assumes "valid_datetime a" and "valid_datetime b"
  shows "timestamp_str a < timestamp_str b \<longleftrightarrow> civil a < civil b"
    and "timestamp_str a = timestamp_str b \<longleftrightarrow> civil a = civil b"
  using field_bounds [OF assms(1)] field_bounds [OF assms(2)]
  by (simp_all add: timestamp_str_def today_str_def civil_def less_append_same_length padded_less padded_inj)

lemma backup_name_less:
  assumes "valid_datetime a" and "valid_datetime b" and "backup_name r a \<le> backup_name q b"
  shows "civil a \<le> civil b"
proof -
  have len: "length (timestamp_str a) = length (timestamp_str b)" by (simp add: timestamp_str_def)
  have "\<not> timestamp_str b < timestamp_str a"
    using assms(3) len by (auto simp: backup_name_def less_append_same_length not_less [symmetric])
  then show ?thesis using timestamp_less(1) [OF assms(2,1)] by (simp add: not_less)
qed

section \<open>Rotation\<close>

lemma db_names_put: "db_names (put_file n d fs) = (if suffix ''.db'' n then [n] else []) @ filter (\<lambda>m. m \<noteq> n) (db_names fs)"
  by (auto simp: db_names_def put_file_def filter_map comp_def conj_commute)

lemma db_names_filter: "db_names (filter (\<lambda>f. P (fst f)) fs) = filter P (db_names fs)"
  by (induction fs) (auto simp: db_names_def)

lemma distinct_put: "distinct (map fst fs) \<Longrightarrow> distinct (map fst (put_file n d fs))"
  by (auto simp: put_file_def distinct_map_filter)

lemma distinct_db_names: "distinct (map fst fs) \<Longrightarrow> distinct (db_names fs)"
  by (simp add: db_names_def)

definition ranked :: "(string \<times> 'd) list \<Rightarrow> string list" where
  "ranked fs = rev (sort (db_names fs))"

lemma ranked: "distinct (map fst fs) \<Longrightarrow> sorted_wrt (>) (ranked fs)" "set (ranked fs) = set (db_names fs)"
  "length (ranked fs) = length (db_names fs)" "distinct (map fst fs) \<Longrightarrow> distinct (ranked fs)"
  by (simp_all add: ranked_def sorted_wrt_rev distinct_db_names strict_sorted_iff)

lemma rotate_eq:
  assumes "disk_backups s = Some fs" and "0 \<le> keep"
  shows "rotate_backups keep s = (Inr (drop (nat keep) (ranked fs)),
    s\<lparr>disk_backups := Some (filter (\<lambda>f. fst f \<notin> set (drop (nat keep) (ranked fs))) fs)\<rparr>)"
  using assms by (simp add: rotate_backups_def slice_from_def ranked_def Let_def)

lemma kept_names:
  assumes "distinct (map fst fs)"
  shows "set (filter (\<lambda>n. n \<notin> set (drop k (ranked fs))) (db_names fs)) = set (take k (ranked fs))"
proof -
  have "set (db_names fs) = set (take k (ranked fs)) \<union> set (drop k (ranked fs))"
    by (metis append_take_drop_id ranked(2) set_append)
  moreover have "set (take k (ranked fs)) \<inter> set (drop k (ranked fs)) = {}"
    using ranked(4) [OF assms] by (simp add: set_take_disj_set_drop_if_distinct)
  ultimately show ?thesis by auto
qed

lemma newer_kept:
  assumes "distinct (map fst fs)" and "x \<in> set (drop k (ranked fs))" and "y \<in> set (take k (ranked fs))"
  shows "x < y"
  using ranked(1) [OF assms(1)] assms(2,3) by (metis append_take_drop_id sorted_wrt_append)

lemma few_newer_kept:
  assumes d: "distinct (map fst fs)" and n: "n \<in> set (db_names fs)" and few: "card {m \<in> set (db_names fs). n < m} < k"
  shows "n \<in> set (take k (ranked fs))"
proof (rule ccontr)
  assume "n \<notin> set (take k (ranked fs))"
  then have dropped: "n \<in> set (drop k (ranked fs))" using n ranked(2) [of fs]
    by (metis Un_iff append_take_drop_id set_append)
  then have "k \<le> length (ranked fs)" by (metis drop_all empty_iff list.set(1) nat_le_linear)
  then have "card (set (take k (ranked fs))) = k"
    using ranked(4) [OF d] by (simp add: distinct_card)
  moreover have "set (take k (ranked fs)) \<subseteq> {m \<in> set (db_names fs). n < m}"
    using newer_kept [OF d dropped] set_take_subset [of k "ranked fs"] ranked(2) [of fs] by auto
  ultimately show False using few card_mono [of "{m \<in> set (db_names fs). n < m}" "set (take k (ranked fs))"] by simp
qed

text \<open>Rotation keeps the newest backups: it deletes the \<open>.db\<close> files beyond the retention, each of
  which sorts before every one that stays, and nothing else; and because the names of backups sort like the
  seconds they were made in, no backup that is deleted is newer than one that stays.\<close>
theorem rotation_keeps_newest:
  assumes "distinct (map fst (backup_files s))" and "0 \<le> keep"
  shows "\<exists>deleted s'. rotate_backups keep s = (Inr deleted, s') \<and> disk_database s' = disk_database s
    \<and> set (backup_files s') = {f \<in> set (backup_files s). fst f \<notin> set deleted}
    \<and> set deleted \<subseteq> set (db_names (backup_files s))
    \<and> length (db_names (backup_files s')) = min (nat keep) (length (db_names (backup_files s)))
    \<and> (\<forall>x \<in> set deleted. \<forall>y \<in> set (db_names (backup_files s')). x < y
        \<and> (\<forall>a b r q. x = backup_name r a \<and> y = backup_name q b \<and> valid_datetime a \<and> valid_datetime b \<longrightarrow> civil a \<le> civil b))"
proof (cases "disk_backups s")
  case None
  then show ?thesis by (simp add: rotate_backups_def backup_files_def db_names_def)
next
  case (Some fs)
  then have fs: "backup_files s = fs" "distinct (map fst fs)" using assms(1) by (simp_all add: backup_files_def)
  let ?k = "nat keep"
  let ?gone = "drop ?k (ranked fs)"
  let ?s' = "s\<lparr>disk_backups := Some (filter (\<lambda>f. fst f \<notin> set ?gone) fs)\<rparr>"
  have kept: "set (db_names (backup_files ?s')) = set (take ?k (ranked fs))"
    using kept_names [OF fs(2), of ?k] db_names_filter [of "\<lambda>n. n \<notin> set ?gone" fs] by (simp add: backup_files_def)
  have "distinct (db_names (backup_files ?s'))"
    using fs(2) by (simp add: backup_files_def distinct_db_names distinct_map_filter)
  then have "length (db_names (backup_files ?s')) = card (set (take ?k (ranked fs)))"
    using kept by (metis distinct_card)
  also have "\<dots> = min ?k (length (db_names fs))"
    using ranked(3) [of fs] ranked(4) [OF fs(2)] by (simp add: distinct_card min.commute)
  finally have len: "length (db_names (backup_files ?s')) = min ?k (length (db_names fs))" .
  have "set ?gone \<subseteq> set (db_names fs)" using ranked(2) [of fs] set_drop_subset by metis
  moreover have "x < y \<and> (\<forall>a b r q. x = backup_name r a \<and> y = backup_name q b \<and> valid_datetime a \<and> valid_datetime b \<longrightarrow> civil a \<le> civil b)"
    if "x \<in> set ?gone" "y \<in> set (take ?k (ranked fs))" for x y
    using newer_kept [OF fs(2) that] backup_name_less by (metis order_less_imp_le)
  ultimately show ?thesis
    using rotate_eq [OF Some assms(2)] len kept fs(1) by (auto simp: backup_files_def)
qed

definition night :: datetime where
  "night = new_year\<lparr>dt_hour := 3\<rparr>"

definition yesterdays_disk :: "nat disk" where
  "yesterdays_disk = \<lparr>disk_database = Some 7,
     disk_backups = Some [(backup_name ''daily'' new_year, 5), (''notes.txt'', 0), (backup_name ''pre_migration'' night, 6)]\<rparr>"

lemma night_valid: "valid_datetime night"
  using sample_datetimes_valid by (simp add: night_def valid_datetime_def new_year_def is_leap_def)

lemma disk_names: "timestamp_str new_year < timestamp_str night" "length (timestamp_str new_year) = length (timestamp_str night)"
  using timestamp_less(1) [OF sample_datetimes_valid(1) night_valid]
  by (simp_all add: civil_def night_def new_year_def timestamp_str_def)

lemma disk_name_less: "backup_name ''daily'' new_year < backup_name ''pre_migration'' night"
  using disk_names by (auto simp: backup_name_def less_append_same_length)

lemma disk_files: "backup_files yesterdays_disk =
    [(backup_name ''daily'' new_year, 5), (''notes.txt'', 0), (backup_name ''pre_migration'' night, 6)]"
  by (simp add: yesterdays_disk_def backup_files_def)

lemma not_a_backup: "\<not> suffix ''.db'' ''notes.txt''" "backup_name r d \<noteq> ''notes.txt''" "''notes.txt'' \<noteq> backup_name r d"
proof -
  show "\<not> suffix ''.db'' ''notes.txt''" by code_simp
  then show "backup_name r d \<noteq> ''notes.txt''" "''notes.txt'' \<noteq> backup_name r d" using backup_name_db [of r d] by metis+
qed

lemma two_backups: "backup_name ''daily'' new_year \<noteq> backup_name ''pre_migration'' night"
  "backup_name ''pre_migration'' night \<noteq> backup_name ''daily'' new_year"
  using disk_name_less by (metis less_irrefl)+

lemma disk_distinct: "distinct (map fst (backup_files yesterdays_disk))"
  unfolding disk_files using not_a_backup two_backups by simp

lemma disk_ranked: "ranked (backup_files yesterdays_disk) = [backup_name ''pre_migration'' night, backup_name ''daily'' new_year]"
  unfolding disk_files using less_imp_le [OF disk_name_less] not_a_backup by (simp add: ranked_def db_names_def)

lemma rotation_keeps_newest_witness:
  "\<exists>s'. rotate_backups 1 yesterdays_disk = (Inr [backup_name ''daily'' new_year], s')
    \<and> set (backup_files s') = {(''notes.txt'', 0), (backup_name ''pre_migration'' night, 6)}"
proof -
  have fs: "disk_backups yesterdays_disk = Some (backup_files yesterdays_disk)"
    by (simp add: yesterdays_disk_def backup_files_def)
  have "fst (rotate_backups 1 yesterdays_disk) = Inr [backup_name ''daily'' new_year]"
    using rotate_eq [OF fs, of 1] disk_ranked by simp
  moreover obtain deleted s' where r: "rotate_backups 1 yesterdays_disk = (Inr deleted, s')"
      "set (backup_files s') = {f \<in> set (backup_files yesterdays_disk). fst f \<notin> set deleted}"
    using rotation_keeps_newest [OF disk_distinct, of 1] by auto
  ultimately have del: "deleted = [backup_name ''daily'' new_year]" by simp
  have "{f \<in> set [(a, x), (b, y), (c, z)]. fst f \<notin> set [a]} = {(b, y), (c, z)}" if "b \<noteq> a" "c \<noteq> a"
    for a b c :: string and x y z :: nat
    using that by auto
  from this [OF not_a_backup(3) two_backups(2)]
  have "set (backup_files s') = {(''notes.txt'', 0), (backup_name ''pre_migration'' night, 6)}"
    using r(2) unfolding del disk_files by (simp only:)
  then show ?thesis using r(1) del by blast
qed

section \<open>One automatic backup a day\<close>

definition same_day :: "datetime \<Rightarrow> datetime \<Rightarrow> bool" where
  "same_day a b \<longleftrightarrow> dt_year a = dt_year b \<and> dt_month a = dt_month b \<and> dt_day a = dt_day b"

definition earlier_day :: "datetime \<Rightarrow> datetime \<Rightarrow> bool" where
  "earlier_day a b \<longleftrightarrow> dt_year a < dt_year b \<or> dt_year a = dt_year b \<and>
     (dt_month a < dt_month b \<or> dt_month a = dt_month b \<and> dt_day a < dt_day b)"

definition backup_of_day :: "datetime \<Rightarrow> 'd disk \<Rightarrow> bool" where
  \<comment> \<open>some backup, of any reason, made at an instant of that day\<close>
  "backup_of_day now s \<longleftrightarrow>
     (\<exists>r t. valid_datetime t \<and> same_day t now \<and> backup_name r t \<in> fst ` set (backup_files s))"

lemma same_day_str: "same_day a b \<Longrightarrow> today_str a = today_str b"
  by (simp add: same_day_def today_str_def)

lemma today_str_same:
  assumes "valid_datetime a" and "valid_datetime b"
  shows "today_str a = today_str b \<longleftrightarrow> same_day a b"
  using field_bounds [OF assms(1)] field_bounds [OF assms(2)]
  by (simp add: today_str_def same_day_def padded_inj)

lemma created:
  assumes "disk_database s = Some d"
  shows "create_backup r now s = (Inr (Some (backup_name r now)),
    s\<lparr>disk_backups := Some (put_file (backup_name r now) d (backup_files s))\<rparr>)"
  using assms by (simp add: create_backup_def)

lemma has_backup_today_eq: "has_backup_today now s \<longleftrightarrow> (\<exists>n \<in> set (db_names (backup_files s)). of_today now n)"
  by (cases "disk_backups s") (simp_all add: has_backup_today_def backup_files_def list_ex_iff db_names_def)

lemma has_backup_today_iff:
  assumes now: "valid_datetime now"
    and own: "\<forall>n \<in> set (db_names (backup_files s)). \<exists>r t. valid_datetime t \<and> n = backup_name r t"
  shows "has_backup_today now s \<longleftrightarrow> backup_of_day now s"
proof
  assume "has_backup_today now s"
  then obtain n where n: "n \<in> set (db_names (backup_files s))" "of_today now n" by (auto simp: has_backup_today_eq)
  then obtain r t where t: "valid_datetime t" "n = backup_name r t" using own by blast
  then have "same_day t now" using n(2) today_str_same [OF t(1) now] by (simp add: of_today_backup_name)
  then show "backup_of_day now s" using n(1) t by (auto simp: backup_of_day_def db_names_def)
next
  assume "backup_of_day now s"
  then obtain r t where t: "same_day t now" "backup_name r t \<in> fst ` set (backup_files s)"
    by (auto simp: backup_of_day_def)
  then have "backup_name r t \<in> set (db_names (backup_files s))" by (simp add: db_names_def)
  moreover have "of_today now (backup_name r t)" using same_day_str [OF t(1)] by (simp add: of_today_backup_name)
  ultimately show "has_backup_today now s" unfolding has_backup_today_eq by blast
qed

lemma earlier_backup_less:
  assumes "valid_datetime t" and "valid_datetime now" and "earlier_day t now"
  shows "backup_name r t < backup_name q now"
proof (rule ccontr)
  assume "\<not> backup_name r t < backup_name q now"
  then have "civil now \<le> civil t" using backup_name_less [OF assms(2,1)] by (simp add: not_less)
  moreover have "civil t < civil now" using assms(3) by (auto simp: earlier_day_def civil_def)
  ultimately show False by simp
qed

text \<open>C40: at most one automatic backup is made a day. When the \<open>.db\<close> files of the directory are backups made
  up to this day (so the clock has not gone back to an earlier day), a startup makes one exactly when no
  backup of this day, of any reason, is there; the rotation keeps it, and it holds the database of that
  moment. So a backup of this day is there afterwards, and every further startup of the same day
  makes none and deletes none.\<close>
theorem daily_backup_once:
  assumes names: "distinct (map fst (backup_files s))" and db: "disk_database s = Some d" and keep: "1 \<le> retention"
    and now: "valid_datetime now"
    and own: "\<forall>n \<in> set (db_names (backup_files s)). \<exists>r t. valid_datetime t \<and> n = backup_name r t
      \<and> (earlier_day t now \<or> same_day t now)"
    and day: "same_day now later"
  shows "\<exists>made s'. store_ensure_daily_backup retention now s = (Inr made, s') \<and> backup_of_day now s'
    \<and> (if backup_of_day now s then made = None \<and> s' = s
       else made = Some (backup_name ''daily'' now) \<and> map_of (backup_files s') (backup_name ''daily'' now) = Some d)
    \<and> store_ensure_daily_backup retention later s' = (Inr None, s')"
proof -
  have again: "store_ensure_daily_backup retention later s' = (Inr None, s')"
    if "n \<in> set (db_names (backup_files s'))" "of_today now n" for n and s' :: "'a disk"
    using that same_day_str [OF day]
    by (auto simp: store_ensure_daily_backup_def op_bind_def op_return_def ensure_daily_backup_def has_backup_today_eq of_today_def)
  have today: "has_backup_today now s \<longleftrightarrow> backup_of_day now s"
    using own by (intro has_backup_today_iff [OF now]) blast
  show ?thesis
  proof (cases "backup_of_day now s")
    case True
    then have has: "has_backup_today now s" by (simp add: today)
    then obtain n where "n \<in> set (db_names (backup_files s))" "of_today now n" by (auto simp: has_backup_today_eq)
    note later = again [OF this]
    have "store_ensure_daily_backup retention now s = (Inr None, s)"
      using has by (simp add: store_ensure_daily_backup_def op_bind_def op_return_def ensure_daily_backup_def)
    then show ?thesis using later True by auto
  next
    case False
    let ?n = "backup_name ''daily'' now"
    let ?fs = "put_file ?n d (backup_files s)"
    let ?gone = "drop (nat retention) (ranked ?fs)"
    let ?s' = "s\<lparr>disk_backups := Some (filter (\<lambda>f. fst f \<notin> set ?gone) ?fs)\<rparr>"
    have run: "store_ensure_daily_backup retention now s = (Inr (Some ?n), ?s')"
      using False today rotate_eq [of "s\<lparr>disk_backups := Some ?fs\<rparr>" ?fs retention] keep
      by (simp add: store_ensure_daily_backup_def op_bind_def op_return_def ensure_daily_backup_def created [OF db])
    have "m < ?n" if m: "m \<in> set (db_names (backup_files s))" for m
    proof -
      obtain r t where t: "valid_datetime t" "m = backup_name r t" "earlier_day t now \<or> same_day t now"
        using own m by blast
      have "\<not> same_day t now" using False t(1,2) m by (auto simp: backup_of_day_def db_names_def)
      then show ?thesis using t earlier_backup_less [OF t(1) now] by blast
    qed
    then have "{m \<in> set (db_names ?fs). ?n < m} = {}" by (fastforce simp: db_names_put)
    then have "card {m \<in> set (db_names ?fs). ?n < m} < nat retention" using keep by (simp only: card.empty)
    moreover have "?n \<in> set (db_names ?fs)" by (simp add: db_names_put)
    ultimately have "?n \<in> set (take (nat retention) (ranked ?fs))"
      by (intro few_newer_kept [OF distinct_put [OF names]])
    then have kept: "?n \<notin> set ?gone"
      using newer_kept [OF distinct_put [OF names], of ?n "nat retention" ?n d ?n] by auto
    then have holds: "map_of (backup_files ?s') ?n = Some d" by (simp add: backup_files_def put_file_def)
    have there: "?n \<in> set (db_names (backup_files ?s'))" using kept by (simp add: backup_files_def put_file_def db_names_def)
    have "backup_of_day now ?s'" unfolding backup_of_day_def
      using now there by (intro exI [of _ "''daily''"] exI [of _ now]) (simp add: same_day_def db_names_def)
    moreover have "of_today now ?n" by (simp add: of_today_backup_name)
    ultimately show ?thesis using run again [OF there] holds False by auto
  qed
qed

lemma daily_backup_once_witness:
  "\<exists>s'. store_ensure_daily_backup 14 new_year
      \<lparr>disk_database = Some (7 :: nat), disk_backups = Some [(backup_name ''daily'' (new_year\<lparr>dt_year := 2023\<rparr>), 5)]\<rparr>
        = (Inr (Some (backup_name ''daily'' new_year)), s')
    \<and> map_of (backup_files s') (backup_name ''daily'' new_year) = Some 7
    \<and> store_ensure_daily_backup 14 night s' = (Inr None, s')"
proof -
  let ?old = "new_year\<lparr>dt_year := 2023\<rparr>"
  let ?s = "\<lparr>disk_database = Some (7 :: nat), disk_backups = Some [(backup_name ''daily'' ?old, 5)]\<rparr>"
  have old: "valid_datetime ?old" "earlier_day ?old new_year" "\<not> same_day ?old new_year"
    by (simp_all add: valid_datetime_def earlier_day_def same_day_def new_year_def is_leap_def)
  have files: "fst ` set (backup_files ?s) = {backup_name ''daily'' ?old}" "distinct (map fst (backup_files ?s))"
    "disk_database ?s = Some 7" by (simp_all add: backup_files_def)
  have own: "\<forall>n \<in> set (db_names (backup_files ?s)). \<exists>r t. valid_datetime t \<and> n = backup_name r t
      \<and> (earlier_day t new_year \<or> same_day t new_year)"
    using old by (auto simp: backup_files_def db_names_def)
  have day: "same_day new_year night" by (simp add: same_day_def night_def new_year_def)
  have "\<not> has_backup_today new_year ?s"
    using today_str_same [OF old(1) sample_datetimes_valid(1)] old(3)
    by (simp add: has_backup_today_eq backup_files_def db_names_def of_today_backup_name)
  then have "\<not> backup_of_day new_year ?s"
    using has_backup_today_iff [OF sample_datetimes_valid(1), of ?s] own by blast
  then show ?thesis
    using daily_backup_once [OF files(2,3) _ sample_datetimes_valid(1) own day, of 14] by auto
qed

section \<open>Migrations\<close>

lemma connected: "disk_database s = Some d \<Longrightarrow> connect blank s = (Inr d, s)"
  by (simp add: connect_def)

lemma migrate_eq:
  assumes "disk_database s = Some d"
  shows "migrate blank versions retention files now s =
    (case pending_files (current_version_of versions d) (sort_key fst files) of
       Inl e \<Rightarrow> (Inl e, s)
     | Inr [] \<Rightarrow> (Inr [], s)
     | Inr pending \<Rightarrow>
         (let s1 = (if 0 < current_version_of versions d
            then snd (store_create_backup retention ''pre_migration'' now s) else s) in
          case run_scripts pending d of (r, d') \<Rightarrow> (r, s1\<lparr>disk_database := Some d'\<rparr>)))"
proof -
  have backup: "\<exists>p. store_create_backup retention ''pre_migration'' now s
      = (Inr p, snd (store_create_backup retention ''pre_migration'' now s))
      \<and> disk_database (snd (store_create_backup retention ''pre_migration'' now s)) = Some d"
    by (simp add: store_create_backup_def op_bind_def op_return_def created [OF assms] rotate_backups_def Let_def assms)
  then obtain p where p: "store_create_backup retention ''pre_migration'' now s
      = (Inr p, snd (store_create_backup retention ''pre_migration'' now s))"
    and db: "disk_database (snd (store_create_backup retention ''pre_migration'' now s)) = Some d" by blast
  have on: "on_connection blank m x = (case m d of (r, d') \<Rightarrow> (r, x\<lparr>disk_database := Some d'\<rparr>))"
    if "disk_database x = Some d" for m :: "('a, int list) op" and x
    using that by (simp add: on_connection_def op_bind_def connected)
  show ?thesis
  proof (cases "pending_files (current_version_of versions d) (sort_key fst files)")
    case (Inr pending)
    show ?thesis
    proof (cases pending)
      case (Cons q qs)
      have "(if 0 < current_version_of versions d then store_create_backup retention ''pre_migration'' now else op_return None) s
          = (Inr (if 0 < current_version_of versions d then p else None),
             if 0 < current_version_of versions d then snd (store_create_backup retention ''pre_migration'' now s) else s)"
        using p by (auto simp: op_return_def)
      then show ?thesis using Inr Cons assms db
        by (simp add: migrate_def op_bind_def op_lift_def op_return_def connected on Let_def split: prod.split)
    qed (use Inr assms in \<open>simp add: migrate_def op_bind_def op_lift_def op_return_def connected\<close>)
  qed (use assms in \<open>simp add: migrate_def op_bind_def op_lift_def connected\<close>)
qed

lemma backup_survives:
  assumes names: "distinct (map fst (backup_files s))" and db: "disk_database s = Some d"
    and few: "card {n \<in> set (db_names (backup_files s)). backup_name r now < n} < nat retention"
  shows "map_of (backup_files (snd (store_create_backup retention r now s))) (backup_name r now) = Some d"
proof -
  let ?n = "backup_name r now"
  let ?fs = "put_file ?n d (backup_files s)"
  let ?gone = "drop (nat retention) (ranked ?fs)"
  have keep: "0 \<le> retention" using few by (cases "0 \<le> retention") auto
  have "{m \<in> set (db_names ?fs). ?n < m} = {m \<in> set (db_names (backup_files s)). ?n < m}" by (auto simp: db_names_put)
  then have "?n \<in> set (take (nat retention) (ranked ?fs))"
    using few_newer_kept [OF distinct_put [OF names], of ?n ?n d "nat retention"] few by (simp add: db_names_put)
  then have "?n \<notin> set ?gone"
    using newer_kept [OF distinct_put [OF names], of ?n "nat retention" ?n d ?n] by auto
  then have "map_of (filter (\<lambda>f. fst f \<notin> set ?gone) ?fs) ?n = Some d" by (simp add: put_file_def)
  then show ?thesis
    using rotate_eq [of "s\<lparr>disk_backups := Some ?fs\<rparr>" ?fs retention] keep
    by (simp add: store_create_backup_def op_bind_def op_return_def created [OF db] backup_files_def [of "_\<lparr>disk_backups := _\<rparr>"])
qed

text \<open>C39: a migration never touches a database of which there is no backup: whatever the scripts do, also when one
  of them fails half way, the database is as it was, or it had no schema yet, or the backup directory
  holds a file with what the database was before (provided fewer files than the retention sort after
  its name, so that the rotation does not delete it at once).\<close>
theorem migration_backed_up:
  assumes "distinct (map fst (backup_files s))" and "disk_database s = Some d"
    and "card {n \<in> set (db_names (backup_files s)). backup_name ''pre_migration'' now < n} < nat retention"
  shows "case migrate blank versions retention files now s of (r, s') \<Rightarrow> \<exists>d'. disk_database s' = Some d' \<and>
    (d' = d \<or> current_version_of versions d \<le> 0 \<or> map_of (backup_files s') (backup_name ''pre_migration'' now) = Some d)"
  using backup_survives [OF assms] assms(2)
  by (auto simp: migrate_eq [OF assms(2)] Let_def backup_files_def split: sum.split list.split prod.split)

definition note_version :: "int \<Rightarrow> (int list, unit) op" where
  "note_version v = (\<lambda>d. (Inr (), d @ [v]))"

lemma migration_backed_up_witness:
  "\<exists>s'. migrate [] Some 14 [(''001_a.sql'', note_version 1), (''002_b.sql'', \<lambda>d. (Inl IntegrityError, d @ [9]))] new_year
      \<lparr>disk_database = Some [1], disk_backups = None\<rparr> = (Inl IntegrityError, s')
    \<and> disk_database s' = Some [1, 9] \<and> map_of (backup_files s') (backup_name ''pre_migration'' new_year) = Some [1]"
proof -
  let ?s = "\<lparr>disk_database = Some [1 :: int], disk_backups = None\<rparr>"
  let ?files = "[(''001_a.sql'', note_version 1), (''002_b.sql'', \<lambda>d. (Inl IntegrityError, d @ [9]))]"
  have files: "backup_files ?s = []" by (simp add: backup_files_def)
  have v: "file_version ''001_a.sql'' = Inr 1" "file_version ''002_b.sql'' = Inr 2" by code_simp+
  have "''001_a.sql'' \<le> ''002_b.sql''" by code_simp
  then have sorted: "sort_key fst ?files = ?files" by simp
  have run: "\<exists>s'. migrate [] Some 14 ?files new_year ?s = (Inl IntegrityError, s') \<and> disk_database s' = Some [1, 9]"
    unfolding migrate_eq [of ?s "[1]", simplified] sorted
    by (simp add: v res_bind_def current_version_of_def op_bind_def Let_def)
  then obtain s' where s': "migrate [] Some 14 ?files new_year ?s = (Inl IntegrityError, s')" "disk_database s' = Some [1, 9]"
    by blast
  have "current_version_of Some [1 :: int] = 1" by (simp add: current_version_of_def)
  then show ?thesis using migration_backed_up [where s = ?s and d = "[1]" and now = new_year and retention = 14 and blank = "[]" and versions = Some and files = ?files] s' files
    by (auto simp: db_names_def)
qed

text \<open>What has been recorded is found again.\<close>

definition versions_in :: "('d \<Rightarrow> int list option) \<Rightarrow> 'd \<Rightarrow> int list" where
  "versions_in versions d = (case versions d of None \<Rightarrow> [] | Some vs \<Rightarrow> vs)"

definition records_its_version :: "('d \<Rightarrow> int list option) \<Rightarrow> string \<times> ('d, unit) op \<Rightarrow> bool" where
  \<comment> \<open>the convention of the migration files: the last statement inserts the row of the version\<close>
  "records_its_version versions f \<longleftrightarrow> (\<forall>v d d'. file_version (fst f) = Inr v \<longrightarrow> snd f d = (Inr (), d') \<longrightarrow>
     versions_in versions d' = versions_in versions d @ [v])"

lemma current_version_max: "current_version_of versions d = (case versions_in versions d of [] \<Rightarrow> 0 | v # vs \<Rightarrow> foldl max v vs)"
  by (simp add: current_version_of_def versions_in_def split: option.split list.split)

lemma foldl_max_append: "foldl max a xs \<le> foldl max a (xs @ ys)" for a :: int
proof -
  have "b \<le> foldl max b ys" for b by (rule foldl_max) simp
  then show ?thesis by simp
qed

text \<open>Migrations run once: when every file inserts the row of its version, a pass that returns has run exactly
  the pending files, in the order of their names, and the next startup runs nothing, makes no backup and
  leaves the disk as it is.\<close>
theorem migrations_run_once:
  assumes conv: "\<forall>f \<in> set files. records_its_version versions f" and db: "disk_database s = Some d"
    and run: "migrate blank versions retention files now s = (Inr vs, s')"
  shows "(\<exists>ps. pending_files (current_version_of versions d) (sort_key fst files) = Inr ps \<and> vs = map fst ps)
    \<and> migrate blank versions retention files later s' = (Inr [], s')"
proof -
  let ?files = "sort_key fst files"
  obtain ps where ps: "pending_files (current_version_of versions d) ?files = Inr ps"
    using run by (auto simp: migrate_eq [OF db] split: sum.splits)
  show ?thesis
  proof (cases ps)
    case Nil
    then have "s' = s" and "vs = []" using ps run by (auto simp: migrate_eq [OF db])
    then show ?thesis using ps Nil db by (simp add: migrate_eq [OF db])
  next
    case (Cons q qs)
    then obtain d' where scripts: "run_scripts ps d = (Inr vs, d')" and db': "disk_database s' = Some d'"
      using ps run by (auto simp: migrate_eq [OF db] Let_def split: prod.splits)
    have step: "versions_in versions y = versions_in versions x @ [v]"
      if "(v, script) \<in> set ps" "script x = (Inr (), y)" for v script x y
      using pending_files_sound [OF ps that(1)] conv that(2) by (force simp: records_its_version_def)
    have ran: "vs = map fst ps \<and> versions_in versions d' = versions_in versions d @ map id vs"
      by (rule run_scripts_record [OF scripts]) (use step in auto)
    have new: "v \<le> current_version_of versions d'" if "v \<in> fst ` set ps" for v
    proof (cases "versions_in versions d'")
      case (Cons w ws)
      have "v \<in> set (versions_in versions d')" using that ran by auto
      then show ?thesis using foldl_max [of v w ws] Cons by (auto simp: current_version_max)
    qed (use ran that in auto)
    have le: "current_version_of versions d \<le> current_version_of versions d'"
    proof (cases "versions_in versions d")
      case Nil
      have "0 < fst q" using pending_files_sound [OF ps, of "fst q" "snd q"] Cons Nil by (simp add: current_version_max)
      then show ?thesis using new [of "fst q"] Cons Nil by (simp add: current_version_max)
    next
      case (Cons w ws)
      then show ?thesis using ran foldl_max_append [of w ws vs] by (simp add: current_version_max)
    qed
    have "pending_files (current_version_of versions d') ?files = Inr []" by (rule nothing_left [OF ps le new])
    then show ?thesis using ps ran by (simp add: migrate_eq [OF db'])
  qed
qed

lemma migrations_run_once_witness:
  "\<exists>s'. migrate [] Some 14 [(''001_a.sql'', note_version 1), (''002_b.sql'', note_version 2)] new_year
      \<lparr>disk_database = Some [1], disk_backups = None\<rparr> = (Inr [2], s')
    \<and> migrate [] Some 14 [(''001_a.sql'', note_version 1), (''002_b.sql'', note_version 2)] night s' = (Inr [], s')"
proof -
  let ?s = "\<lparr>disk_database = Some [1 :: int], disk_backups = None\<rparr>"
  let ?files = "[(''001_a.sql'', note_version 1), (''002_b.sql'', note_version 2)]"
  have v: "file_version ''001_a.sql'' = Inr 1" "file_version ''002_b.sql'' = Inr 2" by code_simp+
  have conv: "\<forall>f \<in> set ?files. records_its_version Some f"
    by (auto simp: records_its_version_def v note_version_def versions_in_def)
  have "''001_a.sql'' \<le> ''002_b.sql''" by code_simp
  then have sorted: "sort_key fst ?files = ?files" by simp
  have "\<exists>s'. migrate [] Some 14 ?files new_year ?s = (Inr [2], s')"
    unfolding migrate_eq [of ?s "[1]", simplified] sorted
    by (simp add: v res_bind_def current_version_of_def op_bind_def op_return_def note_version_def Let_def)
  then obtain s' where run: "migrate [] Some 14 ?files new_year ?s = (Inr [2], s')" by blast
  have db: "disk_database ?s = Some [1]" by simp
  show ?thesis using migrations_run_once [OF conv db run, of night] run by blast
qed

end
