(* ===== verification/Configuration.thy ===== *)
theory Configuration
  imports Ollama_Adapter
begin

text \<open>
  \<open>core/config.py\<close>: the reader of the \<open>.env\<close> file and \<open>Config.load\<close>. The environment of the process is a map,
  the file is absent or the text that \<open>read_text\<close> returns.
\<close>

section \<open>Lines\<close>

definition line_break :: "char \<Rightarrow> bool" where
  \<comment> \<open>the separators of \<open>str.splitlines\<close>\<close>
  "line_break c \<longleftrightarrow> (let n = (of_char c :: nat) in 10 \<le> n \<and> n \<le> 13 \<or> 28 \<le> n \<and> n \<le> 30 \<or> n = 133)"

fun merge_crlf :: "string \<Rightarrow> string" where
  \<comment> \<open>a carriage return with its line feed is one separator\<close>
  "merge_crlf (c # d # cs) = (if c = CHR 0x0D \<and> d = CHR 0x0A then d # merge_crlf cs else c # merge_crlf (d # cs))"
| "merge_crlf cs = cs"

fun lines_from :: "string \<Rightarrow> string \<Rightarrow> string list" where
  "lines_from line [] = (if line = [] then [] else [line])"
| "lines_from line (c # cs) = (if line_break c then line # lines_from [] cs else lines_from (line @ [c]) cs)"

definition split_lines :: "string \<Rightarrow> string list" where
  "split_lines t = lines_from [] (merge_crlf t)"

section \<open>The .env file\<close>

definition strip_char :: "char \<Rightarrow> string \<Rightarrow> string" where
  \<comment> \<open>\<open>text.strip(char)\<close>\<close>
  "strip_char x t = strip_right x (dropWhile (\<lambda>c. c = x) t)"

definition env_line :: "string \<Rightarrow> (string \<rightharpoonup> string) \<Rightarrow> (string \<rightharpoonup> string)" where
  "env_line raw values_read = (let line = py_strip raw in
     if line = [] \<or> hd line = CHR ''#'' then values_read
     else if CHR ''='' \<notin> set line then values_read
     else values_read(py_strip (part_before (CHR ''='') line) \<mapsto>
       strip_char (CHR 0x27) (strip_char (CHR 0x22) (py_strip (part_after (CHR ''='') line)))))"

definition parse_env_file :: "string option \<Rightarrow> (string \<rightharpoonup> string)" where
  "parse_env_file env_file = (case env_file of None \<Rightarrow> Map.empty | Some t \<Rightarrow> fold env_line (split_lines t) Map.empty)"

section \<open>Config.load()\<close>

record config =
  cg_discord_token :: string
  cg_discord_command_prefix :: "string option"
  cg_ollama_host :: "string option"
  cg_ollama_model :: "string option"
  cg_db_path :: string
  cg_backup_retention_count :: int
  cg_chaster_api_token :: "string option"
  cg_apple_health_api_key :: "string option"
  cg_chaster_client_id :: "string option"
  cg_chaster_redirect_uri :: "string option"
  cg_chaster_callback_bind_host :: string
  cg_chaster_callback_bind_port :: int
  cg_chaster_client_secret :: "string option"
  cg_chaster_token_encryption_key :: "string option"
  cg_chaster_emergency_bind_host :: string
  cg_chaster_emergency_bind_port :: int
  cg_chaster_emergency_unlock_secret :: "string option"
  cg_log_level :: "string option"
  cg_quiet_hours_start :: "string option"
  cg_quiet_hours_end :: "string option"

datatype config_error = Config_Error | Bad_Number exn

definition py_or :: "string option \<Rightarrow> string option \<Rightarrow> string option" where
  \<comment> \<open>\<open>a or b\<close>: None and the empty text are false\<close>
  "py_or a b = (case a of None \<Rightarrow> b | Some [] \<Rightarrow> b | Some (c # cs) \<Rightarrow> Some (c # cs))"

definition setting :: "(string \<rightharpoonup> string) \<Rightarrow> (string \<rightharpoonup> string) \<Rightarrow> string \<Rightarrow> string option \<Rightarrow> string option" where
  \<comment> \<open>\<open>get\<close> of \<open>load\<close>\<close>
  "setting environ file_values key fallback = py_or (py_or (environ key) (file_values key)) fallback"

definition text_or :: "string option \<Rightarrow> string \<Rightarrow> string" where
  "text_or a fallback = the (py_or a (Some fallback))"

definition number :: "string \<Rightarrow> config_error + int" where
  "number t = (case text_int t of Inl e \<Rightarrow> Inl (Bad_Number e) | Inr n \<Rightarrow> Inr n)"

definition load_config :: "string \<Rightarrow> (string \<rightharpoonup> string) \<Rightarrow> string option \<Rightarrow> config_error + config" where
  \<comment> \<open>\<open>default_path\<close> is \<open>DEFAULT_DB_PATH\<close>\<close>
  "load_config default_path environ env_file = (let get = setting environ (parse_env_file env_file) in
     case get ''DISCORD_TOKEN'' None of
       None \<Rightarrow> Inl Config_Error
     | Some [] \<Rightarrow> Inl Config_Error
     | Some token \<Rightarrow>
         (case number (text_or (get ''BACKUP_RETENTION_COUNT'' (Some ''14'')) ''14'') of Inl e \<Rightarrow> Inl e | Inr retention \<Rightarrow>
         (case number (text_or (get ''CHASTER_CALLBACK_BIND_PORT'' (Some ''8420'')) ''8420'') of Inl e \<Rightarrow> Inl e | Inr callback_port \<Rightarrow>
         (case number (text_or (get ''CHASTER_EMERGENCY_BIND_PORT'' (Some ''8421'')) ''8421'') of Inl e \<Rightarrow> Inl e | Inr emergency_port \<Rightarrow>
         Inr \<lparr>cg_discord_token = token,
           cg_discord_command_prefix = get ''DISCORD_COMMAND_PREFIX'' (Some ''!''),
           cg_ollama_host = get ''OLLAMA_HOST'' (Some ''http://localhost:11434''),
           cg_ollama_model = get ''OLLAMA_MODEL'' (Some ''llama3.1''),
           cg_db_path = text_or (get ''DB_PATH'' None) default_path,
           cg_backup_retention_count = retention,
           cg_chaster_api_token = get ''CHASTER_API_TOKEN'' None,
           cg_apple_health_api_key = get ''APPLE_HEALTH_API_KEY'' None,
           cg_chaster_client_id = get ''CHASTER_CLIENT_ID'' None,
           cg_chaster_redirect_uri = get ''CHASTER_REDIRECT_URI'' None,
           cg_chaster_callback_bind_host = text_or (get ''CHASTER_CALLBACK_BIND_HOST'' (Some ''127.0.0.1'')) ''127.0.0.1'',
           cg_chaster_callback_bind_port = callback_port,
           cg_chaster_client_secret = get ''CHASTER_CLIENT_SECRET'' None,
           cg_chaster_token_encryption_key = get ''CHASTER_TOKEN_ENCRYPTION_KEY'' None,
           cg_chaster_emergency_bind_host = text_or (get ''CHASTER_EMERGENCY_BIND_HOST'' (Some ''127.0.0.1'')) ''127.0.0.1'',
           cg_chaster_emergency_bind_port = emergency_port,
           cg_chaster_emergency_unlock_secret = get ''CHASTER_EMERGENCY_UNLOCK_SECRET'' None,
           cg_log_level = get ''LOG_LEVEL'' (Some ''INFO''),
           cg_quiet_hours_start = get ''QUIET_HOURS_START'' (Some ''22:00''),
           cg_quiet_hours_end = get ''QUIET_HOURS_END'' (Some ''07:00'')\<rparr>))))"

section \<open>Reading back what was written\<close>

definition env_text :: "(string \<times> string) list \<Rightarrow> string" where
  \<comment> \<open>the file with one line \<open>KEY=VALUE\<close> per setting\<close>
  "env_text kvs = concat (map (\<lambda>(k, v). k @ ''='' @ v @ [CHR 0x0A]) kvs)"

definition trimmed :: "string \<Rightarrow> bool" where
  "trimmed t \<longleftrightarrow> t = [] \<or> \<not> py_space (hd t) \<and> \<not> py_space (last t)"

definition one_line :: "string \<Rightarrow> bool" where
  "one_line t \<longleftrightarrow> list_all (\<lambda>c. \<not> line_break c) t"

definition plain_key :: "string \<Rightarrow> bool" where
  "plain_key k \<longleftrightarrow> k \<noteq> [] \<and> hd k \<noteq> CHR ''#'' \<and> CHR ''='' \<notin> set k \<and> trimmed k \<and> one_line k"

definition plain_value :: "string \<Rightarrow> bool" where
  "plain_value v \<longleftrightarrow> trimmed v \<and> one_line v \<and>
     (v = [] \<or> hd v \<notin> {CHR 0x22, CHR 0x27} \<and> last v \<notin> {CHR 0x22, CHR 0x27})"

lemma strip_trimmed: "trimmed t \<Longrightarrow> py_strip t = t"
  by (cases "t = []") (auto simp: trimmed_def py_strip_def dropWhile_hd hd_rev)

lemma strip_char_id: "t = [] \<or> hd t \<noteq> x \<and> last t \<noteq> x \<Longrightarrow> strip_char x t = t"
  by (cases "t = []") (auto simp: strip_char_def strip_right_def dropWhile_hd hd_rev)

lemma not_space_equals: "\<not> py_space (CHR ''='')"
  by (simp add: py_space_def)

lemma env_line_plain:
  assumes "plain_key k" and "plain_value v"
  shows "env_line (k @ CHR ''='' # v) m = m(k \<mapsto> v)"
proof -
  have "trimmed (k @ CHR ''='' # v)"
    using assms not_space_equals by (auto simp: plain_key_def plain_value_def trimmed_def)
  then have "py_strip (k @ CHR ''='' # v) = k @ CHR ''='' # v" by (rule strip_trimmed)
  moreover have "part_before (CHR ''='') (k @ CHR ''='' # v) = k" "part_after (CHR ''='') (k @ CHR ''='' # v) = v"
    using assms(1) by (auto simp: plain_key_def part_before_def part_after_def takeWhile_append dropWhile_append)
  moreover have "py_strip k = k" "py_strip v = v"
    using assms by (simp_all add: plain_key_def plain_value_def strip_trimmed)
  moreover have "strip_char (CHR 0x27) (strip_char (CHR 0x22) v) = v"
    using assms(2) by (auto simp: plain_value_def strip_char_id)
  ultimately show ?thesis using assms(1) by (simp add: env_line_def plain_key_def Let_def)
qed

lemma merge_crlf_id: "CHR 0x0D \<notin> set t \<Longrightarrow> merge_crlf t = t"
  by (induction t rule: merge_crlf.induct) auto

lemma lines_from_line: "one_line l \<Longrightarrow> line_break c \<Longrightarrow> lines_from acc (l @ c # rest) = (acc @ l) # lines_from [] rest"
  by (induction l arbitrary: acc) (auto simp: one_line_def)

lemma newline_break: "line_break (CHR 0x0A)" "line_break (CHR 0x0D)" "\<not> line_break (CHR ''='')"
  by (simp_all add: line_break_def)

lemma split_env_text:
  assumes "list_all (\<lambda>(k, v). plain_key k \<and> plain_value v) kvs"
  shows "split_lines (env_text kvs) = map (\<lambda>(k, v). k @ CHR ''='' # v) kvs"
proof -
  have line: "one_line (k @ CHR ''='' # v)" if "plain_key k" "plain_value v" for k v
    using that newline_break(3) by (simp add: plain_key_def plain_value_def one_line_def)
  have "CHR 0x0D \<notin> set (env_text kvs)"
    using assms newline_break(2) line
    by (fastforce simp: env_text_def list_all_iff plain_key_def plain_value_def one_line_def)
  moreover have "lines_from [] (env_text kvs) = map (\<lambda>(k, v). k @ CHR ''='' # v) kvs"
    using assms
  proof (induction kvs)
    case (Cons kv kvs)
    obtain k v where kv: "kv = (k, v)" by (cases kv)
    have "env_text (kv # kvs) = (k @ CHR ''='' # v) @ CHR 0x0A # env_text kvs" by (simp add: env_text_def kv)
    then show ?case
      using Cons lines_from_line [OF line newline_break(1), of k v "[]" "env_text kvs"] by (simp add: kv)
  qed (simp add: env_text_def)
  ultimately show ?thesis by (simp add: split_lines_def merge_crlf_id)
qed

text \<open>What is written into the settings file is what the program reads: a file with one line
  \<open>KEY=VALUE\<close> per setting (a key without \<open>=\<close> and not a comment, neither of them with white space or
  quotes at its ends or a line break) gives exactly these settings, the last one when a key is
  repeated; a value may contain \<open>=\<close> and \<open>#\<close>.\<close>
theorem env_file_roundtrip:
  assumes "list_all (\<lambda>(k, v). plain_key k \<and> plain_value v) kvs"
  shows "parse_env_file (Some (env_text kvs)) = map_of (rev kvs)"
proof -
  have "fold env_line (map (\<lambda>(k, v). k @ CHR ''='' # v) kvs) m = m ++ map_of (rev kvs)" for m
    using assms
  proof (induction kvs arbitrary: m)
    case (Cons kv kvs)
    obtain k v where kv: "kv = (k, v)" by (cases kv)
    then show ?case using Cons env_line_plain [of k v m] by (auto simp: map_add_def fun_eq_iff split: option.split)
  qed simp
  then show ?thesis by (simp add: parse_env_file_def split_env_text [OF assms])
qed

lemma env_file_roundtrip_witness:
  "parse_env_file (Some (env_text [(''DB_PATH'', ''a''), (''DISCORD_TOKEN'', ''x=#y''), (''DB_PATH'', [])])) ''DB_PATH'' = Some []
   \<and> parse_env_file (Some (env_text [(''DB_PATH'', ''a''), (''DISCORD_TOKEN'', ''x=#y''), (''DB_PATH'', [])])) ''DISCORD_TOKEN''
     = Some ''x=#y''"
proof -
  have "list_all (\<lambda>(k, v). plain_key k \<and> plain_value v) [(''DB_PATH'', ''a''), (''DISCORD_TOKEN'', ''x=#y''), (''DB_PATH'', [])]"
    by code_simp
  from env_file_roundtrip [OF this] show ?thesis by simp
qed

section \<open>When the configuration is refused\<close>

definition chosen :: "(string \<rightharpoonup> string) \<Rightarrow> string option \<Rightarrow> string \<Rightarrow> string option" where
  \<comment> \<open>a setting that is not empty, the environment before the file\<close>
  "chosen environ env_file key = (if environ key \<notin> {None, Some []} then environ key
     else if parse_env_file env_file key \<notin> {None, Some []} then parse_env_file env_file key else None)"

lemma setting_chosen: "setting environ (parse_env_file env_file) key fallback =
    (case chosen environ env_file key of None \<Rightarrow> fallback | Some t \<Rightarrow> Some t)"
  by (auto simp: setting_def py_or_def chosen_def split: option.split list.split)

lemma chosen_nonempty: "chosen environ env_file key \<noteq> Some []"
  by (auto simp: chosen_def)

lemma number_setting:
  assumes "fallback \<noteq> []"
  shows "text_or (setting environ (parse_env_file env_file) key (Some fallback)) fallback =
    (case chosen environ env_file key of None \<Rightarrow> fallback | Some t \<Rightarrow> t)"
  using chosen_nonempty [of environ env_file key] assms
  by (auto simp: setting_chosen text_or_def py_or_def split: option.split list.split)

lemma default_numbers: "text_int ''14'' = Inr 14" "text_int ''8420'' = Inr 8420" "text_int ''8421'' = Inr 8421"
  by code_simp+

definition malformed_number :: "(string \<rightharpoonup> string) \<Rightarrow> string option \<Rightarrow> string \<Rightarrow> bool" where
  "malformed_number environ env_file key = (case chosen environ env_file key of None \<Rightarrow> False
     | Some t \<Rightarrow> (case text_int t of Inl e \<Rightarrow> True | Inr n \<Rightarrow> False))"

lemma number_outcome:
  assumes "text_int fallback = Inr n"
  shows "case number (text_or (setting environ (parse_env_file env_file) key (Some fallback)) fallback) of
      Inl e \<Rightarrow> e = Bad_Number ValueError \<and> malformed_number environ env_file key
    | Inr k \<Rightarrow> \<not> malformed_number environ env_file key
        \<and> k = (case chosen environ env_file key of None \<Rightarrow> n | Some t \<Rightarrow> (case text_int t of Inl e \<Rightarrow> 0 | Inr i \<Rightarrow> i))"
proof -
  have "fallback \<noteq> []" using assms by (auto simp: text_int_def py_strip_def)
  then show ?thesis unfolding number_setting [OF \<open>fallback \<noteq> []\<close>] using assms
    by (auto simp: number_def malformed_number_def dest: text_int_error split: sum.split option.split)
qed

definition number_keys :: "string list" where
  "number_keys = [''BACKUP_RETENTION_COUNT'', ''CHASTER_CALLBACK_BIND_PORT'', ''CHASTER_EMERGENCY_BIND_PORT'']"

text \<open>Loading the configuration, on every branch: the environment wins over the file unless its entry is
  empty; without a token there is the documented error, with one a malformed number is the only other
  failure, a \<open>ValueError\<close>; otherwise the token and the three numbers are the chosen settings, or
  14 backups and the ports 8420 and 8421.\<close>
theorem load_config_outcome:
  "case load_config default_path environ env_file of
      Inl Config_Error \<Rightarrow> chosen environ env_file ''DISCORD_TOKEN'' = None
    | Inl (Bad_Number e) \<Rightarrow> e = ValueError \<and> chosen environ env_file ''DISCORD_TOKEN'' \<noteq> None
        \<and> list_ex (malformed_number environ env_file) number_keys
    | Inr c \<Rightarrow> chosen environ env_file ''DISCORD_TOKEN'' = Some (cg_discord_token c)
        \<and> \<not> list_ex (malformed_number environ env_file) number_keys
        \<and> cg_db_path c = (case chosen environ env_file ''DB_PATH'' of None \<Rightarrow> default_path | Some p \<Rightarrow> p)
        \<and> (chosen environ env_file ''BACKUP_RETENTION_COUNT'' = None \<longrightarrow> cg_backup_retention_count c = 14)
        \<and> (\<forall>t. chosen environ env_file ''BACKUP_RETENTION_COUNT'' = Some t \<longrightarrow> text_int t = Inr (cg_backup_retention_count c))
        \<and> (\<forall>t. chosen environ env_file ''CHASTER_CALLBACK_BIND_PORT'' = Some t \<longrightarrow> text_int t = Inr (cg_chaster_callback_bind_port c))
        \<and> (\<forall>t. chosen environ env_file ''CHASTER_EMERGENCY_BIND_PORT'' = Some t \<longrightarrow> text_int t = Inr (cg_chaster_emergency_bind_port c))"
proof -
  note r = number_outcome [OF default_numbers(1), of environ env_file "''BACKUP_RETENTION_COUNT''"]
  note c = number_outcome [OF default_numbers(2), of environ env_file "''CHASTER_CALLBACK_BIND_PORT''"]
  note e = number_outcome [OF default_numbers(3), of environ env_file "''CHASTER_EMERGENCY_BIND_PORT''"]
  have path: "text_or (setting environ (parse_env_file env_file) ''DB_PATH'' None) default_path
      = (case chosen environ env_file ''DB_PATH'' of None \<Rightarrow> default_path | Some p \<Rightarrow> p)"
    using chosen_nonempty [of environ env_file "''DB_PATH''"]
    by (auto simp: setting_chosen text_or_def py_or_def split: option.split list.split)
  show ?thesis
  proof (cases "chosen environ env_file ''DISCORD_TOKEN''")
    case None
    then show ?thesis by (simp add: load_config_def Let_def setting_chosen)
  next
    case (Some token)
    then obtain x xs where token: "token = x # xs" using chosen_nonempty [of environ env_file "''DISCORD_TOKEN''"] by (cases token) auto
    show ?thesis
      using r c e path Some token
      by (simp add: load_config_def Let_def setting_chosen [of _ _ "''DISCORD_TOKEN''"] number_keys_def
          split: sum.splits)
        (auto simp: malformed_number_def split: option.splits sum.splits)
  qed
qed

definition sample_environ :: "string \<rightharpoonup> string" where
  "sample_environ = [''DISCORD_TOKEN'' \<mapsto> ''t'', ''DB_PATH'' \<mapsto> []]"

text \<open>An empty variable does not hide the setting of the file.\<close>

lemma load_config_outcome_witness:
  "chosen sample_environ (Some (env_text [(''DB_PATH'', ''a'')])) ''DB_PATH'' = Some ''a''
   \<and> (case load_config ''d'' sample_environ (Some (env_text [(''DB_PATH'', ''a'')])) of
        Inl e \<Rightarrow> False | Inr c \<Rightarrow> cg_discord_token c = ''t'' \<and> cg_db_path c = ''a'' \<and> cg_backup_retention_count c = 14)"
proof -
  let ?file = "Some (env_text [(''DB_PATH'', ''a'')])"
  have "list_all (\<lambda>(k, v). plain_key k \<and> plain_value v) [(''DB_PATH'', ''a'')]" by code_simp
  from split_env_text [OF this] have contents: "parse_env_file ?file = [''DB_PATH'' \<mapsto> ''a'']"
    using env_line_plain [of "''DB_PATH''" "''a''"] \<open>list_all _ _\<close> by (simp add: parse_env_file_def)
  have token: "chosen sample_environ ?file ''DISCORD_TOKEN'' = Some ''t''"
    and path: "chosen sample_environ ?file ''DB_PATH'' = Some ''a''"
    and other: "list_all (\<lambda>k. chosen sample_environ ?file k = None) number_keys"
    by (simp_all add: chosen_def contents sample_environ_def number_keys_def)
  then have fine: "\<not> list_ex (malformed_number sample_environ ?file) number_keys"
    by (simp add: malformed_number_def number_keys_def)
  show ?thesis
    using load_config_outcome [where default_path = "''d''" and environ = sample_environ and env_file = ?file] token path other fine
    by (auto simp: number_keys_def split: sum.splits config_error.splits)
qed

end
