(* ===== verification/Spec2Isabelle.thy ===== *)
theory Spec2Isabelle
  imports System_Startup System_Properties Trust_Properties Penalty_Properties Infrastructure_Properties
    Iso_Text Subject_Queue Chaster_Properties Application_Commands
    Ollama_Properties Plugin_Properties Preference_Profile Audit_Properties Backup_Properties Configuration
begin

text \<open>
  A verification library for the AI coach and keyholder bot. This theory imports everything; it holds
  this overview only.

  The program. A Discord adapter hands every direct message to \<open>ApplicationService.handle_message\<close>
  (\<open>src/application/service.py\<close>), which resolves the sender, runs the onboarding state machine, then
  either a registered command or the conversation engine. Commands are operations of domain modules (trust,
  penalty windows, recovery plans, goals, operating mode, lock reports, task catalog and runtime, the Chaster
  integration), each a repository over one SQLite database. The modules do not call each other; a module
  writes an event in the transaction of its own change (the transactional outbox,
  \<open>src/infrastructure/outbox.py\<close>), and a publisher delivers it to the handlers registered in
  \<open>src/system/startup.py\<close>, which perform public operations of other modules.

  How it is modelled. A database is a record of tables (lists of rows, in order of insertion); each module
  extends the record of the module below it, so the operations of a module are polymorphic in what extends it:
  \<open>outbox_db\<close>, then the startup lease, trust, penalty, recovery, goal and mode tables, accounts, preferences,
  lock reports, catalog, assignments, Chaster tables and, last, the tables of plugins. \<open>audit_db\<close> (the older store of
  \<open>src/database/database.py\<close>) extends the outbox on its own. \<open>('s, 'a) op\<close> is an operation that returns a value or an
  exception together with the state it leaves, \<open>('s, 'a) tx\<close> the block of one transaction seen from outside
  (on an error there is nothing to continue from); \<open>atomically\<close> and \<open>transition\<close> (\<open>apply_transition\<close> in
  \<open>src/infrastructure/database.py\<close>) commit or roll back. That view is proved of \<open>transaction\<close> in Store, where the
  statements of a block write to an uncommitted copy, partial writes of a failing block included, under the
  write lock of BEGIN IMMEDIATE. Every \<open>raise\<close> is a value of the type \<open>exn\<close>.
  An instant is an \<open>int\<close> of microseconds; the order of stored timestamp texts, which is not quite that of
  instants, is \<open>iso_le\<close>. Durations, scores and credits are \<open>real\<close>. Integers of Python are unbounded and so
  need no width.

  Theories and sources.
  Prelude, Store, Texts, Time_Format, Iso_Text: exceptions, transactions
  (\<open>infrastructure/database.py\<close>), texts, timestamps (\<open>infrastructure/time_format.py\<close>).
  Outbox, Consumers, Startup_Lease, Infrastructure_Properties: \<open>infrastructure/outbox.py\<close>,
  \<open>consumer_registry.py\<close>, \<open>startup_lease.py\<close>.
  Trust_*: \<open>trust_manager\<close>. Penalty_*, Incident_Source: \<open>penalty_engine\<close>. Recovery_*: \<open>recovery_plan\<close>.
  Goal_Management, Goal_Facts, Goal_Properties: \<open>goal_management\<close>. Advanced_Mode, Mode_*: \<open>advanced_mode\<close>.
  System, System_*, Delivery, Frames: \<open>system/startup.py\<close>, runs of the whole system, what a module leaves
  alone and why a due reaction eventually happens.
  Accounts, Onboarding*, Identity_Catalog, Lock_State, Task_Catalog, Task_Runtime, Catalog_Facts, User_*:
  \<open>application/user_service.py\<close>, \<open>application/onboarding_service.py\<close>, \<open>ai/identity_catalog.py\<close>, \<open>lock_state\<close>,
  \<open>task_catalog\<close>, \<open>task_runtime\<close>.
  Working_Memory, Conversation, Conversation_Properties, Subject_Queue, Ollama_*: \<open>memory_system\<close> and
  \<open>conversation_engine\<close>, with the adapter of the language model.
  Chaster_*: \<open>chaster\<close>. Application, Application_*, App_State: \<open>application/router.py\<close>, \<open>application/service.py\<close>
  and the composition in \<open>bot/discord_bot.py\<close>.
  Plugin_*, Migrations, Goal_Celebration: \<open>infrastructure/plugin_*.py\<close>, \<open>plugins/goal_celebration\<close>.
  Preference_Profile: \<open>preference_profile\<close>. Audit_*, Backups, Backup_Properties: \<open>database\<close>.
  Configuration: \<open>core/config.py\<close>.

  What the lemmas show. For each module there is an invariant of its tables (\<open>outbox_ok\<close>, \<open>trust_ok\<close>,
  \<open>penalty_ok\<close>, \<open>recovery_ok\<close>, \<open>goal_ok\<close>, \<open>mode_ok\<close>, and those of the user-facing and Chaster tables) with
  one preservation lemma per operation, the closed form of each operation on every branch, and properties
  over them. The locales of Frames and its kin state what a module may touch; an interpretation carries an invariant of one
  module through the operations of all others, so that \<open>System_Run\<close> can treat any interleaving of public
  operations, publisher rounds (whole or broken off) and startups as an inductive step relation, and
  \<open>Application_Facts\<close> any message. \<open>Delivery\<close> proves that obligations announced by an event are met once the
  publisher has run to the end. \<open>answers\<close> (\<open>Application_Answers\<close>) is total correctness of a handler: it returns and does not raise.

  Loops and bounds. Loops over rows are structural recursions and terminate. The publisher loop is a recursion
  on the number of rounds with batches of 50, as the code bounds it by ten rounds; that this drains what
  the reactions cascade into is proved with a weight per pending event (an incident confirmation 7, the start of a
  window 2, every other event 1), which each delivered batch lowers. The onboarding, mode and queue state machines need
  no fuel.

  Parameters. Code outside the repository is an argument: the HTTP transport of \<open>requests\<close>, the language
  model, \<open>json.loads\<close>, the Fernet cipher (with the law that decryption inverts encryption), random tokens and
  UUIDs (a counter of the database that never repeats; user ids are its texts), and for plugins what
  \<open>importlib\<close> and the file system return. A migration script is the operation SQLite performs for it. The time a
  plugin handler takes is an argument.

  Not modelled, and why. Texts consist of characters below code point 256; the one language name with a letter above is
  left out of the onboarding table. Fixed wording (prompt paragraphs, reply texts, explanations, log messages,
  the archetype of an identity) decides nothing and is left out: a reply is the data it is made from. \<open>fromisoformat\<close> accepts further layouts,
  which no repository writes. Infinite and undefined floats, rounding of floats, and the number syntax of
  JSON are not modelled. Waiting for SQLite's write lock is not modelled (a lock held past the busy timeout raises). Sockets, threads'
  start and stop, opening connections, PRAGMAs, errors of the operating system
  and the Discord event loop are input and output around the modelled functions. The scripts under \<open>src/scripts\<close> are
  development tools and no part of the running system; \<open>src/discord_bot.py\<close>, \<open>src/callback_service.py\<close> and
  \<open>src/oauth_client.py\<close> are stray copies of modules of the packages.
\<close>

end
